(* ===== verification/Prelude.thy ===== *)
theory Prelude
  imports Main
    "HOL-Library.Word"
    "HOL-Library.Monad_Syntax"
    "HOL-Library.Finite_Map"
    "HOL-Library.List_Lexorder"
    "HOL-Library.Char_ord"
begin

text \<open>
  Shared vocabulary of the development: machine words, byte strings, the result type of
  fallible code, ordered maps, and the little-endian codec with its round-trip lemmas.
  A Rust \<open>Result\<close> is a sum (\<open>Err\<close> left, \<open>Ok\<close> right); a Rust \<open>BTreeMap<String, V>\<close> is a
  finite map over strings whose iteration order is the byte-lexicographic order of the keys.
\<close>

unbundle bit_operations_syntax

type_synonym u8 = "8 word"
type_synonym u16 = "16 word"
type_synonym u32 = "32 word"
type_synonym u64 = "64 word"
type_synonym bytes = "u8 list"

named_theorems codec_simps \<open>layout and codec equations\<close>
named_theorems step_simps \<open>definitions of the operations of a component\<close>

section \<open>Results\<close>

abbreviation Ok :: "'a \<Rightarrow> 'e + 'a" where "Ok \<equiv> Inr"
abbreviation Err :: "'e \<Rightarrow> 'e + 'a" where "Err \<equiv> Inl"

text \<open>The question-mark operator: propagate an error, continue with a value.\<close>

definition and_then :: "'e + 'a \<Rightarrow> ('a \<Rightarrow> 'e + 'b) \<Rightarrow> 'e + 'b" where
  "and_then r f = (case r of Err e \<Rightarrow> Err e | Ok a \<Rightarrow> f a)"

lemma and_then_simps [simp]:
  "and_then (Ok a) f = f a"
  "and_then (Err e) f = Err e"
  by (simp_all add: and_then_def)

lemma and_then_eq_Ok: "and_then r f = Ok b \<longleftrightarrow> (\<exists>a. r = Ok a \<and> f a = Ok b)"
  by (cases r) simp_all

definition is_ok :: "'e + 'a \<Rightarrow> bool" where
  "is_ok r = (case r of Err _ \<Rightarrow> False | Ok _ \<Rightarrow> True)"

lemma is_ok_simps [simp]: "is_ok (Ok a)" "\<not> is_ok (Err e)"
  by (simp_all add: is_ok_def)

text \<open>Keep an optional value only when it passes a test (\<open>Option::filter\<close>).\<close>

definition opt_filter :: "('a \<Rightarrow> bool) \<Rightarrow> 'a option \<Rightarrow> 'a option" where
  "opt_filter p x = (case x of None \<Rightarrow> None | Some a \<Rightarrow> if p a then Some a else None)"

lemma opt_filter_simps [simp]:
  "opt_filter p None = None"
  "opt_filter p (Some a) = (if p a then Some a else None)"
  by (simp_all add: opt_filter_def)

lemma opt_filter_eq_Some: "opt_filter p x = Some a \<longleftrightarrow> x = Some a \<and> p a"
  by (cases x) auto

section \<open>Searching a list\<close>

lemma find_append: "find P (xs @ ys) = (case find P xs of Some x \<Rightarrow> Some x | None \<Rightarrow> find P ys)"
  by (induction xs) simp_all

section \<open>Little-endian words\<close>

text \<open>\<open>to_le_bytes\<close> and \<open>from_le_bytes\<close> of the unsigned integer types.\<close>

definition le_bytes :: "'a::len word \<Rightarrow> bytes" where
  "le_bytes w = map (\<lambda>i. ucast (drop_bit (8 * i) w)) [0..<LENGTH('a) div 8]"

definition le_word :: "bytes \<Rightarrow> 'a::len word" where
  "le_word bs = foldr (\<lambda>b acc. ucast b OR push_bit 8 acc) bs 0"

lemma length_le_bytes [simp]: "length (le_bytes (w :: 'a::len word)) = LENGTH('a) div 8"
  by (simp add: le_bytes_def)

lemma bit_le_word:
  "bit (le_word bs :: 'a::len word) n \<longleftrightarrow>
     n < LENGTH('a) \<and> n div 8 < length bs \<and> bit (bs ! (n div 8)) (n mod 8)"
proof (induction bs arbitrary: n)
  case Nil
  then show ?case by (simp add: le_word_def)
next
  case (Cons b bs)
  have rec: "(le_word (b # bs) :: 'a word) = ucast b OR push_bit 8 (le_word bs)"
    by (simp add: le_word_def)
  show ?case
  proof (cases "n < 8")
    case True
    then show ?thesis
      by (auto simp: rec bit_simps)
  next
    case False
    then have nd: "n div 8 = Suc ((n - 8) div 8)"
      and nm: "n mod 8 = (n - 8) mod 8"
      by (simp_all add: le_div_geq le_mod_geq)
    have "\<not> bit b n"
      using False bit_imp_le_length [of b n] by auto
    then show ?thesis
      using False Cons.IH [of "n - 8"]
      by (auto simp: rec bit_simps nd nm)
  qed
qed

lemma le_word_le_bytes [simp, codec_simps]:
  fixes w :: "'a::len word"
  assumes "8 dvd LENGTH('a)"
  shows "le_word (le_bytes w) = w"
proof (rule bit_word_eqI)
  fix n assume n: "n < LENGTH('a)"
  with assms have "n div 8 < LENGTH('a) div 8"
    by (metis dvd_div_mult_self less_mult_imp_div_less)
  with n show "bit (le_word (le_bytes w) :: 'a word) n = bit w n"
    by (auto simp: bit_le_word le_bytes_def bit_simps)
qed

lemma le_bytes_inject:
  fixes v w :: "'a::len word"
  assumes "8 dvd LENGTH('a)" and "le_bytes v = le_bytes w"
  shows "v = w"
  by (metis assms le_word_le_bytes)

lemma le_bytes_le_word [codec_simps]:
  assumes "length bs = LENGTH('a::len) div 8" "8 dvd LENGTH('a)"
  shows "le_bytes (le_word bs :: 'a word) = bs"
proof (rule nth_equalityI)
  fix i assume "i < length (le_bytes (le_word bs :: 'a word))"
  then have i: "i < length bs" using assms(1) by simp
  then have "8 * i + n < LENGTH('a)" if "n < 8" for n
    using assms that by (metis add.commute add_less_mono1 div_mult2_eq dvd_mult_div_cancel less_mult_imp_div_less
        mult.commute mult_Suc_right nat_mult_le_cancel_disj not_less not_less_eq_eq order_less_le_trans Suc_leI)
  moreover have "(8 * i + n) div 8 = i" "(8 * i + n) mod 8 = n" if "n < 8" for n :: nat using that by simp_all
  ultimately show "le_bytes (le_word bs :: 'a word) ! i = bs ! i"
    using i assms(1) by (intro bit_word_eqI) (simp add: le_bytes_def bit_simps bit_le_word)
qed (simp add: assms)

section \<open>Strings as bytes\<close>

text \<open>\<^verbatim>\<open>str::as_bytes\<close>: a string is its list of bytes.\<close>

definition str_bytes :: "string \<Rightarrow> bytes" where
  "str_bytes s = map (\<lambda>c. word_of_nat (of_char c)) s"

lemma length_str_bytes [simp]: "length (str_bytes s) = length s"
  by (simp add: str_bytes_def)

lemma char_byte_inject:
  "(word_of_nat (of_char c) :: u8) = word_of_nat (of_char d) \<longleftrightarrow> c = d"
proof
  assume eq: "(word_of_nat (of_char c) :: u8) = word_of_nat (of_char d)"
  have "unat (word_of_nat (of_char e) :: u8) = of_char e" for e :: char
    by (simp add: unat_of_nat)
  with eq have "(of_char c :: nat) = of_char d"
    by metis
  then show "c = d" by simp
qed simp

lemma str_bytes_inject [simp]: "str_bytes s = str_bytes t \<longleftrightarrow> s = t"
proof -
  have "inj (\<lambda>c. word_of_nat (of_char c) :: u8)"
    by (rule injI) (simp add: char_byte_inject)
  then show ?thesis by (simp add: str_bytes_def inj_map_eq_map)
qed

section \<open>Word order\<close>

lemma word_less_succ: "x \<noteq> - 1 \<Longrightarrow> x < x + (1 :: 'a::len word)"
  by (metis add.commute eq_neg_iff_add_eq_0 lessI unatSuc word_less_nat_alt)

lemma unat_max_u8: "unat (-1 :: u8) = 255"
  by (simp add: unat_eq_nat_uint uint_word_ariths)

lemma unat_u8_le: "unat (t :: u8) \<le> 255"
  using word_le_nat_alt [of t "-1"] unat_max_u8 by simp

section \<open>UTF-8\<close>

text \<open>\<^verbatim>\<open>str::from_utf8\<close>: the bytes as a string, if they are well-formed UTF-8 (RFC 3629).\<close>

definition utf8_cont :: "u8 \<Rightarrow> bool" where
  "utf8_cont b \<longleftrightarrow> 0x80 \<le> b \<and> b \<le> 0xBF"

fun utf8_valid :: "bytes \<Rightarrow> bool" where
  "utf8_valid [] = True"
| "utf8_valid (a # xs) =
     (if a < 0x80 then utf8_valid xs
      else case xs of
        [] \<Rightarrow> False
      | b # ys \<Rightarrow>
          if 0xC2 \<le> a \<and> a \<le> 0xDF then utf8_cont b \<and> utf8_valid ys
          else case ys of
            [] \<Rightarrow> False
          | c # zs \<Rightarrow>
              if a = 0xE0 then 0xA0 \<le> b \<and> b \<le> 0xBF \<and> utf8_cont c \<and> utf8_valid zs
              else if a = 0xED then 0x80 \<le> b \<and> b \<le> 0x9F \<and> utf8_cont c \<and> utf8_valid zs
              else if 0xE1 \<le> a \<and> a \<le> 0xEF then utf8_cont b \<and> utf8_cont c \<and> utf8_valid zs
              else case zs of
                [] \<Rightarrow> False
              | d # ws \<Rightarrow>
                  (if a = 0xF0 then 0x90 \<le> b \<and> b \<le> 0xBF
                   else if a = 0xF4 then 0x80 \<le> b \<and> b \<le> 0x8F
                   else 0xF1 \<le> a \<and> a \<le> 0xF3 \<and> utf8_cont b)
                  \<and> utf8_cont c \<and> utf8_cont d \<and> utf8_valid ws)"

definition from_utf8 :: "bytes \<Rightarrow> string option" where
  "from_utf8 bs = (if utf8_valid bs then Some (map (\<lambda>b. char_of (unat b)) bs) else None)"

lemma str_bytes_char: "str_bytes (map (\<lambda>b. char_of (unat b)) bs) = bs"
proof -
  have "word_of_nat (of_char (char_of (unat b) :: char)) = b" for b :: u8
    using unat_u8_le [of b] by simp
  then show ?thesis by (simp add: str_bytes_def comp_def)
qed

lemma from_utf8_str: "from_utf8 bs = Some s \<Longrightarrow> str_bytes s = bs"
  by (auto simp: from_utf8_def str_bytes_char split: if_splits)

lemma from_utf8_str_bytes: "utf8_valid (str_bytes s) \<Longrightarrow> from_utf8 (str_bytes s) = Some s"
proof -
  have "char_of (unat (word_of_nat (of_char c) :: u8)) = c" for c :: char
    by (simp add: unat_of_nat)
  then show "utf8_valid (str_bytes s) \<Longrightarrow> from_utf8 (str_bytes s) = Some s"
    by (simp add: from_utf8_def) (simp add: str_bytes_def comp_def)
qed

end
