(* ===== verification/NvTypes.thy ===== *)
theory NvTypes
  imports Prelude
begin

text \<open>
  The NV records of \<^verbatim>\<open>crates/nv-store/src/types.rs\<close>: bank sets, the seven record types
  with their byte layout, the reboot-owed mask, and the serialisation trait as a dictionary
  of operations (\<open>nv_record_ops\<close>) with its laws as the locale \<open>nv_record\<close>.
  A fixed-size array \<^verbatim>\<open>[u8; N]\<close> is a byte list whose length the well-formedness predicate of
  the record states. A write past the end of the buffer panics in the source: the
  serialisers return \<open>None\<close> there. Reads happen only behind the \<^verbatim>\<open>buf.len() < size()\<close> guard.
\<close>

section \<open>Banks and bank sets\<close>

datatype bank = A | B

definition other :: "bank \<Rightarrow> bank" where
  "other b = (case b of A \<Rightarrow> B | B \<Rightarrow> A)"

definition bank_u8 :: "bank \<Rightarrow> u8" where
  "bank_u8 b = (case b of A \<Rightarrow> 0 | B \<Rightarrow> 1)"

definition bank_from_u8 :: "u8 \<Rightarrow> bank option" where
  "bank_from_u8 v = (if v = 0 then Some A else if v = 1 then Some B else None)"

lemma other_simps [simp]: "other A = B" "other B = A" "other (other b) = b" "other b \<noteq> b" "b \<noteq> other b"
  by (cases b; simp add: other_def)+

lemma bank_from_u8_inverse [simp, codec_simps]: "bank_from_u8 (bank_u8 b) = Some b"
  by (cases b) (simp_all add: bank_from_u8_def bank_u8_def)

type_synonym bank_set = u8

definition as_index :: "bank_set \<Rightarrow> nat" where
  "as_index s = unat s"

definition MAX_SLOTS :: nat where "MAX_SLOTS = 64"
definition DEFAULT_SLOTS :: nat where "DEFAULT_SLOTS = 16"
definition MAX_TRIAL_BOOTS :: u8 where "MAX_TRIAL_BOOTS = 10"

definition MAGIC_BOOT :: u32 where "MAGIC_BOOT = 0x4E564231"
definition MAGIC_FACTORY :: u32 where "MAGIC_FACTORY = 0x4E564631"
definition MAGIC_FW_META :: u32 where "MAGIC_FW_META = 0x4E564D32"
definition MAGIC_RUNTIME :: u32 where "MAGIC_RUNTIME = 0x4E565231"
definition MAGIC_APP :: u32 where "MAGIC_APP = 0x4E564131"
definition MAGIC_VEHICLE :: u32 where "MAGIC_VEHICLE = 0x4E565631"
definition MAGIC_UPDATE_SESSION :: u32 where "MAGIC_UPDATE_SESSION = 0x4E565531"

lemmas magic_defs = MAGIC_BOOT_def MAGIC_FACTORY_def MAGIC_FW_META_def MAGIC_RUNTIME_def
  MAGIC_APP_def MAGIC_VEHICLE_def MAGIC_UPDATE_SESSION_def

section \<open>Buffer access\<close>

definition put_bytes :: "bytes \<Rightarrow> nat \<Rightarrow> bytes \<Rightarrow> bytes option" where
  "put_bytes buf off src =
     (if off + length src \<le> length buf
      then Some (take off buf @ src @ drop (off + length src) buf) else None)"

definition get_bytes :: "nat \<Rightarrow> bytes \<Rightarrow> nat \<Rightarrow> bytes" where
  "get_bytes n buf off = take n (drop off buf)"

definition get_u8 :: "bytes \<Rightarrow> nat \<Rightarrow> u8" where
  "get_u8 buf off = buf ! off"

definition get_u16_le :: "bytes \<Rightarrow> nat \<Rightarrow> u16" where
  "get_u16_le buf off = le_word (get_bytes 2 buf off)"

definition get_u32_le :: "bytes \<Rightarrow> nat \<Rightarrow> u32" where
  "get_u32_le buf off = le_word (get_bytes 4 buf off)"

definition get_u64_le :: "bytes \<Rightarrow> nat \<Rightarrow> u64" where
  "get_u64_le buf off = le_word (get_bytes 8 buf off)"

lemmas get_word_defs = get_u16_le_def get_u32_le_def get_u64_le_def

text \<open>One serialiser field: the offset and the bytes of a \<^verbatim>\<open>put_*\<close> call or an index assignment.\<close>

type_synonym field = "nat \<times> bytes"

definition put_u16_le :: "nat \<Rightarrow> u16 \<Rightarrow> field" where "put_u16_le off v = (off, le_bytes v)"
definition put_u32_le :: "nat \<Rightarrow> u32 \<Rightarrow> field" where "put_u32_le off v = (off, le_bytes v)"
definition put_u64_le :: "nat \<Rightarrow> u64 \<Rightarrow> field" where "put_u64_le off v = (off, le_bytes v)"
definition put_u8 :: "nat \<Rightarrow> u8 \<Rightarrow> field" where "put_u8 off v = (off, [v])"

fun write_fields :: "field list \<Rightarrow> bytes \<Rightarrow> bytes option" where
  "write_fields [] buf = Some buf"
| "write_fields ((off, src) # fs) buf =
     (case put_bytes buf off src of None \<Rightarrow> None | Some buf' \<Rightarrow> write_fields fs buf')"

lemmas put_defs [codec_simps] = put_u16_le_def put_u32_le_def put_u64_le_def put_u8_def

subsection \<open>Reading back what was written\<close>

text \<open>Fields in ascending, non-overlapping order from \<open>lo\<close>, all within \<open>hi\<close>.\<close>

fun ascending :: "nat \<Rightarrow> nat \<Rightarrow> field list \<Rightarrow> bool" where
  "ascending lo hi [] \<longleftrightarrow> lo \<le> hi"
| "ascending lo hi ((off, src) # fs) \<longleftrightarrow> lo \<le> off \<and> ascending (off + length src) hi fs"

lemma ascending_le: "ascending lo hi fs \<Longrightarrow> lo \<le> hi"
  by (induction lo hi fs rule: ascending.induct) auto

lemma ascending_mono: "ascending lo hi fs \<Longrightarrow> hi \<le> hi' \<Longrightarrow> ascending lo hi' fs"
  by (induction lo hi fs rule: ascending.induct) auto

lemma ascending_append:
  "ascending lo hi (fs @ gs) \<longleftrightarrow> (\<exists>m. ascending lo m fs \<and> ascending m hi gs)"
proof (induction fs arbitrary: lo)
  case Nil
  then show ?case
    by (cases gs) (auto intro: le_trans)
next
  case (Cons f fs)
  then show ?case by (cases f) auto
qed

lemma get_bytes_take:
  "off + n \<le> m \<Longrightarrow> take m b = take m b' \<Longrightarrow> get_bytes n b off = get_bytes n b' off"
  unfolding get_bytes_def
  by (metis (no_types, opaque_lifting) add.commute add_diff_cancel_left' drop_take min.absorb1 take_take le_add_diff_inverse
      le_diff_conv2 add_leD1)

lemma get_bytes_one [simp]: "off < length b \<Longrightarrow> get_bytes (Suc 0) b off = [get_u8 b off]"
  by (simp add: get_bytes_def get_u8_def take_Suc_conv_app_nth hd_drop_conv_nth)

lemma put_bytes_frame:
  assumes "put_bytes buf off src = Some buf'"
  shows "length buf' = length buf" and "take off buf' = take off buf"
    and "get_bytes (length src) buf' off = src"
    and "k + n \<le> off \<Longrightarrow> get_bytes n buf' k = get_bytes n buf k"
  using assms
  by (auto simp: put_bytes_def get_bytes_def min_def drop_take split: if_splits)

lemma write_fields_spec:
  assumes "ascending lo hi fs" and "hi \<le> length buf"
  shows "\<exists>buf'. write_fields fs buf = Some buf' \<and> length buf' = length buf
           \<and> take lo buf' = take lo buf
           \<and> (\<forall>(off, src) \<in> set fs. get_bytes (length src) buf' off = src)"
  using assms
proof (induction fs arbitrary: lo buf)
  case Nil
  then show ?case by simp
next
  case (Cons f fs)
  obtain off src where f: "f = (off, src)" by (cases f)
  have asc: "lo \<le> off" "ascending (off + length src) hi fs"
    using Cons.prems f by simp_all
  then have "off + length src \<le> length buf"
    using ascending_le [OF asc(2)] Cons.prems(2) by simp
  then obtain b1 where b1: "put_bytes buf off src = Some b1"
    by (simp add: put_bytes_def)
  note b1s = put_bytes_frame [OF b1]
  obtain b2 where b2: "write_fields fs b1 = Some b2" "length b2 = length b1"
      "take (off + length src) b2 = take (off + length src) b1"
      "\<forall>(o', s) \<in> set fs. get_bytes (length s) b2 o' = s"
    using Cons.IH [OF asc(2), of b1] Cons.prems(2) b1s(1) by auto
  have "get_bytes (length src) b2 off = src"
    using b1s(3) get_bytes_take [OF _ b2(3), of off "length src"] by simp
  moreover have "take lo b2 = take lo buf"
  proof -
    have "take lo b2 = take lo (take (off + length src) b2)"
      using asc(1) by (simp add: min_def)
    also have "\<dots> = take lo (take off b1)"
      using asc(1) by (simp add: b2(3) min_def)
    also have "\<dots> = take lo buf"
      using asc(1) by (simp add: b1s(2) min_def)
    finally show ?thesis .
  qed
  ultimately show ?case
    using f b1 b2 b1s(1) by auto
qed

lemma get_bytes_length [simp]: "off + n \<le> length b \<Longrightarrow> length (get_bytes n b off) = n"
  by (simp add: get_bytes_def)

section \<open>The record trait\<close>

text \<open>The trait \<^verbatim>\<open>NvRecord\<close> as a dictionary: its constant and its five functions.\<close>

record 'r nv_record_ops =
  rec_magic :: u32
  rec_serialize :: "'r \<Rightarrow> bytes \<Rightarrow> bytes option"
  rec_deserialize :: "bytes \<Rightarrow> 'r option"
  rec_size :: nat
  rec_write_seq :: "'r \<Rightarrow> u32"
  rec_set_write_seq :: "u32 \<Rightarrow> 'r \<Rightarrow> 'r"

text \<open>
  The contract the sector store relies on: a well-formed record serialises into any buffer
  of its size without a panic, magic and sequence number sit at offsets 0 and 4, and
  decoding any buffer that agrees on the first \<open>rec_size\<close> bytes gives the record back.
\<close>

locale nv_record =
  fixes ops :: "'r nv_record_ops" and valid :: "'r \<Rightarrow> bool"
  assumes size_fits: "8 \<le> rec_size ops" "rec_size ops \<le> 4092"
    and serialize_ok: "valid r \<Longrightarrow> rec_size ops \<le> length buf \<Longrightarrow>
       \<exists>b. rec_serialize ops r buf = Some b \<and> length b = length buf"
    and serialize_header: "valid r \<Longrightarrow> rec_size ops \<le> length buf \<Longrightarrow>
       rec_serialize ops r buf = Some b \<Longrightarrow>
       get_u32_le b 0 = rec_magic ops \<and> get_u32_le b 4 = rec_write_seq ops r"
    and roundtrip: "valid r \<Longrightarrow> rec_size ops \<le> length buf \<Longrightarrow>
       rec_serialize ops r buf = Some b \<Longrightarrow> rec_size ops \<le> length b' \<Longrightarrow>
       take (rec_size ops) b' = take (rec_size ops) b \<Longrightarrow> rec_deserialize ops b' = Some r"
    and deserialize_seq: "rec_deserialize ops b = Some r \<Longrightarrow> rec_write_seq ops r = get_u32_le b 4"
    and deserialize_wf: "rec_deserialize ops b = Some r \<Longrightarrow> valid r"
    and seq_set: "rec_write_seq ops (rec_set_write_seq ops s r) = s"
    and wf_set: "valid r \<Longrightarrow> valid (rec_set_write_seq ops s r)"

text \<open>
  A serialiser that is a list of fields in ascending order satisfies the first two laws;
  what remains per record is that the decoder reads those fields.
\<close>

lemma ascending_mem:
  "ascending lo hi fs \<Longrightarrow> (off, src) \<in> set fs \<Longrightarrow> off + length src \<le> hi"
  by (induction lo hi fs rule: ascending.induct) (auto dest: ascending_le)

lemma write_fields_record:
  assumes "ascending 0 sz (put_u32_le 0 m # put_u32_le 4 s # fs)" and "sz \<le> length buf"
  shows "\<exists>b. write_fields (put_u32_le 0 m # put_u32_le 4 s # fs) buf = Some b \<and> length b = length buf"
    and "write_fields (put_u32_le 0 m # put_u32_le 4 s # fs) buf = Some b \<Longrightarrow>
      get_u32_le b 0 = m \<and> get_u32_le b 4 = s"
  using write_fields_spec [OF assms] by (auto simp: put_defs get_u32_le_def)

text \<open>Every field of a written record can be read back through a buffer with the same prefix.\<close>

lemma write_fields_get:
  assumes "ascending 0 sz fs" "sz \<le> length buf" "write_fields fs buf = Some b"
    "take sz b' = take sz b" "(off, src) \<in> set fs" "n = length src"
  shows "get_bytes n b' off = src"
proof -
  have "off + length src \<le> sz"
    using assms(1,5) by (rule ascending_mem)
  moreover have "get_bytes (length src) b off = src"
    using write_fields_spec [OF assms(1,2)] assms(3,5) by auto
  ultimately show ?thesis
    using get_bytes_take [OF _ assms(4)] assms(6) by simp
qed

text \<open>
  How each record meets the contract: its serialiser is a field list in ascending order, and
  its decoder gives the record back from any buffer in which those fields read back.
\<close>

definition fields_read_back :: "field list \<Rightarrow> bytes \<Rightarrow> bool" where
  "fields_read_back fs b \<longleftrightarrow> (\<forall>(off, src) \<in> set fs. get_bytes (length src) b off = src)"

lemma fields_read_back_simps [simp]:
  "fields_read_back [] b"
  "fields_read_back (f # fs) b \<longleftrightarrow> get_bytes (length (snd f)) b (fst f) = snd f \<and> fields_read_back fs b"
  "fields_read_back (fs @ gs) b \<longleftrightarrow> fields_read_back fs b \<and> fields_read_back gs b"
  by (auto simp: fields_read_back_def split: prod.splits)

lemma nv_recordI:
  assumes ser: "\<And>r. rec_serialize ops r =
      write_fields (put_u32_le 0 (rec_magic ops) # put_u32_le 4 (rec_write_seq ops r) # fs r)"
    and asc: "\<And>r. valid r \<Longrightarrow> ascending 8 (rec_size ops) (fs r)"
    and fits: "rec_size ops \<le> 4092"
    and dec: "\<And>r b. valid r \<Longrightarrow> rec_size ops \<le> length b \<Longrightarrow> get_u32_le b 4 = rec_write_seq ops r \<Longrightarrow>
       fields_read_back (fs r) b \<Longrightarrow> rec_deserialize ops b = Some r"
    and dseq: "\<And>r b. rec_deserialize ops b = Some r \<Longrightarrow> rec_write_seq ops r = get_u32_le b 4 \<and> valid r"
    and seq: "\<And>r s. rec_write_seq ops (rec_set_write_seq ops s r) = s"
    and wfs: "\<And>r s. valid r \<Longrightarrow> valid (rec_set_write_seq ops s r)"
    and sz: "8 \<le> rec_size ops"
  shows "nv_record ops valid"
proof unfold_locales
  fix r :: 'a and buf b b' :: bytes
  let ?fs = "put_u32_le 0 (rec_magic ops) # put_u32_le 4 (rec_write_seq ops r) # fs r"
  have asc0: "ascending 0 (rec_size ops) ?fs" if "valid r"
    using asc [OF that] by (simp add: put_defs)
  show "\<exists>b. rec_serialize ops r buf = Some b \<and> length b = length buf"
    if "valid r" "rec_size ops \<le> length buf"
    using write_fields_record(1) [OF asc0 that(2)] that(1) by (simp add: ser)
  show "get_u32_le b 0 = rec_magic ops \<and> get_u32_le b 4 = rec_write_seq ops r"
    if "valid r" "rec_size ops \<le> length buf" "rec_serialize ops r buf = Some b"
    using write_fields_record(2) [OF asc0 that(2)] that(1,3) by (simp add: ser)
  show "rec_deserialize ops b' = Some r"
    if valid: "valid r" and len: "rec_size ops \<le> length buf" and w: "rec_serialize ops r buf = Some b"
      and len': "rec_size ops \<le> length b'" and tk: "take (rec_size ops) b' = take (rec_size ops) b"
  proof -
    have g: "get_bytes n b' off = src" if "(off, src) \<in> set ?fs" "n = length src" for off src n
      using write_fields_get [OF asc0 [OF valid] len _ tk that] w by (simp add: ser)
    have "get_bytes 4 b' 4 = le_bytes (rec_write_seq ops r)"
      by (rule g) (simp_all add: put_defs)
    then have "get_u32_le b' 4 = rec_write_seq ops r"
      by (simp add: get_u32_le_def)
    moreover have "fields_read_back (fs r) b'"
      using g by (auto simp: fields_read_back_def)
    ultimately show ?thesis
      by (rule dec [OF valid len'])
  qed
qed (use dseq seq wfs fits sz in auto)

end
