(* ===== verification/NvRecords.thy ===== *)
theory NvRecords
  imports NvTypes
begin

text \<open>
  The seven NV record types of \<^verbatim>\<open>crates/nv-store/src/types.rs\<close>, each with its fields, its
  default, its serialiser and decoder, and an interpretation of the locale \<open>nv_record\<close> that
  discharges the trait's laws for it.
\<close>

section \<open>Boot state\<close>

record bank_boot_state =
  active_bank :: bank
  committed :: bool
  boot_count :: u8

definition bank_boot_state_default :: bank_boot_state where
  "bank_boot_state_default = \<lparr>active_bank = A, committed = True, boot_count = 0\<rparr>"

record nv_boot_state =
  bst_write_seq :: u32
  banks :: "bank_boot_state list"

definition nv_boot_state_default :: nv_boot_state where
  "nv_boot_state_default = \<lparr>bst_write_seq = 0, banks = replicate MAX_SLOTS bank_boot_state_default\<rparr>"

definition wf_boot_state :: "nv_boot_state \<Rightarrow> bool" where
  "wf_boot_state s \<longleftrightarrow> length (banks s) = MAX_SLOTS"

definition bool_u8 :: "bool \<Rightarrow> u8" where
  "bool_u8 b = (if b then 1 else 0)"

text \<open>The loop over \<^verbatim>\<open>banks.iter().enumerate()\<close>, from index \<open>i\<close>.\<close>

fun bank_fields :: "nat \<Rightarrow> bank_boot_state list \<Rightarrow> field list" where
  "bank_fields i [] = []"
| "bank_fields i (bs # rest) =
     (let off = 8 + i * 3
      in put_u8 off (bank_u8 (active_bank bs))
       # put_u8 (off + 1) (bool_u8 (committed bs))
       # put_u8 (off + 2) (boot_count bs)
       # bank_fields (Suc i) rest)"

definition boot_state_size :: nat where
  "boot_state_size = 8 + 3 * MAX_SLOTS"

definition serialize_boot_state :: "nv_boot_state \<Rightarrow> bytes \<Rightarrow> bytes option" where
  "serialize_boot_state s =
     write_fields (put_u32_le 0 MAGIC_BOOT # put_u32_le 4 (bst_write_seq s) # bank_fields 0 (banks s))"

fun get_banks :: "bytes \<Rightarrow> nat \<Rightarrow> nat \<Rightarrow> bank_boot_state list option" where
  "get_banks buf i 0 = Some []"
| "get_banks buf i (Suc n) =
     (let off = 8 + i * 3
      in case bank_from_u8 (get_u8 buf off) of
           None \<Rightarrow> None
         | Some b \<Rightarrow>
             (case get_banks buf (Suc i) n of
                None \<Rightarrow> None
              | Some rest \<Rightarrow>
                  Some (\<lparr>active_bank = b, committed = (get_u8 buf (off + 1) \<noteq> 0),
                        boot_count = get_u8 buf (off + 2)\<rparr> # rest)))"

definition deserialize_boot_state :: "bytes \<Rightarrow> nv_boot_state option" where
  "deserialize_boot_state buf =
     (if length buf < boot_state_size then None
      else case get_banks buf 0 MAX_SLOTS of
             None \<Rightarrow> None
           | Some bs \<Rightarrow> Some \<lparr>bst_write_seq = get_u32_le buf 4, banks = bs\<rparr>)"

definition boot_state_ops :: "nv_boot_state nv_record_ops" where
  "boot_state_ops = \<lparr>rec_magic = MAGIC_BOOT, rec_serialize = serialize_boot_state,
     rec_deserialize = deserialize_boot_state, rec_size = boot_state_size,
     rec_write_seq = bst_write_seq, rec_set_write_seq = (\<lambda>q s. s\<lparr>bst_write_seq := q\<rparr>)\<rparr>"

subsection \<open>Laws\<close>

lemma ascending_bank_fields:
  "ascending (8 + i * 3) (8 + (i + length bs) * 3) (bank_fields i bs)"
proof (induction bs arbitrary: i)
  case Nil
  then show ?case by simp
next
  case (Cons b bs)
  have "ascending (8 + Suc i * 3) (8 + (Suc i + length bs) * 3) (bank_fields (Suc i) bs)"
    by (rule Cons.IH)
  then show ?case by (simp add: Let_def put_defs)
qed

lemma get_banks_bank_fields:
  assumes "fields_read_back (bank_fields i bs) b"
    and "8 + (i + length bs) * 3 \<le> length b"
  shows "get_banks b i (length bs) = Some bs"
  using assms
proof (induction bs arbitrary: i)
  case Nil
  then show ?case by simp
next
  case (Cons x bs)
  from Cons.prems have "get_u8 b (8 + i * 3) = bank_u8 (active_bank x)"
    "get_u8 b (Suc (8 + i * 3)) = bool_u8 (committed x)"
    "get_u8 b (Suc (Suc (8 + i * 3))) = boot_count x"
    by (auto simp: Let_def put_defs)
  moreover have "get_banks b (Suc i) (length bs) = Some bs"
    by (rule Cons.IH) (use Cons.prems in \<open>auto simp: Let_def\<close>)
  ultimately show ?case
    by (simp add: Let_def bool_u8_def)
qed

lemma get_banks_length: "get_banks b i n = Some bs \<Longrightarrow> length bs = n"
  by (induction b i n arbitrary: bs rule: get_banks.induct) (auto simp: Let_def split: option.splits)

lemma decode_boot_state:
  assumes "wf_boot_state r" "boot_state_size \<le> length b" "get_u32_le b 4 = bst_write_seq r"
    "fields_read_back (bank_fields 0 (banks r)) b"
  shows "deserialize_boot_state b = Some r"
  using get_banks_bank_fields [OF assms(4)] assms(1-3)
  by (simp add: deserialize_boot_state_def wf_boot_state_def boot_state_size_def)

lemma decoded_boot_state:
  "deserialize_boot_state b = Some r \<Longrightarrow> bst_write_seq r = get_u32_le b 4 \<and> wf_boot_state r"
  by (auto simp: deserialize_boot_state_def wf_boot_state_def
      dest: get_banks_length split: if_splits option.splits)

lemma set_seq_boot_state: "wf_boot_state r \<Longrightarrow> wf_boot_state (r\<lparr>bst_write_seq := q\<rparr>)"
  by (simp add: wf_boot_state_def)

interpretation boot_rec: nv_record boot_state_ops wf_boot_state
proof (rule nv_recordI [where fs = "\<lambda>r. bank_fields 0 (banks r)"])
  show "ascending 8 (rec_size boot_state_ops) (bank_fields 0 (banks r))" if "wf_boot_state r" for r
    using ascending_bank_fields [of 0 "banks r"] that
    by (simp add: boot_state_ops_def boot_state_size_def wf_boot_state_def mult.commute)
  show "8 \<le> rec_size boot_state_ops" "rec_size boot_state_ops \<le> 4092"
    by (simp_all add: boot_state_ops_def boot_state_size_def MAX_SLOTS_def)
qed (auto simp: boot_state_ops_def serialize_boot_state_def set_seq_boot_state
      intro: decode_boot_state dest: decoded_boot_state)

section \<open>Factory data\<close>

record nv_factory =
  fac_write_seq :: u32
  serial_number :: bytes
  manufacturing_date :: bytes
  vin :: bytes
  ecu_hw_number :: bytes
  supplier_hw_number :: bytes
  supplier_hw_version :: bytes
  supplier_id :: bytes
  device_type :: u8

definition nv_factory_default :: nv_factory where
  "nv_factory_default = \<lparr>fac_write_seq = 0,
     serial_number = replicate 32 0,
     manufacturing_date = replicate 8 0,
     vin = replicate 17 0,
     ecu_hw_number = replicate 32 0,
     supplier_hw_number = replicate 32 0,
     supplier_hw_version = replicate 32 0,
     supplier_id = replicate 32 0,
     device_type = 0\<rparr>"

definition wf_factory :: "nv_factory \<Rightarrow> bool" where
  "wf_factory r \<longleftrightarrow> length (serial_number r) = 32 \<and> length (manufacturing_date r) = 8 \<and> length (vin r) = 17 \<and> length (ecu_hw_number r) = 32 \<and> length (supplier_hw_number r) = 32 \<and> length (supplier_hw_version r) = 32 \<and> length (supplier_id r) = 32"

definition factory_size :: nat where "factory_size = 200"

definition factory_fields :: "nv_factory \<Rightarrow> field list" where
  "factory_fields r =
     [(8, serial_number r),
      (40, manufacturing_date r),
      (48, vin r),
      (65, ecu_hw_number r),
      (97, supplier_hw_number r),
      (129, supplier_hw_version r),
      (161, supplier_id r),
      put_u8 193 (device_type r)]"

definition serialize_factory :: "nv_factory \<Rightarrow> bytes \<Rightarrow> bytes option" where
  "serialize_factory r =
     write_fields (put_u32_le 0 MAGIC_FACTORY # put_u32_le 4 (fac_write_seq r) # factory_fields r)"

definition deserialize_factory :: "bytes \<Rightarrow> nv_factory option" where
  "deserialize_factory buf =
     (if length buf < factory_size then None
      else Some \<lparr>fac_write_seq = get_u32_le buf 4,
        serial_number = get_bytes 32 buf 8,
        manufacturing_date = get_bytes 8 buf 40,
        vin = get_bytes 17 buf 48,
        ecu_hw_number = get_bytes 32 buf 65,
        supplier_hw_number = get_bytes 32 buf 97,
        supplier_hw_version = get_bytes 32 buf 129,
        supplier_id = get_bytes 32 buf 161,
        device_type = get_u8 buf 193\<rparr>)"

definition factory_ops :: "nv_factory nv_record_ops" where
  "factory_ops = \<lparr>rec_magic = MAGIC_FACTORY, rec_serialize = serialize_factory,
     rec_deserialize = deserialize_factory, rec_size = factory_size,
     rec_write_seq = fac_write_seq, rec_set_write_seq = (\<lambda>q r. r\<lparr>fac_write_seq := q\<rparr>)\<rparr>"

lemma decode_factory:
  assumes "wf_factory r" "factory_size \<le> length b" "get_u32_le b 4 = fac_write_seq r"
    "fields_read_back (factory_fields r) b"
  shows "deserialize_factory b = Some r"
  using assms
  by (auto simp: deserialize_factory_def wf_factory_def factory_size_def factory_fields_def get_word_defs put_defs)

lemma ascending_factory: "wf_factory r \<Longrightarrow> ascending 8 factory_size (factory_fields r)"
  by (simp add: wf_factory_def factory_fields_def factory_size_def put_defs)

lemma decoded_factory: "deserialize_factory b = Some r \<Longrightarrow> fac_write_seq r = get_u32_le b 4 \<and> wf_factory r"
  by (auto simp: deserialize_factory_def wf_factory_def factory_size_def split: if_splits)

lemma factory_bounds: "8 \<le> factory_size" "factory_size \<le> 4092" "wf_factory r \<Longrightarrow> wf_factory (r\<lparr>fac_write_seq := q\<rparr>)"
  by (simp_all add: factory_size_def wf_factory_def)

interpretation factory_rec: nv_record factory_ops wf_factory
  by (rule nv_recordI [where fs = factory_fields])
     (auto simp: factory_ops_def serialize_factory_def ascending_factory factory_bounds
        intro: decode_factory dest: decoded_factory)

section \<open>Firmware metadata\<close>

record nv_fw_meta =
  fwm_write_seq :: u32
  fw_seq :: u32
  fw_secver :: u32
  fw_crc :: u32
  image_sha256 :: bytes
  min_security_ver :: u32
  gen :: u64

definition nv_fw_meta_default :: nv_fw_meta where
  "nv_fw_meta_default = \<lparr>fwm_write_seq = 0,
     fw_seq = 0,
     fw_secver = 0,
     fw_crc = 0,
     image_sha256 = replicate 32 0,
     min_security_ver = 0,
     gen = 0\<rparr>"

definition wf_fw_meta :: "nv_fw_meta \<Rightarrow> bool" where
  "wf_fw_meta r \<longleftrightarrow> length (image_sha256 r) = 32"

definition fw_meta_size :: nat where "fw_meta_size = 64"

definition fw_meta_fields :: "nv_fw_meta \<Rightarrow> field list" where
  "fw_meta_fields r =
     [put_u32_le 8 (fw_seq r),
      put_u32_le 12 (fw_secver r),
      put_u32_le 16 (fw_crc r),
      (20, image_sha256 r),
      put_u32_le 52 (min_security_ver r),
      put_u64_le 56 (gen r)]"

definition serialize_fw_meta :: "nv_fw_meta \<Rightarrow> bytes \<Rightarrow> bytes option" where
  "serialize_fw_meta r =
     write_fields (put_u32_le 0 MAGIC_FW_META # put_u32_le 4 (fwm_write_seq r) # fw_meta_fields r)"

definition deserialize_fw_meta :: "bytes \<Rightarrow> nv_fw_meta option" where
  "deserialize_fw_meta buf =
     (if length buf < fw_meta_size then None
      else Some \<lparr>fwm_write_seq = get_u32_le buf 4,
        fw_seq = get_u32_le buf 8,
        fw_secver = get_u32_le buf 12,
        fw_crc = get_u32_le buf 16,
        image_sha256 = get_bytes 32 buf 20,
        min_security_ver = get_u32_le buf 52,
        gen = get_u64_le buf 56\<rparr>)"

definition fw_meta_ops :: "nv_fw_meta nv_record_ops" where
  "fw_meta_ops = \<lparr>rec_magic = MAGIC_FW_META, rec_serialize = serialize_fw_meta,
     rec_deserialize = deserialize_fw_meta, rec_size = fw_meta_size,
     rec_write_seq = fwm_write_seq, rec_set_write_seq = (\<lambda>q r. r\<lparr>fwm_write_seq := q\<rparr>)\<rparr>"

lemma decode_fw_meta:
  assumes "wf_fw_meta r" "fw_meta_size \<le> length b" "get_u32_le b 4 = fwm_write_seq r"
    "fields_read_back (fw_meta_fields r) b"
  shows "deserialize_fw_meta b = Some r"
  using assms
  by (auto simp: deserialize_fw_meta_def wf_fw_meta_def fw_meta_size_def fw_meta_fields_def get_word_defs put_defs)

lemma ascending_fw_meta: "wf_fw_meta r \<Longrightarrow> ascending 8 fw_meta_size (fw_meta_fields r)"
  by (simp add: wf_fw_meta_def fw_meta_fields_def fw_meta_size_def put_defs)

lemma decoded_fw_meta: "deserialize_fw_meta b = Some r \<Longrightarrow> fwm_write_seq r = get_u32_le b 4 \<and> wf_fw_meta r"
  by (auto simp: deserialize_fw_meta_def wf_fw_meta_def fw_meta_size_def split: if_splits)

lemma fw_meta_bounds: "8 \<le> fw_meta_size" "fw_meta_size \<le> 4092" "wf_fw_meta r \<Longrightarrow> wf_fw_meta (r\<lparr>fwm_write_seq := q\<rparr>)"
  by (simp_all add: fw_meta_size_def wf_fw_meta_def)

interpretation fw_meta_rec: nv_record fw_meta_ops wf_fw_meta
  by (rule nv_recordI [where fs = fw_meta_fields])
     (auto simp: fw_meta_ops_def serialize_fw_meta_def ascending_fw_meta fw_meta_bounds
        intro: decode_fw_meta dest: decoded_fw_meta)

section \<open>Application data\<close>

record nv_app =
  app_write_seq :: u32
  app_data :: bytes

definition nv_app_default :: nv_app where
  "nv_app_default = \<lparr>app_write_seq = 0,
     app_data = replicate 2048 0\<rparr>"

definition wf_app :: "nv_app \<Rightarrow> bool" where
  "wf_app r \<longleftrightarrow> length (app_data r) = 2048"

definition app_size :: nat where "app_size = 2060"

definition app_fields :: "nv_app \<Rightarrow> field list" where
  "app_fields r =
     [(8, app_data r)]"

definition serialize_app :: "nv_app \<Rightarrow> bytes \<Rightarrow> bytes option" where
  "serialize_app r =
     write_fields (put_u32_le 0 MAGIC_APP # put_u32_le 4 (app_write_seq r) # app_fields r)"

definition deserialize_app :: "bytes \<Rightarrow> nv_app option" where
  "deserialize_app buf =
     (if length buf < app_size then None
      else Some \<lparr>app_write_seq = get_u32_le buf 4,
        app_data = get_bytes 2048 buf 8\<rparr>)"

definition app_ops :: "nv_app nv_record_ops" where
  "app_ops = \<lparr>rec_magic = MAGIC_APP, rec_serialize = serialize_app,
     rec_deserialize = deserialize_app, rec_size = app_size,
     rec_write_seq = app_write_seq, rec_set_write_seq = (\<lambda>q r. r\<lparr>app_write_seq := q\<rparr>)\<rparr>"

lemma decode_app:
  assumes "wf_app r" "app_size \<le> length b" "get_u32_le b 4 = app_write_seq r"
    "fields_read_back (app_fields r) b"
  shows "deserialize_app b = Some r"
  using assms
  by (auto simp: deserialize_app_def wf_app_def app_size_def app_fields_def get_word_defs put_defs)

lemma ascending_app: "wf_app r \<Longrightarrow> ascending 8 app_size (app_fields r)"
  by (simp add: wf_app_def app_fields_def app_size_def put_defs)

lemma decoded_app: "deserialize_app b = Some r \<Longrightarrow> app_write_seq r = get_u32_le b 4 \<and> wf_app r"
  by (auto simp: deserialize_app_def wf_app_def app_size_def split: if_splits)

lemma app_bounds: "8 \<le> app_size" "app_size \<le> 4092" "wf_app r \<Longrightarrow> wf_app (r\<lparr>app_write_seq := q\<rparr>)"
  by (simp_all add: app_size_def wf_app_def)

interpretation app_rec: nv_record app_ops wf_app
  by (rule nv_recordI [where fs = app_fields])
     (auto simp: app_ops_def serialize_app_def ascending_app app_bounds
        intro: decode_app dest: decoded_app)

section \<open>Vehicle state\<close>

record nv_vehicle =
  veh_write_seq :: u32
  vehicle_epoch :: u64

definition nv_vehicle_default :: nv_vehicle where
  "nv_vehicle_default = \<lparr>veh_write_seq = 0,
     vehicle_epoch = 0\<rparr>"

definition wf_vehicle :: "nv_vehicle \<Rightarrow> bool" where
  "wf_vehicle r \<longleftrightarrow> True"

definition vehicle_size :: nat where "vehicle_size = 24"

definition vehicle_fields :: "nv_vehicle \<Rightarrow> field list" where
  "vehicle_fields r =
     [put_u64_le 8 (vehicle_epoch r)]"

definition serialize_vehicle :: "nv_vehicle \<Rightarrow> bytes \<Rightarrow> bytes option" where
  "serialize_vehicle r =
     write_fields (put_u32_le 0 MAGIC_VEHICLE # put_u32_le 4 (veh_write_seq r) # vehicle_fields r)"

definition deserialize_vehicle :: "bytes \<Rightarrow> nv_vehicle option" where
  "deserialize_vehicle buf =
     (if length buf < vehicle_size then None
      else Some \<lparr>veh_write_seq = get_u32_le buf 4,
        vehicle_epoch = get_u64_le buf 8\<rparr>)"

definition vehicle_ops :: "nv_vehicle nv_record_ops" where
  "vehicle_ops = \<lparr>rec_magic = MAGIC_VEHICLE, rec_serialize = serialize_vehicle,
     rec_deserialize = deserialize_vehicle, rec_size = vehicle_size,
     rec_write_seq = veh_write_seq, rec_set_write_seq = (\<lambda>q r. r\<lparr>veh_write_seq := q\<rparr>)\<rparr>"

lemma decode_vehicle:
  assumes "wf_vehicle r" "vehicle_size \<le> length b" "get_u32_le b 4 = veh_write_seq r"
    "fields_read_back (vehicle_fields r) b"
  shows "deserialize_vehicle b = Some r"
  using assms
  by (auto simp: deserialize_vehicle_def wf_vehicle_def vehicle_size_def vehicle_fields_def get_word_defs put_defs)

lemma ascending_vehicle: "wf_vehicle r \<Longrightarrow> ascending 8 vehicle_size (vehicle_fields r)"
  by (simp add: wf_vehicle_def vehicle_fields_def vehicle_size_def put_defs)

lemma decoded_vehicle: "deserialize_vehicle b = Some r \<Longrightarrow> veh_write_seq r = get_u32_le b 4 \<and> wf_vehicle r"
  by (auto simp: deserialize_vehicle_def wf_vehicle_def vehicle_size_def split: if_splits)

lemma vehicle_bounds: "8 \<le> vehicle_size" "vehicle_size \<le> 4092" "wf_vehicle r \<Longrightarrow> wf_vehicle (r\<lparr>veh_write_seq := q\<rparr>)"
  by (simp_all add: vehicle_size_def wf_vehicle_def)

interpretation vehicle_rec: nv_record vehicle_ops wf_vehicle
  by (rule nv_recordI [where fs = vehicle_fields])
     (auto simp: vehicle_ops_def serialize_vehicle_def ascending_vehicle vehicle_bounds
        intro: decode_vehicle dest: decoded_vehicle)

section \<open>Update session\<close>

record nv_update_session =
  ups_write_seq :: u32
  session_id :: bytes
  reboot_owed :: u64
  armed_boot_id :: bytes

definition nv_update_session_default :: nv_update_session where
  "nv_update_session_default = \<lparr>ups_write_seq = 0,
     session_id = replicate 32 0,
     reboot_owed = 0,
     armed_boot_id = replicate 16 0\<rparr>"

definition wf_update_session :: "nv_update_session \<Rightarrow> bool" where
  "wf_update_session r \<longleftrightarrow> length (session_id r) = 32 \<and> length (armed_boot_id r) = 16"

definition update_session_size :: nat where "update_session_size = 64"

definition update_session_fields :: "nv_update_session \<Rightarrow> field list" where
  "update_session_fields r =
     [(8, session_id r),
      put_u64_le 40 (reboot_owed r),
      (48, armed_boot_id r)]"

definition serialize_update_session :: "nv_update_session \<Rightarrow> bytes \<Rightarrow> bytes option" where
  "serialize_update_session r =
     write_fields (put_u32_le 0 MAGIC_UPDATE_SESSION # put_u32_le 4 (ups_write_seq r) # update_session_fields r)"

definition deserialize_update_session :: "bytes \<Rightarrow> nv_update_session option" where
  "deserialize_update_session buf =
     (if length buf < update_session_size then None
      else Some \<lparr>ups_write_seq = get_u32_le buf 4,
        session_id = get_bytes 32 buf 8,
        reboot_owed = get_u64_le buf 40,
        armed_boot_id = get_bytes 16 buf 48\<rparr>)"

definition update_session_ops :: "nv_update_session nv_record_ops" where
  "update_session_ops = \<lparr>rec_magic = MAGIC_UPDATE_SESSION, rec_serialize = serialize_update_session,
     rec_deserialize = deserialize_update_session, rec_size = update_session_size,
     rec_write_seq = ups_write_seq, rec_set_write_seq = (\<lambda>q r. r\<lparr>ups_write_seq := q\<rparr>)\<rparr>"

lemma decode_update_session:
  assumes "wf_update_session r" "update_session_size \<le> length b" "get_u32_le b 4 = ups_write_seq r"
    "fields_read_back (update_session_fields r) b"
  shows "deserialize_update_session b = Some r"
  using assms
  by (auto simp: deserialize_update_session_def wf_update_session_def update_session_size_def update_session_fields_def get_word_defs put_defs)

lemma ascending_update_session: "wf_update_session r \<Longrightarrow> ascending 8 update_session_size (update_session_fields r)"
  by (simp add: wf_update_session_def update_session_fields_def update_session_size_def put_defs)

lemma decoded_update_session: "deserialize_update_session b = Some r \<Longrightarrow> ups_write_seq r = get_u32_le b 4 \<and> wf_update_session r"
  by (auto simp: deserialize_update_session_def wf_update_session_def update_session_size_def split: if_splits)

lemma update_session_bounds: "8 \<le> update_session_size" "update_session_size \<le> 4092" "wf_update_session r \<Longrightarrow> wf_update_session (r\<lparr>ups_write_seq := q\<rparr>)"
  by (simp_all add: update_session_size_def wf_update_session_def)

interpretation update_session_rec: nv_record update_session_ops wf_update_session
  by (rule nv_recordI [where fs = update_session_fields])
     (auto simp: update_session_ops_def serialize_update_session_def ascending_update_session update_session_bounds
        intro: decode_update_session dest: decoded_update_session)

subsection \<open>The reboot-owed mask and the armed boot id\<close>

text \<open>The SHA-256 of the \<^verbatim>\<open>sha2\<close> crate is a parameter \<open>sha\<close> of everything that digests.\<close>

definition boot_id_digest :: "(bytes \<Rightarrow> bytes) \<Rightarrow> string \<Rightarrow> bytes" where
  "boot_id_digest sha node_boot_id = take 16 (sha (str_bytes node_boot_id))"

definition zero_id :: bytes where
  "zero_id = replicate 16 0"

definition reboot_pending :: "nv_update_session \<Rightarrow> bool" where
  "reboot_pending s \<longleftrightarrow> reboot_owed s \<noteq> 0"

definition owed_bit :: "bank_set \<Rightarrow> u64 option" where
  "owed_bit bset = (if as_index bset < MAX_SLOTS then Some (push_bit (as_index bset) 1) else None)"

definition owes :: "nv_update_session \<Rightarrow> bank_set \<Rightarrow> bool" where
  "owes s bset = (case owed_bit bset of None \<Rightarrow> False | Some m \<Rightarrow> reboot_owed s AND m \<noteq> 0)"

definition set_owed :: "bank_set \<Rightarrow> bool \<Rightarrow> nv_update_session \<Rightarrow> nv_update_session \<times> bool" where
  "set_owed bset owed s =
     (case owed_bit bset of
        None \<Rightarrow> (s, False)
      | Some m \<Rightarrow>
          (let before = reboot_owed s;
               s' = (if owed then s\<lparr>reboot_owed := before OR m\<rparr>
                     else s\<lparr>reboot_owed := before AND NOT m\<rparr>)
           in (s', reboot_owed s' \<noteq> before)))"

definition record_armed_boot_id ::
    "(bytes \<Rightarrow> bytes) \<Rightarrow> string option \<Rightarrow> nv_update_session \<Rightarrow> nv_update_session \<times> bool" where
  "record_armed_boot_id sha node_boot_id s =
     (let id = (case node_boot_id of None \<Rightarrow> zero_id | Some i \<Rightarrow> boot_id_digest sha i)
      in (s\<lparr>armed_boot_id := id\<rparr>, armed_boot_id s \<noteq> id))"

definition session_rebooted_since_arming ::
    "(bytes \<Rightarrow> bytes) \<Rightarrow> nv_update_session \<Rightarrow> string option \<Rightarrow> bool option" where
  "session_rebooted_since_arming sha s current =
     (if armed_boot_id s = zero_id then None
      else case current of None \<Rightarrow> None
           | Some c \<Rightarrow> Some (armed_boot_id s \<noteq> boot_id_digest sha c))"

lemma owed_bit_bit:
  "owed_bit bset = Some m \<Longrightarrow> bit m n \<longleftrightarrow> n = as_index bset"
  by (auto simp: owed_bit_def bit_simps MAX_SLOTS_def split: if_splits)

lemma owes_bit: "owes s bset \<longleftrightarrow> as_index bset < MAX_SLOTS \<and> bit (reboot_owed s) (as_index bset)"
proof (cases "owed_bit bset")
  case None
  then show ?thesis by (auto simp: owes_def owed_bit_def split: if_splits)
next
  case (Some m)
  have "reboot_owed s AND m = 0 \<longleftrightarrow> \<not> bit (reboot_owed s) (as_index bset)"
    using bit_imp_le_length [of "reboot_owed s" "as_index bset"]
    by (auto simp: bit_eq_iff [of "reboot_owed s AND m"] bit_and_iff owed_bit_bit [OF Some])
  moreover have "as_index bset < MAX_SLOTS"
    using Some by (auto simp: owed_bit_def split: if_splits)
  ultimately show ?thesis
    using Some by (simp add: owes_def)
qed

lemma as_index_inj: "as_index a = as_index b \<longleftrightarrow> a = b"
  by (simp add: as_index_def word_unat_eq_iff)

lemma set_owed_bits:
  assumes "as_index bset < MAX_SLOTS"
  shows "bit (reboot_owed (fst (set_owed bset owed s))) n \<longleftrightarrow>
    (if n = as_index bset then owed else bit (reboot_owed s) n)"
proof -
  from assms obtain m where m: "owed_bit bset = Some m"
    by (simp add: owed_bit_def)
  have "as_index bset < 64" using assms by (simp add: MAX_SLOTS_def)
  then show ?thesis
    using bit_imp_le_length [of "reboot_owed s" n]
    by (auto simp: set_owed_def m Let_def bit_simps owed_bit_bit [OF m])
qed

section \<open>Runtime data\<close>

record did_entry =
  did :: u16
  did_len :: u8
  did_data :: bytes

record dtc_entry =
  dtc_number :: u32
  dtc_status :: u8

definition DID_WIRE_SIZE :: nat where "DID_WIRE_SIZE = 35"
definition DTC_WIRE_SIZE :: nat where "DTC_WIRE_SIZE = 5"
definition MAX_DIDS :: nat where "MAX_DIDS = 20"
definition MAX_DTCS :: nat where "MAX_DTCS = 16"

lemmas runtime_consts = DID_WIRE_SIZE_def DTC_WIRE_SIZE_def MAX_DIDS_def MAX_DTCS_def

record nv_runtime =
  run_write_seq :: u32
  did_count :: u8
  dids :: "did_entry list"
  dtc_count :: u8
  dtcs :: "dtc_entry list"

definition nv_runtime_default :: nv_runtime where
  "nv_runtime_default = \<lparr>run_write_seq = 0, did_count = 0,
     dids = replicate MAX_DIDS \<lparr>did = 0, did_len = 0, did_data = replicate 32 0\<rparr>,
     dtc_count = 0, dtcs = replicate MAX_DTCS \<lparr>dtc_number = 0, dtc_status = 0\<rparr>\<rparr>"

text \<open>The array sizes, and the two counts the decoder checks.\<close>

definition wf_runtime :: "nv_runtime \<Rightarrow> bool" where
  "wf_runtime r \<longleftrightarrow> length (dids r) = MAX_DIDS \<and> (\<forall>d \<in> set (dids r). length (did_data d) = 32)
     \<and> length (dtcs r) = MAX_DTCS \<and> unat (did_count r) \<le> MAX_DIDS \<and> unat (dtc_count r) \<le> MAX_DTCS"

definition runtime_size :: nat where "runtime_size = 792"

definition dtc_count_off :: nat where "dtc_count_off = 9 + MAX_DIDS * DID_WIRE_SIZE"

fun did_fields :: "nat \<Rightarrow> did_entry list \<Rightarrow> field list" where
  "did_fields i [] = []"
| "did_fields i (d # rest) =
     (let off = 9 + i * DID_WIRE_SIZE
      in put_u16_le off (did d) # put_u8 (off + 2) (did_len d) # (off + 3, did_data d)
         # did_fields (Suc i) rest)"

fun dtc_fields :: "nat \<Rightarrow> dtc_entry list \<Rightarrow> field list" where
  "dtc_fields i [] = []"
| "dtc_fields i (d # rest) =
     (let off = dtc_count_off + 1 + i * DTC_WIRE_SIZE
      in put_u32_le off (dtc_number d) # put_u8 (off + 4) (dtc_status d) # dtc_fields (Suc i) rest)"

definition runtime_fields :: "nv_runtime \<Rightarrow> field list" where
  "runtime_fields r =
     put_u8 8 (did_count r) # did_fields 0 (dids r)
     @ put_u8 dtc_count_off (dtc_count r) # dtc_fields 0 (dtcs r)"

definition serialize_runtime :: "nv_runtime \<Rightarrow> bytes \<Rightarrow> bytes option" where
  "serialize_runtime r =
     write_fields (put_u32_le 0 MAGIC_RUNTIME # put_u32_le 4 (run_write_seq r) # runtime_fields r)"

definition get_did :: "bytes \<Rightarrow> nat \<Rightarrow> did_entry" where
  "get_did buf i =
     (let off = 9 + i * DID_WIRE_SIZE
      in \<lparr>did = get_u16_le buf off, did_len = get_u8 buf (off + 2),
           did_data = get_bytes 32 buf (off + 3)\<rparr>)"

definition get_dtc :: "bytes \<Rightarrow> nat \<Rightarrow> dtc_entry" where
  "get_dtc buf i =
     (let off = dtc_count_off + 1 + i * DTC_WIRE_SIZE
      in \<lparr>dtc_number = get_u32_le buf off, dtc_status = get_u8 buf (off + 4)\<rparr>)"

definition deserialize_runtime :: "bytes \<Rightarrow> nv_runtime option" where
  "deserialize_runtime buf =
     (if length buf < runtime_size then None
      else if unat (get_u8 buf 8) > MAX_DIDS then None
      else if unat (get_u8 buf dtc_count_off) > MAX_DTCS then None
      else Some \<lparr>run_write_seq = get_u32_le buf 4, did_count = get_u8 buf 8,
             dids = map (get_did buf) [0..<MAX_DIDS],
             dtc_count = get_u8 buf dtc_count_off,
             dtcs = map (get_dtc buf) [0..<MAX_DTCS]\<rparr>)"

definition runtime_ops :: "nv_runtime nv_record_ops" where
  "runtime_ops = \<lparr>rec_magic = MAGIC_RUNTIME, rec_serialize = serialize_runtime,
     rec_deserialize = deserialize_runtime, rec_size = runtime_size,
     rec_write_seq = run_write_seq, rec_set_write_seq = (\<lambda>q r. r\<lparr>run_write_seq := q\<rparr>)\<rparr>"

lemma ascending_did_fields:
  "\<forall>d \<in> set ds. length (did_data d) = 32 \<Longrightarrow>
   ascending (9 + i * 35) (9 + (i + length ds) * 35) (did_fields i ds)"
proof (induction ds arbitrary: i)
  case Nil
  then show ?case by simp
next
  case (Cons d ds)
  then have "ascending (9 + Suc i * 35) (9 + (Suc i + length ds) * 35) (did_fields (Suc i) ds)"
    by (intro Cons.IH) simp
  then show ?case using Cons.prems by (simp add: Let_def put_defs runtime_consts)
qed

lemma ascending_dtc_fields:
  "ascending (710 + i * 5) (710 + (i + length ds) * 5) (dtc_fields i ds)"
proof (induction ds arbitrary: i)
  case Nil
  then show ?case by simp
next
  case (Cons d ds)
  then have "ascending (710 + Suc i * 5) (710 + (Suc i + length ds) * 5) (dtc_fields (Suc i) ds)"
    by (intro Cons.IH)
  then show ?case by (simp add: Let_def put_defs runtime_consts dtc_count_off_def)
qed

lemma ascending_runtime: "wf_runtime r \<Longrightarrow> ascending 8 runtime_size (runtime_fields r)"
  using ascending_did_fields [of "dids r" 0] ascending_dtc_fields [of 0 "dtcs r"]
  by (auto simp: wf_runtime_def runtime_fields_def runtime_size_def put_defs runtime_consts
      dtc_count_off_def ascending_append intro!: exI [of _ 709] elim!: ascending_mono)

lemma get_did_fields:
  "fields_read_back (did_fields i ds) b \<Longrightarrow> \<forall>d \<in> set ds. length (did_data d) = 32 \<Longrightarrow>
   9 + (i + length ds) * 35 \<le> length b \<Longrightarrow> map (get_did b) [i..<i + length ds] = ds"
proof (induction ds arbitrary: i)
  case Nil
  then show ?case by simp
next
  case (Cons d ds)
  have "map (get_did b) [Suc i..<Suc i + length ds] = ds"
    by (rule Cons.IH) (use Cons.prems in \<open>auto simp: Let_def\<close>)
  moreover have "get_did b i = d"
    using Cons.prems by (auto simp: get_did_def Let_def put_defs runtime_consts get_word_defs)
  ultimately show ?case by (simp add: upt_conv_Cons del: upt_Suc)
qed

lemma get_dtc_fields:
  "fields_read_back (dtc_fields i ds) b \<Longrightarrow>
   710 + (i + length ds) * 5 \<le> length b \<Longrightarrow> map (get_dtc b) [i..<i + length ds] = ds"
proof (induction ds arbitrary: i)
  case Nil
  then show ?case by simp
next
  case (Cons d ds)
  have "map (get_dtc b) [Suc i..<Suc i + length ds] = ds"
    by (rule Cons.IH) (use Cons.prems in \<open>auto simp: Let_def\<close>)
  moreover have "get_dtc b i = d"
    using Cons.prems
    by (auto simp: get_dtc_def Let_def put_defs runtime_consts get_word_defs dtc_count_off_def)
  ultimately show ?case by (simp add: upt_conv_Cons del: upt_Suc)
qed

lemma decode_runtime:
  assumes "wf_runtime r" "runtime_size \<le> length b" "get_u32_le b 4 = run_write_seq r"
    "fields_read_back (runtime_fields r) b"
  shows "deserialize_runtime b = Some r"
proof -
  have "map (get_did b) [0..<0 + length (dids r)] = dids r"
    by (rule get_did_fields) (use assms in \<open>auto simp: wf_runtime_def runtime_fields_def runtime_size_def runtime_consts\<close>)
  moreover have "map (get_dtc b) [0..<0 + length (dtcs r)] = dtcs r"
    by (rule get_dtc_fields) (use assms in \<open>auto simp: wf_runtime_def runtime_fields_def runtime_size_def runtime_consts\<close>)
  moreover have "get_u8 b 8 = did_count r" "get_u8 b dtc_count_off = dtc_count r"
    using assms by (auto simp: runtime_fields_def put_defs runtime_size_def dtc_count_off_def runtime_consts)
  ultimately show ?thesis
    using assms by (simp add: deserialize_runtime_def wf_runtime_def)
qed

lemma decoded_runtime: "deserialize_runtime b = Some r \<Longrightarrow> run_write_seq r = get_u32_le b 4 \<and> wf_runtime r"
  by (auto simp: deserialize_runtime_def wf_runtime_def runtime_size_def get_did_def Let_def
      runtime_consts split: if_splits)

lemma runtime_bounds: "8 \<le> runtime_size" "runtime_size \<le> 4092"
    "wf_runtime r \<Longrightarrow> wf_runtime (r\<lparr>run_write_seq := q\<rparr>)"
  by (simp_all add: runtime_size_def wf_runtime_def)

interpretation runtime_rec: nv_record runtime_ops wf_runtime
  by (rule nv_recordI [where fs = runtime_fields])
     (auto simp: runtime_ops_def serialize_runtime_def ascending_runtime runtime_bounds
        intro: decode_runtime dest: decoded_runtime)

section \<open>The dictionaries, field by field\<close>

lemma ops_set_seq [simp]:
  "rec_set_write_seq boot_state_ops q s1 = s1\<lparr>bst_write_seq := q\<rparr>"
  "rec_set_write_seq factory_ops q s2 = s2\<lparr>fac_write_seq := q\<rparr>"
  "rec_set_write_seq fw_meta_ops q s3 = s3\<lparr>fwm_write_seq := q\<rparr>"
  "rec_set_write_seq app_ops q s4 = s4\<lparr>app_write_seq := q\<rparr>"
  "rec_set_write_seq vehicle_ops q s5 = s5\<lparr>veh_write_seq := q\<rparr>"
  "rec_set_write_seq update_session_ops q s6 = s6\<lparr>ups_write_seq := q\<rparr>"
  "rec_set_write_seq runtime_ops q s7 = s7\<lparr>run_write_seq := q\<rparr>"
  by (simp_all add: boot_state_ops_def factory_ops_def fw_meta_ops_def app_ops_def vehicle_ops_def
      update_session_ops_def runtime_ops_def)

lemma ops_seq [simp]:
  "rec_write_seq boot_state_ops = bst_write_seq"
  "rec_write_seq factory_ops = fac_write_seq"
  "rec_write_seq fw_meta_ops = fwm_write_seq"
  "rec_write_seq app_ops = app_write_seq"
  "rec_write_seq vehicle_ops = veh_write_seq"
  "rec_write_seq update_session_ops = ups_write_seq"
  "rec_write_seq runtime_ops = run_write_seq"
  by (simp_all add: boot_state_ops_def factory_ops_def fw_meta_ops_def app_ops_def vehicle_ops_def
      update_session_ops_def runtime_ops_def)

end
