(* ===== verification/NvStore.thy ===== *)
theory NvStore
  imports NvRecords
begin

text \<open>
  The sector store of \<^verbatim>\<open>crates/nv-store/src/block.rs\<close> and \<^verbatim>\<open>store.rs\<close>: a block device, the
  rotated two-to-eight-sector regions with CRC and write sequence, the partition layout and
  the typed store over it. The CRC-32 of the \<^verbatim>\<open>crc32fast\<close> crate is a parameter \<open>crc\<close> of
  every operation; nothing is assumed of it.
\<close>

section \<open>Block device\<close>

text \<open>
  \<open>Panicked\<close> is not an error of the source: it stands for a slice index out of range in a
  serialiser, and \<open>write_record_ok\<close> below shows that it never happens.
\<close>

datatype block_error = BlockIo | OutOfBounds nat nat nat | Panicked

record mem_block_device =
  dev_data :: bytes

definition mem_new :: "nat \<Rightarrow> mem_block_device" where
  "mem_new sz = \<lparr>dev_data = replicate sz 0\<rparr>"

definition dev_size :: "mem_block_device \<Rightarrow> nat" where
  "dev_size dev = length (dev_data dev)"

definition dev_read :: "mem_block_device \<Rightarrow> nat \<Rightarrow> nat \<Rightarrow> block_error + bytes" where
  "dev_read dev off len =
     (if off + len > length (dev_data dev) then Err (OutOfBounds off len (length (dev_data dev)))
      else Ok (take len (drop off (dev_data dev))))"

definition dev_write :: "mem_block_device \<Rightarrow> nat \<Rightarrow> bytes \<Rightarrow> block_error + mem_block_device" where
  "dev_write dev off data =
     (if off + length data > length (dev_data dev)
      then Err (OutOfBounds off (length data) (length (dev_data dev)))
      else Ok (dev\<lparr>dev_data := take off (dev_data dev) @ data
                     @ drop (off + length data) (dev_data dev)\<rparr>))"

section \<open>Layout\<close>

definition SECTOR_SIZE :: nat where "SECTOR_SIZE = 4096"
definition CRC_OFFSET :: nat where "CRC_OFFSET = SECTOR_SIZE - 4"

definition BOOT_OFFSET :: nat where "BOOT_OFFSET = 0x000000"
definition BOOT_SECTORS :: nat where "BOOT_SECTORS = 2"
definition FACTORY_OFFSET :: nat where "FACTORY_OFFSET = 0x002000"
definition FACTORY_SECTORS :: nat where "FACTORY_SECTORS = 2"
definition APP_OFFSET :: nat where "APP_OFFSET = 0x004000"
definition APP_SECTORS :: nat where "APP_SECTORS = 2"
definition VEHICLE_OFFSET :: nat where "VEHICLE_OFFSET = 0x006000"
definition VEHICLE_SECTORS :: nat where "VEHICLE_SECTORS = 2"
definition UPDATE_SESSION_OFFSET :: nat where "UPDATE_SESSION_OFFSET = 0x008000"
definition UPDATE_SESSION_SECTORS :: nat where "UPDATE_SESSION_SECTORS = 2"
definition BANKSET_BASE :: nat where "BANKSET_BASE = 0x010000"
definition BANKSET_STRIDE :: nat where "BANKSET_STRIDE = 0x018000"
definition FW_META_A_REL :: nat where "FW_META_A_REL = 0x000000"
definition FW_META_B_REL :: nat where "FW_META_B_REL = 0x004000"
definition FW_META_SECTORS :: nat where "FW_META_SECTORS = 4"
definition RUNTIME_A_REL :: nat where "RUNTIME_A_REL = 0x008000"
definition RUNTIME_B_REL :: nat where "RUNTIME_B_REL = 0x010000"
definition RUNTIME_SECTORS :: nat where "RUNTIME_SECTORS = 8"

lemmas sector_consts = SECTOR_SIZE_def CRC_OFFSET_def

lemmas layout_consts = sector_consts BOOT_OFFSET_def BOOT_SECTORS_def FACTORY_OFFSET_def
  FACTORY_SECTORS_def APP_OFFSET_def APP_SECTORS_def VEHICLE_OFFSET_def VEHICLE_SECTORS_def
  UPDATE_SESSION_OFFSET_def UPDATE_SESSION_SECTORS_def BANKSET_BASE_def BANKSET_STRIDE_def
  FW_META_A_REL_def FW_META_B_REL_def FW_META_SECTORS_def RUNTIME_A_REL_def RUNTIME_B_REL_def
  RUNTIME_SECTORS_def

definition bankset_offset :: "bank_set \<Rightarrow> nat" where
  "bankset_offset bset = BANKSET_BASE + as_index bset * BANKSET_STRIDE"

definition fw_meta_offset :: "bank_set \<Rightarrow> bank \<Rightarrow> nat" where
  "fw_meta_offset bset bk = bankset_offset bset + (case bk of A \<Rightarrow> FW_META_A_REL | B \<Rightarrow> FW_META_B_REL)"

definition runtime_offset :: "bank_set \<Rightarrow> bank \<Rightarrow> nat" where
  "runtime_offset bset bk = bankset_offset bset + (case bk of A \<Rightarrow> RUNTIME_A_REL | B \<Rightarrow> RUNTIME_B_REL)"

section \<open>Sector rotation\<close>

text \<open>One iteration of the reading loop: every \<^verbatim>\<open>continue\<close> is \<open>None\<close>.\<close>

definition read_sector ::
    "(bytes \<Rightarrow> u32) \<Rightarrow> 'r nv_record_ops \<Rightarrow> mem_block_device \<Rightarrow> nat \<Rightarrow> nat \<Rightarrow> 'r option" where
  "read_sector crc ops dev offset i =
     (case dev_read dev (offset + i * SECTOR_SIZE) SECTOR_SIZE of
        Err _ \<Rightarrow> None
      | Ok buf \<Rightarrow>
          if get_u32_le buf 0 \<noteq> rec_magic ops then None
          else if get_u32_le buf CRC_OFFSET \<noteq> crc (take CRC_OFFSET buf) then None
          else rec_deserialize ops buf)"

fun read_loop ::
    "(nat \<Rightarrow> 'r option) \<Rightarrow> ('r \<Rightarrow> u32) \<Rightarrow> (u32 \<times> 'r) option \<Rightarrow> nat list \<Rightarrow> (u32 \<times> 'r) option" where
  "read_loop rd sq best [] = best"
| "read_loop rd sq best (i # is) =
     (case rd i of
        None \<Rightarrow> read_loop rd sq best is
      | Some r \<Rightarrow>
          (if (case best of None \<Rightarrow> True | Some (best_seq, _) \<Rightarrow> sq r > best_seq)
           then read_loop rd sq (Some (sq r, r)) is
           else read_loop rd sq best is))"

definition read_record ::
    "(bytes \<Rightarrow> u32) \<Rightarrow> 'r nv_record_ops \<Rightarrow> mem_block_device \<Rightarrow> nat \<Rightarrow> nat \<Rightarrow> 'r option" where
  "read_record crc ops dev offset num_sectors =
     map_option snd (read_loop (read_sector crc ops dev offset) (rec_write_seq ops) None [0..<num_sectors])"

text \<open>The writer's scan of the sector headers: \<open>(max_seq, min_seq, min_idx, empty_idx)\<close>.\<close>

record scan =
  max_seq :: u32
  min_seq :: u32
  min_idx :: nat
  empty_idx :: "nat option"

definition scan_init :: scan where
  "scan_init = \<lparr>max_seq = 0, min_seq = -1, min_idx = 0, empty_idx = None\<rparr>"

text \<open>The header read of one sector: \<open>None\<close> when the device read fails.\<close>

definition sector_header :: "mem_block_device \<Rightarrow> nat \<Rightarrow> nat \<Rightarrow> (u32 \<times> u32) option" where
  "sector_header dev offset i =
     (case dev_read dev (offset + i * SECTOR_SIZE) 8 of
        Err _ \<Rightarrow> None
      | Ok header \<Rightarrow> Some (get_u32_le header 0, get_u32_le header 4))"

definition scan_step :: "u32 \<Rightarrow> (nat \<Rightarrow> (u32 \<times> u32) option) \<Rightarrow> nat \<Rightarrow> scan \<Rightarrow> scan" where
  "scan_step magic hdr i sc =
     (case hdr i of
        None \<Rightarrow> sc
      | Some (mg, sq) \<Rightarrow>
          if mg \<noteq> magic then (if empty_idx sc = None then sc\<lparr>empty_idx := Some i\<rparr> else sc)
          else
            let sc1 = (if sq > max_seq sc then sc\<lparr>max_seq := sq\<rparr> else sc)
            in if sq < min_seq sc1 then sc1\<lparr>min_seq := sq, min_idx := i\<rparr> else sc1)"

definition scan_sectors :: "u32 \<Rightarrow> (nat \<Rightarrow> (u32 \<times> u32) option) \<Rightarrow> nat list \<Rightarrow> scan" where
  "scan_sectors magic hdr is = fold (scan_step magic hdr) is scan_init"

definition scan_region :: "u32 \<Rightarrow> mem_block_device \<Rightarrow> nat \<Rightarrow> nat \<Rightarrow> scan" where
  "scan_region magic dev offset num_sectors =
     scan_sectors magic (sector_header dev offset) [0..<num_sectors]"

definition target_idx :: "scan \<Rightarrow> nat" where
  "target_idx sc = (case empty_idx sc of Some i \<Rightarrow> i | None \<Rightarrow> min_idx sc)"

definition seal_sector :: "(bytes \<Rightarrow> u32) \<Rightarrow> bytes \<Rightarrow> bytes" where
  "seal_sector crc sector = take CRC_OFFSET sector @ le_bytes (crc (take CRC_OFFSET sector))"

definition write_record ::
    "(bytes \<Rightarrow> u32) \<Rightarrow> 'r nv_record_ops \<Rightarrow> mem_block_device \<Rightarrow> nat \<Rightarrow> nat \<Rightarrow> 'r
       \<Rightarrow> 'r \<times> (block_error + mem_block_device)" where
  "write_record crc ops dev offset num_sectors rc =
     (let sc = scan_region (rec_magic ops) dev offset num_sectors;
          rc' = rec_set_write_seq ops (max_seq sc + 1) rc
      in (rc', case rec_serialize ops rc' (replicate SECTOR_SIZE 0) of
                 None \<Rightarrow> Err Panicked
               | Some sector \<Rightarrow>
                   dev_write dev (offset + target_idx sc * SECTOR_SIZE) (seal_sector crc sector)))"

section \<open>Lemmas on the rotation\<close>

subsection \<open>Windows of a device\<close>

definition sector :: "mem_block_device \<Rightarrow> nat \<Rightarrow> nat \<Rightarrow> bytes" where
  "sector dev offset i = take SECTOR_SIZE (drop (offset + i * SECTOR_SIZE) (dev_data dev))"

text \<open>The region of \<open>n\<close> sectors at \<open>offset\<close> lies on the device.\<close>

definition region_on :: "mem_block_device \<Rightarrow> nat \<Rightarrow> nat \<Rightarrow> bool" where
  "region_on dev offset n \<longleftrightarrow> offset + n * SECTOR_SIZE \<le> dev_size dev"

definition decode_sector :: "(bytes \<Rightarrow> u32) \<Rightarrow> 'r nv_record_ops \<Rightarrow> bytes \<Rightarrow> 'r option" where
  "decode_sector crc ops buf =
     (if get_u32_le buf 0 \<noteq> rec_magic ops then None
      else if get_u32_le buf CRC_OFFSET \<noteq> crc (take CRC_OFFSET buf) then None
      else rec_deserialize ops buf)"

lemma region_on_index:
  "region_on dev offset n \<Longrightarrow> i < n \<Longrightarrow> offset + i * SECTOR_SIZE + SECTOR_SIZE \<le> length (dev_data dev)"
proof -
  assume "region_on dev offset n" "i < n"
  moreover from \<open>i < n\<close> have "Suc i * SECTOR_SIZE \<le> n * SECTOR_SIZE"
    by (intro mult_le_mono1) simp
  ultimately show ?thesis by (simp add: region_on_def dev_size_def)
qed

lemma read_sector_eq:
  assumes "region_on dev offset n" "i < n"
  shows "read_sector crc ops dev offset i = decode_sector crc ops (sector dev offset i)"
  using region_on_index [OF assms]
  by (simp add: read_sector_def dev_read_def decode_sector_def sector_def)

lemma sector_header_eq:
  assumes "region_on dev offset n" "i < n"
  shows "sector_header dev offset i =
    Some (get_u32_le (sector dev offset i) 0, get_u32_le (sector dev offset i) 4)"
  using region_on_index [OF assms]
  by (simp add: sector_header_def dev_read_def sector_def get_word_defs get_bytes_def sector_consts
      min_def drop_take)

lemma splice_window:
  assumes "p + length d \<le> length xs"
  shows "q + len \<le> p \<or> p + length d \<le> q \<Longrightarrow>
      take len (drop q (take p xs @ d @ drop (p + length d) xs)) = take len (drop q xs)"
    and "take (length d) (drop p (take p xs @ d @ drop (p + length d) xs)) = d"
  using assms by (auto simp: drop_take min_def)

text \<open>Two devices that agree everywhere outside the bytes from \<open>lo\<close> up to \<open>hi\<close>.\<close>

definition same_outside :: "mem_block_device \<Rightarrow> mem_block_device \<Rightarrow> nat \<Rightarrow> nat \<Rightarrow> bool" where
  "same_outside dev dev' lo hi \<longleftrightarrow> dev_size dev' = dev_size dev
     \<and> (\<forall>q len. q + len \<le> lo \<or> hi \<le> q \<longrightarrow>
          take len (drop q (dev_data dev')) = take len (drop q (dev_data dev)))"

lemma same_outside_mono:
  "same_outside dev dev' lo hi \<Longrightarrow> lo' \<le> lo \<Longrightarrow> hi \<le> hi' \<Longrightarrow> same_outside dev dev' lo' hi'"
  by (force simp: same_outside_def)

lemma same_outside_sector:
  assumes "same_outside dev dev' lo hi"
    and "offset + i * SECTOR_SIZE + SECTOR_SIZE \<le> lo \<or> hi \<le> offset + i * SECTOR_SIZE"
  shows "sector dev' offset i = sector dev offset i"
  using assms unfolding same_outside_def sector_def by blast

lemma dev_write_ok:
  assumes "p + length d \<le> length (dev_data dev)"
  shows "\<exists>dev'. dev_write dev p d = Ok dev' \<and> same_outside dev dev' p (p + length d)
    \<and> take (length d) (drop p (dev_data dev')) = d"
proof (intro exI conjI)
  show "dev_write dev p d = Ok (dev\<lparr>dev_data := take p (dev_data dev) @ d @ drop (p + length d) (dev_data dev)\<rparr>)"
    using assms by (simp add: dev_write_def)
qed (use assms splice_window [OF assms] in \<open>auto simp: same_outside_def dev_size_def simp del: take_append drop_append\<close>)

lemma index_apart:
  "(i::nat) \<noteq> j \<Longrightarrow> offset + i * SECTOR_SIZE + SECTOR_SIZE \<le> offset + j * SECTOR_SIZE
     \<or> offset + j * SECTOR_SIZE + SECTOR_SIZE \<le> offset + i * SECTOR_SIZE"
proof -
  assume "i \<noteq> j"
  then consider "Suc i \<le> j" | "Suc j \<le> i" by linarith
  then show ?thesis
  proof cases
    case 1
    then have "Suc i * SECTOR_SIZE \<le> j * SECTOR_SIZE" by (rule mult_le_mono1)
    then show ?thesis by simp
  next
    case 2
    then have "Suc j * SECTOR_SIZE \<le> i * SECTOR_SIZE" by (rule mult_le_mono1)
    then show ?thesis by simp
  qed
qed

text \<open>Writing one sector of a region replaces that sector and leaves the others alone.\<close>

lemma write_sector:
  assumes "region_on dev offset n" "t < n" "length d = SECTOR_SIZE"
  shows "\<exists>dev'. dev_write dev (offset + t * SECTOR_SIZE) d = Ok dev' \<and> sector dev' offset t = d
    \<and> same_outside dev dev' offset (offset + n * SECTOR_SIZE)
    \<and> (\<forall>j. j \<noteq> t \<longrightarrow> sector dev' offset j = sector dev offset j)"
proof -
  have "offset + t * SECTOR_SIZE + length d \<le> length (dev_data dev)"
    using region_on_index [OF assms(1,2)] assms(3) by simp
  from dev_write_ok [OF this] obtain dev' where
    w: "dev_write dev (offset + t * SECTOR_SIZE) d = Ok dev'"
    and fr: "same_outside dev dev' (offset + t * SECTOR_SIZE) (offset + t * SECTOR_SIZE + SECTOR_SIZE)"
    and at: "take SECTOR_SIZE (drop (offset + t * SECTOR_SIZE) (dev_data dev')) = d"
    unfolding assms(3) by blast
  have "Suc t * SECTOR_SIZE \<le> n * SECTOR_SIZE"
    using assms(2) by (intro mult_le_mono1) simp
  then have "same_outside dev dev' offset (offset + n * SECTOR_SIZE)"
    by (intro same_outside_mono [OF fr]) simp_all
  moreover have "\<forall>j. j \<noteq> t \<longrightarrow> sector dev' offset j = sector dev offset j"
    using index_apart same_outside_sector [OF fr] by blast
  ultimately show ?thesis using w at by (auto simp: sector_def)
qed

subsection \<open>The scan\<close>

text \<open>What the header scan knows after a list of sectors, proved by adding one at the end.\<close>

lemma scan_sectors_simps:
  "scan_sectors m hdr [] = scan_init"
  "scan_sectors m hdr (is @ [x]) = scan_step m hdr x (scan_sectors m hdr is)"
  by (simp_all add: scan_sectors_def)

lemmas scan_unfold = scan_sectors_simps scan_step_def scan_init_def Let_def

lemma scan_max: "i \<in> set is \<Longrightarrow> hdr i = Some (m, q) \<Longrightarrow> q \<le> max_seq (scan_sectors m hdr is)"
  by (induction "is" rule: rev_induct)
     (auto simp: scan_unfold split: option.splits if_splits prod.splits)

lemma scan_max_hit:
  "max_seq (scan_sectors m hdr is) = 0 \<or> (\<exists>i \<in> set is. hdr i = Some (m, max_seq (scan_sectors m hdr is)))"
  by (induction "is" rule: rev_induct)
     (auto simp: scan_unfold split: option.splits if_splits prod.splits)

lemma scan_min: "i \<in> set is \<Longrightarrow> hdr i = Some (m, q) \<Longrightarrow> min_seq (scan_sectors m hdr is) \<le> q"
  by (induction "is" rule: rev_induct)
     (auto simp: scan_unfold split: option.splits if_splits prod.splits)

lemma scan_empty:
  "empty_idx (scan_sectors m hdr is) = Some i \<Longrightarrow> i \<in> set is \<and> (\<exists>mg q. hdr i = Some (mg, q) \<and> mg \<noteq> m)"
  by (induction "is" rule: rev_induct)
     (auto simp: scan_unfold split: option.splits if_splits prod.splits)

lemma scan_full:
  "empty_idx (scan_sectors m hdr is) = None \<Longrightarrow> i \<in> set is \<Longrightarrow> hdr i = Some (mg, q) \<Longrightarrow> mg = m"
  by (induction "is" rule: rev_induct)
     (auto simp: scan_unfold split: option.splits if_splits prod.splits)

lemma scan_min_idx:
  "(min_idx (scan_sectors m hdr is) \<in> set is
      \<and> hdr (min_idx (scan_sectors m hdr is)) = Some (m, min_seq (scan_sectors m hdr is)))
   \<or> (min_idx (scan_sectors m hdr is) = 0 \<and> min_seq (scan_sectors m hdr is) = -1)"
  by (induction "is" rule: rev_induct)
     (auto simp: scan_unfold split: option.splits if_splits prod.splits)

lemma target_idx_less:
  assumes "0 < n"
  shows "target_idx (scan_region m dev offset n) < n"
  using scan_min_idx [of m "sector_header dev offset" "[0..<n]"]
    scan_empty [of m "sector_header dev offset" "[0..<n]"] assms
  by (auto simp: target_idx_def scan_region_def split: option.splits)

subsection \<open>The reading loop\<close>

lemma read_loop_result:
  assumes "read_loop rd sq best is = Some (s, r)" and "pred_option (\<lambda>(a, b). a = sq b) best"
  shows "s = sq r \<and> (best = Some (s, r) \<or> (\<exists>i \<in> set is. rd i = Some r))
    \<and> (\<forall>i \<in> set is. pred_option (\<lambda>r'. sq r' \<le> s) (rd i)) \<and> pred_option (\<lambda>(a, b). a \<le> s) best"
  using assms
proof (induction "is" arbitrary: best)
  case Nil
  then show ?case by simp
next
  case (Cons i "is")
  let ?take = "\<lambda>x. (case best of None \<Rightarrow> True | Some (best_seq, _) \<Rightarrow> sq x > best_seq)"
  consider (none) "rd i = None" | (new) x where "rd i = Some x" "?take x" | (old) x where "rd i = Some x" "\<not> ?take x"
    by (cases "rd i") auto
  then show ?case
  proof cases
    case none
    then show ?thesis using Cons.IH [of best] Cons.prems by auto
  next
    case new
    then have "read_loop rd sq (Some (sq x, x)) is = Some (s, r)" using Cons.prems by simp
    from Cons.IH [OF this] have IH: "s = sq r" "x = r \<or> (\<exists>i \<in> set is. rd i = Some r)" "sq x \<le> s"
      "\<forall>i \<in> set is. pred_option (\<lambda>r'. sq r' \<le> s) (rd i)" by auto
    moreover have "pred_option (\<lambda>(a, b). a \<le> s) best"
      using new(2) IH(3) by (cases best) (auto intro: order.trans [OF order.strict_implies_order])
    ultimately show ?thesis using new(1) by auto
  next
    case old
    then obtain a b where best: "best = Some (a, b)" "sq x \<le> a"
      by (cases best) (auto simp: not_less)
    have "read_loop rd sq best is = Some (s, r)" using Cons.prems old by simp
    from Cons.IH [OF this Cons.prems(2)] best old(1) show ?thesis
      by (auto intro: order.trans)
  qed
qed

lemma read_loop_None: "read_loop rd sq best is = None \<longleftrightarrow> best = None \<and> (\<forall>i \<in> set is. rd i = None)"
  by (induction "is" arbitrary: best) (auto split: option.splits simp del: not_None_eq)

text \<open>The reader returns the record of a sector with the highest sequence number.\<close>

lemma read_record_max:
  assumes "read_record crc ops dev offset n = Some r"
  shows "\<exists>i < n. read_sector crc ops dev offset i = Some r"
    and "j < n \<Longrightarrow> read_sector crc ops dev offset j = Some r' \<Longrightarrow> rec_write_seq ops r' \<le> rec_write_seq ops r"
proof -
  obtain s where "read_loop (read_sector crc ops dev offset) (rec_write_seq ops) None [0..<n] = Some (s, r)"
    using assms by (auto simp: read_record_def)
  from read_loop_result [OF this]
  show "\<exists>i < n. read_sector crc ops dev offset i = Some r"
    and "j < n \<Longrightarrow> read_sector crc ops dev offset j = Some r' \<Longrightarrow> rec_write_seq ops r' \<le> rec_write_seq ops r"
    by force+
qed

lemma read_record_None:
  "read_record crc ops dev offset n = None \<longleftrightarrow> (\<forall>i < n. read_sector crc ops dev offset i = None)"
  by (auto simp: read_record_def read_loop_None)

text \<open>A strict maximum determines the result.\<close>

lemma read_record_eqI:
  assumes "t < n" and "read_sector crc ops dev offset t = Some r"
    and "\<And>j r'. j < n \<Longrightarrow> j \<noteq> t \<Longrightarrow> read_sector crc ops dev offset j = Some r' \<Longrightarrow>
      rec_write_seq ops r' < rec_write_seq ops r"
  shows "read_record crc ops dev offset n = Some r"
proof (cases "read_record crc ops dev offset n")
  case None
  with assms(1,2) show ?thesis by (auto simp: read_record_None)
next
  case (Some r')
  obtain i where i: "i < n" "read_sector crc ops dev offset i = Some r'"
    using read_record_max(1) [OF Some] by blast
  have "rec_write_seq ops r \<le> rec_write_seq ops r'"
    using read_record_max(2) [OF Some assms(1,2)] .
  with assms(3) [of i r'] i have "i = t" by force
  with i assms(2) Some show ?thesis by simp
qed

text \<open>The reader looks at the sectors of its region only.\<close>

lemma read_loop_cong:
  "map rd is = map rd' is \<Longrightarrow> read_loop rd sq best is = read_loop rd' sq best is"
  by (induction "is" arbitrary: best) (simp_all split: option.split)

lemma read_record_cong:
  assumes "\<And>i. i < n \<Longrightarrow> read_sector crc ops dev offset i = read_sector crc ops dev' offset i"
  shows "read_record crc ops dev offset n = read_record crc ops dev' offset n"
  unfolding read_record_def
  using assms by (intro arg_cong [where f = "map_option snd"] read_loop_cong) simp

subsection \<open>Writing a record\<close>

text \<open>
  A region is clean when every sector with the record's magic decodes and no two of them
  carry the same sequence number.
\<close>

definition region_clean ::
    "(bytes \<Rightarrow> u32) \<Rightarrow> 'r nv_record_ops \<Rightarrow> mem_block_device \<Rightarrow> nat \<Rightarrow> nat \<Rightarrow> bool" where
  "region_clean crc ops dev offset n \<longleftrightarrow>
     (\<forall>i < n. get_u32_le (sector dev offset i) 0 = rec_magic ops \<longrightarrow>
        decode_sector crc ops (sector dev offset i) \<noteq> None)
   \<and> (\<forall>i < n. \<forall>j < n. get_u32_le (sector dev offset i) 0 = rec_magic ops \<longrightarrow>
        get_u32_le (sector dev offset j) 0 = rec_magic ops \<longrightarrow>
        get_u32_le (sector dev offset i) 4 = get_u32_le (sector dev offset j) 4 \<longrightarrow> i = j)"

lemma decode_sector_magic: "decode_sector crc ops buf = Some r \<Longrightarrow> get_u32_le buf 0 = rec_magic ops"
  by (simp add: decode_sector_def split: if_splits)

lemma region_max_seq:
  assumes "region_on dev offset n" "i < n" "get_u32_le (sector dev offset i) 0 = m"
  shows "get_u32_le (sector dev offset i) 4 \<le> max_seq (scan_region m dev offset n)"
  unfolding scan_region_def
  by (rule scan_max [of i]) (use assms sector_header_eq [OF assms(1,2)] in auto)

context nv_record
begin

lemma decode_sector_seq:
  "decode_sector crc ops buf = Some r \<Longrightarrow> rec_write_seq ops r = get_u32_le buf 4"
  by (auto simp: decode_sector_def dest: deserialize_seq split: if_splits)

lemma sector_roundtrip:
  assumes "valid r" "length buf = SECTOR_SIZE"
  shows "\<exists>b. rec_serialize ops r buf = Some b \<and> rec_deserialize ops b = Some r"
proof -
  have sz: "rec_size ops \<le> length buf"
    using size_fits assms(2) by (simp add: sector_consts)
  obtain b where b: "rec_serialize ops r buf = Some b" "length b = length buf"
    using serialize_ok [OF assms(1) sz] by blast
  then have "rec_deserialize ops b = Some r"
    using roundtrip [OF assms(1) sz b(1)] sz by simp
  with b(1) show ?thesis by blast
qed

lemma sealed_sector:
  assumes "valid r"
  obtains sct where "rec_serialize ops r (replicate SECTOR_SIZE 0) = Some sct"
    and "length (seal_sector crc sct) = SECTOR_SIZE"
    and "decode_sector crc ops (seal_sector crc sct) = Some r"
    and "get_u32_le (seal_sector crc sct) 0 = rec_magic ops"
    and "get_u32_le (seal_sector crc sct) 4 = rec_write_seq ops r"
proof -
  have sz: "rec_size ops \<le> length (replicate SECTOR_SIZE (0::u8))"
    using size_fits by (simp add: sector_consts)
  obtain sct where sct: "rec_serialize ops r (replicate SECTOR_SIZE 0) = Some sct" "length sct = SECTOR_SIZE"
    using serialize_ok [OF assms sz] by auto
  let ?s = "seal_sector crc sct"
  have len: "length ?s = SECTOR_SIZE"
    using sct(2) by (simp add: seal_sector_def sector_consts)
  have pre: "take (rec_size ops) ?s = take (rec_size ops) sct"
    using size_fits sct(2) by (simp add: seal_sector_def sector_consts min_def)
  have hd: "get_u32_le ?s off = get_u32_le sct off" if "off \<le> 4" for off
    unfolding get_word_defs using size_fits that
    by (subst get_bytes_take [OF _ pre]) auto
  have crc: "get_u32_le ?s CRC_OFFSET = crc (take CRC_OFFSET ?s)"
    using sct(2) by (simp add: get_word_defs get_bytes_def seal_sector_def sector_consts min_def)
  have dec: "rec_deserialize ops ?s = Some r"
    using roundtrip [OF assms sz sct(1) _ pre] size_fits len by (simp add: sector_consts)
  show thesis
    using that [OF sct(1) len] serialize_header [OF assms sz sct(1)] hd [of 0] hd [of 4] crc dec
    by (simp add: decode_sector_def)
qed

text \<open>The effect of a write: never a panic; the target sector decodes to the record.\<close>

lemma write_record_effect:
  assumes "valid r" "region_on dev offset n" "0 < n"
  defines "sc \<equiv> scan_region (rec_magic ops) dev offset n"
  defines "r' \<equiv> rec_set_write_seq ops (max_seq sc + 1) r"
  shows "\<exists>dev'. write_record crc ops dev offset n r = (r', Ok dev')
    \<and> same_outside dev dev' offset (offset + n * SECTOR_SIZE)
    \<and> decode_sector crc ops (sector dev' offset (target_idx sc)) = Some r'
    \<and> get_u32_le (sector dev' offset (target_idx sc)) 4 = max_seq sc + 1
    \<and> (\<forall>j. j \<noteq> target_idx sc \<longrightarrow> sector dev' offset j = sector dev offset j)"
proof -
  have v: "valid r'" unfolding r'_def by (rule wf_set [OF assms(1)])
  have sq: "rec_write_seq ops r' = max_seq sc + 1" unfolding r'_def by (rule seq_set)
  obtain sct where sct: "rec_serialize ops r' (replicate SECTOR_SIZE 0) = Some sct"
    "length (seal_sector crc sct) = SECTOR_SIZE"
    "decode_sector crc ops (seal_sector crc sct) = Some r'"
    "get_u32_le (seal_sector crc sct) 0 = rec_magic ops"
    "get_u32_le (seal_sector crc sct) 4 = rec_write_seq ops r'"
    by (rule sealed_sector [OF v])
  have t: "target_idx sc < n"
    unfolding sc_def by (rule target_idx_less [OF assms(3)])
  obtain dev' where "dev_write dev (offset + target_idx sc * SECTOR_SIZE) (seal_sector crc sct) = Ok dev'"
    "sector dev' offset (target_idx sc) = seal_sector crc sct"
    "same_outside dev dev' offset (offset + n * SECTOR_SIZE)"
    "\<forall>j. j \<noteq> target_idx sc \<longrightarrow> sector dev' offset j = sector dev offset j"
    using write_sector [OF assms(2) t sct(2)] by blast
  then show ?thesis
    using sct sq by (auto simp: write_record_def Let_def r'_def sc_def)
qed

text \<open>A write is what the next read returns, unless the sequence number wraps.\<close>

lemma write_then_read:
  assumes "valid r" "region_on dev offset n" "0 < n"
  defines "sc \<equiv> scan_region (rec_magic ops) dev offset n"
  defines "r' \<equiv> rec_set_write_seq ops (max_seq sc + 1) r"
  assumes nowrap: "max_seq sc \<noteq> -1"
  shows "\<exists>dev'. write_record crc ops dev offset n r = (r', Ok dev')
    \<and> same_outside dev dev' offset (offset + n * SECTOR_SIZE)
    \<and> read_record crc ops dev' offset n = Some r'"
proof -
  obtain dev' where w: "write_record crc ops dev offset n r = (r', Ok dev')"
    and fr: "same_outside dev dev' offset (offset + n * SECTOR_SIZE)"
    and new: "decode_sector crc ops (sector dev' offset (target_idx sc)) = Some r'"
    and old: "\<forall>j. j \<noteq> target_idx sc \<longrightarrow> sector dev' offset j = sector dev offset j"
    using write_record_effect [OF assms(1-3), of crc] unfolding sc_def [symmetric] r'_def [symmetric]
    by blast
  have t: "target_idx sc < n"
    unfolding sc_def by (rule target_idx_less [OF assms(3)])
  have on': "region_on dev' offset n"
    using assms(2) fr by (simp add: region_on_def same_outside_def)
  note rs = read_sector_eq [OF on', of _ crc ops]
  have "read_record crc ops dev' offset n = Some r'"
  proof (rule read_record_eqI [OF t])
    show "read_sector crc ops dev' offset (target_idx sc) = Some r'"
      using new rs [OF t] by simp
    fix j r2
    assume j: "j < n" "j \<noteq> target_idx sc" "read_sector crc ops dev' offset j = Some r2"
    then have d: "decode_sector crc ops (sector dev offset j) = Some r2"
      using rs [of j] old by simp
    have "rec_write_seq ops r2 \<le> max_seq sc"
      unfolding decode_sector_seq [OF d] sc_def
      by (rule region_max_seq [OF assms(2) j(1) decode_sector_magic [OF d]])
    also have "max_seq sc < max_seq sc + 1"
      using nowrap by (rule word_less_succ)
    finally show "rec_write_seq ops r2 < rec_write_seq ops r'"
      by (simp add: r'_def seq_set)
  qed
  with w fr show ?thesis by blast
qed

text \<open>
  A clean region stays clean under writes, and a torn write of one (any bytes in the target
  sector that do not decode) loses nothing.
\<close>

lemma write_keeps_clean:
  assumes "valid r" "region_on dev offset n" "0 < n" "region_clean crc ops dev offset n"
    and "max_seq (scan_region (rec_magic ops) dev offset n) \<noteq> -1"
    and "write_record crc ops dev offset n r = (r', Ok dev')"
  shows "region_clean crc ops dev' offset n"
proof -
  let ?sc = "scan_region (rec_magic ops) dev offset n"
  let ?t = "target_idx ?sc"
  have new: "decode_sector crc ops (sector dev' offset ?t) = Some r'"
    "get_u32_le (sector dev' offset ?t) 4 = max_seq ?sc + 1"
    and old: "\<forall>j. j \<noteq> ?t \<longrightarrow> sector dev' offset j = sector dev offset j"
    using write_record_effect [OF assms(1-3), of crc] assms(6) by auto
  have lt: "get_u32_le (sector dev' offset j) 4 \<noteq> max_seq ?sc + 1"
    if "j < n" "j \<noteq> ?t" "get_u32_le (sector dev' offset j) 0 = rec_magic ops" for j
    using region_max_seq [OF assms(2) that(1)] that old word_less_succ [OF assms(5)] by force
  show ?thesis
    unfolding region_clean_def
  proof (intro conjI allI impI)
    fix i assume "i < n" "get_u32_le (sector dev' offset i) 0 = rec_magic ops"
    then show "decode_sector crc ops (sector dev' offset i) \<noteq> None"
      using assms(4) new(1) old by (cases "i = ?t") (auto simp: region_clean_def)
  next
    fix i j
    assume ij: "i < n" "j < n" "get_u32_le (sector dev' offset i) 0 = rec_magic ops"
      "get_u32_le (sector dev' offset j) 0 = rec_magic ops"
      "get_u32_le (sector dev' offset i) 4 = get_u32_le (sector dev' offset j) 4"
    show "i = j"
    proof (cases "i = ?t \<or> j = ?t")
      case True
      then show ?thesis using lt [of i] lt [of j] ij new(2) by metis
    next
      case False
      then show ?thesis using ij old assms(4) by (auto simp: region_clean_def)
    qed
  qed
qed

lemma write_advances_seq:
  assumes "valid r" "region_on dev offset n" "0 < n"
    and "max_seq (scan_region (rec_magic ops) dev offset n) \<noteq> -1"
    and "write_record crc ops dev offset n r = (r', Ok dev')"
  shows "max_seq (scan_region (rec_magic ops) dev' offset n) =
    max_seq (scan_region (rec_magic ops) dev offset n) + 1"
proof -
  let ?sc = "scan_region (rec_magic ops) dev offset n"
  let ?sc' = "scan_region (rec_magic ops) dev' offset n"
  let ?t = "target_idx ?sc"
  have new: "decode_sector crc ops (sector dev' offset ?t) = Some r'"
    "get_u32_le (sector dev' offset ?t) 4 = max_seq ?sc + 1"
    and old: "\<forall>j. j \<noteq> ?t \<longrightarrow> sector dev' offset j = sector dev offset j"
    and fr: "same_outside dev dev' offset (offset + n * SECTOR_SIZE)"
    using write_record_effect [OF assms(1-3), of crc] assms(5) by auto
  have on': "region_on dev' offset n"
    using assms(2) fr by (simp add: region_on_def same_outside_def)
  have t: "?t < n" by (rule target_idx_less [OF assms(3)])
  have up: "max_seq ?sc < max_seq ?sc + 1" using assms(4) by (rule word_less_succ)
  have ge: "max_seq ?sc + 1 \<le> max_seq ?sc'"
    using region_max_seq [OF on' t decode_sector_magic [OF new(1)]] new(2) by simp
  have "max_seq ?sc' = 0 \<or> (\<exists>i < n. sector_header dev' offset i = Some (rec_magic ops, max_seq ?sc'))"
    using scan_max_hit [of "rec_magic ops" "sector_header dev' offset" "[0..<n]"]
    by (auto simp: scan_region_def)
  then show ?thesis
  proof
    assume "max_seq ?sc' = 0"
    with ge up show ?thesis by (simp add: word_le_nat_alt word_less_nat_alt)
  next
    assume "\<exists>i < n. sector_header dev' offset i = Some (rec_magic ops, max_seq ?sc')"
    then obtain i where i: "i < n" "get_u32_le (sector dev' offset i) 0 = rec_magic ops"
      "get_u32_le (sector dev' offset i) 4 = max_seq ?sc'"
      using sector_header_eq [OF on'] by auto
    show ?thesis
    proof (cases "i = ?t")
      case True
      then show ?thesis using i new(2) by simp
    next
      case False
      then have "max_seq ?sc' \<le> max_seq ?sc"
        using region_max_seq [OF assms(2) i(1)] i old by simp
      with ge up show ?thesis by simp
    qed
  qed
qed

lemma clean_target_not_live:
  assumes "region_on dev offset n" "2 \<le> n" "region_clean crc ops dev offset n"
    and live: "i < n" "decode_sector crc ops (sector dev offset i) = Some r"
    and top: "\<And>j. j < n \<Longrightarrow> get_u32_le (sector dev offset j) 0 = rec_magic ops \<Longrightarrow>
      get_u32_le (sector dev offset j) 4 \<le> get_u32_le (sector dev offset i) 4"
  shows "target_idx (scan_region (rec_magic ops) dev offset n) \<noteq> i"
proof (cases "empty_idx (scan_region (rec_magic ops) dev offset n)")
  case (Some t)
  then have "t < n" "get_u32_le (sector dev offset t) 0 \<noteq> rec_magic ops"
    using scan_empty [of "rec_magic ops" "sector_header dev offset" "[0..<n]" t]
      sector_header_eq [OF assms(1), of t] by (auto simp: scan_region_def)
  then show ?thesis
    using Some decode_sector_magic [OF live(2)] by (auto simp: target_idx_def)
next
  case None
  let ?sc = "scan_region (rec_magic ops) dev offset n"
  let ?q = "\<lambda>j. get_u32_le (sector dev offset j) 4"
  have full: "get_u32_le (sector dev offset j) 0 = rec_magic ops" if "j < n" for j
    using scan_full [of "rec_magic ops" "sector_header dev offset" "[0..<n]" j] None
      sector_header_eq [OF assms(1) that] that by (auto simp: scan_region_def)
  have low: "min_seq ?sc \<le> ?q j" if "j < n" for j
    unfolding scan_region_def
    by (rule scan_min [of j]) (use that full sector_header_eq [OF assms(1) that] in auto)
  have inj: "j = k" if "j < n" "k < n" "?q j = ?q k" for j k
    using assms(3) full that by (auto simp: region_clean_def)
  obtain k where k: "k < n" "k \<noteq> i"
  proof (cases "i = 0")
    case True
    then show ?thesis using that [of 1] assms(2) by simp
  next
    case False
    then show ?thesis using that [of 0] assms(2) by simp
  qed
  have below: "?q k \<noteq> ?q i" "?q k \<le> ?q i"
    using inj [OF k(1) live(1)] k top [OF k(1) full [OF k(1)]] by auto
  have "min_seq ?sc \<noteq> ?q i"
    using low [OF k(1)] below by auto
  moreover have "?q (min_idx ?sc) = min_seq ?sc \<or> min_seq ?sc = -1"
    using scan_min_idx [of "rec_magic ops" "sector_header dev offset" "[0..<n]"]
      sector_header_eq [OF assms(1), of "min_idx ?sc"] by (auto simp: scan_region_def)
  moreover have "min_seq ?sc \<noteq> -1"
    using low [OF k(1)] below word_order.extremum_unique [of "?q k"] word_order.extremum_unique [of "?q i"] by auto
  ultimately show ?thesis using None by (auto simp: target_idx_def)
qed

lemma torn_write_keeps_record:
  assumes "region_on dev offset n" "2 \<le> n" "region_clean crc ops dev offset n"
    and "length torn = SECTOR_SIZE" "decode_sector crc ops torn = None"
    and "dev_write dev (offset + target_idx (scan_region (rec_magic ops) dev offset n) * SECTOR_SIZE) torn = Ok dev'"
  shows "read_record crc ops dev' offset n = read_record crc ops dev offset n"
proof -
  let ?t = "target_idx (scan_region (rec_magic ops) dev offset n)"
  have t: "?t < n" using assms(2) by (intro target_idx_less) simp
  have new: "sector dev' offset ?t = torn" and fr: "same_outside dev dev' offset (offset + n * SECTOR_SIZE)"
    and old: "\<forall>j. j \<noteq> ?t \<longrightarrow> sector dev' offset j = sector dev offset j"
    using write_sector [OF assms(1) t assms(4)] assms(6) by auto
  have on': "region_on dev' offset n"
    using assms(1) fr by (simp add: region_on_def same_outside_def)
  have rs': "read_sector crc ops dev' offset j =
      (if j = ?t then None else read_sector crc ops dev offset j)" if "j < n" for j
    using read_sector_eq [OF on' that, of crc ops] read_sector_eq [OF assms(1) that, of crc ops] new old assms(5)
    by (cases "j = ?t") simp_all
  note rs = read_sector_eq [OF assms(1), of _ crc ops]
  show ?thesis
  proof (cases "read_record crc ops dev offset n")
    case None
    then have "read_record crc ops dev' offset n = None"
      using rs' by (auto simp: read_record_None)
    with None show ?thesis by simp
  next
    case (Some r)
    obtain i where i: "i < n" "read_sector crc ops dev offset i = Some r"
      using read_record_max(1) [OF Some] by blast
    have dec: "decode_sector crc ops (sector dev offset i) = Some r"
      using i rs by simp
    have top: "get_u32_le (sector dev offset j) 4 \<le> get_u32_le (sector dev offset i) 4"
      if j: "j < n" "get_u32_le (sector dev offset j) 0 = rec_magic ops" for j
    proof -
      obtain r' where r': "decode_sector crc ops (sector dev offset j) = Some r'"
        using assms(3) j by (auto simp: region_clean_def)
      then have "rec_write_seq ops r' \<le> rec_write_seq ops r"
        using read_record_max(2) [OF Some j(1)] rs [OF j(1)] by simp
      then show ?thesis using decode_sector_seq [OF r'] decode_sector_seq [OF dec] by simp
    qed
    have nt: "?t \<noteq> i"
      by (rule clean_target_not_live [OF assms(1-3) i(1) dec top])
    have "read_record crc ops dev' offset n = Some r"
    proof (rule read_record_eqI [OF i(1)])
      show "read_sector crc ops dev' offset i = Some r" using rs' [OF i(1)] nt i by auto
      fix j r' assume j: "j < n" "j \<noteq> i" "read_sector crc ops dev' offset j = Some r'"
      then have d: "decode_sector crc ops (sector dev offset j) = Some r'"
        using rs' [OF j(1)] rs [OF j(1)] by (auto split: if_splits)
      have "get_u32_le (sector dev offset j) 4 \<noteq> get_u32_le (sector dev offset i) 4"
        using assms(3) j(1,2) i(1) decode_sector_magic [OF d] decode_sector_magic [OF dec]
        by (auto simp: region_clean_def)
      then show "rec_write_seq ops r' < rec_write_seq ops r"
        using top [OF j(1) decode_sector_magic [OF d]] decode_sector_seq [OF d] decode_sector_seq [OF dec]
        by simp
    qed
    with Some show ?thesis by simp
  qed
qed

text \<open>
  In a region that is not clean the writer can choose the live sector: with two sectors, a
  decodable one and a torn one whose header carries a later sequence number, the scan (which
  reads headers without checking the CRC) picks the decodable sector.
\<close>

lemma torn_header_targets_live:
  assumes "region_on dev offset 2"
    and "decode_sector crc ops (sector dev offset 0) = Some r"
    and "get_u32_le (sector dev offset 1) 0 = rec_magic ops"
    and "rec_write_seq ops r < get_u32_le (sector dev offset 1) 4"
  shows "target_idx (scan_region (rec_magic ops) dev offset 2) = 0"
proof -
  have "[0..<2] = [0, Suc 0]" by (simp add: upt_rec)
  moreover have "get_u32_le (sector dev offset 0) 4 \<noteq> - 1"
    using assms(4) decode_sector_seq [OF assms(2)] by auto
  ultimately show ?thesis
    using assms(3,4) decode_sector_seq [OF assms(2)] decode_sector_magic [OF assms(2)]
      sector_header_eq [OF assms(1), of 0] sector_header_eq [OF assms(1), of 1]
    by (auto simp: scan_region_def scan_sectors_def scan_step_def scan_init_def target_idx_def Let_def)
qed

end

section \<open>The typed store\<close>

record nv_store =
  nv_dev :: mem_block_device
  nv_slot_count :: nat

definition nv_new :: "mem_block_device \<Rightarrow> nv_store" where
  "nv_new dev = \<lparr>nv_dev = dev,
     nv_slot_count = min MAX_SLOTS ((dev_size dev - BANKSET_BASE) div BANKSET_STRIDE)\<rparr>"

definition slot_in_range :: "nv_store \<Rightarrow> bank_set \<Rightarrow> bool" where
  "slot_in_range nv bset \<longleftrightarrow> as_index bset < nv_slot_count nv"

definition nv_device_size :: "nat \<Rightarrow> nat" where
  "nv_device_size slots = BANKSET_BASE + slots * BANKSET_STRIDE"

definition MIN_NV_DEVICE_SIZE :: nat where
  "MIN_NV_DEVICE_SIZE = nv_device_size DEFAULT_SLOTS"

text \<open>A typed write: the record with its new sequence number, and the store or the error.\<close>

type_synonym 'r write_result = "'r \<times> (block_error + nv_store)"

definition store_write ::
    "(bytes \<Rightarrow> u32) \<Rightarrow> 'r nv_record_ops \<Rightarrow> nat \<Rightarrow> nat \<Rightarrow> nv_store \<Rightarrow> 'r \<Rightarrow> 'r write_result" where
  "store_write crc ops offset n nv rc =
     (case write_record crc ops (nv_dev nv) offset n rc of
        (rc', Err e) \<Rightarrow> (rc', Err e)
      | (rc', Ok dev') \<Rightarrow> (rc', Ok (nv\<lparr>nv_dev := dev'\<rparr>)))"

definition read_boot_state :: "(bytes \<Rightarrow> u32) \<Rightarrow> nv_store \<Rightarrow> nv_boot_state option" where
  "read_boot_state crc nv =
     (case read_record crc boot_state_ops (nv_dev nv) BOOT_OFFSET BOOT_SECTORS of
        None \<Rightarrow> None
      | Some st \<Rightarrow>
          Some (st\<lparr>banks := take (nv_slot_count nv) (banks st)
                   @ map (\<lambda>_. bank_boot_state_default) (drop (nv_slot_count nv) (banks st))\<rparr>))"

definition write_boot_state :: "(bytes \<Rightarrow> u32) \<Rightarrow> nv_store \<Rightarrow> nv_boot_state \<Rightarrow> nv_boot_state write_result" where
  "write_boot_state crc nv st = store_write crc boot_state_ops BOOT_OFFSET BOOT_SECTORS nv st"

definition read_factory :: "(bytes \<Rightarrow> u32) \<Rightarrow> nv_store \<Rightarrow> nv_factory option" where
  "read_factory crc nv = read_record crc factory_ops (nv_dev nv) FACTORY_OFFSET FACTORY_SECTORS"

definition write_factory :: "(bytes \<Rightarrow> u32) \<Rightarrow> nv_store \<Rightarrow> nv_factory \<Rightarrow> nv_factory write_result" where
  "write_factory crc nv f = store_write crc factory_ops FACTORY_OFFSET FACTORY_SECTORS nv f"

definition read_app :: "(bytes \<Rightarrow> u32) \<Rightarrow> nv_store \<Rightarrow> nv_app option" where
  "read_app crc nv = read_record crc app_ops (nv_dev nv) APP_OFFSET APP_SECTORS"

definition write_app :: "(bytes \<Rightarrow> u32) \<Rightarrow> nv_store \<Rightarrow> nv_app \<Rightarrow> nv_app write_result" where
  "write_app crc nv a = store_write crc app_ops APP_OFFSET APP_SECTORS nv a"

definition read_vehicle_state :: "(bytes \<Rightarrow> u32) \<Rightarrow> nv_store \<Rightarrow> nv_vehicle option" where
  "read_vehicle_state crc nv = read_record crc vehicle_ops (nv_dev nv) VEHICLE_OFFSET VEHICLE_SECTORS"

definition write_vehicle_state :: "(bytes \<Rightarrow> u32) \<Rightarrow> nv_store \<Rightarrow> nv_vehicle \<Rightarrow> nv_vehicle write_result" where
  "write_vehicle_state crc nv v = store_write crc vehicle_ops VEHICLE_OFFSET VEHICLE_SECTORS nv v"

definition saturating_inc :: "'a::len word \<Rightarrow> 'a word" where
  "saturating_inc x = (if x = -1 then -1 else x + 1)"

definition bump_vehicle_epoch :: "(bytes \<Rightarrow> u32) \<Rightarrow> nv_store \<Rightarrow> block_error + (u64 \<times> nv_store)" where
  "bump_vehicle_epoch crc nv =
     (let v = (case read_vehicle_state crc nv of None \<Rightarrow> nv_vehicle_default | Some v \<Rightarrow> v);
          v' = v\<lparr>vehicle_epoch := saturating_inc (vehicle_epoch v)\<rparr>
      in case write_vehicle_state crc nv v' of
           (_, Err e) \<Rightarrow> Err e
         | (v'', Ok nv') \<Rightarrow> Ok (vehicle_epoch v'', nv'))"

definition read_update_session :: "(bytes \<Rightarrow> u32) \<Rightarrow> nv_store \<Rightarrow> nv_update_session option" where
  "read_update_session crc nv =
     read_record crc update_session_ops (nv_dev nv) UPDATE_SESSION_OFFSET UPDATE_SESSION_SECTORS"

definition write_update_session ::
    "(bytes \<Rightarrow> u32) \<Rightarrow> nv_store \<Rightarrow> nv_update_session \<Rightarrow> nv_update_session write_result" where
  "write_update_session crc nv s =
     store_write crc update_session_ops UPDATE_SESSION_OFFSET UPDATE_SESSION_SECTORS nv s"

definition clear_update_session :: "(bytes \<Rightarrow> u32) \<Rightarrow> nv_store \<Rightarrow> block_error + nv_store" where
  "clear_update_session crc nv = snd (write_update_session crc nv nv_update_session_default)"

datatype running_bank_verdict = Confirmed bank | Mismatch bank bank | NoBootState

text \<open>
  \<^verbatim>\<open>state.banks[bank_index]\<close> panics for an index past the array, which a bare \<^verbatim>\<open>BankSet\<close> allows.
\<close>

definition confirm_running_bank ::
    "(bytes \<Rightarrow> u32) \<Rightarrow> nv_store \<Rightarrow> bank_set \<Rightarrow> bank \<Rightarrow> block_error + (running_bank_verdict \<times> nv_store)" where
  "confirm_running_bank crc nv bset running_bank =
     (case read_boot_state crc nv of
        None \<Rightarrow> Ok (NoBootState, nv)
      | Some st \<Rightarrow>
          let idx = as_index bset
          in if idx \<ge> length (banks st) then Err Panicked
             else let bs = banks st ! idx; armed = active_bank bs
             in if running_bank \<noteq> armed then Ok (Mismatch running_bank armed, nv)
                else and_then
                  (if \<not> committed bs \<and> boot_count bs = 0
                   then snd (write_boot_state crc nv
                          (st\<lparr>banks := (banks st)[idx := bs\<lparr>boot_count := 1\<rparr>]\<rparr>))
                   else Ok nv)
                  (\<lambda>nv1.
                    let s = (case read_update_session crc nv1 of
                               None \<Rightarrow> nv_update_session_default | Some s \<Rightarrow> s);
                        (s', changed) = set_owed bset False s
                    in and_then (if changed then snd (write_update_session crc nv1 s') else Ok nv1)
                         (\<lambda>nv2. Ok (Confirmed armed, nv2))))"

definition out_of_range :: "nv_store \<Rightarrow> bank_set \<Rightarrow> block_error" where
  "out_of_range nv bset = OutOfBounds (bankset_offset bset) BANKSET_STRIDE (dev_size (nv_dev nv))"

definition read_fw_meta :: "(bytes \<Rightarrow> u32) \<Rightarrow> nv_store \<Rightarrow> bank_set \<Rightarrow> bank \<Rightarrow> nv_fw_meta option" where
  "read_fw_meta crc nv bset bk =
     (if \<not> slot_in_range nv bset then None
      else read_record crc fw_meta_ops (nv_dev nv) (fw_meta_offset bset bk) FW_META_SECTORS)"

definition write_fw_meta ::
    "(bytes \<Rightarrow> u32) \<Rightarrow> nv_store \<Rightarrow> bank_set \<Rightarrow> bank \<Rightarrow> nv_fw_meta \<Rightarrow> nv_fw_meta write_result" where
  "write_fw_meta crc nv bset bk m =
     (if \<not> slot_in_range nv bset then (m, Err (out_of_range nv bset))
      else store_write crc fw_meta_ops (fw_meta_offset bset bk) FW_META_SECTORS nv m)"

definition read_runtime :: "(bytes \<Rightarrow> u32) \<Rightarrow> nv_store \<Rightarrow> bank_set \<Rightarrow> bank \<Rightarrow> nv_runtime option" where
  "read_runtime crc nv bset bk =
     (if \<not> slot_in_range nv bset then None
      else read_record crc runtime_ops (nv_dev nv) (runtime_offset bset bk) RUNTIME_SECTORS)"

definition write_runtime ::
    "(bytes \<Rightarrow> u32) \<Rightarrow> nv_store \<Rightarrow> bank_set \<Rightarrow> bank \<Rightarrow> nv_runtime \<Rightarrow> nv_runtime write_result" where
  "write_runtime crc nv bset bk r =
     (if \<not> slot_in_range nv bset then (r, Err (out_of_range nv bset))
      else store_write crc runtime_ops (runtime_offset bset bk) RUNTIME_SECTORS nv r)"

definition copy_runtime ::
    "(bytes \<Rightarrow> u32) \<Rightarrow> nv_store \<Rightarrow> bank_set \<Rightarrow> bank \<Rightarrow> bank \<Rightarrow> block_error + nv_store" where
  "copy_runtime crc nv bset from to =
     (case read_runtime crc nv bset from of
        None \<Rightarrow> snd (write_runtime crc nv bset to nv_runtime_default)
      | Some r \<Rightarrow> snd (write_runtime crc nv bset to r))"

section \<open>Lemmas on the typed store\<close>

text \<open>The slot count belongs to the device; every store made by \<open>nv_new\<close> has it.\<close>

definition nv_ok :: "nv_store \<Rightarrow> bool" where
  "nv_ok nv \<longleftrightarrow>
     nv_slot_count nv = min MAX_SLOTS ((dev_size (nv_dev nv) - BANKSET_BASE) div BANKSET_STRIDE)
     \<and> BANKSET_BASE \<le> dev_size (nv_dev nv)"

lemma nv_ok_new: "BANKSET_BASE \<le> dev_size dev \<Longrightarrow> nv_ok (nv_new dev)"
  by (simp add: nv_ok_def nv_new_def)

lemma slot_region_on:
  assumes "nv_ok nv" "slot_in_range nv bset" "rel + n * SECTOR_SIZE \<le> BANKSET_STRIDE"
  shows "region_on (nv_dev nv) (bankset_offset bset + rel) n"
proof -
  have "Suc (as_index bset) \<le> (dev_size (nv_dev nv) - BANKSET_BASE) div BANKSET_STRIDE"
    using assms(1,2) by (simp add: nv_ok_def slot_in_range_def)
  then have "Suc (as_index bset) * BANKSET_STRIDE \<le> dev_size (nv_dev nv) - BANKSET_BASE"
    by (metis div_times_less_eq_dividend mult_le_mono1 order.trans)
  moreover have "BANKSET_BASE \<le> dev_size (nv_dev nv)"
    using assms(1) by (simp add: nv_ok_def)
  ultimately show ?thesis
    using assms(3) by (simp add: region_on_def bankset_offset_def)
qed

lemma fixed_region_on:
  "nv_ok nv \<Longrightarrow> offset + n * SECTOR_SIZE \<le> BANKSET_BASE \<Longrightarrow> region_on (nv_dev nv) offset n"
  by (simp add: nv_ok_def region_on_def)

lemma fw_meta_region_on:
  "nv_ok nv \<Longrightarrow> slot_in_range nv bset \<Longrightarrow> region_on (nv_dev nv) (fw_meta_offset bset bk) FW_META_SECTORS"
  unfolding fw_meta_offset_def by (erule (1) slot_region_on) (simp add: layout_consts split: bank.split)

lemma runtime_region_on:
  "nv_ok nv \<Longrightarrow> slot_in_range nv bset \<Longrightarrow> region_on (nv_dev nv) (runtime_offset bset bk) RUNTIME_SECTORS"
  unfolding runtime_offset_def by (erule (1) slot_region_on) (simp add: layout_consts split: bank.split)

text \<open>A region the write did not touch reads as before.\<close>

lemma read_record_frame:
  assumes "same_outside dev dev' lo hi"
    and "offset + n * SECTOR_SIZE \<le> lo \<or> hi \<le> offset"
  shows "read_record crc ops dev' offset n = read_record crc ops dev offset n"
proof (rule read_record_cong)
  fix i assume "i < n"
  then have "Suc i * SECTOR_SIZE \<le> n * SECTOR_SIZE" by (intro mult_le_mono1) simp
  then have "offset + i * SECTOR_SIZE + SECTOR_SIZE \<le> lo \<or> hi \<le> offset + i * SECTOR_SIZE"
    using assms(2) by auto
  then have "take SECTOR_SIZE (drop (offset + i * SECTOR_SIZE) (dev_data dev')) =
      take SECTOR_SIZE (drop (offset + i * SECTOR_SIZE) (dev_data dev))"
    using assms(1) unfolding same_outside_def by blast
  then show "read_sector crc ops dev' offset i = read_sector crc ops dev offset i"
    using assms(1) by (simp add: read_sector_def dev_read_def same_outside_def dev_size_def)
qed

text \<open>The store after a write of a region: same slots, same bytes outside the region.\<close>

definition only_region :: "nv_store \<Rightarrow> nv_store \<Rightarrow> nat \<Rightarrow> nat \<Rightarrow> bool" where
  "only_region nv nv' offset n \<longleftrightarrow> nv_slot_count nv' = nv_slot_count nv
     \<and> same_outside (nv_dev nv) (nv_dev nv') offset (offset + n * SECTOR_SIZE)"

lemma only_region_ok: "only_region nv nv' offset n \<Longrightarrow> nv_ok nv \<Longrightarrow> nv_ok nv'"
  by (simp add: only_region_def nv_ok_def same_outside_def)

lemma only_region_slot: "only_region nv nv' offset n \<Longrightarrow> slot_in_range nv' bset = slot_in_range nv bset"
  by (simp add: only_region_def slot_in_range_def)

lemma only_region_read:
  assumes "only_region nv nv' offset n"
    and "offset' + n' * SECTOR_SIZE \<le> offset \<or> offset + n * SECTOR_SIZE \<le> offset'"
  shows "read_record crc ops (nv_dev nv') offset' n' = read_record crc ops (nv_dev nv) offset' n'"
  by (rule read_record_frame [OF _ assms(2)]) (use assms(1) in \<open>simp add: only_region_def\<close>)

text \<open>The highest sequence number of a region's headers, as the next write sees it.\<close>

definition region_seq :: "'r nv_record_ops \<Rightarrow> nv_store \<Rightarrow> nat \<Rightarrow> nat \<Rightarrow> u32" where
  "region_seq ops nv offset n = max_seq (scan_region (rec_magic ops) (nv_dev nv) offset n)"

lemma only_region_seq:
  assumes "only_region nv nv' offset n"
    and "offset' + n' * SECTOR_SIZE \<le> offset \<or> offset + n * SECTOR_SIZE \<le> offset'"
  shows "region_seq ops nv' offset' n' = region_seq ops nv offset' n'"
proof -
  have "sector_header (nv_dev nv') offset' i = sector_header (nv_dev nv) offset' i" if "i < n'" for i
  proof -
    have "Suc i * SECTOR_SIZE \<le> n' * SECTOR_SIZE" using that by (intro mult_le_mono1) simp
    then have "offset' + i * SECTOR_SIZE + 8 \<le> offset \<or> offset + n * SECTOR_SIZE \<le> offset' + i * SECTOR_SIZE"
      using assms(2) by (auto simp: sector_consts)
    then have "take 8 (drop (offset' + i * SECTOR_SIZE) (dev_data (nv_dev nv'))) =
        take 8 (drop (offset' + i * SECTOR_SIZE) (dev_data (nv_dev nv)))"
      using assms(1) unfolding only_region_def same_outside_def by blast
    then show ?thesis
      using assms(1) by (simp add: sector_header_def dev_read_def only_region_def same_outside_def dev_size_def)
  qed
  then show ?thesis
    by (auto simp: region_seq_def scan_region_def scan_sectors_def scan_step_def
        intro!: arg_cong [where f = max_seq] fold_cong)
qed

context nv_record
begin

lemma read_sector_valid: "read_sector crc ops dev offset i = Some r \<Longrightarrow> valid r"
  by (cases "dev_read dev (offset + i * SECTOR_SIZE) SECTOR_SIZE")
     (auto simp: read_sector_def dest: deserialize_wf split: if_split_asm)

lemma read_record_valid: "read_record crc ops dev offset n = Some r \<Longrightarrow> valid r"
  by (drule read_record_max(1)) (auto dest: read_sector_valid)

lemma store_write_read:
  assumes "valid r" "region_on (nv_dev nv) offset n" "0 < n" "region_seq ops nv offset n \<noteq> -1"
  shows "\<exists>nv'. store_write crc ops offset n nv r =
      (rec_set_write_seq ops (region_seq ops nv offset n + 1) r, Ok nv')
    \<and> only_region nv nv' offset n
    \<and> read_record crc ops (nv_dev nv') offset n =
        Some (rec_set_write_seq ops (region_seq ops nv offset n + 1) r)"
  using write_then_read [OF assms(1-3), of crc] assms(4)
  by (auto simp: store_write_def only_region_def region_seq_def)

end

end
