(* ===== verification/NvProps.thy ===== *)
theory NvProps
  imports NvStore
begin

text \<open>
  What the NV store promises: every record type round-trips, a write is what the next read
  returns and touches nothing else, a torn write loses nothing while the region is clean,
  and the epoch only moves forward. The hypotheses on sequence numbers exclude the wrap of
  the 32-bit write counter.
\<close>

section \<open>A blank device\<close>

lemma le_word_zeros [simp]: "le_word (replicate m 0) = 0"
  by (induction m) (simp_all add: le_word_def)

lemma get_u32_le_zero: "get_u32_le (replicate n 0) off = 0"
  by (simp add: get_u32_le_def get_bytes_def)

lemma sector_header_new: "sector_header (mem_new sz) offset i = Some h \<Longrightarrow> h = (0, 0)"
  by (auto simp: sector_header_def dev_read_def mem_new_def get_u32_le_zero split: if_splits)

lemma region_seq_new [simp]:
  "rec_magic ops \<noteq> 0 \<Longrightarrow> region_seq ops (nv_new (mem_new sz)) offset n = 0"
  using scan_max_hit [of "rec_magic ops" "sector_header (mem_new sz) offset" "[0..<n]"]
  by (auto simp: region_seq_def nv_new_def scan_region_def dest: sector_header_new)

lemma magic_nonzero [simp]:
  "rec_magic boot_state_ops \<noteq> 0" "rec_magic factory_ops \<noteq> 0" "rec_magic fw_meta_ops \<noteq> 0"
  "rec_magic runtime_ops \<noteq> 0" "rec_magic app_ops \<noteq> 0" "rec_magic vehicle_ops \<noteq> 0"
  "rec_magic update_session_ops \<noteq> 0"
  by (simp_all add: boot_state_ops_def factory_ops_def fw_meta_ops_def runtime_ops_def app_ops_def
      vehicle_ops_def update_session_ops_def magic_defs)

text \<open>A store with one slot on a blank device, for the concrete instances.\<close>

definition blank1 :: nv_store where
  "blank1 = nv_new (mem_new (nv_device_size 1))"

lemma blank1_facts [simp]:
  "nv_ok blank1" "nv_slot_count blank1 = 1" "slot_in_range blank1 0" "\<not> slot_in_range blank1 1"
  by (simp_all add: blank1_def nv_new_def nv_ok_def mem_new_def dev_size_def nv_device_size_def
      layout_consts MAX_SLOTS_def slot_in_range_def as_index_def)

lemma region_seq_blank1 [simp]: "rec_magic ops \<noteq> 0 \<Longrightarrow> region_seq ops blank1 offset n = 0"
  by (simp add: blank1_def)

lemma defaults_wf [simp]:
  "wf_boot_state nv_boot_state_default" "wf_factory nv_factory_default" "wf_fw_meta nv_fw_meta_default"
  "wf_runtime nv_runtime_default" "wf_app nv_app_default" "wf_vehicle nv_vehicle_default"
  "wf_update_session nv_update_session_default"
  by (simp_all add: wf_boot_state_def nv_boot_state_default_def wf_factory_def nv_factory_default_def
      wf_fw_meta_def nv_fw_meta_default_def wf_runtime_def nv_runtime_default_def wf_app_def
      nv_app_default_def wf_vehicle_def wf_update_session_def nv_update_session_default_def)

section \<open>Round trips of the record types\<close>

text \<open>A boot-state record with all its 64 entries, serialised into any buffer of at least its
  size, never panics and decodes to itself.\<close>

theorem boot_state_roundtrip:
  assumes "wf_boot_state st" and "boot_state_size \<le> length buf"
  shows "\<exists>b. serialize_boot_state st buf = Some b \<and> length b = length buf \<and> deserialize_boot_state b = Some st"
  using boot_rec.serialize_ok [of st buf] boot_rec.roundtrip [of st buf] assms
  by (fastforce simp: boot_state_ops_def)

theorem boot_state_roundtrip_witness:
  "\<exists>b. serialize_boot_state nv_boot_state_default (replicate 4096 0) = Some b \<and> length b = 4096
     \<and> deserialize_boot_state b = Some nv_boot_state_default"
  using boot_state_roundtrip [of nv_boot_state_default "replicate 4096 0"]
  by (simp add: boot_state_size_def MAX_SLOTS_def)

text \<open>A runtime record (20 DID entries, 16 DTC entries, counts within the arrays) serialises
  without a panic and decodes to itself; the decoder rejects a buffer whose DID count exceeds
  the array.\<close>

theorem runtime_roundtrip:
  assumes "wf_runtime r" and "runtime_size \<le> length buf"
  shows "(\<exists>b. serialize_runtime r buf = Some b \<and> length b = length buf \<and> deserialize_runtime b = Some r)
    \<and> (unat (get_u8 buf 8) > MAX_DIDS \<longrightarrow> deserialize_runtime buf = None)"
  using runtime_rec.serialize_ok [of r buf] runtime_rec.roundtrip [of r buf] assms
  by (fastforce simp: runtime_ops_def deserialize_runtime_def)

theorem runtime_roundtrip_witness:
  "\<exists>b. serialize_runtime nv_runtime_default (replicate 4096 255) = Some b \<and> length b = 4096
     \<and> deserialize_runtime b = Some nv_runtime_default
     \<and> deserialize_runtime (replicate 4096 255) = None"
  using runtime_roundtrip [of nv_runtime_default "replicate 4096 255"]
  by (auto simp: runtime_size_def get_u8_def runtime_consts)

text \<open>The five field-only records (factory data, firmware metadata, application data, vehicle
  state, update session) serialise into a sector without a panic and decode to themselves.\<close>

theorem field_records_roundtrip:
  assumes "length buf = SECTOR_SIZE" "wf_factory f" "wf_fw_meta m" "wf_app a" "wf_update_session u"
  shows "(\<exists>b. serialize_factory f buf = Some b \<and> deserialize_factory b = Some f)
    \<and> (\<exists>b. serialize_fw_meta m buf = Some b \<and> deserialize_fw_meta b = Some m)
    \<and> (\<exists>b. serialize_app a buf = Some b \<and> deserialize_app b = Some a)
    \<and> (\<exists>b. serialize_vehicle v buf = Some b \<and> deserialize_vehicle b = Some v)
    \<and> (\<exists>b. serialize_update_session u buf = Some b \<and> deserialize_update_session b = Some u)"
  using factory_rec.sector_roundtrip [OF assms(2,1)] fw_meta_rec.sector_roundtrip [OF assms(3,1)]
    app_rec.sector_roundtrip [OF assms(4,1)] vehicle_rec.sector_roundtrip [of v, OF _ assms(1)]
    update_session_rec.sector_roundtrip [OF assms(5,1)]
  by (simp add: factory_ops_def fw_meta_ops_def app_ops_def vehicle_ops_def update_session_ops_def
      wf_vehicle_def)

theorem field_records_roundtrip_witness:
  "(\<exists>b. serialize_factory nv_factory_default (replicate SECTOR_SIZE 7) = Some b
      \<and> deserialize_factory b = Some nv_factory_default)
   \<and> (\<exists>b. serialize_update_session nv_update_session_default (replicate SECTOR_SIZE 7) = Some b
      \<and> deserialize_update_session b = Some nv_update_session_default)"
  using field_records_roundtrip [of "replicate SECTOR_SIZE 7" nv_factory_default nv_fw_meta_default
      nv_app_default nv_update_session_default nv_vehicle_default]
  by simp

section \<open>Writes and reads of the typed store\<close>

text \<open>Writing the boot state succeeds, and the next read returns it with the next sequence
  number, except that the entries of slots the device has no room for read as the committed
  default; the write touches the boot-state region only.\<close>

theorem boot_state_write_read:
  assumes "nv_ok nv" "wf_boot_state st" "region_seq boot_state_ops nv BOOT_OFFSET BOOT_SECTORS \<noteq> -1"
  shows "\<exists>nv'. write_boot_state crc nv st =
      (st\<lparr>bst_write_seq := region_seq boot_state_ops nv BOOT_OFFSET BOOT_SECTORS + 1\<rparr>, Ok nv')
    \<and> only_region nv nv' BOOT_OFFSET BOOT_SECTORS
    \<and> read_boot_state crc nv' = Some
        \<lparr>bst_write_seq = region_seq boot_state_ops nv BOOT_OFFSET BOOT_SECTORS + 1,
         banks = take (nv_slot_count nv) (banks st)
           @ replicate (MAX_SLOTS - nv_slot_count nv) bank_boot_state_default\<rparr>"
proof -
  have "region_on (nv_dev nv) BOOT_OFFSET BOOT_SECTORS"
    by (rule fixed_region_on [OF assms(1)]) (simp add: layout_consts)
  from boot_rec.store_write_read [OF assms(2) this _ assms(3), of crc]
  show ?thesis
    using assms(2)
    by (auto simp: write_boot_state_def read_boot_state_def boot_state_ops_def BOOT_SECTORS_def
        only_region_def wf_boot_state_def map_replicate_const)
qed

theorem boot_state_write_read_witness:
  "\<exists>nv'. write_boot_state (\<lambda>_. 0) blank1 nv_boot_state_default = (nv_boot_state_default\<lparr>bst_write_seq := 1\<rparr>, Ok nv')
     \<and> read_boot_state (\<lambda>_. 0) nv' = Some
        \<lparr>bst_write_seq = 1, banks = take 1 (banks nv_boot_state_default) @ replicate 63 bank_boot_state_default\<rparr>"
  using boot_state_write_read [of blank1 nv_boot_state_default "\<lambda>_. 0"] by (auto simp: MAX_SLOTS_def)

lemma banksets_apart:
  "as_index s < as_index t \<Longrightarrow> bankset_offset s + BANKSET_STRIDE \<le> bankset_offset t"
proof -
  assume "as_index s < as_index t"
  then have "Suc (as_index s) * BANKSET_STRIDE \<le> as_index t * BANKSET_STRIDE"
    by (intro mult_le_mono1) simp
  then show ?thesis by (simp add: bankset_offset_def)
qed

text \<open>No two regions of the layout overlap: the facts the isolation theorems use.\<close>

lemma banksets_disjoint:
  "s \<noteq> s' \<Longrightarrow> bankset_offset s + 0x18000 \<le> bankset_offset s' \<or> bankset_offset s' + 0x18000 \<le> bankset_offset s"
  using banksets_apart [of s s'] banksets_apart [of s' s] as_index_inj [of s s']
  by (auto simp: BANKSET_STRIDE_def nat_neq_iff)

lemma fw_meta_regions_apart:
  "(s, k) \<noteq> (s', k') \<Longrightarrow> fw_meta_offset s' k' + FW_META_SECTORS * SECTOR_SIZE \<le> fw_meta_offset s k
     \<or> fw_meta_offset s k + FW_META_SECTORS * SECTOR_SIZE \<le> fw_meta_offset s' k'"
  using banksets_disjoint [of s s']
  by (cases "s = s'"; cases k; cases k') (auto simp: fw_meta_offset_def layout_consts)

lemma runtime_regions_apart:
  "(s, k) \<noteq> (s', k') \<Longrightarrow> runtime_offset s' k' + RUNTIME_SECTORS * SECTOR_SIZE \<le> runtime_offset s k
     \<or> runtime_offset s k + RUNTIME_SECTORS * SECTOR_SIZE \<le> runtime_offset s' k'"
  using banksets_disjoint [of s s']
  by (cases "s = s'"; cases k; cases k') (auto simp: runtime_offset_def layout_consts)

lemma fw_meta_runtime_apart:
  "runtime_offset s' k' + RUNTIME_SECTORS * SECTOR_SIZE \<le> fw_meta_offset s k
     \<or> fw_meta_offset s k + FW_META_SECTORS * SECTOR_SIZE \<le> runtime_offset s' k'"
  using banksets_disjoint [of s s']
  by (cases "s = s'"; cases k; cases k') (auto simp: runtime_offset_def fw_meta_offset_def layout_consts)

lemma slot_above_header:
  "BANKSET_BASE \<le> fw_meta_offset s k" "BANKSET_BASE \<le> runtime_offset s k"
  by (simp_all add: fw_meta_offset_def runtime_offset_def bankset_offset_def)

lemma slot_write_keeps_header:
  assumes "only_region nv nv' offset n" "BANKSET_BASE \<le> offset"
  shows "read_boot_state crc nv' = read_boot_state crc nv"
    and "read_update_session crc nv' = read_update_session crc nv"
    and "read_vehicle_state crc nv' = read_vehicle_state crc nv"
    and "read_factory crc nv' = read_factory crc nv"
    and "read_app crc nv' = read_app crc nv"
proof -
  have low: "off + k * SECTOR_SIZE \<le> offset \<or> offset + n * SECTOR_SIZE \<le> off"
    if "off + k * SECTOR_SIZE \<le> BANKSET_BASE" for off k
    using that assms(2) by simp
  have sl: "nv_slot_count nv' = nv_slot_count nv"
    using assms(1) by (simp add: only_region_def)
  show "read_boot_state crc nv' = read_boot_state crc nv"
    unfolding read_boot_state_def sl
    by (subst only_region_read [OF assms(1) low]) (simp_all add: layout_consts)
  show "read_update_session crc nv' = read_update_session crc nv"
    unfolding read_update_session_def
    by (rule only_region_read [OF assms(1) low]) (simp add: layout_consts)
  show "read_vehicle_state crc nv' = read_vehicle_state crc nv"
    unfolding read_vehicle_state_def
    by (rule only_region_read [OF assms(1) low]) (simp add: layout_consts)
  show "read_factory crc nv' = read_factory crc nv"
    unfolding read_factory_def
    by (rule only_region_read [OF assms(1) low]) (simp add: layout_consts)
  show "read_app crc nv' = read_app crc nv"
    unfolding read_app_def
    by (rule only_region_read [OF assms(1) low]) (simp add: layout_consts)
qed

text \<open>Writing the firmware metadata of one bank of an addressable slot succeeds, is what the next
  read of that bank returns, and leaves the metadata of every other bank and slot, every
  runtime record, the boot state, the update session and the vehicle state as they were.\<close>

theorem fw_meta_write_read:
  assumes "nv_ok nv" "slot_in_range nv s" "wf_fw_meta m"
    and "region_seq fw_meta_ops nv (fw_meta_offset s k) FW_META_SECTORS \<noteq> -1"
  shows "\<exists>nv'. write_fw_meta crc nv s k m =
      (m\<lparr>fwm_write_seq := region_seq fw_meta_ops nv (fw_meta_offset s k) FW_META_SECTORS + 1\<rparr>, Ok nv')
    \<and> nv_ok nv'
    \<and> read_fw_meta crc nv' s k =
        Some (m\<lparr>fwm_write_seq := region_seq fw_meta_ops nv (fw_meta_offset s k) FW_META_SECTORS + 1\<rparr>)
    \<and> (\<forall>s' k'. (s', k') \<noteq> (s, k) \<longrightarrow> read_fw_meta crc nv' s' k' = read_fw_meta crc nv s' k')
    \<and> (\<forall>s' k'. read_runtime crc nv' s' k' = read_runtime crc nv s' k')
    \<and> read_boot_state crc nv' = read_boot_state crc nv
    \<and> read_update_session crc nv' = read_update_session crc nv
    \<and> read_vehicle_state crc nv' = read_vehicle_state crc nv"
proof -
  obtain nv' where w: "store_write crc fw_meta_ops (fw_meta_offset s k) FW_META_SECTORS nv m =
      (rec_set_write_seq fw_meta_ops (region_seq fw_meta_ops nv (fw_meta_offset s k) FW_META_SECTORS + 1) m, Ok nv')"
    and fr: "only_region nv nv' (fw_meta_offset s k) FW_META_SECTORS"
    and rd: "read_record crc fw_meta_ops (nv_dev nv') (fw_meta_offset s k) FW_META_SECTORS =
      Some (rec_set_write_seq fw_meta_ops (region_seq fw_meta_ops nv (fw_meta_offset s k) FW_META_SECTORS + 1) m)"
    using fw_meta_rec.store_write_read [OF assms(3) fw_meta_region_on [OF assms(1,2)] _ assms(4), of crc]
    by (auto simp: FW_META_SECTORS_def)
  note sl = only_region_slot [OF fr] and rr = only_region_read [OF fr]
  have "read_fw_meta crc nv' s' k' = read_fw_meta crc nv s' k'" if "(s', k') \<noteq> (s, k)" for s' k'
    unfolding read_fw_meta_def sl
    using rr [OF fw_meta_regions_apart [OF that [symmetric]], of crc fw_meta_ops] by simp
  moreover have "read_runtime crc nv' s' k' = read_runtime crc nv s' k'" for s' k'
    unfolding read_runtime_def sl
    using rr [OF fw_meta_runtime_apart, of crc runtime_ops] by simp
  moreover have "write_fw_meta crc nv s k m =
      (m\<lparr>fwm_write_seq := region_seq fw_meta_ops nv (fw_meta_offset s k) FW_META_SECTORS + 1\<rparr>, Ok nv')"
    using w assms(2) by (simp add: write_fw_meta_def)
  moreover have "read_fw_meta crc nv' s k =
      Some (m\<lparr>fwm_write_seq := region_seq fw_meta_ops nv (fw_meta_offset s k) FW_META_SECTORS + 1\<rparr>)"
    using rd assms(2) sl by (simp add: read_fw_meta_def)
  ultimately show ?thesis
    using only_region_ok [OF fr assms(1)] slot_write_keeps_header [OF fr slot_above_header(1), of crc]
    by blast
qed

theorem fw_meta_write_read_witness:
  "\<exists>nv'. write_fw_meta (\<lambda>_. 0) blank1 0 B nv_fw_meta_default = (nv_fw_meta_default\<lparr>fwm_write_seq := 1\<rparr>, Ok nv')
     \<and> read_fw_meta (\<lambda>_. 0) nv' 0 B = Some (nv_fw_meta_default\<lparr>fwm_write_seq := 1\<rparr>)
     \<and> read_fw_meta (\<lambda>_. 0) nv' 0 A = read_fw_meta (\<lambda>_. 0) blank1 0 A"
  using fw_meta_write_read [of blank1 0 nv_fw_meta_default B "\<lambda>_. 0"] by auto

section \<open>Power loss\<close>

text \<open>A sequence of completed boot-state writes.\<close>

fun write_boot_states :: "(bytes \<Rightarrow> u32) \<Rightarrow> nv_store \<Rightarrow> nv_boot_state list \<Rightarrow> nv_store option" where
  "write_boot_states crc nv [] = Some nv"
| "write_boot_states crc nv (st # sts) =
     (case write_boot_state crc nv st of
        (_, Err _) \<Rightarrow> None
      | (_, Ok nv') \<Rightarrow> write_boot_states crc nv' sts)"

abbreviation boot_seq :: "nv_store \<Rightarrow> u32" where
  "boot_seq nv \<equiv> region_seq boot_state_ops nv BOOT_OFFSET BOOT_SECTORS"

abbreviation boot_clean :: "(bytes \<Rightarrow> u32) \<Rightarrow> nv_store \<Rightarrow> bool" where
  "boot_clean crc nv \<equiv> region_clean crc boot_state_ops (nv_dev nv) BOOT_OFFSET BOOT_SECTORS"

text \<open>What a store of \<open>slots\<close> addressable slots reads back of a written boot state.\<close>

definition masked :: "nat \<Rightarrow> u32 \<Rightarrow> nv_boot_state \<Rightarrow> nv_boot_state" where
  "masked slots q st = \<lparr>bst_write_seq = q,
     banks = take slots (banks st) @ replicate (MAX_SLOTS - slots) bank_boot_state_default\<rparr>"

lemma boot_region_on: "nv_ok nv \<Longrightarrow> region_on (nv_dev nv) BOOT_OFFSET BOOT_SECTORS"
  by (rule fixed_region_on) (simp_all add: layout_consts)

lemma boot_write_step:
  assumes "nv_ok nv" "wf_boot_state st" "boot_seq nv \<noteq> -1" "boot_clean crc nv"
  shows "\<exists>nv'. write_boot_state crc nv st = (st\<lparr>bst_write_seq := boot_seq nv + 1\<rparr>, Ok nv')
    \<and> nv_ok nv' \<and> nv_slot_count nv' = nv_slot_count nv \<and> boot_seq nv' = boot_seq nv + 1
    \<and> boot_clean crc nv'
    \<and> read_boot_state crc nv' = Some (masked (nv_slot_count nv) (boot_seq nv + 1) st)"
proof -
  have pos: "0 < BOOT_SECTORS" by (simp add: layout_consts)
  note on = boot_region_on [OF assms(1)]
  obtain nv' where w: "store_write crc boot_state_ops BOOT_OFFSET BOOT_SECTORS nv st =
      (st\<lparr>bst_write_seq := boot_seq nv + 1\<rparr>, Ok nv')"
    and fr: "only_region nv nv' BOOT_OFFSET BOOT_SECTORS"
    and rd: "read_record crc boot_state_ops (nv_dev nv') BOOT_OFFSET BOOT_SECTORS =
      Some (st\<lparr>bst_write_seq := boot_seq nv + 1\<rparr>)"
    using boot_rec.store_write_read [OF assms(2) on pos assms(3), of crc] by auto
  have raw: "write_record crc boot_state_ops (nv_dev nv) BOOT_OFFSET BOOT_SECTORS st =
      (st\<lparr>bst_write_seq := boot_seq nv + 1\<rparr>, Ok (nv_dev nv'))"
    using w by (auto simp: store_write_def split: prod.splits sum.splits)
  have "boot_clean crc nv'"
    using boot_rec.write_keeps_clean [OF assms(2) on pos assms(4) _ raw] assms(3)
    by (simp add: region_seq_def)
  moreover have "boot_seq nv' = boot_seq nv + 1"
    using boot_rec.write_advances_seq [OF assms(2) on pos _ raw] assms(3)
    by (simp add: region_seq_def)
  moreover have "read_boot_state crc nv' = Some (masked (nv_slot_count nv) (boot_seq nv + 1) st)"
    using rd assms(2) fr
    by (simp add: read_boot_state_def masked_def only_region_def wf_boot_state_def map_replicate_const)
  ultimately show ?thesis
    using w fr only_region_ok [OF fr assms(1)] by (auto simp: write_boot_state_def only_region_def)
qed

lemma unat_minus_one_u32: "unat (-1 :: u32) = 4294967295"
  by (simp add: unat_eq_nat_uint uint_word_ariths)

lemma write_boot_states_ok:
  assumes "nv_ok nv" "boot_clean crc nv" "\<forall>st \<in> set sts. wf_boot_state st"
    "unat (boot_seq nv) + length sts < 2 ^ 32 - 1"
  shows "\<exists>nv'. write_boot_states crc nv sts = Some nv' \<and> nv_ok nv' \<and> boot_clean crc nv'
    \<and> nv_slot_count nv' = nv_slot_count nv \<and> boot_seq nv' = boot_seq nv + of_nat (length sts)
    \<and> (sts \<noteq> [] \<longrightarrow> read_boot_state crc nv' = Some (masked (nv_slot_count nv) (boot_seq nv') (last sts)))"
  using assms
proof (induction sts arbitrary: nv)
  case Nil
  then show ?case by simp
next
  case (Cons st sts)
  have "unat (boot_seq nv) \<noteq> unat (-1 :: u32)"
    using Cons.prems(4) by (simp add: unat_minus_one_u32)
  then have "boot_seq nv \<noteq> -1" by metis
  with Cons.prems obtain nv1 where nv1: "write_boot_state crc nv st = (st\<lparr>bst_write_seq := boot_seq nv + 1\<rparr>, Ok nv1)"
    "nv_ok nv1" "nv_slot_count nv1 = nv_slot_count nv" "boot_seq nv1 = boot_seq nv + 1" "boot_clean crc nv1"
    "read_boot_state crc nv1 = Some (masked (nv_slot_count nv) (boot_seq nv + 1) st)"
    using boot_write_step [of nv st crc] by auto
  have "unat (boot_seq nv1) = Suc (unat (boot_seq nv))"
    using \<open>boot_seq nv \<noteq> -1\<close> nv1(4) by (metis add.commute eq_neg_iff_add_eq_0 unatSuc)
  then obtain nv' where nv': "write_boot_states crc nv1 sts = Some nv'" "nv_ok nv'" "boot_clean crc nv'"
    "nv_slot_count nv' = nv_slot_count nv1" "boot_seq nv' = boot_seq nv1 + of_nat (length sts)"
    "sts \<noteq> [] \<longrightarrow> read_boot_state crc nv' = Some (masked (nv_slot_count nv1) (boot_seq nv') (last sts))"
    using Cons.IH [of nv1] nv1 Cons.prems by auto
  show ?case
    using nv' nv1 by (cases "sts = []") (auto simp: algebra_simps)
qed

lemma boot_clean_new [simp]: "boot_clean crc (nv_new (mem_new sz))"
  by (auto simp: region_clean_def nv_new_def sector_def mem_new_def get_u32_le_zero boot_state_ops_def magic_defs)

lemma boot_magic: "rec_magic boot_state_ops = MAGIC_BOOT"
  by (simp add: boot_state_ops_def)

lemma blank_store:
  "nv_ok (nv_new (mem_new (nv_device_size slots)))"
  "nv_slot_count (nv_new (mem_new (nv_device_size slots))) = min MAX_SLOTS slots"
proof -
  have sz: "dev_size (mem_new (nv_device_size slots)) = nv_device_size slots"
    by (simp add: dev_size_def mem_new_def)
  then show "nv_ok (nv_new (mem_new (nv_device_size slots)))"
    by (intro nv_ok_new) (simp add: nv_device_size_def)
  show "nv_slot_count (nv_new (mem_new (nv_device_size slots))) = min MAX_SLOTS slots"
    using sz by (simp add: nv_new_def nv_device_size_def BANKSET_STRIDE_def)
qed

lemma unreadable_write_keeps_boot_state:
  assumes "nv_ok nv" "boot_clean crc nv" "length torn = SECTOR_SIZE"
    "decode_sector crc boot_state_ops torn = None"
    "dev_write (nv_dev nv) (BOOT_OFFSET + target_idx (scan_region MAGIC_BOOT (nv_dev nv) BOOT_OFFSET BOOT_SECTORS) * SECTOR_SIZE)
       torn = Ok dev'"
  shows "read_boot_state crc (nv\<lparr>nv_dev := dev'\<rparr>) = read_boot_state crc nv"
proof -
  have "2 \<le> BOOT_SECTORS" by (simp add: layout_consts)
  from boot_rec.torn_write_keeps_record [OF boot_region_on [OF assms(1)] this assms(2-4)] assms(5)
  have "read_record crc boot_state_ops dev' BOOT_OFFSET BOOT_SECTORS =
      read_record crc boot_state_ops (nv_dev nv) BOOT_OFFSET BOOT_SECTORS"
    unfolding boot_magic by fastforce
  then show ?thesis by (simp add: read_boot_state_def split: option.split)
qed

text \<open>C2: On a blank device, any non-empty sequence of fewer than 2^32 - 1 boot-state writes succeeds
  and the last one is what is read; and if power is lost during the next write, leaving any
  bytes in its target sector that do not decode, the last completed state is still read.\<close>

theorem boot_state_survives_torn_write:
  assumes "sts \<noteq> []" "\<forall>st \<in> set sts. wf_boot_state st" "length sts < 2 ^ 32 - 1"
  shows "\<exists>nv. write_boot_states crc (nv_new (mem_new (nv_device_size slots))) sts = Some nv
    \<and> read_boot_state crc nv = Some (masked (min MAX_SLOTS slots) (of_nat (length sts)) (last sts))
    \<and> (\<forall>torn dev'. length torn = SECTOR_SIZE \<longrightarrow> decode_sector crc boot_state_ops torn = None \<longrightarrow>
         dev_write (nv_dev nv)
           (BOOT_OFFSET + target_idx (scan_region MAGIC_BOOT (nv_dev nv) BOOT_OFFSET BOOT_SECTORS) * SECTOR_SIZE)
           torn = Ok dev' \<longrightarrow>
         read_boot_state crc (nv\<lparr>nv_dev := dev'\<rparr>) =
           Some (masked (min MAX_SLOTS slots) (of_nat (length sts)) (last sts)))"
proof -
  let ?nv0 = "nv_new (mem_new (nv_device_size slots))"
  obtain nv where nv: "write_boot_states crc ?nv0 sts = Some nv" "nv_ok nv" "boot_clean crc nv"
      "read_boot_state crc nv = Some (masked (min MAX_SLOTS slots) (of_nat (length sts)) (last sts))"
    using write_boot_states_ok [of ?nv0 crc sts] assms by (auto simp: blank_store)
  show ?thesis
    using nv unreadable_write_keeps_boot_state [OF nv(2,3)] by auto
qed

theorem boot_state_survives_torn_write_witness:
  "\<exists>nv. write_boot_states (\<lambda>_. 0) (nv_new (mem_new (nv_device_size 16))) [nv_boot_state_default] = Some nv
     \<and> read_boot_state (\<lambda>_. 0) nv = Some (masked 16 1 nv_boot_state_default)"
  using boot_state_survives_torn_write [of "[nv_boot_state_default]" "\<lambda>_. 0" 16] by (auto simp: MAX_SLOTS_def)

text \<open>The header scan of a two-sector region prefers a sector without the magic.\<close>

lemma scan_target_two:
  assumes "region_on dev offset 2"
  shows "get_u32_le (sector dev offset 0) 0 \<noteq> m \<Longrightarrow> target_idx (scan_region m dev offset 2) = 0"
    and "get_u32_le (sector dev offset 0) 0 = m \<Longrightarrow> get_u32_le (sector dev offset 1) 0 \<noteq> m \<Longrightarrow>
      target_idx (scan_region m dev offset 2) = 1"
proof -
  have "[0..<2] = [0, Suc 0]" by (simp add: upt_rec)
  then show "get_u32_le (sector dev offset 0) 0 \<noteq> m \<Longrightarrow> target_idx (scan_region m dev offset 2) = 0"
    and "get_u32_le (sector dev offset 0) 0 = m \<Longrightarrow> get_u32_le (sector dev offset 1) 0 \<noteq> m \<Longrightarrow>
      target_idx (scan_region m dev offset 2) = 1"
    using sector_header_eq [OF assms, of 0] sector_header_eq [OF assms, of 1]
    by (auto simp: scan_region_def scan_sectors_def scan_step_def scan_init_def target_idx_def Let_def)
qed

abbreviation boot_target :: "nv_store \<Rightarrow> nat" where
  "boot_target nv \<equiv>
     BOOT_OFFSET + target_idx (scan_region MAGIC_BOOT (nv_dev nv) BOOT_OFFSET BOOT_SECTORS) * SECTOR_SIZE"

lemma read_boot_state_gone:
  assumes "region_on (nv_dev nv) BOOT_OFFSET 2"
    "decode_sector crc boot_state_ops (sector (nv_dev nv) BOOT_OFFSET 0) = None"
    "decode_sector crc boot_state_ops (sector (nv_dev nv) BOOT_OFFSET 1) = None"
  shows "read_boot_state crc nv = None"
proof -
  have "read_record crc boot_state_ops (nv_dev nv) BOOT_OFFSET 2 = None"
    using read_sector_eq [OF assms(1), of _ crc boot_state_ops] assms(2,3)
    by (auto simp: read_record_None less_2_cases_iff)
  then show ?thesis by (simp add: read_boot_state_def BOOT_SECTORS_def)
qed

lemma torn_header_then_torn_write:
  assumes "nv_ok nv"
    "decode_sector crc boot_state_ops (sector (nv_dev nv) BOOT_OFFSET 0) = Some st"
    "decode_sector crc boot_state_ops (sector (nv_dev nv) BOOT_OFFSET 1) = None"
    "get_u32_le (sector (nv_dev nv) BOOT_OFFSET 1) 0 = MAGIC_BOOT"
    "bst_write_seq st < get_u32_le (sector (nv_dev nv) BOOT_OFFSET 1) 4"
    "length torn = SECTOR_SIZE" "decode_sector crc boot_state_ops torn = None"
  shows "\<exists>dev'. dev_write (nv_dev nv) (boot_target nv) torn = Ok dev' \<and> read_boot_state crc (nv\<lparr>nv_dev := dev'\<rparr>) = None"
proof -
  have on: "region_on (nv_dev nv) BOOT_OFFSET 2"
    using boot_region_on [OF assms(1)] by (simp add: BOOT_SECTORS_def)
  have t: "target_idx (scan_region MAGIC_BOOT (nv_dev nv) BOOT_OFFSET BOOT_SECTORS) = 0"
    using boot_rec.torn_header_targets_live [OF on assms(2)] assms(4,5)
    by (simp add: boot_magic BOOT_SECTORS_def)
  obtain dev' where w: "dev_write (nv_dev nv) (BOOT_OFFSET + 0 * SECTOR_SIZE) torn = Ok dev'"
    "sector dev' BOOT_OFFSET 0 = torn" "same_outside (nv_dev nv) dev' BOOT_OFFSET (BOOT_OFFSET + 2 * SECTOR_SIZE)"
    "\<forall>j. j \<noteq> 0 \<longrightarrow> sector dev' BOOT_OFFSET j = sector (nv_dev nv) BOOT_OFFSET j"
    using write_sector [OF on _ assms(6), of 0] by auto
  have "read_boot_state crc (nv\<lparr>nv_dev := dev'\<rparr>) = None"
    using w on assms(3,7) by (intro read_boot_state_gone) (simp_all add: region_on_def same_outside_def)
  with w(1) t show ?thesis by simp
qed

lemma first_boot_write:
  fixes slots
  assumes "wf_boot_state st"
  defines "nv0 \<equiv> nv_new (mem_new (nv_device_size slots))"
  obtains nv1 where "write_boot_state crc nv0 st = (st\<lparr>bst_write_seq := 1\<rparr>, Ok nv1)" "nv_ok nv1"
    "boot_clean crc nv1" "read_boot_state crc nv1 = Some (masked (min MAX_SLOTS slots) 1 st)"
    "decode_sector crc boot_state_ops (sector (nv_dev nv1) BOOT_OFFSET 0) = Some (st\<lparr>bst_write_seq := 1\<rparr>)"
    "target_idx (scan_region MAGIC_BOOT (nv_dev nv1) BOOT_OFFSET BOOT_SECTORS) = 1"
proof -
  note new = blank_store [of slots, folded nv0_def]
  have on0: "region_on (nv_dev nv0) BOOT_OFFSET 2"
    using boot_region_on [OF new(1)] by (simp add: BOOT_SECTORS_def)
  have z: "get_u32_le (sector (nv_dev nv0) BOOT_OFFSET j) 0 \<noteq> MAGIC_BOOT" for j
    by (simp add: nv0_def nv_new_def sector_def mem_new_def get_u32_le_zero MAGIC_BOOT_def)
  obtain nv1 where nv1: "write_boot_state crc nv0 st = (st\<lparr>bst_write_seq := 1\<rparr>, Ok nv1)" "nv_ok nv1"
      "boot_clean crc nv1" "read_boot_state crc nv1 = Some (masked (min MAX_SLOTS slots) 1 st)"
    using boot_write_step [OF new(1) assms(1), of crc] new(2) by (auto simp: nv0_def)
  have raw: "write_record crc boot_state_ops (nv_dev nv0) BOOT_OFFSET 2 st =
      (st\<lparr>bst_write_seq := 1\<rparr>, Ok (nv_dev nv1))"
    using nv1(1) by (auto simp: write_boot_state_def store_write_def BOOT_SECTORS_def split: prod.splits sum.splits)
  have dec: "decode_sector crc boot_state_ops (sector (nv_dev nv1) BOOT_OFFSET 0) = Some (st\<lparr>bst_write_seq := 1\<rparr>)"
    and keep: "sector (nv_dev nv1) BOOT_OFFSET 1 = sector (nv_dev nv0) BOOT_OFFSET 1"
    using boot_rec.write_record_effect [OF assms(1) on0, of crc] raw scan_target_two(1) [OF on0 z]
    by (auto simp: boot_magic)
  have on1: "region_on (nv_dev nv1) BOOT_OFFSET 2"
    using boot_region_on [OF nv1(2)] by (simp add: BOOT_SECTORS_def)
  have t: "target_idx (scan_region MAGIC_BOOT (nv_dev nv1) BOOT_OFFSET BOOT_SECTORS) = 1"
    using scan_target_two(2) [OF on1, of MAGIC_BOOT] keep z [of 1] decode_sector_magic [OF dec]
    by (simp add: boot_magic BOOT_SECTORS_def)
  show thesis by (rule that [OF nv1 dec t])
qed

text \<open>A half-written copy can destroy the live one. After one completed boot-state write, a torn
  write whose header reached the disk leaves the state readable, but the next write targets
  the only good sector: if that write is torn too, no boot state can be read any more.\<close>

theorem second_torn_write_loses_boot_state:
  assumes "wf_boot_state st"
    "length torn = SECTOR_SIZE" "decode_sector crc boot_state_ops torn = None"
    "get_u32_le torn 0 = MAGIC_BOOT" "get_u32_le torn 4 = 2"
  shows "\<exists>nv1 dev2. snd (write_boot_state crc (nv_new (mem_new (nv_device_size slots))) st) = Ok nv1
    \<and> dev_write (nv_dev nv1) (boot_target nv1) torn = Ok dev2
    \<and> read_boot_state crc (nv1\<lparr>nv_dev := dev2\<rparr>) = read_boot_state crc nv1
    \<and> read_boot_state crc nv1 = Some (masked (min MAX_SLOTS slots) 1 st)
    \<and> (\<forall>torn2. length torn2 = SECTOR_SIZE \<longrightarrow> decode_sector crc boot_state_ops torn2 = None \<longrightarrow>
        (\<exists>dev3. dev_write dev2 (boot_target (nv1\<lparr>nv_dev := dev2\<rparr>)) torn2 = Ok dev3
          \<and> read_boot_state crc (nv1\<lparr>nv_dev := dev3\<rparr>) = None))"
proof -
  obtain nv1 where nv1: "write_boot_state crc (nv_new (mem_new (nv_device_size slots))) st = (st\<lparr>bst_write_seq := 1\<rparr>, Ok nv1)"
      "nv_ok nv1" "boot_clean crc nv1" "read_boot_state crc nv1 = Some (masked (min MAX_SLOTS slots) 1 st)"
    and dec: "decode_sector crc boot_state_ops (sector (nv_dev nv1) BOOT_OFFSET 0) = Some (st\<lparr>bst_write_seq := 1\<rparr>)"
    and t: "target_idx (scan_region MAGIC_BOOT (nv_dev nv1) BOOT_OFFSET BOOT_SECTORS) = 1"
    by (rule first_boot_write [OF assms(1)])
  have on1: "region_on (nv_dev nv1) BOOT_OFFSET 2"
    using boot_region_on [OF nv1(2)] by (simp add: BOOT_SECTORS_def)
  obtain dev2 where dev2: "dev_write (nv_dev nv1) (BOOT_OFFSET + 1 * SECTOR_SIZE) torn = Ok dev2"
    "sector dev2 BOOT_OFFSET 1 = torn" "same_outside (nv_dev nv1) dev2 BOOT_OFFSET (BOOT_OFFSET + 2 * SECTOR_SIZE)"
    "sector dev2 BOOT_OFFSET 0 = sector (nv_dev nv1) BOOT_OFFSET 0"
    using write_sector [OF on1 _ assms(2), of 1] by auto
  have ok2: "nv_ok (nv1\<lparr>nv_dev := dev2\<rparr>)"
    using nv1(2) dev2(3) by (simp add: nv_ok_def same_outside_def)
  have lost: "\<exists>dev3. dev_write dev2 (boot_target (nv1\<lparr>nv_dev := dev2\<rparr>)) torn2 = Ok dev3
      \<and> read_boot_state crc (nv1\<lparr>nv_dev := dev3\<rparr>) = None"
    if "length torn2 = SECTOR_SIZE" "decode_sector crc boot_state_ops torn2 = None" for torn2
    using torn_header_then_torn_write [OF ok2, of crc "st\<lparr>bst_write_seq := 1\<rparr>" torn2] that assms(3-5) dec dev2
    by simp
  have "read_boot_state crc (nv1\<lparr>nv_dev := dev2\<rparr>) = read_boot_state crc nv1"
    using unreadable_write_keeps_boot_state [OF nv1(2,3) assms(2,3)] dev2(1) t by simp
  with nv1 dev2(1) t lost show ?thesis by (intro exI [of _ nv1] exI [of _ dev2]) simp
qed

definition torn_header :: bytes where
  "torn_header = le_bytes MAGIC_BOOT @ le_bytes (2 :: u32) @ replicate (SECTOR_SIZE - 8) 0"

lemma torn_header_facts:
  "length torn_header = SECTOR_SIZE" "get_u32_le torn_header 0 = MAGIC_BOOT" "get_u32_le torn_header 4 = 2"
  "get_u32_le torn_header CRC_OFFSET = 0"
  unfolding get_word_defs get_bytes_def
  by (simp_all add: torn_header_def sector_consts)

theorem second_torn_write_loses_boot_state_witness:
  "\<exists>nv1 dev2 dev3. snd (write_boot_state (\<lambda>_. 1) (nv_new (mem_new (nv_device_size 1))) nv_boot_state_default) = Ok nv1
    \<and> read_boot_state (\<lambda>_. 1) nv1 = Some (masked 1 1 nv_boot_state_default)
    \<and> dev_write (nv_dev nv1) (boot_target nv1) torn_header = Ok dev2
    \<and> dev_write dev2 (boot_target (nv1\<lparr>nv_dev := dev2\<rparr>)) torn_header = Ok dev3
    \<and> read_boot_state (\<lambda>_. 1) (nv1\<lparr>nv_dev := dev3\<rparr>) = None"
proof -
  have "decode_sector (\<lambda>_. 1) boot_state_ops torn_header = None"
    by (simp add: decode_sector_def torn_header_facts boot_magic)
  with second_torn_write_loses_boot_state [of nv_boot_state_default torn_header "\<lambda>_. 1" 1]
  show ?thesis by (fastforce simp: torn_header_facts MAX_SLOTS_def)
qed

end
