(* ===== verification/NvOps.thy ===== *)
theory NvOps
  imports NvProps
begin

text \<open>
  The compound operations of \<^verbatim>\<open>NvStore\<close> in \<^verbatim>\<open>crates/nv-store/src/store.rs\<close>: the vehicle
  epoch, the copy of the runtime data between banks, the reboot-owed mask and the
  confirmation of the bank a guest reports it runs.
\<close>

section \<open>Reads return well-formed records\<close>

lemma wf_defaults [simp]:
  "wf_vehicle nv_vehicle_default" "wf_runtime nv_runtime_default"
  "wf_update_session nv_update_session_default"
  by (simp_all add: wf_vehicle_def wf_runtime_def nv_runtime_default_def wf_update_session_def
      nv_update_session_default_def runtime_consts)

lemma vehicle_region_on: "nv_ok nv \<Longrightarrow> region_on (nv_dev nv) VEHICLE_OFFSET VEHICLE_SECTORS"
  by (rule fixed_region_on) (simp_all add: layout_consts)

lemma session_region_on: "nv_ok nv \<Longrightarrow> region_on (nv_dev nv) UPDATE_SESSION_OFFSET UPDATE_SESSION_SECTORS"
  by (rule fixed_region_on) (simp_all add: layout_consts)

lemma read_vehicle_wf: "read_vehicle_state crc nv = Some v \<Longrightarrow> wf_vehicle v"
  unfolding read_vehicle_state_def by (rule vehicle_rec.read_record_valid)

lemma read_runtime_wf: "read_runtime crc nv s k = Some r \<Longrightarrow> wf_runtime r"
  by (auto simp: read_runtime_def split: if_splits dest: runtime_rec.read_record_valid)

lemma read_session_wf: "read_update_session crc nv = Some u \<Longrightarrow> wf_update_session u"
  unfolding read_update_session_def by (rule update_session_rec.read_record_valid)

lemma read_boot_state_wf: "read_boot_state crc nv = Some st \<Longrightarrow> wf_boot_state st"
  by (auto simp: read_boot_state_def wf_boot_state_def split: option.splits
      dest!: boot_rec.read_record_valid)

lemma only_region_boot:
  assumes "only_region nv nv' offset n" "BOOT_OFFSET + BOOT_SECTORS * SECTOR_SIZE \<le> offset"
  shows "read_boot_state crc nv' = read_boot_state crc nv"
proof -
  have "read_record crc boot_state_ops (nv_dev nv') BOOT_OFFSET BOOT_SECTORS =
      read_record crc boot_state_ops (nv_dev nv) BOOT_OFFSET BOOT_SECTORS"
    using assms by (intro only_region_read) auto
  moreover have "nv_slot_count nv' = nv_slot_count nv"
    using assms(1) by (simp add: only_region_def)
  ultimately show ?thesis by (simp add: read_boot_state_def split: option.split)
qed

section \<open>Vehicle epoch\<close>

definition current_epoch :: "(bytes \<Rightarrow> u32) \<Rightarrow> nv_store \<Rightarrow> u64" where
  "current_epoch crc nv = (case read_vehicle_state crc nv of None \<Rightarrow> 0 | Some v \<Rightarrow> vehicle_epoch v)"

abbreviation vehicle_seq :: "nv_store \<Rightarrow> u32" where
  "vehicle_seq nv \<equiv> region_seq vehicle_ops nv VEHICLE_OFFSET VEHICLE_SECTORS"

text \<open>Bumping the vehicle epoch returns the stored epoch plus one (saturating at 2^64 - 1, 0 on a
  device that has none), persists what it returns, never decreases the epoch and leaves the boot
  state and the update session alone.\<close>

theorem bump_vehicle_epoch_persists:
  assumes "nv_ok nv" "vehicle_seq nv \<noteq> -1"
  shows "\<exists>nv'. bump_vehicle_epoch crc nv = Ok (saturating_inc (current_epoch crc nv), nv')
    \<and> nv_ok nv' \<and> current_epoch crc nv' = saturating_inc (current_epoch crc nv)
    \<and> current_epoch crc nv \<le> current_epoch crc nv'
    \<and> (current_epoch crc nv \<noteq> -1 \<longrightarrow> current_epoch crc nv < current_epoch crc nv')
    \<and> read_boot_state crc nv' = read_boot_state crc nv
    \<and> read_update_session crc nv' = read_update_session crc nv"
proof -
  define v where "v = (case read_vehicle_state crc nv of None \<Rightarrow> nv_vehicle_default | Some v \<Rightarrow> v)"
  define v' where "v' = v\<lparr>vehicle_epoch := saturating_inc (vehicle_epoch v)\<rparr>"
  have cur: "vehicle_epoch v = current_epoch crc nv"
    by (simp add: v_def current_epoch_def nv_vehicle_default_def split: option.split)
  have wf: "wf_vehicle v'"
    by (simp add: v'_def v_def wf_vehicle_def)
  have pos: "0 < VEHICLE_SECTORS" by (simp add: layout_consts)
  obtain nv' where w: "write_vehicle_state crc nv v' = (v'\<lparr>veh_write_seq := vehicle_seq nv + 1\<rparr>, Ok nv')"
    and fr: "only_region nv nv' VEHICLE_OFFSET VEHICLE_SECTORS"
    and rd: "read_vehicle_state crc nv' = Some (v'\<lparr>veh_write_seq := vehicle_seq nv + 1\<rparr>)"
    using vehicle_rec.store_write_read [OF wf vehicle_region_on [OF assms(1)] pos assms(2), of crc]
    by (auto simp: write_vehicle_state_def read_vehicle_state_def)
  have b: "bump_vehicle_epoch crc nv = Ok (saturating_inc (current_epoch crc nv), nv')"
    using w cur by (simp add: bump_vehicle_epoch_def flip: v_def) (simp add: v'_def)
  have e: "current_epoch crc nv' = saturating_inc (current_epoch crc nv)"
    using rd cur by (simp add: current_epoch_def [of crc nv'] v'_def)
  have "current_epoch crc nv \<noteq> -1 \<longrightarrow> current_epoch crc nv < current_epoch crc nv'"
    by (simp add: e saturating_inc_def word_less_succ)
  moreover from this have "current_epoch crc nv \<le> current_epoch crc nv'"
    by (cases "current_epoch crc nv = -1") (simp_all add: e saturating_inc_def)
  moreover have "read_boot_state crc nv' = read_boot_state crc nv"
    by (rule only_region_boot [OF fr]) (simp add: layout_consts)
  moreover have "read_update_session crc nv' = read_update_session crc nv"
    unfolding read_update_session_def by (rule only_region_read [OF fr]) (simp add: layout_consts)
  ultimately show ?thesis using b e only_region_ok [OF fr assms(1)] by blast
qed

theorem bump_vehicle_epoch_persists_witness:
  "\<exists>nv'. bump_vehicle_epoch (\<lambda>_. 0) blank1 = Ok (saturating_inc (current_epoch (\<lambda>_. 0) blank1), nv')
     \<and> current_epoch (\<lambda>_. 0) nv' = saturating_inc (current_epoch (\<lambda>_. 0) blank1)"
  using bump_vehicle_epoch_persists [of blank1 "\<lambda>_. 0"] by auto

section \<open>Runtime copy\<close>

text \<open>Copying the runtime data of one bank to the other gives the target bank the source bank's data
  (or the default when the source has none) under a new sequence number, and leaves the source bank,
  every other slot and all firmware metadata alone.\<close>

theorem copy_runtime_copies:
  assumes "nv_ok nv" "slot_in_range nv s"
    and "region_seq runtime_ops nv (runtime_offset s tgt) RUNTIME_SECTORS \<noteq> -1"
  shows "\<exists>nv'. copy_runtime crc nv s src tgt = Ok nv' \<and> nv_ok nv'
    \<and> read_runtime crc nv' s tgt =
        Some ((case read_runtime crc nv s src of None \<Rightarrow> nv_runtime_default | Some r \<Rightarrow> r)
          \<lparr>run_write_seq := region_seq runtime_ops nv (runtime_offset s tgt) RUNTIME_SECTORS + 1\<rparr>)
    \<and> (\<forall>s' k'. (s', k') \<noteq> (s, tgt) \<longrightarrow> read_runtime crc nv' s' k' = read_runtime crc nv s' k')
    \<and> (\<forall>s' k'. read_fw_meta crc nv' s' k' = read_fw_meta crc nv s' k')"
proof -
  define r where "r = (case read_runtime crc nv s src of None \<Rightarrow> nv_runtime_default | Some r \<Rightarrow> r)"
  have wf: "wf_runtime r"
    using read_runtime_wf by (auto simp: r_def split: option.split)
  have pos: "0 < RUNTIME_SECTORS" by (simp add: layout_consts)
  obtain nv' where w: "snd (store_write crc runtime_ops (runtime_offset s tgt) RUNTIME_SECTORS nv r) = Ok nv'"
    and fr: "only_region nv nv' (runtime_offset s tgt) RUNTIME_SECTORS"
    and rd: "read_record crc runtime_ops (nv_dev nv') (runtime_offset s tgt) RUNTIME_SECTORS =
      Some (r\<lparr>run_write_seq := region_seq runtime_ops nv (runtime_offset s tgt) RUNTIME_SECTORS + 1\<rparr>)"
    using runtime_rec.store_write_read [OF wf runtime_region_on [OF assms(1,2)] pos assms(3), of crc]
    by auto
  have "copy_runtime crc nv s src tgt = Ok nv'"
    using w assms(2) by (simp add: copy_runtime_def write_runtime_def r_def split: option.splits)
  moreover have "read_runtime crc nv' s' k' = read_runtime crc nv s' k'" if "(s', k') \<noteq> (s, tgt)" for s' k'
    unfolding read_runtime_def only_region_slot [OF fr]
    using only_region_read [OF fr runtime_regions_apart [OF that [symmetric]], of crc runtime_ops] by simp
  moreover have "read_fw_meta crc nv' s' k' = read_fw_meta crc nv s' k'" for s' k'
    unfolding read_fw_meta_def only_region_slot [OF fr]
    using only_region_read [OF fr, of "fw_meta_offset s' k'" FW_META_SECTORS crc fw_meta_ops]
      fw_meta_runtime_apart [where s' = s and k' = tgt and s = s' and k = k'] by auto
  moreover have "read_runtime crc nv' s tgt =
      Some (r\<lparr>run_write_seq := region_seq runtime_ops nv (runtime_offset s tgt) RUNTIME_SECTORS + 1\<rparr>)"
    using rd assms(2) only_region_slot [OF fr] by (simp add: read_runtime_def)
  ultimately show ?thesis
    using only_region_ok [OF fr assms(1)] unfolding r_def by blast
qed

theorem copy_runtime_copies_witness:
  "\<exists>nv'. copy_runtime (\<lambda>_. 0) blank1 0 A B = Ok nv' \<and> nv_ok nv'
     \<and> read_fw_meta (\<lambda>_. 0) nv' 0 A = read_fw_meta (\<lambda>_. 0) blank1 0 A"
  using copy_runtime_copies [of blank1 0 B "\<lambda>_. 0" A] by auto

section \<open>Reboot owed\<close>

text \<open>Marking one bank set as owing a reboot, or clearing it, changes that bank set's bit and no
  other, keeps the armed boot id and tells exactly whether anything changed; a bank set beyond the
  mask is never marked.\<close>

theorem set_owed_one_bit:
  "owes (fst (set_owed s owed u)) s' =
     (if s' = s \<and> as_index s < MAX_SLOTS then owed else owes u s')
   \<and> armed_boot_id (fst (set_owed s owed u)) = armed_boot_id u
   \<and> (snd (set_owed s owed u) \<longleftrightarrow> fst (set_owed s owed u) \<noteq> u)"
proof (intro conjI)
  show "owes (fst (set_owed s owed u)) s' = (if s' = s \<and> as_index s < MAX_SLOTS then owed else owes u s')"
  proof (cases "as_index s < MAX_SLOTS")
    case True
    then show ?thesis by (auto simp: owes_bit set_owed_bits as_index_inj)
  next
    case False
    then show ?thesis by (simp add: set_owed_def owed_bit_def)
  qed
  show "armed_boot_id (fst (set_owed s owed u)) = armed_boot_id u"
    by (simp add: set_owed_def Let_def split: option.split)
  show "snd (set_owed s owed u) \<longleftrightarrow> fst (set_owed s owed u) \<noteq> u"
    by (cases u) (auto simp: set_owed_def Let_def split: option.split)
qed

section \<open>Confirming the running bank\<close>

abbreviation session_seq :: "nv_store \<Rightarrow> u32" where
  "session_seq nv \<equiv> region_seq update_session_ops nv UPDATE_SESSION_OFFSET UPDATE_SESSION_SECTORS"

definition stored_session :: "(bytes \<Rightarrow> u32) \<Rightarrow> nv_store \<Rightarrow> nv_update_session" where
  "stored_session crc nv =
     (case read_update_session crc nv of None \<Rightarrow> nv_update_session_default | Some u \<Rightarrow> u)"

text \<open>The boot state after a match: an uncommitted bank that was never counted gets its first boot.\<close>

definition mark_booted :: "nat \<Rightarrow> nv_boot_state \<Rightarrow> nv_boot_state" where
  "mark_booted i st =
     (let bs = banks st ! i in
      if \<not> committed bs \<and> boot_count bs = 0
      then st\<lparr>banks := (banks st)[i := bs\<lparr>boot_count := 1\<rparr>]\<rparr> else st)"

lemma stored_session_wf: "wf_update_session (stored_session crc nv)"
  using read_session_wf [of crc nv] by (auto simp: stored_session_def split: option.split)

lemma set_owed_wf: "wf_update_session u \<Longrightarrow> wf_update_session (fst (set_owed s owed u))"
  by (simp add: set_owed_def Let_def wf_update_session_def split: option.split)

lemma only_region_session:
  assumes "only_region nv nv' BOOT_OFFSET BOOT_SECTORS"
  shows "read_update_session crc nv' = read_update_session crc nv" "session_seq nv' = session_seq nv"
proof -
  show "read_update_session crc nv' = read_update_session crc nv"
    unfolding read_update_session_def by (rule only_region_read [OF assms]) (simp add: layout_consts)
  show "session_seq nv' = session_seq nv"
    by (rule only_region_seq [OF assms]) (simp add: layout_consts)
qed

lemma owed_write:
  fixes crc s
  assumes "nv_ok nv" "session_seq nv \<noteq> -1"
  defines "u \<equiv> set_owed s False (stored_session crc nv)"
  shows "\<exists>nv'. (if snd u then snd (write_update_session crc nv (fst u)) else Ok nv) = Ok nv'
    \<and> nv_ok nv' \<and> read_boot_state crc nv' = read_boot_state crc nv
    \<and> (\<forall>s'. owes (stored_session crc nv') s' = owes (fst u) s')"
proof (cases "snd u")
  case False
  then have "fst u = stored_session crc nv"
    unfolding u_def by (auto simp: set_owed_def Let_def split: option.splits)
  with False assms(1) show ?thesis by auto
next
  case True
  have wf: "wf_update_session (fst u)"
    unfolding u_def by (intro set_owed_wf stored_session_wf)
  have pos: "0 < UPDATE_SESSION_SECTORS" by (simp add: layout_consts)
  obtain nv' where w: "snd (write_update_session crc nv (fst u)) = Ok nv'"
    and fr: "only_region nv nv' UPDATE_SESSION_OFFSET UPDATE_SESSION_SECTORS"
    and rd: "read_update_session crc nv' = Some (fst u\<lparr>ups_write_seq := session_seq nv + 1\<rparr>)"
    using update_session_rec.store_write_read [OF wf session_region_on [OF assms(1)] pos assms(2), of crc]
    by (auto simp: write_update_session_def read_update_session_def)
  have "read_boot_state crc nv' = read_boot_state crc nv"
    by (rule only_region_boot [OF fr]) (simp add: layout_consts)
  moreover have "owes (stored_session crc nv') s' = owes (fst u) s'" for s'
    using rd by (simp add: stored_session_def owes_bit)
  ultimately show ?thesis
    using True w only_region_ok [OF fr assms(1)] by auto
qed

lemma masked_read:
  assumes "read_boot_state crc nv = Some st"
  shows "masked (nv_slot_count nv) (bst_write_seq st) st = st"
proof -
  obtain r where r: "read_record crc boot_state_ops (nv_dev nv) BOOT_OFFSET BOOT_SECTORS = Some r"
    and st: "st = r\<lparr>banks := take (nv_slot_count nv) (banks r)
        @ map (\<lambda>_. bank_boot_state_default) (drop (nv_slot_count nv) (banks r))\<rparr>"
    using assms by (auto simp: read_boot_state_def split: option.splits)
  have "length (banks r) = MAX_SLOTS"
    using boot_rec.read_record_valid [OF r] by (simp add: wf_boot_state_def)
  then show ?thesis
    by (cases r) (auto simp: masked_def st map_replicate_const min_def)
qed

lemma mark_booted_write:
  assumes "nv_ok nv" "boot_seq nv \<noteq> -1" "read_boot_state crc nv = Some st"
  shows "\<exists>nv1 q. (if \<not> committed (banks st ! i) \<and> boot_count (banks st ! i) = 0
         then snd (write_boot_state crc nv (mark_booted i st)) else Ok nv) = Ok nv1
    \<and> nv_ok nv1 \<and> session_seq nv1 = session_seq nv \<and> stored_session crc nv1 = stored_session crc nv
    \<and> read_boot_state crc nv1 = Some (masked (nv_slot_count nv) q (mark_booted i st))"
proof (cases "\<not> committed (banks st ! i) \<and> boot_count (banks st ! i) = 0")
  case False
  then have "mark_booted i st = st" by (auto simp: mark_booted_def Let_def)
  then show ?thesis
    using False assms(1,3) masked_read [OF assms(3)]
    by (intro exI [of _ nv] exI [of _ "bst_write_seq st"]) auto
next
  case True
  have wf: "wf_boot_state (mark_booted i st)"
    using read_boot_state_wf [OF assms(3)] by (simp add: mark_booted_def wf_boot_state_def Let_def)
  have pos: "0 < BOOT_SECTORS" by (simp add: layout_consts)
  obtain nv1 where w: "snd (write_boot_state crc nv (mark_booted i st)) = Ok nv1"
    and fr: "only_region nv nv1 BOOT_OFFSET BOOT_SECTORS"
    and rd: "read_record crc boot_state_ops (nv_dev nv1) BOOT_OFFSET BOOT_SECTORS =
      Some (mark_booted i st\<lparr>bst_write_seq := boot_seq nv + 1\<rparr>)"
    using boot_rec.store_write_read [OF wf boot_region_on [OF assms(1)] pos assms(2), of crc]
    by (auto simp: write_boot_state_def)
  have "read_boot_state crc nv1 = Some (masked (nv_slot_count nv) (boot_seq nv + 1) (mark_booted i st))"
    using rd wf fr
    by (simp add: read_boot_state_def masked_def only_region_def wf_boot_state_def map_replicate_const)
  then show ?thesis
    using True w only_region_ok [OF fr assms(1)] only_region_session [OF fr]
    by (auto simp: stored_session_def)
qed

lemma boot_write_session:
  assumes "nv_ok nv" "wf_boot_state st" "boot_seq nv \<noteq> -1" "boot_clean crc nv"
  shows "\<exists>nv'. snd (write_boot_state crc nv st) = Ok nv' \<and> nv_ok nv'
    \<and> nv_slot_count nv' = nv_slot_count nv \<and> boot_seq nv' = boot_seq nv + 1
    \<and> session_seq nv' = session_seq nv
    \<and> read_boot_state crc nv' = Some (masked (nv_slot_count nv) (boot_seq nv + 1) st)"
proof -
  have pos: "0 < BOOT_SECTORS" by (simp add: layout_consts)
  obtain nv' where "snd (write_boot_state crc nv st) = Ok nv'" "only_region nv nv' BOOT_OFFSET BOOT_SECTORS"
    using boot_rec.store_write_read [OF assms(2) boot_region_on [OF assms(1)] pos assms(3), of crc]
    by (auto simp: write_boot_state_def)
  then show ?thesis
    using boot_write_step [OF assms] only_region_session(2) by fastforce
qed

lemma confirm_match:
  assumes "read_boot_state crc nv = Some st" "as_index s < length (banks st)"
    and "running = active_bank (banks st ! as_index s)"
  shows "confirm_running_bank crc nv s running =
    and_then (if \<not> committed (banks st ! as_index s) \<and> boot_count (banks st ! as_index s) = 0
              then snd (write_boot_state crc nv (mark_booted (as_index s) st)) else Ok nv)
      (\<lambda>nv1. and_then (if snd (set_owed s False (stored_session crc nv1))
                     then snd (write_update_session crc nv1 (fst (set_owed s False (stored_session crc nv1))))
                     else Ok nv1)
        (\<lambda>nv2. Ok (Confirmed running, nv2)))"
  using assms by (simp add: confirm_running_bank_def Let_def mark_booted_def case_prod_beta
      flip: stored_session_def)

text \<open>Confirming the bank a guest runs: with no boot state nothing is written; a report that is not
  the armed bank is returned as a mismatch and nothing is written; a report of the armed bank
  records the first trial boot, clears exactly this bank set's reboot-owed bit and leaves every
  other bank set's bit as it was.\<close>

theorem confirm_running_bank_spec:
  assumes "nv_ok nv" "as_index s < MAX_SLOTS" "boot_seq nv \<noteq> -1" "session_seq nv \<noteq> -1"
  shows "case read_boot_state crc nv of
      None \<Rightarrow> confirm_running_bank crc nv s running = Ok (NoBootState, nv)
    | Some st \<Rightarrow>
        (if running \<noteq> active_bank (banks st ! as_index s)
         then confirm_running_bank crc nv s running = Ok (Mismatch running (active_bank (banks st ! as_index s)), nv)
         else \<exists>nv' q. confirm_running_bank crc nv s running = Ok (Confirmed running, nv') \<and> nv_ok nv'
           \<and> read_boot_state crc nv' =
               Some (masked (nv_slot_count nv) q (mark_booted (as_index s) st))
           \<and> (\<forall>s'. owes (stored_session crc nv') s' \<longleftrightarrow> s' \<noteq> s \<and> owes (stored_session crc nv) s'))"
proof (cases "read_boot_state crc nv")
  case None
  then show ?thesis by (simp add: confirm_running_bank_def)
next
  case (Some st)
  have wf: "wf_boot_state st" by (rule read_boot_state_wf [OF Some])
  then have len: "as_index s < length (banks st)"
    using assms(2) by (simp add: wf_boot_state_def)
  show ?thesis
  proof (cases "running = active_bank (banks st ! as_index s)")
    case False
    then show ?thesis using Some len by (simp add: confirm_running_bank_def Let_def)
  next
    case True
    obtain nv1 q where nv1: "(if \<not> committed (banks st ! as_index s) \<and> boot_count (banks st ! as_index s) = 0
         then snd (write_boot_state crc nv (mark_booted (as_index s) st)) else Ok nv) = Ok nv1"
      "nv_ok nv1" "session_seq nv1 = session_seq nv" "stored_session crc nv1 = stored_session crc nv"
      "read_boot_state crc nv1 = Some (masked (nv_slot_count nv) q (mark_booted (as_index s) st))"
      using mark_booted_write [OF assms(1,3) Some] by blast
    obtain nv2 where nv2: "(if snd (set_owed s False (stored_session crc nv1))
          then snd (write_update_session crc nv1 (fst (set_owed s False (stored_session crc nv1)))) else Ok nv1) = Ok nv2"
      "nv_ok nv2" "read_boot_state crc nv2 = read_boot_state crc nv1"
      "\<And>s'. owes (stored_session crc nv2) s' = owes (fst (set_owed s False (stored_session crc nv1))) s'"
      using owed_write [OF nv1(2), of s crc] nv1(3) assms(4) by auto
    have "confirm_running_bank crc nv s running = Ok (Confirmed running, nv2)"
      using confirm_match [OF Some len True] nv1(1) nv2(1) by simp
    moreover have "owes (stored_session crc nv2) s' \<longleftrightarrow> s' \<noteq> s \<and> owes (stored_session crc nv) s'" for s'
      unfolding nv2(4) nv1(4) using assms(2) by (auto simp: owes_bit set_owed_bits as_index_inj)
    ultimately show ?thesis
      using Some True nv1(5) nv2(2,3) by auto
  qed
qed

lemma blank1_clean: "boot_clean crc blank1"
  by (simp add: blank1_def)

definition trial_b :: nv_boot_state where
  "trial_b = nv_boot_state_default\<lparr>banks := (banks nv_boot_state_default)
     [0 := \<lparr>active_bank = B, committed = False, boot_count = 0\<rparr>]\<rparr>"

theorem confirm_running_bank_spec_witness:
  "\<exists>nv nv'. snd (write_boot_state (\<lambda>_. 0) blank1 trial_b) = Ok nv
    \<and> confirm_running_bank (\<lambda>_. 0) nv 0 B = Ok (Confirmed B, nv')
    \<and> confirm_running_bank (\<lambda>_. 0) nv 0 A = Ok (Mismatch A B, nv)
    \<and> \<not> owes (stored_session (\<lambda>_. 0) nv') 0"
proof -
  have wf: "wf_boot_state trial_b" by (simp add: trial_b_def wf_boot_state_def nv_boot_state_default_def)
  obtain nv where nv: "snd (write_boot_state (\<lambda>_. 0) blank1 trial_b) = Ok nv" "nv_ok nv"
      "nv_slot_count nv = 1" "boot_seq nv = 1" "session_seq nv = 0"
      "read_boot_state (\<lambda>_. 0) nv = Some (masked 1 1 trial_b)"
    using boot_write_session [of blank1 trial_b "\<lambda>_. 0"] wf by (auto simp: blank1_clean)
  have "banks (masked 1 1 trial_b) ! 0 = \<lparr>active_bank = B, committed = False, boot_count = 0\<rparr>"
    by (simp add: masked_def trial_b_def nv_boot_state_default_def MAX_SLOTS_def nth_append)
  then show ?thesis
    using confirm_running_bank_spec [of nv 0 "\<lambda>_. 0" B] confirm_running_bank_spec [of nv 0 "\<lambda>_. 0" A] nv
    by (auto simp: as_index_def MAX_SLOTS_def)
qed

end
