(* ===== verification/Selector.thy ===== *)
theory Selector
  imports NvRecords
begin

text \<open>
  The boot vector of \<^verbatim>\<open>crates/nv-store/src/selector.rs\<close>: its data, its canonical byte encoding
  and signature, the contract of a selector store, the stub store and the in-memory store.
  SHA-256 and the signing key are parameters (\<open>sha\<close>, \<open>signer\<close>).
\<close>

section \<open>Data\<close>

record image_entry =
  img_size :: u64
  img_sha256 :: bytes

record component_entry =
  ce_bank :: bank
  ce_images :: "(string, image_entry) fmap"

type_synonym entries = "(string, component_entry) fmap"

datatype outcome = Committed | RolledBack

datatype reason = Verdict | TrialBootLimit | BootStage

record resolution =
  res_outcome :: outcome
  res_reason :: reason

record transaction =
  tx_armed_boot_id :: bytes
  tx_trial_boots :: u8
  tx_counted_boot_id :: bytes
  tx_resolution :: "resolution option"

record selector_blob =
  sb_generation :: u64
  sb_entries :: entries
  sb_transaction :: "transaction option"
  sb_sha256 :: bytes
  sb_signature :: bytes
  sb_selectors :: "(u8, bank) fmap option"

record boot_vector =
  bv_generation :: u64
  bv_entries :: entries

datatype selector_error = SelIo | SelSerialize | SelUnreadable | NoTrial

section \<open>Canonical bytes\<close>

text \<open>\<^verbatim>\<open>s.len() as u16\<close> truncates; the encoding is faithful to that.\<close>

definition put_str :: "string \<Rightarrow> bytes" where
  "put_str s = le_bytes (word_of_nat (length s) :: u16) @ str_bytes s"

fun put_image :: "string \<times> image_entry \<Rightarrow> bytes" where
  "put_image (name, img) = put_str name @ le_bytes (img_size img) @ img_sha256 img"

fun put_entry :: "string \<times> component_entry \<Rightarrow> bytes" where
  "put_entry (cid, e) =
     put_str cid @ [bank_u8 (ce_bank e)]
     @ le_bytes (word_of_nat (length (sorted_list_of_fmap (ce_images e))) :: u16)
     @ concat (map put_image (sorted_list_of_fmap (ce_images e)))"

definition resolution_bytes :: "resolution option \<Rightarrow> bytes" where
  "resolution_bytes r =
     (case r of
        None \<Rightarrow> [0, 0]
      | Some r \<Rightarrow>
          [case res_outcome r of Committed \<Rightarrow> 1 | RolledBack \<Rightarrow> 2,
           case res_reason r of Verdict \<Rightarrow> 0 | TrialBootLimit \<Rightarrow> 1 | BootStage \<Rightarrow> 2])"

definition put_transaction :: "transaction \<Rightarrow> bytes" where
  "put_transaction t =
     0x01 # tx_armed_boot_id t @ [tx_trial_boots t] @ tx_counted_boot_id t
     @ resolution_bytes (tx_resolution t)"

definition canonical_bytes :: "u64 \<Rightarrow> entries \<Rightarrow> transaction option \<Rightarrow> bytes" where
  "canonical_bytes generation es t =
     le_bytes generation @ concat (map put_entry (sorted_list_of_fmap es))
     @ (case t of None \<Rightarrow> [] | Some t \<Rightarrow> put_transaction t)"

section \<open>Signing\<close>

record signer =
  sg_sign :: "bytes \<Rightarrow> bytes"
  sg_verify :: "bytes \<Rightarrow> bytes \<Rightarrow> bool"

definition compute_sha256 :: "(bytes \<Rightarrow> bytes) \<Rightarrow> u64 \<Rightarrow> entries \<Rightarrow> transaction option \<Rightarrow> bytes" where
  "compute_sha256 sha generation es t = sha (canonical_bytes generation es t)"

definition signed ::
    "(bytes \<Rightarrow> bytes) \<Rightarrow> signer \<Rightarrow> u64 \<Rightarrow> entries \<Rightarrow> transaction option \<Rightarrow> selector_blob" where
  "signed sha signer generation es t =
     (let h = compute_sha256 sha generation es t
      in \<lparr>sb_generation = generation, sb_entries = es, sb_transaction = t, sb_sha256 = h,
          sb_signature = sg_sign signer h, sb_selectors = None\<rparr>)"

definition is_valid :: "(bytes \<Rightarrow> bytes) \<Rightarrow> signer \<Rightarrow> selector_blob \<Rightarrow> bool" where
  "is_valid sha signer b \<longleftrightarrow>
     compute_sha256 sha (sb_generation b) (sb_entries b) (sb_transaction b) = sb_sha256 b
     \<and> sg_verify signer (sb_sha256 b) (sb_signature b)"

definition stub_signer :: signer where
  "stub_signer = \<lparr>sg_sign = (\<lambda>_. []), sg_verify = (\<lambda>_ _. True)\<rparr>"

definition test_transform :: "bytes \<Rightarrow> bytes" where
  "test_transform sha = map (\<lambda>b. b XOR 0xA5) sha"

definition test_signer :: signer where
  "test_signer = \<lparr>sg_sign = test_transform, sg_verify = (\<lambda>sha sig. sig = test_transform sha)\<rparr>"

section \<open>The encoding is injective per shape\<close>

text \<open>An encoder is self-delimiting when equal encodings with any rest have equal values and rests.\<close>

definition self_delimiting :: "('a \<Rightarrow> bool) \<Rightarrow> ('a \<Rightarrow> bytes) \<Rightarrow> bool" where
  "self_delimiting ok f \<longleftrightarrow>
     (\<forall>x y r r'. ok x \<longrightarrow> ok y \<longrightarrow> f x @ r = f y @ r' \<longrightarrow> x = y \<and> r = r')"

lemma self_delimitingD:
  "self_delimiting ok f \<Longrightarrow> ok x \<Longrightarrow> ok y \<Longrightarrow> f x @ r = f y @ r' \<Longrightarrow> x = y \<and> r = r'"
  unfolding self_delimiting_def by blast

lemma counted_list_inject:
  assumes "self_delimiting ok f" "length xs = length ys"
    and "\<forall>x \<in> set xs. ok x" "\<forall>y \<in> set ys. ok y"
    and "concat (map f xs) @ r = concat (map f ys) @ r'"
  shows "xs = ys \<and> r = r'"
  using assms(2-5)
proof (induction xs ys rule: list_induct2)
  case (Cons x xs y ys)
  have "x = y \<and> concat (map f xs) @ r = concat (map f ys) @ r'"
    by (rule self_delimitingD [OF assms(1)]) (use Cons.prems in simp_all)
  then show ?case using Cons.IH Cons.prems by simp
qed simp

lemma list_code_inject:
  assumes "self_delimiting ok f" and "\<And>x. ok x \<Longrightarrow> f x \<noteq> []"
    and "\<forall>x \<in> set xs. ok x" "\<forall>y \<in> set ys. ok y"
    and "concat (map f xs) = concat (map f ys)"
  shows "xs = ys"
  using assms(3-5)
proof (induction xs arbitrary: ys)
  case Nil
  then show ?case using assms(2) by (cases ys) auto
next
  case (Cons x xs)
  have "f x \<noteq> []" using assms(2) Cons.prems(1) by simp
  then obtain y ys' where ys: "ys = y # ys'" using Cons.prems(3) by (cases ys) simp_all
  have "x = y \<and> concat (map f xs) = concat (map f ys')"
    by (rule self_delimitingD [OF assms(1)]) (use Cons.prems ys in simp_all)
  then show ?case using Cons.IH [of ys'] Cons.prems by (simp add: ys)
qed

lemma le_bytes_eq_iff [simp]:
  "le_bytes (v :: u16) = le_bytes w \<longleftrightarrow> v = w" "le_bytes (x :: u64) = le_bytes y \<longleftrightarrow> x = y"
  using le_bytes_inject [of v w] le_bytes_inject [of x y] by auto

lemma word_of_nat_u16_inject:
  "a < 65536 \<Longrightarrow> b < 65536 \<Longrightarrow> (word_of_nat a :: u16) = word_of_nat b \<longleftrightarrow> a = b"
  by (simp add: word_of_nat_eq_iff take_bit_nat_eq_self)

definition short :: "string \<Rightarrow> bool" where
  "short s \<longleftrightarrow> length s < 65536"

lemma put_str_inject:
  assumes "short s" "short t" "put_str s @ r = put_str t @ r'"
  shows "s = t \<and> r = r'"
proof -
  have "length s = length t" and *: "str_bytes s @ r = str_bytes t @ r'"
    using assms by (auto simp: put_str_def short_def word_of_nat_u16_inject)
  then show ?thesis by (simp add: append_eq_append_conv)
qed

definition wf_image :: "string \<times> image_entry \<Rightarrow> bool" where
  "wf_image ni \<longleftrightarrow> short (fst ni) \<and> length (img_sha256 (snd ni)) = 32"

definition wf_entry :: "string \<times> component_entry \<Rightarrow> bool" where
  "wf_entry ie \<longleftrightarrow> short (fst ie) \<and> length (sorted_list_of_fmap (ce_images (snd ie))) < 65536
     \<and> (\<forall>ni \<in> set (sorted_list_of_fmap (ce_images (snd ie))). wf_image ni)"

text \<open>Names and ids below 64 KiB, fewer than 65536 images a component, 32-byte digests.\<close>

definition wf_entries :: "entries \<Rightarrow> bool" where
  "wf_entries es \<longleftrightarrow> (\<forall>ie \<in> set (sorted_list_of_fmap es). wf_entry ie)"

definition wf_transaction :: "transaction \<Rightarrow> bool" where
  "wf_transaction t \<longleftrightarrow> length (tx_armed_boot_id t) = 16 \<and> length (tx_counted_boot_id t) = 16"

lemma put_image_self_delimiting: "self_delimiting wf_image put_image"
  unfolding self_delimiting_def
proof (intro allI impI)
  fix x y :: "string \<times> image_entry" and r r'
  assume wf: "wf_image x" "wf_image y" and eq: "put_image x @ r = put_image y @ r'"
  obtain n i m j where xy: "x = (n, i)" "y = (m, j)" by (cases x; cases y) auto
  have "n = m \<and> le_bytes (img_size i) @ img_sha256 i @ r = le_bytes (img_size j) @ img_sha256 j @ r'"
    using eq wf by (intro put_str_inject) (simp_all add: xy wf_image_def)
  then show "x = y \<and> r = r'"
    using wf by (simp add: xy wf_image_def append_eq_append_conv)
qed

lemma sorted_list_of_fmap_inject [simp]:
  "sorted_list_of_fmap m = sorted_list_of_fmap n \<longleftrightarrow> m = n"
  by (metis map_of_sorted_list fmap_ext)

lemma sorted_list_of_fmempty [simp]: "sorted_list_of_fmap fmempty = []"
  by (simp add: sorted_list_of_fmap_def sorted_list_of_fset.rep_eq)

lemma bank_u8_inject [simp]: "bank_u8 a = bank_u8 b \<longleftrightarrow> a = b"
  by (metis bank_from_u8_inverse option.inject)

lemma put_entry_self_delimiting: "self_delimiting wf_entry put_entry"
  unfolding self_delimiting_def
proof (intro allI impI)
  fix x y :: "string \<times> component_entry" and r r'
  assume wf: "wf_entry x" "wf_entry y" and eq: "put_entry x @ r = put_entry y @ r'"
  obtain i e j f where xy: "x = (i, e)" "y = (j, f)" by (cases x; cases y) auto
  let ?im = "\<lambda>e. sorted_list_of_fmap (ce_images e)"
  have "i = j \<and> bank_u8 (ce_bank e) # le_bytes (word_of_nat (length (?im e)) :: u16) @ concat (map put_image (?im e)) @ r
      = bank_u8 (ce_bank f) # le_bytes (word_of_nat (length (?im f)) :: u16) @ concat (map put_image (?im f)) @ r'"
    using eq wf by (intro put_str_inject) (simp_all add: xy wf_entry_def)
  then have "i = j" "ce_bank e = ce_bank f" and len: "length (?im e) = length (?im f)"
    and im: "concat (map put_image (?im e)) @ r = concat (map put_image (?im f)) @ r'"
    using wf by (auto simp: xy wf_entry_def word_of_nat_u16_inject)
  moreover have "?im e = ?im f \<and> r = r'"
    using wf by (intro counted_list_inject [OF put_image_self_delimiting len _ _ im]) (simp_all add: xy wf_entry_def)
  ultimately show "x = y \<and> r = r'" by (simp add: xy)
qed

lemma put_entry_nonempty: "put_entry ie \<noteq> []"
  by (cases ie) simp

lemma entries_bytes_inject:
  assumes "wf_entries es" "wf_entries fs"
    and "concat (map put_entry (sorted_list_of_fmap es)) = concat (map put_entry (sorted_list_of_fmap fs))"
  shows "es = fs"
  using list_code_inject [OF put_entry_self_delimiting put_entry_nonempty _ _ assms(3)] assms(1,2)
  by (simp add: wf_entries_def)

lemma resolution_bytes_inject [simp]: "resolution_bytes r = resolution_bytes s \<longleftrightarrow> r = s"
  by (cases r; cases s) (auto simp: resolution_bytes_def split: outcome.splits reason.splits)

lemma put_transaction_length: "wf_transaction t \<Longrightarrow> length (put_transaction t) = 36"
  by (simp add: put_transaction_def wf_transaction_def resolution_bytes_def split: option.split)

lemma put_transaction_inject:
  "wf_transaction t \<Longrightarrow> wf_transaction u \<Longrightarrow> put_transaction t = put_transaction u \<Longrightarrow> t = u"
  by (simp add: put_transaction_def wf_transaction_def append_eq_append_conv)

section \<open>The store contract\<close>

text \<open>
  The \<^verbatim>\<open>SelectorStore\<close> trait as a record of its methods over a store state \<open>'s\<close>. A write verb
  returns the new state beside its result, since a failed verb may have written something.
\<close>

record 's selector_store_ops =
  st_read_primary :: "'s \<Rightarrow> selector_error + boot_vector option"
  st_read_secondary :: "'s \<Rightarrow> selector_error + boot_vector option"
  st_activate :: "'s \<Rightarrow> entries \<Rightarrow> transaction \<Rightarrow> 's \<times> (selector_error + u64)"
  st_commit :: "'s \<Rightarrow> 's \<times> (selector_error + unit)"
  st_rollback :: "'s \<Rightarrow> transaction \<Rightarrow> 's \<times> (selector_error + u64)"
  st_read_transaction :: "'s \<Rightarrow> (u64 \<times> transaction) option"
  st_write_transaction :: "'s \<Rightarrow> u64 \<Rightarrow> transaction \<Rightarrow> 's \<times> (selector_error + unit)"

definition vec_generation :: "boot_vector option \<Rightarrow> u64" where
  "vec_generation v = (case v of None \<Rightarrow> 0 | Some v \<Rightarrow> bv_generation v)"

definition next_generation :: "boot_vector option \<Rightarrow> boot_vector option \<Rightarrow> u64" where
  "next_generation primary secondary = max (vec_generation primary) (vec_generation secondary) + 1"

lemma vec_generation_simps [simp]: "vec_generation None = 0" "vec_generation (Some v) = bv_generation v"
  by (simp_all add: vec_generation_def)

text \<open>
  What a store holds, as its contract describes it: the two copies and the header with the
  generation it was recorded for. The four verbs on this abstract state are the specification.
\<close>

record vstore =
  vs_primary :: "boot_vector option"
  vs_secondary :: "boot_vector option"
  vs_header :: "(u64 \<times> transaction) option"

definition v_activate :: "u64 \<Rightarrow> entries \<Rightarrow> transaction \<Rightarrow> vstore \<Rightarrow> vstore" where
  "v_activate g es h v = v\<lparr>vs_primary := Some \<lparr>bv_generation = g, bv_entries = es\<rparr>, vs_header := Some (g, h)\<rparr>"

definition v_commit :: "vstore \<Rightarrow> vstore" where
  "v_commit v = (if vs_primary v = None then v else v\<lparr>vs_secondary := vs_primary v\<rparr>)"

definition v_rollback :: "transaction \<Rightarrow> vstore \<Rightarrow> (u64 \<times> vstore) option" where
  "v_rollback h v =
     (case opt_filter (\<lambda>s. vs_primary v \<noteq> Some s) (vs_secondary v) of
        None \<Rightarrow> None
      | Some s \<Rightarrow> Some (bv_generation s,
          v\<lparr>vs_primary := Some s, vs_header := Some (bv_generation s, h)\<rparr>))"

definition v_top :: "vstore \<Rightarrow> u64" where
  "v_top v = max (vec_generation (vs_primary v)) (vec_generation (vs_secondary v))"

definition view :: "'s selector_store_ops \<Rightarrow> 's \<Rightarrow> vstore" where
  "view ops s =
     \<lparr>vs_primary = (case st_read_primary ops s of Err _ \<Rightarrow> None | Ok p \<Rightarrow> p),
      vs_secondary = (case st_read_secondary ops s of Err _ \<Rightarrow> None | Ok q \<Rightarrow> q),
      vs_header = st_read_transaction ops s\<rparr>"

text \<open>
  The contract: in a state that satisfies the store's invariant both copies can be read, an
  \<open>Ok\<close> verb acts as its specification, and an \<open>Err\<close> verb changes nothing that can be read.
  The generation issued is strictly above both copies as long as the 64-bit counter is not
  exhausted. The header is rewritten for the primary's generation only.
\<close>

locale selector_store =
  fixes ops :: "'s selector_store_ops" and inv :: "'s \<Rightarrow> bool"
  assumes primary_readable: "inv s \<Longrightarrow> is_ok (st_read_primary ops s)"
    and secondary_readable: "inv s \<Longrightarrow> is_ok (st_read_secondary ops s)"
    and activate_ok: "inv s \<Longrightarrow> v_top (view ops s) \<noteq> -1 \<Longrightarrow> st_activate ops s es h = (s', Ok g) \<Longrightarrow>
       inv s' \<and> view ops s' = v_activate g es h (view ops s) \<and> v_top (view ops s) < g"
    and activate_err: "inv s \<Longrightarrow> v_top (view ops s) \<noteq> -1 \<Longrightarrow> st_activate ops s es h = (s', Err e) \<Longrightarrow>
       inv s' \<and> view ops s' = view ops s"
    and commit_ok: "inv s \<Longrightarrow> st_commit ops s = (s', Ok ()) \<Longrightarrow>
       inv s' \<and> view ops s' = v_commit (view ops s)"
    and commit_err: "inv s \<Longrightarrow> st_commit ops s = (s', Err e) \<Longrightarrow> inv s' \<and> view ops s' = view ops s"
    and rollback_ok: "inv s \<Longrightarrow> st_rollback ops s h = (s', Ok g) \<Longrightarrow>
       inv s' \<and> v_rollback h (view ops s) = Some (g, view ops s')"
    and rollback_err: "inv s \<Longrightarrow> st_rollback ops s h = (s', Err e) \<Longrightarrow> inv s' \<and> view ops s' = view ops s"
    and transaction_ok: "inv s \<Longrightarrow> vs_primary (view ops s) = Some p \<Longrightarrow>
       st_write_transaction ops s (bv_generation p) h = (s', Ok ()) \<Longrightarrow>
       inv s' \<and> view ops s' = (view ops s)\<lparr>vs_header := Some (bv_generation p, h)\<rparr>"
    and transaction_err: "inv s \<Longrightarrow> vs_primary (view ops s) = Some p \<Longrightarrow>
       st_write_transaction ops s (bv_generation p) h = (s', Err e) \<Longrightarrow>
       inv s' \<and> view ops s' = view ops s"

section \<open>The stub store\<close>

definition stub_store_ops :: "unit selector_store_ops" where
  "stub_store_ops =
     \<lparr>st_read_primary = (\<lambda>_. Ok None), st_read_secondary = (\<lambda>_. Ok None),
      st_activate = (\<lambda>s _ _. (s, Ok 1)), st_commit = (\<lambda>s. (s, Ok ())),
      st_rollback = (\<lambda>s _. (s, Ok 0)), st_read_transaction = (\<lambda>_. None),
      st_write_transaction = (\<lambda>s _ _. (s, Ok ()))\<rparr>"

section \<open>The in-memory store\<close>

record mem_store =
  ms_primary :: "boot_vector option"
  ms_secondary :: "boot_vector option"
  ms_transaction :: "(u64 \<times> transaction) option"
  ms_next_generation :: "u64 option"
  ms_fail_writes :: bool
  ms_writes :: nat

definition mem_store_new :: mem_store where
  "mem_store_new = \<lparr>ms_primary = None, ms_secondary = None, ms_transaction = None,
     ms_next_generation = None, ms_fail_writes = False, ms_writes = 0\<rparr>"

definition set_fail_writes :: "bool \<Rightarrow> mem_store \<Rightarrow> mem_store" where
  "set_fail_writes fail s = s\<lparr>ms_fail_writes := fail\<rparr>"

definition set_next_generation :: "u64 \<Rightarrow> mem_store \<Rightarrow> mem_store" where
  "set_next_generation g s = s\<lparr>ms_next_generation := Some g\<rparr>"

definition boot_stage_rollback :: "mem_store \<Rightarrow> mem_store" where
  "boot_stage_rollback s = s\<lparr>ms_primary := ms_secondary s\<rparr>"

definition check_writable :: "mem_store \<Rightarrow> selector_error + unit" where
  "check_writable s = (if ms_fail_writes s then Err SelIo else Ok ())"

definition count_write :: "mem_store \<Rightarrow> mem_store" where
  "count_write s = s\<lparr>ms_writes := ms_writes s + 1\<rparr>"

definition mem_activate :: "mem_store \<Rightarrow> entries \<Rightarrow> transaction \<Rightarrow> mem_store \<times> (selector_error + u64)" where
  "mem_activate s es h =
     (case check_writable s of
        Err e \<Rightarrow> (s, Err e)
      | Ok _ \<Rightarrow>
          let g = (case ms_next_generation s of
                     Some g \<Rightarrow> g | None \<Rightarrow> next_generation (ms_primary s) (ms_secondary s));
              s' = s\<lparr>ms_next_generation := None,
                     ms_primary := Some \<lparr>bv_generation = g, bv_entries = es\<rparr>,
                     ms_transaction := Some (g, h)\<rparr>
          in (count_write s', Ok g))"

definition mem_commit :: "mem_store \<Rightarrow> mem_store \<times> (selector_error + unit)" where
  "mem_commit s =
     (case check_writable s of
        Err e \<Rightarrow> (s, Err e)
      | Ok _ \<Rightarrow>
          let s' = (case ms_primary s of None \<Rightarrow> s | Some p \<Rightarrow> s\<lparr>ms_secondary := Some p\<rparr>)
          in (count_write s', Ok ()))"

definition mem_rollback :: "mem_store \<Rightarrow> transaction \<Rightarrow> mem_store \<times> (selector_error + u64)" where
  "mem_rollback s h =
     (case check_writable s of
        Err e \<Rightarrow> (s, Err e)
      | Ok _ \<Rightarrow>
          (case opt_filter (\<lambda>sec. ms_primary s \<noteq> Some sec) (ms_secondary s) of
             None \<Rightarrow> (s, Err NoTrial)
           | Some sec \<Rightarrow>
               let s1 = s\<lparr>ms_transaction := Some (bv_generation sec, h)\<rparr>;
                   s2 = s1\<lparr>ms_primary := Some sec\<rparr>
               in (count_write s2, Ok (bv_generation sec))))"

definition mem_write_transaction ::
    "mem_store \<Rightarrow> u64 \<Rightarrow> transaction \<Rightarrow> mem_store \<times> (selector_error + unit)" where
  "mem_write_transaction s g h =
     (case check_writable s of
        Err e \<Rightarrow> (s, Err e)
      | Ok _ \<Rightarrow> (count_write (s\<lparr>ms_transaction := Some (g, h)\<rparr>), Ok ()))"

definition mem_store_ops :: "mem_store selector_store_ops" where
  "mem_store_ops =
     \<lparr>st_read_primary = (\<lambda>s. Ok (ms_primary s)), st_read_secondary = (\<lambda>s. Ok (ms_secondary s)),
      st_activate = mem_activate, st_commit = mem_commit, st_rollback = mem_rollback,
      st_read_transaction = ms_transaction, st_write_transaction = mem_write_transaction\<rparr>"

lemma mem_store_ops_simps [simp]:
  "st_read_primary mem_store_ops s = Ok (ms_primary s)"
  "st_read_secondary mem_store_ops s = Ok (ms_secondary s)"
  "st_read_transaction mem_store_ops s = ms_transaction s"
  "st_activate mem_store_ops = mem_activate" "st_commit mem_store_ops = mem_commit"
  "st_rollback mem_store_ops = mem_rollback" "st_write_transaction mem_store_ops = mem_write_transaction"
  by (simp_all add: mem_store_ops_def)

lemmas mem_store_verbs [step_simps] = mem_activate_def mem_commit_def mem_rollback_def
  mem_write_transaction_def check_writable_def count_write_def

lemma view_mem_store [simp]:
  "view mem_store_ops s =
     \<lparr>vs_primary = ms_primary s, vs_secondary = ms_secondary s, vs_header = ms_transaction s\<rparr>"
  by (simp add: view_def)

lemma next_generation_above: "max (vec_generation p) (vec_generation q) \<noteq> -1 \<Longrightarrow>
    max (vec_generation p) (vec_generation q) < next_generation p q"
  unfolding next_generation_def by (rule word_less_succ)

text \<open>With no chosen generation pending the in-memory store keeps the contract, failing or not.\<close>

interpretation mem_store: selector_store mem_store_ops "\<lambda>s. ms_next_generation s = None"
proof unfold_locales
  fix s s' :: mem_store and es h g
  assume "ms_next_generation s = None" "v_top (view mem_store_ops s) \<noteq> -1"
    "st_activate mem_store_ops s es h = (s', Ok g)"
  then show "ms_next_generation s' = None \<and> view mem_store_ops s' = v_activate g es h (view mem_store_ops s)
      \<and> v_top (view mem_store_ops s) < g"
    using next_generation_above [of "ms_primary s" "ms_secondary s"]
    by (auto simp: step_simps Let_def v_activate_def v_top_def split: if_splits)
qed (auto simp: step_simps Let_def v_commit_def v_rollback_def opt_filter_eq_Some
    split: if_splits option.splits)

section \<open>Properties of the encoding\<close>

text \<open>The canonical bytes determine the vector they were made from: for two vectors within the
  encoding's limits (ids and names below 64 KiB, fewer than 65536 images a component), both with a
  transaction header or both without, equal bytes mean equal generation, entries and header.\<close>

theorem canonical_bytes_injective:
  assumes "wf_entries es" "wf_entries es'"
    and "t = None \<longleftrightarrow> t' = None" "\<forall>h. t = Some h \<longrightarrow> wf_transaction h" "\<forall>h. t' = Some h \<longrightarrow> wf_transaction h"
    and "canonical_bytes g es t = canonical_bytes g' es' t'"
  shows "g = g' \<and> es = es' \<and> t = t'"
proof -
  let ?b = "\<lambda>es. concat (map put_entry (sorted_list_of_fmap es))"
  let ?h = "\<lambda>t. case t of None \<Rightarrow> [] | Some t \<Rightarrow> put_transaction t"
  have g: "g = g'" and rest: "?b es @ ?h t = ?b es' @ ?h t'"
    using assms(6) by (auto simp: canonical_bytes_def)
  have "length (?h t) = length (?h t')"
    using assms(3-5) by (auto simp: put_transaction_length split: option.split)
  with rest have "?b es = ?b es'" "?h t = ?h t'"
    by (simp_all add: append_eq_append_conv)
  moreover from this have "t = t'"
    using assms(3-5) put_transaction_inject by (auto split: option.splits)
  ultimately show ?thesis
    using g entries_bytes_inject [OF assms(1,2)] by simp
qed

definition vec1 :: entries where
  "vec1 = fmap_of_list [(''os'', \<lparr>ce_bank = B, ce_images = fmempty\<rparr>)]"

lemma vec1_wf [simp]: "wf_entries vec1"
  by (simp add: wf_entries_def vec1_def sorted_list_of_fmap_def sorted_list_of_fset.rep_eq wf_entry_def short_def)

theorem canonical_bytes_injective_witness:
  "canonical_bytes 7 vec1 None = canonical_bytes 7 vec1 None \<and> (7 :: u64) = 7"
  using canonical_bytes_injective [of vec1 vec1 None None 7 7] by simp

text \<open>A header whose bytes also parse as two rows, and those rows.\<close>

definition ambiguous_header :: transaction where
  "ambiguous_header = \<lparr>tx_armed_boot_id = [0, 0x61, 0, 0, 0, 25, 0] @ replicate 9 0x62,
     tx_trial_boots = 0x62, tx_counted_boot_id = replicate 15 0x62 @ [0], tx_resolution = None\<rparr>"

definition ambiguous_rows :: entries where
  "ambiguous_rows = fmap_of_list
     [(''a'', \<lparr>ce_bank = A, ce_images = fmempty\<rparr>), (replicate 25 (CHR ''b''), \<lparr>ce_bank = A, ce_images = fmempty\<rparr>)]"

text \<open>The canonical bytes do not say whether a header is present: a vector with no entries and a
  header can have the same bytes, and so the same digest and signature, as one with two entries and
  no header.\<close>

theorem canonical_bytes_shape_ambiguous:
  "canonical_bytes g fmempty (Some ambiguous_header) = canonical_bytes g ambiguous_rows None
    \<and> wf_transaction ambiguous_header \<and> wf_entries ambiguous_rows"
proof -
  have rows: "sorted_list_of_fmap ambiguous_rows =
    [(''a'', \<lparr>ce_bank = A, ce_images = fmempty\<rparr>), (replicate 25 (CHR ''b''), \<lparr>ce_bank = A, ce_images = fmempty\<rparr>)]"
    by code_simp
  have "put_transaction ambiguous_header = concat (map put_entry
    [(''a'', \<lparr>ce_bank = A, ce_images = fmempty\<rparr>), (replicate 25 (CHR ''b''), \<lparr>ce_bank = A, ce_images = fmempty\<rparr>)])"
    by code_simp
  moreover have "wf_transaction ambiguous_header" by code_simp
  ultimately show ?thesis
    by (simp add: canonical_bytes_def rows wf_entries_def wf_entry_def short_def)
qed

end
