(* ===== verification/BootRecord.thy ===== *)
theory BootRecord
  imports Selector
begin

text \<open>
  The boot stage's record and the store over it, from \<^verbatim>\<open>crates/nv-store/src/boot_record.rs\<close>: signed
  files, the adapter \<open>RecordSelectorStore\<close>, the file record and the in-memory record.

  The directory of signed files is a map from names to file states together with a schedule of
  write faults, so that every early return of \<^verbatim>\<open>write_blob\<close> is a behaviour of the model: a fault
  before the rename leaves the old file, a fault after it (the re-open or its fsync) leaves the
  new one, and both return \<open>Err\<close>. Successive writes consume the schedule; an empty schedule
  means that writes succeed. SHA-256, the signer and the JSON encoding of \<^verbatim>\<open>serde_json\<close> are
  parameters, collected in \<open>file_env\<close>; the JSON text is of an arbitrary type \<open>'raw\<close>.
\<close>

section \<open>Signed files\<close>

datatype 'raw file_state = Missing | IoError | Contents 'raw

datatype write_fault = WriteOk | FailBefore selector_error | FailAfter selector_error

record 'raw signed_files =
  sf_file :: "string \<Rightarrow> 'raw file_state"
  sf_faults :: "write_fault list"

record 'raw file_env =
  fe_sha :: "bytes \<Rightarrow> bytes"
  fe_signer :: signer
  fe_to_json :: "selector_blob \<Rightarrow> 'raw"
  fe_from_json :: "'raw \<Rightarrow> selector_blob option"

definition sf_sign :: "'raw file_env \<Rightarrow> u64 \<Rightarrow> entries \<Rightarrow> transaction option \<Rightarrow> selector_blob" where
  "sf_sign env g es t = signed (fe_sha env) (fe_signer env) g es t"

definition read_blob :: "'raw file_env \<Rightarrow> 'raw signed_files \<Rightarrow> string \<Rightarrow> selector_error + selector_blob option" where
  "read_blob env fs name =
     (case sf_file fs name of
        Missing \<Rightarrow> Ok None
      | IoError \<Rightarrow> Err SelIo
      | Contents c \<Rightarrow> Ok (fe_from_json env c))"

definition read_verified :: "'raw file_env \<Rightarrow> 'raw signed_files \<Rightarrow> string \<Rightarrow> selector_error + selector_blob option" where
  "read_verified env fs name =
     and_then (read_blob env fs name) (\<lambda>b. Ok (opt_filter (is_valid (fe_sha env) (fe_signer env)) b))"

definition put_file :: "'raw file_env \<Rightarrow> string \<Rightarrow> selector_blob \<Rightarrow> 'raw signed_files \<Rightarrow> 'raw signed_files" where
  "put_file env name blob fs = fs\<lparr>sf_file := (sf_file fs)(name := Contents (fe_to_json env blob))\<rparr>"

definition write_blob ::
    "'raw file_env \<Rightarrow> string \<Rightarrow> selector_blob \<Rightarrow> 'raw signed_files \<Rightarrow> 'raw signed_files \<times> (selector_error + unit)" where
  "write_blob env name blob fs =
     (case sf_faults fs of
        [] \<Rightarrow> (put_file env name blob fs, Ok ())
      | f # rest \<Rightarrow>
          let fs' = fs\<lparr>sf_faults := rest\<rparr>
          in case f of
               WriteOk \<Rightarrow> (put_file env name blob fs', Ok ())
             | FailBefore e \<Rightarrow> (fs', Err e)
             | FailAfter e \<Rightarrow> (put_file env name blob fs', Err e))"

section \<open>The record interface\<close>

text \<open>
  The host's own state and the directory. A record is its methods over this world: the file
  record keeps its copies in the directory, the in-memory record in the host state.
\<close>

record ('h, 'raw) world =
  w_host :: 'h
  w_files :: "'raw signed_files"

datatype record_copy = Primary | Secondary

record ('h, 'raw) boot_record_ops =
  br_routes :: "('h, 'raw) world \<Rightarrow> string \<Rightarrow> bool"
  br_routes_everything :: bool
  br_read :: "('h, 'raw) world \<Rightarrow> record_copy \<Rightarrow> selector_error + boot_vector option"
  br_activate :: "('h, 'raw) world \<Rightarrow> entries \<Rightarrow> ('h, 'raw) world \<times> (selector_error + u64)"
  br_commit :: "('h, 'raw) world \<Rightarrow> ('h, 'raw) world \<times> (selector_error + unit)"
  br_rollback :: "('h, 'raw) world \<Rightarrow> ('h, 'raw) world \<times> (selector_error + u64)"
  br_legacy_transaction :: "('h, 'raw) world \<Rightarrow> (u64 \<times> transaction) option"

definition PRIMARY :: string where "PRIMARY = ''primary''"
definition SECONDARY :: string where "SECONDARY = ''secondary''"
definition TRANSACTION :: string where "TRANSACTION = ''transaction''"
definition ROWS :: string where "ROWS = ''rows''"
definition COMMITTED :: string where "COMMITTED = ''committed''"

lemmas file_names = PRIMARY_def SECONDARY_def TRANSACTION_def ROWS_def COMMITTED_def

section \<open>The adapter\<close>

definition rows_at ::
    "'raw file_env \<Rightarrow> ('h, 'raw) world \<Rightarrow> string \<Rightarrow> u64 \<Rightarrow> selector_error + entries option" where
  "rows_at env w name g =
     and_then (read_verified env (w_files w) name)
       (\<lambda>b. Ok (map_option sb_entries (opt_filter (\<lambda>b. sb_generation b = g) b)))"

fun first_rows_at ::
    "'raw file_env \<Rightarrow> ('h, 'raw) world \<Rightarrow> string list \<Rightarrow> u64 \<Rightarrow> selector_error + entries option" where
  "first_rows_at env w [] g = Ok None"
| "first_rows_at env w (name # names) g =
     and_then (rows_at env w name g)
       (\<lambda>rows. case rows of Some r \<Rightarrow> Ok (Some r) | None \<Rightarrow> first_rows_at env w names g)"

fun newest_blob ::
    "'raw file_env \<Rightarrow> ('h, 'raw) world \<Rightarrow> string list \<Rightarrow> selector_blob option \<Rightarrow> selector_error + selector_blob option" where
  "newest_blob env w [] newest = Ok newest"
| "newest_blob env w (name # names) newest =
     and_then (read_verified env (w_files w) name)
       (\<lambda>b. case b of
              None \<Rightarrow> newest_blob env w names newest
            | Some b \<Rightarrow>
                newest_blob env w names
                  (if (case newest of None \<Rightarrow> True | Some n \<Rightarrow> sb_generation b \<ge> sb_generation n)
                   then Some b else newest))"

definition newest_rows :: "'raw file_env \<Rightarrow> ('h, 'raw) world \<Rightarrow> u64 \<Rightarrow> selector_error + entries" where
  "newest_rows env w g =
     and_then (newest_blob env w [ROWS, COMMITTED] None)
       (\<lambda>n. Ok (case n of None \<Rightarrow> fmempty | Some b \<Rightarrow> sb_entries b))"

text \<open>Insert each manager row whose id the record does not hold: the record wins.\<close>

definition union_rows :: "boot_vector \<Rightarrow> entries \<Rightarrow> boot_vector" where
  "union_rows r rows = r\<lparr>bv_entries := rows ++\<^sub>f bv_entries r\<rparr>"

definition br_generation ::
    "('h, 'raw) boot_record_ops \<Rightarrow> ('h, 'raw) world \<Rightarrow> record_copy \<Rightarrow> selector_error + u64 option" where
  "br_generation rc w copy = and_then (br_read rc w copy) (\<lambda>v. Ok (map_option bv_generation v))"

definition required :: "('h, 'raw) boot_record_ops \<Rightarrow> entries option \<Rightarrow> selector_error + entries" where
  "required rc rows =
     (case rows of
        Some r \<Rightarrow> Ok r
      | None \<Rightarrow> if br_routes_everything rc then Ok fmempty else Err SelIo)"

definition write_side ::
    "'raw file_env \<Rightarrow> string \<Rightarrow> selector_blob \<Rightarrow> ('h, 'raw) world \<Rightarrow> ('h, 'raw) world \<times> (selector_error + unit)" where
  "write_side env name blob w =
     (case write_blob env name blob (w_files w) of (fs, r) \<Rightarrow> (w\<lparr>w_files := fs\<rparr>, r))"

definition write_rows ::
    "'raw file_env \<Rightarrow> string \<Rightarrow> u64 \<Rightarrow> entries \<Rightarrow> ('h, 'raw) world \<Rightarrow> ('h, 'raw) world \<times> (selector_error + unit)" where
  "write_rows env name g rows w = write_side env name (sf_sign env g rows None) w"

definition write_header ::
    "'raw file_env \<Rightarrow> u64 \<Rightarrow> transaction \<Rightarrow> ('h, 'raw) world \<Rightarrow> ('h, 'raw) world \<times> (selector_error + unit)" where
  "write_header env g h w = write_side env TRANSACTION (sf_sign env g fmempty (Some h)) w"

definition attributed_transaction ::
    "'raw file_env \<Rightarrow> ('h, 'raw) boot_record_ops \<Rightarrow> ('h, 'raw) world \<Rightarrow> selector_error + (u64 \<times> transaction) option" where
  "attributed_transaction env rc w =
     and_then (read_verified env (w_files w) TRANSACTION) (\<lambda>b.
       let header = (case b of None \<Rightarrow> None | Some b \<Rightarrow> map_option (\<lambda>t. (sb_generation b, t)) (sb_transaction b))
       in case (case header of Some h \<Rightarrow> Some h | None \<Rightarrow> br_legacy_transaction rc w) of
            None \<Rightarrow> Ok None
          | Some (g, h) \<Rightarrow>
              if br_routes_everything rc then Ok (Some (g, h))
              else and_then (br_generation rc w Primary) (\<lambda>p.
                if p \<noteq> Some g
                then and_then (first_rows_at env w [ROWS, COMMITTED] g)
                       (\<lambda>rows. if rows = None then Ok None else Ok (Some (g, h)))
                else Ok (Some (g, h))))"

definition rs_read_primary ::
    "'raw file_env \<Rightarrow> ('h, 'raw) boot_record_ops \<Rightarrow> ('h, 'raw) world \<Rightarrow> selector_error + boot_vector option" where
  "rs_read_primary env rc w =
     and_then (br_read rc w Primary) (\<lambda>r. case r of
        None \<Rightarrow> Ok None
      | Some r \<Rightarrow>
          and_then (first_rows_at env w [ROWS, COMMITTED] (bv_generation r)) (\<lambda>rows.
          and_then (case rows of Some rows \<Rightarrow> Ok rows | None \<Rightarrow> newest_rows env w (bv_generation r)) (\<lambda>rows.
            Ok (Some (union_rows r rows)))))"

definition rs_read_secondary ::
    "'raw file_env \<Rightarrow> ('h, 'raw) boot_record_ops \<Rightarrow> ('h, 'raw) world \<Rightarrow> selector_error + boot_vector option" where
  "rs_read_secondary env rc w =
     and_then (br_read rc w Secondary) (\<lambda>s. case s of
        None \<Rightarrow> Ok None
      | Some s \<Rightarrow>
          and_then (rows_at env w COMMITTED (bv_generation s)) (\<lambda>rows.
          and_then (case rows of
                      Some rows \<Rightarrow> Ok (Some rows)
                    | None \<Rightarrow>
                        and_then (br_generation rc w Primary) (\<lambda>p.
                          if p = Some (bv_generation s) then rows_at env w ROWS (bv_generation s)
                          else Ok None)) (\<lambda>rows.
          and_then (case rows of Some rows \<Rightarrow> Ok rows | None \<Rightarrow> newest_rows env w (bv_generation s)) (\<lambda>rows.
            Ok (Some (union_rows s rows))))))"

definition or_zero :: "u64 option \<Rightarrow> u64" where
  "or_zero g = (case g of None \<Rightarrow> 0 | Some g \<Rightarrow> g)"

definition rs_activate ::
    "'raw file_env \<Rightarrow> ('h, 'raw) boot_record_ops \<Rightarrow> ('h, 'raw) world \<Rightarrow> entries \<Rightarrow> transaction
       \<Rightarrow> ('h, 'raw) world \<times> (selector_error + u64)" where
  "rs_activate env rc w es h =
     (let record_rows = fmfilter (br_routes rc w) es;
          manager_rows = fmfilter (\<lambda>i. \<not> br_routes rc w i) es
      in case and_then (br_generation rc w Primary) (\<lambda>p.
              and_then (br_generation rc w Secondary) (\<lambda>s. Ok (or_zero p \<noteq> or_zero s))) of
           Err e \<Rightarrow> (w, Err e)
         | Ok was_trial \<Rightarrow>
             (case br_activate rc w record_rows of
                (w1, Err e) \<Rightarrow> (w1, Err e)
              | (w1, Ok g) \<Rightarrow>
                  (case write_rows env ROWS g manager_rows w1 of
                     (w2, Err e) \<Rightarrow> (if was_trial then w2 else fst (br_rollback rc w2), Err e)
                   | (w2, Ok _) \<Rightarrow> (fst (write_header env g h w2), Ok g))))"

definition rs_commit ::
    "'raw file_env \<Rightarrow> ('h, 'raw) boot_record_ops \<Rightarrow> ('h, 'raw) world \<Rightarrow> ('h, 'raw) world \<times> (selector_error + unit)" where
  "rs_commit env rc w =
     (case br_generation rc w Primary of
        Err e \<Rightarrow> (w, Err e)
      | Ok None \<Rightarrow> (w, Ok ())
      | Ok (Some g) \<Rightarrow>
          (case br_commit rc w of
             (w1, Err e) \<Rightarrow> (w1, Err e)
           | (w1, Ok _) \<Rightarrow>
               (case and_then (first_rows_at env w1 [ROWS, COMMITTED] g) (required rc) of
                  Err e \<Rightarrow> (w1, Err e)
                | Ok rows \<Rightarrow> write_rows env COMMITTED g rows w1)))"

definition rs_rollback ::
    "'raw file_env \<Rightarrow> ('h, 'raw) boot_record_ops \<Rightarrow> ('h, 'raw) world \<Rightarrow> transaction
       \<Rightarrow> ('h, 'raw) world \<times> (selector_error + u64)" where
  "rs_rollback env rc w h =
     (case and_then (br_generation rc w Primary) (\<lambda>p.
           and_then (br_generation rc w Secondary) (\<lambda>s.
             case opt_filter (\<lambda>s. p \<noteq> Some s) s of
               None \<Rightarrow> Err NoTrial
             | Some flr \<Rightarrow>
                 and_then (and_then (first_rows_at env w [COMMITTED, ROWS] flr) (required rc))
                   (\<lambda>rows. Ok (flr, rows)))) of
        Err e \<Rightarrow> (w, Err e)
      | Ok (flr, rows) \<Rightarrow>
          (case write_header env flr h w of
             (w1, Err e) \<Rightarrow> (w1, Err e)
           | (w1, Ok _) \<Rightarrow>
               (case br_rollback rc w1 of
                  (w2, Err e) \<Rightarrow> (w2, Err e)
                | (w2, Ok g) \<Rightarrow> (fst (write_rows env ROWS g rows w2), Ok g))))"

definition rs_read_transaction ::
    "'raw file_env \<Rightarrow> ('h, 'raw) boot_record_ops \<Rightarrow> ('h, 'raw) world \<Rightarrow> (u64 \<times> transaction) option" where
  "rs_read_transaction env rc w = (case attributed_transaction env rc w of Ok t \<Rightarrow> t | Err _ \<Rightarrow> None)"

definition record_store_ops ::
    "'raw file_env \<Rightarrow> ('h, 'raw) boot_record_ops \<Rightarrow> ('h, 'raw) world selector_store_ops" where
  "record_store_ops env rc =
     \<lparr>st_read_primary = rs_read_primary env rc, st_read_secondary = rs_read_secondary env rc,
      st_activate = rs_activate env rc, st_commit = rs_commit env rc, st_rollback = rs_rollback env rc,
      st_read_transaction = rs_read_transaction env rc,
      st_write_transaction = (\<lambda>w g h. write_header env g h w)\<rparr>"

section \<open>The file record\<close>

text \<open>The host state of the file record is its configuration: the legacy slot map, if any.\<close>

type_synonym file_host = "(string, bank_set) fmap option"

fun copy_name :: "record_copy \<Rightarrow> string" where
  "copy_name Primary = PRIMARY"
| "copy_name Secondary = SECONDARY"

text \<open>The slots of the entries that have one, later ids overwriting earlier ones of the same slot.\<close>

definition legacy_slots :: "(string, bank_set) fmap \<Rightarrow> entries \<Rightarrow> (u8, bank) fmap" where
  "legacy_slots slot_map es =
     fold (\<lambda>(i, e) acc. case fmlookup slot_map i of None \<Rightarrow> acc | Some st \<Rightarrow> fmupd st (ce_bank e) acc)
       (sorted_list_of_fmap es) fmempty"

definition write_copy ::
    "'raw file_env \<Rightarrow> (file_host, 'raw) world \<Rightarrow> record_copy \<Rightarrow> u64 \<Rightarrow> entries
       \<Rightarrow> (file_host, 'raw) world \<times> (selector_error + unit)" where
  "write_copy env w copy g es =
     (let blob = (sf_sign env g es None)
            \<lparr>sb_selectors := map_option (\<lambda>slot_map. legacy_slots slot_map es) (w_host w)\<rparr>
      in write_side env (copy_name copy) blob w)"

definition file_read ::
    "'raw file_env \<Rightarrow> (file_host, 'raw) world \<Rightarrow> record_copy \<Rightarrow> selector_error + boot_vector option" where
  "file_read env w copy =
     and_then (read_verified env (w_files w) (copy_name copy))
       (\<lambda>b. Ok (map_option (\<lambda>b. \<lparr>bv_generation = sb_generation b, bv_entries = sb_entries b\<rparr>) b))"

definition file_activate ::
    "'raw file_env \<Rightarrow> (file_host, 'raw) world \<Rightarrow> entries \<Rightarrow> (file_host, 'raw) world \<times> (selector_error + u64)" where
  "file_activate env w rows =
     (case and_then (file_read env w Primary) (\<lambda>p.
           and_then (file_read env w Secondary) (\<lambda>s. Ok (next_generation p s))) of
        Err e \<Rightarrow> (w, Err e)
      | Ok g \<Rightarrow>
          (case write_copy env w Primary g rows of
             (w1, Err e) \<Rightarrow> (w1, Err e)
           | (w1, Ok _) \<Rightarrow> (w1, Ok g)))"

definition file_commit ::
    "'raw file_env \<Rightarrow> (file_host, 'raw) world \<Rightarrow> (file_host, 'raw) world \<times> (selector_error + unit)" where
  "file_commit env w =
     (case file_read env w Primary of
        Err e \<Rightarrow> (w, Err e)
      | Ok (Some p) \<Rightarrow> write_copy env w Secondary (bv_generation p) (bv_entries p)
      | Ok None \<Rightarrow> (w, Ok ()))"

definition file_rollback ::
    "'raw file_env \<Rightarrow> (file_host, 'raw) world \<Rightarrow> (file_host, 'raw) world \<times> (selector_error + u64)" where
  "file_rollback env w =
     (case and_then (file_read env w Primary) (\<lambda>p.
           and_then (file_read env w Secondary) (\<lambda>s.
             case opt_filter (\<lambda>s. p \<noteq> Some s) s of None \<Rightarrow> Err NoTrial | Some s \<Rightarrow> Ok s)) of
        Err e \<Rightarrow> (w, Err e)
      | Ok s \<Rightarrow>
          (case write_copy env w Primary (bv_generation s) (bv_entries s) of
             (w1, Err e) \<Rightarrow> (w1, Err e)
           | (w1, Ok _) \<Rightarrow> (w1, Ok (bv_generation s))))"

definition file_legacy_transaction ::
    "'raw file_env \<Rightarrow> (file_host, 'raw) world \<Rightarrow> (u64 \<times> transaction) option" where
  "file_legacy_transaction env w =
     (case read_verified env (w_files w) PRIMARY of
        Ok (Some b) \<Rightarrow> map_option (\<lambda>t. (sb_generation b, t)) (sb_transaction b)
      | _ \<Rightarrow> None)"

definition file_record_ops :: "'raw file_env \<Rightarrow> (file_host, 'raw) boot_record_ops" where
  "file_record_ops env =
     \<lparr>br_routes = (\<lambda>_ _. True), br_routes_everything = True, br_read = file_read env,
      br_activate = file_activate env, br_commit = file_commit env, br_rollback = file_rollback env,
      br_legacy_transaction = file_legacy_transaction env\<rparr>"

definition file_store_ops :: "'raw file_env \<Rightarrow> (file_host, 'raw) world selector_store_ops" where
  "file_store_ops env = record_store_ops env (file_record_ops env)"

section \<open>The in-memory record\<close>

record mem_record =
  mr_routed :: "string list"
  mr_primary :: "boot_vector option"
  mr_secondary :: "boot_vector option"
  mr_next_generation :: "u64 option"
  mr_fail_writes :: bool
  mr_fail_reads :: bool
  mr_writes :: nat

definition mem_routing :: "string list \<Rightarrow> mem_record" where
  "mem_routing ids = \<lparr>mr_routed = ids, mr_primary = None, mr_secondary = None, mr_next_generation = None,
     mr_fail_writes = False, mr_fail_reads = False, mr_writes = 0\<rparr>"

definition mr_set_fail_writes :: "bool \<Rightarrow> mem_record \<Rightarrow> mem_record" where
  "mr_set_fail_writes fail r = r\<lparr>mr_fail_writes := fail\<rparr>"

definition mr_set_fail_reads :: "bool \<Rightarrow> mem_record \<Rightarrow> mem_record" where
  "mr_set_fail_reads fail r = r\<lparr>mr_fail_reads := fail\<rparr>"

definition mr_set_next_generation :: "u64 \<Rightarrow> mem_record \<Rightarrow> mem_record" where
  "mr_set_next_generation g r = r\<lparr>mr_next_generation := Some g\<rparr>"

definition mr_boot_stage_rollback :: "mem_record \<Rightarrow> mem_record" where
  "mr_boot_stage_rollback r = r\<lparr>mr_primary := mr_secondary r\<rparr>"

definition mr_tear_committed :: "mem_record \<Rightarrow> mem_record" where
  "mr_tear_committed r = r\<lparr>mr_secondary := None\<rparr>"

definition mr_read :: "mem_record \<Rightarrow> record_copy \<Rightarrow> selector_error + boot_vector option" where
  "mr_read r copy =
     (if mr_fail_reads r then Err SelUnreadable
      else Ok (case copy of Primary \<Rightarrow> mr_primary r | Secondary \<Rightarrow> mr_secondary r))"

definition mr_activate :: "mem_record \<Rightarrow> entries \<Rightarrow> mem_record \<times> (selector_error + u64)" where
  "mr_activate r rows =
     (if mr_fail_writes r then (r, Err SelIo)
      else case and_then (mr_read r Primary) (\<lambda>p. and_then (mr_read r Secondary) (\<lambda>s. Ok (p, s))) of
             Err e \<Rightarrow> (r, Err e)
           | Ok (p, s) \<Rightarrow>
               let g = (case mr_next_generation r of Some g \<Rightarrow> g | None \<Rightarrow> next_generation p s)
               in (r\<lparr>mr_next_generation := None, mr_primary := Some \<lparr>bv_generation = g, bv_entries = rows\<rparr>,
                     mr_writes := mr_writes r + 1\<rparr>, Ok g))"

definition mr_commit :: "mem_record \<Rightarrow> mem_record \<times> (selector_error + unit)" where
  "mr_commit r =
     (if mr_fail_writes r then (r, Err SelIo)
      else case mr_read r Primary of
             Err e \<Rightarrow> (r, Err e)
           | Ok p \<Rightarrow>
               let r1 = (case p of None \<Rightarrow> r | Some p \<Rightarrow> r\<lparr>mr_secondary := Some p\<rparr>)
               in (r1\<lparr>mr_writes := mr_writes r1 + 1\<rparr>, Ok ()))"

definition mr_rollback :: "mem_record \<Rightarrow> mem_record \<times> (selector_error + u64)" where
  "mr_rollback r =
     (if mr_fail_writes r then (r, Err SelIo)
      else case and_then (mr_read r Primary) (\<lambda>p. and_then (mr_read r Secondary) (\<lambda>s.
             case opt_filter (\<lambda>s. map_option bv_generation p \<noteq> Some (bv_generation s)) s of
               None \<Rightarrow> Err NoTrial | Some s \<Rightarrow> Ok s)) of
             Err e \<Rightarrow> (r, Err e)
           | Ok s \<Rightarrow> (r\<lparr>mr_primary := Some s, mr_writes := mr_writes r + 1\<rparr>, Ok (bv_generation s)))"

definition on_host :: "('h \<Rightarrow> 'h \<times> 'r) \<Rightarrow> ('h, 'raw) world \<Rightarrow> ('h, 'raw) world \<times> 'r" where
  "on_host f w = (case f (w_host w) of (h, r) \<Rightarrow> (w\<lparr>w_host := h\<rparr>, r))"

definition mem_record_ops :: "(mem_record, 'raw) boot_record_ops" where
  "mem_record_ops =
     \<lparr>br_routes = (\<lambda>w i. i \<in> set (mr_routed (w_host w))), br_routes_everything = False,
      br_read = (\<lambda>w. mr_read (w_host w)),
      br_activate = (\<lambda>w rows. on_host (\<lambda>r. mr_activate r rows) w),
      br_commit = on_host mr_commit, br_rollback = on_host mr_rollback,
      br_legacy_transaction = (\<lambda>_. None)\<rparr>"

end
