(* ===== verification/SystemBank.thy ===== *)
theory SystemBank
  imports Selector
begin

text \<open>
  The transition engine of \<^verbatim>\<open>crates/machine-mgr/src/system_bank_state.rs\<close>: the in-memory view of
  the boot vector over a selector store, with staging, sealing, commit, rollback and the count
  of trial boots. The store is any implementation \<open>ops\<close> of the \<^verbatim>\<open>SelectorStore\<close> trait; the
  lemmas are proved once from the contract locale and hold for every store that keeps it.
\<close>

section \<open>Model\<close>

datatype boot_observation = NotArmed | AlreadyCounted u8 | Counted u8

record 's system_bank_manager =
  sbm_store :: 's
  current :: entries
  generation :: u64
  committed_entries :: entries
  committed_generation :: u64
  sbm_transaction :: "transaction option"
  pending :: "entries option"

definition is_trial :: "'s system_bank_manager \<Rightarrow> bool" where
  "is_trial m \<longleftrightarrow> current m \<noteq> committed_entries m"

definition load :: "'s selector_store_ops \<Rightarrow> 's \<Rightarrow> selector_error + 's system_bank_manager" where
  "load ops store =
     and_then (st_read_primary ops store) (\<lambda>p.
     and_then (st_read_secondary ops store) (\<lambda>q.
       let cur = (case p of Some v \<Rightarrow> bv_entries v | None \<Rightarrow> fmempty);
           gn = (case p of Some v \<Rightarrow> bv_generation v | None \<Rightarrow> 0);
           com = (case q of Some v \<Rightarrow> bv_entries v | None \<Rightarrow> fmempty);
           cgn = (case q of Some v \<Rightarrow> bv_generation v | None \<Rightarrow> 0);
           (store', tx) =
             (case st_read_transaction ops store of
                None \<Rightarrow> (store, None)
              | Some (g, header) \<Rightarrow>
                  if g = gn then (store, Some header)
                  else if g > gn \<and> cur = com \<and> tx_resolution header = None then
                    (let header' = header\<lparr>tx_resolution :=
                             Some \<lparr>res_outcome = RolledBack, res_reason = BootStage\<rparr>\<rparr>
                     in case st_write_transaction ops store gn header' of
                          (store', Ok _) \<Rightarrow> (store', Some header')
                        | (store', Err _) \<Rightarrow> (store', None))
                  else (store, None))
       in Ok \<lparr>sbm_store = store', current = cur, generation = gn, committed_entries = com,
              committed_generation = cgn, sbm_transaction = tx, pending = None\<rparr>))"

definition stage ::
    "string \<Rightarrow> bank \<Rightarrow> (string, image_entry) fmap \<Rightarrow> 's system_bank_manager \<Rightarrow> 's system_bank_manager" where
  "stage cid bk images m =
     (let base = (case pending m of Some p \<Rightarrow> p | None \<Rightarrow> current m)
      in m\<lparr>pending := Some (fmupd cid \<lparr>ce_bank = bk, ce_images = images\<rparr> base)\<rparr>)"

definition fresh_header :: "(bytes \<Rightarrow> bytes) \<Rightarrow> string option \<Rightarrow> transaction" where
  "fresh_header sha armed =
     \<lparr>tx_armed_boot_id = (case armed of None \<Rightarrow> zero_id | Some i \<Rightarrow> boot_id_digest sha i),
      tx_trial_boots = 0, tx_counted_boot_id = zero_id, tx_resolution = None\<rparr>"

definition seal ::
    "(bytes \<Rightarrow> bytes) \<Rightarrow> 's selector_store_ops \<Rightarrow> string option \<Rightarrow> 's system_bank_manager
       \<Rightarrow> 's system_bank_manager \<times> (selector_error + bool)" where
  "seal sha ops armed m =
     (case pending m of
        None \<Rightarrow> (m, Ok False)
      | Some p \<Rightarrow>
          let header = fresh_header sha armed
          in case st_activate ops (sbm_store m) p header of
               (store', Err e) \<Rightarrow> (m\<lparr>sbm_store := store'\<rparr>, Err e)
             | (store', Ok gn) \<Rightarrow>
                 (m\<lparr>sbm_store := store', pending := None, current := p, generation := gn,
                    sbm_transaction := Some header\<rparr>, Ok True))"

definition commit ::
    "'s selector_store_ops \<Rightarrow> 's system_bank_manager \<Rightarrow> 's system_bank_manager \<times> (selector_error + unit)" where
  "commit ops m =
     (case st_commit ops (sbm_store m) of
        (store', Err e) \<Rightarrow> (m\<lparr>sbm_store := store'\<rparr>, Err e)
      | (store', Ok _) \<Rightarrow>
          (m\<lparr>sbm_store := store', committed_entries := current m,
             committed_generation := generation m\<rparr>, Ok ()))"

definition blank_header :: transaction where
  "blank_header = \<lparr>tx_armed_boot_id = zero_id, tx_trial_boots = 0, tx_counted_boot_id = zero_id,
     tx_resolution = None\<rparr>"

definition rollback ::
    "'s selector_store_ops \<Rightarrow> reason \<Rightarrow> 's system_bank_manager
       \<Rightarrow> 's system_bank_manager \<times> (selector_error + unit)" where
  "rollback ops reason m =
     (if \<not> is_trial m then (m\<lparr>pending := None\<rparr>, Ok ())
      else
        let header = (case sbm_transaction m of Some t \<Rightarrow> t | None \<Rightarrow> blank_header)
              \<lparr>tx_resolution := Some \<lparr>res_outcome = RolledBack, res_reason = reason\<rparr>\<rparr>
        in case st_rollback ops (sbm_store m) header of
             (store', Err e) \<Rightarrow> (m\<lparr>sbm_store := store'\<rparr>, Err e)
           | (store', Ok gn) \<Rightarrow>
               (m\<lparr>sbm_store := store', current := committed_entries m, generation := gn,
                  sbm_transaction := Some header, pending := None\<rparr>, Ok ()))"

definition observe_node_boot ::
    "(bytes \<Rightarrow> bytes) \<Rightarrow> 's selector_store_ops \<Rightarrow> string \<Rightarrow> 's system_bank_manager
       \<Rightarrow> 's system_bank_manager \<times> (selector_error + boot_observation)" where
  "observe_node_boot sha ops boot_id m =
     (case opt_filter (\<lambda>_. is_trial m) (sbm_transaction m) of
        None \<Rightarrow> (m, Ok NotArmed)
      | Some t \<Rightarrow>
          if tx_armed_boot_id t = zero_id then (m, Ok NotArmed)
          else
            let d = boot_id_digest sha boot_id
            in if d = tx_armed_boot_id t \<or> d = tx_counted_boot_id t
               then (m, Ok (AlreadyCounted (tx_trial_boots t)))
               else
                 let header = t\<lparr>tx_trial_boots :=
                           (if tx_trial_boots t = -1 then -1 else tx_trial_boots t + 1),
                         tx_counted_boot_id := d\<rparr>
                 in case st_write_transaction ops (sbm_store m) (generation m) header of
                      (store', Err e) \<Rightarrow> (m\<lparr>sbm_store := store'\<rparr>, Err e)
                    | (store', Ok _) \<Rightarrow>
                        (m\<lparr>sbm_store := store', sbm_transaction := Some header\<rparr>,
                         Ok (Counted (tx_trial_boots header))))"

definition rebooted_since_arming :: "(bytes \<Rightarrow> bytes) \<Rightarrow> 's system_bank_manager \<Rightarrow> string option \<Rightarrow> bool option" where
  "rebooted_since_arming sha m cur =
     (case sbm_transaction m of
        None \<Rightarrow> None
      | Some t \<Rightarrow>
          if tx_armed_boot_id t = zero_id then None
          else (case cur of None \<Rightarrow> None | Some c \<Rightarrow> Some (tx_armed_boot_id t \<noteq> boot_id_digest sha c)))"

definition entry :: "'s system_bank_manager \<Rightarrow> string \<Rightarrow> component_entry option" where
  "entry m cid = fmlookup (current m) cid"

definition sbm_active_bank :: "'s system_bank_manager \<Rightarrow> string \<Rightarrow> bank option" where
  "sbm_active_bank m cid = map_option ce_bank (fmlookup (current m) cid)"

definition committed_entry :: "'s system_bank_manager \<Rightarrow> string \<Rightarrow> component_entry option" where
  "committed_entry m cid = fmlookup (committed_entries m) cid"

definition component_in_trial :: "'s system_bank_manager \<Rightarrow> string \<Rightarrow> bool" where
  "component_in_trial m cid =
     (case entry m cid of Some e \<Rightarrow> committed_entry m cid \<noteq> Some e | None \<Rightarrow> False)"

definition is_empty :: "'s system_bank_manager \<Rightarrow> bool" where
  "is_empty m \<longleftrightarrow> current m = fmempty"

definition missing_entries :: "'s system_bank_manager \<Rightarrow> string list \<Rightarrow> string list" where
  "missing_entries m ids = filter (\<lambda>i. fmlookup (current m) i = None) ids"

section \<open>Histories\<close>

text \<open>
  What can happen to a manager: the five operations, with whatever result the store gives, and
  a restart of the process, which loads a new manager from the store.
\<close>

datatype mgr_op =
    OpStage string bank "(string, image_entry) fmap"
  | OpSeal "string option"
  | OpCommit
  | OpRollback reason
  | OpObserve string
  | OpRestart

fun mgr_step ::
    "(bytes \<Rightarrow> bytes) \<Rightarrow> 's selector_store_ops \<Rightarrow> mgr_op \<Rightarrow> 's system_bank_manager \<Rightarrow> 's system_bank_manager" where
  "mgr_step sha ops (OpStage cid bk images) m = stage cid bk images m"
| "mgr_step sha ops (OpSeal armed) m = fst (seal sha ops armed m)"
| "mgr_step sha ops OpCommit m = fst (commit ops m)"
| "mgr_step sha ops (OpRollback rsn) m = fst (rollback ops rsn m)"
| "mgr_step sha ops (OpObserve i) m = fst (observe_node_boot sha ops i m)"
| "mgr_step sha ops OpRestart m = (case load ops (sbm_store m) of Ok m' \<Rightarrow> m' | Err _ \<Rightarrow> m)"

inductive mgr_reach ::
    "(bytes \<Rightarrow> bytes) \<Rightarrow> 's selector_store_ops \<Rightarrow> 's \<Rightarrow> 's system_bank_manager \<Rightarrow> bool"
  for sha ops store where
  boot: "load ops store = Ok m \<Longrightarrow> mgr_reach sha ops store m"
| step: "mgr_reach sha ops store m \<Longrightarrow> generation m \<noteq> -1 \<Longrightarrow> mgr_reach sha ops store (mgr_step sha ops op m)"

section \<open>The view of the store\<close>

text \<open>
  The manager's fields are exactly what the store holds, a committed copy has a primary, and
  the committed generation is not above the primary's.
\<close>

definition mirrors :: "vstore \<Rightarrow> 's system_bank_manager \<Rightarrow> bool" where
  "mirrors v m \<longleftrightarrow>
     current m = (case vs_primary v of None \<Rightarrow> fmempty | Some p \<Rightarrow> bv_entries p)
     \<and> generation m = vec_generation (vs_primary v)
     \<and> committed_entries m = (case vs_secondary v of None \<Rightarrow> fmempty | Some p \<Rightarrow> bv_entries p)
     \<and> committed_generation m = vec_generation (vs_secondary v)
     \<and> vs_header v = map_option (\<lambda>t. (generation m, t)) (sbm_transaction m)
     \<and> (vs_primary v = None \<longrightarrow> vs_secondary v = None)
     \<and> committed_generation m \<le> generation m"

lemma mirrors_pending [simp]: "mirrors v (m\<lparr>pending := p\<rparr>) = mirrors v m"
  by (simp add: mirrors_def)

lemma mirrors_store [simp]: "mirrors v (m\<lparr>sbm_store := s\<rparr>) = mirrors v m"
  by (simp add: mirrors_def)

lemma mirrors_top: "mirrors v m \<Longrightarrow> v_top v = generation m"
  by (auto simp: mirrors_def v_top_def max_def)

lemma mirrors_activate:
  assumes "mirrors v m" "v_top v < g"
  shows "mirrors (v_activate g es h v)
    (m\<lparr>sbm_store := s, pending := None, current := es, generation := g, sbm_transaction := Some h\<rparr>)"
  using assms mirrors_top [OF assms(1)] by (auto simp: mirrors_def v_activate_def)

lemma mirrors_commit:
  assumes "mirrors v m"
  shows "mirrors (v_commit v)
    (m\<lparr>sbm_store := s, committed_entries := current m, committed_generation := generation m\<rparr>)"
  using assms by (auto simp: mirrors_def v_commit_def)

lemma mirrors_rollback:
  assumes "mirrors v m" "v_rollback h v = Some (g, v')"
  shows "mirrors v' (m\<lparr>sbm_store := s, current := committed_entries m, generation := g,
    sbm_transaction := Some h, pending := None\<rparr>)"
  using assms by (auto simp: mirrors_def v_rollback_def opt_filter_eq_Some split: option.splits)

lemma mirrors_trial_primary: "mirrors v m \<Longrightarrow> is_trial m \<Longrightarrow> vs_primary v \<noteq> None"
  by (auto simp: mirrors_def is_trial_def split: option.splits)

text \<open>Cases of a seal, a commit, a rollback and an observation by the store's answer.\<close>

lemma seal_cases:
  assumes "seal sha ops armed m = (m', r)"
  obtains "pending m = None" "m' = m" "r = Ok False"
  | p store' e where "pending m = Some p"
      "st_activate ops (sbm_store m) p (fresh_header sha armed) = (store', Err e)"
      "m' = m\<lparr>sbm_store := store'\<rparr>" "r = Err e"
  | p store' g where "pending m = Some p"
      "st_activate ops (sbm_store m) p (fresh_header sha armed) = (store', Ok g)"
      "m' = m\<lparr>sbm_store := store', pending := None, current := p, generation := g,
              sbm_transaction := Some (fresh_header sha armed)\<rparr>" "r = Ok True"
  using assms
  by (cases "pending m"; cases "st_activate ops (sbm_store m) (the (pending m)) (fresh_header sha armed)";
      cases "snd (st_activate ops (sbm_store m) (the (pending m)) (fresh_header sha armed))")
     (auto simp: seal_def)

lemma commit_cases:
  assumes "commit ops m = (m', r)"
  obtains store' e where "st_commit ops (sbm_store m) = (store', Err e)" "m' = m\<lparr>sbm_store := store'\<rparr>" "r = Err e"
  | store' where "st_commit ops (sbm_store m) = (store', Ok ())"
      "m' = m\<lparr>sbm_store := store', committed_entries := current m, committed_generation := generation m\<rparr>"
      "r = Ok ()"
  using assms
  by (cases "st_commit ops (sbm_store m)"; cases "snd (st_commit ops (sbm_store m))") (auto simp: commit_def)

definition rollback_header :: "reason \<Rightarrow> 's system_bank_manager \<Rightarrow> transaction" where
  "rollback_header rsn m = (case sbm_transaction m of Some t \<Rightarrow> t | None \<Rightarrow> blank_header)
     \<lparr>tx_resolution := Some \<lparr>res_outcome = RolledBack, res_reason = rsn\<rparr>\<rparr>"

lemma rollback_cases:
  assumes "rollback ops rsn m = (m', r)"
  obtains "\<not> is_trial m" "m' = m\<lparr>pending := None\<rparr>" "r = Ok ()"
  | store' e where "is_trial m" "st_rollback ops (sbm_store m) (rollback_header rsn m) = (store', Err e)"
      "m' = m\<lparr>sbm_store := store'\<rparr>" "r = Err e"
  | store' g where "is_trial m" "st_rollback ops (sbm_store m) (rollback_header rsn m) = (store', Ok g)"
      "m' = m\<lparr>sbm_store := store', current := committed_entries m, generation := g,
              sbm_transaction := Some (rollback_header rsn m), pending := None\<rparr>" "r = Ok ()"
  using assms
  by (cases "is_trial m"; cases "st_rollback ops (sbm_store m) (rollback_header rsn m)";
      cases "snd (st_rollback ops (sbm_store m) (rollback_header rsn m))")
     (auto simp: rollback_def rollback_header_def)

text \<open>The header after one more counted boot.\<close>

definition counted_header :: "(bytes \<Rightarrow> bytes) \<Rightarrow> string \<Rightarrow> transaction \<Rightarrow> transaction" where
  "counted_header sha boot_id t =
     t\<lparr>tx_trial_boots := (if tx_trial_boots t = -1 then -1 else tx_trial_boots t + 1),
       tx_counted_boot_id := boot_id_digest sha boot_id\<rparr>"

lemma observe_cases:
  assumes "observe_node_boot sha ops i m = (m', r)"
  obtains "m' = m" "r = Ok NotArmed"
  | t where "m' = m" "sbm_transaction m = Some t" "r = Ok (AlreadyCounted (tx_trial_boots t))"
  | t store' e where "is_trial m" "sbm_transaction m = Some t"
      "st_write_transaction ops (sbm_store m) (generation m) (counted_header sha i t) = (store', Err e)"
      "m' = m\<lparr>sbm_store := store'\<rparr>" "r = Err e"
  | t store' where "is_trial m" "sbm_transaction m = Some t"
      "st_write_transaction ops (sbm_store m) (generation m) (counted_header sha i t) = (store', Ok ())"
      "m' = m\<lparr>sbm_store := store', sbm_transaction := Some (counted_header sha i t)\<rparr>"
      "r = Ok (Counted (tx_trial_boots (counted_header sha i t)))" "tx_armed_boot_id t \<noteq> zero_id"
proof (cases "opt_filter (\<lambda>_. is_trial m) (sbm_transaction m)")
  case None
  then show ?thesis using assms that(1) by (simp add: observe_node_boot_def)
next
  case (Some t)
  then have t: "is_trial m" "sbm_transaction m = Some t" by (auto simp: opt_filter_eq_Some)
  obtain store' w where w: "st_write_transaction ops (sbm_store m) (generation m) (counted_header sha i t) = (store', w)"
    by (cases "st_write_transaction ops (sbm_store m) (generation m) (counted_header sha i t)")
  then show ?thesis
    using assms that(1) that(2) [of t] that(3) [OF t] that(4) [OF t] t
    by (cases w) (auto simp: observe_node_boot_def Let_def counted_header_def split: if_splits)
qed

section \<open>The manager over a store that keeps the contract\<close>

definition coherent :: "'s selector_store_ops \<Rightarrow> ('s \<Rightarrow> bool) \<Rightarrow> 's system_bank_manager \<Rightarrow> bool" where
  "coherent ops ok m \<longleftrightarrow> ok (sbm_store m) \<and> mirrors (view ops (sbm_store m)) m"

text \<open>A store as a node finds it: readable, a committed copy only under a primary, the header current.\<close>

definition store_settled :: "'s selector_store_ops \<Rightarrow> 's \<Rightarrow> bool" where
  "store_settled ops s \<longleftrightarrow>
     (let v = view ops s in
      (vs_primary v = None \<longrightarrow> vs_secondary v = None)
      \<and> vec_generation (vs_secondary v) \<le> vec_generation (vs_primary v)
      \<and> (\<forall>g h. vs_header v = Some (g, h) \<longrightarrow> g = vec_generation (vs_primary v)))"

context selector_store
begin

lemma load_settled:
  assumes "inv s" "store_settled ops s"
  shows "\<exists>m. load ops s = Ok m \<and> sbm_store m = s \<and> pending m = None \<and> coherent ops inv m"
proof -
  obtain p q where pq: "st_read_primary ops s = Ok p" "st_read_secondary ops s = Ok q"
    using primary_readable [OF assms(1)] secondary_readable [OF assms(1)]
    by (auto simp: is_ok_def split: sum.splits)
  show ?thesis
  proof (cases "st_read_transaction ops s")
    case None
    then show ?thesis
      using pq assms by (auto simp: load_def coherent_def mirrors_def store_settled_def view_def
          vec_generation_def split: option.splits)
  next
    case (Some gh)
    then obtain h where "st_read_transaction ops s = Some (vec_generation p, h)"
      using assms(2) pq by (cases gh) (auto simp: store_settled_def view_def)
    then show ?thesis
      using pq assms by (auto simp: load_def coherent_def mirrors_def store_settled_def view_def
          vec_generation_def split: option.splits)
  qed
qed

lemma coherent_settled: "coherent ops inv m \<Longrightarrow> store_settled ops (sbm_store m)"
  by (auto simp: coherent_def mirrors_def store_settled_def Let_def)

lemma coherent_load:
  assumes "coherent ops inv m"
  shows "load ops (sbm_store m) = Ok (m\<lparr>pending := None\<rparr>)"
proof -
  have "inv (sbm_store m)" using assms by (simp add: coherent_def)
  then obtain m' where m': "load ops (sbm_store m) = Ok m'" "sbm_store m' = sbm_store m" "pending m' = None"
      "coherent ops inv m'"
    using load_settled coherent_settled [OF assms] by blast
  have "mirrors (view ops (sbm_store m)) m" "mirrors (view ops (sbm_store m)) m'"
    using assms m' by (simp_all add: coherent_def)
  then have "current m' = current m \<and> generation m' = generation m
      \<and> committed_entries m' = committed_entries m \<and> committed_generation m' = committed_generation m
      \<and> sbm_transaction m' = sbm_transaction m"
    by (auto simp: mirrors_def map_option_case split: option.splits)
  then have "m' = m\<lparr>pending := None\<rparr>" using m'(2,3) by simp
  with m'(1) show ?thesis by simp
qed

lemma seal_coherent:
  assumes "coherent ops inv m" "generation m \<noteq> -1" "seal sha ops armed m = (m', r)"
  shows "coherent ops inv m'
    \<and> (case r of Err _ \<Rightarrow> m' = m\<lparr>sbm_store := sbm_store m'\<rparr> | Ok b \<Rightarrow> b \<longrightarrow> generation m < generation m')"
proof -
  note m = assms(1) [unfolded coherent_def]
  have top: "v_top (view ops (sbm_store m)) = generation m" using m mirrors_top by blast
  from assms(3) show ?thesis
  proof (cases rule: seal_cases)
    case 1
    then show ?thesis using assms(1) by simp
  next
    case (2 p store' e)
    then show ?thesis using activate_err [OF _ _ 2(2)] m top assms(2) by (simp add: coherent_def)
  next
    case (3 p store' g)
    then show ?thesis
      using activate_ok [OF _ _ 3(2)] mirrors_activate [of "view ops (sbm_store m)" m g] m top assms(2)
      by (simp add: coherent_def)
  qed
qed

lemma commit_coherent:
  assumes "coherent ops inv m" "commit ops m = (m', r)"
  shows "coherent ops inv m'"
  using assms(2)
proof (cases rule: commit_cases)
  case (1 store' e)
  then show ?thesis using commit_err [OF _ 1(1)] assms(1) by (simp add: coherent_def)
next
  case (2 store')
  then show ?thesis
    using commit_ok [OF _ 2(1)] mirrors_commit [of "view ops (sbm_store m)" m] assms(1)
    by (simp add: coherent_def)
qed

lemma rollback_coherent:
  assumes "coherent ops inv m" "rollback ops rsn m = (m', r)"
  shows "coherent ops inv m'"
  using assms(2)
proof (cases rule: rollback_cases)
  case 1
  then show ?thesis using assms(1) by (simp add: coherent_def)
next
  case (2 store' e)
  then show ?thesis using rollback_err [OF _ 2(2)] assms(1) by (simp add: coherent_def)
next
  case (3 store' g)
  then show ?thesis
    using rollback_ok [OF _ 3(2)] mirrors_rollback [of "view ops (sbm_store m)" m] assms(1)
    by (simp add: coherent_def)
qed

lemma observe_coherent:
  assumes "coherent ops inv m" "observe_node_boot sha ops i m = (m', r)"
  shows "coherent ops inv m'"
  using assms(2)
proof (cases rule: observe_cases)
  case (3 t store' e)
  obtain p where p: "vs_primary (view ops (sbm_store m)) = Some p" "generation m = bv_generation p"
    using assms(1) mirrors_trial_primary [OF _ 3(1)] by (fastforce simp: coherent_def mirrors_def)
  then show ?thesis
    using transaction_err [OF _ p(1), of "counted_header sha i t" store' e] 3 assms(1) by (simp add: coherent_def)
next
  case (4 t store')
  obtain p where p: "vs_primary (view ops (sbm_store m)) = Some p" "generation m = bv_generation p"
    using assms(1) mirrors_trial_primary [OF _ 4(1)] by (fastforce simp: coherent_def mirrors_def)
  then have "inv store'" "view ops store' =
      (view ops (sbm_store m))\<lparr>vs_header := Some (bv_generation p, counted_header sha i t)\<rparr>"
    using transaction_ok [OF _ p(1), of "counted_header sha i t" store'] 4(3) assms(1) by (simp_all add: coherent_def)
  then show ?thesis
    using 4(4) p assms(1) by (auto simp: coherent_def mirrors_def)
qed (use assms(1) in simp_all)

lemma stage_coherent: "coherent ops inv m \<Longrightarrow> coherent ops inv (stage cid bk images m)"
  by (simp add: coherent_def stage_def Let_def)

lemma step_coherent:
  assumes "coherent ops inv m" "generation m \<noteq> -1"
  shows "coherent ops inv (mgr_step sha ops op m)"
proof (cases op)
  case (OpSeal armed)
  then show ?thesis
    using seal_coherent [OF assms, of sha armed] by (cases "seal sha ops armed m") simp
next
  case OpCommit
  then show ?thesis using commit_coherent [OF assms(1)] by (cases "commit ops m") simp
next
  case (OpRollback rsn)
  then show ?thesis using rollback_coherent [OF assms(1)] by (cases "rollback ops rsn m") simp
next
  case (OpObserve i)
  then show ?thesis using observe_coherent [OF assms(1)] by (cases "observe_node_boot sha ops i m") simp
next
  case OpRestart
  then show ?thesis using coherent_load [OF assms(1)] assms(1) by (simp add: coherent_def)
qed (use assms(1) in \<open>simp add: stage_coherent\<close>)

lemma reach_coherent:
  assumes "inv store" "store_settled ops store" "mgr_reach sha ops store m"
  shows "coherent ops inv m"
  using assms(3)
proof induction
  case (boot m)
  then show ?case using load_settled [OF assms(1,2)] by auto
next
  case (step m op)
  then show ?case by (intro step_coherent)
qed

lemma restart_same:
  assumes "inv store" "store_settled ops store" "mgr_reach sha ops store m"
  shows "load ops (sbm_store m) = Ok (m\<lparr>pending := None\<rparr>)"
  using coherent_load reach_coherent [OF assms] by blast

end

end
