(* ===== verification/RecordStore.thy ===== *)
theory RecordStore
  imports BootRecord SystemBank
begin

text \<open>
  The contract of a boot record and the proof that the adapter over any record that keeps it
  is a selector store: the file store and a store over the in-memory record are instances.
  The contract is stated for a directory whose writes succeed; what happens when a write fails
  is the subject of \<^verbatim>\<open>StoreFaults\<close>.
\<close>

section \<open>Side files\<close>

definition env_ok :: "'raw file_env \<Rightarrow> bool" where
  "env_ok env \<longleftrightarrow> (\<forall>b. fe_from_json env (fe_to_json env b) = Some b)
     \<and> (\<forall>h. sg_verify (fe_signer env) h (sg_sign (fe_signer env) h))"

lemma signed_valid: "env_ok env \<Longrightarrow> is_valid (fe_sha env) (fe_signer env) (sf_sign env g es t)"
  by (simp add: env_ok_def is_valid_def sf_sign_def signed_def Let_def)

lemma signed_map_valid:
  "env_ok env \<Longrightarrow> is_valid (fe_sha env) (fe_signer env) ((sf_sign env g es t)\<lparr>sb_selectors := m\<rparr>)"
  by (simp add: env_ok_def is_valid_def sf_sign_def signed_def Let_def)

lemma sf_sign_sel [simp]:
  "sb_generation (sf_sign env g es t) = g" "sb_entries (sf_sign env g es t) = es"
  "sb_transaction (sf_sign env g es t) = t"
  by (simp_all add: sf_sign_def signed_def Let_def)

definition side_names :: "string set" where
  "side_names = {ROWS, COMMITTED, TRANSACTION}"

lemma side_names_simps [simp]:
  "ROWS \<in> side_names" "COMMITTED \<in> side_names" "TRANSACTION \<in> side_names"
  "PRIMARY \<notin> side_names" "SECONDARY \<notin> side_names"
  by (simp_all add: side_names_def file_names)

lemma names_distinct [simp]:
  "ROWS \<noteq> COMMITTED" "COMMITTED \<noteq> ROWS" "ROWS \<noteq> TRANSACTION" "TRANSACTION \<noteq> ROWS"
  "COMMITTED \<noteq> TRANSACTION" "TRANSACTION \<noteq> COMMITTED" "PRIMARY \<noteq> SECONDARY" "SECONDARY \<noteq> PRIMARY"
  by (simp_all add: file_names)

text \<open>The verified contents of a file, \<open>None\<close> when there are none.\<close>

definition blob :: "'raw file_env \<Rightarrow> ('h, 'raw) world \<Rightarrow> string \<Rightarrow> selector_blob option" where
  "blob env w n = (case read_verified env (w_files w) n of Ok b \<Rightarrow> b | Err _ \<Rightarrow> None)"

definition readable :: "('h, 'raw) world \<Rightarrow> string \<Rightarrow> bool" where
  "readable w n \<longleftrightarrow> sf_file (w_files w) n \<noteq> IoError"

lemma read_verified_blob: "readable w n \<Longrightarrow> read_verified env (w_files w) n = Ok (blob env w n)"
  by (simp add: readable_def blob_def read_verified_def read_blob_def split: file_state.split)

definition put_side :: "'raw file_env \<Rightarrow> string \<Rightarrow> selector_blob \<Rightarrow> ('h, 'raw) world \<Rightarrow> ('h, 'raw) world" where
  "put_side env n b w = w\<lparr>w_files := put_file env n b (w_files w)\<rparr>"

lemma put_side_host [simp]: "w_host (put_side env n b w) = w_host w"
  by (simp add: put_side_def)

lemma put_side_faults [simp]: "sf_faults (w_files (put_side env n b w)) = sf_faults (w_files w)"
  by (simp add: put_side_def put_file_def)

lemma put_side_readable [simp]: "readable (put_side env n b w) m \<longleftrightarrow> m = n \<or> readable w m"
  by (simp add: put_side_def put_file_def readable_def)

lemma put_side_blob:
  assumes "env_ok env" "is_valid (fe_sha env) (fe_signer env) b"
  shows "blob env (put_side env n b w) m = (if m = n then Some b else blob env w m)"
  using assms by (simp add: blob_def read_verified_def read_blob_def put_side_def put_file_def env_ok_def)

lemma write_side_ok: "sf_faults (w_files w) = [] \<Longrightarrow> write_side env n b w = (put_side env n b w, Ok ())"
  by (simp add: write_side_def write_blob_def put_side_def)

text \<open>The rows of a side file at a generation.\<close>

definition rows :: "'raw file_env \<Rightarrow> ('h, 'raw) world \<Rightarrow> string \<Rightarrow> u64 \<Rightarrow> entries option" where
  "rows env w n g = map_option sb_entries (opt_filter (\<lambda>b. sb_generation b = g) (blob env w n))"

definition rows2 :: "'raw file_env \<Rightarrow> ('h, 'raw) world \<Rightarrow> string \<Rightarrow> string \<Rightarrow> u64 \<Rightarrow> entries option" where
  "rows2 env w n m g = (case rows env w n g of Some r \<Rightarrow> Some r | None \<Rightarrow> rows env w m g)"

lemma rows_at_eq: "readable w n \<Longrightarrow> rows_at env w n g = Ok (rows env w n g)"
  by (simp add: rows_at_def rows_def read_verified_blob)

lemma first_rows_at_eq:
  "readable w n \<Longrightarrow> readable w m \<Longrightarrow> first_rows_at env w [n, m] g = Ok (rows2 env w n m g)"
  by (simp add: rows_at_eq rows2_def split: option.split)

lemma rows2_cong:
  "rows env w' n g = rows env w n g \<Longrightarrow> rows env w' m g = rows env w m g \<Longrightarrow>
    rows2 env w' n m g = rows2 env w n m g"
  unfolding rows2_def by (simp only:)

lemma put_side_rows:
  assumes "env_ok env" "is_valid (fe_sha env) (fe_signer env) b"
  shows "rows env (put_side env n b w) m g =
    (if m = n then (if sb_generation b = g then Some (sb_entries b) else None) else rows env w m g)"
  by (simp add: rows_def put_side_blob [OF assms])

lemmas put_signed = put_side_blob [OF _ signed_valid] put_side_rows [OF _ signed_valid]

lemma union_partition:
  "union_rows \<lparr>bv_generation = g, bv_entries = fmfilter P es\<rparr> (fmfilter (\<lambda>i. \<not> P i) es) =
     \<lparr>bv_generation = g, bv_entries = es\<rparr>"
proof -
  have "fmfilter (\<lambda>i. \<not> P i) es ++\<^sub>f fmfilter P es = es"
    by (rule fmap_ext) (auto simp: fmlookup_dom_iff)
  then show ?thesis by (simp add: union_rows_def)
qed

lemma union_generation [simp]: "bv_generation (union_rows r rs) = bv_generation r"
  by (simp add: union_rows_def)

section \<open>The contract of a record\<close>

text \<open>A copy of the record as an option (\<open>None\<close> also when it cannot be read).\<close>

definition copy_of ::
    "('h, 'raw) boot_record_ops \<Rightarrow> ('h, 'raw) world \<Rightarrow> record_copy \<Rightarrow> boot_vector option" where
  "copy_of rc w c = (case br_read rc w c of Ok v \<Rightarrow> v | Err _ \<Rightarrow> None)"

definition record_top :: "('h, 'raw) boot_record_ops \<Rightarrow> ('h, 'raw) world \<Rightarrow> u64" where
  "record_top rc w = max (vec_generation (copy_of rc w Primary)) (vec_generation (copy_of rc w Secondary))"

definition sides_same :: "('h, 'raw) world \<Rightarrow> ('h, 'raw) world \<Rightarrow> bool" where
  "sides_same w w' \<longleftrightarrow> (\<forall>n \<in> side_names. sf_file (w_files w') n = sf_file (w_files w) n)"

locale boot_record =
  fixes env :: "'raw file_env" and rc :: "('h, 'raw) boot_record_ops" and rinv :: "('h, 'raw) world \<Rightarrow> bool"
  assumes env: "rinv w \<Longrightarrow> env_ok env"
    and no_faults: "rinv w \<Longrightarrow> sf_faults (w_files w) = []"
    and readable_copy: "rinv w \<Longrightarrow> is_ok (br_read rc w c)"
    and no_legacy: "rinv w \<Longrightarrow> br_legacy_transaction rc w = None"
    and side_files: "rinv w \<Longrightarrow> n \<in> side_names \<Longrightarrow>
       rinv (put_side env n b w) \<and> copy_of rc (put_side env n b w) c = copy_of rc w c"
    and record_activate: "rinv w \<Longrightarrow> record_top rc w \<noteq> -1 \<Longrightarrow>
       \<exists>w' g. br_activate rc w rs = (w', Ok g) \<and> rinv w' \<and> sides_same w w' \<and> record_top rc w < g
         \<and> copy_of rc w' Primary = Some \<lparr>bv_generation = g, bv_entries = rs\<rparr>
         \<and> copy_of rc w' Secondary = copy_of rc w Secondary"
    and record_commit: "rinv w \<Longrightarrow> copy_of rc w Primary = Some p \<Longrightarrow>
       \<exists>w'. br_commit rc w = (w', Ok ()) \<and> rinv w' \<and> sides_same w w'
         \<and> copy_of rc w' Primary = Some p \<and> copy_of rc w' Secondary = Some p"
    and record_rollback: "rinv w \<Longrightarrow> copy_of rc w Secondary = Some s \<Longrightarrow>
       map_option bv_generation (copy_of rc w Primary) \<noteq> Some (bv_generation s) \<Longrightarrow>
       \<exists>w'. br_rollback rc w = (w', Ok (bv_generation s)) \<and> rinv w' \<and> sides_same w w'
         \<and> copy_of rc w' Primary = Some s \<and> copy_of rc w' Secondary = Some s"

lemma sides_same_blob: "sides_same w w' \<Longrightarrow> n \<in> side_names \<Longrightarrow> blob env w' n = blob env w n"
  by (simp add: sides_same_def blob_def read_verified_def read_blob_def)

lemma sides_same_readable: "sides_same w w' \<Longrightarrow> n \<in> side_names \<Longrightarrow> readable w' n = readable w n"
  by (simp add: sides_same_def readable_def)

lemma sides_same_rows: "sides_same w w' \<Longrightarrow> n \<in> side_names \<Longrightarrow> rows env w' n g = rows env w n g"
  by (simp add: rows_def sides_same_blob)

section \<open>The adapter's invariant\<close>

text \<open>
  The side files follow the record: the manager rows exist at the generation of each copy, at
  one generation there is one vector, and the header is for the primary.
\<close>

definition header_of :: "'raw file_env \<Rightarrow> ('h, 'raw) world \<Rightarrow> (u64 \<times> transaction) option" where
  "header_of env w =
     (case blob env w TRANSACTION of
        None \<Rightarrow> None | Some b \<Rightarrow> map_option (\<lambda>t. (sb_generation b, t)) (sb_transaction b))"

definition rs_inv ::
    "'raw file_env \<Rightarrow> ('h, 'raw) boot_record_ops \<Rightarrow> (('h, 'raw) world \<Rightarrow> bool) \<Rightarrow> ('h, 'raw) world \<Rightarrow> bool" where
  "rs_inv env rc rinv w \<longleftrightarrow> rinv w \<and> (\<forall>n \<in> side_names. readable w n)
     \<and> (\<forall>p. copy_of rc w Primary = Some p \<longrightarrow> rows2 env w ROWS COMMITTED (bv_generation p) \<noteq> None)
     \<and> (\<forall>s. copy_of rc w Secondary = Some s \<longrightarrow> rows env w COMMITTED (bv_generation s) \<noteq> None)
     \<and> (\<forall>p s. copy_of rc w Primary = Some p \<longrightarrow> copy_of rc w Secondary = Some s \<longrightarrow>
          bv_generation p = bv_generation s \<longrightarrow>
          p = s \<and> rows2 env w ROWS COMMITTED (bv_generation p) = rows env w COMMITTED (bv_generation s))
     \<and> (\<forall>g h. header_of env w = Some (g, h) \<longrightarrow>
          map_option bv_generation (copy_of rc w Primary) = Some g)"

definition whole_primary :: "'raw file_env \<Rightarrow> ('h, 'raw) boot_record_ops \<Rightarrow> ('h, 'raw) world \<Rightarrow> boot_vector option" where
  "whole_primary env rc w = map_option
     (\<lambda>p. union_rows p (the (rows2 env w ROWS COMMITTED (bv_generation p)))) (copy_of rc w Primary)"

definition whole_secondary :: "'raw file_env \<Rightarrow> ('h, 'raw) boot_record_ops \<Rightarrow> ('h, 'raw) world \<Rightarrow> boot_vector option" where
  "whole_secondary env rc w = map_option
     (\<lambda>s. union_rows s (the (rows env w COMMITTED (bv_generation s)))) (copy_of rc w Secondary)"

lemma vec_generation_copies:
  "vec_generation (whole_primary env rc w) = vec_generation (copy_of rc w Primary)"
  "vec_generation (whole_secondary env rc w) = vec_generation (copy_of rc w Secondary)"
  by (simp_all add: whole_primary_def whole_secondary_def vec_generation_def split: option.split)

lemma header_put_rows [simp]:
  "n \<noteq> TRANSACTION \<Longrightarrow> env_ok env \<Longrightarrow> header_of env (put_side env n (sf_sign env g rs t) w) = header_of env w"
  by (simp add: header_of_def put_signed)

lemma header_put_header [simp]:
  "env_ok env \<Longrightarrow> header_of env (put_side env TRANSACTION (sf_sign env g rs (Some h)) w) = Some (g, h)"
  by (simp add: header_of_def put_signed)

context boot_record
begin

lemma br_read_copy: "rinv w \<Longrightarrow> br_read rc w c = Ok (copy_of rc w c)"
  using readable_copy [of w c] by (auto simp: copy_of_def is_ok_def split: sum.splits)

lemma br_generation_copy: "rinv w \<Longrightarrow> br_generation rc w c = Ok (map_option bv_generation (copy_of rc w c))"
  by (simp add: br_generation_def br_read_copy)

lemma view_whole:
  assumes "rs_inv env rc rinv w"
  shows "rs_read_primary env rc w = Ok (whole_primary env rc w)"
    and "rs_read_secondary env rc w = Ok (whole_secondary env rc w)"
    and "rs_read_transaction env rc w = header_of env w"
proof -
  have w: "rinv w" "readable w ROWS" "readable w COMMITTED" "readable w TRANSACTION"
    using assms by (simp_all add: rs_inv_def)
  show "rs_read_primary env rc w = Ok (whole_primary env rc w)"
    using assms w
    by (cases "copy_of rc w Primary")
       (auto simp: rs_read_primary_def whole_primary_def br_read_copy first_rows_at_eq rs_inv_def
         simp del: first_rows_at.simps)
  show "rs_read_secondary env rc w = Ok (whole_secondary env rc w)"
    using assms w
    by (cases "copy_of rc w Secondary")
       (auto simp: rs_read_secondary_def whole_secondary_def br_read_copy rows_at_eq rs_inv_def)
  show "rs_read_transaction env rc w = header_of env w"
  proof (cases "header_of env w")
    case None
    then show ?thesis
      using w no_legacy [OF w(1)]
      by (auto simp: rs_read_transaction_def attributed_transaction_def read_verified_blob header_of_def
          split: option.splits)
  next
    case (Some gh)
    then have "map_option bv_generation (copy_of rc w Primary) = Some (fst gh)"
      using assms by (cases gh) (simp add: rs_inv_def)
    then show ?thesis
      using w Some
      by (auto simp: rs_read_transaction_def attributed_transaction_def read_verified_blob header_of_def
          br_generation_copy split: option.splits)
  qed
qed

lemma adapter_activate:
  assumes "rs_inv env rc rinv w" "record_top rc w \<noteq> -1"
  shows "\<exists>w' g. rs_activate env rc w es h = (w', Ok g) \<and> rs_inv env rc rinv w' \<and> record_top rc w < g
    \<and> whole_primary env rc w' = Some \<lparr>bv_generation = g, bv_entries = es\<rparr>
    \<and> whole_secondary env rc w' = whole_secondary env rc w \<and> header_of env w' = Some (g, h)"
proof -
  have w: "rinv w" and rd: "\<forall>n \<in> side_names. readable w n"
    using assms(1) by (simp_all add: rs_inv_def)
  note ok = env [OF w]
  let ?rr = "fmfilter (br_routes rc w) es" and ?mr = "fmfilter (\<lambda>i. \<not> br_routes rc w i) es"
  obtain w1 g where w1: "br_activate rc w ?rr = (w1, Ok g)" "rinv w1" "sides_same w w1" "record_top rc w < g"
      "copy_of rc w1 Primary = Some \<lparr>bv_generation = g, bv_entries = ?rr\<rparr>"
      "copy_of rc w1 Secondary = copy_of rc w Secondary"
    using record_activate [OF w assms(2)] by blast
  define w2 where "w2 = put_side env ROWS (sf_sign env g ?mr None) w1"
  define w3 where "w3 = put_side env TRANSACTION (sf_sign env g fmempty (Some h)) w2"
  have inv: "rinv w2" "rinv w3" and cp: "copy_of rc w3 c = copy_of rc w1 c" for c
    using side_files w1(2) by (simp_all add: w2_def w3_def)
  have r: "rs_activate env rc w es h = (w3, Ok g)"
    using w1(1) no_faults [OF w1(2)] no_faults [OF inv(1)]
    by (simp add: rs_activate_def br_generation_copy [OF w] write_rows_def write_header_def write_side_ok
        Let_def flip: w2_def w3_def)
  have c: "rows env w3 COMMITTED k = rows env w COMMITTED k" and rw: "rows env w3 ROWS g = Some ?mr" for k
    by (simp_all add: w3_def w2_def put_signed ok sides_same_rows [OF w1(3)])
  have hd: "header_of env w3 = Some (g, h)" by (simp add: w3_def ok)
  have p: "whole_primary env rc w3 = Some \<lparr>bv_generation = g, bv_entries = es\<rparr>"
    by (simp add: whole_primary_def cp w1(5) rows2_def rw union_partition)
  have q: "whole_secondary env rc w3 = whole_secondary env rc w"
    by (simp add: whole_secondary_def cp w1(6) c)
  have above: "bv_generation s \<noteq> g" if "copy_of rc w Secondary = Some s" for s
    using w1(4) that by (auto simp: record_top_def)
  have rd3: "\<forall>n \<in> side_names. readable w3 n"
    using rd by (simp add: w3_def w2_def sides_same_readable [OF w1(3)])
  have "rs_inv env rc rinv w3"
    unfolding rs_inv_def cp w1(5,6) hd
  proof (intro conjI allI impI)
    fix s assume "copy_of rc w Secondary = Some s"
    then show "rows env w3 COMMITTED (bv_generation s) \<noteq> None"
      using assms(1) by (simp add: c rs_inv_def)
  qed (use inv(2) rd3 rw above in \<open>auto simp: rows2_def\<close>)
  with r p q hd w1(4) show ?thesis by blast
qed

lemma adapter_commit:
  assumes "rs_inv env rc rinv w" "copy_of rc w Primary = Some p"
  shows "\<exists>w'. rs_commit env rc w = (w', Ok ()) \<and> rs_inv env rc rinv w'
    \<and> whole_primary env rc w' = whole_primary env rc w
    \<and> whole_secondary env rc w' = whole_primary env rc w \<and> header_of env w' = header_of env w"
proof -
  have w: "rinv w" and rd: "\<forall>n \<in> side_names. readable w n"
    using assms(1) by (simp_all add: rs_inv_def)
  note ok = env [OF w]
  obtain w1 where w1: "br_commit rc w = (w1, Ok ())" "rinv w1" "sides_same w w1"
      "copy_of rc w1 Primary = Some p" "copy_of rc w1 Secondary = Some p"
    using record_commit [OF w assms(2)] by blast
  let ?g = "bv_generation p"
  obtain rs where rs: "rows2 env w ROWS COMMITTED ?g = Some rs"
    using assms by (auto simp: rs_inv_def)
  have rs1: "rows2 env w1 ROWS COMMITTED ?g = Some rs"
    using rs rows2_cong [of env w1 ROWS ?g w COMMITTED] by (simp add: sides_same_rows [OF w1(3)])
  have rd1: "\<forall>n \<in> side_names. readable w1 n"
    using rd by (simp add: sides_same_readable [OF w1(3)])
  define w2 where "w2 = put_side env COMMITTED (sf_sign env ?g rs None) w1"
  have inv: "rinv w2" and cp: "copy_of rc w2 c = Some p" for c
    using side_files [OF w1(2)] w1(4,5) by (cases c; simp add: w2_def)+
  have r: "rs_commit env rc w = (w2, Ok ())"
    using w1(1) no_faults [OF w1(2)] rs1 rd1 assms(2)
    by (simp add: rs_commit_def br_generation_copy [OF w] first_rows_at_eq required_def write_rows_def
        write_side_ok del: first_rows_at.simps flip: w2_def)
  have c: "rows env w2 COMMITTED ?g = Some rs" "rows env w2 ROWS k = rows env w ROWS k" for k
    by (simp_all add: w2_def put_signed ok sides_same_rows [OF w1(3)])
  have c2: "rows2 env w2 ROWS COMMITTED ?g = Some rs"
    using rs c by (auto simp: rows2_def split: option.splits)
  have hd: "header_of env w2 = header_of env w"
    by (simp add: w2_def ok header_of_def put_signed sides_same_blob [OF w1(3)])
  have "rs_inv env rc rinv w2"
    unfolding rs_inv_def cp hd using inv rd1 c(1) c2 assms by (auto simp: w2_def rs_inv_def)
  moreover have "whole_primary env rc w2 = whole_primary env rc w" "whole_secondary env rc w2 = whole_primary env rc w"
    using rs c2 c(1) assms(2) by (simp_all add: whole_primary_def whole_secondary_def cp)
  ultimately show ?thesis using r hd by blast
qed

lemma adapter_rollback:
  assumes "rs_inv env rc rinv w" "copy_of rc w Secondary = Some s"
    and "map_option bv_generation (copy_of rc w Primary) \<noteq> Some (bv_generation s)"
  shows "\<exists>w'. rs_rollback env rc w h = (w', Ok (bv_generation s)) \<and> rs_inv env rc rinv w'
    \<and> whole_primary env rc w' = whole_secondary env rc w
    \<and> whole_secondary env rc w' = whole_secondary env rc w
    \<and> header_of env w' = Some (bv_generation s, h)"
proof -
  have w: "rinv w" and rd: "\<forall>n \<in> side_names. readable w n"
    using assms(1) by (simp_all add: rs_inv_def)
  note ok = env [OF w]
  let ?g = "bv_generation s"
  obtain rs where rs: "rows env w COMMITTED ?g = Some rs"
    using assms by (auto simp: rs_inv_def)
  define w1 where "w1 = put_side env TRANSACTION (sf_sign env ?g fmempty (Some h)) w"
  have inv1: "rinv w1" and cp1: "copy_of rc w1 c = copy_of rc w c" for c
    using side_files [OF w] by (simp_all add: w1_def)
  obtain w2 where w2: "br_rollback rc w1 = (w2, Ok ?g)" "rinv w2" "sides_same w1 w2"
      "copy_of rc w2 Primary = Some s" "copy_of rc w2 Secondary = Some s"
    using record_rollback [OF inv1] assms(2,3) cp1 by auto
  define w3 where "w3 = put_side env ROWS (sf_sign env ?g rs None) w2"
  have inv3: "rinv w3" and cp3: "copy_of rc w3 c = Some s" for c
    using side_files [OF w2(2)] w2(4,5) by (cases c; simp add: w3_def)+
  have r: "rs_rollback env rc w h = (w3, Ok ?g)"
    using w2(1) no_faults [OF w] no_faults [OF w2(2)] rs rd assms(2,3)
    by (simp add: rs_rollback_def br_generation_copy [OF w] first_rows_at_eq rows2_def required_def
        write_rows_def write_header_def write_side_ok del: first_rows_at.simps flip: w1_def w3_def)
  have c: "rows env w3 COMMITTED ?g = Some rs" "rows env w3 ROWS ?g = Some rs"
    using rs by (simp_all add: w3_def w1_def put_signed ok sides_same_rows [OF w2(3)])
  have hd: "header_of env w3 = Some (?g, h)"
    by (simp add: w3_def ok header_of_def put_signed sides_same_blob [OF w2(3)]) (simp add: w1_def put_signed ok)
  have "\<forall>n \<in> side_names. readable w3 n"
    using rd by (simp add: w3_def sides_same_readable [OF w2(3)] w1_def)
  then have "rs_inv env rc rinv w3"
    unfolding rs_inv_def cp3 hd using inv3 c by (auto simp: rows2_def)
  moreover have "whole_primary env rc w3 = whole_secondary env rc w" "whole_secondary env rc w3 = whole_secondary env rc w"
    using rs c assms(2) by (simp_all add: whole_primary_def whole_secondary_def cp3 rows2_def)
  ultimately show ?thesis using r hd by blast
qed

lemma adapter_header:
  assumes "rs_inv env rc rinv w" "whole_primary env rc w = Some v"
  shows "\<exists>w'. write_header env (bv_generation v) h w = (w', Ok ()) \<and> rs_inv env rc rinv w'
    \<and> whole_primary env rc w' = Some v \<and> whole_secondary env rc w' = whole_secondary env rc w
    \<and> header_of env w' = Some (bv_generation v, h)"
proof -
  have w: "rinv w" using assms(1) by (simp add: rs_inv_def)
  note ok = env [OF w]
  define w1 where "w1 = put_side env TRANSACTION (sf_sign env (bv_generation v) fmempty (Some h)) w"
  have inv1: "rinv w1" and cp1: "copy_of rc w1 c = copy_of rc w c" for c
    using side_files [OF w] by (simp_all add: w1_def)
  have r: "rows env w1 n g = rows env w n g" if "n \<noteq> TRANSACTION" for n g
    using that by (simp add: w1_def put_signed ok)
  have r2: "rows2 env w1 ROWS COMMITTED g = rows2 env w ROWS COMMITTED g" for g
    by (rule rows2_cong) (simp_all add: r)
  have hd: "header_of env w1 = Some (bv_generation v, h)" by (simp add: w1_def ok)
  have g: "map_option bv_generation (copy_of rc w Primary) = Some (bv_generation v)"
    using assms(2) by (auto simp: whole_primary_def)
  have "rs_inv env rc rinv w1"
    using assms(1) inv1 unfolding rs_inv_def cp1 hd by (simp add: r r2 g) (simp add: w1_def)
  moreover have "whole_primary env rc w1 = Some v" "whole_secondary env rc w1 = whole_secondary env rc w"
    using assms(2) by (simp_all add: whole_primary_def whole_secondary_def cp1 r r2)
  ultimately show ?thesis
    using hd no_faults [OF w] by (simp add: write_header_def write_side_ok flip: w1_def)
qed

end

section \<open>The adapter is a selector store\<close>

lemma record_store_ops_simps [simp]:
  "st_read_primary (record_store_ops env rc) = rs_read_primary env rc"
  "st_read_secondary (record_store_ops env rc) = rs_read_secondary env rc"
  "st_read_transaction (record_store_ops env rc) = rs_read_transaction env rc"
  "st_activate (record_store_ops env rc) = rs_activate env rc"
  "st_commit (record_store_ops env rc) = rs_commit env rc"
  "st_rollback (record_store_ops env rc) = rs_rollback env rc"
  "st_write_transaction (record_store_ops env rc) = (\<lambda>w g h. write_header env g h w)"
  by (simp_all add: record_store_ops_def)

context boot_record
begin

lemma view_record:
  "rs_inv env rc rinv w \<Longrightarrow> view (record_store_ops env rc) w =
     \<lparr>vs_primary = whole_primary env rc w, vs_secondary = whole_secondary env rc w,
      vs_header = header_of env w\<rparr>"
  by (simp add: view_def view_whole)

lemma view_top: "rs_inv env rc rinv w \<Longrightarrow> v_top (view (record_store_ops env rc) w) = record_top rc w"
  by (simp add: view_record v_top_def record_top_def vec_generation_copies)

lemma adapter_commit_none:
  assumes "rs_inv env rc rinv w" "copy_of rc w Primary = None"
  shows "rs_commit env rc w = (w, Ok ())"
proof -
  have "rinv w" using assms(1) by (simp add: rs_inv_def)
  then show ?thesis using assms(2) by (simp add: rs_commit_def br_generation_copy)
qed

text \<open>Without a committed copy of another generation a rollback is refused and nothing is written.\<close>

lemma adapter_rollback_none:
  assumes "rs_inv env rc rinv w"
    and "\<And>s. copy_of rc w Secondary = Some s \<Longrightarrow>
      map_option bv_generation (copy_of rc w Primary) = Some (bv_generation s)"
  shows "rs_rollback env rc w h = (w, Err NoTrial)"
proof -
  have "rinv w" using assms(1) by (simp add: rs_inv_def)
  then show ?thesis
    using assms(2) by (cases "copy_of rc w Secondary") (simp_all add: rs_rollback_def br_generation_copy)
qed

lemma v_rollback_record:
  assumes "rs_inv env rc rinv w" "copy_of rc w Secondary = Some s"
    and "map_option bv_generation (copy_of rc w Primary) \<noteq> Some (bv_generation s)"
  shows "v_rollback h (view (record_store_ops env rc) w) = Some (bv_generation s,
    \<lparr>vs_primary = whole_secondary env rc w, vs_secondary = whole_secondary env rc w,
     vs_header = Some (bv_generation s, h)\<rparr>)"
proof -
  obtain v where v: "whole_secondary env rc w = Some v" "bv_generation v = bv_generation s"
    using assms(2) by (simp add: whole_secondary_def)
  have "whole_primary env rc w \<noteq> Some v"
    using assms(3) v(2) by (auto simp: whole_primary_def)
  then show ?thesis
    using v by (simp add: view_record [OF assms(1)] v_rollback_def)
qed

text \<open>The four verbs as the store contract states them.\<close>

lemma store_activate:
  assumes "rs_inv env rc rinv w" "v_top (view (record_store_ops env rc) w) \<noteq> -1"
    and "rs_activate env rc w es h = (w', r)"
  shows "\<exists>g. r = Ok g \<and> rs_inv env rc rinv w'
    \<and> view (record_store_ops env rc) w' = v_activate g es h (view (record_store_ops env rc) w)
    \<and> v_top (view (record_store_ops env rc) w) < g"
proof -
  from assms obtain g where "r = Ok g" "rs_inv env rc rinv w'" "record_top rc w < g"
      "whole_primary env rc w' = Some \<lparr>bv_generation = g, bv_entries = es\<rparr>"
      "whole_secondary env rc w' = whole_secondary env rc w" "header_of env w' = Some (g, h)"
    using adapter_activate [OF assms(1), of es h] by (auto simp: view_top)
  then show ?thesis
    using view_top [OF assms(1)] by (simp add: view_record assms(1) v_activate_def)
qed

lemma store_commit:
  assumes "rs_inv env rc rinv w" "rs_commit env rc w = (w', r)"
  shows "r = Ok () \<and> rs_inv env rc rinv w'
    \<and> view (record_store_ops env rc) w' = v_commit (view (record_store_ops env rc) w)"
  using adapter_commit [OF assms(1)] adapter_commit_none [OF assms(1)] assms
  by (cases "copy_of rc w Primary") (auto simp: view_record v_commit_def whole_primary_def)

lemma store_rollback:
  assumes "rs_inv env rc rinv w" "rs_rollback env rc w h = (w', r)"
  shows "(\<exists>g. r = Ok g \<and> rs_inv env rc rinv w'
      \<and> v_rollback h (view (record_store_ops env rc) w) = Some (g, view (record_store_ops env rc) w'))
    \<or> (r = Err NoTrial \<and> w' = w)"
proof (cases "\<exists>s. copy_of rc w Secondary = Some s
      \<and> map_option bv_generation (copy_of rc w Primary) \<noteq> Some (bv_generation s)")
  case True
  then obtain s where s: "copy_of rc w Secondary = Some s"
    "map_option bv_generation (copy_of rc w Primary) \<noteq> Some (bv_generation s)" by blast
  then show ?thesis
    using adapter_rollback [OF assms(1) s, of h] v_rollback_record [OF assms(1) s, of h] assms(2)
    by (auto simp: view_record)
next
  case False
  then show ?thesis using adapter_rollback_none [OF assms(1), of h] assms(2) by auto
qed

lemma store_header:
  assumes "rs_inv env rc rinv w" "vs_primary (view (record_store_ops env rc) w) = Some p"
    and "write_header env (bv_generation p) h w = (w', r)"
  shows "r = Ok () \<and> rs_inv env rc rinv w' \<and> view (record_store_ops env rc) w' =
    (view (record_store_ops env rc) w)\<lparr>vs_header := Some (bv_generation p, h)\<rparr>"
  using adapter_header [OF assms(1), of p h] assms by (auto simp: view_record)

end

sublocale boot_record \<subseteq> store: selector_store "record_store_ops env rc" "rs_inv env rc rinv"
  by unfold_locales
     (auto simp: view_whole dest: store_activate store_commit store_rollback store_header)

section \<open>The file record keeps the contract\<close>

definition file_inv :: "'raw file_env \<Rightarrow> (file_host, 'raw) world \<Rightarrow> bool" where
  "file_inv env w \<longleftrightarrow> env_ok env \<and> sf_faults (w_files w) = [] \<and> readable w PRIMARY \<and> readable w SECONDARY
     \<and> (\<forall>b. blob env w PRIMARY = Some b \<longrightarrow> sb_transaction b = None)"

lemma file_record_ops_simps [simp]:
  "br_read (file_record_ops env) = file_read env" "br_activate (file_record_ops env) = file_activate env"
  "br_commit (file_record_ops env) = file_commit env" "br_rollback (file_record_ops env) = file_rollback env"
  "br_legacy_transaction (file_record_ops env) = file_legacy_transaction env"
  "br_routes (file_record_ops env) = (\<lambda>_ _. True)" "br_routes_everything (file_record_ops env)"
  by (simp_all add: file_record_ops_def)

definition blob_vector :: "selector_blob \<Rightarrow> boot_vector" where
  "blob_vector b = \<lparr>bv_generation = sb_generation b, bv_entries = sb_entries b\<rparr>"

lemma file_read_blob:
  "readable w (copy_name c) \<Longrightarrow> file_read env w c = Ok (map_option blob_vector (blob env w (copy_name c)))"
  by (simp add: file_read_def read_verified_blob blob_vector_def [abs_def])

lemma file_copy: "file_inv env w \<Longrightarrow> copy_of (file_record_ops env) w c = map_option blob_vector (blob env w (copy_name c))"
  by (cases c) (simp_all add: copy_of_def file_read_blob file_inv_def)

definition copy_blob :: "'raw file_env \<Rightarrow> file_host \<Rightarrow> u64 \<Rightarrow> entries \<Rightarrow> selector_blob" where
  "copy_blob env host g es = (sf_sign env g es None)\<lparr>sb_selectors := map_option (\<lambda>m. legacy_slots m es) host\<rparr>"

lemma copy_blob_sel [simp]:
  "blob_vector (copy_blob env host g es) = \<lparr>bv_generation = g, bv_entries = es\<rparr>"
  "sb_transaction (copy_blob env host g es) = None"
  by (simp_all add: copy_blob_def blob_vector_def)

lemma write_copy_ok:
  "sf_faults (w_files w) = [] \<Longrightarrow>
    write_copy env w c g es = (put_side env (copy_name c) (copy_blob env (w_host w) g es) w, Ok ())"
  by (simp add: write_copy_def write_side_ok copy_blob_def Let_def)

lemma put_copy_blob:
  "env_ok env \<Longrightarrow> blob env (put_side env n (copy_blob env host g es) w) m =
    (if m = n then Some (copy_blob env host g es) else blob env w m)"
  unfolding copy_blob_def by (rule put_side_blob [OF _ signed_map_valid])

lemma put_copy_inv:
  "file_inv env w \<Longrightarrow> file_inv env (put_side env (copy_name c) (copy_blob env host g es) w)"
  by (cases c) (auto simp: file_inv_def put_copy_blob)

lemma put_copy_sides: "sides_same w (put_side env (copy_name c) b w)"
  by (cases c) (auto simp: sides_same_def put_side_def put_file_def)

lemma put_copy_of:
  "file_inv env w \<Longrightarrow> copy_of (file_record_ops env) (put_side env (copy_name c) (copy_blob env host g es) w) d =
    (if d = c then Some \<lparr>bv_generation = g, bv_entries = es\<rparr> else copy_of (file_record_ops env) w d)"
  by (cases c; cases d) (simp_all add: file_copy put_copy_inv put_copy_blob file_inv_def)

lemma put_side_file:
  assumes "file_inv env w" "n \<in> side_names"
  shows "file_inv env (put_side env n b w)
    \<and> copy_of (file_record_ops env) (put_side env n b w) c = copy_of (file_record_ops env) w c"
proof -
  have "copy_name d \<noteq> n" for d using assms(2) by (cases d) auto
  then have bl: "blob env (put_side env n b w) (copy_name d) = blob env w (copy_name d)" for d
    by (simp add: blob_def read_verified_def read_blob_def put_side_def put_file_def)
  have "file_inv env (put_side env n b w)"
    using assms(1) bl [of Primary] by (auto simp: file_inv_def)
  then show ?thesis using assms(1) bl by (simp add: file_copy)
qed

lemma file_write_copy:
  assumes "file_inv env w"
  obtains w' where "write_copy env w c g es = (w', Ok ())" "file_inv env w'" "sides_same w w'"
    "\<And>d. copy_of (file_record_ops env) w' d =
       (if d = c then Some \<lparr>bv_generation = g, bv_entries = es\<rparr> else copy_of (file_record_ops env) w d)"
  using assms write_copy_ok [of w env c g es] put_copy_inv [OF assms, of c] put_copy_sides [of w env c]
    put_copy_of [OF assms, of c] that by (simp add: file_inv_def [of env w])

lemma file_read_copy: "file_inv env w \<Longrightarrow> file_read env w c = Ok (copy_of (file_record_ops env) w c)"
  by (cases c) (simp_all add: file_read_blob file_copy, simp_all add: file_inv_def file_read_blob)

interpretation file_rec: boot_record env "file_record_ops env" "file_inv env" for env :: "'raw file_env"
proof unfold_locales
  fix w :: "(file_host, 'raw) world" and c n b rs
  assume w: "file_inv env w"
  then show "env_ok env" "sf_faults (w_files w) = []" by (simp_all add: file_inv_def)
  show "is_ok (br_read (file_record_ops env) w c)"
    using w by (cases c) (simp_all add: file_read_blob file_inv_def)
  show "br_legacy_transaction (file_record_ops env) w = None"
    using w by (auto simp: file_legacy_transaction_def read_verified_blob file_inv_def split: option.split)
  show "n \<in> side_names \<Longrightarrow> file_inv env (put_side env n b w)
      \<and> copy_of (file_record_ops env) (put_side env n b w) c = copy_of (file_record_ops env) w c"
    by (rule put_side_file [OF w])
  note rd = file_read_copy [OF w]
  let ?p = "copy_of (file_record_ops env) w Primary" and ?s = "copy_of (file_record_ops env) w Secondary"
  show "\<exists>w' g. br_activate (file_record_ops env) w rs = (w', Ok g) \<and> file_inv env w' \<and> sides_same w w'
      \<and> record_top (file_record_ops env) w < g
      \<and> copy_of (file_record_ops env) w' Primary = Some \<lparr>bv_generation = g, bv_entries = rs\<rparr>
      \<and> copy_of (file_record_ops env) w' Secondary = ?s"
    if "record_top (file_record_ops env) w \<noteq> -1"
    using that next_generation_above [of ?p ?s]
    by - (rule file_write_copy [OF w, of Primary "next_generation ?p ?s" rs], simp add: file_activate_def rd record_top_def)
  show "\<exists>w'. br_commit (file_record_ops env) w = (w', Ok ()) \<and> file_inv env w' \<and> sides_same w w'
      \<and> copy_of (file_record_ops env) w' Primary = Some p \<and> copy_of (file_record_ops env) w' Secondary = Some p"
    if "?p = Some p" for p
    using that by - (rule file_write_copy [OF w, of Secondary "bv_generation p" "bv_entries p"], simp add: file_commit_def rd)
  show "\<exists>w'. br_rollback (file_record_ops env) w = (w', Ok (bv_generation s)) \<and> file_inv env w' \<and> sides_same w w'
      \<and> copy_of (file_record_ops env) w' Primary = Some s \<and> copy_of (file_record_ops env) w' Secondary = Some s"
    if "?s = Some s" "map_option bv_generation ?p \<noteq> Some (bv_generation s)" for s
    using that by - (rule file_write_copy [OF w, of Primary "bv_generation s" "bv_entries s"], auto simp: file_rollback_def rd)
qed

section \<open>The in-memory record keeps the contract\<close>

definition mem_inv :: "'raw file_env \<Rightarrow> (mem_record, 'raw) world \<Rightarrow> bool" where
  "mem_inv env w \<longleftrightarrow> env_ok env \<and> sf_faults (w_files w) = [] \<and> \<not> mr_fail_reads (w_host w)
     \<and> \<not> mr_fail_writes (w_host w) \<and> mr_next_generation (w_host w) = None"

lemma mem_record_ops_simps [simp]:
  "br_read mem_record_ops w = mr_read (w_host w)"
  "br_activate mem_record_ops w rs = on_host (\<lambda>r. mr_activate r rs) w"
  "br_commit mem_record_ops = on_host mr_commit" "br_rollback mem_record_ops = on_host mr_rollback"
  "br_legacy_transaction mem_record_ops w = None" "\<not> br_routes_everything mem_record_ops"
  "br_routes mem_record_ops w i \<longleftrightarrow> i \<in> set (mr_routed (w_host w))"
  by (simp_all add: mem_record_ops_def)

lemma mem_copy:
  "mem_inv env w \<Longrightarrow> copy_of mem_record_ops w c =
    (case c of Primary \<Rightarrow> mr_primary (w_host w) | Secondary \<Rightarrow> mr_secondary (w_host w))"
  by (simp add: copy_of_def mr_read_def mem_inv_def)

lemma sides_same_host [simp]: "sides_same w (w\<lparr>w_host := h\<rparr>)"
  by (simp add: sides_same_def)

lemma mem_inv_side [simp]: "mem_inv env (put_side env n b w) = mem_inv env w"
  by (simp add: mem_inv_def)

interpretation mem_rec: boot_record env mem_record_ops "mem_inv env" for env :: "'raw file_env"
proof unfold_locales
  fix w :: "(mem_record, 'raw) world" and c n b rs
  assume w: "mem_inv env w"
  then show "env_ok env" "sf_faults (w_files w) = []" "is_ok (br_read mem_record_ops w c)"
    "br_legacy_transaction mem_record_ops w = None"
    by (simp_all add: mem_inv_def mr_read_def)
  show "mem_inv env (put_side env n b w) \<and> copy_of mem_record_ops (put_side env n b w) c = copy_of mem_record_ops w c"
    using w mem_copy [of env "put_side env n b w" c] by (cases c) (simp_all add: mem_copy [OF w])
  show "\<exists>w' g. br_activate mem_record_ops w rs = (w', Ok g) \<and> mem_inv env w' \<and> sides_same w w'
      \<and> record_top mem_record_ops w < g
      \<and> copy_of mem_record_ops w' Primary = Some \<lparr>bv_generation = g, bv_entries = rs\<rparr>
      \<and> copy_of mem_record_ops w' Secondary = copy_of mem_record_ops w Secondary"
    if "record_top mem_record_ops w \<noteq> -1"
    using w that next_generation_above [of "mr_primary (w_host w)" "mr_secondary (w_host w)"]
    by (auto simp: on_host_def mr_activate_def mr_read_def mem_inv_def record_top_def copy_of_def Let_def)
  show "\<exists>w'. br_commit mem_record_ops w = (w', Ok ()) \<and> mem_inv env w' \<and> sides_same w w'
      \<and> copy_of mem_record_ops w' Primary = Some p \<and> copy_of mem_record_ops w' Secondary = Some p"
    if "copy_of mem_record_ops w Primary = Some p" for p
    using w that by (auto simp: on_host_def mr_commit_def mr_read_def mem_inv_def copy_of_def Let_def)
  show "\<exists>w'. br_rollback mem_record_ops w = (w', Ok (bv_generation s)) \<and> mem_inv env w' \<and> sides_same w w'
      \<and> copy_of mem_record_ops w' Primary = Some s \<and> copy_of mem_record_ops w' Secondary = Some s"
    if "copy_of mem_record_ops w Secondary = Some s"
      "map_option bv_generation (copy_of mem_record_ops w Primary) \<noteq> Some (bv_generation s)" for s
    using w that by (auto simp: on_host_def mr_rollback_def mr_read_def mem_inv_def copy_of_def)
qed

end
