(* ===== verification/SystemProps.thy ===== *)
theory SystemProps
  imports RecordStore
begin

text \<open>
  The boot vector end to end: the transition engine over the file store, over a store whose
  record routes only some components, and over the in-memory store. The lemmas come from the
  contract locale and from the record locale; the properties are their instances.
\<close>

section \<open>The engine over a record whose writes succeed\<close>

context boot_record
begin

lemma mgr_seal:
  assumes "coherent (record_store_ops env rc) (rs_inv env rc rinv) m" "generation m \<noteq> -1" "pending m = Some p"
  shows "\<exists>m'. seal sha (record_store_ops env rc) armed m = (m', Ok True)
    \<and> coherent (record_store_ops env rc) (rs_inv env rc rinv) m' \<and> current m' = p \<and> pending m' = None
    \<and> generation m < generation m' \<and> committed_entries m' = committed_entries m
    \<and> committed_generation m' = committed_generation m \<and> sbm_transaction m' = Some (fresh_header sha armed)"
proof -
  let ?ops = "record_store_ops env rc"
  have inv: "rs_inv env rc rinv (sbm_store m)" and top: "v_top (view ?ops (sbm_store m)) = generation m"
    using assms(1) mirrors_top by (auto simp: coherent_def)
  obtain m' r where m': "seal sha ?ops armed m = (m', r)" by (cases "seal sha ?ops armed m")
  from m' show ?thesis
  proof (cases rule: seal_cases)
    case (2 p' store' e)
    then show ?thesis using store_activate [OF inv] assms(2) top by force
  next
    case (3 p' store' g)
    then show ?thesis using m' store.seal_coherent [OF assms(1,2) m'] assms(3) by auto
  qed (use assms(3) in simp)
qed

lemma mgr_commit:
  assumes "coherent (record_store_ops env rc) (rs_inv env rc rinv) m"
  shows "\<exists>m'. commit (record_store_ops env rc) m = (m', Ok ())
    \<and> coherent (record_store_ops env rc) (rs_inv env rc rinv) m'
    \<and> current m' = current m \<and> generation m' = generation m \<and> pending m' = pending m
    \<and> committed_entries m' = current m \<and> committed_generation m' = generation m
    \<and> sbm_transaction m' = sbm_transaction m"
proof -
  let ?ops = "record_store_ops env rc"
  have inv: "rs_inv env rc rinv (sbm_store m)" using assms by (simp add: coherent_def)
  obtain m' r where m': "commit ?ops m = (m', r)" by (cases "commit ?ops m")
  from m' show ?thesis
  proof (cases rule: commit_cases)
    case (1 store' e)
    then show ?thesis using store_commit [OF inv] by force
  next
    case (2 store')
    then show ?thesis using m' store.commit_coherent [OF assms m'] by auto
  qed
qed

lemma mgr_rollback:
  assumes "coherent (record_store_ops env rc) (rs_inv env rc rinv) m" "is_trial m" "committed_generation m \<noteq> 0"
  shows "\<exists>m'. rollback (record_store_ops env rc) rsn m = (m', Ok ())
    \<and> coherent (record_store_ops env rc) (rs_inv env rc rinv) m'
    \<and> current m' = committed_entries m \<and> generation m' = committed_generation m \<and> pending m' = None
    \<and> committed_entries m' = committed_entries m \<and> sbm_transaction m' = Some (rollback_header rsn m)"
proof -
  let ?ops = "record_store_ops env rc"
  let ?v = "view ?ops (sbm_store m)"
  have inv: "rs_inv env rc rinv (sbm_store m)" and mm: "mirrors ?v m" using assms(1) by (simp_all add: coherent_def)
  obtain s where s: "vs_secondary ?v = Some s" "vs_primary ?v \<noteq> Some s" "bv_generation s = committed_generation m"
    using mm assms(2,3) by (auto simp: mirrors_def is_trial_def split: option.splits)
  obtain m' r where m': "rollback ?ops rsn m = (m', r)" by (cases "rollback ?ops rsn m")
  from m' show ?thesis
  proof (cases rule: rollback_cases)
    case (2 store' e)
    then have "rs_rollback env rc (sbm_store m) (rollback_header rsn m) = (sbm_store m, Err NoTrial)"
      using store_rollback [OF inv, of "rollback_header rsn m" store' "Err e"] by auto
    moreover have "copy_of rc (sbm_store m) Secondary \<noteq> None"
      using s(1) by (auto simp: view_record [OF inv] whole_secondary_def)
    moreover have "map_option bv_generation (copy_of rc (sbm_store m) Primary) \<noteq>
        map_option bv_generation (copy_of rc (sbm_store m) Secondary)"
      using s inv by (auto simp: view_record [OF inv] whole_primary_def whole_secondary_def rs_inv_def)
    ultimately show ?thesis
      using adapter_rollback [OF inv, of _ "rollback_header rsn m"] by fastforce
  next
    case (3 store' g)
    then have "g = bv_generation s"
      using store_rollback [OF inv, of "rollback_header rsn m" store' "Ok g"] s by (auto simp: v_rollback_def)
    then show ?thesis using 3 m' store.rollback_coherent [OF assms(1) m'] s(3) by auto
  qed (use assms(2) in simp)
qed

lemma mgr_observe:
  assumes "coherent (record_store_ops env rc) (rs_inv env rc rinv) m" "is_trial m" "sbm_transaction m = Some t"
    and "tx_armed_boot_id t \<noteq> zero_id" "boot_id_digest sha i \<noteq> tx_armed_boot_id t"
    and "boot_id_digest sha i \<noteq> tx_counted_boot_id t"
  shows "\<exists>store'. observe_node_boot sha (record_store_ops env rc) i m =
      (m\<lparr>sbm_store := store', sbm_transaction := Some (counted_header sha i t)\<rparr>,
       Ok (Counted (tx_trial_boots (counted_header sha i t))))
    \<and> coherent (record_store_ops env rc) (rs_inv env rc rinv)
        (m\<lparr>sbm_store := store', sbm_transaction := Some (counted_header sha i t)\<rparr>)"
proof -
  let ?ops = "record_store_ops env rc"
  have inv: "rs_inv env rc rinv (sbm_store m)" using assms(1) by (simp add: coherent_def)
  obtain p where p: "vs_primary (view ?ops (sbm_store m)) = Some p" "generation m = bv_generation p"
    using assms(1) mirrors_trial_primary [OF _ assms(2)] by (fastforce simp: coherent_def mirrors_def)
  obtain store' where w: "write_header env (generation m) (counted_header sha i t) (sbm_store m) = (store', Ok ())"
    using adapter_header [OF inv, of p "counted_header sha i t"] p by (auto simp: view_record [OF inv])
  then have o: "observe_node_boot sha ?ops i m =
      (m\<lparr>sbm_store := store', sbm_transaction := Some (counted_header sha i t)\<rparr>,
       Ok (Counted (tx_trial_boots (counted_header sha i t))))"
    using assms(2-6) by (simp add: observe_node_boot_def Let_def counted_header_def)
  then show ?thesis using store.observe_coherent [OF assms(1) o] by blast
qed

end

section \<open>Fresh stores\<close>

definition fresh_world :: "'h \<Rightarrow> ('h, 'raw) world" where
  "fresh_world host = \<lparr>w_host = host, w_files = \<lparr>sf_file = (\<lambda>_. Missing), sf_faults = []\<rparr>\<rparr>"

lemma fresh_blob [simp]: "blob env (fresh_world host) n = None"
  by (simp add: blob_def read_verified_def read_blob_def fresh_world_def)

lemma fresh_readable [simp]: "readable (fresh_world host) n"
  by (simp add: readable_def fresh_world_def)

lemma fresh_faults [simp]: "sf_faults (w_files (fresh_world host)) = []" "w_host (fresh_world host) = host"
  by (simp_all add: fresh_world_def)

lemma fresh_file_inv:
  assumes "env_ok env"
  shows "rs_inv env (file_record_ops env) (file_inv env) (fresh_world host)"
    and "store_settled (record_store_ops env (file_record_ops env)) (fresh_world host)"
proof -
  have f: "file_inv env (fresh_world host)" using assms by (simp add: file_inv_def)
  then show i: "rs_inv env (file_record_ops env) (file_inv env) (fresh_world host)"
    by (auto simp: rs_inv_def file_copy header_of_def)
  show "store_settled (record_store_ops env (file_record_ops env)) (fresh_world host)"
    by (simp add: store_settled_def file_rec.view_record [OF i] whole_primary_def whole_secondary_def
        file_copy [OF f] header_of_def)
qed

lemma fresh_mem_inv:
  assumes "env_ok env"
  shows "rs_inv env mem_record_ops (mem_inv env) (fresh_world (mem_routing ids))"
    and "store_settled (record_store_ops env mem_record_ops) (fresh_world (mem_routing ids))"
proof -
  have f: "mem_inv env (fresh_world (mem_routing ids))"
    using assms by (simp add: mem_inv_def mem_routing_def)
  have c: "copy_of mem_record_ops (fresh_world (mem_routing ids) :: (mem_record, 'a) world) d = None" for d
    using mem_copy [OF f, of d] by (cases d) (simp_all add: mem_routing_def)
  show i: "rs_inv env mem_record_ops (mem_inv env) (fresh_world (mem_routing ids))"
    using f by (auto simp: rs_inv_def c header_of_def)
  show "store_settled (record_store_ops env mem_record_ops) (fresh_world (mem_routing ids))"
    by (simp add: store_settled_def mem_rec.view_record [OF i] whole_primary_def whole_secondary_def c header_of_def)
qed

text \<open>A concrete environment: the test signer, a digest that keeps everything, JSON as itself.\<close>

definition env0 :: "selector_blob file_env" where
  "env0 = \<lparr>fe_sha = (\<lambda>b. b), fe_signer = test_signer, fe_to_json = (\<lambda>b. b), fe_from_json = Some\<rparr>"

lemma env0_ok [simp]: "env_ok env0"
  by (simp add: env_ok_def env0_def test_signer_def)

section \<open>Restarts\<close>

text \<open>C1: A restart at any moment loses nothing but the staged selection. From an empty directory, after
  any sequence of staging, seals, commits, rollbacks, observed boots and restarts over the file
  store, loading a new manager from the store gives exactly the manager's view (booted entries,
  generation, floor, transaction header), with nothing staged.\<close>

theorem file_store_restart:
  assumes "env_ok env" "mgr_reach sha (file_store_ops env) (fresh_world host) m"
  shows "load (file_store_ops env) (sbm_store m) = Ok (m\<lparr>pending := None\<rparr>)"
  using file_rec.store.restart_same [OF fresh_file_inv [OF assms(1)]] assms(2)
  unfolding file_store_ops_def by blast

definition two_banks :: "(file_host, selector_blob) world system_bank_manager" where
  "two_banks = \<lparr>sbm_store = fresh_world None, current = fmempty, generation = 0, committed_entries = fmempty,
     committed_generation = 0, sbm_transaction = None, pending = None\<rparr>"

lemma load_fresh: "load (file_store_ops env0) (fresh_world None) = Ok two_banks"
proof -
  have "rs_read_primary env0 (file_record_ops env0) (fresh_world None) = Ok None"
    "rs_read_secondary env0 (file_record_ops env0) (fresh_world None) = Ok None"
    "rs_read_transaction env0 (file_record_ops env0) (fresh_world None) = None"
    using file_rec.view_whole [OF fresh_file_inv(1) [OF env0_ok]]
    by (simp_all add: whole_primary_def whole_secondary_def header_of_def file_copy file_inv_def)
  then show ?thesis by (simp add: load_def file_store_ops_def two_banks_def)
qed

theorem file_store_restart_witness:
  "load (file_store_ops env0)
     (sbm_store (mgr_step (\<lambda>b. b) (file_store_ops env0) (OpSeal (Some ''boot-1''))
        (mgr_step (\<lambda>b. b) (file_store_ops env0) (OpStage ''os'' B fmempty) two_banks)))
   = Ok ((mgr_step (\<lambda>b. b) (file_store_ops env0) (OpSeal (Some ''boot-1''))
        (mgr_step (\<lambda>b. b) (file_store_ops env0) (OpStage ''os'' B fmempty) two_banks))\<lparr>pending := None\<rparr>)"
proof -
  have "mgr_reach (\<lambda>b. b) (file_store_ops env0) (fresh_world None) two_banks"
    by (rule mgr_reach.boot [OF load_fresh])
  then have "mgr_reach (\<lambda>b. b) (file_store_ops env0) (fresh_world None)
      (mgr_step (\<lambda>b. b) (file_store_ops env0) (OpSeal (Some ''boot-1''))
        (mgr_step (\<lambda>b. b) (file_store_ops env0) (OpStage ''os'' B fmempty) two_banks))"
    by (intro mgr_reach.step) (simp_all add: two_banks_def stage_def)
  then show ?thesis using file_store_restart [OF env0_ok] by blast
qed

text \<open>The same holds when the boot stage's record routes only some components and the others live in
  the side files: whatever subset the record routes, the manager reloads exactly what it had.\<close>

theorem split_store_restart:
  assumes "env_ok env" "mgr_reach sha (record_store_ops env mem_record_ops) (fresh_world (mem_routing ids)) m"
  shows "load (record_store_ops env mem_record_ops) (sbm_store m) = Ok (m\<lparr>pending := None\<rparr>)"
  using mem_rec.store.restart_same [OF fresh_mem_inv [OF assms(1)] assms(2)] .

lemma load_fresh_mem:
  "\<exists>m. load (record_store_ops env0 mem_record_ops) (fresh_world (mem_routing ids)) = Ok m
    \<and> sbm_store m = fresh_world (mem_routing ids)"
  using mem_rec.store.load_settled [OF fresh_mem_inv [OF env0_ok]] by blast

theorem split_store_restart_witness:
  "\<exists>m. load (record_store_ops env0 mem_record_ops) (fresh_world (mem_routing [''os''])) = Ok m
    \<and> load (record_store_ops env0 mem_record_ops) (sbm_store m) = Ok (m\<lparr>pending := None\<rparr>)"
proof -
  obtain m where m: "load (record_store_ops env0 mem_record_ops) (fresh_world (mem_routing [''os''])) = Ok m"
    using load_fresh_mem by blast
  then have "mgr_reach (\<lambda>b. b) (record_store_ops env0 mem_record_ops) (fresh_world (mem_routing [''os''])) m"
    by (rule mgr_reach.boot)
  with m show ?thesis using split_store_restart [OF env0_ok] by blast
qed

section \<open>Seal, commit, rollback\<close>

lemma file_reach_coherent:
  "env_ok env \<Longrightarrow> mgr_reach sha (file_store_ops env) (fresh_world host) m \<Longrightarrow>
    coherent (record_store_ops env (file_record_ops env)) (rs_inv env (file_record_ops env) (file_inv env)) m"
  unfolding file_store_ops_def by (rule file_rec.store.reach_coherent [OF fresh_file_inv])

text \<open>C30: Sealing makes the staged selection the booted one, at a generation strictly above the old one,
  and leaves the rollback floor alone; a node that restarts afterwards loads exactly that.\<close>

theorem file_store_seal:
  assumes "env_ok env" "mgr_reach sha (file_store_ops env) (fresh_world host) m"
    and "generation m \<noteq> -1" "pending m = Some p"
  shows "\<exists>m'. seal sha (file_store_ops env) armed m = (m', Ok True) \<and> current m' = p
    \<and> generation m < generation m' \<and> committed_entries m' = committed_entries m
    \<and> committed_generation m' = committed_generation m \<and> pending m' = None
    \<and> (is_trial m' \<longleftrightarrow> p \<noteq> committed_entries m)
    \<and> load (file_store_ops env) (sbm_store m') = Ok m'"
proof -
  obtain m' where m': "seal sha (file_store_ops env) armed m = (m', Ok True)"
      "coherent (file_store_ops env) (rs_inv env (file_record_ops env) (file_inv env)) m'"
      "current m' = p" "pending m' = None" "generation m < generation m'"
      "committed_entries m' = committed_entries m" "committed_generation m' = committed_generation m"
    using file_rec.mgr_seal [OF file_reach_coherent [OF assms(1,2)] assms(3,4)] unfolding file_store_ops_def by blast
  have "load (file_store_ops env) (sbm_store m') = Ok (m'\<lparr>pending := None\<rparr>)"
    using file_rec.store.coherent_load m'(2) unfolding file_store_ops_def by blast
  moreover have "m'\<lparr>pending := None\<rparr> = m'" using m'(4) by simp
  ultimately show ?thesis using m' by (simp add: is_trial_def)
qed

definition staged :: "(file_host, selector_blob) world system_bank_manager" where
  "staged = stage ''os'' B fmempty two_banks"

lemma staged_facts:
  "mgr_reach (\<lambda>b. b) (file_store_ops env0) (fresh_world None) staged" "generation staged = 0"
  "pending staged = Some (fmupd ''os'' \<lparr>ce_bank = B, ce_images = fmempty\<rparr> fmempty)"
  "committed_entries staged = fmempty" "committed_generation staged = 0"
proof -
  have "mgr_reach (\<lambda>b. b) (file_store_ops env0) (fresh_world None)
      (mgr_step (\<lambda>b. b) (file_store_ops env0) (OpStage ''os'' B fmempty) two_banks)"
    by (intro mgr_reach.step mgr_reach.boot load_fresh) (simp add: two_banks_def)
  then show "mgr_reach (\<lambda>b. b) (file_store_ops env0) (fresh_world None) staged"
    by (simp add: staged_def)
qed (simp_all add: staged_def stage_def two_banks_def)

lemma fmupd_nonempty: "fmupd k v m \<noteq> fmempty"
  by (metis fmempty_lookup fmupd_lookup option.distinct(1))

theorem file_store_seal_witness:
  "\<exists>m'. seal (\<lambda>b. b) (file_store_ops env0) None staged = (m', Ok True)
    \<and> sbm_active_bank m' ''os'' = Some B \<and> 0 < generation m' \<and> is_trial m'"
  using file_store_seal [OF env0_ok staged_facts(1) _ staged_facts(3), of None]
  by (auto simp: staged_facts sbm_active_bank_def fmupd_nonempty)

text \<open>C7: Commit makes the booted selection the floor and ends the trial; a rollback of a trial over a
  committed floor restores the floor's entries and generation, records why, and is what a restart
  loads; a second rollback changes nothing, so the recorded reason stays.\<close>

theorem file_store_commit_rollback:
  assumes "env_ok env" "mgr_reach sha (file_store_ops env) (fresh_world host) m"
  shows "(\<exists>m'. commit (file_store_ops env) m = (m', Ok ()) \<and> \<not> is_trial m' \<and> current m' = current m
        \<and> generation m' = generation m \<and> committed_entries m' = current m \<and> committed_generation m' = generation m)
    \<and> (is_trial m \<longrightarrow> committed_generation m \<noteq> 0 \<longrightarrow>
        (\<exists>m'. rollback (file_store_ops env) rsn m = (m', Ok ()) \<and> \<not> is_trial m'
          \<and> current m' = committed_entries m \<and> generation m' = committed_generation m
          \<and> map_option tx_resolution (sbm_transaction m') =
              Some (Some \<lparr>res_outcome = RolledBack, res_reason = rsn\<rparr>)
          \<and> load (file_store_ops env) (sbm_store m') = Ok m'
          \<and> rollback (file_store_ops env) rsn' m' = (m', Ok ())))"
proof (intro conjI impI)
  note c = file_reach_coherent [OF assms]
  show "\<exists>m'. commit (file_store_ops env) m = (m', Ok ()) \<and> \<not> is_trial m' \<and> current m' = current m
      \<and> generation m' = generation m \<and> committed_entries m' = current m \<and> committed_generation m' = generation m"
    using file_rec.mgr_commit [OF c] unfolding file_store_ops_def is_trial_def by fastforce
  assume "is_trial m" "committed_generation m \<noteq> 0"
  then obtain m' where m': "rollback (file_store_ops env) rsn m = (m', Ok ())"
      "coherent (file_store_ops env) (rs_inv env (file_record_ops env) (file_inv env)) m'"
      "current m' = committed_entries m" "generation m' = committed_generation m" "pending m' = None"
      "committed_entries m' = committed_entries m" "sbm_transaction m' = Some (rollback_header rsn m)"
    using file_rec.mgr_rollback [OF c, of rsn] unfolding file_store_ops_def by blast
  have "load (file_store_ops env) (sbm_store m') = Ok (m'\<lparr>pending := None\<rparr>)"
    using file_rec.store.coherent_load m'(2) unfolding file_store_ops_def by blast
  moreover have "m'\<lparr>pending := None\<rparr> = m'" using m'(5) by simp
  moreover have "\<not> is_trial m'" using m' by (simp add: is_trial_def)
  ultimately show "\<exists>m'. rollback (file_store_ops env) rsn m = (m', Ok ()) \<and> \<not> is_trial m'
      \<and> current m' = committed_entries m \<and> generation m' = committed_generation m
      \<and> map_option tx_resolution (sbm_transaction m') = Some (Some \<lparr>res_outcome = RolledBack, res_reason = rsn\<rparr>)
      \<and> load (file_store_ops env) (sbm_store m') = Ok m'
      \<and> rollback (file_store_ops env) rsn' m' = (m', Ok ())"
    using m' by (intro exI [of _ m']) (simp add: rollback_header_def rollback_def)
qed

text \<open>The file record issues the next number, so a witness knows its generations.\<close>

lemma file_activate_next:
  assumes "file_inv env w" "rs_activate env (file_record_ops env) w es h = (w', Ok g)"
  shows "g = record_top (file_record_ops env) w + 1"
  using assms
  by (auto simp: rs_activate_def file_activate_def file_read_copy [OF assms(1)] next_generation_def record_top_def
      Let_def split: sum.splits prod.splits)

abbreviation file_coherent :: "'raw file_env \<Rightarrow> (file_host, 'raw) world system_bank_manager \<Rightarrow> bool" where
  "file_coherent env \<equiv> coherent (record_store_ops env (file_record_ops env)) (rs_inv env (file_record_ops env) (file_inv env))"

lemma file_seal_coherent:
  assumes c: "file_coherent env m" and "generation m \<noteq> -1" "pending m = Some p"
  shows "\<exists>m'. seal sha (file_store_ops env) armed m = (m', Ok True) \<and> file_coherent env m' \<and> current m' = p
    \<and> pending m' = None \<and> generation m' = generation m + 1 \<and> committed_entries m' = committed_entries m
    \<and> committed_generation m' = committed_generation m \<and> sbm_transaction m' = Some (fresh_header sha armed)"
proof -
  obtain m' where m': "seal sha (file_store_ops env) armed m = (m', Ok True)" "file_coherent env m'" "current m' = p"
      "pending m' = None" "committed_entries m' = committed_entries m"
      "committed_generation m' = committed_generation m" "sbm_transaction m' = Some (fresh_header sha armed)"
    using file_rec.mgr_seal [OF assms, of sha armed] unfolding file_store_ops_def by blast
  have inv: "rs_inv env (file_record_ops env) (file_inv env) (sbm_store m)"
    using c by (simp add: coherent_def)
  have top: "record_top (file_record_ops env) (sbm_store m) = generation m"
    using c mirrors_top [of _ m] unfolding file_rec.view_top [OF inv, symmetric] by (simp add: coherent_def)
  have "generation m' = generation m + 1"
    using m'(1) top
  proof (cases rule: seal_cases)
    case (3 p' store' g)
    then show ?thesis
      using file_activate_next [of env "sbm_store m" p' "fresh_header sha armed" store' g] inv top
      by (simp add: file_store_ops_def rs_inv_def)
  qed simp_all
  with m' show ?thesis by simp
qed

lemma file_seal_next:
  assumes "env_ok env" "mgr_reach sha (file_store_ops env) (fresh_world host) m"
    and "generation m \<noteq> -1" "pending m = Some p"
  shows "\<exists>m'. fst (seal sha (file_store_ops env) armed m) = m' \<and> current m' = p
    \<and> generation m' = generation m + 1 \<and> committed_entries m' = committed_entries m
    \<and> committed_generation m' = committed_generation m \<and> sbm_transaction m' = Some (fresh_header sha armed)"
  using file_seal_coherent [OF file_reach_coherent [OF assms(1,2)] assms(3,4), of sha armed] by auto

text \<open>A committed floor with a trial over it: seal and commit a first selection, then seal another.\<close>

definition floor1 :: "(file_host, selector_blob) world system_bank_manager" where
  "floor1 = fst (commit (file_store_ops env0) (fst (seal (\<lambda>b. b) (file_store_ops env0) None staged)))"

definition trial2 :: "(file_host, selector_blob) world system_bank_manager" where
  "trial2 = fst (seal (\<lambda>b. b) (file_store_ops env0) (Some ''boot-1'') (stage ''os'' A fmempty floor1))"

lemma floor1_facts:
  "mgr_reach (\<lambda>b. b) (file_store_ops env0) (fresh_world None) floor1" "generation floor1 = 1"
  "committed_generation floor1 = 1" "pending floor1 = None"
  "current floor1 = fmupd ''os'' \<lparr>ce_bank = B, ce_images = fmempty\<rparr> fmempty" "committed_entries floor1 = current floor1"
proof -
  define m1 where "m1 = fst (seal (\<lambda>b. b) (file_store_ops env0) None staged)"
  have m1: "generation m1 = 1" "current m1 = fmupd ''os'' \<lparr>ce_bank = B, ce_images = fmempty\<rparr> fmempty"
    using file_seal_next [OF env0_ok staged_facts(1) _ staged_facts(3), of None] by (auto simp: staged_facts m1_def)
  have r1: "mgr_reach (\<lambda>b. b) (file_store_ops env0) (fresh_world None) m1"
    using mgr_reach.step [OF staged_facts(1), of "OpSeal None"] by (simp add: m1_def staged_facts)
  obtain m2 where m2: "commit (file_store_ops env0) m1 = (m2, Ok ())" "current m2 = current m1"
      "generation m2 = generation m1" "committed_entries m2 = current m1" "committed_generation m2 = generation m1"
      "pending m2 = pending m1"
    using file_rec.mgr_commit [OF file_reach_coherent [OF env0_ok r1]] unfolding file_store_ops_def by blast
  have f: "floor1 = m2" using m2(1) by (simp add: floor1_def flip: m1_def)
  show "mgr_reach (\<lambda>b. b) (file_store_ops env0) (fresh_world None) floor1"
    using mgr_reach.step [OF r1, of OpCommit] m1(1) m2(1) by (simp add: f)
  have "pending m1 = None"
    using file_rec.mgr_seal [OF file_reach_coherent [OF env0_ok staged_facts(1)] _ staged_facts(3), of "\<lambda>b. b" None]
    by (auto simp: staged_facts m1_def file_store_ops_def)
  then show "pending floor1 = None" by (simp add: f m2)
  show "generation floor1 = 1" "committed_generation floor1 = 1" "committed_entries floor1 = current floor1"
    "current floor1 = fmupd ''os'' \<lparr>ce_bank = B, ce_images = fmempty\<rparr> fmempty"
    by (simp_all add: f m1 m2)
qed

lemma trial2_facts:
  "mgr_reach (\<lambda>b. b) (file_store_ops env0) (fresh_world None) trial2" "is_trial trial2" "generation trial2 = 2"
  "committed_generation trial2 = 1" "sbm_transaction trial2 = Some (fresh_header (\<lambda>b. b) (Some ''boot-1''))"
proof -
  define m where "m = stage ''os'' A fmempty floor1"
  have r: "mgr_reach (\<lambda>b. b) (file_store_ops env0) (fresh_world None) m"
    using mgr_reach.step [OF floor1_facts(1), of "OpStage ''os'' A fmempty"] by (simp add: m_def floor1_facts)
  have m: "generation m = 1" "committed_generation m = 1"
    "committed_entries m = fmupd ''os'' \<lparr>ce_bank = B, ce_images = fmempty\<rparr> fmempty"
    "pending m = Some (fmupd ''os'' \<lparr>ce_bank = A, ce_images = fmempty\<rparr> fmempty)"
    by (simp_all add: m_def stage_def floor1_facts fmupd_idem)
  note n = file_seal_next [OF env0_ok r _ m(4), of "Some ''boot-1''"]
  show "mgr_reach (\<lambda>b. b) (file_store_ops env0) (fresh_world None) trial2"
    using mgr_reach.step [OF r, of "OpSeal (Some ''boot-1'')"] by (simp add: trial2_def m flip: m_def)
  show "generation trial2 = 2" "committed_generation trial2 = 1"
    "sbm_transaction trial2 = Some (fresh_header (\<lambda>b. b) (Some ''boot-1''))"
    using n by (auto simp: m trial2_def simp flip: m_def)
  have "fmlookup (current trial2) ''os'' \<noteq> fmlookup (committed_entries trial2) ''os''"
    using n by (auto simp: m trial2_def simp flip: m_def)
  then show "is_trial trial2" by (auto simp: is_trial_def)
qed

lemma trial2_current:
  "current trial2 = fmupd ''os'' \<lparr>ce_bank = A, ce_images = fmempty\<rparr> fmempty"
  "committed_entries trial2 = fmupd ''os'' \<lparr>ce_bank = B, ce_images = fmempty\<rparr> fmempty"
proof -
  define m where "m = stage ''os'' A fmempty floor1"
  have r: "mgr_reach (\<lambda>b. b) (file_store_ops env0) (fresh_world None) m"
    using mgr_reach.step [OF floor1_facts(1), of "OpStage ''os'' A fmempty"] by (simp add: m_def floor1_facts)
  have m: "generation m = 1" "committed_entries m = fmupd ''os'' \<lparr>ce_bank = B, ce_images = fmempty\<rparr> fmempty"
    "pending m = Some (fmupd ''os'' \<lparr>ce_bank = A, ce_images = fmempty\<rparr> fmempty)"
    by (simp_all add: m_def stage_def floor1_facts fmupd_idem)
  show "current trial2 = fmupd ''os'' \<lparr>ce_bank = A, ce_images = fmempty\<rparr> fmempty"
    "committed_entries trial2 = fmupd ''os'' \<lparr>ce_bank = B, ce_images = fmempty\<rparr> fmempty"
    using file_seal_next [OF env0_ok r _ m(3), of "Some ''boot-1''"] by (auto simp: m trial2_def simp flip: m_def)
qed

theorem file_store_commit_rollback_witness:
  "\<exists>m'. rollback (file_store_ops env0) Verdict trial2 = (m', Ok ()) \<and> \<not> is_trial m' \<and> generation m' = 1
    \<and> load (file_store_ops env0) (sbm_store m') = Ok m'"
  using file_store_commit_rollback [OF env0_ok trial2_facts(1), of Verdict Verdict] by (auto simp: trial2_facts)

end
