(* ===== verification/TrialProps.thy ===== *)
theory TrialProps
  imports SystemProps
begin

text \<open>
  Trials across node boots: the count of distinct boots while a trial is armed, and the rule by
  which a load recognises that the boot stage restored the committed copy while the node was
  down (\<^verbatim>\<open>system_bank_state.rs\<close>, \<open>load\<close> and \<open>observe_node_boot\<close>).
\<close>

section \<open>Counting boots\<close>

fun observe_all ::
    "(bytes \<Rightarrow> bytes) \<Rightarrow> 's selector_store_ops \<Rightarrow> string list \<Rightarrow> 's system_bank_manager \<Rightarrow> 's system_bank_manager" where
  "observe_all sha ops [] m = m"
| "observe_all sha ops (i # is) m = observe_all sha ops is (fst (observe_node_boot sha ops i m))"

text \<open>Boots none of which is the arming boot and each of which differs from the one before.\<close>

fun new_boots :: "(bytes \<Rightarrow> bytes) \<Rightarrow> bytes \<Rightarrow> bytes \<Rightarrow> string list \<Rightarrow> bool" where
  "new_boots sha armed prev [] \<longleftrightarrow> True"
| "new_boots sha armed prev (i # is) \<longleftrightarrow>
     boot_id_digest sha i \<noteq> armed \<and> boot_id_digest sha i \<noteq> prev \<and> new_boots sha armed (boot_id_digest sha i) is"

lemma counted_trial_boots: "unat (tx_trial_boots (counted_header sha i t)) = min 255 (unat (tx_trial_boots t) + 1)"
proof (cases "tx_trial_boots t = -1")
  case True
  then show ?thesis by (simp add: counted_header_def unat_max_u8)
next
  case False
  then have "unat (tx_trial_boots t + 1) = Suc (unat (tx_trial_boots t))"
    by (metis add.commute eq_neg_iff_add_eq_0 unatSuc)
  then show ?thesis using False unat_u8_le [of "tx_trial_boots t + 1"] by (simp add: counted_header_def)
qed

context boot_record
begin

lemma mgr_observe_all:
  assumes "coherent (record_store_ops env rc) (rs_inv env rc rinv) m" "is_trial m" "sbm_transaction m = Some t"
    and "tx_armed_boot_id t \<noteq> zero_id" "new_boots sha (tx_armed_boot_id t) (tx_counted_boot_id t) is"
  shows "\<exists>t' store'. observe_all sha (record_store_ops env rc) is m = m\<lparr>sbm_store := store', sbm_transaction := Some t'\<rparr>
    \<and> coherent (record_store_ops env rc) (rs_inv env rc rinv) (m\<lparr>sbm_store := store', sbm_transaction := Some t'\<rparr>)
    \<and> unat (tx_trial_boots t') = min 255 (unat (tx_trial_boots t) + length is)
    \<and> tx_armed_boot_id t' = tx_armed_boot_id t \<and> tx_resolution t' = tx_resolution t"
  using assms
proof (induction "is" arbitrary: m t)
  case Nil
  have "m\<lparr>sbm_store := sbm_store m, sbm_transaction := Some t\<rparr> = m" using Nil.prems(3) by simp
  moreover have "unat (tx_trial_boots t) \<le> 255" by (rule unat_u8_le)
  ultimately show ?case
    using Nil.prems(1) by (intro exI [of _ t] exI [of _ "sbm_store m"]) (simp add: min_def)
next
  case (Cons i "is")
  let ?t = "counted_header sha i t"
  obtain store' where o: "observe_node_boot sha (record_store_ops env rc) i m =
      (m\<lparr>sbm_store := store', sbm_transaction := Some ?t\<rparr>, Ok (Counted (tx_trial_boots ?t)))"
    and c: "coherent (record_store_ops env rc) (rs_inv env rc rinv) (m\<lparr>sbm_store := store', sbm_transaction := Some ?t\<rparr>)"
    using mgr_observe [OF Cons.prems(1-4), of sha i] Cons.prems(5) by auto
  let ?m = "m\<lparr>sbm_store := store', sbm_transaction := Some ?t\<rparr>"
  have "is_trial ?m" "sbm_transaction ?m = Some ?t" "tx_armed_boot_id ?t \<noteq> zero_id"
    "new_boots sha (tx_armed_boot_id ?t) (tx_counted_boot_id ?t) is"
    using Cons.prems by (simp_all add: is_trial_def counted_header_def)
  from Cons.IH [OF c this] obtain t' store2 where IH:
      "observe_all sha (record_store_ops env rc) is ?m = ?m\<lparr>sbm_store := store2, sbm_transaction := Some t'\<rparr>"
      "coherent (record_store_ops env rc) (rs_inv env rc rinv) (?m\<lparr>sbm_store := store2, sbm_transaction := Some t'\<rparr>)"
      "unat (tx_trial_boots t') = min 255 (unat (tx_trial_boots ?t) + length is)"
      "tx_armed_boot_id t' = tx_armed_boot_id ?t" "tx_resolution t' = tx_resolution ?t"
    by blast
  have "min 255 (min 255 (unat (tx_trial_boots t) + 1) + length is) = min 255 (unat (tx_trial_boots t) + length (i # is))"
    by simp
  then have "unat (tx_trial_boots t') = min 255 (unat (tx_trial_boots t) + length (i # is))"
    unfolding IH(3) counted_trial_boots .
  then show ?case
    using o IH by (intro exI [of _ t'] exI [of _ store2]) (simp add: counted_header_def)
qed

end

text \<open>While a trial is armed, every further node boot is counted once: after any sequence of boots,
  none of them the arming boot and each different from the one before, the count in the header has
  grown by their number, saturating at 255, and a restart loads that count. The vector, the floor
  and the generation are untouched.\<close>

theorem file_store_counts_boots:
  assumes "env_ok env" "mgr_reach sha (file_store_ops env) (fresh_world host) m"
    and "is_trial m" "sbm_transaction m = Some t" "tx_armed_boot_id t \<noteq> zero_id"
    and "new_boots sha (tx_armed_boot_id t) (tx_counted_boot_id t) is"
  shows "\<exists>m' t'. observe_all sha (file_store_ops env) is m = m' \<and> sbm_transaction m' = Some t'
    \<and> unat (tx_trial_boots t') = min 255 (unat (tx_trial_boots t) + length is)
    \<and> current m' = current m \<and> generation m' = generation m \<and> committed_entries m' = committed_entries m
    \<and> load (file_store_ops env) (sbm_store m') = Ok (m'\<lparr>pending := None\<rparr>)"
proof -
  obtain t' store' where o: "observe_all sha (file_store_ops env) is m = m\<lparr>sbm_store := store', sbm_transaction := Some t'\<rparr>"
    and c: "coherent (record_store_ops env (file_record_ops env)) (rs_inv env (file_record_ops env) (file_inv env))
      (m\<lparr>sbm_store := store', sbm_transaction := Some t'\<rparr>)"
    and n: "unat (tx_trial_boots t') = min 255 (unat (tx_trial_boots t) + length is)"
    using file_rec.mgr_observe_all [OF file_reach_coherent [OF assms(1,2)] assms(3-6)]
    unfolding file_store_ops_def by blast
  show ?thesis
    using o n file_rec.store.coherent_load [OF c] by (simp add: file_store_ops_def)
qed

theorem file_store_counts_boots_witness:
  "\<exists>m' t'. observe_all (\<lambda>b. b) (file_store_ops env0) [''boot-2'', ''boot-3''] trial2 = m'
    \<and> sbm_transaction m' = Some t' \<and> unat (tx_trial_boots t') = 2 \<and> generation m' = 2"
proof -
  let ?t = "fresh_header (\<lambda>b. b) (Some ''boot-1'')"
  have "tx_armed_boot_id ?t \<noteq> zero_id" by code_simp
  moreover have "new_boots (\<lambda>b. b) (tx_armed_boot_id ?t) (tx_counted_boot_id ?t) [''boot-2'', ''boot-3'']" by code_simp
  moreover have "unat (tx_trial_boots ?t) = 0" by (simp add: fresh_header_def)
  ultimately obtain m' t' where "observe_all (\<lambda>b. b) (file_store_ops env0) [''boot-2'', ''boot-3''] trial2 = m'"
      "sbm_transaction m' = Some t'" "generation m' = generation trial2"
      "unat (tx_trial_boots t') = min 255 (0 + length [''boot-2'', ''boot-3''])"
    using file_store_counts_boots [OF env0_ok trial2_facts(1,2,5), of "[''boot-2'', ''boot-3'']"] by metis
  then show ?thesis
    by (intro exI [of _ m'] exI [of _ t']) (simp add: trial2_facts del: observe_all.simps)
qed

text \<open>A process restart within one node boot counts nothing: observing the same boot again reports it
  as already counted, with the same count, and writes nothing; the arming boot is never counted.\<close>

theorem observe_same_boot:
  assumes "observe_node_boot sha ops i m = (m', Ok (Counted n))"
  shows "observe_node_boot sha ops i m' = (m', Ok (AlreadyCounted n))
    \<and> (\<forall>t j. sbm_transaction m' = Some t \<longrightarrow> boot_id_digest sha j = tx_armed_boot_id t \<longrightarrow>
         observe_node_boot sha ops j m' = (m', Ok (AlreadyCounted n)))"
proof -
  obtain t store' where t: "is_trial m" "m' = m\<lparr>sbm_store := store', sbm_transaction := Some (counted_header sha i t)\<rparr>"
    "tx_armed_boot_id t \<noteq> zero_id" "n = tx_trial_boots (counted_header sha i t)"
    using assms by (cases rule: observe_cases) auto
  have "is_trial m'" using t(1,2) by (simp add: is_trial_def)
  moreover have "sbm_transaction m' = Some (counted_header sha i t)" using t(2) by simp
  moreover have "tx_armed_boot_id (counted_header sha i t) \<noteq> zero_id"
    "tx_counted_boot_id (counted_header sha i t) = boot_id_digest sha i"
    using t(3) by (simp_all add: counted_header_def)
  ultimately show ?thesis using t(4) by (simp add: observe_node_boot_def Let_def)
qed

theorem observe_same_boot_witness:
  "\<exists>m'. observe_node_boot (\<lambda>b. b) (file_store_ops env0) ''boot-2'' trial2 = (m', Ok (Counted 1))
    \<and> observe_node_boot (\<lambda>b. b) (file_store_ops env0) ''boot-2'' m' = (m', Ok (AlreadyCounted 1))"
proof -
  let ?t = "fresh_header (\<lambda>b. b) (Some ''boot-1'')"
  have "tx_armed_boot_id ?t \<noteq> zero_id" "boot_id_digest (\<lambda>b. b) ''boot-2'' \<noteq> tx_armed_boot_id ?t"
    "boot_id_digest (\<lambda>b. b) ''boot-2'' \<noteq> tx_counted_boot_id ?t" by code_simp+
  moreover have "tx_trial_boots (counted_header (\<lambda>b. b) ''boot-2'' ?t) = 1" by code_simp
  ultimately obtain m' where "observe_node_boot (\<lambda>b. b) (file_store_ops env0) ''boot-2'' trial2 = (m', Ok (Counted 1))"
    using file_rec.mgr_observe [OF file_reach_coherent [OF env0_ok trial2_facts(1)] trial2_facts(2,5), of "\<lambda>b. b" "''boot-2''"]
    by (auto simp: file_store_ops_def)
  with observe_same_boot show ?thesis by blast
qed

section \<open>A rollback by the boot stage\<close>

definition boot_stage_header :: "transaction \<Rightarrow> transaction" where
  "boot_stage_header h = h\<lparr>tx_resolution := Some \<lparr>res_outcome = RolledBack, res_reason = BootStage\<rparr>\<rparr>"

text \<open>A side file holds the rows of one generation.\<close>

lemma rows_one_generation: "rows env w n g \<noteq> None \<Longrightarrow> g' \<noteq> g \<Longrightarrow> rows env w n g' = None"
  by (auto simp: rows_def opt_filter_def split: option.splits if_splits)

context boot_record
begin

text \<open>
  While the node was down the boot stage restored the committed copy: the record holds \<open>s\<close>
  twice, the side files are those of the trial.
\<close>

lemma boot_stage_reads:
  assumes "rs_inv env rc rinv w" "copy_of rc w Primary = Some p" "copy_of rc w Secondary = Some s"
    and "bv_generation s < bv_generation p" "header_of env w = Some (bv_generation p, h)"
    and "rinv w'" "sides_same w w'" "\<And>c. copy_of rc w' c = Some s"
  shows "rs_read_primary env rc w' = Ok (whole_secondary env rc w)"
    and "rs_read_secondary env rc w' = Ok (whole_secondary env rc w)"
    and "rs_read_transaction env rc w' = Some (bv_generation p, h)"
    and "rows2 env w' ROWS COMMITTED (bv_generation s) = rows env w COMMITTED (bv_generation s)"
proof -
  let ?gs = "bv_generation s" and ?gp = "bv_generation p"
  have rd: "readable w' ROWS" "readable w' COMMITTED" "readable w' TRANSACTION"
    using assms(1) by (simp_all add: sides_same_readable [OF assms(7)] rs_inv_def)
  note same = sides_same_rows [OF assms(7)]
  obtain rs where rs: "rows env w COMMITTED ?gs = Some rs"
    using assms(1,3) by (auto simp: rs_inv_def)
  have "rows2 env w ROWS COMMITTED ?gp \<noteq> None" using assms(1,2) by (simp add: rs_inv_def)
  moreover have "rows env w COMMITTED ?gp = None"
    using rows_one_generation [of env w COMMITTED ?gs ?gp] rs assms(4) by auto
  ultimately have gp: "rows env w ROWS ?gp \<noteq> None" by (auto simp: rows2_def split: option.splits)
  then have "rows env w ROWS ?gs = None"
    using rows_one_generation [of env w ROWS ?gp ?gs] assms(4) by auto
  then have r2: "rows2 env w' ROWS COMMITTED ?gs = Some rs" by (simp add: rows2_def same rs)
  then show "rows2 env w' ROWS COMMITTED ?gs = rows env w COMMITTED ?gs" by (simp add: rs)
  show "rs_read_primary env rc w' = Ok (whole_secondary env rc w)"
    using r2 rs assms(3) by (simp add: rs_read_primary_def br_read_copy [OF assms(6)] assms(8) first_rows_at_eq rd
        whole_secondary_def del: first_rows_at.simps)
  show "rs_read_secondary env rc w' = Ok (whole_secondary env rc w)"
    using rs assms(3) by (simp add: rs_read_secondary_def br_read_copy [OF assms(6)] assms(8) rows_at_eq rd same
        whole_secondary_def)
  have "rows2 env w' ROWS COMMITTED ?gp \<noteq> None" using gp by (auto simp: rows2_def same split: option.splits)
  moreover have "header_of env w' = Some (?gp, h)"
    using assms(5) by (simp add: header_of_def sides_same_blob [OF assms(7)])
  ultimately show "rs_read_transaction env rc w' = Some (?gp, h)"
    by (auto simp: rs_read_transaction_def attributed_transaction_def read_verified_blob rd header_of_def
        br_generation_copy [OF assms(6)] first_rows_at_eq simp del: first_rows_at.simps split: option.splits)
qed

lemma boot_stage_inv:
  fixes h
  assumes "rs_inv env rc rinv w" "copy_of rc w Secondary = Some s"
    and "rinv w'" "sides_same w w'" "\<And>c. copy_of rc w' c = Some s"
    and "rows2 env w' ROWS COMMITTED (bv_generation s) = rows env w COMMITTED (bv_generation s)"
  defines "w2 \<equiv> put_side env TRANSACTION (sf_sign env (bv_generation s) fmempty (Some h)) w'"
  shows "rs_inv env rc rinv w2 \<and> whole_primary env rc w2 = whole_secondary env rc w
    \<and> whole_secondary env rc w2 = whole_secondary env rc w \<and> header_of env w2 = Some (bv_generation s, h)"
proof -
  have ok: "env_ok env" using env [OF assms(3)] .
  have inv: "rinv w2" and cp: "copy_of rc w2 c = Some s" for c
    using side_files [OF assms(3)] assms(5) by (simp_all add: w2_def)
  have r: "rows env w2 n g = rows env w n g" if "n \<in> {ROWS, COMMITTED}" for n g
    using that by (auto simp: w2_def put_signed ok sides_same_rows [OF assms(4)])
  have r2: "rows2 env w2 ROWS COMMITTED (bv_generation s) = rows env w COMMITTED (bv_generation s)"
    unfolding assms(6) [symmetric]
    by (rule rows2_cong) (simp_all add: r sides_same_rows [OF assms(4)])
  have hd: "header_of env w2 = Some (bv_generation s, h)" by (simp add: w2_def ok)
  have rd: "\<forall>n \<in> side_names. readable w2 n"
    using assms(1) by (simp add: w2_def sides_same_readable [OF assms(4)] rs_inv_def)
  have "rows env w COMMITTED (bv_generation s) \<noteq> None" using assms(1,2) by (auto simp: rs_inv_def)
  then have "rs_inv env rc rinv w2"
    unfolding rs_inv_def cp hd using inv rd r2 r by auto
  then show ?thesis
    using hd r2 r assms(2) by (simp add: whole_primary_def whole_secondary_def cp)
qed

lemma boot_stage_load:
  assumes "rs_inv env rc rinv w" "copy_of rc w Primary = Some p" "copy_of rc w Secondary = Some s"
    and "bv_generation s < bv_generation p" "header_of env w = Some (bv_generation p, h)" "tx_resolution h = None"
    and "rinv w'" "sides_same w w'" "\<And>c. copy_of rc w' c = Some s"
  shows "\<exists>m. load (record_store_ops env rc) w' = Ok m
    \<and> coherent (record_store_ops env rc) (rs_inv env rc rinv) m \<and> pending m = None
    \<and> Some (current m) = map_option bv_entries (whole_secondary env rc w)
    \<and> generation m = bv_generation s \<and> committed_entries m = current m
    \<and> sbm_transaction m = Some (boot_stage_header h)"
proof -
  note rd = boot_stage_reads [OF assms(1-5,7-9)]
  define w2 where "w2 = put_side env TRANSACTION (sf_sign env (bv_generation s) fmempty (Some (boot_stage_header h))) w'"
  obtain v where v: "whole_secondary env rc w = Some v" "bv_generation v = bv_generation s"
    using assms(3) by (simp add: whole_secondary_def)
  have i2: "rs_inv env rc rinv w2" "whole_primary env rc w2 = Some v" "whole_secondary env rc w2 = Some v"
      "header_of env w2 = Some (bv_generation s, boot_stage_header h)"
    using boot_stage_inv [OF assms(1,3,7-9) rd(4), of "boot_stage_header h"] v by (simp_all add: w2_def)
  have wh: "write_header env (bv_generation s) (boot_stage_header h) w' = (w2, Ok ())"
    using no_faults [OF assms(7)] by (simp add: write_header_def write_side_ok w2_def)
  have ne: "bv_generation p \<noteq> bv_generation s" using assms(4) by auto
  have "load (record_store_ops env rc) w' = Ok \<lparr>sbm_store = w2, current = bv_entries v, generation = bv_generation s,
      committed_entries = bv_entries v, committed_generation = bv_generation s,
      sbm_transaction = Some (boot_stage_header h), pending = None\<rparr>"
    using wh ne by (simp add: load_def rd(1-3) v assms(4,6) Let_def boot_stage_header_def)
  then show ?thesis
    using i2 v by (auto simp: coherent_def view_record [OF i2(1)] mirrors_def)
qed

end

text \<open>The boot stage acting on the in-memory record.\<close>

definition boot_stage :: "(mem_record, 'raw) world \<Rightarrow> (mem_record, 'raw) world" where
  "boot_stage w = w\<lparr>w_host := mr_boot_stage_rollback (w_host w)\<rparr>"

lemma mem_reach_coherent:
  "env_ok env \<Longrightarrow> mgr_reach sha (record_store_ops env mem_record_ops) (fresh_world (mem_routing ids)) m \<Longrightarrow>
    coherent (record_store_ops env mem_record_ops) (rs_inv env mem_record_ops (mem_inv env)) m"
  by (rule mem_rec.store.reach_coherent [OF fresh_mem_inv])

lemma boot_stage_record:
  assumes "mem_inv env w" "copy_of mem_record_ops w Secondary = Some s"
  shows "mem_inv env (boot_stage w) \<and> sides_same w (boot_stage w) \<and> copy_of mem_record_ops (boot_stage w) c = Some s"
proof -
  have i: "mem_inv env (boot_stage w)"
    using assms(1) by (simp add: mem_inv_def boot_stage_def mr_boot_stage_rollback_def)
  have "mr_secondary (w_host w) = Some s" using assms(2) by (simp add: mem_copy [OF assms(1)])
  then show ?thesis
    using i mem_copy [OF i, of c] by (cases c) (simp_all add: boot_stage_def mr_boot_stage_rollback_def)
qed

text \<open>C34: When the boot stage discards a sealed trial by restoring the committed copy of its record while
  the node is down, the next load finds it out: it boots the committed selection at its generation,
  records the trial as rolled back by the boot stage with the boot ids and count kept, and a later
  restart loads the same.\<close>

theorem boot_stage_rollback_detected:
  assumes "env_ok env" "mgr_reach sha (record_store_ops env mem_record_ops) (fresh_world (mem_routing ids)) m"
    and "generation m \<noteq> -1" "pending m = Some p" "committed_generation m \<noteq> 0"
  shows "\<exists>m1 m2. seal sha (record_store_ops env mem_record_ops) armed m = (m1, Ok True)
    \<and> load (record_store_ops env mem_record_ops) (boot_stage (sbm_store m1)) = Ok m2
    \<and> current m2 = committed_entries m \<and> generation m2 = committed_generation m \<and> \<not> is_trial m2
    \<and> sbm_transaction m2 = Some (boot_stage_header (fresh_header sha armed))
    \<and> load (record_store_ops env mem_record_ops) (sbm_store m2) = Ok m2"
proof -
  let ?ops = "record_store_ops env mem_record_ops" and ?inv = "rs_inv env mem_record_ops (mem_inv env)"
  let ?copy = "copy_of mem_record_ops"
  obtain m1 where m1: "seal sha ?ops armed m = (m1, Ok True)" "coherent ?ops ?inv m1" "generation m < generation m1"
      "committed_entries m1 = committed_entries m" "committed_generation m1 = committed_generation m"
      "sbm_transaction m1 = Some (fresh_header sha armed)"
    using mem_rec.mgr_seal [OF mem_reach_coherent [OF assms(1,2)] assms(3,4)] by blast
  let ?w = "sbm_store m1"
  have inv: "?inv ?w" and mm: "mirrors (view ?ops ?w) m1" using m1(2) by (simp_all add: coherent_def)
  have mi: "mem_inv env ?w" using inv by (simp add: rs_inv_def)
  obtain s where s: "?copy ?w Secondary = Some s" "bv_generation s = committed_generation m"
      "map_option bv_entries (whole_secondary env mem_record_ops ?w) = Some (committed_entries m)"
    using mm assms(5) m1(4,5)
    by (auto simp: mirrors_def mem_rec.view_record [OF inv] whole_secondary_def split: option.splits)
  have "committed_generation m \<le> generation m"
    using mem_reach_coherent [OF assms(1,2)] unfolding coherent_def mirrors_def by blast
  then have "generation m1 \<noteq> 0" and lt: "committed_generation m < generation m1" using m1(3) assms(5) by auto
  then obtain q where q: "?copy ?w Primary = Some q" "bv_generation q = generation m1"
    using mm by (auto simp: mirrors_def mem_rec.view_record [OF inv] whole_primary_def split: option.splits)
  have hd: "header_of env ?w = Some (bv_generation q, fresh_header sha armed)"
    using mm q(2) m1(6) by (simp add: mirrors_def mem_rec.view_record [OF inv])
  have bs: "mem_inv env (boot_stage ?w)" "sides_same ?w (boot_stage ?w)" "\<And>c. ?copy (boot_stage ?w) c = Some s"
    using boot_stage_record [OF mi s(1)] by auto
  have "bv_generation s < bv_generation q" using s(2) q(2) lt by simp
  moreover have "tx_resolution (fresh_header sha armed) = None" by (simp add: fresh_header_def)
  ultimately obtain m2 where m2: "load ?ops (boot_stage ?w) = Ok m2" "coherent ?ops ?inv m2" "pending m2 = None"
      "current m2 = committed_entries m" "generation m2 = committed_generation m" "committed_entries m2 = current m2"
      "sbm_transaction m2 = Some (boot_stage_header (fresh_header sha armed))"
    using mem_rec.boot_stage_load [OF inv q(1) s(1) _ hd _ bs] s(2,3) by auto
  have "m2\<lparr>pending := None\<rparr> = m2" using m2(3) by simp
  then have "load ?ops (sbm_store m2) = Ok m2" using mem_rec.store.coherent_load [OF m2(2)] by simp
  with m1(1) m2 show ?thesis by (auto simp: is_trial_def)
qed

text \<open>A concrete history for the witness: seal and commit one selection, stage another.\<close>

lemma mem_seal_generation:
  assumes "coherent (record_store_ops env mem_record_ops) (rs_inv env mem_record_ops (mem_inv env)) m"
    and "seal sha (record_store_ops env mem_record_ops) armed m = (m', Ok True)"
  shows "generation m' = generation m + 1"
proof -
  let ?w = "sbm_store m"
  have inv: "rs_inv env mem_record_ops (mem_inv env) ?w" and mi: "mem_inv env ?w"
    using assms(1) by (simp_all add: coherent_def rs_inv_def)
  have top: "record_top mem_record_ops ?w = generation m"
    using assms(1) mirrors_top [of _ m] unfolding mem_rec.view_top [OF inv, symmetric] by (simp add: coherent_def)
  from assms(2) show ?thesis
  proof (cases rule: seal_cases)
    case (3 p store' g)
    then have "g = record_top mem_record_ops ?w + 1"
      using mi by (auto simp: rs_activate_def mem_rec.br_generation_copy [OF mi] on_host_def mr_activate_def mr_read_def
          mem_inv_def record_top_def copy_of_def next_generation_def Let_def split: sum.splits prod.splits)
    with 3 top show ?thesis by simp
  qed simp_all
qed

lemma split_floor:
  "\<exists>m p. mgr_reach (\<lambda>b. b) (record_store_ops env0 mem_record_ops) (fresh_world (mem_routing [''os''])) m
    \<and> generation m = 1 \<and> committed_generation m = 1 \<and> pending m = Some p"
proof -
  let ?ops = "record_store_ops env0 mem_record_ops" and ?w0 = "fresh_world (mem_routing [''os'']) :: (mem_record, selector_blob) world"
  note coh = mem_reach_coherent [OF env0_ok]
  obtain m0 where m0: "load ?ops ?w0 = Ok m0" "sbm_store m0 = ?w0" using load_fresh_mem by blast
  have r0: "mgr_reach (\<lambda>b. b) ?ops ?w0 m0" by (rule mgr_reach.boot [OF m0(1)])
  have g0: "generation m0 = 0"
  proof -
    have "copy_of mem_record_ops ?w0 Primary = None" by (simp add: copy_of_def mr_read_def mem_routing_def)
    then show ?thesis
      using coh [OF r0] unfolding coherent_def mirrors_def m0(2)
      by (simp add: mem_rec.view_record [OF fresh_mem_inv(1) [OF env0_ok]] whole_primary_def)
  qed
  define m1 where "m1 = stage ''os'' B fmempty m0"
  have r1: "mgr_reach (\<lambda>b. b) ?ops ?w0 m1" and g1: "generation m1 = 0" and p1: "pending m1 \<noteq> None"
    using mgr_reach.step [OF r0, of "OpStage ''os'' B fmempty"] g0 by (simp_all add: m1_def stage_def Let_def)
  obtain m2 where m2: "seal (\<lambda>b. b) ?ops None m1 = (m2, Ok True)"
    using mem_rec.mgr_seal [OF coh [OF r1], of _ "\<lambda>b. b" None] p1 g1 by auto
  have g2: "generation m2 = 1" using mem_seal_generation [OF coh [OF r1] m2] g1 by simp
  have r2: "mgr_reach (\<lambda>b. b) ?ops ?w0 m2" using mgr_reach.step [OF r1, of "OpSeal None"] m2 g1 by simp
  obtain m3 where m3: "commit ?ops m2 = (m3, Ok ())" "generation m3 = 1" "committed_generation m3 = 1"
    using mem_rec.mgr_commit [OF coh [OF r2]] g2 by auto
  have r3: "mgr_reach (\<lambda>b. b) ?ops ?w0 m3" using mgr_reach.step [OF r2, of OpCommit] m3(1) g2 by simp
  show ?thesis
    using mgr_reach.step [OF r3, of "OpStage ''os'' A fmempty"] m3
    by (intro exI [of _ "stage ''os'' A fmempty m3"]) (simp add: stage_def Let_def)
qed

theorem boot_stage_rollback_detected_witness:
  "\<exists>m m1 m2. seal (\<lambda>b. b) (record_store_ops env0 mem_record_ops) (Some ''boot-1'') m = (m1, Ok True)
    \<and> load (record_store_ops env0 mem_record_ops) (boot_stage (sbm_store m1)) = Ok m2
    \<and> generation m2 = 1 \<and> \<not> is_trial m2
    \<and> sbm_transaction m2 = Some (boot_stage_header (fresh_header (\<lambda>b. b) (Some ''boot-1'')))"
proof -
  obtain m p where "mgr_reach (\<lambda>b. b) (record_store_ops env0 mem_record_ops) (fresh_world (mem_routing [''os''])) m"
    "generation m = 1" "committed_generation m = 1" "pending m = Some p"
    using split_floor by blast
  then show ?thesis
    using boot_stage_rollback_detected [OF env0_ok, of "\<lambda>b. b" "[''os'']" m p "Some ''boot-1''"] by fastforce
qed

end
