(* ===== verification/StoreFaults.thy ===== *)
theory StoreFaults
  imports SystemProps
begin

text \<open>
  What the file store does when a write fails. The schedule of a directory says which of the
  next writes fail and on which side of the rename; the reads do not depend on it.
\<close>

section \<open>Worlds with a schedule\<close>

definition with_faults :: "write_fault list \<Rightarrow> ('h, 'raw) world \<Rightarrow> ('h, 'raw) world" where
  "with_faults fl w = w\<lparr>w_files := (w_files w)\<lparr>sf_faults := fl\<rparr>\<rparr>"

lemma with_faults_simps [simp]:
  "blob env (with_faults fl w) n = blob env w n" "readable (with_faults fl w) n = readable w n"
  "w_host (with_faults fl w) = w_host w" "sf_faults (w_files (with_faults fl w)) = fl"
  "with_faults fl (with_faults fl' w) = with_faults fl w"
  "put_side env n b (with_faults fl w) = with_faults fl (put_side env n b w)"
  by (simp_all add: with_faults_def blob_def read_verified_def read_blob_def readable_def put_side_def put_file_def)

lemma with_no_faults: "sf_faults (w_files w) = [] \<Longrightarrow> with_faults [] w = w"
  by (simp add: with_faults_def)

lemma write_side_faults:
  "write_side env n b (with_faults [] w) = (with_faults [] (put_side env n b w), Ok ())"
  "write_side env n b (with_faults (WriteOk # fl) w) = (with_faults fl (put_side env n b w), Ok ())"
  "write_side env n b (with_faults (FailBefore e # fl) w) = (with_faults fl w, Err e)"
  "write_side env n b (with_faults (FailAfter e # fl) w) = (with_faults fl (put_side env n b w), Err e)"
  by (simp_all add: write_side_def write_blob_def with_faults_def put_side_def put_file_def)

lemma write_copy_side:
  "write_copy env w c g es = write_side env (copy_name c) (copy_blob env (w_host w) g es) w"
  by (simp add: write_copy_def copy_blob_def Let_def)

lemma file_read_faults: "file_read env (with_faults fl w) c = file_read env w c"
  by (simp add: file_read_def read_verified_def read_blob_def with_faults_def)

lemma file_activate_faults:
  assumes "file_inv env w"
  shows "file_activate env (with_faults fl w) rs =
    (case write_side env PRIMARY (copy_blob env (w_host w)
        (record_top (file_record_ops env) w + 1) rs) (with_faults fl w) of
       (w1, Err e) \<Rightarrow> (w1, Err e) | (w1, Ok _) \<Rightarrow> (w1, Ok (record_top (file_record_ops env) w + 1)))"
proof -
  have "next_generation (copy_of (file_record_ops env) w Primary) (copy_of (file_record_ops env) w Secondary) =
      record_top (file_record_ops env) w + 1"
    by (simp add: next_generation_def record_top_def)
  then show ?thesis
    by (simp add: file_activate_def file_read_faults file_read_copy [OF assms] write_copy_side)
qed

lemma put_primary:
  assumes "file_inv env w"
  defines "w' \<equiv> \<lambda>g es. put_side env PRIMARY (copy_blob env (w_host w) g es) w"
  shows "file_inv env (w' g es)"
    and "copy_of (file_record_ops env) (w' g es) Primary = Some \<lparr>bv_generation = g, bv_entries = es\<rparr>"
    and "copy_of (file_record_ops env) (w' g es) Secondary = copy_of (file_record_ops env) w Secondary"
    and "sides_same w (w' g es)"
  using put_copy_inv [OF assms(1), of Primary] put_copy_of [OF assms(1), of Primary] put_copy_sides [of w env Primary]
  by (simp_all add: w'_def)

section \<open>A write that fails late\<close>

text \<open>A failed activation can leave the new vector as the primary: when the re-open or the last fsync
  of \<^verbatim>\<open>write_blob\<close> fails, after the rename, the file record's \<^verbatim>\<open>activate\<close> returns the error although
  the primary that boots is already the new one.\<close>

theorem activate_err_after_rename:
  assumes "file_inv env w"
  shows "\<exists>w'. file_activate env (with_faults (FailAfter e # fl) w) es = (w', Err e)
    \<and> file_read env w' Primary = Ok (Some \<lparr>bv_generation = record_top (file_record_ops env) w + 1, bv_entries = es\<rparr>)
    \<and> file_read env w' Secondary = file_read env w Secondary"
proof -
  let ?g = "record_top (file_record_ops env) w + 1"
  let ?w' = "put_side env PRIMARY (copy_blob env (w_host w) ?g es) w"
  note p = put_primary [OF assms, of ?g es]
  have "file_read env ?w' Primary = Ok (Some \<lparr>bv_generation = ?g, bv_entries = es\<rparr>)"
    "file_read env ?w' Secondary = file_read env w Secondary"
    using file_read_copy [OF p(1)] file_read_copy [OF assms, of Secondary] p(2,3) by simp_all
  then show ?thesis
    by (intro exI [of _ "with_faults fl ?w'"])
       (simp add: file_activate_faults [OF assms] write_side_faults file_read_faults)
qed

lemma fresh_file_inv0: "file_inv env0 (fresh_world None)"
  by (simp add: file_inv_def)

theorem activate_err_after_rename_witness:
  "\<exists>w' g. file_activate env0 (with_faults [FailAfter SelIo] (fresh_world None)) vec1 = (w', Err SelIo)
    \<and> file_read env0 w' Primary = Ok (Some \<lparr>bv_generation = g, bv_entries = vec1\<rparr>)"
  using activate_err_after_rename [OF fresh_file_inv0, of SelIo "[]" vec1] by blast

section \<open>Manager rows that could not be written\<close>

lemma faults_reads [simp]:
  "rs_read_primary env (file_record_ops env) (with_faults fl w) = rs_read_primary env (file_record_ops env) w"
  "rs_read_secondary env (file_record_ops env) (with_faults fl w) = rs_read_secondary env (file_record_ops env) w"
  "rs_read_transaction env (file_record_ops env) (with_faults fl w) = rs_read_transaction env (file_record_ops env) w"
proof -
  have v: "read_verified env (w_files (with_faults fl w)) n = read_verified env (w_files w) n" for n
    by (simp add: read_verified_def read_blob_def with_faults_def)
  have r: "rows_at env (with_faults fl w) n g = rows_at env w n g" for n g by (simp add: rows_at_def v)
  have f: "first_rows_at env (with_faults fl w) ns g = first_rows_at env w ns g" for ns g
    by (induction ns) (simp_all add: r)
  have n: "newest_rows env (with_faults fl w) g = newest_rows env w g" for g
    by (simp add: newest_rows_def v cong: option.case_cong)
  show "rs_read_primary env (file_record_ops env) (with_faults fl w) = rs_read_primary env (file_record_ops env) w"
    by (simp add: rs_read_primary_def file_read_faults f n del: first_rows_at.simps cong: option.case_cong)
  show "rs_read_secondary env (file_record_ops env) (with_faults fl w) = rs_read_secondary env (file_record_ops env) w"
    by (simp add: rs_read_secondary_def file_read_faults r n br_generation_def cong: option.case_cong if_cong)
  show "rs_read_transaction env (file_record_ops env) (with_faults fl w) = rs_read_transaction env (file_record_ops env) w"
    by (simp add: rs_read_transaction_def attributed_transaction_def v file_legacy_transaction_def
        cong: option.case_cong)
qed

lemma br_generation_faults:
  "file_inv env w \<Longrightarrow> br_generation (file_record_ops env) (with_faults fl w) c =
    Ok (map_option bv_generation (copy_of (file_record_ops env) w c))"
  by (simp add: br_generation_def file_read_faults file_read_copy)

text \<open>The view of the store is a function of the record's copies and the side files.\<close>

lemma same_copies_same_view:
  assumes "rs_inv env rc rinv w" "rinv w'" "sides_same w w'"
    and "copy_of rc w' Primary = copy_of rc w Primary" "copy_of rc w' Secondary = copy_of rc w Secondary"
  shows "rs_inv env rc rinv w' \<and> whole_primary env rc w' = whole_primary env rc w
    \<and> whole_secondary env rc w' = whole_secondary env rc w \<and> header_of env w' = header_of env w"
proof -
  note r = sides_same_rows [OF assms(3)]
  have r2: "rows2 env w' ROWS COMMITTED g = rows2 env w ROWS COMMITTED g" for g
    by (rule rows2_cong) (simp_all add: r)
  have h: "header_of env w' = header_of env w" by (simp add: header_of_def sides_same_blob [OF assms(3)])
  have "\<forall>n \<in> side_names. readable w' n"
    using assms(1) by (simp add: sides_same_readable [OF assms(3)] rs_inv_def)
  then have "rs_inv env rc rinv w'"
    using assms(1,2) unfolding rs_inv_def assms(4,5) h by (simp add: r r2)
  then show ?thesis by (simp add: whole_primary_def whole_secondary_def assms(4,5) r r2 h)
qed

text \<open>Out of a trial an activation whose manager rows cannot be written is undone: it returns the error,
  the record is rolled back, and both copies and the header read as before.\<close>

theorem activate_failed_rows_undone:
  assumes "rs_inv env (file_record_ops env) (file_inv env) w"
    and "copy_of (file_record_ops env) w Primary = Some p" "copy_of (file_record_ops env) w Secondary = Some s"
    and "bv_generation p = bv_generation s" "bv_generation s \<noteq> -1"
  shows "\<exists>w'. st_activate (file_store_ops env) (with_faults [WriteOk, FailBefore e] w) es h = (w', Err e)
    \<and> st_read_primary (file_store_ops env) w' = st_read_primary (file_store_ops env) w
    \<and> st_read_secondary (file_store_ops env) w' = st_read_secondary (file_store_ops env) w
    \<and> st_read_transaction (file_store_ops env) w' = st_read_transaction (file_store_ops env) w"
proof -
  let ?rc = "file_record_ops env"
  have fi: "file_inv env w" and ps: "p = s" using assms by (auto simp: rs_inv_def)
  let ?g = "bv_generation s + 1"
  have top: "record_top ?rc w + 1 = ?g" using assms(2,3) ps by (simp add: record_top_def)
  define w1 where "w1 = put_side env PRIMARY (copy_blob env (w_host w) ?g es) w"
  define w2 where "w2 = put_side env PRIMARY (copy_blob env (w_host w1) (bv_generation s) (bv_entries s)) w1"
  note c1 = put_primary [OF fi, of ?g es, folded w1_def]
  note c2 = put_primary [OF c1(1), of "bv_generation s" "bv_entries s", folded w2_def]
  have ne: "\<lparr>bv_generation = ?g, bv_entries = es\<rparr> \<noteq> s"
    using word_less_succ [OF assms(5)] by (cases s) auto
  have rb: "file_rollback env (with_faults [] w1) = (with_faults [] w2, Ok (bv_generation s))"
    using ne by (simp add: file_rollback_def file_read_faults file_read_copy [OF c1(1)] c1(2,3) assms(3)
        write_copy_side write_side_faults w2_def)
  have "st_activate (file_store_ops env) (with_faults [WriteOk, FailBefore e] w) es h = (with_faults [] w2, Err e)"
    using assms(2-4) rb
    by (simp add: file_store_ops_def rs_activate_def br_generation_faults [OF fi] file_activate_faults [OF fi] top
        write_side_faults write_rows_def or_zero_def Let_def flip: w1_def)
  moreover have "sides_same w w2" using c1(4) c2(4) by (simp add: sides_same_def)
  then have "rs_inv env ?rc (file_inv env) w2 \<and> whole_primary env ?rc w2 = whole_primary env ?rc w
      \<and> whole_secondary env ?rc w2 = whole_secondary env ?rc w \<and> header_of env w2 = header_of env w"
    using same_copies_same_view [OF assms(1) c2(1)] c2(2,3) c1(3) assms(2,3) ps by simp
  ultimately show ?thesis
    using file_rec.view_whole [OF assms(1)] file_rec.view_whole [of env w2] by (auto simp: file_store_ops_def)
qed

text \<open>A committed store for the witnesses: the floor of the previous section, one vector in both copies.\<close>

lemma floor1_store:
  "rs_inv env0 (file_record_ops env0) (file_inv env0) (sbm_store floor1)"
  "\<exists>p s. copy_of (file_record_ops env0) (sbm_store floor1) Primary = Some p
    \<and> copy_of (file_record_ops env0) (sbm_store floor1) Secondary = Some s \<and> bv_generation p = 1 \<and> bv_generation s = 1"
proof -
  note c = file_reach_coherent [OF env0_ok floor1_facts(1)]
  then show inv: "rs_inv env0 (file_record_ops env0) (file_inv env0) (sbm_store floor1)" by (simp add: coherent_def)
  show "\<exists>p s. copy_of (file_record_ops env0) (sbm_store floor1) Primary = Some p
    \<and> copy_of (file_record_ops env0) (sbm_store floor1) Secondary = Some s \<and> bv_generation p = 1 \<and> bv_generation s = 1"
    using c floor1_facts(2,3)
    by (auto simp: coherent_def mirrors_def file_rec.view_record [OF inv] whole_primary_def whole_secondary_def
        vec_generation_def split: option.splits)
qed

theorem activate_failed_rows_undone_witness:
  "\<exists>w'. st_activate (file_store_ops env0) (with_faults [WriteOk, FailBefore SelIo] (sbm_store floor1)) vec1 blank_header
      = (w', Err SelIo)
    \<and> st_read_primary (file_store_ops env0) w' = st_read_primary (file_store_ops env0) (sbm_store floor1)"
proof -
  obtain p s where "copy_of (file_record_ops env0) (sbm_store floor1) Primary = Some p"
    "copy_of (file_record_ops env0) (sbm_store floor1) Secondary = Some s" "bv_generation p = 1" "bv_generation s = 1"
    using floor1_store(2) by blast
  then show ?thesis
    using activate_failed_rows_undone [OF floor1_store(1), of p s SelIo vec1 blank_header] by auto
qed

lemma or_zero_generation: "or_zero (map_option bv_generation v) = vec_generation v"
  by (cases v) (simp_all add: or_zero_def)

text \<open>During a standing trial an activation whose manager rows cannot be written is not undone: it
  returns the error, and the record's primary is the new selection at a new generation, although the
  manager keeps the old one.\<close>

theorem activate_err_in_standing_trial:
  assumes "rs_inv env (file_record_ops env) (file_inv env) w"
    and "vec_generation (copy_of (file_record_ops env) w Primary) \<noteq> vec_generation (copy_of (file_record_ops env) w Secondary)"
  shows "\<exists>w'. st_activate (file_store_ops env) (with_faults [WriteOk, FailBefore e] w) es h = (w', Err e)
    \<and> file_read env w' Primary =
        Ok (Some \<lparr>bv_generation = record_top (file_record_ops env) w + 1, bv_entries = es\<rparr>)"
proof -
  let ?rc = "file_record_ops env" and ?g = "record_top (file_record_ops env) w + 1"
  have fi: "file_inv env w" using assms by (simp add: rs_inv_def)
  define w1 where "w1 = put_side env PRIMARY (copy_blob env (w_host w) ?g es) w"
  note c1 = put_primary [OF fi, of ?g es, folded w1_def]
  have "or_zero (map_option bv_generation (copy_of ?rc w Primary)) \<noteq> or_zero (map_option bv_generation (copy_of ?rc w Secondary))"
    using assms(2) by (simp add: or_zero_generation)
  then have "st_activate (file_store_ops env) (with_faults [WriteOk, FailBefore e] w) es h = (with_faults [] w1, Err e)"
    by (simp add: file_store_ops_def rs_activate_def br_generation_faults [OF fi] file_activate_faults [OF fi]
        write_side_faults write_rows_def Let_def flip: w1_def)
  moreover have "file_read env (with_faults [] w1) Primary = Ok (Some \<lparr>bv_generation = ?g, bv_entries = es\<rparr>)"
    by (simp add: file_read_faults file_read_copy [OF c1(1)] c1(2))
  ultimately show ?thesis by blast
qed

lemma trial2_store:
  "rs_inv env0 (file_record_ops env0) (file_inv env0) (sbm_store trial2)"
  "vec_generation (copy_of (file_record_ops env0) (sbm_store trial2) Primary) = 2"
  "vec_generation (copy_of (file_record_ops env0) (sbm_store trial2) Secondary) = 1"
proof -
  note c = file_reach_coherent [OF env0_ok trial2_facts(1)]
  then show inv: "rs_inv env0 (file_record_ops env0) (file_inv env0) (sbm_store trial2)" by (simp add: coherent_def)
  show "vec_generation (copy_of (file_record_ops env0) (sbm_store trial2) Primary) = 2"
    "vec_generation (copy_of (file_record_ops env0) (sbm_store trial2) Secondary) = 1"
    using c trial2_facts(3,4)
    by (simp_all add: coherent_def mirrors_def file_rec.view_record [OF inv] vec_generation_copies)
qed

theorem activate_err_in_standing_trial_witness:
  "\<exists>w'. st_activate (file_store_ops env0) (with_faults [WriteOk, FailBefore SelIo] (sbm_store trial2)) vec1 blank_header
      = (w', Err SelIo)
    \<and> file_read env0 w' Primary = Ok (Some \<lparr>bv_generation = 3, bv_entries = vec1\<rparr>)"
  using activate_err_in_standing_trial [OF trial2_store(1), of SelIo vec1 blank_header]
  by (simp add: trial2_store record_top_def)

section \<open>A lost header\<close>

lemma lost_header_reads:
  assumes "rs_inv env (file_record_ops env) (file_inv env) w" "record_top (file_record_ops env) w < g"
    and "file_inv env w1" "copy_of (file_record_ops env) w1 Primary = Some \<lparr>bv_generation = g, bv_entries = es\<rparr>"
    and "copy_of (file_record_ops env) w1 Secondary = copy_of (file_record_ops env) w Secondary" "sides_same w w1"
  defines "w2 \<equiv> put_side env ROWS (sf_sign env g fmempty None) w1"
  shows "rs_read_primary env (file_record_ops env) w2 = Ok (Some \<lparr>bv_generation = g, bv_entries = es\<rparr>)"
    and "rs_read_secondary env (file_record_ops env) w2 = rs_read_secondary env (file_record_ops env) w"
    and "rs_read_transaction env (file_record_ops env) w2 = header_of env w"
    and "header_of env w = Some (g0, h0) \<Longrightarrow> g0 < g"
proof -
  let ?rc = "file_record_ops env"
  have ok: "env_ok env" using assms(3) by (simp add: file_inv_def)
  have fi: "file_inv env w2" and cp: "copy_of ?rc w2 c = copy_of ?rc w1 c" for c
    using put_side_file [OF assms(3), of ROWS] by (simp_all add: w2_def)
  have rd: "readable w2 ROWS" "readable w2 COMMITTED" "readable w2 TRANSACTION"
    using assms(1) by (simp_all add: w2_def sides_same_readable [OF assms(6)] rs_inv_def)
  have c: "rows env w2 COMMITTED k = rows env w COMMITTED k" and r: "rows env w2 ROWS g = Some fmempty" for k
    by (simp_all add: w2_def put_signed ok sides_same_rows [OF assms(6)])
  show "rs_read_primary env ?rc w2 = Ok (Some \<lparr>bv_generation = g, bv_entries = es\<rparr>)"
    using r by (simp add: rs_read_primary_def file_read_copy [OF fi] cp assms(4) first_rows_at_eq rd rows2_def
        union_rows_def del: first_rows_at.simps)
  have "rs_read_secondary env ?rc w2 = Ok (whole_secondary env ?rc w)"
    using assms(1) by (cases "copy_of ?rc w Secondary")
      (auto simp: rs_read_secondary_def file_read_copy [OF fi] cp assms(5) rows_at_eq rd c whole_secondary_def rs_inv_def)
  then show "rs_read_secondary env ?rc w2 = rs_read_secondary env ?rc w"
    by (simp add: file_rec.view_whole [OF assms(1)])
  have "header_of env w2 = header_of env w"
    by (simp add: w2_def ok) (simp add: header_of_def sides_same_blob [OF assms(6)])
  then show "rs_read_transaction env ?rc w2 = header_of env w"
    using file_rec.no_legacy [OF fi]
    by (auto simp: rs_read_transaction_def attributed_transaction_def read_verified_blob rd header_of_def
        split: option.splits)
  show "g0 < g" if "header_of env w = Some (g0, h0)"
  proof -
    have "map_option bv_generation (copy_of ?rc w Primary) = Some g0" using assms(1) that by (simp add: rs_inv_def)
    then have "g0 \<le> record_top ?rc w" by (auto simp: record_top_def)
    with assms(2) show ?thesis by simp
  qed
qed

text \<open>When only the header cannot be written the activation still succeeds: the new vector is the
  primary, the floor is unchanged, and a load finds no header (the old one is stale), so the boots
  of this trial are not counted.\<close>

theorem activate_lost_header:
  assumes "rs_inv env (file_record_ops env) (file_inv env) w" "record_top (file_record_ops env) w \<noteq> -1"
  shows "\<exists>w' g m. st_activate (file_store_ops env) (with_faults [WriteOk, WriteOk, FailBefore e] w) es h = (w', Ok g)
    \<and> record_top (file_record_ops env) w < g
    \<and> st_read_primary (file_store_ops env) w' = Ok (Some \<lparr>bv_generation = g, bv_entries = es\<rparr>)
    \<and> st_read_secondary (file_store_ops env) w' = st_read_secondary (file_store_ops env) w
    \<and> load (file_store_ops env) w' = Ok m \<and> current m = es \<and> generation m = g \<and> sbm_transaction m = None"
proof -
  let ?rc = "file_record_ops env" and ?g = "record_top (file_record_ops env) w + 1"
  have fi: "file_inv env w" using assms by (simp add: rs_inv_def)
  have ok: "env_ok env" using fi by (simp add: file_inv_def)
  define w1 where "w1 = put_side env PRIMARY (copy_blob env (w_host w) ?g es) w"
  define w2 where "w2 = put_side env ROWS (sf_sign env ?g fmempty None) w1"
  note c1 = put_primary [OF fi, of ?g es, folded w1_def]
  have act: "st_activate (file_store_ops env) (with_faults [WriteOk, WriteOk, FailBefore e] w) es h = (with_faults [] w2, Ok ?g)"
    by (simp add: file_store_ops_def rs_activate_def br_generation_faults [OF fi] file_activate_faults [OF fi]
        write_side_faults write_rows_def write_header_def Let_def flip: w1_def) (simp add: w2_def)
  have lt: "record_top ?rc w < ?g" using assms(2) by (rule word_less_succ)
  note rd = lost_header_reads [OF assms(1) lt c1, folded w2_def]
  obtain q where q: "st_read_secondary (file_store_ops env) w = Ok q"
    using file_rec.view_whole(2) [OF assms(1)] by (simp add: file_store_ops_def)
  have "\<exists>m. load (file_store_ops env) w2 = Ok m \<and> current m = es \<and> generation m = ?g \<and> sbm_transaction m = None"
    using rd q by (cases "header_of env w") (fastforce simp: load_def file_store_ops_def Let_def)+
  then obtain m where m: "load (file_store_ops env) w2 = Ok m" "current m = es" "generation m = ?g" "sbm_transaction m = None"
    by blast
  have "st_read_primary (file_store_ops env) w2 = Ok (Some \<lparr>bv_generation = ?g, bv_entries = es\<rparr>)"
    "st_read_secondary (file_store_ops env) w2 = st_read_secondary (file_store_ops env) w"
    using rd(1,2) by (simp_all add: file_store_ops_def)
  moreover have "with_faults [] w2 = w2" using fi by (intro with_no_faults) (simp add: w2_def w1_def file_inv_def)
  ultimately show ?thesis using act lt m by (intro exI [of _ w2] exI [of _ ?g] exI [of _ m]) simp
qed

theorem activate_lost_header_witness:
  "\<exists>w' g m. st_activate (file_store_ops env0) (with_faults [WriteOk, WriteOk, FailBefore SelIo] (sbm_store floor1)) vec1 blank_header
      = (w', Ok g)
    \<and> load (file_store_ops env0) w' = Ok m \<and> current m = vec1 \<and> sbm_transaction m = None"
proof -
  have "record_top (file_record_ops env0) (sbm_store floor1) \<noteq> -1"
    using floor1_store(2) by (auto simp: record_top_def)
  then show ?thesis
    using activate_lost_header [OF floor1_store(1), of SelIo vec1 blank_header] by blast
qed

end
