(* ===== verification/NodeUpdate.thy ===== *)
theory NodeUpdate
  imports SystemBank
begin

text \<open>
  The node's update-transaction coordinator of \<^verbatim>\<open>crates/machine-mgr/src/node_update.rs\<close>: the phase
  derived from the components' bank reports, the gate for a new flash session, and the in-memory
  staging session. A probe is a closure that reads the rest of the node when it is called; it is
  modelled as a function of a world \<open>'w\<close>, the state of everything outside the coordinator, which
  every operation that calls a probe takes as an argument. Each operation takes the staging lock
  once, so a concurrent history of the staging session is a sequence of these operations, each
  in the world its reports were read in.
\<close>

section \<open>Model\<close>

subsection \<open>A component's bank report\<close>

record bank_contents =
  bc_bank :: bank
  bc_images :: "(string, image_entry) fmap"
  bc_install_boot_id :: "string option"
  bc_update_id :: "string option"
  bc_sealed :: bool

record component_banks =
  cb_active :: bank_contents
  cb_inactive :: "bank_contents option"
  cb_in_trial :: bool
  cb_pending_reset :: bool

subsection \<open>Phases and decisions\<close>

datatype node_phase = Idle | Staging | RebootPending | Trial

record node_snapshot =
  ns_phase :: node_phase
  ns_components :: "string list"
  ns_reboot_owed :: "string list"
  ns_rebooted_since_arming :: "bool option"

definition idle_snapshot :: node_snapshot where
  "idle_snapshot = \<lparr>ns_phase = Idle, ns_components = [], ns_reboot_owed = [],
     ns_rebooted_since_arming = None\<rparr>"

record staging_session =
  sg_components :: "string list"

record durable_facts =
  du_reboot_owed :: "string list"
  du_rebooted_since_arming :: "bool option"

datatype admitted = OpenedNew | Joined

datatype refused = RefusedRebootPending "string list" | RefusedTrial "string list"

definition derive :: "durable_facts \<Rightarrow> string list \<Rightarrow> staging_session option \<Rightarrow> node_snapshot" where
  "derive durable in_trial staging =
     (if du_reboot_owed durable \<noteq> [] then
        \<lparr>ns_phase = RebootPending, ns_components = du_reboot_owed durable,
         ns_reboot_owed = du_reboot_owed durable,
         ns_rebooted_since_arming = du_rebooted_since_arming durable\<rparr>
      else if in_trial \<noteq> [] then
        \<lparr>ns_phase = Trial, ns_components = in_trial, ns_reboot_owed = [],
         ns_rebooted_since_arming = du_rebooted_since_arming durable\<rparr>
      else case staging of
        Some s \<Rightarrow> \<lparr>ns_phase = Staging, ns_components = sg_components s, ns_reboot_owed = [],
                   ns_rebooted_since_arming = None\<rparr>
      | None \<Rightarrow> idle_snapshot)"

definition admit ::
    "string \<Rightarrow> durable_facts \<Rightarrow> string list \<Rightarrow> staging_session option
       \<Rightarrow> staging_session option \<times> (refused + admitted)" where
  "admit cid durable in_trial staging =
     (if du_reboot_owed durable \<noteq> [] then
        (staging, Err (RefusedRebootPending (du_reboot_owed durable)))
      else if in_trial \<noteq> [] \<and> du_rebooted_since_arming durable = Some True then
        (staging, Err (RefusedTrial in_trial))
      else case staging of
        None \<Rightarrow> (Some \<lparr>sg_components = [cid]\<rparr>, Ok OpenedNew)
      | Some s \<Rightarrow>
          (Some (if \<not> list_ex (\<lambda>x. x = cid) (sg_components s)
                 then s\<lparr>sg_components := sg_components s @ [cid]\<rparr> else s), Ok Joined))"

definition labels :: "(string \<times> component_banks) list \<Rightarrow> (component_banks \<Rightarrow> bool) \<Rightarrow> string list" where
  "labels reports keep = map fst (filter (\<lambda>(_, b). keep b) reports)"

subsection \<open>The coordinator\<close>

record 'w node_coordinator =
  nc_staging :: "staging_session option"
  nc_probes :: "(string \<times> ('w \<Rightarrow> component_banks option)) list"
  nc_rebooted :: "('w \<Rightarrow> string option \<Rightarrow> bool option) option"
  nc_node_boot_id :: "string option"
  nc_trial_boot_limit :: "u8 option"

definition coordinator_new :: "'w node_coordinator" where
  "coordinator_new = \<lparr>nc_staging = None, nc_probes = [], nc_rebooted = None,
     nc_node_boot_id = None, nc_trial_boot_limit = None\<rparr>"

definition with_node_boot_id :: "string \<Rightarrow> 'w node_coordinator \<Rightarrow> 'w node_coordinator" where
  "with_node_boot_id i c = c\<lparr>nc_node_boot_id := Some i\<rparr>"

definition with_trial_boot_limit :: "u8 option \<Rightarrow> 'w node_coordinator \<Rightarrow> 'w node_coordinator" where
  "with_trial_boot_limit l c = c\<lparr>nc_trial_boot_limit := l\<rparr>"

definition with_rebooted_probe ::
    "('w \<Rightarrow> string option \<Rightarrow> bool option) \<Rightarrow> 'w node_coordinator \<Rightarrow> 'w node_coordinator" where
  "with_rebooted_probe p c = c\<lparr>nc_rebooted := Some p\<rparr>"

text \<open>The shared system bank lives in the world; \<open>bank_of\<close> reads it there.\<close>

definition with_system_bank ::
    "(bytes \<Rightarrow> bytes) \<Rightarrow> ('w \<Rightarrow> 's system_bank_manager) \<Rightarrow> 'w node_coordinator \<Rightarrow> 'w node_coordinator" where
  "with_system_bank sha bank_of c =
     with_rebooted_probe (\<lambda>w boot_id. rebooted_since_arming sha (bank_of w) boot_id) c"

definition register_rebooted_fallback ::
    "('w \<Rightarrow> string option \<Rightarrow> bool option) \<Rightarrow> 'w node_coordinator \<Rightarrow> 'w node_coordinator" where
  "register_rebooted_fallback p c =
     c\<lparr>nc_rebooted := (case nc_rebooted c of Some q \<Rightarrow> Some q | None \<Rightarrow> Some p)\<rparr>"

fun put_probe :: "string \<Rightarrow> 'p \<Rightarrow> (string \<times> 'p) list \<Rightarrow> (string \<times> 'p) list" where
  "put_probe cid p [] = [(cid, p)]"
| "put_probe cid p ((i, q) # ps) = (if i = cid then (i, p) # ps else (i, q) # put_probe cid p ps)"

definition register_banks_probe ::
    "string \<Rightarrow> ('w \<Rightarrow> component_banks option) \<Rightarrow> 'w node_coordinator \<Rightarrow> 'w node_coordinator" where
  "register_banks_probe cid p c = c\<lparr>nc_probes := put_probe cid p (nc_probes c)\<rparr>"

definition reports :: "'w \<Rightarrow> 'w node_coordinator \<Rightarrow> (string \<times> component_banks) list" where
  "reports w c = List.map_filter (\<lambda>(i, p). map_option (Pair i) (p w)) (nc_probes c)"

definition pending_reset_labels :: "'w \<Rightarrow> 'w node_coordinator \<Rightarrow> string list" where
  "pending_reset_labels w c = labels (reports w c) cb_pending_reset"

definition in_trial_labels :: "'w \<Rightarrow> 'w node_coordinator \<Rightarrow> string list" where
  "in_trial_labels w c = labels (reports w c) cb_in_trial"

definition nc_rebooted_since_arming :: "'w \<Rightarrow> 'w node_coordinator \<Rightarrow> bool option" where
  "nc_rebooted_since_arming w c =
     (case nc_rebooted c of None \<Rightarrow> None | Some p \<Rightarrow> p w (nc_node_boot_id c))"

definition durable_of :: "'w \<Rightarrow> 'w node_coordinator \<Rightarrow> (string \<times> component_banks) list \<Rightarrow> durable_facts" where
  "durable_of w c rs =
     \<lparr>du_reboot_owed = labels rs cb_pending_reset,
      du_rebooted_since_arming = nc_rebooted_since_arming w c\<rparr>"

definition remove_from_staging :: "string \<Rightarrow> 'w node_coordinator \<Rightarrow> 'w node_coordinator" where
  "remove_from_staging cid c =
     (case nc_staging c of
        None \<Rightarrow> c
      | Some s \<Rightarrow>
          let s' = s\<lparr>sg_components := filter (\<lambda>x. x \<noteq> cid) (sg_components s)\<rparr>
          in c\<lparr>nc_staging := (if sg_components s' = [] then None else Some s')\<rparr>)"

definition gate_new_session ::
    "'w \<Rightarrow> string \<Rightarrow> 'w node_coordinator \<Rightarrow> 'w node_coordinator \<times> (refused + admitted)" where
  "gate_new_session w cid c =
     (let rs = reports w c;
          durable = durable_of w c rs;
          in_trial = labels rs cb_in_trial;
          (st, r) = admit cid durable in_trial (nc_staging c)
      in (c\<lparr>nc_staging := st\<rparr>, r))"

definition node_update_state :: "'w \<Rightarrow> 'w node_coordinator \<Rightarrow> node_snapshot" where
  "node_update_state w c =
     (let rs = reports w c;
          durable = durable_of w c rs;
          in_trial = labels rs cb_in_trial
      in derive durable in_trial (nc_staging c))"

definition take_staging :: "'w node_coordinator \<Rightarrow> 'w node_coordinator \<times> staging_session option" where
  "take_staging c = (c\<lparr>nc_staging := None\<rparr>, nc_staging c)"

definition clear_staging :: "'w node_coordinator \<Rightarrow> 'w node_coordinator" where
  "clear_staging c = c\<lparr>nc_staging := None\<rparr>"

lemmas coordinator_defs [step_simps] =
  gate_new_session_def node_update_state_def admit_def derive_def durable_of_def
  remove_from_staging_def take_staging_def clear_staging_def idle_snapshot_def Let_def

section \<open>Reports\<close>

lemma labels_reports:
  "labels (reports w c) keep =
     map fst (filter (\<lambda>(_, p). case p w of None \<Rightarrow> False | Some b \<Rightarrow> keep b) (nc_probes c))"
proof -
  have "labels (List.map_filter (\<lambda>(i, p). map_option (Pair i) (p w)) ps) keep =
      map fst (filter (\<lambda>(_, p). case p w of None \<Rightarrow> False | Some b \<Rightarrow> keep b) ps)"
    for ps :: "(string \<times> ('a \<Rightarrow> component_banks option)) list"
    by (induction ps) (auto simp: labels_def List.map_filter_simps split: option.splits prod.splits)
  then show ?thesis
    by (simp add: reports_def)
qed

text \<open>A registered probe replaces the earlier one of its component and leaves the others.\<close>

lemma map_of_put_probe: "map_of (put_probe cid p ps) = (map_of ps)(cid \<mapsto> p)"
  by (induction cid p ps rule: put_probe.induct) (auto simp: fun_eq_iff)

lemma fst_put_probe:
  "map fst (put_probe cid p ps) = (if cid \<in> fst ` set ps then map fst ps else map fst ps @ [cid])"
  by (induction cid p ps rule: put_probe.induct) auto

lemma distinct_put_probe: "distinct (map fst ps) \<Longrightarrow> distinct (map fst (put_probe cid p ps))"
  by (auto simp: fst_put_probe)

section \<open>The staging session\<close>

text \<open>
  The open sessions of the staging: none when there is no staging session. The session is well
  formed when it is never empty and names no component twice.
\<close>

definition open_sessions :: "'w node_coordinator \<Rightarrow> string list" where
  "open_sessions c = (case nc_staging c of None \<Rightarrow> [] | Some s \<Rightarrow> sg_components s)"

definition staging_ok :: "'w node_coordinator \<Rightarrow> bool" where
  "staging_ok c \<longleftrightarrow> nc_staging c = (if open_sessions c = [] then None else Some \<lparr>sg_components = open_sessions c\<rparr>)
     \<and> distinct (open_sessions c)"

definition gate_refuses :: "'w \<Rightarrow> 'w node_coordinator \<Rightarrow> bool" where
  "gate_refuses w c \<longleftrightarrow> pending_reset_labels w c \<noteq> []
     \<or> (in_trial_labels w c \<noteq> [] \<and> nc_rebooted_since_arming w c = Some True)"

lemma gate_sessions:
  "open_sessions (fst (gate_new_session w cid c)) =
     (if gate_refuses w c \<or> cid \<in> set (open_sessions c) then open_sessions c else open_sessions c @ [cid])"
  by (auto simp: step_simps open_sessions_def gate_refuses_def pending_reset_labels_def in_trial_labels_def
      list_ex_iff split: option.splits)

lemma gate_result:
  "snd (gate_new_session w cid c) =
     (if pending_reset_labels w c \<noteq> [] then Err (RefusedRebootPending (pending_reset_labels w c))
      else if gate_refuses w c then Err (RefusedTrial (in_trial_labels w c))
      else Ok (if nc_staging c = None then OpenedNew else Joined))"
  by (auto simp: step_simps gate_refuses_def pending_reset_labels_def in_trial_labels_def
      split: option.splits)

lemma remove_sessions: "open_sessions (remove_from_staging cid c) = filter (\<lambda>x. x \<noteq> cid) (open_sessions c)"
  by (auto simp: step_simps open_sessions_def split: option.splits)

lemma clear_sessions [simp]: "open_sessions (clear_staging c) = []" "open_sessions (fst (take_staging c)) = []"
  by (simp_all add: step_simps open_sessions_def)

lemma staging_ok_new: "staging_ok coordinator_new"
  by (simp add: staging_ok_def open_sessions_def coordinator_new_def)

lemma staging_ok_gate: "staging_ok c \<Longrightarrow> staging_ok (fst (gate_new_session w cid c))"
  by (auto simp: staging_ok_def step_simps open_sessions_def list_ex_iff split: option.splits if_splits)

lemma staging_ok_remove: "staging_ok c \<Longrightarrow> staging_ok (remove_from_staging cid c)"
  by (auto simp: staging_ok_def step_simps open_sessions_def split: option.splits if_splits)

lemma staging_ok_clear: "staging_ok (clear_staging c)" "staging_ok (fst (take_staging c))"
  by (simp_all add: staging_ok_def step_simps open_sessions_def)

end
