(* ===== verification/BootMgr.thy ===== *)
theory BootMgr
  imports SystemProps NvOps
begin

text \<open>
  The reference boot stage of \<^verbatim>\<open>crates/boot/src/lib.rs\<close>: which bank of each bank set (NV path) or
  component (boot-vector path) boots, the trial counter with its automatic rollback, and image
  verification. An attached selector store is a pair of its operations and its state. The digest
  of the image is the SHA-256 parameter \<open>sha\<close>; the counter is a byte that wraps.
\<close>

section \<open>Model\<close>

datatype boot_action =
    Selected string bank bool
  | Boot bank
  | TrialBoot bank u8
  | AutoRollback bank bank
  | HashRollback bank bank
  | HashFatal bank
  | FirstBoot

datatype hash_check = HashOk | HashMismatch bytes bytes | NoMeta

datatype boot_error = BootNv block_error | BootSelector selector_error

record 's boot_manager =
  bm_nv :: nv_store
  bm_selector :: "('s selector_store_ops \<times> 's) option"

definition boot_manager_new :: "mem_block_device \<Rightarrow> 's boot_manager" where
  "boot_manager_new dev = \<lparr>bm_nv = nv_new dev, bm_selector = None\<rparr>"

definition with_selector :: "'s selector_store_ops \<Rightarrow> 's \<Rightarrow> 's boot_manager \<Rightarrow> 's boot_manager" where
  "with_selector ops s bm = bm\<lparr>bm_selector := Some (ops, s)\<rparr>"

text \<open>One iteration of the loop over the bank sets: the new state, the action, whether it changed.\<close>

definition boot_bank :: "bank_boot_state \<Rightarrow> bank_boot_state \<times> boot_action \<times> bool" where
  "boot_bank bs =
     (if committed bs then (bs, Boot (active_bank bs), False)
      else
        let bs1 = bs\<lparr>boot_count := boot_count bs + 1\<rparr>
        in if boot_count bs1 > MAX_TRIAL_BOOTS
           then let old_bank = active_bank bs1;
                    bs2 = bs1\<lparr>active_bank := other (active_bank bs1), committed := True, boot_count := 0\<rparr>
                in (bs2, AutoRollback old_bank (active_bank bs2), True)
           else (bs1, TrialBoot (active_bank bs1) (boot_count bs1), True))"

definition process_boot_nv ::
    "(bytes \<Rightarrow> u32) \<Rightarrow> 's boot_manager \<Rightarrow> 's boot_manager \<times> (boot_error + boot_action list)" where
  "process_boot_nv crc bm =
     (let slots = nv_slot_count (bm_nv bm)
      in case read_boot_state crc (bm_nv bm) of
           None \<Rightarrow>
             (case snd (write_boot_state crc (bm_nv bm) nv_boot_state_default) of
                Err e \<Rightarrow> (bm, Err (BootNv e))
              | Ok nv' \<Rightarrow> (bm\<lparr>bm_nv := nv'\<rparr>, Ok (replicate slots FirstBoot)))
         | Some st \<Rightarrow>
             let steps = map boot_bank (take slots (banks st));
                 actions = map (\<lambda>(_, a, _). a) steps @ replicate (slots - length steps) FirstBoot;
                 state_changed = list_ex (\<lambda>(_, _, ch). ch) steps;
                 st' = st\<lparr>banks := map fst steps @ drop slots (banks st)\<rparr>
             in if state_changed
                then (case snd (write_boot_state crc (bm_nv bm) st') of
                        Err e \<Rightarrow> (bm, Err (BootNv e))
                      | Ok nv' \<Rightarrow> (bm\<lparr>bm_nv := nv'\<rparr>, Ok actions))
                else (bm, Ok actions))"

definition process_boot_selector :: "boot_vector \<Rightarrow> boot_vector option \<Rightarrow> boot_action list" where
  "process_boot_selector primary secondary =
     map (\<lambda>(i, e). Selected i (ce_bank e)
           (Option.bind secondary (\<lambda>s. fmlookup (bv_entries s) i) \<noteq> Some e))
       (sorted_list_of_fmap (bv_entries primary))"

definition process_boot ::
    "(bytes \<Rightarrow> u32) \<Rightarrow> 's boot_manager \<Rightarrow> 's boot_manager \<times> (boot_error + boot_action list)" where
  "process_boot crc bm =
     (case bm_selector bm of
        None \<Rightarrow> process_boot_nv crc bm
      | Some (ops, s) \<Rightarrow>
          (case st_read_primary ops s of
             Err e \<Rightarrow> (bm, Err (BootSelector e))
           | Ok None \<Rightarrow> process_boot_nv crc bm
           | Ok (Some primary) \<Rightarrow>
               (case st_read_secondary ops s of
                  Err e \<Rightarrow> (bm, Err (BootSelector e))
                | Ok secondary \<Rightarrow> (bm, Ok (process_boot_selector primary secondary)))))"

definition verify_image ::
    "(bytes \<Rightarrow> u32) \<Rightarrow> (bytes \<Rightarrow> bytes) \<Rightarrow> 's boot_manager \<Rightarrow> bank_set \<Rightarrow> bank \<Rightarrow> bytes \<Rightarrow> hash_check" where
  "verify_image crc sha bm bset bk image_data =
     (case read_fw_meta crc (bm_nv bm) bset bk of
        None \<Rightarrow> NoMeta
      | Some meta \<Rightarrow>
          if image_sha256 meta = replicate 32 0 then NoMeta
          else let actual = sha image_data
               in if actual = image_sha256 meta then HashOk
                  else HashMismatch (image_sha256 meta) actual)"

definition handle_hash_failure ::
    "(bytes \<Rightarrow> u32) \<Rightarrow> 's boot_manager \<Rightarrow> bank_set \<Rightarrow> 's boot_manager \<times> (boot_error + boot_action)" where
  "handle_hash_failure crc bm bset =
     (case read_boot_state crc (bm_nv bm) of
        None \<Rightarrow> (bm, Ok FirstBoot)
      | Some st \<Rightarrow>
          let idx = as_index bset
          in if idx \<ge> length (banks st) then (bm, Err (BootNv Panicked))
             else let bs = banks st ! idx
             in if committed bs then (bm, Ok (HashFatal (active_bank bs)))
                else
                  let src = active_bank bs; dst = other src;
                      st' = st\<lparr>banks := (banks st)[idx :=
                              bs\<lparr>active_bank := dst, committed := True, boot_count := 0\<rparr>]\<rparr>
                  in (case snd (write_boot_state crc (bm_nv bm) st') of
                        Err e \<Rightarrow> (bm, Err (BootNv e))
                      | Ok nv' \<Rightarrow> (bm\<lparr>bm_nv := nv'\<rparr>, Ok (HashRollback src dst))))"

text \<open>The two queries index the fixed array: out of range they panic.\<close>

definition bm_active_bank :: "(bytes \<Rightarrow> u32) \<Rightarrow> 's boot_manager \<Rightarrow> bank_set \<Rightarrow> block_error + bank option" where
  "bm_active_bank crc bm bset =
     (case read_boot_state crc (bm_nv bm) of
        None \<Rightarrow> Ok None
      | Some st \<Rightarrow> if as_index bset \<ge> length (banks st) then Err Panicked
                   else Ok (Some (active_bank (banks st ! as_index bset))))"

definition bm_is_trial :: "(bytes \<Rightarrow> u32) \<Rightarrow> 's boot_manager \<Rightarrow> bank_set \<Rightarrow> block_error + bool option" where
  "bm_is_trial crc bm bset =
     (case read_boot_state crc (bm_nv bm) of
        None \<Rightarrow> Ok None
      | Some st \<Rightarrow> if as_index bset \<ge> length (banks st) then Err Panicked
                   else Ok (Some (\<not> committed (banks st ! as_index bset))))"

section \<open>Boots over NV\<close>

definition next_state :: "bank_boot_state \<Rightarrow> bank_boot_state" where
  "next_state bs = fst (boot_bank bs)"

abbreviation boot_result :: "bank_boot_state \<Rightarrow> boot_action" where
  "boot_result bs \<equiv> fst (snd (boot_bank bs))"

lemma boot_bank_unchanged: "\<not> snd (snd (boot_bank bs)) \<Longrightarrow> next_state bs = bs"
  by (auto simp: next_state_def boot_bank_def Let_def split: if_splits)

lemma unat_inc_u32: "boot_seq nv \<noteq> -1 \<Longrightarrow> unat (boot_seq nv + 1) = Suc (unat (boot_seq nv))"
  by (metis add.commute eq_neg_iff_add_eq_0 unatSuc)

text \<open>A store that boots can be counted on: in shape, readable, with its regions clean.\<close>

definition bootable :: "(bytes \<Rightarrow> u32) \<Rightarrow> nv_store \<Rightarrow> nv_boot_state \<Rightarrow> bool" where
  "bootable crc nv st \<longleftrightarrow> nv_ok nv \<and> nv_slot_count nv \<le> MAX_SLOTS \<and> boot_clean crc nv
     \<and> read_boot_state crc nv = Some st"

lemma bootable_write:
  assumes "nv_ok nv" "nv_slot_count nv \<le> MAX_SLOTS" "boot_clean crc nv" "wf_boot_state st" "boot_seq nv \<noteq> -1"
  shows "\<exists>nv'. snd (write_boot_state crc nv st) = Ok nv' \<and> nv_slot_count nv' = nv_slot_count nv
    \<and> boot_seq nv' = boot_seq nv + 1 \<and> bootable crc nv' (masked (nv_slot_count nv) (boot_seq nv + 1) st)"
  using boot_write_step [OF assms(1,4,5,3)] assms(2) by (auto simp: bootable_def)

lemma bootable_length: "bootable crc nv st \<Longrightarrow> length (banks st) = MAX_SLOTS"
  using read_boot_state_wf [of crc nv st] by (simp add: bootable_def wf_boot_state_def)

lemma masked_bank: "i < n \<Longrightarrow> n \<le> length (banks st) \<Longrightarrow> banks (masked n q st) ! i = banks st ! i"
  by (simp add: masked_def nth_append)

lemma process_boot_nv_step:
  assumes "bootable crc (bm_nv bm) st" "boot_seq (bm_nv bm) \<noteq> -1" "slots = nv_slot_count (bm_nv bm)"
  shows "\<exists>nv' st'. process_boot_nv crc bm = (bm\<lparr>bm_nv := nv'\<rparr>, Ok (map boot_result (take slots (banks st))))
    \<and> bootable crc nv' st' \<and> nv_slot_count nv' = slots
    \<and> unat (boot_seq nv') \<le> Suc (unat (boot_seq (bm_nv bm)))
    \<and> (\<forall>i < slots. banks st' ! i = next_state (banks st ! i))"
proof -
  let ?nv = "bm_nv bm"
  let ?st' = "st\<lparr>banks := map next_state (take slots (banks st)) @ drop slots (banks st)\<rparr>"
  have b: "nv_ok ?nv" "slots \<le> MAX_SLOTS" "boot_clean crc ?nv" "read_boot_state crc ?nv = Some st"
    using assms by (simp_all add: bootable_def)
  note len = bootable_length [OF assms(1)]
  have acts: "map (\<lambda>(_, a, _). a) (map boot_bank (take slots (banks st))) = map boot_result (take slots (banks st))"
    by (simp add: case_prod_beta)
  show ?thesis
  proof (cases "list_ex (\<lambda>(_, _, ch). ch) (map boot_bank (take slots (banks st)))")
    case False
    then have "\<forall>x \<in> set (take slots (banks st)). next_state x = x"
      by (auto simp: list_ex_iff case_prod_beta intro: boot_bank_unchanged)
    then have "\<forall>i < slots. next_state (banks st ! i) = banks st ! i"
      using len b(2) by (metis in_set_conv_nth length_take min.absorb2 nth_take)
    then show ?thesis
      using False assms(1,3) b len acts
      by (intro exI [of _ ?nv] exI [of _ st]) (simp add: process_boot_nv_def Let_def comp_def min_def flip: next_state_def)
  next
    case True
    have "wf_boot_state ?st'" using len b(2) by (simp add: wf_boot_state_def)
    then obtain nv' where nv': "snd (write_boot_state crc ?nv ?st') = Ok nv'" "nv_slot_count nv' = slots"
        "boot_seq nv' = boot_seq ?nv + 1" "bootable crc nv' (masked slots (boot_seq ?nv + 1) ?st')"
      using bootable_write [of ?nv crc ?st'] assms(2,3) b by auto
    have "\<forall>i < slots. banks (masked slots (boot_seq ?nv + 1) ?st') ! i = next_state (banks st ! i)"
      using len b(2) by (simp add: masked_bank nth_append)
    then show ?thesis
      using True nv' assms(2,3) b len acts unat_inc_u32 [of ?nv]
      by (intro exI [of _ nv'] exI [of _ "masked slots (boot_seq ?nv + 1) ?st'"])
         (simp add: process_boot_nv_def Let_def comp_def min_def flip: next_state_def)
  qed
qed

text \<open>A run of node boots, with the actions of each.\<close>

fun boots :: "(bytes \<Rightarrow> u32) \<Rightarrow> nat \<Rightarrow> 's boot_manager \<Rightarrow> boot_error + ('s boot_manager \<times> boot_action list list)" where
  "boots crc 0 bm = Ok (bm, [])"
| "boots crc (Suc n) bm =
     (case process_boot crc bm of
        (_, Err e) \<Rightarrow> Err e
      | (bm', Ok acts) \<Rightarrow> and_then (boots crc n bm') (\<lambda>(bm'', rest). Ok (bm'', acts # rest)))"

lemma boots_nv:
  assumes "bm_selector bm = None" "bootable crc (bm_nv bm) st" "unat (boot_seq (bm_nv bm)) + n < 2 ^ 32 - 1"
    and "slots = nv_slot_count (bm_nv bm)"
  shows "\<exists>bm' acts st'. boots crc n bm = Ok (bm', acts) \<and> length acts = n \<and> bm_selector bm' = None
    \<and> bootable crc (bm_nv bm') st' \<and> nv_slot_count (bm_nv bm') = slots
    \<and> (\<forall>i < slots. banks st' ! i = (next_state ^^ n) (banks st ! i)
         \<and> (\<forall>k < n. acts ! k ! i = boot_result ((next_state ^^ k) (banks st ! i))))"
  using assms
proof (induction n arbitrary: bm st)
  case 0
  then show ?case by auto
next
  case (Suc n)
  have "unat (boot_seq (bm_nv bm)) \<noteq> unat (-1 :: u32)"
    using Suc.prems(3) by (simp add: unat_minus_one_u32)
  then have seq: "boot_seq (bm_nv bm) \<noteq> -1" by metis
  obtain nv' st' where s: "process_boot_nv crc bm = (bm\<lparr>bm_nv := nv'\<rparr>, Ok (map boot_result (take slots (banks st))))"
      "bootable crc nv' st'" "nv_slot_count nv' = slots" "unat (boot_seq nv') \<le> Suc (unat (boot_seq (bm_nv bm)))"
      "\<forall>i < slots. banks st' ! i = next_state (banks st ! i)"
    using process_boot_nv_step [OF Suc.prems(2) seq Suc.prems(4)] by blast
  obtain bm'' acts st'' where r: "boots crc n (bm\<lparr>bm_nv := nv'\<rparr>) = Ok (bm'', acts)" "length acts = n"
      "bm_selector bm'' = None" "bootable crc (bm_nv bm'') st''" "nv_slot_count (bm_nv bm'') = slots"
      "\<forall>i < slots. banks st'' ! i = (next_state ^^ n) (banks st' ! i)
         \<and> (\<forall>k < n. acts ! k ! i = boot_result ((next_state ^^ k) (banks st' ! i)))"
    using Suc.IH [of "bm\<lparr>bm_nv := nv'\<rparr>" st'] Suc.prems s by auto
  have "slots \<le> length (banks st)"
    using bootable_length [OF Suc.prems(2)] Suc.prems(2,4) by (simp add: bootable_def)
  then have "(map boot_result (take slots (banks st)) # acts) ! k ! i = boot_result ((next_state ^^ k) (banks st ! i))"
    if "i < slots" "k < Suc n" for i k
    using r(6) s(5) that by (cases k) (simp_all add: funpow_swap1)
  moreover have "\<forall>i < slots. banks st'' ! i = (next_state ^^ Suc n) (banks st ! i)"
    using r(6) s(5) by (simp add: funpow_swap1)
  moreover have "boots crc (Suc n) bm = Ok (bm'', map boot_result (take slots (banks st)) # acts)"
    using r(1) s(1) Suc.prems(1) by (simp add: process_boot_def)
  ultimately show ?case using r by (intro exI [of _ bm''] exI [of _ "_ # acts"] exI [of _ st'']) auto
qed

end
