(* ===== verification/BootProps.thy ===== *)
theory BootProps
  imports BootMgr
begin

text \<open>
  Properties of the reference boot stage: the life of a trial over repeated boots, first boot,
  image verification with its rollback, and the agreement of the boot-vector report with the
  system bank manager.
\<close>

section \<open>The life of a trial\<close>

lemma next_state_trial:
  assumes "\<not> committed bs" "unat (boot_count bs) < 10"
  shows "next_state bs = bs\<lparr>boot_count := boot_count bs + 1\<rparr>"
    "boot_result bs = TrialBoot (active_bank bs) (boot_count bs + 1)"
    "unat (boot_count bs + 1) = Suc (unat (boot_count bs))"
proof -
  have "boot_count bs \<noteq> -1" using assms(2) by (auto simp: unat_max_u8)
  then show u: "unat (boot_count bs + 1) = Suc (unat (boot_count bs))"
    by (metis add.commute eq_neg_iff_add_eq_0 unatSuc)
  then have "\<not> MAX_TRIAL_BOOTS < boot_count bs + 1"
    using assms(2) by (simp add: word_less_nat_alt MAX_TRIAL_BOOTS_def)
  then show "next_state bs = bs\<lparr>boot_count := boot_count bs + 1\<rparr>"
    "boot_result bs = TrialBoot (active_bank bs) (boot_count bs + 1)"
    using assms(1) by (simp_all add: next_state_def boot_bank_def Let_def)
qed

lemma trial_prefix:
  assumes "\<not> committed bs" "unat (boot_count bs) + k \<le> 10"
  shows "(next_state ^^ k) bs = bs\<lparr>boot_count := boot_count bs + of_nat k\<rparr>
    \<and> unat (boot_count bs + of_nat k) = unat (boot_count bs) + k"
  using assms(2)
proof (induction k)
  case (Suc k)
  then have k: "(next_state ^^ k) bs = bs\<lparr>boot_count := boot_count bs + of_nat k\<rparr>"
    "unat (boot_count bs + of_nat k) = unat (boot_count bs) + k" by simp_all
  show ?case
    using next_state_trial [of "bs\<lparr>boot_count := boot_count bs + of_nat k\<rparr>"] assms(1) k Suc.prems
    by (simp add: algebra_simps)
qed simp

lemma next_state_committed [simp]:
  "committed bs \<Longrightarrow> next_state bs = bs" "committed bs \<Longrightarrow> boot_result bs = Boot (active_bank bs)"
  by (simp_all add: next_state_def boot_bank_def)

lemma funpow_committed [simp]: "committed bs \<Longrightarrow> (next_state ^^ k) bs = bs"
  by (induction k) simp_all

lemma trial_expires:
  assumes "\<not> committed bs" "unat (boot_count bs) = 10"
  shows "next_state bs = \<lparr>active_bank = other (active_bank bs), committed = True, boot_count = 0\<rparr>"
    "boot_result bs = AutoRollback (active_bank bs) (other (active_bank bs))"
proof -
  have "boot_count bs = 10" using assms(2) by (simp add: word_unat_eq_iff)
  then show "next_state bs = \<lparr>active_bank = other (active_bank bs), committed = True, boot_count = 0\<rparr>"
    "boot_result bs = AutoRollback (active_bank bs) (other (active_bank bs))"
    using assms(1) by (simp_all add: next_state_def boot_bank_def Let_def MAX_TRIAL_BOOTS_def)
qed

text \<open>What boot \<open>k\<close> (from 0) does with a bank set that starts at \<open>bs\<close>.\<close>

definition timeline :: "bank_boot_state \<Rightarrow> nat \<Rightarrow> boot_action" where
  "timeline bs k =
     (if committed bs then Boot (active_bank bs)
      else if unat (boot_count bs) + k < unat MAX_TRIAL_BOOTS
      then TrialBoot (active_bank bs) (of_nat (unat (boot_count bs) + k + 1))
      else if unat (boot_count bs) + k = unat MAX_TRIAL_BOOTS
      then AutoRollback (active_bank bs) (other (active_bank bs))
      else Boot (other (active_bank bs)))"

lemma timeline_step:
  assumes "committed bs \<or> unat (boot_count bs) \<le> 10"
  shows "boot_result ((next_state ^^ k) bs) = timeline bs k"
proof (cases "committed bs")
  case False
  note f = False
  have b: "unat (boot_count bs) \<le> 10" using assms False by simp
  have max: "unat MAX_TRIAL_BOOTS = 10" by (simp add: MAX_TRIAL_BOOTS_def)
  consider "unat (boot_count bs) + k < 10" | "unat (boot_count bs) + k = 10" | "10 < unat (boot_count bs) + k"
    by linarith
  then show ?thesis
  proof cases
    case 1
    then show ?thesis
      using trial_prefix [OF False, of k] next_state_trial [of "(next_state ^^ k) bs"] False
      by (simp add: timeline_def max add.commute)
  next
    case 2
    then show ?thesis
      using trial_prefix [OF False, of k] trial_expires [of "(next_state ^^ k) bs"] False
      by (simp add: timeline_def max)
  next
    case 3
    define j where "j = 10 - unat (boot_count bs)"
    have j: "unat (boot_count bs) + j = 10" using b by (simp add: j_def)
    define d where "d = k - Suc j"
    have d: "k = d + Suc j" using 3 j by (simp add: d_def)
    have "(next_state ^^ Suc j) bs = \<lparr>active_bank = other (active_bank bs), committed = True, boot_count = 0\<rparr>"
      using trial_prefix [OF False, of j] trial_expires [of "(next_state ^^ j) bs"] False j by simp
    then have "(next_state ^^ k) bs = \<lparr>active_bank = other (active_bank bs), committed = True, boot_count = 0\<rparr>"
      unfolding d funpow_add by simp
    then show ?thesis using False 3 by (simp add: timeline_def max)
  qed
qed (simp add: timeline_def)

text \<open>C10: The life of a trial on the NV path. Over any run of boots every bank set follows its timeline: a
  committed set boots its active bank every time; a set in trial boots its new bank with the
  counter going up by one, until the counter stands at ten; the next boot rolls it back to the
  other bank and commits that, and every later boot boots the other bank. Every boot of the run
  succeeds, and the counter survives because each boot reads back what the last one wrote.\<close>

theorem trial_boot_timeline:
  assumes "bm_selector bm = None" "bootable crc (bm_nv bm) st" "unat (boot_seq (bm_nv bm)) + n < 2 ^ 32 - 1"
    and "i < nv_slot_count (bm_nv bm)" "committed (banks st ! i) \<or> boot_count (banks st ! i) \<le> MAX_TRIAL_BOOTS"
  shows "\<exists>bm' acts. boots crc n bm = Ok (bm', acts) \<and> length acts = n
    \<and> map (\<lambda>a. a ! i) acts = map (timeline (banks st ! i)) [0..<n]"
proof -
  have "committed (banks st ! i) \<or> unat (boot_count (banks st ! i)) \<le> 10"
    using assms(5) by (simp add: word_le_nat_alt MAX_TRIAL_BOOTS_def)
  note tl = timeline_step [OF this]
  obtain bm' acts where b: "boots crc n bm = Ok (bm', acts)" "length acts = n"
      "\<forall>k < n. acts ! k ! i = boot_result ((next_state ^^ k) (banks st ! i))"
    using boots_nv [OF assms(1-3) refl] assms(4) by blast
  then have "map (\<lambda>a. a ! i) acts = map (timeline (banks st ! i)) [0..<n]"
    by (intro nth_equalityI) (simp_all add: tl)
  with b show ?thesis by blast
qed

definition trial_nv :: "(bytes \<Rightarrow> u32) \<Rightarrow> nv_store" where
  "trial_nv crc = (case snd (write_boot_state crc blank1 trial_b) of Ok nv \<Rightarrow> nv | Err _ \<Rightarrow> blank1)"

lemma trial_b_facts: "wf_boot_state trial_b" "banks trial_b ! 0 = \<lparr>active_bank = B, committed = False, boot_count = 0\<rparr>"
  by (simp_all add: trial_b_def wf_boot_state_def nv_boot_state_default_def MAX_SLOTS_def)

lemma trial_nv_facts:
  "snd (write_boot_state crc blank1 trial_b) = Ok (trial_nv crc)" "nv_slot_count (trial_nv crc) = 1"
  "bootable crc (trial_nv crc) (masked 1 1 trial_b)" "boot_seq (trial_nv crc) = 1"
  "banks (masked 1 1 trial_b) ! 0 = \<lparr>active_bank = B, committed = False, boot_count = 0\<rparr>"
proof -
  obtain nv where nv: "snd (write_boot_state crc blank1 trial_b) = Ok nv" "nv_slot_count nv = 1" "boot_seq nv = 1"
      "bootable crc nv (masked 1 1 trial_b)"
    using bootable_write [of blank1 crc trial_b] trial_b_facts(1) blank1_clean [of crc] by (auto simp: MAX_SLOTS_def)
  then have "trial_nv crc = nv" by (simp add: trial_nv_def)
  with nv show "snd (write_boot_state crc blank1 trial_b) = Ok (trial_nv crc)" "nv_slot_count (trial_nv crc) = 1"
    "bootable crc (trial_nv crc) (masked 1 1 trial_b)" "boot_seq (trial_nv crc) = 1" by simp_all
  show "banks (masked 1 1 trial_b) ! 0 = \<lparr>active_bank = B, committed = False, boot_count = 0\<rparr>"
    using masked_bank [of 0 1 trial_b] trial_b_facts by (simp add: wf_boot_state_def MAX_SLOTS_def)
qed

theorem trial_boot_timeline_witness:
  "\<exists>bm' acts. boots (\<lambda>_. 0) 12 \<lparr>bm_nv = trial_nv (\<lambda>_. 0), bm_selector = (None :: (unit selector_store_ops \<times> unit) option)\<rparr>
      = Ok (bm', acts)
    \<and> map (\<lambda>a. a ! 0) acts = map (\<lambda>k. TrialBoot B (of_nat (k + 1))) [0..<10] @ [AutoRollback B A, Boot A]"
proof -
  have "map (timeline \<lparr>active_bank = B, committed = False, boot_count = 0\<rparr>) [0..<12] =
      map (\<lambda>k. TrialBoot B (of_nat (k + 1))) [0..<10] @ [AutoRollback B A, Boot A]"
    by (simp add: timeline_def MAX_TRIAL_BOOTS_def other_def upt_rec)
  then show ?thesis
    using trial_boot_timeline [of "\<lparr>bm_nv = trial_nv (\<lambda>_. 0), bm_selector = None\<rparr>" "\<lambda>_. 0" "masked 1 1 trial_b" 12 0]
      trial_nv_facts(2-4) [of "\<lambda>_. 0"] trial_nv_facts(5) by auto
qed

section \<open>First boot\<close>

text \<open>On a device without a readable boot state the first boot initialises it and reports first boot for
  every slot; all later boots boot bank A of every slot, and write nothing more.\<close>

theorem first_boot_initialises:
  assumes "bm_selector bm = None" "read_boot_state crc (bm_nv bm) = None" "nv_ok (bm_nv bm)"
    and "nv_slot_count (bm_nv bm) \<le> MAX_SLOTS" "boot_clean crc (bm_nv bm)" "boot_seq (bm_nv bm) \<noteq> -1"
  shows "\<exists>bm'. process_boot crc bm = (bm', Ok (replicate (nv_slot_count (bm_nv bm)) FirstBoot))
    \<and> process_boot crc bm' = (bm', Ok (replicate (nv_slot_count (bm_nv bm)) (Boot A)))"
proof -
  let ?n = "nv_slot_count (bm_nv bm)"
  obtain nv' where nv': "snd (write_boot_state crc (bm_nv bm) nv_boot_state_default) = Ok nv'" "nv_slot_count nv' = ?n"
      "bootable crc nv' (masked ?n (boot_seq (bm_nv bm) + 1) nv_boot_state_default)"
    using bootable_write [OF assms(3-5), of nv_boot_state_default] assms(6) by auto
  have all: "take ?n (banks (masked ?n q nv_boot_state_default)) = replicate ?n bank_boot_state_default" for q
    using assms(4) by (simp add: masked_def nv_boot_state_default_def min_def)
  have b: "boot_bank bank_boot_state_default = (bank_boot_state_default, Boot A, False)"
    by (simp add: boot_bank_def bank_boot_state_default_def)
  have "process_boot crc (bm\<lparr>bm_nv := nv'\<rparr>) = (bm\<lparr>bm_nv := nv'\<rparr>, Ok (replicate ?n (Boot A)))"
    using assms(1) nv' all b by (simp add: process_boot_def process_boot_nv_def bootable_def Let_def list_ex_iff)
  then show ?thesis
    using assms(1,2) nv' by (intro exI [of _ "bm\<lparr>bm_nv := nv'\<rparr>"]) (simp add: process_boot_def process_boot_nv_def Let_def)
qed

theorem first_boot_initialises_witness:
  "\<exists>bm'. process_boot (\<lambda>_. 0) \<lparr>bm_nv = blank1, bm_selector = (None :: (unit selector_store_ops \<times> unit) option)\<rparr>
      = (bm', Ok [FirstBoot])
    \<and> process_boot (\<lambda>_. 0) bm' = (bm', Ok [Boot A])"
proof -
  have "decode_sector (\<lambda>_. 0) boot_state_ops (sector (nv_dev blank1) BOOT_OFFSET i) = None" for i
    by (simp add: decode_sector_def blank1_def nv_new_def sector_def mem_new_def get_u32_le_zero boot_magic magic_defs)
  then have "read_boot_state (\<lambda>_. 0) blank1 = None"
    using boot_region_on [of blank1] by (intro read_boot_state_gone) (simp_all add: BOOT_SECTORS_def)
  then show ?thesis
    using first_boot_initialises [of "\<lparr>bm_nv = blank1, bm_selector = None\<rparr>" "\<lambda>_. 0"] blank1_clean [of "\<lambda>_. 0"]
    by (auto simp: MAX_SLOTS_def)
qed

section \<open>Image verification\<close>

text \<open>A failed image check of a set in trial rolls that set back at once: the other bank becomes active
  and committed, the change is what the store reads back, and every other set is untouched. A
  failed check of a committed set is fatal and changes nothing.\<close>

theorem hash_failure_rolls_back:
  assumes "bootable crc (bm_nv bm) st" "boot_seq (bm_nv bm) \<noteq> -1" "as_index s < nv_slot_count (bm_nv bm)"
  shows "if committed (banks st ! as_index s)
    then handle_hash_failure crc bm s = (bm, Ok (HashFatal (active_bank (banks st ! as_index s))))
    else \<exists>bm'. handle_hash_failure crc bm s =
           (bm', Ok (HashRollback (active_bank (banks st ! as_index s)) (other (active_bank (banks st ! as_index s)))))
         \<and> bm_active_bank crc bm' s = Ok (Some (other (active_bank (banks st ! as_index s))))
         \<and> bm_is_trial crc bm' s = Ok (Some False)
         \<and> (\<forall>s'. s' \<noteq> s \<longrightarrow> as_index s' < nv_slot_count (bm_nv bm) \<longrightarrow>
              bm_active_bank crc bm' s' = bm_active_bank crc bm s' \<and> bm_is_trial crc bm' s' = bm_is_trial crc bm s')"
proof -
  let ?i = "as_index s" and ?nv = "bm_nv bm"
  let ?bs = "banks st ! ?i"
  let ?st' = "st\<lparr>banks := (banks st)[?i := ?bs\<lparr>active_bank := other (active_bank ?bs), committed := True, boot_count := 0\<rparr>]\<rparr>"
  have b: "nv_ok ?nv" "nv_slot_count ?nv \<le> MAX_SLOTS" "boot_clean crc ?nv" "read_boot_state crc ?nv = Some st"
    using assms(1) by (simp_all add: bootable_def)
  note len = bootable_length [OF assms(1)]
  show ?thesis
  proof (cases "committed ?bs")
    case True
    then show ?thesis using b len assms(3) by (simp add: handle_hash_failure_def Let_def)
  next
    case False
    have "wf_boot_state ?st'" using len by (simp add: wf_boot_state_def)
    then obtain nv' where nv': "snd (write_boot_state crc ?nv ?st') = Ok nv'" "nv_slot_count nv' = nv_slot_count ?nv"
        "bootable crc nv' (masked (nv_slot_count ?nv) (boot_seq ?nv + 1) ?st')"
      using bootable_write [OF b(1-3), of ?st'] assms(2) by blast
    have bk: "banks (masked (nv_slot_count ?nv) (boot_seq ?nv + 1) ?st') ! j = banks ?st' ! j" if "j < nv_slot_count ?nv" for j
      using that len b(2) by (intro masked_bank) simp_all
    have rd: "read_boot_state crc nv' = Some (masked (nv_slot_count ?nv) (boot_seq ?nv + 1) ?st')"
      "length (banks (masked (nv_slot_count ?nv) (boot_seq ?nv + 1) ?st')) = MAX_SLOTS"
      using nv'(3) bootable_length [OF nv'(3)] by (simp_all add: bootable_def)
    have "handle_hash_failure crc bm s = (bm\<lparr>bm_nv := nv'\<rparr>, Ok (HashRollback (active_bank ?bs) (other (active_bank ?bs))))"
      using False b len assms(3) nv'(1) by (simp add: handle_hash_failure_def Let_def)
    moreover have "bm_active_bank crc (bm\<lparr>bm_nv := nv'\<rparr>) s = Ok (Some (other (active_bank ?bs)))"
      "bm_is_trial crc (bm\<lparr>bm_nv := nv'\<rparr>) s = Ok (Some False)"
      using rd bk [OF assms(3)] assms(3) b(2) len by (simp_all add: bm_active_bank_def bm_is_trial_def)
    moreover have "bm_active_bank crc (bm\<lparr>bm_nv := nv'\<rparr>) s' = bm_active_bank crc bm s'
        \<and> bm_is_trial crc (bm\<lparr>bm_nv := nv'\<rparr>) s' = bm_is_trial crc bm s'"
      if "s' \<noteq> s" "as_index s' < nv_slot_count ?nv" for s'
      using rd bk [OF that(2)] that b(2,4) len as_index_inj [of s' s] by (simp add: bm_active_bank_def bm_is_trial_def)
    ultimately show ?thesis using False by auto
  qed
qed

theorem hash_failure_rolls_back_witness:
  "\<exists>bm'. handle_hash_failure (\<lambda>_. 0)
       \<lparr>bm_nv = trial_nv (\<lambda>_. 0), bm_selector = (None :: (unit selector_store_ops \<times> unit) option)\<rparr> 0
      = (bm', Ok (HashRollback B A)) \<and> bm_active_bank (\<lambda>_. 0) bm' 0 = Ok (Some A)"
  using hash_failure_rolls_back [of "\<lambda>_. 0" "\<lparr>bm_nv = trial_nv (\<lambda>_. 0), bm_selector = None\<rparr>" "masked 1 1 trial_b" 0]
    trial_nv_facts(2-4) [of "\<lambda>_. 0"] trial_nv_facts(5)
  by (auto simp: as_index_def other_def)

text \<open>An image verifies against a bank exactly when its SHA-256 is the one last recorded for that bank:
  after a metadata write, verification compares with what was written, an all-zero digest means
  there is nothing to verify, and the other banks' checks do not change.\<close>

theorem verify_image_written:
  assumes "nv_ok (bm_nv bm)" "slot_in_range (bm_nv bm) s" "wf_fw_meta m"
    and "region_seq fw_meta_ops (bm_nv bm) (fw_meta_offset s k) FW_META_SECTORS \<noteq> -1"
  shows "\<exists>nv'. snd (write_fw_meta crc (bm_nv bm) s k m) = Ok nv'
    \<and> verify_image crc sha (bm\<lparr>bm_nv := nv'\<rparr>) s k img =
        (if image_sha256 m = replicate 32 0 then NoMeta
         else if sha img = image_sha256 m then HashOk else HashMismatch (image_sha256 m) (sha img))
    \<and> (\<forall>s' k'. (s', k') \<noteq> (s, k) \<longrightarrow>
         verify_image crc sha (bm\<lparr>bm_nv := nv'\<rparr>) s' k' img = verify_image crc sha bm s' k' img)"
proof -
  obtain nv' where w: "snd (store_write crc fw_meta_ops (fw_meta_offset s k) FW_META_SECTORS (bm_nv bm) m) = Ok nv'"
    and fr: "only_region (bm_nv bm) nv' (fw_meta_offset s k) FW_META_SECTORS"
    and rd: "read_record crc fw_meta_ops (nv_dev nv') (fw_meta_offset s k) FW_META_SECTORS =
      Some (rec_set_write_seq fw_meta_ops (region_seq fw_meta_ops (bm_nv bm) (fw_meta_offset s k) FW_META_SECTORS + 1) m)"
    using fw_meta_rec.store_write_read [OF assms(3) fw_meta_region_on [OF assms(1,2)] _ assms(4), of crc]
    by (auto simp: FW_META_SECTORS_def)
  note sl = only_region_slot [OF fr] and rr = only_region_read [OF fr]
  have "read_fw_meta crc nv' s' k' = read_fw_meta crc (bm_nv bm) s' k'" if "(s', k') \<noteq> (s, k)" for s' k'
    unfolding read_fw_meta_def sl
    using rr [OF fw_meta_regions_apart [OF that [symmetric]], of crc fw_meta_ops] by simp
  then show ?thesis
    using w rd assms(2) sl
    by (intro exI [of _ nv']) (auto simp: write_fw_meta_def verify_image_def read_fw_meta_def fw_meta_ops_def Let_def)
qed

theorem verify_image_written_witness:
  "\<exists>nv'. snd (write_fw_meta (\<lambda>_. 0) blank1 0 B (nv_fw_meta_default\<lparr>image_sha256 := replicate 32 1\<rparr>)) = Ok nv'
    \<and> verify_image (\<lambda>_. 0) (\<lambda>b. take 32 (b @ replicate 32 0))
        \<lparr>bm_nv = nv', bm_selector = (None :: (unit selector_store_ops \<times> unit) option)\<rparr> 0 B (replicate 32 1) = HashOk"
proof -
  have "wf_fw_meta (nv_fw_meta_default\<lparr>image_sha256 := replicate 32 1\<rparr>)"
    by (simp add: wf_fw_meta_def nv_fw_meta_default_def)
  moreover have "replicate 32 (1 :: u8) \<noteq> replicate 32 0" by (simp add: replicate_eq_replicate)
  ultimately show ?thesis
    using verify_image_written [of "\<lparr>bm_nv = blank1, bm_selector = None\<rparr>" 0
        "nv_fw_meta_default\<lparr>image_sha256 := replicate 32 1\<rparr>" B "\<lambda>_. 0" "\<lambda>b. take 32 (b @ replicate 32 0)" "replicate 32 1"]
    by auto
qed

section \<open>The boot-vector report\<close>

text \<open>With the boot vector attached and written, the boot stage reports exactly what the manager holds:
  for every component of the booted selection, in ascending order of its id, its bank and whether
  it is in trial. The boot manager, NV included, is left as it was. This holds after any history
  of the manager over the file store.\<close>

theorem boot_report_agrees_with_manager:
  assumes "env_ok env" "mgr_reach sha (file_store_ops env) (fresh_world host) m" "\<not> is_empty m"
    and "bm_selector bm = Some (file_store_ops env, sbm_store m)"
  shows "process_boot crc bm = (bm, Ok (map (\<lambda>i. Selected i (the (sbm_active_bank m i)) (component_in_trial m i))
    (sorted_list_of_fset (fmdom (current m)))))"
proof -
  let ?ops = "record_store_ops env (file_record_ops env)" and ?s = "sbm_store m"
  have c: "coherent ?ops (rs_inv env (file_record_ops env) (file_inv env)) m"
    by (rule file_reach_coherent [OF assms(1,2)])
  then have inv: "rs_inv env (file_record_ops env) (file_inv env) ?s" and mi: "mirrors (view ?ops ?s) m"
    by (simp_all add: coherent_def)
  obtain p q where pq: "st_read_primary ?ops ?s = Ok p" "st_read_secondary ?ops ?s = Ok q"
    using file_rec.store.primary_readable [OF inv] file_rec.store.secondary_readable [OF inv]
    by (auto simp: is_ok_def split: sum.splits)
  then obtain v where v: "p = Some v" "bv_entries v = current m"
      "committed_entries m = (case q of None \<Rightarrow> fmempty | Some p \<Rightarrow> bv_entries p)"
    using mi assms(3) by (auto simp: mirrors_def view_def is_empty_def split: option.splits)
  have sec: "Option.bind q (\<lambda>s. fmlookup (bv_entries s) i) = committed_entry m i" for i
    using v(3) by (cases q) (simp_all add: committed_entry_def)
  have "process_boot_selector v q = map (\<lambda>i. Selected i (the (sbm_active_bank m i)) (component_in_trial m i))
      (sorted_list_of_fset (fmdom (current m)))"
    unfolding process_boot_selector_def sorted_list_of_fmap_def v(2) map_map
  proof (rule map_cong [OF refl], unfold comp_def)
    fix i assume "i \<in> set (sorted_list_of_fset (fmdom (current m)))"
    then obtain e where "fmlookup (current m) i = Some e"
      by (auto simp: fmlookup_dom_iff)
    then show "(case (i, the (fmlookup (current m) i)) of (i, e) \<Rightarrow>
        Selected i (ce_bank e) (Option.bind q (\<lambda>s. fmlookup (bv_entries s) i) \<noteq> Some e)) =
      Selected i (the (sbm_active_bank m i)) (component_in_trial m i)"
      by (simp add: sec sbm_active_bank_def component_in_trial_def entry_def)
  qed
  then show ?thesis
    using pq v(1) assms(4) by (simp add: process_boot_def file_store_ops_def)
qed

theorem boot_report_agrees_with_manager_witness:
  "process_boot (\<lambda>_. 0) \<lparr>bm_nv = blank1, bm_selector = Some (file_store_ops env0, sbm_store trial2)\<rparr>
   = (\<lparr>bm_nv = blank1, bm_selector = Some (file_store_ops env0, sbm_store trial2)\<rparr>, Ok [Selected ''os'' A True])"
proof -
  have "sorted_list_of_fset (fmdom (current trial2)) = [''os'']"
    by (simp add: trial2_current sorted_list_of_fset_def)
  moreover have "sbm_active_bank trial2 ''os'' = Some A" "component_in_trial trial2 ''os''"
    by (simp_all add: sbm_active_bank_def component_in_trial_def entry_def committed_entry_def trial2_current)
  moreover have "\<not> is_empty trial2"
    using fmupd_nonempty by (simp add: is_empty_def trial2_current)
  ultimately show ?thesis
    using boot_report_agrees_with_manager [OF env0_ok trial2_facts(1), of
        "\<lparr>bm_nv = blank1, bm_selector = Some (file_store_ops env0, sbm_store trial2)\<rparr>" "\<lambda>_. 0"] by simp
qed

end
