(* ===== verification/Machine.thy ===== *)
theory Machine
  imports NodeUpdate TrialProps
begin

text \<open>
  The machine registry of \<^verbatim>\<open>crates/machine-mgr/src/machine.rs\<close>: building it from components and a
  selector store, looking a component up, seeding the boot vector from NV, and counting a node
  boot with the node's own bounded rollback. A component is an implementation of the
  \<^verbatim>\<open>Component\<close> trait: its id, its bank report and its rollback, as functions of the node, which is
  the shared system bank manager together with whatever else (\<open>'w\<close>) the components read and
  change. The entity description is opaque data (\<open>'e\<close>).
\<close>

section \<open>Model\<close>

subsection \<open>Registry\<close>

type_synonym ('w, 's) node = "'w \<times> 's system_bank_manager"

record ('w, 's) node_component =
  co_id :: string
  co_banks :: "('w, 's) node \<Rightarrow> component_banks option"
  co_rollback_install :: "string \<Rightarrow> ('w, 's) node \<Rightarrow> ('w, 's) node \<times> (string + unit)"

record ('e, 'c, 'm) machine_registry =
  mr_entity :: 'e
  mr_components :: "'c list"
  mr_by_id :: "string \<rightharpoonup> nat"
  mr_system_bank :: 'm

record ('e, 'c, 'm, 's) registry_builder =
  rb_entity :: 'e
  rb_components :: "'c list"
  rb_selector_store :: "'s option"
  rb_shared_selector :: "'m option"

datatype build_error = DuplicateComponentId string | BuildSelector selector_error

text \<open>A boxed store is the configured one or the stub.\<close>

datatype 's boxed_store = Boxed 's | StubStore

fun on_store :: "('s \<Rightarrow> 's \<times> 'r) \<Rightarrow> (unit \<Rightarrow> unit \<times> 'r) \<Rightarrow> 's boxed_store \<Rightarrow> 's boxed_store \<times> 'r" where
  "on_store f g (Boxed s) = (case f s of (s', r) \<Rightarrow> (Boxed s', r))"
| "on_store f g StubStore = (StubStore, snd (g ()))"

definition boxed_store_ops :: "'s selector_store_ops \<Rightarrow> 's boxed_store selector_store_ops" where
  "boxed_store_ops ops =
     \<lparr>st_read_primary = (\<lambda>b. case b of Boxed s \<Rightarrow> st_read_primary ops s | StubStore \<Rightarrow> st_read_primary stub_store_ops ()),
      st_read_secondary = (\<lambda>b. case b of Boxed s \<Rightarrow> st_read_secondary ops s | StubStore \<Rightarrow> st_read_secondary stub_store_ops ()),
      st_activate = (\<lambda>b es h. on_store (\<lambda>s. st_activate ops s es h) (\<lambda>s. st_activate stub_store_ops s es h) b),
      st_commit = on_store (st_commit ops) (st_commit stub_store_ops),
      st_rollback = (\<lambda>b h. on_store (\<lambda>s. st_rollback ops s h) (\<lambda>s. st_rollback stub_store_ops s h) b),
      st_read_transaction = (\<lambda>b. case b of Boxed s \<Rightarrow> st_read_transaction ops s
                                  | StubStore \<Rightarrow> st_read_transaction stub_store_ops ()),
      st_write_transaction = (\<lambda>b g h. on_store (\<lambda>s. st_write_transaction ops s g h)
                                        (\<lambda>s. st_write_transaction stub_store_ops s g h) b)\<rparr>"

definition builder :: "'e \<Rightarrow> ('e, 'c, 'm, 's) registry_builder" where
  "builder e = \<lparr>rb_entity = e, rb_components = [], rb_selector_store = None, rb_shared_selector = None\<rparr>"

definition with_component :: "'c \<Rightarrow> ('e, 'c, 'm, 's) registry_builder \<Rightarrow> ('e, 'c, 'm, 's) registry_builder" where
  "with_component c b = b\<lparr>rb_components := rb_components b @ [c]\<rparr>"

definition with_selector_store :: "'s \<Rightarrow> ('e, 'c, 'm, 's) registry_builder \<Rightarrow> ('e, 'c, 'm, 's) registry_builder" where
  "with_selector_store s b = b\<lparr>rb_selector_store := Some s\<rparr>"

definition with_shared_selector :: "'m \<Rightarrow> ('e, 'c, 'm, 's) registry_builder \<Rightarrow> ('e, 'c, 'm, 's) registry_builder" where
  "with_shared_selector m b = b\<lparr>rb_shared_selector := Some m\<rparr>"

definition resolve_system_bank ::
    "'s selector_store_ops \<Rightarrow> 's boxed_store system_bank_manager option \<Rightarrow> 's option
       \<Rightarrow> selector_error + 's boxed_store system_bank_manager" where
  "resolve_system_bank ops shared store =
     (case shared of
        Some m \<Rightarrow> Ok m
      | None \<Rightarrow> load (boxed_store_ops ops) (case store of Some s \<Rightarrow> Boxed s | None \<Rightarrow> StubStore))"

fun index_all :: "('c \<Rightarrow> string) \<Rightarrow> nat \<Rightarrow> 'c list \<Rightarrow> (string \<rightharpoonup> nat) \<Rightarrow> (string \<rightharpoonup> nat)" where
  "index_all cid idx [] by_id = by_id"
| "index_all cid idx (c # cs) by_id = index_all cid (Suc idx) cs (by_id(cid c \<mapsto> idx))"

fun index_unique :: "('c \<Rightarrow> string) \<Rightarrow> nat \<Rightarrow> 'c list \<Rightarrow> (string \<rightharpoonup> nat) \<Rightarrow> string + (string \<rightharpoonup> nat)" where
  "index_unique cid idx [] by_id = Ok by_id"
| "index_unique cid idx (c # cs) by_id =
     (if by_id (cid c) \<noteq> None then Err (cid c)
      else index_unique cid (Suc idx) cs (by_id(cid c \<mapsto> idx)))"

definition build ::
    "'s selector_store_ops \<Rightarrow> ('c \<Rightarrow> string) \<Rightarrow> ('e, 'c, 's boxed_store system_bank_manager, 's) registry_builder
       \<Rightarrow> selector_error + ('e, 'c, 's boxed_store system_bank_manager) machine_registry" where
  "build ops cid b =
     (let by_id = index_all cid 0 (rb_components b) (\<lambda>_. None)
      in and_then (resolve_system_bank ops (rb_shared_selector b) (rb_selector_store b)) (\<lambda>sb.
           Ok \<lparr>mr_entity = rb_entity b, mr_components = rb_components b, mr_by_id = by_id, mr_system_bank = sb\<rparr>))"

definition try_build ::
    "'s selector_store_ops \<Rightarrow> ('c \<Rightarrow> string) \<Rightarrow> ('e, 'c, 's boxed_store system_bank_manager, 's) registry_builder
       \<Rightarrow> build_error + ('e, 'c, 's boxed_store system_bank_manager) machine_registry" where
  "try_build ops cid b =
     (case index_unique cid 0 (rb_components b) (\<lambda>_. None) of
        Err i \<Rightarrow> Err (DuplicateComponentId i)
      | Ok by_id \<Rightarrow>
          (case resolve_system_bank ops (rb_shared_selector b) (rb_selector_store b) of
             Err e \<Rightarrow> Err (BuildSelector e)
           | Ok sb \<Rightarrow> Ok \<lparr>mr_entity = rb_entity b, mr_components = rb_components b, mr_by_id = by_id,
                           mr_system_bank = sb\<rparr>))"

definition component :: "('e, 'c, 'm) machine_registry \<Rightarrow> string \<Rightarrow> 'c option" where
  "component r i =
     (case mr_by_id r i of
        None \<Rightarrow> None
      | Some idx \<Rightarrow> if idx < length (mr_components r) then Some (mr_components r ! idx) else None)"

subsection \<open>Seeding the boot vector\<close>

definition nv_floor :: "bank_boot_state \<Rightarrow> bank" where
  "nv_floor nv = (if committed nv then active_bank nv else other (active_bank nv))"

definition stage_rows :: "(string \<times> bank) list \<Rightarrow> 's system_bank_manager \<Rightarrow> 's system_bank_manager" where
  "stage_rows rs m = fold (\<lambda>(i, b). stage i b fmempty) rs m"

definition seed_rows ::
    "(bytes \<Rightarrow> bytes) \<Rightarrow> 's selector_store_ops \<Rightarrow> (string \<times> bank) list
       \<Rightarrow> ('s system_bank_manager \<Rightarrow> (string \<times> bank) list) \<Rightarrow> 's system_bank_manager
       \<Rightarrow> 's system_bank_manager \<times> (selector_error + unit)" where
  "seed_rows sha ops floors rearm m =
     (case seal sha ops None (stage_rows floors m) of
        (m1, Err e) \<Rightarrow> (m1, Err e)
      | (m1, Ok _) \<Rightarrow>
          (case commit ops m1 of
             (m2, Err e) \<Rightarrow> (m2, Err e)
           | (m2, Ok _) \<Rightarrow>
               (case seal sha ops None (stage_rows (rearm m2) m2) of
                  (m3, Err e) \<Rightarrow> (m3, Err e)
                | (m3, Ok _) \<Rightarrow> (m3, Ok ()))))"

definition seed_selector ::
    "(bytes \<Rightarrow> bytes) \<Rightarrow> 's selector_store_ops \<Rightarrow> (string \<times> bank_boot_state) list
       \<Rightarrow> 's system_bank_manager \<Rightarrow> 's system_bank_manager \<times> (selector_error + unit)" where
  "seed_selector sha ops entries m =
     (let unanchored = (\<not> is_empty m \<and> committed_generation m = 0);
          standing = filter (\<lambda>(i, nv). opt_filter (\<lambda>b. b \<noteq> nv_floor nv) (sbm_active_bank m i) \<noteq> None) entries
      in if unanchored \<and> standing \<noteq> [] then (m, Ok ())
         else if \<not> unanchored \<and> list_all (\<lambda>(i, nv). sbm_active_bank m i = Some (active_bank nv)) entries
         then (m, Ok ())
         else
           let missing = missing_entries m (map fst entries)
           in if \<not> is_empty m \<and> \<not> unanchored \<and> missing = [] then (m, Ok ())
              else if \<not> is_empty m \<and> \<not> unanchored \<and> is_trial m then (m, Ok ())
              else
                let todo = (if \<not> is_empty m then filter (\<lambda>(i, _). list_ex (\<lambda>x. x = i) missing) entries else entries)
                in seed_rows sha ops (map (\<lambda>(i, nv). (i, nv_floor nv)) todo)
                     (\<lambda>m2. if unanchored
                           then map (\<lambda>(i, nv). (i, active_bank nv))
                                  (filter (\<lambda>(i, nv). \<not> committed nv \<and> sbm_active_bank m2 i = Some (nv_floor nv)) entries)
                           else map (\<lambda>(i, nv). (i, active_bank nv)) (filter (\<lambda>(i, nv). \<not> committed nv) todo))
                     m)"

subsection \<open>Counting node boots\<close>

record node_boot_outcome =
  nbo_trial_boots :: "u8 option"
  nbo_limit :: "u8 option"
  nbo_bailed_out :: bool
  nbo_errors :: "(string \<times> string) list"

fun rollback_all ::
    "('w, 's) node_component list \<Rightarrow> ('w, 's) node \<Rightarrow> ('w, 's) node \<times> (string \<times> string) list" where
  "rollback_all [] n = (n, [])"
| "rollback_all (c # cs) n =
     (case co_rollback_install c '''' n of
        (n', r) \<Rightarrow>
          (case rollback_all cs n' of
             (n'', errs) \<Rightarrow> (n'', (case r of Err e \<Rightarrow> [(co_id c, e)] | Ok _ \<Rightarrow> []) @ errs)))"

definition registry_observe_node_boot ::
    "(bytes \<Rightarrow> bytes) \<Rightarrow> 's selector_store_ops \<Rightarrow> ('w, 's) node_component list \<Rightarrow> 'v node_coordinator
       \<Rightarrow> ('w, 's) node \<Rightarrow> ('w, 's) node \<times> node_boot_outcome" where
  "registry_observe_node_boot sha ops comps coord n =
     (let limit = nc_trial_boot_limit coord;
          out = \<lparr>nbo_trial_boots = None, nbo_limit = limit, nbo_bailed_out = False, nbo_errors = []\<rparr>
      in case nc_node_boot_id coord of
           None \<Rightarrow> (n, out)
         | Some boot_id \<Rightarrow>
             (case observe_node_boot sha ops boot_id (snd n) of
                (sb, observed) \<Rightarrow>
                  (case (case observed of
                           Ok NotArmed \<Rightarrow> None
                         | Ok (AlreadyCounted k) \<Rightarrow> Some k
                         | Ok (Counted k) \<Rightarrow> Some k
                         | Err _ \<Rightarrow> None) of
                     None \<Rightarrow> ((fst n, sb), out)
                   | Some k \<Rightarrow>
                       let out1 = out\<lparr>nbo_trial_boots := Some k\<rparr>
                       in if (case limit of None \<Rightarrow> True | Some l \<Rightarrow> k < l) then ((fst n, sb), out1)
                          else
                            let in_trial = filter (\<lambda>c. case co_banks c (fst n, sb) of
                                    None \<Rightarrow> False | Some b \<Rightarrow> cb_in_trial b) comps
                            in if \<not> is_trial sb then ((fst n, sb), out1)
                               else (case rollback ops TrialBootLimit sb of
                                       (sb', Err _) \<Rightarrow> ((fst n, sb'), out1)
                                     | (sb', Ok _) \<Rightarrow>
                                         (case rollback_all in_trial (fst n, sb') of
                                            (n', errs) \<Rightarrow>
                                              (n', out1\<lparr>nbo_bailed_out := True, nbo_errors := errs\<rparr>))))))"

end
