(* ===== verification/MachineProps.thy ===== *)
theory MachineProps
  imports Machine
begin

text \<open>
  Properties of the machine registry: component lookup, what the seed writes on an empty, an
  anchored and an unanchored boot vector, and the node's own rollback at the trial boot limit.
\<close>

section \<open>Lookup\<close>

lemma index_unique_ok:
  assumes "index_unique cid idx cs by_id = Ok r"
  shows "distinct (map cid cs) \<and> (\<forall>c \<in> set cs. by_id (cid c) = None)
    \<and> (\<forall>k < length cs. r (cid (cs ! k)) = Some (idx + k)) \<and> (\<forall>i. i \<notin> cid ` set cs \<longrightarrow> r i = by_id i)"
  using assms
proof (induction cid idx cs by_id rule: index_unique.induct)
  case (2 cid idx c cs by_id)
  from "2.prems" have free: "by_id (cid c) = None"
    and r: "index_unique cid (Suc idx) cs (by_id(cid c \<mapsto> idx)) = Ok r" by (auto split: if_splits)
  note IH = "2.IH" [OF _ r]
  have nd: "cid c \<notin> cid ` set cs" using IH free by fastforce
  have "r (cid ((c # cs) ! k)) = Some (idx + k)" if "k < length (c # cs)" for k
    using IH free nd that by (cases k) auto
  then show ?case using IH free nd by (auto split: if_splits)
qed simp

lemma index_unique_total:
  assumes "distinct (map cid cs)" "\<forall>c \<in> set cs. by_id (cid c) = None"
  shows "\<exists>r. index_unique cid idx cs by_id = Ok r"
  using assms
proof (induction cid idx cs by_id rule: index_unique.induct)
  case (2 cid idx c cs by_id)
  then have "\<forall>d \<in> set cs. (by_id(cid c \<mapsto> idx)) (cid d) = None" by (auto simp: image_iff)
  then have "\<exists>r. index_unique cid (Suc idx) cs (by_id(cid c \<mapsto> idx)) = Ok r"
    using "2.IH" "2.prems" by (simp del: fun_upd_apply)
  moreover have "index_unique cid idx (c # cs) by_id = index_unique cid (Suc idx) cs (by_id(cid c \<mapsto> idx))"
    using "2.prems" by simp
  ultimately show ?case by (simp only:)
qed simp

lemma index_unique_err: "index_unique cid idx cs by_id = Err i \<Longrightarrow> i \<in> cid ` set cs"
  by (induction cid idx cs by_id rule: index_unique.induct) (auto split: if_splits)

text \<open>The checked build fails on a duplicate id exactly when two components share one, and names an id
  that is registered; a registry it returns finds every registered component under its own id and
  nothing under any other id.\<close>

theorem try_build_lookup:
  "case try_build ops cid b of
     Err (DuplicateComponentId i) \<Rightarrow> \<not> distinct (map cid (rb_components b)) \<and> i \<in> cid ` set (rb_components b)
   | Err (BuildSelector e) \<Rightarrow> distinct (map cid (rb_components b))
       \<and> resolve_system_bank ops (rb_shared_selector b) (rb_selector_store b) = Err e
   | Ok r \<Rightarrow> distinct (map cid (rb_components b)) \<and> mr_components r = rb_components b
       \<and> resolve_system_bank ops (rb_shared_selector b) (rb_selector_store b) = Ok (mr_system_bank r)
       \<and> (\<forall>i. component r i = find (\<lambda>c. cid c = i) (rb_components b))"
proof (cases "index_unique cid 0 (rb_components b) (\<lambda>_. None)")
  case (Inl i)
  then show ?thesis
    using index_unique_total [of cid "rb_components b" "\<lambda>_. None" 0] index_unique_err [OF Inl]
    by (auto simp: try_build_def)
next
  case (Inr by_id)
  note u = index_unique_ok [OF Inr]
  have found: "(case by_id i of None \<Rightarrow> None
      | Some idx \<Rightarrow> if idx < length (rb_components b) then Some (rb_components b ! idx) else None)
      = find (\<lambda>c. cid c = i) (rb_components b)" for i
  proof (cases "find (\<lambda>c. cid c = i) (rb_components b)")
    case None
    then have "i \<notin> cid ` set (rb_components b)" by (auto simp: find_None_iff)
    then show ?thesis using u None by auto
  next
    case (Some c)
    then obtain k where "k < length (rb_components b)" "c = rb_components b ! k" "cid c = i"
      by (auto simp: find_Some_iff)
    then show ?thesis using u Some by auto
  qed
  then have lookup: "component \<lparr>mr_entity = e, mr_components = rb_components b, mr_by_id = by_id, mr_system_bank = sb\<rparr> i
      = find (\<lambda>c. cid c = i) (rb_components b)" for e i sb
    by (simp only: component_def machine_registry.select_convs)
  show ?thesis
    using u Inr by (auto simp: try_build_def lookup split: sum.splits)
qed

section \<open>Seeding\<close>

definition put_rows :: "(string \<times> bank) list \<Rightarrow> entries \<Rightarrow> entries" where
  "put_rows rs es = fold (\<lambda>(i, b). fmupd i \<lparr>ce_bank = b, ce_images = fmempty\<rparr>) rs es"

lemma put_rows_simps [simp]:
  "put_rows [] es = es"
  "put_rows ((i, b) # rs) es = put_rows rs (fmupd i \<lparr>ce_bank = b, ce_images = fmempty\<rparr> es)"
  by (simp_all add: put_rows_def)

lemma lookup_put_rows:
  "distinct (map fst rs) \<Longrightarrow> fmlookup (put_rows rs es) i =
    (case map_of rs i of Some b \<Rightarrow> Some \<lparr>ce_bank = b, ce_images = fmempty\<rparr> | None \<Rightarrow> fmlookup es i)"
proof (induction rs arbitrary: es)
  case (Cons r rs)
  obtain k b where r: "r = (k, b)" by (cases r)
  have "map_of rs k = None" using Cons.prems r by (simp add: map_of_eq_None_iff)
  then show ?case using Cons r by (cases "k = i") (auto split: option.split)
qed simp

lemma stage_rows_Some: "pending m = Some p \<Longrightarrow> stage_rows rs m = m\<lparr>pending := Some (put_rows rs p)\<rparr>"
  by (induction rs arbitrary: m p) (auto simp: stage_rows_def stage_def)

lemma stage_rows_None:
  assumes "pending m = None"
  shows "stage_rows rs m = m\<lparr>pending := (if rs = [] then None else Some (put_rows rs (current m)))\<rparr>"
proof (cases rs)
  case (Cons r rs')
  then have "stage_rows rs m = stage_rows rs' (stage (fst r) (snd r) fmempty m)"
    by (simp add: stage_rows_def case_prod_beta)
  also have "\<dots> = m\<lparr>pending := Some (put_rows rs (current m))\<rparr>"
    using stage_rows_Some [of "stage (fst r) (snd r) fmempty m"] assms Cons
    by (cases r) (simp add: stage_def)
  finally show ?thesis using Cons by simp
qed (use assms in \<open>simp add: stage_rows_def\<close>)

lemma seal_rows:
  assumes "file_coherent env m" "pending m = None" "generation m \<noteq> -1"
  shows "\<exists>m' b. seal sha (file_store_ops env) None (stage_rows rs m) = (m', Ok b) \<and> file_coherent env m'
    \<and> pending m' = None \<and> current m' = put_rows rs (current m)
    \<and> generation m' = (if rs = [] then generation m else generation m + 1)
    \<and> committed_entries m' = committed_entries m \<and> committed_generation m' = committed_generation m"
proof (cases "rs = []")
  case True
  then show ?thesis using assms by (intro exI [of _ m] exI [of _ False]) (simp add: stage_rows_def seal_def)
next
  case False
  have "file_coherent env (m\<lparr>pending := Some (put_rows rs (current m))\<rparr>)"
    using assms(1) by (simp add: coherent_def)
  from file_seal_coherent [OF this, of "put_rows rs (current m)" sha None] show ?thesis
    using False assms by (auto simp: stage_rows_None)
qed

lemma seed_rows_ok:
  assumes "file_coherent env m" "pending m = None" "generation m \<noteq> -1" "generation m + 1 \<noteq> -1"
  shows "\<exists>m2 m'. seed_rows sha (file_store_ops env) floors rearm m = (m', Ok ()) \<and> file_coherent env m'
    \<and> pending m' = None \<and> current m2 = put_rows floors (current m)
    \<and> current m' = put_rows (rearm m2) (current m2) \<and> committed_entries m' = current m2
    \<and> committed_generation m' = (if floors = [] then generation m else generation m + 1)"
proof -
  obtain m1 b where m1: "seal sha (file_store_ops env) None (stage_rows floors m) = (m1, Ok b)" "file_coherent env m1"
      "pending m1 = None" "current m1 = put_rows floors (current m)"
      "generation m1 = (if floors = [] then generation m else generation m + 1)"
    using seal_rows [OF assms(1-3)] by blast
  obtain m2 where m2: "commit (file_store_ops env) m1 = (m2, Ok ())" "file_coherent env m2" "pending m2 = None"
      "current m2 = current m1" "generation m2 = generation m1" "committed_entries m2 = current m1"
      "committed_generation m2 = generation m1"
    using file_rec.mgr_commit [OF m1(2)] m1(3) unfolding file_store_ops_def by auto
  have "generation m2 \<noteq> -1" using m2(5) m1(5) assms(3,4) by simp
  from seal_rows [OF m2(2,3) this, of sha "rearm m2"] obtain m3 c where m3:
      "seal sha (file_store_ops env) None (stage_rows (rearm m2) m2) = (m3, Ok c)" "file_coherent env m3"
      "pending m3 = None" "current m3 = put_rows (rearm m2) (current m2)" "committed_entries m3 = committed_entries m2"
      "committed_generation m3 = committed_generation m2" by blast
  show ?thesis
    using m1 m2 m3 by (intro exI [of _ m2] exI [of _ m3]) (simp add: seed_rows_def)
qed

text \<open>What a row of the seed looks like afterwards: booted at NV's bank over NV's floor.\<close>

definition seeded_as :: "'s system_bank_manager \<Rightarrow> string \<Rightarrow> bank_boot_state \<Rightarrow> bool" where
  "seeded_as m i nv \<longleftrightarrow> sbm_active_bank m i = Some (active_bank nv)
     \<and> map_option ce_bank (committed_entry m i) = Some (nv_floor nv)
     \<and> (component_in_trial m i \<longleftrightarrow> \<not> committed nv)"

lemma other_neq [simp]: "other b \<noteq> b" "b \<noteq> other b"
  by (cases b; simp add: other_def)+

lemma map_of_pick:
  assumes "distinct (map fst xs)" "(i, x) \<in> set xs"
  shows "map_of (map (\<lambda>(i, x). (i, f x)) (filter (\<lambda>(i, x). P i x) xs)) i = (if P i x then Some (f x) else None)"
  using assms
proof (induction xs)
  case (Cons a xs)
  obtain j y where a: "a = (j, y)" by (cases a)
  have none: "i \<notin> fst ` set xs \<Longrightarrow> map_of (map (\<lambda>(i, x). (i, f x)) (filter (\<lambda>(i, x). P i x) xs)) i = None"
    by (auto simp: map_of_eq_None_iff image_iff split: prod.splits)
  show ?case
  proof (cases "i = j")
    case True
    then have "x = y" using Cons.prems a by force
    then show ?thesis using True a Cons.prems none by auto
  next
    case False
    then show ?thesis using Cons a by auto
  qed
qed simp

lemma distinct_pick:
  "distinct (map fst xs) \<Longrightarrow> distinct (map fst (map (\<lambda>(i, x). (i, f x)) (filter (\<lambda>(i, x). P i x) xs)))"
proof -
  have "map fst (map (\<lambda>(i, x). (i, f x)) ys) = map fst ys" for ys :: "('a \<times> 'b) list" by auto
  then show "distinct (map fst xs) \<Longrightarrow> distinct (map fst (map (\<lambda>(i, x). (i, f x)) (filter (\<lambda>(i, x). P i x) xs)))"
    by (simp only: distinct_map_filter)
qed

lemma lookup_pick:
  assumes "distinct (map fst xs)" "(i, x) \<in> set xs"
  shows "fmlookup (put_rows (map (\<lambda>(i, x). (i, f x)) (filter (\<lambda>(i, x). P i x) xs)) es) i =
    (if P i x then Some \<lparr>ce_bank = f x, ce_images = fmempty\<rparr> else fmlookup es i)"
  unfolding lookup_put_rows [OF distinct_pick [OF assms(1)]] map_of_pick [OF assms] by simp

lemma lookup_pick_notin:
  assumes "distinct (map fst xs)" "i \<notin> fst ` set (filter (\<lambda>(i, x). P i x) xs)"
  shows "fmlookup (put_rows (map (\<lambda>(i, x). (i, f x)) (filter (\<lambda>(i, x). P i x) xs)) es) i = fmlookup es i"
proof -
  have "map_of (map (\<lambda>(i, x). (i, f x)) (filter (\<lambda>(i, x). P i x) xs)) i = None"
    using assms(2) by (auto simp: map_of_eq_None_iff image_iff split: prod.splits)
  then show ?thesis using lookup_put_rows [OF distinct_pick [OF assms(1)]] by simp
qed

text \<open>C35: On an empty boot vector the seed writes what NV says: every bank set boots its active bank over its
  floor (the active bank where NV is committed, the other one where NV holds a trial), a set is in
  trial in the vector exactly when NV holds it in trial, and the vector has a committed copy. The
  result is what a restart loads, and seeding again writes nothing.\<close>

theorem seed_empty_vector:
  assumes "env_ok env" "mgr_reach sha (file_store_ops env) (fresh_world host) m"
    and "is_empty m" "pending m = None" "generation m \<noteq> -1" "generation m + 1 \<noteq> -1"
    and "entries \<noteq> []" "distinct (map fst entries)"
  shows "\<exists>m'. seed_selector sha (file_store_ops env) entries m = (m', Ok ())
    \<and> (\<forall>(i, nv) \<in> set entries. seeded_as m' i nv) \<and> committed_generation m' \<noteq> 0
    \<and> load (file_store_ops env) (sbm_store m') = Ok m'
    \<and> seed_selector sha (file_store_ops env) entries m' = (m', Ok ())"
proof -
  let ?ops = "file_store_ops env"
  let ?floors = "map (\<lambda>(i, nv). (i, nv_floor nv)) entries"
  let ?trials = "map (\<lambda>(i, nv). (i, active_bank nv)) (filter (\<lambda>(i, nv). \<not> committed nv) entries)"
  have floors: "?floors = map (\<lambda>(i, nv). (i, nv_floor nv)) (filter (\<lambda>(i, nv). True) entries)" by simp
  obtain m' where m': "seed_rows sha ?ops ?floors (\<lambda>_. ?trials) m = (m', Ok ())" "file_coherent env m'"
      "pending m' = None" "current m' = put_rows ?trials (put_rows ?floors (current m))"
      "committed_entries m' = put_rows ?floors (current m)" "committed_generation m' = generation m + 1"
    using seed_rows_ok [OF file_reach_coherent [OF assms(1,2)] assms(4-6), of sha ?floors "\<lambda>_. ?trials"] assms(7) by auto
  have rows: "seeded_as m' i nv" if "(i, nv) \<in> set entries" for i nv
    using lookup_pick [OF assms(8) that, of active_bank "\<lambda>_ nv. \<not> committed nv"]
      lookup_pick [OF assms(8) that, of nv_floor "\<lambda>_ _. True", folded floors] m'(4,5)
    by (auto simp: seeded_as_def sbm_active_bank_def committed_entry_def component_in_trial_def entry_def nv_floor_def)
  obtain i nv where one: "(i, nv) \<in> set entries" using assms(7) by (cases entries) auto
  then have "\<not> list_all (\<lambda>(i, nv). sbm_active_bank m i = Some (active_bank nv)) entries"
    using assms(3) by (auto simp: list_all_iff is_empty_def sbm_active_bank_def)
  then have seed: "seed_selector sha ?ops entries m = (m', Ok ())"
    using m'(1) assms(3) by (simp add: seed_selector_def)
  have cg: "committed_generation m' \<noteq> 0"
    using m'(6) assms(5) by (metis add.commute eq_neg_iff_add_eq_0)
  have "load ?ops (sbm_store m') = Ok (m'\<lparr>pending := None\<rparr>)"
    using file_rec.store.coherent_load [OF m'(2)] by (simp add: file_store_ops_def)
  moreover have "m'\<lparr>pending := None\<rparr> = m'" using m'(3) by simp
  moreover have "list_all (\<lambda>(i, nv). sbm_active_bank m' i = Some (active_bank nv)) entries"
    using rows by (auto simp: list_all_iff seeded_as_def)
  ultimately show ?thesis
    using seed rows cg by (intro exI [of _ m']) (auto simp: seed_selector_def)
qed

theorem seed_empty_vector_witness:
  "\<exists>m'. seed_selector (\<lambda>b. b) (file_store_ops env0)
      [(''os'', \<lparr>active_bank = A, committed = True, boot_count = 0\<rparr>),
       (''vm1'', \<lparr>active_bank = B, committed = False, boot_count = 2\<rparr>)] two_banks = (m', Ok ())
    \<and> sbm_active_bank m' ''vm1'' = Some B \<and> component_in_trial m' ''vm1'' \<and> \<not> component_in_trial m' ''os''"
  using seed_empty_vector [OF env0_ok mgr_reach.boot [OF load_fresh], of
      "[(''os'', \<lparr>active_bank = A, committed = True, boot_count = 0\<rparr>),
        (''vm1'', \<lparr>active_bank = B, committed = False, boot_count = 2\<rparr>)]" "\<lambda>b. b"]
  by (auto simp: two_banks_def is_empty_def seeded_as_def)

text \<open>On a vector that has a committed copy the seed never touches an existing row: whatever NV says,
  every component of the booted selection keeps its entry, images included, and stays in trial or
  out of it as it was. While a trial stands it writes nothing at all; otherwise the components
  without a row are added as NV has them.\<close>

theorem seed_keeps_rows:
  assumes "env_ok env" "mgr_reach sha (file_store_ops env) (fresh_world host) m"
    and "\<not> is_empty m" "committed_generation m \<noteq> 0" "pending m = None" "generation m \<noteq> -1" "generation m + 1 \<noteq> -1"
    and "distinct (map fst entries)"
  shows "\<exists>m'. seed_selector sha (file_store_ops env) entries m = (m', Ok ())
    \<and> (\<forall>i e. entry m i = Some e \<longrightarrow> entry m' i = Some e \<and> component_in_trial m' i = component_in_trial m i)
    \<and> (if is_trial m then m' = m
        else \<forall>(i, nv) \<in> set entries. entry m i = None \<longrightarrow> seeded_as m' i nv)"
proof -
  let ?ops = "file_store_ops env" and ?missing = "missing_entries m (map fst entries)"
  let ?P = "\<lambda>i (nv :: bank_boot_state). list_ex (\<lambda>x. x = i) ?missing"
  let ?todo = "filter (\<lambda>(i, nv). ?P i nv) entries"
  have P: "?P i nv \<longleftrightarrow> entry m i = None" if "(i, nv) \<in> set entries" for i nv
    using that by (force simp: missing_entries_def list_ex_iff entry_def)
  have missing: "?missing = [] \<longleftrightarrow> (\<forall>(i, nv) \<in> set entries. entry m i \<noteq> None)"
    by (auto simp: missing_entries_def filter_empty_conv entry_def split: prod.splits)
  show ?thesis
  proof (cases "?missing = [] \<or> is_trial m")
    case True
    then have "seed_selector sha ?ops entries m = (m, Ok ())"
      using assms(3,4) by (auto simp: seed_selector_def Let_def)
    then show ?thesis using True missing by (intro exI [of _ m]) auto
  next
    case False
    let ?floors = "map (\<lambda>(i, nv). (i, nv_floor nv)) ?todo"
    let ?trials = "map (\<lambda>(i, nv). (i, active_bank nv)) (filter (\<lambda>(i, nv). \<not> committed nv) ?todo)"
    let ?Q = "\<lambda>i nv. ?P i nv \<and> \<not> committed nv"
    have trials: "?trials = map (\<lambda>(i, nv). (i, active_bank nv)) (filter (\<lambda>(i, nv). ?Q i nv) entries)"
      by (simp add: case_prod_unfold)
    obtain m' where m': "seed_rows sha ?ops ?floors (\<lambda>_. ?trials) m = (m', Ok ())"
        "current m' = put_rows ?trials (put_rows ?floors (current m))"
        "committed_entries m' = put_rows ?floors (current m)"
      using seed_rows_ok [OF file_reach_coherent [OF assms(1,2)] assms(5-7), of sha ?floors "\<lambda>_. ?trials"] by auto
    obtain i nv where "(i, nv) \<in> set entries" "entry m i = None" using False missing by auto
    then have "\<not> list_all (\<lambda>(i, nv). sbm_active_bank m i = Some (active_bank nv)) entries"
      by (fastforce simp: list_all_iff sbm_active_bank_def entry_def)
    then have seed: "seed_selector sha ?ops entries m = (m', Ok ())"
      using m'(1) assms(3,4) False by (simp add: seed_selector_def Let_def)
    have cur: "current m = committed_entries m" using False by (simp add: is_trial_def)
    have kept: "entry m' i = Some e \<and> component_in_trial m' i = component_in_trial m i" if "entry m i = Some e" for i e
    proof -
      have "i \<notin> fst ` set (filter (\<lambda>(i, nv). ?P i nv) entries)" "i \<notin> fst ` set (filter (\<lambda>(i, nv). ?Q i nv) entries)"
        using P that by auto
      then show ?thesis
        using lookup_pick_notin [OF assms(8)] m'(2,3) trials that cur
        by (simp add: entry_def committed_entry_def component_in_trial_def)
    qed
    have "seeded_as m' i nv" if "(i, nv) \<in> set entries" "entry m i = None" for i nv
      using lookup_pick [OF assms(8) that(1), of active_bank ?Q] lookup_pick [OF assms(8) that(1), of nv_floor ?P]
        m'(2,3) trials P [OF that(1)] that(2)
      by (auto simp: seeded_as_def sbm_active_bank_def committed_entry_def component_in_trial_def entry_def nv_floor_def)
    then show ?thesis using seed kept False by (intro exI [of _ m']) auto
  qed
qed

theorem seed_keeps_rows_witness:
  "\<exists>m'. seed_selector (\<lambda>b. b) (file_store_ops env0)
      [(''os'', \<lparr>active_bank = A, committed = True, boot_count = 0\<rparr>),
       (''vm1'', \<lparr>active_bank = B, committed = False, boot_count = 2\<rparr>)] floor1 = (m', Ok ())
    \<and> sbm_active_bank m' ''os'' = Some B \<and> seeded_as m' ''vm1'' \<lparr>active_bank = B, committed = False, boot_count = 2\<rparr>"
proof -
  have "\<not> is_empty floor1" using fmupd_nonempty by (simp add: is_empty_def floor1_facts)
  moreover have "\<not> is_trial floor1" by (simp add: is_trial_def floor1_facts)
  moreover have "entry floor1 ''os'' = Some \<lparr>ce_bank = B, ce_images = fmempty\<rparr>" "entry floor1 ''vm1'' = None"
    by (simp_all add: entry_def floor1_facts)
  ultimately show ?thesis
    using seed_keeps_rows [OF env0_ok floor1_facts(1), of
        "[(''os'', \<lparr>active_bank = A, committed = True, boot_count = 0\<rparr>),
          (''vm1'', \<lparr>active_bank = B, committed = False, boot_count = 2\<rparr>)]"]
    by (auto simp: floor1_facts(2-4) sbm_active_bank_def entry_def)
qed

text \<open>A vector whose committed copy is gone is anchored only when it is the seed's own baseline. If some
  row NV describes is not at NV's floor, the seed writes nothing, so a standing trial is never
  settled by it. If every such row is at its floor, the seed commits the baseline and re-arms NV's
  trials over it: afterwards every set is booted and floored as NV has it.\<close>

theorem seed_unanchored:
  fixes env :: "'raw file_env"
  assumes "env_ok env" "mgr_reach sha (file_store_ops env) (fresh_world host) m"
    and "\<not> is_empty m" "committed_generation m = 0" "generation m \<noteq> 0"
    and "pending m = None" "generation m \<noteq> -1" "generation m + 1 \<noteq> -1" "distinct (map fst entries)"
  shows "if \<exists>(i, nv) \<in> set entries. sbm_active_bank m i = Some (other (nv_floor nv))
    then seed_selector sha (file_store_ops env) entries m = (m, Ok ())
    else \<exists>m'. seed_selector sha (file_store_ops env) entries m = (m', Ok ()) \<and> committed_generation m' \<noteq> 0
         \<and> (\<forall>(i, nv) \<in> set entries. seeded_as m' i nv)
         \<and> (\<forall>i. i \<notin> fst ` set entries \<longrightarrow> entry m' i = entry m i \<and> committed_entry m' i = entry m i)"
proof -
  let ?ops = "file_store_ops env" and ?missing = "missing_entries m (map fst entries)"
  let ?P = "\<lambda>i (nv :: bank_boot_state). list_ex (\<lambda>x. x = i) ?missing"
  let ?floors = "map (\<lambda>(i, nv). (i, nv_floor nv)) (filter (\<lambda>(i, nv). ?P i nv) entries)"
  let ?standing = "filter (\<lambda>(i, nv). opt_filter (\<lambda>b. b \<noteq> nv_floor nv) (sbm_active_bank m i) \<noteq> None) entries"
  have oth: "b \<noteq> c \<longleftrightarrow> b = other c" for b c by (cases b; cases c; simp add: other_def)
  have P: "?P i nv \<longleftrightarrow> entry m i = None" if "(i, nv) \<in> set entries" for i nv
    using that by (force simp: missing_entries_def list_ex_iff entry_def)
  have st: "?standing \<noteq> [] \<longleftrightarrow> (\<exists>(i, nv) \<in> set entries. sbm_active_bank m i = Some (other (nv_floor nv)))"
    by (auto simp: filter_empty_conv opt_filter_eq_Some oth)
  show ?thesis
  proof (cases "\<exists>(i, nv) \<in> set entries. sbm_active_bank m i = Some (other (nv_floor nv))")
    case True
    then have "?standing \<noteq> []" using st by blast
    then show ?thesis using True assms(3,4) by (auto simp: seed_selector_def Let_def)
  next
    case False
    let ?rearm = "\<lambda>m2. map (\<lambda>(i, nv). (i, active_bank nv))
      (filter (\<lambda>(i, nv). \<not> committed nv \<and> sbm_active_bank m2 i = Some (nv_floor nv)) entries)"
    obtain m2 :: "(file_host, 'raw) world system_bank_manager" and m' where m': "seed_rows sha ?ops ?floors ?rearm m = (m', Ok ())"
        "current m2 = put_rows ?floors (current m)" "current m' = put_rows (?rearm m2) (current m2)"
        "committed_entries m' = current m2" "committed_generation m' = (if ?floors = [] then generation m else generation m + 1)"
      using seed_rows_ok [OF file_reach_coherent [OF assms(1,2)] assms(6-8), of sha ?floors ?rearm] by blast
    have "?standing = []" using False st by blast
    then have seed: "seed_selector sha ?ops entries m = (m', Ok ())"
      using m'(1) assms(3,4) by (simp add: seed_selector_def Let_def)
    have cg: "committed_generation m' \<noteq> 0"
      using m'(5) assms(5,7) by (auto simp: eq_neg_iff_add_eq_0 [symmetric])
    have fl: "sbm_active_bank m2 i = Some (nv_floor nv)" if "(i, nv) \<in> set entries" for i nv
    proof (cases "entry m i")
      case None
      then show ?thesis
        using lookup_pick [OF assms(9) that, of nv_floor ?P] P [OF that] m'(2) by (simp add: sbm_active_bank_def)
    next
      case (Some e)
      then have "ce_bank e = nv_floor nv" using False that oth by (fastforce simp: sbm_active_bank_def entry_def)
      then show ?thesis
        using lookup_pick [OF assms(9) that, of nv_floor ?P] P [OF that] Some m'(2) by (simp add: sbm_active_bank_def entry_def)
    qed
    have "seeded_as m' i nv" if "(i, nv) \<in> set entries" for i nv
      using lookup_pick [OF assms(9) that, of active_bank "\<lambda>i nv. \<not> committed nv \<and> sbm_active_bank m2 i = Some (nv_floor nv)"
          "current m2"] m'(3,4) fl [OF that]
      by (auto simp: seeded_as_def sbm_active_bank_def committed_entry_def component_in_trial_def entry_def nv_floor_def)
    moreover have "entry m' i = entry m i \<and> committed_entry m' i = entry m i" if "i \<notin> fst ` set entries" for i
    proof -
      have "i \<notin> fst ` set (filter f entries)" for f using that by auto
      then show ?thesis
        using lookup_pick_notin [OF assms(9)] m'(2-4) by (simp add: entry_def committed_entry_def)
    qed
    ultimately show ?thesis using False seed cg by auto
  qed
qed

theorem seed_unanchored_witness:
  "\<exists>m1 m'. seal (\<lambda>b. b) (file_store_ops env0) None staged = (m1, Ok True)
    \<and> seed_selector (\<lambda>b. b) (file_store_ops env0)
        [(''os'', \<lparr>active_bank = A, committed = False, boot_count = 1\<rparr>)] m1 = (m', Ok ())
    \<and> seeded_as m' ''os'' \<lparr>active_bank = A, committed = False, boot_count = 1\<rparr>"
proof -
  obtain m1 where s: "seal (\<lambda>b. b) (file_store_ops env0) None staged = (m1, Ok True)"
    and m1: "current m1 = fmupd ''os'' \<lparr>ce_bank = B, ce_images = fmempty\<rparr> fmempty" "pending m1 = None"
      "generation m1 = 1" "committed_generation m1 = 0"
    using file_seal_coherent [OF file_reach_coherent [OF env0_ok staged_facts(1)] _ staged_facts(3), of "\<lambda>b. b" None]
    by (auto simp: staged_facts)
  have r: "mgr_reach (\<lambda>b. b) (file_store_ops env0) (fresh_world None) m1"
    using mgr_reach.step [OF staged_facts(1), of "OpSeal None"] s by (simp add: staged_facts)
  have "\<not> is_empty m1" using fmupd_nonempty by (simp add: is_empty_def m1)
  then show ?thesis
    using s seed_unanchored [OF env0_ok r, of "[(''os'', \<lparr>active_bank = A, committed = False, boot_count = 1\<rparr>)]"]
    by (auto simp: m1 sbm_active_bank_def nv_floor_def other_def)
qed

end
