(* ===== verification/BailOut.thy ===== *)
theory BailOut
  imports MachineProps
begin

text \<open>
  The node's one autonomous act: after the configured number of node boots in an armed trial
  without a verdict, the registry rolls the boot vector back and then every component that was in
  trial. Components are arbitrary implementations of the trait; the boot vector lives in the file
  store.
\<close>

section \<open>Runs of node boots\<close>

fun node_boots ::
    "(bytes \<Rightarrow> bytes) \<Rightarrow> 's selector_store_ops \<Rightarrow> ('w, 's) node_component list \<Rightarrow> 'v node_coordinator
       \<Rightarrow> string list \<Rightarrow> ('w, 's) node \<Rightarrow> ('w, 's) node \<times> node_boot_outcome list" where
  "node_boots sha ops comps coord [] n = (n, [])"
| "node_boots sha ops comps coord (i # is) n =
     (case registry_observe_node_boot sha ops comps (with_node_boot_id i coord) n of
        (n', out) \<Rightarrow>
          (case node_boots sha ops comps coord is n' of (n'', outs) \<Rightarrow> (n'', out # outs)))"

definition boot_outcome :: "u8 option \<Rightarrow> u8 \<Rightarrow> bool \<Rightarrow> (string \<times> string) list \<Rightarrow> node_boot_outcome" where
  "boot_outcome l k bailed errs =
     \<lparr>nbo_trial_boots = Some k, nbo_limit = l, nbo_bailed_out = bailed, nbo_errors = errs\<rparr>"

definition reporting_trial :: "('w, 's) node_component list \<Rightarrow> ('w, 's) node \<Rightarrow> ('w, 's) node_component list" where
  "reporting_trial comps n = filter (\<lambda>c. case co_banks c n of None \<Rightarrow> False | Some b \<Rightarrow> cb_in_trial b) comps"

lemma observe_below_limit:
  assumes "file_coherent env m" "is_trial m" "sbm_transaction m = Some t" "tx_armed_boot_id t \<noteq> zero_id"
    and "boot_id_digest sha i \<noteq> tx_armed_boot_id t" "boot_id_digest sha i \<noteq> tx_counted_boot_id t"
    and "nc_trial_boot_limit coord = Some l" "tx_trial_boots (counted_header sha i t) < l"
  shows "\<exists>store'. let m' = m\<lparr>sbm_store := store', sbm_transaction := Some (counted_header sha i t)\<rparr> in
      file_coherent env m'
    \<and> registry_observe_node_boot sha (file_store_ops env) comps (with_node_boot_id i coord) (w, m) =
        ((w, m'), boot_outcome (Some l) (tx_trial_boots (counted_header sha i t)) False [])"
  using file_rec.mgr_observe [OF assms(1-6)] assms(7,8)
  by (auto simp: registry_observe_node_boot_def Let_def with_node_boot_id_def boot_outcome_def file_store_ops_def)

lemma observe_at_limit:
  assumes "file_coherent env m" "is_trial m" "sbm_transaction m = Some t" "tx_armed_boot_id t \<noteq> zero_id"
    and "boot_id_digest sha i \<noteq> tx_armed_boot_id t" "boot_id_digest sha i \<noteq> tx_counted_boot_id t"
    and "nc_trial_boot_limit coord = Some l" "l \<le> tx_trial_boots (counted_header sha i t)" "committed_generation m \<noteq> 0"
  shows "\<exists>m1 sb. file_coherent env sb \<and> current sb = committed_entries m \<and> committed_entries sb = committed_entries m
    \<and> generation sb = committed_generation m \<and> pending sb = None
    \<and> map_option tx_resolution (sbm_transaction sb) = Some (Some \<lparr>res_outcome = RolledBack, res_reason = TrialBootLimit\<rparr>)
    \<and> current m1 = current m \<and> committed_entries m1 = committed_entries m
    \<and> registry_observe_node_boot sha (file_store_ops env) comps (with_node_boot_id i coord) (w, m) =
        (fst (rollback_all (reporting_trial comps (w, m1)) (w, sb)),
         boot_outcome (Some l) (tx_trial_boots (counted_header sha i t)) True
           (snd (rollback_all (reporting_trial comps (w, m1)) (w, sb))))"
proof -
  let ?t = "counted_header sha i t"
  obtain store' where o: "observe_node_boot sha (file_store_ops env) i m =
      (m\<lparr>sbm_store := store', sbm_transaction := Some ?t\<rparr>, Ok (Counted (tx_trial_boots ?t)))"
    and c: "file_coherent env (m\<lparr>sbm_store := store', sbm_transaction := Some ?t\<rparr>)"
    using file_rec.mgr_observe [OF assms(1-6)] by (auto simp: file_store_ops_def)
  let ?m = "m\<lparr>sbm_store := store', sbm_transaction := Some ?t\<rparr>"
  have tr: "is_trial ?m" using assms(2) by (simp add: is_trial_def)
  obtain sb where r: "rollback (file_store_ops env) TrialBootLimit ?m = (sb, Ok ())"
    and sb: "file_coherent env sb" "current sb = committed_entries m" "generation sb = committed_generation m"
      "pending sb = None" "committed_entries sb = committed_entries m"
      "sbm_transaction sb = Some (rollback_header TrialBootLimit ?m)"
    using file_rec.mgr_rollback [OF c tr, of TrialBootLimit] assms(9) by (auto simp: file_store_ops_def)
  have "registry_observe_node_boot sha (file_store_ops env) comps (with_node_boot_id i coord) (w, m) =
      (fst (rollback_all (reporting_trial comps (w, ?m)) (w, sb)),
       boot_outcome (Some l) (tx_trial_boots ?t) True (snd (rollback_all (reporting_trial comps (w, ?m)) (w, sb))))"
    using o r tr assms(7,8)
    by (simp add: registry_observe_node_boot_def with_node_boot_id_def boot_outcome_def reporting_trial_def
        Let_def linorder_not_less split: prod.split)
  then show ?thesis
    using sb by (intro exI [of _ ?m] exI [of _ sb]) (simp add: rollback_header_def)
qed

lemma boots_below_limit:
  assumes "file_coherent env m" "is_trial m" "sbm_transaction m = Some t" "tx_armed_boot_id t \<noteq> zero_id"
    and "new_boots sha (tx_armed_boot_id t) (tx_counted_boot_id t) (is @ is')"
    and "nc_trial_boot_limit coord = Some l" "unat (tx_trial_boots t) + length is < unat l"
  shows "\<exists>store' t'. let m' = m\<lparr>sbm_store := store', sbm_transaction := Some t'\<rparr> in
      file_coherent env m'
    \<and> node_boots sha (file_store_ops env) comps coord is (w, m) =
        ((w, m'), map (\<lambda>k. boot_outcome (Some l) (of_nat (unat (tx_trial_boots t) + k)) False []) [1..<Suc (length is)])
    \<and> unat (tx_trial_boots t') = unat (tx_trial_boots t) + length is \<and> tx_armed_boot_id t' = tx_armed_boot_id t
    \<and> new_boots sha (tx_armed_boot_id t) (tx_counted_boot_id t') is'"
  using assms
proof (induction "is" arbitrary: m t)
  case Nil
  have eq: "m\<lparr>sbm_store := sbm_store m, sbm_transaction := Some t\<rparr> = m" using Nil.prems(3) by simp
  show ?case
    by (intro exI [of _ "sbm_store m"] exI [of _ t], unfold Let_def eq) (use Nil in simp)
next
  case (Cons i "is")
  let ?t = "counted_header sha i t"
  have lim: "unat l \<le> 255" by (rule unat_u8_le)
  have cnt: "unat (tx_trial_boots ?t) = Suc (unat (tx_trial_boots t))"
    using Cons.prems(7) lim by (simp add: counted_trial_boots)
  then have lt: "tx_trial_boots ?t < l" using Cons.prems(7) by (simp add: word_less_nat_alt)
  have k: "tx_trial_boots ?t = of_nat (unat (tx_trial_boots t) + 1)"
  proof -
    have "tx_trial_boots ?t = of_nat (unat (tx_trial_boots ?t))" by simp
    then show ?thesis unfolding cnt by simp
  qed
  obtain store1 where s1: "file_coherent env (m\<lparr>sbm_store := store1, sbm_transaction := Some ?t\<rparr>)"
      "registry_observe_node_boot sha (file_store_ops env) comps (with_node_boot_id i coord) (w, m) =
        ((w, m\<lparr>sbm_store := store1, sbm_transaction := Some ?t\<rparr>), boot_outcome (Some l) (tx_trial_boots ?t) False [])"
    using observe_below_limit [OF Cons.prems(1-4) _ _ Cons.prems(6) lt, of comps w] Cons.prems(5) by (auto simp: Let_def)
  let ?m = "m\<lparr>sbm_store := store1, sbm_transaction := Some ?t\<rparr>"
  have "is_trial ?m" "sbm_transaction ?m = Some ?t" "tx_armed_boot_id ?t \<noteq> zero_id"
    "new_boots sha (tx_armed_boot_id ?t) (tx_counted_boot_id ?t) (is @ is')"
    "unat (tx_trial_boots ?t) + length is < unat l"
    using Cons.prems cnt by (simp_all add: is_trial_def counted_header_def)
  from Cons.IH [OF s1(1) this(1-4) Cons.prems(6) this(5)] obtain store2 t' where IH:
      "file_coherent env (?m\<lparr>sbm_store := store2, sbm_transaction := Some t'\<rparr>)"
      "node_boots sha (file_store_ops env) comps coord is (w, ?m) =
        ((w, ?m\<lparr>sbm_store := store2, sbm_transaction := Some t'\<rparr>),
         map (\<lambda>k. boot_outcome (Some l) (of_nat (unat (tx_trial_boots ?t) + k)) False []) [1..<Suc (length is)])"
      "unat (tx_trial_boots t') = unat (tx_trial_boots ?t) + length is" "tx_armed_boot_id t' = tx_armed_boot_id ?t"
      "new_boots sha (tx_armed_boot_id ?t) (tx_counted_boot_id t') is'"
    by (auto simp: Let_def)
  have "map (\<lambda>k. boot_outcome (Some l) (of_nat (unat (tx_trial_boots t) + k)) False []) [1..<Suc (length (i # is))] =
      boot_outcome (Some l) (tx_trial_boots ?t) False []
      # map (\<lambda>k. boot_outcome (Some l) (of_nat (unat (tx_trial_boots ?t) + k)) False []) [1..<Suc (length is)]"
    by (simp add: k cnt upt_conv_Cons map_Suc_upt [symmetric] ac_simps del: upt_Suc)
  then show ?case
    using s1(2) IH cnt
    by (intro exI [of _ store2] exI [of _ t']) (simp add: Let_def counted_header_def del: upt_Suc)
qed

text \<open>C8: The node rolls itself back exactly at its limit. Over any sequence of as many new node boots as the
  limit, starting from a freshly armed trial over a committed floor, every boot but the last only
  counts; the last one restores the floor in the boot vector with the trial boot limit recorded as
  the reason (and that is what a restart loads), then runs the rollback of every component that
  reported a trial before it, collecting their failures without stopping. The node never commits.\<close>

theorem node_rolls_back_at_limit:
  assumes "env_ok env" "mgr_reach sha (file_store_ops env) (fresh_world host) m" "is_trial m" "committed_generation m \<noteq> 0"
    and "sbm_transaction m = Some t" "tx_armed_boot_id t \<noteq> zero_id" "tx_trial_boots t = 0"
    and "new_boots sha (tx_armed_boot_id t) (tx_counted_boot_id t) (is @ [i])"
    and "nc_trial_boot_limit coord = Some l" "unat l = Suc (length is)"
  shows "\<exists>m1 sb. current sb = committed_entries m \<and> \<not> is_trial sb \<and> generation sb = committed_generation m
    \<and> map_option tx_resolution (sbm_transaction sb) = Some (Some \<lparr>res_outcome = RolledBack, res_reason = TrialBootLimit\<rparr>)
    \<and> load (file_store_ops env) (sbm_store sb) = Ok sb \<and> is_trial m1 \<and> current m1 = current m
    \<and> node_boots sha (file_store_ops env) comps coord (is @ [i]) (w, m) =
        (fst (rollback_all (reporting_trial comps (w, m1)) (w, sb)),
         map (\<lambda>k. boot_outcome (Some l) (of_nat k) False []) [1..<Suc (length is)]
         @ [boot_outcome (Some l) l True (snd (rollback_all (reporting_trial comps (w, m1)) (w, sb)))])"
proof -
  have "unat (tx_trial_boots t) + length is < unat l" using assms(7,10) by simp
  from boots_below_limit [OF file_reach_coherent [OF assms(1,2)] assms(3,5,6) assms(8,9) this, of comps w]
  obtain store' t' where b: "file_coherent env (m\<lparr>sbm_store := store', sbm_transaction := Some t'\<rparr>)"
      "node_boots sha (file_store_ops env) comps coord is (w, m) =
        ((w, m\<lparr>sbm_store := store', sbm_transaction := Some t'\<rparr>),
         map (\<lambda>k. boot_outcome (Some l) (of_nat k) False []) [1..<Suc (length is)])"
      "unat (tx_trial_boots t') = length is" "tx_armed_boot_id t' = tx_armed_boot_id t"
      "new_boots sha (tx_armed_boot_id t) (tx_counted_boot_id t') [i]"
    using assms(7) by (auto simp: Let_def)
  let ?m = "m\<lparr>sbm_store := store', sbm_transaction := Some t'\<rparr>"
  have "unat (tx_trial_boots (counted_header sha i t')) = unat l"
    using b(3) assms(10) unat_u8_le [of l] by (simp add: counted_trial_boots)
  then have cnt: "tx_trial_boots (counted_header sha i t') = l" by (simp add: word_unat_eq_iff)
  have "is_trial ?m" "tx_armed_boot_id t' \<noteq> zero_id" "boot_id_digest sha i \<noteq> tx_armed_boot_id t'"
    "boot_id_digest sha i \<noteq> tx_counted_boot_id t'" "l \<le> tx_trial_boots (counted_header sha i t')" "committed_generation ?m \<noteq> 0"
    using assms(3,4,6) b(4,5) cnt by (simp_all add: is_trial_def)
  from observe_at_limit [OF b(1) this(1) _ this(2-4) assms(9) this(5,6), of comps w]
  obtain m1 sb where sb: "file_coherent env sb" "current sb = committed_entries m" "committed_entries sb = committed_entries m"
      "generation sb = committed_generation m" "pending sb = None"
      "map_option tx_resolution (sbm_transaction sb) = Some (Some \<lparr>res_outcome = RolledBack, res_reason = TrialBootLimit\<rparr>)"
      "current m1 = current m" "committed_entries m1 = committed_entries m"
      "registry_observe_node_boot sha (file_store_ops env) comps (with_node_boot_id i coord) (w, ?m) =
        (fst (rollback_all (reporting_trial comps (w, m1)) (w, sb)),
         boot_outcome (Some l) l True (snd (rollback_all (reporting_trial comps (w, m1)) (w, sb))))"
    unfolding cnt by auto
  have app: "node_boots sha (file_store_ops env) comps coord (is @ [i]) n =
      (case node_boots sha (file_store_ops env) comps coord is n of (n1, outs) \<Rightarrow>
         (case registry_observe_node_boot sha (file_store_ops env) comps (with_node_boot_id i coord) n1 of
            (n2, out) \<Rightarrow> (n2, outs @ [out])))" for n
    by (induction "is" arbitrary: n) (auto split: prod.splits)
  have "load (file_store_ops env) (sbm_store sb) = Ok (sb\<lparr>pending := None\<rparr>)"
    using file_rec.store.coherent_load [OF sb(1)] by (simp add: file_store_ops_def)
  moreover have "sb\<lparr>pending := None\<rparr> = sb" using sb(5) by simp
  moreover have "is_trial m1" using sb(7,8) assms(3) by (simp add: is_trial_def)
  ultimately show ?thesis
    using sb b(2) app [of "(w, m)"] by (intro exI [of _ m1] exI [of _ sb]) (simp add: is_trial_def del: upt_Suc)
qed

definition vm_component :: "(unit, (file_host, selector_blob) world) node_component" where
  "vm_component = \<lparr>co_id = ''vm1'', co_banks = (\<lambda>n. Some \<lparr>cb_active = \<lparr>bc_bank = A, bc_images = fmempty,
     bc_install_boot_id = None, bc_update_id = None, bc_sealed = True\<rparr>, cb_inactive = None,
     cb_in_trial = is_trial (snd n), cb_pending_reset = False\<rparr>),
     co_rollback_install = (\<lambda>_ n. (n, Err ''nv write failed''))\<rparr>"

theorem node_rolls_back_at_limit_witness:
  "\<exists>sb. \<not> is_trial sb \<and> node_boots (\<lambda>b. b) (file_store_ops env0) [vm_component]
      (with_trial_boot_limit (Some 2) (coordinator_new :: unit node_coordinator)) [''boot-2'', ''boot-3''] ((), trial2) =
    (((), sb), [boot_outcome (Some 2) 1 False [], boot_outcome (Some 2) 2 True [(''vm1'', ''nv write failed'')]])"
proof -
  let ?t = "fresh_header (\<lambda>b. b) (Some ''boot-1'')"
  let ?c = "with_trial_boot_limit (Some 2) (coordinator_new :: unit node_coordinator)"
  have a: "tx_armed_boot_id ?t \<noteq> zero_id" by code_simp
  have n: "new_boots (\<lambda>b. b) (tx_armed_boot_id ?t) (tx_counted_boot_id ?t) ([''boot-2''] @ [''boot-3''])" by code_simp
  have z: "tx_trial_boots ?t = 0" "nc_trial_boot_limit ?c = Some 2" "unat (2 :: u8) = Suc (length [''boot-2''])"
    by (simp_all add: fresh_header_def with_trial_boot_limit_def)
  have g: "committed_generation trial2 \<noteq> 0" by (simp add: trial2_facts)
  obtain m1 sb where r: "\<not> is_trial sb" "is_trial m1"
      "node_boots (\<lambda>b. b) (file_store_ops env0) [vm_component] ?c ([''boot-2''] @ [''boot-3'']) ((), trial2) =
        (fst (rollback_all (reporting_trial [vm_component] ((), m1)) ((), sb)),
         map (\<lambda>k. boot_outcome (Some 2) (of_nat k) False []) [1..<Suc (length [''boot-2''])]
         @ [boot_outcome (Some 2) 2 True (snd (rollback_all (reporting_trial [vm_component] ((), m1)) ((), sb)))])"
    using node_rolls_back_at_limit [OF env0_ok trial2_facts(1,2) g trial2_facts(5) a z(1) n z(2,3), of "[vm_component]" "()"]
    by blast
  have "reporting_trial [vm_component] ((), m1) = [vm_component]"
    using r(2) by (simp add: reporting_trial_def vm_component_def)
  moreover have "rollback_all [vm_component] ((), sb) = (((), sb), [(''vm1'', ''nv write failed'')])"
    by (simp add: vm_component_def)
  ultimately show ?thesis using r(1,3) by (auto simp del: node_boots.simps)
qed

end
