(* ===== verification/NvView.thy ===== *)
theory NvView
  imports NvOps
begin

text \<open>
  The abstract content of an NV store: the boot states, the firmware metadata and the runtime data
  of every bank and the factory record, without sequence numbers and sectors. Every typed write
  refines an update of one field of this view, as long as the sequence number of the region it
  writes has room. The layers above the store (OTA, DIDs) are proved against the view.
\<close>

section \<open>The view\<close>

abbreviation meta_seq :: "nv_store \<Rightarrow> bank_set \<Rightarrow> bank \<Rightarrow> u32" where
  "meta_seq nv s k \<equiv> region_seq fw_meta_ops nv (fw_meta_offset s k) FW_META_SECTORS"

abbreviation run_seq :: "nv_store \<Rightarrow> bank_set \<Rightarrow> bank \<Rightarrow> u32" where
  "run_seq nv s k \<equiv> region_seq runtime_ops nv (runtime_offset s k) RUNTIME_SECTORS"

record nv_view =
  vw_banks :: "bank_boot_state list option"
  vw_meta :: "bank_set \<Rightarrow> bank \<Rightarrow> nv_fw_meta option"
  vw_run :: "bank_set \<Rightarrow> bank \<Rightarrow> nv_runtime option"
  vw_factory :: "nv_factory option"

definition mask :: "nat \<Rightarrow> bank_boot_state list \<Rightarrow> bank_boot_state list" where
  "mask n bs = take n bs @ replicate (MAX_SLOTS - n) bank_boot_state_default"

abbreviation meta0 :: "nv_fw_meta \<Rightarrow> nv_fw_meta" where
  "meta0 m \<equiv> m\<lparr>fwm_write_seq := 0\<rparr>"

abbreviation run0 :: "nv_runtime \<Rightarrow> nv_runtime" where
  "run0 r \<equiv> r\<lparr>run_write_seq := 0\<rparr>"

definition view_of :: "(bytes \<Rightarrow> u32) \<Rightarrow> nv_store \<Rightarrow> nv_view" where
  "view_of crc nv =
     \<lparr>vw_banks = map_option banks (read_boot_state crc nv),
      vw_meta = (\<lambda>s k. map_option meta0 (read_fw_meta crc nv s k)),
      vw_run = (\<lambda>s k. map_option run0 (read_runtime crc nv s k)),
      vw_factory = read_factory crc nv\<rparr>"

lemma view_sel [simp]:
  "vw_banks (view_of crc nv) = map_option banks (read_boot_state crc nv)"
  "vw_meta (view_of crc nv) s k = map_option meta0 (read_fw_meta crc nv s k)"
  "vw_run (view_of crc nv) s k = map_option run0 (read_runtime crc nv s k)"
  "vw_factory (view_of crc nv) = read_factory crc nv"
  by (simp_all add: view_of_def)

definition put_meta :: "bank_set \<Rightarrow> bank \<Rightarrow> nv_fw_meta \<Rightarrow> nv_view \<Rightarrow> nv_view" where
  "put_meta s k m v = v\<lparr>vw_meta := (\<lambda>s' k'. if s' = s \<and> k' = k then Some m else vw_meta v s' k')\<rparr>"

definition put_run :: "bank_set \<Rightarrow> bank \<Rightarrow> nv_runtime \<Rightarrow> nv_view \<Rightarrow> nv_view" where
  "put_run s k r v = v\<lparr>vw_run := (\<lambda>s' k'. if s' = s \<and> k' = k then Some r else vw_run v s' k')\<rparr>"

definition put_banks :: "bank_boot_state list \<Rightarrow> nv_view \<Rightarrow> nv_view" where
  "put_banks bs v = v\<lparr>vw_banks := Some bs\<rparr>"

lemma put_sel [simp]:
  "vw_banks (put_meta s k m v) = vw_banks v" "vw_run (put_meta s k m v) = vw_run v"
  "vw_factory (put_meta s k m v) = vw_factory v" "vw_factory (put_run s k r v) = vw_factory v"
  "vw_meta (put_meta s k m v) s' k' = (if s' = s \<and> k' = k then Some m else vw_meta v s' k')"
  "vw_banks (put_run s k r v) = vw_banks v" "vw_meta (put_run s k r v) = vw_meta v"
  "vw_run (put_run s k r v) s' k' = (if s' = s \<and> k' = k then Some r else vw_run v s' k')"
  "vw_banks (put_banks bs v) = Some bs" "vw_meta (put_banks bs v) = vw_meta v"
  "vw_run (put_banks bs v) = vw_run v" "vw_factory (put_banks bs v) = vw_factory v"
  by (simp_all add: put_meta_def put_run_def put_banks_def)

section \<open>The writes refine updates of the view\<close>

text \<open>Room for one more write of every region of a slot.\<close>

definition room :: "nv_store \<Rightarrow> bank_set \<Rightarrow> bool" where
  "room nv s \<longleftrightarrow> boot_seq nv \<noteq> -1 \<and> (\<forall>k. meta_seq nv s k \<noteq> -1 \<and> run_seq nv s k \<noteq> -1)"

lemma header_below_slots:
  "BOOT_OFFSET + BOOT_SECTORS * SECTOR_SIZE \<le> fw_meta_offset s k"
  "BOOT_OFFSET + BOOT_SECTORS * SECTOR_SIZE \<le> runtime_offset s k"
  "BOOT_OFFSET + BOOT_SECTORS * SECTOR_SIZE \<le> FACTORY_OFFSET"
  using slot_above_header [of s k] by (simp_all add: layout_consts)

lemma write_boot_view:
  assumes "nv_ok nv" "wf_boot_state st" "boot_seq nv \<noteq> -1"
  shows "\<exists>nv'. snd (write_boot_state crc nv st) = Ok nv' \<and> nv_ok nv' \<and> nv_slot_count nv' = nv_slot_count nv
    \<and> view_of crc nv' = put_banks (mask (nv_slot_count nv) (banks st)) (view_of crc nv)"
proof -
  have pos: "0 < BOOT_SECTORS" by (simp add: layout_consts)
  obtain nv' where w: "snd (write_boot_state crc nv st) = Ok nv'"
    and fr: "only_region nv nv' BOOT_OFFSET BOOT_SECTORS"
    and rd: "read_record crc boot_state_ops (nv_dev nv') BOOT_OFFSET BOOT_SECTORS =
      Some (st\<lparr>bst_write_seq := boot_seq nv + 1\<rparr>)"
    using boot_rec.store_write_read [OF assms(2) boot_region_on [OF assms(1)] pos assms(3), of crc]
    by (auto simp: write_boot_state_def)
  have "map_option banks (read_boot_state crc nv') = Some (mask (nv_slot_count nv) (banks st))"
    using rd fr assms(2) by (simp add: read_boot_state_def only_region_def mask_def wf_boot_state_def map_replicate_const)
  moreover have "read_fw_meta crc nv' = read_fw_meta crc nv"
    using only_region_read [OF fr, of _ _ crc fw_meta_ops] header_below_slots(1) by (intro ext) (simp add: read_fw_meta_def only_region_slot [OF fr])
  moreover have "read_runtime crc nv' = read_runtime crc nv"
    using only_region_read [OF fr, of _ _ crc runtime_ops] header_below_slots(2) by (intro ext) (simp add: read_runtime_def only_region_slot [OF fr])
  moreover have "read_factory crc nv' = read_factory crc nv"
    using only_region_read [OF fr, of _ _ crc factory_ops] header_below_slots(3) by (simp add: read_factory_def)
  ultimately show ?thesis
    using w fr only_region_ok [OF fr assms(1)] by (simp add: view_of_def put_banks_def only_region_def)
qed

lemma slot_region_view:
  assumes "only_region nv nv' offset n" "BANKSET_BASE \<le> offset"
  shows "boot_seq nv' = boot_seq nv" "nv_slot_count nv' = nv_slot_count nv"
    "read_boot_state crc nv' = read_boot_state crc nv" "read_factory crc nv' = read_factory crc nv"
proof -
  show "boot_seq nv' = boot_seq nv"
    using assms by (intro only_region_seq) (auto simp: layout_consts)
  show "nv_slot_count nv' = nv_slot_count nv" using assms(1) by (simp add: only_region_def)
  show "read_boot_state crc nv' = read_boot_state crc nv" "read_factory crc nv' = read_factory crc nv"
    using slot_write_keeps_header [OF assms] by simp_all
qed

lemma write_meta_view:
  assumes "nv_ok nv" "slot_in_range nv s" "wf_fw_meta m" "meta_seq nv s k \<noteq> -1"
  shows "\<exists>nv'. snd (write_fw_meta crc nv s k m) = Ok nv' \<and> nv_ok nv' \<and> nv_slot_count nv' = nv_slot_count nv
    \<and> boot_seq nv' = boot_seq nv \<and> view_of crc nv' = put_meta s k (meta0 m) (view_of crc nv)"
proof -
  have pos: "0 < FW_META_SECTORS" by (simp add: layout_consts)
  obtain nv' where w: "snd (store_write crc fw_meta_ops (fw_meta_offset s k) FW_META_SECTORS nv m) = Ok nv'"
    and fr: "only_region nv nv' (fw_meta_offset s k) FW_META_SECTORS"
    and rd: "read_record crc fw_meta_ops (nv_dev nv') (fw_meta_offset s k) FW_META_SECTORS =
      Some (m\<lparr>fwm_write_seq := meta_seq nv s k + 1\<rparr>)"
    using fw_meta_rec.store_write_read [OF assms(3) fw_meta_region_on [OF assms(1,2)] pos assms(4), of crc] by auto
  note sl = only_region_slot [OF fr] and rr = only_region_read [OF fr]
    and kept = slot_region_view [OF fr slot_above_header(1)]
  have "read_fw_meta crc nv' s' k' = read_fw_meta crc nv s' k'" if "\<not> (s' = s \<and> k' = k)" for s' k'
    using rr fw_meta_regions_apart [of s k s' k'] that by (auto simp: read_fw_meta_def sl)
  moreover have "read_fw_meta crc nv' s k = Some (m\<lparr>fwm_write_seq := meta_seq nv s k + 1\<rparr>)"
    using rd assms(2) by (simp add: read_fw_meta_def sl)
  moreover have "read_runtime crc nv' s' k' = read_runtime crc nv s' k'" for s' k'
    using rr fw_meta_runtime_apart [of s' k' s k] by (auto simp: read_runtime_def sl)
  ultimately have "view_of crc nv' = put_meta s k (meta0 m) (view_of crc nv)"
    using kept by (auto simp: view_of_def put_meta_def fun_eq_iff)
  then show ?thesis
    using w assms(2) kept only_region_ok [OF fr assms(1)] by (simp add: write_fw_meta_def)
qed

lemma write_run_view:
  assumes "nv_ok nv" "slot_in_range nv s" "wf_runtime r" "run_seq nv s k \<noteq> -1"
  shows "\<exists>nv'. snd (write_runtime crc nv s k r) = Ok nv' \<and> nv_ok nv' \<and> nv_slot_count nv' = nv_slot_count nv
    \<and> boot_seq nv' = boot_seq nv \<and> (\<forall>s' k'. meta_seq nv' s' k' = meta_seq nv s' k')
    \<and> view_of crc nv' = put_run s k (run0 r) (view_of crc nv)"
proof -
  have pos: "0 < RUNTIME_SECTORS" by (simp add: layout_consts)
  obtain nv' where w: "snd (store_write crc runtime_ops (runtime_offset s k) RUNTIME_SECTORS nv r) = Ok nv'"
    and fr: "only_region nv nv' (runtime_offset s k) RUNTIME_SECTORS"
    and rd: "read_record crc runtime_ops (nv_dev nv') (runtime_offset s k) RUNTIME_SECTORS =
      Some (r\<lparr>run_write_seq := run_seq nv s k + 1\<rparr>)"
    using runtime_rec.store_write_read [OF assms(3) runtime_region_on [OF assms(1,2)] pos assms(4), of crc] by auto
  note sl = only_region_slot [OF fr] and rr = only_region_read [OF fr]
    and kept = slot_region_view [OF fr slot_above_header(2)]
  have "read_runtime crc nv' s' k' = read_runtime crc nv s' k'" if "\<not> (s' = s \<and> k' = k)" for s' k'
    using rr runtime_regions_apart [of s k s' k'] that by (auto simp: read_runtime_def sl)
  moreover have "read_runtime crc nv' s k = Some (r\<lparr>run_write_seq := run_seq nv s k + 1\<rparr>)"
    using rd assms(2) by (simp add: read_runtime_def sl)
  moreover have "read_fw_meta crc nv' s' k' = read_fw_meta crc nv s' k'" for s' k'
    using rr fw_meta_runtime_apart [of s k s' k'] by (auto simp: read_fw_meta_def sl)
  ultimately have "view_of crc nv' = put_run s k (run0 r) (view_of crc nv)"
    using kept by (auto simp: view_of_def put_run_def fun_eq_iff)
  moreover have "meta_seq nv' s' k' = meta_seq nv s' k'" for s' k'
    using only_region_seq [OF fr] fw_meta_runtime_apart [of s k s' k'] by auto
  ultimately show ?thesis
    using w assms(2) kept only_region_ok [OF fr assms(1)] by (simp add: write_runtime_def)
qed

lemma default0: "run0 nv_runtime_default = nv_runtime_default"
  by (simp add: nv_runtime_default_def)

lemma copy_run_view:
  assumes "nv_ok nv" "slot_in_range nv s" "run_seq nv s tgt \<noteq> -1"
  shows "\<exists>nv'. copy_runtime crc nv s src tgt = Ok nv' \<and> nv_ok nv' \<and> nv_slot_count nv' = nv_slot_count nv
    \<and> boot_seq nv' = boot_seq nv \<and> (\<forall>s' k'. meta_seq nv' s' k' = meta_seq nv s' k')
    \<and> view_of crc nv' = put_run s tgt
        (case vw_run (view_of crc nv) s src of None \<Rightarrow> nv_runtime_default | Some r \<Rightarrow> r) (view_of crc nv)"
proof (cases "read_runtime crc nv s src")
  case None
  then show ?thesis
    using write_run_view [OF assms(1,2) wf_defaults(2) assms(3), of crc] default0 by (simp add: copy_runtime_def)
next
  case (Some r)
  then show ?thesis
    using write_run_view [OF assms(1,2) read_runtime_wf [OF Some] assms(3), of crc] by (simp add: copy_runtime_def)
qed

lemma view_banks_length: "vw_banks (view_of crc nv) = Some bs \<Longrightarrow> length bs = MAX_SLOTS"
  using read_boot_state_wf by (fastforce simp: wf_boot_state_def)

lemma read_fw_meta_wf: "read_fw_meta crc nv s k = Some m \<Longrightarrow> wf_fw_meta m"
  by (auto simp: read_fw_meta_def split: if_splits dest: fw_meta_rec.read_record_valid)

lemma nv_ok_slots: "nv_ok nv \<Longrightarrow> nv_slot_count nv \<le> MAX_SLOTS"
  by (simp add: nv_ok_def)

text \<open>The sequence numbers after a write: the written region moves by one, the others stay.\<close>

lemma write_boot_seqs:
  assumes "nv_ok nv" "wf_boot_state st" "boot_seq nv \<noteq> -1" "snd (write_boot_state crc nv st) = Ok nv'"
  shows "boot_seq nv' = boot_seq nv + 1" "meta_seq nv' s k = meta_seq nv s k" "run_seq nv' s k = run_seq nv s k"
proof -
  have pos: "0 < BOOT_SECTORS" by (simp add: layout_consts)
  note on = boot_region_on [OF assms(1)]
  have fr: "only_region nv nv' BOOT_OFFSET BOOT_SECTORS"
    using boot_rec.store_write_read [OF assms(2) on pos assms(3), of crc] assms(4) by (auto simp: write_boot_state_def)
  have "write_record crc boot_state_ops (nv_dev nv) BOOT_OFFSET BOOT_SECTORS st =
      (fst (write_record crc boot_state_ops (nv_dev nv) BOOT_OFFSET BOOT_SECTORS st), Ok (nv_dev nv'))"
    using assms(4) by (auto simp: write_boot_state_def store_write_def split: prod.splits sum.splits)
  then show "boot_seq nv' = boot_seq nv + 1"
    using boot_rec.write_advances_seq [OF assms(2) on pos] assms(3) by (auto simp: region_seq_def)
  show "meta_seq nv' s k = meta_seq nv s k" "run_seq nv' s k = run_seq nv s k"
    using only_region_seq [OF fr] header_below_slots by blast+
qed

lemma write_meta_seqs:
  assumes "nv_ok nv" "slot_in_range nv s" "wf_fw_meta m" "meta_seq nv s k \<noteq> -1" "snd (write_fw_meta crc nv s k m) = Ok nv'"
  shows "meta_seq nv' s' k' = (if s' = s \<and> k' = k then meta_seq nv s k + 1 else meta_seq nv s' k')"
    "run_seq nv' s' k' = run_seq nv s' k'"
proof -
  have pos: "0 < FW_META_SECTORS" by (simp add: layout_consts)
  note on = fw_meta_region_on [OF assms(1,2)]
  have fr: "only_region nv nv' (fw_meta_offset s k) FW_META_SECTORS"
    using fw_meta_rec.store_write_read [OF assms(3) on pos assms(4), of crc] assms(2,5) by (auto simp: write_fw_meta_def)
  have "write_record crc fw_meta_ops (nv_dev nv) (fw_meta_offset s k) FW_META_SECTORS m =
      (fst (write_record crc fw_meta_ops (nv_dev nv) (fw_meta_offset s k) FW_META_SECTORS m), Ok (nv_dev nv'))"
    using assms(2,5) by (auto simp: write_fw_meta_def store_write_def split: prod.splits sum.splits)
  then have "meta_seq nv' s k = meta_seq nv s k + 1"
    using fw_meta_rec.write_advances_seq [OF assms(3) on pos] assms(4) by (auto simp: region_seq_def)
  then show "meta_seq nv' s' k' = (if s' = s \<and> k' = k then meta_seq nv s k + 1 else meta_seq nv s' k')"
    using only_region_seq [OF fr] fw_meta_regions_apart [of s k s' k'] by auto
  show "run_seq nv' s' k' = run_seq nv s' k'"
    using only_region_seq [OF fr] fw_meta_runtime_apart [of s' k' s k] by auto
qed

lemma read_runtime_blank1: "read_runtime crc blank1 0 k = None"
proof -
  have on: "region_on (nv_dev blank1) (runtime_offset 0 k) RUNTIME_SECTORS"
    by (rule runtime_region_on) simp_all
  have "read_record crc runtime_ops (nv_dev blank1) (runtime_offset 0 k) RUNTIME_SECTORS = None"
    using read_sector_eq [OF on, of _ crc runtime_ops]
    by (simp add: read_record_None decode_sector_def blank1_def nv_new_def sector_def mem_new_def get_u32_le_zero
        runtime_ops_def magic_defs)
  then show ?thesis by (simp add: read_runtime_def)
qed

end
