(* ===== verification/Ota.thy ===== *)
theory Ota
  imports NvView
begin

text \<open>
  The NV side of an update, \<^verbatim>\<open>crates/component-mgr/src/ota.rs\<close>: install into the inactive bank (or in
  place), commit with the anti-rollback ratchet, rollback, and the status query. SHA-256 of the
  image (\<open>sha\<close>) and CRC-32 (\<open>crc\<close>, the one the store uses) are parameters. The store is mutated
  in place, so every operation returns the store also when it fails. An index out of the fixed
  array of boot states panics; a panic is the error \<open>Panicked\<close>, as in the store.
\<close>

section \<open>Model\<close>

datatype ota_error =
    InTrial
  | SecurityVersionTooLow u32 u32
  | VerifyFailed bytes bytes
  | AlreadyCommitted
  | NotInTrial
  | OtaNoBootState
  | NvError block_error

record image_meta =
  im_fw_version :: bytes
  im_fw_seq :: u32
  im_fw_secver :: u32
  im_spare_part_number :: bytes
  im_ecu_sw_number :: bytes
  im_supplier_sw_number :: bytes
  im_supplier_sw_version :: bytes
  im_odx_file_id :: bytes
  im_system_name :: bytes
  im_programming_date :: bytes
  im_tester_serial :: bytes

record install_result =
  ir_target_bank :: bank
  ir_image_sha256 :: bytes
  ir_gen :: u64

record bank_status =
  bks_active_bank :: bank
  bks_committed :: bool
  bks_boot_count :: u8
  bks_fw_secver :: "u32 option"
  bks_min_security_ver :: "u32 option"

text \<open>The set's boot state in the record, with the panic of an index out of range.\<close>

definition bank_at :: "nv_boot_state \<Rightarrow> bank_set \<Rightarrow> ota_error + bank_boot_state" where
  "bank_at st bset =
     (if as_index bset < length (banks st) then Ok (banks st ! as_index bset) else Err (NvError Panicked))"

definition set_bank :: "nv_boot_state \<Rightarrow> bank_set \<Rightarrow> bank_boot_state \<Rightarrow> nv_boot_state" where
  "set_bank st bset bs = st\<lparr>banks := (banks st)[as_index bset := bs]\<rparr>"

definition lift_nv :: "nv_store \<Rightarrow> block_error + nv_store \<Rightarrow> (nv_store \<Rightarrow> nv_store \<times> (ota_error + 'a)) \<Rightarrow> nv_store \<times> (ota_error + 'a)" where
  "lift_nv nv r f = (case r of Err e \<Rightarrow> (nv, Err (NvError e)) | Ok nv' \<Rightarrow> f nv')"

definition install_inner ::
    "(bytes \<Rightarrow> u32) \<Rightarrow> nv_store \<Rightarrow> bank_set \<Rightarrow> nv_boot_state \<Rightarrow> bank_boot_state \<Rightarrow> bytes \<Rightarrow> u32 \<Rightarrow> image_meta \<Rightarrow> bool
       \<Rightarrow> nv_store \<times> (ota_error + install_result)" where
  "install_inner crc nv bset st bs sha256 fcrc meta single_bank =
     (if single_bank then
        let prev_gen = (case read_fw_meta crc nv bset A of None \<Rightarrow> 0 | Some m \<Rightarrow> gen m);
            next_gen = prev_gen + 1;
            fw_meta = \<lparr>fwm_write_seq = 0, fw_seq = im_fw_seq meta, fw_secver = im_fw_secver meta, fw_crc = fcrc,
                       image_sha256 = sha256, min_security_ver = im_fw_secver meta, gen = next_gen\<rparr>
        in lift_nv nv (snd (write_fw_meta crc nv bset A fw_meta)) (\<lambda>nv1.
           lift_nv nv1 (snd (write_boot_state crc nv1
               (set_bank st bset (bs\<lparr>active_bank := A, committed := True, boot_count := 0\<rparr>)))) (\<lambda>nv2.
             (nv2, Ok \<lparr>ir_target_bank = A, ir_image_sha256 = sha256, ir_gen = next_gen\<rparr>)))
      else
        let active = active_bank bs; target = other active
        in lift_nv nv (copy_runtime crc nv bset active target) (\<lambda>nv1.
             let min_ver = (case read_fw_meta crc nv1 bset active of None \<Rightarrow> 0 | Some m \<Rightarrow> min_security_ver m);
                 committed_gen = (case read_fw_meta crc nv1 bset active of None \<Rightarrow> 0 | Some m \<Rightarrow> gen m);
                 next_gen = committed_gen + 1;
                 fw_meta = \<lparr>fwm_write_seq = 0, fw_seq = im_fw_seq meta, fw_secver = im_fw_secver meta, fw_crc = fcrc,
                            image_sha256 = sha256, min_security_ver = min_ver, gen = next_gen\<rparr>
             in lift_nv nv1 (snd (write_fw_meta crc nv1 bset target fw_meta)) (\<lambda>nv2.
                lift_nv nv2 (snd (write_boot_state crc nv2
                    (set_bank st bset (bs\<lparr>active_bank := target, committed := False, boot_count := 0\<rparr>)))) (\<lambda>nv3.
                  (nv3, Ok \<lparr>ir_target_bank = target, ir_image_sha256 = sha256, ir_gen = next_gen\<rparr>)))))"

text \<open>The checks both entry points make before the NV writes.\<close>

definition install_checked ::
    "(bytes \<Rightarrow> u32) \<Rightarrow> nv_store \<Rightarrow> bank_set \<Rightarrow> image_meta
       \<Rightarrow> (nv_boot_state \<Rightarrow> bank_boot_state \<Rightarrow> nv_store \<times> (ota_error + install_result))
       \<Rightarrow> nv_store \<times> (ota_error + install_result)" where
  "install_checked crc nv bset meta k =
     (case read_boot_state crc nv of
        None \<Rightarrow> (nv, Err OtaNoBootState)
      | Some st \<Rightarrow>
          (case bank_at st bset of
             Err e \<Rightarrow> (nv, Err e)
           | Ok bs \<Rightarrow>
               if \<not> committed bs then (nv, Err InTrial)
               else (case read_fw_meta crc nv bset (active_bank bs) of
                       None \<Rightarrow> k st bs
                     | Some cur \<Rightarrow>
                         if im_fw_secver meta < min_security_ver cur
                         then (nv, Err (SecurityVersionTooLow (im_fw_secver meta) (min_security_ver cur)))
                         else k st bs)))"

definition install ::
    "(bytes \<Rightarrow> u32) \<Rightarrow> (bytes \<Rightarrow> bytes) \<Rightarrow> nv_store \<Rightarrow> bank_set \<Rightarrow> bytes \<Rightarrow> image_meta \<Rightarrow> bool
       \<Rightarrow> nv_store \<times> (ota_error + install_result)" where
  "install crc sha nv bset image_data meta single_bank =
     install_checked crc nv bset meta (\<lambda>st bs.
       install_inner crc nv bset st bs (sha image_data) (crc image_data) meta single_bank)"

definition install_precomputed ::
    "(bytes \<Rightarrow> u32) \<Rightarrow> nv_store \<Rightarrow> bank_set \<Rightarrow> bytes \<Rightarrow> u64 \<Rightarrow> image_meta \<Rightarrow> bool
       \<Rightarrow> nv_store \<times> (ota_error + install_result)" where
  "install_precomputed crc nv bset sha256 image_size meta single_bank =
     install_checked crc nv bset meta (\<lambda>st bs.
       install_inner crc nv bset st bs sha256 (crc (le_bytes image_size)) meta single_bank)"

definition ota_commit :: "(bytes \<Rightarrow> u32) \<Rightarrow> nv_store \<Rightarrow> bank_set \<Rightarrow> nv_store \<times> (ota_error + unit)" where
  "ota_commit crc nv bset =
     (case read_boot_state crc nv of
        None \<Rightarrow> (nv, Err OtaNoBootState)
      | Some st \<Rightarrow>
          (case bank_at st bset of
             Err e \<Rightarrow> (nv, Err e)
           | Ok bs \<Rightarrow>
               if committed bs then (nv, Err AlreadyCommitted)
               else
                 let raised = (case read_fw_meta crc nv bset (active_bank bs) of
                        None \<Rightarrow> Ok nv
                      | Some m \<Rightarrow>
                          if fw_secver m > min_security_ver m
                          then snd (write_fw_meta crc nv bset (active_bank bs) (m\<lparr>min_security_ver := fw_secver m\<rparr>))
                          else Ok nv)
                 in lift_nv nv raised (\<lambda>nv1.
                    lift_nv nv1 (snd (write_boot_state crc nv1
                        (set_bank st bset (bs\<lparr>committed := True, boot_count := 0\<rparr>)))) (\<lambda>nv2. (nv2, Ok ())))))"

definition ota_rollback :: "(bytes \<Rightarrow> u32) \<Rightarrow> nv_store \<Rightarrow> bank_set \<Rightarrow> nv_store \<times> (ota_error + bank)" where
  "ota_rollback crc nv bset =
     (case read_boot_state crc nv of
        None \<Rightarrow> (nv, Err OtaNoBootState)
      | Some st \<Rightarrow>
          (case bank_at st bset of
             Err e \<Rightarrow> (nv, Err e)
           | Ok bs \<Rightarrow>
               if committed bs then (nv, Err NotInTrial)
               else
                 let previous = other (active_bank bs)
                 in lift_nv nv (snd (write_boot_state crc nv
                      (set_bank st bset (bs\<lparr>active_bank := previous, committed := True, boot_count := 0\<rparr>))))
                    (\<lambda>nv1. (nv1, Ok previous))))"

definition ota_status :: "(bytes \<Rightarrow> u32) \<Rightarrow> nv_store \<Rightarrow> bank_set \<Rightarrow> ota_error + bank_status option" where
  "ota_status crc nv bset =
     (case read_boot_state crc nv of
        None \<Rightarrow> Ok None
      | Some st \<Rightarrow> and_then (bank_at st bset) (\<lambda>bs.
          let meta = read_fw_meta crc nv bset (active_bank bs)
          in Ok (Some \<lparr>bks_active_bank = active_bank bs, bks_committed = committed bs, bks_boot_count = boot_count bs,
                       bks_fw_secver = map_option fw_secver meta, bks_min_security_ver = map_option min_security_ver meta\<rparr>)))"

section \<open>The abstract update\<close>

text \<open>The operations on the abstract content of the store.\<close>

definition nvw_bank :: "nv_view \<Rightarrow> bank_set \<Rightarrow> bank_boot_state option" where
  "nvw_bank v s = (case vw_banks v of None \<Rightarrow> None
     | Some bs \<Rightarrow> if as_index s < length bs then Some (bs ! as_index s) else None)"

definition nvw_set_bank :: "bank_set \<Rightarrow> bank_boot_state \<Rightarrow> nv_view \<Rightarrow> nv_view" where
  "nvw_set_bank s b v = v\<lparr>vw_banks := map_option (\<lambda>bs. bs[as_index s := b]) (vw_banks v)\<rparr>"

definition nvw_floor :: "nv_view \<Rightarrow> bank_set \<Rightarrow> bank \<Rightarrow> u32" where
  "nvw_floor v s k = (case vw_meta v s k of None \<Rightarrow> 0 | Some m \<Rightarrow> min_security_ver m)"

definition nvw_gen :: "nv_view \<Rightarrow> bank_set \<Rightarrow> bank \<Rightarrow> u64" where
  "nvw_gen v s k = (case vw_meta v s k of None \<Rightarrow> 0 | Some m \<Rightarrow> gen m)"

definition nvw_install :: "bank_set \<Rightarrow> bytes \<Rightarrow> u32 \<Rightarrow> image_meta \<Rightarrow> bank_boot_state \<Rightarrow> nv_view \<Rightarrow> nv_view" where
  "nvw_install s sha256 fcrc meta bs v =
     nvw_set_bank s (bs\<lparr>active_bank := other (active_bank bs), committed := False, boot_count := 0\<rparr>)
       (put_meta s (other (active_bank bs))
          \<lparr>fwm_write_seq = 0, fw_seq = im_fw_seq meta, fw_secver = im_fw_secver meta, fw_crc = fcrc,
           image_sha256 = sha256, min_security_ver = nvw_floor v s (active_bank bs), gen = nvw_gen v s (active_bank bs) + 1\<rparr>
          (put_run s (other (active_bank bs))
            (case vw_run v s (active_bank bs) of None \<Rightarrow> nv_runtime_default | Some r \<Rightarrow> r) v))"

definition nvw_install_single :: "bank_set \<Rightarrow> bytes \<Rightarrow> u32 \<Rightarrow> image_meta \<Rightarrow> bank_boot_state \<Rightarrow> nv_view \<Rightarrow> nv_view" where
  "nvw_install_single s sha256 fcrc meta bs v =
     nvw_set_bank s (bs\<lparr>active_bank := A, committed := True, boot_count := 0\<rparr>)
       (put_meta s A \<lparr>fwm_write_seq = 0, fw_seq = im_fw_seq meta, fw_secver = im_fw_secver meta, fw_crc = fcrc,
          image_sha256 = sha256, min_security_ver = im_fw_secver meta, gen = nvw_gen v s A + 1\<rparr> v)"

definition nvw_commit :: "bank_set \<Rightarrow> bank_boot_state \<Rightarrow> nv_view \<Rightarrow> nv_view" where
  "nvw_commit s bs v =
     nvw_set_bank s (bs\<lparr>committed := True, boot_count := 0\<rparr>)
       (case vw_meta v s (active_bank bs) of
          None \<Rightarrow> v
        | Some m \<Rightarrow> put_meta s (active_bank bs) (m\<lparr>min_security_ver := max (min_security_ver m) (fw_secver m)\<rparr>) v)"

definition nvw_rollback :: "bank_set \<Rightarrow> bank_boot_state \<Rightarrow> nv_view \<Rightarrow> nv_view" where
  "nvw_rollback s bs v = nvw_set_bank s (bs\<lparr>active_bank := other (active_bank bs), committed := True, boot_count := 0\<rparr>) v"

section \<open>The NV operations refine the abstract ones\<close>

definition slot_ok :: "nv_store \<Rightarrow> bank_set \<Rightarrow> bool" where
  "slot_ok nv s \<longleftrightarrow> nv_ok nv \<and> slot_in_range nv s \<and> room nv s"

lemma slot_okD:
  assumes "slot_ok nv s"
  shows "nv_ok nv" "slot_in_range nv s" "boot_seq nv \<noteq> -1" "meta_seq nv s k \<noteq> -1" "run_seq nv s k \<noteq> -1"
  using assms by (simp_all add: slot_ok_def room_def)

lemma slot_index: "nv_ok nv \<Longrightarrow> slot_in_range nv s \<Longrightarrow> as_index s < nv_slot_count nv \<and> as_index s < MAX_SLOTS"
  using nv_ok_slots [of nv] by (simp add: slot_in_range_def)

lemma mask_read: "read_boot_state crc nv = Some st \<Longrightarrow> mask (nv_slot_count nv) (banks st) = banks st"
  using masked_read [of crc nv st] by (cases st) (simp add: masked_def mask_def)

lemma mask_update: "i < n \<Longrightarrow> n \<le> length bs \<Longrightarrow> mask n bs = bs \<Longrightarrow> mask n (bs[i := b]) = bs[i := b]"
  by (metis (no_types, lifting) length_take list_update_append1 mask_def min.absorb2 take_update_swap)

text \<open>Writing back the boot state with one set changed updates that set in the view.\<close>

lemma set_bank_view:
  assumes "nv_ok nv" "slot_in_range nv s" "boot_seq nv \<noteq> -1" "nv_slot_count nv0 = nv_slot_count nv"
    and "read_boot_state crc nv0 = Some st" "vw_banks (view_of crc nv) = Some (banks st)"
  shows "\<exists>nv'. snd (write_boot_state crc nv (set_bank st s b)) = Ok nv' \<and> nv_ok nv'
    \<and> nv_slot_count nv' = nv_slot_count nv \<and> view_of crc nv' = nvw_set_bank s b (view_of crc nv)"
proof -
  have len: "length (banks st) = MAX_SLOTS" using read_boot_state_wf [OF assms(5)] by (simp add: wf_boot_state_def)
  have wf: "wf_boot_state (set_bank st s b)" using len by (simp add: wf_boot_state_def set_bank_def)
  have "mask (nv_slot_count nv) (banks (set_bank st s b)) = banks (set_bank st s b)"
    using mask_update [of "as_index s" "nv_slot_count nv" "banks st" b] mask_read [OF assms(5)] assms(4)
      slot_index [OF assms(1,2)] nv_ok_slots [OF assms(1)] len by (simp add: set_bank_def)
  then show ?thesis
    using write_boot_view [OF assms(1) wf assms(3), of crc] assms(6)
    by (auto simp: put_banks_def nvw_set_bank_def set_bank_def)
qed

lemma view_floor_gen:
  "(case read_fw_meta crc nv s k of None \<Rightarrow> 0 | Some m \<Rightarrow> min_security_ver m) = nvw_floor (view_of crc nv) s k"
  "(case read_fw_meta crc nv s k of None \<Rightarrow> 0 | Some m \<Rightarrow> gen m) = nvw_gen (view_of crc nv) s k"
  by (auto simp: nvw_floor_def nvw_gen_def split: option.splits)

lemma install_inner_view:
  assumes "slot_ok nv s" "read_boot_state crc nv = Some st" "length sha256 = 32"
  shows "\<exists>nv'. install_inner crc nv s st bs sha256 fcrc meta False =
      (nv', Ok \<lparr>ir_target_bank = other (active_bank bs), ir_image_sha256 = sha256,
                ir_gen = nvw_gen (view_of crc nv) s (active_bank bs) + 1\<rparr>)
    \<and> nv_ok nv' \<and> nv_slot_count nv' = nv_slot_count nv
    \<and> view_of crc nv' = nvw_install s sha256 fcrc meta bs (view_of crc nv)"
proof -
  note ok = slot_okD [OF assms(1)]
  let ?tgt = "other (active_bank bs)" and ?v = "view_of crc nv"
  obtain nv1 where c: "copy_runtime crc nv s (active_bank bs) ?tgt = Ok nv1" "nv_ok nv1"
      "nv_slot_count nv1 = nv_slot_count nv" "boot_seq nv1 = boot_seq nv" "meta_seq nv1 s ?tgt = meta_seq nv s ?tgt"
      "view_of crc nv1 = put_run s ?tgt (case vw_run ?v s (active_bank bs) of None \<Rightarrow> nv_runtime_default | Some r \<Rightarrow> r) ?v"
    using copy_run_view [OF ok(1,2) ok(5), of crc] by blast
  let ?m = "\<lparr>fwm_write_seq = 0, fw_seq = im_fw_seq meta, fw_secver = im_fw_secver meta, fw_crc = fcrc,
    image_sha256 = sha256, min_security_ver = nvw_floor ?v s (active_bank bs), gen = nvw_gen ?v s (active_bank bs) + 1\<rparr>"
  have fl: "nvw_floor (view_of crc nv1) s k = nvw_floor ?v s k" "nvw_gen (view_of crc nv1) s k = nvw_gen ?v s k" for k
    by (simp_all add: c(6) nvw_floor_def nvw_gen_def)
  have sl1: "slot_in_range nv1 s" using ok(2) c(3) by (simp add: slot_in_range_def)
  obtain nv2 where w: "snd (write_fw_meta crc nv1 s ?tgt ?m) = Ok nv2" "nv_ok nv2" "nv_slot_count nv2 = nv_slot_count nv"
      "boot_seq nv2 = boot_seq nv" "view_of crc nv2 = put_meta s ?tgt ?m (view_of crc nv1)"
    using write_meta_view [OF c(2) sl1, of ?m ?tgt crc] c ok(4) assms(3) by (auto simp: wf_fw_meta_def)
  have sl2: "slot_in_range nv2 s" using ok(2) w(3) by (simp add: slot_in_range_def)
  have bk: "vw_banks (view_of crc nv2) = Some (banks st)"
    unfolding w(5) c(6) using assms(2) by simp
  obtain nv3 where b: "snd (write_boot_state crc nv2
        (set_bank st s (bs\<lparr>active_bank := ?tgt, committed := False, boot_count := 0\<rparr>))) = Ok nv3" "nv_ok nv3"
      "nv_slot_count nv3 = nv_slot_count nv"
      "view_of crc nv3 = nvw_set_bank s (bs\<lparr>active_bank := ?tgt, committed := False, boot_count := 0\<rparr>) (view_of crc nv2)"
    using set_bank_view [OF w(2) sl2 _ _ assms(2) bk] ok(3) w(3,4) by fastforce
  have "install_inner crc nv s st bs sha256 fcrc meta False =
      (nv3, Ok \<lparr>ir_target_bank = ?tgt, ir_image_sha256 = sha256, ir_gen = nvw_gen ?v s (active_bank bs) + 1\<rparr>)"
    using c(1) w(1) b(1) by (simp add: install_inner_def Let_def lift_nv_def view_floor_gen fl)
  moreover have "view_of crc nv3 = nvw_install s sha256 fcrc meta bs ?v"
    by (simp only: b(4) w(5) c(6) nvw_install_def)
  ultimately show ?thesis using b(2,3) by blast
qed

lemma install_single_view:
  assumes "slot_ok nv s" "read_boot_state crc nv = Some st" "length sha256 = 32"
  shows "\<exists>nv'. install_inner crc nv s st bs sha256 fcrc meta True =
      (nv', Ok \<lparr>ir_target_bank = A, ir_image_sha256 = sha256, ir_gen = nvw_gen (view_of crc nv) s A + 1\<rparr>)
    \<and> nv_ok nv' \<and> nv_slot_count nv' = nv_slot_count nv
    \<and> view_of crc nv' = nvw_install_single s sha256 fcrc meta bs (view_of crc nv)"
proof -
  note ok = slot_okD [OF assms(1)]
  let ?m = "\<lparr>fwm_write_seq = 0, fw_seq = im_fw_seq meta, fw_secver = im_fw_secver meta, fw_crc = fcrc,
    image_sha256 = sha256, min_security_ver = im_fw_secver meta, gen = nvw_gen (view_of crc nv) s A + 1\<rparr>"
  obtain nv2 where w: "snd (write_fw_meta crc nv s A ?m) = Ok nv2" "nv_ok nv2" "nv_slot_count nv2 = nv_slot_count nv"
      "boot_seq nv2 = boot_seq nv" "view_of crc nv2 = put_meta s A ?m (view_of crc nv)"
    using write_meta_view [OF ok(1,2) _ ok(4), of ?m crc] assms(3) by (auto simp: wf_fw_meta_def)
  have sl2: "slot_in_range nv2 s" using ok(2) w(3) by (simp add: slot_in_range_def)
  have bk: "vw_banks (view_of crc nv2) = Some (banks st)" unfolding w(5) using assms(2) by simp
  obtain nv3 where b: "snd (write_boot_state crc nv2
        (set_bank st s (bs\<lparr>active_bank := A, committed := True, boot_count := 0\<rparr>))) = Ok nv3" "nv_ok nv3"
      "nv_slot_count nv3 = nv_slot_count nv"
      "view_of crc nv3 = nvw_set_bank s (bs\<lparr>active_bank := A, committed := True, boot_count := 0\<rparr>) (view_of crc nv2)"
    using set_bank_view [OF w(2) sl2 _ _ assms(2) bk] ok(3) w(3,4) by fastforce
  show ?thesis
    using w(1) b by (intro exI [of _ nv3])
      (simp add: install_inner_def Let_def lift_nv_def view_floor_gen nvw_install_single_def w(5))
qed

lemma view_bank:
  "nvw_bank (view_of crc nv) s = (case read_boot_state crc nv of None \<Rightarrow> None
     | Some st \<Rightarrow> if as_index s < length (banks st) then Some (banks st ! as_index s) else None)"
  by (simp add: nvw_bank_def split: option.split)

lemma bank_at_read:
  assumes "nv_ok nv" "slot_in_range nv s" "read_boot_state crc nv = Some st"
  shows "bank_at st s = Ok (banks st ! as_index s)" "nvw_bank (view_of crc nv) s = Some (banks st ! as_index s)"
  using slot_index [OF assms(1,2)] read_boot_state_wf [OF assms(3)] assms(3)
  by (simp_all add: bank_at_def view_bank wf_boot_state_def)

end
