(* ===== verification/OtaProps.thy ===== *)
theory OtaProps
  imports Ota BootMgr
begin

text \<open>
  Properties of the NV side of an update: the operations refine their abstract versions on every
  branch, the anti-rollback floor never decreases over any history of updates and boots, and an
  update that is rolled back leaves the committed bank as it was.
\<close>

section \<open>Refinement\<close>

lemma install_checked_view:
  assumes "nv_ok nv" "slot_in_range nv s"
  shows "install_checked crc nv s meta k =
    (case nvw_bank (view_of crc nv) s of
       None \<Rightarrow> (nv, Err OtaNoBootState)
     | Some bs \<Rightarrow>
         if \<not> committed bs then (nv, Err InTrial)
         else if im_fw_secver meta < nvw_floor (view_of crc nv) s (active_bank bs)
         then (nv, Err (SecurityVersionTooLow (im_fw_secver meta) (nvw_floor (view_of crc nv) s (active_bank bs))))
         else k (the (read_boot_state crc nv)) bs)"
proof (cases "read_boot_state crc nv")
  case None
  then show ?thesis by (simp add: install_checked_def nvw_bank_def)
next
  case (Some st)
  then show ?thesis
    using bank_at_read [OF assms Some]
    by (auto simp: install_checked_def nvw_floor_def split: option.splits)
qed

text \<open>The outcome of an install on a slot, by the abstract content of the store.\<close>

definition install_spec ::
    "(bytes \<Rightarrow> u32) \<Rightarrow> nv_store \<Rightarrow> bank_set \<Rightarrow> bytes \<Rightarrow> u32 \<Rightarrow> image_meta \<Rightarrow> bool
       \<Rightarrow> nv_store \<Rightarrow> ota_error + install_result \<Rightarrow> bool" where
  "install_spec crc nv s sha256 fcrc meta single nv' r \<longleftrightarrow>
     (let v = view_of crc nv
      in case nvw_bank v s of
           None \<Rightarrow> nv' = nv \<and> r = Err OtaNoBootState
         | Some bs \<Rightarrow>
             if \<not> committed bs then nv' = nv \<and> r = Err InTrial
             else if im_fw_secver meta < nvw_floor v s (active_bank bs)
             then nv' = nv \<and> r = Err (SecurityVersionTooLow (im_fw_secver meta) (nvw_floor v s (active_bank bs)))
             else let tgt = (if single then A else other (active_bank bs));
                      src = (if single then A else active_bank bs)
                  in nv_ok nv' \<and> nv_slot_count nv' = nv_slot_count nv
                     \<and> r = Ok \<lparr>ir_target_bank = tgt, ir_image_sha256 = sha256, ir_gen = nvw_gen v s src + 1\<rparr>
                     \<and> view_of crc nv' = (if single then nvw_install_single else nvw_install) s sha256 fcrc meta bs v)"

lemma install_checked_spec:
  assumes "slot_ok nv s" "length sha256 = 32"
    and "install_checked crc nv s meta (\<lambda>st bs. install_inner crc nv s st bs sha256 fcrc meta single) = (nv', r)"
  shows "install_spec crc nv s sha256 fcrc meta single nv' r"
proof (cases "nvw_bank (view_of crc nv) s")
  case None
  then show ?thesis
    using assms(3) install_checked_view [OF slot_okD(1,2) [OF assms(1)]] by (simp add: install_spec_def)
next
  case (Some bs)
  then obtain st where st: "read_boot_state crc nv = Some st" by (auto simp: nvw_bank_def split: option.splits)
  show ?thesis
    using assms(3) Some st install_inner_view [OF assms(1) st assms(2), of bs fcrc meta]
      install_single_view [OF assms(1) st assms(2), of bs fcrc meta]
    unfolding install_checked_view [OF slot_okD(1,2) [OF assms(1)]]
    by (cases single) (auto simp: install_spec_def Let_def split: if_splits)
qed

text \<open>The ratchet of a commit: the floor of the active bank rises to the version of its image.\<close>

lemma raise_floor_view:
  assumes "slot_ok nv s"
  shows "\<exists>nv1. (case read_fw_meta crc nv s k of None \<Rightarrow> Ok nv
      | Some m \<Rightarrow> if fw_secver m > min_security_ver m
                  then snd (write_fw_meta crc nv s k (m\<lparr>min_security_ver := fw_secver m\<rparr>)) else Ok nv) = Ok nv1
    \<and> nv_ok nv1 \<and> nv_slot_count nv1 = nv_slot_count nv \<and> boot_seq nv1 = boot_seq nv
    \<and> view_of crc nv1 = (case vw_meta (view_of crc nv) s k of None \<Rightarrow> view_of crc nv
        | Some m \<Rightarrow> put_meta s k (m\<lparr>min_security_ver := max (min_security_ver m) (fw_secver m)\<rparr>) (view_of crc nv))"
proof (cases "read_fw_meta crc nv s k")
  case None
  then show ?thesis using slot_okD(1) [OF assms] by simp
next
  case (Some m)
  then have wf: "wf_fw_meta (m\<lparr>min_security_ver := fw_secver m\<rparr>)"
    using read_fw_meta_wf by (fastforce simp: wf_fw_meta_def)
  show ?thesis
  proof (cases "fw_secver m > min_security_ver m")
    case True
    then show ?thesis
      using write_meta_view [OF slot_okD(1,2) [OF assms] wf slot_okD(4) [OF assms], of crc k] Some
      by (cases m) (auto simp: max_def)
  next
    case False
    then have "put_meta s k (meta0 m\<lparr>min_security_ver := max (min_security_ver m) (fw_secver m)\<rparr>) (view_of crc nv) = view_of crc nv"
      using Some by (auto simp: put_meta_def view_of_def max_def fun_eq_iff not_less)
    then show ?thesis using False Some slot_okD(1) [OF assms] by simp
  qed
qed

lemma commit_view:
  assumes "slot_ok nv s" "nvw_bank (view_of crc nv) s = Some bs" "\<not> committed bs"
  shows "\<exists>nv'. ota_commit crc nv s = (nv', Ok ()) \<and> nv_ok nv' \<and> nv_slot_count nv' = nv_slot_count nv
    \<and> view_of crc nv' = nvw_commit s bs (view_of crc nv)"
proof -
  note ok = slot_okD [OF assms(1)]
  obtain st where st: "read_boot_state crc nv = Some st" using assms(2) by (auto simp: nvw_bank_def split: option.splits)
  note at = bank_at_read [OF ok(1,2) st]
  have bs: "banks st ! as_index s = bs" using at(2) assms(2) by simp
  let ?b = "bs\<lparr>committed := True, boot_count := 0\<rparr>"
  obtain nv1 where r: "(case read_fw_meta crc nv s (active_bank bs) of None \<Rightarrow> Ok nv
      | Some m \<Rightarrow> if fw_secver m > min_security_ver m
          then snd (write_fw_meta crc nv s (active_bank bs) (m\<lparr>min_security_ver := fw_secver m\<rparr>)) else Ok nv) = Ok nv1"
      "nv_ok nv1" "nv_slot_count nv1 = nv_slot_count nv" "boot_seq nv1 = boot_seq nv"
      "view_of crc nv1 = (case vw_meta (view_of crc nv) s (active_bank bs) of None \<Rightarrow> view_of crc nv
        | Some m \<Rightarrow> put_meta s (active_bank bs) (m\<lparr>min_security_ver := max (min_security_ver m) (fw_secver m)\<rparr>) (view_of crc nv))"
    using raise_floor_view [OF assms(1), of crc "active_bank bs"] by blast
  have sl: "slot_in_range nv1 s" using ok(2) r(3) by (simp add: slot_in_range_def)
  have bk: "vw_banks (view_of crc nv1) = Some (banks st)" unfolding r(5) using st by (simp split: option.split)
  obtain nv2 where b: "snd (write_boot_state crc nv1 (set_bank st s ?b)) = Ok nv2" "nv_ok nv2"
      "nv_slot_count nv2 = nv_slot_count nv1" "view_of crc nv2 = nvw_set_bank s ?b (view_of crc nv1)"
    using set_bank_view [OF r(2) sl _ _ st bk] ok(3) r(3,4) by fastforce
  have "ota_commit crc nv s = (nv2, Ok ())"
    using st at(1) bs assms(3) r(1) b(1) by (simp add: ota_commit_def lift_nv_def)
  moreover have "view_of crc nv2 = nvw_commit s bs (view_of crc nv)"
    by (simp only: b(4) r(5) nvw_commit_def)
  ultimately show ?thesis using b(2,3) r(3) by auto
qed

lemma rollback_view:
  assumes "slot_ok nv s" "nvw_bank (view_of crc nv) s = Some bs" "\<not> committed bs"
  shows "\<exists>nv'. ota_rollback crc nv s = (nv', Ok (other (active_bank bs))) \<and> nv_ok nv'
    \<and> nv_slot_count nv' = nv_slot_count nv \<and> view_of crc nv' = nvw_rollback s bs (view_of crc nv)"
proof -
  note ok = slot_okD [OF assms(1)]
  obtain st where st: "read_boot_state crc nv = Some st" using assms(2) by (auto simp: nvw_bank_def split: option.splits)
  note at = bank_at_read [OF ok(1,2) st]
  have bs: "banks st ! as_index s = bs" using at(2) assms(2) by simp
  show ?thesis
    using set_bank_view [OF ok(1,2,3) _ st, of "bs\<lparr>active_bank := other (active_bank bs), committed := True, boot_count := 0\<rparr>"]
      st at(1) bs assms(3)
    by (auto simp: ota_rollback_def lift_nv_def Let_def nvw_rollback_def)
qed

section \<open>The anti-rollback floor\<close>

text \<open>
  The floor a set enforces: that of the committed bank, which in a trial is the bank to return to.
  In a trial the bank on trial carries at least that floor, so a commit cannot lower it.
\<close>

definition set_floor :: "nv_view \<Rightarrow> bank_set \<Rightarrow> u32" where
  "set_floor v s = (case nvw_bank v s of None \<Rightarrow> 0
     | Some bs \<Rightarrow> nvw_floor v s (if committed bs then active_bank bs else other (active_bank bs)))"

definition trial_floor_ok :: "nv_view \<Rightarrow> bank_set \<Rightarrow> bool" where
  "trial_floor_ok v s \<longleftrightarrow> (case nvw_bank v s of None \<Rightarrow> True
     | Some bs \<Rightarrow> committed bs \<or> nvw_floor v s (other (active_bank bs)) \<le> nvw_floor v s (active_bank bs))"

definition floor_kept :: "bank_set \<Rightarrow> nv_view \<Rightarrow> nv_view \<Rightarrow> bool" where
  "floor_kept s v v' \<longleftrightarrow> (trial_floor_ok v s \<longrightarrow> trial_floor_ok v' s \<and> set_floor v s \<le> set_floor v' s)"

lemma floor_kept_refl [simp]: "floor_kept s v v"
  by (simp add: floor_kept_def)

lemma floor_kept_trans: "floor_kept s v v' \<Longrightarrow> floor_kept s v' v'' \<Longrightarrow> floor_kept s v v''"
  by (auto simp: floor_kept_def)

lemma nvw_bank_set [simp]:
  "nvw_bank (nvw_set_bank s b v) s' = (if s' = s then map_option (\<lambda>_. b) (nvw_bank v s) else nvw_bank v s')"
  by (auto simp: nvw_bank_def nvw_set_bank_def as_index_inj split: option.splits)

lemma nvw_floor_upd [simp]:
  "nvw_floor (nvw_set_bank s b v) = nvw_floor v" "nvw_floor (put_run s' k r v) = nvw_floor v"
  "nvw_floor (put_meta s k m v) s' k' = (if s' = s \<and> k' = k then min_security_ver m else nvw_floor v s' k')"
  "nvw_bank (put_meta s k m v) = nvw_bank v" "nvw_bank (put_run s k r v) = nvw_bank v"
  by (auto simp: nvw_floor_def nvw_set_bank_def nvw_bank_def fun_eq_iff)

lemmas floor_defs = floor_kept_def trial_floor_ok_def set_floor_def

lemma floor_kept_install:
  "nvw_bank v s = Some bs \<Longrightarrow> committed bs \<Longrightarrow> floor_kept s' v (nvw_install s sha256 fcrc meta bs v)"
  by (cases "s' = s") (auto simp: floor_defs nvw_install_def split: option.splits)

lemma floor_kept_single:
  "nvw_bank v s = Some bs \<Longrightarrow> committed bs \<Longrightarrow> nvw_floor v s (active_bank bs) \<le> im_fw_secver meta
     \<Longrightarrow> floor_kept s' v (nvw_install_single s sha256 fcrc meta bs v)"
  by (cases "s' = s") (auto simp: floor_defs nvw_install_single_def split: option.splits)

lemma floor_kept_commit:
  "nvw_bank v s = Some bs \<Longrightarrow> \<not> committed bs \<Longrightarrow> floor_kept s' v (nvw_commit s bs v)"
  by (cases "s' = s") (auto simp: floor_defs nvw_commit_def nvw_floor_def le_max_iff_disj split: option.splits)

lemma floor_kept_rollback:
  "nvw_bank v s = Some bs \<Longrightarrow> \<not> committed bs \<Longrightarrow> floor_kept s' v (nvw_rollback s bs v)"
  by (cases "s' = s") (auto simp: floor_defs nvw_rollback_def split: option.splits)

section \<open>Histories\<close>

text \<open>
  One step of a node's life over its store: an install, streamed or not, of any image on any set,
  a commit, a rollback, a node boot, or a boot stage that finds a bad image. A step also covers
  the outcomes where the operation refuses.
\<close>

inductive ota_step :: "(bytes \<Rightarrow> u32) \<Rightarrow> (bytes \<Rightarrow> bytes) \<Rightarrow> nv_store \<Rightarrow> nv_store \<Rightarrow> bool"
  for crc :: "bytes \<Rightarrow> u32" and sha :: "bytes \<Rightarrow> bytes"
where
  step_install: "slot_ok nv s \<Longrightarrow> install crc sha nv s img meta single = (nv', r) \<Longrightarrow> ota_step crc sha nv nv'"
| step_precomputed: "slot_ok nv s \<Longrightarrow> length sha256 = 32
    \<Longrightarrow> install_precomputed crc nv s sha256 sz meta single = (nv', r2) \<Longrightarrow> ota_step crc sha nv nv'"
| step_commit: "slot_ok nv s \<Longrightarrow> ota_commit crc nv s = (nv', r3) \<Longrightarrow> ota_step crc sha nv nv'"
| step_rollback: "slot_ok nv s \<Longrightarrow> ota_rollback crc nv s = (nv', r4) \<Longrightarrow> ota_step crc sha nv nv'"
| step_boot: "nv_ok nv \<Longrightarrow> boot_seq nv \<noteq> -1
    \<Longrightarrow> process_boot_nv crc \<lparr>bm_nv = nv, bm_selector = (None :: (unit selector_store_ops \<times> unit) option)\<rparr> = (bm', r5)
    \<Longrightarrow> ota_step crc sha nv (bm_nv bm')"
| step_bad_image: "slot_ok nv s
    \<Longrightarrow> handle_hash_failure crc \<lparr>bm_nv = nv, bm_selector = (None :: (unit selector_store_ops \<times> unit) option)\<rparr> s = (bm', r6)
    \<Longrightarrow> ota_step crc sha nv (bm_nv bm')"

inductive ota_history :: "(bytes \<Rightarrow> u32) \<Rightarrow> (bytes \<Rightarrow> bytes) \<Rightarrow> nv_store \<Rightarrow> nv_store \<Rightarrow> bool"
  for crc :: "bytes \<Rightarrow> u32" and sha :: "bytes \<Rightarrow> bytes"
where
  hist_nil: "ota_history crc sha nv nv"
| hist_step: "ota_history crc sha nv nv' \<Longrightarrow> ota_step crc sha nv' nv'' \<Longrightarrow> ota_history crc sha nv nv''"

text \<open>What every step keeps: the shape of the store and, set by set, the floor.\<close>

definition step_keeps :: "(bytes \<Rightarrow> u32) \<Rightarrow> nv_store \<Rightarrow> nv_store \<Rightarrow> bool" where
  "step_keeps crc nv nv' \<longleftrightarrow> nv_ok nv' \<and> nv_slot_count nv' = nv_slot_count nv
     \<and> (\<forall>s. slot_in_range nv s \<longrightarrow> floor_kept s (view_of crc nv) (view_of crc nv'))"

lemma step_keeps_refl: "nv_ok nv \<Longrightarrow> step_keeps crc nv nv"
  by (simp add: step_keeps_def)

lemma install_spec_keeps:
  assumes "slot_ok nv s" "install_spec crc nv s sha256 fcrc meta single nv' r"
  shows "step_keeps crc nv nv'"
proof (cases "nvw_bank (view_of crc nv) s")
  case None
  then show ?thesis using assms step_keeps_refl slot_okD(1) by (auto simp: install_spec_def)
next
  case (Some bs)
  show ?thesis
  proof (cases "committed bs \<and> \<not> im_fw_secver meta < nvw_floor (view_of crc nv) s (active_bank bs)")
    case True
    then show ?thesis
      using assms Some floor_kept_install [OF Some] floor_kept_single [OF Some, of meta]
      by (auto simp: install_spec_def step_keeps_def Let_def not_less split: if_splits)
  next
    case False
    then show ?thesis
      using assms Some step_keeps_refl slot_okD(1) by (auto simp: install_spec_def Let_def split: if_splits)
  qed
qed

lemma commit_outcome:
  assumes "slot_ok nv s" "ota_commit crc nv s = (nv', r)"
  shows "case nvw_bank (view_of crc nv) s of
      None \<Rightarrow> nv' = nv \<and> r = Err OtaNoBootState
    | Some bs \<Rightarrow> if committed bs then nv' = nv \<and> r = Err AlreadyCommitted
        else nv_ok nv' \<and> nv_slot_count nv' = nv_slot_count nv \<and> r = Ok ()
          \<and> view_of crc nv' = nvw_commit s bs (view_of crc nv)"
proof (cases "read_boot_state crc nv")
  case None
  then show ?thesis using assms(2) by (simp add: ota_commit_def nvw_bank_def)
next
  case (Some st)
  note at = bank_at_read [OF slot_okD(1,2) [OF assms(1)] Some]
  show ?thesis
    using assms(2) Some at commit_view [OF assms(1) at(2)]
    by (cases "committed (banks st ! as_index s)") (auto simp: ota_commit_def)
qed

lemma rollback_outcome:
  assumes "slot_ok nv s" "ota_rollback crc nv s = (nv', r)"
  shows "case nvw_bank (view_of crc nv) s of
      None \<Rightarrow> nv' = nv \<and> r = Err OtaNoBootState
    | Some bs \<Rightarrow> if committed bs then nv' = nv \<and> r = Err NotInTrial
        else nv_ok nv' \<and> nv_slot_count nv' = nv_slot_count nv \<and> r = Ok (other (active_bank bs))
          \<and> view_of crc nv' = nvw_rollback s bs (view_of crc nv)"
proof (cases "read_boot_state crc nv")
  case None
  then show ?thesis using assms(2) by (simp add: ota_rollback_def nvw_bank_def)
next
  case (Some st)
  note at = bank_at_read [OF slot_okD(1,2) [OF assms(1)] Some]
  show ?thesis
    using assms(2) Some at rollback_view [OF assms(1) at(2)]
    by (cases "committed (banks st ! as_index s)") (auto simp: ota_rollback_def)
qed

lemma commit_keeps:
  assumes "slot_ok nv s" "ota_commit crc nv s = (nv', r)" shows "step_keeps crc nv nv'"
  using commit_outcome [OF assms] floor_kept_commit step_keeps_refl [OF slot_okD(1) [OF assms(1)]]
  by (auto simp: step_keeps_def split: option.splits if_splits)

lemma rollback_keeps:
  assumes "slot_ok nv s" "ota_rollback crc nv s = (nv', r)" shows "step_keeps crc nv nv'"
  using rollback_outcome [OF assms] floor_kept_rollback step_keeps_refl [OF slot_okD(1) [OF assms(1)]]
  by (auto simp: step_keeps_def split: option.splits if_splits)

text \<open>The boot stage's rollback of a bad image is the same NV update as an operator's rollback.\<close>

lemma hash_failure_is_rollback:
  assumes "nv_ok (bm_nv bm)" "slot_in_range (bm_nv bm) s"
  shows "bm_nv (fst (handle_hash_failure crc bm s)) = fst (ota_rollback crc (bm_nv bm) s)"
proof (cases "read_boot_state crc (bm_nv bm)")
  case (Some st)
  note at = bank_at_read [OF assms Some]
  then have "as_index s < length (banks st)" by (simp add: bank_at_def split: if_splits)
  then show ?thesis
    using Some at(1) by (auto simp: handle_hash_failure_def ota_rollback_def lift_nv_def set_bank_def Let_def split: sum.split)
qed (simp add: handle_hash_failure_def ota_rollback_def)

text \<open>A node boot moves every set by one boot of its own and touches no metadata.\<close>

lemma boot_bank_floor:
  "trial_floor_ok v s \<Longrightarrow> nvw_bank v s = Some bs \<Longrightarrow> nvw_bank v' s = Some (next_state bs) \<Longrightarrow> nvw_floor v' = nvw_floor v
     \<Longrightarrow> trial_floor_ok v' s \<and> set_floor v' s = set_floor v s"
  by (auto simp: floor_defs next_state_def boot_bank_def Let_def)

lemma mask_nth: "i < n \<Longrightarrow> n \<le> length bs \<Longrightarrow> mask n bs ! i = bs ! i"
  by (simp add: mask_def nth_append)

lemma put_banks_floor [simp]: "nvw_floor (put_banks bs v) = nvw_floor v"
  by (auto simp: nvw_floor_def fun_eq_iff)

lemma put_banks_bank: "nvw_bank (put_banks bs v) s = (if as_index s < length bs then Some (bs ! as_index s) else None)"
  by (simp add: nvw_bank_def)

lemma boot_keeps:
  fixes bm :: "'s boot_manager"
  assumes "nv_ok (bm_nv bm)" "boot_seq (bm_nv bm) \<noteq> -1" "process_boot_nv crc bm = (bm', r)"
  shows "step_keeps crc (bm_nv bm) (bm_nv bm')"
proof (cases "read_boot_state crc (bm_nv bm)")
  case None
  let ?n = "nv_slot_count (bm_nv bm)"
  obtain nv' where w: "snd (write_boot_state crc (bm_nv bm) nv_boot_state_default) = Ok nv'" "nv_ok nv'"
      "nv_slot_count nv' = ?n"
      "view_of crc nv' = put_banks (mask ?n (banks nv_boot_state_default)) (view_of crc (bm_nv bm))"
    using write_boot_view [OF assms(1) defaults_wf(1) assms(2), of crc] by blast
  have "mask ?n (banks nv_boot_state_default) ! as_index s = bank_boot_state_default"
      "as_index s < length (mask ?n (banks nv_boot_state_default))" if "slot_in_range (bm_nv bm) s" for s
    using slot_index [OF assms(1) that] nv_ok_slots [OF assms(1)]
    by (simp_all add: nv_boot_state_default_def mask_def nth_append)
  then have "floor_kept s (view_of crc (bm_nv bm)) (view_of crc nv')" if "slot_in_range (bm_nv bm) s" for s
    unfolding w(4) using that None
    by (simp add: floor_defs put_banks_bank view_bank bank_boot_state_default_def)
  then show ?thesis
    using assms(3) w None by (auto simp: process_boot_nv_def step_keeps_def)
next
  case (Some st)
  let ?n = "nv_slot_count (bm_nv bm)"
  let ?st' = "st\<lparr>banks := map next_state (take ?n (banks st)) @ drop ?n (banks st)\<rparr>"
  have len: "length (banks st) = MAX_SLOTS" using read_boot_state_wf [OF Some] by (simp add: wf_boot_state_def)
  have n: "?n \<le> MAX_SLOTS" by (rule nv_ok_slots [OF assms(1)])
  have wf: "wf_boot_state ?st'" using len n by (simp add: wf_boot_state_def)
  obtain nv' where w: "snd (write_boot_state crc (bm_nv bm) ?st') = Ok nv'" "nv_ok nv'" "nv_slot_count nv' = ?n"
      "view_of crc nv' = put_banks (mask ?n (banks ?st')) (view_of crc (bm_nv bm))"
    using write_boot_view [OF assms(1) wf assms(2), of crc] by blast
  have "floor_kept s (view_of crc (bm_nv bm)) (view_of crc nv')" if s: "slot_in_range (bm_nv bm) s" for s
  proof -
    have "nvw_bank (view_of crc nv') s = Some (next_state (banks st ! as_index s))"
      unfolding w(4) using slot_index [OF assms(1) s] len n
      by (simp add: put_banks_bank mask_nth nth_append) (simp add: mask_def)
    then show ?thesis
      using boot_bank_floor [OF _ bank_at_read(2) [OF assms(1) s Some]] w(4) by (auto simp: floor_kept_def)
  qed
  then have "step_keeps crc (bm_nv bm) nv'" using w(2,3) by (simp add: step_keeps_def)
  moreover have "bm_nv bm' = nv' \<or> bm' = bm"
    using assms(3) Some w(1) by (auto simp: process_boot_nv_def Let_def comp_def simp flip: next_state_def split: if_splits)
  ultimately show ?thesis using step_keeps_refl [OF assms(1)] by auto
qed

lemma ota_step_keeps:
  assumes "ota_step crc sha nv nv'" "\<And>x. length (sha x) = 32"
  shows "step_keeps crc nv nv'"
  using assms(1)
proof cases
  case (step_install s img meta single r)
  show ?thesis
    by (rule install_spec_keeps [OF step_install(1) install_checked_spec
        [OF step_install(1) assms(2) step_install(2) [unfolded install_def]]])
next
  case (step_precomputed s sha256 sz meta single r2)
  show ?thesis
    by (rule install_spec_keeps [OF step_precomputed(1) install_checked_spec
        [OF step_precomputed(1,2) step_precomputed(3) [unfolded install_precomputed_def]]])
next
  case (step_commit s r3)
  then show ?thesis by (rule commit_keeps)
next
  case (step_rollback s r4)
  then show ?thesis by (rule rollback_keeps)
next
  case (step_boot bm' r5)
  then show ?thesis using boot_keeps [OF _ _ step_boot(4)] by simp
next
  case (step_bad_image s bm' r6)
  let ?bm = "\<lparr>bm_nv = nv, bm_selector = (None :: (unit selector_store_ops \<times> unit) option)\<rparr>"
  have "nv' = fst (ota_rollback crc nv s)"
    using hash_failure_is_rollback [of ?bm s crc] slot_okD [OF step_bad_image(2)] step_bad_image(1,3) by simp
  then show ?thesis using rollback_keeps [OF step_bad_image(2)] by (metis prod.collapse)
qed

lemma history_keeps:
  assumes "ota_history crc sha nv nv'" "nv_ok nv" "\<And>x. length (sha x) = 32"
  shows "step_keeps crc nv nv'"
  using assms(1,2)
proof induction
  case (hist_step nv nv' nv'')
  then show ?case
    using ota_step_keeps [OF hist_step(2) assms(3)]
    by (auto simp: step_keeps_def slot_in_range_def intro: floor_kept_trans)
qed (rule step_keeps_refl)

text \<open>C3: The anti-rollback floor holds over the whole life of a store. Whatever happens to the store between
  two moments, on any of its bank sets and in any order (installs in place or into the other bank,
  streamed or not, of any image, commits, rollbacks, node boots with their automatic rollback, boot
  stages that reject an image, and every refusal of these), the floor a set enforces never goes
  down; so an install accepted later has a security version of at least the earlier floor.\<close>

theorem anti_rollback_floor:
  assumes "\<And>x. length (sha x) = 32" "nv_ok nv" "slot_in_range nv s" "trial_floor_ok (view_of crc nv) s"
    and "ota_history crc sha nv nv'" "slot_ok nv' s" "install crc sha nv' s img meta single = (nv'', Ok r)"
  shows "set_floor (view_of crc nv) s \<le> set_floor (view_of crc nv') s \<and> set_floor (view_of crc nv) s \<le> im_fw_secver meta
    \<and> set_floor (view_of crc nv') s \<le> set_floor (view_of crc nv'') s"
proof -
  have k: "floor_kept s (view_of crc nv) (view_of crc nv')"
    using history_keeps [OF assms(5,2,1)] assms(3) by (simp add: step_keeps_def)
  have i: "install_spec crc nv' s (sha img) (crc img) meta single nv'' (Ok r)"
    by (rule install_checked_spec [OF assms(6,1) assms(7) [unfolded install_def]])
  have le: "set_floor (view_of crc nv) s \<le> set_floor (view_of crc nv') s"
    using k assms(4) by (simp add: floor_kept_def)
  have "set_floor (view_of crc nv') s \<le> im_fw_secver meta"
    using i by (auto simp: install_spec_def set_floor_def Let_def not_less split: option.splits if_splits)
  with le have "set_floor (view_of crc nv) s \<le> im_fw_secver meta" by simp
  moreover have "set_floor (view_of crc nv') s \<le> set_floor (view_of crc nv'') s"
    using install_spec_keeps [OF assms(6) i] k assms(4) slot_okD(2) [OF assms(6)]
    by (auto simp: step_keeps_def floor_kept_def)
  ultimately show ?thesis using le by simp
qed

definition floor5 :: nv_fw_meta where
  "floor5 = nv_fw_meta_default\<lparr>fw_secver := 5, min_security_ver := 5\<rparr>"

definition image6 :: image_meta where
  "image6 = \<lparr>im_fw_version = [], im_fw_seq = 2, im_fw_secver = 6, im_spare_part_number = [], im_ecu_sw_number = [],
     im_supplier_sw_number = [], im_supplier_sw_version = [], im_odx_file_id = [], im_system_name = [],
     im_programming_date = [], im_tester_serial = []\<rparr>"

text \<open>A store whose set 0 is committed on bank A with floor 5.\<close>

lemma floor5_store:
  obtains nv where "slot_ok nv 0" "nv_slot_count nv = 1"
    "nvw_bank (view_of crc nv) 0 = Some bank_boot_state_default" "nvw_floor (view_of crc nv) 0 A = 5" "\<And>k. vw_run (view_of crc nv) 0 k = None"
    "nvw_gen (view_of crc nv) 0 A = 0"
proof -
  have wf: "wf_fw_meta floor5" using defaults_wf(3) by (simp add: floor5_def wf_fw_meta_def)
  have q: "meta_seq blank1 0 k = 0" "run_seq blank1 0 k = 0" "boot_seq blank1 = 0" for k
    by (simp_all add: fw_meta_ops_def runtime_ops_def boot_state_ops_def magic_defs)
  have n0: "(0 :: u32) \<noteq> -1" "(1 :: u32) \<noteq> -1" by simp_all
  obtain nv1 where w1: "snd (write_fw_meta crc blank1 0 A floor5) = Ok nv1" "nv_ok nv1" "nv_slot_count nv1 = 1"
      "boot_seq nv1 = 0" "view_of crc nv1 = put_meta 0 A (meta0 floor5) (view_of crc blank1)"
    using write_meta_view [of blank1 0 floor5 A crc] wf q n0 by auto
  have q1: "meta_seq nv1 0 k = (if k = A then 1 else 0)" "run_seq nv1 0 k = 0" for k
    using write_meta_seqs [OF _ _ wf _ w1(1), of 0 k] q n0 by simp_all
  obtain nv2 where w2: "snd (write_boot_state crc nv1 nv_boot_state_default) = Ok nv2" "nv_ok nv2" "nv_slot_count nv2 = 1"
      "view_of crc nv2 = put_banks (mask 1 (banks nv_boot_state_default)) (view_of crc nv1)"
    using write_boot_view [OF w1(2) defaults_wf(1), of crc] w1(3,4) n0 by auto
  have q2: "boot_seq nv2 = 1" "meta_seq nv2 0 k = (if k = A then 1 else 0)" "run_seq nv2 0 k = 0" for k
    using write_boot_seqs [OF w1(2) defaults_wf(1) _ w2(1)] w1(4) q1 n0 by simp_all
  show ?thesis
  proof (rule that [of nv2])
    show "slot_ok nv2 0"
      using w2 q2 n0 by (simp add: slot_ok_def room_def slot_in_range_def as_index_def MAX_SLOTS_def)
    show "nvw_bank (view_of crc nv2) 0 = Some bank_boot_state_default"
      by (simp add: w2(4) put_banks_bank as_index_def mask_def nv_boot_state_default_def MAX_SLOTS_def nth_append)
    show "nvw_floor (view_of crc nv2) 0 A = 5"
      by (simp add: w2(4) w1(5) floor5_def)
    show "\<And>k. vw_run (view_of crc nv2) 0 k = None"
      unfolding w2(4) w1(5) by (simp add: read_runtime_blank1)
    show "nvw_gen (view_of crc nv2) 0 A = 0"
      unfolding w2(4) w1(5) by (simp add: nvw_gen_def put_meta_def put_banks_def floor5_def nv_fw_meta_default_def)
  qed (rule w2(3))
qed

theorem anti_rollback_floor_witness:
  "\<exists>nv nv' nv'' r. set_floor (view_of (\<lambda>_. 0) nv) 0 = 5 \<and> ota_history (\<lambda>_. 0) (\<lambda>_. replicate 32 0) nv nv'
    \<and> install (\<lambda>_. 0) (\<lambda>_. replicate 32 0) nv' 0 [] image6 False = (nv'', Ok r)
    \<and> 5 \<le> set_floor (view_of (\<lambda>_. 0) nv'') 0"
proof -
  let ?crc = "\<lambda>_ :: bytes. 0 :: u32" and ?sha = "\<lambda>_ :: bytes. replicate 32 0 :: bytes"
  obtain nv where nv: "slot_ok nv 0" "nv_slot_count nv = 1"
      "nvw_bank (view_of ?crc nv) 0 = Some bank_boot_state_default" "nvw_floor (view_of ?crc nv) 0 A = 5"
    by (rule floor5_store)
  have fl: "set_floor (view_of ?crc nv) 0 = 5" "trial_floor_ok (view_of ?crc nv) 0"
    using nv(3,4) by (simp_all add: set_floor_def trial_floor_ok_def bank_boot_state_default_def)
  have "ota_step ?crc ?sha nv nv"
    using nv(1,3) commit_outcome [OF nv(1), of ?crc]
    by (intro step_commit [of nv 0 _ _ "snd (ota_commit ?crc nv 0)"])
       (auto simp: bank_boot_state_default_def prod_eq_iff)
  then have h: "ota_history ?crc ?sha nv nv" by (rule hist_step [OF hist_nil])
  obtain nv'' r where i: "install ?crc ?sha nv 0 [] image6 False = (nv'', r)" by fastforce
  have ok: "r = Ok \<lparr>ir_target_bank = B, ir_image_sha256 = replicate 32 0, ir_gen = nvw_gen (view_of ?crc nv) 0 A + 1\<rparr>"
    using install_checked_spec [OF nv(1) _ i [unfolded install_def]] nv(3,4)
    by (simp add: install_spec_def bank_boot_state_default_def image6_def Let_def)
  show ?thesis
    using anti_rollback_floor [of ?sha nv 0 ?crc nv "[]" image6 False] nv(1) slot_okD(1,2) [OF nv(1)] fl h i ok by fastforce
qed

text \<open>C11: The update operations refine their abstract versions on every branch. On a set in range with room in its
  regions, installing (from a buffer or from a digest computed while streaming), committing and
  rolling back change the content of the store exactly as the abstract operations say, and no other
  part of it: an install writes the metadata of its target with the floor and the next generation of
  the committed bank and copies the runtime data, a commit ratchets the floor, a rollback returns to
  the other bank. Each refuses, changing nothing, without boot state, in the wrong phase, and (install)
  below the floor.\<close>

theorem ota_refines:
  assumes "slot_ok nv s"
  shows "(length (sha img) = 32 \<longrightarrow> install crc sha nv s img meta single = (nv1, r1)
      \<longrightarrow> install_spec crc nv s (sha img) (crc img) meta single nv1 r1)
    \<and> (length d = 32 \<longrightarrow> install_precomputed crc nv s d sz meta single = (nv2, r2)
      \<longrightarrow> install_spec crc nv s d (crc (le_bytes sz)) meta single nv2 r2)
    \<and> (ota_commit crc nv s = (nv3, r3) \<longrightarrow>
      (case nvw_bank (view_of crc nv) s of
         None \<Rightarrow> nv3 = nv \<and> r3 = Err OtaNoBootState
       | Some bs \<Rightarrow> if committed bs then nv3 = nv \<and> r3 = Err AlreadyCommitted
           else nv_ok nv3 \<and> nv_slot_count nv3 = nv_slot_count nv \<and> r3 = Ok ()
             \<and> view_of crc nv3 = nvw_commit s bs (view_of crc nv)))
    \<and> (ota_rollback crc nv s = (nv4, r4) \<longrightarrow>
      (case nvw_bank (view_of crc nv) s of
         None \<Rightarrow> nv4 = nv \<and> r4 = Err OtaNoBootState
       | Some bs \<Rightarrow> if committed bs then nv4 = nv \<and> r4 = Err NotInTrial
           else nv_ok nv4 \<and> nv_slot_count nv4 = nv_slot_count nv \<and> r4 = Ok (other (active_bank bs))
             \<and> view_of crc nv4 = nvw_rollback s bs (view_of crc nv)))"
  unfolding install_def install_precomputed_def
  by (intro conjI impI; (rule install_checked_spec [OF assms] commit_outcome [OF assms] rollback_outcome [OF assms]; assumption))

text \<open>On a store with one slot, its bank set and floor 5: the trial-less store accepts the install and refuses to commit or roll back.\<close>

theorem ota_refines_witness:
  "\<exists>nv nv1 r1 nv3 r3. slot_ok nv 0 \<and> install (\<lambda>_. 0) (\<lambda>_. replicate 32 0) nv 0 [] image6 False = (nv1, r1)
     \<and> install_spec (\<lambda>_. 0) nv 0 (replicate 32 0) 0 image6 False nv1 r1 \<and> is_ok r1
     \<and> ota_commit (\<lambda>_. 0) nv 0 = (nv3, r3) \<and> nv3 = nv \<and> r3 = Err AlreadyCommitted"
proof -
  let ?crc = "\<lambda>_ :: bytes. 0 :: u32" and ?sha = "\<lambda>_ :: bytes. replicate 32 0 :: bytes"
  obtain nv where nv: "slot_ok nv 0" "nv_slot_count nv = 1"
      "nvw_bank (view_of ?crc nv) 0 = Some bank_boot_state_default" "nvw_floor (view_of ?crc nv) 0 A = 5"
    by (rule floor5_store)
  obtain nv1 r1 nv3 r3 where i: "install ?crc ?sha nv 0 [] image6 False = (nv1, r1)" "ota_commit ?crc nv 0 = (nv3, r3)"
    by fastforce
  note r = ota_refines [OF nv(1), of ?sha "[]" ?crc image6 False nv1 r1]
  have spec: "install_spec ?crc nv 0 (replicate 32 0) 0 image6 False nv1 r1" using r i(1) by simp
  then have "is_ok r1"
    using nv(3,4) by (simp add: install_spec_def bank_boot_state_default_def image6_def Let_def)
  moreover have "nv3 = nv \<and> r3 = Err AlreadyCommitted"
    using r [where ?nv3.0 = nv3 and ?r3.0 = r3] i(2) nv(3) by (simp add: bank_boot_state_default_def)
  ultimately show ?thesis using spec i nv(1) by blast
qed

end
