(* ===== verification/Did.thy ===== *)
theory Did
  imports OtaProps
begin

text \<open>
  Diagnostic identifiers over NV, \<^verbatim>\<open>crates/component-mgr/src/did.rs\<close>: reading resolves an
  identifier from the runtime table of the running bank, then the factory record, then the computed
  ones; writing updates or appends an entry of the active bank's table. Indexing out of a table or a
  slice out of an entry's 32 bytes panics (\<open>Panicked\<close>).
\<close>

section \<open>Model\<close>

definition DID_SUPPLIER_ID :: u16 where "DID_SUPPLIER_ID = 0xF18A"
definition DID_MANUFACTURING_DATE :: u16 where "DID_MANUFACTURING_DATE = 0xF18B"
definition DID_SERIAL_NUMBER :: u16 where "DID_SERIAL_NUMBER = 0xF18C"
definition DID_VIN :: u16 where "DID_VIN = 0xF190"
definition DID_ECU_HW_NUMBER :: u16 where "DID_ECU_HW_NUMBER = 0xF191"
definition DID_SUPPLIER_HW_NUMBER :: u16 where "DID_SUPPLIER_HW_NUMBER = 0xF192"
definition DID_SUPPLIER_HW_VERSION :: u16 where "DID_SUPPLIER_HW_VERSION = 0xF193"
definition DID_ACTIVE_BANK :: u16 where "DID_ACTIVE_BANK = 0xFD00"
definition DID_MIN_SECURITY_VER :: u16 where "DID_MIN_SECURITY_VER = 0xFD02"
definition DID_CURRENT_SECURITY_VER :: u16 where "DID_CURRENT_SECURITY_VER = 0xFD03"

lemmas did_consts = DID_SUPPLIER_ID_def DID_MANUFACTURING_DATE_def DID_SERIAL_NUMBER_def DID_VIN_def
  DID_ECU_HW_NUMBER_def DID_SUPPLIER_HW_NUMBER_def DID_SUPPLIER_HW_VERSION_def DID_ACTIVE_BANK_def
  DID_MIN_SECURITY_VER_def DID_CURRENT_SECURITY_VER_def

datatype did_value = Bytes bytes | NotFound

text \<open>The search loop of both functions: the first entry below the count with the identifier.\<close>

function scan_dids :: "did_entry list \<Rightarrow> nat \<Rightarrow> u16 \<Rightarrow> nat \<Rightarrow> block_error + nat option" where
  "scan_dids ds n d i =
     (if i \<ge> n then Ok None
      else if i \<ge> length ds then Err Panicked
      else if did (ds ! i) = d then Ok (Some i)
      else scan_dids ds n d (Suc i))"
  by pat_completeness auto
termination by (relation "measure (\<lambda>(ds, n, d, i). n - i)") auto

declare scan_dids.simps [simp del]

definition did_bytes :: "did_entry \<Rightarrow> block_error + did_value" where
  "did_bytes e = (if unat (did_len e) \<le> length (did_data e) then Ok (Bytes (take (unat (did_len e)) (did_data e)))
     else Err Panicked)"

definition factory_did :: "nv_factory \<Rightarrow> u16 \<Rightarrow> bytes option" where
  "factory_did f d =
     (if d = DID_SUPPLIER_ID then Some (supplier_id f)
      else if d = DID_MANUFACTURING_DATE then Some (manufacturing_date f)
      else if d = DID_SERIAL_NUMBER then Some (serial_number f)
      else if d = DID_VIN then Some (vin f)
      else if d = DID_ECU_HW_NUMBER then Some (ecu_hw_number f)
      else if d = DID_SUPPLIER_HW_NUMBER then Some (supplier_hw_number f)
      else if d = DID_SUPPLIER_HW_VERSION then Some (supplier_hw_version f)
      else None)"

definition dynamic_did :: "(bytes \<Rightarrow> u32) \<Rightarrow> nv_store \<Rightarrow> bank_set \<Rightarrow> bank \<Rightarrow> u16 \<Rightarrow> did_value" where
  "dynamic_did crc nv bset active d =
     (if d = DID_ACTIVE_BANK then Bytes [if active = A then 65 else 66]
      else if d = DID_MIN_SECURITY_VER \<or> d = DID_CURRENT_SECURITY_VER then
        (case read_fw_meta crc nv bset active of
           Some meta \<Rightarrow> Bytes (le_bytes (if d = DID_MIN_SECURITY_VER then min_security_ver meta else fw_secver meta))
         | None \<Rightarrow> Bytes (le_bytes (0 :: u32)))
      else NotFound)"

definition read_did ::
    "(bytes \<Rightarrow> u32) \<Rightarrow> nv_store \<Rightarrow> bank_set \<Rightarrow> u16 \<Rightarrow> bank option \<Rightarrow> block_error + did_value" where
  "read_did crc nv bset d running_bank =
     (case read_boot_state crc nv of
        None \<Rightarrow> Ok NotFound
      | Some st \<Rightarrow>
          and_then (if as_index bset < length (banks st) then Ok (banks st ! as_index bset) else Err Panicked) (\<lambda>bs.
          let active = (case running_bank of Some k \<Rightarrow> k | None \<Rightarrow> active_bank bs);
              rest = (case Option.bind (read_factory crc nv) (\<lambda>f. factory_did f d) of
                        Some v \<Rightarrow> Ok (Bytes v)
                      | None \<Rightarrow> Ok (dynamic_did crc nv bset active d))
          in case read_runtime crc nv bset active of
               None \<Rightarrow> rest
             | Some runtime \<Rightarrow> and_then (scan_dids (dids runtime) (unat (did_count runtime)) d 0) (\<lambda>hit.
                 case hit of Some i \<Rightarrow> did_bytes (dids runtime ! i) | None \<Rightarrow> rest)))"

definition did_entry_of :: "u16 \<Rightarrow> bytes \<Rightarrow> did_entry" where
  "did_entry_of d data =
     (let len = min (length data) 32
      in \<lparr>did = d, did_len = of_nat len, did_data = take len data @ replicate (32 - len) 0\<rparr>)"

definition write_did ::
    "(bytes \<Rightarrow> u32) \<Rightarrow> nv_store \<Rightarrow> bank_set \<Rightarrow> u16 \<Rightarrow> bytes \<Rightarrow> nv_store \<times> (block_error + bool)" where
  "write_did crc nv bset d data =
     (case read_boot_state crc nv of
        None \<Rightarrow> (nv, Ok False)
      | Some st \<Rightarrow>
          if as_index bset \<ge> length (banks st) then (nv, Err Panicked)
          else
            let active = active_bank (banks st ! as_index bset);
                runtime = (case read_runtime crc nv bset active of Some r \<Rightarrow> r | None \<Rightarrow> nv_runtime_default);
                put = (\<lambda>runtime'. case snd (write_runtime crc nv bset active runtime') of
                         Err e \<Rightarrow> (nv, Err e) | Ok nv' \<Rightarrow> (nv', Ok True))
            in case scan_dids (dids runtime) (unat (did_count runtime)) d 0 of
                 Err e \<Rightarrow> (nv, Err e)
               | Ok (Some i) \<Rightarrow> put (runtime\<lparr>dids := (dids runtime)[i := did_entry_of d data]\<rparr>)
               | Ok None \<Rightarrow>
                   if unat (did_count runtime) \<ge> MAX_DIDS then (nv, Ok False)
                   else put (runtime\<lparr>dids := (dids runtime)[unat (did_count runtime) := did_entry_of d data],
                                     did_count := did_count runtime + 1\<rparr>))"

section \<open>The search\<close>

lemma scan_dids_spec:
  assumes "n \<le> length ds"
  shows "scan_dids ds n d i = Ok (find (\<lambda>j. did (ds ! j) = d) [i..<n])"
  using assms
proof (induction ds n d i rule: scan_dids.induct)
  case (1 ds n d i)
  then show ?case
    by (subst scan_dids.simps) (auto simp: upt_conv_Cons)
qed

lemma find_upt_Some: "find P [0..<n] = Some i \<Longrightarrow> i < n \<and> P i \<and> (\<forall>j < i. \<not> P j)"
  by (auto simp: find_Some_iff)

lemma find_upt_None: "find P [0..<n] = None \<longleftrightarrow> (\<forall>j < n. \<not> P j)"
  by (auto simp: find_None_iff)

section \<open>The table\<close>

definition table_lookup :: "nv_runtime \<Rightarrow> u16 \<Rightarrow> did_entry option" where
  "table_lookup r d = map_option (\<lambda>i. dids r ! i) (find (\<lambda>j. did (dids r ! j) = d) [0..<unat (did_count r)])"

definition table_put :: "nv_runtime \<Rightarrow> u16 \<Rightarrow> bytes \<Rightarrow> nv_runtime option" where
  "table_put r d data =
     (case find (\<lambda>j. did (dids r ! j) = d) [0..<unat (did_count r)] of
        Some i \<Rightarrow> Some (r\<lparr>dids := (dids r)[i := did_entry_of d data]\<rparr>)
      | None \<Rightarrow> if unat (did_count r) \<ge> MAX_DIDS then None
          else Some (r\<lparr>dids := (dids r)[unat (did_count r) := did_entry_of d data], did_count := did_count r + 1\<rparr>))"

lemma table_lookup_run0 [simp]: "table_lookup (run0 r) d = table_lookup r d"
  by (simp add: table_lookup_def)

lemma table_put_run0: "table_put (run0 r) d data = map_option run0 (table_put r d data)"
  by (cases r) (simp add: table_put_def split: option.split)

lemma wf_run0 [simp]: "wf_runtime (run0 r) = wf_runtime r"
  by (simp add: wf_runtime_def)

lemma entry_of_sel [simp]: "did (did_entry_of d data) = d" "length (did_data (did_entry_of d data)) = 32"
  by (simp_all add: did_entry_of_def Let_def)

lemma did_bytes_entry: "did_bytes (did_entry_of d data) = Ok (Bytes (take 32 data))"
proof -
  have "unat (of_nat (min (length data) 32) :: u8) = min (length data) 32"
    by (simp add: unat_of_nat min_def)
  then show ?thesis by (auto simp: did_bytes_def did_entry_of_def Let_def min_def)
qed

lemma find_update_same:
  assumes "find (\<lambda>j. did (ds ! j) = d) [0..<n] = Some i" "n \<le> length ds" "did e = d"
  shows "find (\<lambda>j. did (ds[i := e] ! j) = d') [0..<n] = find (\<lambda>j. did (ds ! j) = d') [0..<n]"
proof -
  have "did (ds[i := e] ! j) = did (ds ! j)" if "j < n" for j
    using find_upt_Some [OF assms(1)] assms(2,3) by (cases "j = i") auto
  then show ?thesis by (intro find_cong) auto
qed

lemma find_append_one:
  assumes "n < length ds"
  shows "find (\<lambda>j. did (ds[n := e] ! j) = d) [0..<Suc n] =
     (case find (\<lambda>j. did (ds ! j) = d) [0..<n] of Some i \<Rightarrow> Some i | None \<Rightarrow> if did e = d then Some n else None)"
proof -
  have "find (\<lambda>j. did (ds[n := e] ! j) = d) [0..<n] = find (\<lambda>j. did (ds ! j) = d) [0..<n]"
    by (intro find_cong) auto
  then show ?thesis using assms by (simp add: find_append split: option.split)
qed

lemma table_put_spec:
  assumes "wf_runtime r" "table_put r d data = Some r'"
  shows "wf_runtime r'" "table_lookup r' d' = (if d' = d then Some (did_entry_of d data) else table_lookup r d')"
proof -
  have n: "unat (did_count r) \<le> MAX_DIDS" "length (dids r) = MAX_DIDS" using assms(1) by (simp_all add: wf_runtime_def)
  have "wf_runtime r' \<and> table_lookup r' d' = (if d' = d then Some (did_entry_of d data) else table_lookup r d')"
  proof (cases "find (\<lambda>j. did (dids r ! j) = d) [0..<unat (did_count r)]")
    case (Some i)
    have r': "r' = r\<lparr>dids := (dids r)[i := did_entry_of d data]\<rparr>" using assms(2) Some by (simp add: table_put_def)
    have i: "i < unat (did_count r)" "did (dids r ! i) = d" using find_upt_Some [OF Some] by simp_all
    have fu: "find (\<lambda>j. did ((dids r)[i := did_entry_of d data] ! j) = d'') [0..<unat (did_count r)] =
        find (\<lambda>j. did (dids r ! j) = d'') [0..<unat (did_count r)]" for d''
      using find_update_same [OF Some] n by simp
    have ne: "j \<noteq> i" if "find (\<lambda>j. did (dids r ! j) = d') [0..<unat (did_count r)] = Some j" "d' \<noteq> d" for j
      using find_upt_Some [OF that(1)] i that(2) by auto
    have "wf_runtime r'"
      using assms(1) unfolding r' by (auto simp: wf_runtime_def dest!: set_update_subset_insert [THEN subsetD])
    then show ?thesis
      using fu Some i n ne by (auto simp: r' table_lookup_def map_option_case split: option.split)
  next
    case None
    then have lt: "unat (did_count r) < MAX_DIDS"
      and r': "r' = r\<lparr>dids := (dids r)[unat (did_count r) := did_entry_of d data], did_count := did_count r + 1\<rparr>"
      using assms(2) by (auto simp: table_put_def split: if_splits)
    have c: "unat (did_count r + 1) = Suc (unat (did_count r))"
      using lt by (simp add: unat_word_ariths MAX_DIDS_def)
    have "wf_runtime r'"
      using assms(1) lt c unfolding r' by (auto simp: wf_runtime_def dest!: set_update_subset_insert [THEN subsetD])
    moreover have "j \<noteq> unat (did_count r)"
      if "find (\<lambda>j. did (dids r ! j) = d') [0..<unat (did_count r)] = Some j" for j
      using find_upt_Some [OF that] by simp
    ultimately show ?thesis
      using None lt n
      by (auto simp: r' c table_lookup_def find_append_one simp del: upt_Suc split: option.split)
  qed
  then show "wf_runtime r'" "table_lookup r' d' = (if d' = d then Some (did_entry_of d data) else table_lookup r d')"
    by simp_all
qed

section \<open>Reading and writing over the view\<close>

definition view_dynamic :: "nv_view \<Rightarrow> bank_set \<Rightarrow> bank \<Rightarrow> u16 \<Rightarrow> did_value" where
  "view_dynamic v s k d =
     (if d = DID_ACTIVE_BANK then Bytes [if k = A then 65 else 66]
      else if d = DID_MIN_SECURITY_VER then Bytes (le_bytes (nvw_floor v s k))
      else if d = DID_CURRENT_SECURITY_VER
      then Bytes (le_bytes (case vw_meta v s k of None \<Rightarrow> 0 | Some m \<Rightarrow> fw_secver m))
      else NotFound)"

definition view_did :: "nv_view \<Rightarrow> bank_set \<Rightarrow> bank \<Rightarrow> u16 \<Rightarrow> block_error + did_value" where
  "view_did v s k d =
     (case Option.bind (vw_run v s k) (\<lambda>r. table_lookup r d) of
        Some e \<Rightarrow> did_bytes e
      | None \<Rightarrow>
          (case Option.bind (vw_factory v) (\<lambda>f. factory_did f d) of
             Some x \<Rightarrow> Ok (Bytes x)
           | None \<Rightarrow> Ok (view_dynamic v s k d)))"

lemma dynamic_did_view: "dynamic_did crc nv s k d = view_dynamic (view_of crc nv) s k d"
  by (auto simp: dynamic_did_def view_dynamic_def nvw_floor_def did_consts split: option.split)

lemma scan_table:
  assumes "read_runtime crc nv s k = Some r"
  shows "scan_dids (dids r) (unat (did_count r)) d 0 = Ok (find (\<lambda>j. did (dids r ! j) = d) [0..<unat (did_count r)])"
  using read_runtime_wf [OF assms] by (intro scan_dids_spec) (simp add: wf_runtime_def)

lemma read_did_view:
  assumes "nv_ok nv" "slot_in_range nv s"
  shows "read_did crc nv s d rb =
    (case nvw_bank (view_of crc nv) s of None \<Rightarrow> Ok NotFound
     | Some bs \<Rightarrow> view_did (view_of crc nv) s (case rb of Some k \<Rightarrow> k | None \<Rightarrow> active_bank bs) d)"
proof (cases "read_boot_state crc nv")
  case None
  then show ?thesis by (simp add: read_did_def nvw_bank_def)
next
  case (Some st)
  let ?k = "case rb of Some k \<Rightarrow> k | None \<Rightarrow> active_bank (banks st ! as_index s)"
  have i: "as_index s < length (banks st)" using bank_at_read(1) [OF assms Some] by (simp add: bank_at_def split: if_splits)
  show ?thesis
  proof (cases "read_runtime crc nv s ?k")
    case None
    then show ?thesis
      using Some i by (simp add: read_did_def view_bank view_did_def dynamic_did_view split: option.split)
  next
    case (Some r)
    then show ?thesis
      using \<open>read_boot_state crc nv = Some st\<close> i
      by (simp add: read_did_def view_bank view_did_def dynamic_did_view scan_table [OF Some]
          table_lookup_def map_option_case split: option.split)
  qed
qed

lemma write_did_view:
  assumes "slot_ok nv s" "nvw_bank (view_of crc nv) s = Some bs"
    and "r = (case vw_run (view_of crc nv) s (active_bank bs) of None \<Rightarrow> nv_runtime_default | Some r \<Rightarrow> r)"
  shows "case table_put r d data of
      None \<Rightarrow> write_did crc nv s d data = (nv, Ok False)
    | Some r' \<Rightarrow> \<exists>nv'. write_did crc nv s d data = (nv', Ok True) \<and> nv_ok nv' \<and> nv_slot_count nv' = nv_slot_count nv
        \<and> view_of crc nv' = put_run s (active_bank bs) r' (view_of crc nv)"
proof -
  note ok = slot_okD [OF assms(1)]
  obtain st where st: "read_boot_state crc nv = Some st" using assms(2) by (auto simp: nvw_bank_def split: option.splits)
  have i: "as_index s < length (banks st)" "banks st ! as_index s = bs"
    using bank_at_read [OF ok(1,2) st] assms(2) by (simp_all add: bank_at_def split: if_splits)
  define r0 where "r0 = (case read_runtime crc nv s (active_bank bs) of Some r \<Rightarrow> r | None \<Rightarrow> nv_runtime_default)"
  have r0: "wf_runtime r0" "run0 r0 = r"
    using read_runtime_wf assms(3) default0 by (auto simp: r0_def split: option.splits)
  have put: "\<exists>nv'. (case snd (write_runtime crc nv s (active_bank bs) q) of Err e \<Rightarrow> (nv, Err e) | Ok nv' \<Rightarrow> (nv', Ok True)) =
        (nv', Ok True) \<and> nv_ok nv' \<and> nv_slot_count nv' = nv_slot_count nv
      \<and> view_of crc nv' = put_run s (active_bank bs) q' (view_of crc nv)"
    if "wf_runtime q" "q' = run0 q" for q q'
    using write_run_view [OF ok(1,2) that(1) ok(5) [of "active_bank bs"], of crc] that(2) by auto
  have sc: "scan_dids (dids r0) (unat (did_count r0)) d 0 =
      Ok (find (\<lambda>j. did (dids r ! j) = d) [0..<unat (did_count r)])"
    using scan_dids_spec [of "unat (did_count r0)" "dids r0"] r0(1) r0(2) [symmetric] by (simp add: wf_runtime_def)
  have wfp: "wf_runtime r'" if "table_put r0 d data = Some r'" for r'
    using table_put_spec(1) [OF r0(1) that] .
  show ?thesis
  proof (cases "table_put r0 d data")
    case None
    then have "write_did crc nv s d data = (nv, Ok False)"
      using st i sc r0(2) [symmetric]
      by (auto simp: write_did_def Let_def r0_def [symmetric] table_put_def split: option.splits if_splits)
    then show ?thesis using None by (simp add: r0(2) [symmetric] table_put_run0)
  next
    case (Some r')
    have "write_did crc nv s d data =
        (case snd (write_runtime crc nv s (active_bank bs) r') of Err e \<Rightarrow> (nv, Err e) | Ok nv' \<Rightarrow> (nv', Ok True))"
      using Some st i sc r0(2) [symmetric]
      by (auto simp: write_did_def Let_def r0_def [symmetric] table_put_def split: option.splits if_splits)
    then show ?thesis
      using put [OF wfp [OF Some] refl] Some by (simp add: r0(2) [symmetric] table_put_run0)
  qed
qed

section \<open>Properties\<close>

text \<open>Writing an identifier and reading it back. On an initialised set the write either succeeds, or answers
  false because the identifier is new and the table of the active bank is full, and then nothing
  changed. After a success a read on the active bank returns the first 32 bytes of the value, ahead
  of any factory or computed value of the same number, and every other read (another identifier,
  another bank, another set) returns what it returned before.\<close>

theorem did_write_read:
  assumes "slot_ok nv s" "nvw_bank (view_of crc nv) s = Some bs" "write_did crc nv s d data = (nv', res)"
  shows "(res = Ok True \<and> read_did crc nv' s d None = Ok (Bytes (take 32 data))
      \<or> res = Ok False \<and> nv' = nv
          \<and> (\<exists>r. read_runtime crc nv s (active_bank bs) = Some r \<and> unat (did_count r) = MAX_DIDS \<and> table_lookup r d = None))
    \<and> (slot_in_range nv s' \<and> (s' \<noteq> s \<or> d' \<noteq> d \<or> (\<exists>k. rb = Some k \<and> k \<noteq> active_bank bs))
         \<longrightarrow> read_did crc nv' s' d' rb = read_did crc nv s' d' rb)"
proof -
  note ok = slot_okD [OF assms(1)]
  define r where "r = (case vw_run (view_of crc nv) s (active_bank bs) of None \<Rightarrow> nv_runtime_default | Some r \<Rightarrow> r)"
  have wf: "wf_runtime r"
    using read_runtime_wf wf_defaults(2) by (auto simp: r_def split: option.splits)
  note w = write_did_view [OF assms(1,2) r_def, of d data]
  show ?thesis
  proof (cases "table_put r d data")
    case None
    then have full: "unat (did_count r) = MAX_DIDS" "table_lookup r d = None"
      using wf by (auto simp: table_put_def table_lookup_def wf_runtime_def split: option.splits if_splits)
    then have "did_count r \<noteq> 0" by (auto simp: MAX_DIDS_def)
    then obtain r1 where "read_runtime crc nv s (active_bank bs) = Some r1" "r = run0 r1"
      by (auto simp: r_def nv_runtime_default_def split: option.splits)
    then show ?thesis using w None assms(3) full by auto
  next
    case (Some r')
    then have e: "res = Ok True" "nv_ok nv'" "nv_slot_count nv' = nv_slot_count nv"
        "view_of crc nv' = put_run s (active_bank bs) r' (view_of crc nv)"
      using w assms(3) by auto
    note look = table_put_spec(2) [OF wf Some]
    have b: "nvw_bank (view_of crc nv') = nvw_bank (view_of crc nv)" by (simp add: e(4) nvw_bank_def fun_eq_iff)
    have same: "view_did (view_of crc nv') s' k d' = view_did (view_of crc nv) s' k d'"
      if "s' \<noteq> s \<or> d' \<noteq> d \<or> k \<noteq> active_bank bs" for k
    proof -
      have "Option.bind (vw_run (view_of crc nv') s' k) (\<lambda>r. table_lookup r d') =
          Option.bind (vw_run (view_of crc nv) s' k) (\<lambda>r. table_lookup r d')"
        using that look unfolding e(4)
        by (auto simp: r_def nv_runtime_default_def table_lookup_def split: option.splits)
      moreover have "view_dynamic (view_of crc nv') s' k d' = view_dynamic (view_of crc nv) s' k d'"
        "vw_factory (view_of crc nv') = vw_factory (view_of crc nv)"
        unfolding e(4) by (simp_all add: view_dynamic_def nvw_floor_def)
      ultimately show ?thesis by (simp only: view_did_def)
    qed
    have "view_did (view_of crc nv') s (active_bank bs) d = Ok (Bytes (take 32 data))"
      unfolding e(4) using look by (simp add: view_did_def did_bytes_entry)
    then have "read_did crc nv' s d None = Ok (Bytes (take 32 data))"
      using read_did_view [OF e(2), of s] ok(2) e(3) b assms(2) by (simp add: slot_in_range_def)
    moreover have "read_did crc nv' s' d' rb = read_did crc nv s' d' rb"
      if "slot_in_range nv s'" "s' \<noteq> s \<or> d' \<noteq> d \<or> (\<exists>k. rb = Some k \<and> k \<noteq> active_bank bs)"
      using read_did_view [OF ok(1) that(1)] read_did_view [OF e(2), of s'] that e(3) b same
      by (auto simp: slot_in_range_def split: option.split)
    ultimately show ?thesis using e(1) by blast
  qed
qed

theorem did_write_read_witness:
  "\<exists>nv nv'. write_did (\<lambda>_. 0) nv 0 DID_VIN [87, 48] = (nv', Ok True)
    \<and> read_did (\<lambda>_. 0) nv' 0 DID_VIN None = Ok (Bytes [87, 48])
    \<and> read_did (\<lambda>_. 0) nv' 0 DID_VIN (Some B) = read_did (\<lambda>_. 0) nv 0 DID_VIN (Some B)"
proof -
  let ?crc = "\<lambda>_ :: bytes. 0 :: u32"
  obtain nv where nv: "slot_ok nv 0" "nvw_bank (view_of ?crc nv) 0 = Some bank_boot_state_default"
      "\<And>k. vw_run (view_of ?crc nv) 0 k = None"
    by (rule floor5_store [of ?crc], (rule that; assumption))
  obtain nv' res where w: "write_did ?crc nv 0 DID_VIN [87, 48] = (nv', res)" by fastforce
  show ?thesis
    using did_write_read [OF nv(1,2) w, of 0 DID_VIN "Some B"] w nv(3) [of "active_bank bank_boot_state_default"]
      slot_okD(2) [OF nv(1)]
    by (auto simp: bank_boot_state_default_def)
qed

end
