(* ===== verification/VhsmProto.thy ===== *)
theory VhsmProto
  imports NvTypes
begin

text \<open>
  The vHSM wire protocol, \<^verbatim>\<open>crates/vhsm-proto/src/lib.rs\<close> and \<^verbatim>\<open>codec.rs\<close>: operation, status and
  failure codes, permission bits, the registry of well-known slots, and the framing of requests and
  responses. A peer is the finite sequence of outcomes of its reads (\<open>read_event\<close>): a chunk of bytes,
  an interrupted call, or an error; after the last one the connection is closed. A read takes at
  most the length of its buffer from the chunk and leaves the rest for the next read.
\<close>

section \<open>Codes\<close>

datatype op =
    GetRandom | KeyGenerate | KeyImport | KeyDerive | KeyDelete | Encrypt | Decrypt | MacGenerate | MacVerify
  | Sign | Verify | GetHandleInfo | GetPubkey | GetCert | Hello | Auth | AuthOk | Enroll | EnrollAssisted

definition op_u32 :: "op \<Rightarrow> u32" where
  "op_u32 p = (case p of
       GetRandom \<Rightarrow> 0x0001 | KeyGenerate \<Rightarrow> 0x0010 | KeyImport \<Rightarrow> 0x0011 | KeyDerive \<Rightarrow> 0x0012 | KeyDelete \<Rightarrow> 0x0013
     | Encrypt \<Rightarrow> 0x0020 | Decrypt \<Rightarrow> 0x0021 | MacGenerate \<Rightarrow> 0x0030 | MacVerify \<Rightarrow> 0x0031 | Sign \<Rightarrow> 0x0040
     | Verify \<Rightarrow> 0x0041 | GetHandleInfo \<Rightarrow> 0x0050 | GetPubkey \<Rightarrow> 0x0051 | GetCert \<Rightarrow> 0x0052 | Hello \<Rightarrow> 0x00F0
     | Auth \<Rightarrow> 0x00F1 | AuthOk \<Rightarrow> 0x00F2 | Enroll \<Rightarrow> 0x00F3 | EnrollAssisted \<Rightarrow> 0x00F4)"

definition op_from_u32 :: "u32 \<Rightarrow> op option" where
  "op_from_u32 v =
     (if v = 0x0001 then Some GetRandom else if v = 0x0010 then Some KeyGenerate
      else if v = 0x0011 then Some KeyImport else if v = 0x0012 then Some KeyDerive
      else if v = 0x0013 then Some KeyDelete else if v = 0x0020 then Some Encrypt
      else if v = 0x0021 then Some Decrypt else if v = 0x0030 then Some MacGenerate
      else if v = 0x0031 then Some MacVerify else if v = 0x0040 then Some Sign
      else if v = 0x0041 then Some Verify else if v = 0x0050 then Some GetHandleInfo
      else if v = 0x0051 then Some GetPubkey else if v = 0x0052 then Some GetCert
      else if v = 0x00F0 then Some Hello else if v = 0x00F1 then Some Auth
      else if v = 0x00F2 then Some AuthOk else if v = 0x00F3 then Some Enroll
      else if v = 0x00F4 then Some EnrollAssisted else None)"

definition is_host_only :: "op \<Rightarrow> bool" where
  "is_host_only p = (p \<in> {KeyImport, KeyDerive, KeyDelete})"

definition is_handshake :: "op \<Rightarrow> bool" where
  "is_handshake p = (p \<in> {Hello, Auth, AuthOk, Enroll, EnrollAssisted})"

definition PERM_ENCRYPT :: u32 where "PERM_ENCRYPT = push_bit 0 1"
definition PERM_DECRYPT :: u32 where "PERM_DECRYPT = push_bit 1 1"
definition PERM_MAC_GEN :: u32 where "PERM_MAC_GEN = push_bit 2 1"
definition PERM_MAC_VFY :: u32 where "PERM_MAC_VFY = push_bit 3 1"
definition PERM_SIGN :: u32 where "PERM_SIGN = push_bit 4 1"
definition PERM_VERIFY :: u32 where "PERM_VERIFY = push_bit 5 1"
definition PERM_DERIVE :: u32 where "PERM_DERIVE = push_bit 6 1"
definition PERM_DELETE :: u32 where "PERM_DELETE = push_bit 7 1"
definition PERM_GET_PUBKEY :: u32 where "PERM_GET_PUBKEY = push_bit 8 1"
definition PERM_GET_CERT :: u32 where "PERM_GET_CERT = push_bit 9 1"
definition PERM_KEY_GENERATE :: u32 where "PERM_KEY_GENERATE = push_bit 10 1"

lemmas perm_defs = PERM_ENCRYPT_def PERM_DECRYPT_def PERM_MAC_GEN_def PERM_MAC_VFY_def PERM_SIGN_def
  PERM_VERIFY_def PERM_DERIVE_def PERM_DELETE_def PERM_GET_PUBKEY_def PERM_GET_CERT_def PERM_KEY_GENERATE_def

definition required_perm :: "op \<Rightarrow> u32 option" where
  "required_perm p = (case p of
       Encrypt \<Rightarrow> Some PERM_ENCRYPT | Decrypt \<Rightarrow> Some PERM_DECRYPT | MacGenerate \<Rightarrow> Some PERM_MAC_GEN
     | MacVerify \<Rightarrow> Some PERM_MAC_VFY | Sign \<Rightarrow> Some PERM_SIGN | Verify \<Rightarrow> Some PERM_VERIFY
     | KeyDerive \<Rightarrow> Some PERM_DERIVE | KeyDelete \<Rightarrow> Some PERM_DELETE | GetPubkey \<Rightarrow> Some PERM_GET_PUBKEY
     | GetCert \<Rightarrow> Some PERM_GET_CERT | KeyGenerate \<Rightarrow> Some PERM_KEY_GENERATE
     | GetRandom \<Rightarrow> None | GetHandleInfo \<Rightarrow> None | KeyImport \<Rightarrow> None
     | Hello \<Rightarrow> None | Auth \<Rightarrow> None | AuthOk \<Rightarrow> None | Enroll \<Rightarrow> None | EnrollAssisted \<Rightarrow> None)"

datatype auth_fail_reason =
    BadCertSignature | CertExpired | WrongAudience | UnknownPrincipal | BadProofSignature
  | BadBootstrapToken | TokenAlreadyConsumed | ProtocolTooOld | AuthInvalidParam

definition auth_fail_u16 :: "auth_fail_reason \<Rightarrow> u16" where
  "auth_fail_u16 r = (case r of
       BadCertSignature \<Rightarrow> 1 | CertExpired \<Rightarrow> 2 | WrongAudience \<Rightarrow> 3 | UnknownPrincipal \<Rightarrow> 4
     | BadProofSignature \<Rightarrow> 5 | BadBootstrapToken \<Rightarrow> 6 | TokenAlreadyConsumed \<Rightarrow> 7 | ProtocolTooOld \<Rightarrow> 8
     | AuthInvalidParam \<Rightarrow> 9)"

definition auth_fail_from_u16 :: "u16 \<Rightarrow> auth_fail_reason option" where
  "auth_fail_from_u16 v =
     (if v = 1 then Some BadCertSignature else if v = 2 then Some CertExpired
      else if v = 3 then Some WrongAudience else if v = 4 then Some UnknownPrincipal
      else if v = 5 then Some BadProofSignature else if v = 6 then Some BadBootstrapToken
      else if v = 7 then Some TokenAlreadyConsumed else if v = 8 then Some ProtocolTooOld
      else if v = 9 then Some AuthInvalidParam else None)"

datatype status_code =
    StOk | InvalidHandle | PermissionDeny | PolicyReject | HseError | InvalidParam | NoResource
  | StorageError | CryptoError | Internal

definition status_u32 :: "status_code \<Rightarrow> u32" where
  "status_u32 s = (case s of
       StOk \<Rightarrow> 0 | InvalidHandle \<Rightarrow> 1 | PermissionDeny \<Rightarrow> 2 | PolicyReject \<Rightarrow> 3 | HseError \<Rightarrow> 4
     | InvalidParam \<Rightarrow> 5 | NoResource \<Rightarrow> 6 | StorageError \<Rightarrow> 7 | CryptoError \<Rightarrow> 8 | Internal \<Rightarrow> 9)"

definition status_from_u32 :: "u32 \<Rightarrow> status_code option" where
  "status_from_u32 v =
     (if v = 0 then Some StOk else if v = 1 then Some InvalidHandle else if v = 2 then Some PermissionDeny
      else if v = 3 then Some PolicyReject else if v = 4 then Some HseError else if v = 5 then Some InvalidParam
      else if v = 6 then Some NoResource else if v = 7 then Some StorageError else if v = 8 then Some CryptoError
      else if v = 9 then Some Internal else None)"

section \<open>Slots\<close>

definition ALG_AES_128 :: u32 where "ALG_AES_128 = 0x0001"
definition ALG_AES_256 :: u32 where "ALG_AES_256 = 0x0002"
definition ALG_HMAC_SHA256 :: u32 where "ALG_HMAC_SHA256 = 0x0010"
definition ALG_ED25519 :: u32 where "ALG_ED25519 = 0x0020"
definition ALG_ECC_P256 :: u32 where "ALG_ECC_P256 = 0x0021"
definition ALG_MONOTONIC :: u32 where "ALG_MONOTONIC = 0x0022"

definition HANDLE_INVALID :: u32 where "HANDLE_INVALID = 0"
definition HANDLE_SW_AUTHORITY :: u32 where "HANDLE_SW_AUTHORITY = 0x0002"
definition HANDLE_DEVICE_DECRYPT :: u32 where "HANDLE_DEVICE_DECRYPT = 0x0003"
definition HANDLE_IAM_SIGNING :: u32 where "HANDLE_IAM_SIGNING = 0x0004"
definition HANDLE_KEY_AUTHORITY :: u32 where "HANDLE_KEY_AUTHORITY = 0x0005"
definition HANDLE_JWT_SIGNING :: u32 where "HANDLE_JWT_SIGNING = 0x0006"
definition HANDLE_STORAGE :: u32 where "HANDLE_STORAGE = 0x0007"
definition HANDLE_OPERATIONAL_ISSUER :: u32 where "HANDLE_OPERATIONAL_ISSUER = 0x0008"
definition HANDLE_FACTORY_RESET_ISSUER :: u32 where "HANDLE_FACTORY_RESET_ISSUER = 0x0009"
definition HANDLE_IVD_SIGNING :: u32 where "HANDLE_IVD_SIGNING = 0x000A"
definition HANDLE_TLS_IDENTITY :: u32 where "HANDLE_TLS_IDENTITY = 0x000C"
definition HANDLE_TIME_FLOOR :: u32 where "HANDLE_TIME_FLOOR = 0x000D"
definition HANDLE_PROJECT_BASE :: u32 where "HANDLE_PROJECT_BASE = 0x0080"
definition HANDLE_DYNAMIC_BASE :: u32 where "HANDLE_DYNAMIC_BASE = 0x0100"

lemmas handle_defs = HANDLE_INVALID_def HANDLE_SW_AUTHORITY_def HANDLE_DEVICE_DECRYPT_def HANDLE_IAM_SIGNING_def
  HANDLE_KEY_AUTHORITY_def HANDLE_JWT_SIGNING_def HANDLE_STORAGE_def HANDLE_OPERATIONAL_ISSUER_def
  HANDLE_FACTORY_RESET_ISSUER_def HANDLE_IVD_SIGNING_def HANDLE_TLS_IDENTITY_def HANDLE_TIME_FLOOR_def
  HANDLE_PROJECT_BASE_def HANDLE_DYNAMIC_BASE_def

definition handle_is_well_known :: "u32 \<Rightarrow> bool" where
  "handle_is_well_known h \<longleftrightarrow> 1 \<le> h \<and> h < HANDLE_DYNAMIC_BASE"

definition handle_is_sumo_core :: "u32 \<Rightarrow> bool" where
  "handle_is_sumo_core h \<longleftrightarrow> 1 \<le> h \<and> h < HANDLE_PROJECT_BASE"

definition handle_is_project :: "u32 \<Rightarrow> bool" where
  "handle_is_project h \<longleftrightarrow> HANDLE_PROJECT_BASE \<le> h \<and> h < HANDLE_DYNAMIC_BASE"

record slot_entry =
  sl_handle :: u32
  sl_key_id :: string
  sl_alg :: u32
  sl_default_perms :: u32
  sl_guest_exposed :: bool

definition SUMO_CORE_SLOTS :: "slot_entry list" where
  "SUMO_CORE_SLOTS =
     [\<lparr>sl_handle = HANDLE_SW_AUTHORITY, sl_key_id = ''sw-authority'', sl_alg = ALG_ECC_P256,
        sl_default_perms = PERM_VERIFY, sl_guest_exposed = True\<rparr>,
      \<lparr>sl_handle = HANDLE_DEVICE_DECRYPT, sl_key_id = ''device-decrypt'', sl_alg = ALG_ECC_P256,
        sl_default_perms = PERM_DECRYPT OR PERM_GET_PUBKEY, sl_guest_exposed = True\<rparr>,
      \<lparr>sl_handle = HANDLE_IAM_SIGNING, sl_key_id = ''iam-signing'', sl_alg = ALG_ECC_P256,
        sl_default_perms = 0, sl_guest_exposed = False\<rparr>,
      \<lparr>sl_handle = HANDLE_KEY_AUTHORITY, sl_key_id = ''key-authority'', sl_alg = ALG_ECC_P256,
        sl_default_perms = PERM_VERIFY, sl_guest_exposed = True\<rparr>,
      \<lparr>sl_handle = HANDLE_JWT_SIGNING, sl_key_id = ''jwt-signing'', sl_alg = ALG_ECC_P256,
        sl_default_perms = PERM_SIGN OR PERM_VERIFY OR PERM_GET_PUBKEY, sl_guest_exposed = True\<rparr>,
      \<lparr>sl_handle = HANDLE_STORAGE, sl_key_id = ''storage-key'', sl_alg = ALG_AES_256,
        sl_default_perms = PERM_ENCRYPT OR PERM_DECRYPT, sl_guest_exposed = True\<rparr>,
      \<lparr>sl_handle = HANDLE_OPERATIONAL_ISSUER, sl_key_id = ''operational-issuer'', sl_alg = ALG_ECC_P256,
        sl_default_perms = PERM_VERIFY OR PERM_GET_PUBKEY, sl_guest_exposed = True\<rparr>,
      \<lparr>sl_handle = HANDLE_FACTORY_RESET_ISSUER, sl_key_id = ''factory-reset-issuer'', sl_alg = ALG_ECC_P256,
        sl_default_perms = PERM_VERIFY OR PERM_GET_PUBKEY, sl_guest_exposed = True\<rparr>,
      \<lparr>sl_handle = HANDLE_IVD_SIGNING, sl_key_id = ''ivd-signing'', sl_alg = ALG_ECC_P256,
        sl_default_perms = 0, sl_guest_exposed = False\<rparr>,
      \<lparr>sl_handle = HANDLE_TLS_IDENTITY, sl_key_id = ''tls-identity'', sl_alg = ALG_ECC_P256,
        sl_default_perms = 0, sl_guest_exposed = False\<rparr>,
      \<lparr>sl_handle = HANDLE_TIME_FLOOR, sl_key_id = ''time-floor'', sl_alg = ALG_MONOTONIC,
        sl_default_perms = 0, sl_guest_exposed = False\<rparr>]"

definition slot_for_handle :: "u32 \<Rightarrow> slot_entry option" where
  "slot_for_handle h = find (\<lambda>s. sl_handle s = h) SUMO_CORE_SLOTS"

definition slot_for_key_id :: "string \<Rightarrow> slot_entry option" where
  "slot_for_key_id k = find (\<lambda>s. sl_key_id s = k) SUMO_CORE_SLOTS"

definition handle_for_key_id :: "string \<Rightarrow> u32 option" where
  "handle_for_key_id k = map_option sl_handle (slot_for_key_id k)"

section \<open>Frames\<close>

definition VHSM_MAGIC :: bytes where "VHSM_MAGIC = [0x56, 0x48, 0x53]"
definition VHSM_VERSION :: u8 where "VHSM_VERSION = 3"
definition REQUEST_HEADER_SIZE :: nat where "REQUEST_HEADER_SIZE = 16"
definition RESPONSE_HEADER_SIZE :: nat where "RESPONSE_HEADER_SIZE = 20"
definition MAX_PAYLOAD :: nat where "MAX_PAYLOAD = 65536"
definition MAX_RANDOM :: nat where "MAX_RANDOM = 1024"
definition MAX_HANDLES :: nat where "MAX_HANDLES = 64"
definition LABEL_LEN :: nat where "LABEL_LEN = 32"

lemmas vhsm_consts = VHSM_MAGIC_def VHSM_VERSION_def REQUEST_HEADER_SIZE_def RESPONSE_HEADER_SIZE_def
  MAX_PAYLOAD_def MAX_RANDOM_def MAX_HANDLES_def LABEL_LEN_def

record request =
  rq_op :: u32
  rq_session_id :: u32
  rq_payload :: bytes

record response =
  rs_op :: u32
  rs_session_id :: u32
  rs_status :: u32
  rs_payload :: bytes

definition response_ok :: "u32 \<Rightarrow> u32 \<Rightarrow> bytes \<Rightarrow> response" where
  "response_ok p sid payload = \<lparr>rs_op = p, rs_session_id = sid, rs_status = status_u32 StOk, rs_payload = payload\<rparr>"

definition response_err :: "u32 \<Rightarrow> u32 \<Rightarrow> status_code \<Rightarrow> response" where
  "response_err p sid st = \<lparr>rs_op = p, rs_session_id = sid, rs_status = status_u32 st, rs_payload = []\<rparr>"

datatype io_error = BadMagic | UnsupportedVersion u8 | PayloadTooLarge | UnexpectedEof | OtherIo string

datatype read_event = Chunk bytes | Interrupted | ReadFails string

text \<open>One call of \<^verbatim>\<open>read\<close> with a buffer of \<open>n\<close> bytes: \<open>None\<close> is an interrupted call.\<close>

fun read_call :: "nat \<Rightarrow> read_event list \<Rightarrow> read_event list \<times> (io_error + bytes) option" where
  "read_call n [] = ([], Some (Ok []))"
| "read_call n (Chunk bs # evs) =
     ((if n < length bs then Chunk (drop n bs) # evs else evs), Some (Ok (take n bs)))"
| "read_call n (Interrupted # evs) = (evs, None)"
| "read_call n (ReadFails m # evs) = (evs, Some (Err (OtherIo m)))"

fun ev_size :: "read_event \<Rightarrow> nat" where
  "ev_size (Chunk bs) = Suc (length bs)"
| "ev_size Interrupted = 1"
| "ev_size (ReadFails m) = 1"

lemma read_call_size:
  "0 < n \<Longrightarrow> (evs', r) = read_call n evs \<Longrightarrow> r \<noteq> Some (Ok []) \<Longrightarrow> sum_list (map ev_size evs') < sum_list (map ev_size evs)"
  by (cases "(n, evs)" rule: read_call.cases) (auto split: if_splits)

text \<open>\<^verbatim>\<open>read_exact\<close>: \<open>acc\<close> holds the bytes read so far, \<open>n\<close> is the length of the buffer.\<close>

function (sequential) read_exact ::
    "nat \<Rightarrow> bytes \<Rightarrow> read_event list \<Rightarrow> read_event list \<times> (io_error + bytes)" where
  "read_exact n acc evs =
     (if length acc < n then
        (case read_call (n - length acc) evs of
           (evs', Some (Ok bs)) \<Rightarrow> if bs = [] then (evs', Err UnexpectedEof) else read_exact n (acc @ bs) evs'
         | (evs', None) \<Rightarrow> read_exact n acc evs'
         | (evs', Some (Err e)) \<Rightarrow> (evs', Err e))
      else (evs, Ok acc))"
  by pat_completeness auto

termination
proof (relation "measure (\<lambda>(n, acc, evs). sum_list (map ev_size evs))", goal_cases)
  case (2 n acc evs)
  then show ?case using read_call_size [where n = "n - length acc" and evs = evs] by auto
next
  case (3 n acc evs)
  then show ?case using read_call_size [where n = "n - length acc" and evs = evs] by auto
qed simp

declare read_exact.simps [simp del]

definition decode_header :: "bytes \<Rightarrow> (io_error + (u32 \<times> u32 \<times> nat))" where
  "decode_header hdr =
     (if get_bytes 3 hdr 0 \<noteq> VHSM_MAGIC then Err BadMagic
      else if get_u8 hdr 3 \<noteq> VHSM_VERSION then Err (UnsupportedVersion (get_u8 hdr 3))
      else if unat (get_u32_le hdr 12) > MAX_PAYLOAD then Err PayloadTooLarge
      else Ok (get_u32_le hdr 4, get_u32_le hdr 8, unat (get_u32_le hdr 12)))"

definition read_payload :: "nat \<Rightarrow> read_event list \<Rightarrow> read_event list \<times> (io_error + bytes)" where
  "read_payload n evs = (if n > 0 then read_exact n [] evs else (evs, Ok []))"

definition read_request :: "read_event list \<Rightarrow> read_event list \<times> (io_error + request)" where
  "read_request evs =
     (case read_exact REQUEST_HEADER_SIZE [] evs of
        (evs1, Err e) \<Rightarrow> (evs1, Err e)
      | (evs1, Ok hdr) \<Rightarrow>
          (case decode_header hdr of
             Err e \<Rightarrow> (evs1, Err e)
           | Ok (p, sid, n) \<Rightarrow>
               (case read_payload n evs1 of
                  (evs2, Err e) \<Rightarrow> (evs2, Err e)
                | (evs2, Ok payload) \<Rightarrow> (evs2, Ok \<lparr>rq_op = p, rq_session_id = sid, rq_payload = payload\<rparr>))))"

definition read_response :: "read_event list \<Rightarrow> read_event list \<times> (io_error + response)" where
  "read_response evs =
     (case read_exact RESPONSE_HEADER_SIZE [] evs of
        (evs1, Err e) \<Rightarrow> (evs1, Err e)
      | (evs1, Ok hdr) \<Rightarrow>
          (case decode_header hdr of
             Err e \<Rightarrow> (evs1, Err e)
           | Ok (p, sid, n) \<Rightarrow>
               (case read_payload n evs1 of
                  (evs2, Err e) \<Rightarrow> (evs2, Err e)
                | (evs2, Ok payload) \<Rightarrow>
                    (evs2, Ok \<lparr>rs_op = p, rs_session_id = sid, rs_status = get_u32_le hdr 16, rs_payload = payload\<rparr>))))"

text \<open>What the writers put on the wire.\<close>

definition write_request :: "request \<Rightarrow> bytes" where
  "write_request req =
     VHSM_MAGIC @ [VHSM_VERSION] @ le_bytes (rq_op req) @ le_bytes (rq_session_id req)
     @ le_bytes (of_nat (length (rq_payload req)) :: u32) @ rq_payload req"

definition write_response :: "response \<Rightarrow> bytes" where
  "write_response resp =
     VHSM_MAGIC @ [VHSM_VERSION] @ le_bytes (rs_op resp) @ le_bytes (rs_session_id resp)
     @ le_bytes (of_nat (length (rs_payload resp)) :: u32) @ le_bytes (rs_status resp) @ rs_payload resp"

section \<open>The codes are bijective on their ranges\<close>

lemma op_codes [simp]: "op_from_u32 (op_u32 p) = Some p" "op_from_u32 v = Some p \<Longrightarrow> op_u32 p = v"
  by (cases p; simp add: op_u32_def op_from_u32_def)
     (auto simp: op_u32_def op_from_u32_def split: if_splits)

lemma status_codes [simp]: "status_from_u32 (status_u32 s) = Some s"
  by (cases s; simp add: status_u32_def status_from_u32_def)

lemma auth_fail_codes [simp]: "auth_fail_from_u16 (auth_fail_u16 r) = Some r"
  by (cases r; simp add: auth_fail_u16_def auth_fail_from_u16_def)

lemma status_u32_inject [simp]: "status_u32 s = status_u32 t \<longleftrightarrow> s = t"
  by (metis option.inject status_codes)

section \<open>Reading from a peer\<close>

text \<open>The bytes a peer sends, when it neither fails nor sends an empty chunk.\<close>

fun sends :: "read_event list \<Rightarrow> bytes option" where
  "sends [] = Some []"
| "sends (Chunk bs # evs) = (if bs = [] then None else map_option (\<lambda>r. bs @ r) (sends evs))"
| "sends (Interrupted # evs) = sends evs"
| "sends (ReadFails m # evs) = None"

lemma read_call_sends:
  assumes "0 < n" "sends evs = Some bs" "read_call n evs = (evs', r)"
  shows "(r = None \<and> sends evs' = Some bs)
    \<or> (\<exists>got rest. r = Some (Ok got) \<and> bs = got @ rest \<and> sends evs' = Some rest \<and> length got \<le> n \<and> (got = [] \<longrightarrow> bs = []))"
proof (cases "(n, evs)" rule: read_call.cases)
  case (2 m ch es)
  then obtain r' where r': "sends es = Some r'" "bs = ch @ r'" "ch \<noteq> []"
    using assms(2) by (auto split: if_splits)
  show ?thesis
  proof (cases "m < length ch")
    case True
    then have "evs' = Chunk (drop m ch) # es" "r = Some (Ok (take m ch))" "drop m ch \<noteq> []"
      using 2 assms(3) by auto
    then show ?thesis
      using r' 2 assms(1) by (intro disjI2 exI [of _ "take m ch"] exI [of _ "drop m ch @ r'"]) auto
  qed (use 2 r' assms in auto)
qed (use assms in auto)

text \<open>Whatever the fragmentation, \<^verbatim>\<open>read_exact\<close> returns the next \<open>n\<close> bytes, or end of file when there are fewer.\<close>

lemma read_exact_sends:
  assumes "sends evs = Some bs" "length acc \<le> n"
  shows "n \<le> length acc + length bs \<Longrightarrow> \<exists>evs'. read_exact n acc evs = (evs', Ok (acc @ take (n - length acc) bs))
      \<and> sends evs' = Some (drop (n - length acc) bs)"
    and "length acc + length bs < n \<Longrightarrow> snd (read_exact n acc evs) = Err UnexpectedEof"
proof -
  have "(n \<le> length acc + length bs \<longrightarrow> (\<exists>evs'. read_exact n acc evs = (evs', Ok (acc @ take (n - length acc) bs))
      \<and> sends evs' = Some (drop (n - length acc) bs)))
    \<and> (length acc + length bs < n \<longrightarrow> snd (read_exact n acc evs) = Err UnexpectedEof)"
    using assms
  proof (induction n acc evs arbitrary: bs rule: read_exact.induct)
    case (1 n acc evs)
    show ?case
    proof (cases "length acc < n")
      case False
      then show ?thesis using "1.prems" by (simp add: read_exact.simps [of n acc evs])
    next
      case True
      obtain evs' r where c: "read_call (n - length acc) evs = (evs', r)" by fastforce
      consider (again) "r = None" "sends evs' = Some bs"
        | (got) got rest where "r = Some (Ok got)" "bs = got @ rest" "sends evs' = Some rest"
            "length got \<le> n - length acc" "got = [] \<longrightarrow> bs = []"
        using read_call_sends [OF _ "1.prems"(1) c] True by auto
      then show ?thesis
      proof cases
        case again
        then show ?thesis
          using "1.IH"(1) [OF True c [symmetric] again(1) again(2)] c True "1.prems"
          by (simp add: read_exact.simps [of n acc evs])
      next
        case got
        show ?thesis
        proof (cases "got = []")
          case True
          then show ?thesis using got c \<open>length acc < n\<close> by (simp add: read_exact.simps [of n acc evs])
        next
          case False
          have "length (acc @ got) \<le> n" using got(4) True by simp
          then show ?thesis
            using "1.IH"(2) [OF True c [symmetric] got(1) refl False got(3)] got c True False "1.prems"
            by (simp add: read_exact.simps [of n acc evs] ac_simps)
        qed
      qed
    qed
  qed
  then show "n \<le> length acc + length bs \<Longrightarrow> \<exists>evs'. read_exact n acc evs = (evs', Ok (acc @ take (n - length acc) bs))
      \<and> sends evs' = Some (drop (n - length acc) bs)"
    "length acc + length bs < n \<Longrightarrow> snd (read_exact n acc evs) = Err UnexpectedEof" by simp_all
qed

definition frame_header :: "u32 \<Rightarrow> u32 \<Rightarrow> u32 \<Rightarrow> bytes" where
  "frame_header p sid n = VHSM_MAGIC @ [VHSM_VERSION] @ le_bytes p @ le_bytes sid @ le_bytes n"

lemma frame_header_fields:
  "length (frame_header p sid n) = 16" "get_bytes 3 (frame_header p sid n @ xs) 0 = VHSM_MAGIC"
  "get_u8 (frame_header p sid n @ xs) 3 = VHSM_VERSION" "get_u32_le (frame_header p sid n @ xs) 4 = p"
  "get_u32_le (frame_header p sid n @ xs) 8 = sid" "get_u32_le (frame_header p sid n @ xs) 12 = n"
  by (simp_all add: frame_header_def VHSM_MAGIC_def get_word_defs get_bytes_def get_u8_def)

lemma decode_frame_header:
  "decode_header (frame_header p sid n @ xs) =
     (if unat n > MAX_PAYLOAD then Err PayloadTooLarge else Ok (p, sid, unat n))"
  by (simp add: decode_header_def frame_header_fields)

lemma write_request_eq:
  "write_request req = frame_header (rq_op req) (rq_session_id req) (of_nat (length (rq_payload req))) @ rq_payload req"
  by (simp add: write_request_def frame_header_def)

lemma write_response_eq:
  "write_response resp = (frame_header (rs_op resp) (rs_session_id resp) (of_nat (length (rs_payload resp)))
     @ le_bytes (rs_status resp)) @ rs_payload resp"
  by (simp add: write_response_def frame_header_def)

lemma payload_len: "length xs \<le> MAX_PAYLOAD \<Longrightarrow> unat (of_nat (length xs) :: u32) = length xs"
  by (simp add: unat_of_nat MAX_PAYLOAD_def)

lemma read_payload_sends:
  assumes "sends evs = Some (xs @ rest)" "n = length xs"
  shows "\<exists>evs'. read_payload n evs = (evs', Ok xs) \<and> sends evs' = Some rest"
  using read_exact_sends(1) [OF assms(1), of "[]" n] assms by (auto simp: read_payload_def)

lemma read_header:
  assumes "sends evs = Some (frame_header p sid n @ xs)"
  shows "\<exists>evs1. read_exact REQUEST_HEADER_SIZE [] evs = (evs1, Ok (frame_header p sid n)) \<and> sends evs1 = Some xs"
  using read_exact_sends(1) [OF assms, of "[]" REQUEST_HEADER_SIZE] by (auto simp: REQUEST_HEADER_SIZE_def frame_header_fields)

lemma request_framed:
  assumes a: "sends evs = Some (write_request req @ rest)" "length (rq_payload req) \<le> MAX_PAYLOAD"
  shows "\<exists>evs'. read_request evs = (evs', Ok req) \<and> sends evs' = Some rest"
proof -
  let ?h = "frame_header (rq_op req) (rq_session_id req) (of_nat (length (rq_payload req)))"
  obtain evs1 where 1: "read_exact REQUEST_HEADER_SIZE [] evs = (evs1, Ok ?h)" "sends evs1 = Some (rq_payload req @ rest)"
    using read_header [of evs] a(1) unfolding write_request_eq append_assoc by blast
  obtain evs2 where "read_payload (length (rq_payload req)) evs1 = (evs2, Ok (rq_payload req))" "sends evs2 = Some rest"
    using read_payload_sends [OF 1(2) refl] by blast
  then show ?thesis
    using 1 decode_frame_header [of _ _ _ "[]"] payload_len [OF a(2)] a(2) by (simp add: read_request_def)
qed

lemma response_framed:
  assumes a: "sends evs = Some (write_response resp @ rest)" "length (rs_payload resp) \<le> MAX_PAYLOAD"
  shows "\<exists>evs'. read_response evs = (evs', Ok resp) \<and> sends evs' = Some rest"
proof -
  let ?h' = "frame_header (rs_op resp) (rs_session_id resp) (of_nat (length (rs_payload resp))) @ le_bytes (rs_status resp)"
  obtain evs1 where 1: "read_exact RESPONSE_HEADER_SIZE [] evs = (evs1, Ok ?h')" "sends evs1 = Some (rs_payload resp @ rest)"
    using read_exact_sends(1) [OF a(1), of "[]" RESPONSE_HEADER_SIZE]
    by (auto simp: RESPONSE_HEADER_SIZE_def frame_header_fields write_response_eq)
  obtain evs2 where "read_payload (length (rs_payload resp)) evs1 = (evs2, Ok (rs_payload resp))" "sends evs2 = Some rest"
    using read_payload_sends [OF 1(2) refl] by blast
  moreover have "get_u32_le ?h' 16 = rs_status resp"
    by (simp add: get_word_defs get_bytes_def frame_header_fields)
  ultimately show ?thesis
    using 1 payload_len [OF a(2)] a(2) by (simp add: read_response_def decode_frame_header)
qed

lemma request_truncated:
  assumes a: "sends evs = Some part" "part @ missing = write_request req" "missing \<noteq> []" "length (rq_payload req) \<le> MAX_PAYLOAD"
  shows "snd (read_request evs) = Err UnexpectedEof"
proof (cases "length part < 16")
  case True
  then have "snd (read_exact REQUEST_HEADER_SIZE [] evs) = Err UnexpectedEof"
    using read_exact_sends(2) [OF a(1), of "[]" REQUEST_HEADER_SIZE] by (simp add: REQUEST_HEADER_SIZE_def)
  then show ?thesis by (auto simp: read_request_def split: prod.splits)
next
  case False
  let ?h = "frame_header (rq_op req) (rq_session_id req) (of_nat (length (rq_payload req)))"
  define q where "q = drop 16 part"
  have "take 16 (part @ missing) = ?h" "drop 16 (part @ missing) = rq_payload req"
    unfolding a(2) write_request_eq by (simp_all add: frame_header_fields)
  then have part: "part = ?h @ q" "rq_payload req = q @ missing"
    using False append_take_drop_id [of 16 part] by (simp_all add: q_def)
  obtain evs1 where 1: "read_exact REQUEST_HEADER_SIZE [] evs = (evs1, Ok ?h)" "sends evs1 = Some q"
    using read_header [of evs] a(1) part(1) by blast
  have "snd (read_payload (length (rq_payload req)) evs1) = Err UnexpectedEof"
    using read_exact_sends(2) [OF 1(2), of "[]" "length (rq_payload req)"] part(2) a(3) by (simp add: read_payload_def)
  then show ?thesis
    using 1 decode_frame_header [of _ _ _ "[]"] payload_len [OF a(4)] a(4) by (auto simp: read_request_def split: prod.splits)
qed

lemma request_too_large:
  assumes a: "sends evs = Some (write_request req @ rest)" "length (rq_payload req) > MAX_PAYLOAD" "length (rq_payload req) < 2 ^ 32"
  shows "snd (read_request evs) = Err PayloadTooLarge"
proof -
  let ?h = "frame_header (rq_op req) (rq_session_id req) (of_nat (length (rq_payload req)))"
  obtain evs1 where 1: "read_exact REQUEST_HEADER_SIZE [] evs = (evs1, Ok ?h)"
    using read_header [of evs] a(1) unfolding write_request_eq append_assoc by blast
  have "unat (of_nat (length (rq_payload req)) :: u32) = length (rq_payload req)" using a(3) by (simp add: unat_of_nat)
  then show ?thesis using 1 decode_frame_header [of _ _ _ "[]"] a(2) by (simp add: read_request_def)
qed

text \<open>C36: Framing survives any fragmentation. Let a peer send, in chunks of any size and with any number of
  interrupted reads in between, the encoding of a request (or response) of at most \<open>MAX_PAYLOAD\<close> bytes
  followed by anything. Then reading returns exactly that request (response) and leaves exactly the
  bytes that follow it, so a sequence of frames is read back one by one. If the peer closes before
  the frame is complete, reading fails with end of file, and a longer payload is refused.\<close>

theorem frame_roundtrip:
  "(sends evs = Some (write_request req @ rest) \<and> length (rq_payload req) \<le> MAX_PAYLOAD
      \<longrightarrow> (\<exists>evs'. read_request evs = (evs', Ok req) \<and> sends evs' = Some rest))
    \<and> (sends evs = Some (write_response resp @ rest) \<and> length (rs_payload resp) \<le> MAX_PAYLOAD
      \<longrightarrow> (\<exists>evs'. read_response evs = (evs', Ok resp) \<and> sends evs' = Some rest))
    \<and> (sends evs = Some part \<and> part @ missing = write_request req \<and> missing \<noteq> [] \<and> length (rq_payload req) \<le> MAX_PAYLOAD
      \<longrightarrow> snd (read_request evs) = Err UnexpectedEof)
    \<and> (sends evs = Some (write_request req @ rest) \<and> MAX_PAYLOAD < length (rq_payload req) \<and> length (rq_payload req) < 2 ^ 32
      \<longrightarrow> snd (read_request evs) = Err PayloadTooLarge)"
  using request_framed response_framed request_truncated request_too_large by blast

theorem frame_roundtrip_witness:
  "\<exists>evs'. read_request [Chunk (take 5 (write_request \<lparr>rq_op = 0x40, rq_session_id = 9, rq_payload = [1, 2, 3]\<rparr>)), Interrupted,
      Chunk (drop 5 (write_request \<lparr>rq_op = 0x40, rq_session_id = 9, rq_payload = [1, 2, 3]\<rparr>) @ [7])] =
    (evs', Ok \<lparr>rq_op = 0x40, rq_session_id = 9, rq_payload = [1, 2, 3]\<rparr>) \<and> sends evs' = Some [7]"
proof -
  let ?w = "write_request \<lparr>rq_op = 0x40, rq_session_id = 9, rq_payload = [1, 2, 3]\<rparr>"
  have len: "length ?w = 19" by (simp add: write_request_def VHSM_MAGIC_def)
  have "sends [Chunk (take 5 ?w), Interrupted, Chunk (drop 5 ?w @ [7])] = Some (?w @ [7])"
    using len by (auto simp flip: append_assoc)
  then show ?thesis
    using frame_roundtrip [of "[Chunk (take 5 ?w), Interrupted, Chunk (drop 5 ?w @ [7])]"
        "\<lparr>rq_op = 0x40, rq_session_id = 9, rq_payload = [1, 2, 3]\<rparr>" "[7]"] by (auto simp: MAX_PAYLOAD_def)
qed

section \<open>The slot registry\<close>

lemma slots_wf:
  "distinct (map sl_handle SUMO_CORE_SLOTS)" "distinct (map sl_key_id SUMO_CORE_SLOTS)"
  "list_all (\<lambda>s. handle_is_sumo_core (sl_handle s) \<and> (sl_guest_exposed s \<longleftrightarrow> sl_default_perms s \<noteq> 0)) SUMO_CORE_SLOTS"
  by (simp_all add: SUMO_CORE_SLOTS_def handle_defs handle_is_sumo_core_def perm_defs)

lemma find_distinct:
  "distinct (map f xs) \<Longrightarrow> x \<in> set xs \<Longrightarrow> find (\<lambda>y. f y = f x) xs = Some x"
  by (induction xs) (auto simp: image_iff)

text \<open>Handle and key identifier name the same slot, both ways.\<close>

lemma slot_lookup:
  assumes "s \<in> set SUMO_CORE_SLOTS"
  shows "slot_for_handle (sl_handle s) = Some s" "slot_for_key_id (sl_key_id s) = Some s"
    "handle_for_key_id (sl_key_id s) = Some (sl_handle s)"
  using find_distinct [OF slots_wf(1) assms] find_distinct [OF slots_wf(2) assms]
  by (simp_all add: slot_for_handle_def slot_for_key_id_def handle_for_key_id_def)

end
