(* ===== verification/HandleTable.thy ===== *)
theory HandleTable
  imports VhsmProto "HOL-Library.Multiset"
begin

text \<open>
  The handle table of the vHSM daemon, \<^verbatim>\<open>crates/vhsm-server/src/handle_table.rs\<close>: well-known handles
  shared by all guests and dynamic handles owned by the guest that created them. The counter of
  dynamic handles is a \<^verbatim>\<open>u32\<close> that wraps.
\<close>

section \<open>Model\<close>

record handle_entry =
  he_handle :: u32
  he_key_id :: string
  he_algorithm :: u32
  he_permitted_ops :: u32
  he_owner_vm_id :: string
  he_persistent :: bool
  he_label :: bytes

record handle_table =
  ht_entries :: "handle_entry list"
  ht_next_dynamic :: u32

definition ht_new :: handle_table where
  "ht_new = \<lparr>ht_entries = [], ht_next_dynamic = HANDLE_DYNAMIC_BASE\<rparr>"

definition register_well_known :: "handle_table \<Rightarrow> u32 \<Rightarrow> string \<Rightarrow> u32 \<Rightarrow> u32 \<Rightarrow> handle_table \<times> bool" where
  "register_well_known t handle key_id algorithm permitted_ops =
     (if \<not> handle_is_well_known handle \<or> handle = HANDLE_INVALID then (t, False)
      else if list_ex (\<lambda>e. he_handle e = handle) (ht_entries t) then (t, False)
      else
        let bytes = str_bytes key_id; copy_len = min (length bytes) (LABEL_LEN - 1);
            label = take copy_len bytes @ replicate (LABEL_LEN - copy_len) 0
        in (t\<lparr>ht_entries := ht_entries t @
              [\<lparr>he_handle = handle, he_key_id = key_id, he_algorithm = algorithm, he_permitted_ops = permitted_ops,
                he_owner_vm_id = [], he_persistent = True, he_label = label\<rparr>]\<rparr>, True))"

definition ht_allocate ::
    "handle_table \<Rightarrow> string \<Rightarrow> u32 \<Rightarrow> u32 \<Rightarrow> string \<Rightarrow> bool \<Rightarrow> bytes \<Rightarrow> handle_table \<times> u32 option" where
  "ht_allocate t key_id algorithm permitted_ops owner_vm_id persistent label =
     (if length (ht_entries t) \<ge> MAX_HANDLES then (t, None)
      else
        let handle = ht_next_dynamic t
        in (\<lparr>ht_entries = ht_entries t @
               [\<lparr>he_handle = handle, he_key_id = key_id, he_algorithm = algorithm, he_permitted_ops = permitted_ops,
                 he_owner_vm_id = owner_vm_id, he_persistent = persistent, he_label = label\<rparr>],
             ht_next_dynamic = handle + 1\<rparr>, Some handle))"

definition ht_get :: "handle_table \<Rightarrow> u32 \<Rightarrow> handle_entry option" where
  "ht_get t handle = find (\<lambda>e. he_handle e = handle) (ht_entries t)"

definition ht_resolve :: "handle_table \<Rightarrow> u32 \<Rightarrow> string \<Rightarrow> handle_entry option" where
  "ht_resolve t handle caller_vm_id =
     (case ht_get t handle of
        None \<Rightarrow> None
      | Some entry \<Rightarrow> if he_owner_vm_id entry = [] \<or> he_owner_vm_id entry = caller_vm_id then Some entry else None)"

text \<open>\<^verbatim>\<open>Vec::swap_remove\<close>: the last element takes the place of the removed one.\<close>

definition swap_remove :: "'a list \<Rightarrow> nat \<Rightarrow> 'a list" where
  "swap_remove xs i = butlast (xs[i := last xs])"

fun position :: "('a \<Rightarrow> bool) \<Rightarrow> 'a list \<Rightarrow> nat option" where
  "position P [] = None"
| "position P (x # xs) = (if P x then Some 0 else map_option Suc (position P xs))"

definition ht_remove :: "handle_table \<Rightarrow> u32 \<Rightarrow> handle_table \<times> bool" where
  "ht_remove t handle =
     (case position (\<lambda>e. he_handle e = handle) (ht_entries t) of
        Some pos \<Rightarrow> (t\<lparr>ht_entries := swap_remove (ht_entries t) pos\<rparr>, True)
      | None \<Rightarrow> (t, False))"

definition remove_by_vm_id :: "handle_table \<Rightarrow> string \<Rightarrow> handle_table" where
  "remove_by_vm_id t vm_id =
     t\<lparr>ht_entries := filter (\<lambda>e. he_owner_vm_id e = [] \<or> he_owner_vm_id e \<noteq> vm_id \<or> he_persistent e) (ht_entries t)\<rparr>"

definition ht_len :: "handle_table \<Rightarrow> nat" where
  "ht_len t = length (ht_entries t)"

definition ht_is_empty :: "handle_table \<Rightarrow> bool" where
  "ht_is_empty t \<longleftrightarrow> ht_entries t = []"

definition ht_last :: "handle_table \<Rightarrow> handle_entry option" where
  "ht_last t = (if ht_entries t = [] then None else Some (last (ht_entries t)))"

section \<open>Invariant\<close>

text \<open>
  Handles are distinct; a well-known entry is shared, a dynamic one is below the counter; labels
  have their fixed length.
\<close>

definition entry_ok :: "u32 \<Rightarrow> handle_entry \<Rightarrow> bool" where
  "entry_ok nx e \<longleftrightarrow> length (he_label e) = LABEL_LEN \<and> he_handle e \<noteq> HANDLE_INVALID
     \<and> (if handle_is_well_known (he_handle e) then he_owner_vm_id e = [] \<and> he_persistent e
        else HANDLE_DYNAMIC_BASE \<le> he_handle e \<and> he_handle e < nx)"

definition table_ok :: "handle_table \<Rightarrow> bool" where
  "table_ok t \<longleftrightarrow> distinct (map he_handle (ht_entries t)) \<and> (\<forall>e \<in> set (ht_entries t). entry_ok (ht_next_dynamic t) e)
     \<and> HANDLE_DYNAMIC_BASE \<le> ht_next_dynamic t"

lemma entry_ok_mono: "entry_ok nx e \<Longrightarrow> nx \<le> nx' \<Longrightarrow> entry_ok nx' e"
  by (auto simp: entry_ok_def split: if_splits)

lemma table_ok_new: "table_ok ht_new"
  by (simp add: table_ok_def ht_new_def)

lemma ht_get_Some: "table_ok t \<Longrightarrow> ht_get t h = Some e \<longleftrightarrow> e \<in> set (ht_entries t) \<and> he_handle e = h"
  unfolding ht_get_def table_ok_def using find_distinct [of he_handle "ht_entries t" e]
  by (auto simp: find_Some_iff)

lemma table_ok_register:
  assumes "table_ok t"
  shows "table_ok (fst (register_well_known t h k a p))"
  using assms
  by (auto simp: register_well_known_def table_ok_def Let_def list_ex_iff entry_ok_def LABEL_LEN_def handle_is_well_known_def)

lemma table_ok_allocate:
  assumes "table_ok t" "ht_next_dynamic t \<noteq> -1" "length label = LABEL_LEN"
  shows "table_ok (fst (ht_allocate t k a p own per label))"
proof (cases "length (ht_entries t) \<ge> MAX_HANDLES")
  case False
  let ?n = "ht_next_dynamic t"
  have up: "?n < ?n + 1" using assms(2) by (rule word_less_succ)
  have nw: "\<not> handle_is_well_known ?n" "?n \<noteq> HANDLE_INVALID"
    using assms(1) by (auto simp: table_ok_def handle_is_well_known_def HANDLE_INVALID_def HANDLE_DYNAMIC_BASE_def)
  have fresh: "\<forall>e \<in> set (ht_entries t). he_handle e \<noteq> ?n"
    using assms(1) nw by (auto simp: table_ok_def entry_ok_def split: if_splits)
  have old: "entry_ok (?n + 1) e" if "e \<in> set (ht_entries t)" for e
    using assms(1) that up by (auto simp: table_ok_def intro: entry_ok_mono)
  show ?thesis
    using assms(1,3) False fresh old nw up
    by (auto simp: ht_allocate_def Let_def table_ok_def) (auto simp: entry_ok_def)
qed (simp add: ht_allocate_def assms)

lemma distinct_sub: "mset xs \<subseteq># mset ys \<Longrightarrow> distinct ys \<Longrightarrow> distinct xs"
proof -
  assume sub: "mset xs \<subseteq># mset ys" and d: "distinct ys"
  have "count (mset xs) a \<le> 1" for a
    using mset_subset_eq_count [OF sub, of a] d by (metis distinct_count_atmost_1 le_trans le_refl zero_le_one)
  moreover have "a \<in> set xs \<Longrightarrow> 0 < count (mset xs) a" for a by simp
  ultimately show "distinct xs"
    unfolding distinct_count_atmost_1 by (metis count_mset_0_iff le_antisym less_one linorder_not_less)
qed

lemma table_ok_subset:
  "table_ok t \<Longrightarrow> mset xs \<subseteq># mset (ht_entries t) \<Longrightarrow> table_ok (t\<lparr>ht_entries := xs\<rparr>)"
proof -
  assume t: "table_ok t" and sub: "mset xs \<subseteq># mset (ht_entries t)"
  have "mset (map he_handle xs) \<subseteq># mset (map he_handle (ht_entries t))"
    using image_mset_subseteq_mono [OF sub, of he_handle] by simp
  then have "distinct (map he_handle xs)"
    using t unfolding table_ok_def by (metis (no_types, opaque_lifting) distinct_sub)
  then show "table_ok (t\<lparr>ht_entries := xs\<rparr>)"
    using t set_mset_mono [OF sub] by (auto simp: table_ok_def)
qed

lemma position_Some: "position P xs = Some i \<Longrightarrow> i < length xs \<and> P (xs ! i)"
  by (induction xs arbitrary: i) (auto split: if_splits)

lemma swap_remove_mset:
  assumes "i < length xs"
  shows "mset (swap_remove xs i) = mset xs - {#xs ! i#}"
proof -
  have ne: "xs \<noteq> []" using assms by auto
  show ?thesis
  proof (cases "i = length xs - 1")
    case True
    then have "xs[i := last xs] = xs" using ne by (simp add: last_conv_nth list_update_id)
    then show ?thesis
      using True ne append_butlast_last_id [OF ne] by (metis add_mset_remove_trivial last_conv_nth mset_append mset_single_iff
          swap_remove_def union_mset_add_mset_right add.right_neutral mset.simps(1) mset.simps(2))
  next
    case False
    then have i: "i < length (butlast xs)" using assms by simp
    have "xs[i := last xs] = (butlast xs)[i := last xs] @ [last xs]"
      using append_butlast_last_id [OF ne] i by (metis list_update_append1)
    then have "swap_remove xs i = (butlast xs)[i := last xs]" by (simp add: swap_remove_def)
    moreover have "mset xs = add_mset (last xs) (mset (butlast xs))"
      using append_butlast_last_id [OF ne] by (metis add_mset_add_single mset.simps(1) mset.simps(2) mset_append union_code)
    moreover have "xs ! i \<in># mset (butlast xs)" using i by (metis nth_butlast nth_mem_mset)
    ultimately show ?thesis
      using i by (simp add: mset_update nth_butlast)
  qed
qed

end
