(* ===== verification/PolicyEval.thy ===== *)
theory PolicyEval
  imports Prelude "HOL-Library.Sublist"
begin

text \<open>
  The shared policy schema and evaluator, \<^verbatim>\<open>crates/policy-eval/src/lib.rs\<close>. The YAML library is a
  parameter: \<open>from_str\<close> decodes a text into the raw file, and a YAML value is an element of a type
  \<open>'y\<close> with the operations of \<open>yaml_ops\<close> that the code calls. Error texts are modelled, because the
  IAM adapter parses them again; \<open>debug_str\<close> is the Debug format of a string of ASCII characters
  (a byte above 127 is kept as it is).
\<close>

section \<open>Texts\<close>

function dec :: "nat \<Rightarrow> string" where
  "dec n = (if n < 10 then [char_of (48 + n)] else dec (n div 10) @ [char_of (48 + n mod 10)])"
  by pat_completeness auto
termination by (relation "measure id") auto

function hex :: "nat \<Rightarrow> string" where
  "hex n = (let d = (\<lambda>k. char_of (if k < 10 then 48 + k else 87 + k))
            in if n < 16 then [d n] else hex (n div 16) @ [d (n mod 16)])"
  by pat_completeness auto
termination by (relation "measure id") auto

declare dec.simps [simp del] hex.simps [simp del]

definition debug_char :: "char \<Rightarrow> string" where
  "debug_char c =
     (let n = of_char c :: nat
      in if n = 34 then [CHR 0x5C, CHR 0x22] else if n = 92 then [CHR 0x5C, CHR 0x5C]
         else if n = 0 then [CHR 0x5C, CHR ''0''] else if n = 9 then [CHR 0x5C, CHR ''t'']
         else if n = 10 then [CHR 0x5C, CHR ''n''] else if n = 13 then [CHR 0x5C, CHR ''r'']
         else if n < 32 \<or> n = 127 then [CHR 0x5C, CHR ''u'', CHR ''{''] @ hex n @ [CHR ''}'']
         else [c])"

definition escape :: "string \<Rightarrow> string" where
  "escape s = concat (map debug_char s)"

definition debug_str :: "string \<Rightarrow> string" where
  "debug_str s = [CHR 0x22] @ escape s @ [CHR 0x22]"

section \<open>Principals and selectors\<close>

datatype principal =
    Vm string "bytes option"
  | Container string string string "string option"
  | Tester string string "string option" "string list"
  | Device string
  | Anonymous

definition display_id :: "principal \<Rightarrow> string" where
  "display_id p = (case p of
       Vm vm_id _ \<Rightarrow> ''vm:'' @ vm_id
     | Container vm_id namespace container _ \<Rightarrow> ''vm:'' @ vm_id @ ''/ns:'' @ namespace @ ''/container:'' @ container
     | Tester idp sub _ _ \<Rightarrow> ''tester:'' @ idp @ ''/'' @ sub
     | Device serial \<Rightarrow> ''device:'' @ serial
     | Anonymous \<Rightarrow> ''anonymous'')"

record tester_selector =
  ts_idp :: "string option"
  ts_sub :: "string option"
  ts_role :: "string option"

record typed_principal_selector =
  tp_vm :: "string option"
  tp_namespace :: "string option"
  tp_container :: "string option"
  tp_image_digest :: "string option"
  tp_tester :: "tester_selector option"
  tp_device :: "string option"

datatype raw_principal_selector = Bare string | Typed typed_principal_selector

datatype namespace_pattern = NsAny | NsPrefix string | NsExact string

datatype principal_selector =
    SelAny
  | SelVm string
  | SelContainer string "namespace_pattern option" "string option" "string option"
  | SelTester "string option" "string option" "string option"
  | SelDevice string
  | SelAnonymous

datatype load_error =
    PolIo string
  | PolParse string
  | PolUnknownVersion u32
  | PolEmptyPrincipals nat
  | PolEmptyResources nat
  | PolEmptyOps nat
  | PolMalformed string

definition strip_suffix :: "string \<Rightarrow> string \<Rightarrow> string option" where
  "strip_suffix suf s = (if suffix suf s then Some (take (length s - length suf) s) else None)"

definition strip_prefix :: "string \<Rightarrow> string \<Rightarrow> string option" where
  "strip_prefix pre s = (if prefix pre s then Some (drop (length pre) s) else None)"

definition ns_parse :: "string \<Rightarrow> namespace_pattern" where
  "ns_parse s =
     (if s = ''*'' then NsAny
      else case strip_suffix ''/*'' s of
             Some pre \<Rightarrow> NsPrefix (pre @ ''/'')
           | None \<Rightarrow> NsExact s)"

definition ns_matches :: "namespace_pattern \<Rightarrow> string \<Rightarrow> bool" where
  "ns_matches pat ns = (case pat of NsAny \<Rightarrow> True | NsPrefix p \<Rightarrow> prefix p ns | NsExact s \<Rightarrow> ns = s)"

definition compile :: "raw_principal_selector \<Rightarrow> load_error + principal_selector" where
  "compile raw = (case raw of
       Bare s \<Rightarrow> if s = ''*'' then Ok SelAny else if s = ''anonymous'' then Ok SelAnonymous else Ok (SelVm s)
     | Typed t \<Rightarrow>
         let set_count = length (filter id [tp_vm t \<noteq> None, tp_tester t \<noteq> None, tp_device t \<noteq> None])
         in if set_count \<noteq> 1
            then Err (PolMalformed (''principal selector must set exactly one of vm/tester/device (got '' @ dec set_count @ '')''))
            else case tp_vm t of
                   Some vm \<Rightarrow>
                     if tp_namespace t \<noteq> None \<or> tp_container t \<noteq> None \<or> tp_image_digest t \<noteq> None
                     then Ok (SelContainer vm (map_option ns_parse (tp_namespace t)) (tp_container t) (tp_image_digest t))
                     else Ok (SelVm vm)
                 | None \<Rightarrow>
                     (case tp_tester t of
                        Some ts \<Rightarrow>
                          Ok (SelTester (opt_filter (\<lambda>s. s \<noteq> ''*'') (ts_idp ts)) (opt_filter (\<lambda>s. s \<noteq> ''*'') (ts_sub ts))
                                (opt_filter (\<lambda>s. s \<noteq> ''*'') (ts_role ts)))
                      | None \<Rightarrow> (case tp_device t of Some d \<Rightarrow> Ok (SelDevice d) | None \<Rightarrow> Err (PolMalformed ''unreachable''))))"

definition is_none_or :: "('a \<Rightarrow> bool) \<Rightarrow> 'a option \<Rightarrow> bool" where
  "is_none_or p x = (case x of None \<Rightarrow> True | Some a \<Rightarrow> p a)"

lemma is_none_or_simps [simp]: "is_none_or p None" "is_none_or p (Some a) = p a"
  by (simp_all add: is_none_or_def)

definition sel_matches :: "principal_selector \<Rightarrow> principal \<Rightarrow> bool" where
  "sel_matches sel p = (case (sel, p) of
       (SelAny, _) \<Rightarrow> True
     | (SelVm w, Vm g _) \<Rightarrow> w = g \<or> w = ''*''
     | (SelContainer w_vm w_ns w_c w_img, Container g_vm g_ns g_c g_img) \<Rightarrow>
         (w_vm = g_vm \<or> w_vm = ''*'') \<and> is_none_or (\<lambda>w. ns_matches w g_ns) w_ns \<and> is_none_or (\<lambda>w. w = g_c) w_c
         \<and> is_none_or (\<lambda>w. g_img = Some w) w_img
     | (SelTester w_idp w_sub w_role, Tester g_idp g_sub g_role _) \<Rightarrow>
         is_none_or (\<lambda>w. w = g_idp) w_idp \<and> is_none_or (\<lambda>w. w = g_sub) w_sub \<and> is_none_or (\<lambda>w. g_role = Some w) w_role
     | (SelDevice w, Device g) \<Rightarrow> w = g \<or> w = ''*''
     | (SelAnonymous, Anonymous) \<Rightarrow> True
     | _ \<Rightarrow> False)"

section \<open>Statements\<close>

datatype op_selector = OpAny | OpExact "string set"

definition op_matches :: "op_selector \<Rightarrow> string \<Rightarrow> bool" where
  "op_matches sel p = (case sel of OpAny \<Rightarrow> True | OpExact s \<Rightarrow> p \<in> s)"

record 'y statement =
  st_principals :: "principal_selector list"
  st_resources :: 'y
  st_ops :: op_selector
  st_conditions :: "'y option"

record 'y raw_statement =
  raw_principals :: "raw_principal_selector list"
  raw_resources :: "'y option"
  raw_handles :: "string list option"
  raw_ops :: "string list"
  raw_conditions :: "'y option"

record 'y policy_file =
  pf_version :: u32
  pf_statements :: "'y raw_statement list"

record 'y policy =
  pol_statements :: "'y statement list"

text \<open>The operations on YAML values the code uses: a string, a sequence, a mapping with one entry, and the accessors.\<close>

record 'y yaml_ops =
  y_string :: "string \<Rightarrow> 'y"
  y_sequence :: "'y list \<Rightarrow> 'y"
  y_single :: "string \<Rightarrow> 'y \<Rightarrow> 'y"
  y_get :: "'y \<Rightarrow> string \<Rightarrow> 'y option"
  y_as_sequence :: "'y \<Rightarrow> 'y list option"
  y_as_str :: "'y \<Rightarrow> string option"

datatype decision = Allow nat | Deny

text \<open>First match wins; \<open>i\<close> is the index of the first statement of the list.\<close>

fun evaluate_from ::
    "nat \<Rightarrow> 'y statement list \<Rightarrow> principal \<Rightarrow> 'r \<Rightarrow> string \<Rightarrow> ('y \<Rightarrow> 'r \<Rightarrow> bool) \<Rightarrow> decision" where
  "evaluate_from i [] p request oper matcher = Deny"
| "evaluate_from i (stmt # rest) p request oper matcher =
     (if \<not> list_ex (\<lambda>s. sel_matches s p) (st_principals stmt) then evaluate_from (Suc i) rest p request oper matcher
      else if \<not> matcher (st_resources stmt) request then evaluate_from (Suc i) rest p request oper matcher
      else if \<not> op_matches (st_ops stmt) oper then evaluate_from (Suc i) rest p request oper matcher
      else Allow i)"

definition evaluate :: "'y policy \<Rightarrow> principal \<Rightarrow> 'r \<Rightarrow> string \<Rightarrow> ('y \<Rightarrow> 'r \<Rightarrow> bool) \<Rightarrow> decision" where
  "evaluate pol p request oper matcher = evaluate_from 0 (pol_statements pol) p request oper matcher"

section \<open>Loading\<close>

definition policy_empty :: "'y policy" where
  "policy_empty = \<lparr>pol_statements = []\<rparr>"

fun collect :: "('a \<Rightarrow> 'e + 'b) \<Rightarrow> 'a list \<Rightarrow> 'e + 'b list" where
  "collect f [] = Ok []"
| "collect f (x # xs) = and_then (f x) (\<lambda>y. and_then (collect f xs) (\<lambda>ys. Ok (y # ys)))"

definition load_resources :: "'y yaml_ops \<Rightarrow> nat \<Rightarrow> 'y raw_statement \<Rightarrow> load_error + 'y" where
  "load_resources yo i raw = (case (raw_resources raw, raw_handles raw) of
       (Some r, None) \<Rightarrow> Ok r
     | (None, Some h) \<Rightarrow> Ok (y_single yo ''hsm'' (y_single yo ''handles'' (y_sequence yo (map (y_string yo) h))))
     | (Some _, Some _) \<Rightarrow>
         Err (PolMalformed (''statement '' @ dec i @ '': set either `resources:` or legacy `handles:`, not both''))
     | (None, None) \<Rightarrow> Err (PolEmptyResources i))"

definition unknown_op_msg :: "nat \<Rightarrow> string \<Rightarrow> string" where
  "unknown_op_msg i s = ''statement '' @ dec i @ '': unknown op name '' @ debug_str s"

definition load_ops :: "(string \<Rightarrow> string option) \<Rightarrow> nat \<Rightarrow> string list \<Rightarrow> load_error + op_selector" where
  "load_ops normalize_op i ops =
     (if list_ex (\<lambda>s. s = ''*'') ops then Ok OpAny
      else and_then (collect (\<lambda>s. case normalize_op s of
               None \<Rightarrow> Err (PolMalformed (unknown_op_msg i s)) | Some c \<Rightarrow> Ok c) ops)
             (\<lambda>cs. Ok (OpExact (set cs))))"

definition load_statement ::
    "'y yaml_ops \<Rightarrow> (string \<Rightarrow> string option) \<Rightarrow> nat \<Rightarrow> 'y raw_statement \<Rightarrow> load_error + 'y statement" where
  "load_statement yo normalize_op i raw =
     (if raw_principals raw = [] then Err (PolEmptyPrincipals i)
      else if raw_ops raw = [] then Err (PolEmptyOps i)
      else and_then (collect compile (raw_principals raw)) (\<lambda>principals.
           and_then (load_resources yo i raw) (\<lambda>resources.
           and_then (load_ops normalize_op i (raw_ops raw)) (\<lambda>ops.
             Ok \<lparr>st_principals = principals, st_resources = resources, st_ops = ops, st_conditions = raw_conditions raw\<rparr>))))"

fun load_statements ::
    "'y yaml_ops \<Rightarrow> (string \<Rightarrow> string option) \<Rightarrow> nat \<Rightarrow> 'y raw_statement list \<Rightarrow> load_error + 'y statement list" where
  "load_statements yo normalize_op i [] = Ok []"
| "load_statements yo normalize_op i (raw # rest) =
     and_then (load_statement yo normalize_op i raw) (\<lambda>st.
     and_then (load_statements yo normalize_op (Suc i) rest) (\<lambda>sts. Ok (st # sts)))"

definition policy_parse ::
    "(string \<Rightarrow> string + 'y policy_file) \<Rightarrow> 'y yaml_ops \<Rightarrow> string \<Rightarrow> (string \<Rightarrow> string option) \<Rightarrow> load_error + 'y policy" where
  "policy_parse from_str yo text normalize_op =
     (case from_str text of
        Err e \<Rightarrow> Err (PolParse e)
      | Ok file \<Rightarrow>
          if pf_version file \<notin> {1, 2} then Err (PolUnknownVersion (pf_version file))
          else and_then (load_statements yo normalize_op 0 (pf_statements file)) (\<lambda>sts. Ok \<lparr>pol_statements = sts\<rparr>))"

section \<open>First match\<close>

definition covers :: "('y \<Rightarrow> 'r \<Rightarrow> bool) \<Rightarrow> principal \<Rightarrow> 'r \<Rightarrow> string \<Rightarrow> 'y statement \<Rightarrow> bool" where
  "covers matcher p request oper stmt \<longleftrightarrow>
     list_ex (\<lambda>s. sel_matches s p) (st_principals stmt) \<and> matcher (st_resources stmt) request \<and> op_matches (st_ops stmt) oper"

text \<open>The position of the first element with a property.\<close>

fun first_index :: "('a \<Rightarrow> bool) \<Rightarrow> 'a list \<Rightarrow> nat option" where
  "first_index P [] = None"
| "first_index P (x # xs) = (if P x then Some 0 else map_option Suc (first_index P xs))"

lemma first_index_Some:
  "first_index P xs = Some i \<longleftrightarrow> i < length xs \<and> P (xs ! i) \<and> (\<forall>j < i. \<not> P (xs ! j))"
proof (induction xs arbitrary: i)
  case (Cons x xs)
  then show ?case by (cases i) (auto simp: nth_Cons' less_Suc_eq_0_disj split: if_splits)
qed simp

lemma first_index_None: "first_index P xs = None \<longleftrightarrow> (\<forall>x \<in> set xs. \<not> P x)"
  by (induction xs) auto

lemma first_index_append:
  "first_index P (xs @ ys) = (case first_index P xs of Some i \<Rightarrow> Some i | None \<Rightarrow> map_option (\<lambda>j. length xs + j) (first_index P ys))"
  by (induction xs; cases "first_index P ys") (auto split: option.splits)

lemma evaluate_from_first:
  "evaluate_from n sts p request oper matcher =
     (case first_index (covers matcher p request oper) sts of None \<Rightarrow> Deny | Some i \<Rightarrow> Allow (n + i))"
  by (induction sts arbitrary: n) (auto simp: covers_def split: option.split)

lemma evaluate_first:
  "evaluate pol p request oper matcher =
     (case first_index (covers matcher p request oper) (pol_statements pol) of None \<Rightarrow> Deny | Some i \<Rightarrow> Allow i)"
  by (simp add: evaluate_def evaluate_from_first split: option.split)

section \<open>What loading accepts\<close>

lemma collect_Ok: "collect f xs = Ok ys \<longleftrightarrow> list_all2 (\<lambda>x y. f x = Ok y) xs ys"
  by (induction xs arbitrary: ys) (auto simp: and_then_eq_Ok list_all2_Cons1)

lemma collect_first_Err:
  "i < length xs \<Longrightarrow> f (xs ! i) = Err e \<Longrightarrow> (\<And>j. j < i \<Longrightarrow> is_ok (f (xs ! j))) \<Longrightarrow> collect f xs = Err e"
proof (induction xs arbitrary: i)
  case (Cons x xs)
  show ?case
  proof (cases i)
    case 0
    then show ?thesis using Cons.prems by simp
  next
    case (Suc k)
    then have "collect f xs = Err e" using Cons.IH [of k] Cons.prems by fastforce
    moreover obtain y where "f x = Ok y" using Cons.prems(3) [of 0] Suc by (cases "f x") auto
    ultimately show ?thesis by simp
  qed
qed simp

lemma load_statements_Ok:
  "load_statements yo norm n raws = Ok sts \<longleftrightarrow>
     length sts = length raws \<and> (\<forall>i < length raws. load_statement yo norm (n + i) (raws ! i) = Ok (sts ! i))"
proof (induction raws arbitrary: n sts)
  case (Cons raw raws)
  have "load_statements yo norm n (raw # raws) = Ok sts \<longleftrightarrow>
      (\<exists>st sts'. sts = st # sts' \<and> load_statement yo norm n raw = Ok st \<and> load_statements yo norm (Suc n) raws = Ok sts')"
    by (auto simp: and_then_eq_Ok)
  also have "\<dots> \<longleftrightarrow> length sts = Suc (length raws) \<and> (\<forall>i < Suc (length raws). load_statement yo norm (n + i) ((raw # raws) ! i) = Ok (sts ! i))"
    using Cons.IH [of "Suc n"] by (cases sts) (auto simp: less_Suc_eq_0_disj)
  finally show ?case by simp
qed auto

end
