(* ===== verification/Iam.thy ===== *)
theory Iam
  imports PolicyEval VhsmProto
begin

text \<open>
  The IAM adapter of the vHSM daemon, \<^verbatim>\<open>crates/vhsm-server/src/iam.rs\<close>: the vocabulary of operation
  names, the matcher of \<^verbatim>\<open>resources.hsm.handles\<close>, and the translation of load errors, which recovers
  the unknown-operation error from its text.
\<close>

section \<open>Model\<close>

datatype iam_decision = IamAllow nat | IamDeny

definition iam_decision_from :: "decision \<Rightarrow> iam_decision" where
  "iam_decision_from d = (case d of Allow i \<Rightarrow> IamAllow i | Deny \<Rightarrow> IamDeny)"

datatype iam_load_error =
    IamIo string
  | IamParse string
  | IamUnknownVersion u32
  | IamEmptyPrincipals nat
  | IamEmptyHandles nat
  | IamEmptyOps nat
  | IamUnknownOp nat string

text \<open>\<^verbatim>\<open>str::split_once\<close> and \<^verbatim>\<open>str::parse::<usize>\<close> of the standard library.\<close>

fun split_once :: "string \<Rightarrow> string \<Rightarrow> (string \<times> string) option" where
  "split_once pat [] = (if pat = [] then Some ([], []) else None)"
| "split_once pat (c # cs) =
     (if prefix pat (c # cs) then Some ([], drop (length pat) (c # cs))
      else map_option (\<lambda>(a, b). (c # a, b)) (split_once pat cs))"

definition is_digit :: "char \<Rightarrow> bool" where
  "is_digit c \<longleftrightarrow> 48 \<le> (of_char c :: nat) \<and> (of_char c :: nat) \<le> 57"

definition digits_value :: "string \<Rightarrow> nat" where
  "digits_value s = foldl (\<lambda>acc c. 10 * acc + (of_char c - 48)) 0 s"

definition parse_usize :: "string \<Rightarrow> nat option" where
  "parse_usize s =
     (let ds = (case s of c # cs \<Rightarrow> if c = CHR ''+'' \<and> cs \<noteq> [] then cs else s | [] \<Rightarrow> [])
      in if ds \<noteq> [] \<and> list_all is_digit ds \<and> digits_value ds < 2 ^ 64 then Some (digits_value ds) else None)"

definition parse_unknown_op_msg :: "string \<Rightarrow> (nat \<times> string) option" where
  "parse_unknown_op_msg msg =
     (case strip_prefix ''statement '' msg of
        None \<Rightarrow> None
      | Some rest \<Rightarrow>
          (case split_once ('': unknown op name '' @ [CHR 0x22]) rest of
             None \<Rightarrow> None
           | Some (idx_str, after) \<Rightarrow>
               (case parse_usize idx_str of
                  None \<Rightarrow> None
                | Some i \<Rightarrow>
                    (case strip_suffix [CHR 0x22] after of None \<Rightarrow> None | Some oper \<Rightarrow> Some (i, oper)))))"

definition iam_load_error_from :: "load_error \<Rightarrow> iam_load_error" where
  "iam_load_error_from e = (case e of
       PolIo s \<Rightarrow> IamIo s
     | PolParse s \<Rightarrow> IamParse s
     | PolUnknownVersion v \<Rightarrow> IamUnknownVersion v
     | PolEmptyPrincipals i \<Rightarrow> IamEmptyPrincipals i
     | PolEmptyResources i \<Rightarrow> IamEmptyHandles i
     | PolEmptyOps i \<Rightarrow> IamEmptyOps i
     | PolMalformed m \<Rightarrow> (case parse_unknown_op_msg m of Some (i, oper) \<Rightarrow> IamUnknownOp i oper | None \<Rightarrow> IamParse m))"

definition to_ascii_lowercase :: "string \<Rightarrow> string" where
  "to_ascii_lowercase s =
     map (\<lambda>c. if 65 \<le> (of_char c :: nat) \<and> (of_char c :: nat) \<le> 90 then char_of ((of_char c :: nat) + 32) else c) s"

definition parse_op_name_canonical :: "string \<Rightarrow> string option" where
  "parse_op_name_canonical s =
     (let norm = map (\<lambda>c. if c = CHR ''_'' then CHR ''-'' else c) (to_ascii_lowercase s)
      in if norm = ''get-random'' then Some ''get-random''
         else if norm = ''key-generate'' then Some ''key-generate''
         else if norm = ''encrypt'' then Some ''encrypt''
         else if norm = ''decrypt'' then Some ''decrypt''
         else if norm = ''mac-gen'' \<or> norm = ''mac-generate'' then Some ''mac-generate''
         else if norm = ''mac-vfy'' \<or> norm = ''mac-verify'' then Some ''mac-verify''
         else if norm = ''sign'' then Some ''sign''
         else if norm = ''verify'' then Some ''verify''
         else if norm = ''get-handle-info'' then Some ''get-handle-info''
         else if norm = ''get-pubkey'' then Some ''get-pubkey''
         else if norm = ''get-cert'' then Some ''get-cert''
         else None)"

definition normalize_op :: "string \<Rightarrow> string option" where
  "normalize_op s = parse_op_name_canonical s"

definition op_canonical_name :: "op \<Rightarrow> string" where
  "op_canonical_name p = (case p of
       GetRandom \<Rightarrow> ''get-random'' | KeyGenerate \<Rightarrow> ''key-generate'' | Encrypt \<Rightarrow> ''encrypt'' | Decrypt \<Rightarrow> ''decrypt''
     | MacGenerate \<Rightarrow> ''mac-generate'' | MacVerify \<Rightarrow> ''mac-verify'' | Sign \<Rightarrow> ''sign'' | Verify \<Rightarrow> ''verify''
     | GetHandleInfo \<Rightarrow> ''get-handle-info'' | GetPubkey \<Rightarrow> ''get-pubkey'' | GetCert \<Rightarrow> ''get-cert''
     | KeyImport \<Rightarrow> ''key-import'' | KeyDerive \<Rightarrow> ''key-derive'' | KeyDelete \<Rightarrow> ''key-delete'' | Hello \<Rightarrow> ''hello''
     | Auth \<Rightarrow> ''auth'' | AuthOk \<Rightarrow> ''auth-ok'' | Enroll \<Rightarrow> ''enroll'' | EnrollAssisted \<Rightarrow> ''enroll-assisted'')"

definition hsm_matches :: "'y yaml_ops \<Rightarrow> 'y \<Rightarrow> string \<Rightarrow> bool" where
  "hsm_matches yo resources handle_key_id =
     (case y_get yo resources ''hsm'' of
        None \<Rightarrow> False
      | Some hsm \<Rightarrow>
          (case Option.bind (y_get yo hsm ''handles'') (y_as_sequence yo) of
             None \<Rightarrow> False
           | Some handles \<Rightarrow> list_ex (\<lambda>h. h = ''*'' \<or> h = handle_key_id) (List.map_filter (y_as_str yo) handles)))"

definition iam_empty :: "'y policy" where
  "iam_empty = policy_empty"

definition iam_parse ::
    "(string \<Rightarrow> string + 'y policy_file) \<Rightarrow> 'y yaml_ops \<Rightarrow> string \<Rightarrow> iam_load_error + 'y policy" where
  "iam_parse from_str yo text =
     (case policy_parse from_str yo text normalize_op of Err e \<Rightarrow> Err (iam_load_error_from e) | Ok p \<Rightarrow> Ok p)"

definition iam_evaluate :: "'y yaml_ops \<Rightarrow> 'y policy \<Rightarrow> string \<Rightarrow> string \<Rightarrow> op \<Rightarrow> iam_decision" where
  "iam_evaluate yo pol vm_id handle_key_id p =
     iam_decision_from (evaluate pol (Vm vm_id None) handle_key_id (op_canonical_name p) (hsm_matches yo))"

section \<open>The file says what is granted\<close>

text \<open>The documented behaviour of the YAML values: what a constructor built is what the accessors return.\<close>

definition yaml_laws :: "'y yaml_ops \<Rightarrow> bool" where
  "yaml_laws yo \<longleftrightarrow> (\<forall>k v. y_get yo (y_single yo k v) k = Some v)
     \<and> (\<forall>xs. y_as_sequence yo (y_sequence yo xs) = Some xs) \<and> (\<forall>s. y_as_str yo (y_string yo s) = Some s)"

definition raw_names :: "string \<Rightarrow> raw_principal_selector \<Rightarrow> bool" where
  "raw_names vm sel = (case sel of
       Bare s \<Rightarrow> s = ''*'' \<or> s = vm \<and> s \<noteq> ''anonymous''
     | Typed t \<Rightarrow> (tp_vm t = Some vm \<or> tp_vm t = Some ''*'')
         \<and> tp_namespace t = None \<and> tp_container t = None \<and> tp_image_digest t = None)"

definition raw_grants :: "'y yaml_ops \<Rightarrow> string \<Rightarrow> 'y raw_statement \<Rightarrow> bool" where
  "raw_grants yo key raw = (case raw_handles raw of
       Some hs \<Rightarrow> ''*'' \<in> set hs \<or> key \<in> set hs
     | None \<Rightarrow> (case raw_resources raw of Some r \<Rightarrow> hsm_matches yo r key | None \<Rightarrow> False))"

definition raw_op :: "op \<Rightarrow> 'y raw_statement \<Rightarrow> bool" where
  "raw_op p raw \<longleftrightarrow> ''*'' \<in> set (raw_ops raw) \<or> (\<exists>s \<in> set (raw_ops raw). normalize_op s = Some (op_canonical_name p))"

definition raw_covers :: "'y yaml_ops \<Rightarrow> string \<Rightarrow> string \<Rightarrow> op \<Rightarrow> 'y raw_statement \<Rightarrow> bool" where
  "raw_covers yo vm key p raw \<longleftrightarrow> (\<exists>sel \<in> set (raw_principals raw). raw_names vm sel) \<and> raw_grants yo key raw \<and> raw_op p raw"

lemma compile_names:
  assumes "compile raw = Ok sel"
  shows "sel_matches sel (Vm vm t) \<longleftrightarrow> raw_names vm raw"
proof (cases raw)
  case (Bare s)
  then show ?thesis using assms by (auto simp: compile_def sel_matches_def raw_names_def split: if_splits)
next
  case (Typed ty)
  then show ?thesis
    using assms by (auto simp: compile_def sel_matches_def raw_names_def Let_def split: if_splits option.splits)
qed

lemma load_resources_grants:
  assumes "yaml_laws yo" "load_resources yo i raw = Ok r"
  shows "hsm_matches yo r key \<longleftrightarrow> raw_grants yo key raw"
proof (cases "raw_handles raw")
  case None
  then show ?thesis using assms(2) by (auto simp: load_resources_def raw_grants_def split: option.splits)
next
  case (Some hs)
  then have r: "r = y_single yo ''hsm'' (y_single yo ''handles'' (y_sequence yo (map (y_string yo) hs)))"
    using assms(2) by (auto simp: load_resources_def split: option.splits)
  have "List.map_filter (y_as_str yo) (map (y_string yo) hs) = hs"
    using assms(1) by (induction hs) (simp_all add: yaml_laws_def map_filter_simps)
  then show ?thesis
    using assms(1) Some by (auto simp: r hsm_matches_def raw_grants_def yaml_laws_def list_ex_iff)
qed

lemma ok_or_Ok: "(case x of None \<Rightarrow> Err e | Some c \<Rightarrow> Ok c) = Ok y \<longleftrightarrow> x = Some y"
  by (cases x) simp_all

lemma load_ops_grants:
  assumes "load_ops normalize_op i (raw_ops raw) = Ok sel"
  shows "op_matches sel (op_canonical_name p) \<longleftrightarrow> raw_op p raw"
proof (cases "list_ex (\<lambda>s. s = ''*'') (raw_ops raw)")
  case True
  then show ?thesis using assms by (auto simp: load_ops_def op_matches_def raw_op_def list_ex_iff)
next
  case False
  then obtain cs where cs: "sel = OpExact (set cs)"
      "list_all2 (\<lambda>s c. normalize_op s = Some c) (raw_ops raw) cs"
    using assms by (auto simp: load_ops_def and_then_eq_Ok collect_Ok ok_or_Ok)
  then have "c \<in> set cs \<longleftrightarrow> (\<exists>s \<in> set (raw_ops raw). normalize_op s = Some c)" for c
    by (fastforce simp: list_all2_conv_all_nth in_set_conv_nth)
  then show ?thesis using cs(1) False by (auto simp: op_matches_def raw_op_def list_ex_iff)
qed

lemma load_statement_covers:
  assumes "yaml_laws yo" "load_statement yo normalize_op i raw = Ok st"
  shows "covers (hsm_matches yo) (Vm vm t) key (op_canonical_name p) st \<longleftrightarrow> raw_covers yo vm key p raw"
proof -
  obtain ps r ops where l: "list_all2 (\<lambda>x y. compile x = Ok y) (raw_principals raw) ps"
      "load_resources yo i raw = Ok r" "load_ops normalize_op i (raw_ops raw) = Ok ops"
      "st = \<lparr>st_principals = ps, st_resources = r, st_ops = ops, st_conditions = raw_conditions raw\<rparr>"
    using assms(2) by (auto simp: load_statement_def and_then_eq_Ok collect_Ok split: if_splits)
  have "(\<exists>s \<in> set ps. sel_matches s (Vm vm t)) \<longleftrightarrow> (\<exists>x \<in> set (raw_principals raw). raw_names vm x)"
    using l(1) compile_names by (fastforce simp: list_all2_conv_all_nth in_set_conv_nth)
  then show ?thesis
    using l(4) load_resources_grants [OF assms(1) l(2)] load_ops_grants [OF l(3)]
    by (simp add: covers_def raw_covers_def list_ex_iff)
qed

lemma first_index_cong:
  assumes "length xs = length ys" "\<And>i. i < length xs \<Longrightarrow> P (xs ! i) \<longleftrightarrow> Q (ys ! i)"
  shows "first_index P xs = first_index Q ys"
  using assms
proof (induction xs ys rule: list_induct2)
  case (Cons x xs y ys)
  have "P x \<longleftrightarrow> Q y" using Cons.prems [of 0] by simp
  moreover have "first_index P xs = first_index Q ys" using Cons.IH Cons.prems [of "Suc _"] by simp
  ultimately show ?case by simp
qed simp

lemma iam_parse_Ok:
  assumes "iam_parse from_str yo text = Ok pol"
  obtains fl where "from_str text = Ok fl" "pf_version fl = 1 \<or> pf_version fl = 2"
    "length (pol_statements pol) = length (pf_statements fl)"
    "\<And>i. i < length (pf_statements fl) \<Longrightarrow> load_statement yo normalize_op i (pf_statements fl ! i) = Ok (pol_statements pol ! i)"
  using assms
  by (auto simp: iam_parse_def policy_parse_def and_then_eq_Ok load_statements_Ok split: sum.splits if_splits)

lemma iam_evaluate_file:
  assumes "yaml_laws yo" "iam_parse from_str yo text = Ok pol" "from_str text = Ok fl"
  shows "iam_evaluate yo pol vm key p =
    (case first_index (raw_covers yo vm key p) (pf_statements fl) of None \<Rightarrow> IamDeny | Some i \<Rightarrow> IamAllow i)"
proof -
  have l: "length (pol_statements pol) = length (pf_statements fl)"
    "\<And>i. i < length (pf_statements fl) \<Longrightarrow> load_statement yo normalize_op i (pf_statements fl ! i) = Ok (pol_statements pol ! i)"
    using iam_parse_Ok [OF assms(2)] assms(3) by (metis sum.inject(2))+
  have "first_index (covers (hsm_matches yo) (Vm vm None) key (op_canonical_name p)) (pol_statements pol) =
      first_index (raw_covers yo vm key p) (pf_statements fl)"
    by (rule first_index_cong) (use l load_statement_covers [OF assms(1) l(2)] in auto)
  then show ?thesis
    by (simp add: iam_evaluate_def evaluate_first iam_decision_from_def split: option.split)
qed

section \<open>The vocabulary\<close>

lemma op_canonical_inject [simp]: "op_canonical_name p = op_canonical_name q \<longleftrightarrow> p = q"
  by (cases p; cases q; simp add: op_canonical_name_def)

text \<open>A policy file cannot name a host-only or handshake operation.\<close>

lemma normalize_guest_only: "is_host_only p \<or> is_handshake p \<Longrightarrow> normalize_op s \<noteq> Some (op_canonical_name p)"
  unfolding normalize_op_def parse_op_name_canonical_def Let_def
  by (cases p; simp add: op_canonical_name_def is_host_only_def is_handshake_def)

lemma normalize_canonical:
  "\<not> is_host_only p \<Longrightarrow> \<not> is_handshake p \<Longrightarrow> normalize_op (op_canonical_name p) = Some (op_canonical_name p)"
  by (cases p; simp add: op_canonical_name_def is_host_only_def is_handshake_def normalize_op_def
      parse_op_name_canonical_def to_ascii_lowercase_def Let_def)

section \<open>Error texts\<close>

lemma of_char_digit: "k < 10 \<Longrightarrow> (of_char (char_of (48 + k) :: char) :: nat) = 48 + k"
  by (simp add: of_char_of)

lemma dec_digits: "list_all is_digit (dec n) \<and> dec n \<noteq> [] \<and> digits_value (dec n) = n"
proof (induction n rule: dec.induct)
  case (1 n)
  show ?case
  proof (cases "n < 10")
    case True
    then show ?thesis
      by (simp add: dec.simps [of n] is_digit_def digits_value_def of_char_digit)
  next
    case False
    then have "list_all is_digit (dec (n div 10))" "digits_value (dec (n div 10)) = n div 10" using 1 by simp_all
    moreover have "is_digit (char_of (48 + n mod 10))" "(of_char (char_of (48 + n mod 10) :: char) :: nat) - 48 = n mod 10"
      using of_char_digit [of "n mod 10"] by (simp_all add: is_digit_def)
    moreover have "digits_value (dec (n div 10) @ [c]) = 10 * digits_value (dec (n div 10)) + (of_char c - 48)" for c
      by (simp add: digits_value_def)
    ultimately show ?thesis using False by (simp add: dec.simps [of n])
  qed
qed

lemma parse_usize_dec:
  assumes "i < 2 ^ 64"
  shows "parse_usize (dec i) = Some i"
proof -
  obtain c cs where d: "dec i = c # cs" using dec_digits [of i] by (cases "dec i") auto
  have "c \<noteq> CHR ''+''" using dec_digits [of i] d by (auto simp: is_digit_def)
  then show ?thesis using dec_digits [of i] assms d by (simp add: parse_usize_def Let_def)
qed

lemma split_once_digits:
  "list_all is_digit ds \<Longrightarrow> split_once ('': '' @ pat) (ds @ '': '' @ pat @ rest) = Some (ds, rest)"
proof (induction ds)
  case (Cons c cs)
  have "c \<noteq> CHR '':''" using Cons.prems by (auto simp: is_digit_def)
  then show ?case using Cons by simp
qed simp

lemma parse_unknown_op_msg_inverse:
  assumes "i < 2 ^ 64"
  shows "parse_unknown_op_msg (unknown_op_msg i s) = Some (i, escape s)"
proof -
  let ?pat = "''unknown op name '' @ [CHR 0x22]"
  have "strip_prefix ''statement '' (unknown_op_msg i s) = Some (dec i @ '': '' @ ?pat @ escape s @ [CHR 0x22])"
    by (simp add: strip_prefix_def unknown_op_msg_def debug_str_def)
  moreover have "split_once ('': unknown op name '' @ [CHR 0x22]) (dec i @ '': '' @ ?pat @ escape s @ [CHR 0x22]) =
      Some (dec i, escape s @ [CHR 0x22])"
    using split_once_digits [of "dec i" ?pat "escape s @ [CHR 0x22]"] dec_digits [of i] by simp
  moreover have "strip_suffix [CHR 0x22] (escape s @ [CHR 0x22]) = Some (escape s)"
    by (simp add: strip_suffix_def)
  ultimately show ?thesis
    using parse_usize_dec [OF assms] by (simp add: parse_unknown_op_msg_def)
qed

lemma load_statements_first_Err:
  "i < length raws \<Longrightarrow> load_statement yo norm (n + i) (raws ! i) = Err e
     \<Longrightarrow> (\<And>j. j < i \<Longrightarrow> is_ok (load_statement yo norm (n + j) (raws ! j))) \<Longrightarrow> load_statements yo norm n raws = Err e"
proof (induction raws arbitrary: i n)
  case (Cons raw raws)
  show ?case
  proof (cases i)
    case 0
    then show ?thesis using Cons.prems by simp
  next
    case (Suc k)
    then have "load_statements yo norm (Suc n) raws = Err e"
      using Cons.IH [of k "Suc n"] Cons.prems by fastforce
    moreover obtain st where "load_statement yo norm n raw = Ok st"
      using Cons.prems(3) [of 0] Suc by (cases "load_statement yo norm n raw") auto
    ultimately show ?thesis by simp
  qed
qed simp

end
