(* ===== verification/VhsmHandler.thy ===== *)
theory VhsmHandler
  imports HandleTable Iam
begin

text \<open>
  Request dispatch of the vHSM daemon, \<^verbatim>\<open>crates/vhsm-server/src/handler.rs\<close>. The crypto provider is a
  parameter (\<^verbatim>\<open>HsmCryptoProvider\<close> of \<^verbatim>\<open>crates/hsm-contract/src/lib.rs\<close>): a record of its operations over a
  state \<open>'c\<close>, so that what a request makes the provider do is visible. Logging is not modelled.
\<close>

section \<open>Model\<close>

datatype hsm_error =
    NotProvisioned | AlreadyProvisioned | NotRunning | AlreadyRunning
  | KeystoreError string | ProcessError string | ConfigError string | EnvelopeInvalid string | PayloadInvalid string
  | DecryptionFailed string | RollbackRejected u64 u64 | NotSupported string | HsmCryptoError string | KeyNotFound string

record 'c crypto_ops =
  cr_random :: "'c \<Rightarrow> nat \<Rightarrow> 'c \<times> (hsm_error + bytes)"
  cr_generate_key :: "'c \<Rightarrow> u32 \<Rightarrow> u32 \<Rightarrow> 'c \<times> (hsm_error + bytes)"
  cr_sign :: "'c \<Rightarrow> u32 \<Rightarrow> bytes \<Rightarrow> 'c \<times> (hsm_error + bytes)"
  cr_encrypt :: "'c \<Rightarrow> u32 \<Rightarrow> bytes \<Rightarrow> 'c \<times> (hsm_error + bytes)"
  cr_decrypt :: "'c \<Rightarrow> u32 \<Rightarrow> bytes \<Rightarrow> 'c \<times> (hsm_error + bytes)"
  cr_mac_generate :: "'c \<Rightarrow> u32 \<Rightarrow> bytes \<Rightarrow> 'c \<times> (hsm_error + bytes)"
  cr_mac_verify :: "'c \<Rightarrow> u32 \<Rightarrow> bytes \<Rightarrow> bytes \<Rightarrow> 'c \<times> (hsm_error + bool)"
  cr_verify :: "'c \<Rightarrow> u32 \<Rightarrow> bytes \<Rightarrow> bytes \<Rightarrow> 'c \<times> (hsm_error + bool)"
  cr_get_public_key_der :: "'c \<Rightarrow> u32 \<Rightarrow> 'c \<times> (hsm_error + bytes)"
  cr_get_certificate_der :: "'c \<Rightarrow> u32 \<Rightarrow> 'c \<times> (hsm_error + bytes)"

record caller_id =
  cl_vm_id :: string
  cl_cert_thumbprint :: bytes

definition SYSTEM_HANDLE_NAME :: string where "SYSTEM_HANDLE_NAME = ''system''"

datatype authz_outcome = AuthzAllow nat | Bypass | AuthzDeny

definition decision_to_outcome :: "iam_decision \<Rightarrow> authz_outcome" where
  "decision_to_outcome d = (case d of IamAllow i \<Rightarrow> AuthzAllow i | IamDeny \<Rightarrow> AuthzDeny)"

definition peek_handle :: "request \<Rightarrow> u32 option" where
  "peek_handle req = (if length (rq_payload req) < 4 then None else Some (get_u32_le (rq_payload req) 0))"

abbreviation ok_resp :: "request \<Rightarrow> bytes \<Rightarrow> response" where
  "ok_resp req \<equiv> response_ok (rq_op req) (rq_session_id req)"

abbreviation err_resp :: "request \<Rightarrow> status_code \<Rightarrow> response" where
  "err_resp req \<equiv> response_err (rq_op req) (rq_session_id req)"

definition handle_get_random :: "'c crypto_ops \<Rightarrow> request \<Rightarrow> 'c \<Rightarrow> 'c \<times> response" where
  "handle_get_random cr req c =
     (if length (rq_payload req) < 4 then (c, err_resp req InvalidParam)
      else
        let count = unat (get_u32_le (rq_payload req) 0)
        in if count = 0 \<or> count > MAX_RANDOM then (c, err_resp req InvalidParam)
           else (case cr_random cr c count of
                   (c', Ok bytes) \<Rightarrow> (c', ok_resp req bytes)
                 | (c', Err e) \<Rightarrow> (c', err_resp req Internal)))"

definition handle_key_generate ::
    "'c crypto_ops \<Rightarrow> request \<Rightarrow> caller_id \<Rightarrow> handle_table \<Rightarrow> 'c \<Rightarrow> handle_table \<times> 'c \<times> response" where
  "handle_key_generate cr req caller t c =
     (let payload = rq_payload req
      in if length payload < 44 then (t, c, err_resp req InvalidParam)
         else
           let algorithm = get_u32_le payload 0; permitted_ops = get_u32_le payload 4;
               persistent = (get_u8 payload 8 \<noteq> 0); label = get_bytes LABEL_LEN payload 12;
               key_id = ''gen-'' @ cl_vm_id caller @ ''-'' @ dec (ht_len t)
           in (case ht_allocate t key_id algorithm permitted_ops (cl_vm_id caller) persistent label of
                 (t', None) \<Rightarrow> (t', c, err_resp req NoResource)
               | (t', Some handle) \<Rightarrow>
                   (case cr_generate_key cr c handle algorithm of
                      (c', Ok pubkey) \<Rightarrow>
                        (t', c', ok_resp req (le_bytes handle @ le_bytes (of_nat (length pubkey) :: u32) @ pubkey))
                    | (c', Err e) \<Rightarrow>
                        (t', c', err_resp req (case e of NotSupported _ \<Rightarrow> InvalidParam | _ \<Rightarrow> Internal)))))"

definition crypto_result :: "request \<Rightarrow> 'c \<times> (hsm_error + bytes) \<Rightarrow> 'c \<times> response" where
  "crypto_result req r = (case r of (c', Ok out) \<Rightarrow> (c', ok_resp req out) | (c', Err e) \<Rightarrow> (c', err_resp req CryptoError))"

definition check_result :: "request \<Rightarrow> 'c \<times> (hsm_error + bool) \<Rightarrow> 'c \<times> response" where
  "check_result req r = (case r of (c', Ok True) \<Rightarrow> (c', ok_resp req []) | (c', _) \<Rightarrow> (c', err_resp req CryptoError))"

definition perm_missing :: "handle_entry \<Rightarrow> u32 \<Rightarrow> bool" where
  "perm_missing e required \<longleftrightarrow> he_permitted_ops e AND required = 0"

definition handle_crypto_with_handle ::
    "'c crypto_ops \<Rightarrow> request \<Rightarrow> op \<Rightarrow> caller_id \<Rightarrow> handle_table \<Rightarrow> 'c \<Rightarrow> 'c \<times> response" where
  "handle_crypto_with_handle cr req p caller t c =
     (if length (rq_payload req) < 4 then (c, err_resp req InvalidParam)
      else
        let handle = get_u32_le (rq_payload req) 0
        in case ht_resolve t handle (cl_vm_id caller) of
             None \<Rightarrow> (c, err_resp req InvalidHandle)
           | Some entry \<Rightarrow>
               if (case required_perm p of None \<Rightarrow> False | Some required \<Rightarrow> perm_missing entry required)
               then (c, err_resp req PermissionDeny)
               else
                 let data = drop 4 (rq_payload req)
                 in (case p of
                       Sign \<Rightarrow> crypto_result req (cr_sign cr c handle data)
                     | Encrypt \<Rightarrow> crypto_result req (cr_encrypt cr c handle data)
                     | Decrypt \<Rightarrow> crypto_result req (cr_decrypt cr c handle data)
                     | MacGenerate \<Rightarrow> crypto_result req (cr_mac_generate cr c handle data)
                     | MacVerify \<Rightarrow>
                         if length data < 4 then (c, err_resp req InvalidParam)
                         else let mac_len = unat (get_u32_le data 0)
                              in if length data < 4 + mac_len then (c, err_resp req InvalidParam)
                                 else check_result req (cr_mac_verify cr c handle (drop (4 + mac_len) data) (get_bytes mac_len data 4))
                     | _ \<Rightarrow> (c, err_resp req InvalidParam)))"

definition handle_verify ::
    "'c crypto_ops \<Rightarrow> request \<Rightarrow> caller_id \<Rightarrow> handle_table \<Rightarrow> 'c \<Rightarrow> 'c \<times> response" where
  "handle_verify cr req caller t c =
     (if length (rq_payload req) < 12 then (c, err_resp req InvalidParam)
      else
        let handle = get_u32_le (rq_payload req) 0
        in case ht_resolve t handle (cl_vm_id caller) of
             None \<Rightarrow> (c, err_resp req InvalidHandle)
           | Some entry \<Rightarrow>
               if perm_missing entry PERM_VERIFY then (c, err_resp req PermissionDeny)
               else
                 let rest = drop 4 (rq_payload req)
                 in if length rest < 4 then (c, err_resp req InvalidParam)
                    else
                      let sig_len = unat (get_u32_le rest 0)
                      in if length rest < 4 + sig_len + 4 then (c, err_resp req InvalidParam)
                         else
                           let signature = get_bytes sig_len rest 4; hash_start = 4 + sig_len;
                               hash_len = unat (get_u32_le rest hash_start)
                           in if length rest < hash_start + 4 + hash_len then (c, err_resp req InvalidParam)
                              else check_result req (cr_verify cr c handle (get_bytes hash_len rest (hash_start + 4)) signature))"

definition handle_get_handle_info :: "request \<Rightarrow> caller_id \<Rightarrow> handle_table \<Rightarrow> response" where
  "handle_get_handle_info req caller t =
     (if length (rq_payload req) < 4 then err_resp req InvalidParam
      else case ht_resolve t (get_u32_le (rq_payload req) 0) (cl_vm_id caller) of
             None \<Rightarrow> err_resp req InvalidHandle
           | Some entry \<Rightarrow>
               ok_resp req (le_bytes (he_handle entry) @ le_bytes (he_algorithm entry) @ le_bytes (he_permitted_ops entry)
                 @ [if he_persistent entry then 1 else 0] @ [0, 0, 0] @ he_label entry))"

definition der_result :: "request \<Rightarrow> 'c \<times> (hsm_error + bytes) \<Rightarrow> 'c \<times> response" where
  "der_result req r = (case r of
       (c', Ok der) \<Rightarrow> (c', ok_resp req (le_bytes (of_nat (length der) :: u32) @ der))
     | (c', Err e) \<Rightarrow> (c', err_resp req (case e of KeyNotFound _ \<Rightarrow> InvalidHandle | _ \<Rightarrow> Internal)))"

definition handle_get_pubkey ::
    "'c crypto_ops \<Rightarrow> request \<Rightarrow> caller_id \<Rightarrow> handle_table \<Rightarrow> 'c \<Rightarrow> 'c \<times> response" where
  "handle_get_pubkey cr req caller t c =
     (if length (rq_payload req) < 4 then (c, err_resp req InvalidParam)
      else
        let handle = get_u32_le (rq_payload req) 0
        in case ht_resolve t handle (cl_vm_id caller) of
             None \<Rightarrow> (c, err_resp req InvalidHandle)
           | Some entry \<Rightarrow>
               if perm_missing entry PERM_GET_PUBKEY then (c, err_resp req PermissionDeny)
               else der_result req (cr_get_public_key_der cr c handle))"

definition handle_get_cert ::
    "'c crypto_ops \<Rightarrow> request \<Rightarrow> caller_id \<Rightarrow> handle_table \<Rightarrow> 'c \<Rightarrow> 'c \<times> response" where
  "handle_get_cert cr req caller t c =
     (if length (rq_payload req) < 4 then (c, err_resp req InvalidParam)
      else
        let handle = get_u32_le (rq_payload req) 0
        in case ht_resolve t handle (cl_vm_id caller) of
             None \<Rightarrow> (c, err_resp req InvalidHandle)
           | Some entry \<Rightarrow>
               if perm_missing entry PERM_GET_CERT then (c, err_resp req PermissionDeny)
               else der_result req (cr_get_certificate_der cr c handle))"

text \<open>The IAM gate of a request.\<close>

definition authz :: "'y yaml_ops \<Rightarrow> request \<Rightarrow> op \<Rightarrow> caller_id \<Rightarrow> handle_table \<Rightarrow> 'y policy \<Rightarrow> authz_outcome" where
  "authz yo req p caller t iam =
     (if p = GetRandom \<or> p = KeyGenerate
      then decision_to_outcome (iam_evaluate yo iam (cl_vm_id caller) SYSTEM_HANDLE_NAME p)
      else
        let handle_id = (case peek_handle req of None \<Rightarrow> 0 | Some h \<Rightarrow> h)
        in if handle_id \<ge> HANDLE_DYNAMIC_BASE then Bypass
           else
             let handle_name = (case ht_get t handle_id of Some e \<Rightarrow> he_key_id e | None \<Rightarrow> ''<unknown>'')
             in decision_to_outcome (iam_evaluate yo iam (cl_vm_id caller) handle_name p))"

definition handle_request ::
    "'y yaml_ops \<Rightarrow> 'c crypto_ops \<Rightarrow> request \<Rightarrow> caller_id \<Rightarrow> handle_table \<Rightarrow> 'y policy \<Rightarrow> 'c
       \<Rightarrow> handle_table \<times> 'c \<times> response \<times> authz_outcome" where
  "handle_request yo cr req caller t iam c =
     (case op_from_u32 (rq_op req) of
        None \<Rightarrow> (t, c, err_resp req InvalidParam, Bypass)
      | Some p \<Rightarrow>
          if is_host_only p then (t, c, err_resp req PolicyReject, Bypass)
          else if p \<in> {Hello, Auth, AuthOk, Enroll, EnrollAssisted} then (t, c, err_resp req InvalidParam, Bypass)
          else
            let outcome = authz yo req p caller t iam
            in if outcome = AuthzDeny then (t, c, err_resp req PolicyReject, outcome)
               else
                 (case p of
                    GetRandom \<Rightarrow> (case handle_get_random cr req c of (c', r) \<Rightarrow> (t, c', r, outcome))
                  | KeyGenerate \<Rightarrow> (case handle_key_generate cr req caller t c of (t', c', r) \<Rightarrow> (t', c', r, outcome))
                  | Verify \<Rightarrow> (case handle_verify cr req caller t c of (c', r) \<Rightarrow> (t, c', r, outcome))
                  | GetHandleInfo \<Rightarrow> (t, c, handle_get_handle_info req caller t, outcome)
                  | GetPubkey \<Rightarrow> (case handle_get_pubkey cr req caller t c of (c', r) \<Rightarrow> (t, c', r, outcome))
                  | GetCert \<Rightarrow> (case handle_get_cert cr req caller t c of (c', r) \<Rightarrow> (t, c', r, outcome))
                  | _ \<Rightarrow> (case handle_crypto_with_handle cr req p caller t c of (c', r) \<Rightarrow> (t, c', r, outcome))))"

lemmas handler_defs = handle_get_random_def handle_key_generate_def handle_crypto_with_handle_def handle_verify_def
  handle_get_handle_info_def handle_get_pubkey_def handle_get_cert_def

end
