(* ===== verification/LogRotate.thy ===== *)
theory LogRotate
  imports Prelude
begin

text \<open>
  The size-bounded log writer, \<^verbatim>\<open>crates/log-rotate/src/lib.rs\<close>. Files are numbered: 0 is the active file,
  \<open>n\<close> the rotated copy \<open>n\<close>. The outcomes of the file system calls that can fail are a list in the
  world, \<open>False\<close> a failure, used up in call order; after its end calls succeed. A write to a file
  takes all its bytes or fails. The handle of the writer is a \<^verbatim>\<open>BufWriter\<close> on the active file, modelled
  by the bytes it holds back; no other process touches the files.
\<close>

section \<open>Model\<close>

record log_world =
  lw_fs :: "nat \<rightharpoonup> bytes"
  lw_io :: "bool list"

datatype log_error = LogIo | LogInvalidInput string | LogExists | LogPanic

record rotating_file_config =
  rc_max_bytes :: u64
  rc_max_rotated :: u32
  rc_sync_each_line :: bool

record rotating_file_writer =
  rw_cfg :: rotating_file_config
  rw_current :: "bytes option"
  rw_current_size :: u64

definition config_new :: "u64 \<Rightarrow> rotating_file_config" where
  "config_new n = \<lparr>rc_max_bytes = n, rc_max_rotated = 1, rc_sync_each_line = False\<rparr>"

definition with_max_rotated :: "rotating_file_config \<Rightarrow> u32 \<Rightarrow> rotating_file_config" where
  "with_max_rotated cfg n = cfg\<lparr>rc_max_rotated := n\<rparr>"

definition with_sync_each_line :: "rotating_file_config \<Rightarrow> bool \<Rightarrow> rotating_file_config" where
  "with_sync_each_line cfg sync = cfg\<lparr>rc_sync_each_line := sync\<rparr>"

text \<open>One fallible call: its outcome and the world after it.\<close>

definition sys :: "log_world \<Rightarrow> bool \<times> log_world" where
  "sys w = (case lw_io w of [] \<Rightarrow> (True, w) | b # bs \<Rightarrow> (b, w\<lparr>lw_io := bs\<rparr>))"

definition sys_do :: "((nat \<rightharpoonup> bytes) \<Rightarrow> (nat \<rightharpoonup> bytes)) \<Rightarrow> log_world \<Rightarrow> log_world \<times> (log_error + unit)" where
  "sys_do act w = (case sys w of (ok, w') \<Rightarrow> if ok then (w'\<lparr>lw_fs := act (lw_fs w')\<rparr>, Ok ()) else (w', Err LogIo))"

definition append_active :: "bytes \<Rightarrow> (nat \<rightharpoonup> bytes) \<Rightarrow> (nat \<rightharpoonup> bytes)" where
  "append_active bs fs = (case fs 0 of None \<Rightarrow> fs | Some old \<Rightarrow> fs(0 \<mapsto> old @ bs))"

definition rename_log :: "nat \<Rightarrow> nat \<Rightarrow> (nat \<rightharpoonup> bytes) \<Rightarrow> (nat \<rightharpoonup> bytes)" where
  "rename_log src dst fs = (fs(dst := fs src))(src := None)"

subsection \<open>The buffered handle\<close>

definition BUF_CAPACITY :: nat where "BUF_CAPACITY = 8192"

definition bw_flush :: "bytes \<Rightarrow> log_world \<Rightarrow> log_world \<times> bytes \<times> (log_error + unit)" where
  "bw_flush buf w =
     (if buf = [] then (w, [], Ok ())
      else case sys_do (append_active buf) w of
             (w', Ok _) \<Rightarrow> (w', [], Ok ())
           | (w', Err e) \<Rightarrow> (w', buf, Err e))"

definition bw_write :: "bytes \<Rightarrow> bytes \<Rightarrow> log_world \<Rightarrow> log_world \<times> bytes \<times> (log_error + nat)" where
  "bw_write buf bs w =
     (if length buf + length bs < BUF_CAPACITY then (w, buf @ bs, Ok (length bs))
      else
        case (if length buf + length bs > BUF_CAPACITY then bw_flush buf w else (w, buf, Ok ())) of
          (w1, buf1, Err e) \<Rightarrow> (w1, buf1, Err e)
        | (w1, buf1, Ok _) \<Rightarrow>
            if length bs \<ge> BUF_CAPACITY
            then (case sys_do (append_active bs) w1 of
                    (w2, Ok _) \<Rightarrow> (w2, buf1, Ok (length bs))
                  | (w2, Err e) \<Rightarrow> (w2, buf1, Err e))
            else (w1, buf1 @ bs, Ok (length bs)))"

subsection \<open>Rotation\<close>

text \<open>Renames of the rotated copies \<open>k\<close> down to 1.\<close>

fun shift_down :: "nat \<Rightarrow> log_world \<Rightarrow> log_world \<times> (log_error + unit)" where
  "shift_down 0 w = (w, Ok ())"
| "shift_down (Suc k) w =
     (if lw_fs w (Suc k) \<noteq> None
      then (case sys_do (rename_log (Suc k) (Suc (Suc k))) w of
              (w', Ok _) \<Rightarrow> shift_down k w'
            | (w', Err e) \<Rightarrow> (w', Err e))
      else shift_down k w)"

definition sys_if :: "bool \<Rightarrow> ((nat \<rightharpoonup> bytes) \<Rightarrow> (nat \<rightharpoonup> bytes)) \<Rightarrow> log_world \<Rightarrow> log_world \<times> (log_error + unit)" where
  "sys_if c act w = (if c then sys_do act w else (w, Ok ()))"

definition do_shift_and_reopen :: "rotating_file_writer \<Rightarrow> log_world \<Rightarrow> rotating_file_writer \<times> log_world \<times> (log_error + unit)" where
  "do_shift_and_reopen r w =
     (let max_n = unat (rc_max_rotated (rw_cfg r))
      in case sys_if (lw_fs w max_n \<noteq> None) (\<lambda>fs. fs(max_n := None)) w of
           (w1, Err e) \<Rightarrow> (r, w1, Err e)
         | (w1, Ok _) \<Rightarrow>
             (case shift_down (max_n - 1) w1 of
                (w2, Err e) \<Rightarrow> (r, w2, Err e)
              | (w2, Ok _) \<Rightarrow>
                  (case sys_if (lw_fs w2 0 \<noteq> None) (rename_log 0 1) w2 of
                     (w3, Err e) \<Rightarrow> (r, w3, Err e)
                   | (w3, Ok _) \<Rightarrow>
                       if lw_fs w3 0 \<noteq> None then (r, w3, Err LogExists)
                       else (case sys_do (\<lambda>fs. fs(0 \<mapsto> [])) w3 of
                               (w4, Err e) \<Rightarrow> (r, w4, Err e)
                             | (w4, Ok _) \<Rightarrow> (r\<lparr>rw_current := Some []\<rparr>, w4, Ok ())))))"

text \<open>Open for appending, creating the file if there is none.\<close>

definition open_append :: "(nat \<rightharpoonup> bytes) \<Rightarrow> (nat \<rightharpoonup> bytes)" where
  "open_append fs = (case fs 0 of None \<Rightarrow> fs(0 \<mapsto> []) | Some _ \<Rightarrow> fs)"

definition file_len :: "log_world \<Rightarrow> u64" where
  "file_len w = (case lw_fs w 0 of None \<Rightarrow> 0 | Some b \<Rightarrow> of_nat (length b))"

definition recover :: "rotating_file_writer \<Rightarrow> log_world \<Rightarrow> rotating_file_writer \<times> log_world" where
  "recover r w =
     (case sys_do open_append w of
        (w1, Err _) \<Rightarrow> (r, w1)
      | (w1, Ok _) \<Rightarrow>
          (case sys w1 of (ok, w2) \<Rightarrow> (r\<lparr>rw_current := Some [], rw_current_size := (if ok then file_len w2 else 0)\<rparr>, w2)))"

text \<open>When the flush fails, dropping the handle tries once more to write what it holds and ignores the outcome.\<close>

definition rotate_log :: "rotating_file_writer \<Rightarrow> log_world \<Rightarrow> rotating_file_writer \<times> log_world \<times> (log_error + unit)" where
  "rotate_log r w =
     (let r0 = r\<lparr>rw_current := None\<rparr>
      in case (case rw_current r of None \<Rightarrow> (w, [], Ok ()) | Some buf \<Rightarrow> bw_flush buf w) of
           (w1, buf, Err e) \<Rightarrow> (r0, fst (bw_flush buf w1), Err e)
         | (w1, _, Ok _) \<Rightarrow>
             (case do_shift_and_reopen r0 w1 of
                (r1, w2, Ok _) \<Rightarrow> (r1\<lparr>rw_current_size := 0\<rparr>, w2, Ok ())
              | (r1, w2, Err e) \<Rightarrow> (case recover r1 w2 of (r2, w3) \<Rightarrow> (r2, w3, Err e))))"

definition sat_add64 :: "u64 \<Rightarrow> nat \<Rightarrow> u64" where
  "sat_add64 a n = (if unat a + n < 2 ^ 64 then a + of_nat n else -1)"

definition writer_open :: "rotating_file_config \<Rightarrow> log_world \<Rightarrow> log_world \<times> (log_error + rotating_file_writer)" where
  "writer_open cfg w =
     (if rc_max_bytes cfg = 0 then (w, Err (LogInvalidInput ''RotatingFileConfig.max_bytes must be > 0''))
      else if rc_max_rotated cfg = 0 then (w, Err (LogInvalidInput ''RotatingFileConfig.max_rotated must be >= 1''))
      else
        case sys_do open_append w of
          (w1, Err e) \<Rightarrow> (w1, Err e)
        | (w1, Ok _) \<Rightarrow>
            (case sys w1 of (ok, w2) \<Rightarrow>
               if \<not> ok then (w2, Err LogIo)
               else
                 let r = \<lparr>rw_cfg = cfg, rw_current = Some [], rw_current_size = file_len w2\<rparr>
                 in if rw_current_size r \<ge> rc_max_bytes cfg
                    then (case rotate_log r w2 of
                            (r', w3, Ok _) \<Rightarrow> (w3, Ok r')
                          | (r', w3, Err e) \<Rightarrow> (w3, Err e))
                    else (w2, Ok r)))"

text \<open>The write into the current file, after a rotation if one was due.\<close>

definition writer_put ::
    "rotating_file_writer \<Rightarrow> bytes \<Rightarrow> log_world \<Rightarrow> rotating_file_writer \<times> log_world \<times> (log_error + nat)" where
  "writer_put r bs w =
     (case rw_current r of
        None \<Rightarrow> (r, w, Err LogPanic)
      | Some buf \<Rightarrow>
          (case bw_write buf bs w of
             (w2, buf2, Err e) \<Rightarrow> (r\<lparr>rw_current := Some buf2\<rparr>, w2, Err e)
           | (w2, buf2, Ok n) \<Rightarrow>
               let r2 = r\<lparr>rw_current := Some buf2, rw_current_size := sat_add64 (rw_current_size r) n\<rparr>
               in if rc_sync_each_line (rw_cfg r) \<and> 10 \<in> set (take n bs)
                  then (case bw_flush buf2 w2 of
                          (w3, buf3, Err e) \<Rightarrow> (r2\<lparr>rw_current := Some buf3\<rparr>, w3, Err e)
                        | (w3, buf3, Ok _) \<Rightarrow>
                            (case sys w3 of (ok, w4) \<Rightarrow>
                               (r2\<lparr>rw_current := Some buf3\<rparr>, w4, if ok then Ok n else Err LogIo)))
                  else (r2, w2, Ok n)))"

definition writer_write ::
    "rotating_file_writer \<Rightarrow> bytes \<Rightarrow> log_world \<Rightarrow> rotating_file_writer \<times> log_world \<times> (log_error + nat)" where
  "writer_write r bs w =
     (case (if sat_add64 (rw_current_size r) (length bs) > rc_max_bytes (rw_cfg r) then rotate_log r w else (r, w, Ok ())) of
        (r1, w1, Err e) \<Rightarrow> (r1, w1, Err e)
      | (r1, w1, Ok _) \<Rightarrow> writer_put r1 bs w1)"

definition writer_flush :: "rotating_file_writer \<Rightarrow> log_world \<Rightarrow> rotating_file_writer \<times> log_world \<times> (log_error + unit)" where
  "writer_flush r w =
     (case rw_current r of
        None \<Rightarrow> (r, w, Ok ())
      | Some buf \<Rightarrow> (case bw_flush buf w of (w', buf', res) \<Rightarrow> (r\<lparr>rw_current := Some buf'\<rparr>, w', res)))"

lemmas log_defs = sys_do_def sys_if_def bw_flush_def bw_write_def

end
