(* ===== verification/Bootstrap.thy ===== *)
theory Bootstrap
  imports Prelude
begin

text \<open>
  The enrolment state of the vHSM daemon, \<^verbatim>\<open>crates/vhsm-server/src/bootstrap.rs\<close>: bootstrap tokens,
  pending enrolments and the record of enrolled VMs, in memory and in \<^verbatim>\<open>bootstrap.yaml\<close>. SHA-256
  (\<open>sha\<close>) and the YAML encoding of the document (\<open>to_yaml\<close>, \<open>from_yaml\<close>) are parameters. The disk is the
  content of the file, \<open>None\<close> when there is none; whether the file system calls of a save or load
  succeed is the argument \<open>io\<close>. Clock readings are arguments, in Unix seconds.
\<close>

section \<open>Model\<close>

record enrolled_record =
  er_consumed_at :: u64
  er_bound_cert_thumbprint :: string

record token_entry =
  te_sha256 :: string
  te_consumed :: bool
  te_consumed_at :: "u64 option"
  te_bound_cert_thumbprint :: "string option"

record pending_enrollment =
  pe_armed_at :: u64
  pe_ttl_secs :: "u64 option"

record state_file =
  sf_tokens :: "(string, token_entry) fmap"
  sf_pending :: "(string, pending_enrollment) fmap"
  sf_enrolled :: "(string, enrolled_record) fmap"

record bootstrap_state =
  bs_entries :: "(string, token_entry) fmap"
  bs_pending :: "(string, pending_enrollment) fmap"
  bs_enrolled :: "(string, enrolled_record) fmap"

datatype consume_outcome = Accepted | UnknownVmId | TokenMismatch | AlreadyConsumed

datatype pending_consume_outcome = PendingAccepted | NotPending | Expired

datatype bootstrap_error = BootstrapIo | BootstrapParse string | BootstrapSerialise string

definition of_file :: "state_file \<Rightarrow> bootstrap_state" where
  "of_file f = \<lparr>bs_entries = sf_tokens f, bs_pending = sf_pending f, bs_enrolled = sf_enrolled f\<rparr>"

definition to_file :: "bootstrap_state \<Rightarrow> state_file" where
  "to_file b = \<lparr>sf_tokens = bs_entries b, sf_pending = bs_pending b, sf_enrolled = bs_enrolled b\<rparr>"

definition bootstrap_load :: "(string \<Rightarrow> string + state_file) \<Rightarrow> bool \<Rightarrow> string option \<Rightarrow> bootstrap_error + bootstrap_state" where
  "bootstrap_load from_yaml io disk =
     (case disk of
        None \<Rightarrow> Ok \<lparr>bs_entries = fmempty, bs_pending = fmempty, bs_enrolled = fmempty\<rparr>
      | Some raw \<Rightarrow>
          if \<not> io then Err BootstrapIo
          else (case from_yaml raw of Err e \<Rightarrow> Err (BootstrapParse e) | Ok f \<Rightarrow> Ok (of_file f)))"

definition bootstrap_reload ::
    "(string \<Rightarrow> string + state_file) \<Rightarrow> bool \<Rightarrow> string option \<Rightarrow> bootstrap_state \<Rightarrow> bootstrap_state \<times> (bootstrap_error + unit)" where
  "bootstrap_reload from_yaml io disk b =
     (case disk of
        None \<Rightarrow> (\<lparr>bs_entries = fmempty, bs_pending = fmempty, bs_enrolled = fmempty\<rparr>, Ok ())
      | Some raw \<Rightarrow>
          if \<not> io then (b, Err BootstrapIo)
          else (case from_yaml raw of
                  Err e \<Rightarrow> (b, Err (BootstrapParse e))
                | Ok f \<Rightarrow> (of_file f, Ok ())))"

text \<open>The write goes to a temporary file that is renamed: a failure leaves the old content.\<close>

definition bootstrap_save ::
    "(state_file \<Rightarrow> string + string) \<Rightarrow> bool \<Rightarrow> bootstrap_state \<Rightarrow> string option \<Rightarrow> string option \<times> (bootstrap_error + unit)" where
  "bootstrap_save to_yaml io b disk =
     (case to_yaml (to_file b) of
        Err e \<Rightarrow> (disk, Err (BootstrapSerialise e))
      | Ok yaml \<Rightarrow> if io then (Some yaml, Ok ()) else (disk, Err BootstrapIo))"

definition hex_digit :: "nat \<Rightarrow> char" where
  "hex_digit k = char_of (if k < 10 then 48 + k else 87 + k)"

definition hex_lower :: "bytes \<Rightarrow> string" where
  "hex_lower bs = concat (map (\<lambda>b. [hex_digit (unat b div 16), hex_digit (unat b mod 16)]) bs)"

definition ct_eq :: "bytes \<Rightarrow> bytes \<Rightarrow> bool" where
  "ct_eq a b = (if length a \<noteq> length b then False
     else foldl (\<lambda>diff i. diff OR (a ! i XOR b ! i)) (0 :: u8) [0..<length a] = 0)"

definition bootstrap_add :: "(bytes \<Rightarrow> bytes) \<Rightarrow> string \<Rightarrow> bytes \<Rightarrow> bootstrap_state \<Rightarrow> bootstrap_state" where
  "bootstrap_add sha vm_id raw_token b =
     b\<lparr>bs_entries := fmupd vm_id
         \<lparr>te_sha256 = hex_lower (sha raw_token), te_consumed = False, te_consumed_at = None, te_bound_cert_thumbprint = None\<rparr>
         (bs_entries b)\<rparr>"

definition bootstrap_consume ::
    "(bytes \<Rightarrow> bytes) \<Rightarrow> u64 \<Rightarrow> string \<Rightarrow> bytes \<Rightarrow> bytes \<Rightarrow> bootstrap_state \<Rightarrow> bootstrap_state \<times> consume_outcome" where
  "bootstrap_consume sha now vm_id raw_token cert_thumbprint b =
     (case fmlookup (bs_entries b) vm_id of
        None \<Rightarrow> (b, UnknownVmId)
      | Some entry \<Rightarrow>
          if te_consumed entry then (b, AlreadyConsumed)
          else if \<not> ct_eq (str_bytes (hex_lower (sha raw_token))) (str_bytes (te_sha256 entry)) then (b, TokenMismatch)
          else (b\<lparr>bs_entries := fmupd vm_id
                   (entry\<lparr>te_consumed := True, te_consumed_at := Some now,
                          te_bound_cert_thumbprint := Some (hex_lower cert_thumbprint)\<rparr>) (bs_entries b)\<rparr>, Accepted))"

definition arm_pending :: "u64 \<Rightarrow> string \<Rightarrow> u64 option \<Rightarrow> bootstrap_state \<Rightarrow> bootstrap_state" where
  "arm_pending armed_at vm_id ttl_secs b =
     b\<lparr>bs_pending := fmupd vm_id \<lparr>pe_armed_at = armed_at, pe_ttl_secs = ttl_secs\<rparr> (bs_pending b)\<rparr>"

definition saturating_sub :: "u64 \<Rightarrow> u64 \<Rightarrow> u64" where
  "saturating_sub a b = (if a < b then 0 else a - b)"

definition consume_pending ::
    "string \<Rightarrow> u64 \<Rightarrow> bytes \<Rightarrow> bootstrap_state \<Rightarrow> bootstrap_state \<times> pending_consume_outcome" where
  "consume_pending vm_id now_unix cert_thumbprint b =
     (case fmlookup (bs_pending b) vm_id of
        None \<Rightarrow> (b, NotPending)
      | Some entry \<Rightarrow>
          if (case pe_ttl_secs entry of None \<Rightarrow> False | Some ttl \<Rightarrow> saturating_sub now_unix (pe_armed_at entry) \<ge> ttl)
          then (b, Expired)
          else (b\<lparr>bs_pending := fmdrop vm_id (bs_pending b),
                  bs_enrolled := fmupd vm_id \<lparr>er_consumed_at = now_unix,
                    er_bound_cert_thumbprint = hex_lower cert_thumbprint\<rparr> (bs_enrolled b)\<rparr>, PendingAccepted))"

definition is_enrolled :: "bootstrap_state \<Rightarrow> string \<Rightarrow> bool" where
  "is_enrolled b vm_id \<longleftrightarrow> fmlookup (bs_enrolled b) vm_id \<noteq> None"

definition clear_enrolled :: "string \<Rightarrow> bootstrap_state \<Rightarrow> bootstrap_state \<times> bool" where
  "clear_enrolled vm_id b = (b\<lparr>bs_enrolled := fmdrop vm_id (bs_enrolled b)\<rparr>, fmlookup (bs_enrolled b) vm_id \<noteq> None)"

section \<open>The comparison and the encoding are exact\<close>

lemma or_fold_zero:
  "foldl (\<lambda>diff i. diff OR f i) (d :: u8) is = 0 \<longleftrightarrow> d = 0 \<and> (\<forall>i \<in> set is. f i = 0)"
  by (induction "is" arbitrary: d) (auto simp: or_eq_0_iff)

lemma xor_zero: "x XOR y = (0 :: u8) \<Longrightarrow> x = y"
proof (rule bit_word_eqI)
  fix n assume "x XOR y = 0" "n < LENGTH(8)"
  then have "\<not> bit (x XOR y) n" by simp
  then show "bit x n = bit y n" by (simp add: bit_simps)
qed

text \<open>The constant-time loop decides equality.\<close>

lemma ct_eq_iff: "ct_eq a b \<longleftrightarrow> a = b"
proof
  assume h: "ct_eq a b"
  then have l: "length a = length b" by (simp add: ct_eq_def split: if_splits)
  have "a ! i XOR b ! i = 0" if "i < length a" for i
    using h l that by (auto simp: ct_eq_def or_fold_zero)
  then have "a ! i = b ! i" if "i < length a" for i
    using that xor_zero by blast
  then show "a = b" using l by (intro nth_equalityI) auto
next
  assume "a = b"
  then show "ct_eq a b"
    using or_fold_zero [of "\<lambda>i. a ! i XOR b ! i" 0 "[0..<length a]"] by (simp add: ct_eq_def)
qed

lemma hex_digit_inject: "k < 16 \<Longrightarrow> l < 16 \<Longrightarrow> hex_digit k = hex_digit l \<longleftrightarrow> k = l"
proof -
  assume k: "k < 16" "l < 16"
  have "(of_char (hex_digit j) :: nat) = (if j < 10 then 48 + j else 87 + j)" if "j < 16" for j
    using that by (simp add: hex_digit_def of_char_of)
  then have "hex_digit k = hex_digit l \<Longrightarrow> (if k < 10 then 48 + k else 87 + k) = (if l < 10 then 48 + l else 87 + l)"
    using k by metis
  then show "hex_digit k = hex_digit l \<longleftrightarrow> k = l" by (auto split: if_splits)
qed

lemma hex_lower_inject: "hex_lower a = hex_lower b \<longleftrightarrow> a = b"
proof (induction a arbitrary: b)
  case Nil
  then show ?case by (cases b) (simp_all add: hex_lower_def)
next
  case (Cons x a)
  have d: "unat y div 16 < 16" "unat y mod 16 < 16" for y :: u8 using unat_u8_le [of y] by auto
  have "unat x div 16 = unat y div 16 \<and> unat x mod 16 = unat y mod 16 \<longleftrightarrow> x = y" for y
    by (metis div_mult_mod_eq word_unat_eq_iff)
  then show ?case
    using Cons.IH d by (cases b) (auto simp: hex_lower_def hex_digit_inject)
qed

end
