(* ===== verification/AuditLog.thy ===== *)
theory AuditLog
  imports VhsmHandler LogRotate Bootstrap
begin

text \<open>
  The audit log of the vHSM daemon, \<^verbatim>\<open>crates/vhsm-server/src/audit.rs\<close>: one record per dispatched request,
  written to a rotating file with a sync on each line. The JSON encoding (\<open>json\<close>) is a parameter, the
  time stamp and the text of the peer's address are arguments.
\<close>

record audit_record =
  ar_ts :: string
  ar_vm_id :: string
  ar_cert_thumbprint :: string
  ar_peer_ip :: string
  ar_op_code :: string
  ar_op_name :: string
  ar_session_id :: u32
  ar_status_code :: u32
  ar_status_name :: string
  ar_handle :: "string option"
  ar_iam_decision :: string
  ar_iam_statement :: "nat option"
  ar_payload_len_in :: nat
  ar_payload_len_out :: nat

definition DEFAULT_MAX_BYTES :: u64 where "DEFAULT_MAX_BYTES = 64 * 1024 * 1024"
definition DEFAULT_MAX_ROTATED :: u32 where "DEFAULT_MAX_ROTATED = 4"

definition render_authz :: "authz_outcome \<Rightarrow> string \<times> nat option" where
  "render_authz p = (case p of AuthzAllow i \<Rightarrow> (''allow'', Some i) | AuthzDeny \<Rightarrow> (''deny'', None) | Bypass \<Rightarrow> (''bypass'', None))"

definition op_name_for :: "op \<Rightarrow> string" where
  "op_name_for p = (case p of
       GetRandom \<Rightarrow> ''GET_RANDOM'' | KeyGenerate \<Rightarrow> ''KEY_GENERATE'' | KeyImport \<Rightarrow> ''KEY_IMPORT'' | KeyDerive \<Rightarrow> ''KEY_DERIVE''
     | KeyDelete \<Rightarrow> ''KEY_DELETE'' | Encrypt \<Rightarrow> ''ENCRYPT'' | Decrypt \<Rightarrow> ''DECRYPT'' | MacGenerate \<Rightarrow> ''MAC_GENERATE''
     | MacVerify \<Rightarrow> ''MAC_VERIFY'' | Sign \<Rightarrow> ''SIGN'' | Verify \<Rightarrow> ''VERIFY'' | GetHandleInfo \<Rightarrow> ''GET_HANDLE_INFO''
     | GetPubkey \<Rightarrow> ''GET_PUBKEY'' | GetCert \<Rightarrow> ''GET_CERT'' | Hello \<Rightarrow> ''HELLO'' | Auth \<Rightarrow> ''AUTH'' | AuthOk \<Rightarrow> ''AUTH_OK''
     | Enroll \<Rightarrow> ''ENROLL'' | EnrollAssisted \<Rightarrow> ''ENROLL_ASSISTED'')"

definition status_name :: "u32 \<Rightarrow> string" where
  "status_name code =
     (if code = status_u32 StOk then ''OK''
      else if code = status_u32 InvalidHandle then ''INVALID_HANDLE''
      else if code = status_u32 PermissionDeny then ''PERMISSION_DENY''
      else if code = status_u32 PolicyReject then ''POLICY_REJECT''
      else if code = status_u32 HseError then ''HSE_ERROR''
      else if code = status_u32 InvalidParam then ''INVALID_PARAM''
      else if code = status_u32 NoResource then ''NO_RESOURCE''
      else if code = status_u32 StorageError then ''STORAGE_ERROR''
      else if code = status_u32 CryptoError then ''CRYPTO_ERROR''
      else if code = status_u32 Internal then ''INTERNAL''
      else ''<unknown>'')"

definition extract_handle :: "request \<Rightarrow> u32 option" where
  "extract_handle req =
     (case op_from_u32 (rq_op req) of
        None \<Rightarrow> None
      | Some p \<Rightarrow>
          if p \<notin> {Encrypt, Decrypt, MacGenerate, MacVerify, Sign, Verify, GetHandleInfo, GetPubkey, GetCert, KeyDerive, KeyDelete}
             \<or> length (rq_payload req) < 4
          then None
          else Some (get_u32_le (rq_payload req) 0))"

text \<open>\<^verbatim>\<open>0x{:08x}\<close>.\<close>

definition hex_code :: "u32 \<Rightarrow> string" where
  "hex_code v = ''0x'' @ hex_lower (rev (le_bytes v))"

definition audit_build :: "string \<Rightarrow> string \<Rightarrow> caller_id \<Rightarrow> request \<Rightarrow> response \<Rightarrow> authz_outcome \<Rightarrow> audit_record" where
  "audit_build ts peer caller req resp outcome =
     (case render_authz outcome of (iam_decision, iam_statement) \<Rightarrow>
        \<lparr>ar_ts = ts, ar_vm_id = cl_vm_id caller, ar_cert_thumbprint = hex_lower (cl_cert_thumbprint caller), ar_peer_ip = peer,
         ar_op_code = hex_code (rq_op req),
         ar_op_name = (case op_from_u32 (rq_op req) of Some p \<Rightarrow> op_name_for p | None \<Rightarrow> ''<unknown>''),
         ar_session_id = rq_session_id req, ar_status_code = rs_status resp, ar_status_name = status_name (rs_status resp),
         ar_handle = map_option hex_code (extract_handle req), ar_iam_decision = iam_decision, ar_iam_statement = iam_statement,
         ar_payload_len_in = length (rq_payload req), ar_payload_len_out = length (rs_payload resp)\<rparr>)"

text \<open>An audit logger is the writer, \<open>None\<close> when auditing is off.\<close>

definition audit_open :: "u64 \<Rightarrow> u32 \<Rightarrow> log_world \<Rightarrow> log_world \<times> (log_error + rotating_file_writer option)" where
  "audit_open max_bytes max_rotated w =
     (case writer_open (with_sync_each_line (with_max_rotated (config_new max_bytes) max_rotated) True) w of
        (w', Ok r) \<Rightarrow> (w', Ok (Some r))
      | (w', Err e) \<Rightarrow> (w', Err e))"

definition write_all_log :: "rotating_file_writer \<Rightarrow> bytes \<Rightarrow> log_world \<Rightarrow> rotating_file_writer \<times> log_world \<times> (log_error + unit)" where
  "write_all_log r bs w =
     (if bs = [] then (r, w, Ok ())
      else case writer_write r bs w of (r', w', Ok n) \<Rightarrow> (r', w', Ok ()) | (r', w', Err e) \<Rightarrow> (r', w', Err e))"

definition audit_record_op ::
    "(audit_record \<Rightarrow> bytes option) \<Rightarrow> string \<Rightarrow> string \<Rightarrow> caller_id \<Rightarrow> request \<Rightarrow> response \<Rightarrow> authz_outcome
       \<Rightarrow> rotating_file_writer option \<Rightarrow> log_world \<Rightarrow> rotating_file_writer option \<times> log_world \<times> (log_error + unit)" where
  "audit_record_op json ts peer caller req resp outcome logger w =
     (case logger of
        None \<Rightarrow> (None, w, Ok ())
      | Some r \<Rightarrow>
          (case json (audit_build ts peer caller req resp outcome) of
             None \<Rightarrow> (Some r, w, Err LogIo)
           | Some line \<Rightarrow> (case write_all_log r (line @ [10]) w of (r', w', res) \<Rightarrow> (Some r', w', res))))"

text \<open>
  A write takes the whole buffer, so one call of \<^verbatim>\<open>write\<close> completes \<^verbatim>\<open>write_all\<close>.
\<close>

lemma bw_write_all: "bw_write buf bs w = (w', buf', Ok n) \<Longrightarrow> n = length bs"
  by (auto simp: bw_write_def split: if_splits prod.splits sum.splits)

lemma writer_put_all: "writer_put r bs w = (r', w', Ok n) \<Longrightarrow> n = length bs"
  by (auto simp: writer_put_def Let_def dest: bw_write_all split: option.splits prod.splits sum.splits if_splits)

lemma writer_write_all: "writer_write r bs w = (r', w', Ok n) \<Longrightarrow> n = length bs"
  by (auto simp: writer_write_def dest: writer_put_all split: prod.splits sum.splits if_splits)

end
