(* ===== verification/Secstore.thy ===== *)
theory Secstore
  imports Bootstrap NvTypes
begin

text \<open>
  The store of handle metadata, \<^verbatim>\<open>crates/secstore/src/lib.rs\<close> with the development encryptor
  (\<^verbatim>\<open>linux_encryptor.rs\<close>) and the file backend (\<^verbatim>\<open>file_backend.rs\<close>) it is used with. A directory is a
  finite map from file names to contents, \<open>None\<close> when it does not exist; the order in which the
  system lists it is an argument, as are the random initialisation vector and whether each file
  system call succeeds.
\<close>

section \<open>Model\<close>

record key_metadata =
  km_vhsm_handle :: u32
  km_key_id :: string
  km_algorithm :: u32
  km_permitted_ops :: u32
  km_owner_vm_id :: string
  km_persistent :: bool
  km_label :: string

datatype secstore_error = SecIo | SecCrypto string | SecFormat string

type_synonym directory = "(string, bytes) fmap option"

definition serialize_str :: "string \<Rightarrow> bytes" where
  "serialize_str s = (let bs = str_bytes s in le_bytes (of_nat (length bs) :: u16) @ bs)"

definition serialize_metadata :: "key_metadata \<Rightarrow> bytes" where
  "serialize_metadata m =
     le_bytes (km_vhsm_handle m) @ le_bytes (km_algorithm m) @ le_bytes (km_permitted_ops m)
     @ [if km_persistent m then 1 else 0]
     @ concat (map serialize_str [km_key_id m, km_owner_vm_id m, km_label m])"

text \<open>\<open>take_str\<close>: the string at a position and the position after it.\<close>

definition take_str :: "bytes \<Rightarrow> nat \<Rightarrow> (string \<times> nat) option" where
  "take_str data pos =
     (if length data < pos + 2 then None
      else
        let len = unat (get_u16_le data pos)
        in if length data < pos + 2 + len then None
           else map_option (\<lambda>s. (s, pos + 2 + len)) (from_utf8 (get_bytes len data (pos + 2))))"

definition deserialize_metadata :: "bytes \<Rightarrow> key_metadata option" where
  "deserialize_metadata data =
     (if length data < 13 then None
      else
        Option.bind (take_str data 13) (\<lambda>(key_id, p1).
        Option.bind (take_str data p1) (\<lambda>(owner_vm_id, p2).
        Option.bind (take_str data p2) (\<lambda>(label, p3).
          Some \<lparr>km_vhsm_handle = get_u32_le data 0, km_key_id = key_id, km_algorithm = get_u32_le data 4,
                km_permitted_ops = get_u32_le data 8, km_owner_vm_id = owner_vm_id, km_persistent = (get_u8 data 12 \<noteq> 0),
                km_label = label\<rparr>))))"

text \<open>The development encryptor: the key stream is the key and the initialisation vector, both repeated.\<close>

definition key_stream :: "bytes \<Rightarrow> bytes \<Rightarrow> bytes \<Rightarrow> bytes" where
  "key_stream key iv bs = map (\<lambda>i. (bs ! i XOR key ! (i mod 16)) XOR iv ! (i mod 12)) [0..<length bs]"

definition encrypt_blob :: "bytes \<Rightarrow> bytes \<Rightarrow> bytes \<Rightarrow> bytes" where
  "encrypt_blob key iv plaintext = iv @ key_stream key iv plaintext"

definition decrypt_blob :: "bytes \<Rightarrow> bytes \<Rightarrow> secstore_error + bytes" where
  "decrypt_blob key ciphertext =
     (if length ciphertext < 12 then Err (SecCrypto ''ciphertext too short'')
      else Ok (key_stream key (take 12 ciphertext) (drop 12 ciphertext)))"

definition default_test_key :: bytes where "default_test_key = replicate 16 0x42"

definition fb_read :: "bool \<Rightarrow> directory \<Rightarrow> string \<Rightarrow> secstore_error + bytes option" where
  "fb_read io d key =
     (case Option.bind d (\<lambda>m. fmlookup m key) of
        None \<Rightarrow> Ok None
      | Some data \<Rightarrow> if io then Ok (Some data) else Err SecIo)"

definition fb_write :: "bool \<Rightarrow> directory \<Rightarrow> string \<Rightarrow> bytes \<Rightarrow> directory \<times> (secstore_error + unit)" where
  "fb_write io d key data =
     (if io then (Some (fmupd key data (case d of None \<Rightarrow> fmempty | Some m \<Rightarrow> m)), Ok ()) else (d, Err SecIo))"

definition fb_delete :: "bool \<Rightarrow> directory \<Rightarrow> string \<Rightarrow> directory \<times> (secstore_error + unit)" where
  "fb_delete io d key =
     (case Option.bind d (\<lambda>m. fmlookup m key) of
        None \<Rightarrow> (d, Ok ())
      | Some _ \<Rightarrow> if io then (map_option (fmdrop key) d, Ok ()) else (d, Err SecIo))"

definition fb_list :: "bool \<Rightarrow> string list \<Rightarrow> directory \<Rightarrow> secstore_error + string list" where
  "fb_list io order d =
     (case d of
        None \<Rightarrow> Ok []
      | Some _ \<Rightarrow> if io then Ok (filter (\<lambda>name. \<not> (name \<noteq> [] \<and> hd name = CHR ''.'')) order) else Err SecIo)"

text \<open>\<^verbatim>\<open>handle_{:08x}\<close>: eight hexadecimal digits.\<close>

definition handle_file :: "u32 \<Rightarrow> string" where
  "handle_file h = ''handle_'' @ hex_lower (rev (le_bytes h))"

definition ss_store :: "bytes \<Rightarrow> bool \<Rightarrow> bytes \<Rightarrow> directory \<Rightarrow> key_metadata \<Rightarrow> directory \<times> (secstore_error + unit)" where
  "ss_store key io iv d m = fb_write io d (handle_file (km_vhsm_handle m)) (encrypt_blob key iv (serialize_metadata m))"

text \<open>The loop of \<open>load_all\<close> over the listed names; \<open>rd\<close> says which reads succeed.\<close>

fun load_each :: "bytes \<Rightarrow> (string \<Rightarrow> bool) \<Rightarrow> directory \<Rightarrow> string list \<Rightarrow> secstore_error + key_metadata list" where
  "load_each key rd d [] = Ok []"
| "load_each key rd d (k # ks) =
     and_then (fb_read (rd k) d k) (\<lambda>blob.
       case blob of
         None \<Rightarrow> load_each key rd d ks
       | Some ciphertext \<Rightarrow>
           and_then (decrypt_blob key ciphertext) (\<lambda>plaintext.
             case deserialize_metadata plaintext of
               Some m \<Rightarrow> and_then (load_each key rd d ks) (\<lambda>ms. Ok (m # ms))
             | None \<Rightarrow> load_each key rd d ks))"

definition ss_load_all :: "bytes \<Rightarrow> bool \<Rightarrow> (string \<Rightarrow> bool) \<Rightarrow> string list \<Rightarrow> directory \<Rightarrow> secstore_error + key_metadata list" where
  "ss_load_all key io rd order d = and_then (fb_list io order d) (load_each key rd d)"

definition ss_delete :: "bool \<Rightarrow> directory \<Rightarrow> u32 \<Rightarrow> directory \<times> (secstore_error + unit)" where
  "ss_delete io d h = fb_delete io d (handle_file h)"

section \<open>Serialisation and encryption\<close>

text \<open>The strings of a record fit their length prefix and are UTF-8.\<close>

definition str_fits :: "string \<Rightarrow> bool" where
  "str_fits s \<longleftrightarrow> length s < 65536 \<and> utf8_valid (str_bytes s)"

definition meta_fits :: "key_metadata \<Rightarrow> bool" where
  "meta_fits m \<longleftrightarrow> str_fits (km_key_id m) \<and> str_fits (km_owner_vm_id m) \<and> str_fits (km_label m)"

lemma take_str_serialized:
  assumes "str_fits s"
  shows "take_str (xs @ serialize_str s @ ys) (length xs) = Some (s, length xs + 2 + length s)"
proof -
  have u: "unat (of_nat (length s) :: u16) = length s" using assms by (simp add: str_fits_def unat_of_nat)
  have "get_u16_le (xs @ serialize_str s @ ys) (length xs) = of_nat (length s)"
    by (simp add: serialize_str_def Let_def get_u16_le_def get_bytes_def)
  moreover have "get_bytes (length s) (xs @ serialize_str s @ ys) (length xs + 2) = str_bytes s"
    by (simp add: serialize_str_def Let_def get_bytes_def)
  ultimately show ?thesis
    using assms u by (simp add: take_str_def from_utf8_str_bytes str_fits_def serialize_str_def Let_def)
qed

lemma length_serialize_str: "length (serialize_str s) = 2 + length s"
  by (simp add: serialize_str_def Let_def)

lemma metadata_roundtrip:
  assumes "meta_fits m"
  shows "deserialize_metadata (serialize_metadata m) = Some m"
proof -
  let ?h = "le_bytes (km_vhsm_handle m) @ le_bytes (km_algorithm m) @ le_bytes (km_permitted_ops m) @ [if km_persistent m then 1 else 0]"
  let ?k = "serialize_str (km_key_id m)" and ?o = "serialize_str (km_owner_vm_id m)" and ?l = "serialize_str (km_label m)"
  have d: "serialize_metadata m = ?h @ ?k @ ?o @ ?l" by (simp add: serialize_metadata_def)
  have len: "length ?h = 13" by simp
  have t1: "take_str (serialize_metadata m) 13 = Some (km_key_id m, 13 + 2 + length (km_key_id m))"
    using take_str_serialized [of "km_key_id m" ?h "?o @ ?l"] assms len unfolding d meta_fits_def by simp
  have t2: "take_str (serialize_metadata m) (15 + length (km_key_id m)) = Some (km_owner_vm_id m, 15 + length (km_key_id m) + 2 + length (km_owner_vm_id m))"
    using take_str_serialized [of "km_owner_vm_id m" "?h @ ?k" ?l] assms len
    unfolding d meta_fits_def by (simp add: length_serialize_str)
  have t3: "take_str (serialize_metadata m) (17 + length (km_key_id m) + length (km_owner_vm_id m)) = Some (km_label m, 17 + length (km_key_id m) + length (km_owner_vm_id m) + 2 + length (km_label m))"
    using take_str_serialized [of "km_label m" "?h @ ?k @ ?o" "[]"] assms len
    unfolding d meta_fits_def by (simp add: length_serialize_str add_ac)
  have n: "\<not> length (serialize_metadata m) < 13" unfolding d by simp
  have f: "get_u32_le (serialize_metadata m) 0 = km_vhsm_handle m" "get_u32_le (serialize_metadata m) 4 = km_algorithm m"
      "get_u32_le (serialize_metadata m) 8 = km_permitted_ops m" "(get_u8 (serialize_metadata m) 12 \<noteq> 0) = km_persistent m"
    unfolding d by (simp_all add: get_word_defs get_bytes_def get_u8_def nth_append)
  show ?thesis
    using t1 t2 t3 n f by (simp add: deserialize_metadata_def add_ac)
qed

lemma xor_cancel: "((b XOR k) XOR v) XOR k XOR v = (b :: u8)"
  by (simp add: xor.assoc xor.left_commute)

lemma decrypt_encrypt:
  assumes "length iv = 12"
  shows "decrypt_blob key (encrypt_blob key iv p) = Ok p"
proof -
  have "key_stream key iv (key_stream key iv p) = p"
    by (rule nth_equalityI) (simp_all add: key_stream_def xor.assoc xor.left_commute)
  then show ?thesis using assms by (simp add: decrypt_blob_def encrypt_blob_def)
qed

lemma handle_file_inject: "handle_file g = handle_file h \<longleftrightarrow> g = h"
  using le_bytes_inject [of g h] by (auto simp: handle_file_def hex_lower_inject)

section \<open>The store is a map from handles to metadata\<close>

datatype ss_op = SsStore bytes key_metadata | SsDelete u32

fun ss_run :: "bytes \<Rightarrow> ss_op list \<Rightarrow> directory \<Rightarrow> directory" where
  "ss_run key [] d = d"
| "ss_run key (SsStore iv m # ops) d = ss_run key ops (fst (ss_store key True iv d m))"
| "ss_run key (SsDelete h # ops) d = ss_run key ops (fst (ss_delete True d h))"

fun ss_abs :: "ss_op list \<Rightarrow> (u32 \<rightharpoonup> key_metadata) \<Rightarrow> (u32 \<rightharpoonup> key_metadata)" where
  "ss_abs [] f = f"
| "ss_abs (SsStore iv m # ops) f = ss_abs ops (f(km_vhsm_handle m \<mapsto> m))"
| "ss_abs (SsDelete h # ops) f = ss_abs ops (f(h := None))"

definition op_fits :: "ss_op \<Rightarrow> bool" where
  "op_fits p = (case p of SsStore iv m \<Rightarrow> length iv = 12 \<and> meta_fits m | SsDelete h \<Rightarrow> True)"

text \<open>The files of the directory are the encrypted records of the abstract map.\<close>

definition ss_rep :: "bytes \<Rightarrow> directory \<Rightarrow> (u32 \<rightharpoonup> key_metadata) \<Rightarrow> bool" where
  "ss_rep key d f \<longleftrightarrow>
     (let look = (\<lambda>n. Option.bind d (\<lambda>m. fmlookup m n))
      in (\<forall>h. look (handle_file h) = None \<longleftrightarrow> f h = None)
         \<and> (\<forall>h m. f h = Some m \<longrightarrow> km_vhsm_handle m = h
              \<and> (\<exists>c. look (handle_file h) = Some c \<and> and_then (decrypt_blob key c) (\<lambda>p. Ok (deserialize_metadata p)) = Ok (Some m)))
         \<and> (\<forall>n. look n \<noteq> None \<longrightarrow> (\<exists>h. n = handle_file h)))"

lemma ss_repD:
  assumes "ss_rep key (Some dir) f"
  shows "fmlookup dir (handle_file h) = None \<longleftrightarrow> f h = None" "f h = Some m \<Longrightarrow> km_vhsm_handle m = h"
    "fmlookup dir n \<noteq> None \<Longrightarrow> \<exists>h. n = handle_file h"
  using assms unfolding ss_rep_def Let_def by simp_all

lemma ss_rep_empty: "ss_rep key None Map.empty"
  by (simp add: ss_rep_def)

lemma ss_rep_store:
  assumes "ss_rep key d f" "length iv = 12" "meta_fits m"
  shows "ss_rep key (fst (ss_store key True iv d m)) (f(km_vhsm_handle m \<mapsto> m))"
proof -
  let ?c = "encrypt_blob key iv (serialize_metadata m)" and ?h = "km_vhsm_handle m"
  have look: "Option.bind (fst (ss_store key True iv d m)) (\<lambda>mm. fmlookup mm n)
      = (if n = handle_file ?h then Some ?c else Option.bind d (\<lambda>m. fmlookup m n))" for n
    by (cases d) (simp_all add: ss_store_def fb_write_def)
  have dec: "and_then (decrypt_blob key ?c) (\<lambda>p. Ok (deserialize_metadata p)) = Ok (Some m)"
    using decrypt_encrypt [OF assms(2)] metadata_roundtrip [OF assms(3)] by simp
  show ?thesis
    using assms(1) dec unfolding ss_rep_def look Let_def by (auto simp: handle_file_inject)
qed

lemma ss_rep_delete:
  assumes "ss_rep key d f"
  shows "ss_rep key (fst (ss_delete True d h)) (f(h := None))"
proof -
  have look: "Option.bind (fst (ss_delete True d h)) (\<lambda>mm. fmlookup mm n)
      = (if n = handle_file h then None else Option.bind d (\<lambda>m. fmlookup m n))" for n
    by (cases d) (auto simp: ss_delete_def fb_delete_def split: option.splits)
  show ?thesis
    using assms unfolding ss_rep_def look Let_def by (auto simp: handle_file_inject)
qed

lemma ss_rep_run: "ss_rep key d f \<Longrightarrow> list_all op_fits ops \<Longrightarrow> ss_rep key (ss_run key ops d) (ss_abs ops f)"
  by (induction key ops d arbitrary: f rule: ss_run.induct)
     (auto simp: op_fits_def dest: ss_rep_store ss_rep_delete)

lemma load_each_rep:
  assumes "ss_rep key d f" "\<forall>n. rd n"
  shows "load_each key rd d (map handle_file hs) = Ok (List.map_filter f hs)"
proof (induction hs)
  case (Cons h hs)
  show ?case
  proof (cases "f h")
    case None
    then have "Option.bind d (\<lambda>m. fmlookup m (handle_file h)) = None"
      using assms(1) unfolding ss_rep_def Let_def by blast
    then have "fb_read (rd (handle_file h)) d (handle_file h) = Ok None" by (simp add: fb_read_def)
    then show ?thesis using Cons.IH None by (simp add: List.map_filter_def)
  next
    case (Some m)
    then obtain c where c: "Option.bind d (\<lambda>m. fmlookup m (handle_file h)) = Some c"
        "and_then (decrypt_blob key c) (\<lambda>p. Ok (deserialize_metadata p)) = Ok (Some m)"
      using assms(1) unfolding ss_rep_def Let_def by blast
    obtain p where p: "decrypt_blob key c = Ok p" "deserialize_metadata p = Some m"
      using c(2) by (auto simp: and_then_eq_Ok)
    show ?thesis using Cons.IH c(1) p Some assms(2) by (simp add: fb_read_def List.map_filter_def)
  qed
qed (simp add: List.map_filter_def)

text \<open>C38: The store of handle metadata is a map. After any sequence of stores and deletes on an empty directory, loading
  everything returns, in whatever order the system lists the files, exactly the last metadata of
  every handle that was stored and not deleted since, each once: encryption, serialisation and file
  names lose and confuse nothing, for strings of less than 65536 bytes of UTF-8.\<close>

theorem secstore_is_map:
  assumes "list_all op_fits ops" "\<forall>n. rd n"
    and "distinct order" "set order = fset (fmdom (case ss_run key ops None of None \<Rightarrow> fmempty | Some m \<Rightarrow> m))"
  shows "\<exists>ms. ss_load_all key True rd order (ss_run key ops None) = Ok ms \<and> distinct (map km_vhsm_handle ms)
    \<and> set ms = ran (ss_abs ops Map.empty)"
proof (cases "ss_run key ops None")
  case None
  have rep: "ss_rep key (ss_run key ops None) (ss_abs ops Map.empty)" by (rule ss_rep_run [OF ss_rep_empty assms(1)])
  then have "ss_abs ops Map.empty = Map.empty" using None by (simp add: ss_rep_def fun_eq_iff)
  then show ?thesis using None by (simp add: ss_load_all_def fb_list_def)
next
  case (Some dir)
  let ?f = "ss_abs ops Map.empty"
  have rep: "ss_rep key (Some dir) ?f" using ss_rep_run [OF ss_rep_empty assms(1), of key] Some by simp
  have "set order = fmdom' dir" using assms(4) Some by (simp add: fmdom'_alt_def)
  then have ord: "set order = {n. fmlookup dir n \<noteq> None}" by (simp add: set_eq_iff fmlookup_dom'_iff)
  then have "\<forall>n \<in> set order. \<exists>h. n = handle_file h" using ss_repD(3) [OF rep] by simp
  then obtain hs where hs: "order = map handle_file hs" by (metis ex_map_conv)
  have dist: "distinct hs" using assms(3) hs by (simp add: distinct_map)
  note some = ss_repD(1) [OF rep] and hnd = ss_repD(2) [OF rep]
  have mem: "h \<in> set hs \<longleftrightarrow> handle_file h \<in> set order" for h
    unfolding hs by (auto simp: handle_file_inject)
  have dom: "set hs = dom ?f"
    by (rule set_eqI) (simp only: mem ord mem_Collect_eq some dom_def)
  have nodot: "filter (\<lambda>name. \<not> (name \<noteq> [] \<and> hd name = CHR ''.'')) order = order"
    by (simp add: hs handle_file_def filter_id_conv)
  have load: "ss_load_all key True rd order (ss_run key ops None) = Ok (List.map_filter ?f hs)"
    using load_each_rep [OF rep assms(2), of hs] hs nodot Some by (simp add: ss_load_all_def fb_list_def)
  have "map km_vhsm_handle (List.map_filter ?f hs) = hs" if "set hs \<subseteq> dom ?f" for hs
    using that by (induction hs) (auto simp: List.map_filter_def hnd)
  then have "distinct (map km_vhsm_handle (List.map_filter ?f hs))" using dist dom by simp
  moreover have "set (List.map_filter ?f hs) = ran ?f"
    using dom by (auto simp: List.map_filter_def ran_def) force
  ultimately show ?thesis using load by blast
qed

text \<open>Two handles stored, one of them twice, one deleted.\<close>

definition sample_meta :: "u32 \<Rightarrow> key_metadata" where
  "sample_meta h = \<lparr>km_vhsm_handle = h, km_key_id = ''gen-vm1-3'', km_algorithm = 5, km_permitted_ops = 16, km_owner_vm_id = ''vm1'',
     km_persistent = True, km_label = ''k''\<rparr>"

definition sample_ops :: "ss_op list" where
  "sample_ops = [SsStore (replicate 12 1) (sample_meta 0x8000), SsStore (replicate 12 2) (sample_meta 0x8001), SsDelete 0x8000]"

theorem secstore_is_map_witness:
  "\<exists>ms. ss_load_all default_test_key True (\<lambda>_. True) [handle_file 0x8001] (ss_run default_test_key sample_ops None) = Ok ms
     \<and> set ms = {sample_meta 0x8001}"
proof -
  have fits: "list_all op_fits sample_ops"
    by (simp add: sample_ops_def op_fits_def meta_fits_def str_fits_def sample_meta_def) code_simp
  have "handle_file 0x8000 \<noteq> handle_file 0x8001" by (simp add: handle_file_inject)
  then have dir: "fset (fmdom (case ss_run default_test_key sample_ops None of None \<Rightarrow> fmempty | Some m \<Rightarrow> m)) = {handle_file 0x8001}"
    by (auto simp: sample_ops_def ss_store_def fb_write_def ss_delete_def fb_delete_def sample_meta_def)
  have "ran (ss_abs sample_ops Map.empty) = {sample_meta 0x8001}"
    by (auto simp: sample_ops_def ran_def sample_meta_def split: if_splits)
  then show ?thesis
    using secstore_is_map [OF fits, of "\<lambda>_. True" "[handle_file 0x8001]" default_test_key] dir by auto
qed

end
