(* ===== verification/Cert.thy ===== *)
theory Cert
  imports VhsmProto
begin

text \<open>
  CWT certificates of the vHSM daemon, \<^verbatim>\<open>crates/vhsm-server/src/cert.rs\<close> with the labels of
  \<^verbatim>\<open>crates/vhsm-proto/src/cwt.rs\<close>: validation and minting. The COSE, CBOR and P-256 libraries and SHA-256
  are parameters, collected in \<open>cose_ops\<close>: decoding of the envelope into payload, signature and
  the bytes that were signed, decoding of a public point, signature check, CBOR decoding and
  encoding, the CBOR form of a COSE key, and the build of a signed envelope. A CBOR value has the
  constructors the code matches on; \<open>CborOther\<close> stands for the rest. Times are Unix seconds, \<open>None\<close> a
  clock before 1970.
\<close>

section \<open>Model\<close>

datatype cbor = CborInt int | CborBytes bytes | CborText string | CborMap "(cbor \<times> cbor) list" | CborOther nat

record cose_sign1 =
  cs_payload :: "bytes option"
  cs_signature :: bytes
  cs_tbs :: bytes

record ('k, 's) cose_ops =
  co_from_slice :: "bytes \<Rightarrow> cose_sign1 option"
  co_build :: "bytes \<Rightarrow> (bytes \<Rightarrow> bytes) \<Rightarrow> bytes option"
  co_point :: "bytes \<Rightarrow> 'k option"
  co_sig :: "bytes \<Rightarrow> 's option"
  co_verify :: "'k \<Rightarrow> bytes \<Rightarrow> 's \<Rightarrow> bool"
  co_decode :: "bytes \<Rightarrow> cbor option"
  co_encode :: "cbor \<Rightarrow> bytes option"
  co_key_cbor :: "bytes \<Rightarrow> bytes \<Rightarrow> cbor option"
  co_sha256 :: "bytes \<Rightarrow> bytes"

definition VHSM_AUDIENCE :: string where "VHSM_AUDIENCE = ''vhsm-ssd''"
definition CLAIM_ISS :: int where "CLAIM_ISS = 1"
definition CLAIM_SUB :: int where "CLAIM_SUB = 2"
definition CLAIM_AUD :: int where "CLAIM_AUD = 3"
definition CLAIM_EXP :: int where "CLAIM_EXP = 4"
definition CLAIM_NBF :: int where "CLAIM_NBF = 5"
definition CLAIM_IAT :: int where "CLAIM_IAT = 6"
definition CLAIM_CTI :: int where "CLAIM_CTI = 7"
definition CLAIM_CNF :: int where "CLAIM_CNF = -65537"
definition COSE_KEY_KTY :: int where "COSE_KEY_KTY = 1"
definition COSE_KEY_ALG :: int where "COSE_KEY_ALG = 3"
definition COSE_KEY_EC2_CRV :: int where "COSE_KEY_EC2_CRV = -1"
definition COSE_KEY_EC2_X :: int where "COSE_KEY_EC2_X = -2"
definition COSE_KEY_EC2_Y :: int where "COSE_KEY_EC2_Y = -3"
definition KTY_EC2 :: int where "KTY_EC2 = 2"
definition COSE_P_256 :: int where "COSE_P_256 = 1"
definition COSE_ES256 :: int where "COSE_ES256 = -7"

lemmas cwt_labels = CLAIM_ISS_def CLAIM_SUB_def CLAIM_AUD_def CLAIM_EXP_def CLAIM_NBF_def CLAIM_IAT_def
  CLAIM_CTI_def CLAIM_CNF_def COSE_KEY_KTY_def COSE_KEY_ALG_def COSE_KEY_EC2_CRV_def COSE_KEY_EC2_X_def
  COSE_KEY_EC2_Y_def KTY_EC2_def COSE_P_256_def COSE_ES256_def

record parsed_cert =
  pc_subject :: string
  pc_issuer :: string
  pc_exp_unix :: u64
  pc_cnf_pubkey :: bytes
  pc_thumbprint :: bytes

datatype mint_error = EncodePayload | EncodeCose

definition parse_p256_pub :: "('k, 's) cose_ops \<Rightarrow> bytes \<Rightarrow> 'k option" where
  "parse_p256_pub co bs = (if length bs \<noteq> 65 \<or> bs ! 0 \<noteq> 0x04 then None else co_point co bs)"

fun read_text_claim :: "(cbor \<times> cbor) list \<Rightarrow> int \<Rightarrow> string option" where
  "read_text_claim [] key = None"
| "read_text_claim ((CborInt i, CborText s) # m) key = (if i = key then Some s else read_text_claim m key)"
| "read_text_claim (_ # m) key = read_text_claim m key"

fun read_u64_claim :: "(cbor \<times> cbor) list \<Rightarrow> int \<Rightarrow> u64 option" where
  "read_u64_claim [] key = None"
| "read_u64_claim ((CborInt i, CborInt n) # m) key =
     (if i = key \<and> 0 \<le> n \<and> n < 2 ^ 64 then Some (of_int n) else read_u64_claim m key)"
| "read_u64_claim (_ # m) key = read_u64_claim m key"

fun matches_int :: "cbor \<Rightarrow> int \<Rightarrow> bool" where
  "matches_int (CborInt i) target = (i = target)"
| "matches_int _ target = False"

text \<open>\<^verbatim>\<open>ni as i64\<close>: the low 64 bits, signed.\<close>

fun read_int_map_val :: "(cbor \<times> cbor) list \<Rightarrow> int \<Rightarrow> int option" where
  "read_int_map_val [] key = None"
| "read_int_map_val ((k, v) # m) key =
     (case v of
        CborInt n \<Rightarrow> if matches_int k key then Some (sint (of_int n :: 64 word)) else read_int_map_val m key
      | _ \<Rightarrow> read_int_map_val m key)"

fun read_bytes_map_val :: "(cbor \<times> cbor) list \<Rightarrow> int \<Rightarrow> bytes option" where
  "read_bytes_map_val [] key = None"
| "read_bytes_map_val ((k, v) # m) key =
     (case v of
        CborBytes b \<Rightarrow> if matches_int k key then Some b else read_bytes_map_val m key
      | _ \<Rightarrow> read_bytes_map_val m key)"

definition extract_cnf_ec2_pub :: "(cbor \<times> cbor) list \<Rightarrow> bytes option" where
  "extract_cnf_ec2_pub claims =
     (case find (\<lambda>(k, _). matches_int k CLAIM_CNF) claims of
        Some (_, CborMap cnf_map) \<Rightarrow>
          (case find (\<lambda>(k, _). matches_int k 1) cnf_map of
             Some (_, CborMap key_map) \<Rightarrow>
               Option.bind (read_int_map_val key_map COSE_KEY_KTY) (\<lambda>kty.
               if kty \<noteq> KTY_EC2 then None
               else Option.bind (read_int_map_val key_map COSE_KEY_EC2_CRV) (\<lambda>crv.
               if crv \<noteq> COSE_P_256 then None
               else if (case read_int_map_val key_map COSE_KEY_ALG of Some alg \<Rightarrow> alg \<noteq> COSE_ES256 | None \<Rightarrow> False) then None
               else Option.bind (read_bytes_map_val key_map COSE_KEY_EC2_X) (\<lambda>x.
                    Option.bind (read_bytes_map_val key_map COSE_KEY_EC2_Y) (\<lambda>y.
                      if length x \<noteq> 32 \<or> length y \<noteq> 32 then None else Some (0x04 # x @ y)))))
           | _ \<Rightarrow> None)
      | _ \<Rightarrow> None)"

definition ok_or :: "'a option \<Rightarrow> 'e \<Rightarrow> 'e + 'a" where
  "ok_or x e = (case x of None \<Rightarrow> Err e | Some a \<Rightarrow> Ok a)"

lemma ok_or_eq_Ok [simp]: "ok_or x e = Ok a \<longleftrightarrow> x = Some a"
  by (cases x) (simp_all add: ok_or_def)

definition cert_validate ::
    "('k, 's) cose_ops \<Rightarrow> bytes \<Rightarrow> bytes \<Rightarrow> u64 option \<Rightarrow> auth_fail_reason + parsed_cert" where
  "cert_validate co cwt_bytes ecu_signing_pub now =
     and_then (ok_or (co_from_slice co cwt_bytes) AuthInvalidParam) (\<lambda>cose.
     and_then (ok_or (parse_p256_pub co ecu_signing_pub) AuthInvalidParam) (\<lambda>verifying_key.
     and_then (ok_or (co_sig co (cs_signature cose)) BadCertSignature) (\<lambda>sig.
     if \<not> co_verify co verifying_key (cs_tbs cose) sig then Err BadCertSignature
     else
     and_then (ok_or (cs_payload cose) AuthInvalidParam) (\<lambda>payload_bytes.
     and_then (ok_or (co_decode co payload_bytes) AuthInvalidParam) (\<lambda>payload_val.
     case payload_val of
       CborMap claim_map \<Rightarrow>
         and_then (ok_or (read_text_claim claim_map CLAIM_AUD) WrongAudience) (\<lambda>aud.
         if aud \<noteq> VHSM_AUDIENCE then Err WrongAudience
         else
         and_then (ok_or (read_u64_claim claim_map CLAIM_EXP) CertExpired) (\<lambda>exp.
         and_then (ok_or (read_u64_claim claim_map CLAIM_NBF) CertExpired) (\<lambda>nbf.
         and_then (ok_or now CertExpired) (\<lambda>now_unix.
         if now_unix < nbf \<or> now_unix \<ge> exp then Err CertExpired
         else
         and_then (ok_or (read_text_claim claim_map CLAIM_SUB) AuthInvalidParam) (\<lambda>subject.
         if subject = [] then Err AuthInvalidParam
         else
           let issuer = (case read_text_claim claim_map CLAIM_ISS of Some s \<Rightarrow> s | None \<Rightarrow> [])
           in and_then (ok_or (extract_cnf_ec2_pub claim_map) AuthInvalidParam) (\<lambda>cnf_pubkey.
              Ok \<lparr>pc_subject = subject, pc_issuer = issuer, pc_exp_unix = exp, pc_cnf_pubkey = cnf_pubkey,
                  pc_thumbprint = co_sha256 co cwt_bytes\<rparr>))))))
     | _ \<Rightarrow> Err AuthInvalidParam)))))"

text \<open>\<open>cti\<close> is the random token identifier.\<close>

definition mint_claims :: "string \<Rightarrow> string \<Rightarrow> u64 \<Rightarrow> u64 \<Rightarrow> bytes \<Rightarrow> cbor \<Rightarrow> (cbor \<times> cbor) list" where
  "mint_claims subject issuer iat exp cti cnf_wrapped =
     [(CborInt CLAIM_ISS, CborText issuer), (CborInt CLAIM_SUB, CborText subject),
      (CborInt CLAIM_AUD, CborText VHSM_AUDIENCE), (CborInt CLAIM_EXP, CborInt (uint exp)),
      (CborInt CLAIM_NBF, CborInt (uint iat)), (CborInt CLAIM_IAT, CborInt (uint iat)),
      (CborInt CLAIM_CTI, CborBytes cti), (CborInt CLAIM_CNF, cnf_wrapped)]"

definition mint_cwt ::
    "('k, 's) cose_ops \<Rightarrow> (bytes \<Rightarrow> bytes) \<Rightarrow> bytes \<Rightarrow> string \<Rightarrow> string \<Rightarrow> bytes \<Rightarrow> bytes \<Rightarrow> u64 \<Rightarrow> u64 \<Rightarrow> mint_error + bytes" where
  "mint_cwt co signer cti subject issuer cnf_pub_x cnf_pub_y iat exp =
     and_then (ok_or (co_key_cbor co cnf_pub_x cnf_pub_y) EncodePayload) (\<lambda>cnf_val.
     let cnf_wrapped = CborMap [(CborInt 1, cnf_val)]
     in and_then (ok_or (co_encode co (CborMap (mint_claims subject issuer iat exp cti cnf_wrapped))) EncodePayload) (\<lambda>payload_bytes.
        ok_or (co_build co payload_bytes signer) EncodeCose))"

section \<open>What a valid certificate is\<close>

text \<open>The envelope is signed under the key, and its claims name the audience, the window, the subject and the key.\<close>

definition signed_by :: "('k, 's) cose_ops \<Rightarrow> bytes \<Rightarrow> bytes \<Rightarrow> (cbor \<times> cbor) list \<Rightarrow> bool" where
  "signed_by co pub cwt claims \<longleftrightarrow> (\<exists>cose k sig p. co_from_slice co cwt = Some cose \<and> parse_p256_pub co pub = Some k
     \<and> co_sig co (cs_signature cose) = Some sig \<and> co_verify co k (cs_tbs cose) sig
     \<and> cs_payload cose = Some p \<and> co_decode co p = Some (CborMap claims))"

lemma cert_validate_Ok:
  "cert_validate co cwt pub now = Ok cert \<longleftrightarrow>
     (\<exists>claims exp nbf t. signed_by co pub cwt claims \<and> read_text_claim claims CLAIM_AUD = Some VHSM_AUDIENCE
        \<and> read_u64_claim claims CLAIM_EXP = Some exp \<and> read_u64_claim claims CLAIM_NBF = Some nbf
        \<and> now = Some t \<and> nbf \<le> t \<and> t < exp
        \<and> read_text_claim claims CLAIM_SUB = Some (pc_subject cert) \<and> pc_subject cert \<noteq> []
        \<and> pc_issuer cert = (case read_text_claim claims CLAIM_ISS of Some s \<Rightarrow> s | None \<Rightarrow> [])
        \<and> extract_cnf_ec2_pub claims = Some (pc_cnf_pubkey cert) \<and> pc_exp_unix cert = exp
        \<and> pc_thumbprint cert = co_sha256 co cwt)"
proof
  assume "cert_validate co cwt pub now = Ok cert"
  then obtain cose k sig p v where 1: "co_from_slice co cwt = Some cose" "parse_p256_pub co pub = Some k"
      "co_sig co (cs_signature cose) = Some sig" "co_verify co k (cs_tbs cose) sig" "cs_payload cose = Some p"
      "co_decode co p = Some v"
    by (auto simp: cert_validate_def and_then_eq_Ok split: if_splits)
  with \<open>cert_validate co cwt pub now = Ok cert\<close> obtain claims where "v = CborMap claims"
    by (cases v) (auto simp: cert_validate_def ok_or_def)
  with 1 \<open>cert_validate co cwt pub now = Ok cert\<close>
  show "\<exists>claims exp nbf t. signed_by co pub cwt claims \<and> read_text_claim claims CLAIM_AUD = Some VHSM_AUDIENCE
        \<and> read_u64_claim claims CLAIM_EXP = Some exp \<and> read_u64_claim claims CLAIM_NBF = Some nbf
        \<and> now = Some t \<and> nbf \<le> t \<and> t < exp
        \<and> read_text_claim claims CLAIM_SUB = Some (pc_subject cert) \<and> pc_subject cert \<noteq> []
        \<and> pc_issuer cert = (case read_text_claim claims CLAIM_ISS of Some s \<Rightarrow> s | None \<Rightarrow> [])
        \<and> extract_cnf_ec2_pub claims = Some (pc_cnf_pubkey cert) \<and> pc_exp_unix cert = exp
        \<and> pc_thumbprint cert = co_sha256 co cwt"
    by (intro exI [of _ claims])
       (auto simp: cert_validate_def signed_by_def and_then_eq_Ok Let_def not_less not_le split: if_splits)
next
  assume "\<exists>claims exp nbf t. signed_by co pub cwt claims \<and> read_text_claim claims CLAIM_AUD = Some VHSM_AUDIENCE
        \<and> read_u64_claim claims CLAIM_EXP = Some exp \<and> read_u64_claim claims CLAIM_NBF = Some nbf
        \<and> now = Some t \<and> nbf \<le> t \<and> t < exp
        \<and> read_text_claim claims CLAIM_SUB = Some (pc_subject cert) \<and> pc_subject cert \<noteq> []
        \<and> pc_issuer cert = (case read_text_claim claims CLAIM_ISS of Some s \<Rightarrow> s | None \<Rightarrow> [])
        \<and> extract_cnf_ec2_pub claims = Some (pc_cnf_pubkey cert) \<and> pc_exp_unix cert = exp
        \<and> pc_thumbprint cert = co_sha256 co cwt"
  then show "cert_validate co cwt pub now = Ok cert"
    by (cases cert) (auto simp: cert_validate_def signed_by_def ok_or_def)
qed

section \<open>Minting and validating\<close>

text \<open>
  Documented behaviour of the libraries: a built envelope parses to its payload with the signature
  of the signed bytes, CBOR decoding inverts encoding, and the CBOR form of an EC2 key for ES256 on
  P-256 carries its parameters under their labels.
\<close>

definition cose_laws :: "('k, 's) cose_ops \<Rightarrow> bool" where
  "cose_laws co \<longleftrightarrow>
     (\<forall>p signer w. co_build co p signer = Some w \<longrightarrow>
        (\<exists>tbs. co_from_slice co w = Some \<lparr>cs_payload = Some p, cs_signature = signer tbs, cs_tbs = tbs\<rparr>))
     \<and> (\<forall>v b. co_encode co v = Some b \<longrightarrow> co_decode co b = Some v)
     \<and> (\<forall>x y v. co_key_cbor co x y = Some v \<longrightarrow>
          (\<exists>m. v = CborMap m \<and> read_int_map_val m COSE_KEY_KTY = Some KTY_EC2 \<and> read_int_map_val m COSE_KEY_ALG = Some COSE_ES256
             \<and> read_int_map_val m COSE_KEY_EC2_CRV = Some COSE_P_256
             \<and> read_bytes_map_val m COSE_KEY_EC2_X = Some x \<and> read_bytes_map_val m COSE_KEY_EC2_Y = Some y))"

text \<open>The signer holds the private key of the public point.\<close>

definition key_pair :: "('k, 's) cose_ops \<Rightarrow> (bytes \<Rightarrow> bytes) \<Rightarrow> bytes \<Rightarrow> bool" where
  "key_pair co signer pub \<longleftrightarrow> (\<exists>k. parse_p256_pub co pub = Some k
     \<and> (\<forall>d. \<exists>s. co_sig co (signer d) = Some s \<and> co_verify co k d s))"

lemma mint_claims_read:
  "read_text_claim (mint_claims sub iss iat exp cti w) CLAIM_AUD = Some VHSM_AUDIENCE"
  "read_text_claim (mint_claims sub iss iat exp cti w) CLAIM_SUB = Some sub"
  "read_text_claim (mint_claims sub iss iat exp cti w) CLAIM_ISS = Some iss"
  "read_u64_claim (mint_claims sub iss iat exp cti w) CLAIM_EXP = Some exp"
  "read_u64_claim (mint_claims sub iss iat exp cti w) CLAIM_NBF = Some iat"
  "find (\<lambda>(k, _). matches_int k CLAIM_CNF) (mint_claims sub iss iat exp cti w) = Some (CborInt CLAIM_CNF, w)"
  using uint_lt2p [of exp] uint_lt2p [of iat] by (simp_all add: mint_claims_def cwt_labels)

lemma minted_valid:
  assumes "cose_laws co" "key_pair co signer pub" "length x = 32" "length y = 32" "subject \<noteq> []"
    and "mint_cwt co signer cti subject issuer x y iat exp = Ok cwt" "iat \<le> t" "t < exp"
  shows "cert_validate co cwt pub (Some t) =
    Ok \<lparr>pc_subject = subject, pc_issuer = issuer, pc_exp_unix = exp, pc_cnf_pubkey = 0x04 # x @ y, pc_thumbprint = co_sha256 co cwt\<rparr>"
proof -
  obtain v p where m: "co_key_cbor co x y = Some v"
      "co_encode co (CborMap (mint_claims subject issuer iat exp cti (CborMap [(CborInt 1, v)]))) = Some p"
      "co_build co p signer = Some cwt"
    using assms(6) by (auto simp: mint_cwt_def and_then_eq_Ok)
  let ?claims = "mint_claims subject issuer iat exp cti (CborMap [(CborInt 1, v)])"
  obtain key where key: "v = CborMap key" "read_int_map_val key COSE_KEY_KTY = Some KTY_EC2"
      "read_int_map_val key COSE_KEY_ALG = Some COSE_ES256" "read_int_map_val key COSE_KEY_EC2_CRV = Some COSE_P_256"
      "read_bytes_map_val key COSE_KEY_EC2_X = Some x" "read_bytes_map_val key COSE_KEY_EC2_Y = Some y"
    using assms(1) m(1) unfolding cose_laws_def by blast
  have "extract_cnf_ec2_pub ?claims = Some (0x04 # x @ y)"
    using key assms(3,4) by (simp add: extract_cnf_ec2_pub_def mint_claims_read)
  moreover have "signed_by co pub cwt ?claims"
    using assms(1,2) m(2,3) unfolding signed_by_def cose_laws_def key_pair_def by (metis cose_sign1.select_convs)
  ultimately show ?thesis
    unfolding cert_validate_Ok using assms(5,7,8) mint_claims_read by (intro exI [of _ ?claims]) simp
qed

end
