(* ===== verification/VhsmAuth.thy ===== *)
theory VhsmAuth
  imports Cert Bootstrap PolicyEval
begin

text \<open>
  The connection handshake of the vHSM daemon, \<^verbatim>\<open>crates/vhsm-server/src/auth.rs\<close>. The libraries are
  those of the certificate and enrolment theories, bundled in \<open>auth_libs\<close>. What a step takes from
  outside (the random nonce and token identifier, the clock, whether file system calls succeed)
  is its \<open>auth_env\<close>. An enrolment context carries the shared enrolment state, its disk, the signer and
  the resolver of source addresses.
\<close>

section \<open>Model\<close>

record ('k, 's) auth_libs =
  al_cose :: "('k, 's) cose_ops"
  al_to_yaml :: "state_file \<Rightarrow> string + string"
  al_from_yaml :: "string \<Rightarrow> string + state_file"

record auth_env =
  en_nonce :: bytes
  en_cti :: bytes
  en_now :: "u64 option"
  en_clock :: u64
  en_save_io :: bool
  en_load_io :: bool

record principal_binding =
  pb_vm_id :: string
  pb_cert_thumbprint :: bytes

datatype handshake_state =
    AwaitHello
  | NonceSent bytes
  | Authenticated principal_binding
  | Enrolled string bytes
  | Failed auth_fail_reason

definition is_done :: "handshake_state \<Rightarrow> bool" where
  "is_done s = (case s of Authenticated _ \<Rightarrow> True | Enrolled _ _ \<Rightarrow> True | Failed _ \<Rightarrow> True | _ \<Rightarrow> False)"

definition hs_principal :: "handshake_state \<Rightarrow> principal_binding option" where
  "hs_principal s = (case s of Authenticated p \<Rightarrow> Some p | _ \<Rightarrow> None)"

record 'ip enroll_context =
  ec_bootstrap :: bootstrap_state
  ec_disk :: "string option"
  ec_signer :: "bytes \<Rightarrow> bytes"
  ec_issuer :: string
  ec_cert_lifetime_secs :: u64
  ec_peer_ip :: "'ip option"
  ec_ip_resolver :: "('ip \<Rightarrow> string option) option"

definition PROOF_DOMAIN_TAG :: bytes where "PROOF_DOMAIN_TAG = str_bytes ''vhsm-auth-v1''"
definition NONCE_LEN :: nat where "NONCE_LEN = 16"

definition saturating_add :: "u64 \<Rightarrow> u64 \<Rightarrow> u64" where
  "saturating_add a b = (if a + b < a then -1 else a + b)"

definition reject :: "request \<Rightarrow> auth_fail_reason \<Rightarrow> handshake_state \<times> response" where
  "reject req reason =
     (Failed reason, (response_err (rq_op req) (rq_session_id req) PolicyReject)\<lparr>rs_payload := le_bytes (auth_fail_u16 reason)\<rparr>)"

definition handle_hello :: "auth_env \<Rightarrow> request \<Rightarrow> handshake_state \<times> response" where
  "handle_hello env req =
     (if rq_payload req \<noteq> [] then reject req AuthInvalidParam
      else (NonceSent (en_nonce env), response_ok (op_u32 Hello) (rq_session_id req) (en_nonce env)))"

definition parse_auth_payload :: "bytes \<Rightarrow> (bytes \<times> bytes) option" where
  "parse_auth_payload payload =
     (if length payload < 2 then None
      else
        let cwt_len = unat (get_u16_le payload 0); after_len = drop 2 payload
        in if length after_len < cwt_len + 2 then None
           else
             let cwt = take cwt_len after_len; after_cwt = drop cwt_len after_len;
                 sig_len = unat (get_u16_le after_cwt 0); after_siglen = drop 2 after_cwt
             in if length after_siglen \<noteq> sig_len then None else Some (cwt, after_siglen))"

definition verify_proof_sig :: "('k, 's) cose_ops \<Rightarrow> bytes \<Rightarrow> bytes \<Rightarrow> bytes \<Rightarrow> bool" where
  "verify_proof_sig co cnf_pubkey nonce sig_bytes =
     (case parse_p256_pub co cnf_pubkey of
        None \<Rightarrow> False
      | Some verifying_key \<Rightarrow>
          (case co_sig co sig_bytes of
             None \<Rightarrow> False
           | Some signature \<Rightarrow> co_verify co verifying_key (nonce @ PROOF_DOMAIN_TAG) signature))"

definition policy_recognises_principal :: "'y policy \<Rightarrow> string \<Rightarrow> bool" where
  "policy_recognises_principal pol vm = True"

definition encode_auth_ok_payload :: "principal_binding \<Rightarrow> bytes" where
  "encode_auth_ok_payload p =
     (let vm_id_bytes = str_bytes (pb_vm_id p) in [of_nat (length vm_id_bytes)] @ vm_id_bytes @ pb_cert_thumbprint p)"

definition handle_auth ::
    "('k, 's) auth_libs \<Rightarrow> auth_env \<Rightarrow> bytes \<Rightarrow> request \<Rightarrow> bytes \<Rightarrow> 'y policy \<Rightarrow> handshake_state \<times> response" where
  "handle_auth libs env nonce req ecu_signing_pub pol =
     (case parse_auth_payload (rq_payload req) of
        None \<Rightarrow> reject req AuthInvalidParam
      | Some (cwt, sig) \<Rightarrow>
          (case cert_validate (al_cose libs) cwt ecu_signing_pub (en_now env) of
             Err reason \<Rightarrow> reject req reason
           | Ok cert \<Rightarrow>
               if \<not> verify_proof_sig (al_cose libs) (pc_cnf_pubkey cert) nonce sig then reject req BadProofSignature
               else if \<not> policy_recognises_principal pol (pc_subject cert) then reject req UnknownPrincipal
               else
                 let p = \<lparr>pb_vm_id = pc_subject cert, pb_cert_thumbprint = pc_thumbprint cert\<rparr>
                 in (Authenticated p, response_ok (op_u32 AuthOk) (rq_session_id req) (encode_auth_ok_payload p))))"

definition parse_enroll_payload :: "bytes \<Rightarrow> (string \<times> bytes \<times> bytes) option" where
  "parse_enroll_payload payload =
     (case payload of [] \<Rightarrow> None | l # cur1 \<Rightarrow>
        let vm_id_len = unat l
        in if length cur1 < vm_id_len then None
           else (case from_utf8 (take vm_id_len cur1) of
                   None \<Rightarrow> None
                 | Some vm_id \<Rightarrow>
                     if vm_id = [] then None
                     else (case drop vm_id_len cur1 of [] \<Rightarrow> None | l2 # cur2 \<Rightarrow>
                       let token_len = unat l2
                       in if length cur2 < token_len \<or> token_len = 0 then None
                          else (case drop token_len cur2 of [] \<Rightarrow> None | l3 # cur3 \<Rightarrow>
                                  if length cur3 \<noteq> unat l3 then None
                                  else Some (vm_id, take token_len cur2, cur3)))))"

definition handle_enroll ::
    "('k, 's) auth_libs \<Rightarrow> auth_env \<Rightarrow> request \<Rightarrow> 'ip enroll_context \<Rightarrow> handshake_state \<times> 'ip enroll_context \<times> response" where
  "handle_enroll libs env req ctx =
     (let no = (\<lambda>reason ctx'. case reject req reason of (s, r) \<Rightarrow> (s, ctx', r))
      in case parse_enroll_payload (rq_payload req) of
           None \<Rightarrow> no AuthInvalidParam ctx
         | Some (vm_id, token, csr_pub) \<Rightarrow>
             if length csr_pub \<noteq> 65 \<or> csr_pub ! 0 \<noteq> 0x04 then no AuthInvalidParam ctx
             else
               let csr_x = take 32 (drop 1 csr_pub); csr_y = take 32 (drop 33 csr_pub)
               in case en_now env of
                    None \<Rightarrow> no AuthInvalidParam ctx
                  | Some iat \<Rightarrow>
                      let exp = saturating_add iat (ec_cert_lifetime_secs ctx)
                      in (case mint_cwt (al_cose libs) (ec_signer ctx) (en_cti env) vm_id (ec_issuer ctx) csr_x csr_y iat exp of
                            Err _ \<Rightarrow> no AuthInvalidParam ctx
                          | Ok cwt_bytes \<Rightarrow>
                              let thumbprint = co_sha256 (al_cose libs) cwt_bytes
                              in (case bootstrap_consume (co_sha256 (al_cose libs)) (en_clock env) vm_id token thumbprint (ec_bootstrap ctx) of
                                    (b, UnknownVmId) \<Rightarrow> no BadBootstrapToken ctx
                                  | (b, TokenMismatch) \<Rightarrow> no BadBootstrapToken ctx
                                  | (b, AlreadyConsumed) \<Rightarrow> no TokenAlreadyConsumed ctx
                                  | (b, Accepted) \<Rightarrow>
                                      let ctx1 = ctx\<lparr>ec_bootstrap := b\<rparr>
                                      in (case bootstrap_save (al_to_yaml libs) (en_save_io env) b (ec_disk ctx) of
                                            (disk', Err _) \<Rightarrow> no AuthInvalidParam (ctx1\<lparr>ec_disk := disk'\<rparr>)
                                          | (disk', Ok _) \<Rightarrow>
                                              (Enrolled vm_id thumbprint, ctx1\<lparr>ec_disk := disk'\<rparr>,
                                               response_ok (op_u32 Enroll) (rq_session_id req) cwt_bytes)))))"

definition parse_enroll_assisted_payload :: "bytes \<Rightarrow> bytes option" where
  "parse_enroll_assisted_payload payload =
     (case payload of [] \<Rightarrow> None | l # rest \<Rightarrow> if length rest \<noteq> unat l then None else Some rest)"

text \<open>The lookup of the pending flag: on a miss the state is read again from disk and looked up once more.\<close>

definition pending_lookup ::
    "('k, 's) auth_libs \<Rightarrow> auth_env \<Rightarrow> string \<Rightarrow> u64 \<Rightarrow> bytes \<Rightarrow> 'ip enroll_context
       \<Rightarrow> bootstrap_state \<times> pending_consume_outcome option" where
  "pending_lookup libs env vm_id iat thumbprint ctx =
     (case consume_pending vm_id iat thumbprint (ec_bootstrap ctx) of
        (b, NotPending) \<Rightarrow>
          (case bootstrap_reload (al_from_yaml libs) (en_load_io env) (ec_disk ctx) b of
             (b1, Err _) \<Rightarrow> (b1, None)
           | (b1, Ok _) \<Rightarrow> (case consume_pending vm_id iat thumbprint b1 of (b2, r) \<Rightarrow> (b2, Some r)))
      | (b, r) \<Rightarrow> (b, Some r))"

definition handle_enroll_assisted ::
    "('k, 's) auth_libs \<Rightarrow> auth_env \<Rightarrow> request \<Rightarrow> 'ip enroll_context \<Rightarrow> handshake_state \<times> 'ip enroll_context \<times> response" where
  "handle_enroll_assisted libs env req ctx =
     (let no = (\<lambda>reason ctx'. case reject req reason of (s, r) \<Rightarrow> (s, ctx', r))
      in case Option.bind (ec_peer_ip ctx) (\<lambda>ip. Option.bind (ec_ip_resolver ctx) (\<lambda>res. res ip)) of
           None \<Rightarrow> no BadBootstrapToken ctx
         | Some vm_id \<Rightarrow>
             (case parse_enroll_assisted_payload (rq_payload req) of
                None \<Rightarrow> no AuthInvalidParam ctx
              | Some csr_pub \<Rightarrow>
                  if length csr_pub \<noteq> 65 \<or> csr_pub ! 0 \<noteq> 0x04 then no AuthInvalidParam ctx
                  else
                    let csr_x = take 32 (drop 1 csr_pub); csr_y = take 32 (drop 33 csr_pub)
                    in case en_now env of
                         None \<Rightarrow> no AuthInvalidParam ctx
                       | Some iat \<Rightarrow>
                           let exp = saturating_add iat (ec_cert_lifetime_secs ctx)
                           in (case mint_cwt (al_cose libs) (ec_signer ctx) (en_cti env) vm_id (ec_issuer ctx) csr_x csr_y iat exp of
                                 Err _ \<Rightarrow> no AuthInvalidParam ctx
                               | Ok cwt_bytes \<Rightarrow>
                                   let thumbprint = co_sha256 (al_cose libs) cwt_bytes
                                   in (case pending_lookup libs env vm_id iat thumbprint ctx of
                                         (b, None) \<Rightarrow> no BadBootstrapToken (ctx\<lparr>ec_bootstrap := b\<rparr>)
                                       | (b, Some NotPending) \<Rightarrow> no BadBootstrapToken (ctx\<lparr>ec_bootstrap := b\<rparr>)
                                       | (b, Some Expired) \<Rightarrow> no TokenAlreadyConsumed (ctx\<lparr>ec_bootstrap := b\<rparr>)
                                       | (b, Some PendingAccepted) \<Rightarrow>
                                           let ctx1 = ctx\<lparr>ec_bootstrap := b\<rparr>
                                           in (case bootstrap_save (al_to_yaml libs) (en_save_io env) b (ec_disk ctx) of
                                                 (disk', Err _) \<Rightarrow> no AuthInvalidParam (ctx1\<lparr>ec_disk := disk'\<rparr>)
                                               | (disk', Ok _) \<Rightarrow>
                                                   (Enrolled vm_id thumbprint, ctx1\<lparr>ec_disk := disk'\<rparr>,
                                                    response_ok (op_u32 EnrollAssisted) (rq_session_id req) cwt_bytes))))))"

text \<open>One handshake step. \<open>enroll\<close> is \<open>None\<close> on a connection that accepts no enrolment.\<close>

definition auth_step ::
    "('k, 's) auth_libs \<Rightarrow> auth_env \<Rightarrow> handshake_state \<Rightarrow> request \<Rightarrow> bytes \<Rightarrow> 'y policy \<Rightarrow> 'ip enroll_context option
       \<Rightarrow> handshake_state \<times> 'ip enroll_context option \<times> response" where
  "auth_step libs env st req ecu_signing_pub pol enroll =
     (let no = (case reject req AuthInvalidParam of (s, r) \<Rightarrow> (s, enroll, r))
      in case op_from_u32 (rq_op req) of
           None \<Rightarrow> no
         | Some p \<Rightarrow>
             (case (p, st) of
                (Hello, AwaitHello) \<Rightarrow> (case handle_hello env req of (s, r) \<Rightarrow> (s, enroll, r))
              | (Auth, NonceSent nonce) \<Rightarrow>
                  (case handle_auth libs env nonce req ecu_signing_pub pol of (s, r) \<Rightarrow> (s, enroll, r))
              | (Enroll, NonceSent _) \<Rightarrow>
                  (case enroll of
                     Some ctx \<Rightarrow> (case handle_enroll libs env req ctx of (s, ctx', r) \<Rightarrow> (s, Some ctx', r))
                   | None \<Rightarrow> no)
              | (EnrollAssisted, NonceSent _) \<Rightarrow>
                  (case enroll of
                     Some ctx \<Rightarrow> (case handle_enroll_assisted libs env req ctx of (s, ctx', r) \<Rightarrow> (s, Some ctx', r))
                   | None \<Rightarrow> no)
              | _ \<Rightarrow> no))"

end
