(* ===== verification/VhsmServe.thy ===== *)
theory VhsmServe
  imports AuditLog Secstore VhsmAuth
begin

text \<open>
  The running daemon: start-up of the handle table (\<^verbatim>\<open>init_handle_table\<close> and the restore loop of
  \<^verbatim>\<open>services/vhsm-ssd/src/main.rs\<close>, \<^verbatim>\<open>crates/vhsm-server/src/extension_manifest.rs\<close>), the dispatch of one request
  (\<^verbatim>\<open>crates/vhsm-server/src/serve.rs\<close>) and the two connection loops (\<^verbatim>\<open>serve_connection\<close> of \<^verbatim>\<open>main.rs\<close>,
  \<^verbatim>\<open>serve_crossnode_connection\<close> of \<^verbatim>\<open>crates/vhsm-server/src/crossnode.rs\<close>). The YAML parse of the manifest, the
  X.509 library and the crypto provider are parameters. A connection is the list of what it brings
  for each turn of the loop; after its end the peer has closed. The shared mutexes make the
  bodies between lock and unlock atomic; a panic while the audit logger is locked poisons it.
\<close>

section \<open>Start-up\<close>

record extension =
  ex_handle :: u32
  ex_key_id :: string
  ex_algorithm :: u32
  ex_permitted_ops :: u32

datatype manifest_error =
    ManifestIo
  | ManifestParse
  | HandleOutOfRange u32
  | DuplicateHandle u32
  | UnknownAlgorithm string
  | UnknownPermission string
  | EmptyKeyId

record extension_row =
  xr_handle :: u32
  xr_key_id :: string
  xr_algorithm :: string
  xr_permitted_ops :: "string list"

definition dash_lower :: "string \<Rightarrow> string" where
  "dash_lower s = map (\<lambda>c. if c = CHR ''_'' then CHR ''-'' else c) (to_ascii_lowercase s)"

definition parse_algorithm :: "string \<Rightarrow> manifest_error + u32" where
  "parse_algorithm s =
     (let n = dash_lower s
      in if n = ''aes-128'' then Ok ALG_AES_128
         else if n = ''aes-256'' then Ok ALG_AES_256
         else if n = ''hmac-sha256'' then Ok ALG_HMAC_SHA256
         else if n = ''ed25519'' then Ok ALG_ED25519
         else if n = ''ecc-p256'' then Ok ALG_ECC_P256
         else Err (UnknownAlgorithm s))"

definition parse_permission :: "string \<Rightarrow> manifest_error + u32" where
  "parse_permission s =
     (let n = dash_lower s
      in if n = ''encrypt'' then Ok PERM_ENCRYPT
         else if n = ''decrypt'' then Ok PERM_DECRYPT
         else if n = ''mac-gen'' \<or> n = ''mac-generate'' then Ok PERM_MAC_GEN
         else if n = ''mac-vfy'' \<or> n = ''mac-verify'' then Ok PERM_MAC_VFY
         else if n = ''sign'' then Ok PERM_SIGN
         else if n = ''verify'' then Ok PERM_VERIFY
         else if n = ''derive'' then Ok PERM_DERIVE
         else if n = ''delete'' then Ok PERM_DELETE
         else if n = ''get-pubkey'' then Ok PERM_GET_PUBKEY
         else if n = ''get-cert'' then Ok PERM_GET_CERT
         else if n = ''key-generate'' then Ok PERM_KEY_GENERATE
         else Err (UnknownPermission s))"

fun parse_permissions :: "u32 \<Rightarrow> string list \<Rightarrow> manifest_error + u32" where
  "parse_permissions perms [] = Ok perms"
| "parse_permissions perms (p # ps) = and_then (parse_permission p) (\<lambda>b. parse_permissions (perms OR b) ps)"

fun parse_rows :: "extension_row list \<Rightarrow> manifest_error + extension list" where
  "parse_rows [] = Ok []"
| "parse_rows (row # rs) =
     (if \<not> handle_is_project (xr_handle row) then Err (HandleOutOfRange (xr_handle row))
      else if xr_key_id row = [] then Err EmptyKeyId
      else
        and_then (parse_algorithm (xr_algorithm row)) (\<lambda>algorithm.
        and_then (parse_permissions 0 (xr_permitted_ops row)) (\<lambda>perms.
        and_then (parse_rows rs) (\<lambda>out.
          Ok (\<lparr>ex_handle = xr_handle row, ex_key_id = xr_key_id row, ex_algorithm = algorithm, ex_permitted_ops = perms\<rparr> # out)))))"

text \<open>The handle of the first entry that occurs again.\<close>

fun first_duplicate :: "extension list \<Rightarrow> u32 option" where
  "first_duplicate [] = None"
| "first_duplicate (e # es) = (if list_ex (\<lambda>f. ex_handle e = ex_handle f) es then Some (ex_handle e) else first_duplicate es)"

definition manifest_parse :: "(string \<Rightarrow> extension_row list option) \<Rightarrow> string \<Rightarrow> manifest_error + extension list" where
  "manifest_parse from_yaml text =
     (case from_yaml text of
        None \<Rightarrow> Err ManifestParse
      | Some rs \<Rightarrow>
          and_then (parse_rows rs) (\<lambda>out.
            case first_duplicate out of Some h \<Rightarrow> Err (DuplicateHandle h) | None \<Rightarrow> Ok out))"

text \<open>\<open>has_key h\<close>: the provider has slot information for the handle.\<close>

fun manifest_apply :: "(u32 \<Rightarrow> bool) \<Rightarrow> handle_table \<Rightarrow> extension list \<Rightarrow> handle_table \<times> nat" where
  "manifest_apply has_key t [] = (t, 0)"
| "manifest_apply has_key t (e # es) =
     (if \<not> has_key (ex_handle e) then manifest_apply has_key t es
      else case register_well_known t (ex_handle e) (ex_key_id e) (ex_algorithm e) (ex_permitted_ops e) of
             (t1, ok) \<Rightarrow> (case manifest_apply has_key t1 es of (t2, n) \<Rightarrow> (t2, if ok then n + 1 else n)))"

definition init_handle_table :: "(u32 \<Rightarrow> bool) \<Rightarrow> handle_table" where
  "init_handle_table has_key =
     foldl (\<lambda>t slot. if has_key (sl_handle slot)
                     then fst (register_well_known t (sl_handle slot) (sl_key_id slot) (sl_alg slot) (sl_default_perms slot))
                     else t)
       ht_new (filter sl_guest_exposed SUMO_CORE_SLOTS)"

definition pad_label :: "string \<Rightarrow> bytes" where
  "pad_label s = (let bs = str_bytes s; copy_len = min (length bs) (LABEL_LEN - 1) in take copy_len bs @ replicate (LABEL_LEN - copy_len) 0)"

definition restore_handles :: "handle_table \<Rightarrow> key_metadata list \<Rightarrow> handle_table" where
  "restore_handles t metas =
     foldl (\<lambda>t m. fst (ht_allocate t (km_key_id m) (km_algorithm m) (km_permitted_ops m) (km_owner_vm_id m) (km_persistent m)
                         (pad_label (km_label m)))) t metas"

text \<open>\<open>exts\<close> is the loaded manifest, \<open>store\<close> the outcome of loading the persisted handles, each \<open>None\<close> when not configured.\<close>

definition startup_table ::
    "(u32 \<Rightarrow> bool) \<Rightarrow> extension list option \<Rightarrow> (secstore_error + key_metadata list) option \<Rightarrow> handle_table" where
  "startup_table has_key exts store =
     (let t = init_handle_table has_key;
          t1 = (case exts of None \<Rightarrow> t | Some es \<Rightarrow> fst (manifest_apply has_key t es))
      in case store of Some (Ok metas) \<Rightarrow> restore_handles t1 metas | _ \<Rightarrow> t1)"

section \<open>Dispatch of a request\<close>

datatype dispatch = Continue | Close | Panicked

record 'c serve_state =
  sv_table :: handle_table
  sv_crypto :: 'c
  sv_store :: "directory option"
  sv_logger :: "rotating_file_writer option"
  sv_log :: log_world
  sv_audit_poisoned :: bool

record ('y, 'c) serve_cfg =
  sc_yaml :: "'y yaml_ops"
  sc_crypto :: "'c crypto_ops"
  sc_iam :: "'y policy"
  sc_json :: "audit_record \<Rightarrow> bytes option"
  sc_secstore_key :: bytes

record serve_env =
  se_iv :: bytes
  se_store_io :: bool
  se_ts :: string
  se_peer :: string
  se_write_io :: bool

definition trim_end_nul :: "string \<Rightarrow> string" where
  "trim_end_nul s = rev (dropWhile (\<lambda>c. c = CHR 0x00) (rev s))"

definition entry_metadata :: "handle_entry \<Rightarrow> key_metadata" where
  "entry_metadata e =
     \<lparr>km_vhsm_handle = he_handle e, km_key_id = he_key_id e, km_algorithm = he_algorithm e, km_permitted_ops = he_permitted_ops e,
      km_owner_vm_id = he_owner_vm_id e, km_persistent = True,
      km_label = trim_end_nul (case from_utf8 (he_label e) of Some s \<Rightarrow> s | None \<Rightarrow> [])\<rparr>"

definition persist_new_handle :: "('y, 'c) serve_cfg \<Rightarrow> serve_env \<Rightarrow> nat \<Rightarrow> handle_table \<Rightarrow> directory option \<Rightarrow> directory option" where
  "persist_new_handle cfg env table_len_before t store =
     (case store of
        None \<Rightarrow> None
      | Some d \<Rightarrow>
          if ht_len t > table_len_before
          then (case ht_last t of
                  Some entry \<Rightarrow>
                    if he_persistent entry
                    then Some (fst (ss_store (sc_secstore_key cfg) (se_store_io env) (se_iv env) d (entry_metadata entry)))
                    else Some d
                | None \<Rightarrow> Some d)
          else Some d)"

definition dispatch_request ::
    "('y, 'c) serve_cfg \<Rightarrow> serve_env \<Rightarrow> request \<Rightarrow> caller_id \<Rightarrow> 'c serve_state \<Rightarrow> 'c serve_state \<times> response option \<times> dispatch" where
  "dispatch_request cfg env req caller st =
     (case handle_request (sc_yaml cfg) (sc_crypto cfg) req caller (sv_table st) (sc_iam cfg) (sv_crypto st) of
        (t', c', resp, outcome) \<Rightarrow>
          let st1 = st\<lparr>sv_table := t', sv_crypto := c',
                       sv_store := persist_new_handle cfg env (ht_len (sv_table st)) t' (sv_store st)\<rparr>
          in if sv_audit_poisoned st then (st1, None, Panicked)
             else
               (case audit_record_op (sc_json cfg) (se_ts env) (se_peer env) caller req resp outcome (sv_logger st1) (sv_log st1) of
                  (lg, w, Err LogPanic) \<Rightarrow> (st1\<lparr>sv_logger := lg, sv_log := w, sv_audit_poisoned := True\<rparr>, None, Panicked)
                | (lg, w, _) \<Rightarrow>
                    let st2 = st1\<lparr>sv_logger := lg, sv_log := w\<rparr>
                    in if se_write_io env then (st2, Some resp, Continue) else (st2, None, Close)))"

section \<open>Connections\<close>

record conn_input =
  in_read :: "io_error + request"
  in_auth :: auth_env
  in_serve :: serve_env

record ('k, 's) conn_cfg =
  cc_libs :: "('k, 's) auth_libs"
  cc_pub :: bytes

type_synonym served = "caller_id \<times> request \<times> response option"

text \<open>The connection ends: the dynamic handles of its principal are released. A panic skips the release.\<close>

definition conn_end :: "principal_binding option \<Rightarrow> 'c serve_state \<Rightarrow> 'c serve_state" where
  "conn_end prin st = (case prin of None \<Rightarrow> st | Some p \<Rightarrow> st\<lparr>sv_table := remove_by_vm_id (sv_table st) (pb_vm_id p)\<rparr>)"

fun serve_loop ::
    "('k, 's) conn_cfg \<Rightarrow> ('y, 'c) serve_cfg \<Rightarrow> handshake_state \<Rightarrow> principal_binding option \<Rightarrow> 'c serve_state \<Rightarrow> 'ip enroll_context
       \<Rightarrow> conn_input list \<Rightarrow> 'c serve_state \<times> 'ip enroll_context \<times> served list" where
  "serve_loop cc cfg hs prin st ctx [] = (conn_end prin st, ctx, [])"
| "serve_loop cc cfg hs prin st ctx (i # ins) =
     (case in_read i of
        Err e \<Rightarrow> (conn_end prin st, ctx, [])
      | Ok req \<Rightarrow>
          (case prin of
             None \<Rightarrow>
               (case auth_step (cc_libs cc) (in_auth i) hs req (cc_pub cc) (sc_iam cfg) (Some ctx) of
                  (hs', ctx', resp) \<Rightarrow>
                    let ctx1 = (case ctx' of Some c \<Rightarrow> c | None \<Rightarrow> ctx)
                    in if \<not> se_write_io (in_serve i) then (conn_end None st, ctx1, [])
                       else (case hs' of
                               Authenticated p \<Rightarrow> serve_loop cc cfg hs' (Some p) st ctx1 ins
                             | Enrolled _ _ \<Rightarrow> (conn_end None st, ctx1, [])
                             | Failed _ \<Rightarrow> (conn_end None st, ctx1, [])
                             | _ \<Rightarrow> serve_loop cc cfg hs' None st ctx1 ins))
           | Some p \<Rightarrow>
               let caller = \<lparr>cl_vm_id = pb_vm_id p, cl_cert_thumbprint = pb_cert_thumbprint p\<rparr>
               in (case dispatch_request cfg (in_serve i) req caller st of
                     (st', resp, Continue) \<Rightarrow>
                       (case serve_loop cc cfg hs prin st' ctx ins of (st2, ctx2, tr) \<Rightarrow> (st2, ctx2, (caller, req, resp) # tr))
                   | (st', resp, Close) \<Rightarrow> (conn_end prin st', ctx, [(caller, req, resp)])
                   | (st', resp, Panicked) \<Rightarrow> (st', ctx, [(caller, req, resp)]))))"

definition serve_connection ::
    "('k, 's) conn_cfg \<Rightarrow> ('y, 'c) serve_cfg \<Rightarrow> 'c serve_state \<Rightarrow> 'ip enroll_context \<Rightarrow> conn_input list
       \<Rightarrow> 'c serve_state \<times> 'ip enroll_context \<times> served list" where
  "serve_connection cc cfg st ctx ins = serve_loop cc cfg AwaitHello None st ctx ins"

text \<open>The cross-node path: the principal is the verified client certificate of the TLS connection.\<close>

datatype cross_node_error = BadCertificate string | NoCommonName

definition principal_from_client_cert ::
    "(bytes \<Rightarrow> string + bytes option) \<Rightarrow> (bytes \<Rightarrow> bytes) \<Rightarrow> bytes \<Rightarrow> cross_node_error + principal_binding" where
  "principal_from_client_cert common_name sha cert_der =
     (case common_name cert_der of
        Err e \<Rightarrow> Err (BadCertificate e)
      | Ok cn \<Rightarrow>
          (case Option.bind cn from_utf8 of
             None \<Rightarrow> Err NoCommonName
           | Some node_id \<Rightarrow> Ok \<lparr>pb_vm_id = node_id, pb_cert_thumbprint = sha cert_der\<rparr>))"

fun crossnode_loop ::
    "('y, 'c) serve_cfg \<Rightarrow> principal_binding \<Rightarrow> 'c serve_state \<Rightarrow> conn_input list \<Rightarrow> 'c serve_state \<times> served list" where
  "crossnode_loop cfg p st [] = (conn_end (Some p) st, [])"
| "crossnode_loop cfg p st (i # ins) =
     (case in_read i of
        Err e \<Rightarrow> (conn_end (Some p) st, [])
      | Ok req \<Rightarrow>
          let caller = \<lparr>cl_vm_id = pb_vm_id p, cl_cert_thumbprint = pb_cert_thumbprint p\<rparr>
          in (case dispatch_request cfg (in_serve i) req caller st of
                (st', resp, Continue) \<Rightarrow> (case crossnode_loop cfg p st' ins of (st2, tr) \<Rightarrow> (st2, (caller, req, resp) # tr))
              | (st', resp, Close) \<Rightarrow> (conn_end (Some p) st', [(caller, req, resp)])
              | (st', resp, Panicked) \<Rightarrow> (st', [(caller, req, resp)])))"

end
