(* ===== verification/IamProps.thy ===== *)
theory IamProps
  imports Iam
begin

text \<open>Properties of the authorisation policy: what a loaded file grants, and what a file that does not load reports.\<close>

text \<open>C32: A loaded policy grants what its file says. When a policy text loads, evaluating a request of a VM for a
  key and an operation allows it exactly when some statement of the file names the VM (by name, by
  \<^verbatim>\<open>*\<close>, or by a typed selector without container fields), names the key in its handles or resources
  (or \<^verbatim>\<open>*\<close>), and lists the operation under any accepted spelling (or \<^verbatim>\<open>*\<close>); the index returned for the
  audit log is that of the first such statement. Host-only and handshake operations cannot be named
  in a file: only a statement with \<^verbatim>\<open>*\<close> among its operations covers them.\<close>

theorem iam_policy_semantics:
  assumes "yaml_laws yo" "iam_parse from_str yo text = Ok pol" "from_str text = Ok fl"
  shows "(iam_evaluate yo pol vm key p = IamAllow i \<longleftrightarrow>
      i < length (pf_statements fl) \<and> raw_covers yo vm key p (pf_statements fl ! i)
      \<and> (\<forall>j < i. \<not> raw_covers yo vm key p (pf_statements fl ! j)))
    \<and> (iam_evaluate yo pol vm key p = IamDeny \<longleftrightarrow> (\<forall>raw \<in> set (pf_statements fl). \<not> raw_covers yo vm key p raw))
    \<and> ((is_host_only p \<or> is_handshake p) \<and> iam_evaluate yo pol vm key p = IamAllow i
        \<longrightarrow> ''*'' \<in> set (raw_ops (pf_statements fl ! i)))"
proof -
  note ev = iam_evaluate_file [OF assms, of vm key p]
  have 1: "iam_evaluate yo pol vm key p = IamAllow i \<longleftrightarrow>
      i < length (pf_statements fl) \<and> raw_covers yo vm key p (pf_statements fl ! i)
      \<and> (\<forall>j < i. \<not> raw_covers yo vm key p (pf_statements fl ! j))"
    unfolding ev first_index_Some [symmetric] by (simp split: option.split)
  moreover have "iam_evaluate yo pol vm key p = IamDeny \<longleftrightarrow> (\<forall>raw \<in> set (pf_statements fl). \<not> raw_covers yo vm key p raw)"
    unfolding ev first_index_None [symmetric] by (simp split: option.split)
  moreover have "''*'' \<in> set (raw_ops (pf_statements fl ! i))"
    if "is_host_only p \<or> is_handshake p" "iam_evaluate yo pol vm key p = IamAllow i"
    using that 1 normalize_guest_only [OF that(1)] by (auto simp: raw_covers_def raw_op_def)
  ultimately show ?thesis by blast
qed

text \<open>A concrete YAML value type, and the sample policy of the daemon's tests.\<close>

datatype yaml = YStr string | YSeq "yaml list" | YMap "(string \<times> yaml) list"

definition yaml_inst :: "yaml yaml_ops" where
  "yaml_inst = \<lparr>y_string = YStr, y_sequence = YSeq, y_single = (\<lambda>k v. YMap [(k, v)]),
     y_get = (\<lambda>y k. case y of YMap kvs \<Rightarrow> map_of kvs k | _ \<Rightarrow> None),
     y_as_sequence = (\<lambda>y. case y of YSeq ys \<Rightarrow> Some ys | _ \<Rightarrow> None),
     y_as_str = (\<lambda>y. case y of YStr s \<Rightarrow> Some s | _ \<Rightarrow> None)\<rparr>"

lemma yaml_inst_laws: "yaml_laws yaml_inst"
  by (simp add: yaml_laws_def yaml_inst_def)

definition v1_statement :: "string list \<Rightarrow> string list \<Rightarrow> string list \<Rightarrow> yaml raw_statement" where
  "v1_statement ps hs ops = \<lparr>raw_principals = map Bare ps, raw_resources = None, raw_handles = Some hs, raw_ops = ops,
     raw_conditions = None\<rparr>"

definition sample_file :: "yaml policy_file" where
  "sample_file = \<lparr>pf_version = 1, pf_statements =
     [v1_statement [''vm1'', ''vm2''] [''sw-authority'', ''key-authority''] [''verify'', ''GET_PUBKEY''],
      v1_statement [''*''] [''device-decrypt''] [''decrypt'']]\<rparr>"

lemma spellings:
  "normalize_op ''GET_PUBKEY'' = Some ''get-pubkey''" "normalize_op ''verify'' = Some ''verify''"
  "normalize_op ''decrypt'' = Some ''decrypt''" "normalize_op ''sign'' = Some ''sign''" "normalize_op ''sing'' = None"
  by code_simp+

lemma sample_loads: "is_ok (iam_parse (\<lambda>_. Ok sample_file) yaml_inst text)"
  by (simp add: iam_parse_def policy_parse_def sample_file_def v1_statement_def load_statement_def load_resources_def
      load_ops_def compile_def spellings)

theorem iam_policy_semantics_witness:
  "\<exists>pol. iam_parse (\<lambda>_. Ok sample_file) yaml_inst [] = Ok pol
    \<and> iam_evaluate yaml_inst pol ''vm1'' ''sw-authority'' GetPubkey = IamAllow 0
    \<and> iam_evaluate yaml_inst pol ''vm99'' ''device-decrypt'' Decrypt = IamAllow 1
    \<and> iam_evaluate yaml_inst pol ''vm1'' ''device-decrypt'' Sign = IamDeny"
proof -
  obtain pol where pol: "iam_parse (\<lambda>_. Ok sample_file) yaml_inst [] = Ok pol"
    using sample_loads [of "[]"] by (cases "iam_parse (\<lambda>_. Ok sample_file) yaml_inst []") auto
  note sem = iam_policy_semantics [OF yaml_inst_laws pol refl]
  note allow = conjunct1 [OF sem] and deny = conjunct1 [OF conjunct2 [OF sem]]
  note defs = sample_file_def v1_statement_def raw_covers_def raw_names_def raw_grants_def raw_op_def
    spellings op_canonical_name_def
  have "iam_evaluate yaml_inst pol ''vm1'' ''sw-authority'' GetPubkey = IamAllow 0"
    unfolding allow by (simp add: defs)
  moreover have "iam_evaluate yaml_inst pol ''vm99'' ''device-decrypt'' Decrypt = IamAllow 1"
    unfolding allow by (simp add: defs)
  moreover have "iam_evaluate yaml_inst pol ''vm1'' ''device-decrypt'' Sign = IamDeny"
    unfolding deny by (simp add: defs)
  ultimately show ?thesis using pol by blast
qed

text \<open>An unknown operation name is reported with its statement. When the first statement that does not load is
  well formed up to its operation list and that list holds a name outside the vocabulary, loading
  fails with the index of the statement and the name (escaped as the Debug format escapes it): the
  adapter recovers both from the text of the evaluator's error, whatever the name contains.\<close>

theorem iam_unknown_op_reported:
  assumes "from_str text = Ok fl" "pf_version fl = 1 \<or> pf_version fl = 2" "i < length (pf_statements fl)" "i < 2 ^ 64"
    and "\<And>j. j < i \<Longrightarrow> is_ok (load_statement yo normalize_op j (pf_statements fl ! j))"
    and "raw = pf_statements fl ! i" "raw_principals raw \<noteq> []" "\<forall>sel \<in> set (raw_principals raw). is_ok (compile sel)"
    and "is_ok (load_resources yo i raw)" "''*'' \<notin> set (raw_ops raw)" "k < length (raw_ops raw)"
    and "normalize_op (raw_ops raw ! k) = None" "\<And>j. j < k \<Longrightarrow> normalize_op (raw_ops raw ! j) \<noteq> None"
  shows "iam_parse from_str yo text = Err (IamUnknownOp i (escape (raw_ops raw ! k)))"
proof -
  let ?msg = "unknown_op_msg i (raw_ops raw ! k)"
  have "collect (\<lambda>s. case normalize_op s of None \<Rightarrow> Err (PolMalformed (unknown_op_msg i s)) | Some c \<Rightarrow> Ok c) (raw_ops raw) =
      Err (PolMalformed ?msg)"
    using assms(11-13) by (intro collect_first_Err [of k]) (auto split: option.split)
  then have ops: "load_ops normalize_op i (raw_ops raw) = Err (PolMalformed ?msg)"
    using assms(10) by (auto simp: load_ops_def list_ex_iff)
  have "\<exists>ps. collect compile xs = Ok ps" if "\<forall>sel \<in> set xs. is_ok (compile sel)" for xs
    using that by (induction xs) (auto simp: is_ok_def split: sum.splits)
  then obtain ps where ps: "collect compile (raw_principals raw) = Ok ps" using assms(8) by blast
  obtain r where r: "load_resources yo i raw = Ok r" using assms(9) by (cases "load_resources yo i raw") auto
  have "load_statement yo normalize_op i raw = Err (PolMalformed ?msg)"
    using ops ps r assms(7,11) by (auto simp: load_statement_def)
  then have "load_statements yo normalize_op 0 (pf_statements fl) = Err (PolMalformed ?msg)"
    using load_statements_first_Err [of i "pf_statements fl" yo normalize_op 0] assms(3,5,6) by simp
  then show ?thesis
    using assms(1,2) parse_unknown_op_msg_inverse [OF assms(4)]
    by (auto simp: iam_parse_def policy_parse_def iam_load_error_from_def)
qed

definition typo_file :: "yaml policy_file" where
  "typo_file = \<lparr>pf_version = 1, pf_statements =
     [v1_statement [''vm1''] [''*''] [''sign''], v1_statement [''vm2''] [''jwt-signing''] [''verify'', ''sing'']]\<rparr>"

theorem iam_unknown_op_reported_witness:
  "iam_parse (\<lambda>_. Ok typo_file) yaml_inst [] = Err (IamUnknownOp 1 ''sing'')"
proof -
  have "is_ok (load_statement yaml_inst normalize_op 0 (v1_statement [''vm1''] [''*''] [''sign'']))"
    by (simp add: load_statement_def v1_statement_def load_resources_def load_ops_def compile_def spellings)
  then have "iam_parse (\<lambda>_. Ok typo_file) yaml_inst [] = Err (IamUnknownOp 1 (escape ''sing''))"
    using iam_unknown_op_reported [of "\<lambda>_. Ok typo_file" "[]" typo_file 1 yaml_inst "pf_statements typo_file ! 1" 1]
    by (auto simp: typo_file_def v1_statement_def load_resources_def compile_def spellings)
  then show ?thesis by (simp add: escape_def debug_char_def)
qed

text \<open>The documented reading of a typed \<^verbatim>\<open>vm: "*"\<close> (any principal) is not what it does: it matches VMs only.\<close>

lemma typed_star_is_vm_only:
  "compile (Typed \<lparr>tp_vm = Some ''*'', tp_namespace = None, tp_container = None, tp_image_digest = None,
      tp_tester = None, tp_device = None\<rparr>) = Ok (SelVm ''*'')"
  "sel_matches (SelVm ''*'') p \<longleftrightarrow> (\<exists>vm t. p = Vm vm t)" "sel_matches SelAny p"
  by (cases p; simp add: compile_def sel_matches_def)+

text \<open>Appending statements never changes a request that is already allowed, and an empty policy denies everything.\<close>

lemma evaluate_append:
  "evaluate \<lparr>pol_statements = sts\<rparr> p request oper matcher = Allow i
     \<Longrightarrow> evaluate \<lparr>pol_statements = sts @ extra\<rparr> p request oper matcher = Allow i"
  by (auto simp: evaluate_first first_index_append split: option.splits)

lemma empty_denies: "evaluate policy_empty p request oper matcher = Deny"
  by (simp add: evaluate_def policy_empty_def)

end
