(* ===== verification/VhsmProps.thy ===== *)
theory VhsmProps
  imports VhsmHandler IamProps
begin

text \<open>
  Properties of request dispatch: no effect without authorisation, isolation of dynamic handles, the
  table invariant, and what a key generation leaves behind when the provider refuses.
\<close>

section \<open>Authorisation\<close>

text \<open>A response that carries a result.\<close>

abbreviation succeeded :: "response \<Rightarrow> bool" where
  "succeeded r \<equiv> rs_status r = status_u32 StOk"

lemma resp_status [simp]:
  "succeeded (response_ok p sid xs)" "succeeded (response_err p sid st) \<longleftrightarrow> st = StOk"
  "rs_status (response_err p sid st) = status_u32 st"
  by (simp_all add: response_ok_def response_err_def del: status_u32_inject) (simp_all add: status_u32_inject)

definition entry_usable :: "handle_table \<Rightarrow> string \<Rightarrow> op \<Rightarrow> u32 \<Rightarrow> handle_entry \<Rightarrow> bool" where
  "entry_usable t vm p h e \<longleftrightarrow> ht_get t h = Some e \<and> (he_owner_vm_id e = [] \<or> he_owner_vm_id e = vm)
     \<and> (\<forall>q. required_perm p = Some q \<longrightarrow> he_permitted_ops e AND q \<noteq> 0)"

lemma resolve_usable:
  "ht_resolve t h vm = Some e \<Longrightarrow> (\<And>q. required_perm p = Some q \<Longrightarrow> \<not> perm_missing e q) \<Longrightarrow> entry_usable t vm p h e"
  by (auto simp: ht_resolve_def entry_usable_def perm_missing_def split: option.splits if_splits)

text \<open>Each handler of an existing handle acts only through a usable entry of the handle in the payload.\<close>

lemma crypto_with_handle_gate:
  assumes "handle_crypto_with_handle cr req p caller t c = (c', r)" "c' \<noteq> c \<or> succeeded r"
  shows "\<exists>h e. peek_handle req = Some h \<and> entry_usable t (cl_vm_id caller) p h e"
proof (cases "length (rq_payload req) < 4")
  case False
  let ?h = "get_u32_le (rq_payload req) 0"
  have peek: "peek_handle req = Some ?h" using False by (simp add: peek_handle_def)
  obtain e where e: "ht_resolve t ?h (cl_vm_id caller) = Some e"
    using assms False by (cases "ht_resolve t ?h (cl_vm_id caller)") (auto simp: handle_crypto_with_handle_def Let_def)
  have "\<not> perm_missing e q" if "required_perm p = Some q" for q
    using assms False e that by (auto simp: handle_crypto_with_handle_def Let_def)
  then show ?thesis using peek resolve_usable [OF e] by blast
qed (use assms in \<open>auto simp: handle_crypto_with_handle_def\<close>)

lemma verify_gate:
  assumes "handle_verify cr req caller t c = (c', r)" "c' \<noteq> c \<or> succeeded r"
  shows "\<exists>h e. peek_handle req = Some h \<and> entry_usable t (cl_vm_id caller) Verify h e"
proof (cases "length (rq_payload req) < 12")
  case False
  let ?h = "get_u32_le (rq_payload req) 0"
  have peek: "peek_handle req = Some ?h" using False by (simp add: peek_handle_def)
  obtain e where e: "ht_resolve t ?h (cl_vm_id caller) = Some e"
    using assms False by (cases "ht_resolve t ?h (cl_vm_id caller)") (auto simp: handle_verify_def Let_def)
  have "\<not> perm_missing e PERM_VERIFY"
    using assms False e by (auto simp: handle_verify_def Let_def)
  then show ?thesis using peek resolve_usable [OF e, of Verify] by (auto simp: required_perm_def)
qed (use assms in \<open>auto simp: handle_verify_def\<close>)

lemma info_gate:
  assumes "succeeded (handle_get_handle_info req caller t)"
  shows "\<exists>h e. peek_handle req = Some h \<and> entry_usable t (cl_vm_id caller) GetHandleInfo h e"
  using assms resolve_usable [where p = GetHandleInfo]
  by (fastforce simp: handle_get_handle_info_def peek_handle_def required_perm_def split: if_splits option.splits)

lemma pubkey_gate:
  assumes "handle_get_pubkey cr req caller t c = (c', r)" "c' \<noteq> c \<or> succeeded r"
  shows "\<exists>h e. peek_handle req = Some h \<and> entry_usable t (cl_vm_id caller) GetPubkey h e"
  using assms resolve_usable [where p = GetPubkey]
  by (fastforce simp: handle_get_pubkey_def peek_handle_def required_perm_def Let_def split: if_splits option.splits)

lemma cert_gate:
  assumes "handle_get_cert cr req caller t c = (c', r)" "c' \<noteq> c \<or> succeeded r"
  shows "\<exists>h e. peek_handle req = Some h \<and> entry_usable t (cl_vm_id caller) GetCert h e"
  using assms resolve_usable [where p = GetCert]
  by (fastforce simp: handle_get_cert_def peek_handle_def required_perm_def Let_def split: if_splits option.splits)

lemma authz_handle:
  assumes "p \<noteq> GetRandom" "p \<noteq> KeyGenerate" "peek_handle req = Some h" "ht_get t h = Some e"
    and "authz yo req p caller t iam = out" "out \<noteq> AuthzDeny"
  shows "h \<ge> HANDLE_DYNAMIC_BASE \<and> out = Bypass
    \<or> h < HANDLE_DYNAMIC_BASE \<and> (\<exists>i. out = AuthzAllow i \<and> iam_evaluate yo iam (cl_vm_id caller) (he_key_id e) p = IamAllow i)"
  using assms by (auto simp: authz_def decision_to_outcome_def Let_def not_le split: if_splits iam_decision.splits)

lemma request_ops:
  assumes "handle_request yo cr req caller t iam c = (t', c', r, out)" "succeeded r \<or> t' \<noteq> t \<or> c' \<noteq> c"
  obtains p where "op_from_u32 (rq_op req) = Some p" "\<not> is_host_only p" "\<not> is_handshake p"
    "authz yo req p caller t iam = out" "out \<noteq> AuthzDeny"
proof -
  obtain p where p: "op_from_u32 (rq_op req) = Some p" "\<not> is_host_only p" "\<not> is_handshake p"
    using assms by (auto simp: handle_request_def is_handshake_def split: option.splits if_splits)
  moreover have "authz yo req p caller t iam = out" "out \<noteq> AuthzDeny"
    using assms p by (auto simp: handle_request_def is_handshake_def Let_def split: if_splits op.splits prod.splits)
  ultimately show ?thesis by (rule that)
qed

lemma request_gate:
  assumes "handle_request yo cr req caller t iam c = (t', c', r, out)" "succeeded r \<or> t' \<noteq> t \<or> c' \<noteq> c"
    and "op_from_u32 (rq_op req) = Some p" "p \<noteq> GetRandom" "p \<noteq> KeyGenerate"
  shows "\<exists>h e. peek_handle req = Some h \<and> entry_usable t (cl_vm_id caller) p h e"
proof -
  have p: "\<not> is_host_only p" "\<not> is_handshake p" using request_ops [OF assms(1,2)] assms(3) by force+
  show ?thesis
    using assms p crypto_with_handle_gate [of cr req p caller t c] verify_gate [of cr req caller t c]
      info_gate [of req caller t] pubkey_gate [of cr req caller t c] cert_gate [of cr req caller t c]
    by (cases p) (auto simp: handle_request_def is_host_only_def is_handshake_def Let_def split: if_splits prod.splits)
qed

text \<open>C5: Nothing happens without authorisation. If a request gets a success response, changes the handle table, or
  makes the crypto provider change its state, then its operation is neither host-only nor a handshake
  operation, and: for random numbers and key generation the policy allowed the calling VM on the name
  \<^verbatim>\<open>system\<close>; for every other operation the payload names a handle in the table that is shared or owned
  by the calling VM and carries the permission bit of the operation, and the policy allowed the VM on the
  key of that handle, unless the handle is dynamic, where ownership decides. The outcome reported
  for the audit is the statement that allowed it.\<close>

theorem dispatch_authorised:
  assumes "handle_request yo cr req caller t iam c = (t', c', r, out)" "succeeded r \<or> t' \<noteq> t \<or> c' \<noteq> c"
  shows "\<exists>p. op_from_u32 (rq_op req) = Some p \<and> \<not> is_host_only p \<and> \<not> is_handshake p
    \<and> (if p = GetRandom \<or> p = KeyGenerate
       then \<exists>i. out = AuthzAllow i \<and> iam_evaluate yo iam (cl_vm_id caller) SYSTEM_HANDLE_NAME p = IamAllow i
       else \<exists>h e. peek_handle req = Some h \<and> entry_usable t (cl_vm_id caller) p h e
         \<and> (h \<ge> HANDLE_DYNAMIC_BASE \<and> out = Bypass
            \<or> h < HANDLE_DYNAMIC_BASE
              \<and> (\<exists>i. out = AuthzAllow i \<and> iam_evaluate yo iam (cl_vm_id caller) (he_key_id e) p = IamAllow i)))"
proof -
  obtain p where p: "op_from_u32 (rq_op req) = Some p" "\<not> is_host_only p" "\<not> is_handshake p"
    and out: "authz yo req p caller t iam = out" "out \<noteq> AuthzDeny"
    by (rule request_ops [OF assms])
  show ?thesis
  proof (cases "p = GetRandom \<or> p = KeyGenerate")
    case True
    then show ?thesis
      using p out by (auto simp: authz_def decision_to_outcome_def split: iam_decision.splits)
  next
    case False
    then have "\<exists>h e. peek_handle req = Some h \<and> entry_usable t (cl_vm_id caller) p h e"
      using request_gate [OF assms p(1)] by blast
    then obtain h e where h: "peek_handle req = Some h" "entry_usable t (cl_vm_id caller) p h e" by blast
    then have "h \<ge> HANDLE_DYNAMIC_BASE \<and> out = Bypass
      \<or> h < HANDLE_DYNAMIC_BASE \<and> (\<exists>i. out = AuthzAllow i \<and> iam_evaluate yo iam (cl_vm_id caller) (he_key_id e) p = IamAllow i)"
      using authz_handle [of p req h t e] False out by (auto simp: entry_usable_def)
    then show ?thesis using h p False by auto
  qed
qed

text \<open>A provider that counts its calls and echoes, a table with one shared key, and a policy for it.\<close>

definition echo_ops :: "nat crypto_ops" where
  "echo_ops = \<lparr>cr_random = (\<lambda>c n. (Suc c, Ok (replicate n 7))),
     cr_generate_key = (\<lambda>c h a. (Suc c, if a = ALG_ECC_P256 then Ok [1, 2] else Err (NotSupported ''alg''))),
     cr_sign = (\<lambda>c h d. (Suc c, Ok d)), cr_encrypt = (\<lambda>c h d. (Suc c, Ok d)), cr_decrypt = (\<lambda>c h d. (Suc c, Ok d)),
     cr_mac_generate = (\<lambda>c h d. (Suc c, Ok d)), cr_mac_verify = (\<lambda>c h d m. (Suc c, Ok (d = m))),
     cr_verify = (\<lambda>c h d m. (Suc c, Ok (d = m))), cr_get_public_key_der = (\<lambda>c h. (Suc c, Ok [1, 2])),
     cr_get_certificate_der = (\<lambda>c h. (Suc c, Err (KeyNotFound ''none'')))\<rparr>"

definition jwt_table :: handle_table where
  "jwt_table = fst (register_well_known ht_new HANDLE_JWT_SIGNING ''jwt-signing'' ALG_ECC_P256 PERM_SIGN)"

definition jwt_policy :: "yaml policy" where
  "jwt_policy = \<lparr>pol_statements =
     [\<lparr>st_principals = [SelVm ''vm1''], st_resources = YMap [(''hsm'', YMap [(''handles'', YSeq [YStr ''jwt-signing'', YStr ''system''])])],
       st_ops = OpExact {''sign'', ''key-generate''}, st_conditions = None\<rparr>]\<rparr>"

definition sign_request :: request where
  "sign_request = \<lparr>rq_op = op_u32 Sign, rq_session_id = 5, rq_payload = [6, 0, 0, 0, 9]\<rparr>"

lemma jwt_get: "ht_get jwt_table HANDLE_JWT_SIGNING = Some \<lparr>he_handle = HANDLE_JWT_SIGNING, he_key_id = ''jwt-signing'',
    he_algorithm = ALG_ECC_P256, he_permitted_ops = PERM_SIGN, he_owner_vm_id = [], he_persistent = True,
    he_label = str_bytes ''jwt-signing'' @ replicate 21 0\<rparr>"
  by (simp add: jwt_table_def register_well_known_def ht_new_def handle_is_well_known_def handle_defs ht_get_def Let_def LABEL_LEN_def)

lemma sign_decoded: "get_u32_le (rq_payload sign_request) 0 = HANDLE_JWT_SIGNING"
  by (simp add: sign_request_def get_u32_le_def get_bytes_def le_word_def HANDLE_JWT_SIGNING_def)

lemma jwt_allowed: "iam_evaluate yaml_inst jwt_policy ''vm1'' ''jwt-signing'' Sign = IamAllow 0"
  by (simp add: iam_evaluate_def evaluate_def jwt_policy_def sel_matches_def hsm_matches_def yaml_inst_def
      map_filter_simps op_matches_def op_canonical_name_def iam_decision_from_def)

lemma sign_served:
  "handle_request yaml_inst echo_ops sign_request \<lparr>cl_vm_id = ''vm1'', cl_cert_thumbprint = th\<rparr> jwt_table jwt_policy 0 =
    (jwt_table, 1, response_ok (op_u32 Sign) 5 [9], AuthzAllow 0)"
proof -
  have f: "rq_op sign_request = op_u32 Sign" "rq_session_id sign_request = 5" "length (rq_payload sign_request) = 5"
      "drop 4 (rq_payload sign_request) = [9]" by (simp_all add: sign_request_def)
  have "\<not> HANDLE_JWT_SIGNING \<ge> HANDLE_DYNAMIC_BASE" "PERM_SIGN AND PERM_SIGN \<noteq> 0" by (simp_all add: handle_defs perm_defs)
  then show ?thesis
    using f jwt_get jwt_allowed sign_decoded
    by (simp add: handle_request_def is_host_only_def authz_def peek_handle_def decision_to_outcome_def
        handle_crypto_with_handle_def ht_resolve_def required_perm_def perm_missing_def crypto_result_def echo_ops_def)
qed

theorem dispatch_authorised_witness:
  "op_from_u32 (rq_op sign_request) = Some Sign \<and> (\<exists>h e. peek_handle sign_request = Some h
    \<and> entry_usable jwt_table ''vm1'' Sign h e
    \<and> (\<exists>i. iam_evaluate yaml_inst jwt_policy ''vm1'' (he_key_id e) Sign = IamAllow i))"
  using dispatch_authorised [OF sign_served] by (auto simp: sign_request_def)

section \<open>Isolation\<close>

text \<open>A dynamic handle belongs to the VM that created it. A request of another VM that names it, with any operation
  that takes a handle, is refused without touching the handle table or the provider, whatever the policy says.\<close>

theorem dynamic_handles_isolated:
  assumes "peek_handle req = Some h" "ht_get t h = Some e" "he_owner_vm_id e \<noteq> []" "he_owner_vm_id e \<noteq> cl_vm_id caller"
    and "op_from_u32 (rq_op req) = Some p" "p \<noteq> GetRandom" "p \<noteq> KeyGenerate"
    and "handle_request yo cr req caller t iam c = (t', c', r, out)"
  shows "t' = t \<and> c' = c \<and> \<not> succeeded r"
proof (rule ccontr)
  assume "\<not> (t' = t \<and> c' = c \<and> \<not> succeeded r)"
  then have eff: "succeeded r \<or> t' \<noteq> t \<or> c' \<noteq> c" by blast
  have "\<exists>h e. peek_handle req = Some h \<and> entry_usable t (cl_vm_id caller) p h e"
    by (rule request_gate [OF assms(8) eff assms(5-7)])
  then show False using assms(1-4) by (auto simp: entry_usable_def)
qed

definition vm2_table :: handle_table where
  "vm2_table = fst (ht_allocate jwt_table ''gen-vm2-1'' ALG_ECC_P256 PERM_SIGN ''vm2'' False (replicate 32 0))"

theorem dynamic_handles_isolated_witness:
  "\<exists>t' c' r out. handle_request yaml_inst echo_ops \<lparr>rq_op = op_u32 Sign, rq_session_id = 1, rq_payload = [0, 1, 0, 0, 9]\<rparr>
      \<lparr>cl_vm_id = ''vm1'', cl_cert_thumbprint = []\<rparr> vm2_table jwt_policy 0 = (t', c', r, out)
    \<and> t' = vm2_table \<and> c' = 0 \<and> \<not> succeeded r"
proof -
  let ?req = "\<lparr>rq_op = op_u32 Sign, rq_session_id = 1, rq_payload = [0, 1, 0, 0, 9]\<rparr>"
  obtain t' c' r out where h: "handle_request yaml_inst echo_ops ?req \<lparr>cl_vm_id = ''vm1'', cl_cert_thumbprint = []\<rparr>
      vm2_table jwt_policy 0 = (t', c', r, out)" by (metis prod_cases4)
  have "peek_handle ?req = Some HANDLE_DYNAMIC_BASE"
    by (simp add: peek_handle_def get_u32_le_def get_bytes_def le_word_def HANDLE_DYNAMIC_BASE_def)
  moreover have "\<exists>e. ht_get vm2_table HANDLE_DYNAMIC_BASE = Some e \<and> he_owner_vm_id e = ''vm2''"
    by (simp add: vm2_table_def jwt_table_def register_well_known_def ht_new_def handle_is_well_known_def handle_defs
        ht_get_def ht_allocate_def Let_def MAX_HANDLES_def)
  ultimately show ?thesis using h dynamic_handles_isolated [OF _ _ _ _ _ _ _ h] by fastforce
qed

section \<open>Key generation\<close>

lemma key_generate_fields:
  assumes "handle_key_generate cr req caller t c = (t', c', r)" "44 \<le> length (rq_payload req)" "ht_len t < MAX_HANDLES"
  shows "ht_entries t' = ht_entries t @ [\<lparr>he_handle = ht_next_dynamic t, he_key_id = ''gen-'' @ cl_vm_id caller @ ''-'' @ dec (ht_len t),
      he_algorithm = get_u32_le (rq_payload req) 0, he_permitted_ops = get_u32_le (rq_payload req) 4,
      he_owner_vm_id = cl_vm_id caller, he_persistent = (get_u8 (rq_payload req) 8 \<noteq> 0),
      he_label = get_bytes LABEL_LEN (rq_payload req) 12\<rparr>]"
    "ht_next_dynamic t' = ht_next_dynamic t + 1"
    "cr_generate_key cr c (ht_next_dynamic t) (get_u32_le (rq_payload req) 0) = (c', res) \<Longrightarrow>
       r = (case res of Ok pk \<Rightarrow> ok_resp req (le_bytes (ht_next_dynamic t) @ le_bytes (of_nat (length pk) :: u32) @ pk)
            | Err e \<Rightarrow> err_resp req (case e of NotSupported _ \<Rightarrow> InvalidParam | _ \<Rightarrow> Internal))"
  using assms by (auto simp: handle_key_generate_def ht_allocate_def ht_len_def Let_def split: prod.splits sum.splits)

lemma key_generate_table:
  "fst (handle_key_generate cr req caller t c) = (if length (rq_payload req) < 44 then t
     else fst (ht_allocate t (''gen-'' @ cl_vm_id caller @ ''-'' @ dec (ht_len t)) (get_u32_le (rq_payload req) 0)
       (get_u32_le (rq_payload req) 4) (cl_vm_id caller) (get_u8 (rq_payload req) 8 \<noteq> 0) (get_bytes LABEL_LEN (rq_payload req) 12)))"
  by (simp add: handle_key_generate_def Let_def split: prod.splits option.splits sum.splits)

lemma table_ok_request:
  assumes "handle_request yo cr req caller t iam c = (t', c', r, out)" "table_ok t" "ht_next_dynamic t \<noteq> -1"
  shows "table_ok t'"
proof (cases "t' = t")
  case False
  then obtain p where p: "op_from_u32 (rq_op req) = Some p" using request_ops [OF assms(1)] by metis
  with False have "\<exists>c' r. handle_key_generate cr req caller t c = (t', c', r)"
    using assms(1) by (cases p) (auto simp: handle_request_def Let_def split: if_splits prod.splits)
  then have "44 \<le> length (rq_payload req)" "\<exists>k a q per. t' = fst (ht_allocate t k a q (cl_vm_id caller) per
      (get_bytes LABEL_LEN (rq_payload req) 12))"
    using False key_generate_table [of cr req caller t c] by (auto split: if_splits)
  moreover have "length (get_bytes LABEL_LEN (rq_payload req) 12) = LABEL_LEN" if "44 \<le> length (rq_payload req)"
    using that by (simp add: get_bytes_def LABEL_LEN_def)
  ultimately show ?thesis using table_ok_allocate [OF assms(2,3)] by auto
qed (use assms in simp)

lemma allocated_get:
  assumes "table_ok t'" "ht_entries t' = ht_entries t @ [e]"
  shows "ht_get t' (he_handle e) = Some e"
  using assms ht_get_Some by simp

definition info_payload :: "handle_entry \<Rightarrow> bytes" where
  "info_payload e = le_bytes (he_handle e) @ le_bytes (he_algorithm e) @ le_bytes (he_permitted_ops e)
     @ [if he_persistent e then 1 else 0] @ [0, 0, 0] @ he_label e"

text \<open>A generated key is usable by its creator and by nobody else. After a successful key generation the
  response starts with a fresh dynamic handle; a handle query by the creator returns the
  algorithm, permissions, persistence and label of the request, the same query by any other VM is
  refused as an unknown handle, every older handle still resolves as before, and the table stays well
  formed.\<close>

theorem key_generate_binds:
  assumes "handle_key_generate cr req caller t c = (t', c', r)" "succeeded r"
    and "table_ok t" "ht_next_dynamic t \<noteq> -1" "cl_vm_id caller \<noteq> []"
    and "q = \<lparr>rq_op = op_u32 GetHandleInfo, rq_session_id = sid, rq_payload = take 4 (rs_payload r)\<rparr>"
  shows "\<exists>h. take 4 (rs_payload r) = le_bytes h \<and> HANDLE_DYNAMIC_BASE \<le> h \<and> ht_get t h = None \<and> table_ok t'
    \<and> handle_get_handle_info q caller t' = response_ok (op_u32 GetHandleInfo) sid
        (le_bytes h @ take 8 (rq_payload req) @ [if get_u8 (rq_payload req) 8 \<noteq> 0 then 1 else 0] @ [0, 0, 0]
         @ get_bytes LABEL_LEN (rq_payload req) 12)
    \<and> (\<forall>other. cl_vm_id other \<noteq> cl_vm_id caller
         \<longrightarrow> handle_get_handle_info q other t' = response_err (op_u32 GetHandleInfo) sid InvalidHandle)
    \<and> (\<forall>h'. h' \<noteq> h \<longrightarrow> ht_get t' h' = ht_get t h')"
proof -
  have len: "44 \<le> length (rq_payload req)" "ht_len t < MAX_HANDLES"
    using assms(1,2) by (auto simp: handle_key_generate_def ht_allocate_def ht_len_def Let_def split: if_splits)
  let ?h = "ht_next_dynamic t"
  obtain res where g: "cr_generate_key cr c ?h (get_u32_le (rq_payload req) 0) = (c', res)"
    using assms(1) len by (auto simp: handle_key_generate_def ht_allocate_def ht_len_def Let_def split: prod.splits sum.splits)
  note kg = key_generate_fields [OF assms(1) len]
  obtain pk where "r = ok_resp req (le_bytes ?h @ le_bytes (of_nat (length pk) :: u32) @ pk)"
    using kg(3) [OF g] assms(2) by (cases res) (auto split: hsm_error.splits)
  then have h4: "take 4 (rs_payload r) = le_bytes ?h" by (simp add: response_ok_def)
  define e where "e = last (ht_entries t')"
  have e: "ht_entries t' = ht_entries t @ [e]" "he_handle e = ?h" "he_owner_vm_id e = cl_vm_id caller"
      "he_algorithm e = get_u32_le (rq_payload req) 0" "he_permitted_ops e = get_u32_le (rq_payload req) 4"
      "he_persistent e = (get_u8 (rq_payload req) 8 \<noteq> 0)" "he_label e = get_bytes LABEL_LEN (rq_payload req) 12"
    using kg(1) by (simp_all add: e_def)
  have ok: "table_ok t'"
    using table_ok_allocate [OF assms(3,4), of "get_bytes LABEL_LEN (rq_payload req) 12"] assms(1) len
    by (auto simp: handle_key_generate_def ht_allocate_def ht_len_def Let_def get_bytes_def LABEL_LEN_def
        split: prod.splits sum.splits)
  have get: "ht_get t' ?h = Some e" using allocated_get [OF ok e(1)] e(2) by simp
  have new: "ht_get t ?h = None"
    using ok e(1,2) unfolding ht_get_def table_ok_def by (force simp: find_None_iff)
  have dec: "get_u32_le (le_bytes ?h) 0 = ?h" by (simp add: get_u32_le_def get_bytes_def)
  have le: "le_bytes (get_u32_le (rq_payload req) 0) @ le_bytes (get_u32_le (rq_payload req) 4) = take 8 (rq_payload req)"
    using len(1) by (simp add: get_u32_le_def get_bytes_def le_bytes_le_word take_add [of 4 4 "rq_payload req", simplified])
  have older: "\<forall>h'. h' \<noteq> ?h \<longrightarrow> ht_get t' h' = ht_get t h'"
    using e(1,2) by (auto simp: ht_get_def find_append split: option.split)
  have base: "HANDLE_DYNAMIC_BASE \<le> ?h" using assms(3) by (simp add: table_ok_def)
  show ?thesis
    using h4 get new ok e dec le older base assms(5,6)
    by (intro exI [of _ ?h]) (auto simp: handle_get_handle_info_def ht_resolve_def response_ok_def simp flip: append_assoc)
qed

definition gen_request :: "u32 \<Rightarrow> request" where
  "gen_request alg = \<lparr>rq_op = op_u32 KeyGenerate, rq_session_id = 3,
     rq_payload = le_bytes alg @ le_bytes PERM_SIGN @ [1, 0, 0, 0] @ replicate 32 65\<rparr>"

lemma gen_request_fields:
  "length (rq_payload (gen_request alg)) = 44" "get_u32_le (rq_payload (gen_request alg)) 0 = alg"
  by (simp_all add: gen_request_def get_u32_le_def get_bytes_def)

lemma jwt_table_ok: "table_ok jwt_table" "ht_next_dynamic jwt_table = HANDLE_DYNAMIC_BASE" "ht_len jwt_table = 1"
  by (simp only: jwt_table_def table_ok_register [OF table_ok_new])
     (simp_all add: jwt_table_def register_well_known_def ht_new_def handle_is_well_known_def handle_defs Let_def ht_len_def)

theorem key_generate_binds_witness:
  "\<exists>t' c' r h. handle_key_generate echo_ops (gen_request ALG_ECC_P256) \<lparr>cl_vm_id = ''vm1'', cl_cert_thumbprint = []\<rparr> jwt_table 0 = (t', c', r)
    \<and> take 4 (rs_payload r) = le_bytes h \<and> ht_get jwt_table h = None \<and> table_ok t'"
proof -
  let ?cl = "\<lparr>cl_vm_id = ''vm1'', cl_cert_thumbprint = []\<rparr>"
  obtain t' c' r where g: "handle_key_generate echo_ops (gen_request ALG_ECC_P256) ?cl jwt_table 0 = (t', c', r)"
    by (metis prod_cases3)
  have "succeeded r"
    using g jwt_table_ok gen_request_fields [of ALG_ECC_P256]
    by (auto simp: handle_key_generate_def ht_allocate_def ht_len_def MAX_HANDLES_def Let_def echo_ops_def split: if_splits)
  then show ?thesis
    using key_generate_binds [OF g _ jwt_table_ok(1) _ _ refl, where sid = 0] g jwt_table_ok(2)
    by (fastforce simp: HANDLE_DYNAMIC_BASE_def)
qed

section \<open>Failed key generation\<close>

fun key_generates ::
    "'c crypto_ops \<Rightarrow> caller_id \<Rightarrow> request list \<Rightarrow> handle_table \<Rightarrow> 'c \<Rightarrow> handle_table \<times> 'c \<times> response list" where
  "key_generates cr caller [] t c = (t, c, [])"
| "key_generates cr caller (req # reqs) t c =
     (case handle_key_generate cr req caller t c of
        (t1, c1, r) \<Rightarrow> (case key_generates cr caller reqs t1 c1 of (t2, c2, rs) \<Rightarrow> (t2, c2, r # rs)))"

lemma failed_generate:
  assumes "\<And>c h. \<exists>c' m. cr_generate_key cr c h alg = (c', Err (NotSupported m))"
    and "44 \<le> length (rq_payload req)" "get_u32_le (rq_payload req) 0 = alg" "ht_len t < MAX_HANDLES"
  shows "\<exists>t' c'. handle_key_generate cr req caller t c = (t', c', err_resp req InvalidParam) \<and> ht_len t' = Suc (ht_len t)"
proof -
  obtain t' c' r where g: "handle_key_generate cr req caller t c = (t', c', r)" by (metis prod_cases3)
  obtain c1 m where c1: "cr_generate_key cr c (ht_next_dynamic t) alg = (c1, Err (NotSupported m))" using assms(1) by blast
  moreover from this have "c' = c1"
    using assms(2-4) g by (auto simp: handle_key_generate_def ht_allocate_def ht_len_def Let_def)
  ultimately show ?thesis
    using key_generate_fields [OF g assms(2,4)] g assms(3) by (auto simp: ht_len_def)
qed

text \<open>A refused key generation still uses up a handle. When the provider does not support the requested
  algorithm the caller gets an error, but the entry allocated before the provider was asked stays in
  the table: requests for an unsupported algorithm by one VM fill the table, and after that every key
  generation of every VM is refused for lack of room.\<close>

theorem failed_generation_fills_table:
  assumes "\<And>c h. \<exists>c' m. cr_generate_key cr c h alg = (c', Err (NotSupported m))"
    and "\<forall>req \<in> set reqs. 44 \<le> length (rq_payload req) \<and> get_u32_le (rq_payload req) 0 = alg"
    and "ht_len t + length reqs = MAX_HANDLES" "key_generates cr caller reqs t c = (t', c', rs)"
  shows "rs = map (\<lambda>req. err_resp req InvalidParam) reqs \<and> ht_len t' = MAX_HANDLES
    \<and> (\<forall>victim req2 c2. 44 \<le> length (rq_payload req2)
         \<longrightarrow> handle_key_generate cr req2 victim t' c2 = (t', c2, err_resp req2 NoResource))"
  using assms(2-4)
proof (induction reqs arbitrary: t c rs)
  case Nil
  then show ?case by (auto simp: handle_key_generate_def ht_allocate_def ht_len_def Let_def)
next
  case (Cons req reqs)
  have "ht_len t < MAX_HANDLES" using Cons.prems(2) by simp
  then obtain t1 c1 where g: "handle_key_generate cr req caller t c = (t1, c1, err_resp req InvalidParam)" "ht_len t1 = Suc (ht_len t)"
    using failed_generate [OF assms(1)] Cons.prems(1) by (metis list.set_intros(1))
  obtain rs' where rs': "key_generates cr caller reqs t1 c1 = (t', c', rs')" "rs = err_resp req InvalidParam # rs'"
    using Cons.prems(3) g(1) by (auto split: prod.splits)
  show ?case
    using Cons.IH [of t1 c1 rs'] Cons.prems rs' g(2) by simp
qed

theorem failed_generation_fills_table_witness:
  "\<exists>t' c' rs. key_generates echo_ops \<lparr>cl_vm_id = ''vm1'', cl_cert_thumbprint = []\<rparr> (replicate 63 (gen_request 0x99)) jwt_table 0 = (t', c', rs)
    \<and> ht_len t' = MAX_HANDLES
    \<and> handle_key_generate echo_ops (gen_request ALG_ECC_P256) \<lparr>cl_vm_id = ''vm2'', cl_cert_thumbprint = []\<rparr> t' c' =
        (t', c', response_err (op_u32 KeyGenerate) 3 NoResource)"
proof -
  let ?cl = "\<lparr>cl_vm_id = ''vm1'', cl_cert_thumbprint = []\<rparr>"
  obtain t' c' rs where k: "key_generates echo_ops ?cl (replicate 63 (gen_request 0x99)) jwt_table 0 = (t', c', rs)"
    by (metis prod_cases3)
  have "\<exists>c' m. cr_generate_key echo_ops c h 0x99 = (c', Err (NotSupported m))" for c h
    by (simp add: echo_ops_def ALG_ECC_P256_def)
  then show ?thesis
    using failed_generation_fills_table [OF _ _ _ k] k jwt_table_ok(3) gen_request_fields
    by (fastforce simp: MAX_HANDLES_def gen_request_def)
qed

end
