(* ===== verification/VhsmClient.thy ===== *)
theory VhsmClient
  imports VhsmAuth
begin

text \<open>
  The guest side of the handshake, \<^verbatim>\<open>crates/vhsm-client/src/auth/handshake.rs\<close> and \<^verbatim>\<open>persist.rs\<close>. The stream
  is a state \<open>'s\<close> with an exchange: what writing a request frame and reading the response frame
  does. The three files of the guest are their contents (\<open>None\<close>: not found); whether each file
  system call succeeds is the argument \<open>io\<close>. An identity key is its raw scalar; the ECDSA library
  (\<open>sign\<close>, \<open>scalar_ok\<close>) and a freshly generated key with its point are parameters. Saves go through a
  temporary file and a rename: a failure leaves the old content. The library's wording of a UTF-8
  error is left out.
\<close>

section \<open>Model\<close>

definition IDENTITY_KEY_LEN :: nat where "IDENTITY_KEY_LEN = 32"
definition BOOTSTRAP_TOKEN_LEN :: nat where "BOOTSTRAP_TOKEN_LEN = 32"

datatype io_failure = InvalidData | OtherIo

datatype auth_error =
    ClientIo io_failure
  | AuthFail auth_fail_reason
  | UnknownAuthFail u32
  | NoCertOnDisk
  | NoBootstrapToken
  | UnexpectedOp u32 u32
  | BadNonce nat
  | BadAuthOk string

record client_disk =
  cd_cert :: "bytes option"
  cd_identity_key :: "bytes option"
  cd_bootstrap_token :: "bytes option"

record client_io =
  ci_load_cert :: bool
  ci_load_key :: bool
  ci_load_token :: bool
  ci_save_key :: bool
  ci_save_cert :: bool
  ci_delete_token :: bool

record ecdsa_ops =
  ec_sign :: "bytes \<Rightarrow> bytes \<Rightarrow> bytes"
  ec_scalar_ok :: "bytes \<Rightarrow> bool"

definition load_cert :: "bool \<Rightarrow> bytes option \<Rightarrow> io_failure + bytes option" where
  "load_cert io content =
     (if \<not> io then Err OtherIo
      else case content of None \<Rightarrow> Ok None | Some b \<Rightarrow> if b = [] then Err InvalidData else Ok (Some b))"

definition load_identity_key :: "ecdsa_ops \<Rightarrow> bool \<Rightarrow> bytes option \<Rightarrow> io_failure + bytes option" where
  "load_identity_key ec io content =
     (if \<not> io then Err OtherIo
      else case content of
             None \<Rightarrow> Ok None
           | Some b \<Rightarrow>
               if length b \<noteq> IDENTITY_KEY_LEN then Err InvalidData
               else if ec_scalar_ok ec b then Ok (Some b) else Err InvalidData)"

definition load_bootstrap_token :: "bool \<Rightarrow> bytes option \<Rightarrow> io_failure + bytes option" where
  "load_bootstrap_token io content =
     (if \<not> io then Err OtherIo
      else case content of None \<Rightarrow> Ok None | Some b \<Rightarrow> if length b \<noteq> BOOTSTRAP_TOKEN_LEN then Err InvalidData else Ok (Some b))"

definition save_identity_key :: "bool \<Rightarrow> bytes \<Rightarrow> client_disk \<Rightarrow> client_disk \<times> (io_failure + unit)" where
  "save_identity_key io sk d = (if io then (d\<lparr>cd_identity_key := Some sk\<rparr>, Ok ()) else (d, Err OtherIo))"

definition save_cert :: "bool \<Rightarrow> bytes \<Rightarrow> client_disk \<Rightarrow> client_disk \<times> (io_failure + unit)" where
  "save_cert io cwt d = (if io then (d\<lparr>cd_cert := Some cwt\<rparr>, Ok ()) else (d, Err OtherIo))"

definition delete_bootstrap_token :: "bool \<Rightarrow> client_disk \<Rightarrow> client_disk \<times> (io_failure + unit)" where
  "delete_bootstrap_token io d = (if io then (d\<lparr>cd_bootstrap_token := None\<rparr>, Ok ()) else (d, Err OtherIo))"

definition encode_enroll_assisted_payload :: "bytes \<Rightarrow> bytes" where
  "encode_enroll_assisted_payload csr_pub = of_nat (length csr_pub) # csr_pub"

definition encode_auth_payload :: "bytes \<Rightarrow> bytes \<Rightarrow> bytes" where
  "encode_auth_payload cwt proof_sig =
     le_bytes (of_nat (length cwt) :: u16) @ cwt @ le_bytes (of_nat (length proof_sig) :: u16) @ proof_sig"

definition encode_enroll_payload :: "string \<Rightarrow> bytes \<Rightarrow> bytes \<Rightarrow> bytes" where
  "encode_enroll_payload vm_id token csr_pub =
     (let vm = str_bytes vm_id
      in [of_nat (length vm)] @ vm @ [of_nat (length token)] @ token @ [of_nat (length csr_pub)] @ csr_pub)"

definition parse_auth_ok_payload :: "bytes \<Rightarrow> auth_error + principal_binding" where
  "parse_auth_ok_payload payload =
     (case payload of
        [] \<Rightarrow> Err (BadAuthOk ''empty payload'')
      | l # rest \<Rightarrow>
          let vm_id_len = unat l
          in if length payload \<noteq> 1 + vm_id_len + 32
             then Err (BadAuthOk (''expected '' @ dec (1 + vm_id_len + 32) @ '' bytes, got '' @ dec (length payload)))
             else (case from_utf8 (take vm_id_len rest) of
                     None \<Rightarrow> Err (BadAuthOk ''vm_id utf-8'')
                   | Some vm_id \<Rightarrow> Ok \<lparr>pb_vm_id = vm_id, pb_cert_thumbprint = drop vm_id_len rest\<rparr>))"

definition check_status :: "response \<Rightarrow> auth_error + unit" where
  "check_status resp =
     (if rs_status resp = status_u32 StOk then Ok ()
      else if length (rs_payload resp) \<ge> 2
      then (case auth_fail_from_u16 (get_u16_le (rs_payload resp) 0) of
              Some r \<Rightarrow> Err (AuthFail r)
            | None \<Rightarrow> Err (UnknownAuthFail (rs_status resp)))
      else Err (UnknownAuthFail (rs_status resp)))"

text \<open>One request of the handshake: exchange, status check and check of the echoed operation.\<close>

definition ask ::
    "('s \<Rightarrow> request \<Rightarrow> 's \<times> (io_failure + response)) \<Rightarrow> 's \<Rightarrow> request \<Rightarrow> op \<Rightarrow> 's \<times> (auth_error + bytes)" where
  "ask xchg st req expected =
     (case xchg st req of
        (st', Err e) \<Rightarrow> (st', Err (ClientIo e))
      | (st', Ok resp) \<Rightarrow>
          (st', and_then (check_status resp) (\<lambda>_.
             if rs_op resp \<noteq> op_u32 expected then Err (UnexpectedOp (op_u32 expected) (rs_op resp)) else Ok (rs_payload resp))))"

definition run_hello ::
    "('s \<Rightarrow> request \<Rightarrow> 's \<times> (io_failure + response)) \<Rightarrow> 's \<Rightarrow> u32 \<Rightarrow> 's \<times> (auth_error + bytes)" where
  "run_hello xchg st session_id =
     (case ask xchg st \<lparr>rq_op = op_u32 Hello, rq_session_id = session_id, rq_payload = []\<rparr> Hello of
        (st', Err e) \<Rightarrow> (st', Err e)
      | (st', Ok payload) \<Rightarrow>
          (st', if length payload \<noteq> NONCE_LEN then Err (BadNonce (length payload)) else Ok payload))"

definition sign_proof :: "ecdsa_ops \<Rightarrow> bytes \<Rightarrow> bytes \<Rightarrow> bytes" where
  "sign_proof ec id_key nonce = ec_sign ec id_key (nonce @ PROOF_DOMAIN_TAG)"

definition authenticate ::
    "ecdsa_ops \<Rightarrow> ('s \<Rightarrow> request \<Rightarrow> 's \<times> (io_failure + response)) \<Rightarrow> client_io \<Rightarrow> client_disk \<Rightarrow> 's \<Rightarrow> u32
       \<Rightarrow> 's \<times> (auth_error + principal_binding)" where
  "authenticate ec xchg io d st session_id =
     (case load_cert (ci_load_cert io) (cd_cert d) of
        Err e \<Rightarrow> (st, Err (ClientIo e))
      | Ok None \<Rightarrow> (st, Err NoCertOnDisk)
      | Ok (Some cwt) \<Rightarrow>
          (case load_identity_key ec (ci_load_key io) (cd_identity_key d) of
             Err e \<Rightarrow> (st, Err (ClientIo e))
           | Ok None \<Rightarrow> (st, Err NoCertOnDisk)
           | Ok (Some id_key) \<Rightarrow>
               (case run_hello xchg st session_id of
                  (st1, Err e) \<Rightarrow> (st1, Err e)
                | (st1, Ok nonce) \<Rightarrow>
                    (case ask xchg st1 \<lparr>rq_op = op_u32 Auth, rq_session_id = session_id,
                                      rq_payload = encode_auth_payload cwt (sign_proof ec id_key nonce)\<rparr> AuthOk of
                       (st2, Err e) \<Rightarrow> (st2, Err e)
                     | (st2, Ok payload) \<Rightarrow> (st2, parse_auth_ok_payload payload)))))"

text \<open>The saves at the end of an enrolment, in order; the first failure ends it.\<close>

definition persist_enrolment :: "client_io \<Rightarrow> bytes \<Rightarrow> bytes \<Rightarrow> bool \<Rightarrow> client_disk \<Rightarrow> client_disk \<times> (auth_error + unit)" where
  "persist_enrolment io sk cwt del d =
     (case save_identity_key (ci_save_key io) sk d of
        (d1, Err e) \<Rightarrow> (d1, Err (ClientIo e))
      | (d1, Ok _) \<Rightarrow>
          (case save_cert (ci_save_cert io) cwt d1 of
             (d2, Err e) \<Rightarrow> (d2, Err (ClientIo e))
           | (d2, Ok _) \<Rightarrow>
               if \<not> del then (d2, Ok ())
               else (case delete_bootstrap_token (ci_delete_token io) d2 of
                       (d3, Err e) \<Rightarrow> (d3, Err (ClientIo e))
                     | (d3, Ok _) \<Rightarrow> (d3, Ok ()))))"

definition client_enroll ::
    "('s \<Rightarrow> request \<Rightarrow> 's \<times> (io_failure + response)) \<Rightarrow> client_io \<Rightarrow> bytes \<times> bytes \<times> bytes \<Rightarrow> string \<Rightarrow> client_disk \<Rightarrow> 's \<Rightarrow> u32
       \<Rightarrow> client_disk \<times> 's \<times> (auth_error + unit)" where
  "client_enroll xchg io kp vm_id d st session_id =
     (case load_bootstrap_token (ci_load_token io) (cd_bootstrap_token d) of
        Err e \<Rightarrow> (d, st, Err (ClientIo e))
      | Ok None \<Rightarrow> (d, st, Err NoBootstrapToken)
      | Ok (Some token) \<Rightarrow>
          (case kp of (id_key, x, y) \<Rightarrow>
             let csr_pub = 0x04 # x @ y
             in (case run_hello xchg st session_id of
                   (st1, Err e) \<Rightarrow> (d, st1, Err e)
                 | (st1, Ok nonce) \<Rightarrow>
                     (case ask xchg st1 \<lparr>rq_op = op_u32 Enroll, rq_session_id = session_id,
                                       rq_payload = encode_enroll_payload vm_id token csr_pub\<rparr> Enroll of
                        (st2, Err e) \<Rightarrow> (d, st2, Err e)
                      | (st2, Ok cwt) \<Rightarrow> (case persist_enrolment io id_key cwt True d of (d', r) \<Rightarrow> (d', st2, r))))))"

definition client_enroll_assisted ::
    "('s \<Rightarrow> request \<Rightarrow> 's \<times> (io_failure + response)) \<Rightarrow> client_io \<Rightarrow> bytes \<times> bytes \<times> bytes \<Rightarrow> client_disk \<Rightarrow> 's \<Rightarrow> u32
       \<Rightarrow> client_disk \<times> 's \<times> (auth_error + unit)" where
  "client_enroll_assisted xchg io kp d st session_id =
     (case kp of (id_key, x, y) \<Rightarrow>
        let csr_pub = 0x04 # x @ y
        in (case run_hello xchg st session_id of
              (st1, Err e) \<Rightarrow> (d, st1, Err e)
            | (st1, Ok nonce) \<Rightarrow>
                (case ask xchg st1 \<lparr>rq_op = op_u32 EnrollAssisted, rq_session_id = session_id,
                                  rq_payload = encode_enroll_assisted_payload csr_pub\<rparr> EnrollAssisted of
                   (st2, Err e) \<Rightarrow> (d, st2, Err e)
                 | (st2, Ok cwt) \<Rightarrow> (case persist_enrolment io id_key cwt False d of (d', r) \<Rightarrow> (d', st2, r)))))"

section \<open>The two sides agree on the payloads\<close>

lemma unat_len_u8: "n < 256 \<Longrightarrow> unat (of_nat n :: u8) = n"
  by (simp add: unat_of_nat)

lemma unat_len_u16: "n < 65536 \<Longrightarrow> unat (of_nat n :: u16) = n"
  by (simp add: unat_of_nat)

lemma get_u16_prefix: "get_u16_le (le_bytes (w :: u16) @ xs) 0 = w"
  by (simp add: get_u16_le_def get_bytes_def)

lemma auth_payload_parses:
  assumes "length cwt < 65536" "length sig < 65536"
  shows "parse_auth_payload (encode_auth_payload cwt sig) = Some (cwt, sig)"
  using assms by (simp add: parse_auth_payload_def encode_auth_payload_def Let_def get_u16_prefix unat_len_u16)

lemma enroll_payload_parses:
  assumes "vm_id \<noteq> []" "length vm_id < 256" "utf8_valid (str_bytes vm_id)" "tok \<noteq> []" "length tok < 256" "length csr < 256"
  shows "parse_enroll_payload (encode_enroll_payload vm_id tok csr) = Some (vm_id, tok, csr)"
  using assms by (simp add: parse_enroll_payload_def encode_enroll_payload_def Let_def unat_len_u8 from_utf8_str_bytes)

lemma assisted_payload_parses:
  "length csr < 256 \<Longrightarrow> parse_enroll_assisted_payload (encode_enroll_assisted_payload csr) = Some csr"
  by (simp add: parse_enroll_assisted_payload_def encode_enroll_assisted_payload_def unat_len_u8)

lemma auth_ok_payload_parses:
  assumes "length (pb_vm_id p) < 256" "utf8_valid (str_bytes (pb_vm_id p))" "length (pb_cert_thumbprint p) = 32"
  shows "parse_auth_ok_payload (encode_auth_ok_payload p) = Ok p"
  using assms by (simp add: parse_auth_ok_payload_def encode_auth_ok_payload_def Let_def unat_len_u8 from_utf8_str_bytes)

end
