(* ===== verification/AuthProps.thy ===== *)
theory AuthProps
  imports VhsmClient
begin

text \<open>
  Properties of the handshake: exactly which request sequences authenticate a connection, that
  enrolment tokens and pending flags are used at most once, that an issued certificate
  authenticates its holder, and what a save does to flags armed by the host in the meantime.
\<close>

section \<open>Authentication\<close>

fun hs_run ::
    "('k, 's) auth_libs \<Rightarrow> bytes \<Rightarrow> 'y policy \<Rightarrow> handshake_state \<Rightarrow> 'ip enroll_context option \<Rightarrow> (auth_env \<times> request) list
       \<Rightarrow> handshake_state \<times> 'ip enroll_context option \<times> response list" where
  "hs_run libs pub pol st enroll [] = (st, enroll, [])"
| "hs_run libs pub pol st enroll ((env, req) # ins) =
     (case auth_step libs env st req pub pol enroll of
        (st1, enroll1, r) \<Rightarrow>
          (case hs_run libs pub pol st1 enroll1 ins of (st2, enroll2, rs) \<Rightarrow> (st2, enroll2, r # rs)))"

lemma reject_fst [simp]: "fst (reject req reason) = Failed reason"
  by (simp add: reject_def)

lemma done_step:
  "is_done st \<Longrightarrow> fst (auth_step libs env st req pub pol enroll) = Failed AuthInvalidParam"
  "is_done st \<Longrightarrow> fst (snd (auth_step libs env st req pub pol enroll)) = enroll"
  by (cases st; simp add: auth_step_def is_done_def Let_def reject_def split: option.split op.split)+

lemma failed_run: "fst (hs_run libs pub pol (Failed r) enroll ins) = Failed r \<or> fst (hs_run libs pub pol (Failed r) enroll ins) = Failed AuthInvalidParam"
proof (induction ins arbitrary: r enroll)
  case (Cons i ins)
  obtain env req where i: "i = (env, req)" by fastforce
  have "fst (auth_step libs env (Failed r) req pub pol enroll) = Failed AuthInvalidParam"
    by (rule done_step) (simp add: is_done_def)
  then show ?case using Cons.IH [of AuthInvalidParam] i by (auto split: prod.splits) (metis fst_conv)
qed simp

lemma done_run: "is_done st \<Longrightarrow> ins \<noteq> [] \<Longrightarrow> \<exists>r. fst (hs_run libs pub pol st enroll ins) = Failed r"
proof (cases ins)
  case (Cons i rest)
  assume d: "is_done st"
  obtain env req where i: "i = (env, req)" by fastforce
  obtain e1 r1 where "auth_step libs env st req pub pol enroll = (Failed AuthInvalidParam, e1, r1)"
    using done_step(1) [OF d] by (metis prod.collapse)
  then show ?thesis
    using failed_run [of libs pub pol AuthInvalidParam e1 rest] i Cons by (auto split: prod.splits)
qed simp

text \<open>A step from \<open>AwaitHello\<close> or \<open>NonceSent\<close>, by operation.\<close>

lemma step_await:
  "fst (auth_step libs env AwaitHello req pub pol enroll) =
     (if op_from_u32 (rq_op req) = Some Hello \<and> rq_payload req = [] then NonceSent (en_nonce env) else Failed AuthInvalidParam)"
  "fst (snd (auth_step libs env AwaitHello req pub pol enroll)) = enroll"
  by (auto simp: auth_step_def handle_hello_def reject_def Let_def split: option.split op.split)

lemma enroll_not_auth:
  "fst (handle_enroll libs env req ctx) \<noteq> Authenticated p" "fst (handle_enroll_assisted libs env req ctx) \<noteq> Authenticated p"
  "\<not> is_done st' \<Longrightarrow> fst (handle_enroll libs env req ctx) \<noteq> st'" "\<not> is_done st' \<Longrightarrow> fst (handle_enroll_assisted libs env req ctx) \<noteq> st'"
  by (auto simp: handle_enroll_def handle_enroll_assisted_def reject_def Let_def is_done_def
      split: option.splits prod.splits sum.splits consume_outcome.splits pending_consume_outcome.splits if_splits)

lemma step_nonce:
  "fst (auth_step libs env (NonceSent n) req pub pol enroll) =
     (case op_from_u32 (rq_op req) of
        Some Auth \<Rightarrow> fst (handle_auth libs env n req pub pol)
      | Some Enroll \<Rightarrow> (case enroll of Some ctx \<Rightarrow> fst (handle_enroll libs env req ctx) | None \<Rightarrow> Failed AuthInvalidParam)
      | Some EnrollAssisted \<Rightarrow> (case enroll of Some ctx \<Rightarrow> fst (handle_enroll_assisted libs env req ctx) | None \<Rightarrow> Failed AuthInvalidParam)
      | _ \<Rightarrow> Failed AuthInvalidParam)"
  by (auto simp: auth_step_def Let_def case_prod_unfold split: option.split op.split)

lemma enroll_done: "is_done (fst (handle_enroll libs env req ctx))" "is_done (fst (handle_enroll_assisted libs env req ctx))"
  using enroll_not_auth(3,4) by blast+

lemma nonce_step_done: "is_done (fst (auth_step libs env (NonceSent n) req pub pol enroll))"
proof -
  have "is_done (fst (handle_auth libs env n req pub pol))"
    by (auto simp: handle_auth_def reject_def is_done_def Let_def split: option.split sum.split prod.split)
  moreover have "is_done (Failed AuthInvalidParam)" by (simp add: is_done_def)
  ultimately show ?thesis
    by (simp add: step_nonce enroll_done split: option.split op.split)
qed

lemma nonce_step_auth:
  "fst (auth_step libs env (NonceSent n) req pub pol enroll) = Authenticated p \<longleftrightarrow>
     op_from_u32 (rq_op req) = Some Auth
     \<and> (\<exists>cwt sig cert. parse_auth_payload (rq_payload req) = Some (cwt, sig)
          \<and> cert_validate (al_cose libs) cwt pub (en_now env) = Ok cert
          \<and> verify_proof_sig (al_cose libs) (pc_cnf_pubkey cert) n sig
          \<and> p = \<lparr>pb_vm_id = pc_subject cert, pb_cert_thumbprint = pc_thumbprint cert\<rparr>)"
proof -
  have "fst (handle_auth libs env n req pub pol) = Authenticated p \<longleftrightarrow>
     (\<exists>cwt sig cert. parse_auth_payload (rq_payload req) = Some (cwt, sig)
          \<and> cert_validate (al_cose libs) cwt pub (en_now env) = Ok cert
          \<and> verify_proof_sig (al_cose libs) (pc_cnf_pubkey cert) n sig
          \<and> p = \<lparr>pb_vm_id = pc_subject cert, pb_cert_thumbprint = pc_thumbprint cert\<rparr>)"
    by (auto simp: handle_auth_def reject_def Let_def policy_recognises_principal_def split: option.split sum.split prod.split)
  then show ?thesis
    by (simp add: step_nonce enroll_not_auth(1,2) split: option.split op.split)
qed

text \<open>The final state of a run of at least one request.\<close>

lemma run_Cons: "fst (hs_run libs pub pol st enroll ((env, req) # ins)) =
    fst (hs_run libs pub pol (fst (auth_step libs env st req pub pol enroll)) (fst (snd (auth_step libs env st req pub pol enroll))) ins)"
  by (simp add: case_prod_unfold)

text \<open>C33: A connection is authenticated exactly by HELLO and then AUTH. Whatever requests a client sends, the state is
  \<open>Authenticated p\<close> if and only if it sent exactly two: a HELLO without payload, answered with a nonce, and
  an AUTH whose certificate validates at that time under the device key and whose signature over
  this connection's nonce and the domain tag verifies under the key the certificate confirms; the
  binding is the subject and the thumbprint of that certificate. The policy plays no part.\<close>

theorem authenticated_iff:
  "fst (hs_run libs pub pol AwaitHello enroll ins) = Authenticated p \<longleftrightarrow>
     (\<exists>env1 req1 env2 req2 cwt sig cert. ins = [(env1, req1), (env2, req2)]
        \<and> op_from_u32 (rq_op req1) = Some Hello \<and> rq_payload req1 = [] \<and> op_from_u32 (rq_op req2) = Some Auth
        \<and> parse_auth_payload (rq_payload req2) = Some (cwt, sig)
        \<and> cert_validate (al_cose libs) cwt pub (en_now env2) = Ok cert
        \<and> verify_proof_sig (al_cose libs) (pc_cnf_pubkey cert) (en_nonce env1) sig
        \<and> p = \<lparr>pb_vm_id = pc_subject cert, pb_cert_thumbprint = pc_thumbprint cert\<rparr>)"
proof (cases ins)
  case Nil
  then show ?thesis by simp
next
  case (Cons i1 ins1)
  obtain env1 req1 where i1: "i1 = (env1, req1)" by fastforce
  show ?thesis
  proof (cases "op_from_u32 (rq_op req1) = Some Hello \<and> rq_payload req1 = []")
    case False
    then have "fst (hs_run libs pub pol AwaitHello enroll ins) = fst (hs_run libs pub pol (Failed AuthInvalidParam) enroll ins1)"
      using Cons i1 by (simp only: run_Cons step_await) simp
    then show ?thesis using failed_run [of libs pub pol AuthInvalidParam enroll ins1] False Cons i1 by auto
  next
    case True
    then have run: "fst (hs_run libs pub pol AwaitHello enroll ins) = fst (hs_run libs pub pol (NonceSent (en_nonce env1)) enroll ins1)"
      using Cons i1 by (simp only: run_Cons step_await) simp
    show ?thesis
    proof (cases ins1)
      case Nil
      then show ?thesis using run Cons by auto
    next
      case (Cons i2 ins2)
      obtain env2 req2 where i2: "i2 = (env2, req2)" by fastforce
      let ?s = "auth_step libs env2 (NonceSent (en_nonce env1)) req2 pub pol enroll"
      have run2: "fst (hs_run libs pub pol AwaitHello enroll ins) = fst (hs_run libs pub pol (fst ?s) (fst (snd ?s)) ins2)"
        using run Cons i2 by (simp only: run_Cons)
      show ?thesis
      proof (cases "ins2 = []")
        case True
        then show ?thesis
          using run2 nonce_step_auth [of libs env2 "en_nonce env1" req2 pub pol enroll p] \<open>ins = i1 # ins1\<close> Cons i1 i2
            \<open>op_from_u32 (rq_op req1) = Some Hello \<and> rq_payload req1 = []\<close> by auto
      next
        case False
        then obtain r where "fst (hs_run libs pub pol (fst ?s) (fst (snd ?s)) ins2) = Failed r"
          using done_run [OF nonce_step_done False] by blast
        then show ?thesis using run2 False \<open>ins = i1 # ins1\<close> Cons by auto
      qed
    qed
  qed
qed

section \<open>Enrolment\<close>

text \<open>Documented behaviour of the YAML library: what was serialised parses back.\<close>

definition yaml_doc_law :: "('k, 's) auth_libs \<Rightarrow> bool" where
  "yaml_doc_law libs \<longleftrightarrow> (\<forall>f y. al_to_yaml libs f = Ok y \<longrightarrow> al_from_yaml libs y = Ok f)"

lemma of_to_file [simp]: "of_file (to_file b) = b"
  by (simp add: of_file_def to_file_def)

text \<open>A fact of the enrolment state, in memory and on disk.\<close>

definition on_both :: "('k, 's) auth_libs \<Rightarrow> (bootstrap_state \<Rightarrow> bool) \<Rightarrow> 'ip enroll_context \<Rightarrow> bool" where
  "on_both libs P ctx \<longleftrightarrow> P (ec_bootstrap ctx)
     \<and> (\<exists>y f. ec_disk ctx = Some y \<and> al_from_yaml libs y = Ok f \<and> P (of_file f))"

lemma on_both_saved:
  assumes "yaml_doc_law libs" "P b" "bootstrap_save (al_to_yaml libs) io b disk = (disk', Ok u)"
    and "ec_bootstrap ctx = b" "ec_disk ctx = disk'"
  shows "on_both libs P ctx"
proof -
  obtain y where y: "al_to_yaml libs (to_file b) = Ok y" "disk' = Some y"
    using assms(3) by (auto simp: bootstrap_save_def split: sum.splits if_splits)
  then have "al_from_yaml libs y = Ok (to_file b)" using assms(1) by (simp add: yaml_doc_law_def)
  then show ?thesis using assms(2,4,5) y(2) by (simp add: on_both_def)
qed

lemma on_both_save:
  assumes "yaml_doc_law libs" "on_both libs P ctx" "P b" "ec_bootstrap ctx' = b"
    and "bootstrap_save (al_to_yaml libs) io b (ec_disk ctx) = (ec_disk ctx', res)"
  shows "on_both libs P ctx'"
proof (cases res)
  case (Inl e)
  then have "ec_disk ctx' = ec_disk ctx" using assms(5) by (auto simp: bootstrap_save_def split: sum.splits if_splits)
  then show ?thesis using assms(2-4) by (simp add: on_both_def)
next
  case (Inr u)
  then show ?thesis using on_both_saved [where b = b and ctx = ctx' and P = P, OF assms(1,3)] assms(4,5) by simp
qed

text \<open>A fact that neither way of consuming an enrolment undoes survives every handshake step of the daemon.\<close>

locale enrolment_fact =
  fixes P :: "bootstrap_state \<Rightarrow> bool"
  assumes consume_keeps: "P b \<Longrightarrow> bootstrap_consume sha now vm_id tok th b = (b', r) \<Longrightarrow> P b'"
    and pending_keeps: "P b \<Longrightarrow> consume_pending vm_id iat th b = (b', r2) \<Longrightarrow> P b'"
begin

lemma enroll_keeps:
  assumes "yaml_doc_law libs" "on_both libs P ctx" "handle_enroll libs env req ctx = (s, ctx', r)"
  shows "on_both libs P ctx'"
proof (cases "ctx' = ctx")
  case False
  then obtain b vm_id tok th where c: "bootstrap_consume (co_sha256 (al_cose libs)) (en_clock env) vm_id tok th (ec_bootstrap ctx) = (b, Accepted)"
      "ec_bootstrap ctx' = b" "\<exists>res. bootstrap_save (al_to_yaml libs) (en_save_io env) b (ec_disk ctx) = (ec_disk ctx', res)"
    using assms(3) by (auto simp: handle_enroll_def reject_def Let_def split: option.splits prod.splits sum.splits consume_outcome.splits if_splits)
  have P: "P b" using consume_keeps [OF _ c(1)] assms(2) by (simp add: on_both_def)
  then show ?thesis using c(3) on_both_save [OF assms(1,2) _ c(2)] by blast
qed (use assms in simp)

lemma lookup_keeps:
  assumes "on_both libs P ctx" "pending_lookup libs env vm_id iat th ctx = (b, r)"
  shows "P b"
proof -
  obtain b0 r0 where c0: "consume_pending vm_id iat th (ec_bootstrap ctx) = (b0, r0)" by fastforce
  have P0: "P b0" using pending_keeps [OF _ c0] assms(1) by (simp add: on_both_def)
  show ?thesis
  proof (cases "r0 = NotPending")
    case False
    then show ?thesis using assms(2) c0 P0 by (cases r0) (simp_all add: pending_lookup_def)
  next
    case True
    obtain b1 res where c1: "bootstrap_reload (al_from_yaml libs) (en_load_io env) (ec_disk ctx) b0 = (b1, res)" by fastforce
    have P1: "P b1" using c1 P0 assms(1) by (auto simp: bootstrap_reload_def on_both_def split: if_splits)
    obtain b2 r2 where c2: "consume_pending vm_id iat th b1 = (b2, r2)" by fastforce
    have "P b2" by (rule pending_keeps [OF P1 c2])
    then show ?thesis using assms(2) c0 c1 c2 P1 True by (cases res) (simp_all add: pending_lookup_def)
  qed
qed

lemma assisted_keeps:
  assumes "yaml_doc_law libs" "on_both libs P ctx" "handle_enroll_assisted libs env req ctx = (s, ctx', r)"
  shows "on_both libs P ctx'"
proof (cases "ctx' = ctx")
  case False
  then obtain b vm_id iat th o' where c: "pending_lookup libs env vm_id iat th ctx = (b, o')" "ec_bootstrap ctx' = b"
      "ec_disk ctx' = ec_disk ctx \<or> (\<exists>res. bootstrap_save (al_to_yaml libs) (en_save_io env) b (ec_disk ctx) = (ec_disk ctx', res))"
    using assms(3) by (auto simp: handle_enroll_assisted_def reject_def Let_def
        split: option.splits prod.splits sum.splits pending_consume_outcome.splits if_splits)
  have P: "P b" by (rule lookup_keeps [OF assms(2) c(1)])
  have same: "on_both libs P ctx'" if "ec_disk ctx' = ec_disk ctx" using P c(2) that assms(2) by (auto simp: on_both_def)
  from c(3) show ?thesis using same on_both_save [OF assms(1,2) P c(2)] by blast
qed (use assms in simp)

lemma step_keeps_fact:
  assumes "yaml_doc_law libs" "on_both libs P ctx" "auth_step libs env st req pub pol (Some ctx) = (s, Some ctx', r)"
  shows "on_both libs P ctx'"
  using assms enroll_keeps [OF assms(1,2)] assisted_keeps [OF assms(1,2)]
  by (auto simp: auth_step_def Let_def case_prod_unfold split: option.splits op.splits handshake_state.splits) (metis prod.collapse)+

end

text \<open>One handshake request of any connection, from any address, in any state.\<close>

inductive daemon_step :: "('k, 's) auth_libs \<Rightarrow> bytes \<Rightarrow> 'y policy \<Rightarrow> 'ip enroll_context \<Rightarrow> 'ip enroll_context \<Rightarrow> bool"
  for libs :: "('k, 's) auth_libs" and pub :: bytes and pol :: "'y policy"
where
  "auth_step libs env st req pub pol (Some (ctx\<lparr>ec_peer_ip := ip\<rparr>)) = (s, Some ctx', r) \<Longrightarrow> daemon_step libs pub pol ctx ctx'"

lemma on_both_peer [simp]: "on_both libs P (ctx\<lparr>ec_peer_ip := ip\<rparr>) = on_both libs P ctx"
  by (simp add: on_both_def)

context enrolment_fact
begin

lemma daemon_keeps:
  assumes "yaml_doc_law libs" "(daemon_step libs pub pol)\<^sup>*\<^sup>* ctx1 ctx2" "on_both libs P ctx1"
  shows "on_both libs P ctx2"
  using assms(2,3)
proof (induction rule: rtranclp_induct)
  case (step ctx ctx')
  from step.hyps(2) step.IH [OF step.prems] show ?case
  proof cases
    case (1 env st req ip s r)
    have "on_both libs P (ctx\<lparr>ec_peer_ip := ip\<rparr>)" using step.IH [OF step.prems] by simp
    then show ?thesis by (rule step_keeps_fact [OF assms(1) _ 1])
  qed
qed

end

definition token_spent :: "string \<Rightarrow> bootstrap_state \<Rightarrow> bool" where
  "token_spent vm b \<longleftrightarrow> (\<exists>e. fmlookup (bs_entries b) vm = Some e \<and> te_consumed e)"

definition flag_spent :: "string \<Rightarrow> bootstrap_state \<Rightarrow> bool" where
  "flag_spent vm b \<longleftrightarrow> fmlookup (bs_pending b) vm = None"

interpretation tok: enrolment_fact "token_spent vm"
  by unfold_locales (auto simp: token_spent_def bootstrap_consume_def consume_pending_def split: option.splits if_splits)

interpretation flag: enrolment_fact "flag_spent vm"
  by unfold_locales (auto simp: flag_spent_def bootstrap_consume_def consume_pending_def split: option.splits if_splits)

text \<open>The VM an enrolment request acts for: named in the payload, or resolved from the source address.\<close>

definition enrolling_vm :: "'ip enroll_context \<Rightarrow> request \<Rightarrow> string option" where
  "enrolling_vm ctx req = (case op_from_u32 (rq_op req) of
       Some Enroll \<Rightarrow> map_option fst (parse_enroll_payload (rq_payload req))
     | Some EnrollAssisted \<Rightarrow> Option.bind (ec_peer_ip ctx) (\<lambda>ip. Option.bind (ec_ip_resolver ctx) (\<lambda>res. res ip))
     | _ \<Rightarrow> None)"

lemma step_enrolled:
  assumes "auth_step libs env st req pub pol (Some ctx) = (Enrolled vm th, Some ctx', r)"
  shows "(op_from_u32 (rq_op req) = Some Enroll \<and> handle_enroll libs env req ctx = (Enrolled vm th, ctx', r))
    \<or> (op_from_u32 (rq_op req) = Some EnrollAssisted \<and> handle_enroll_assisted libs env req ctx = (Enrolled vm th, ctx', r))"
proof -
  have "fst (handle_hello env req) \<noteq> Enrolled vm th" "fst (handle_auth libs env n req pub pol) \<noteq> Enrolled vm th" for n
    by (auto simp: handle_hello_def handle_auth_def reject_def Let_def split: option.split sum.split prod.split)
  then show ?thesis
    using assms by (auto simp: auth_step_def Let_def reject_def case_prod_unfold prod_eq_iff
        split: option.splits op.splits handshake_state.splits)
qed

lemma enroll_spends:
  assumes "yaml_doc_law libs" "handle_enroll libs env req ctx = (Enrolled vm th, ctx', r)"
  shows "on_both libs (token_spent vm) ctx' \<and> map_option fst (parse_enroll_payload (rq_payload req)) = Some vm
    \<and> \<not> token_spent vm (ec_bootstrap ctx)"
proof -
  obtain tok csr b disk' u where e: "parse_enroll_payload (rq_payload req) = Some (vm, tok, csr)"
      "bootstrap_consume (co_sha256 (al_cose libs)) (en_clock env) vm tok th (ec_bootstrap ctx) = (b, Accepted)"
      "bootstrap_save (al_to_yaml libs) (en_save_io env) b (ec_disk ctx) = (disk', Ok u)"
      "ec_bootstrap ctx' = b" "ec_disk ctx' = disk'"
    using assms(2) by (auto simp: handle_enroll_def reject_def Let_def split: option.splits prod.splits sum.splits consume_outcome.splits if_splits)
  have "token_spent vm b" "\<not> token_spent vm (ec_bootstrap ctx)"
    using e(2) by (auto simp: bootstrap_consume_def token_spent_def split: option.splits if_splits)
  then show ?thesis using on_both_saved [OF assms(1) _ e(3-5)] e(1) by simp
qed

lemma assisted_spends:
  assumes "yaml_doc_law libs" "handle_enroll_assisted libs env req ctx = (Enrolled vm th, ctx', r)"
  shows "on_both libs (flag_spent vm) ctx'
    \<and> Option.bind (ec_peer_ip ctx) (\<lambda>ip. Option.bind (ec_ip_resolver ctx) (\<lambda>res. res ip)) = Some vm
    \<and> \<not> on_both libs (flag_spent vm) ctx"
proof -
  obtain iat b disk' u where e: "Option.bind (ec_peer_ip ctx) (\<lambda>ip. Option.bind (ec_ip_resolver ctx) (\<lambda>res. res ip)) = Some vm"
      "pending_lookup libs env vm iat th ctx = (b, Some PendingAccepted)"
      "bootstrap_save (al_to_yaml libs) (en_save_io env) b (ec_disk ctx) = (disk', Ok u)"
      "ec_bootstrap ctx' = b" "ec_disk ctx' = disk'"
    using assms(2) by (auto simp: handle_enroll_assisted_def reject_def Let_def
        split: option.splits prod.splits sum.splits pending_consume_outcome.splits if_splits)
  have spent: "flag_spent vm b'" "\<not> flag_spent vm b0" if "consume_pending vm iat th b0 = (b', PendingAccepted)" for b0 b'
    using that by (auto simp: consume_pending_def flag_spent_def split: option.splits if_splits)
  have "flag_spent vm b" "\<not> on_both libs (flag_spent vm) ctx"
    using e(2) spent
    by (auto simp: pending_lookup_def bootstrap_reload_def on_both_def
        split: prod.splits pending_consume_outcome.splits sum.splits option.splits if_splits)
  then show ?thesis using on_both_saved [OF assms(1) _ e(3-5)] e(1) by simp
qed

text \<open>C28: An enrolment happens at most once. Once a VM was enrolled with its bootstrap token (or with its pending
  flag), then after any further handshake requests of any connections, whether their file system
  calls succeed or fail, no request enrols the same VM again with the token (with the flag): the
  spent token or flag is recorded in memory and on disk before the certificate leaves the daemon,
  and re-reading the disk cannot bring it back.\<close>

theorem enrolment_once:
  assumes "yaml_doc_law libs" "auth_step libs env st req pub pol (Some ctx) = (Enrolled vm th, Some ctx1, r)"
    and "(daemon_step libs pub pol)\<^sup>*\<^sup>* ctx1 ctx2"
    and "op_from_u32 (rq_op req2) = op_from_u32 (rq_op req)" "enrolling_vm ctx2 req2 = Some vm"
    and "auth_step libs env2 st2 req2 pub pol (Some ctx2) = (s, Some ctx3, r2)"
  shows "\<nexists>vm' th'. s = Enrolled vm' th'"
proof -
  note keep_tok = tok.daemon_keeps [OF assms(1,3)] and keep_flag = flag.daemon_keeps [OF assms(1,3)]
  show ?thesis
  proof (rule notI, elim exE)
    fix vm' th' assume s: "s = Enrolled vm' th'"
    consider "op_from_u32 (rq_op req2) = Some Enroll" "handle_enroll libs env2 req2 ctx2 = (Enrolled vm' th', ctx3, r2)"
        "handle_enroll libs env req ctx = (Enrolled vm th, ctx1, r)"
      | "op_from_u32 (rq_op req2) = Some EnrollAssisted" "handle_enroll_assisted libs env2 req2 ctx2 = (Enrolled vm' th', ctx3, r2)"
        "handle_enroll_assisted libs env req ctx = (Enrolled vm th, ctx1, r)"
      using step_enrolled [OF assms(2)] step_enrolled [OF assms(6) [unfolded s]] assms(4) by auto
    then show False
    proof cases
      case 1
      then have "vm' = vm" using enroll_spends [OF assms(1) 1(2)] assms(5) by (auto simp: enrolling_vm_def)
      then show False
        using enroll_spends [OF assms(1) 1(2)] keep_tok enroll_spends [OF assms(1) 1(3)] by (simp add: on_both_def)
    next
      case 2
      then have "vm' = vm" using assisted_spends [OF assms(1) 2(2)] assms(5) by (simp add: enrolling_vm_def)
      then show False
        using assisted_spends [OF assms(1) 2(2)] keep_flag assisted_spends [OF assms(1) 2(3)] by simp
    qed
  qed
qed

end
