(* ===== verification/ClientProps.thy ===== *)
theory ClientProps
  imports AuthProps
begin

text \<open>
  The client and the daemon together: the stream of the client is a connection whose requests the
  daemon answers one by one with its handshake step, each with its own nonce, clock and file system
  outcome. An enrolled client authenticates on a later connection.
\<close>

section \<open>A connection\<close>

fun server_xchg ::
    "('k, 's) auth_libs \<Rightarrow> bytes \<Rightarrow> 'y policy \<Rightarrow> handshake_state \<times> 'ip enroll_context \<times> auth_env list \<Rightarrow> request
       \<Rightarrow> (handshake_state \<times> 'ip enroll_context \<times> auth_env list) \<times> (io_failure + response)" where
  "server_xchg libs pub pol (hs, ctx, []) req = ((hs, ctx, []), Err OtherIo)"
| "server_xchg libs pub pol (hs, ctx, env # envs) req =
     (case auth_step libs env hs req pub pol (Some ctx) of
        (hs', Some ctx', r) \<Rightarrow> ((hs', ctx', envs), Ok r)
      | (hs', None, r) \<Rightarrow> ((hs', ctx, envs), Ok r))"

lemma check_status_ok [simp]:
  "check_status (response_ok p sid b) = Ok ()"
  by (simp add: check_status_def response_ok_def)

lemma check_status_reject: "check_status (snd (reject req r)) = Err (AuthFail r)"
  by (simp add: check_status_def reject_def response_err_def status_u32_def get_u16_le_def get_bytes_def)

lemma resp_fields [simp]:
  "rs_op (response_ok p sid b) = p" "rs_payload (response_ok p sid b) = b"
  by (simp_all add: response_ok_def)

lemma run_hello_server:
  assumes "length (en_nonce env) = NONCE_LEN"
  shows "run_hello (server_xchg libs pub pol) (AwaitHello, ctx, env # envs) sid =
    ((NonceSent (en_nonce env), ctx, envs), Ok (en_nonce env))"
  using assms by (simp add: run_hello_def ask_def auth_step_def handle_hello_def)

text \<open>Whether the file contents of a guest authenticate it is decided by the certificate and the key.\<close>

lemma authenticate_server:
  assumes "ci_load_cert io" "ci_load_key io" "cd_cert d = Some cwt" "cwt \<noteq> []" "length cwt < 65536"
    and "cd_identity_key d = Some sk" "length sk = IDENTITY_KEY_LEN" "ec_scalar_ok ec sk"
    and "length (en_nonce e1) = NONCE_LEN" "length (sign_proof ec sk (en_nonce e1)) < 65536"
    and "cert_validate (al_cose libs) cwt pub (en_now e2) = Ok cert"
    and "verify_proof_sig (al_cose libs) (pc_cnf_pubkey cert) (en_nonce e1) (sign_proof ec sk (en_nonce e1))"
    and "length (pc_subject cert) < 256" "utf8_valid (str_bytes (pc_subject cert))" "length (pc_thumbprint cert) = 32"
  shows "authenticate ec (server_xchg libs pub pol) io d (AwaitHello, ctx, [e1, e2]) sid =
    (let p = \<lparr>pb_vm_id = pc_subject cert, pb_cert_thumbprint = pc_thumbprint cert\<rparr> in ((Authenticated p, ctx, []), Ok p))"
proof -
  let ?p = "\<lparr>pb_vm_id = pc_subject cert, pb_cert_thumbprint = pc_thumbprint cert\<rparr>"
  have "parse_auth_ok_payload (encode_auth_ok_payload ?p) = Ok ?p"
    using assms by (intro auth_ok_payload_parses) simp_all
  then show ?thesis
    using assms by (simp add: authenticate_def load_cert_def load_identity_key_def run_hello_server ask_def auth_step_def
        handle_auth_def auth_payload_parses policy_recognises_principal_def Let_def)
qed

section \<open>Enrol, then authenticate\<close>

lemma handle_enroll_answers:
  assumes "handle_enroll libs env req ctx = (hs, ctx', r)"
  shows "(\<exists>reason. check_status r = Err (AuthFail reason))
    \<or> (\<exists>vm tok csr iat cwt. parse_enroll_payload (rq_payload req) = Some (vm, tok, csr) \<and> length csr = 65 \<and> csr ! 0 = 0x04
         \<and> en_now env = Some iat
         \<and> mint_cwt (al_cose libs) (ec_signer ctx) (en_cti env) vm (ec_issuer ctx) (take 32 (drop 1 csr)) (take 32 (drop 33 csr)) iat
             (saturating_add iat (ec_cert_lifetime_secs ctx)) = Ok cwt
         \<and> hs = Enrolled vm (co_sha256 (al_cose libs) cwt) \<and> r = response_ok (op_u32 Enroll) (rq_session_id req) cwt)"
proof -
  have rej: "check_status b = Err (AuthFail reason)" if "reject req reason = (a, b)" for a b reason
    using check_status_reject [of req reason] that by simp
  show ?thesis
    using assms by (auto simp: handle_enroll_def Let_def dest!: rej
        split: option.splits prod.splits sum.splits consume_outcome.splits if_splits)
qed

lemma enroll_server:
  assumes run: "client_enroll (server_xchg libs pub pol) io (sk, x, y) vm d (AwaitHello, ctx, [e1, e2]) sid = (d', st, Ok ())"
    and len: "length (en_nonce e1) = NONCE_LEN" "length x = 32" "length y = 32"
    and vm: "vm \<noteq> []" "length vm < 256" "utf8_valid (str_bytes vm)"
  obtains iat cwt where "en_now e2 = Some iat"
    "mint_cwt (al_cose libs) (ec_signer ctx) (en_cti e2) vm (ec_issuer ctx) x y iat
       (saturating_add iat (ec_cert_lifetime_secs ctx)) = Ok cwt"
    "cd_cert d' = Some cwt" "cd_identity_key d' = Some sk" "cd_bootstrap_token d' = None"
    "fst st = Enrolled vm (co_sha256 (al_cose libs) cwt)"
proof -
  obtain tok where tok: "load_bootstrap_token (ci_load_token io) (cd_bootstrap_token d) = Ok (Some tok)"
    using run by (auto simp: client_enroll_def split: sum.splits option.splits)
  then have tl: "length tok = 32"
    by (auto simp: load_bootstrap_token_def BOOTSTRAP_TOKEN_LEN_def split: if_splits option.splits)
  let ?csr = "0x04 # x @ y"
  let ?req = "\<lparr>rq_op = op_u32 Enroll, rq_session_id = sid, rq_payload = encode_enroll_payload vm tok ?csr\<rparr>"
  obtain hs ctx' r where h: "handle_enroll libs e2 ?req ctx = (hs, ctx', r)" by (metis prod_cases3)
  have ans: "ask (server_xchg libs pub pol) (NonceSent (en_nonce e1), ctx, [e2]) ?req Enroll =
      ((hs, ctx', []), and_then (check_status r) (\<lambda>_. if rs_op r \<noteq> op_u32 Enroll then Err (UnexpectedOp (op_u32 Enroll) (rs_op r)) else Ok (rs_payload r)))"
    by (simp add: ask_def auth_step_def h)
  have ok: "\<exists>u. check_status r = Ok u" and fin: "rs_op r = op_u32 Enroll" "st = (hs, ctx', [])"
      "persist_enrolment io sk (rs_payload r) True d = (d', Ok ())"
    using run tok by (auto simp: client_enroll_def run_hello_server [OF len(1)] ans Let_def and_then_def split: sum.splits if_splits prod.splits)
  have files: "cd_cert d' = Some (rs_payload r)" "cd_identity_key d' = Some sk" "cd_bootstrap_token d' = None"
    using fin(3) by (auto simp: persist_enrolment_def save_identity_key_def save_cert_def delete_bootstrap_token_def split: if_splits)
  have parse: "parse_enroll_payload (rq_payload ?req) = Some (vm, tok, ?csr)"
    using enroll_payload_parses [of vm tok ?csr] vm tl len by force
  have coords: "take 32 (drop 1 ?csr) = x" "take 32 (drop 33 ?csr) = y" using len by (simp_all add: numeral_eq_Suc)
  from handle_enroll_answers [OF h] ok parse coords obtain iat cwt where m: "en_now e2 = Some iat"
      "mint_cwt (al_cose libs) (ec_signer ctx) (en_cti e2) vm (ec_issuer ctx) x y iat (saturating_add iat (ec_cert_lifetime_secs ctx)) = Ok cwt"
      "hs = Enrolled vm (co_sha256 (al_cose libs) cwt)" "r = response_ok (op_u32 Enroll) sid cwt"
    by auto
  show thesis using that [OF m(1,2)] files m(3,4) fin(2) by simp
qed

lemma proof_verifies:
  assumes "key_pair co (ec_sign ec sk) pub"
  shows "verify_proof_sig co pub n (sign_proof ec sk n)"
proof -
  obtain k where k: "parse_p256_pub co pub = Some k" "\<forall>d. \<exists>s. co_sig co (ec_sign ec sk d) = Some s \<and> co_verify co k d s"
    using assms by (auto simp: key_pair_def)
  then obtain s where "co_sig co (ec_sign ec sk (n @ PROOF_DOMAIN_TAG)) = Some s" "co_verify co k (n @ PROOF_DOMAIN_TAG) s"
    by blast
  then show ?thesis using k(1) by (simp add: verify_proof_sig_def sign_proof_def)
qed

text \<open>C31: Enrolment leads to authentication. If a guest enrols with its bootstrap token and a fresh key, it holds the
  key and the certificate and no token; and on any later connection, while the certificate's
  lifetime lasts, authenticating with these files succeeds on both sides: the daemon binds the
  connection to the VM and the certificate's thumbprint, and the client returns the same binding.\<close>

theorem enrolled_guest_authenticates:
  assumes "cose_laws (al_cose libs)" "key_pair (al_cose libs) (ec_signer ctx) pub" "key_pair (al_cose libs) (ec_sign ec sk) (0x04 # x @ y)"
    and "length x = 32" "length y = 32" "length sk = 32" "ec_scalar_ok ec sk"
    and "vm \<noteq> []" "length vm < 256" "utf8_valid (str_bytes vm)" "\<forall>b. length (co_sha256 (al_cose libs) b) = 32"
    and "length (en_nonce e1) = NONCE_LEN" "length (en_nonce e3) = NONCE_LEN"
    and "client_enroll (server_xchg libs pub pol) io (sk, x, y) vm d (AwaitHello, ctx, [e1, e2]) sid = (d', st, Ok ())"
    and "en_now e2 = Some iat" "en_now e4 = Some t" "iat \<le> t" "t < saturating_add iat (ec_cert_lifetime_secs ctx)"
    and "cd_cert d' = Some cwt" "cwt \<noteq> []" "length cwt < 65536" "length (sign_proof ec sk (en_nonce e3)) < 65536"
    and "ci_load_cert io'" "ci_load_key io'"
  shows "fst st = Enrolled vm (co_sha256 (al_cose libs) cwt) \<and> cd_identity_key d' = Some sk \<and> cd_bootstrap_token d' = None
    \<and> (let p = \<lparr>pb_vm_id = vm, pb_cert_thumbprint = co_sha256 (al_cose libs) cwt\<rparr>
       in authenticate ec (server_xchg libs pub pol) io' d' (AwaitHello, ctx', [e3, e4]) sid' = ((Authenticated p, ctx', []), Ok p))"
proof -
  from enroll_server [OF assms(14,12,4,5,8-10)] assms(15,19)
  have e: "mint_cwt (al_cose libs) (ec_signer ctx) (en_cti e2) vm (ec_issuer ctx) x y iat (saturating_add iat (ec_cert_lifetime_secs ctx)) = Ok cwt"
      "cd_identity_key d' = Some sk" "cd_bootstrap_token d' = None" "fst st = Enrolled vm (co_sha256 (al_cose libs) cwt)"
    by (metis option.inject)+
  note v = minted_valid [OF assms(1,2,4,5,8) e(1) assms(17,18)]
  have "verify_proof_sig (al_cose libs) (0x04 # x @ y) (en_nonce e3) (sign_proof ec sk (en_nonce e3))"
    using proof_verifies [OF assms(3)] .
  then show ?thesis
    using e(2-4) authenticate_server [where cert = "\<lparr>pc_subject = vm, pc_issuer = ec_issuer ctx, pc_exp_unix = saturating_add iat (ec_cert_lifetime_secs ctx),
        pc_cnf_pubkey = 0x04 # x @ y, pc_thumbprint = co_sha256 (al_cose libs) cwt\<rparr>" and ?e1.0 = e3 and ?e2.0 = e4 and io = io' and d = d' and sk = sk
        and cwt = cwt and ec = ec and libs = libs and pub = pub and pol = pol and ctx = ctx' and sid = sid']
      v assms by (simp add: IDENTITY_KEY_LEN_def Let_def)
qed

section \<open>A concrete guest and daemon\<close>

text \<open>
  An instance of the libraries for the examples: an envelope is the length of the payload, the
  payload and the signature; a signature is the message itself; one claim set has an encoding.
\<close>

definition x0 :: bytes where "x0 = replicate 32 1"
definition y0 :: bytes where "y0 = replicate 32 2"
definition tok0 :: bytes where "tok0 = replicate 32 7"

definition key_cbor0 :: "bytes \<Rightarrow> bytes \<Rightarrow> cbor" where
  "key_cbor0 x y = CborMap [(CborInt 1, CborInt 2), (CborInt 3, CborInt (-7)), (CborInt (-1), CborInt 1),
     (CborInt (-2), CborBytes x), (CborInt (-3), CborBytes y)]"

definition claims0 :: cbor where
  "claims0 = CborMap (mint_claims ''vm1'' ''ecu'' 100 1100 [] (CborMap [(CborInt 1, key_cbor0 x0 y0)]))"

definition cose0 :: "(unit, bytes) cose_ops" where
  "cose0 = \<lparr>co_from_slice = (\<lambda>w. case w of [] \<Rightarrow> None | l # r \<Rightarrow>
                Some \<lparr>cs_payload = Some (take (unat l) r), cs_signature = drop (unat l) r, cs_tbs = take (unat l) r\<rparr>),
            co_build = (\<lambda>p signer. if length p < 256 then Some (of_nat (length p) # p @ signer p) else None),
            co_point = (\<lambda>_. Some ()), co_sig = Some, co_verify = (\<lambda>_ d s. s = d),
            co_decode = (\<lambda>b. if b = [1] then Some claims0 else None),
            co_encode = (\<lambda>v. if v = claims0 then Some [1] else None),
            co_key_cbor = (\<lambda>x y. Some (key_cbor0 x y)), co_sha256 = (\<lambda>b. take 32 (b @ replicate 32 0))\<rparr>"

definition boot0 :: bootstrap_state where
  "boot0 = bootstrap_add (co_sha256 cose0) ''vm1'' tok0 \<lparr>bs_entries = fmempty, bs_pending = fmempty, bs_enrolled = fmempty\<rparr>"

definition boot1 :: bootstrap_state where
  "boot1 = fst (bootstrap_consume (co_sha256 cose0) 100 ''vm1'' tok0 (co_sha256 cose0 [1, 1, 1]) boot0)"

definition libs0 :: "(unit, bytes) auth_libs" where
  "libs0 = \<lparr>al_cose = cose0, al_to_yaml = (\<lambda>f. if f = to_file boot1 then Ok ''doc'' else Err ''other''),
     al_from_yaml = (\<lambda>s. if s = ''doc'' then Ok (to_file boot1) else Err ''syntax'')\<rparr>"

definition ctx0 :: "nat enroll_context" where
  "ctx0 = \<lparr>ec_bootstrap = boot0, ec_disk = None, ec_signer = id, ec_issuer = ''ecu'', ec_cert_lifetime_secs = 1000,
     ec_peer_ip = None, ec_ip_resolver = None\<rparr>"

definition env0 :: auth_env where
  "env0 = \<lparr>en_nonce = replicate 16 9, en_cti = [], en_now = Some 100, en_clock = 100, en_save_io = True, en_load_io = True\<rparr>"

definition pub0 :: bytes where "pub0 = 0x04 # x0 @ y0"
definition pol0 :: "unit policy" where "pol0 = \<lparr>pol_statements = []\<rparr>"
definition ecdsa0 :: ecdsa_ops where "ecdsa0 = \<lparr>ec_sign = (\<lambda>_ m. m), ec_scalar_ok = (\<lambda>_. True)\<rparr>"
definition io0 :: client_io where
  "io0 = \<lparr>ci_load_cert = True, ci_load_key = True, ci_load_token = True, ci_save_key = True, ci_save_cert = True, ci_delete_token = True\<rparr>"
definition disk0 :: client_disk where
  "disk0 = \<lparr>cd_cert = None, cd_identity_key = None, cd_bootstrap_token = Some tok0\<rparr>"

lemma cose0_laws: "cose_laws cose0"
  unfolding cose_laws_def
proof (intro conjI allI impI)
  fix p signer w assume "co_build cose0 p signer = Some w"
  then have "length p < 256" "w = of_nat (length p) # p @ signer p" by (auto simp: cose0_def split: if_splits)
  then show "\<exists>tbs. co_from_slice cose0 w = Some \<lparr>cs_payload = Some p, cs_signature = signer tbs, cs_tbs = tbs\<rparr>"
    by (auto simp: cose0_def unat_len_u8)
qed (auto simp: cose0_def key_cbor0_def cwt_labels split: if_splits)

lemma key_pair0: "length p = 65 \<Longrightarrow> p ! 0 = 4 \<Longrightarrow> key_pair cose0 (\<lambda>m. m) p"
  by (simp add: key_pair_def parse_p256_pub_def cose0_def)

lemma len0 [simp]: "length x0 = 32" "length y0 = 32" "length tok0 = 32"
  by (simp_all add: x0_def y0_def tok0_def)

lemma mint0: "mint_cwt cose0 id [] ''vm1'' ''ecu'' x0 y0 100 1100 = Ok [1, 1, 1]"
  by (simp add: mint_cwt_def cose0_def ok_or_def claims0_def)

lemma consume0: "bootstrap_consume (co_sha256 cose0) 100 ''vm1'' tok0 (co_sha256 cose0 [1, 1, 1]) boot0 = (boot1, Accepted)"
  by (simp add: boot1_def) (simp add: bootstrap_consume_def boot0_def bootstrap_add_def ct_eq_iff)

lemma save0: "bootstrap_save (al_to_yaml libs0) True boot1 dk = (Some ''doc'', Ok ())"
  by (simp add: bootstrap_save_def libs0_def)

lemma handle_enroll0:
  assumes "rq_payload req = encode_enroll_payload ''vm1'' tok0 (0x04 # x0 @ y0)"
  shows "handle_enroll libs0 env0 req ctx0 =
    (Enrolled ''vm1'' (co_sha256 cose0 [1, 1, 1]), ctx0\<lparr>ec_bootstrap := boot1, ec_disk := Some ''doc''\<rparr>,
     response_ok (op_u32 Enroll) (rq_session_id req) [1, 1, 1])"
proof -
  have "utf8_valid (str_bytes ''vm1'')" by code_simp
  moreover have "tok0 \<noteq> []" by (simp add: tok0_def)
  ultimately have p: "parse_enroll_payload (rq_payload req) = Some (''vm1'', tok0, 0x04 # x0 @ y0)"
    unfolding assms by (intro enroll_payload_parses) simp_all
  have c: "take 32 (drop (Suc 0) (0x04 # x0 @ y0)) = x0" "take 32 (drop 33 (0x04 # x0 @ y0)) = y0"
    by (simp_all add: numeral_eq_Suc)
  have s: "saturating_add 100 1000 = 1100" by (simp add: saturating_add_def)
  have l: "al_cose libs0 = cose0" by (simp add: libs0_def)
  show ?thesis
    unfolding handle_enroll_def p using c s mint0 consume0 save0 l
    by (simp add: Let_def env0_def ctx0_def)
qed

lemma client_enroll0:
  "client_enroll (server_xchg libs0 pub0 pol0) io0 (x0, x0, y0) ''vm1'' disk0 (AwaitHello, ctx0, [env0, env0]) 1 =
    (\<lparr>cd_cert = Some [1, 1, 1], cd_identity_key = Some x0, cd_bootstrap_token = None\<rparr>,
     (Enrolled ''vm1'' (co_sha256 cose0 [1, 1, 1]), ctx0\<lparr>ec_bootstrap := boot1, ec_disk := Some ''doc''\<rparr>, []), Ok ())"
proof -
  have "run_hello (server_xchg libs0 pub0 pol0) (AwaitHello, ctx0, [env0, env0]) 1 = ((NonceSent (en_nonce env0), ctx0, [env0]), Ok (en_nonce env0))"
    by (rule run_hello_server) (simp add: env0_def NONCE_LEN_def)
  then show ?thesis
    by (simp add: client_enroll_def load_bootstrap_token_def io0_def disk0_def BOOTSTRAP_TOKEN_LEN_def ask_def auth_step_def
        handle_enroll0 persist_enrolment_def save_identity_key_def save_cert_def delete_bootstrap_token_def)
qed

text \<open>The example guest enrols at second 100 and authenticates at second 200.\<close>

theorem enrolled_guest_authenticates_witness:
  "authenticate ecdsa0 (server_xchg libs0 pub0 pol0) io0
     \<lparr>cd_cert = Some [1, 1, 1], cd_identity_key = Some x0, cd_bootstrap_token = None\<rparr>
     (AwaitHello, ctx0, [env0, env0\<lparr>en_now := Some 200\<rparr>]) 2
   = ((Authenticated \<lparr>pb_vm_id = ''vm1'', pb_cert_thumbprint = co_sha256 cose0 [1, 1, 1]\<rparr>, ctx0, []),
      Ok \<lparr>pb_vm_id = ''vm1'', pb_cert_thumbprint = co_sha256 cose0 [1, 1, 1]\<rparr>)"
proof -
  have sha: "\<forall>b. length (co_sha256 (al_cose libs0) b) = 32" by (simp add: libs0_def cose0_def min_def)
  have laws: "cose_laws (al_cose libs0)" "key_pair (al_cose libs0) (ec_signer ctx0) pub0" "key_pair (al_cose libs0) (ec_sign ecdsa0 x0) (0x04 # x0 @ y0)"
    using cose0_laws key_pair0 [of "0x04 # x0 @ y0"] by (simp_all add: libs0_def ctx0_def pub0_def ecdsa0_def id_def)
  have str: "utf8_valid (str_bytes ''vm1'')" by code_simp
  have n: "length (en_nonce env0) = NONCE_LEN" by (simp add: env0_def NONCE_LEN_def)
  have w: "en_now env0 = Some 100" "(100 :: u64) \<le> 200" "200 < saturating_add 100 (ec_cert_lifetime_secs ctx0)"
    by (simp_all add: env0_def ctx0_def saturating_add_def)
  have sig: "length (sign_proof ecdsa0 x0 (en_nonce env0)) < 65536"
    by (simp add: sign_proof_def ecdsa0_def env0_def PROOF_DOMAIN_TAG_def)
  show ?thesis
    using enrolled_guest_authenticates [where io' = io0 and ctx' = ctx0 and sid' = 2 and ?e4.0 = "env0\<lparr>en_now := Some 200\<rparr>" and t = 200
        and ?e3.0 = env0 and iat = 100 and cwt = "[1, 1, 1]" and ec = ecdsa0,
        OF laws _ _ _ _ _ _ str sha n n client_enroll0] w sig
    by (simp add: io0_def ecdsa0_def libs0_def Let_def)
qed

text \<open>The example token cannot enrol a second time.\<close>

definition enroll_req0 :: request where
  "enroll_req0 = \<lparr>rq_op = op_u32 Enroll, rq_session_id = 1, rq_payload = encode_enroll_payload ''vm1'' tok0 (0x04 # x0 @ y0)\<rparr>"

definition ctx1 :: "nat enroll_context" where
  "ctx1 = ctx0\<lparr>ec_bootstrap := boot1, ec_disk := Some ''doc''\<rparr>"

theorem enrolment_once_witness:
  "fst (auth_step libs0 env0 (NonceSent []) enroll_req0 pub0 pol0 (Some ctx0)) = Enrolled ''vm1'' (co_sha256 cose0 [1, 1, 1])
   \<and> \<not> (\<exists>vm' th'. fst (auth_step libs0 env0 (NonceSent []) enroll_req0 pub0 pol0 (Some ctx1)) = Enrolled vm' th')"
proof -
  have law: "yaml_doc_law libs0" by (simp add: yaml_doc_law_def libs0_def)
  have first: "auth_step libs0 env0 (NonceSent []) enroll_req0 pub0 pol0 (Some ctx0) =
      (Enrolled ''vm1'' (co_sha256 cose0 [1, 1, 1]), Some ctx1, response_ok (op_u32 Enroll) 1 [1, 1, 1])"
    using handle_enroll0 [of enroll_req0] by (simp add: auth_step_def enroll_req0_def ctx1_def)
  have "utf8_valid (str_bytes ''vm1'')" "tok0 \<noteq> []" by code_simp+
  then have vm: "enrolling_vm ctx1 enroll_req0 = Some ''vm1''"
    using enroll_payload_parses [of "''vm1''" tok0 "0x04 # x0 @ y0"] by (simp add: enrolling_vm_def enroll_req0_def)
  obtain s ctx3 r where "handle_enroll libs0 env0 enroll_req0 ctx1 = (s, ctx3, r)" by (metis prod_cases3)
  then have second: "auth_step libs0 env0 (NonceSent []) enroll_req0 pub0 pol0 (Some ctx1) = (s, Some ctx3, r)"
    by (simp add: auth_step_def enroll_req0_def)
  show ?thesis
    using enrolment_once [OF law first rtranclp.rtrancl_refl refl vm second] first second by simp
qed

end
