(* ===== verification/ServeProps.thy ===== *)
theory ServeProps
  imports VhsmServe VhsmProps ClientProps
begin

text \<open>
  Properties of the running daemon: which handles a guest can address after any history, who the
  requests of a connection are served for, and what a restart does to persisted handles.
\<close>

section \<open>The handle table over the life of the daemon\<close>

text \<open>Every well-known entry is a guest-exposed core slot or a project handle.\<close>

definition exposable :: "u32 \<Rightarrow> bool" where
  "exposable h \<longleftrightarrow> handle_is_project h \<or> (\<exists>s \<in> set SUMO_CORE_SLOTS. sl_guest_exposed s \<and> sl_handle s = h)"

definition table_inv :: "nat \<Rightarrow> handle_table \<Rightarrow> bool" where
  "table_inv n t \<longleftrightarrow> table_ok t \<and> (\<forall>e \<in> set (ht_entries t). handle_is_well_known (he_handle e) \<longrightarrow> exposable (he_handle e))
     \<and> unat (ht_next_dynamic t) \<le> n"

lemma table_inv_register:
  assumes "table_inv n t" "exposable h"
  shows "table_inv n (fst (register_well_known t h k a p))"
  using assms table_ok_register [of t h k a p] by (auto simp: table_inv_def register_well_known_def Let_def)

lemma table_inv_allocate:
  assumes "table_inv n t" "n < 2 ^ 32 - 1" "length lab = LABEL_LEN"
  shows "table_inv (Suc n) (fst (ht_allocate t k a q own per lab))"
proof -
  have max: "unat (-1 :: u32) = 2 ^ 32 - 1" by (simp add: unat_eq_nat_uint uint_word_ariths)
  then have ne: "ht_next_dynamic t \<noteq> -1" using assms(1,2) by (auto simp: table_inv_def)
  then have "unat (ht_next_dynamic t + 1) = Suc (unat (ht_next_dynamic t))" by (metis add.commute eq_neg_iff_add_eq_0 unatSuc)
  moreover have "\<not> handle_is_well_known (ht_next_dynamic t)"
    using assms(1) by (auto simp: table_inv_def table_ok_def handle_is_well_known_def)
  ultimately show ?thesis
    using assms(1,3) table_ok_allocate [OF _ ne, of lab k a q own per]
    by (auto simp: table_inv_def ht_allocate_def Let_def)
qed

lemma table_inv_remove: "table_inv n t \<Longrightarrow> table_inv n (remove_by_vm_id t vm)"
proof -
  let ?P = "\<lambda>e. he_owner_vm_id e = [] \<or> he_owner_vm_id e \<noteq> vm \<or> he_persistent e"
  assume t: "table_inv n t"
  have "mset (filter ?P (ht_entries t)) \<subseteq># mset (ht_entries t)" by (simp add: multiset_filter_subset)
  then have "table_ok (remove_by_vm_id t vm)"
    using t table_ok_subset unfolding table_inv_def remove_by_vm_id_def by blast
  then show "table_inv n (remove_by_vm_id t vm)" using t by (simp add: table_inv_def remove_by_vm_id_def)
qed

lemma request_table:
  assumes "handle_request yo cr req caller t iam c = (t', c', r, out)" "t' \<noteq> t"
  obtains k a q per lab where "length lab = LABEL_LEN" "t' = fst (ht_allocate t k a q (cl_vm_id caller) per lab)"
proof -
  obtain p where p: "op_from_u32 (rq_op req) = Some p" using request_ops [OF assms(1)] assms(2) by metis
  then have "\<exists>c' r. handle_key_generate cr req caller t c = (t', c', r)"
    using assms by (cases p) (auto simp: handle_request_def Let_def split: if_splits prod.splits)
  then have "44 \<le> length (rq_payload req)" "\<exists>k a q per. t' = fst (ht_allocate t k a q (cl_vm_id caller) per
      (get_bytes LABEL_LEN (rq_payload req) 12))"
    using assms(2) key_generate_table [of cr req caller t c] by (auto split: if_splits)
  moreover have "length (get_bytes LABEL_LEN (rq_payload req) 12) = LABEL_LEN" if "44 \<le> length (rq_payload req)"
    using that by (simp add: get_bytes_def LABEL_LEN_def)
  ultimately show thesis using that by blast
qed

subsection \<open>Start-up\<close>

lemma parse_rows_project: "parse_rows rs = Ok es \<Longrightarrow> \<forall>e \<in> set es. handle_is_project (ex_handle e)"
  by (induction rs arbitrary: es) (auto simp: and_then_eq_Ok split: if_splits)

lemma manifest_apply_inv:
  "table_inv n t \<Longrightarrow> \<forall>e \<in> set es. handle_is_project (ex_handle e) \<Longrightarrow> table_inv n (fst (manifest_apply has_key t es))"
proof (induction has_key t es rule: manifest_apply.induct)
  case (2 has_key t e es)
  then have "exposable (ex_handle e)" by (simp add: exposable_def)
  then have "table_inv n (fst (register_well_known t (ex_handle e) (ex_key_id e) (ex_algorithm e) (ex_permitted_ops e)))"
    using table_inv_register 2(3) by blast
  then show ?case using 2 by (auto split: prod.splits)
qed simp

lemma init_table_inv: "table_inv 0x100 (init_handle_table has_key)"
proof -
  have "table_inv 0x100 (foldl (\<lambda>t slot. if has_key (sl_handle slot)
      then fst (register_well_known t (sl_handle slot) (sl_key_id slot) (sl_alg slot) (sl_default_perms slot)) else t) t slots)"
    if "table_inv 0x100 t" "set slots \<subseteq> {s \<in> set SUMO_CORE_SLOTS. sl_guest_exposed s}" for t slots
    using that
  proof (induction slots arbitrary: t)
    case (Cons s slots)
    then have "exposable (sl_handle s)" by (auto simp: exposable_def)
    then show ?case using Cons table_inv_register by auto
  qed simp
  moreover have "table_inv 0x100 ht_new"
    using table_ok_new by (simp add: table_inv_def ht_new_def HANDLE_DYNAMIC_BASE_def)
  moreover have "set (filter sl_guest_exposed SUMO_CORE_SLOTS) \<subseteq> {s \<in> set SUMO_CORE_SLOTS. sl_guest_exposed s}" by auto
  ultimately show ?thesis unfolding init_handle_table_def by blast
qed

lemma length_pad_label: "length (pad_label s) = LABEL_LEN"
  by (simp add: pad_label_def Let_def LABEL_LEN_def)

lemma restore_inv:
  "table_inv n t \<Longrightarrow> n + length ms < 2 ^ 32 \<Longrightarrow> table_inv (n + length ms) (restore_handles t ms)"
proof (induction ms arbitrary: n t)
  case (Cons m ms)
  have "table_inv (Suc n) (fst (ht_allocate t (km_key_id m) (km_algorithm m) (km_permitted_ops m) (km_owner_vm_id m)
      (km_persistent m) (pad_label (km_label m))))"
    using Cons.prems length_pad_label by (intro table_inv_allocate) auto
  then show ?case using Cons.IH [of "Suc n"] Cons.prems by (simp add: restore_handles_def)
qed (simp add: restore_handles_def)

lemma startup_inv:
  assumes "\<forall>es. exts = Some es \<longrightarrow> (\<exists>from_yaml doc. manifest_parse from_yaml doc = Ok es)"
    and "\<forall>ms. store = Some (Ok ms) \<longrightarrow> length ms < k" "k < 2 ^ 31"
  shows "table_inv (0x100 + k) (startup_table has_key exts store)"
proof -
  have mono: "table_inv n t \<Longrightarrow> n \<le> m \<Longrightarrow> table_inv m t" for n m t by (simp add: table_inv_def)
  have "\<forall>e \<in> set es. handle_is_project (ex_handle e)" if "exts = Some es" for es
  proof -
    obtain from_yaml doc where "manifest_parse from_yaml doc = Ok es" using assms(1) \<open>exts = Some es\<close> by blast
    then obtain rs where "parse_rows rs = Ok es"
      by (auto simp: manifest_parse_def and_then_eq_Ok split: option.splits)
    then show ?thesis by (rule parse_rows_project)
  qed
  then have t1: "table_inv 0x100 (case exts of None \<Rightarrow> init_handle_table has_key | Some es \<Rightarrow> fst (manifest_apply has_key (init_handle_table has_key) es))"
    using init_table_inv manifest_apply_inv by (auto split: option.split)
  show ?thesis
  proof (cases "\<exists>ms. store = Some (Ok ms)")
    case True
    then obtain ms where ms: "store = Some (Ok ms)" "length ms < k" using assms(2) by blast
    then show ?thesis
      using mono [OF restore_inv [OF t1, of ms]] assms(3) by (simp add: startup_table_def Let_def)
  next
    case False
    then have "startup_table has_key exts store = (case exts of None \<Rightarrow> init_handle_table has_key | Some es \<Rightarrow> fst (manifest_apply has_key (init_handle_table has_key) es))"
      by (auto simp: startup_table_def Let_def split: option.splits sum.splits)
    then show ?thesis using mono [OF t1] by simp
  qed
qed

subsection \<open>Requests and closed connections, in any order\<close>

inductive daemon_run :: "('y, 'c) serve_cfg \<Rightarrow> handle_table \<Rightarrow> nat \<Rightarrow> 'c serve_state \<Rightarrow> bool"
  for cfg :: "('y, 'c) serve_cfg" and t0 :: handle_table
where
  run_start: "sv_table st = t0 \<Longrightarrow> daemon_run cfg t0 0 st"
| run_request: "daemon_run cfg t0 n st \<Longrightarrow> dispatch_request cfg env req caller st = (st', r, d) \<Longrightarrow> daemon_run cfg t0 (Suc n) st'"
| run_close: "daemon_run cfg t0 n st \<Longrightarrow> daemon_run cfg t0 n (conn_end p st)"

lemma dispatch_table:
  assumes "dispatch_request cfg env req caller st = (st', r, d)"
  shows "\<exists>resp out. handle_request (sc_yaml cfg) (sc_crypto cfg) req caller (sv_table st) (sc_iam cfg) (sv_crypto st) =
    (sv_table st', sv_crypto st', resp, out) \<and> (r = None \<or> r = Some resp)"
  using assms by (auto simp: dispatch_request_def Let_def split: prod.splits if_splits sum.splits log_error.splits)

lemma run_inv:
  "daemon_run cfg t0 n st \<Longrightarrow> table_inv m t0 \<Longrightarrow> m + n < 2 ^ 32 \<Longrightarrow> table_inv (m + n) (sv_table st)"
proof (induction rule: daemon_run.induct)
  case (run_request n st env req caller st' r d)
  then have inv: "table_inv (m + n) (sv_table st)" by simp
  obtain resp out where h: "handle_request (sc_yaml cfg) (sc_crypto cfg) req caller (sv_table st) (sc_iam cfg) (sv_crypto st) =
      (sv_table st', sv_crypto st', resp, out)"
    using dispatch_table [OF run_request.hyps(2)] by blast
  show ?case
  proof (cases "sv_table st' = sv_table st")
    case True
    then show ?thesis using inv by (simp add: table_inv_def)
  next
    case False
    from request_table [OF h False] show ?thesis
      using table_inv_allocate [OF inv] run_request.prems(2) by (metis add_Suc_right less_diff_conv add.commute plus_1_eq_Suc)
  qed
next
  case (run_close n st p)
  then show ?case by (cases p) (simp_all add: conn_end_def table_inv_remove)
qed simp

lemma hidden_slot_absent:
  assumes "table_inv n t" "s \<in> set SUMO_CORE_SLOTS" "\<not> sl_guest_exposed s"
  shows "ht_get t (sl_handle s) = None"
proof (rule ccontr)
  assume "ht_get t (sl_handle s) \<noteq> None"
  then obtain e where e: "e \<in> set (ht_entries t)" "he_handle e = sl_handle s"
    using ht_get_Some assms(1) by (auto simp: table_inv_def)
  have core: "handle_is_sumo_core (sl_handle s)" using slots_wf(3) assms(2) by (auto simp: list_all_iff)
  then have "handle_is_well_known (sl_handle s)" "\<not> handle_is_project (sl_handle s)"
    using order.strict_trans [of "sl_handle s" 128 256]
    by (auto simp: handle_is_sumo_core_def handle_is_well_known_def handle_is_project_def handle_defs)
  then obtain s' where "s' \<in> set SUMO_CORE_SLOTS" "sl_guest_exposed s'" "sl_handle s' = sl_handle s"
    using assms(1) e by (auto simp: table_inv_def exposable_def)
  then show False using slots_wf(1) assms(2,3) by (auto simp: distinct_map inj_on_def)
qed

text \<open>C29: Host-only keys stay out of reach of guests. Start the daemon with any keystore, any accepted extension
  manifest and any persisted handles, and let it serve requests and close connections in any order.
  Then the handle table is well-formed, no host-only slot (the certificate-signing key, the manifest-signing
  key, the TLS identity, the time floor) has an entry, and a request of any caller that names such a slot
  in any operation on a handle gets no success response and changes neither the table nor the provider.\<close>

theorem host_keys_not_addressable:
  assumes "\<forall>es. exts = Some es \<longrightarrow> (\<exists>from_yaml doc. manifest_parse from_yaml doc = Ok es)"
    and "\<forall>ms. store = Some (Ok ms) \<longrightarrow> length ms < 2 ^ 30"
    and "daemon_run cfg (startup_table has_key exts store) n st" "n < 2 ^ 31"
    and "s \<in> set SUMO_CORE_SLOTS" "\<not> sl_guest_exposed s"
  shows "table_ok (sv_table st) \<and> ht_get (sv_table st) (sl_handle s) = None
    \<and> (\<forall>req p caller t' c' r out. op_from_u32 (rq_op req) = Some p \<and> p \<noteq> GetRandom \<and> p \<noteq> KeyGenerate
          \<and> peek_handle req = Some (sl_handle s)
          \<and> handle_request (sc_yaml cfg) (sc_crypto cfg) req caller (sv_table st) (sc_iam cfg) (sv_crypto st) = (t', c', r, out)
        \<longrightarrow> \<not> succeeded r \<and> t' = sv_table st \<and> c' = sv_crypto st)"
proof -
  have "table_inv (0x100 + 2 ^ 30) (startup_table has_key exts store)" by (rule startup_inv [OF assms(1,2)]) simp
  then have inv: "table_inv (0x100 + 2 ^ 30 + n) (sv_table st)" using run_inv [OF assms(3)] assms(4) by simp
  then have none: "ht_get (sv_table st) (sl_handle s) = None" using assms(5,6) by (rule hidden_slot_absent)
  have "\<not> succeeded r \<and> t' = sv_table st \<and> c' = sv_crypto st"
    if "op_from_u32 (rq_op req) = Some p" "p \<noteq> GetRandom" "p \<noteq> KeyGenerate" "peek_handle req = Some (sl_handle s)"
      "handle_request (sc_yaml cfg) (sc_crypto cfg) req caller (sv_table st) (sc_iam cfg) (sv_crypto st) = (t', c', r, out)"
    for req p caller t' c' r out
    using request_gate [OF that(5) _ that(1-3)] that(4) none by (auto simp: entry_usable_def)
  then show ?thesis using inv none unfolding table_inv_def by blast
qed

text \<open>A daemon with every key in its keystore.\<close>

definition cfg0 :: "(yaml, nat) serve_cfg" where
  "cfg0 = \<lparr>sc_yaml = yaml_inst, sc_crypto = echo_ops, sc_iam = jwt_policy, sc_json = (\<lambda>_. Some [1]), sc_secstore_key = default_test_key\<rparr>"

definition state0 :: "handle_table \<Rightarrow> nat serve_state" where
  "state0 t = \<lparr>sv_table = t, sv_crypto = 0, sv_store = Some None, sv_logger = None, sv_log = \<lparr>lw_fs = Map.empty, lw_io = []\<rparr>,
     sv_audit_poisoned = False\<rparr>"

definition iam_slot :: slot_entry where
  "iam_slot = \<lparr>sl_handle = HANDLE_IAM_SIGNING, sl_key_id = ''iam-signing'', sl_alg = ALG_ECC_P256, sl_default_perms = 0, sl_guest_exposed = False\<rparr>"

theorem host_keys_not_addressable_witness:
  "table_ok (startup_table (\<lambda>_. True) None None) \<and> ht_get (startup_table (\<lambda>_. True) None None) HANDLE_IAM_SIGNING = None"
proof -
  have slot: "iam_slot \<in> set SUMO_CORE_SLOTS" "\<not> sl_guest_exposed iam_slot" "sl_handle iam_slot = HANDLE_IAM_SIGNING"
    by (simp_all add: iam_slot_def SUMO_CORE_SLOTS_def)
  have run: "daemon_run cfg0 (startup_table (\<lambda>_. True) None None) 0 (state0 (startup_table (\<lambda>_. True) None None))"
    by (rule run_start) (simp add: state0_def)
  show ?thesis
    using host_keys_not_addressable [OF _ _ run _ slot(1,2)] slot(3) by (simp add: state0_def)
qed

section \<open>Who a connection serves\<close>

lemma loop_serves_principal:
  "serve_loop cc cfg hs (Some p) st ctx ins = (st', ctx', tr) \<Longrightarrow> (caller, req, resp) \<in> set tr
     \<Longrightarrow> caller = \<lparr>cl_vm_id = pb_vm_id p, cl_cert_thumbprint = pb_cert_thumbprint p\<rparr>"
  by (induction ins arbitrary: st st' ctx ctx' tr)
     (auto simp: Let_def split: sum.splits prod.splits dispatch.splits)

text \<open>C4: A connection is served only for the subject of a verified certificate. Whatever a connection sends, if the
  daemon executes a request on it, then the connection began with HELLO and AUTH, the certificate
  was valid at that time under the device key, the signature over the nonce issued on this connection
  verified under the key the certificate confirms, and the caller the request is authorised, executed
  and audited for is the subject of that certificate with its thumbprint.\<close>

theorem connection_serves_subject:
  assumes "serve_connection cc cfg st ctx ins = (st', ctx', tr)" "(caller, req, resp) \<in> set tr"
  shows "\<exists>i1 req1 i2 req2 rest cwt sig cert. ins = i1 # i2 # rest \<and> in_read i1 = Ok req1 \<and> op_from_u32 (rq_op req1) = Some Hello
    \<and> in_read i2 = Ok req2 \<and> op_from_u32 (rq_op req2) = Some Auth \<and> parse_auth_payload (rq_payload req2) = Some (cwt, sig)
    \<and> cert_validate (al_cose (cc_libs cc)) cwt (cc_pub cc) (en_now (in_auth i2)) = Ok cert
    \<and> verify_proof_sig (al_cose (cc_libs cc)) (pc_cnf_pubkey cert) (en_nonce (in_auth i1)) sig
    \<and> caller = \<lparr>cl_vm_id = pc_subject cert, cl_cert_thumbprint = pc_thumbprint cert\<rparr>"
proof -
  obtain i1 ins1 where i1: "ins = i1 # ins1" using assms by (cases ins) (auto simp: serve_connection_def)
  obtain req1 where r1: "in_read i1 = Ok req1" using assms i1 by (cases "in_read i1") (auto simp: serve_connection_def)
  let ?s1 = "auth_step (cc_libs cc) (in_auth i1) AwaitHello req1 (cc_pub cc) (sc_iam cfg) (Some ctx)"
  have h1: "op_from_u32 (rq_op req1) = Some Hello" and n1: "fst ?s1 = NonceSent (en_nonce (in_auth i1))"
    using assms i1 r1 step_await(1) [of "cc_libs cc" "in_auth i1" req1 "cc_pub cc" "sc_iam cfg" "Some ctx"]
    by (auto simp: serve_connection_def case_prod_unfold Let_def split: if_splits)
  define ctx1 where "ctx1 = (case fst (snd ?s1) of Some c \<Rightarrow> c | None \<Rightarrow> ctx)"
  have l1: "serve_loop cc cfg (NonceSent (en_nonce (in_auth i1))) None st ctx1 ins1 = (st', ctx', tr)"
    unfolding ctx1_def using assms(1,2) i1 r1 n1 by (auto simp: serve_connection_def case_prod_unfold Let_def split: if_splits)
  obtain i2 ins2 where i2: "ins1 = i2 # ins2" using l1 assms(2) by (cases ins1) auto
  obtain req2 where r2: "in_read i2 = Ok req2" using l1 assms(2) i2 by (cases "in_read i2") auto
  let ?s2 = "auth_step (cc_libs cc) (in_auth i2) (NonceSent (en_nonce (in_auth i1))) req2 (cc_pub cc) (sc_iam cfg) (Some ctx1)"
  have d2: "is_done (fst ?s2)" by (rule nonce_step_done)
  obtain p where p: "fst ?s2 = Authenticated p"
    using l1 assms(2) i2 r2 d2
    by (cases "fst ?s2") (auto simp: case_prod_unfold Let_def is_done_def split: if_splits)
  have "serve_loop cc cfg (Authenticated p) (Some p) st (case fst (snd ?s2) of Some c \<Rightarrow> c | None \<Rightarrow> ctx1) ins2 = (st', ctx', tr)"
    using l1 assms(2) i2 r2 p by (auto simp: case_prod_unfold Let_def split: if_splits)
  then have "caller = \<lparr>cl_vm_id = pb_vm_id p, cl_cert_thumbprint = pb_cert_thumbprint p\<rparr>"
    using loop_serves_principal assms(2) by blast
  then show ?thesis
    using p i1 i2 r1 r2 h1 unfolding nonce_step_auth by auto
qed

text \<open>The example guest connects, authenticates and signs.\<close>

definition cc0 :: "(unit, bytes) conn_cfg" where "cc0 = \<lparr>cc_libs = libs0, cc_pub = pub0\<rparr>"

definition senv0 :: serve_env where
  "senv0 = \<lparr>se_iv = replicate 12 0, se_store_io = True, se_ts = ''now'', se_peer = ''10.0.0.2'', se_write_io = True\<rparr>"

definition turn0 :: "request \<Rightarrow> conn_input" where
  "turn0 req = \<lparr>in_read = Ok req, in_auth = env0, in_serve = senv0\<rparr>"

definition hello_req0 :: request where "hello_req0 = \<lparr>rq_op = op_u32 Hello, rq_session_id = 1, rq_payload = []\<rparr>"

definition auth_req0 :: request where
  "auth_req0 = \<lparr>rq_op = op_u32 Auth, rq_session_id = 1,
     rq_payload = encode_auth_payload [1, 1, 1] (sign_proof ecdsa0 x0 (en_nonce env0))\<rparr>"

definition prin0 :: principal_binding where
  "prin0 = \<lparr>pb_vm_id = ''vm1'', pb_cert_thumbprint = co_sha256 cose0 [1, 1, 1]\<rparr>"

lemma auth_step0:
  "fst (auth_step libs0 env0 (NonceSent (en_nonce env0)) auth_req0 pub0 pol (Some ctx)) = Authenticated prin0"
proof -
  have "cert_validate cose0 [1, 1, 1] pub0 (Some 100) = Ok \<lparr>pc_subject = ''vm1'', pc_issuer = ''ecu'', pc_exp_unix = 1100,
      pc_cnf_pubkey = 0x04 # x0 @ y0, pc_thumbprint = co_sha256 cose0 [1, 1, 1]\<rparr>"
    using minted_valid [OF cose0_laws _ _ _ _ mint0, of pub0 100] key_pair0 [of pub0] by (simp add: pub0_def id_def)
  moreover have "verify_proof_sig cose0 (0x04 # x0 @ y0) (en_nonce env0) (sign_proof ecdsa0 x0 (en_nonce env0))"
    using proof_verifies [of cose0 ecdsa0 x0 "0x04 # x0 @ y0"] key_pair0 [of "0x04 # x0 @ y0"] by (simp add: ecdsa0_def)
  moreover have "parse_auth_payload (rq_payload auth_req0) = Some ([1, 1, 1], sign_proof ecdsa0 x0 (en_nonce env0))"
    unfolding auth_req0_def by (simp add: auth_payload_parses sign_proof_def ecdsa0_def env0_def PROOF_DOMAIN_TAG_def)
  ultimately show ?thesis
    unfolding nonce_step_auth by (simp add: libs0_def env0_def auth_req0_def prin0_def)
qed

lemma hello_step0:
  "auth_step libs0 env0 AwaitHello hello_req0 pub0 pol (Some ctx) =
    (NonceSent (en_nonce env0), Some ctx, response_ok (op_u32 Hello) 1 (en_nonce env0))"
  by (simp add: auth_step_def hello_req0_def handle_hello_def)

lemma dispatch0:
  "dispatch_request cfg0 senv0 sign_request \<lparr>cl_vm_id = ''vm1'', cl_cert_thumbprint = th\<rparr> (state0 jwt_table) =
    ((state0 jwt_table)\<lparr>sv_crypto := 1\<rparr>, Some (response_ok (op_u32 Sign) 5 [9]), Continue)"
  using sign_served [of th]
  by (simp add: dispatch_request_def cfg0_def state0_def senv0_def audit_record_op_def persist_new_handle_def)

theorem connection_serves_subject_witness:
  "\<exists>st' ctx' tr caller resp cwt cert.
     serve_connection cc0 cfg0 (state0 jwt_table) ctx0 [turn0 hello_req0, turn0 auth_req0, turn0 sign_request] = (st', ctx', tr)
     \<and> (caller, sign_request, resp) \<in> set tr \<and> resp = Some (response_ok (op_u32 Sign) 5 [9])
     \<and> cert_validate cose0 cwt pub0 (Some 100) = Ok cert \<and> caller = \<lparr>cl_vm_id = pc_subject cert, cl_cert_thumbprint = pc_thumbprint cert\<rparr>"
proof -
  let ?caller = "\<lparr>cl_vm_id = ''vm1'', cl_cert_thumbprint = co_sha256 cose0 [1, 1, 1]\<rparr>"
  obtain hs ctx' r where a: "auth_step libs0 env0 (NonceSent (en_nonce env0)) auth_req0 pub0 jwt_policy (Some ctx0) = (hs, ctx', r)"
    by (metis prod_cases3)
  then have hs: "hs = Authenticated prin0" using auth_step0 [of jwt_policy ctx0] by simp
  have io: "se_write_io senv0" and p: "pb_vm_id prin0 = ''vm1''" "pb_cert_thumbprint prin0 = co_sha256 cose0 [1, 1, 1]"
    by (simp_all add: senv0_def prin0_def)
  obtain st' ctx2 where run: "serve_connection cc0 cfg0 (state0 jwt_table) ctx0 [turn0 hello_req0, turn0 auth_req0, turn0 sign_request] =
      (st', ctx2, [(?caller, sign_request, Some (response_ok (op_u32 Sign) 5 [9]))])"
    using hello_step0 [of jwt_policy ctx0] a hs io p dispatch0
    by (simp add: serve_connection_def turn0_def cc0_def) (simp add: cfg0_def)
  obtain cwt cert where "cert_validate cose0 cwt pub0 (Some 100) = Ok cert"
      "?caller = \<lparr>cl_vm_id = pc_subject cert, cl_cert_thumbprint = pc_thumbprint cert\<rparr>"
    using connection_serves_subject [OF run, of ?caller sign_request "Some (response_ok (op_u32 Sign) 5 [9])"]
    by (auto simp: turn0_def env0_def cc0_def libs0_def)
  then show ?thesis using run by auto
qed

section \<open>Restart\<close>

text \<open>The restore loop gives the records the next free handles in listing order, whatever handles they were stored under.\<close>

lemma restore_entries:
  "ht_len t + length ms \<le> MAX_HANDLES \<Longrightarrow> ht_next_dynamic t = nx \<Longrightarrow>
     ht_entries (restore_handles t ms) = ht_entries t @ map (\<lambda>(i, m). \<lparr>he_handle = nx + of_nat i, he_key_id = km_key_id m,
       he_algorithm = km_algorithm m, he_permitted_ops = km_permitted_ops m, he_owner_vm_id = km_owner_vm_id m,
       he_persistent = km_persistent m, he_label = pad_label (km_label m)\<rparr>) (enumerate 0 ms)"
proof (induction ms arbitrary: t nx)
  case (Cons m ms)
  let ?t = "fst (ht_allocate t (km_key_id m) (km_algorithm m) (km_permitted_ops m) (km_owner_vm_id m) (km_persistent m) (pad_label (km_label m)))"
  have t: "ht_entries ?t = ht_entries t @ [\<lparr>he_handle = nx, he_key_id = km_key_id m, he_algorithm = km_algorithm m,
      he_permitted_ops = km_permitted_ops m, he_owner_vm_id = km_owner_vm_id m, he_persistent = km_persistent m,
      he_label = pad_label (km_label m)\<rparr>]" "ht_next_dynamic ?t = nx + 1"
    using Cons.prems by (simp_all add: ht_allocate_def ht_len_def Let_def)
  have "map f (enumerate 1 ms) = map (\<lambda>(i, m). f (Suc i, m)) (enumerate 0 ms)" for f :: "nat \<times> key_metadata \<Rightarrow> handle_entry"
    by (simp add: enumerate_Suc_eq comp_def case_prod_unfold apfst_def map_prod_def)
  then show ?case
    using Cons.IH [of ?t "nx + 1"] Cons.prems t
    by (simp add: restore_handles_def ht_len_def case_prod_unfold algebra_simps)
qed (simp add: restore_handles_def)

text \<open>Two VMs may generate keys.\<close>

definition two_policy :: "yaml policy" where
  "two_policy = \<lparr>pol_statements =
     [\<lparr>st_principals = [SelVm ''vm1'', SelVm ''vm2''], st_resources = YMap [(''hsm'', YMap [(''handles'', YSeq [YStr ''system''])])],
       st_ops = OpExact {''key-generate''}, st_conditions = None\<rparr>]\<rparr>"

definition cfg2 :: "(yaml, nat) serve_cfg" where "cfg2 = cfg0\<lparr>sc_iam := two_policy\<rparr>"

definition gen_req2 :: "u8 \<Rightarrow> request" where
  "gen_req2 per = \<lparr>rq_op = op_u32 KeyGenerate, rq_session_id = 1,
     rq_payload = le_bytes ALG_ECC_P256 @ le_bytes PERM_SIGN @ [per, 0, 0, 0] @ replicate 32 0\<rparr>"

definition caller0 :: "string \<Rightarrow> caller_id" where "caller0 vm = \<lparr>cl_vm_id = vm, cl_cert_thumbprint = []\<rparr>"

definition gen_entry :: "u32 \<Rightarrow> string \<Rightarrow> string \<Rightarrow> bool \<Rightarrow> handle_entry" where
  "gen_entry h kid vm per = \<lparr>he_handle = h, he_key_id = kid, he_algorithm = ALG_ECC_P256, he_permitted_ops = PERM_SIGN,
     he_owner_vm_id = vm, he_persistent = per, he_label = replicate 32 0\<rparr>"

lemma gen_req2_fields: "length (rq_payload (gen_req2 per)) = 44" "get_u32_le (rq_payload (gen_req2 per)) 0 = ALG_ECC_P256"
    "get_u32_le (rq_payload (gen_req2 per)) 4 = PERM_SIGN" "get_u8 (rq_payload (gen_req2 per)) 8 = per"
    "get_bytes LABEL_LEN (rq_payload (gen_req2 per)) 12 = replicate 32 0"
  by (simp_all add: gen_req2_def get_word_defs get_bytes_def get_u8_def LABEL_LEN_def nth_append)

lemma gen_served2:
  assumes "vm \<in> {''vm1'', ''vm2''}" "ht_len (sv_table st) < MAX_HANDLES" "sv_logger st = None" "\<not> sv_audit_poisoned st"
  shows "dispatch_request cfg2 senv0 (gen_req2 per) (caller0 vm) st =
    (let h = ht_next_dynamic (sv_table st); e = gen_entry h (''gen-'' @ vm @ ''-'' @ dec (ht_len (sv_table st))) vm (per \<noteq> 0);
         t = \<lparr>ht_entries = ht_entries (sv_table st) @ [e], ht_next_dynamic = h + 1\<rparr>
     in (st\<lparr>sv_table := t, sv_crypto := Suc (sv_crypto st), sv_store := map_option (\<lambda>d. if per \<noteq> 0
            then fst (ss_store default_test_key True (replicate 12 0) d (entry_metadata e)) else d) (sv_store st)\<rparr>,
         Some (response_ok (op_u32 KeyGenerate) 1 (le_bytes h @ le_bytes (2 :: u32) @ [1, 2])), Continue))"
proof -
  have allow: "iam_evaluate yaml_inst two_policy vm SYSTEM_HANDLE_NAME KeyGenerate = IamAllow 0"
    using assms(1) by (auto simp: iam_evaluate_def evaluate_def two_policy_def sel_matches_def hsm_matches_def yaml_inst_def
        map_filter_simps op_matches_def op_canonical_name_def iam_decision_from_def SYSTEM_HANDLE_NAME_def)
  have req: "rq_op (gen_req2 per) = op_u32 KeyGenerate" "rq_session_id (gen_req2 per) = 1" by (simp_all add: gen_req2_def)
  have "handle_request yaml_inst echo_ops (gen_req2 per) (caller0 vm) (sv_table st) two_policy (sv_crypto st) =
      (let h = ht_next_dynamic (sv_table st); e = gen_entry h (''gen-'' @ vm @ ''-'' @ dec (ht_len (sv_table st))) vm (per \<noteq> 0)
       in (\<lparr>ht_entries = ht_entries (sv_table st) @ [e], ht_next_dynamic = h + 1\<rparr>, Suc (sv_crypto st),
           response_ok (op_u32 KeyGenerate) 1 (le_bytes h @ le_bytes (2 :: u32) @ [1, 2]), AuthzAllow 0))"
    using allow req gen_req2_fields [of per] assms(2)
    by (simp add: handle_request_def is_host_only_def authz_def decision_to_outcome_def handle_key_generate_def ht_allocate_def
        ht_len_def Let_def caller0_def gen_entry_def echo_ops_def)
  then show ?thesis
    using assms(3,4)
    by (cases st; cases "sv_store st")
       (simp_all add: dispatch_request_def cfg2_def cfg0_def Let_def audit_record_op_def persist_new_handle_def senv0_def
        ht_len_def ht_last_def gen_entry_def)
qed

lemma startup_no_keys: "startup_table (\<lambda>_. False) None None = ht_new"
proof -
  have "foldl (\<lambda>t s. t) a xs = a" for a :: handle_table and xs :: "slot_entry list" by (induction xs) simp_all
  then show ?thesis by (simp add: startup_table_def init_handle_table_def)
qed

lemma nul_label: "from_utf8 (replicate n 0) = Some (replicate n (CHR 0x00))"
proof -
  have "utf8_valid (replicate n 0)" by (induction n) simp_all
  then show ?thesis by (simp add: from_utf8_def char_of_def)
qed

lemma gen_meta_fits: "meta_fits (entry_metadata (gen_entry h ''gen-vm2-1'' ''vm2'' True))"
proof -
  have "utf8_valid (str_bytes ''gen-vm2-1'')" "utf8_valid (str_bytes ''vm2'')" "utf8_valid (str_bytes [])" by code_simp+
  then show ?thesis
    by (simp add: meta_fits_def entry_metadata_def gen_entry_def nul_label trim_end_nul_def str_fits_def dropWhile_replicate)
qed

text \<open>A restart gives persisted keys other handles. Let VM 1 generate a key that is not persisted and then VM 2
  one that is, on a fresh daemon with a store: they get the handles \<open>HANDLE_DYNAMIC_BASE\<close> and the next one,
  and the store records the second. After a restart that loads the store, VM 2's key has the handle
  under which the provider made VM 1's key, and the handle VM 2 was given is unknown.\<close>

theorem restart_renumbers_handles:
  "\<exists>st1 r1 st2 r2 ms t. dispatch_request cfg2 senv0 (gen_req2 0) (caller0 ''vm1'') (state0 (startup_table (\<lambda>_. False) None None)) = (st1, Some r1, Continue)
     \<and> take 4 (rs_payload r1) = le_bytes HANDLE_DYNAMIC_BASE
     \<and> dispatch_request cfg2 senv0 (gen_req2 1) (caller0 ''vm2'') st1 = (st2, Some r2, Continue)
     \<and> take 4 (rs_payload r2) = le_bytes (HANDLE_DYNAMIC_BASE + 1)
     \<and> map_option (ss_load_all (sc_secstore_key cfg2) True (\<lambda>_. True) [handle_file (HANDLE_DYNAMIC_BASE + 1)]) (sv_store st2) = Some (Ok ms)
     \<and> map km_vhsm_handle ms = [HANDLE_DYNAMIC_BASE + 1]
     \<and> t = startup_table (\<lambda>_. False) None (Some (Ok ms))
     \<and> map_option he_owner_vm_id (ht_get t HANDLE_DYNAMIC_BASE) = Some ''vm2''
     \<and> ht_get t (HANDLE_DYNAMIC_BASE + 1) = None"
proof -
  let ?b = HANDLE_DYNAMIC_BASE and ?st0 = "state0 ht_new"
  let ?e1 = "gen_entry ?b ''gen-vm1-0'' ''vm1'' False" and ?e = "gen_entry (?b + 1) ''gen-vm2-1'' ''vm2'' True"
  let ?m = "entry_metadata ?e"
  have dec: "dec 0 = ''0''" "dec (Suc 0) = ''1''" by (simp add: dec.simps, code_simp)+
  let ?st1 = "?st0\<lparr>sv_table := \<lparr>ht_entries = [?e1], ht_next_dynamic = ?b + 1\<rparr>, sv_crypto := 1\<rparr>"
  have d1: "dispatch_request cfg2 senv0 (gen_req2 0) (caller0 ''vm1'') ?st0 =
      (?st1, Some (response_ok (op_u32 KeyGenerate) 1 (le_bytes ?b @ le_bytes (2 :: u32) @ [1, 2])), Continue)"
    by (subst gen_served2) (simp_all add: state0_def ht_new_def ht_len_def MAX_HANDLES_def Let_def dec)
  let ?dir = "fst (ss_store default_test_key True (replicate 12 0) None ?m)"
  let ?st2 = "?st1\<lparr>sv_table := \<lparr>ht_entries = [?e1, ?e], ht_next_dynamic = ?b + 2\<rparr>, sv_crypto := 2, sv_store := Some ?dir\<rparr>"
  have d2: "dispatch_request cfg2 senv0 (gen_req2 1) (caller0 ''vm2'') ?st1 =
      (?st2, Some (response_ok (op_u32 KeyGenerate) 1 (le_bytes (?b + 1) @ le_bytes (2 :: u32) @ [1, 2])), Continue)"
    by (subst gen_served2) (simp_all add: state0_def ht_len_def MAX_HANDLES_def Let_def dec)
  have kh: "km_vhsm_handle ?m = ?b + 1" "km_owner_vm_id ?m = ''vm2''" by (simp_all add: entry_metadata_def gen_entry_def)
  have rep: "ss_rep default_test_key ?dir [?b + 1 \<mapsto> ?m]"
    using ss_rep_store [OF ss_rep_empty _ gen_meta_fits, of "replicate 12 0" default_test_key "?b + 1"] kh by simp
  have each: "load_each default_test_key (\<lambda>_. True) ?dir [handle_file (?b + 1)] = Ok [?m]"
    using load_each_rep [OF rep, of "\<lambda>_. True" "[?b + 1]"] by (simp add: map_filter_simps)
  have "fb_list True [handle_file (?b + 1)] ?dir = Ok [handle_file (?b + 1)]"
    by (simp add: fb_list_def ss_store_def fb_write_def handle_file_def)
  then have load: "ss_load_all default_test_key True (\<lambda>_. True) [handle_file (?b + 1)] ?dir = Ok [?m]"
    using each by (simp only: ss_load_all_def and_then_simps)
  let ?t = "startup_table (\<lambda>_. False) None (Some (Ok [?m]))"
  have "?t = restore_handles ht_new [?m]" using startup_no_keys by (simp add: startup_table_def Let_def)
  then have ent: "map (\<lambda>e. (he_handle e, he_owner_vm_id e)) (ht_entries ?t) = [(?b, ''vm2'')]"
    using restore_entries [of ht_new "[?m]" ?b] kh by (simp add: ht_len_def ht_new_def MAX_HANDLES_def)
  then obtain e where e: "ht_entries ?t = [e]" "he_handle e = ?b" "he_owner_vm_id e = ''vm2''" by auto
  have "map_option he_owner_vm_id (ht_get ?t ?b) = Some ''vm2''" "ht_get ?t (?b + 1) = None"
    using e by (simp_all add: ht_get_def)
  moreover have "sc_secstore_key cfg2 = default_test_key" by (simp add: cfg2_def cfg0_def)
  ultimately show ?thesis
    using d1 d2 load kh startup_no_keys by (intro exI conjI) (simp_all, simp_all add: response_ok_def)
qed

section \<open>Panics and closed connections\<close>

text \<open>
  After a panic of the audit writer every later request, of any connection, is executed but neither
  answered nor audited, and its connection's thread panics in turn.
\<close>

lemma poisoned_audit_blocks:
  assumes "sv_audit_poisoned st" "dispatch_request cfg env req caller st = (st', r, d)"
  shows "r = None" "d = Panicked" "sv_audit_poisoned st'" "sv_log st' = sv_log st"
    "\<exists>resp out. handle_request (sc_yaml cfg) (sc_crypto cfg) req caller (sv_table st) (sc_iam cfg) (sv_crypto st) =
      (sv_table st', sv_crypto st', resp, out)"
  using assms by (auto simp: dispatch_request_def Let_def split: prod.splits)

text \<open>Closing one connection of a VM releases the dynamic handles of all its connections.\<close>

lemma close_releases_all:
  assumes "table_ok (sv_table st)" "e \<in> set (ht_entries (sv_table st))" "he_owner_vm_id e = pb_vm_id p" "pb_vm_id p \<noteq> []" "\<not> he_persistent e"
  shows "ht_get (sv_table (conn_end (Some p) st)) (he_handle e) = None"
proof -
  have "he_handle e' \<noteq> he_handle e" if "e' \<in> set (ht_entries (sv_table (conn_end (Some p) st)))" for e'
    using that assms by (auto simp: conn_end_def remove_by_vm_id_def table_ok_def distinct_map inj_on_def)
  then show ?thesis by (auto simp: ht_get_def find_None_iff)
qed

end
