(* ===== verification/LogProps.thy ===== *)
theory LogProps
  imports LogRotate
begin

text \<open>
  What the log writer promises: while the file system calls succeed, the files on disk hold the most
  recent lines whole and in order, within the configured sizes; and what happens to the writer when
  the flush before a rotation fails.
\<close>

section \<open>Rotation without faults\<close>

lemma sys_ok [simp]: "lw_io w = [] \<Longrightarrow> sys w = (True, w)"
  by (simp add: sys_def)

lemma sys_do_ok [simp]: "lw_io w = [] \<Longrightarrow> sys_do act w = (w\<lparr>lw_fs := act (lw_fs w)\<rparr>, Ok ())"
  by (simp add: sys_do_def)

lemma sys_if_ok: "lw_io w = [] \<Longrightarrow> (\<not> c \<Longrightarrow> act (lw_fs w) = lw_fs w) \<Longrightarrow> sys_if c act w = (w\<lparr>lw_fs := act (lw_fs w)\<rparr>, Ok ())"
  by (simp add: sys_if_def)

definition shifted :: "nat \<Rightarrow> (nat \<rightharpoonup> bytes) \<Rightarrow> (nat \<rightharpoonup> bytes)" where
  "shifted k fs = (\<lambda>j. if j = 0 \<or> Suc k < j then fs j else if j = 1 then None else fs (j - 1))"

lemma shift_down_ok:
  "lw_io w = [] \<Longrightarrow> lw_fs w (Suc k) = None \<Longrightarrow> shift_down k w = (w\<lparr>lw_fs := shifted k (lw_fs w)\<rparr>, Ok ())"
proof (induction k arbitrary: w)
  case 0
  have "shifted 0 (lw_fs w) j = lw_fs w j" for j
    using 0 by (cases j) (auto simp: shifted_def)
  then have "shifted 0 (lw_fs w) = lw_fs w" by (rule ext)
  then show ?case by simp
next
  case (Suc k)
  let ?fs = "rename_log (Suc k) (Suc (Suc k)) (lw_fs w)"
  have ren: "lw_fs w (Suc k) = None \<Longrightarrow> ?fs = lw_fs w" using Suc.prems by (auto simp: rename_log_def fun_eq_iff)
  have pre: "?fs (Suc k) = None" by (simp add: rename_log_def)
  have "shift_down (Suc k) w = shift_down k (w\<lparr>lw_fs := ?fs\<rparr>)"
    using Suc.prems(1) ren by (cases "lw_fs w (Suc k)") simp_all
  also have "\<dots> = (w\<lparr>lw_fs := shifted k ?fs\<rparr>, Ok ())"
    using Suc.IH [of "w\<lparr>lw_fs := ?fs\<rparr>"] Suc.prems(1) pre by simp
  also have "shifted k ?fs = shifted (Suc k) (lw_fs w)" by (auto simp: shifted_def rename_log_def fun_eq_iff)
  finally show ?case .
qed

definition rotated :: "nat \<Rightarrow> (nat \<rightharpoonup> bytes) \<Rightarrow> (nat \<rightharpoonup> bytes)" where
  "rotated n fs = (\<lambda>j. if j = 0 then Some [] else if n < j then fs j else fs (j - 1))"

lemma do_shift_ok:
  assumes "lw_io w = []" "rc_max_rotated (rw_cfg r) \<noteq> 0"
  shows "do_shift_and_reopen r w =
    (r\<lparr>rw_current := Some []\<rparr>, w\<lparr>lw_fs := rotated (unat (rc_max_rotated (rw_cfg r))) (lw_fs w)\<rparr>, Ok ())"
proof -
  obtain k where k: "unat (rc_max_rotated (rw_cfg r)) = Suc k"
    using assms(2) unat_eq_zero by (metis not0_implies_Suc)
  let ?w1 = "w\<lparr>lw_fs := (lw_fs w)(Suc k := None)\<rparr>"
  have a: "sys_if (lw_fs w (Suc k) \<noteq> None) (\<lambda>fs. fs(Suc k := None)) w = (?w1, Ok ())"
    using assms(1) by (intro sys_if_ok) (auto simp: fun_eq_iff)
  have b: "shift_down k ?w1 = (w\<lparr>lw_fs := shifted k ((lw_fs w)(Suc k := None))\<rparr>, Ok ())"
    using assms(1) by (subst shift_down_ok) simp_all
  let ?w2 = "w\<lparr>lw_fs := shifted k ((lw_fs w)(Suc k := None))\<rparr>"
  have c: "sys_if (lw_fs ?w2 0 \<noteq> None) (rename_log 0 1) ?w2 = (?w2\<lparr>lw_fs := rename_log 0 1 (lw_fs ?w2)\<rparr>, Ok ())"
    using assms(1) by (intro sys_if_ok) (auto simp: rename_log_def shifted_def fun_eq_iff)
  have d: "(rename_log 0 1 (shifted k ((lw_fs w)(Suc k := None))))(0 \<mapsto> []) = rotated (Suc k) (lw_fs w)"
    by (auto simp: rename_log_def shifted_def rotated_def fun_eq_iff)
  have e: "rename_log 0 1 (shifted k ((lw_fs w)(Suc k := None))) 0 = None" by (simp add: rename_log_def)
  show ?thesis
    using a b c assms(1) by (simp add: do_shift_and_reopen_def Let_def k e [simplified] d [symmetric])
qed

section \<open>The abstract log: segments of lines, newest first\<close>

definition seg_size :: "bytes list \<Rightarrow> nat" where
  "seg_size s = length (concat s)"

fun seg_write :: "nat \<Rightarrow> nat \<Rightarrow> bytes list list \<Rightarrow> bytes \<Rightarrow> bytes list list" where
  "seg_write cap n (s # ss) l = (if seg_size s + length l > cap then [l] # take n (s # ss) else (s @ [l]) # ss)"
| "seg_write cap n [] l = [[l]]"

text \<open>A writer and its files hold these segments; the newest may be partly in the buffer.\<close>

definition log_rep :: "rotating_file_config \<Rightarrow> rotating_file_writer \<Rightarrow> log_world \<Rightarrow> bytes list list \<Rightarrow> bool" where
  "log_rep cfg r w segs \<longleftrightarrow> lw_io w = [] \<and> rw_cfg r = cfg \<and> segs \<noteq> [] \<and> length segs \<le> unat (rc_max_rotated cfg) + 1
     \<and> seg_size (hd segs) < 2 ^ 64 \<and> rw_current_size r = of_nat (seg_size (hd segs))
     \<and> (\<exists>old buf. rw_current r = Some buf \<and> lw_fs w 0 = Some old \<and> old @ buf = concat (hd segs)
          \<and> (rc_sync_each_line cfg \<and> (\<forall>l \<in> set (hd segs). 10 \<in> set l) \<longrightarrow> buf = []))
     \<and> (\<forall>k > 0. lw_fs w k = (if k < length segs then Some (concat (segs ! k)) else None))"

lemma bw_flush_ok:
  "lw_io w = [] \<Longrightarrow> lw_fs w 0 = Some old \<Longrightarrow> bw_flush buf w = (w\<lparr>lw_fs := (lw_fs w)(0 \<mapsto> old @ buf)\<rparr>, [], Ok ())"
  by (cases w) (auto simp: bw_flush_def append_active_def fun_eq_iff)

lemma bw_write_ok:
  assumes "lw_io w = []" "lw_fs w 0 = Some old"
  obtains old' buf' where "bw_write buf l w = (w\<lparr>lw_fs := (lw_fs w)(0 \<mapsto> old')\<rparr>, buf', Ok (length l))" "old' @ buf' = old @ buf @ l"
proof (cases "length buf + length l < BUF_CAPACITY")
  case True
  then have "bw_write buf l w = (w\<lparr>lw_fs := (lw_fs w)(0 \<mapsto> old)\<rparr>, buf @ l, Ok (length l))"
    using assms(2) by (cases w) (simp add: bw_write_def fun_upd_idem)
  then show thesis using that by simp
next
  case False
  obtain old1 buf1 where s: "(if length buf + length l > BUF_CAPACITY then bw_flush buf w else (w, buf, Ok ())) =
      (w\<lparr>lw_fs := (lw_fs w)(0 \<mapsto> old1)\<rparr>, buf1, Ok ())" "old1 @ buf1 = old @ buf" "length l \<ge> BUF_CAPACITY \<longrightarrow> buf1 = []"
  proof (cases "length buf + length l > BUF_CAPACITY")
    case True
    then show thesis using that [of "old @ buf" "[]"] bw_flush_ok [OF assms] by simp
  next
    case f: False
    then have "length l \<ge> BUF_CAPACITY \<longrightarrow> buf = []" using False by (cases buf) simp_all
    then show thesis using that [of old buf] f assms(2) by (cases w) (simp add: fun_upd_idem)
  qed
  show thesis
  proof (cases "length l \<ge> BUF_CAPACITY")
    case True
    then have "bw_write buf l w = (w\<lparr>lw_fs := (lw_fs w)(0 \<mapsto> old1 @ l)\<rparr>, [], Ok (length l))"
      using s False assms(1) by (simp add: bw_write_def append_active_def)
    then show thesis using that s(2,3) True by simp
  next
    case f: False
    then have "bw_write buf l w = (w\<lparr>lw_fs := (lw_fs w)(0 \<mapsto> old1)\<rparr>, buf1 @ l, Ok (length l))"
      using s(1) False by (simp add: bw_write_def)
    then show thesis using that s(2) by (metis append.assoc)
  qed
qed

lemma unat_u64: "unat (m :: u64) < 2 ^ 64"
  using unsigned_less [of m] by simp

lemma sat_add_gt:
  assumes "unat a + n < 2 ^ 64 \<or> m \<noteq> -1"
  shows "sat_add64 a n > m \<longleftrightarrow> unat a + n > unat m"
proof (cases "unat a + n < 2 ^ 64")
  case True
  then have "unat (a + of_nat n) = unat a + n" by (simp add: unat_word_ariths unat_of_nat)
  then show ?thesis using True by (simp add: sat_add64_def word_less_nat_alt)
next
  case False
  then have "m < -1" using assms by (metis word_order.not_eq_extremum)
  moreover have "unat m < 2 ^ 64" by (rule unat_u64)
  ultimately show ?thesis using False by (simp add: sat_add64_def)
qed

lemma sat_add_of_nat: "m + n < 2 ^ 64 \<Longrightarrow> sat_add64 (of_nat m) n = of_nat (m + n)"
  by (simp add: sat_add64_def unat_of_nat)

text \<open>Writing to a writer that has room.\<close>

lemma append_rep:
  assumes rep: "log_rep cfg r w (s # ss)" and room: "seg_size s + length l < 2 ^ 64"
  shows "\<exists>r' w'. writer_put r l w = (r', w', Ok (length l)) \<and> log_rep cfg r' w' ((s @ [l]) # ss)"
proof -
  obtain old buf where f: "rw_current r = Some buf" "lw_fs w 0 = Some old" "old @ buf = concat s" "lw_io w = []" "rw_cfg r = cfg"
      "rw_current_size r = of_nat (seg_size s)" "rc_sync_each_line cfg \<and> (\<forall>l \<in> set s. 10 \<in> set l) \<longrightarrow> buf = []"
    using rep by (auto simp: log_rep_def)
  obtain old' buf' where w: "bw_write buf l w = (w\<lparr>lw_fs := (lw_fs w)(0 \<mapsto> old')\<rparr>, buf', Ok (length l))" "old' @ buf' = old @ buf @ l"
    using bw_write_ok [OF f(4,2)] by metis
  let ?sync = "rc_sync_each_line cfg \<and> 10 \<in> set l"
  let ?old = "if ?sync then old' @ buf' else old'" and ?buf = "if ?sync then [] else buf'"
  let ?w = "w\<lparr>lw_fs := (lw_fs w)(0 \<mapsto> ?old)\<rparr>"
  let ?r = "r\<lparr>rw_current := Some ?buf, rw_current_size := sat_add64 (rw_current_size r) (length l)\<rparr>"
  have put: "writer_put r l w = (?r, ?w, Ok (length l))"
    using f w(1) bw_flush_ok [of "w\<lparr>lw_fs := (lw_fs w)(0 \<mapsto> old')\<rparr>" old' buf']
    by (simp add: writer_put_def Let_def)
  have size: "sat_add64 (rw_current_size r) (length l) = of_nat (seg_size (s @ [l]))"
    using f(6) room sat_add_of_nat [of "seg_size s" "length l"] by (simp add: seg_size_def)
  have "old' @ buf' = concat s @ l" using w(2) f(3) by (metis append.assoc)
  then have "?old @ ?buf = concat (s @ [l])" by simp
  then have "log_rep cfg ?r ?w ((s @ [l]) # ss)"
    using rep size room by (auto simp: log_rep_def seg_size_def)
  then show ?thesis using put by blast
qed

lemma rotate_rep:
  assumes rep: "log_rep cfg r w segs" and "rc_max_rotated cfg \<noteq> 0"
  shows "\<exists>r' w'. rotate_log r w = (r', w', Ok ()) \<and> log_rep cfg r' w' ([] # take (unat (rc_max_rotated cfg)) segs)"
proof -
  let ?n = "unat (rc_max_rotated cfg)"
  obtain s ss where segs: "segs = s # ss" using rep by (cases segs) (auto simp: log_rep_def)
  obtain old buf where f: "rw_current r = Some buf" "lw_fs w 0 = Some old" "old @ buf = concat s" "lw_io w = []" "rw_cfg r = cfg"
    using rep segs by (auto simp: log_rep_def)
  have files: "\<forall>k > 0. lw_fs w k = (if k < length segs then Some (concat (segs ! k)) else None)" and len: "length segs \<le> ?n + 1"
    using rep by (auto simp: log_rep_def)
  have n0: "0 < ?n" using assms(2) by (simp add: unat_gt_0)
  let ?w1 = "w\<lparr>lw_fs := (lw_fs w)(0 \<mapsto> old @ buf)\<rparr>"
  let ?w2 = "w\<lparr>lw_fs := rotated ?n ((lw_fs w)(0 \<mapsto> old @ buf))\<rparr>"
  have rot: "rotate_log r w = (r\<lparr>rw_current := Some [], rw_current_size := 0\<rparr>, ?w2, Ok ())"
    using f assms(2) do_shift_ok [of ?w1 "r\<lparr>rw_current := None\<rparr>"] bw_flush_ok [OF f(4,2), of buf]
    by (simp add: rotate_log_def Let_def)
  have at: "((lw_fs w)(0 \<mapsto> old @ buf)) k = (if k < length segs then Some (concat (segs ! k)) else None)" for k
    using files f(3) segs by (cases k) simp_all
  have "lw_fs ?w2 (Suc j) = (if j < length (take ?n segs) then Some (concat (take ?n segs ! j)) else None)" for j
  proof (cases "?n < Suc j")
    case True
    then have "lw_fs ?w2 (Suc j) = ((lw_fs w)(0 \<mapsto> old @ buf)) (Suc j)" by (simp add: rotated_def)
    then show ?thesis using True len by (simp only: at) auto
  next
    case False
    then have "lw_fs ?w2 (Suc j) = ((lw_fs w)(0 \<mapsto> old @ buf)) j" by (simp add: rotated_def)
    then show ?thesis using False by (simp only: at) auto
  qed
  then have "lw_fs ?w2 k = (if k < length ([] # take ?n segs) then Some (concat (([] # take ?n segs) ! k)) else None)" if "k > 0" for k
    using that by (cases k) simp_all
  then have "log_rep cfg (r\<lparr>rw_current := Some [], rw_current_size := 0\<rparr>) ?w2 ([] # take ?n segs)"
    using f(4,5) by (simp add: log_rep_def seg_size_def rotated_def)
  then show ?thesis using rot by blast
qed

lemma write_rep:
  assumes "log_rep cfg r w segs" "rc_max_rotated cfg \<noteq> 0" "rc_max_bytes cfg \<noteq> -1" "length l < 2 ^ 64"
  shows "\<exists>r' w'. writer_write r l w = (r', w', Ok (length l))
    \<and> log_rep cfg r' w' (seg_write (unat (rc_max_bytes cfg)) (unat (rc_max_rotated cfg)) segs l)"
proof -
  obtain s ss where segs: "segs = s # ss" using assms(1) by (cases segs) (auto simp: log_rep_def)
  have size: "rw_current_size r = of_nat (seg_size s)" "seg_size s < 2 ^ 64" "rw_cfg r = cfg"
    using assms(1) segs by (simp_all add: log_rep_def)
  then have over: "sat_add64 (rw_current_size r) (length l) > rc_max_bytes cfg \<longleftrightarrow> seg_size s + length l > unat (rc_max_bytes cfg)"
    using assms(3) by (simp add: sat_add_gt unat_of_nat)
  show ?thesis
  proof (cases "seg_size s + length l > unat (rc_max_bytes cfg)")
    case False
    have "unat (rc_max_bytes cfg) < 2 ^ 64" by (rule unat_u64)
    then show ?thesis
      using append_rep [OF assms(1) [unfolded segs], of l] over False segs size(3) by (simp add: writer_write_def)
  next
    case True
    let ?n = "unat (rc_max_rotated cfg)"
    obtain r1 w1 where rot: "rotate_log r w = (r1, w1, Ok ())" "log_rep cfg r1 w1 ([] # take ?n segs)"
      using rotate_rep [OF assms(1,2)] by blast
    obtain r2 w2 where put: "writer_put r1 l w1 = (r2, w2, Ok (length l))" "log_rep cfg r2 w2 ([l] # take ?n segs)"
      using append_rep [OF rot(2), of l] assms(4) by (auto simp: seg_size_def)
    then show ?thesis using rot(1) over True size(3) segs by (simp add: writer_write_def)
  qed
qed

section \<open>A run of writes\<close>

fun write_lines :: "rotating_file_writer \<Rightarrow> bytes list \<Rightarrow> log_world \<Rightarrow> rotating_file_writer \<times> log_world \<times> (log_error + unit)" where
  "write_lines r [] w = (r, w, Ok ())"
| "write_lines r (l # ls) w =
     (case writer_write r l w of (r', w', Ok _) \<Rightarrow> write_lines r' ls w' | (r', w', Err e) \<Rightarrow> (r', w', Err e))"

lemma lines_rep:
  assumes "log_rep cfg r w segs" "rc_max_rotated cfg \<noteq> 0" "rc_max_bytes cfg \<noteq> -1" "\<forall>l \<in> set ls. length l < 2 ^ 64"
  shows "\<exists>r' w'. write_lines r ls w = (r', w', Ok ())
    \<and> log_rep cfg r' w' (foldl (seg_write (unat (rc_max_bytes cfg)) (unat (rc_max_rotated cfg))) segs ls)"
  using assms
proof (induction ls arbitrary: r w segs)
  case (Cons l ls)
  obtain r1 w1 where "writer_write r l w = (r1, w1, Ok (length l))"
      "log_rep cfg r1 w1 (seg_write (unat (rc_max_bytes cfg)) (unat (rc_max_rotated cfg)) segs l)"
    using write_rep [OF Cons.prems(1-3), of l] Cons.prems(4) by auto
  then show ?case using Cons.IH [OF _ Cons.prems(2,3), of r1 w1] Cons.prems(4) by auto
qed auto

text \<open>What the segments hold of the lines written so far: a suffix, in order, whole.\<close>

definition seg_inv :: "nat \<Rightarrow> nat \<Rightarrow> bytes list list \<Rightarrow> bytes list \<Rightarrow> bool" where
  "seg_inv cap n segs ls \<longleftrightarrow> segs \<noteq> [] \<and> length segs \<le> n + 1
     \<and> (\<exists>dropped. dropped @ concat (rev segs) = ls \<and> (dropped \<noteq> [] \<longrightarrow> length segs = n + 1))
     \<and> (\<forall>s \<in> set segs. seg_size s \<le> cap \<or> length s = 1)"

lemma seg_inv_write:
  assumes "seg_inv cap n segs ls" "0 < n"
  shows "seg_inv cap n (seg_write cap n segs l) (ls @ [l])"
proof -
  obtain s ss where segs: "segs = s # ss" using assms(1) by (cases segs) (auto simp: seg_inv_def)
  obtain dropped where d: "dropped @ concat (rev segs) = ls" "dropped \<noteq> [] \<longrightarrow> length segs = n + 1"
    and len: "length segs \<le> n + 1" and sz: "\<forall>s \<in> set segs. seg_size s \<le> cap \<or> length s = 1"
    using assms(1) by (auto simp: seg_inv_def)
  show ?thesis
  proof (cases "seg_size s + length l > cap")
    case False
    then have "seg_size (s @ [l]) \<le> cap" by (simp add: seg_size_def)
    moreover have "dropped @ concat (rev ((s @ [l]) # ss)) = ls @ [l]" using d(1) segs by simp
    ultimately show ?thesis using False segs d(2) len sz by (auto simp: seg_inv_def)
  next
    case True
    have split: "rev (take n segs) = rev (take n segs)" and rv: "rev segs = rev (drop n segs) @ rev (take n segs)"
      by (simp, metis append_take_drop_id rev_append)
    have "(dropped @ concat (rev (drop n segs))) @ concat (rev ([l] # take n segs)) = ls @ [l]"
      using d(1) by (simp add: rv)
    moreover have "dropped @ concat (rev (drop n segs)) \<noteq> [] \<longrightarrow> length ([l] # take n segs) = n + 1"
      using d(2) by (cases "n \<le> length segs") auto
    moreover have "\<forall>t \<in> set (take n segs). seg_size t \<le> cap \<or> length t = 1" using sz by (meson in_set_takeD)
    ultimately show ?thesis using True segs unfolding seg_inv_def by auto
  qed
qed

lemma seg_inv_run: "seg_inv cap n segs ls0 \<Longrightarrow> 0 < n \<Longrightarrow> seg_inv cap n (foldl (seg_write cap n) segs ls) (ls0 @ ls)"
proof (induction ls arbitrary: segs ls0)
  case (Cons l ls)
  then show ?case using Cons.IH [OF seg_inv_write [OF Cons.prems], of l] by simp
qed simp

lemma open_rep:
  assumes "lw_io w = []" "lw_fs w = Map.empty" "rc_max_bytes cfg \<noteq> 0" "rc_max_rotated cfg \<noteq> 0"
  shows "\<exists>r w'. writer_open cfg w = (w', Ok r) \<and> log_rep cfg r w' [[]]"
  using assms by (auto simp: writer_open_def Let_def open_append_def file_len_def log_rep_def seg_size_def word_gt_0 not_le)

text \<open>C39: The log keeps the most recent lines, whole and in order, within its bounds. Open the writer on an empty
  directory and write any lines; while the file system calls succeed, every write succeeds. At the
  end the rotated copies from the oldest to the newest, the active file and the bytes still in the
  writer's buffer hold together a suffix of the lines written; no line is split between files; a line
  is missing only when the maximal number of files is in use, and no more files exist; each file is
  within the size limit, unless it holds a single line; with a sync on each line nothing is left in the buffer.\<close>

theorem log_keeps_recent_lines:
  assumes "lw_io w = []" "lw_fs w = Map.empty" "rc_max_bytes cfg \<noteq> 0" "rc_max_bytes cfg \<noteq> -1" "rc_max_rotated cfg \<noteq> 0"
    and "\<forall>l \<in> set ls. length l < 2 ^ 64"
  shows "\<exists>r w1 r' w' segs dropped old buf. writer_open cfg w = (w1, Ok r) \<and> write_lines r ls w1 = (r', w', Ok ())
    \<and> rw_current r' = Some buf \<and> lw_fs w' 0 = Some old \<and> old @ buf = concat (segs ! 0)
    \<and> (\<forall>k > 0. lw_fs w' k = (if k < length segs then Some (concat (segs ! k)) else None))
    \<and> dropped @ concat (rev segs) = ls \<and> (dropped \<noteq> [] \<longrightarrow> length segs = unat (rc_max_rotated cfg) + 1)
    \<and> 0 < length segs \<and> length segs \<le> unat (rc_max_rotated cfg) + 1
    \<and> (\<forall>s \<in> set segs. length (concat s) \<le> unat (rc_max_bytes cfg) \<or> length s = 1)
    \<and> (rc_sync_each_line cfg \<and> (\<forall>l \<in> set ls. 10 \<in> set l) \<longrightarrow> buf = [])"
proof -
  let ?n = "unat (rc_max_rotated cfg)" and ?cap = "unat (rc_max_bytes cfg)"
  obtain r w1 where o: "writer_open cfg w = (w1, Ok r)" "log_rep cfg r w1 [[]]"
    using open_rep [OF assms(1,2,3,5)] by blast
  define segs where "segs = foldl (seg_write ?cap ?n) [[]] ls"
  obtain r' w' where l: "write_lines r ls w1 = (r', w', Ok ())" "log_rep cfg r' w' segs"
    using lines_rep [OF o(2) assms(5,4,6)] unfolding segs_def by blast
  have "0 < ?n" using assms(5) by (simp add: unat_gt_0)
  moreover have "seg_inv ?cap ?n [[]] []" by (simp add: seg_inv_def seg_size_def)
  ultimately have inv: "seg_inv ?cap ?n segs ls" using seg_inv_run [of ?cap ?n "[[]]" "[]" ls] by (simp add: segs_def)
  obtain dropped where d: "dropped @ concat (rev segs) = ls" "dropped \<noteq> [] \<longrightarrow> length segs = ?n + 1"
    using inv by (auto simp: seg_inv_def)
  obtain old buf where b: "rw_current r' = Some buf" "lw_fs w' 0 = Some old" "old @ buf = concat (hd segs)"
      "rc_sync_each_line cfg \<and> (\<forall>l \<in> set (hd segs). 10 \<in> set l) \<longrightarrow> buf = []"
    using l(2) by (auto simp: log_rep_def)
  have ne: "segs \<noteq> []" using inv by (simp add: seg_inv_def)
  then have "set (hd segs) \<subseteq> set ls" using d(1) by (cases segs) auto
  then have "rc_sync_each_line cfg \<and> (\<forall>l \<in> set ls. 10 \<in> set l) \<longrightarrow> buf = []" using b(4) by blast
  moreover have "old @ buf = concat (segs ! 0)" using b(3) ne by (simp add: hd_conv_nth)
  moreover have "\<forall>k > 0. lw_fs w' k = (if k < length segs then Some (concat (segs ! k)) else None)"
    using l(2) by (simp add: log_rep_def)
  moreover have "0 < length segs" "length segs \<le> ?n + 1" "\<forall>s \<in> set segs. length (concat s) \<le> ?cap \<or> length s = 1"
    using inv by (simp_all add: seg_inv_def seg_size_def)
  ultimately show ?thesis using o(1) l(1) b(1,2) d by (intro exI conjI) assumption+
qed

text \<open>Files of four bytes and one rotated copy: of three lines the last two are kept.\<close>

definition tiny_cfg :: rotating_file_config where
  "tiny_cfg = with_sync_each_line (with_max_rotated (config_new 4) 1) True"

theorem log_keeps_recent_lines_witness:
  "\<exists>r w1 r' w'. writer_open tiny_cfg \<lparr>lw_fs = Map.empty, lw_io = []\<rparr> = (w1, Ok r)
     \<and> write_lines r [[1, 2, 10], [3, 4, 10], [5, 6, 10]] w1 = (r', w', Ok ())
     \<and> (\<exists>old buf segs dropped. rw_current r' = Some buf \<and> lw_fs w' 0 = Some old \<and> old @ buf = concat (segs ! 0)
           \<and> dropped @ concat (rev segs) = [[1, 2, 10], [3, 4, 10], [5, 6, 10]] \<and> length segs \<le> 2 \<and> buf = [])"
proof -
  have cfg: "rc_max_bytes tiny_cfg = 4" "rc_max_rotated tiny_cfg = 1" "rc_sync_each_line tiny_cfg"
    by (simp_all add: tiny_cfg_def config_new_def with_max_rotated_def with_sync_each_line_def)
  let ?ls = "[[1, 2, 10], [3, 4, 10], [5, 6, 10]] :: bytes list"
  have pre: "lw_io \<lparr>lw_fs = Map.empty, lw_io = []\<rparr> = []" "lw_fs \<lparr>lw_fs = Map.empty, lw_io = []\<rparr> = Map.empty"
      "rc_max_bytes tiny_cfg \<noteq> 0" "rc_max_bytes tiny_cfg \<noteq> -1" "rc_max_rotated tiny_cfg \<noteq> 0" "\<forall>l \<in> set ?ls. length l < 2 ^ 64"
    by (simp_all add: cfg)
  obtain r w1 r' w' segs dropped old buf where h: "writer_open tiny_cfg \<lparr>lw_fs = Map.empty, lw_io = []\<rparr> = (w1, Ok r)"
      "write_lines r ?ls w1 = (r', w', Ok ())" "rw_current r' = Some buf" "lw_fs w' 0 = Some old" "old @ buf = concat (segs ! 0)"
      "dropped @ concat (rev segs) = ?ls" "length segs \<le> unat (rc_max_rotated tiny_cfg) + 1"
      "rc_sync_each_line tiny_cfg \<and> (\<forall>l \<in> set ?ls. 10 \<in> set l) \<longrightarrow> buf = []"
    using log_keeps_recent_lines [OF pre] by blast
  have "length segs \<le> 2" "buf = []" using h(7,8) cfg by simp_all
  then show ?thesis using h(1-6) by blast
qed

section \<open>A failed flush\<close>

text \<open>A failed flush before a rotation disables the writer. Let a rotation become due while bytes are buffered, and
  the two attempts to write them fail. Then the write returns an error, the writer is left without a
  file handle and the buffered bytes are lost; and every later write small enough not to trigger
  a rotation panics.\<close>

theorem failed_flush_disables_writer:
  assumes "rw_current r = Some buf" "buf \<noteq> []" "lw_io w = False # False # io"
    and "sat_add64 (rw_current_size r) (length l) > rc_max_bytes (rw_cfg r)"
    and "\<not> sat_add64 (rw_current_size r) (length l') > rc_max_bytes (rw_cfg r)"
  shows "writer_write r l w = (r\<lparr>rw_current := None\<rparr>, w\<lparr>lw_io := io\<rparr>, Err LogIo)
    \<and> writer_write (r\<lparr>rw_current := None\<rparr>) l' w' = (r\<lparr>rw_current := None\<rparr>, w', Err LogPanic)"
  using assms by (simp add: writer_write_def rotate_log_def bw_flush_def sys_do_def sys_def Let_def writer_put_def)

theorem failed_flush_disables_writer_witness:
  "\<exists>r w. rw_current r = Some [1, 10] \<and> snd (snd (writer_write r [2, 3, 10] w)) = Err LogIo
     \<and> snd (snd (writer_write (fst (writer_write r [2, 3, 10] w)) [4] \<lparr>lw_fs = Map.empty, lw_io = []\<rparr>)) = Err LogPanic"
proof -
  let ?r = "\<lparr>rw_cfg = tiny_cfg, rw_current = Some [1, 10], rw_current_size = 2\<rparr>"
  let ?w = "\<lparr>lw_fs = [0 \<mapsto> []], lw_io = [False, False]\<rparr>"
  have "rc_max_bytes tiny_cfg = 4" by (simp add: tiny_cfg_def config_new_def with_max_rotated_def with_sync_each_line_def)
  then have "sat_add64 2 (length [2 :: u8, 3, 10]) > rc_max_bytes tiny_cfg" "\<not> sat_add64 2 (length [4 :: u8]) > rc_max_bytes tiny_cfg"
    by (simp_all add: sat_add64_def)
  then show ?thesis
    using failed_flush_disables_writer [of ?r "[1, 10]" ?w "[]" "[2, 3, 10]" "[4]" "\<lparr>lw_fs = Map.empty, lw_io = []\<rparr>"]
    by (intro exI [of _ ?r] exI [of _ ?w]) simp
qed

end
