(* ===== verification/LinkB.thy ===== *)
theory LinkB
  imports VhsmHandler
begin

text \<open>
  Link B, the protocol between the vHSM daemon and the HSM service: the wire of
  \<^verbatim>\<open>crates/hsm-link-b/src/lib.rs\<close> and both ends of it from \<^verbatim>\<open>crates/hsm/src/link_b.rs\<close>. The provider traits
  (\<^verbatim>\<open>HsmCryptoProvider\<close>, \<^verbatim>\<open>HsmProvider\<close>) are records of operations over a state, as in the request dispatch, so
  that a provider reached over the wire and the one that serves it have the same type. A reader is the
  part of its buffer that is not read yet; its position never overflows, being an index into a buffer in
  memory. The client's stream is an inbox of read outcomes and a peer, a function that takes the bytes
  of a write and returns the outcomes of the reads that follow. The conversion of a public key
  to COSE is a parameter (P-256 and COSE are external). Starting the service process is not modelled.
\<close>

section \<open>Codes\<close>

definition FLAGS_NONE :: u32 where "FLAGS_NONE = 0"
definition HEADER_SIZE :: nat where "HEADER_SIZE = 12"
definition OP_SIGN :: u32 where "OP_SIGN = 0x01"
definition OP_SIGN_RAW_P256 :: u32 where "OP_SIGN_RAW_P256 = 0x02"
definition OP_VERIFY :: u32 where "OP_VERIFY = 0x03"
definition OP_ENCRYPT :: u32 where "OP_ENCRYPT = 0x04"
definition OP_DECRYPT :: u32 where "OP_DECRYPT = 0x05"
definition OP_MAC_GENERATE :: u32 where "OP_MAC_GENERATE = 0x06"
definition OP_MAC_VERIFY :: u32 where "OP_MAC_VERIFY = 0x07"
definition OP_DERIVE :: u32 where "OP_DERIVE = 0x08"
definition OP_RANDOM :: u32 where "OP_RANDOM = 0x09"
definition OP_GET_CERTIFICATE_DER :: u32 where "OP_GET_CERTIFICATE_DER = 0x0A"
definition OP_GET_PUBLIC_KEY_DER :: u32 where "OP_GET_PUBLIC_KEY_DER = 0x0B"
definition OP_GET_TRUST_ANCHOR_DER :: u32 where "OP_GET_TRUST_ANCHOR_DER = 0x0C"
definition OP_GET_SLOT_INFO :: u32 where "OP_GET_SLOT_INFO = 0x0D"
definition OP_GENERATE_KEY :: u32 where "OP_GENERATE_KEY = 0x0E"
definition OP_GENERATE_CSR :: u32 where "OP_GENERATE_CSR = 0x0F"
definition OP_UNWRAP_CEK_A128KW :: u32 where "OP_UNWRAP_CEK_A128KW = 0x10"
definition OP_UNWRAP_CEK_ECDH_ES :: u32 where "OP_UNWRAP_CEK_ECDH_ES = 0x11"
definition OP_IS_PROVISIONED :: u32 where "OP_IS_PROVISIONED = 0x20"
definition OP_PROVISION :: u32 where "OP_PROVISION = 0x21"
definition OP_LIST_SLOTS :: u32 where "OP_LIST_SLOTS = 0x22"
definition OP_PROVISIONING_STATE :: u32 where "OP_PROVISIONING_STATE = 0x23"
definition OP_ARM_ENROLLMENT :: u32 where "OP_ARM_ENROLLMENT = 0x24"
definition OP_IS_ENROLLED :: u32 where "OP_IS_ENROLLED = 0x25"
definition OP_CLEAR_ENROLLED :: u32 where "OP_CLEAR_ENROLLED = 0x26"
definition OP_GET_PUBLIC_KEY :: u32 where "OP_GET_PUBLIC_KEY = 0x27"
definition OP_READ_MONOTONIC :: u32 where "OP_READ_MONOTONIC = 0x28"
definition OP_RAISE_MONOTONIC :: u32 where "OP_RAISE_MONOTONIC = 0x29"
definition ST_OK :: u32 where "ST_OK = 0"
definition ST_NOT_PROVISIONED :: u32 where "ST_NOT_PROVISIONED = 1"
definition ST_ALREADY_PROVISIONED :: u32 where "ST_ALREADY_PROVISIONED = 2"
definition ST_NOT_RUNNING :: u32 where "ST_NOT_RUNNING = 3"
definition ST_ALREADY_RUNNING :: u32 where "ST_ALREADY_RUNNING = 4"
definition ST_KEYSTORE_ERROR :: u32 where "ST_KEYSTORE_ERROR = 5"
definition ST_PROCESS_ERROR :: u32 where "ST_PROCESS_ERROR = 6"
definition ST_CONFIG_ERROR :: u32 where "ST_CONFIG_ERROR = 7"
definition ST_ENVELOPE_INVALID :: u32 where "ST_ENVELOPE_INVALID = 8"
definition ST_PAYLOAD_INVALID :: u32 where "ST_PAYLOAD_INVALID = 9"
definition ST_DECRYPTION_FAILED :: u32 where "ST_DECRYPTION_FAILED = 10"
definition ST_ROLLBACK_REJECTED :: u32 where "ST_ROLLBACK_REJECTED = 11"
definition ST_NOT_SUPPORTED :: u32 where "ST_NOT_SUPPORTED = 12"
definition ST_CRYPTO_ERROR :: u32 where "ST_CRYPTO_ERROR = 13"
definition ST_KEY_NOT_FOUND :: u32 where "ST_KEY_NOT_FOUND = 14"
definition ST_PROTOCOL_ERROR :: u32 where "ST_PROTOCOL_ERROR = 15"

lemmas link_op_defs = OP_SIGN_def OP_SIGN_RAW_P256_def OP_VERIFY_def OP_ENCRYPT_def OP_DECRYPT_def OP_MAC_GENERATE_def
  OP_MAC_VERIFY_def OP_DERIVE_def OP_RANDOM_def OP_GET_CERTIFICATE_DER_def OP_GET_PUBLIC_KEY_DER_def
  OP_GET_TRUST_ANCHOR_DER_def OP_GET_SLOT_INFO_def OP_GENERATE_KEY_def OP_GENERATE_CSR_def OP_UNWRAP_CEK_A128KW_def
  OP_UNWRAP_CEK_ECDH_ES_def OP_IS_PROVISIONED_def OP_PROVISION_def OP_LIST_SLOTS_def OP_PROVISIONING_STATE_def
  OP_ARM_ENROLLMENT_def OP_IS_ENROLLED_def OP_CLEAR_ENROLLED_def OP_GET_PUBLIC_KEY_def OP_READ_MONOTONIC_def
  OP_RAISE_MONOTONIC_def

lemmas link_status_defs = ST_OK_def ST_NOT_PROVISIONED_def ST_ALREADY_PROVISIONED_def ST_NOT_RUNNING_def
  ST_ALREADY_RUNNING_def ST_KEYSTORE_ERROR_def ST_PROCESS_ERROR_def ST_CONFIG_ERROR_def ST_ENVELOPE_INVALID_def
  ST_PAYLOAD_INVALID_def ST_DECRYPTION_FAILED_def ST_ROLLBACK_REJECTED_def ST_NOT_SUPPORTED_def ST_CRYPTO_ERROR_def
  ST_KEY_NOT_FOUND_def ST_PROTOCOL_ERROR_def

section \<open>Lossy UTF-8\<close>

text \<open>
  \<^verbatim>\<open>String::from_utf8_lossy\<close>: every maximal prefix of a character that cannot be completed becomes one
  replacement character.
\<close>

definition utf8_second :: "u8 \<Rightarrow> u8 \<Rightarrow> bool" where
  "utf8_second a b \<longleftrightarrow>
     (if a = 0xE0 then 0xA0 \<le> b \<and> b \<le> 0xBF else if a = 0xED then 0x80 \<le> b \<and> b \<le> 0x9F
      else if a = 0xF0 then 0x90 \<le> b \<and> b \<le> 0xBF else if a = 0xF4 then 0x80 \<le> b \<and> b \<le> 0x8F
      else utf8_cont b)"

definition REPLACEMENT :: bytes where "REPLACEMENT = [0xEF, 0xBF, 0xBD]"

fun utf8_lossy :: "bytes \<Rightarrow> bytes" where
  "utf8_lossy [] = []"
| "utf8_lossy (a # xs) =
     (if a < 0x80 then a # utf8_lossy xs
      else if a < 0xC2 \<or> 0xF4 < a then REPLACEMENT @ utf8_lossy xs
      else case xs of
        [] \<Rightarrow> REPLACEMENT
      | b # ys \<Rightarrow>
          if \<not> utf8_second a b then REPLACEMENT @ utf8_lossy xs
          else if a \<le> 0xDF then a # b # utf8_lossy ys
          else case ys of
            [] \<Rightarrow> REPLACEMENT
          | c # zs \<Rightarrow>
              if \<not> utf8_cont c then REPLACEMENT @ utf8_lossy ys
              else if a \<le> 0xEF then a # b # c # utf8_lossy zs
              else case zs of
                [] \<Rightarrow> REPLACEMENT
              | d # ws \<Rightarrow>
                  if \<not> utf8_cont d then REPLACEMENT @ utf8_lossy zs
                  else a # b # c # d # utf8_lossy ws)"

definition from_utf8_lossy :: "bytes \<Rightarrow> string" where
  "from_utf8_lossy bs = map (\<lambda>b. char_of (unat b)) (utf8_lossy bs)"

section \<open>Frames\<close>

definition read_frame :: "read_event list \<Rightarrow> read_event list \<times> (io_error + u32 \<times> u32 \<times> bytes)" where
  "read_frame evs =
     (case read_exact HEADER_SIZE [] evs of
        (evs1, Err e) \<Rightarrow> (evs1, Err e)
      | (evs1, Ok hdr) \<Rightarrow>
          (case read_exact (unat (get_u32_le hdr 8)) [] evs1 of
             (evs2, Err e) \<Rightarrow> (evs2, Err e)
           | (evs2, Ok payload) \<Rightarrow> (evs2, Ok (get_u32_le hdr 0, get_u32_le hdr 4, payload))))"

text \<open>What a write puts on the wire.\<close>

definition write_frame :: "u32 \<Rightarrow> u32 \<Rightarrow> bytes \<Rightarrow> bytes" where
  "write_frame a flags payload =
     le_bytes a @ le_bytes flags @ le_bytes (of_nat (length payload) :: u32) @ payload"

section \<open>Fields of a payload\<close>

text \<open>A writer is the buffer built so far.\<close>

definition wr_u8 :: "u8 \<Rightarrow> bytes \<Rightarrow> bytes" where "wr_u8 v w = w @ [v]"
definition wr_u32 :: "u32 \<Rightarrow> bytes \<Rightarrow> bytes" where "wr_u32 v w = w @ le_bytes v"
definition wr_u64 :: "u64 \<Rightarrow> bytes \<Rightarrow> bytes" where "wr_u64 v w = w @ le_bytes v"
definition wr_bytes :: "bytes \<Rightarrow> bytes \<Rightarrow> bytes" where "wr_bytes b w = w @ le_bytes (of_nat (length b) :: u32) @ b"
definition wr_tail :: "bytes \<Rightarrow> bytes \<Rightarrow> bytes" where "wr_tail b w = w @ b"

type_synonym proto_error = string
type_synonym 'a read_result = "proto_error + 'a \<times> bytes"

definition rd_take :: "nat \<Rightarrow> bytes \<Rightarrow> bytes read_result" where
  "rd_take n r = (if n \<le> length r then Ok (take n r, drop n r) else Err ''short payload'')"

definition rd_u8 :: "bytes \<Rightarrow> u8 read_result" where
  "rd_u8 r = and_then (rd_take 1 r) (\<lambda>(b, r'). Ok (hd b, r'))"

definition rd_u32 :: "bytes \<Rightarrow> u32 read_result" where
  "rd_u32 r = and_then (rd_take 4 r) (\<lambda>(b, r'). Ok (le_word b, r'))"

definition rd_u64 :: "bytes \<Rightarrow> u64 read_result" where
  "rd_u64 r = and_then (rd_take 8 r) (\<lambda>(b, r'). Ok (le_word b, r'))"

definition rd_bytes :: "bytes \<Rightarrow> bytes read_result" where
  "rd_bytes r = and_then (rd_u32 r) (\<lambda>(n, r'). rd_take (unat n) r')"

section \<open>Errors on the wire\<close>

definition rollback_text :: "u64 \<Rightarrow> u64 \<Rightarrow> string" where
  "rollback_text current attempted =
     ''rollback rejected: security_version '' @ dec (unat attempted) @ '' <= current '' @ dec (unat current)"

fun status_from_error :: "hsm_error \<Rightarrow> u32" where
  "status_from_error NotProvisioned = ST_NOT_PROVISIONED"
| "status_from_error AlreadyProvisioned = ST_ALREADY_PROVISIONED"
| "status_from_error NotRunning = ST_NOT_RUNNING"
| "status_from_error AlreadyRunning = ST_ALREADY_RUNNING"
| "status_from_error (KeystoreError s) = ST_KEYSTORE_ERROR"
| "status_from_error (ProcessError s) = ST_PROCESS_ERROR"
| "status_from_error (ConfigError s) = ST_CONFIG_ERROR"
| "status_from_error (EnvelopeInvalid s) = ST_ENVELOPE_INVALID"
| "status_from_error (PayloadInvalid s) = ST_PAYLOAD_INVALID"
| "status_from_error (DecryptionFailed s) = ST_DECRYPTION_FAILED"
| "status_from_error (RollbackRejected current attempted) = ST_ROLLBACK_REJECTED"
| "status_from_error (NotSupported s) = ST_NOT_SUPPORTED"
| "status_from_error (HsmCryptoError s) = ST_CRYPTO_ERROR"
| "status_from_error (KeyNotFound s) = ST_KEY_NOT_FOUND"

definition status_to_error :: "u32 \<Rightarrow> bytes \<Rightarrow> hsm_error" where
  "status_to_error status result =
     (let msg = from_utf8_lossy result
      in if status = ST_NOT_PROVISIONED then NotProvisioned
         else if status = ST_ALREADY_PROVISIONED then AlreadyProvisioned
         else if status = ST_NOT_RUNNING then NotRunning
         else if status = ST_ALREADY_RUNNING then AlreadyRunning
         else if status = ST_KEYSTORE_ERROR then KeystoreError msg
         else if status = ST_PROCESS_ERROR then ProcessError msg
         else if status = ST_CONFIG_ERROR then ConfigError msg
         else if status = ST_ENVELOPE_INVALID then EnvelopeInvalid msg
         else if status = ST_PAYLOAD_INVALID then PayloadInvalid msg
         else if status = ST_DECRYPTION_FAILED then DecryptionFailed msg
         else if status = ST_ROLLBACK_REJECTED then HsmCryptoError msg
         else if status = ST_NOT_SUPPORTED then NotSupported msg
         else if status = ST_CRYPTO_ERROR then HsmCryptoError msg
         else if status = ST_KEY_NOT_FOUND then KeyNotFound msg
         else HsmCryptoError (''link-b status '' @ dec (unat status) @ '': '' @ msg))"

fun error_message_bytes :: "hsm_error \<Rightarrow> bytes" where
  "error_message_bytes NotProvisioned = []"
| "error_message_bytes AlreadyProvisioned = []"
| "error_message_bytes NotRunning = []"
| "error_message_bytes AlreadyRunning = []"
| "error_message_bytes (KeystoreError s) = str_bytes s"
| "error_message_bytes (ProcessError s) = str_bytes s"
| "error_message_bytes (ConfigError s) = str_bytes s"
| "error_message_bytes (EnvelopeInvalid s) = str_bytes s"
| "error_message_bytes (PayloadInvalid s) = str_bytes s"
| "error_message_bytes (DecryptionFailed s) = str_bytes s"
| "error_message_bytes (RollbackRejected current attempted) = str_bytes (rollback_text current attempted)"
| "error_message_bytes (NotSupported s) = str_bytes s"
| "error_message_bytes (HsmCryptoError s) = str_bytes s"
| "error_message_bytes (KeyNotFound s) = str_bytes s"

definition proto_err :: "proto_error \<Rightarrow> hsm_error" where
  "proto_err e = HsmCryptoError (''link-b decode: link-b protocol error: '' @ e)"

section \<open>Slots and states on the wire\<close>

datatype key_type = EcP256 | Ed25519 | Aes128 | Aes256 | HmacSha256
datatype slot_kind = SlotKey key_type | SlotMonotonic

record slot_info =
  si_handle :: u32
  si_key_id :: string
  si_kind :: slot_kind
  si_has_certificate :: bool
  si_allowed_guests :: "string list option"
  si_allowed_ops :: "string list option"

fun kind_to_wire :: "slot_kind \<Rightarrow> u32" where
  "kind_to_wire (SlotKey EcP256) = 1"
| "kind_to_wire (SlotKey Ed25519) = 2"
| "kind_to_wire (SlotKey Aes128) = 3"
| "kind_to_wire (SlotKey Aes256) = 4"
| "kind_to_wire (SlotKey HmacSha256) = 5"
| "kind_to_wire SlotMonotonic = 0xFF"

definition kind_from_wire :: "u32 \<Rightarrow> hsm_error + slot_kind" where
  "kind_from_wire v =
     (if v = 1 then Ok (SlotKey EcP256) else if v = 2 then Ok (SlotKey Ed25519) else if v = 3 then Ok (SlotKey Aes128)
      else if v = 4 then Ok (SlotKey Aes256) else if v = 5 then Ok (SlotKey HmacSha256)
      else if v = 0xFF then Ok SlotMonotonic
      else Err (HsmCryptoError (''link-b: unknown slot kind '' @ dec (unat v))))"

datatype provisioning_state = Unprovisioned | Provisioned

fun provisioning_state_to_wire :: "provisioning_state \<Rightarrow> u32" where
  "provisioning_state_to_wire Unprovisioned = 0"
| "provisioning_state_to_wire Provisioned = 1"

definition provisioning_state_from_wire :: "u32 \<Rightarrow> hsm_error + provisioning_state" where
  "provisioning_state_from_wire v =
     (if v = 0 then Ok Unprovisioned else if v = 1 then Ok Provisioned
      else Err (HsmCryptoError (''link-b: unknown provisioning_state '' @ dec (unat v))))"

definition write_optlist :: "string list option \<Rightarrow> bytes \<Rightarrow> bytes" where
  "write_optlist l w =
     (case l of
        None \<Rightarrow> wr_u8 0 w
      | Some items \<Rightarrow>
          foldl (\<lambda>w item. wr_bytes (str_bytes item) w) (wr_u32 (of_nat (length items)) (wr_u8 1 w)) items)"

text \<open>Reads of the client: a decoding error of the payload becomes an error of the HSM.\<close>

definition hsm_read :: "'a read_result \<Rightarrow> hsm_error + 'a \<times> bytes" where
  "hsm_read r = map_sum proto_err id r"

fun read_items :: "nat \<Rightarrow> bytes \<Rightarrow> hsm_error + string list \<times> bytes" where
  "read_items 0 r = Ok ([], r)"
| "read_items (Suc n) r =
     and_then (hsm_read (rd_bytes r)) (\<lambda>(b, r1).
     and_then (read_items n r1) (\<lambda>(items, r2). Ok (from_utf8_lossy b # items, r2)))"

definition read_optlist :: "bytes \<Rightarrow> hsm_error + string list option \<times> bytes" where
  "read_optlist r =
     and_then (hsm_read (rd_u8 r)) (\<lambda>(present, r1).
       if present = 0 then Ok (None, r1)
       else and_then (hsm_read (rd_u32 r1)) (\<lambda>(count, r2).
            and_then (read_items (unat count) r2) (\<lambda>(items, r3). Ok (Some items, r3))))"

definition write_slot_info :: "slot_info \<Rightarrow> bytes \<Rightarrow> bytes" where
  "write_slot_info si w =
     write_optlist (si_allowed_ops si) (write_optlist (si_allowed_guests si)
       (wr_bytes (str_bytes (si_key_id si)) (wr_u8 (of_bool (si_has_certificate si))
         (wr_u32 (kind_to_wire (si_kind si)) (wr_u32 (si_handle si) w)))))"

definition read_slot_info :: "bytes \<Rightarrow> hsm_error + slot_info \<times> bytes" where
  "read_slot_info r =
     and_then (hsm_read (rd_u32 r)) (\<lambda>(handle, r1).
     and_then (hsm_read (rd_u32 r1)) (\<lambda>(k, r2).
     and_then (kind_from_wire k) (\<lambda>kind.
     and_then (hsm_read (rd_u8 r2)) (\<lambda>(has_cert, r3).
     and_then (hsm_read (rd_bytes r3)) (\<lambda>(key_id, r4).
     and_then (read_optlist r4) (\<lambda>(guests, r5).
     and_then (read_optlist r5) (\<lambda>(ops, r6).
       Ok (\<lparr>si_handle = handle, si_key_id = from_utf8_lossy key_id, si_kind = kind, si_has_certificate = (has_cert \<noteq> 0),
            si_allowed_guests = guests, si_allowed_ops = ops\<rparr>, r6))))))))"

definition encode_slot_info :: "slot_info \<Rightarrow> bytes" where
  "encode_slot_info si = write_slot_info si []"

definition decode_slot_info :: "bytes \<Rightarrow> hsm_error + slot_info" where
  "decode_slot_info buf = map_sum id fst (read_slot_info buf)"

fun read_slots :: "nat \<Rightarrow> bytes \<Rightarrow> hsm_error + slot_info list" where
  "read_slots 0 r = Ok []"
| "read_slots (Suc n) r =
     and_then (read_slot_info r) (\<lambda>(si, r1). and_then (read_slots n r1) (\<lambda>slots. Ok (si # slots)))"

section \<open>Providers\<close>

datatype key_role =
    KeyAuthority | SoftwareAuthority | DeviceDecryption | IamSigning | IvdSigning | JwtSigning
  | OperationalIssuer | FactoryResetIssuer | TlsIdentity | RoleStorage

fun role_handle :: "key_role \<Rightarrow> u32" where
  "role_handle KeyAuthority = HANDLE_KEY_AUTHORITY"
| "role_handle SoftwareAuthority = HANDLE_SW_AUTHORITY"
| "role_handle DeviceDecryption = HANDLE_DEVICE_DECRYPT"
| "role_handle IamSigning = HANDLE_IAM_SIGNING"
| "role_handle IvdSigning = HANDLE_IVD_SIGNING"
| "role_handle JwtSigning = HANDLE_JWT_SIGNING"
| "role_handle OperationalIssuer = HANDLE_OPERATIONAL_ISSUER"
| "role_handle FactoryResetIssuer = HANDLE_FACTORY_RESET_ISSUER"
| "role_handle TlsIdentity = HANDLE_TLS_IDENTITY"
| "role_handle RoleStorage = HANDLE_STORAGE"

text \<open>The operations of \<^verbatim>\<open>HsmCryptoProvider\<close> the request dispatch does not call, and those of \<^verbatim>\<open>HsmProvider\<close>.\<close>

record 'c hsm_crypto = "'c crypto_ops" +
  cr_sign_raw_p256 :: "'c \<Rightarrow> u32 \<Rightarrow> bytes \<Rightarrow> 'c \<times> (hsm_error + bytes)"
  cr_derive :: "'c \<Rightarrow> u32 \<Rightarrow> bytes \<Rightarrow> nat \<Rightarrow> 'c \<times> (hsm_error + bytes)"
  cr_get_trust_anchor_der :: "'c \<Rightarrow> string \<Rightarrow> 'c \<times> (hsm_error + bytes)"
  cr_get_slot_info :: "'c \<Rightarrow> u32 \<Rightarrow> 'c \<times> (hsm_error + slot_info)"
  cr_generate_csr :: "'c \<Rightarrow> u32 \<Rightarrow> string \<Rightarrow> 'c \<times> (hsm_error + bytes)"
  cr_unwrap_cek_a128kw :: "'c \<Rightarrow> u32 \<Rightarrow> bytes \<Rightarrow> 'c \<times> (hsm_error + bytes)"
  cr_unwrap_cek_ecdh_es :: "'c \<Rightarrow> u32 \<Rightarrow> bytes \<Rightarrow> bytes \<Rightarrow> bytes \<Rightarrow> 'c \<times> (hsm_error + bytes)"

record 'c hsm_backend = "'c hsm_crypto" +
  hp_is_provisioned :: "'c \<Rightarrow> 'c \<times> (hsm_error + bool)"
  hp_provision :: "'c \<Rightarrow> bytes \<Rightarrow> 'c \<times> (hsm_error + unit)"
  hp_list_slots :: "'c \<Rightarrow> 'c \<times> (hsm_error + slot_info list)"
  hp_get_public_key :: "'c \<Rightarrow> key_role \<Rightarrow> 'c \<times> (hsm_error + bytes)"
  hp_provisioning_state :: "'c \<Rightarrow> 'c \<times> (hsm_error + provisioning_state)"
  hp_arm_enrollment :: "'c \<Rightarrow> string \<Rightarrow> u64 option \<Rightarrow> 'c \<times> (hsm_error + unit)"
  hp_is_enrolled :: "'c \<Rightarrow> string \<Rightarrow> 'c \<times> (hsm_error + bool)"
  hp_clear_enrolled :: "'c \<Rightarrow> string \<Rightarrow> 'c \<times> (hsm_error + bool)"
  hp_read_monotonic :: "'c \<Rightarrow> u32 \<Rightarrow> 'c \<times> (hsm_error + u64)"
  hp_raise_monotonic :: "'c \<Rightarrow> u32 \<Rightarrow> u64 \<Rightarrow> 'c \<times> (hsm_error + u64)"

section \<open>Service\<close>

text \<open>
  The outcome of one request: a payload that does not decode (left), or the backend's answer with its
  value encoded. \<open>decoded\<close> propagates a decoding error, \<open>answered\<close> encodes the value.
\<close>

type_synonym outcome = "proto_error + (hsm_error + bytes)"

definition decoded :: "'c \<Rightarrow> 'a read_result \<Rightarrow> ('a \<Rightarrow> bytes \<Rightarrow> 'c \<times> outcome) \<Rightarrow> 'c \<times> outcome" where
  "decoded c r k = (case r of Err e \<Rightarrow> (c, Err e) | Ok (v, r') \<Rightarrow> k v r')"

definition answered :: "('a \<Rightarrow> bytes) \<Rightarrow> 'c \<times> (hsm_error + 'a) \<Rightarrow> 'c \<times> outcome" where
  "answered enc x = map_prod id (\<lambda>r. Ok (map_sum id enc r)) x"

definition bool_result :: "bool \<Rightarrow> bytes" where "bool_result b = [of_bool b]"

definition op_text :: "u32 \<Rightarrow> string" where
  "op_text p = (let h = hex (unat p) in ''link-b op 0x'' @ replicate (4 - length h) (CHR ''0'') @ h)"

definition run_crypto_op :: "('c, 'z) hsm_crypto_scheme \<Rightarrow> u32 \<Rightarrow> bytes \<Rightarrow> 'c \<Rightarrow> 'c \<times> outcome" where
  "run_crypto_op be p payload c =
     (if p = OP_SIGN then decoded c (rd_u32 payload) (\<lambda>h r. answered id (cr_sign be c h r))
      else if p = OP_SIGN_RAW_P256 then decoded c (rd_u32 payload) (\<lambda>h r. answered id (cr_sign_raw_p256 be c h r))
      else if p = OP_VERIFY then
        decoded c (rd_u32 payload) (\<lambda>h r1. decoded c (rd_bytes r1) (\<lambda>data r2. answered bool_result (cr_verify be c h data r2)))
      else if p = OP_ENCRYPT then decoded c (rd_u32 payload) (\<lambda>h r. answered id (cr_encrypt be c h r))
      else if p = OP_DECRYPT then decoded c (rd_u32 payload) (\<lambda>h r. answered id (cr_decrypt be c h r))
      else if p = OP_MAC_GENERATE then decoded c (rd_u32 payload) (\<lambda>h r. answered id (cr_mac_generate be c h r))
      else if p = OP_MAC_VERIFY then
        decoded c (rd_u32 payload) (\<lambda>h r1. decoded c (rd_bytes r1) (\<lambda>data r2. answered bool_result (cr_mac_verify be c h data r2)))
      else if p = OP_DERIVE then
        decoded c (rd_u32 payload) (\<lambda>h r1. decoded c (rd_u32 r1) (\<lambda>n r2. answered id (cr_derive be c h r2 (unat n))))
      else if p = OP_RANDOM then decoded c (rd_u32 payload) (\<lambda>n r. answered id (cr_random be c (unat n)))
      else if p = OP_GET_CERTIFICATE_DER then decoded c (rd_u32 payload) (\<lambda>h r. answered id (cr_get_certificate_der be c h))
      else if p = OP_GET_PUBLIC_KEY_DER then decoded c (rd_u32 payload) (\<lambda>h r. answered id (cr_get_public_key_der be c h))
      else if p = OP_GET_TRUST_ANCHOR_DER then answered id (cr_get_trust_anchor_der be c (from_utf8_lossy payload))
      else if p = OP_GET_SLOT_INFO then decoded c (rd_u32 payload) (\<lambda>h r. answered encode_slot_info (cr_get_slot_info be c h))
      else if p = OP_GENERATE_KEY then
        decoded c (rd_u32 payload) (\<lambda>h r1. decoded c (rd_u32 r1) (\<lambda>alg r2. answered id (cr_generate_key be c h alg)))
      else if p = OP_GENERATE_CSR then
        decoded c (rd_u32 payload) (\<lambda>h r. answered id (cr_generate_csr be c h (from_utf8_lossy r)))
      else if p = OP_UNWRAP_CEK_A128KW then
        decoded c (rd_u32 payload) (\<lambda>h r. answered id (cr_unwrap_cek_a128kw be c h r))
      else if p = OP_UNWRAP_CEK_ECDH_ES then
        decoded c (rd_u32 payload) (\<lambda>h r1. decoded c (rd_bytes r1) (\<lambda>ephem_pub r2. decoded c (rd_bytes r2) (\<lambda>wrapped r3.
          answered id (cr_unwrap_cek_ecdh_es be c h ephem_pub wrapped r3))))
      else (c, Ok (Err (NotSupported (op_text p)))))"

definition encode_slots :: "slot_info list \<Rightarrow> bytes" where
  "encode_slots slots = foldl (\<lambda>w si. write_slot_info si w) (wr_u32 (of_nat (length slots)) []) slots"

definition run_provisioning_op :: "'c hsm_backend \<Rightarrow> u32 \<Rightarrow> bytes \<Rightarrow> 'c \<Rightarrow> 'c \<times> outcome" where
  "run_provisioning_op be p payload c =
     (if p = OP_IS_PROVISIONED then answered bool_result (hp_is_provisioned be c)
      else if p = OP_PROVISION then answered (\<lambda>_. []) (hp_provision be c payload)
      else if p = OP_LIST_SLOTS then answered encode_slots (hp_list_slots be c)
      else if p = OP_PROVISIONING_STATE then
        answered (\<lambda>s. wr_u32 (provisioning_state_to_wire s) []) (hp_provisioning_state be c)
      else if p = OP_ARM_ENROLLMENT then
        decoded c (rd_u8 payload) (\<lambda>present r1. decoded c (rd_u64 r1) (\<lambda>ttl r2.
          answered (\<lambda>_. []) (hp_arm_enrollment be c (from_utf8_lossy r2) (if present \<noteq> 0 then Some ttl else None))))
      else if p = OP_IS_ENROLLED then answered bool_result (hp_is_enrolled be c (from_utf8_lossy payload))
      else if p = OP_CLEAR_ENROLLED then answered bool_result (hp_clear_enrolled be c (from_utf8_lossy payload))
      else if p = OP_GET_PUBLIC_KEY then decoded c (rd_u32 payload) (\<lambda>h r. answered id (cr_get_public_key_der be c h))
      else if p = OP_READ_MONOTONIC then
        decoded c (rd_u32 payload) (\<lambda>h r. answered (\<lambda>v. wr_u64 v []) (hp_read_monotonic be c h))
      else if p = OP_RAISE_MONOTONIC then
        decoded c (rd_u32 payload) (\<lambda>h r1. decoded c (rd_u64 r1) (\<lambda>v r2.
          answered (\<lambda>v. wr_u64 v []) (hp_raise_monotonic be c h v)))
      else (c, Ok (Err (NotSupported (op_text p)))))"

definition respond :: "outcome \<Rightarrow> u32 \<times> bytes" where
  "respond out = (case out of
       Ok (Ok result) \<Rightarrow> (ST_OK, result)
     | Ok (Err e) \<Rightarrow> (status_from_error e, error_message_bytes e)
     | Err proto \<Rightarrow> (ST_PROTOCOL_ERROR, str_bytes proto))"

text \<open>Reading a frame uses up read outcomes, so a service loop ends with its connection.\<close>

lemma read_exact_size:
  "read_exact n acc evs = (evs', Ok bs) \<Longrightarrow> sum_list (map ev_size evs') \<le> sum_list (map ev_size evs)
     \<and> (length acc < n \<longrightarrow> sum_list (map ev_size evs') < sum_list (map ev_size evs))"
proof (induction n acc evs arbitrary: evs' bs rule: read_exact.induct)
  case (1 n acc evs)
  show ?case
  proof (cases "length acc < n")
    case False
    then show ?thesis using "1.prems" by (simp add: read_exact.simps [of n acc evs])
  next
    case True
    obtain evs1 r where c: "read_call (n - length acc) evs = (evs1, r)" by fastforce
    have less: "r \<noteq> Some (Ok []) \<Longrightarrow> sum_list (map ev_size evs1) < sum_list (map ev_size evs)"
      using read_call_size [OF _ c [symmetric]] True by simp
    show ?thesis
    proof (cases r)
      case None
      then show ?thesis
        using "1.IH"(1) [OF True c [symmetric] None] "1.prems" c True less by (fastforce simp: read_exact.simps [of n acc evs])
    next
      case (Some x)
      then obtain got where "r = Some (Ok got)" "got \<noteq> []"
        using "1.prems" c True by (cases x) (auto simp: read_exact.simps [of n acc evs] split: if_splits)
      then show ?thesis
        using "1.IH"(2) [OF True c [symmetric], of "Ok got" got] "1.prems" c True less
        by (fastforce simp: read_exact.simps [of n acc evs])
    qed
  qed
qed

lemma read_frame_size:
  "(evs', Ok x) = read_frame evs \<Longrightarrow> sum_list (map ev_size evs') < sum_list (map ev_size evs)"
  by (auto simp: read_frame_def HEADER_SIZE_def split: prod.splits sum.splits dest!: read_exact_size)

text \<open>
  A service loop. A step runs one request, or is \<open>None\<close> when the mutex of the backend is poisoned; \<open>wok\<close>
  is the number of responses that can still be written before the peer is gone. The result is the state of the
  backend and the frames that were sent.
\<close>

function serve_loop ::
    "(u32 \<Rightarrow> bytes \<Rightarrow> 'c \<Rightarrow> ('c \<times> outcome) option) \<Rightarrow> nat \<Rightarrow> read_event list \<Rightarrow> 'c \<Rightarrow> 'c \<times> bytes list" where
  "serve_loop step wok evs c =
     (case read_frame evs of
        (evs', Err e) \<Rightarrow> (c, [])
      | (evs', Ok (p, flags, payload)) \<Rightarrow>
          (case step p payload c of
             None \<Rightarrow>
               (c, if wok = 0 then [] else [write_frame ST_PROCESS_ERROR FLAGS_NONE (str_bytes ''link-b backend mutex poisoned'')])
           | Some (c', out) \<Rightarrow>
               (case respond out of (status, result) \<Rightarrow>
                  if wok = 0 then (c', [])
                  else (case serve_loop step (wok - 1) evs' c' of
                          (c'', sent) \<Rightarrow> (c'', write_frame status FLAGS_NONE result # sent)))))"
  by pat_completeness auto
termination by (relation "measure (\<lambda>(step, wok, evs, c). sum_list (map ev_size evs))") (auto dest: read_frame_size)

declare serve_loop.simps [simp del]

definition serve_crypto :: "('c, 'z) hsm_crypto_scheme \<Rightarrow> nat \<Rightarrow> read_event list \<Rightarrow> 'c \<Rightarrow> 'c \<times> bytes list" where
  "serve_crypto be = serve_loop (\<lambda>p payload c. Some (run_crypto_op be p payload c))"

definition serve :: "'c hsm_backend \<Rightarrow> bool \<Rightarrow> nat \<Rightarrow> read_event list \<Rightarrow> 'c \<Rightarrow> 'c \<times> bytes list" where
  "serve be poisoned = serve_loop (\<lambda>p payload c.
     if poisoned then None
     else Some (if p < OP_IS_PROVISIONED then run_crypto_op be p payload c else run_provisioning_op be p payload c))"

section \<open>Client\<close>

type_synonym 's peer = "'s \<Rightarrow> bytes \<Rightarrow> 's \<times> (io_error + read_event list)"

record 's link_client =
  lk_poisoned :: bool
  lk_inbox :: "read_event list"
  lk_peer :: 's

definition io_text :: "io_error \<Rightarrow> string" where
  "io_text e = (case e of
       BadMagic \<Rightarrow> ''bad magic'' | UnsupportedVersion v \<Rightarrow> ''unsupported version: '' @ dec (unat v) | PayloadTooLarge \<Rightarrow> ''payload too large''
     | UnexpectedEof \<Rightarrow> ''failed to fill whole buffer'' | OtherIo m \<Rightarrow> m)"

definition link_call :: "'s peer \<Rightarrow> 's link_client \<Rightarrow> u32 \<Rightarrow> bytes \<Rightarrow> 's link_client \<times> (hsm_error + bytes)" where
  "link_call peer l p payload =
     (if lk_poisoned l then (l, Err (ProcessError ''link-b stream mutex poisoned''))
      else (case peer (lk_peer l) (write_frame p FLAGS_NONE payload) of
              (s, Err e) \<Rightarrow> (l\<lparr>lk_peer := s\<rparr>, Err (ProcessError (''link-b write: '' @ io_text e)))
            | (s, Ok evs) \<Rightarrow>
                (case read_frame (lk_inbox l @ evs) of
                   (inbox, Err e) \<Rightarrow>
                     (l\<lparr>lk_peer := s, lk_inbox := inbox\<rparr>, Err (ProcessError (''link-b read: '' @ io_text e)))
                 | (inbox, Ok (status, flags, result)) \<Rightarrow>
                     (l\<lparr>lk_peer := s, lk_inbox := inbox\<rparr>,
                      if status = ST_OK then Ok result else Err (status_to_error status result)))))"

text \<open>Continue with the result of a call.\<close>

definition on_result :: "('s \<times> (hsm_error + bytes)) \<Rightarrow> (bytes \<Rightarrow> hsm_error + 'a) \<Rightarrow> 's \<times> (hsm_error + 'a)" where
  "on_result x f = (case x of (l, r) \<Rightarrow> (l, and_then r f))"

definition first_is_one :: "bytes \<Rightarrow> hsm_error + bool" where
  "first_is_one result = Ok (case result of [] \<Rightarrow> False | b # _ \<Rightarrow> b = 1)"

definition lb_is_provisioned :: "'s peer \<Rightarrow> 's link_client \<Rightarrow> 's link_client \<times> (hsm_error + bool)" where
  "lb_is_provisioned peer l = on_result (link_call peer l OP_IS_PROVISIONED []) first_is_one"

definition lb_provision :: "'s peer \<Rightarrow> 's link_client \<Rightarrow> bytes \<Rightarrow> 's link_client \<times> (hsm_error + unit)" where
  "lb_provision peer l suit_envelope = on_result (link_call peer l OP_PROVISION (wr_tail suit_envelope [])) (\<lambda>_. Ok ())"

definition lb_list_slots :: "'s peer \<Rightarrow> 's link_client \<Rightarrow> 's link_client \<times> (hsm_error + slot_info list)" where
  "lb_list_slots peer l =
     on_result (link_call peer l OP_LIST_SLOTS []) (\<lambda>result.
       and_then (hsm_read (rd_u32 result)) (\<lambda>(count, r). read_slots (unat count) r))"

definition lb_provisioning_state :: "'s peer \<Rightarrow> 's link_client \<Rightarrow> 's link_client \<times> (hsm_error + provisioning_state)" where
  "lb_provisioning_state peer l =
     on_result (link_call peer l OP_PROVISIONING_STATE []) (\<lambda>result.
       and_then (hsm_read (rd_u32 result)) (\<lambda>(state, r). provisioning_state_from_wire state))"

definition lb_arm_enrollment ::
    "'s peer \<Rightarrow> 's link_client \<Rightarrow> string \<Rightarrow> u64 option \<Rightarrow> 's link_client \<times> (hsm_error + unit)" where
  "lb_arm_enrollment peer l vm_id ttl_secs =
     (let (present, ttl) = (case ttl_secs of Some t \<Rightarrow> (1, t) | None \<Rightarrow> (0, 0))
      in on_result (link_call peer l OP_ARM_ENROLLMENT (wr_tail (str_bytes vm_id) (wr_u64 ttl (wr_u8 present [])))) (\<lambda>_. Ok ()))"

definition lb_is_enrolled :: "'s peer \<Rightarrow> 's link_client \<Rightarrow> string \<Rightarrow> 's link_client \<times> (hsm_error + bool)" where
  "lb_is_enrolled peer l vm_id = on_result (link_call peer l OP_IS_ENROLLED (wr_tail (str_bytes vm_id) [])) first_is_one"

definition lb_clear_enrolled :: "'s peer \<Rightarrow> 's link_client \<Rightarrow> string \<Rightarrow> 's link_client \<times> (hsm_error + bool)" where
  "lb_clear_enrolled peer l vm_id = on_result (link_call peer l OP_CLEAR_ENROLLED (wr_tail (str_bytes vm_id) [])) first_is_one"

definition lb_read_monotonic :: "'s peer \<Rightarrow> 's link_client \<Rightarrow> u32 \<Rightarrow> 's link_client \<times> (hsm_error + u64)" where
  "lb_read_monotonic peer l handle =
     on_result (link_call peer l OP_READ_MONOTONIC (wr_u32 handle [])) (\<lambda>result. map_sum id fst (hsm_read (rd_u64 result)))"

definition lb_raise_monotonic :: "'s peer \<Rightarrow> 's link_client \<Rightarrow> u32 \<Rightarrow> u64 \<Rightarrow> 's link_client \<times> (hsm_error + u64)" where
  "lb_raise_monotonic peer l handle new_value =
     on_result (link_call peer l OP_RAISE_MONOTONIC (wr_u64 new_value (wr_u32 handle [])))
       (\<lambda>result. map_sum id fst (hsm_read (rd_u64 result)))"

definition lb_get_public_key ::
    "(bytes \<Rightarrow> hsm_error + bytes) \<Rightarrow> 's peer \<Rightarrow> 's link_client \<Rightarrow> key_role \<Rightarrow> 's link_client \<times> (hsm_error + bytes)" where
  "lb_get_public_key cose peer l role =
     on_result (link_call peer l OP_GET_PUBLIC_KEY (wr_u32 (role_handle role) [])) cose"

definition link_b_client :: "'s peer \<Rightarrow> 's link_client hsm_crypto" where
  "link_b_client peer =
     \<lparr>cr_random = (\<lambda>l n. link_call peer l OP_RANDOM (wr_u32 (of_nat n) [])),
      cr_generate_key = (\<lambda>l h alg. link_call peer l OP_GENERATE_KEY (wr_u32 alg (wr_u32 h []))),
      cr_sign = (\<lambda>l h data. link_call peer l OP_SIGN (wr_tail data (wr_u32 h []))),
      cr_encrypt = (\<lambda>l h data. link_call peer l OP_ENCRYPT (wr_tail data (wr_u32 h []))),
      cr_decrypt = (\<lambda>l h data. link_call peer l OP_DECRYPT (wr_tail data (wr_u32 h []))),
      cr_mac_generate = (\<lambda>l h data. link_call peer l OP_MAC_GENERATE (wr_tail data (wr_u32 h []))),
      cr_mac_verify = (\<lambda>l h data mac.
        on_result (link_call peer l OP_MAC_VERIFY (wr_tail mac (wr_bytes data (wr_u32 h [])))) first_is_one),
      cr_verify = (\<lambda>l h data sig.
        on_result (link_call peer l OP_VERIFY (wr_tail sig (wr_bytes data (wr_u32 h [])))) first_is_one),
      cr_get_public_key_der = (\<lambda>l h. link_call peer l OP_GET_PUBLIC_KEY_DER (wr_u32 h [])),
      cr_get_certificate_der = (\<lambda>l h. link_call peer l OP_GET_CERTIFICATE_DER (wr_u32 h [])),
      cr_sign_raw_p256 = (\<lambda>l h data. link_call peer l OP_SIGN_RAW_P256 (wr_tail data (wr_u32 h []))),
      cr_derive = (\<lambda>l h context n. link_call peer l OP_DERIVE (wr_tail context (wr_u32 (of_nat n) (wr_u32 h [])))),
      cr_get_trust_anchor_der = (\<lambda>l anchor. link_call peer l OP_GET_TRUST_ANCHOR_DER (wr_tail (str_bytes anchor) [])),
      cr_get_slot_info = (\<lambda>l h. on_result (link_call peer l OP_GET_SLOT_INFO (wr_u32 h [])) decode_slot_info),
      cr_generate_csr = (\<lambda>l h cn. link_call peer l OP_GENERATE_CSR (wr_tail (str_bytes cn) (wr_u32 h []))),
      cr_unwrap_cek_a128kw = (\<lambda>l h wrapped. link_call peer l OP_UNWRAP_CEK_A128KW (wr_tail wrapped (wr_u32 h []))),
      cr_unwrap_cek_ecdh_es = (\<lambda>l h ephem wrapped prot.
        link_call peer l OP_UNWRAP_CEK_ECDH_ES (wr_tail prot (wr_bytes wrapped (wr_bytes ephem (wr_u32 h [])))))\<rparr>"

definition link_b_provider :: "(bytes \<Rightarrow> hsm_error + bytes) \<Rightarrow> 's peer \<Rightarrow> 's link_client hsm_backend" where
  "link_b_provider cose peer =
     hsm_crypto.extend (link_b_client peer)
       (hsm_backend.fields (lb_is_provisioned peer) (lb_provision peer) (lb_list_slots peer) (lb_get_public_key cose peer)
         (lb_provisioning_state peer) (lb_arm_enrollment peer) (lb_is_enrolled peer) (lb_clear_enrolled peer)
         (lb_read_monotonic peer) (lb_raise_monotonic peer))"

end
