(* ===== verification/LinkBProps.thy ===== *)
theory LinkBProps
  imports LinkB VhsmProps
begin

text \<open>
  Link B is transparent: a provider reached over the wire behaves as the provider that serves it, operation by
  operation and over any sequence of operations, whatever the fragmentation of the stream; and the request
  dispatch of the daemon answers over link B as it does over the backend in its own process.
\<close>

section \<open>Text and fields survive the wire\<close>

lemma utf8_valid_long:
  assumes "utf8_valid (a # b # c # zs)" "\<not> a < 0x80" "\<not> (0xC2 \<le> a \<and> a \<le> 0xDF)"
  shows "utf8_second a b" "utf8_cont c" "\<not> a < 0xC2" "\<not> 0xF4 < a" "\<not> a \<le> 0xDF"
    and "a \<le> 0xEF \<Longrightarrow> utf8_valid zs"
    and "\<not> a \<le> 0xEF \<Longrightarrow> \<exists>d ws. zs = d # ws \<and> utf8_cont d \<and> utf8_valid ws"
  using assms
  by (auto simp: utf8_second_def utf8_cont_def word_le_nat_alt word_less_nat_alt unat_eq_nat_uint [symmetric] split: if_splits list.splits)

lemma utf8_valid_two:
  assumes "0xC2 \<le> a" "a \<le> 0xDF"
  shows "\<not> a < 0x80" "\<not> a < 0xC2" "\<not> 0xF4 < a" "utf8_second a b = utf8_cont b"
proof -
  have "unat a \<noteq> 0xE0" "unat a \<noteq> 0xED" "unat a \<noteq> 0xF0" "unat a \<noteq> 0xF4"
    using assms by (auto simp: word_le_nat_alt)
  then have "a \<noteq> 0xE0" "a \<noteq> 0xED" "a \<noteq> 0xF0" "a \<noteq> 0xF4" by auto
  then show "utf8_second a b = utf8_cont b" by (simp add: utf8_second_def)
qed (use assms in \<open>auto simp: word_le_nat_alt word_less_nat_alt\<close>)

lemma utf8_valid_shape:
  assumes "utf8_valid bs"
  shows "bs = [] \<or> (\<exists>a xs. bs = a # xs \<and> a < 0x80)
    \<or> (\<exists>a b ys. bs = a # b # ys \<and> \<not> a < 0x80 \<and> 0xC2 \<le> a \<and> a \<le> 0xDF)
    \<or> (\<exists>a b c zs. bs = a # b # c # zs \<and> \<not> a < 0x80 \<and> \<not> (0xC2 \<le> a \<and> a \<le> 0xDF))"
proof (cases bs)
  case (Cons a xs)
  show ?thesis
  proof (cases "a < 0x80")
    case False
    then obtain b ys where xs: "xs = b # ys" using assms Cons by (cases xs) simp_all
    show ?thesis
    proof (cases "0xC2 \<le> a \<and> a \<le> 0xDF")
      case long: False
      then obtain c zs where "ys = c # zs" using assms Cons xs False by (cases ys) (auto split: if_splits)
      then show ?thesis using Cons xs False long by simp
    qed (use Cons xs False in simp)
  qed (use Cons in simp)
qed simp

lemma utf8_lossy_valid: "utf8_valid bs \<Longrightarrow> utf8_lossy bs = bs"
proof (induction bs rule: length_induct)
  case (1 bs)
  then have IH: "\<And>ys. length ys < length bs \<Longrightarrow> utf8_valid ys \<Longrightarrow> utf8_lossy ys = ys" by blast
  consider "bs = []" | (low) a xs where "bs = a # xs" "a < 0x80"
    | (two) a b ys where "bs = a # b # ys" "\<not> a < 0x80" "0xC2 \<le> a \<and> a \<le> 0xDF"
    | (long) a b c zs where "bs = a # b # c # zs" "\<not> a < 0x80" "\<not> (0xC2 \<le> a \<and> a \<le> 0xDF)"
    using utf8_valid_shape [OF "1.prems"] by blast
  then show ?case
  proof cases
    case low
    then show ?thesis using IH [of xs] "1.prems" by simp
  next
    case two
    then show ?thesis using IH [of ys] "1.prems" utf8_valid_two(1-3) [of a] utf8_valid_two(4) [of a b] by simp
  next
    case long
    note facts = utf8_valid_long [OF "1.prems" [unfolded long(1)] long(2,3)]
    show ?thesis
    proof (cases "a \<le> 0xEF")
      case True
      then show ?thesis using facts long IH [of zs] by simp
    next
      case False
      then obtain d ws where "zs = d # ws" "utf8_cont d" "utf8_valid ws" using facts(7) by blast
      then show ?thesis using facts long False IH [of ws] by simp
    qed
  qed simp
qed

lemma from_utf8_lossy_str [simp]: "utf8_valid (str_bytes s) \<Longrightarrow> from_utf8_lossy (str_bytes s) = s"
  using from_utf8_str_bytes [of s] by (simp add: from_utf8_lossy_def utf8_lossy_valid from_utf8_def)

abbreviation u32_fits :: "nat \<Rightarrow> bool" where "u32_fits n \<equiv> n < 2 ^ 32"

lemma unat_of_nat_u32: "u32_fits n \<Longrightarrow> unat (of_nat n :: u32) = n"
  by (simp add: unat_of_nat)

lemma rd_fields [simp]:
  "rd_u8 (v # r) = Ok (v, r)" "rd_u32 (le_bytes w @ r) = Ok (w, r)" "rd_u64 (le_bytes d @ r) = Ok (d, r)"
  "u32_fits (length b) \<Longrightarrow> rd_bytes (le_bytes (of_nat (length b) :: u32) @ b @ r) = Ok (b, r)"
  by (simp_all add: rd_u8_def rd_u32_def rd_u64_def rd_bytes_def rd_take_def unat_of_nat_u32)

lemma rd_fields_end [simp]: "rd_u32 (le_bytes w) = Ok (w, [])" "rd_u64 (le_bytes d) = Ok (d, [])"
  using rd_fields(2) [of w "[]"] rd_fields(3) [of d "[]"] by simp_all

lemmas wr_defs = wr_u8_def wr_u32_def wr_u64_def wr_bytes_def wr_tail_def

section \<open>Slots survive the wire\<close>

definition text_ok :: "string \<Rightarrow> bool" where
  "text_ok s \<longleftrightarrow> utf8_valid (str_bytes s) \<and> u32_fits (length s)"

definition texts_ok :: "string list option \<Rightarrow> bool" where
  "texts_ok l = (case l of None \<Rightarrow> True | Some items \<Rightarrow> u32_fits (length items) \<and> list_all text_ok items)"

definition slot_ok :: "slot_info \<Rightarrow> bool" where
  "slot_ok si \<longleftrightarrow> text_ok (si_key_id si) \<and> texts_ok (si_allowed_guests si) \<and> texts_ok (si_allowed_ops si)"

definition text_field :: "string \<Rightarrow> bytes" where
  "text_field s = le_bytes (of_nat (length s) :: u32) @ str_bytes s"

lemma read_text_field: "text_ok s \<Longrightarrow> rd_bytes (text_field s @ r) = Ok (str_bytes s, r)"
  using rd_fields(4) [of "str_bytes s" r] by (simp add: text_field_def text_ok_def)

lemma foldl_append: "foldl (\<lambda>w x. w @ f x) w xs = w @ concat (map f xs)"
  by (induction xs arbitrary: w) simp_all

lemma write_optlist_eq:
  "write_optlist l w = w @ (case l of None \<Rightarrow> [0]
     | Some items \<Rightarrow> 1 # le_bytes (of_nat (length items) :: u32) @ concat (map text_field items))"
  by (simp add: write_optlist_def wr_defs foldl_append text_field_def [abs_def] split: option.splits)

lemma read_items_written:
  "list_all text_ok items \<Longrightarrow> read_items (length items) (concat (map text_field items) @ r) = Ok (items, r)"
  by (induction items) (simp_all add: hsm_read_def read_text_field text_ok_def)

lemma read_optlist_written: "texts_ok l \<Longrightarrow> read_optlist (write_optlist l [] @ r) = Ok (l, r)"
  by (auto simp: write_optlist_eq read_optlist_def texts_ok_def hsm_read_def unat_of_nat_u32 read_items_written
      split: option.splits)

lemma write_slot_info_eq:
  "write_slot_info si w = w @ le_bytes (si_handle si) @ le_bytes (kind_to_wire (si_kind si)) @ [of_bool (si_has_certificate si)]
     @ text_field (si_key_id si) @ write_optlist (si_allowed_guests si) [] @ write_optlist (si_allowed_ops si) []"
  by (simp add: write_slot_info_def write_optlist_eq wr_defs text_field_def)

lemma kind_wire [simp]: "kind_from_wire (kind_to_wire k) = Ok k"
  by (cases k rule: kind_to_wire.cases) (simp_all add: kind_from_wire_def)

lemma read_slot_info_written: "slot_ok si \<Longrightarrow> read_slot_info (write_slot_info si [] @ r) = Ok (si, r)"
  by (simp add: read_slot_info_def write_slot_info_eq slot_ok_def hsm_read_def read_text_field read_optlist_written text_ok_def)

lemma decode_encode_slot_info: "slot_ok si \<Longrightarrow> decode_slot_info (encode_slot_info si) = Ok si"
  using read_slot_info_written [of si "[]"] by (simp add: decode_slot_info_def encode_slot_info_def)

lemma encode_slots_eq:
  "encode_slots slots = le_bytes (of_nat (length slots) :: u32) @ concat (map (\<lambda>si. write_slot_info si []) slots)"
  using foldl_append [of "\<lambda>si. write_slot_info si []"] by (simp add: encode_slots_def wr_defs write_slot_info_eq)

lemma read_slots_written:
  "list_all slot_ok slots \<Longrightarrow> read_slots (length slots) (concat (map (\<lambda>si. write_slot_info si []) slots)) = Ok slots"
  by (induction slots) (simp_all add: read_slot_info_written)

section \<open>Frames and calls\<close>

lemma frame_fields:
  "length (le_bytes a @ le_bytes f @ le_bytes n :: bytes) = 12" "get_u32_le (le_bytes a @ le_bytes f @ le_bytes n) 0 = a"
  "get_u32_le (le_bytes a @ le_bytes f @ le_bytes n) 4 = f" "get_u32_le (le_bytes a @ le_bytes f @ le_bytes n) 8 = n"
  for a f n :: u32
  by (simp_all add: get_word_defs get_bytes_def)

lemma read_frame_sends:
  assumes s: "sends evs = Some (write_frame a f p @ rest)" and len: "u32_fits (length p)"
  shows "\<exists>evs'. read_frame evs = (evs', Ok (a, f, p)) \<and> sends evs' = Some rest"
proof -
  let ?h = "le_bytes a @ le_bytes f @ le_bytes (of_nat (length p) :: u32)"
  obtain evs1 where 1: "read_exact HEADER_SIZE [] evs = (evs1, Ok ?h)" "sends evs1 = Some (p @ rest)"
    using read_exact_sends(1) [OF s, of "[]" HEADER_SIZE] by (auto simp: write_frame_def HEADER_SIZE_def)
  obtain evs2 where "read_exact (length p) [] evs1 = (evs2, Ok p)" "sends evs2 = Some rest"
    using read_exact_sends(1) [OF 1(2), of "[]" "length p"] by auto
  then show ?thesis using 1 frame_fields [of a f "of_nat (length p)"] len by (simp add: read_frame_def unat_of_nat_u32)
qed

lemma read_frame_eof: "sends evs = Some [] \<Longrightarrow> \<exists>evs'. read_frame evs = (evs', Err UnexpectedEof)"
  using read_exact_sends(2) [of evs "[]" "[]" HEADER_SIZE]
  by (cases "read_exact HEADER_SIZE [] evs") (simp add: read_frame_def HEADER_SIZE_def)

lemma sends_append: "sends xs = Some a \<Longrightarrow> sends ys = Some b \<Longrightarrow> sends (xs @ ys) = Some (a @ b)"
  by (induction xs arbitrary: a rule: sends.induct) (auto split: if_splits)

text \<open>One request on a connection, answered.\<close>

definition response_frame :: "outcome \<Rightarrow> bytes" where
  "response_frame out = (case respond out of (status, result) \<Rightarrow> write_frame status FLAGS_NONE result)"

lemma serve_loop_one:
  assumes "sends evs = Some (write_frame p f payload)" "u32_fits (length payload)" "step p payload c = Some (c', out)" "0 < wok"
  shows "serve_loop step wok evs c = (c', [response_frame out])"
proof -
  obtain evs' where r: "read_frame evs = (evs', Ok (p, f, payload))" "sends evs' = Some []"
    using read_frame_sends [of evs p f payload "[]"] assms(1,2) by auto
  obtain evs'' where "read_frame evs' = (evs'', Err UnexpectedEof)" using read_frame_eof [OF r(2)] by blast
  then show ?thesis
    using assms(3,4) r(1) by (simp add: serve_loop.simps [of _ _ evs] serve_loop.simps [of _ _ evs'] response_frame_def
        split: prod.splits)
qed

text \<open>
  The service as the peer of a client: each write is delivered to the service loop and its response is delivered back,
  both in pieces chosen by \<open>d\<close> for every message.
\<close>

definition backend_step :: "'c hsm_backend \<Rightarrow> u32 \<Rightarrow> bytes \<Rightarrow> 'c \<Rightarrow> 'c \<times> outcome" where
  "backend_step be p payload c = (if p < OP_IS_PROVISIONED then run_crypto_op be p payload c else run_provisioning_op be p payload c)"

definition backend_peer :: "'c hsm_backend \<Rightarrow> (nat \<Rightarrow> bytes \<Rightarrow> read_event list) \<Rightarrow> ('c \<times> nat) peer" where
  "backend_peer be d s bs = (case serve be False 1 (d (2 * snd s) bs) (fst s) of
     (c', sent) \<Rightarrow> ((c', Suc (snd s)), Ok (d (2 * snd s + 1) (concat sent))))"

definition delivers :: "(nat \<Rightarrow> bytes \<Rightarrow> read_event list) \<Rightarrow> bool" where
  "delivers d \<longleftrightarrow> (\<forall>n bs. sends (d n bs) = Some bs)"

definition linked :: "('c \<times> nat) link_client \<Rightarrow> 'c \<Rightarrow> bool" where
  "linked l c \<longleftrightarrow> \<not> lk_poisoned l \<and> sends (lk_inbox l) = Some [] \<and> fst (lk_peer l) = c"

lemma serve_one:
  assumes "sends evs = Some (write_frame p f payload)" "u32_fits (length payload)" "backend_step be p payload c = (c', out)"
  shows "serve be False 1 evs c = (c', [response_frame out])"
  unfolding serve_def using assms by (intro serve_loop_one) (simp_all add: backend_step_def)

lemma link_call_served:
  assumes "delivers d" "linked l c" "u32_fits (length payload)" "backend_step be p payload c = (c', out)"
    and "respond out = (status, result)" "u32_fits (length result)"
  shows "\<exists>l'. linked l' c' \<and> link_call (backend_peer be d) l p payload
    = (l', if status = ST_OK then Ok result else Err (status_to_error status result))"
proof -
  let ?n = "snd (lk_peer l)"
  have "serve be False 1 (d (2 * ?n) (write_frame p FLAGS_NONE payload)) c = (c', [write_frame status FLAGS_NONE result])"
    using serve_one [of "d (2 * ?n) (write_frame p FLAGS_NONE payload)" p FLAGS_NONE payload be c c' out] assms
    by (simp add: delivers_def response_frame_def)
  then have peer: "backend_peer be d (lk_peer l) (write_frame p FLAGS_NONE payload)
      = ((c', Suc ?n), Ok (d (2 * ?n + 1) (write_frame status FLAGS_NONE result)))"
    using assms(2) by (simp add: backend_peer_def linked_def)
  have "sends (lk_inbox l @ d (2 * ?n + 1) (write_frame status FLAGS_NONE result)) = Some (write_frame status FLAGS_NONE result)"
    using sends_append [of "lk_inbox l" "[]"] assms(1,2) by (simp add: delivers_def linked_def)
  then obtain inbox where "read_frame (lk_inbox l @ d (2 * ?n + 1) (write_frame status FLAGS_NONE result))
      = (inbox, Ok (status, FLAGS_NONE, result))" "sends inbox = Some []"
    using read_frame_sends [of _ status FLAGS_NONE result "[]"] assms(6) by auto
  with peer show ?thesis
    using assms(2) by (intro exI [of _ "l\<lparr>lk_peer := (c', Suc ?n), lk_inbox := inbox\<rparr>"]) (simp_all add: link_call_def linked_def)
qed

section \<open>Operations\<close>

text \<open>A call of a provider, and what it returns.\<close>

datatype hsm_op =
    HSign u32 bytes | HSignRaw u32 bytes | HVerify u32 bytes bytes | HEncrypt u32 bytes | HDecrypt u32 bytes
  | HMacGenerate u32 bytes | HMacVerify u32 bytes bytes | HDerive u32 bytes nat | HRandom nat | HCertificate u32
  | HPublicKeyDer u32 | HTrustAnchor string | HSlotInfo u32 | HGenerateKey u32 u32 | HGenerateCsr u32 string
  | HUnwrapA128kw u32 bytes | HUnwrapEcdh u32 bytes bytes bytes | HIsProvisioned | HProvision bytes | HListSlots
  | HPublicKey key_role | HProvisioningState | HArm string "u64 option" | HIsEnrolled string | HClearEnrolled string
  | HReadMonotonic u32 | HRaiseMonotonic u32 u64

datatype hsm_val =
    VBytes bytes | VBool bool | VUnit unit | VSlot slot_info | VSlots "slot_info list" | VState provisioning_state | VCounter u64

definition ret :: "('a \<Rightarrow> hsm_val) \<Rightarrow> 'c \<times> (hsm_error + 'a) \<Rightarrow> 'c \<times> (hsm_error + hsm_val)" where
  "ret f = map_prod id (map_sum id f)"

fun exec :: "'c hsm_backend \<Rightarrow> hsm_op \<Rightarrow> 'c \<Rightarrow> 'c \<times> (hsm_error + hsm_val)" where
  "exec be (HSign h x) c = ret VBytes (cr_sign be c h x)"
| "exec be (HSignRaw h x) c = ret VBytes (cr_sign_raw_p256 be c h x)"
| "exec be (HVerify h x y) c = ret VBool (cr_verify be c h x y)"
| "exec be (HEncrypt h x) c = ret VBytes (cr_encrypt be c h x)"
| "exec be (HDecrypt h x) c = ret VBytes (cr_decrypt be c h x)"
| "exec be (HMacGenerate h x) c = ret VBytes (cr_mac_generate be c h x)"
| "exec be (HMacVerify h x y) c = ret VBool (cr_mac_verify be c h x y)"
| "exec be (HDerive h x n) c = ret VBytes (cr_derive be c h x n)"
| "exec be (HRandom n) c = ret VBytes (cr_random be c n)"
| "exec be (HCertificate h) c = ret VBytes (cr_get_certificate_der be c h)"
| "exec be (HPublicKeyDer h) c = ret VBytes (cr_get_public_key_der be c h)"
| "exec be (HTrustAnchor a) c = ret VBytes (cr_get_trust_anchor_der be c a)"
| "exec be (HSlotInfo h) c = ret VSlot (cr_get_slot_info be c h)"
| "exec be (HGenerateKey h alg) c = ret VBytes (cr_generate_key be c h alg)"
| "exec be (HGenerateCsr h cn) c = ret VBytes (cr_generate_csr be c h cn)"
| "exec be (HUnwrapA128kw h x) c = ret VBytes (cr_unwrap_cek_a128kw be c h x)"
| "exec be (HUnwrapEcdh h x y z) c = ret VBytes (cr_unwrap_cek_ecdh_es be c h x y z)"
| "exec be HIsProvisioned c = ret VBool (hp_is_provisioned be c)"
| "exec be (HProvision x) c = ret VUnit (hp_provision be c x)"
| "exec be HListSlots c = ret VSlots (hp_list_slots be c)"
| "exec be (HPublicKey role) c = ret VBytes (hp_get_public_key be c role)"
| "exec be HProvisioningState c = ret VState (hp_provisioning_state be c)"
| "exec be (HArm vm ttl) c = ret VUnit (hp_arm_enrollment be c vm ttl)"
| "exec be (HIsEnrolled vm) c = ret VBool (hp_is_enrolled be c vm)"
| "exec be (HClearEnrolled vm) c = ret VBool (hp_clear_enrolled be c vm)"
| "exec be (HReadMonotonic h) c = ret VCounter (hp_read_monotonic be c h)"
| "exec be (HRaiseMonotonic h v) c = ret VCounter (hp_raise_monotonic be c h v)"

text \<open>What the wire can carry: lengths in 32 bits, text in UTF-8.\<close>

fun op_fits :: "hsm_op \<Rightarrow> bool" where
  "op_fits (HSign h x) = u32_fits (4 + length x)"
| "op_fits (HSignRaw h x) = u32_fits (4 + length x)"
| "op_fits (HVerify h x y) = u32_fits (8 + length x + length y)"
| "op_fits (HEncrypt h x) = u32_fits (4 + length x)"
| "op_fits (HDecrypt h x) = u32_fits (4 + length x)"
| "op_fits (HMacGenerate h x) = u32_fits (4 + length x)"
| "op_fits (HMacVerify h x y) = u32_fits (8 + length x + length y)"
| "op_fits (HDerive h x n) = (u32_fits (8 + length x) \<and> u32_fits n)"
| "op_fits (HRandom n) = u32_fits n"
| "op_fits (HTrustAnchor a) = text_ok a"
| "op_fits (HGenerateCsr h cn) = (text_ok cn \<and> u32_fits (4 + length cn))"
| "op_fits (HUnwrapA128kw h x) = u32_fits (4 + length x)"
| "op_fits (HUnwrapEcdh h x y z) = u32_fits (12 + length x + length y + length z)"
| "op_fits (HProvision x) = u32_fits (length x)"
| "op_fits (HArm vm ttl) = (text_ok vm \<and> u32_fits (9 + length vm))"
| "op_fits (HIsEnrolled vm) = text_ok vm"
| "op_fits (HClearEnrolled vm) = text_ok vm"
| "op_fits _ = True"

fun val_fits :: "hsm_val \<Rightarrow> bool" where
  "val_fits (VBytes bs) = u32_fits (length bs)"
| "val_fits (VSlot si) = (slot_ok si \<and> u32_fits (length (encode_slot_info si)))"
| "val_fits (VSlots slots) = (list_all slot_ok slots \<and> u32_fits (length slots) \<and> u32_fits (length (encode_slots slots)))"
| "val_fits _ = True"

definition error_fits :: "hsm_error \<Rightarrow> bool" where
  "error_fits e \<longleftrightarrow> utf8_valid (error_message_bytes e) \<and> u32_fits (length (error_message_bytes e))"

definition result_fits :: "hsm_error + hsm_val \<Rightarrow> bool" where
  "result_fits r = (case r of Err e \<Rightarrow> error_fits e | Ok v \<Rightarrow> val_fits v)"

text \<open>The error a client sees: a rejected rollback comes back as a crypto error with its text.\<close>

definition wire_error :: "hsm_error \<Rightarrow> hsm_error" where
  "wire_error e = (case e of RollbackRejected current attempted \<Rightarrow> HsmCryptoError (rollback_text current attempted) | _ \<Rightarrow> e)"

lemma status_to_error_simps:
  "status_to_error ST_NOT_PROVISIONED b = NotProvisioned"
  "status_to_error ST_ALREADY_PROVISIONED b = AlreadyProvisioned"
  "status_to_error ST_NOT_RUNNING b = NotRunning"
  "status_to_error ST_ALREADY_RUNNING b = AlreadyRunning"
  "status_to_error ST_KEYSTORE_ERROR b = KeystoreError (from_utf8_lossy b)"
  "status_to_error ST_PROCESS_ERROR b = ProcessError (from_utf8_lossy b)"
  "status_to_error ST_CONFIG_ERROR b = ConfigError (from_utf8_lossy b)"
  "status_to_error ST_ENVELOPE_INVALID b = EnvelopeInvalid (from_utf8_lossy b)"
  "status_to_error ST_PAYLOAD_INVALID b = PayloadInvalid (from_utf8_lossy b)"
  "status_to_error ST_DECRYPTION_FAILED b = DecryptionFailed (from_utf8_lossy b)"
  "status_to_error ST_ROLLBACK_REJECTED b = HsmCryptoError (from_utf8_lossy b)"
  "status_to_error ST_NOT_SUPPORTED b = NotSupported (from_utf8_lossy b)"
  "status_to_error ST_CRYPTO_ERROR b = HsmCryptoError (from_utf8_lossy b)"
  "status_to_error ST_KEY_NOT_FOUND b = KeyNotFound (from_utf8_lossy b)"
  unfolding status_to_error_def link_status_defs Let_def by simp_all

lemma error_wire: "error_fits e \<Longrightarrow> status_to_error (status_from_error e) (error_message_bytes e) = wire_error e"
  by (cases e) (simp_all only: status_from_error.simps error_message_bytes.simps status_to_error_simps wire_error_def
      error_fits_def hsm_error.case from_utf8_lossy_str)

lemma error_status: "status_from_error e \<noteq> ST_OK"
  by (cases e) (simp_all add: link_status_defs)

text \<open>One call: the backend's answer, decoded again by the client.\<close>

lemma call_answered:
  assumes "delivers d" "linked l c" "u32_fits (length payload)"
    and "backend_step be p payload c = answered enc x"
    and "x = (c', r)" "case r of Err e \<Rightarrow> error_fits e | Ok v \<Rightarrow> u32_fits (length (enc v)) \<and> f (enc v) = Ok (g v)"
  shows "\<exists>l'. linked l' c' \<and> on_result (link_call (backend_peer be d) l p payload) f = (l', map_sum wire_error g r)"
proof (cases r)
  case (Inl e)
  then have step: "backend_step be p payload c = (c', Ok (Err e))" using assms(4,5) by (simp add: answered_def)
  have resp: "respond (Ok (Err e)) = (status_from_error e, error_message_bytes e)" by (simp add: respond_def)
  have e: "error_fits e" using Inl assms(6) by simp
  then have "u32_fits (length (error_message_bytes e))" by (simp only: error_fits_def)
  from link_call_served [OF assms(1-3) step resp this] obtain l' where "linked l' c'"
    "link_call (backend_peer be d) l p payload = (l', Err (wire_error e))"
    by (auto simp only: error_status error_wire [OF e] if_False)
  then show ?thesis using Inl by (auto simp: on_result_def)
next
  case (Inr v)
  then have step: "backend_step be p payload c = (c', Ok (Ok (enc v)))" using assms(4,5) by (simp add: answered_def)
  have resp: "respond (Ok (Ok (enc v))) = (ST_OK, enc v)" by (simp add: respond_def)
  have v: "u32_fits (length (enc v))" "f (enc v) = Ok (g v)" using Inr assms(6) by simp_all
  from link_call_served [OF assms(1-3) step resp v(1)] obtain l' where "linked l' c'"
    "link_call (backend_peer be d) l p payload = (l', Ok (enc v))"
    by (auto simp only: if_True simp_thms)
  then show ?thesis using Inr v(2) by (auto simp: on_result_def)
qed

text \<open>A link without decoding of the result.\<close>

lemma on_result_Ok: "on_result x Ok = x"
  by (cases x; cases "snd x") (simp_all add: on_result_def)

lemmas link_ops = link_b_provider_def link_b_client_def hsm_crypto.defs hsm_backend.defs lb_is_provisioned_def lb_provision_def
  lb_list_slots_def lb_provisioning_state_def lb_arm_enrollment_def lb_is_enrolled_def lb_clear_enrolled_def
  lb_read_monotonic_def lb_raise_monotonic_def lb_get_public_key_def

lemma backend_step_crypto:
  "backend_step be OP_SIGN r c = decoded c (rd_u32 r) (\<lambda>h r. answered id (cr_sign be c h r))"
  "backend_step be OP_SIGN_RAW_P256 r c = decoded c (rd_u32 r) (\<lambda>h r. answered id (cr_sign_raw_p256 be c h r))"
  "backend_step be OP_VERIFY r c = decoded c (rd_u32 r) (\<lambda>h r. decoded c (rd_bytes r) (\<lambda>x r. answered bool_result (cr_verify be c h x r)))"
  "backend_step be OP_ENCRYPT r c = decoded c (rd_u32 r) (\<lambda>h r. answered id (cr_encrypt be c h r))"
  "backend_step be OP_DECRYPT r c = decoded c (rd_u32 r) (\<lambda>h r. answered id (cr_decrypt be c h r))"
  "backend_step be OP_MAC_GENERATE r c = decoded c (rd_u32 r) (\<lambda>h r. answered id (cr_mac_generate be c h r))"
  "backend_step be OP_MAC_VERIFY r c = decoded c (rd_u32 r) (\<lambda>h r. decoded c (rd_bytes r) (\<lambda>x r. answered bool_result (cr_mac_verify be c h x r)))"
  "backend_step be OP_DERIVE r c = decoded c (rd_u32 r) (\<lambda>h r. decoded c (rd_u32 r) (\<lambda>n r. answered id (cr_derive be c h r (unat n))))"
  "backend_step be OP_RANDOM r c = decoded c (rd_u32 r) (\<lambda>n r. answered id (cr_random be c (unat n)))"
  "backend_step be OP_GET_CERTIFICATE_DER r c = decoded c (rd_u32 r) (\<lambda>h r. answered id (cr_get_certificate_der be c h))"
  "backend_step be OP_GET_PUBLIC_KEY_DER r c = decoded c (rd_u32 r) (\<lambda>h r. answered id (cr_get_public_key_der be c h))"
  "backend_step be OP_GET_TRUST_ANCHOR_DER r c = answered id (cr_get_trust_anchor_der be c (from_utf8_lossy r))"
  "backend_step be OP_GET_SLOT_INFO r c = decoded c (rd_u32 r) (\<lambda>h r. answered encode_slot_info (cr_get_slot_info be c h))"
  "backend_step be OP_GENERATE_KEY r c = decoded c (rd_u32 r) (\<lambda>h r. decoded c (rd_u32 r) (\<lambda>alg r. answered id (cr_generate_key be c h alg)))"
  "backend_step be OP_GENERATE_CSR r c = decoded c (rd_u32 r) (\<lambda>h r. answered id (cr_generate_csr be c h (from_utf8_lossy r)))"
  "backend_step be OP_UNWRAP_CEK_A128KW r c = decoded c (rd_u32 r) (\<lambda>h r. answered id (cr_unwrap_cek_a128kw be c h r))"
  "backend_step be OP_UNWRAP_CEK_ECDH_ES r c = decoded c (rd_u32 r) (\<lambda>h r. decoded c (rd_bytes r) (\<lambda>x r. decoded c (rd_bytes r) (\<lambda>y r.
     answered id (cr_unwrap_cek_ecdh_es be c h x y r))))"
  unfolding backend_step_def run_crypto_op_def link_op_defs by simp_all

lemma backend_step_provisioning:
  "backend_step be OP_IS_PROVISIONED r c = answered bool_result (hp_is_provisioned be c)"
  "backend_step be OP_PROVISION r c = answered (\<lambda>_. []) (hp_provision be c r)"
  "backend_step be OP_LIST_SLOTS r c = answered encode_slots (hp_list_slots be c)"
  "backend_step be OP_PROVISIONING_STATE r c = answered (\<lambda>s. wr_u32 (provisioning_state_to_wire s) []) (hp_provisioning_state be c)"
  "backend_step be OP_ARM_ENROLLMENT r c = decoded c (rd_u8 r) (\<lambda>present r. decoded c (rd_u64 r) (\<lambda>ttl r.
     answered (\<lambda>_. []) (hp_arm_enrollment be c (from_utf8_lossy r) (if present \<noteq> 0 then Some ttl else None))))"
  "backend_step be OP_IS_ENROLLED r c = answered bool_result (hp_is_enrolled be c (from_utf8_lossy r))"
  "backend_step be OP_CLEAR_ENROLLED r c = answered bool_result (hp_clear_enrolled be c (from_utf8_lossy r))"
  "backend_step be OP_GET_PUBLIC_KEY r c = decoded c (rd_u32 r) (\<lambda>h r. answered id (cr_get_public_key_der be c h))"
  "backend_step be OP_READ_MONOTONIC r c = decoded c (rd_u32 r) (\<lambda>h r. answered (\<lambda>v. wr_u64 v []) (hp_read_monotonic be c h))"
  "backend_step be OP_RAISE_MONOTONIC r c = decoded c (rd_u32 r) (\<lambda>h r. decoded c (rd_u64 r) (\<lambda>v r.
     answered (\<lambda>v. wr_u64 v []) (hp_raise_monotonic be c h v)))"
  unfolding backend_step_def run_provisioning_op_def link_op_defs by simp_all

lemma decoded_Ok [simp]: "decoded c (Ok (v, r)) k = k v r"
  by (simp add: decoded_def)

text \<open>What each operation of the client sends, how a reply is encoded, and how the client reads it.\<close>

definition decode_slots :: "bytes \<Rightarrow> hsm_error + slot_info list" where
  "decode_slots result = and_then (hsm_read (rd_u32 result)) (\<lambda>(count, r). read_slots (unat count) r)"

definition decode_state :: "bytes \<Rightarrow> hsm_error + provisioning_state" where
  "decode_state result = and_then (hsm_read (rd_u32 result)) (\<lambda>(state, r). provisioning_state_from_wire state)"

definition decode_counter :: "bytes \<Rightarrow> hsm_error + u64" where
  "decode_counter result = map_sum id fst (hsm_read (rd_u64 result))"

fun sent :: "hsm_op \<Rightarrow> u32 \<times> bytes" where
  "sent (HSign h x) = (OP_SIGN, le_bytes h @ x)"
| "sent (HSignRaw h x) = (OP_SIGN_RAW_P256, le_bytes h @ x)"
| "sent (HEncrypt h x) = (OP_ENCRYPT, le_bytes h @ x)"
| "sent (HDecrypt h x) = (OP_DECRYPT, le_bytes h @ x)"
| "sent (HMacGenerate h x) = (OP_MAC_GENERATE, le_bytes h @ x)"
| "sent (HUnwrapA128kw h x) = (OP_UNWRAP_CEK_A128KW, le_bytes h @ x)"
| "sent (HVerify h x y) = (OP_VERIFY, le_bytes h @ le_bytes (of_nat (length x) :: u32) @ x @ y)"
| "sent (HMacVerify h x y) = (OP_MAC_VERIFY, le_bytes h @ le_bytes (of_nat (length x) :: u32) @ x @ y)"
| "sent (HDerive h x n) = (OP_DERIVE, le_bytes h @ le_bytes (of_nat n :: u32) @ x)"
| "sent (HRandom n) = (OP_RANDOM, le_bytes (of_nat n :: u32))"
| "sent (HCertificate h) = (OP_GET_CERTIFICATE_DER, le_bytes h)"
| "sent (HPublicKeyDer h) = (OP_GET_PUBLIC_KEY_DER, le_bytes h)"
| "sent (HTrustAnchor a) = (OP_GET_TRUST_ANCHOR_DER, str_bytes a)"
| "sent (HSlotInfo h) = (OP_GET_SLOT_INFO, le_bytes h)"
| "sent (HGenerateKey h alg) = (OP_GENERATE_KEY, le_bytes h @ le_bytes alg)"
| "sent (HGenerateCsr h cn) = (OP_GENERATE_CSR, le_bytes h @ str_bytes cn)"
| "sent (HUnwrapEcdh h x y z) = (OP_UNWRAP_CEK_ECDH_ES, le_bytes h @ le_bytes (of_nat (length x) :: u32) @ x @ le_bytes (of_nat (length y) :: u32) @ y @ z)"
| "sent HIsProvisioned = (OP_IS_PROVISIONED, [])"
| "sent (HProvision x) = (OP_PROVISION, x)"
| "sent HListSlots = (OP_LIST_SLOTS, [])"
| "sent (HPublicKey role) = (OP_GET_PUBLIC_KEY, le_bytes (role_handle role))"
| "sent HProvisioningState = (OP_PROVISIONING_STATE, [])"
| "sent (HArm vm ttl) = (OP_ARM_ENROLLMENT, (case ttl of None \<Rightarrow> 0 | Some _ \<Rightarrow> 1) # le_bytes (case ttl of None \<Rightarrow> 0 | Some t \<Rightarrow> t) @ str_bytes vm)"
| "sent (HIsEnrolled vm) = (OP_IS_ENROLLED, str_bytes vm)"
| "sent (HClearEnrolled vm) = (OP_CLEAR_ENROLLED, str_bytes vm)"
| "sent (HReadMonotonic h) = (OP_READ_MONOTONIC, le_bytes h)"
| "sent (HRaiseMonotonic h v) = (OP_RAISE_MONOTONIC, le_bytes h @ le_bytes v)"

fun enc_val :: "hsm_val \<Rightarrow> bytes" where
  "enc_val (VBytes bs) = bs"
| "enc_val (VBool b) = bool_result b"
| "enc_val (VUnit u) = []"
| "enc_val (VSlot si) = encode_slot_info si"
| "enc_val (VSlots slots) = encode_slots slots"
| "enc_val (VState s) = wr_u32 (provisioning_state_to_wire s) []"
| "enc_val (VCounter v) = wr_u64 v []"

fun dec_val :: "(bytes \<Rightarrow> hsm_error + bytes) \<Rightarrow> hsm_op \<Rightarrow> bytes \<Rightarrow> hsm_error + hsm_val" where
  "dec_val cose (HVerify _ _ _) = (\<lambda>b. map_sum id VBool (first_is_one b))"
| "dec_val cose (HMacVerify _ _ _) = (\<lambda>b. map_sum id VBool (first_is_one b))"
| "dec_val cose (HSlotInfo _) = (\<lambda>b. map_sum id VSlot (decode_slot_info b))"
| "dec_val cose HIsProvisioned = (\<lambda>b. map_sum id VBool (first_is_one b))"
| "dec_val cose (HProvision _) = (\<lambda>b. map_sum id VUnit ((\<lambda>_. Ok ()) b))"
| "dec_val cose HListSlots = (\<lambda>b. map_sum id VSlots (decode_slots b))"
| "dec_val cose (HPublicKey _) = (\<lambda>b. map_sum id VBytes (cose b))"
| "dec_val cose HProvisioningState = (\<lambda>b. map_sum id VState (decode_state b))"
| "dec_val cose (HArm _ _) = (\<lambda>b. map_sum id VUnit ((\<lambda>_. Ok ()) b))"
| "dec_val cose (HIsEnrolled _) = (\<lambda>b. map_sum id VBool (first_is_one b))"
| "dec_val cose (HClearEnrolled _) = (\<lambda>b. map_sum id VBool (first_is_one b))"
| "dec_val cose (HReadMonotonic _) = (\<lambda>b. map_sum id VCounter (decode_counter b))"
| "dec_val cose (HRaiseMonotonic _ _) = (\<lambda>b. map_sum id VCounter (decode_counter b))"
| "dec_val cose p = (\<lambda>b. Ok (VBytes b))"

lemma ret_on_result: "ret V (on_result x f) = on_result x (\<lambda>b. map_sum id V (f b))"
  by (cases x; cases "snd x") (simp_all add: ret_def on_result_def)

lemma ret_call: "ret VBytes x = on_result x (\<lambda>b. Ok (VBytes b))"
  by (cases x; cases "snd x") (simp_all add: ret_def on_result_def)

lemma exec_link:
  "exec (link_b_provider cose peer) p l = on_result (link_call peer l (fst (sent p)) (snd (sent p))) (dec_val cose p)"
  by (cases p) (simp_all add: link_ops wr_defs ret_on_result ret_call decode_slots_def decode_state_def decode_counter_def
      split: option.splits)

lemma answered_ret: "(\<And>v. enc (V v) = enc' v) \<Longrightarrow> answered enc (ret V x) = answered enc' x"
  by (cases x; cases "snd x") (simp_all add: answered_def ret_def)

definition via_der :: "hsm_op \<Rightarrow> bool" where "via_der p = (case p of HPublicKey _ \<Rightarrow> True | _ \<Rightarrow> False)"

lemma sent_served:
  assumes "op_fits p" "\<not> via_der p"
  shows "backend_step be (fst (sent p)) (snd (sent p)) c = answered enc_val (exec be p c)"
  using assms by (cases p) (simp_all add: backend_step_crypto backend_step_provisioning via_der_def answered_ret text_ok_def id_def
      unat_of_nat_u32 split: option.splits)

lemma sent_length: "op_fits p \<Longrightarrow> u32_fits (length (snd (sent p)))"
  by (cases p) (simp_all add: text_ok_def)

lemma bool_wire: "first_is_one (bool_result b) = Ok b"
  by (simp add: first_is_one_def bool_result_def)

lemma state_wire: "provisioning_state_from_wire (provisioning_state_to_wire s) = Ok s"
  by (cases s) (simp_all add: provisioning_state_from_wire_def)

lemma reply_wire:
  "list_all slot_ok slots \<Longrightarrow> u32_fits (length slots) \<Longrightarrow> decode_slots (encode_slots slots) = Ok slots"
  "decode_state (wr_u32 (provisioning_state_to_wire s) []) = Ok s"
  "decode_counter (wr_u64 v []) = Ok v"
  by (simp_all add: decode_slots_def encode_slots_eq hsm_read_def unat_of_nat_u32 read_slots_written decode_state_def wr_defs
      state_wire decode_counter_def)

lemma ret_Ok: "ret V x = (c', Ok v) \<longleftrightarrow> (\<exists>w. x = (c', Ok w) \<and> v = V w)"
  by (cases x; cases "snd x") (auto simp: ret_def)

lemma reply_read:
  assumes "exec be p c = (c', Ok v)" "val_fits v" "\<not> via_der p"
  shows "dec_val cose p (enc_val v) = Ok v"
  using assms by (cases p) (auto simp: ret_Ok bool_wire decode_encode_slot_info reply_wire via_der_def)

lemma enc_val_length: "val_fits v \<Longrightarrow> u32_fits (length (enc_val v))"
  by (cases v) (simp_all add: bool_result_def wr_defs)

text \<open>
  The client rebuilds the public key of a role from its DER form; the backend's own answer is expected to be
  the same conversion.
\<close>

definition keys_agree :: "(bytes \<Rightarrow> hsm_error + bytes) \<Rightarrow> 'c hsm_backend \<Rightarrow> bool" where
  "keys_agree cose be \<longleftrightarrow> (\<forall>c role.
     hp_get_public_key be c role = on_result (cr_get_public_key_der be c (role_handle role)) cose
     \<and> (case snd (cr_get_public_key_der be c (role_handle role)) of
          Err e \<Rightarrow> error_fits e
        | Ok der \<Rightarrow> u32_fits (length der) \<and> (\<forall>e. cose der = Err e \<longrightarrow> wire_error e = e)))"

lemma exec_public_key:
  assumes "exec be (HPublicKey role) c = (c', r)" "delivers d" "linked l c" "keys_agree cose be"
  shows "\<exists>l'. linked l' c' \<and> exec (link_b_provider cose (backend_peer be d)) (HPublicKey role) l = (l', map_sum wire_error id r)"
proof -
  note agree = spec [OF spec [OF assms(4) [unfolded keys_agree_def], of c], of role]
  obtain r0 where x: "cr_get_public_key_der be c (role_handle role) = (c', r0)" and r: "r = map_sum id VBytes (and_then r0 cose)"
    using assms(1) agree by (cases "cr_get_public_key_der be c (role_handle role)") (auto simp: ret_def on_result_def)
  have fits: "case r0 of Err e \<Rightarrow> error_fits e | Ok der \<Rightarrow> u32_fits (length (id der)) \<and> Ok (id der) = Ok (id der)"
    using agree x by (cases r0) simp_all
  have cose: "\<And>der e. r0 = Ok der \<Longrightarrow> cose der = Err e \<Longrightarrow> wire_error e = e" using agree x by simp
  have step: "backend_step be OP_GET_PUBLIC_KEY (le_bytes (role_handle role)) c = answered id (cr_get_public_key_der be c (role_handle role))"
    by (simp add: backend_step_provisioning)
  have len: "u32_fits (length (le_bytes (role_handle role)))" by simp
  from call_answered [OF assms(2,3) len step x fits] obtain l' where "linked l' c'"
    "link_call (backend_peer be d) l OP_GET_PUBLIC_KEY (le_bytes (role_handle role)) = (l', map_sum wire_error id r0)"
    by (auto simp only: on_result_Ok)
  then show ?thesis
    using r cose by (cases r0; cases "cose (projr r0)") (auto simp: exec_link on_result_def simp del: exec.simps)
qed

text \<open>Every operation of the provider, over the wire, is the operation of the backend.\<close>

lemma exec_linked:
  assumes "exec be p c = (c', r)" "result_fits r" "delivers d" "linked l c" "op_fits p" "keys_agree cose be"
  shows "\<exists>l'. linked l' c' \<and> exec (link_b_provider cose (backend_peer be d)) p l = (l', map_sum wire_error id r)"
proof (cases "via_der p")
  case True
  then obtain role where p: "p = HPublicKey role" by (cases p) (simp_all add: via_der_def)
  show ?thesis unfolding p by (rule exec_public_key [OF assms(1) [unfolded p] assms(3,4,6)])
next
  case False
  have "case r of Err e \<Rightarrow> error_fits e | Ok v \<Rightarrow> u32_fits (length (enc_val v)) \<and> dec_val cose p (enc_val v) = Ok (id v)"
    using assms(1,2) reply_read [OF _ _ False, of be c c'] enc_val_length by (cases r) (auto simp only: result_fits_def sum.case id_apply)
  from call_answered [OF assms(3,4) sent_length [OF assms(5)] sent_served [OF assms(5) False] assms(1) this]
  show ?thesis by (simp only: exec_link)
qed

text \<open>A sequence of calls.\<close>

fun exec_all :: "'c hsm_backend \<Rightarrow> hsm_op list \<Rightarrow> 'c \<Rightarrow> 'c \<times> (hsm_error + hsm_val) list" where
  "exec_all be [] c = (c, [])"
| "exec_all be (p # ps) c = (case exec be p c of (c1, r) \<Rightarrow> (case exec_all be ps c1 of (c2, rs) \<Rightarrow> (c2, r # rs)))"

lemma exec_all_linked:
  assumes "delivers d" "keys_agree cose be"
  shows "linked l c \<Longrightarrow> list_all op_fits ps \<Longrightarrow> exec_all be ps c = (c', rs) \<Longrightarrow> list_all result_fits rs
    \<Longrightarrow> \<exists>l'. linked l' c' \<and> exec_all (link_b_provider cose (backend_peer be d)) ps l = (l', map (map_sum wire_error id) rs)"
proof (induction ps arbitrary: l c rs)
  case (Cons p ps)
  obtain c1 r where 1: "exec be p c = (c1, r)" by fastforce
  obtain rs1 where 2: "exec_all be ps c1 = (c', rs1)" "rs = r # rs1" using Cons.prems(3) 1 by (auto split: prod.splits)
  obtain l1 where 3: "linked l1 c1" "exec (link_b_provider cose (backend_peer be d)) p l = (l1, map_sum wire_error id r)"
    using exec_linked [OF 1 _ assms(1) Cons.prems(1) _ assms(2)] Cons.prems(2,4) 2(2) by auto
  show ?case using Cons.IH [OF 3(1) _ 2(1)] Cons.prems(2,4) 2(2) 3(2) by (auto simp: id_def)
qed simp

section \<open>Request dispatch over link B\<close>

text \<open>Requests are at most \<open>MAX_PAYLOAD\<close> long; what they make the backend answer fits the wire.\<close>

definition answers_fit :: "'c hsm_backend \<Rightarrow> bool" where
  "answers_fit be \<longleftrightarrow> (\<forall>p c. length (snd (sent p)) \<le> MAX_PAYLOAD \<and> op_fits p \<longrightarrow> result_fits (snd (exec be p c)))"

definition carried :: "('c \<times> nat) link_client \<times> (hsm_error + 'a) \<Rightarrow> 'c \<times> (hsm_error + 'a) \<Rightarrow> bool" where
  "carried x y \<longleftrightarrow> linked (fst x) (fst y) \<and> snd x = map_sum wire_error id (snd y)"

definition agree :: "('c \<times> nat) link_client \<times> 'a \<Rightarrow> 'c \<times> 'a \<Rightarrow> bool" where
  "agree x y \<longleftrightarrow> linked (fst x) (fst y) \<and> snd x = snd y"

lemma carried_ret:
  assumes "inj V" "exec be p c = ret V y" "exec (link_b_provider cose (backend_peer be d)) p l = ret V x"
    and "delivers d" "linked l c" "keys_agree cose be" "answers_fit be" "op_fits p" "length (snd (sent p)) \<le> MAX_PAYLOAD"
  shows "carried x y"
proof -
  have "result_fits (snd (exec be p c))" using assms(7-9) by (simp add: answers_fit_def)
  then obtain l' where l': "linked l' (fst y)" "ret V x = (l', map_sum wire_error id (snd (ret V y)))"
    using exec_linked [OF prod.collapse [symmetric] _ assms(4,5,8,6)] assms(2,3) by (auto simp: ret_def)
  then show ?thesis
    using injD [OF assms(1)] by (cases x; cases y; cases "snd x"; cases "snd y") (auto simp: ret_def carried_def)
qed

lemma wire_error_class [simp]:
  "(case wire_error e of KeyNotFound _ \<Rightarrow> a | _ \<Rightarrow> b) = (case e of KeyNotFound _ \<Rightarrow> a | _ \<Rightarrow> b)"
  "(case wire_error e of NotSupported _ \<Rightarrow> a | _ \<Rightarrow> b) = (case e of NotSupported _ \<Rightarrow> a | _ \<Rightarrow> b)"
  by (cases e; simp add: wire_error_def)+

lemma agree_crypto: "carried x y \<Longrightarrow> agree (crypto_result req x) (crypto_result req y)"
  by (cases x; cases y; cases "snd y") (simp_all add: carried_def agree_def crypto_result_def)

lemma agree_check: "carried x y \<Longrightarrow> agree (check_result req x) (check_result req y)"
  by (cases x; cases y; cases "snd y") (simp_all add: carried_def agree_def check_result_def split: bool.splits)

lemma agree_der: "carried x y \<Longrightarrow> agree (der_result req x) (der_result req y)"
  by (cases x; cases y; cases "snd y") (simp_all add: carried_def agree_def der_result_def)

lemma agree_same [simp]: "linked l c \<Longrightarrow> agree (l, r) (c, r)"
  by (simp add: agree_def)

text \<open>The providers as the request dispatch sees them.\<close>

abbreviation local_crypto :: "'c hsm_backend \<Rightarrow> 'c crypto_ops" where
  "local_crypto be \<equiv> crypto_ops.truncate be"

abbreviation remote_crypto :: "'s peer \<Rightarrow> 's link_client crypto_ops" where
  "remote_crypto peer \<equiv> crypto_ops.truncate (link_b_client peer)"

definition link_setup :: "(nat \<Rightarrow> bytes \<Rightarrow> read_event list) \<Rightarrow> (bytes \<Rightarrow> hsm_error + bytes) \<Rightarrow> 'c hsm_backend \<Rightarrow> bool" where
  "link_setup d cose be \<longleftrightarrow> delivers d \<and> keys_agree cose be \<and> answers_fit be"

lemma carried_op:
  assumes "inj V" "exec be p c = ret V y" "exec (link_b_provider cose (backend_peer be d)) p l = ret V x"
    and "link_setup d cose be" "linked l c" "op_fits p" "length (snd (sent p)) \<le> MAX_PAYLOAD"
  shows "carried x y"
  using carried_ret [OF assms(1-3) _ assms(5) _ _ assms(6,7)] assms(4) by (simp add: link_setup_def)

lemma inj_vals: "inj VBytes" "inj VBool"
  by (simp_all add: inj_def)

lemma carried_ops:
  assumes s: "link_setup d cose be" and l: "linked l c"
  shows "n \<le> MAX_RANDOM \<Longrightarrow> carried (cr_random (remote_crypto (backend_peer be d)) l n) (cr_random (local_crypto be) c n)"
    and "carried (cr_generate_key (remote_crypto (backend_peer be d)) l h alg) (cr_generate_key (local_crypto be) c h alg)"
    and "4 + length x \<le> MAX_PAYLOAD \<Longrightarrow> carried (cr_sign (remote_crypto (backend_peer be d)) l h x) (cr_sign (local_crypto be) c h x)"
    and "4 + length x \<le> MAX_PAYLOAD \<Longrightarrow> carried (cr_encrypt (remote_crypto (backend_peer be d)) l h x) (cr_encrypt (local_crypto be) c h x)"
    and "4 + length x \<le> MAX_PAYLOAD \<Longrightarrow> carried (cr_decrypt (remote_crypto (backend_peer be d)) l h x) (cr_decrypt (local_crypto be) c h x)"
    and "4 + length x \<le> MAX_PAYLOAD \<Longrightarrow> carried (cr_mac_generate (remote_crypto (backend_peer be d)) l h x) (cr_mac_generate (local_crypto be) c h x)"
    and "8 + length x + length y \<le> MAX_PAYLOAD \<Longrightarrow> carried (cr_mac_verify (remote_crypto (backend_peer be d)) l h x y) (cr_mac_verify (local_crypto be) c h x y)"
    and "8 + length x + length y \<le> MAX_PAYLOAD \<Longrightarrow> carried (cr_verify (remote_crypto (backend_peer be d)) l h x y) (cr_verify (local_crypto be) c h x y)"
    and "carried (cr_get_public_key_der (remote_crypto (backend_peer be d)) l h) (cr_get_public_key_der (local_crypto be) c h)"
    and "carried (cr_get_certificate_der (remote_crypto (backend_peer be d)) l h) (cr_get_certificate_der (local_crypto be) c h)"
  using carried_op [OF inj_vals(1) exec.simps(9) exec.simps(9) s l, of n]
    carried_op [OF inj_vals(1) exec.simps(14) exec.simps(14) s l, of h alg]
    carried_op [OF inj_vals(1) exec.simps(1) exec.simps(1) s l, of h x]
    carried_op [OF inj_vals(1) exec.simps(4) exec.simps(4) s l, of h x]
    carried_op [OF inj_vals(1) exec.simps(5) exec.simps(5) s l, of h x]
    carried_op [OF inj_vals(1) exec.simps(6) exec.simps(6) s l, of h x]
    carried_op [OF inj_vals(2) exec.simps(7) exec.simps(7) s l, of h x y]
    carried_op [OF inj_vals(2) exec.simps(3) exec.simps(3) s l, of h x y]
    carried_op [OF inj_vals(1) exec.simps(11) exec.simps(11) s l, of h]
    carried_op [OF inj_vals(1) exec.simps(10) exec.simps(10) s l, of h]
  by (simp_all add: crypto_ops.defs link_b_provider_def hsm_crypto.defs MAX_PAYLOAD_def MAX_RANDOM_def)

text \<open>Each handler.\<close>

lemma agree_pick: "agree x y \<Longrightarrow> snd x = snd y" "agree x y \<Longrightarrow> linked (fst x) (fst y)"
  by (simp_all add: agree_def)

lemma handlers_agree:
  assumes s: "link_setup d cose be" and l: "linked l c" and len: "length (rq_payload req) \<le> MAX_PAYLOAD"
  shows "agree (handle_get_random (remote_crypto (backend_peer be d)) req l) (handle_get_random (local_crypto be) req c)"
    and "agree (handle_crypto_with_handle (remote_crypto (backend_peer be d)) req p caller t l)
      (handle_crypto_with_handle (local_crypto be) req p caller t c)"
    and "agree (handle_verify (remote_crypto (backend_peer be d)) req caller t l) (handle_verify (local_crypto be) req caller t c)"
    and "agree (handle_get_pubkey (remote_crypto (backend_peer be d)) req caller t l) (handle_get_pubkey (local_crypto be) req caller t c)"
    and "agree (handle_get_cert (remote_crypto (backend_peer be d)) req caller t l) (handle_get_cert (local_crypto be) req caller t c)"
proof -
  note ops = carried_ops [OF s l]
  show "agree (handle_get_pubkey (remote_crypto (backend_peer be d)) req caller t l) (handle_get_pubkey (local_crypto be) req caller t c)"
    "agree (handle_get_cert (remote_crypto (backend_peer be d)) req caller t l) (handle_get_cert (local_crypto be) req caller t c)"
    using l by (simp_all add: handle_get_pubkey_def handle_get_cert_def Let_def agree_der ops split: option.splits)
  show "agree (handle_crypto_with_handle (remote_crypto (backend_peer be d)) req p caller t l)
      (handle_crypto_with_handle (local_crypto be) req p caller t c)"
    using l len
    by (auto simp: handle_crypto_with_handle_def Let_def get_bytes_def intro!: agree_crypto agree_check ops split: option.splits op.splits)
  show "agree (handle_verify (remote_crypto (backend_peer be d)) req caller t l) (handle_verify (local_crypto be) req caller t c)"
    using l len by (auto simp: handle_verify_def Let_def get_bytes_def intro!: agree_check ops split: option.splits)
  have "agree (handle_get_random (remote_crypto (backend_peer be d)) req l) (handle_get_random (local_crypto be) req c)"
    using ops(1) [of "unat (get_u32_le (rq_payload req) 0)"] l
    by (auto simp: handle_get_random_def Let_def carried_def agree_def split: prod.splits sum.splits)
  then show "agree (handle_get_random (remote_crypto (backend_peer be d)) req l) (handle_get_random (local_crypto be) req c)" .
qed

lemma key_generate_agrees:
  assumes "link_setup d cose be" "linked l c"
  shows "\<exists>l' t' c' r. handle_key_generate (local_crypto be) req caller t c = (t', c', r) \<and> linked l' c'
    \<and> handle_key_generate (remote_crypto (backend_peer be d)) req caller t l = (t', l', r)"
proof -
  have "\<exists>l' c' r. cr_generate_key (local_crypto be) c h alg = (c', r) \<and> linked l' c'
    \<and> cr_generate_key (remote_crypto (backend_peer be d)) l h alg = (l', map_sum wire_error id r)" for h alg
    using carried_ops(2) [OF assms] unfolding carried_def by (metis prod.collapse)
  note gen = this [of _ "get_u32_le (rq_payload req) 0"]
  show ?thesis
  proof (cases "ht_allocate t (''gen-'' @ cl_vm_id caller @ ''-'' @ dec (ht_len t)) (get_u32_le (rq_payload req) 0)
      (get_u32_le (rq_payload req) 4) (cl_vm_id caller) (get_u8 (rq_payload req) 8 \<noteq> 0) (get_bytes LABEL_LEN (rq_payload req) 12)")
    case (Pair t' h)
    show ?thesis
    proof (cases h)
      case (Some handle)
      with Pair gen [of handle] assms(2) show ?thesis
        by (auto simp: handle_key_generate_def Let_def split: sum.splits)
    qed (use Pair assms(2) in \<open>auto simp: handle_key_generate_def Let_def\<close>)
  qed
qed

section \<open>Properties\<close>


definition be0 :: "nat hsm_backend" where
  "be0 =
     \<lparr>cr_random = (\<lambda>c n. (Suc c, Ok (replicate (n mod 1024) 7))), cr_generate_key = (\<lambda>c h alg. (Suc c, Ok [1])),
      cr_sign = (\<lambda>c h x. (Suc c, Ok (take 8 x))), cr_encrypt = (\<lambda>c h x. (c, Ok (take 8 x))), cr_decrypt = (\<lambda>c h x. (c, Ok (take 8 x))),
      cr_mac_generate = (\<lambda>c h x. (c, Ok (take 8 x))), cr_mac_verify = (\<lambda>c h x y. (c, Ok (x = y))),
      cr_verify = (\<lambda>c h x y. (c, Ok (x = y))), cr_get_public_key_der = (\<lambda>c h. (c, Ok [4, 5])),
      cr_get_certificate_der = (\<lambda>c h. (c, Err (KeyNotFound ''none''))),
      cr_sign_raw_p256 = (\<lambda>c h x. (c, Ok (take 8 x))), cr_derive = (\<lambda>c h x n. (c, Ok [9])),
      cr_get_trust_anchor_der = (\<lambda>c a. (c, Ok [3])),
      cr_get_slot_info = (\<lambda>c h. (c, Ok \<lparr>si_handle = h, si_key_id = ''k'', si_kind = SlotKey Aes256, si_has_certificate = False,
        si_allowed_guests = Some [''vm1''], si_allowed_ops = None\<rparr>)),
      cr_generate_csr = (\<lambda>c h cn. (c, Ok [6])), cr_unwrap_cek_a128kw = (\<lambda>c h x. (c, Ok [2])),
      cr_unwrap_cek_ecdh_es = (\<lambda>c h x y z. (c, Ok [2])),
      hp_is_provisioned = (\<lambda>c. (c, Ok True)), hp_provision = (\<lambda>c x. (c, Err (RollbackRejected 3 2))),
      hp_list_slots = (\<lambda>c. (c, Ok [])), hp_get_public_key = (\<lambda>c role. (c, Ok [4, 5])),
      hp_provisioning_state = (\<lambda>c. (c, Ok Provisioned)), hp_arm_enrollment = (\<lambda>c vm ttl. (c, Ok ())),
      hp_is_enrolled = (\<lambda>c vm. (c, Ok False)), hp_clear_enrolled = (\<lambda>c vm. (c, Ok False)),
      hp_read_monotonic = (\<lambda>c h. (c, Ok (of_nat c))), hp_raise_monotonic = (\<lambda>c h v. (max c (unat v), Ok (of_nat (max c (unat v)))))\<rparr>"

definition bytewise :: "nat \<Rightarrow> bytes \<Rightarrow> read_event list" where
  "bytewise n bs = concat (map (\<lambda>b. [Interrupted, Chunk [b]]) bs)"

lemma delivers_bytewise: "delivers bytewise"
proof -
  have "sends (concat (map (\<lambda>b. [Interrupted, Chunk [b]]) bs)) = Some bs" for bs by (induction bs) simp_all
  then show ?thesis by (simp add: delivers_def bytewise_def)
qed

definition link0 :: "(nat \<times> nat) link_client" where
  "link0 = \<lparr>lk_poisoned = False, lk_inbox = [Interrupted], lk_peer = (7, 0)\<rparr>"

lemma linked_link0: "linked link0 7"
  by (simp add: linked_def link0_def)

lemma keys_agree_be0: "keys_agree Ok be0"
  by (simp add: keys_agree_def be0_def on_result_def)

lemma error_fits_be0: "error_fits (RollbackRejected 3 2)" "error_fits (KeyNotFound ''none'')"
proof -
  have "utf8_valid (error_message_bytes (RollbackRejected 3 2))" "length (error_message_bytes (RollbackRejected 3 2)) < 100"
    "utf8_valid (error_message_bytes (KeyNotFound ''none''))" "length (error_message_bytes (KeyNotFound ''none'')) < 100"
    by code_simp+
  then show "error_fits (RollbackRejected 3 2)" "error_fits (KeyNotFound ''none'')" by (simp_all add: error_fits_def)
qed


text \<open>C24: over a link-B client the daemon answers every request as it does over the backend in its own process, with the same
  handle table and the same decision, and the backend ends in the same state.\<close>

theorem request_over_link_b:
  assumes "link_setup d cose be" "linked l c" "length (rq_payload req) \<le> MAX_PAYLOAD"
    and "handle_request yo (local_crypto be) req caller t iam c = (t', c', resp, outcome)"
  shows "\<exists>l'. linked l' c' \<and> handle_request yo (remote_crypto (backend_peer be d)) req caller t iam l = (t', l', resp, outcome)"
proof (cases "op_from_u32 (rq_op req)")
  case (Some p)
  have pick: "\<exists>l' c' r. x = (l', r) \<and> y = (c', r) \<and> linked l' c'" if "agree x y" for x :: "('a \<times> nat) link_client \<times> response" and y
    using that by (cases x; cases y) (simp add: agree_def)
  note agree = handlers_agree [OF assms(1-3), THEN pick]
  show ?thesis
    using assms(2,4) Some agree(1) agree(2) [of p caller t] agree(3-5) [of caller t] key_generate_agrees [OF assms(1,2), of req caller t]
    by (cases p) (auto simp: handle_request_def Let_def split: if_splits)
qed (use assms(2,4) in \<open>auto simp: handle_request_def\<close>)

lemma answers_fit_be0: "answers_fit be0"
proof -
  have "result_fits (snd (exec be0 p c))" if "length (snd (sent p)) \<le> MAX_PAYLOAD" for p c
  proof (cases p)
    case (HSlotInfo h)
    have "utf8_valid (str_bytes ''k'')" "utf8_valid (str_bytes ''vm1'')" by code_simp+
    then show ?thesis
      by (simp add: HSlotInfo be0_def ret_def result_fits_def slot_ok_def text_ok_def texts_ok_def encode_slot_info_def
          write_slot_info_eq write_optlist_eq text_field_def)
  qed (use error_fits_be0 in \<open>simp_all add: be0_def ret_def result_fits_def encode_slots_eq\<close>)
  then show ?thesis by (simp add: answers_fit_def)
qed

lemma sign_served_be0:
  "handle_request yaml_inst (local_crypto be0) sign_request \<lparr>cl_vm_id = ''vm1'', cl_cert_thumbprint = []\<rparr> jwt_table jwt_policy 7 =
    (jwt_table, 8, response_ok (op_u32 Sign) 5 [9], AuthzAllow 0)"
proof -
  have f: "rq_op sign_request = op_u32 Sign" "rq_session_id sign_request = 5" "length (rq_payload sign_request) = 5"
      "drop 4 (rq_payload sign_request) = [9]" by (simp_all add: sign_request_def)
  have "\<not> HANDLE_JWT_SIGNING \<ge> HANDLE_DYNAMIC_BASE" "PERM_SIGN AND PERM_SIGN \<noteq> 0" by (simp_all add: handle_defs perm_defs)
  then show ?thesis
    using f jwt_get jwt_allowed sign_decoded
    by (simp add: handle_request_def is_host_only_def authz_def peek_handle_def decision_to_outcome_def
        handle_crypto_with_handle_def ht_resolve_def required_perm_def perm_missing_def crypto_result_def be0_def crypto_ops.defs)
qed

lemma request_over_link_b_witness:
  "\<exists>l'. linked l' 8 \<and> handle_request yaml_inst (remote_crypto (backend_peer be0 bytewise)) sign_request
       \<lparr>cl_vm_id = ''vm1'', cl_cert_thumbprint = []\<rparr> jwt_table jwt_policy link0
     = (jwt_table, l', response_ok (op_u32 Sign) 5 [9], AuthzAllow 0)"
proof (rule request_over_link_b [OF _ linked_link0 _ sign_served_be0])
  show "link_setup bytewise Ok be0"
    by (simp only: link_setup_def delivers_bytewise keys_agree_be0 answers_fit_be0 simp_thms)
  show "length (rq_payload sign_request) \<le> MAX_PAYLOAD" by (simp add: sign_request_def MAX_PAYLOAD_def)
qed

end
