(* ===== verification/Ivd.thy ===== *)
theory Ivd
  imports LinkB "HOL-Library.AList"
begin

text \<open>
  The integrity data of a bank, \<^verbatim>\<open>crates/hsm/src/ivd.rs\<close>: the signed manifest that lists the files of a
  bank directory, its signing and its verification at launch.

  A bank directory is the tree of its entries in the order a listing gives them. A file can be
  unreadable, and what lies outside the tree (absolute paths, \<^verbatim>\<open>..\<close>, targets of links) is the
  parameter \<open>ie_outside\<close>. Calls that change the directory take the next outcome of a schedule: a call can
  fail, and a power cut ends everything: it stays at the head of the schedule, so that no later call
  has an effect. A write that does not complete leaves a prefix of its bytes. SHA-256 and the CBOR
  encoding of \<^verbatim>\<open>ciborium\<close> are parameters; the clock is the value it has at the call. Timing and log
  lines are left out.
\<close>

section \<open>Directories\<close>

datatype fs_error = NotFound | OtherError

datatype fnode = File bytes | BadFile u64 | Link string | Special | Dir "(string \<times> fnode) list" | BadDir

type_synonym dir = "(string \<times> fnode) list"

datatype fault = Works | Fails nat | PowerCut nat

record bank_fs =
  bf_dir :: "dir option"
  bf_faults :: "fault list"

text \<open>
  One call on the directory: what it does when it runs (with its own error) and what it leaves
  when it is cut short after \<open>n\<close> bytes.
\<close>

definition fs_call :: "(dir \<Rightarrow> fs_error + dir) \<Rightarrow> (nat \<Rightarrow> dir \<Rightarrow> dir) \<Rightarrow> bank_fs \<Rightarrow> bank_fs \<times> (fs_error + unit)" where
  "fs_call act part w =
     (case bf_dir w of
        None \<Rightarrow> (w, Err NotFound)
      | Some d \<Rightarrow>
          (case bf_faults w of
             Fails n # fs \<Rightarrow> (\<lparr>bf_dir = Some (part n d), bf_faults = fs\<rparr>, Err OtherError)
           | PowerCut n # fs \<Rightarrow> (w\<lparr>bf_dir := Some (part n d)\<rparr>, Err OtherError)
           | fs \<Rightarrow>
               (case act d of
                  Err e \<Rightarrow> (w\<lparr>bf_faults := tl fs\<rparr>, Err e)
                | Ok d' \<Rightarrow> (\<lparr>bf_dir = Some d', bf_faults = tl fs\<rparr>, Ok ()))))"

abbreviation untouched :: "nat \<Rightarrow> dir \<Rightarrow> dir" where "untouched \<equiv> \<lambda>n d. d"

definition remove_file :: "string \<Rightarrow> bank_fs \<Rightarrow> bank_fs \<times> (fs_error + unit)" where
  "remove_file name =
     fs_call (\<lambda>d. case map_of d name of
                    None \<Rightarrow> Err NotFound
                  | Some (Dir _) \<Rightarrow> Err OtherError
                  | Some BadDir \<Rightarrow> Err OtherError
                  | Some _ \<Rightarrow> Ok (AList.delete name d)) untouched"

text \<open>Creating over a link truncates the link's target, which is outside the tree.\<close>

definition create_file :: "string \<Rightarrow> bank_fs \<Rightarrow> bank_fs \<times> (fs_error + unit)" where
  "create_file name =
     fs_call (\<lambda>d. case map_of d name of
                    None \<Rightarrow> Ok (AList.update name (File []) d)
                  | Some (File _) \<Rightarrow> Ok (AList.update name (File []) d)
                  | Some (Link _) \<Rightarrow> Ok d
                  | Some Special \<Rightarrow> Ok d
                  | Some _ \<Rightarrow> Err OtherError) untouched"

definition append_file :: "string \<Rightarrow> bytes \<Rightarrow> dir \<Rightarrow> dir" where
  "append_file name bs d =
     (case map_of d name of Some (File c) \<Rightarrow> AList.update name (File (c @ bs)) d | _ \<Rightarrow> d)"

definition write_all :: "string \<Rightarrow> bytes \<Rightarrow> bank_fs \<Rightarrow> bank_fs \<times> (fs_error + unit)" where
  "write_all name bs = fs_call (\<lambda>d. Ok (append_file name bs d)) (\<lambda>n. append_file name (take n bs))"

definition sync_all :: "bank_fs \<Rightarrow> bank_fs \<times> (fs_error + unit)" where
  "sync_all = fs_call Ok untouched"

definition rename_file :: "string \<Rightarrow> string \<Rightarrow> bank_fs \<Rightarrow> bank_fs \<times> (fs_error + unit)" where
  "rename_file src dst =
     fs_call (\<lambda>d. case map_of d src of
                    None \<Rightarrow> Err NotFound
                  | Some nd \<Rightarrow>
                      (case map_of d dst of
                         Some (Dir _) \<Rightarrow> Err OtherError
                       | Some BadDir \<Rightarrow> Err OtherError
                       | _ \<Rightarrow> Ok (AList.update dst nd (AList.delete src d)))) untouched"

definition on_ok :: "'w \<times> ('e + 'a) \<Rightarrow> ('w \<Rightarrow> 'a \<Rightarrow> 'w \<times> ('e + 'b)) \<Rightarrow> 'w \<times> ('e + 'b)" where
  "on_ok r f = (case r of (w, Err e) \<Rightarrow> (w, Err e) | (w, Ok a) \<Rightarrow> f w a)"

section \<open>Paths\<close>

fun split_at :: "char \<Rightarrow> string \<Rightarrow> string list" where
  "split_at c [] = [[]]"
| "split_at c (x # xs) =
     (if x = c then [] # split_at c xs
      else case split_at c xs of [] \<Rightarrow> [[x]] | p # ps \<Rightarrow> (x # p) # ps)"

definition slash :: char where "slash = CHR ''/''"

text \<open>The bytes read through a path from a node; \<open>path\<close> is the whole path, for what leaves the tree.\<close>

fun open_path :: "(string \<Rightarrow> fs_error + bytes) \<Rightarrow> string \<Rightarrow> string list \<Rightarrow> fnode \<Rightarrow> fs_error + bytes" where
  "open_path outside path [] nd =
     (case nd of File c \<Rightarrow> Ok c | Link _ \<Rightarrow> outside path | _ \<Rightarrow> Err OtherError)"
| "open_path outside path (p # ps) nd =
     (case nd of
        Dir es \<Rightarrow>
          if p = [] \<or> p = ''.'' then open_path outside path ps nd
          else if p = ''..'' then outside path
          else (case map_of es p of None \<Rightarrow> Err NotFound | Some nd' \<Rightarrow> open_path outside path ps nd')
      | Link _ \<Rightarrow> outside path
      | _ \<Rightarrow> Err OtherError)"

definition read_path :: "(string \<Rightarrow> fs_error + bytes) \<Rightarrow> dir option \<Rightarrow> string \<Rightarrow> fs_error + bytes" where
  "read_path outside d path =
     (if path \<noteq> [] \<and> hd path = slash then outside path
      else case d of None \<Rightarrow> Err NotFound | Some es \<Rightarrow> open_path outside path (split_at slash path) (Dir es))"

definition to_string_lossy :: "string \<Rightarrow> string" where
  "to_string_lossy s = from_utf8_lossy (str_bytes s)"

section \<open>Manifests\<close>

definition IVD_MANIFEST_VERSION :: u64 where "IVD_MANIFEST_VERSION = 3"
definition IVD_MANIFEST_FILE :: string where "IVD_MANIFEST_FILE = ''ivd-manifest.cbor''"
definition IVD_SIGNATURE_FILE :: string where "IVD_SIGNATURE_FILE = ''ivd-signature.bin''"
definition IVD_MANIFEST_TMP :: string where "IVD_MANIFEST_TMP = ''ivd-manifest.cbor.tmp''"
definition IVD_SIGNATURE_TMP :: string where "IVD_SIGNATURE_TMP = ''ivd-signature.bin.tmp''"

lemmas ivd_names = IVD_MANIFEST_FILE_def IVD_SIGNATURE_FILE_def IVD_MANIFEST_TMP_def IVD_SIGNATURE_TMP_def

record ivd_identity =
  id_name :: string
  id_version :: string
  id_ecu_sw_number :: string
  id_supplier_sw_number :: string
  id_supplier_sw_version :: string
  id_spare_part_number :: string
  id_odx_file_id :: string
  id_system_name :: string
  id_programming_date :: string
  id_tester_serial :: string

definition ivd_identity_default :: ivd_identity where
  "ivd_identity_default =
     \<lparr>id_name = [], id_version = [], id_ecu_sw_number = [], id_supplier_sw_number = [], id_supplier_sw_version = [],
      id_spare_part_number = [], id_odx_file_id = [], id_system_name = [], id_programming_date = [], id_tester_serial = []\<rparr>"

record ivd_file =
  vf_relative_path :: string
  vf_sha256 :: bytes
  vf_size :: u64

record ivd_manifest =
  mf_ivd_version :: u64
  mf_signed_at_unix :: u64
  mf_files :: "ivd_file list"
  mf_gen :: u64
  mf_identity :: ivd_identity
  mf_install_boot_id :: "string option"
  mf_update_id :: "string option"

definition IVD_DISABLED_RECORD_PATH :: string where "IVD_DISABLED_RECORD_PATH = ''.admin-disabled''"

definition ivd_disabled_record :: ivd_file where
  "ivd_disabled_record = \<lparr>vf_relative_path = IVD_DISABLED_RECORD_PATH, vf_sha256 = replicate 32 0, vf_size = 0\<rparr>"

definition is_disabled_record :: "ivd_file \<Rightarrow> bool" where
  "is_disabled_record f \<longleftrightarrow> vf_relative_path f = IVD_DISABLED_RECORD_PATH \<and> vf_size f = 0
     \<and> length (vf_sha256 f) = 32 \<and> list_all (\<lambda>b. b = 0) (vf_sha256 f)"

definition is_disabled_manifest :: "ivd_manifest \<Rightarrow> bool" where
  "is_disabled_manifest m \<longleftrightarrow> (case mf_files m of [f] \<Rightarrow> is_disabled_record f | _ \<Rightarrow> False)"

datatype ivd_error =
    IvdIo fs_error string
  | IvdCbor string
  | HashMismatch string bytes bytes
  | SizeMismatch string u64 u64
  | MissingFile string
  | UnexpectedFile string
  | GenMismatch u64 u64
  | GenBelowFloor u64 u64
  | AdminDisabled u64
  | SignatureInvalid
  | UnsupportedManifestVersion u64
  | IvdHsm hsm_error

record ivd_env =
  ie_sha :: "bytes \<Rightarrow> bytes"
  ie_encode :: "ivd_manifest \<Rightarrow> string + bytes"
  ie_decode :: "bytes \<Rightarrow> string + ivd_manifest"
  ie_block :: nat
  ie_now :: u64
  ie_outside :: "string \<Rightarrow> fs_error + bytes"

definition encode_manifest :: "ivd_env \<Rightarrow> ivd_manifest \<Rightarrow> ivd_error + bytes" where
  "encode_manifest env m = (case ie_encode env m of Err e \<Rightarrow> Err (IvdCbor (''encode: '' @ e)) | Ok b \<Rightarrow> Ok b)"

definition decode_manifest :: "ivd_env \<Rightarrow> bytes \<Rightarrow> ivd_error + ivd_manifest" where
  "decode_manifest env bs =
     (case ie_decode env bs of
        Err e \<Rightarrow> Err (IvdCbor (''decode: '' @ e))
      | Ok m \<Rightarrow> if mf_ivd_version m \<noteq> IVD_MANIFEST_VERSION then Err (UnsupportedManifestVersion (mf_ivd_version m)) else Ok m)"

definition build_manifest_from_files :: "ivd_env \<Rightarrow> ivd_file list \<Rightarrow> u64 \<Rightarrow> ivd_identity \<Rightarrow> ivd_manifest" where
  "build_manifest_from_files env files gn ident =
     \<lparr>mf_ivd_version = IVD_MANIFEST_VERSION, mf_signed_at_unix = ie_now env, mf_files = sort_key vf_relative_path files,
      mf_gen = gn, mf_identity = ident, mf_install_boot_id = None, mf_update_id = None\<rparr>"

section \<open>The walk of a bank directory\<close>

text \<open>The streaming hash: blocks are read until a read returns nothing.\<close>

function hash_blocks :: "nat \<Rightarrow> bytes \<Rightarrow> bytes \<Rightarrow> bytes" where
  "hash_blocks block seen rest =
     (let n = min block (length rest)
      in if n = 0 then seen else hash_blocks block (seen @ take n rest) (drop n rest))"
  by pat_completeness auto

termination hash_blocks
  by (relation "measure (\<lambda>(block, seen, rest). length rest)") (auto simp: min_def split: if_splits)

declare hash_blocks.simps [simp del]

definition sha256_content :: "ivd_env \<Rightarrow> bytes \<Rightarrow> bytes \<times> u64" where
  "sha256_content env c = (let seen = hash_blocks (ie_block env) [] c in (ie_sha env seen, of_nat (length seen)))"

definition ivd_owned :: "string \<Rightarrow> bool" where
  "ivd_owned n \<longleftrightarrow> n \<in> {IVD_MANIFEST_FILE, IVD_SIGNATURE_FILE, IVD_MANIFEST_TMP, IVD_SIGNATURE_TMP}"

definition ivd_entry :: "string \<Rightarrow> bytes \<times> u64 \<Rightarrow> ivd_file" where
  "ivd_entry path h = \<lparr>vf_relative_path = to_string_lossy path, vf_sha256 = fst h, vf_size = snd h\<rparr>"

function collect_files :: "ivd_env \<Rightarrow> bool \<Rightarrow> bool \<Rightarrow> string \<Rightarrow> dir \<Rightarrow> ivd_error + ivd_file list" where
  "collect_files env with_hashes root pre [] = Ok []"
| "collect_files env with_hashes root pre ((n, nd) # es) =
     (let path = pre @ n; rest = collect_files env with_hashes root pre es
      in if root \<and> ivd_owned (to_string_lossy n) then rest
         else case nd of
           Dir sub \<Rightarrow>
             and_then (collect_files env with_hashes False (path @ [slash]) sub) (\<lambda>fs. and_then rest (\<lambda>gs. Ok (fs @ gs)))
         | BadDir \<Rightarrow> Err (IvdIo OtherError path)
         | File c \<Rightarrow>
             and_then rest (\<lambda>gs. Ok (ivd_entry path (if with_hashes then sha256_content env c else ([], of_nat (length c))) # gs))
         | BadFile sz \<Rightarrow>
             if with_hashes then Err (IvdIo OtherError path)
             else and_then rest (\<lambda>gs. Ok (ivd_entry path ([], sz) # gs))
         | _ \<Rightarrow> rest)"
  by pat_completeness auto

termination collect_files
  by (relation "measure (\<lambda>(env, h, r, pre, es). size_list (size_prod (\<lambda>_. 0) size) es)") auto

section \<open>Signing\<close>

text \<open>
  Replace a file: write a temporary file, flush it, rename it over the file and flush the directory.
  When one of the first four calls fails the temporary file is removed again.
\<close>

definition write_file_durably :: "string \<Rightarrow> string \<Rightarrow> bytes \<Rightarrow> bank_fs \<Rightarrow> bank_fs \<times> (fs_error + unit)" where
  "write_file_durably name tmp bs w =
     (case on_ok (create_file tmp w) (\<lambda>w1 _. on_ok (write_all tmp bs w1) (\<lambda>w2 _. on_ok (sync_all w2) (\<lambda>w3 _.
             rename_file tmp name w3))) of
        (w', Err e) \<Rightarrow> (fst (remove_file tmp w'), Err e)
      | (w', Ok _) \<Rightarrow> (fst (sync_all w'), Ok ()))"

definition write_owned :: "string \<Rightarrow> string \<Rightarrow> bytes \<Rightarrow> bank_fs \<Rightarrow> bank_fs \<times> (ivd_error + unit)" where
  "write_owned name tmp bs w =
     (case write_file_durably name tmp bs w of
        (w', Err e) \<Rightarrow> (w', Err (IvdIo e name))
      | (w', Ok _) \<Rightarrow> (w', Ok ()))"

definition signed_manifest ::
    "ivd_env \<Rightarrow> ivd_file list \<Rightarrow> u64 \<Rightarrow> ivd_identity \<Rightarrow> string option \<Rightarrow> string option \<Rightarrow> ivd_manifest" where
  "signed_manifest env files gn ident boot_id update_id =
     (build_manifest_from_files env files gn ident)\<lparr>mf_install_boot_id := boot_id, mf_update_id := update_id\<rparr>"

definition sign_bank_with_files_inner ::
    "ivd_env \<Rightarrow> ('c \<Rightarrow> u32 \<Rightarrow> bytes \<Rightarrow> 'c \<times> (hsm_error + bytes)) \<Rightarrow> u64 \<Rightarrow> ivd_identity \<Rightarrow> ivd_file list
       \<Rightarrow> string option \<Rightarrow> string option \<Rightarrow> 'c \<times> bank_fs \<Rightarrow> ('c \<times> bank_fs) \<times> (ivd_error + ivd_manifest)" where
  "sign_bank_with_files_inner env sign gn ident files boot_id update_id cw =
     (let w = fst (remove_file IVD_SIGNATURE_TMP (fst (remove_file IVD_MANIFEST_TMP (snd cw))));
          m = signed_manifest env files gn ident boot_id update_id
      in case encode_manifest env m of
           Err e \<Rightarrow> ((fst cw, w), Err e)
         | Ok bs \<Rightarrow>
             (case sign (fst cw) (role_handle IvdSigning) bs of
                (c', Err e) \<Rightarrow> ((c', w), Err (IvdHsm e))
              | (c', Ok sig) \<Rightarrow>
                  (case on_ok (write_owned IVD_MANIFEST_FILE IVD_MANIFEST_TMP bs w)
                          (\<lambda>w1 _. write_owned IVD_SIGNATURE_FILE IVD_SIGNATURE_TMP sig w1) of
                     (w', Err e) \<Rightarrow> ((c', w'), Err e)
                   | (w', Ok _) \<Rightarrow> ((c', w'), Ok m))))"

definition sign_bank_with_files_crypto_at ::
    "ivd_env \<Rightarrow> ('c, 'z) crypto_ops_scheme \<Rightarrow> u64 \<Rightarrow> ivd_identity \<Rightarrow> ivd_file list
       \<Rightarrow> string option \<Rightarrow> string option \<Rightarrow> 'c \<times> bank_fs \<Rightarrow> ('c \<times> bank_fs) \<times> (ivd_error + ivd_manifest)" where
  "sign_bank_with_files_crypto_at env cr gn ident files boot_id update_id cw =
     sign_bank_with_files_inner env (cr_sign cr) gn ident files boot_id update_id cw"

definition sign_bank_with_files_crypto ::
    "ivd_env \<Rightarrow> ('c, 'z) crypto_ops_scheme \<Rightarrow> u64 \<Rightarrow> ivd_identity \<Rightarrow> ivd_file list
       \<Rightarrow> 'c \<times> bank_fs \<Rightarrow> ('c \<times> bank_fs) \<times> (ivd_error + ivd_manifest)" where
  "sign_bank_with_files_crypto env cr gn ident files cw =
     sign_bank_with_files_crypto_at env cr gn ident files None None cw"

definition collect_bank :: "ivd_env \<Rightarrow> bool \<Rightarrow> dir option \<Rightarrow> ivd_error + ivd_file list" where
  "collect_bank env with_hashes d =
     (case d of None \<Rightarrow> Err (IvdIo NotFound []) | Some es \<Rightarrow> collect_files env with_hashes True [] es)"

definition sign_bank_crypto_at ::
    "ivd_env \<Rightarrow> ('c, 'z) crypto_ops_scheme \<Rightarrow> u64 \<Rightarrow> ivd_identity \<Rightarrow> string option \<Rightarrow> string option
       \<Rightarrow> 'c \<times> bank_fs \<Rightarrow> ('c \<times> bank_fs) \<times> (ivd_error + ivd_manifest)" where
  "sign_bank_crypto_at env cr gn ident boot_id update_id cw =
     (case collect_bank env True (bf_dir (snd cw)) of
        Err e \<Rightarrow> (cw, Err e)
      | Ok files \<Rightarrow> sign_bank_with_files_crypto_at env cr gn ident files boot_id update_id cw)"

definition sign_bank_crypto ::
    "ivd_env \<Rightarrow> ('c, 'z) crypto_ops_scheme \<Rightarrow> u64 \<Rightarrow> ivd_identity \<Rightarrow> 'c \<times> bank_fs
       \<Rightarrow> ('c \<times> bank_fs) \<times> (ivd_error + ivd_manifest)" where
  "sign_bank_crypto env cr gn ident cw = sign_bank_crypto_at env cr gn ident None None cw"

text \<open>Creating a directory that exists does nothing.\<close>

definition create_dir_all :: "bank_fs \<Rightarrow> bank_fs \<times> (fs_error + unit)" where
  "create_dir_all w =
     (case bf_dir w of
        Some _ \<Rightarrow> (w, Ok ())
      | None \<Rightarrow>
          (case bf_faults w of
             Fails _ # fs \<Rightarrow> (w\<lparr>bf_faults := fs\<rparr>, Err OtherError)
           | PowerCut _ # _ \<Rightarrow> (w, Err OtherError)
           | fs \<Rightarrow> (\<lparr>bf_dir = Some [], bf_faults = tl fs\<rparr>, Ok ())))"

definition sign_disabled_record_crypto ::
    "ivd_env \<Rightarrow> ('c, 'z) crypto_ops_scheme \<Rightarrow> u64 \<Rightarrow> ivd_identity \<Rightarrow> 'c \<times> bank_fs
       \<Rightarrow> ('c \<times> bank_fs) \<times> (ivd_error + ivd_manifest)" where
  "sign_disabled_record_crypto env cr gn ident cw =
     (case create_dir_all (snd cw) of
        (w, Err e) \<Rightarrow> ((fst cw, w), Err (IvdIo e []))
      | (w, Ok _) \<Rightarrow> sign_bank_with_files_crypto env cr gn ident [ivd_disabled_record] (fst cw, w))"

section \<open>Verification\<close>

record verify_pins =
  vp_expected_install_gen :: "u64 option"
  vp_min_committed_gen :: "u64 option"

record verified_manifest =
  vm_manifest :: ivd_manifest
  vm_manifest_bytes :: bytes
  vm_signature :: bytes

definition read_owned :: "ivd_env \<Rightarrow> dir option \<Rightarrow> string \<Rightarrow> ivd_error + bytes" where
  "read_owned env d name =
     (case read_path (ie_outside env) d name of Err e \<Rightarrow> Err (IvdIo e name) | Ok b \<Rightarrow> Ok b)"

definition read_pair :: "ivd_env \<Rightarrow> dir option \<Rightarrow> ivd_error + bytes \<times> bytes" where
  "read_pair env d =
     and_then (read_owned env d IVD_MANIFEST_FILE) (\<lambda>bs.
     and_then (read_owned env d IVD_SIGNATURE_FILE) (\<lambda>sig. Ok (bs, sig)))"

definition read_signed_manifest ::
    "ivd_env \<Rightarrow> ('c \<Rightarrow> u32 \<Rightarrow> bytes \<Rightarrow> bytes \<Rightarrow> 'c \<times> (hsm_error + bool)) \<Rightarrow> dir option \<Rightarrow> 'c
       \<Rightarrow> 'c \<times> (ivd_error + ivd_manifest)" where
  "read_signed_manifest env verify d c =
     (case read_pair env d of
        Err e \<Rightarrow> (c, Err e)
      | Ok (bs, sig) \<Rightarrow>
          (case verify c (role_handle IvdSigning) bs sig of
             (c', Err e) \<Rightarrow> (c', Err (IvdHsm e))
           | (c', Ok ok) \<Rightarrow> (c', if ok then decode_manifest env bs else Err SignatureInvalid)))"

definition read_manifest_verified ::
    "ivd_env \<Rightarrow> ('c, 'z) crypto_ops_scheme \<Rightarrow> dir option \<Rightarrow> 'c \<Rightarrow> 'c \<times> (ivd_error + ivd_manifest)" where
  "read_manifest_verified env cr d c = read_signed_manifest env (cr_verify cr) d c"

definition read_manifest_unverified :: "ivd_env \<Rightarrow> dir option \<Rightarrow> ivd_error + verified_manifest" where
  "read_manifest_unverified env d =
     and_then (read_pair env d) (\<lambda>(bs, sig).
     and_then (decode_manifest env bs) (\<lambda>m. Ok \<lparr>vm_manifest = m, vm_manifest_bytes = bs, vm_signature = sig\<rparr>))"

definition check_pins :: "verify_pins \<Rightarrow> ivd_manifest \<Rightarrow> ivd_error + unit" where
  "check_pins pins m =
     (case vp_expected_install_gen pins of
        Some g \<Rightarrow> if mf_gen m \<noteq> g then Err (GenMismatch g (mf_gen m)) else Ok ()
      | None \<Rightarrow> Ok ())"

definition check_floor :: "verify_pins \<Rightarrow> ivd_manifest \<Rightarrow> ivd_error + unit" where
  "check_floor pins m =
     (case vp_min_committed_gen pins of
        Some f \<Rightarrow> if mf_gen m < f then Err (GenBelowFloor (mf_gen m) f) else Ok ()
      | None \<Rightarrow> Ok ())"

definition verify_claim :: "ivd_env \<Rightarrow> dir option \<Rightarrow> ivd_file \<Rightarrow> ivd_error + unit" where
  "verify_claim env d f =
     (case read_path (ie_outside env) d (vf_relative_path f) of
        Err NotFound \<Rightarrow> Err (MissingFile (vf_relative_path f))
      | Err e \<Rightarrow> Err (IvdIo e (vf_relative_path f))
      | Ok c \<Rightarrow>
          (case sha256_content env c of (actual, sz) \<Rightarrow>
             if sz \<noteq> vf_size f then Err (SizeMismatch (vf_relative_path f) (vf_size f) sz)
             else if actual \<noteq> vf_sha256 f then Err (HashMismatch (vf_relative_path f) (vf_sha256 f) actual)
             else Ok ()))"

fun verify_claims :: "ivd_env \<Rightarrow> dir option \<Rightarrow> ivd_file list \<Rightarrow> ivd_error + unit" where
  "verify_claims env d [] = Ok ()"
| "verify_claims env d (f # fs) = and_then (verify_claim env d f) (\<lambda>_. verify_claims env d fs)"

text \<open>The first file on disk, in the order of the paths, that the manifest does not list.\<close>

definition unexpected :: "ivd_file list \<Rightarrow> ivd_file list \<Rightarrow> string option" where
  "unexpected probe claimed =
     find (\<lambda>p. p \<notin> set (map vf_relative_path claimed)) (sort (remdups (map vf_relative_path probe)))"

definition verify_contents :: "ivd_env \<Rightarrow> dir option \<Rightarrow> ivd_manifest \<Rightarrow> ivd_error + ivd_manifest" where
  "verify_contents env d m =
     and_then (collect_bank env False d) (\<lambda>probe.
       case unexpected probe (mf_files m) of
         Some p \<Rightarrow> Err (UnexpectedFile p)
       | None \<Rightarrow> and_then (verify_claims env d (mf_files m)) (\<lambda>_. Ok m))"

definition verify_manifest :: "ivd_env \<Rightarrow> verify_pins \<Rightarrow> dir option \<Rightarrow> ivd_manifest \<Rightarrow> ivd_error + ivd_manifest" where
  "verify_manifest env pins d m =
     and_then (check_pins pins m) (\<lambda>_.
     and_then (check_floor pins m) (\<lambda>_.
       if is_disabled_manifest m then Err (AdminDisabled (mf_gen m)) else verify_contents env d m))"

definition verify_bank_crypto ::
    "ivd_env \<Rightarrow> ('c, 'z) crypto_ops_scheme \<Rightarrow> verify_pins \<Rightarrow> dir option \<Rightarrow> 'c \<Rightarrow> 'c \<times> (ivd_error + ivd_manifest)" where
  "verify_bank_crypto env cr pins d c =
     (case read_signed_manifest env (cr_verify cr) d c of
        (c', Err e) \<Rightarrow> (c', Err e)
      | (c', Ok m) \<Rightarrow> (c', verify_manifest env pins d m))"

section \<open>The launch check as a program\<close>

text \<open>
  \<^verbatim>\<open>services/sumo-verify/src/main.rs\<close>: the secure-boot stage runs it on a bank directory and launches the
  bank only when it exits with 0. The file system is given by the directory at a path (\<open>None\<close> when the
  path does not exist) and by the keystores that exist; a keystore gives the crypto operations. The
  result is the exit code and the lines on standard output.
\<close>

definition EXIT_OK :: nat where "EXIT_OK = 0"
definition EXIT_VERIFY_FAIL :: nat where "EXIT_VERIFY_FAIL = 1"
definition EXIT_USAGE :: nat where "EXIT_USAGE = 2"
definition EXIT_DISABLED :: nat where "EXIT_DISABLED = 3"

lemmas exit_codes = EXIT_OK_def EXIT_VERIFY_FAIL_def EXIT_USAGE_def EXIT_DISABLED_def

record verify_args =
  va_bank :: string
  va_keystore :: string
  va_expect_install_gen :: "u64 option"
  va_min_committed_gen :: "u64 option"
  va_quiet :: bool

text \<open>\<^verbatim>\<open>str::parse::<u64>\<close>: an optional plus sign, then decimal digits that do not overflow.\<close>

fun parse_digits :: "nat \<Rightarrow> string \<Rightarrow> nat option" where
  "parse_digits acc [] = Some acc"
| "parse_digits acc (c # cs) =
     (let d = of_char c :: nat
      in if 48 \<le> d \<and> d \<le> 57 \<and> acc * 10 + (d - 48) < 2 ^ 64 then parse_digits (acc * 10 + (d - 48)) cs else None)"

definition parse_u64 :: "string \<Rightarrow> u64 option" where
  "parse_u64 s =
     (let ds = (case s of c # cs \<Rightarrow> if c = CHR ''+'' then cs else s | [] \<Rightarrow> [])
      in if ds = [] then None else map_option of_nat (parse_digits 0 ds))"

definition parse_u64_arg :: "string list \<Rightarrow> nat + u64 \<times> string list" where
  "parse_u64_arg rest =
     (case rest of
        [] \<Rightarrow> Err EXIT_USAGE
      | v # rest' \<Rightarrow> (case parse_u64 v of None \<Rightarrow> Err EXIT_USAGE | Some n \<Rightarrow> Ok (n, rest')))"

record arg_state =
  as_bank :: "string option"
  as_keystore :: "string option"
  as_expect :: "u64 option"
  as_min :: "u64 option"
  as_quiet :: bool

definition arg_start :: arg_state where
  "arg_start = \<lparr>as_bank = None, as_keystore = None, as_expect = None, as_min = None, as_quiet = False\<rparr>"

text \<open>The loop over the arguments after the program name.\<close>

function parse_loop :: "arg_state \<Rightarrow> string list \<Rightarrow> nat + arg_state" where
  "parse_loop st [] = Ok st"
| "parse_loop st (a # rest) =
     (if a = ''--bank'' then
        (case rest of [] \<Rightarrow> Err EXIT_USAGE | v # rest' \<Rightarrow> parse_loop (st\<lparr>as_bank := Some v\<rparr>) rest')
      else if a = ''--keystore'' then
        (case rest of [] \<Rightarrow> Err EXIT_USAGE | v # rest' \<Rightarrow> parse_loop (st\<lparr>as_keystore := Some v\<rparr>) rest')
      else if a = ''--expect-install-gen'' then
        (case parse_u64_arg rest of Err e \<Rightarrow> Err e | Ok (n, rest') \<Rightarrow> parse_loop (st\<lparr>as_expect := Some n\<rparr>) rest')
      else if a = ''--min-committed-gen'' then
        (case parse_u64_arg rest of Err e \<Rightarrow> Err e | Ok (n, rest') \<Rightarrow> parse_loop (st\<lparr>as_min := Some n\<rparr>) rest')
      else if a = ''--quiet'' then parse_loop (st\<lparr>as_quiet := True\<rparr>) rest
      else if a = ''--help'' \<or> a = ''-h'' then Err EXIT_OK
      else Err EXIT_USAGE)"
  by pat_completeness auto

termination parse_loop
  by (relation "measure (\<lambda>(st, args). length args)") (auto simp: parse_u64_arg_def split: list.splits option.splits)

definition parse_args :: "string list \<Rightarrow> nat + verify_args" where
  "parse_args argv =
     and_then (parse_loop arg_start (drop 1 argv)) (\<lambda>st.
       case as_bank st of
         None \<Rightarrow> Err EXIT_USAGE
       | Some b \<Rightarrow>
           (case as_keystore st of
              None \<Rightarrow> Err EXIT_USAGE
            | Some k \<Rightarrow> Ok \<lparr>va_bank = b, va_keystore = k, va_expect_install_gen = as_expect st,
                           va_min_committed_gen = as_min st, va_quiet = as_quiet st\<rparr>))"

definition ok_line :: "ivd_manifest \<Rightarrow> string" where
  "ok_line m = ''ok gen='' @ dec (unat (mf_gen m)) @ '' files='' @ dec (length (mf_files m))
     @ '' signed_at_unix='' @ dec (unat (mf_signed_at_unix m))"

definition launch_check ::
    "ivd_env \<Rightarrow> 'c crypto_ops \<Rightarrow> verify_args \<Rightarrow> dir option \<Rightarrow> 'c \<Rightarrow> ivd_error + ivd_manifest" where
  "launch_check env cr args d c =
     snd (verify_bank_crypto env cr
       \<lparr>vp_expected_install_gen = va_expect_install_gen args, vp_min_committed_gen = va_min_committed_gen args\<rparr> d c)"

definition sumo_verify ::
    "ivd_env \<Rightarrow> (string \<Rightarrow> dir option) \<Rightarrow> (string \<Rightarrow> ('c crypto_ops \<times> 'c) option) \<Rightarrow> string list \<Rightarrow> nat \<times> string list" where
  "sumo_verify env dirs keystores argv =
     (case parse_args argv of
        Err code \<Rightarrow> (code, [])
      | Ok args \<Rightarrow>
          if dirs (va_bank args) = None then (EXIT_USAGE, [])
          else case keystores (va_keystore args) of
            None \<Rightarrow> (EXIT_USAGE, [])
          | Some (cr, c) \<Rightarrow>
              (case launch_check env cr args (dirs (va_bank args)) c of
                 Ok m \<Rightarrow> (EXIT_OK, if va_quiet args then [] else [ok_line m])
               | Err (AdminDisabled g) \<Rightarrow> (EXIT_DISABLED, [''disabled gen='' @ dec (unat g)])
               | Err _ \<Rightarrow> (EXIT_VERIFY_FAIL, [])))"

end
