(* ===== verification/IvdProps.thy ===== *)
theory IvdProps
  imports Ivd LinkBProps
begin

text \<open>
  Properties of the integrity data of a bank: what the launch check accepts, that a signed bank passes
  it, what an interrupted signing leaves, and that a disabled bank never passes.
\<close>

section \<open>The walk\<close>

lemma hash_blocks_eq: "0 < block \<Longrightarrow> hash_blocks block seen rest = seen @ rest"
proof (induction block seen rest rule: hash_blocks.induct)
  case (1 block seen rest)
  show ?case
  proof (cases "rest = []")
    case False
    then have "min block (length rest) \<noteq> 0" using 1(2) by (simp add: min_def)
    then show ?thesis
      using 1(1) [of "min block (length rest)"] 1(2) by (subst hash_blocks.simps) (simp add: Let_def)
  qed (simp add: hash_blocks.simps)
qed

lemma sha256_content_eq: "0 < ie_block env \<Longrightarrow> sha256_content env c = (ie_sha env c, of_nat (length c))"
  by (simp add: sha256_content_def hash_blocks_eq)

text \<open>The nodes a walk of the directory meets, with their paths.\<close>

inductive listed :: "bool \<Rightarrow> dir \<Rightarrow> string \<Rightarrow> fnode \<Rightarrow> bool" where
  entry: "(n, nd) \<in> set es \<Longrightarrow> \<not> (root \<and> ivd_owned (to_string_lossy n)) \<Longrightarrow> listed root es n nd"
| below: "(n, Dir sub) \<in> set es \<Longrightarrow> \<not> (root \<and> ivd_owned (to_string_lossy n)) \<Longrightarrow> listed False sub p nd
    \<Longrightarrow> listed root es (n @ slash # p) nd"

lemma listed_Nil [simp]: "\<not> listed root [] p nd"
  by (auto elim: listed.cases)

lemma listed_Cons:
  "listed root ((n, x) # es) p nd \<longleftrightarrow>
     \<not> (root \<and> ivd_owned (to_string_lossy n)) \<and> (p = n \<and> nd = x \<or> (\<exists>sub q. x = Dir sub \<and> p = n @ slash # q \<and> listed False sub q nd))
     \<or> listed root es p nd"
  by (subst listed.simps, subst (2) listed.simps) auto

fun is_file_node :: "fnode \<Rightarrow> bool" where
  "is_file_node (File _) = True"
| "is_file_node (BadFile _) = True"
| "is_file_node _ = False"

definition file_paths :: "bool \<Rightarrow> dir \<Rightarrow> string set" where
  "file_paths root es = {p. \<exists>nd. listed root es p nd \<and> is_file_node nd}"

lemma file_paths_Cons:
  "file_paths root ((n, x) # es) =
     (if root \<and> ivd_owned (to_string_lossy n) then {}
      else (if is_file_node x then {n} else {}) \<union>
           (case x of Dir sub \<Rightarrow> (\<lambda>q. n @ slash # q) ` file_paths False sub | _ \<Rightarrow> {}))
     \<union> file_paths root es"
  by (cases x) (auto simp: file_paths_def listed_Cons)

definition walked :: "string \<Rightarrow> bool \<Rightarrow> dir \<Rightarrow> string set" where
  "walked pre root es = (\<lambda>p. to_string_lossy (pre @ p)) ` file_paths root es"

lemma walked_Nil [simp]: "walked pre root [] = {}"
  by (simp add: walked_def file_paths_def)

lemma walked_Cons:
  "walked pre root ((n, x) # es) =
     (if root \<and> ivd_owned (to_string_lossy n) then {}
      else (if is_file_node x then {to_string_lossy (pre @ n)} else {}) \<union>
           (case x of Dir sub \<Rightarrow> walked (pre @ n @ [slash]) False sub | _ \<Rightarrow> {}))
     \<union> walked pre root es"
  by (cases x) (simp_all add: walked_def file_paths_Cons image_Un image_image)

lemma bad_Cons:
  "(\<exists>p. listed root ((n, x) # es) p BadDir) \<longleftrightarrow>
     (\<not> (root \<and> ivd_owned (to_string_lossy n)) \<and> (x = BadDir \<or> (\<exists>sub p. x = Dir sub \<and> listed False sub p BadDir)))
     \<or> (\<exists>p. listed root es p BadDir)"
  by (auto simp: listed_Cons)

lemma collect_paths:
  "\<not> h \<Longrightarrow> case collect_files env h root pre es of
     Ok fs \<Rightarrow> (\<nexists>p. listed root es p BadDir) \<and> set (map vf_relative_path fs) = walked pre root es
   | Err e \<Rightarrow> \<exists>p. listed root es p BadDir"
proof (induction env h root pre es rule: collect_files.induct)
  case (2 env h root pre n nd es)
  note rest = "2.IH"(1) [OF refl "2.prems"]
  show ?case
  proof (cases "root \<and> ivd_owned (to_string_lossy n)")
    case False
    show ?thesis
    proof (cases nd)
      case (Dir sub)
      note inner = "2.IH"(2) [OF refl refl False Dir "2.prems", unfolded append_assoc]
      show ?thesis using inner rest False
        by (auto simp: Dir Let_def bad_Cons walked_Cons and_then_def simp del: map_eq_conv set_map split: sum.splits)
    qed (use rest False in \<open>auto simp: Let_def bad_Cons walked_Cons ivd_entry_def "2.prems" split: sum.splits\<close>)
  qed (use rest in \<open>auto simp: bad_Cons walked_Cons split: sum.splits\<close>)
qed simp

text \<open>A directory a file system can hold: names are distinct and are path components.\<close>

definition name_ok :: "string \<Rightarrow> bool" where
  "name_ok n \<longleftrightarrow> n \<noteq> [] \<and> n \<noteq> ''.'' \<and> n \<noteq> ''..'' \<and> slash \<notin> set n"

function wf_dir :: "dir \<Rightarrow> bool" where
  "wf_dir [] = True"
| "wf_dir ((n, nd) # es) =
     (name_ok n \<and> n \<notin> fst ` set es \<and> (case nd of Dir sub \<Rightarrow> wf_dir sub | _ \<Rightarrow> True) \<and> wf_dir es)"
  by pat_completeness auto

termination wf_dir
  by (relation "measure (size_list (size_prod (\<lambda>_. 0) size))") auto

lemma wf_dir_entry:
  "wf_dir es \<Longrightarrow> (n, nd) \<in> set es \<Longrightarrow> name_ok n \<and> map_of es n = Some nd \<and> (case nd of Dir sub \<Rightarrow> wf_dir sub | _ \<Rightarrow> True)"
  by (induction es rule: wf_dir.induct) (auto simp: image_iff)

lemma split_at_name: "c \<notin> set n \<Longrightarrow> split_at c n = [n]"
  by (induction n) auto

lemma split_at_join: "c \<notin> set n \<Longrightarrow> split_at c (n @ c # p) = n # split_at c p"
  by (induction n) auto

lemma open_entry:
  "wf_dir es \<Longrightarrow> (n, nd) \<in> set es \<Longrightarrow> open_path out path (n # ps) (Dir es) = open_path out path ps nd"
  by (drule (1) wf_dir_entry) (simp add: name_ok_def)

lemma open_listed:
  "listed root es p nd \<Longrightarrow> wf_dir es \<Longrightarrow> open_path out path (split_at slash p) (Dir es) = open_path out path [] nd"
proof (induction rule: listed.induct)
  case (entry n nd es root)
  then show ?case using wf_dir_entry [OF entry.prems entry.hyps(1)] open_entry [OF entry.prems entry.hyps(1), of out path "[]"]
    by (simp add: name_ok_def split_at_name)
next
  case (below n sub es root p nd)
  then show ?case using wf_dir_entry [OF below.prems below.hyps(1)] open_entry [OF below.prems below.hyps(1), of out path]
    by (simp add: name_ok_def split_at_join)
qed

lemma listed_head: "listed root es p nd \<Longrightarrow> wf_dir es \<Longrightarrow> p \<noteq> [] \<and> hd p \<noteq> slash"
proof (erule listed.cases)
  fix n nd' es' root'
  assume "p = n" "es = es'" "(n, nd') \<in> set es'" "wf_dir es"
  then have "name_ok n" using wf_dir_entry by blast
  then show "p \<noteq> [] \<and> hd p \<noteq> slash" using \<open>p = n\<close> by (metis hd_in_set name_ok_def)
next
  fix n sub es' root' q nd'
  assume "p = n @ slash # q" "es = es'" "(n, Dir sub) \<in> set es'" "wf_dir es"
  then have "name_ok n" using wf_dir_entry by blast
  then show "p \<noteq> [] \<and> hd p \<noteq> slash" using \<open>p = n @ slash # q\<close> by (metis hd_append2 hd_in_set name_ok_def append_is_Nil_conv)
qed

lemma read_listed:
  "listed root es p nd \<Longrightarrow> wf_dir es \<Longrightarrow> read_path out (Some es) p = open_path out p [] nd"
  using listed_head [of root es p nd] open_listed [of root es p nd] by (simp add: read_path_def)

text \<open>A walk that hashes meets every file, and none is unreadable.\<close>

definition file_nodes :: "bool \<Rightarrow> dir \<Rightarrow> (string \<times> bytes) set" where
  "file_nodes root es = {(p, c). listed root es p (File c)}"

lemma file_nodes_Cons:
  "file_nodes root ((n, x) # es) =
     (if root \<and> ivd_owned (to_string_lossy n) then {}
      else case x of File c \<Rightarrow> {(n, c)} | Dir sub \<Rightarrow> (\<lambda>(q, c). (n @ slash # q, c)) ` file_nodes False sub | _ \<Rightarrow> {})
     \<union> file_nodes root es"
  by (cases x) (auto simp: file_nodes_def listed_Cons image_iff)

definition hashed :: "ivd_env \<Rightarrow> string \<Rightarrow> bool \<Rightarrow> dir \<Rightarrow> ivd_file set" where
  "hashed env pre root es = (\<lambda>(p, c). ivd_entry (pre @ p) (sha256_content env c)) ` file_nodes root es"

lemma hashed_Nil [simp]: "hashed env pre root [] = {}"
  by (simp add: hashed_def file_nodes_def)

lemma hashed_Cons:
  "hashed env pre root ((n, x) # es) =
     (if root \<and> ivd_owned (to_string_lossy n) then {}
      else case x of File c \<Rightarrow> {ivd_entry (pre @ n) (sha256_content env c)}
             | Dir sub \<Rightarrow> hashed env (pre @ n @ [slash]) False sub | _ \<Rightarrow> {})
     \<union> hashed env pre root es"
  by (cases x) (simp_all add: hashed_def file_nodes_Cons image_Un image_image case_prod_beta)

lemma collect_hashed: "h \<Longrightarrow> collect_files env h root pre es = Ok fs \<Longrightarrow> set fs = hashed env pre root es"
proof (induction env h root pre es arbitrary: fs rule: collect_files.induct)
  case (2 env h root pre n nd es)
  show ?case
  proof (cases "root \<and> ivd_owned (to_string_lossy n)")
    case False
    show ?thesis
    proof (cases nd)
      case (Dir sub)
      note inner = "2.IH"(2) [OF refl refl False Dir "2.prems"(1), unfolded append_assoc]
      show ?thesis using inner "2.IH"(1) [OF refl "2.prems"(1)] "2.prems"(2) False
        by (auto simp: Dir Let_def hashed_Cons and_then_eq_Ok)
    qed (use "2.IH"(1) [OF refl "2.prems"(1)] "2.prems" False in \<open>auto simp: Let_def hashed_Cons and_then_eq_Ok\<close>)
  qed (use "2.IH"(1) [OF refl "2.prems"(1)] "2.prems"(2) in \<open>simp add: hashed_Cons\<close>)
qed simp

lemma collect_readable:
  "h \<Longrightarrow> collect_files env h root pre es = Ok fs \<Longrightarrow> listed root es p nd \<Longrightarrow> is_file_node nd \<or> nd = BadDir \<Longrightarrow> \<exists>c. nd = File c"
proof (induction env h root pre es arbitrary: fs p rule: collect_files.induct)
  case (2 env h root pre n x es)
  have rest: "\<exists>c. nd = File c" if "listed root es q nd" "collect_files env h root pre es = Ok gs" for q gs
    using "2.IH"(1) [OF refl "2.prems"(1) that(2,1) "2.prems"(4)] .
  have inner: "\<exists>c. nd = File c"
    if "\<not> (root \<and> ivd_owned (to_string_lossy n))" "x = Dir sub" "listed False sub q nd"
      "collect_files env h False ((pre @ n) @ [slash]) sub = Ok gs" for sub q gs
    using "2.IH"(2) [OF refl refl that(1,2) "2.prems"(1) that(4,3) "2.prems"(4)] .
  show ?case
    using "2.prems" rest inner
    by (cases x) (auto simp: listed_Cons Let_def and_then_eq_Ok split: if_splits, blast+)
qed simp

section \<open>What the launch check accepts\<close>

lemma verify_claims_Ok: "verify_claims env d fs = Ok () \<longleftrightarrow> (\<forall>f \<in> set fs. verify_claim env d f = Ok ())"
  by (induction fs) (auto simp: and_then_eq_Ok)

lemma verify_claim_Ok:
  assumes "0 < ie_block env"
  shows "verify_claim env d f = Ok () \<longleftrightarrow>
    (\<exists>c. read_path (ie_outside env) d (vf_relative_path f) = Ok c \<and> vf_size f = of_nat (length c) \<and> vf_sha256 f = ie_sha env c)"
  by (auto simp: verify_claim_def sha256_content_eq [OF assms] split: sum.splits fs_error.splits if_splits)

lemma unexpected_None: "unexpected probe claimed = None \<longleftrightarrow> vf_relative_path ` set probe \<subseteq> vf_relative_path ` set claimed"
  by (auto simp: unexpected_def find_None_iff)

lemma collect_bank_probe:
  "(\<exists>probe. collect_bank env False d = Ok probe \<and> vf_relative_path ` set probe \<subseteq> X) \<longleftrightarrow>
     (\<exists>es. d = Some es \<and> (\<nexists>p. listed True es p BadDir) \<and> (\<forall>p nd. listed True es p nd \<longrightarrow> is_file_node nd \<longrightarrow> to_string_lossy p \<in> X))"
proof (cases d)
  case (Some es)
  have "walked [] True es \<subseteq> X \<longleftrightarrow> (\<forall>p nd. listed True es p nd \<longrightarrow> is_file_node nd \<longrightarrow> to_string_lossy p \<in> X)"
    by (auto simp: walked_def file_paths_def)
  then show ?thesis using collect_paths [where h = False and env = env and root = True and pre = "[]" and es = es]
    by (auto simp: Some collect_bank_def split: sum.splits)
qed (simp add: collect_bank_def)

text \<open>
  The directory holds exactly what the manifest lists: every file the walk meets is listed, and every
  listed file is there with the size and the hash of its entry.
\<close>

definition attested :: "ivd_env \<Rightarrow> dir \<Rightarrow> ivd_manifest \<Rightarrow> bool" where
  "attested env es m \<longleftrightarrow>
     (\<nexists>p. listed True es p BadDir)
     \<and> (\<forall>p nd. listed True es p nd \<longrightarrow> is_file_node nd \<longrightarrow> to_string_lossy p \<in> vf_relative_path ` set (mf_files m))
     \<and> (\<forall>f \<in> set (mf_files m). \<exists>c. read_path (ie_outside env) (Some es) (vf_relative_path f) = Ok c
          \<and> vf_size f = of_nat (length c) \<and> vf_sha256 f = ie_sha env c)"

lemma verify_contents_Ok:
  assumes "0 < ie_block env"
  shows "verify_contents env d m = Ok m' \<longleftrightarrow> m' = m \<and> (\<exists>es. d = Some es \<and> attested env es m)"
proof -
  have "verify_contents env d m = Ok m' \<longleftrightarrow> m' = m \<and> verify_claims env d (mf_files m) = Ok ()
      \<and> (\<exists>probe. collect_bank env False d = Ok probe \<and> unexpected probe (mf_files m) = None)"
    by (auto simp: verify_contents_def and_then_eq_Ok split: option.splits)
  then show ?thesis
    unfolding unexpected_None collect_bank_probe verify_claims_Ok verify_claim_Ok [OF assms] attested_def by blast
qed

lemma verify_manifest_Ok:
  assumes "0 < ie_block env"
  shows "verify_manifest env pins d m = Ok m' \<longleftrightarrow> m' = m
    \<and> (\<forall>g. vp_expected_install_gen pins = Some g \<longrightarrow> mf_gen m = g)
    \<and> (\<forall>f. vp_min_committed_gen pins = Some f \<longrightarrow> f \<le> mf_gen m)
    \<and> \<not> is_disabled_manifest m \<and> (\<exists>es. d = Some es \<and> attested env es m)"
  by (auto simp: verify_manifest_def check_pins_def check_floor_def and_then_eq_Ok verify_contents_Ok [OF assms] not_less
      split: option.splits if_splits)

lemma read_signed_Ok:
  "snd (read_signed_manifest env verify d c) = Ok m \<longleftrightarrow>
     (\<exists>bs sig. read_path (ie_outside env) d IVD_MANIFEST_FILE = Ok bs \<and> read_path (ie_outside env) d IVD_SIGNATURE_FILE = Ok sig
        \<and> snd (verify c (role_handle IvdSigning) bs sig) = Ok True \<and> ie_decode env bs = Ok m \<and> mf_ivd_version m = IVD_MANIFEST_VERSION)"
  by (auto simp: read_signed_manifest_def read_pair_def read_owned_def and_then_def decode_manifest_def
      split: sum.splits prod.splits if_splits)

lemma verify_bank_split:
  "snd (verify_bank_crypto env cr pins d c) = Ok m \<longleftrightarrow>
     (\<exists>m'. snd (read_signed_manifest env (cr_verify cr) d c) = Ok m' \<and> verify_manifest env pins d m' = Ok m)"
  by (auto simp: verify_bank_crypto_def split: prod.splits sum.splits)

text \<open>C13: the launch check accepts a bank exactly when the manifest in it carries a signature the HSM
  accepts, its generation is the installed one and not below the committed one, it is not the disable
  record, and the directory holds the listed files and no others, with their sizes and hashes.\<close>

theorem ivd_verify_exact:
  assumes "0 < ie_block env"
  shows "snd (verify_bank_crypto env cr pins d c) = Ok m \<longleftrightarrow>
    (\<exists>bs sig es. d = Some es
       \<and> read_path (ie_outside env) d IVD_MANIFEST_FILE = Ok bs \<and> read_path (ie_outside env) d IVD_SIGNATURE_FILE = Ok sig
       \<and> snd (cr_verify cr c (role_handle IvdSigning) bs sig) = Ok True
       \<and> ie_decode env bs = Ok m \<and> mf_ivd_version m = IVD_MANIFEST_VERSION
       \<and> (\<forall>g. vp_expected_install_gen pins = Some g \<longrightarrow> mf_gen m = g)
       \<and> (\<forall>f. vp_min_committed_gen pins = Some f \<longrightarrow> f \<le> mf_gen m)
       \<and> \<not> is_disabled_manifest m \<and> attested env es m)"
  unfolding verify_bank_split read_signed_Ok verify_manifest_Ok [OF assms] by blast

section \<open>Signing\<close>

definition look :: "bank_fs \<Rightarrow> string \<Rightarrow> fnode option" where
  "look w n = (case bf_dir w of None \<Rightarrow> None | Some d \<Rightarrow> map_of d n)"

lemma fs_call_cases:
  assumes "fs_call act part w = (w', r)"
  obtains (absent) "bf_dir w = None" "w' = w" "r = Err NotFound"
  | (cut) d n where "bf_dir w = Some d" "bf_dir w' = Some (part n d)" "r = Err OtherError" "bf_faults w \<noteq> []"
  | (error) d e where "bf_dir w = Some d" "bf_dir w' = Some d" "act d = Err e" "r = Err e"
  | (ran) d d' where "bf_dir w = Some d" "bf_dir w' = Some d'" "act d = Ok d'" "r = Ok ()"
  using assms by (auto simp: fs_call_def split: option.splits list.splits fault.splits sum.splits)

definition plain :: "bank_fs \<Rightarrow> string \<Rightarrow> bool" where
  "plain w n \<longleftrightarrow> look w n \<notin> insert (Some Special) (range (Some \<circ> Link))"

lemma look_dir: "bf_dir w = Some d \<Longrightarrow> look w = map_of d"
  by (simp add: look_def fun_eq_iff)

lemma look_absent: "bf_dir w = None \<Longrightarrow> look w n = None"
  by (simp add: look_def)

text \<open>The effect of each call on the entries.\<close>

lemma remove_look:
  assumes "remove_file n w = (w', r)"
  shows "look w' = (if r = Ok () then (look w)(n := None) else look w)"
  using assms unfolding remove_file_def
  by (cases rule: fs_call_cases)
    (auto simp: look_dir AList.delete_conv' split: option.splits fnode.splits)

lemma create_look:
  assumes "create_file n w = (w', r)" "plain w n"
  shows "look w' = (if r = Ok () then (look w)(n \<mapsto> File []) else look w)"
  using assms unfolding create_file_def
  by (cases rule: fs_call_cases)
    (auto simp: look_dir AList.update_conv' plain_def split: option.splits fnode.splits)

lemma write_look:
  assumes "write_all n bs w = (w', r)" "look w n = Some (File c)"
  shows "if r = Ok () then look w' = (look w)(n \<mapsto> File (c @ bs)) else \<exists>c'. look w' = (look w)(n \<mapsto> File c')"
  using assms unfolding write_all_def
  by (cases rule: fs_call_cases)
    (auto simp: look_dir look_absent append_file_def AList.update_conv' map_upd_triv split: option.splits fnode.splits)

lemma sync_look: "sync_all w = (w', r) \<Longrightarrow> look w' = look w"
  unfolding sync_all_def by (cases rule: fs_call_cases) (auto simp: look_dir)

lemma rename_look:
  assumes "rename_file src dst w = (w', r)" "src \<noteq> dst"
  shows "look w' = (if r = Ok () then (look w)(src := None, dst := look w src) else look w)"
  using assms unfolding rename_file_def
  by (cases rule: fs_call_cases)
    (auto simp: look_dir AList.update_conv' AList.delete_conv' fun_eq_iff split: option.splits fnode.splits)

text \<open>Replacing a file: done, or its old state with at most the temporary file changed.\<close>

lemma durably_look:
  assumes "write_file_durably name tmp bs w = (w', r)" "name \<noteq> tmp" "plain w tmp"
  shows "(\<forall>n. n \<notin> {name, tmp} \<longrightarrow> look w' n = look w n) \<and> look w' name = (if r = Ok () then Some (File bs) else look w name)
    \<and> plain w' tmp"
proof -
  obtain w1 r1 where c: "create_file tmp w = (w1, r1)" by fastforce
  obtain w2 r2 where a: "write_all tmp bs w1 = (w2, r2)" by fastforce
  obtain w3 r3 where f: "sync_all w2 = (w3, r3)" by fastforce
  obtain w4 r4 where m: "rename_file tmp name w3 = (w4, r4)" by fastforce
  obtain w5 r5 where u: "sync_all w4 = (w5, r5)" by fastforce
  have rm: "look (fst (remove_file tmp v)) = (look v)(tmp := None) \<or> look (fst (remove_file tmp v)) = look v" for v
    using remove_look [of tmp v] by (cases "remove_file tmp v") auto
  note l = create_look [OF c assms(3)] write_look [OF a] sync_look [OF f] rename_look [OF m assms(2) [symmetric]] sync_look [OF u]
  consider "r1 \<noteq> Ok ()" "w' = fst (remove_file tmp w1)" "r \<noteq> Ok ()"
    | "r1 = Ok ()" "r2 \<noteq> Ok ()" "w' = fst (remove_file tmp w2)" "r \<noteq> Ok ()"
    | "r1 = Ok ()" "r2 = Ok ()" "r3 \<noteq> Ok ()" "w' = fst (remove_file tmp w3)" "r \<noteq> Ok ()"
    | "r1 = Ok ()" "r2 = Ok ()" "r3 = Ok ()" "r4 \<noteq> Ok ()" "w' = fst (remove_file tmp w4)" "r \<noteq> Ok ()"
    | "r1 = Ok ()" "r2 = Ok ()" "r3 = Ok ()" "r4 = Ok ()" "w' = w5" "r = Ok ()"
    using assms(1) by (cases r1; cases r2; cases r3; cases r4)
      (auto simp: write_file_durably_def on_ok_def c a f m u)
  then show ?thesis
  proof cases
    case 5
    then show ?thesis using l assms(2) by (auto simp: plain_def fun_eq_iff)
  qed (use l assms(2,3) rm [of w1] rm [of w2] rm [of w3] rm [of w4] in \<open>auto simp: plain_def fun_eq_iff\<close>)
qed

text \<open>Calls on the files the integrity data owns leave the walk as it was.\<close>

lemma owned_lossy:
  assumes "ivd_owned n"
  shows "ivd_owned (to_string_lossy n)"
proof -
  have "list_all (\<lambda>n. utf8_valid (str_bytes n)) [IVD_MANIFEST_FILE, IVD_SIGNATURE_FILE, IVD_MANIFEST_TMP, IVD_SIGNATURE_TMP]"
    by code_simp
  then have "to_string_lossy n = n" using assms by (auto simp: ivd_owned_def to_string_lossy_def)
  then show ?thesis using assms by simp
qed

lemma collect_update:
  "ivd_owned n \<Longrightarrow> collect_files env h True pre (AList.update n nd d) = collect_files env h True pre d"
  using owned_lossy [of n] by (induction d) (auto simp: Let_def)

lemma collect_delete:
  "ivd_owned n \<Longrightarrow> collect_files env h True pre (AList.delete n d) = collect_files env h True pre d"
  using owned_lossy [of n] by (induction d) (auto simp: Let_def AList.delete_eq)

lemma call_walk:
  assumes "fs_call act part w = (w', r)"
    and "\<And>d d'. act d = Ok d' \<Longrightarrow> collect_files env h True [] d' = collect_files env h True [] d"
    and "\<And>k d. collect_files env h True [] (part k d) = collect_files env h True [] d"
  shows "collect_bank env h (bf_dir w') = collect_bank env h (bf_dir w)"
  using assms(1) by (cases rule: fs_call_cases) (simp_all add: collect_bank_def assms(2,3))

lemma call_walks:
  assumes "ivd_owned n" "ivd_owned n'"
  shows "collect_bank env h (bf_dir (fst (remove_file n w))) = collect_bank env h (bf_dir w)"
    "collect_bank env h (bf_dir (fst (create_file n w))) = collect_bank env h (bf_dir w)"
    "collect_bank env h (bf_dir (fst (write_all n bs w))) = collect_bank env h (bf_dir w)"
    "collect_bank env h (bf_dir (fst (sync_all w))) = collect_bank env h (bf_dir w)"
    "collect_bank env h (bf_dir (fst (rename_file n n' w))) = collect_bank env h (bf_dir w)"
  unfolding remove_file_def create_file_def write_all_def sync_all_def rename_file_def
  by (rule call_walk [OF prod.collapse [symmetric]];
      auto simp: collect_update collect_delete append_file_def assms split: option.splits fnode.splits)+

lemma on_ok_fst:
  assumes "P (fst r)" "\<And>w a. P w \<Longrightarrow> P (fst (f w a))"
  shows "P (fst (on_ok r f))"
  using assms by (cases r) (auto simp: on_ok_def split: sum.splits)

lemma durably_walk:
  assumes "ivd_owned name" "ivd_owned tmp"
  shows "collect_bank env h (bf_dir (fst (write_file_durably name tmp bs w))) = collect_bank env h (bf_dir w)"
proof -
  let ?P = "\<lambda>v. collect_bank env h (bf_dir v) = collect_bank env h (bf_dir w)"
  let ?chain = "on_ok (create_file tmp w) (\<lambda>w1 _. on_ok (write_all tmp bs w1) (\<lambda>w2 _. on_ok (sync_all w2) (\<lambda>w3 _.
             rename_file tmp name w3)))"
  have "?P (fst ?chain)"
    by (intro on_ok_fst [where P = ?P]) (simp_all add: call_walks [OF assms(2,1)])
  then show ?thesis
    by (cases ?chain; cases "snd ?chain") (auto simp: write_file_durably_def call_walks [OF assms(2,1)])
qed

lemma owned_names [simp]:
  "ivd_owned IVD_MANIFEST_FILE" "ivd_owned IVD_SIGNATURE_FILE" "ivd_owned IVD_MANIFEST_TMP" "ivd_owned IVD_SIGNATURE_TMP"
  by (simp_all add: ivd_owned_def)

lemma owned_distinct [simp]:
  "IVD_MANIFEST_FILE \<noteq> IVD_SIGNATURE_FILE" "IVD_SIGNATURE_FILE \<noteq> IVD_MANIFEST_FILE"
  "IVD_MANIFEST_FILE \<noteq> IVD_MANIFEST_TMP" "IVD_MANIFEST_TMP \<noteq> IVD_MANIFEST_FILE"
  "IVD_MANIFEST_FILE \<noteq> IVD_SIGNATURE_TMP" "IVD_SIGNATURE_TMP \<noteq> IVD_MANIFEST_FILE"
  "IVD_SIGNATURE_FILE \<noteq> IVD_MANIFEST_TMP" "IVD_MANIFEST_TMP \<noteq> IVD_SIGNATURE_FILE"
  "IVD_SIGNATURE_FILE \<noteq> IVD_SIGNATURE_TMP" "IVD_SIGNATURE_TMP \<noteq> IVD_SIGNATURE_FILE"
  "IVD_MANIFEST_TMP \<noteq> IVD_SIGNATURE_TMP" "IVD_SIGNATURE_TMP \<noteq> IVD_MANIFEST_TMP"
  by (simp_all add: ivd_names)

lemma write_owned_effect:
  assumes "write_owned name tmp bs w = (w', r)" "name \<noteq> tmp" "plain w tmp" "ivd_owned name" "ivd_owned tmp"
  shows "(\<forall>n. n \<notin> {name, tmp} \<longrightarrow> look w' n = look w n) \<and> (\<forall>h. collect_bank env h (bf_dir w') = collect_bank env h (bf_dir w))
    \<and> look w' name = (if r = Ok () then Some (File bs) else look w name)"
proof -
  obtain r' where w: "write_file_durably name tmp bs w = (w', r')" "r = Ok () \<longleftrightarrow> r' = Ok ()"
    using assms(1) by (auto simp: write_owned_def split: prod.splits sum.splits)
  show ?thesis
    using durably_look [OF w(1) assms(2,3)] durably_walk [OF assms(4,5), where bs = bs and w = w] w assms(2)
    by (auto split: if_splits)
qed

text \<open>The two temporary files a signing starts by removing.\<close>

definition swept :: "bank_fs \<Rightarrow> bank_fs" where
  "swept w = fst (remove_file IVD_SIGNATURE_TMP (fst (remove_file IVD_MANIFEST_TMP w)))"

lemma swept_look:
  "n \<notin> {IVD_MANIFEST_TMP, IVD_SIGNATURE_TMP} \<Longrightarrow> look (swept w) n = look w n"
  "plain w n \<Longrightarrow> plain (swept w) n"
  using remove_look [of IVD_MANIFEST_TMP w] remove_look [of IVD_SIGNATURE_TMP "fst (remove_file IVD_MANIFEST_TMP w)"]
  by (auto simp: swept_def plain_def prod_eq_iff split: if_splits)

lemma swept_walk: "collect_bank env h (bf_dir (swept w)) = collect_bank env h (bf_dir w)"
  by (simp add: swept_def call_walks(1) [OF _ owned_names(1)])

text \<open>
  What a signing leaves: both files new when it succeeds; when it fails, both old, or the new
  manifest beside the old signature.
\<close>

lemma sign_inner_effect:
  assumes "sign_bank_with_files_inner env sign gn ident files bid uid (c, w) = ((c', w'), r)"
    and "plain w IVD_MANIFEST_TMP" "plain w IVD_SIGNATURE_TMP"
  defines "m \<equiv> signed_manifest env files gn ident bid uid"
  shows "(\<forall>n. \<not> ivd_owned n \<longrightarrow> look w' n = look w n) \<and> (\<forall>h. collect_bank env h (bf_dir w') = collect_bank env h (bf_dir w))
    \<and> (case r of
         Ok m' \<Rightarrow> m' = m \<and> (\<exists>bs sig. ie_encode env m = Ok bs \<and> sign c (role_handle IvdSigning) bs = (c', Ok sig)
           \<and> look w' IVD_MANIFEST_FILE = Some (File bs) \<and> look w' IVD_SIGNATURE_FILE = Some (File sig))
       | Err e \<Rightarrow> look w' IVD_SIGNATURE_FILE = look w IVD_SIGNATURE_FILE
           \<and> (look w' IVD_MANIFEST_FILE = look w IVD_MANIFEST_FILE
              \<or> (\<exists>bs. ie_encode env m = Ok bs \<and> look w' IVD_MANIFEST_FILE = Some (File bs))))"
proof (cases "encode_manifest env m")
  case (Inl e)
  then have "w' = swept w" "r = Err e"
    using assms(1) by (simp_all add: sign_bank_with_files_inner_def swept_def m_def Let_def)
  then show ?thesis using swept_look(1) [of _ w] swept_walk [where w = w] by (auto simp: ivd_owned_def)
next
  case enc: (Inr bs)
  then have bs: "ie_encode env m = Ok bs" by (simp add: encode_manifest_def split: sum.splits)
  obtain c1 q where sg: "sign c (role_handle IvdSigning) bs = (c1, q)" by fastforce
  obtain w1 r1 where 1: "write_owned IVD_MANIFEST_FILE IVD_MANIFEST_TMP bs (swept w) = (w1, r1)" by fastforce
  note eff1 = write_owned_effect [OF 1 owned_distinct(3) swept_look(2) [OF assms(2)] owned_names(1,3), where env = env]
  have "plain w1 IVD_SIGNATURE_TMP"
    using eff1 swept_look(2) [OF assms(3)] by (simp add: plain_def)
  note eff2 = write_owned_effect [OF _ owned_distinct(9) this owned_names(2,4), where env = env]
  note frame = swept_look(1) [of _ w] swept_walk [where w = w]
  show ?thesis
  proof (cases q)
    case (Inl e)
    then have "w' = swept w" "\<exists>e'. r = Err e'"
      using assms(1) enc sg by (auto simp: sign_bank_with_files_inner_def swept_def m_def Let_def)
    then show ?thesis using frame by (auto simp: ivd_owned_def)
  next
    case sig: (Inr sig)
    obtain w2 r2 where 2: "write_owned IVD_SIGNATURE_FILE IVD_SIGNATURE_TMP sig w1 = (w2, r2)" by fastforce
    have run: "((c', w'), r) = (case on_ok (w1, r1) (\<lambda>w1 _. write_owned IVD_SIGNATURE_FILE IVD_SIGNATURE_TMP sig w1) of
        (w', Err e) \<Rightarrow> ((c1, w'), Err e) | (w', Ok _) \<Rightarrow> ((c1, w'), Ok m))"
      using assms(1) enc sg 1 sig
      by (simp add: sign_bank_with_files_inner_def swept_def [symmetric] m_def [symmetric] Let_def)
    show ?thesis
      using run eff1 eff2 [OF 2] 2 frame bs sg sig
      by (cases r1; cases r2) (auto simp: on_ok_def ivd_owned_def)
  qed
qed

section \<open>Reading back\<close>

lemma owned_name_ok: "ivd_owned n \<Longrightarrow> name_ok n"
  by (auto simp: ivd_owned_def name_ok_def ivd_names slash_def)

lemma read_name:
  assumes "name_ok n"
  shows "read_path out (bf_dir w) n = (case look w n of None \<Rightarrow> Err NotFound | Some nd \<Rightarrow> open_path out n [] nd)"
proof -
  have "hd n \<noteq> slash" using assms by (metis hd_in_set name_ok_def)
  then show ?thesis
    using assms by (simp add: read_path_def name_ok_def split_at_name look_def del: open_path.simps(1) split: option.split)
qed

lemmas read_owned_name = read_name [OF owned_name_ok]

lemma listed_first:
  assumes "listed True es p nd" "wf_dir es"
  obtains n ps where "split_at slash p = n # ps" "name_ok n" "\<not> ivd_owned n"
  using assms(1)
proof (cases rule: listed.cases)
  case entry
  then show ?thesis using that [of p "[]"] wf_dir_entry [OF assms(2) entry(1)] owned_lossy
    by (auto simp: name_ok_def split_at_name)
next
  case (below n sub q)
  then show ?thesis using that [of n "split_at slash q"] wf_dir_entry [OF assms(2) below(2)] owned_lossy
    by (auto simp: name_ok_def split_at_join)
qed

lemma read_frame_owned:
  assumes "listed True es p nd" "wf_dir es" "\<And>n. \<not> ivd_owned n \<Longrightarrow> map_of es' n = map_of es n"
  shows "read_path out (Some es') p = open_path out p [] nd"
proof -
  obtain n ps where p: "split_at slash p = n # ps" "name_ok n" "\<not> ivd_owned n"
    using listed_first [OF assms(1,2)] .
  have "open_path out p (n # ps) (Dir es') = open_path out p (n # ps) (Dir es)"
    using p(2) assms(3) [OF p(3)] by (simp add: name_ok_def)
  then have "read_path out (Some es') p = read_path out (Some es) p"
    using p(1) by (simp only: read_path_def option.case if_cancel cong: if_cong)
  then show ?thesis using read_listed [OF assms(1,2)] by simp
qed

text \<open>What the signatures and the encoding promise.\<close>

definition ivd_crypto_ok :: "ivd_env \<Rightarrow> ('c, 'z) crypto_ops_scheme \<Rightarrow> bool" where
  "ivd_crypto_ok env cr \<longleftrightarrow> 0 < ie_block env
     \<and> (\<forall>m bs. ie_encode env m = Ok bs \<longrightarrow> ie_decode env bs = Ok m)
     \<and> (\<forall>c x c' s c''. cr_sign cr c (role_handle IvdSigning) x = (c', Ok s) \<longrightarrow> snd (cr_verify cr c'' (role_handle IvdSigning) x s) = Ok True)"

definition binding :: "('c, 'z) crypto_ops_scheme \<Rightarrow> bool" where
  "binding cr \<longleftrightarrow> (\<forall>c c' x y s. snd (cr_verify cr c (role_handle IvdSigning) x s) = Ok True
     \<longrightarrow> snd (cr_verify cr c' (role_handle IvdSigning) y s) = Ok True \<longrightarrow> x = y)"

text \<open>C14: when a signing ends, by success, by an error at any call or by a power cut, the manifest the
  bank then proves is the one it proved before, or the new one if the signing reported success; its
  payload files are as they were.\<close>

theorem ivd_sign_interrupted:
  assumes "ivd_crypto_ok env cr" "binding cr"
    and sign: "sign_bank_with_files_crypto_at env cr gn ident files bid uid (c, w) = ((c', w'), r)"
    and tmp: "plain w IVD_MANIFEST_TMP" "plain w IVD_SIGNATURE_TMP"
    and before: "snd (read_manifest_verified env cr (bf_dir w) c0) = Ok m0 \<or> look w IVD_SIGNATURE_FILE = None"
    and after: "snd (read_manifest_verified env cr (bf_dir w') c1) = Ok m"
  shows "(r = Ok m \<or> \<not> is_ok r \<and> snd (read_manifest_verified env cr (bf_dir w) c1) = Ok m)
    \<and> (\<forall>n. \<not> ivd_owned n \<longrightarrow> look w' n = look w n)"
proof -
  note eff = sign_inner_effect [OF sign [unfolded sign_bank_with_files_crypto_at_def] tmp]
  have rd: "snd (read_manifest_verified env cr (bf_dir v) d) = Ok k \<longleftrightarrow>
      (\<exists>bs sig. read_path (ie_outside env) (bf_dir v) IVD_MANIFEST_FILE = Ok bs
        \<and> read_path (ie_outside env) (bf_dir v) IVD_SIGNATURE_FILE = Ok sig
        \<and> snd (cr_verify cr d (role_handle IvdSigning) bs sig) = Ok True
        \<and> ie_decode env bs = Ok k \<and> mf_ivd_version k = IVD_MANIFEST_VERSION)" for v d k
    unfolding read_manifest_verified_def by (rule read_signed_Ok)
  have "r = Ok m \<or> \<not> is_ok r \<and> snd (read_manifest_verified env cr (bf_dir w) c1) = Ok m"
  proof (cases r)
    case (Inr m')
    then show ?thesis using eff after assms(1) by (auto simp: rd read_owned_name ivd_crypto_ok_def)
  next
    case (Inl e)
    have "snd (read_manifest_verified env cr (bf_dir w) c1) = Ok m"
    proof (cases "look w' IVD_MANIFEST_FILE = look w IVD_MANIFEST_FILE")
      case False
      obtain bs sig where n: "look w' IVD_MANIFEST_FILE = Some (File bs)"
          "read_path (ie_outside env) (bf_dir w) IVD_SIGNATURE_FILE = Ok sig"
          "snd (cr_verify cr c1 (role_handle IvdSigning) bs sig) = Ok True" "ie_decode env bs = Ok m"
          "mf_ivd_version m = IVD_MANIFEST_VERSION"
        using after eff False Inl by (auto simp: rd read_owned_name)
      then have "look w IVD_SIGNATURE_FILE \<noteq> None" by (auto simp: read_owned_name split: option.splits)
      then obtain bs0 where o: "read_path (ie_outside env) (bf_dir w) IVD_MANIFEST_FILE = Ok bs0"
          "snd (cr_verify cr c0 (role_handle IvdSigning) bs0 sig) = Ok True"
        using before n(2) by (auto simp: rd)
      then have "bs0 = bs" using assms(2) n(3) unfolding binding_def by blast
      then show ?thesis using o(1) n(2-5) by (auto simp: rd)
    qed (use after eff Inl in \<open>auto simp: rd read_owned_name\<close>)
    then show ?thesis using Inl by simp
  qed
  then show ?thesis using eff by blast
qed

text \<open>With no faults, the calls of a signing succeed when its four files are absent or ordinary files.\<close>

definition owned_clear :: "bank_fs \<Rightarrow> bool" where
  "owned_clear w \<longleftrightarrow> bf_dir w \<noteq> None \<and> bf_faults w = [] \<and> (\<forall>n. ivd_owned n \<longrightarrow> look w n \<in> insert None (range (Some \<circ> File)))"

lemma fs_call_works:
  "bf_faults w = [] \<Longrightarrow> bf_dir w = Some d \<Longrightarrow> act d = Ok d' \<Longrightarrow> fs_call act part w = (\<lparr>bf_dir = Some d', bf_faults = []\<rparr>, Ok ())"
  by (simp add: fs_call_def)

lemma owned_clear_plain: "owned_clear w \<Longrightarrow> ivd_owned n \<Longrightarrow> plain w n"
  by (fastforce simp: owned_clear_def plain_def)

lemma remove_faults: "bf_faults w = [] \<Longrightarrow> bf_faults (fst (remove_file n w)) = []"
  "bf_dir w \<noteq> None \<Longrightarrow> bf_dir (fst (remove_file n w)) \<noteq> None"
  by (auto simp: remove_file_def fs_call_def split: option.splits sum.splits list.splits fault.splits)

lemma owned_clear_swept: "owned_clear w \<Longrightarrow> owned_clear (swept w)"
proof -
  assume a: "owned_clear w"
  have "look (swept w) n = look w n \<or> look (swept w) n = None" for n
    using remove_look [of IVD_MANIFEST_TMP w] remove_look [of IVD_SIGNATURE_TMP "fst (remove_file IVD_MANIFEST_TMP w)"]
    by (auto simp: swept_def prod_eq_iff split: if_splits)
  then have "look (swept w) n \<in> insert None (range (Some \<circ> File))" if "ivd_owned n" for n
    using a that unfolding owned_clear_def by (metis insertI1)
  then show ?thesis using a by (auto simp: owned_clear_def swept_def remove_faults)
qed

lemma append_created: "append_file n bs (AList.update n (File []) d) = AList.update n (File bs) d"
proof -
  have "map_of (AList.update n (File []) d) n = Some (File [])" by (simp add: AList.update_conv')
  then show ?thesis by (simp add: append_file_def)
qed

lemma durably_works:
  assumes "owned_clear w" "ivd_owned name" "ivd_owned tmp" "name \<noteq> tmp"
  shows "\<exists>w'. write_owned name tmp bs w = (w', Ok ()) \<and> owned_clear w'"
proof -
  obtain d where d: "bf_dir w = Some d" "bf_faults w = []" using assms(1) by (auto simp: owned_clear_def)
  have t: "map_of d tmp = None \<or> (\<exists>c. map_of d tmp = Some (File c))" "map_of d name = None \<or> (\<exists>c. map_of d name = Some (File c))"
    using assms(1-3) d by (fastforce simp: owned_clear_def look_dir)+
  let ?d1 = "AList.update tmp (File []) d"
  let ?d2 = "AList.update tmp (File bs) d"
  let ?w = "\<lambda>d. \<lparr>bf_dir = Some d, bf_faults = []\<rparr>"
  have 1: "create_file tmp w = (?w ?d1, Ok ())"
    unfolding create_file_def using d t(1) by (intro fs_call_works) (auto split: option.splits)
  have 2: "write_all tmp bs (?w ?d1) = (?w ?d2, Ok ())"
    unfolding write_all_def by (intro fs_call_works) (auto simp: append_created)
  have 3: "sync_all (?w e) = (?w e, Ok ())" for e
    unfolding sync_all_def by (intro fs_call_works) simp_all
  let ?d3 = "AList.update name (File bs) (AList.delete tmp ?d2)"
  have 4: "rename_file tmp name (?w ?d2) = (?w ?d3, Ok ())"
    unfolding rename_file_def using t(2) assms(4) by (intro fs_call_works) (auto simp: AList.update_conv' split: option.splits)
  have "write_owned name tmp bs w = (?w ?d3, Ok ())"
    by (simp add: write_owned_def write_file_durably_def on_ok_def 1 2 3 4)
  moreover have "owned_clear (?w ?d3)"
    using assms(1) d by (auto simp: owned_clear_def look_def AList.update_conv' AList.delete_conv')
  ultimately show ?thesis by blast
qed

lemma sign_inner_works:
  assumes "owned_clear w" "ie_encode env (signed_manifest env files gn ident bid uid) = Ok bs"
    "sign c (role_handle IvdSigning) bs = (c', Ok sig)"
  shows "\<exists>w'. sign_bank_with_files_inner env sign gn ident files bid uid (c, w) = ((c', w'), Ok (signed_manifest env files gn ident bid uid))"
proof -
  obtain w1 where 1: "write_owned IVD_MANIFEST_FILE IVD_MANIFEST_TMP bs (swept w) = (w1, Ok ())" "owned_clear w1"
    using durably_works [OF owned_clear_swept [OF assms(1)] owned_names(1,3) owned_distinct(3)] by blast
  obtain w2 where 2: "write_owned IVD_SIGNATURE_FILE IVD_SIGNATURE_TMP sig w1 = (w2, Ok ())"
    using durably_works [OF 1(2) owned_names(2,4) owned_distinct(9)] by blast
  show ?thesis
    using assms(2,3) 1(1) 2
    by (simp add: sign_bank_with_files_inner_def swept_def [symmetric] encode_manifest_def on_ok_def Let_def)
qed

text \<open>The entries of a hashing walk describe readable files under their own paths.\<close>

definition readable_bank :: "dir \<Rightarrow> bool" where
  "readable_bank es \<longleftrightarrow> wf_dir es \<and> (\<forall>p nd. listed True es p nd \<longrightarrow> nd \<noteq> BadDir
     \<and> (is_file_node nd \<longrightarrow> utf8_valid (str_bytes p) \<and> (\<exists>c. nd = File c)))"

lemma collect_works:
  "(\<And>p nd. listed root es p nd \<Longrightarrow> nd \<noteq> BadDir \<and> (is_file_node nd \<longrightarrow> (\<exists>c. nd = File c))) \<Longrightarrow>
     \<exists>fs. collect_files env h root pre es = Ok fs"
proof (induction env h root pre es rule: collect_files.induct)
  case (2 env h root pre n x es)
  have rest: "\<exists>fs. collect_files env h root pre es = Ok fs"
    using "2.prems" by (intro "2.IH"(1) [OF refl]) (metis listed_Cons)
  show ?case
  proof (cases "root \<and> ivd_owned (to_string_lossy n)")
    case False
    then have x: "x \<noteq> BadDir" "is_file_node x \<longrightarrow> (\<exists>c. x = File c)" using "2.prems" [of n x] by (simp_all add: listed_Cons)
    show ?thesis
    proof (cases x)
      case (Dir sub)
      have "\<exists>fs. collect_files env h False ((pre @ n) @ [slash]) sub = Ok fs"
        using "2.prems" False Dir by (intro "2.IH"(2) [OF refl refl False Dir]) (metis listed_Cons)
      then show ?thesis using rest Dir False by auto
    qed (use rest False x in \<open>auto simp: Let_def\<close>)
  qed (use rest in auto)
qed simp

lemma attested_collected:
  assumes es: "readable_bank es" and blk: "0 < ie_block env" and fs: "collect_files env True True [] es = Ok fs"
    and frame: "\<And>n. \<not> ivd_owned n \<Longrightarrow> map_of es' n = map_of es n"
      "collect_files env False True [] es' = collect_files env False True [] es"
    and m: "set (mf_files m) = set fs"
  shows "attested env es' m"
proof -
  have wf: "wf_dir es" using es by (simp add: readable_bank_def)
  have set: "set fs = (\<lambda>(p, c). ivd_entry p (sha256_content env c)) ` {(p, c). listed True es p (File c)}"
    using collect_hashed [OF TrueI fs] by (simp add: hashed_def file_nodes_def)
  have nm: "to_string_lossy p = p" if "listed True es p (File c)" for p c
    using es that unfolding readable_bank_def to_string_lossy_def by (metis from_utf8_lossy_str is_file_node.simps(1))
  have "file_paths True es = fst ` {(p, c). listed True es p (File c)}"
    using es by (force simp: file_paths_def readable_bank_def image_iff)
  then have paths: "vf_relative_path ` set (mf_files m) = walked [] True es"
    by (simp add: m set walked_def ivd_entry_def image_image case_prod_beta)
  have w': "walked [] True es' = walked [] True es" "\<nexists>p. listed True es' p BadDir"
    using collect_paths [where h = False and env = env and root = True and pre = "[]" and es = es]
      collect_paths [where h = False and env = env and root = True and pre = "[]" and es = es'] es
    by (auto simp: frame(2) readable_bank_def split: sum.splits)
  have "to_string_lossy p \<in> vf_relative_path ` set (mf_files m)" if "listed True es' p nd" "is_file_node nd" for p nd
    using that unfolding paths w'(1) [symmetric] by (auto simp: walked_def file_paths_def)
  moreover have "\<exists>c. read_path (ie_outside env) (Some es') (vf_relative_path f) = Ok c
      \<and> vf_size f = of_nat (length c) \<and> vf_sha256 f = ie_sha env c" if fm: "f \<in> set (mf_files m)" for f
  proof -
    obtain p c where f: "listed True es p (File c)" "f = ivd_entry p (sha256_content env c)" using fm unfolding m set by auto
    then show ?thesis using read_frame_owned [OF f(1) wf frame(1)] nm [OF f(1)]
      by (simp add: ivd_entry_def sha256_content_eq [OF blk])
  qed
  ultimately show ?thesis using w'(2) by (auto simp: attested_def)
qed

lemma disabled_digest: "is_disabled_record f \<Longrightarrow> vf_sha256 f = replicate 32 0"
  by (rule replicate_eqI) (auto simp: is_disabled_record_def list_all_iff)

text \<open>What a signing that succeeded wrote passes the launch check, whatever faults it survived.\<close>

lemma signed_bank_verifies:
  assumes ok: "ivd_crypto_ok env cr" and es: "bf_dir w = Some es" "readable_bank es"
    and tmp: "plain w IVD_MANIFEST_TMP" "plain w IVD_SIGNATURE_TMP"
    and sha: "\<And>x. ie_sha env x \<noteq> replicate 32 0"
    and sign: "sign_bank_crypto_at env cr gn ident bid uid (c, w) = ((c', w'), Ok m)" and fl: "fl \<le> gn"
  shows "mf_gen m = gn
    \<and> snd (verify_bank_crypto env cr \<lparr>vp_expected_install_gen = Some gn, vp_min_committed_gen = Some fl\<rparr> (bf_dir w') c'') = Ok m"
proof -
  have blk: "0 < ie_block env" using ok by (simp add: ivd_crypto_ok_def)
  obtain fs where fs: "collect_files env True True [] es = Ok fs"
    using es(2) collect_works [of True es env True "[]"] by (auto simp: readable_bank_def)
  let ?m = "signed_manifest env fs gn ident bid uid"
  have s: "sign_bank_with_files_inner env (cr_sign cr) gn ident fs bid uid (c, w) = ((c', w'), Ok m)"
    using sign by (simp add: sign_bank_crypto_at_def collect_bank_def es(1) fs sign_bank_with_files_crypto_at_def)
  note eff = sign_inner_effect [OF s tmp]
  then have m: "m = ?m" by simp
  obtain es' where es': "bf_dir w' = Some es'" using eff by (cases "bf_dir w'") (auto simp: look_absent)
  have fr: "map_of es' n = map_of es n" if "\<not> ivd_owned n" for n using eff that es' es(1) by (simp add: look_dir)
  have wk: "collect_files env False True [] es' = collect_files env False True [] es"
    using eff es' es(1) by (simp add: collect_bank_def)
  have att: "attested env es' ?m"
    by (rule attested_collected [OF es(2) blk fs fr wk]) (simp_all add: signed_manifest_def build_manifest_from_files_def)
  have "vf_sha256 f \<noteq> replicate 32 0" if "f \<in> set fs" for f
    using that collect_hashed [OF TrueI fs] sha by (auto simp: hashed_def ivd_entry_def sha256_content_eq [OF blk])
  then have dis: "\<not> is_disabled_manifest ?m"
    by (auto simp: is_disabled_manifest_def disabled_digest signed_manifest_def build_manifest_from_files_def
        split: list.splits dest!: arg_cong [of _ _ set])
  have "snd (read_signed_manifest env (cr_verify cr) (bf_dir w') c'') = Ok ?m"
    using eff ok by (auto simp: read_signed_Ok read_owned_name ivd_crypto_ok_def signed_manifest_def build_manifest_from_files_def)
  then show ?thesis
    unfolding verify_bank_split verify_manifest_Ok [OF blk] m using dis att es' fl
    by (auto simp: signed_manifest_def build_manifest_from_files_def)
qed

lemma sign_works:
  assumes "owned_clear w" "bf_dir w = Some es" "readable_bank es"
    and enc: "\<And>fs. collect_files env True True [] es = Ok fs \<Longrightarrow> \<exists>bs. ie_encode env (signed_manifest env fs gn ident bid uid) = Ok bs"
    and "\<And>x. \<exists>c' s. cr_sign cr c (role_handle IvdSigning) x = (c', Ok s)"
  shows "\<exists>c' w' m. sign_bank_crypto_at env cr gn ident bid uid (c, w) = ((c', w'), Ok m)"
proof -
  obtain fs where fs: "collect_files env True True [] es = Ok fs"
    using assms(3) collect_works [of True es env True "[]"] by (auto simp: readable_bank_def)
  let ?m = "signed_manifest env fs gn ident bid uid"
  obtain bs where bs: "ie_encode env ?m = Ok bs" using enc [OF fs] by blast
  obtain c' sig where sig: "cr_sign cr c (role_handle IvdSigning) bs = (c', Ok sig)" using assms(5) by blast
  obtain w' where s: "sign_bank_with_files_inner env (cr_sign cr) gn ident fs bid uid (c, w) = ((c', w'), Ok ?m)"
    using sign_inner_works [of w env fs gn ident bid uid bs "cr_sign cr" c c' sig] assms(1) bs sig by auto
  then show ?thesis
    by (simp add: sign_bank_crypto_at_def collect_bank_def assms(2) fs sign_bank_with_files_crypto_at_def)
qed

text \<open>C25: a bank whose files are readable can be signed, and the launch check then accepts it with the
  generation it was signed for, for every committed generation not above it.\<close>

theorem ivd_sign_verify:
  assumes "ivd_crypto_ok env cr" "owned_clear w" "bf_dir w = Some es" "readable_bank es"
    and enc: "\<And>fs. collect_files env True True [] es = Ok fs \<Longrightarrow> \<exists>bs. ie_encode env (signed_manifest env fs gn ident bid uid) = Ok bs"
    and "\<And>x. \<exists>c' s. cr_sign cr c (role_handle IvdSigning) x = (c', Ok s)"
    and "\<And>x. ie_sha env x \<noteq> replicate 32 0" "fl \<le> gn"
  shows "\<exists>c' w' m. sign_bank_crypto_at env cr gn ident bid uid (c, w) = ((c', w'), Ok m) \<and> mf_gen m = gn
    \<and> (\<forall>c''. snd (verify_bank_crypto env cr \<lparr>vp_expected_install_gen = Some gn, vp_min_committed_gen = Some fl\<rparr> (bf_dir w') c'') = Ok m)"
proof -
  obtain c' w' m where sign: "sign_bank_crypto_at env cr gn ident bid uid (c, w) = ((c', w'), Ok m)"
    using sign_works [OF assms(2-4) enc assms(6)] by blast
  show ?thesis
    using sign signed_bank_verifies [OF assms(1,3,4) owned_clear_plain [OF assms(2) owned_names(3)]
        owned_clear_plain [OF assms(2) owned_names(4)] assms(7) sign assms(8)] by blast
qed

text \<open>C27: once a disable record is signed, the launch check refuses the bank whatever its other files
  become, and it reports the disabled state when the pins are those of the record.\<close>

theorem ivd_disabled:
  assumes "ivd_crypto_ok env cr" "plain w IVD_MANIFEST_TMP" "plain w IVD_SIGNATURE_TMP"
    and sign: "sign_disabled_record_crypto env cr gn ident (c, w) = ((c', w'), Ok m)"
    and same: "look v IVD_MANIFEST_FILE = look w' IVD_MANIFEST_FILE" "look v IVD_SIGNATURE_FILE = look w' IVD_SIGNATURE_FILE"
  shows "\<not> is_ok (snd (verify_bank_crypto env cr pins (bf_dir v) c''))
    \<and> (vp_expected_install_gen pins \<in> {None, Some gn} \<and> (\<forall>f. vp_min_committed_gen pins = Some f \<longrightarrow> f \<le> gn)
        \<longrightarrow> snd (verify_bank_crypto env cr pins (bf_dir v) c'') = Err (AdminDisabled gn))"
proof -
  obtain w0 where w0: "create_dir_all w = (w0, Ok ())"
      "sign_bank_with_files_inner env (cr_sign cr) gn ident [ivd_disabled_record] None None (c, w0) = ((c', w'), Ok m)"
    using sign by (auto simp: sign_disabled_record_crypto_def sign_bank_with_files_crypto_def sign_bank_with_files_crypto_at_def
        split: prod.splits sum.splits)
  have "plain w0 IVD_MANIFEST_TMP" "plain w0 IVD_SIGNATURE_TMP"
    using w0(1) assms(2,3) by (auto simp: create_dir_all_def plain_def look_def split: option.splits list.splits fault.splits)
  note eff = sign_inner_effect [OF w0(2) this]
  have m: "is_disabled_manifest m" "mf_gen m = gn" "mf_ivd_version m = IVD_MANIFEST_VERSION"
    using eff by (auto simp: signed_manifest_def build_manifest_from_files_def is_disabled_manifest_def is_disabled_record_def
        ivd_disabled_record_def list_all_iff)
  have "snd (read_signed_manifest env (cr_verify cr) (bf_dir v) c'') = Ok m"
    using eff assms(1) same m(3) by (auto simp: read_signed_Ok read_owned_name ivd_crypto_ok_def)
  then have "snd (verify_bank_crypto env cr pins (bf_dir v) c'') = verify_manifest env pins (bf_dir v) m"
    by (auto simp: verify_bank_crypto_def split: prod.splits sum.splits)
  then show ?thesis
    using m by (auto simp: verify_manifest_def check_pins_def check_floor_def and_then_def not_less split: option.splits)
qed

section \<open>The launch check as a program\<close>

lemma parse_loop_error: "parse_loop st args = Err e \<Longrightarrow> e = EXIT_USAGE \<or> e = EXIT_OK \<and> (''--help'' \<in> set args \<or> ''-h'' \<in> set args)"
proof (induction st args rule: parse_loop.induct)
  case (2 st a rest)
  consider (bank) "a = ''--bank''" | (keystore) "a = ''--keystore''" | (expect) "a = ''--expect-install-gen''"
    | (minimum) "a = ''--min-committed-gen''" | (quiet) "a = ''--quiet''"
    | (other) "a \<notin> {''--bank'', ''--keystore'', ''--expect-install-gen'', ''--min-committed-gen'', ''--quiet''}" by blast
  then show ?case
  proof cases
    case bank
    then show ?thesis using "2.IH"(1) "2.prems" by (cases rest) auto
  next
    case keystore
    then show ?thesis using "2.IH"(2) "2.prems" by (cases rest) auto
  next
    case expect
    then show ?thesis using "2.IH"(3) "2.prems" by (cases rest) (auto simp: parse_u64_arg_def split: option.splits)
  next
    case minimum
    then show ?thesis using "2.IH"(4) "2.prems" by (cases rest) (auto simp: parse_u64_arg_def split: option.splits)
  next
    case quiet
    then show ?thesis using "2.IH"(5) "2.prems" by auto
  qed (use "2.prems" in \<open>auto split: if_splits\<close>)
qed simp

lemma parse_args_error: "parse_args argv = Err e \<Longrightarrow> e = EXIT_USAGE \<or> e = EXIT_OK \<and> (''--help'' \<in> set argv \<or> ''-h'' \<in> set argv)"
  using parse_loop_error [of arg_start "drop 1 argv" e] set_drop_subset [of 1 argv]
  by (auto simp: parse_args_def and_then_def split: sum.splits option.splits)

text \<open>C40: without a help option the launch program exits with 0 exactly when its arguments name a bank
  directory and a keystore and the launch check with the pins of the arguments accepts the bank, and
  with 3 exactly when the check reports the disabled state; a help option can end it with 0 before any check.\<close>

theorem sumo_verify_exit:
  "(fst (sumo_verify env dirs keystores argv) = EXIT_OK \<longleftrightarrow>
      parse_args argv = Err EXIT_OK \<and> (''--help'' \<in> set argv \<or> ''-h'' \<in> set argv)
      \<or> (\<exists>args cr c m. parse_args argv = Ok args \<and> dirs (va_bank args) \<noteq> None \<and> keystores (va_keystore args) = Some (cr, c)
           \<and> launch_check env cr args (dirs (va_bank args)) c = Ok m))
    \<and> (fst (sumo_verify env dirs keystores argv) = EXIT_DISABLED \<longleftrightarrow>
      (\<exists>args cr c g. parse_args argv = Ok args \<and> dirs (va_bank args) \<noteq> None \<and> keystores (va_keystore args) = Some (cr, c)
           \<and> launch_check env cr args (dirs (va_bank args)) c = Err (AdminDisabled g)))"
proof (cases "parse_args argv")
  case (Inl e)
  then show ?thesis using parse_args_error [OF Inl] by (auto simp: sumo_verify_def exit_codes)
next
  case (Inr args)
  then show ?thesis
    by (auto simp: sumo_verify_def exit_codes split: option.splits prod.splits sum.splits ivd_error.splits)
qed

section \<open>A concrete bank\<close>

definition bank1 :: dir where
  "bank1 = [(''rootfs.img'', File [7, 8]), (''conf'', Dir [(''vm.yaml'', File [9])])]"

definition identity1 :: ivd_identity where "identity1 = ivd_identity_default\<lparr>id_version := ''1.2''\<rparr>"

definition files1 :: "ivd_file list" where
  "files1 = [\<lparr>vf_relative_path = ''rootfs.img'', vf_sha256 = [1, 7, 8], vf_size = 2\<rparr>,
     \<lparr>vf_relative_path = ''conf/vm.yaml'', vf_sha256 = [1, 9], vf_size = 1\<rparr>]"

definition manifest_with :: "ivd_file list \<Rightarrow> ivd_manifest" where
  "manifest_with fs = \<lparr>mf_ivd_version = IVD_MANIFEST_VERSION, mf_signed_at_unix = 5, mf_files = sort_key vf_relative_path fs,
     mf_gen = 6, mf_identity = identity1, mf_install_boot_id = Some ''boot-1'', mf_update_id = None\<rparr>"

definition env1 :: ivd_env where
  "env1 = \<lparr>ie_sha = (\<lambda>x. 1 # x),
     ie_encode = (\<lambda>m. if m = manifest_with files1 then Ok [42]
       else if m = (manifest_with [ivd_disabled_record])\<lparr>mf_install_boot_id := None\<rparr> then Ok [43] else Err ''unsupported''),
     ie_decode = (\<lambda>b. if b = [42] then Ok (manifest_with files1)
       else if b = [43] then Ok ((manifest_with [ivd_disabled_record])\<lparr>mf_install_boot_id := None\<rparr>) else Err ''unsupported''),
     ie_block = 4096, ie_now = 5, ie_outside = (\<lambda>p. Err NotFound)\<rparr>"

definition cr1 :: "nat crypto_ops" where
  "cr1 = \<lparr>cr_random = (\<lambda>c n. (c, Ok [])), cr_generate_key = (\<lambda>c h alg. (c, Err NotProvisioned)),
      cr_sign = (\<lambda>c h x. (Suc c, Ok (0 # x))), cr_encrypt = (\<lambda>c h x. (c, Err NotProvisioned)), cr_decrypt = (\<lambda>c h x. (c, Err NotProvisioned)),
      cr_mac_generate = (\<lambda>c h x. (c, Err NotProvisioned)), cr_mac_verify = (\<lambda>c h x y. (c, Err NotProvisioned)),
      cr_verify = (\<lambda>c h x s. (Suc c, Ok (s = 0 # x))), cr_get_public_key_der = (\<lambda>c h. (c, Err NotProvisioned)),
      cr_get_certificate_der = (\<lambda>c h. (c, Err NotProvisioned))\<rparr>"

lemma ivd_crypto_ok1: "ivd_crypto_ok env1 cr1"
  by (auto simp: ivd_crypto_ok_def env1_def cr1_def split: if_splits)

lemma binding1: "binding cr1"
  by (simp add: binding_def cr1_def)

lemma bank1_listed:
  "listed True bank1 p nd \<longleftrightarrow> (p, nd) \<in> {(''rootfs.img'', File [7, 8]), (''conf'', Dir [(''vm.yaml'', File [9])]), (''conf/vm.yaml'', File [9])}"
proof -
  have "\<not> ivd_owned (to_string_lossy ''rootfs.img'')" "\<not> ivd_owned (to_string_lossy ''conf'')"
    by code_simp+
  then show ?thesis by (auto simp: bank1_def listed_Cons slash_def)
qed

lemma readable_bank1: "readable_bank bank1"
proof -
  have "wf_dir bank1" "utf8_valid (str_bytes ''rootfs.img'')" "utf8_valid (str_bytes ''conf/vm.yaml'')"
    by code_simp+
  then show ?thesis by (auto simp: readable_bank_def bank1_listed)
qed

lemma collect_bank1: "collect_files env1 True True [] bank1 = Ok files1"
  by code_simp

definition sealed1 :: dir where
  "sealed1 = bank1 @ [(IVD_MANIFEST_FILE, File [42]), (IVD_SIGNATURE_FILE, File [0, 42])]"

lemma sealed1_attested: "attested env1 sealed1 (manifest_with files1)"
proof (rule attested_collected [OF readable_bank1 _ collect_bank1])
  show "map_of sealed1 n = map_of bank1 n" if "\<not> ivd_owned n" for n
    using that by (auto simp: sealed1_def ivd_owned_def map_add_def split: option.splits)
  show "collect_files env1 False True [] sealed1 = collect_files env1 False True [] bank1" by code_simp
qed (simp_all add: env1_def manifest_with_def)

lemma sealed1_reads:
  "read_path (ie_outside env1) (Some sealed1) IVD_MANIFEST_FILE = Ok [42]"
  "read_path (ie_outside env1) (Some sealed1) IVD_SIGNATURE_FILE = Ok [0, 42]"
  by code_simp+

theorem ivd_verify_exact_witness:
  "snd (verify_bank_crypto env1 cr1 \<lparr>vp_expected_install_gen = Some 6, vp_min_committed_gen = Some 5\<rparr> (Some sealed1) 0)
     = Ok (manifest_with files1)"
proof -
  have "\<not> is_disabled_manifest (manifest_with files1)" by code_simp
  then show ?thesis
    using sealed1_reads sealed1_attested
    by (subst ivd_verify_exact) (auto simp: env1_def cr1_def manifest_with_def)
qed

lemma plain_sealed1: "n \<in> {IVD_MANIFEST_TMP, IVD_SIGNATURE_TMP} \<Longrightarrow> plain \<lparr>bf_dir = Some sealed1, bf_faults = fs\<rparr> n"
proof -
  have "map_of sealed1 IVD_MANIFEST_TMP = None" "map_of sealed1 IVD_SIGNATURE_TMP = None" by code_simp+
  then show "n \<in> {IVD_MANIFEST_TMP, IVD_SIGNATURE_TMP} \<Longrightarrow> ?thesis" by (auto simp: plain_def look_def)
qed

theorem ivd_sign_interrupted_witness:
  "let w = \<lparr>bf_dir = Some sealed1, bf_faults = [Works, Works, Works, PowerCut 1]\<rparr>;
       ((c', w'), r) = sign_bank_with_files_crypto_at env1 cr1 6 identity1 [ivd_disabled_record] None None (0, w)
   in (r = Ok (manifest_with files1) \<or> \<not> is_ok r \<and> snd (read_manifest_verified env1 cr1 (Some sealed1) 0) = Ok (manifest_with files1))
     \<and> (\<forall>n. \<not> ivd_owned n \<longrightarrow> look w' n = look w n)"
proof -
  let ?w = "\<lparr>bf_dir = Some sealed1, bf_faults = [Works, Works, Works, PowerCut 1]\<rparr>"
  obtain c' w' r where s: "sign_bank_with_files_crypto_at env1 cr1 6 identity1 [ivd_disabled_record] None None (0, ?w) = ((c', w'), r)"
    by (metis surj_pair)
  have "snd (read_manifest_verified env1 cr1 (bf_dir ?w) 0) = Ok (manifest_with files1)" by code_simp
  moreover have "snd (read_manifest_verified env1 cr1 (bf_dir (snd (fst (sign_bank_with_files_crypto_at env1 cr1 6 identity1
      [ivd_disabled_record] None None (0, ?w))))) 0) = Ok (manifest_with files1)" by code_simp
  ultimately show ?thesis
    using ivd_sign_interrupted [OF ivd_crypto_ok1 binding1 s plain_sealed1 plain_sealed1, of 0 "manifest_with files1" 0 "manifest_with files1"] s
    by (simp add: Let_def)
qed

theorem ivd_sign_verify_witness:
  "\<exists>c' w' m. sign_bank_crypto_at env1 cr1 6 identity1 (Some ''boot-1'') None (0, \<lparr>bf_dir = Some bank1, bf_faults = []\<rparr>) = ((c', w'), Ok m)
    \<and> mf_gen m = 6 \<and> (\<forall>c''. snd (verify_bank_crypto env1 cr1 \<lparr>vp_expected_install_gen = Some 6, vp_min_committed_gen = Some 5\<rparr>
        (bf_dir w') c'') = Ok m)"
proof (rule ivd_sign_verify [OF ivd_crypto_ok1 _ _ readable_bank1])
  show "owned_clear \<lparr>bf_dir = Some bank1, bf_faults = []\<rparr>"
    by (auto simp: owned_clear_def look_def bank1_def ivd_owned_def ivd_names)
  show "\<exists>bs. ie_encode env1 (signed_manifest env1 fs 6 identity1 (Some ''boot-1'') None) = Ok bs"
    if "collect_files env1 True True [] bank1 = Ok fs" for fs
    using that collect_bank1 by (simp add: env1_def signed_manifest_def build_manifest_from_files_def manifest_with_def)
qed (simp_all add: cr1_def env1_def Cons_replicate_eq)

theorem ivd_disabled_witness:
  "let ((c', w'), r) = sign_disabled_record_crypto env1 cr1 6 identity1 (0, \<lparr>bf_dir = Some sealed1, bf_faults = []\<rparr>)
   in snd (verify_bank_crypto env1 cr1 \<lparr>vp_expected_install_gen = Some 6, vp_min_committed_gen = None\<rparr> (bf_dir w') 0) = Err (AdminDisabled 6)"
proof -
  let ?w = "\<lparr>bf_dir = Some sealed1, bf_faults = []\<rparr>"
  obtain c' w' r where s: "sign_disabled_record_crypto env1 cr1 6 identity1 (0, ?w) = ((c', w'), r)"
    by (metis surj_pair)
  have "is_ok (snd (sign_disabled_record_crypto env1 cr1 6 identity1 (0, ?w)))" by code_simp
  then obtain m where "r = Ok m" using s by (cases r) simp_all
  then show ?thesis
    using ivd_disabled [OF ivd_crypto_ok1 plain_sealed1 plain_sealed1 s [unfolded \<open>r = Ok m\<close>] refl refl,
        of "\<lparr>vp_expected_install_gen = Some 6, vp_min_committed_gen = None\<rparr>" 0] s
    by simp
qed

end
