(* ===== verification/BankSeed.thy ===== *)
theory BankSeed
  imports Ivd NvTypes
begin

text \<open>
  The directory of a bank set and the settling of the parts an update does not ship,
  \<^verbatim>\<open>crates/component-mgr/src/bank_seed.rs\<close>. A set directory has one directory per bank, one staging
  directory per bank, and the staging records beside them; all take their outcomes from one schedule,
  as in \<open>Ivd\<close>. Part names may have several components; a name that leaves the bank directory (an
  absolute path or \<^verbatim>\<open>..\<close>) is not followed: the call fails. File modes are left out.
\<close>

section \<open>The set directory\<close>

record set_fs =
  sd_top :: "dir option"
  sd_dirs :: "bank \<Rightarrow> dir option"
  sd_staging :: "bank \<Rightarrow> dir option"
  sd_faults :: "fault list"

definition at_top :: "(bank_fs \<Rightarrow> bank_fs \<times> 'r) \<Rightarrow> set_fs \<Rightarrow> set_fs \<times> 'r" where
  "at_top f s =
     (case f \<lparr>bf_dir = sd_top s, bf_faults = sd_faults s\<rparr> of
        (w, r) \<Rightarrow> (s\<lparr>sd_top := bf_dir w, sd_faults := bf_faults w\<rparr>, r))"

definition at_bank :: "bank \<Rightarrow> (bank_fs \<Rightarrow> bank_fs \<times> 'r) \<Rightarrow> set_fs \<Rightarrow> set_fs \<times> 'r" where
  "at_bank k f s =
     (case f \<lparr>bf_dir = sd_dirs s k, bf_faults = sd_faults s\<rparr> of
        (w, r) \<Rightarrow> (s\<lparr>sd_dirs := (sd_dirs s)(k := bf_dir w), sd_faults := bf_faults w\<rparr>, r))"

definition at_staging :: "bank \<Rightarrow> (bank_fs \<Rightarrow> bank_fs \<times> 'r) \<Rightarrow> set_fs \<Rightarrow> set_fs \<times> 'r" where
  "at_staging k f s =
     (case f \<lparr>bf_dir = sd_staging s k, bf_faults = sd_faults s\<rparr> of
        (w, r) \<Rightarrow> (s\<lparr>sd_staging := (sd_staging s)(k := bf_dir w), sd_faults := bf_faults w\<rparr>, r))"

text \<open>Creating a directory below the set directory creates the set directory too.\<close>

definition with_top :: "set_fs \<times> (fs_error + unit) \<Rightarrow> set_fs \<times> (fs_error + unit)" where
  "with_top x =
     (case x of
        (s, Ok _) \<Rightarrow> (s\<lparr>sd_top := (case sd_top s of None \<Rightarrow> Some [] | Some d \<Rightarrow> Some d)\<rparr>, Ok ())
      | (s, Err e) \<Rightarrow> (s, Err e))"

text \<open>Removing a directory: a removal that is cut short leaves what it had not reached.\<close>

definition remove_dir_all :: "bank_fs \<Rightarrow> bank_fs \<times> (fs_error + unit)" where
  "remove_dir_all w =
     (case bf_dir w of
        None \<Rightarrow> (w, Err NotFound)
      | Some d \<Rightarrow>
          (case bf_faults w of
             Fails n # fs \<Rightarrow> (\<lparr>bf_dir = Some (drop n d), bf_faults = fs\<rparr>, Err OtherError)
           | PowerCut n # fs \<Rightarrow> (w\<lparr>bf_dir := Some (drop n d)\<rparr>, Err OtherError)
           | fs \<Rightarrow> (\<lparr>bf_dir = None, bf_faults = tl fs\<rparr>, Ok ())))"

section \<open>Parts with several components\<close>

text \<open>The node a path names, without following a link at its end.\<close>

fun node_at :: "string list \<Rightarrow> fnode \<Rightarrow> fs_error + fnode" where
  "node_at [] nd = Ok nd"
| "node_at (p # ps) nd =
     (case nd of
        Dir es \<Rightarrow>
          if p = [] \<or> p = ''.'' then node_at ps nd
          else if p = ''..'' then Err OtherError
          else (case map_of es p of None \<Rightarrow> Err NotFound | Some nd' \<Rightarrow> node_at ps nd')
      | _ \<Rightarrow> Err OtherError)"

text \<open>Put a node at a path, creating the directories on the way; a directory is not replaced.\<close>

fun put_at :: "string list \<Rightarrow> fnode \<Rightarrow> fnode \<Rightarrow> fs_error + fnode" where
  "put_at [] leaf nd = (case nd of Dir _ \<Rightarrow> Err OtherError | BadDir \<Rightarrow> Err OtherError | _ \<Rightarrow> Ok leaf)"
| "put_at (p # ps) leaf nd =
     (case nd of
        Dir es \<Rightarrow>
          if p = [] \<or> p = ''.'' then put_at ps leaf nd
          else if p = ''..'' then Err OtherError
          else and_then (put_at ps leaf (case map_of es p of None \<Rightarrow> if ps = [] then Special else Dir [] | Some nd' \<Rightarrow> nd'))
                 (\<lambda>nd'. Ok (Dir (AList.update p nd' es)))
      | _ \<Rightarrow> Err OtherError)"

text \<open>The directories above the last component of a path.\<close>

fun parents_at :: "string list \<Rightarrow> fnode \<Rightarrow> fs_error + fnode" where
  "parents_at [] nd = Ok nd"
| "parents_at (p # ps) nd =
     (case nd of
        Dir es \<Rightarrow>
          if ps = [] \<or> p = [] \<or> p = ''.'' then parents_at ps nd
          else if p = ''..'' then Err OtherError
          else and_then (parents_at ps (case map_of es p of None \<Rightarrow> Dir [] | Some nd' \<Rightarrow> nd'))
                 (\<lambda>nd'. Ok (Dir (AList.update p nd' es)))
      | _ \<Rightarrow> Err OtherError)"

definition part_node :: "dir option \<Rightarrow> string \<Rightarrow> fs_error + fnode" where
  "part_node d name =
     (if name \<noteq> [] \<and> hd name = slash then Err OtherError
      else case d of None \<Rightarrow> Err NotFound | Some es \<Rightarrow> node_at (split_at slash name) (Dir es))"

definition put_part :: "string \<Rightarrow> fnode \<Rightarrow> dir \<Rightarrow> fs_error + dir" where
  "put_part name leaf d =
     (if name \<noteq> [] \<and> hd name = slash then Err OtherError
      else and_then (put_at (split_at slash name) leaf (Dir d)) (\<lambda>nd. case nd of Dir es \<Rightarrow> Ok es | _ \<Rightarrow> Err OtherError))"

definition write_part :: "string \<Rightarrow> fnode \<Rightarrow> bank_fs \<Rightarrow> bank_fs \<times> (fs_error + unit)" where
  "write_part name leaf =
     fs_call (put_part name leaf)
       (\<lambda>n d. case put_part name (case leaf of File c \<Rightarrow> File (take n c) | nd \<Rightarrow> nd) d of Ok d' \<Rightarrow> d' | Err _ \<Rightarrow> d)"

definition make_parents :: "string \<Rightarrow> bank_fs \<Rightarrow> bank_fs \<times> (fs_error + unit)" where
  "make_parents name =
     fs_call (\<lambda>d. if name \<noteq> [] \<and> hd name = slash then Err OtherError
                  else and_then (parents_at (split_at slash name) (Dir d)) (\<lambda>nd. case nd of Dir es \<Rightarrow> Ok es | _ \<Rightarrow> Err OtherError))
       untouched"

text \<open>Remove the file a path names.\<close>

fun drop_at :: "string list \<Rightarrow> fnode \<Rightarrow> fs_error + fnode" where
  "drop_at [] nd = Err OtherError"
| "drop_at (p # ps) nd =
     (case nd of
        Dir es \<Rightarrow>
          if p = [] \<or> p = ''.'' then drop_at ps nd
          else if p = ''..'' then Err OtherError
          else (case map_of es p of
                  None \<Rightarrow> Err NotFound
                | Some nd' \<Rightarrow>
                    if ps = [] then (case nd' of Dir _ \<Rightarrow> Err OtherError | BadDir \<Rightarrow> Err OtherError | _ \<Rightarrow> Ok (Dir (AList.delete p es)))
                    else and_then (drop_at ps nd') (\<lambda>nd''. Ok (Dir (AList.update p nd'' es))))
      | _ \<Rightarrow> Err OtherError)"

definition remove_part :: "string \<Rightarrow> bank_fs \<Rightarrow> bank_fs \<times> (fs_error + unit)" where
  "remove_part name =
     fs_call (\<lambda>d. if name \<noteq> [] \<and> hd name = slash then Err OtherError
                  else and_then (drop_at (split_at slash name) (Dir d)) (\<lambda>nd. case nd of Dir es \<Rightarrow> Ok es | _ \<Rightarrow> Err OtherError))
       untouched"

section \<open>Settling the parts that were not shipped\<close>

datatype seed_error = SeedMissing string | SeedNotFile string | SeedIo fs_error | SeedNoTarget

record seed_outcome =
  so_copied :: "string list"
  so_foreign :: "string list"

definition foreign_entries :: "dir option \<Rightarrow> string list \<Rightarrow> string list" where
  "foreign_entries src required =
     (case src of
        None \<Rightarrow> []
      | Some es \<Rightarrow>
          filter (\<lambda>n. utf8_valid (str_bytes n) \<and> n \<noteq> IVD_MANIFEST_FILE \<and> n \<noteq> IVD_SIGNATURE_FILE
              \<and> (\<forall>r \<in> set required. hd (split_at slash r) \<noteq> n)) (map fst es))"

definition seed_part :: "dir option \<Rightarrow> string \<Rightarrow> bank_fs \<Rightarrow> bank_fs \<times> (seed_error + bool)" where
  "seed_part src name w =
     (if is_ok (part_node (bf_dir w) name) then (w, Ok False)
      else case part_node src name of
        Err NotFound \<Rightarrow> (w, Err (SeedMissing name))
      | Err e \<Rightarrow> (w, Err (SeedIo e))
      | Ok nd \<Rightarrow>
          (case make_parents name w of
             (w1, Err e) \<Rightarrow> (w1, Err (SeedIo e))
           | (w1, Ok _) \<Rightarrow>
               (case nd of
                  Link t \<Rightarrow> (case write_part name nd w1 of (w2, Ok _) \<Rightarrow> (w2, Ok True) | (w2, Err e) \<Rightarrow> (w2, Err (SeedIo e)))
                | File c \<Rightarrow> (case write_part name nd w1 of (w2, Ok _) \<Rightarrow> (w2, Ok True) | (w2, Err e) \<Rightarrow> (w2, Err (SeedIo e)))
                | BadFile _ \<Rightarrow> (w1, Err (SeedIo OtherError))
                | _ \<Rightarrow> (w1, Err (SeedNotFile name)))))"

fun seed_parts :: "dir option \<Rightarrow> string list \<Rightarrow> string list \<Rightarrow> bank_fs \<Rightarrow> bank_fs \<times> (seed_error + string list)" where
  "seed_parts src [] copied w = (w, Ok copied)"
| "seed_parts src (name # names) copied w =
     (case seed_part src name w of
        (w', Err e) \<Rightarrow> (w', Err e)
      | (w', Ok c) \<Rightarrow> seed_parts src names (if c then copied @ [name] else copied) w')"

definition seed_missing_files ::
    "dir option \<Rightarrow> string list \<Rightarrow> bank_fs \<Rightarrow> bank_fs \<times> (seed_error + seed_outcome)" where
  "seed_missing_files src required w =
     (if required = [] then (w, Ok \<lparr>so_copied = [], so_foreign = []\<rparr>)
      else if bf_dir w = None then (w, Err SeedNoTarget)
      else case seed_parts src required [] w of
             (w', Err e) \<Rightarrow> (w', Err e)
           | (w', Ok copied) \<Rightarrow> (w', Ok \<lparr>so_copied = copied, so_foreign = foreign_entries src required\<rparr>))"

section \<open>Copying a verified part forward\<close>

datatype copy_forward_error =
    MissingActive string
  | CopyIo fs_error
  | CopyDigestMismatch string bytes bytes

text \<open>Opening a directory or an unreadable file succeeds; reading it then fails.\<close>

definition open_source :: "(string \<Rightarrow> fs_error + bytes) \<Rightarrow> dir option \<Rightarrow> string \<Rightarrow> copy_forward_error + (fs_error + bytes)" where
  "open_source outside src name =
     (case part_node src name of
        Ok (File c) \<Rightarrow> Ok (Ok c)
      | Ok (BadFile _) \<Rightarrow> Ok (Err OtherError)
      | Ok (Dir _) \<Rightarrow> Ok (Err OtherError)
      | _ \<Rightarrow> (case read_path outside src name of
                Ok c \<Rightarrow> Ok (Ok c)
              | Err NotFound \<Rightarrow> Err (MissingActive name)
              | Err e \<Rightarrow> Err (CopyIo e)))"

definition copy_forward_file ::
    "ivd_env \<Rightarrow> dir option \<Rightarrow> string \<Rightarrow> bytes \<Rightarrow> bank_fs \<Rightarrow> bank_fs \<times> (copy_forward_error + bytes \<times> u64)" where
  "copy_forward_file env src name expected w =
     (case open_source (ie_outside env) src name of
        Err e \<Rightarrow> (w, Err e)
      | Ok input \<Rightarrow>
          (case create_dir_all w of
             (w1, Err e) \<Rightarrow> (w1, Err (CopyIo e))
           | (w1, Ok _) \<Rightarrow>
          (case make_parents name w1 of
             (w2, Err e) \<Rightarrow> (w2, Err (CopyIo e))
           | (w2, Ok _) \<Rightarrow>
          (case write_part name (File []) w2 of
             (w3, Err e) \<Rightarrow> (w3, Err (CopyIo e))
           | (w3, Ok _) \<Rightarrow>
          (case input of
             Err e \<Rightarrow> (w3, Err (CopyIo e))
           | Ok c \<Rightarrow>
          (case write_part name (File c) w3 of
             (w4, Err e) \<Rightarrow> (w4, Err (CopyIo e))
           | (w4, Ok _) \<Rightarrow>
               let actual = ie_sha env (hash_blocks (4 * 1024 * 1024) [] c)
               in if actual \<noteq> expected
                  then (fst (remove_part name w4), Err (CopyDigestMismatch name expected actual))
                  else (w4, Ok (actual, of_nat (length c)))))))))"

end
