(* ===== verification/BankProvider.thy ===== *)
theory BankProvider
  imports BankSeed Ota NodeUpdate Bootstrap
begin

text \<open>
  The provider of an A/B bank set, \<^verbatim>\<open>crates/component-mgr/src/bank_provider.rs\<close>: the bank directories with
  their signed manifests, the staging records, the boot state in the NV store and the shared boot
  vector. The fixed fields of \<^verbatim>\<open>IvdBankProvider\<close> are the record \<open>bp_cfg\<close>; what its methods change is
  \<open>bp_world\<close>. A field that is \<open>None\<close> in the code is \<open>None\<close> here; without an images directory the set
  directory is not used. The activator, the HSM, the CBOR encoding of the staging record, hexadecimal
  decoding and whether a link leads to a file are parameters. Texts of errors are structured values.
  Locks are never poisoned, since nothing panics while holding one. The removal of files of an older
  layout from the images directory is left out.
\<close>

section \<open>Data\<close>

datatype reset_kind = ResetNone | ResetLocal | RequiresEcuReset

record staged_part =
  sp_name :: string
  sp_size :: u64
  sp_sha256 :: string

record staging_record =
  sr_version :: u32
  sr_update_id :: "string option"
  sr_node_boot_id :: "string option"
  sr_started_unix :: u64
  sr_parts :: "staged_part list"
  sr_sealed :: bool

datatype bank_failure =
    FailOta ota_error
  | FailVectorWrite selector_error
  | FailVectorCommit selector_error
  | FailVectorRollback selector_error
  | FailActivator string
  | FailSeed seed_error
  | FailSign ivd_error
  | FailDisable ivd_error
  | FailRead ivd_error
  | FailProbe hsm_error
  | FailNoBootState
  | FailNoImagesDir
  | FailNoHsm
  | FailNotProvisioned
  | FailNoCrypto
  | FailEncode string
  | FailFs fs_error
  | FailPartition string

datatype bank_error =
    BankIo fs_error
  | NotInstalled
  | Unverifiable string
  | UnknownPart string
  | Unsupported string
  | BankFailed bank_failure

record firmware_identity =
  fi_name :: "string option"
  fi_version :: "string option"
  fi_ecu_sw_number :: "string option"
  fi_supplier_sw_number :: "string option"
  fi_supplier_sw_version :: "string option"
  fi_spare_part_number :: "string option"
  fi_odx_file_id :: "string option"
  fi_system_name :: "string option"
  fi_programming_date :: "string option"
  fi_tester_serial :: "string option"

record installed_file =
  inf_name :: string
  inf_sha256 :: bytes

record installed_firmware =
  ifw_bank :: bank
  ifw_gen :: u64
  ifw_files :: "installed_file list"
  ifw_identity :: firmware_identity
  ifw_signature :: "bytes option"
  ifw_raw :: "bytes option"

record ('s, 'c) bp_cfg =
  bp_crc :: "bytes \<Rightarrow> u32"
  bp_ivd :: ivd_env
  bp_selector :: "'s selector_store_ops option"
  bp_bank_set :: bank_set
  bp_component_id :: string
  bp_single_bank :: bool
  bp_images_dir :: bool
  bp_hsm :: "('c \<Rightarrow> 'c \<times> (hsm_error + bool)) option"
  bp_hsm_crypto :: "'c crypto_ops option"
  bp_activator :: "((dir option \<Rightarrow> string + unit) \<times> reset_kind) option"
  bp_running_bank :: bank
  bp_node_boot_id :: "string option"
  bp_encode_record :: "staging_record \<Rightarrow> string + bytes"
  bp_decode_record :: "bytes \<Rightarrow> staging_record option"
  bp_hex_decode :: "string \<Rightarrow> bytes option"
  bp_link_to_file :: "string \<Rightarrow> bool"

record ('s, 'c) bp_world =
  bw_nv :: nv_store
  bw_selector :: "'s system_bank_manager"
  bw_hsm :: 'c
  bw_set :: set_fs

definition on_set :: "(set_fs \<Rightarrow> set_fs \<times> 'r) \<Rightarrow> ('s, 'c) bp_world \<Rightarrow> ('s, 'c) bp_world \<times> 'r" where
  "on_set f w = (case f (bw_set w) of (s, r) \<Rightarrow> (w\<lparr>bw_set := s\<rparr>, r))"

definition on_nv :: "(nv_store \<Rightarrow> nv_store \<times> 'r) \<Rightarrow> ('s, 'c) bp_world \<Rightarrow> ('s, 'c) bp_world \<times> 'r" where
  "on_nv f w = (case f (bw_nv w) of (nv, r) \<Rightarrow> (w\<lparr>bw_nv := nv\<rparr>, r))"

definition on_selector ::
    "('s system_bank_manager \<Rightarrow> 's system_bank_manager \<times> 'r) \<Rightarrow> ('s, 'c) bp_world \<Rightarrow> ('s, 'c) bp_world \<times> 'r" where
  "on_selector f w = (case f (bw_selector w) of (m, r) \<Rightarrow> (w\<lparr>bw_selector := m\<rparr>, r))"

definition fail_as :: "('e \<Rightarrow> bank_failure) \<Rightarrow> 'w \<times> ('e + 'a) \<Rightarrow> 'w \<times> (bank_error + 'a)" where
  "fail_as f x = (case x of (w, Ok a) \<Rightarrow> (w, Ok a) | (w, Err e) \<Rightarrow> (w, Err (BankFailed (f e))))"

definition io_as :: "'w \<times> (fs_error + 'a) \<Rightarrow> 'w \<times> (bank_error + 'a)" where
  "io_as x = (case x of (w, Ok a) \<Rightarrow> (w, Ok a) | (w, Err e) \<Rightarrow> (w, Err (BankIo e)))"

section \<open>Which bank\<close>

text \<open>The boot state of the set; the index of a set is within the record, as in \<open>Ota\<close>.\<close>

definition nv_bank :: "('s, 'c) bp_cfg \<Rightarrow> nv_store \<Rightarrow> bank_boot_state option" where
  "nv_bank cfg nv =
     (case read_boot_state (bp_crc cfg) nv of
        None \<Rightarrow> None
      | Some st \<Rightarrow> (case bank_at st (bp_bank_set cfg) of Ok b \<Rightarrow> Some b | Err _ \<Rightarrow> None))"

definition provider_running_bank :: "('s, 'c) bp_cfg \<Rightarrow> nv_store \<Rightarrow> bank" where
  "provider_running_bank cfg nv =
     (if bp_single_bank cfg then A else case nv_bank cfg nv of None \<Rightarrow> A | Some b \<Rightarrow> active_bank b)"

definition fallback_target_active :: "('s, 'c) bp_cfg \<Rightarrow> ('s, 'c) bp_world \<Rightarrow> bank" where
  "fallback_target_active cfg w = (case nv_bank cfg (bw_nv w) of None \<Rightarrow> A | Some b \<Rightarrow> active_bank b)"

definition selected_bank :: "('s, 'c) bp_cfg \<Rightarrow> ('s, 'c) bp_world \<Rightarrow> bank option" where
  "selected_bank cfg w =
     (case bp_selector cfg of None \<Rightarrow> None | Some _ \<Rightarrow> sbm_active_bank (bw_selector w) (bp_component_id cfg))"

definition bp_active_bank :: "('s, 'c) bp_cfg \<Rightarrow> ('s, 'c) bp_world \<Rightarrow> bank" where
  "bp_active_bank cfg w = (case selected_bank cfg w of Some b \<Rightarrow> b | None \<Rightarrow> bp_running_bank cfg)"

definition pending_reboot :: "('s, 'c) bp_cfg \<Rightarrow> ('s, 'c) bp_world \<Rightarrow> bool" where
  "pending_reboot cfg w =
     (case selected_bank cfg w of Some s \<Rightarrow> s \<noteq> fallback_target_active cfg w | None \<Rightarrow> False)"

definition target_bank :: "('s, 'c) bp_cfg \<Rightarrow> ('s, 'c) bp_world \<Rightarrow> bank" where
  "target_bank cfg w = (if bp_single_bank cfg then A else other (fallback_target_active cfg w))"

definition rollback_target :: "('s, 'c) bp_cfg \<Rightarrow> ('s, 'c) bp_world \<Rightarrow> bank_error + bank" where
  "rollback_target cfg w =
     (case nv_bank cfg (bw_nv w) of
        None \<Rightarrow> Err (BankFailed (FailOta OtaNoBootState))
      | Some b \<Rightarrow> if committed b then Err (BankFailed (FailOta NotInTrial)) else Ok (other (active_bank b)))"

definition bp_reset_kind :: "('s, 'c) bp_cfg \<Rightarrow> reset_kind" where
  "bp_reset_kind cfg = (case bp_activator cfg of None \<Rightarrow> ResetLocal | Some a \<Rightarrow> snd a)"

section \<open>What a bank holds\<close>

definition target_bank_dir :: "('s, 'c) bp_cfg \<Rightarrow> ('s, 'c) bp_world \<Rightarrow> bank \<Rightarrow> dir option" where
  "target_bank_dir cfg w k = (if bp_images_dir cfg then sd_dirs (bw_set w) k else None)"

text \<open>A digest is copied into 32 bytes: a short one is padded with zeros, a long one cut.\<close>

definition digest32 :: "bytes \<Rightarrow> bytes" where
  "digest32 h = take 32 (h @ replicate 32 0)"

definition images_of :: "ivd_file list \<Rightarrow> (string, image_entry) fmap" where
  "images_of fs = fold (\<lambda>f m. fmupd (vf_relative_path f) \<lparr>img_size = vf_size f, img_sha256 = digest32 (vf_sha256 f)\<rparr> m)
     (filter (\<lambda>f. \<not> is_disabled_record f) fs) fmempty"

definition read_bank :: "('s, 'c) bp_cfg \<Rightarrow> ('s, 'c) bp_world \<Rightarrow> bank \<Rightarrow> bank_contents" where
  "read_bank cfg w k =
     (case read_manifest_unverified (bp_ivd cfg) (target_bank_dir cfg w k) of
        Ok vm \<Rightarrow> \<lparr>bc_bank = k, bc_images = images_of (mf_files (vm_manifest vm)),
                  bc_install_boot_id = mf_install_boot_id (vm_manifest vm), bc_update_id = mf_update_id (vm_manifest vm),
                  bc_sealed = True\<rparr>
      | Err _ \<Rightarrow> \<lparr>bc_bank = k, bc_images = fmempty, bc_install_boot_id = None, bc_update_id = None, bc_sealed = False\<rparr>)"

definition bank_dir_name :: "bank \<Rightarrow> string" where
  "bank_dir_name k = (case k of A \<Rightarrow> ''bank_a'' | B \<Rightarrow> ''bank_b'')"

definition staging_record_path :: "bank \<Rightarrow> string" where
  "staging_record_path k = ''staging-'' @ bank_dir_name k @ ''.cbor''"

definition staging_record_tmp_path :: "bank \<Rightarrow> string" where
  "staging_record_tmp_path k = staging_record_path k @ ''.tmp''"

definition read_staging_record :: "('s, 'c) bp_cfg \<Rightarrow> ('s, 'c) bp_world \<Rightarrow> bank \<Rightarrow> staging_record option" where
  "read_staging_record cfg w k =
     (if \<not> bp_images_dir cfg then None
      else case read_path (ie_outside (bp_ivd cfg)) (sd_top (bw_set w)) (staging_record_path k) of
             Err _ \<Rightarrow> None
           | Ok bs \<Rightarrow> bp_decode_record cfg bs)"

definition staged_image :: "('s, 'c) bp_cfg \<Rightarrow> staged_part \<Rightarrow> (string \<times> image_entry) option" where
  "staged_image cfg p =
     (case bp_hex_decode cfg (sp_sha256 p) of
        Some h \<Rightarrow> if length h = 32 then Some (sp_name p, \<lparr>img_size = sp_size p, img_sha256 = h\<rparr>) else None
      | None \<Rightarrow> None)"

definition staged_bank :: "('s, 'c) bp_cfg \<Rightarrow> ('s, 'c) bp_world \<Rightarrow> bank \<Rightarrow> bank_contents option" where
  "staged_bank cfg w k =
     map_option (\<lambda>r. \<lparr>bc_bank = k,
         bc_images = fold (\<lambda>(n, i) m. fmupd n i m) (List.map_filter (staged_image cfg) (sr_parts r)) fmempty,
         bc_install_boot_id = None, bc_update_id = sr_update_id r, bc_sealed = False\<rparr>)
       (read_staging_record cfg w k)"

definition staged_update_id :: "('s, 'c) bp_cfg \<Rightarrow> ('s, 'c) bp_world \<Rightarrow> bank \<Rightarrow> string option" where
  "staged_update_id cfg w k = (case read_staging_record cfg w k of None \<Rightarrow> None | Some r \<Rightarrow> sr_update_id r)"

definition banks_for :: "('s, 'c) bp_cfg \<Rightarrow> ('s, 'c) bp_world \<Rightarrow> reset_kind \<Rightarrow> component_banks" where
  "banks_for cfg w kind =
     (let active = read_bank cfg w (bp_active_bank cfg w);
          k = other (bc_bank active);
          inactive = (if bp_single_bank cfg then None
                      else if bc_images (read_bank cfg w k) \<noteq> fmempty then Some (read_bank cfg w k)
                      else staged_bank cfg w k);
          in_trial = (case bp_selector cfg of
                        Some _ \<Rightarrow> component_in_trial (bw_selector w) (bp_component_id cfg)
                      | None \<Rightarrow> (case nv_bank cfg (bw_nv w) of None \<Rightarrow> False | Some b \<Rightarrow> \<not> committed b));
          pending_reset = (kind = RequiresEcuReset \<and> bc_install_boot_id active \<noteq> None
                           \<and> bc_install_boot_id active = bp_node_boot_id cfg)
      in \<lparr>cb_active = active, cb_inactive = inactive, cb_in_trial = in_trial, cb_pending_reset = pending_reset\<rparr>)"

definition bp_banks :: "('s, 'c) bp_cfg \<Rightarrow> ('s, 'c) bp_world \<Rightarrow> component_banks option" where
  "bp_banks cfg w = Some (banks_for cfg w (bp_reset_kind cfg))"

section \<open>Staging\<close>

text \<open>Replace or remove the staging record of a bank.\<close>

definition store_staging_record ::
    "('s, 'c) bp_cfg \<Rightarrow> bank \<Rightarrow> staging_record option \<Rightarrow> ('s, 'c) bp_world \<Rightarrow> ('s, 'c) bp_world \<times> (bank_error + unit)" where
  "store_staging_record cfg k record w =
     (if \<not> bp_images_dir cfg then (w, Ok ())
      else case record of
        Some r \<Rightarrow>
          (case bp_encode_record cfg r of
             Err e \<Rightarrow> (w, Err (BankFailed (FailEncode e)))
           | Ok bs \<Rightarrow>
               on_ok (io_as (on_set (at_top create_dir_all) w)) (\<lambda>w1 _.
                 io_as (on_set (at_top (write_file_durably (staging_record_path k) (staging_record_tmp_path k) bs)) w1)))
      | None \<Rightarrow>
          (case on_set (at_top (remove_file (staging_record_path k))) w of
             (w1, Ok _) \<Rightarrow> (fst (on_set (at_top sync_all) w1), Ok ())
           | (w1, Err NotFound) \<Rightarrow> (w1, Ok ())
           | (w1, Err e) \<Rightarrow> (w1, Err (BankIo e))))"

definition clear_staging_dir :: "('s, 'c) bp_cfg \<Rightarrow> bank \<Rightarrow> ('s, 'c) bp_world \<Rightarrow> ('s, 'c) bp_world" where
  "clear_staging_dir cfg k w = (if bp_images_dir cfg then fst (on_set (at_staging k remove_dir_all) w) else w)"

definition seal_staging :: "('s, 'c) bp_cfg \<Rightarrow> bank \<Rightarrow> ('s, 'c) bp_world \<Rightarrow> ('s, 'c) bp_world" where
  "seal_staging cfg k w =
     (let w1 = (case read_staging_record cfg w k of
          None \<Rightarrow> w
        | Some r \<Rightarrow>
            fst (store_staging_record cfg k (Some (r\<lparr>sr_sealed := True,
              sr_parts := map (\<lambda>(n, i). \<lparr>sp_name = n, sp_size = img_size i, sp_sha256 = hex_lower (img_sha256 i)\<rparr>)
                (sorted_list_of_fmap (bc_images (read_bank cfg w k)))\<rparr>)) w))
      in clear_staging_dir cfg k w1)"

text \<open>What \<^verbatim>\<open>Path::is_file\<close> answers for an entry of a bank directory.\<close>

definition entry_is_file :: "('s, 'c) bp_cfg \<Rightarrow> fnode \<Rightarrow> bool" where
  "entry_is_file cfg nd = (case nd of File _ \<Rightarrow> True | BadFile _ \<Rightarrow> True | Link t \<Rightarrow> bp_link_to_file cfg t | _ \<Rightarrow> False)"

definition prune_keeps :: "('s, 'c) bp_cfg \<Rightarrow> string list \<Rightarrow> string \<times> fnode \<Rightarrow> bool" where
  "prune_keeps cfg keep e \<longleftrightarrow> \<not> entry_is_file cfg (snd e)
     \<or> utf8_valid (str_bytes (fst e)) \<and> fst e \<in> set keep
     \<or> bp_single_bank cfg \<and> (fst e = IVD_MANIFEST_FILE \<or> fst e = IVD_SIGNATURE_FILE)"

fun remove_files :: "string list \<Rightarrow> bank_fs \<Rightarrow> bank_fs" where
  "remove_files [] w = w"
| "remove_files (n # ns) w = remove_files ns (fst (remove_file n w))"

definition prune_bank_dir ::
    "('s, 'c) bp_cfg \<Rightarrow> bank \<Rightarrow> string list \<Rightarrow> ('s, 'c) bp_world \<Rightarrow> ('s, 'c) bp_world \<times> (bank_error + unit)" where
  "prune_bank_dir cfg k keep w =
     (if \<not> bp_images_dir cfg then (w, Ok ())
      else
        on_ok (fail_as FailFs (on_set (\<lambda>s. with_top (at_bank k create_dir_all s)) (clear_staging_dir cfg k w))) (\<lambda>w1 _.
          on_set (at_bank k (\<lambda>b. (case bf_dir b of
                                   None \<Rightarrow> b
                                 | Some es \<Rightarrow> remove_files (map fst (filter (\<lambda>e. \<not> prune_keeps cfg keep e) es)) b, Ok ()))) w1))"

definition prepare_target_bank_dir ::
    "('s, 'c) bp_cfg \<Rightarrow> bank \<Rightarrow> ('s, 'c) bp_world \<Rightarrow> ('s, 'c) bp_world \<times> (bank_error + unit)" where
  "prepare_target_bank_dir cfg k w = prune_bank_dir cfg k [] w"

text \<open>The file of a new upload has a fresh name, given by its identifier.\<close>

definition staging_name :: "string \<Rightarrow> string" where
  "staging_name uuid = ''upload-'' @ uuid @ ''.part''"

definition open_staging_writer ::
    "('s, 'c) bp_cfg \<Rightarrow> bank \<Rightarrow> string \<Rightarrow> ('s, 'c) bp_world \<Rightarrow> ('s, 'c) bp_world \<times> (bank_error + string)" where
  "open_staging_writer cfg k uuid w =
     (if \<not> bp_images_dir cfg then (w, Err (BankFailed FailNoImagesDir))
      else
        on_ok (io_as (on_set (\<lambda>s. with_top (at_staging k create_dir_all s)) w)) (\<lambda>w1 _.
        on_ok (io_as (on_set (at_staging k (create_file (staging_name uuid))) w1)) (\<lambda>w2 _. (w2, Ok (staging_name uuid)))))"

text \<open>The rename of an upload into the bank moves its node from the staging directory.\<close>

definition commit_staged ::
    "('s, 'c) bp_cfg \<Rightarrow> bank \<Rightarrow> string \<Rightarrow> string \<Rightarrow> ('s, 'c) bp_world \<Rightarrow> ('s, 'c) bp_world \<times> (bank_error + unit)" where
  "commit_staged cfg k handle name w =
     (if \<not> bp_images_dir cfg then (w, Err (BankFailed FailNoImagesDir))
      else
        on_ok (io_as (on_set (\<lambda>s. with_top (at_bank k create_dir_all s)) w)) (\<lambda>w1 _.
        on_ok (io_as (on_set (at_bank k (make_parents name)) w1)) (\<lambda>w2 _.
          case sd_staging (bw_set w2) k of
            None \<Rightarrow> (w2, Err (BankFailed (FailFs NotFound)))
          | Some es \<Rightarrow>
              (case map_of es handle of
                 None \<Rightarrow> (w2, Err (BankFailed (FailFs NotFound)))
               | Some nd \<Rightarrow>
                   (case on_set (at_bank k (fs_call (put_part name nd) untouched)) w2 of
                      (w3, Err e) \<Rightarrow> (w3, Err (BankFailed (FailFs e)))
                    | (w3, Ok _) \<Rightarrow>
                        (fst (on_set (at_bank k sync_all)
                           (w3\<lparr>bw_set := (bw_set w3)\<lparr>sd_staging := (sd_staging (bw_set w3))(k := Some (AList.delete handle es))\<rparr>\<rparr>)),
                         Ok ()))))))"

definition discard_staged ::
    "('s, 'c) bp_cfg \<Rightarrow> bank \<Rightarrow> string \<Rightarrow> ('s, 'c) bp_world \<Rightarrow> ('s, 'c) bp_world \<times> (bank_error + unit)" where
  "discard_staged cfg k handle w =
     (if \<not> bp_images_dir cfg then (w, Ok ())
      else case on_set (at_staging k (remove_file handle)) w of
             (w', Err NotFound) \<Rightarrow> (w', Ok ())
           | x \<Rightarrow> io_as x)"

text \<open>Creating a part directly does not create the directories above it.\<close>

definition create_part :: "string \<Rightarrow> bank_fs \<Rightarrow> bank_fs \<times> (fs_error + unit)" where
  "create_part name =
     fs_call (\<lambda>d. case node_at (butlast (split_at slash name)) (Dir d) of
                    Err e \<Rightarrow> Err e
                  | Ok _ \<Rightarrow>
                      (case part_node (Some d) name of
                         Ok (Link _) \<Rightarrow> Ok d
                       | Ok Special \<Rightarrow> Ok d
                       | _ \<Rightarrow> put_part name (File []) d)) untouched"

definition open_payload_writer ::
    "('s, 'c) bp_cfg \<Rightarrow> bank \<Rightarrow> string \<Rightarrow> ('s, 'c) bp_world \<Rightarrow> ('s, 'c) bp_world \<times> (bank_error + unit)" where
  "open_payload_writer cfg k name w =
     (if \<not> bp_images_dir cfg then (w, Err (BankFailed FailNoImagesDir))
      else
        on_ok (io_as (on_set (\<lambda>s. with_top (at_bank k create_dir_all s)) w)) (\<lambda>w1 _.
          io_as (on_set (at_bank k (create_part name)) w1)))"

definition verify_payload ::
    "('s, 'c) bp_cfg \<Rightarrow> bank \<Rightarrow> string \<Rightarrow> bytes \<Rightarrow> ('s, 'c) bp_world \<Rightarrow> bank_error + unit" where
  "verify_payload cfg k name expected w =
     (if \<not> bp_images_dir cfg then Err (BankFailed FailNoImagesDir)
      else case read_path (ie_outside (bp_ivd cfg)) (sd_dirs (bw_set w) k) name of
             Err e \<Rightarrow> Err (BankFailed (FailFs e))
           | Ok c \<Rightarrow> if ie_sha (bp_ivd cfg) (hash_blocks 65536 [] c) = expected then Ok () else Err (Unverifiable name))"

section \<open>Sealing\<close>

definition seed_target_from_active ::
    "('s, 'c) bp_cfg \<Rightarrow> bank \<Rightarrow> string list \<Rightarrow> ('s, 'c) bp_world \<Rightarrow> ('s, 'c) bp_world \<times> (bank_error + unit)" where
  "seed_target_from_active cfg k required w =
     (if bp_single_bank cfg \<or> \<not> bp_images_dir cfg then (w, Ok ())
      else case nv_bank cfg (bw_nv w) of
             None \<Rightarrow> (w, Err (BankFailed FailNoBootState))
           | Some b \<Rightarrow>
               if active_bank b = k then (w, Ok ())
               else on_ok (fail_as FailSeed (on_set (at_bank k (seed_missing_files (sd_dirs (bw_set w) (active_bank b)) required)) w))
                      (\<lambda>w' _. (w', Ok ())))"

definition bank_dir_is_payload_empty :: "('s, 'c) bp_cfg \<Rightarrow> dir \<Rightarrow> bool" where
  "bank_dir_is_payload_empty cfg es =
     list_all (\<lambda>(n, nd). \<not> entry_is_file cfg nd \<or> \<not> utf8_valid (str_bytes n) \<or> n = IVD_MANIFEST_FILE \<or> n = IVD_SIGNATURE_FILE) es"

definition identity_text :: "string option \<Rightarrow> string" where
  "identity_text x = (case x of None \<Rightarrow> [] | Some t \<Rightarrow> t)"

definition text_identity :: "string \<Rightarrow> string option" where
  "text_identity t = (if t = [] then None else Some t)"

definition firmware_to_ivd_identity :: "firmware_identity \<Rightarrow> ivd_identity" where
  "firmware_to_ivd_identity i =
     \<lparr>id_name = identity_text (fi_name i), id_version = identity_text (fi_version i),
      id_ecu_sw_number = identity_text (fi_ecu_sw_number i), id_supplier_sw_number = identity_text (fi_supplier_sw_number i),
      id_supplier_sw_version = identity_text (fi_supplier_sw_version i), id_spare_part_number = identity_text (fi_spare_part_number i),
      id_odx_file_id = identity_text (fi_odx_file_id i), id_system_name = identity_text (fi_system_name i),
      id_programming_date = identity_text (fi_programming_date i), id_tester_serial = identity_text (fi_tester_serial i)\<rparr>"

definition ivd_identity_to_firmware :: "ivd_identity \<Rightarrow> firmware_identity" where
  "ivd_identity_to_firmware i =
     \<lparr>fi_name = text_identity (id_name i), fi_version = text_identity (id_version i),
      fi_ecu_sw_number = text_identity (id_ecu_sw_number i), fi_supplier_sw_number = text_identity (id_supplier_sw_number i),
      fi_supplier_sw_version = text_identity (id_supplier_sw_version i), fi_spare_part_number = text_identity (id_spare_part_number i),
      fi_odx_file_id = text_identity (id_odx_file_id i), fi_system_name = text_identity (id_system_name i),
      fi_programming_date = text_identity (id_programming_date i), fi_tester_serial = text_identity (id_tester_serial i)\<rparr>"

text \<open>Signing a bank works on the HSM and the bank directory together.\<close>

definition on_bank_signed ::
    "bank \<Rightarrow> ('c \<times> bank_fs \<Rightarrow> ('c \<times> bank_fs) \<times> 'r) \<Rightarrow> ('s, 'c) bp_world \<Rightarrow> ('s, 'c) bp_world \<times> 'r" where
  "on_bank_signed k f w =
     (case f (bw_hsm w, \<lparr>bf_dir = sd_dirs (bw_set w) k, bf_faults = sd_faults (bw_set w)\<rparr>) of
        ((c, b), r) \<Rightarrow>
          (w\<lparr>bw_hsm := c, bw_set := (bw_set w)\<lparr>sd_dirs := (sd_dirs (bw_set w))(k := bf_dir b), sd_faults := bf_faults b\<rparr>\<rparr>, r))"

definition sign_target ::
    "('s, 'c) bp_cfg \<Rightarrow> bank \<Rightarrow> firmware_identity \<Rightarrow> u64 \<Rightarrow> ('s, 'c) bp_world \<Rightarrow> ('s, 'c) bp_world \<times> (bank_error + unit)" where
  "sign_target cfg k ident gn w =
     (case bp_hsm_crypto cfg of
        None \<Rightarrow> (w, Err (BankFailed FailNoCrypto))
      | Some cr \<Rightarrow>
          on_ok (fail_as FailSign (on_bank_signed k
              (sign_bank_crypto_at (bp_ivd cfg) cr gn (firmware_to_ivd_identity ident) (bp_node_boot_id cfg) (staged_update_id cfg w k)) w))
            (\<lambda>w' _. (seal_staging cfg k w', Ok ())))"

definition bp_seal ::
    "('s, 'c) bp_cfg \<Rightarrow> bank \<Rightarrow> firmware_identity \<Rightarrow> u64 \<Rightarrow> string list \<Rightarrow> ('s, 'c) bp_world
       \<Rightarrow> ('s, 'c) bp_world \<times> (bank_error + unit)" where
  "bp_seal cfg k ident gn required w =
     on_ok (seed_target_from_active cfg k required w) (\<lambda>w1 _.
       case target_bank_dir cfg w1 k of
         None \<Rightarrow> (w1, Ok ())
       | Some es \<Rightarrow>
           if bank_dir_is_payload_empty cfg es then (w1, Ok ())
           else case bp_hsm cfg of
             None \<Rightarrow> (w1, Err (BankFailed FailNoHsm))
           | Some probe \<Rightarrow>
               (case probe (bw_hsm w1) of
                  (c, Err e) \<Rightarrow> (w1\<lparr>bw_hsm := c\<rparr>, Err (BankFailed (FailProbe e)))
                | (c, Ok p) \<Rightarrow>
                    if p then sign_target cfg k ident gn (w1\<lparr>bw_hsm := c\<rparr>) else (w1\<lparr>bw_hsm := c\<rparr>, Ok ())))"

definition read_installed :: "('s, 'c) bp_cfg \<Rightarrow> ('s, 'c) bp_world \<Rightarrow> bank \<Rightarrow> bank_error + installed_firmware" where
  "read_installed cfg w k =
     (if \<not> bp_images_dir cfg then Err NotInstalled
      else case read_manifest_unverified (bp_ivd cfg) (sd_dirs (bw_set w) k) of
             Ok vm \<Rightarrow>
               Ok \<lparr>ifw_bank = k, ifw_gen = mf_gen (vm_manifest vm),
                  ifw_files = map (\<lambda>f. \<lparr>inf_name = vf_relative_path f, inf_sha256 = digest32 (vf_sha256 f)\<rparr>) (mf_files (vm_manifest vm)),
                  ifw_identity = ivd_identity_to_firmware (mf_identity (vm_manifest vm)),
                  ifw_signature = Some (vm_signature vm), ifw_raw = Some (vm_manifest_bytes vm)\<rparr>
           | Err (IvdIo NotFound _) \<Rightarrow> Err NotInstalled
           | Err e \<Rightarrow> Err (BankFailed (FailRead e)))"

section \<open>Activation, commit and rollback\<close>

definition write_vector ::
    "('s, 'c) bp_cfg \<Rightarrow> 's selector_store_ops \<Rightarrow> bank \<Rightarrow> ('s, 'c) bp_world \<Rightarrow> ('s, 'c) bp_world \<times> (bank_error + bool)" where
  "write_vector cfg ops k w =
     fail_as FailVectorWrite (on_selector (\<lambda>m. seal (ie_sha (bp_ivd cfg)) ops (bp_node_boot_id cfg)
       (stage (bp_component_id cfg) k (bc_images (read_bank cfg w k)) m)) w)"

definition bp_activate :: "('s, 'c) bp_cfg \<Rightarrow> bank \<Rightarrow> ('s, 'c) bp_world \<Rightarrow> ('s, 'c) bp_world \<times> (bank_error + reset_kind)" where
  "bp_activate cfg k w =
     (case (case bp_activator cfg of
              Some (act, _) \<Rightarrow> if bp_images_dir cfg then act (sd_dirs (bw_set w) k) else Ok ()
            | None \<Rightarrow> Ok ()) of
        Err e \<Rightarrow> (w, Err (BankFailed (FailActivator e)))
      | Ok _ \<Rightarrow>
          on_ok (case bp_selector cfg of None \<Rightarrow> (w, Ok False) | Some ops \<Rightarrow> write_vector cfg ops k w) (\<lambda>w1 _.
            (fst (store_staging_record cfg k None w1), Ok (bp_reset_kind cfg))))"

definition bp_commit :: "('s, 'c) bp_cfg \<Rightarrow> ('s, 'c) bp_world \<Rightarrow> ('s, 'c) bp_world \<times> (bank_error + unit)" where
  "bp_commit cfg w =
     on_ok (case on_nv (\<lambda>nv. ota_commit (bp_crc cfg) nv (bp_bank_set cfg)) w of
              (w1, Err AlreadyCommitted) \<Rightarrow> (w1, Ok ())
            | x \<Rightarrow> fail_as FailOta x) (\<lambda>w1 _.
       case bp_selector cfg of
         None \<Rightarrow> (w1, Ok ())
       | Some ops \<Rightarrow> fail_as FailVectorCommit (on_selector (commit ops) w1))"

definition bp_rollback :: "('s, 'c) bp_cfg \<Rightarrow> ('s, 'c) bp_world \<Rightarrow> ('s, 'c) bp_world \<times> (bank_error + unit)" where
  "bp_rollback cfg w =
     (case rollback_target cfg w of
        Err e \<Rightarrow> (w, Err e)
      | Ok _ \<Rightarrow>
          on_ok (case bp_selector cfg of
                   None \<Rightarrow> (w, Ok ())
                 | Some ops \<Rightarrow> fail_as FailVectorRollback (on_selector (rollback ops Verdict) w)) (\<lambda>w1 _.
          on_ok (fail_as FailOta (on_nv (\<lambda>nv. ota_rollback (bp_crc cfg) nv (bp_bank_set cfg)) w1)) (\<lambda>w2 _. (w2, Ok ()))))"

section \<open>The disable record\<close>

definition disabled_record_crypto :: "('s, 'c) bp_cfg \<Rightarrow> 'c \<Rightarrow> 'c \<times> (bank_error + 'c crypto_ops)" where
  "disabled_record_crypto cfg c =
     (case bp_hsm cfg of
        None \<Rightarrow> (c, Err (BankFailed FailNoHsm))
      | Some probe \<Rightarrow>
          (case probe c of
             (c', Err e) \<Rightarrow> (c', Err (BankFailed (FailProbe e)))
           | (c', Ok p) \<Rightarrow>
               if \<not> p then (c', Err (BankFailed FailNotProvisioned))
               else (c', case bp_hsm_crypto cfg of None \<Rightarrow> Err (BankFailed FailNoCrypto) | Some cr \<Rightarrow> Ok cr)))"

definition can_persist_disabled_record :: "('s, 'c) bp_cfg \<Rightarrow> ('s, 'c) bp_world \<Rightarrow> ('s, 'c) bp_world \<times> (bank_error + unit)" where
  "can_persist_disabled_record cfg w =
     (if \<not> bp_images_dir cfg then (w, Err (BankFailed FailNoImagesDir))
      else case disabled_record_crypto cfg (bw_hsm w) of
             (c, Err e) \<Rightarrow> (w\<lparr>bw_hsm := c\<rparr>, Err e)
           | (c, Ok _) \<Rightarrow> (w\<lparr>bw_hsm := c\<rparr>, Ok ()))"

definition write_disabled_record ::
    "('s, 'c) bp_cfg \<Rightarrow> bank \<Rightarrow> u64 \<Rightarrow> ('s, 'c) bp_world \<Rightarrow> ('s, 'c) bp_world \<times> (bank_error + unit)" where
  "write_disabled_record cfg k gn w =
     (if \<not> bp_images_dir cfg then (w, Err (BankFailed FailNoImagesDir))
      else case disabled_record_crypto cfg (bw_hsm w) of
             (c, Err e) \<Rightarrow> (w\<lparr>bw_hsm := c\<rparr>, Err e)
           | (c, Ok cr) \<Rightarrow>
               (case read_manifest_verified (bp_ivd cfg) cr (sd_dirs (bw_set w) k) c of
                  (c1, old) \<Rightarrow>
                    let ident = (case old of Ok m \<Rightarrow> mf_identity m | Err _ \<Rightarrow> ivd_identity_default)
                    in on_ok (fail_as FailDisable (on_bank_signed k (sign_disabled_record_crypto (bp_ivd cfg) cr gn ident) (w\<lparr>bw_hsm := c1\<rparr>)))
                         (\<lambda>w' _. (w', Ok ()))))"

definition disabled_record ::
    "('s, 'c) bp_cfg \<Rightarrow> bank \<Rightarrow> ('s, 'c) bp_world \<Rightarrow> ('s, 'c) bp_world \<times> (bank_error + u64 option)" where
  "disabled_record cfg k w =
     (if \<not> bp_images_dir cfg then (w, Ok None)
      else case bp_hsm_crypto cfg of
             None \<Rightarrow> (w, Ok None)
           | Some cr \<Rightarrow>
               (case read_manifest_verified (bp_ivd cfg) cr (sd_dirs (bw_set w) k) (bw_hsm w) of
                  (c, r) \<Rightarrow>
                    (w\<lparr>bw_hsm := c\<rparr>,
                     case r of
                       Ok m \<Rightarrow> Ok (if is_disabled_manifest m then Some (mf_gen m) else None)
                     | Err (IvdIo NotFound _) \<Rightarrow> Ok None
                     | Err SignatureInvalid \<Rightarrow> Ok None
                     | Err e \<Rightarrow> Err (BankFailed (FailRead e)))))"

text \<open>Forgetting the staging state of a set: every removal that fails ends it, an absent file does not.\<close>

definition ignore_absent :: "'w \<times> (fs_error + unit) \<Rightarrow> 'w \<times> (fs_error + unit)" where
  "ignore_absent x = (case x of (w, Err NotFound) \<Rightarrow> (w, Ok ()) | _ \<Rightarrow> x)"

definition wipe_bank_record :: "bank \<Rightarrow> set_fs \<Rightarrow> set_fs \<times> (fs_error + unit)" where
  "wipe_bank_record k s =
     on_ok (ignore_absent (at_top (remove_file (staging_record_path k)) s)) (\<lambda>s1 _.
       ignore_absent (at_top (remove_file (staging_record_tmp_path k)) s1))"

text \<open>The staging directory holds the directories of both banks.\<close>

definition wipe_staging :: "set_fs \<Rightarrow> set_fs \<times> (fs_error + unit)" where
  "wipe_staging s =
     on_ok (wipe_bank_record A s) (\<lambda>s1 _.
     on_ok (wipe_bank_record B s1) (\<lambda>s2 _.
     on_ok (ignore_absent (at_staging A remove_dir_all s2)) (\<lambda>s3 _.
     on_ok (ignore_absent (at_staging B remove_dir_all s3)) (\<lambda>s4 _.
       (fst (at_top sync_all s4), Ok ())))))"

end
