(* ===== verification/Flash.thy ===== *)
theory Flash
  imports BankProvider
begin

text \<open>
  The update engine of one component, \<^verbatim>\<open>crates/component-mgr/src/backend.rs\<close>: the flash session
  from start over manifest and payload uploads to finalize, reset, commit, rollback and abort, the
  administrative disable, and the reports derived from them. \<^verbatim>\<open>dyn BankProvider\<close> is the record
  \<open>bank_ops\<close> over a world \<open>'w\<close>, which also holds the NV store the engine shares with it and the
  directory of the bank set it copies parts within; \<open>ivd_provider\<close> is the instance of
  \<open>BankProvider\<close>. SUIT decoding and validation, the payload pipeline (decryption, decompression), the
  download of missing parts, the HSM, the deactivator, the service that runs virtual machines, the
  safe-time floor and the clock are parameters. Identifiers are numbers; an absent package identifier
  is \<open>None\<close>. Locks are never poisoned, and every operation runs alone: the routes of a component
  serialise them. The legacy upload of a whole envelope without a session, its describe cache, the
  download directory and the cached data identifiers are left out; the texts of errors are
  structured values.
\<close>

section \<open>Data\<close>

datatype flash_state =
    Initial | Transferring | Preparing | AwaitingActivation | Validated | AwaitingReboot | Verifying
  | Activated | Committed | RolledBack | FlashComplete | FlashFailed

datatype manifest_type = Firmware | HsmKeys

record validated_firmware =
  vd_type :: manifest_type
  vd_meta :: image_meta
  vd_sha256 :: "bytes option"
  vd_size :: "u64 option"
  vd_raw_envelope :: "bytes option"
  vd_disable_target :: "nat option"

datatype manifest_error =
    ManifestParse string
  | ManifestSignature string
  | ManifestRollback u64 u64 "u64 option"
  | ManifestDigest
  | ManifestSize u64 u64
  | ManifestComponent string

text \<open>What the engine reads of a decoded SUIT manifest.\<close>

record suit_component =
  sc_id :: "bytes list option"
  sc_digest :: "bytes option"
  sc_uri :: "string option"

record suit_manifest =
  sm_components :: "suit_component list"
  sm_disable_target :: "nat option"
  sm_integrated :: bool

datatype detail =
    DText string
  | DBank bank_error
  | DOta ota_error
  | DNv block_error
  | DGate refused
  | DManifest manifest_error
  | DCopy copy_forward_error
  | DHsm hsm_error
  | DStates flash_state
  | DBanks bank bank

datatype backend_error =
    BeInvalidRequest detail
  | BeInternal detail
  | BeBusy detail
  | BeNotFound detail
  | BeNotSupported detail
  | BePrecondition detail
  | BeTransport detail
  | BeMediaType detail

datatype flash_session =
    AwaitingManifest
  | AwaitingPayload bytes validated_firmware "nat list" "nat set"
  | SessionComplete

datatype pre_reset_health = WasRunning u32 | WasNotRunning

record guest_health =
  gh_guest_state :: u32
  gh_boot_id :: u32
  gh_status :: string

datatype vm_health_state = VmRunning guest_health | VmNotRunning

record flash_transfer =
  ft_transfer_id :: nat
  ft_package_id :: "nat option"
  ft_state :: flash_state
  ft_pre_reset_health :: "pre_reset_health option"
  ft_image_size :: u64
  ft_streamed_files :: "ivd_file list"

datatype uploaded_part = UploadedManifest bytes | OnDisk bank string bytes

record admin_cache =
  ac_epoch :: nat
  ac_value :: "(bank \<times> bool) option"

definition cache_clear :: "admin_cache \<Rightarrow> admin_cache" where
  "cache_clear c = c\<lparr>ac_epoch := ac_epoch c + 1, ac_value := None\<rparr>"

definition store_if_epoch :: "nat \<Rightarrow> bank \<Rightarrow> bool \<Rightarrow> admin_cache \<Rightarrow> admin_cache" where
  "store_if_epoch observed k disabled c = (if ac_epoch c = observed then c\<lparr>ac_value := Some (k, disabled)\<rparr> else c)"

section \<open>The bank provider\<close>

record 'w bank_ops =
  bo_nv :: "'w \<Rightarrow> nv_store"
  bo_put_nv :: "nv_store \<Rightarrow> 'w \<Rightarrow> 'w"
  bo_active_bank :: "'w \<Rightarrow> bank"
  bo_selected_bank :: "'w \<Rightarrow> bank option"
  bo_pending_reboot :: "'w \<Rightarrow> bool"
  bo_target_bank :: "'w \<Rightarrow> bank"
  bo_banks :: "'w \<Rightarrow> component_banks option"
  bo_reset_kind :: reset_kind
  bo_prune_target :: "bank \<Rightarrow> string list \<Rightarrow> 'w \<Rightarrow> 'w \<times> (bank_error + unit)"
  bo_prepare_target :: "bank \<Rightarrow> 'w \<Rightarrow> 'w \<times> (bank_error + unit)"
  bo_open_staging_writer :: "bank \<Rightarrow> string \<Rightarrow> 'w \<Rightarrow> 'w \<times> (bank_error + string)"
  bo_write_staged :: "bank \<Rightarrow> string \<Rightarrow> bytes \<Rightarrow> 'w \<Rightarrow> 'w \<times> (fs_error + unit)"
  bo_commit_staged :: "bank \<Rightarrow> string \<Rightarrow> string \<Rightarrow> 'w \<Rightarrow> 'w \<times> (bank_error + unit)"
  bo_discard_staged :: "bank \<Rightarrow> string \<Rightarrow> 'w \<Rightarrow> 'w \<times> (bank_error + unit)"
  bo_open_payload_writer :: "bank \<Rightarrow> string \<Rightarrow> 'w \<Rightarrow> 'w \<times> (bank_error + unit)"
  bo_write_payload :: "bank \<Rightarrow> string \<Rightarrow> bytes \<Rightarrow> 'w \<Rightarrow> 'w \<times> (fs_error + unit)"
  bo_verify_payload :: "bank \<Rightarrow> string \<Rightarrow> bytes \<Rightarrow> 'w \<Rightarrow> bank_error + unit"
  bo_copy_forward :: "bank \<Rightarrow> bank \<Rightarrow> string \<Rightarrow> bytes \<Rightarrow> 'w \<Rightarrow> 'w \<times> (copy_forward_error + bytes \<times> u64)"
  bo_remove_part :: "bank \<Rightarrow> string \<Rightarrow> 'w \<Rightarrow> 'w"
  bo_seal :: "bank \<Rightarrow> firmware_identity \<Rightarrow> u64 \<Rightarrow> string list \<Rightarrow> 'w \<Rightarrow> 'w \<times> (bank_error + unit)"
  bo_staging_record :: "'w \<Rightarrow> bank \<Rightarrow> bank_error + staging_record option"
  bo_write_staging_record :: "bank \<Rightarrow> staging_record option \<Rightarrow> 'w \<Rightarrow> 'w \<times> (bank_error + unit)"
  bo_activate :: "bank \<Rightarrow> 'w \<Rightarrow> 'w \<times> (bank_error + reset_kind)"
  bo_commit :: "'w \<Rightarrow> 'w \<times> (bank_error + unit)"
  bo_rollback :: "'w \<Rightarrow> 'w \<times> (bank_error + unit)"
  bo_can_persist_disabled_record :: "'w \<Rightarrow> 'w \<times> (bank_error + unit)"
  bo_write_disabled_record :: "bank \<Rightarrow> u64 \<Rightarrow> 'w \<Rightarrow> 'w \<times> (bank_error + unit)"
  bo_disabled_record :: "bank \<Rightarrow> 'w \<Rightarrow> 'w \<times> (bank_error + u64 option)"

text \<open>
  The provider of \<open>BankProvider\<close>. A writer it hands out appends to the file it created; copying a part
  forward works on the same bank directories, where the target part is not a link.
\<close>

definition ivd_provider :: "('s, 'c) bp_cfg \<Rightarrow> ('s, 'c) bp_world bank_ops" where
  "ivd_provider cfg =
     \<lparr>bo_nv = bw_nv,
      bo_put_nv = (\<lambda>nv w. w\<lparr>bw_nv := nv\<rparr>),
      bo_active_bank = bp_active_bank cfg,
      bo_selected_bank = selected_bank cfg,
      bo_pending_reboot = pending_reboot cfg,
      bo_target_bank = target_bank cfg,
      bo_banks = bp_banks cfg,
      bo_reset_kind = bp_reset_kind cfg,
      bo_prune_target = prune_bank_dir cfg,
      bo_prepare_target = prepare_target_bank_dir cfg,
      bo_open_staging_writer = open_staging_writer cfg,
      bo_write_staged = (\<lambda>k handle bs. on_set (at_staging k (write_all handle bs))),
      bo_commit_staged = commit_staged cfg,
      bo_discard_staged = discard_staged cfg,
      bo_open_payload_writer = open_payload_writer cfg,
      bo_write_payload = (\<lambda>k name bs. on_set (at_bank k (write_part name (File bs)))),
      bo_verify_payload = verify_payload cfg,
      bo_copy_forward = (\<lambda>active k name expected w.
        on_set (\<lambda>s. at_bank k (copy_forward_file (bp_ivd cfg) (sd_dirs s active) name expected) s) w),
      bo_remove_part = (\<lambda>k name w. fst (on_set (at_bank k (remove_part name)) w)),
      bo_seal = bp_seal cfg,
      bo_staging_record = (\<lambda>w k. Ok (read_staging_record cfg w k)),
      bo_write_staging_record = store_staging_record cfg,
      bo_activate = bp_activate cfg,
      bo_commit = bp_commit cfg,
      bo_rollback = bp_rollback cfg,
      bo_can_persist_disabled_record = can_persist_disabled_record cfg,
      bo_write_disabled_record = write_disabled_record cfg,
      bo_disabled_record = disabled_record cfg\<rparr>"

section \<open>The engine\<close>

record 'w hsm_ops =
  ho_provision :: "bytes \<Rightarrow> 'w \<Rightarrow> 'w \<times> (hsm_error + unit)"
  ho_public_key :: "key_role \<Rightarrow> 'w \<Rightarrow> 'w \<times> (hsm_error + bytes)"
  ho_arm_enrollment :: "string \<Rightarrow> 'w \<Rightarrow> 'w \<times> (hsm_error + unit)"

record 'w vm_service =
  vs_health :: "'w \<Rightarrow> 'w \<times> (string + vm_health_state)"
  vs_notify :: "string \<Rightarrow> bank \<Rightarrow> 'w \<Rightarrow> 'w \<times> (string + unit)"

text \<open>The trust anchors the manifest provider holds: software authority and key authority.\<close>

type_synonym anchors = "(bytes \<times> bytes option) option"

record 'w flash_engine =
  en_ops :: "'w bank_ops"
  en_crc :: "bytes \<Rightarrow> u32"
  en_sha :: "bytes \<Rightarrow> bytes"
  en_bank_set :: bank_set
  en_id :: string
  en_single_bank :: bool
  en_supports_rollback :: bool
  en_images_dir :: bool
  en_node_boot_id :: "string option"
  en_declared_parts :: "string list option"
  en_decode :: "bytes \<Rightarrow> suit_manifest option"
  en_validate_header :: "anchors \<Rightarrow> bytes \<Rightarrow> u32 \<Rightarrow> manifest_error + validated_firmware"
  en_validate :: "anchors \<Rightarrow> bytes \<Rightarrow> u32 \<Rightarrow> manifest_error + validated_firmware"
  en_pipeline :: "bytes \<Rightarrow> nat \<Rightarrow> bytes \<Rightarrow> bytes \<times> bool"
  en_ratchet_time_floor :: "u64 \<Rightarrow> 'w \<Rightarrow> 'w"
  en_clock :: "'w \<Rightarrow> u64"
  en_hsm :: "'w hsm_ops option"
  en_hsm_crypto :: bool
  en_post_provision_reload :: "('w \<Rightarrow> 'w) option"
  en_vm_principal :: bool
  en_vm_service :: "'w vm_service option"
  en_deactivator :: "('w \<Rightarrow> 'w \<times> (string + bool)) option"

record 'w engine_state =
  es_world :: 'w
  es_session :: "flash_session option"
  es_transfer :: "flash_transfer option"
  es_upload_phase :: "flash_state option"
  es_packages :: "nat \<rightharpoonup> validated_firmware"
  es_uploaded_parts :: "nat \<rightharpoonup> uploaded_part"
  es_running_bank :: bank
  es_update_id :: "string option"
  es_install_source :: bool
  es_next_id :: nat
  es_admin_cache :: admin_cache
  es_anchors :: anchors
  es_coordinator :: "'w node_coordinator option"

text \<open>A download of a missing part: refused before the bank is touched, or a stream that may break off.\<close>

datatype fetch = FetchRefused string | Fetched bytes bool

definition in_world :: "('w \<Rightarrow> 'w \<times> 'r) \<Rightarrow> 'w engine_state \<Rightarrow> 'w engine_state \<times> 'r" where
  "in_world f es = (case f (es_world es) of (w, r) \<Rightarrow> (es\<lparr>es_world := w\<rparr>, r))"

definition err_as :: "('e \<Rightarrow> backend_error) \<Rightarrow> 's \<times> ('e + 'a) \<Rightarrow> 's \<times> (backend_error + 'a)" where
  "err_as f x = (case x of (s, Ok a) \<Rightarrow> (s, Ok a) | (s, Err e) \<Rightarrow> (s, Err (f e)))"

definition fails_as :: "('e \<Rightarrow> backend_error) \<Rightarrow> 'e + 'a \<Rightarrow> backend_error + 'a" where
  "fails_as f r = (case r of Ok a \<Rightarrow> Ok a | Err e \<Rightarrow> Err (f e))"

definition sink_error :: "bank_error \<Rightarrow> backend_error" where
  "sink_error e =
     (case e of UnknownPart _ \<Rightarrow> BeMediaType (DBank e) | Unverifiable _ \<Rightarrow> BeInvalidRequest (DBank e) | _ \<Rightarrow> BeInternal (DBank e))"

definition map_ota_error :: "ota_error \<Rightarrow> backend_error" where
  "map_ota_error e =
     (case e of
        InTrial \<Rightarrow> BeBusy (DOta e) | AlreadyCommitted \<Rightarrow> BeBusy (DOta e) | NotInTrial \<Rightarrow> BeBusy (DOta e)
      | SecurityVersionTooLow _ _ \<Rightarrow> BeInvalidRequest (DOta e)
      | _ \<Rightarrow> BeInternal (DOta e))"

definition next_id :: "'w engine_state \<Rightarrow> 'w engine_state \<times> nat" where
  "next_id es = (es\<lparr>es_next_id := es_next_id es + 1\<rparr>, es_next_id es)"

definition on_transfer :: "(flash_transfer \<Rightarrow> flash_transfer) \<Rightarrow> 'w engine_state \<Rightarrow> 'w engine_state" where
  "on_transfer f es = es\<lparr>es_transfer := map_option f (es_transfer es)\<rparr>"

text \<open>A write guard on the NV store clears the derived caches when it is dropped.\<close>

definition nv_write :: "'w flash_engine \<Rightarrow> (nv_store \<Rightarrow> nv_store \<times> 'r) \<Rightarrow> 'w engine_state \<Rightarrow> 'w engine_state \<times> 'r" where
  "nv_write e f es =
     (case f (bo_nv (en_ops e) (es_world es)) of
        (nv, r) \<Rightarrow> (es\<lparr>es_world := bo_put_nv (en_ops e) nv (es_world es), es_admin_cache := cache_clear (es_admin_cache es)\<rparr>, r))"

definition clear_caches :: "'w engine_state \<Rightarrow> 'w engine_state" where
  "clear_caches es = es\<lparr>es_admin_cache := cache_clear (es_admin_cache es)\<rparr>"

text \<open>The boot state of the component's set, with the panic of an index out of range as in \<open>Ota\<close>.\<close>

definition set_state :: "'w flash_engine \<Rightarrow> 'w \<Rightarrow> backend_error + bank_boot_state" where
  "set_state e w =
     (case read_boot_state (en_crc e) (bo_nv (en_ops e) w) of
        None \<Rightarrow> Err (BeInternal (DText ''no boot state''))
      | Some st \<Rightarrow> fails_as (BeInternal \<circ> DOta) (bank_at st (en_bank_set e)))"

definition fw_meta_of :: "'w flash_engine \<Rightarrow> 'w \<Rightarrow> bank \<Rightarrow> nv_fw_meta option" where
  "fw_meta_of e w k = read_fw_meta (en_crc e) (bo_nv (en_ops e) w) (en_bank_set e) k"

section \<open>Parts of a manifest\<close>

definition absent_parts :: "nat list \<Rightarrow> nat set \<Rightarrow> nat list" where
  "absent_parts parts present = filter (\<lambda>i. i \<notin> present) parts"

text \<open>An index beyond the components has no digest, no identifier and no reference.\<close>

definition component_at :: "suit_manifest \<Rightarrow> nat \<Rightarrow> suit_component" where
  "component_at man i =
     (if i < length (sm_components man) then sm_components man ! i else \<lparr>sc_id = None, sc_digest = None, sc_uri = None\<rparr>)"

definition DISABLED_RECORD_PATH :: string where "DISABLED_RECORD_PATH = ''.admin-disabled''"

definition payload_target_name_for_id :: "bytes list option \<Rightarrow> backend_error + string" where
  "payload_target_name_for_id cid =
     (let name = (case cid of None \<Rightarrow> ''firmware'' | Some segs \<Rightarrow> if segs = [] then ''firmware'' else from_utf8_lossy (last segs))
      in if name = DISABLED_RECORD_PATH then Err (BeInvalidRequest (DText name)) else Ok name)"

definition part_name :: "suit_manifest \<Rightarrow> nat \<Rightarrow> backend_error + string" where
  "part_name man i = payload_target_name_for_id (sc_id (component_at man i))"

definition resolve_part :: "suit_manifest \<Rightarrow> nat list \<Rightarrow> string \<Rightarrow> nat option" where
  "resolve_part man parts part_id =
     (let bare = (case part_id of CHR ''#'' # rest \<Rightarrow> rest | _ \<Rightarrow> part_id)
      in List.find (\<lambda>i. sc_uri (component_at man i) = Some part_id \<or> part_name man i = Ok bare) parts)"

definition manifest_parts :: "suit_manifest \<Rightarrow> nat list" where
  "manifest_parts man = filter (\<lambda>i. sc_digest (component_at man i) \<noteq> None) [0..<length (sm_components man)]"

text \<open>A bank that declares its parts refuses a manifest that names another one.\<close>

fun check_declared :: "string list \<Rightarrow> suit_manifest \<Rightarrow> nat list \<Rightarrow> backend_error + unit" where
  "check_declared declared man [] = Ok ()"
| "check_declared declared man (i # is) =
     and_then (part_name man i) (\<lambda>name.
       if name \<in> set declared then check_declared declared man is else Err (BeMediaType (DText name)))"

section \<open>Which bank\<close>

definition determine_target_bank :: "'w flash_engine \<Rightarrow> 'w \<Rightarrow> backend_error + bank" where
  "determine_target_bank e w =
     (if bo_pending_reboot (en_ops e) w then Err (BeInvalidRequest (DText ''a reboot is pending''))
      else Ok (bo_target_bank (en_ops e) w))"

definition serving_bank :: "'w flash_engine \<Rightarrow> 'w engine_state \<Rightarrow> bank" where
  "serving_bank e es =
     (case bo_selected_bank (en_ops e) (es_world es) of Some k \<Rightarrow> k | None \<Rightarrow> es_running_bank es)"

definition install_gen_for :: "'w flash_engine \<Rightarrow> 'w \<Rightarrow> backend_error + u64" where
  "install_gen_for e w =
     and_then (set_state e w) (\<lambda>b.
       let k = (if committed b then active_bank b else other (active_bank b))
       in Ok ((case fw_meta_of e w k of None \<Rightarrow> 0 | Some m \<Rightarrow> gen m) + 1))"

definition fixed_field_to_string :: "bytes \<Rightarrow> string" where
  "fixed_field_to_string field = from_utf8_lossy (takeWhile (\<lambda>b. b \<noteq> 0) field)"

definition identity_field :: "bytes \<Rightarrow> string option" where
  "identity_field field = text_identity (fixed_field_to_string field)"

definition to_firmware_identity :: "image_meta \<Rightarrow> firmware_identity" where
  "to_firmware_identity m =
     \<lparr>fi_name = identity_field (im_system_name m), fi_version = identity_field (im_fw_version m),
      fi_ecu_sw_number = identity_field (im_ecu_sw_number m), fi_supplier_sw_number = identity_field (im_supplier_sw_number m),
      fi_supplier_sw_version = identity_field (im_supplier_sw_version m), fi_spare_part_number = identity_field (im_spare_part_number m),
      fi_odx_file_id = identity_field (im_odx_file_id m), fi_system_name = identity_field (im_system_name m),
      fi_programming_date = identity_field (im_programming_date m), fi_tester_serial = identity_field (im_tester_serial m)\<rparr>"

definition no_identity :: firmware_identity where
  "no_identity = \<lparr>fi_name = None, fi_version = None, fi_ecu_sw_number = None, fi_supplier_sw_number = None,
     fi_supplier_sw_version = None, fi_spare_part_number = None, fi_odx_file_id = None, fi_system_name = None,
     fi_programming_date = None, fi_tester_serial = None\<rparr>"

definition current_package :: "'w engine_state \<Rightarrow> validated_firmware option" where
  "current_package es =
     (case es_transfer es of None \<Rightarrow> None
      | Some t \<Rightarrow> (case ft_package_id t of None \<Rightarrow> None | Some p \<Rightarrow> es_packages es p))"

definition current_install_identity :: "'w engine_state \<Rightarrow> firmware_identity" where
  "current_install_identity es =
     (case current_package es of None \<Rightarrow> no_identity | Some v \<Rightarrow> to_firmware_identity (vd_meta v))"

definition declared_bank_parts :: "'w engine_state \<Rightarrow> string list" where
  "declared_bank_parts es =
     (case es_transfer es of None \<Rightarrow> [] | Some t \<Rightarrow> map vf_relative_path (ft_streamed_files t))"

definition ivd_sign_staged_bank ::
    "'w flash_engine \<Rightarrow> bank \<Rightarrow> 'w engine_state \<Rightarrow> 'w engine_state \<times> (backend_error + unit)" where
  "ivd_sign_staged_bank e target es =
     (case install_gen_for e (es_world es) of
        Err x \<Rightarrow> (es, Err x)
      | Ok g \<Rightarrow>
          err_as (BeInternal \<circ> DBank)
            (in_world (bo_seal (en_ops e) target (current_install_identity es) g (declared_bank_parts es)) es))"

section \<open>Staging records\<close>

definition new_staging_record :: "'w flash_engine \<Rightarrow> 'w engine_state \<Rightarrow> staged_part list \<Rightarrow> staging_record" where
  "new_staging_record e es parts =
     \<lparr>sr_version = 1, sr_update_id = es_update_id es, sr_node_boot_id = en_node_boot_id e,
      sr_started_unix = en_clock e (es_world es), sr_parts = parts, sr_sealed = False\<rparr>"

definition as_staged_part :: "ivd_file \<Rightarrow> staged_part" where
  "as_staged_part f = \<lparr>sp_name = vf_relative_path f, sp_size = vf_size f, sp_sha256 = hex_lower (vf_sha256 f)\<rparr>"

text \<open>The component a recorded part settles: named by the manifest, with the recorded digest, not settled before.\<close>

definition staged_component :: "suit_manifest \<Rightarrow> nat list \<Rightarrow> (nat \<times> ivd_file) list \<Rightarrow> staged_part \<Rightarrow> nat option" where
  "staged_component man parts kept p =
     List.find (\<lambda>i. i \<notin> fst ` set kept \<and> part_name man i = Ok (sp_name p)
       \<and> map_option hex_lower (sc_digest (component_at man i)) = Some (sp_sha256 p)) parts"

fun keep_parts ::
    "'w flash_engine \<Rightarrow> 'w \<Rightarrow> bank \<Rightarrow> suit_manifest \<Rightarrow> nat list \<Rightarrow> (nat \<times> ivd_file) list \<Rightarrow> staged_part list
       \<Rightarrow> (nat \<times> ivd_file) list" where
  "keep_parts e w k man parts kept [] = kept"
| "keep_parts e w k man parts kept (p # ps) =
     (case staged_component man parts kept p of
        None \<Rightarrow> keep_parts e w k man parts kept ps
      | Some i \<Rightarrow>
          (case sc_digest (component_at man i) of
             Some d \<Rightarrow>
               if length d = 32 \<and> is_ok (bo_verify_payload (en_ops e) k (sp_name p) d w)
               then keep_parts e w k man parts
                      (kept @ [(i, \<lparr>vf_relative_path = sp_name p, vf_sha256 = d, vf_size = sp_size p\<rparr>)]) ps
               else keep_parts e w k man parts kept ps
           | None \<Rightarrow> keep_parts e w k man parts kept ps))"

definition reconcile_staging ::
    "'w flash_engine \<Rightarrow> bank \<Rightarrow> suit_manifest \<Rightarrow> nat list \<Rightarrow> 'w engine_state
       \<Rightarrow> 'w engine_state \<times> (backend_error + (nat \<times> ivd_file) list)" where
  "reconcile_staging e k man parts es =
     (case bo_staging_record (en_ops e) (es_world es) k of
        Err x \<Rightarrow> (es, Err (BeInternal (DBank x)))
      | Ok rec \<Rightarrow>
          let kept = keep_parts e (es_world es) k man parts [] (case rec of None \<Rightarrow> [] | Some r \<Rightarrow> sr_parts r)
          in on_ok (err_as (BeInternal \<circ> DBank)
                 (in_world (bo_prune_target (en_ops e) k (map (vf_relative_path \<circ> snd) kept)) es)) (\<lambda>es1 _.
             on_ok (err_as (BeInternal \<circ> DBank)
                 (in_world (bo_write_staging_record (en_ops e) k
                    (if parts = [] then None else Some (new_staging_record e es1 (map (as_staged_part \<circ> snd) kept)))) es1))
               (\<lambda>es2 _. (es2, Ok kept))))"

definition record_staged_part ::
    "'w flash_engine \<Rightarrow> bank \<Rightarrow> ivd_file \<Rightarrow> 'w engine_state \<Rightarrow> 'w engine_state \<times> (backend_error + unit)" where
  "record_staged_part e k f es =
     (case bo_staging_record (en_ops e) (es_world es) k of
        Err x \<Rightarrow> (es, Err (BeInternal (DBank x)))
      | Ok rec \<Rightarrow>
          let r = (case rec of None \<Rightarrow> new_staging_record e es [] | Some r \<Rightarrow> r)
          in err_as (BeInternal \<circ> DBank)
               (in_world (bo_write_staging_record (en_ops e) k
                  (Some (r\<lparr>sr_update_id := es_update_id es,
                           sr_parts := filter (\<lambda>p. sp_name p \<noteq> vf_relative_path f) (sr_parts r) @ [as_staged_part f]\<rparr>))) es))"

section \<open>Node transaction\<close>

definition current_node_boot_id :: "'w flash_engine \<Rightarrow> 'w engine_state \<Rightarrow> string option" where
  "current_node_boot_id e es =
     (case es_coordinator es of
        Some c \<Rightarrow> (case nc_node_boot_id c of Some i \<Rightarrow> Some i | None \<Rightarrow> en_node_boot_id e)
      | None \<Rightarrow> en_node_boot_id e)"

definition set_reboot_owed ::
    "'w flash_engine \<Rightarrow> bool \<Rightarrow> 'w engine_state \<Rightarrow> 'w engine_state \<times> (backend_error + unit)" where
  "set_reboot_owed e owed es =
     (let nv = bo_nv (en_ops e) (es_world es);
          s0 = (case read_update_session (en_crc e) nv of None \<Rightarrow> nv_update_session_default | Some s \<Rightarrow> s);
          (s1, changed) = set_owed (en_bank_set e) owed s0;
          (s2, changed') = (if owed then record_armed_boot_id (en_sha e) (current_node_boot_id e es) s1 else (s1, False))
      in if changed \<or> changed'
         then (case snd (write_update_session (en_crc e) nv s2) of
                 Ok nv' \<Rightarrow> (es\<lparr>es_world := bo_put_nv (en_ops e) nv' (es_world es)\<rparr>, Ok ())
               | Err x \<Rightarrow> (es, Err (BeInternal (DNv x))))
         else (es, Ok ()))"

definition resolve_node_transaction ::
    "'w flash_engine \<Rightarrow> 'w engine_state \<Rightarrow> 'w engine_state \<times> (backend_error + unit)" where
  "resolve_node_transaction e es =
     on_ok (set_reboot_owed e False es) (\<lambda>es1 _.
       (es1\<lparr>es_coordinator := map_option (remove_from_staging (en_id e)) (es_coordinator es1)\<rparr>, Ok ()))"

definition ensure_flash_can_start ::
    "'w flash_engine \<Rightarrow> 'w engine_state \<Rightarrow> 'w engine_state \<times> (backend_error + unit)" where
  "ensure_flash_can_start e es =
     (if \<not> en_single_bank e \<and> (case bo_banks (en_ops e) (es_world es) of None \<Rightarrow> False | Some b \<Rightarrow> cb_in_trial b)
      then (es, Err (BeBusy (DText ''trial'')))
      else case es_coordinator es of
        None \<Rightarrow> (es, Ok ())
      | Some c \<Rightarrow>
          (case gate_new_session (es_world es) (en_id e) c of
             (c', Ok _) \<Rightarrow> (es\<lparr>es_coordinator := Some c'\<rparr>, Ok ())
           | (c', Err x) \<Rightarrow> (es\<lparr>es_coordinator := Some c'\<rparr>, Err (BeBusy (DGate x)))))"

definition flash_in_progress :: "'w engine_state \<Rightarrow> bool" where
  "flash_in_progress es \<longleftrightarrow> es_session es \<noteq> None"

definition flash_is_finalized :: "'w engine_state \<Rightarrow> bool" where
  "flash_is_finalized es =
     (case es_transfer es of
        None \<Rightarrow> False
      | Some t \<Rightarrow> ft_state t \<in> {AwaitingReboot, Activated, Committed, RolledBack})"

definition clear_flash_session :: "'w engine_state \<Rightarrow> 'w engine_state" where
  "clear_flash_session es =
     es\<lparr>es_session := None, es_transfer := None, es_upload_phase := None, es_install_source := False, es_packages := Map.empty\<rparr>"

text \<open>A failure to forget the update id is only logged.\<close>

definition abort_session :: "'w flash_engine \<Rightarrow> 'w engine_state \<Rightarrow> 'w engine_state \<times> (backend_error + unit)" where
  "abort_session e es =
     (let had_session = flash_in_progress es;
          es1 = (clear_flash_session es)\<lparr>es_update_id := None\<rparr>;
          k = bo_target_bank (en_ops e) (es_world es1);
          es2 = (if had_session
                 then case bo_staging_record (en_ops e) (es_world es1) k of
                        Ok (Some r) \<Rightarrow>
                          if sr_update_id r \<noteq> None
                          then fst (in_world (bo_write_staging_record (en_ops e) k (Some (r\<lparr>sr_update_id := None\<rparr>))) es1)
                          else es1
                      | _ \<Rightarrow> es1
                 else es1)
      in resolve_node_transaction e es2)"

definition abort_flash :: "'w flash_engine \<Rightarrow> 'w engine_state \<Rightarrow> 'w engine_state \<times> (backend_error + unit)" where
  "abort_flash e es =
     (if flash_is_finalized es then (es, Err (BeInvalidRequest (DText ''already finalized''))) else abort_session e es)"

definition note_update_id ::
    "'w flash_engine \<Rightarrow> string \<Rightarrow> 'w engine_state \<Rightarrow> 'w engine_state \<times> (backend_error + unit)" where
  "note_update_id e uid es =
     (let es1 = es\<lparr>es_update_id := Some uid\<rparr>
      in if \<not> flash_in_progress es1 then (es1, Ok ())
         else let k = bo_target_bank (en_ops e) (es_world es1)
              in case bo_staging_record (en_ops e) (es_world es1) k of
                   Err x \<Rightarrow> (es1, Err (BeInternal (DBank x)))
                 | Ok (Some r) \<Rightarrow>
                     if sr_update_id r \<noteq> Some uid
                     then err_as (BeInternal \<circ> DBank)
                            (in_world (bo_write_staging_record (en_ops e) k (Some (r\<lparr>sr_update_id := Some uid\<rparr>))) es1)
                     else (es1, Ok ())
                 | Ok None \<Rightarrow> (es1, Ok ()))"

section \<open>Start\<close>

text \<open>
  The packages are cleared before the search for an already verified one, so that search finds none
  and the code behind it is never reached; the session starts without a package.
\<close>

definition start_flash :: "'w flash_engine \<Rightarrow> 'w engine_state \<Rightarrow> 'w engine_state \<times> (backend_error + nat)" where
  "start_flash e es =
     on_ok (ensure_flash_can_start e es) (\<lambda>es1 _.
       case determine_target_bank e (es_world es1) of
         Err x \<Rightarrow> (es1, Err x)
       | Ok _ \<Rightarrow>
           let es2 = es1\<lparr>es_session := Some AwaitingManifest, es_packages := Map.empty, es_uploaded_parts := Map.empty\<rparr>;
               (es3, tid) = next_id es2
           in (es3\<lparr>es_transfer := Some \<lparr>ft_transfer_id = tid, ft_package_id = None, ft_state = Transferring,
                 ft_pre_reset_health = None, ft_image_size = 0, ft_streamed_files = []\<rparr>\<rparr>, Ok tid))"

section \<open>Manifest upload\<close>

type_synonym upload = "(string + bytes) list"

definition MANIFEST_LIMIT :: nat where "MANIFEST_LIMIT = 100 * 1024"

fun buffer_manifest :: "bytes \<Rightarrow> upload \<Rightarrow> backend_error + bytes" where
  "buffer_manifest data [] = Ok data"
| "buffer_manifest data (Err x # _) = Err (BeInternal (DText x))"
| "buffer_manifest data (Ok b # cs) =
     (if length (data @ b) > MANIFEST_LIMIT then Err (BeInvalidRequest (DText ''manifest too large''))
      else buffer_manifest (data @ b) cs)"

definition running_floor :: "'w flash_engine \<Rightarrow> 'w engine_state \<Rightarrow> u32" where
  "running_floor e es =
     (case fw_meta_of e (es_world es) (es_running_bank es) of None \<Rightarrow> 0 | Some m \<Rightarrow> min_security_ver m)"

definition ratchet_time_floor_on_reject :: "'w flash_engine \<Rightarrow> manifest_error \<Rightarrow> 'w \<Rightarrow> 'w" where
  "ratchet_time_floor_on_reject e x w =
     (case x of ManifestRollback _ _ (Some iat) \<Rightarrow> en_ratchet_time_floor e iat w | _ \<Rightarrow> w)"

text \<open>An integrated envelope carries its payloads: the session is complete and the bank is sealed.\<close>

definition stage_integrated ::
    "'w flash_engine \<Rightarrow> bytes \<Rightarrow> u32 \<Rightarrow> bank \<Rightarrow> nat \<Rightarrow> 'w engine_state \<Rightarrow> 'w engine_state \<times> (backend_error + nat)" where
  "stage_integrated e data low target fid es =
     (case en_validate e (es_anchors es) data low of
        Err x \<Rightarrow> (es\<lparr>es_world := ratchet_time_floor_on_reject e x (es_world es)\<rparr>, Err (BeInvalidRequest (DManifest x)))
      | Ok v \<Rightarrow>
          let es1 = on_transfer (\<lambda>t. t\<lparr>ft_state := AwaitingActivation, ft_package_id := Some fid\<rparr>)
                (es\<lparr>es_packages := (es_packages es)(fid \<mapsto> v),
                    es_uploaded_parts := (es_uploaded_parts es)(fid \<mapsto> UploadedManifest (en_sha e data)),
                    es_session := Some SessionComplete\<rparr>)
          in on_ok (ivd_sign_staged_bank e target es1) (\<lambda>es2 _. (es2, Ok fid)))"

definition stage_detached ::
    "'w flash_engine \<Rightarrow> bytes \<Rightarrow> validated_firmware \<Rightarrow> nat list \<Rightarrow> (nat \<times> ivd_file) list \<Rightarrow> bank \<Rightarrow> nat
       \<Rightarrow> 'w engine_state \<Rightarrow> 'w engine_state \<times> (backend_error + nat)" where
  "stage_detached e data v parts kept target fid es =
     (let present = fst ` set kept;
          all_present = (parts \<noteq> [] \<and> card present = length parts);
          es1 = on_transfer (\<lambda>t. t\<lparr>ft_package_id := Some fid, ft_streamed_files := map snd kept,
                  ft_state := (if parts = [] \<or> all_present then AwaitingActivation else ft_state t)\<rparr>)
                (es\<lparr>es_packages := (es_packages es)(fid \<mapsto> v),
                    es_uploaded_parts := (es_uploaded_parts es)(fid \<mapsto> UploadedManifest (en_sha e data))\<rparr>)
      in if all_present
         then on_ok (ivd_sign_staged_bank e target (es1\<lparr>es_session := Some SessionComplete\<rparr>)) (\<lambda>es2 _. (es2, Ok fid))
         else (es1\<lparr>es_session := Some (AwaitingPayload data v parts present)\<rparr>, Ok fid))"

definition handle_manifest_upload ::
    "'w flash_engine \<Rightarrow> upload \<Rightarrow> 'w engine_state \<Rightarrow> 'w engine_state \<times> (backend_error + nat)" where
  "handle_manifest_upload e stream es =
     (case buffer_manifest [] stream of
        Err x \<Rightarrow> (es, Err x)
      | Ok data \<Rightarrow>
          let low = running_floor e es
          in case en_validate_header e (es_anchors es) data low of
               Err x \<Rightarrow> (es, Err (BeInvalidRequest (DManifest x)))
             | Ok v0 \<Rightarrow>
                 (case en_decode e data of
                    None \<Rightarrow> (es, Err (BeInternal (DText ''decode manifest'')))
                  | Some man \<Rightarrow>
                      let parts = manifest_parts man;
                          v = (if vd_disable_target v0 = None then v0\<lparr>vd_disable_target := sm_disable_target man\<rparr> else v0)
                      in case (case en_declared_parts e of None \<Rightarrow> Ok () | Some ds \<Rightarrow> check_declared ds man parts) of
                           Err x \<Rightarrow> (es, Err x)
                         | Ok _ \<Rightarrow>
                             (case determine_target_bank e (es_world es) of
                                Err x \<Rightarrow> (es, Err x)
                              | Ok target \<Rightarrow>
                                  on_ok (reconcile_staging e target man (if sm_integrated man then [] else parts) es) (\<lambda>es1 kept.
                                    case next_id es1 of
                                      (es2, fid) \<Rightarrow>
                                        if sm_integrated man then stage_integrated e data low target fid es2
                                        else stage_detached e data v parts kept target fid es2))))"

section \<open>Payload upload\<close>

text \<open>What arrives of a stream, and whether it arrives completely.\<close>

fun received :: "upload \<Rightarrow> bytes \<times> bool" where
  "received [] = ([], True)"
| "received (Err _ # _) = ([], False)"
| "received (Ok b # cs) = (case received cs of (bs, ok) \<Rightarrow> (b @ bs, ok))"

text \<open>
  The pipeline writes what it decodes of the bytes that arrive; the digest of what it wrote is checked
  after the last byte. A stream that breaks off fails after the decoded part was written.
\<close>

definition process_payload_stream ::
    "'w flash_engine \<Rightarrow> upload \<Rightarrow> bytes \<Rightarrow> nat \<Rightarrow> bytes option \<Rightarrow> (bytes \<Rightarrow> 'w \<Rightarrow> 'w \<times> (fs_error + unit)) \<Rightarrow> 'w
       \<Rightarrow> 'w \<times> (backend_error + nat \<times> nat \<times> bytes)" where
  "process_payload_stream e stream manifest i expected write w =
     (case received stream of
        (bs, complete) \<Rightarrow>
          (case en_pipeline e manifest i bs of
             (out, clean) \<Rightarrow>
               (case write out w of
                  (w1, r) \<Rightarrow>
                    (w1, if \<not> complete then Err (BeInternal (DText ''stream read error''))
                         else if \<not> is_ok r \<or> \<not> clean \<or> (\<exists>d. expected = Some d \<and> en_sha e out \<noteq> d)
                         then Err (BeInternal (DText ''payload processing failed''))
                         else Ok (length bs, length out, en_sha e out)))))"

definition digest_of :: "suit_manifest \<Rightarrow> nat \<Rightarrow> backend_error + bytes" where
  "digest_of man i = (case sc_digest (component_at man i) of None \<Rightarrow> Err (BeInternal (DText ''no digest'')) | Some d \<Rightarrow> Ok d)"

definition already_staged ::
    "suit_manifest \<Rightarrow> bank \<Rightarrow> nat \<Rightarrow> bytes \<Rightarrow> 'w engine_state \<Rightarrow> 'w engine_state \<times> (backend_error + nat)" where
  "already_staged man target i hash es =
     (case part_name man i of
        Err x \<Rightarrow> (es, Err x)
      | Ok name \<Rightarrow>
          (case next_id es of
             (es1, fid) \<Rightarrow>
               (es1\<lparr>es_uploaded_parts := (es_uploaded_parts es1)(fid \<mapsto> OnDisk target name hash)\<rparr>, Ok fid)))"

text \<open>A part intake ends with the part in the bank, or with a part the bank already holds.\<close>

datatype intake = TookPart nat string nat bytes | HeldAlready nat bytes

definition intake_staged ::
    "'w flash_engine \<Rightarrow> bytes \<Rightarrow> suit_manifest \<Rightarrow> nat list \<Rightarrow> nat list \<Rightarrow> nat option \<Rightarrow> nat \<Rightarrow> bank \<Rightarrow> string \<Rightarrow> upload
       \<Rightarrow> 'w \<Rightarrow> 'w \<times> (backend_error + intake)" where
  "intake_staged e manifest man parts absent addressed nxt target handle stream w =
     (case (case addressed of None \<Rightarrow> Ok None | Some i \<Rightarrow> and_then (digest_of man i) (\<lambda>d. Ok (Some d))) of
        Err x \<Rightarrow> (w, Err x)
      | Ok expected \<Rightarrow>
          (case process_payload_stream e stream manifest nxt expected (bo_write_staged (en_ops e) target handle) w of
             (w1, Err x) \<Rightarrow> (fst (bo_discard_staged (en_ops e) target handle w1), Err x)
           | (w1, Ok (inbound, sz, hash)) \<Rightarrow>
               let matches = (\<lambda>i. sc_digest (component_at man i) = Some hash)
               in case (case addressed of Some i \<Rightarrow> Some i | None \<Rightarrow> List.find matches absent) of
                    None \<Rightarrow>
                      (fst (bo_discard_staged (en_ops e) target handle w1),
                       case List.find matches parts of
                         Some i \<Rightarrow> Ok (HeldAlready i hash)
                       | None \<Rightarrow> Err (BeInternal (DText ''payload matches no component of the manifest'')))
                  | Some i \<Rightarrow>
                      (case part_name man i of
                         Err x \<Rightarrow> (w1, Err x)
                       | Ok name \<Rightarrow>
                           (case bo_commit_staged (en_ops e) target handle name w1 of
                              (w2, Ok _) \<Rightarrow> (w2, Ok (TookPart i name sz hash))
                            | (w2, Err x) \<Rightarrow>
                                (fst (bo_discard_staged (en_ops e) target handle w2), Err (sink_error x))))))"

definition intake_direct ::
    "'w flash_engine \<Rightarrow> bytes \<Rightarrow> suit_manifest \<Rightarrow> nat \<Rightarrow> bank \<Rightarrow> upload \<Rightarrow> 'w \<Rightarrow> 'w \<times> (backend_error + intake)" where
  "intake_direct e manifest man i target stream w =
     (case part_name man i of
        Err x \<Rightarrow> (w, Err x)
      | Ok name \<Rightarrow>
          on_ok (err_as sink_error (bo_open_payload_writer (en_ops e) target name w)) (\<lambda>w1 _.
            case digest_of man i of
              Err x \<Rightarrow> (w1, Err x)
            | Ok d \<Rightarrow>
                on_ok (process_payload_stream e stream manifest i (Some d) (bo_write_payload (en_ops e) target name) w1)
                  (\<lambda>w2 (inbound, sz, hash). (w2, Ok (TookPart i name sz hash)))))"

text \<open>After a part is in the bank: read it back, note it in the staging record, advance the session.\<close>

definition session_with :: "nat \<Rightarrow> flash_session option \<Rightarrow> flash_session option \<times> bool" where
  "session_with i s =
     (case s of
        Some (AwaitingPayload m v parts present) \<Rightarrow>
          if absent_parts parts (insert i present) = [] then (Some SessionComplete, True)
          else (Some (AwaitingPayload m v parts (insert i present)), False)
      | _ \<Rightarrow> (s, False))"

definition part_taken ::
    "'w flash_engine \<Rightarrow> bank \<Rightarrow> nat \<Rightarrow> string \<Rightarrow> nat \<Rightarrow> bytes \<Rightarrow> 'w engine_state \<Rightarrow> 'w engine_state \<times> (backend_error + nat)" where
  "part_taken e target i name sz hash es =
     (case bo_verify_payload (en_ops e) target name hash (es_world es) of
        Err x \<Rightarrow> (es, Err (sink_error x))
      | Ok _ \<Rightarrow>
          let staged = \<lparr>vf_relative_path = name, vf_sha256 = hash, vf_size = of_nat sz\<rparr>
          in on_ok (record_staged_part e target staged es) (\<lambda>es1 _.
               let es2 = on_transfer (\<lambda>t. t\<lparr>ft_streamed_files := ft_streamed_files t @ [staged]\<rparr>) es1;
                   (s, all_done) = session_with i (es_session es2);
                   es3 = es2\<lparr>es_session := s\<rparr>;
                   es4 = (if all_done then on_transfer (\<lambda>t. t\<lparr>ft_state := AwaitingActivation, ft_image_size := of_nat sz\<rparr>) es3 else es3)
               in on_ok (if all_done then ivd_sign_staged_bank e target es4 else (es4, Ok ())) (\<lambda>es5 _.
                    case next_id es5 of
                      (es6, fid) \<Rightarrow>
                        (es6\<lparr>es_uploaded_parts := (es_uploaded_parts es6)(fid \<mapsto> OnDisk target name hash)\<rparr>, Ok fid))))"

definition take_part ::
    "'w flash_engine \<Rightarrow> string \<Rightarrow> bytes \<Rightarrow> suit_manifest \<Rightarrow> nat list \<Rightarrow> nat list \<Rightarrow> nat option \<Rightarrow> nat \<Rightarrow> bank \<Rightarrow> upload
       \<Rightarrow> 'w engine_state \<Rightarrow> 'w engine_state \<times> (backend_error + nat)" where
  "take_part e uuid manifest man parts absent addressed nxt target stream es =
     (case in_world (\<lambda>w.
         case bo_open_staging_writer (en_ops e) target uuid w of
           (w1, Ok handle) \<Rightarrow> intake_staged e manifest man parts absent addressed nxt target handle stream w1
         | (w1, Err (Unsupported _)) \<Rightarrow> intake_direct e manifest man nxt target stream w1
         | (w1, Err x) \<Rightarrow> (w1, Err (sink_error x))) es of
        (es1, Err x) \<Rightarrow> (es1, Err x)
      | (es1, Ok (HeldAlready i hash)) \<Rightarrow> already_staged man target i hash es1
      | (es1, Ok (TookPart i name sz hash)) \<Rightarrow> part_taken e target i name sz hash es1)"

definition handle_payload_upload ::
    "'w flash_engine \<Rightarrow> string \<Rightarrow> nat option \<Rightarrow> upload \<Rightarrow> 'w engine_state \<Rightarrow> 'w engine_state \<times> (backend_error + nat)" where
  "handle_payload_upload e uuid addressed stream es =
     (case es_session es of
        Some (AwaitingPayload manifest v parts present) \<Rightarrow>
          (case en_decode e manifest of
             None \<Rightarrow> (es, Err (BeInternal (DText ''decode manifest'')))
           | Some man \<Rightarrow>
               (case determine_target_bank e (es_world es) of
                  Err x \<Rightarrow> (es, Err x)
                | Ok target \<Rightarrow>
                    let absent = absent_parts parts present
                    in case addressed of
                         Some i \<Rightarrow>
                           if i \<in> present then
                             (if \<not> snd (received stream) then (es, Err (BeInternal (DText ''stream'')))
                              else case digest_of man i of
                                     Err x \<Rightarrow> (es, Err x)
                                   | Ok d \<Rightarrow> if length d = 32 then already_staged man target i d es
                                             else (es, Err (BeInternal (DText ''digest of component''))))
                           else take_part e uuid manifest man parts absent addressed i target stream es
                       | None \<Rightarrow>
                           (case absent of
                              [] \<Rightarrow> (es, Err (BeInvalidRequest (DText ''every part is already staged'')))
                            | nxt # _ \<Rightarrow> take_part e uuid manifest man parts absent None nxt target stream es)))
      | _ \<Rightarrow> (es, Err (BeInvalidRequest (DText ''no active flash session''))))"

definition lower_char :: "char \<Rightarrow> char" where
  "lower_char c = (if of_char c \<in> {65..90::nat} then char_of (of_char c + 32 :: nat) else c)"

definition verify_part :: "'w flash_engine \<Rightarrow> nat \<Rightarrow> string \<Rightarrow> 'w engine_state \<Rightarrow> backend_error + unit" where
  "verify_part e fid expected es =
     (case es_uploaded_parts es fid of
        None \<Rightarrow> Err (BeNotFound (DText ''no uploaded part''))
      | Some (UploadedManifest h) \<Rightarrow>
          if map lower_char (hex_lower h) = map lower_char expected then Ok ()
          else Err (BeInvalidRequest (DText ''outer sha256 mismatch''))
      | Some (OnDisk k name h) \<Rightarrow> fails_as sink_error (bo_verify_payload (en_ops e) k name h (es_world es)))"

section \<open>Parts that were not uploaded\<close>

definition fetch_part ::
    "'w flash_engine \<Rightarrow> (nat \<Rightarrow> fetch) \<Rightarrow> bank \<Rightarrow> string \<Rightarrow> bytes \<Rightarrow> nat \<Rightarrow> 'w \<Rightarrow> 'w \<times> (backend_error + ivd_file)" where
  "fetch_part e download target name expected i w =
     (case download i of
        FetchRefused x \<Rightarrow> (w, Err (BeInternal (DText x)))
      | Fetched out ok \<Rightarrow>
          on_ok (err_as sink_error (bo_open_payload_writer (en_ops e) target name w)) (\<lambda>w1 _.
            case bo_write_payload (en_ops e) target name out w1 of
              (w2, r) \<Rightarrow>
                if \<not> is_ok r \<or> \<not> ok \<or> en_sha e out \<noteq> expected
                then (bo_remove_part (en_ops e) target name w2, Err (BeInternal (DText ''fetch failed'')))
                else (w2, Ok \<lparr>vf_relative_path = name, vf_sha256 = en_sha e out, vf_size = of_nat (length out)\<rparr>)))"

text \<open>
  A part is copied forward from the active bank when its content has the declared digest, else fetched
  by its content address when the session has a source and the reference carries one (\<open>addressable\<close>).
\<close>

definition reconcile_part ::
    "'w flash_engine \<Rightarrow> (nat \<Rightarrow> fetch) \<Rightarrow> (string \<Rightarrow> bool) \<Rightarrow> suit_manifest \<Rightarrow> bool \<Rightarrow> bank \<Rightarrow> bank \<Rightarrow> nat \<Rightarrow> 'w
       \<Rightarrow> 'w \<times> (backend_error + ivd_file)" where
  "reconcile_part e download addressable man source active target i w =
     (case sc_digest (component_at man i) of
        None \<Rightarrow> (w, Err (BeInternal (DText ''no image_digest'')))
      | Some d \<Rightarrow>
          (case part_name man i of
             Err x \<Rightarrow> (w, Err x)
           | Ok name \<Rightarrow>
               (case bo_copy_forward (en_ops e) active target name d w of
                  (w1, Ok (h, n)) \<Rightarrow> (w1, Ok \<lparr>vf_relative_path = name, vf_sha256 = h, vf_size = n\<rparr>)
                | (w1, Err x) \<Rightarrow>
                    if source \<and> (case sc_uri (component_at man i) of None \<Rightarrow> False | Some u \<Rightarrow> addressable u)
                    then fetch_part e download target name d i w1
                    else (w1, Err (BeInternal (DCopy x))))))"

fun reconcile_parts ::
    "('w \<Rightarrow> nat \<Rightarrow> 'w \<times> (backend_error + ivd_file)) \<Rightarrow> ivd_file list \<Rightarrow> nat list \<Rightarrow> 'w \<Rightarrow> 'w \<times> (backend_error + ivd_file list)" where
  "reconcile_parts step done [] w = (w, Ok done)"
| "reconcile_parts step done (i # is) w =
     (case step w i of (w1, Err x) \<Rightarrow> (w1, Err x) | (w1, Ok f) \<Rightarrow> reconcile_parts step (done @ [f]) is w1)"

definition reconcile_unpushed ::
    "'w flash_engine \<Rightarrow> (nat \<Rightarrow> fetch) \<Rightarrow> (string \<Rightarrow> bool) \<Rightarrow> bytes \<Rightarrow> nat list \<Rightarrow> bank \<Rightarrow> 'w engine_state
       \<Rightarrow> 'w engine_state \<times> (backend_error + ivd_file list)" where
  "reconcile_unpushed e download addressable manifest absent target es =
     (if absent = [] then (es, Ok [])
      else if \<not> en_images_dir e then (es, Err (BeInternal (DText ''manifest-only push needs an images_dir'')))
      else case set_state e (es_world es) of
        Err x \<Rightarrow> (es, Err x)
      | Ok b \<Rightarrow>
          if active_bank b = target then (es, Err (BeInternal (DText ''refusing to self-copy'')))
          else (case en_decode e manifest of
                  None \<Rightarrow> (es, Err (BeInternal (DText ''decode manifest'')))
                | Some man \<Rightarrow>
                    in_world (reconcile_parts
                      (\<lambda>w i. reconcile_part e download addressable man (es_install_source es) (active_bank b) target i w) [] absent) es))"

section \<open>Administrative state\<close>

text \<open>A derivation reads the record of the serving bank; it is stored when nothing cleared the cache since.\<close>

definition admin_disabled :: "'w flash_engine \<Rightarrow> 'w engine_state \<Rightarrow> 'w engine_state \<times> bool" where
  "admin_disabled e es =
     (if en_deactivator e = None then (es, False)
      else
        let k = serving_bank e es; cache = es_admin_cache es
        in case (case ac_value cache of Some (k', d) \<Rightarrow> if k' = k then Some d else None | None \<Rightarrow> None) of
             Some d \<Rightarrow> (es, d)
           | None \<Rightarrow>
               let expected = map_option gen (fw_meta_of e (es_world es) k)
               in case in_world (bo_disabled_record (en_ops e) k) es of
                    (es1, Err _) \<Rightarrow> (es1, False)
                  | (es1, Ok rec) \<Rightarrow>
                      let d = (rec \<noteq> None \<and> rec = expected)
                      in (es1\<lparr>es_admin_cache := store_if_epoch (ac_epoch cache) k d (es_admin_cache es1)\<rparr>, d))"

definition enact_disable_manifest :: "'w flash_engine \<Rightarrow> 'w engine_state \<Rightarrow> 'w engine_state \<times> (backend_error + unit)" where
  "enact_disable_manifest e es =
     (case en_deactivator e of
        None \<Rightarrow> (es, Err (BeNotSupported (DText ''administrative disable'')))
      | Some deactivate \<Rightarrow>
          if bo_pending_reboot (en_ops e) (es_world es) then (es, Err (BeBusy (DText ''disable refused'')))
          else
            let serving = serving_bank e es
            in case (if en_single_bank e then Ok True else and_then (set_state e (es_world es)) (\<lambda>b. Ok (committed b))) of
                 Err x \<Rightarrow> (es, Err x)
               | Ok comm \<Rightarrow>
                   let session = (case read_update_session (en_crc e) (bo_nv (en_ops e) (es_world es)) of
                                    None \<Rightarrow> nv_update_session_default | Some s \<Rightarrow> s)
                   in if \<not> comm \<or> owes session (en_bank_set e) then (es, Err (BeBusy (DText ''disable refused'')))
                      else (case fw_meta_of e (es_world es) serving of
                              None \<Rightarrow> (es, Err (BePrecondition (DText ''nothing to disable'')))
                            | Some m \<Rightarrow>
                                on_ok (err_as (BePrecondition \<circ> DBank) (in_world (bo_can_persist_disabled_record (en_ops e)) es)) (\<lambda>es1 _.
                                on_ok (err_as (BeInternal \<circ> DText) (in_world deactivate es1)) (\<lambda>es2 reboot_required.
                                on_ok (err_as (BeInternal \<circ> DBank) (in_world (bo_write_disabled_record (en_ops e) serving (gen m + 1)) es2)) (\<lambda>es3 _.
                                on_ok (nv_write e (\<lambda>nv.
                                    case read_fw_meta (en_crc e) nv (en_bank_set e) serving of
                                      None \<Rightarrow> (nv, Err (BeInternal (DText ''nv fw meta vanished'')))
                                    | Some m' \<Rightarrow>
                                        (case snd (write_fw_meta (en_crc e) nv (en_bank_set e) serving (m'\<lparr>gen := gen m + 1\<rparr>)) of
                                           Ok nv' \<Rightarrow> (nv', Ok ())
                                         | Err x \<Rightarrow> (nv, Err (BeInternal (DNv x))))) es3) (\<lambda>es4 _.
                                  if reboot_required then set_reboot_owed e True (clear_caches es4) else (clear_caches es4, Ok ())))))))"

section \<open>Finalize\<close>

definition provision_keys ::
    "'w flash_engine \<Rightarrow> bytes option \<Rightarrow> 'w engine_state \<Rightarrow> 'w engine_state \<times> (backend_error + unit)" where
  "provision_keys e raw es =
     (case (raw, en_hsm e) of
        (Some envelope, Some hsm) \<Rightarrow>
          on_ok (err_as (BeInternal \<circ> DHsm) (in_world (ho_provision hsm envelope) es)) (\<lambda>es1 _.
            let es2 = (case en_post_provision_reload e of None \<Rightarrow> es1 | Some reload \<Rightarrow> es1\<lparr>es_world := reload (es_world es1)\<rparr>)
            in case in_world (ho_public_key hsm KeyAuthority) es2 of
                 (es3, ka) \<Rightarrow>
                   (case in_world (ho_public_key hsm SoftwareAuthority) es3 of
                      (es4, Ok sw) \<Rightarrow>
                        if en_hsm_crypto e
                        then (es4\<lparr>es_anchors := Some (sw, case ka of Ok k \<Rightarrow> Some k | Err _ \<Rightarrow> None)\<rparr>, Ok ())
                        else (es4, Err (BeInternal (DText ''no HsmCryptoProvider attached'')))
                    | (es4, Err _) \<Rightarrow> (es4, Ok ())))
      | _ \<Rightarrow> (es, Ok ()))"

text \<open>A failed install is logged, no more.\<close>

definition install_package :: "'w flash_engine \<Rightarrow> validated_firmware \<Rightarrow> 'w engine_state \<Rightarrow> 'w engine_state" where
  "install_package e v es =
     fst (nv_write e (\<lambda>nv. install_precomputed (en_crc e) nv (en_bank_set e)
       (case vd_sha256 v of None \<Rightarrow> replicate 32 0 | Some h \<Rightarrow> h) (case vd_size v of None \<Rightarrow> 0 | Some n \<Rightarrow> n)
       (vd_meta v) (en_single_bank e)) es)"

definition process_package :: "'w flash_engine \<Rightarrow> 'w engine_state \<Rightarrow> 'w engine_state \<times> (backend_error + unit)" where
  "process_package e es =
     (case current_package es of
        None \<Rightarrow> (es, Ok ())
      | Some v \<Rightarrow>
          (case vd_type v of
             HsmKeys \<Rightarrow> provision_keys e (vd_raw_envelope v) es
           | Firmware \<Rightarrow> (install_package e v es, Ok ())))"

definition activate_installed :: "'w flash_engine \<Rightarrow> 'w engine_state \<Rightarrow> 'w engine_state \<times> (backend_error + unit)" where
  "activate_installed e es =
     (case set_state e (es_world es) of
        Err x \<Rightarrow> (es, Err x)
      | Ok b \<Rightarrow>
          (case in_world (bo_activate (en_ops e) (active_bank b)) es of
             (es1, Ok _) \<Rightarrow> (es1, Ok ())
           | (es1, Err x) \<Rightarrow>
               (fst (nv_write e (\<lambda>nv. ota_rollback (en_crc e) nv (en_bank_set e)) es1), Err (BeInternal (DBank x)))))"

definition complete_bank ::
    "'w flash_engine \<Rightarrow> (nat \<Rightarrow> fetch) \<Rightarrow> (string \<Rightarrow> bool) \<Rightarrow> 'w engine_state \<Rightarrow> 'w engine_state \<times> (backend_error + unit)" where
  "complete_bank e download addressable es =
     (case es_session es of
        Some (AwaitingPayload manifest v parts present) \<Rightarrow>
          let absent = absent_parts parts present
          in if \<not> en_images_dir e \<or> absent = [] then (es, Ok ())
             else (case determine_target_bank e (es_world es) of
                     Err x \<Rightarrow> (es, Err x)
                   | Ok target \<Rightarrow>
                       on_ok (reconcile_unpushed e download addressable manifest absent target es) (\<lambda>es1 files.
                       on_ok (ivd_sign_staged_bank e target
                           (on_transfer (\<lambda>t. t\<lparr>ft_streamed_files := ft_streamed_files t @ files\<rparr>) es1)) (\<lambda>es2 _.
                         (on_transfer (\<lambda>t. t\<lparr>ft_state := AwaitingActivation\<rparr>) (es2\<lparr>es_session := Some SessionComplete\<rparr>), Ok ()))))
      | _ \<Rightarrow> (es, Ok ()))"

definition session_disables :: "flash_session option \<Rightarrow> bool" where
  "session_disables s = (case s of Some (AwaitingPayload m v parts present) \<Rightarrow> vd_disable_target v \<noteq> None | _ \<Rightarrow> False)"

definition finalize_flash ::
    "'w flash_engine \<Rightarrow> (nat \<Rightarrow> fetch) \<Rightarrow> (string \<Rightarrow> bool) \<Rightarrow> 'w engine_state \<Rightarrow> 'w engine_state \<times> (backend_error + unit)" where
  "finalize_flash e download addressable es =
     (if session_disables (es_session es)
      then on_ok (enact_disable_manifest e es) (\<lambda>es1 _.
             (on_transfer (\<lambda>t. t\<lparr>ft_state := Activated\<rparr>) (es1\<lparr>es_session := Some SessionComplete, es_install_source := False\<rparr>), Ok ()))
      else
        on_ok (complete_bank e download addressable es) (\<lambda>es1 _.
        on_ok (process_package e es1) (\<lambda>es2 _.
        on_ok (activate_installed e es2) (\<lambda>es3 _.
          let es4 = on_transfer (\<lambda>t. t\<lparr>ft_state := (if en_single_bank e then Activated else AwaitingReboot)\<rparr>) es3
          in on_ok (if bo_reset_kind (en_ops e) = RequiresEcuReset then set_reboot_owed e True es4 else (es4, Ok ())) (\<lambda>es5 _.
               (es5\<lparr>es_install_source := False\<rparr>, Ok ()))))))"

section \<open>Transfer states\<close>

definition with_transfer ::
    "(flash_state \<Rightarrow> backend_error + flash_state) \<Rightarrow> 'w engine_state \<Rightarrow> 'w engine_state \<times> (backend_error + unit)" where
  "with_transfer f es =
     (case es_transfer es of
        None \<Rightarrow> (es, Err (BeNotFound (DText ''No flash transfer in progress'')))
      | Some t \<Rightarrow>
          (case f (ft_state t) of
             Err x \<Rightarrow> (es, Err x)
           | Ok s \<Rightarrow> (es\<lparr>es_transfer := Some (t\<lparr>ft_state := s\<rparr>)\<rparr>, Ok ())))"

definition validate :: "'w engine_state \<Rightarrow> 'w engine_state \<times> (backend_error + unit)" where
  "validate = with_transfer (\<lambda>s.
     if s \<in> {AwaitingActivation, Validated, AwaitingReboot} then Ok Validated
     else if s = Activated then Ok Activated else Err (BeInvalidRequest (DStates s)))"

definition invalidate :: "'w engine_state \<Rightarrow> 'w engine_state \<times> (backend_error + unit)" where
  "invalidate = with_transfer (\<lambda>s. if s = Validated then Ok AwaitingActivation else Err (BeInvalidRequest (DStates s)))"

definition activate_transfer :: "'w flash_engine \<Rightarrow> 'w engine_state \<Rightarrow> 'w engine_state \<times> (backend_error + unit)" where
  "activate_transfer e = with_transfer (\<lambda>s.
     if s = Validated then Ok (if en_single_bank e then Activated else AwaitingReboot)
     else if s = Activated then Ok Activated else Err (BeInvalidRequest (DStates s)))"

section \<open>Reset\<close>

definition baseline :: "vm_health_state \<Rightarrow> pre_reset_health" where
  "baseline h = (case h of VmRunning g \<Rightarrow> WasRunning (gh_boot_id g) | VmNotRunning \<Rightarrow> WasNotRunning)"

definition health_before ::
    "'w flash_engine \<Rightarrow> bool \<Rightarrow> 'w engine_state \<Rightarrow> 'w engine_state \<times> (backend_error + pre_reset_health option)" where
  "health_before e disabled es =
     (if en_single_bank e \<or> disabled then (es, Ok None)
      else case en_vm_service e of
        None \<Rightarrow> (es, Ok None)
      | Some vs \<Rightarrow> on_ok (err_as (BeTransport \<circ> DText) (in_world (vs_health vs) es)) (\<lambda>es1 h. (es1, Ok (Some (baseline h)))))"

definition ecu_reset :: "'w flash_engine \<Rightarrow> 'w engine_state \<Rightarrow> 'w engine_state \<times> (backend_error + unit)" where
  "ecu_reset e es =
     (case admin_disabled e es of
        (es0, disabled) \<Rightarrow>
          on_ok (health_before e disabled es0) (\<lambda>es1 before.
            let action = (case before of Some (WasRunning _) \<Rightarrow> ''restart'' | _ \<Rightarrow> ''start'')
            in case (if en_single_bank e then Ok A else and_then (set_state e (es_world es1)) (\<lambda>b. Ok (active_bank b))) of
                 Err x \<Rightarrow> (es1, Err x)
               | Ok target \<Rightarrow>
                   on_ok (case en_vm_service e of
                            Some vs \<Rightarrow> if disabled then (es1, Ok ())
                                       else err_as (BeTransport \<circ> DText) (in_world (vs_notify vs action target) es1)
                          | None \<Rightarrow> (es1, Ok ())) (\<lambda>es2 _.
                     if \<not> en_single_bank e \<and> en_vm_service e \<noteq> None
                     then (if disabled then es2
                           else on_transfer (\<lambda>t. t\<lparr>ft_pre_reset_health := before, ft_state := Verifying\<rparr>) es2, Ok ())
                     else
                       let es3 = (if en_single_bank e then es2 else clear_caches (es2\<lparr>es_running_bank := target\<rparr>))
                       in (on_transfer (\<lambda>t. t\<lparr>ft_state := Activated\<rparr>) es3, Ok ()))))"

text \<open>A guest that runs again: ready, and with another boot id when it ran before the reset.\<close>

definition fresh_health :: "pre_reset_health option \<Rightarrow> string + vm_health_state \<Rightarrow> bool" where
  "fresh_health before r =
     (case r of
        Ok (VmRunning g) \<Rightarrow>
          gh_status g = ''running'' \<and> gh_guest_state g = 1
          \<and> (case before of Some (WasRunning i) \<Rightarrow> i \<noteq> gh_boot_id g | Some WasNotRunning \<Rightarrow> True | None \<Rightarrow> False)
      | _ \<Rightarrow> False)"

definition poll_health :: "'w flash_engine \<Rightarrow> 'w engine_state \<Rightarrow> 'w engine_state \<times> (backend_error + unit)" where
  "poll_health e es =
     (case (es_transfer es, en_vm_service e) of
        (Some t, Some vs) \<Rightarrow>
          if ft_state t \<noteq> Verifying then (es, Ok ())
          else (case in_world (vs_health vs) es of
                  (es1, r) \<Rightarrow>
                    if \<not> fresh_health (ft_pre_reset_health t) r then (es1, Ok ())
                    else (case set_state e (es_world es1) of
                            Err x \<Rightarrow> (es1, Err x)
                          | Ok b \<Rightarrow>
                              (on_transfer (\<lambda>t. t\<lparr>ft_state := Activated, ft_pre_reset_health := None\<rparr>)
                                 (es1\<lparr>es_running_bank := active_bank b\<rparr>), Ok ())))
      | _ \<Rightarrow> (es, Ok ()))"

text \<open>The reported state; the versions and the reset kind of the report are left out.\<close>

definition get_activation_state :: "'w flash_engine \<Rightarrow> 'w engine_state \<Rightarrow> 'w engine_state \<times> (backend_error + flash_state)" where
  "get_activation_state e es =
     on_ok (poll_health e es) (\<lambda>es1 _.
       let banks = bo_banks (en_ops e) (es_world es1);
           in_trial = (case banks of None \<Rightarrow> False | Some b \<Rightarrow> cb_in_trial b);
           pending = (case banks of None \<Rightarrow> False | Some b \<Rightarrow> cb_pending_reset b)
       in (es1, Ok (case es_upload_phase es of
             Some s \<Rightarrow> s
           | None \<Rightarrow>
               (case es_transfer es1 of
                  Some t \<Rightarrow> ft_state t
                | None \<Rightarrow>
                    if fw_meta_of e (es_world es1) (es_running_bank es1) = None
                       \<and> fw_meta_of e (es_world es1) (other (es_running_bank es1)) = None then Initial
                    else if in_trial \<and> pending then AwaitingReboot
                    else if in_trial then Activated
                    else FlashComplete))))"

section \<open>Held updates\<close>

datatype held_state = HeldPreparing | HeldPrepared | HeldExecuting | HeldExecuted

record held_update =
  hu_id :: string
  hu_bank :: bank
  hu_state :: held_state
  hu_parts :: "staged_part list"

definition held_updates :: "'w flash_engine \<Rightarrow> 'w engine_state \<Rightarrow> backend_error + held_update list" where
  "held_updates e es =
     (let w = es_world es; k = bo_target_bank (en_ops e) w
      in case bo_staging_record (en_ops e) w k of
           Err x \<Rightarrow> Err (BeInternal (DBank x))
         | Ok rec \<Rightarrow>
             let staged = (case rec of
                   Some r \<Rightarrow> (case sr_update_id r of
                                Some i \<Rightarrow> [\<lparr>hu_id = i, hu_bank = k, hu_state = (if sr_sealed r then HeldPrepared else HeldPreparing),
                                           hu_parts = sr_parts r\<rparr>]
                              | None \<Rightarrow> [])
                 | None \<Rightarrow> []);
                 armed = (case bo_banks (en_ops e) w of
                   None \<Rightarrow> []
                 | Some b \<Rightarrow>
                     (case (if cb_pending_reset b then Some HeldExecuting else if cb_in_trial b then Some HeldExecuted else None,
                            bc_update_id (cb_active b)) of
                        (Some s, Some i) \<Rightarrow>
                          [\<lparr>hu_id = i, hu_bank = bc_bank (cb_active b), hu_state = s,
                            hu_parts = map (\<lambda>(n, img). \<lparr>sp_name = n, sp_size = img_size img, sp_sha256 = hex_lower (img_sha256 img)\<rparr>)
                              (sorted_list_of_fmap (bc_images (cb_active b)))\<rparr>]
                      | _ \<Rightarrow> []))
             in Ok (staged @ armed))"

section \<open>Verdict\<close>

definition preflight_commit :: "'w flash_engine \<Rightarrow> 'w engine_state \<Rightarrow> backend_error + unit" where
  "preflight_commit e es =
     (if en_single_bank e then Ok ()
      else if (case es_transfer es of Some t \<Rightarrow> ft_state t = AwaitingReboot | None \<Rightarrow> False)
      then Err (BeBusy (DStates AwaitingReboot))
      else and_then (case bo_selected_bank (en_ops e) (es_world es) of
                       Some k \<Rightarrow> Ok k
                     | None \<Rightarrow> and_then (set_state e (es_world es)) (\<lambda>b. Ok (active_bank b))) (\<lambda>selected.
        if selected \<noteq> es_running_bank es then Err (BeBusy (DBanks selected (es_running_bank es)))
        else if bo_pending_reboot (en_ops e) (es_world es) then Err (BeBusy (DText ''pending reboot''))
        else Ok ()))"

definition commit_flash :: "'w flash_engine \<Rightarrow> 'w engine_state \<Rightarrow> 'w engine_state \<times> (backend_error + unit)" where
  "commit_flash e es =
     (case preflight_commit e es of
        Err x \<Rightarrow> (es, Err x)
      | Ok _ \<Rightarrow>
          on_ok (err_as (BeInternal \<circ> DBank) (in_world (bo_commit (en_ops e)) es)) (\<lambda>es1 _.
          on_ok (resolve_node_transaction e es1) (\<lambda>es2 _.
            let es3 = clear_caches es2;
                es4 = (case en_hsm e of
                         Some hsm \<Rightarrow> if en_vm_principal e then fst (in_world (ho_arm_enrollment hsm (en_id e)) es3) else es3
                       | None \<Rightarrow> es3)
            in (es4\<lparr>es_transfer := None\<rparr>, Ok ()))))"

definition rollback_flash :: "'w flash_engine \<Rightarrow> 'w engine_state \<Rightarrow> 'w engine_state \<times> (backend_error + unit)" where
  "rollback_flash e es =
     (if \<not> en_supports_rollback e then (es, Err (BeInvalidRequest (DText ''rollback not supported'')))
      else
        on_ok (err_as (BeInternal \<circ> DBank) (in_world (bo_rollback (en_ops e)) es)) (\<lambda>es1 _.
          let es2 = fst (in_world (bo_prepare_target (en_ops e) (bo_target_bank (en_ops e) (es_world es1))) es1)
          in on_ok (resolve_node_transaction e es2) (\<lambda>es3 _.
               case admin_disabled e (clear_caches es3) of
                 (es4, disabled) \<Rightarrow>
                   let es5 = (case en_deactivator e of
                                Some deactivate \<Rightarrow> if disabled then fst (in_world deactivate es4) else es4
                              | None \<Rightarrow> es4)
                   in (es5\<lparr>es_transfer := None\<rparr>, Ok ()))))"

end
