(* ===== verification/FlashProps.thy ===== *)
theory FlashProps
  imports Flash BankProviderProps OtaProps NvOps
begin

text \<open>
  The flash session over a bank provider. The locale \<open>staging_provider\<close> holds what the engine relies on
  while it fills the target bank: no operation there touches what the component runs from. It is
  interpreted on the provider of \<open>BankProvider\<close>.
\<close>

lemma ivd_provider_sel [simp]:
  "bo_nv (ivd_provider cfg) = bw_nv" "bo_put_nv (ivd_provider cfg) nv w = w\<lparr>bw_nv := nv\<rparr>"
  "bo_active_bank (ivd_provider cfg) = bp_active_bank cfg" "bo_selected_bank (ivd_provider cfg) = selected_bank cfg"
  "bo_pending_reboot (ivd_provider cfg) = pending_reboot cfg" "bo_target_bank (ivd_provider cfg) = target_bank cfg"
  "bo_banks (ivd_provider cfg) = bp_banks cfg" "bo_reset_kind (ivd_provider cfg) = bp_reset_kind cfg"
  "bo_prepare_target (ivd_provider cfg) = prepare_target_bank_dir cfg" "bo_seal (ivd_provider cfg) = bp_seal cfg"
  "bo_staging_record (ivd_provider cfg) w k = Ok (read_staging_record cfg w k)"
  "bo_write_staging_record (ivd_provider cfg) = store_staging_record cfg" "bo_verify_payload (ivd_provider cfg) = verify_payload cfg"
  "bo_activate (ivd_provider cfg) = bp_activate cfg" "bo_commit (ivd_provider cfg) = bp_commit cfg"
  "bo_rollback (ivd_provider cfg) = bp_rollback cfg" "bo_disabled_record (ivd_provider cfg) = disabled_record cfg"
  by (simp_all add: ivd_provider_def)

section \<open>Filling the target bank\<close>

locale staging_provider =
  fixes ops :: "'w bank_ops" and kept :: "'w \<Rightarrow> 'w \<Rightarrow> bool"
  assumes kept_refl: "kept w w"
    and kept_trans: "kept w w' \<Longrightarrow> kept w' w'' \<Longrightarrow> kept w w''"
    and kept_target: "kept w w' \<Longrightarrow> bo_target_bank ops w' = bo_target_bank ops w"
    and kept_prune: "k = bo_target_bank ops w \<Longrightarrow> kept w (fst (bo_prune_target ops k keep w))"
    and kept_record: "kept w (fst (bo_write_staging_record ops k r w))"
    and kept_open: "kept w (fst (bo_open_staging_writer ops k uuid w))"
    and kept_write_staged: "kept w (fst (bo_write_staged ops k handle bs w))"
    and kept_discard: "kept w (fst (bo_discard_staged ops k handle w))"
    and kept_commit_staged: "k = bo_target_bank ops w \<Longrightarrow> kept w (fst (bo_commit_staged ops k handle name w))"
    and kept_open_payload: "k = bo_target_bank ops w \<Longrightarrow> kept w (fst (bo_open_payload_writer ops k name w))"
    and kept_write_payload: "k = bo_target_bank ops w \<Longrightarrow> kept w (fst (bo_write_payload ops k name bs w))"
    and kept_seal: "k = bo_target_bank ops w \<Longrightarrow> kept w (fst (bo_seal ops k ident g req w))"
begin

lemma kept_on_ok:
  assumes "kept w (fst x)" "\<And>w' a. x = (w', Ok a) \<Longrightarrow> kept w w' \<Longrightarrow> kept w' (fst (f w' a))"
  shows "kept w (fst (on_ok x f))"
  using assms by (cases x; cases "snd x") (auto simp: on_ok_def intro: kept_trans)

lemma kept_err_as: "kept w (fst (err_as f x)) \<longleftrightarrow> kept w (fst x)"
  by (cases x; cases "snd x"; simp add: err_as_def)

text \<open>The same on the state of the engine.\<close>

lemma world_on_ok:
  assumes "kept w (es_world (fst x))"
    "\<And>s a. x = (s, Ok a) \<Longrightarrow> kept w (es_world s) \<Longrightarrow> kept (es_world s) (es_world (fst (f s a)))"
  shows "kept w (es_world (fst (on_ok x f)))"
  using assms by (cases x; cases "snd x") (auto simp: on_ok_def intro: kept_trans)

lemma world_err_as: "kept w (es_world (fst (err_as f x))) \<longleftrightarrow> kept w (es_world (fst x))"
  by (cases x; cases "snd x"; simp add: err_as_def)

lemma world_in_world: "kept (es_world es) (fst (f (es_world es))) \<Longrightarrow> kept (es_world es) (es_world (fst (in_world f es)))"
  by (cases "f (es_world es)") (simp add: in_world_def)

lemma determined: "determine_target_bank e w = Ok k \<Longrightarrow> en_ops e = ops \<Longrightarrow> k = bo_target_bank ops w"
  by (simp add: determine_target_bank_def split: if_splits)

lemma world_sign:
  assumes e: "en_ops e = ops" and k: "k = bo_target_bank ops (es_world es)"
  shows "kept (es_world es) (es_world (fst (ivd_sign_staged_bank e k es)))"
  by (auto simp: ivd_sign_staged_bank_def e world_err_as kept_refl kept_seal [OF k] intro!: world_in_world split: sum.splits)

lemma world_record_part:
  assumes e: "en_ops e = ops"
  shows "kept (es_world es) (es_world (fst (record_staged_part e k f es)))"
  by (auto simp: record_staged_part_def e Let_def world_err_as kept_refl kept_record intro!: world_in_world split: sum.splits)

lemma world_reconcile:
  assumes e: "en_ops e = ops" and k: "k = bo_target_bank ops (es_world es)"
  shows "kept (es_world es) (es_world (fst (reconcile_staging e k man parts es)))"
  by (auto simp: reconcile_staging_def e Let_def world_err_as kept_refl kept_prune [OF k] kept_record
      intro!: world_on_ok world_in_world split: sum.splits)

lemma kept_process:
  assumes "\<And>out. kept w (fst (write out w))"
  shows "kept w (fst (process_payload_stream e stream manifest i expected write w))"
  using assms [of "fst (en_pipeline e manifest i (fst (received stream)))"]
  by (simp add: process_payload_stream_def case_prod_beta)

lemma kept_intake_staged:
  assumes e: "en_ops e = ops" and k: "k = bo_target_bank ops w"
  shows "kept w (fst (intake_staged e manifest man parts absent addressed nxt k handle stream w))"
proof -
  have p: "kept w w1" if "process_payload_stream e stream manifest nxt expected (bo_write_staged ops k handle) w = (w1, r)"
    for expected w1 r
    using kept_process [of w "bo_write_staged ops k handle" e stream manifest nxt expected] kept_write_staged that by simp
  have d: "kept w (fst (bo_discard_staged ops k handle w1))" if "kept w w1" for w1
    using kept_trans [OF that kept_discard] .
  have c: "kept w w2" if "kept w w1" "bo_commit_staged ops k handle name w1 = (w2, r)" for w1 w2 name r
    using kept_trans [OF that(1) kept_commit_staged, of k handle name] kept_target [OF that(1)] that(2) k by simp
  show ?thesis
    unfolding intake_staged_def Let_def e
    by (auto simp: kept_refl dest!: p split: sum.splits prod.splits option.splits intro: d c)
qed

lemma kept_intake_direct:
  assumes e: "en_ops e = ops" and k: "k = bo_target_bank ops w"
  shows "kept w (fst (intake_direct e manifest man i k stream w))"
proof -
  have "kept w' (fst (bo_write_payload ops k name bs w'))" if "kept w w'" for w' name bs
    using kept_write_payload [of k w'] kept_target [OF that] k by simp
  then show ?thesis
    by (auto simp: intake_direct_def e kept_err_as kept_refl kept_open_payload [OF k] intro!: kept_on_ok kept_process split: sum.splits)
qed

lemma world_part_taken:
  assumes e: "en_ops e = ops" and k: "k = bo_target_bank ops (es_world es)"
  shows "kept (es_world es) (es_world (fst (part_taken e k i name sz hash es)))"
proof -
  have s: "kept (es_world es1) (es_world (fst (if d then ivd_sign_staged_bank e k (f es1) else (g es1, Ok ()))))"
    if "kept (es_world es) (es_world es1)" "es_world (f es1) = es_world es1" "es_world (g es1) = es_world es1"
    for f g es1 and d
    using world_sign [OF e, of k "f es1"] kept_target [OF that(1)] that(2,3) k by (simp add: kept_refl)
  show ?thesis
    unfolding part_taken_def Let_def case_prod_beta
    using world_record_part [OF e, of es k]
    by (auto simp: kept_refl next_id_def on_transfer_def e split: sum.splits intro!: world_on_ok s)
qed

lemma world_take_part:
  assumes e: "en_ops e = ops" and k: "k = bo_target_bank ops (es_world es)"
  shows "kept (es_world es) (es_world (fst (take_part e uuid manifest man parts absent addressed nxt k stream es)))"
proof -
  let ?f = "\<lambda>w. case bo_open_staging_writer ops k uuid w of
           (w1, Ok handle) \<Rightarrow> intake_staged e manifest man parts absent addressed nxt k handle stream w1
         | (w1, Err (Unsupported _)) \<Rightarrow> intake_direct e manifest man nxt k stream w1
         | (w1, Err x) \<Rightarrow> (w1, Err (sink_error x))"
  let ?w = "es_world es"
  have o: "kept ?w w1" "k = bo_target_bank ops w1" if "bo_open_staging_writer ops k uuid ?w = (w1, r)" for w1 r
    using kept_open [of ?w k uuid] kept_target [of ?w w1] that k by simp_all
  have "kept ?w (fst (?f ?w))"
    by (auto split: prod.splits sum.splits bank_error.splits
        intro: o(1) kept_trans [OF o(1) kept_intake_staged [OF e o(2)]] kept_trans [OF o(1) kept_intake_direct [OF e o(2)]])
  then have w: "kept ?w (es_world (fst (in_world ?f es)))" by (rule world_in_world)
  have i: "kept ?w (es_world es1) \<and> k = bo_target_bank ops (es_world es1)" if "in_world ?f es = (es1, r)" for es1 r
    using w [unfolded that fst_conv] kept_target k by metis
  have a: "es_world (fst (already_staged man k j hash es1)) = es_world es1" for j hash and es1 :: "'w engine_state"
    by (auto simp: already_staged_def next_id_def split: sum.splits)
  have t: "kept ?w (es_world (fst (part_taken e k j name sz hash es1)))"
    if "kept ?w (es_world es1) \<and> k = bo_target_bank ops (es_world es1)" for es1 j name sz hash
    using that world_part_taken [OF e] kept_trans by blast
  obtain es1 r where 1: "in_world ?f es = (es1, r)" by (rule prod.exhaust)
  show ?thesis
  proof (cases r)
    case (Inl x)
    then show ?thesis using conjunct1 [OF i [OF 1]] unfolding take_part_def e 1 by simp
  next
    case (Inr x)
    then show ?thesis using conjunct1 [OF i [OF 1]] t [OF i [OF 1]] unfolding take_part_def e 1 by (cases x) (simp_all only: a prod.case sum.case intake.case)
  qed
qed

lemma world_payload:
  assumes e: "en_ops e = ops"
  shows "kept (es_world es) (es_world (fst (handle_payload_upload e uuid addressed stream es)))"
proof -
  have a: "es_world (fst (already_staged man k j hash es1)) = es_world es1" for man k j hash and es1 :: "'w engine_state"
    by (auto simp: already_staged_def next_id_def split: sum.splits)
  show ?thesis
    by (auto simp: handle_payload_upload_def Let_def a kept_refl split: option.splits flash_session.splits sum.splits list.splits
        intro!: world_take_part [OF e] dest: determined [OF _ e])
qed

lemma world_manifest:
  assumes e: "en_ops e = ops" and time: "\<And>t w. kept w (en_ratchet_time_floor e t w)"
  shows "kept (es_world es) (es_world (fst (handle_manifest_upload e stream es)))"
proof -
  have r: "kept w (ratchet_time_floor_on_reject e x w)" for x w
    using time kept_refl by (auto simp: ratchet_time_floor_on_reject_def split: manifest_error.splits option.splits)
  have s: "kept (es_world es1) (es_world (fst (on_ok (ivd_sign_staged_bank e k es2) (\<lambda>es3 _. (es3, Ok fid)))))"
    if "k = bo_target_bank ops (es_world es1)" "es_world es2 = es_world es1"
    for k es1 and es2 :: "'w engine_state" and fid :: nat
    using world_sign [OF e, of k es2] that by (auto intro!: world_on_ok simp: kept_refl)
  have i: "kept (es_world es1) (es_world (fst (stage_integrated e data low k fid es1)))"
    if "k = bo_target_bank ops (es_world es1)" for data low k fid and es1
    unfolding stage_integrated_def Let_def
    by (auto simp: r split: sum.splits intro!: s [OF that] simp: on_transfer_def)
  have d: "kept (es_world es1) (es_world (fst (stage_detached e data v parts kept' k fid es1)))"
    if "k = bo_target_bank ops (es_world es1)" for data v parts kept' k fid and es1
    unfolding stage_detached_def Let_def
    by (auto simp: kept_refl on_transfer_def intro!: s [OF that])
  have rc: "kept (es_world es) (es_world (fst (on_ok (reconcile_staging e k man ps es) (\<lambda>es1 kept'. case next_id es1 of (es2, fid) \<Rightarrow>
      f kept' fid es2))))"
    if "determine_target_bank e (es_world es) = Ok k"
      "\<And>kept' fid es1. k = bo_target_bank ops (es_world es1) \<Longrightarrow> kept (es_world es1) (es_world (fst (f kept' fid es1)))"
    for man ps k and f :: "_ \<Rightarrow> nat \<Rightarrow> 'w engine_state \<Rightarrow> 'w engine_state \<times> (backend_error + nat)"
  proof (rule world_on_ok)
    show "kept (es_world es) (es_world (fst (reconcile_staging e k man ps es)))"
      using world_reconcile [OF e determined [OF that(1) e]] .
  next
    fix es1 :: "'w engine_state" and kept' assume "kept (es_world es) (es_world es1)"
    then show "kept (es_world es1) (es_world (fst (case next_id es1 of (es2, fid) \<Rightarrow> f kept' fid es2)))"
      using that(2) [of "fst (next_id es1)"] determined [OF that(1) e] by (simp add: next_id_def kept_target)
  qed
  show ?thesis
    unfolding handle_manifest_upload_def Let_def
    by (auto simp: kept_refl split: sum.splits option.splits intro!: rc i d)
qed

lemma world_start: "es_world (fst (start_flash e es)) = es_world es"
  by (auto simp: start_flash_def ensure_flash_can_start_def on_ok_def next_id_def Let_def
      split: prod.splits sum.splits option.splits if_splits)

lemma world_note:
  assumes e: "en_ops e = ops"
  shows "kept (es_world es) (es_world (fst (note_update_id e uid es)))"
  by (auto simp: note_update_id_def e Let_def world_err_as kept_refl kept_record in_world_def case_prod_beta
      split: sum.splits option.splits)

end

section \<open>The provider of a bank set\<close>

text \<open>What a component with two banks runs from: NV, boot vector and the directory of the active bank.\<close>

definition session_keeps :: "('s, 'c) bp_cfg \<Rightarrow> ('s, 'c) bp_world \<Rightarrow> ('s, 'c) bp_world \<Rightarrow> bool" where
  "session_keeps cfg w w' \<longleftrightarrow> (\<not> bp_single_bank cfg \<longrightarrow> keeps (fallback_target_active cfg w) w w')"

lemma other_bank_neq [simp]: "other k \<noteq> k"
  by (cases k) (simp_all add: other_def)

lemma keeps_active: "keeps k w w' \<Longrightarrow> fallback_target_active cfg w' = fallback_target_active cfg w"
  by (simp add: keeps_def fallback_target_active_def)

interpretation ivd: staging_provider "ivd_provider cfg" "session_keeps cfg" for cfg
proof unfold_locales
  fix w w' w'' :: "('a, 'b) bp_world"
  show "session_keeps cfg w w" by (simp add: session_keeps_def)
  show "session_keeps cfg w w''" if "session_keeps cfg w w'" "session_keeps cfg w' w''"
    using that keeps_active unfolding session_keeps_def by (metis keeps_trans)
  show "bo_target_bank (ivd_provider cfg) w' = bo_target_bank (ivd_provider cfg) w" if "session_keeps cfg w w'"
    using that keeps_active [of _ w w' cfg] by (auto simp: session_keeps_def ivd_provider_def target_bank_def)
qed (auto simp: session_keeps_def ivd_provider_def target_bank_def)

text \<open>The operations of a session before it is finalized.\<close>

datatype session_op =
    StartFlash
  | UploadManifest upload
  | UploadPayload string "nat option" upload
  | NoteUpdate string
  | ValidateFlash
  | InvalidateFlash
  | ActivateFlash

fun session_step :: "'w flash_engine \<Rightarrow> session_op \<Rightarrow> 'w engine_state \<Rightarrow> 'w engine_state" where
  "session_step e StartFlash es = fst (start_flash e es)"
| "session_step e (UploadManifest stream) es = fst (handle_manifest_upload e stream es)"
| "session_step e (UploadPayload uuid addressed stream) es = fst (handle_payload_upload e uuid addressed stream es)"
| "session_step e (NoteUpdate uid) es = fst (note_update_id e uid es)"
| "session_step e ValidateFlash es = fst (validate es)"
| "session_step e InvalidateFlash es = fst (invalidate es)"
| "session_step e ActivateFlash es = fst (activate_transfer e es)"

lemma world_transfer: "es_world (fst (with_transfer f es)) = es_world es"
  by (auto simp: with_transfer_def split: option.splits sum.splits)

context staging_provider
begin

lemma step_kept:
  assumes "en_ops e = ops" "\<And>t w. kept w (en_ratchet_time_floor e t w)"
  shows "kept (es_world es) (es_world (session_step e op es))"
  using world_manifest [OF assms] world_payload [OF assms(1)] world_note [OF assms(1)]
  by (cases op) (auto simp: world_start validate_def invalidate_def activate_transfer_def world_transfer kept_refl)

lemma session_kept:
  assumes "en_ops e = ops" "\<And>t w. kept w (en_ratchet_time_floor e t w)"
  shows "kept (es_world es) (es_world (fold (session_step e) rs es))"
proof (induction rs arbitrary: es)
  case (Cons r rs)
  show ?case
    unfolding fold_Cons comp_apply by (rule kept_trans [OF step_kept [OF assms] Cons.IH])
qed (simp add: kept_refl)

end

text \<open>A part name that stays in the bank directory; other names are outside the file model.\<close>

definition stays_inside :: "string \<Rightarrow> bool" where
  "stays_inside name \<longleftrightarrow> (name = [] \<or> hd name \<noteq> slash) \<and> ''..'' \<notin> set (split_at slash name)"


text \<open>A node with one component on set 0, its HSM \<open>cr1\<close>, no boot vector and no activator.\<close>

definition node_cfg :: "ivd_env \<Rightarrow> (unit, nat) bp_cfg" where
  "node_cfg env = \<lparr>bp_crc = (\<lambda>_. 0), bp_ivd = env, bp_selector = None, bp_bank_set = 0, bp_component_id = ''os'', bp_single_bank = False,
     bp_images_dir = True, bp_hsm = Some (\<lambda>c. (c, Ok True)), bp_hsm_crypto = Some cr1, bp_activator = None, bp_running_bank = A,
     bp_node_boot_id = None, bp_encode_record = (\<lambda>r. Ok [1]), bp_decode_record = (\<lambda>_. None), bp_hex_decode = (\<lambda>_. None),
     bp_link_to_file = (\<lambda>_. False)\<rparr>"

definition node_engine :: "ivd_env \<Rightarrow> (unit, nat) bp_world flash_engine" where
  "node_engine env = \<lparr>en_ops = ivd_provider (node_cfg env), en_crc = (\<lambda>_. 0), en_sha = (\<lambda>_. replicate 32 0), en_bank_set = 0, en_id = ''os'',
     en_single_bank = False, en_supports_rollback = True, en_images_dir = True, en_node_boot_id = None, en_declared_parts = None,
     en_decode = (\<lambda>b. if b = [5] then Some \<lparr>sm_components = [\<lparr>sc_id = None, sc_digest = Some [1, 1, 2], sc_uri = None\<rparr>], sm_disable_target = None, sm_integrated = False\<rparr> else None),
     en_validate_header = (\<lambda>_ _ _. Ok \<lparr>vd_type = Firmware, vd_meta = image6, vd_sha256 = None, vd_size = None, vd_raw_envelope = None, vd_disable_target = None\<rparr>),
     en_validate = (\<lambda>_ _ _. Ok \<lparr>vd_type = Firmware, vd_meta = image6, vd_sha256 = None, vd_size = None, vd_raw_envelope = None, vd_disable_target = None\<rparr>),
     en_pipeline = (\<lambda>_ _ b. (b, True)), en_ratchet_time_floor = (\<lambda>_ w. w), en_clock = (\<lambda>_. 0), en_hsm = None, en_hsm_crypto = True,
     en_post_provision_reload = None, en_vm_principal = False, en_vm_service = None, en_deactivator = None\<rparr>"

definition node_world :: "nv_store \<Rightarrow> (unit, nat) bp_world" where
  "node_world nv = \<lparr>bw_nv = nv,
     bw_selector = \<lparr>sbm_store = (), current = fmempty, generation = 0, committed_entries = fmempty,
       committed_generation = 0, sbm_transaction = None, pending = None\<rparr>,
     bw_hsm = 0, bw_set = \<lparr>sd_top = Some [], sd_dirs = (\<lambda>k. Some bank1), sd_staging = (\<lambda>_. None), sd_faults = []\<rparr>\<rparr>"

definition node_state :: "nv_store \<Rightarrow> flash_session option \<Rightarrow> flash_transfer option \<Rightarrow> (nat \<rightharpoonup> validated_firmware) \<Rightarrow> (unit, nat) bp_world engine_state" where
  "node_state nv session transfer packages = \<lparr>es_world = node_world nv, es_session = session, es_transfer = transfer, es_upload_phase = None,
     es_packages = packages, es_uploaded_parts = Map.empty, es_running_bank = A, es_update_id = None, es_install_source = False,
     es_next_id = 1, es_admin_cache = \<lparr>ac_epoch = 0, ac_value = None\<rparr>, es_anchors = None, es_coordinator = None\<rparr>"


end
