(* ===== verification/Intake.thy ===== *)
theory Intake
  imports Flash
begin

text \<open>
  The uploads a component accepts (\<^verbatim>\<open>receive_package\<close>, \<^verbatim>\<open>receive_package_stream\<close>,
  \<^verbatim>\<open>receive_package_part\<close> and \<^verbatim>\<open>delete_package\<close> of \<^verbatim>\<open>component-mgr/src/backend.rs\<close>): inside a session the
  manifest, then its payloads, named or not; in any other state the intake of a whole envelope.
  The streaming of such an envelope into the target bank (\<^verbatim>\<open>process_envelope_stream\<close>) and the component
  name of a validated manifest are arguments. The descriptions cached for the package catalog are left out.
\<close>

type_synonym 'w envelope_stream =
  "upload \<Rightarrow> anchors \<Rightarrow> u32 \<Rightarrow> bank \<Rightarrow> 'w \<Rightarrow> 'w \<times> (backend_error + validated_firmware \<times> ivd_file list)"

text \<open>The first part: the transfer is set up and the target bank cleared before the stream is read.\<close>

definition open_envelope_upload ::
    "'w flash_engine \<Rightarrow> u64 option \<Rightarrow> 'w engine_state \<Rightarrow> 'w engine_state \<times> (backend_error + bank)" where
  "open_envelope_upload e content_length es =
     on_ok (ensure_flash_can_start e es) (\<lambda>es1 _.
       case determine_target_bank e (es_world es1) of
         Err x \<Rightarrow> (es1, Err x)
       | Ok target \<Rightarrow>
           on_ok (err_as (BeInternal \<circ> DBank) (in_world (bo_prepare_target (en_ops e) target) es1)) (\<lambda>es2 _.
             case next_id es2 of
               (es3, tid) \<Rightarrow>
                 (es3\<lparr>es_transfer := Some \<lparr>ft_transfer_id = tid, ft_package_id = None, ft_state = Transferring, ft_pre_reset_health = None,
                        ft_image_size = (case content_length of None \<Rightarrow> 0 | Some n \<Rightarrow> n), ft_streamed_files = []\<rparr>,
                      es_upload_phase := Some Transferring\<rparr>, Ok target)))"

text \<open>The second: what becomes of the validated envelope.\<close>

definition close_envelope_upload ::
    "'w flash_engine \<Rightarrow> validated_firmware \<Rightarrow> ivd_file list \<Rightarrow> 'w engine_state \<Rightarrow> 'w engine_state \<times> (backend_error + nat)" where
  "close_envelope_upload e v files es =
     (if vd_disable_target v \<noteq> None
      then on_ok (enact_disable_manifest e (es\<lparr>es_transfer := None\<rparr>)) (\<lambda>es1 _.
             case next_id es1 of (es2, fid) \<Rightarrow> (es2, Ok fid))
      else case next_id (on_transfer (\<lambda>t. t\<lparr>ft_state := Preparing, ft_streamed_files := files\<rparr>) es) of
             (es1, fid) \<Rightarrow> (es1\<lparr>es_packages := (es_packages es1)(fid \<mapsto> v)\<rparr>, Ok fid))"

definition receive_envelope ::
    "'w flash_engine \<Rightarrow> 'w envelope_stream \<Rightarrow> u64 option \<Rightarrow> upload \<Rightarrow> 'w engine_state \<Rightarrow> 'w engine_state \<times> (backend_error + nat)" where
  "receive_envelope e process content_length stream es =
     on_ok (open_envelope_upload e content_length es) (\<lambda>es1 target.
       case in_world (process stream (es_anchors es1) (running_floor e es) target) es1 of
         (es2, Err x) \<Rightarrow> (on_transfer (\<lambda>t. t\<lparr>ft_state := FlashFailed\<rparr>) (es2\<lparr>es_upload_phase := None\<rparr>), Err x)
       | (es2, Ok (v, files)) \<Rightarrow> close_envelope_upload e v files (es2\<lparr>es_upload_phase := None\<rparr>))"

definition receive_package_stream ::
    "'w flash_engine \<Rightarrow> 'w envelope_stream \<Rightarrow> string \<Rightarrow> u64 option \<Rightarrow> upload \<Rightarrow> 'w engine_state
       \<Rightarrow> 'w engine_state \<times> (backend_error + nat)" where
  "receive_package_stream e process uuid content_length stream es =
     (case es_session es of
        Some AwaitingManifest \<Rightarrow> handle_manifest_upload e stream es
      | Some (AwaitingPayload manifest v parts present) \<Rightarrow> handle_payload_upload e uuid None stream es
      | _ \<Rightarrow> receive_envelope e process content_length stream es)"

definition receive_package_part ::
    "'w flash_engine \<Rightarrow> 'w envelope_stream \<Rightarrow> string \<Rightarrow> string \<Rightarrow> u64 option \<Rightarrow> upload \<Rightarrow> 'w engine_state
       \<Rightarrow> 'w engine_state \<times> (backend_error + nat)" where
  "receive_package_part e process uuid part_id content_length stream es =
     (case es_session es of
        Some (AwaitingPayload manifest v parts present) \<Rightarrow>
          if part_id = ''manifest'' then receive_package_stream e process uuid content_length stream es
          else (case en_decode e manifest of
                  None \<Rightarrow> (es, Err (BeInternal (DText ''decode manifest'')))
                | Some man \<Rightarrow> handle_payload_upload e uuid (resolve_part man parts part_id) stream es)
      | _ \<Rightarrow> receive_package_stream e process uuid content_length stream es)"

definition receive_package ::
    "'w flash_engine \<Rightarrow> (validated_firmware \<Rightarrow> string) \<Rightarrow> bytes \<Rightarrow> 'w engine_state \<Rightarrow> 'w engine_state \<times> (backend_error + nat)" where
  "receive_package e component_name data es =
     (case en_validate e (es_anchors es) data (running_floor e es) of
        Err x \<Rightarrow> (es\<lparr>es_world := ratchet_time_floor_on_reject e x (es_world es)\<rparr>, Err (BeInvalidRequest (DManifest x)))
      | Ok v \<Rightarrow>
          if component_name v \<noteq> en_id e then (es, Err (BeInvalidRequest (DText (component_name v))))
          else if vd_disable_target v \<noteq> None
          then on_ok (enact_disable_manifest e es) (\<lambda>es1 _. case next_id es1 of (es2, fid) \<Rightarrow> (es2, Ok fid))
          else (case next_id es of (es1, fid) \<Rightarrow> (es1\<lparr>es_packages := (es_packages es1)(fid \<mapsto> v)\<rparr>, Ok fid)))"

definition delete_package :: "nat \<Rightarrow> 'w engine_state \<Rightarrow> 'w engine_state \<times> (backend_error + unit)" where
  "delete_package pid es =
     (if es_packages es pid = None then (es, Err (BeNotFound (DText ''package'')))
      else (es\<lparr>es_packages := (es_packages es)(pid := None)\<rparr>, Ok ()))"

end
