(* ===== verification/SessionProps.thy ===== *)
theory SessionProps
  imports FlashProps Intake
begin

text \<open>
  The flash session itself: which parts it waits for is always a set of parts of the manifest it was
  opened with, and every payload it accepts brings it closer to its end.
\<close>

section \<open>What leaves the session\<close>

text \<open>The engine reaches the world through the bank provider, which knows nothing of the session.\<close>

lemma in_world_session [simp]: "es_session (fst (in_world f es)) = es_session es"
  by (simp add: in_world_def case_prod_beta)

lemma in_world_eq: "in_world f es = (es', r) \<Longrightarrow> es_session es' = es_session es"
  using in_world_session [of f es] by simp

lemma err_as_session [simp]: "es_session (fst (err_as f x)) = es_session (fst x)"
  by (cases x; cases "snd x"; simp add: err_as_def)

lemma on_transfer_session [simp]: "es_session (on_transfer f es) = es_session es"
  by (simp add: on_transfer_def)

lemma next_id_session [simp]: "es_session (fst (next_id es)) = es_session es"
  by (simp add: next_id_def)

lemma session_on_ok:
  assumes "P (es_session (fst x))" "\<And>s a. x = (s, Ok a) \<Longrightarrow> P (es_session (fst (f s a)))"
  shows "P (es_session (fst (on_ok x f)))"
  using assms by (cases x; cases "snd x") (auto simp: on_ok_def)

lemma sign_session [simp]: "es_session (fst (ivd_sign_staged_bank e k es)) = es_session es"
  by (auto simp: ivd_sign_staged_bank_def split: sum.splits)

lemma sign_then_session [simp]: "es_session (fst (on_ok (ivd_sign_staged_bank e k es) (\<lambda>es' _. (es', Ok x)))) = es_session es"
  by (rule session_on_ok) (auto dest: arg_cong [of _ _ "es_session \<circ> fst"])

lemma record_session [simp]: "es_session (fst (record_staged_part e k f es)) = es_session es"
  by (auto simp: record_staged_part_def Let_def split: sum.splits)

lemma already_session [simp]: "es_session (fst (already_staged man k j hash es)) = es_session es"
  by (auto simp: already_staged_def next_id_def split: sum.splits)

lemma note_session [simp]: "es_session (fst (note_update_id e uid es)) = es_session es"
  by (auto simp: note_update_id_def Let_def split: sum.splits option.splits)

lemma transfer_session [simp]: "es_session (fst (with_transfer f es)) = es_session es"
  by (auto simp: with_transfer_def split: option.splits sum.splits)

section \<open>Reconciling what is staged\<close>

lemma keep_parts_of_manifest: "fst ` set (keep_parts e w k man parts kept ps) \<subseteq> fst ` set kept \<union> set parts"
proof (induction ps arbitrary: kept)
  case (Cons p ps)
  have "i \<in> set parts" if "staged_component man parts kept p = Some i" for i
    using that by (auto simp: staged_component_def find_Some_iff)
  then have "fst ` set (keep_parts e w k man parts (kept @ [(i, f)]) ps) \<subseteq> fst ` set kept \<union> set parts"
    if "staged_component man parts kept p = Some i" for i f
    using Cons.IH [of "kept @ [(i, f)]"] that by auto
  then show ?case using Cons.IH [of kept] by (simp split: option.split)
qed simp

lemma reconciled:
  assumes "reconcile_staging e k man parts es = (es', Ok kept)"
  shows "es_session es' = es_session es" "fst ` set kept \<subseteq> set parts"
proof -
  obtain rec where "bo_staging_record (en_ops e) (es_world es) k = Ok rec"
    using assms by (auto simp: reconcile_staging_def split: sum.splits)
  then show "es_session es' = es_session es" "fst ` set kept \<subseteq> set parts"
    using assms keep_parts_of_manifest [of e "es_world es" k man parts "[]"]
    by (auto simp: reconcile_staging_def Let_def on_ok_def in_world_def err_as_def split: prod.splits sum.splits)
qed

lemma reconcile_session [simp]: "es_session (fst (reconcile_staging e k man parts es)) = es_session es"
  by (auto simp: reconcile_staging_def Let_def split: sum.splits intro!: session_on_ok [where P = "\<lambda>s. s = es_session es"])
    (auto simp: in_world_def err_as_def split: prod.splits sum.splits)

section \<open>The type of a session\<close>

text \<open>A session that waits for payloads waits for parts of its manifest, and for at least one unless there is none.\<close>

definition wf_session :: "'w flash_engine \<Rightarrow> flash_session option \<Rightarrow> bool" where
  "wf_session e s =
     (case s of
        Some (AwaitingPayload m v parts present) \<Rightarrow>
          (case en_decode e m of
             None \<Rightarrow> False
           | Some man \<Rightarrow> \<not> sm_integrated man \<and> parts = manifest_parts man \<and> present \<subseteq> set parts
               \<and> (parts \<noteq> [] \<longrightarrow> absent_parts parts present \<noteq> []))
      | _ \<Rightarrow> True)"

lemma wf_session_simps [simp]: "wf_session e None" "wf_session e (Some AwaitingManifest)" "wf_session e (Some SessionComplete)"
  by (simp_all add: wf_session_def)

lemma manifest_parts_distinct: "distinct (manifest_parts man)"
  by (simp add: manifest_parts_def)

lemma some_absent:
  "distinct parts \<Longrightarrow> present \<subseteq> set parts \<Longrightarrow> card present \<noteq> length parts \<Longrightarrow> absent_parts parts present \<noteq> []"
  by (auto simp: absent_parts_def filter_empty_conv distinct_card dest: subset_antisym)

lemma detached_wf:
  assumes "en_decode e data = Some man" "\<not> sm_integrated man" "parts = manifest_parts man" "fst ` set kept \<subseteq> set parts"
  shows "wf_session e (es_session (fst (stage_detached e data v parts kept k fid es)))"
  using assms some_absent [OF manifest_parts_distinct, of "fst ` set kept" man]
  by (auto simp: stage_detached_def Let_def wf_session_def)

lemma manifest_wf:
  assumes "wf_session e (es_session es)"
  shows "wf_session e (es_session (fst (handle_manifest_upload e stream es)))"
proof -
  have i: "wf_session e (es_session es') \<Longrightarrow> wf_session e (es_session (fst (stage_integrated e data low k fid es')))" for data low k fid es'
    by (auto simp: stage_integrated_def Let_def split: sum.splits)
  have r: "wf_session e (es_session (fst (on_ok (reconcile_staging e k man ps es) (\<lambda>es1 kept. case next_id es1 of (es2, fid) \<Rightarrow> f kept fid es2))))"
    if "\<And>kept fid es2. fst ` set kept \<subseteq> set ps \<Longrightarrow> wf_session e (es_session es2) \<Longrightarrow> wf_session e (es_session (fst (f kept fid es2)))"
    for k man ps and f :: "_ \<Rightarrow> nat \<Rightarrow> 'a engine_state \<Rightarrow> 'a engine_state \<times> (backend_error + nat)"
    by (rule session_on_ok) (simp_all add: assms that reconciled case_prod_beta)
  show ?thesis
    unfolding handle_manifest_upload_def Let_def
    by (auto simp: assms split: sum.splits option.splits intro!: r i detached_wf)
qed

section \<open>Payloads\<close>

lemma took_staged:
  "intake_staged e m man parts absent addressed nxt k handle stream w = (w', Ok (TookPart i name sz hash))
     \<Longrightarrow> addressed = Some i \<or> addressed = None \<and> i \<in> set absent"
  by (auto simp: intake_staged_def Let_def find_Some_iff split: sum.splits prod.splits option.splits)

lemma took_direct: "intake_direct e m man j k stream w = (w', Ok (TookPart i name sz hash)) \<Longrightarrow> i = j"
  by (auto simp: intake_direct_def on_ok_def err_as_def split: sum.splits prod.splits)

lemma part_taken_session:
  "es_session (fst (part_taken e k i name sz hash es)) \<in> {es_session es, fst (session_with i (es_session es))}"
proof -
  have f: "es_session (fst (on_ok x (\<lambda>es5 _. case next_id es5 of (es6, fid) \<Rightarrow>
      (es6\<lparr>es_uploaded_parts := (es_uploaded_parts es6)(fid \<mapsto> p)\<rparr>, Ok fid)))) = es_session (fst x)"
    for x :: "'a engine_state \<times> (backend_error + unit)" and p
    by (rule session_on_ok) (simp_all add: next_id_def)
  have r: "es_session es1 = es_session es" if "record_staged_part e k g es = (es1, Ok u)" for g es1 u
    using record_session [of e k g es] that by simp
  show ?thesis
  proof (cases "bo_verify_payload (en_ops e) k name hash (es_world es)")
    case (Inr u)
    show ?thesis
      unfolding part_taken_def Inr sum.case Let_def case_prod_beta [of _ "session_with i _"]
      by (rule session_on_ok) (auto simp: f dest: r)
  qed (simp add: part_taken_def)
qed

lemma take_part_session:
  assumes "case addressed of None \<Rightarrow> nxt \<in> set absent | Some i \<Rightarrow> nxt = i \<and> i \<in> set absent"
  shows "es_session (fst (take_part e uuid m man parts absent addressed nxt k stream es)) = es_session es
    \<or> (\<exists>i \<in> set absent. es_session (fst (take_part e uuid m man parts absent addressed nxt k stream es)) = fst (session_with i (es_session es)))"
proof -
  let ?f = "\<lambda>w. case bo_open_staging_writer (en_ops e) k uuid w of
           (w1, Ok handle) \<Rightarrow> intake_staged e m man parts absent addressed nxt k handle stream w1
         | (w1, Err (Unsupported _)) \<Rightarrow> intake_direct e m man nxt k stream w1
         | (w1, Err x) \<Rightarrow> (w1, Err (sink_error x))"
  have took: "i \<in> set absent" if "?f w = (w', Ok (TookPart i name sz hash))" for w w' i name sz hash
    using that assms by (auto dest: took_staged took_direct split: prod.splits sum.splits bank_error.splits option.splits)
  obtain es1 r where 1: "in_world ?f es = (es1, r)" by (rule prod.exhaust)
  then have s1: "es_session es1 = es_session es" using in_world_session [of ?f es] by simp
  show ?thesis
  proof (cases "\<exists>i name sz hash. r = Ok (TookPart i name sz hash)")
    case True
    then obtain i name sz hash where r: "r = Ok (TookPart i name sz hash)" by blast
    then have "i \<in> set absent" using took 1 by (auto simp: in_world_def split: prod.splits)
    then show ?thesis
      using part_taken_session [of e k i name sz hash es1] unfolding take_part_def 1 r by (auto simp: s1)
  next
    case False
    then show ?thesis unfolding take_part_def 1 by (auto simp: s1 split: sum.splits intake.splits)
  qed
qed

lemma receive_session:
  assumes "es_session es = Some (AwaitingPayload m v parts present)"
  shows "es_session (fst (receive_package_part e process uuid pid len stream es)) = es_session es
    \<or> (\<exists>i \<in> set (absent_parts parts present).
         es_session (fst (receive_package_part e process uuid pid len stream es)) = fst (session_with i (es_session es)))"
proof -
  have "es_session (fst (handle_payload_upload e uuid addressed stream es)) = es_session es
    \<or> (\<exists>i \<in> set (absent_parts parts present).
         es_session (fst (handle_payload_upload e uuid addressed stream es)) = fst (session_with i (es_session es)))"
    if "\<And>i. addressed = Some i \<Longrightarrow> i \<in> set parts" for addressed
  proof (cases "\<exists>man k. en_decode e m = Some man \<and> determine_target_bank e (es_world es) = Ok k")
    case True
    then obtain man k where mk: "en_decode e m = Some man" "determine_target_bank e (es_world es) = Ok k" by blast
    show ?thesis
    proof (cases addressed)
      case None
      then show ?thesis
        using take_part_session [where addressed = None and nxt = "hd (absent_parts parts present)" and absent = "absent_parts parts present" and e = e and uuid = uuid
            and m = m and man = man and parts = parts and k = k and stream = stream and es = es] assms
        by (cases "absent_parts parts present") (auto simp: handle_payload_upload_def mk)
    next
      case (Some i)
      show ?thesis
      proof (cases "i \<in> present")
        case True
        then show ?thesis using Some assms by (auto simp: handle_payload_upload_def mk Let_def split: sum.splits)
      next
        case False
        then have "i \<in> set (absent_parts parts present)" using that [OF Some] by (simp add: absent_parts_def)
        then show ?thesis
          using take_part_session [where addressed = "Some i" and nxt = i and absent = "absent_parts parts present" and e = e and uuid = uuid
            and m = m and man = man and parts = parts and k = k and stream = stream and es = es] False Some assms
          by (simp add: handle_payload_upload_def mk Let_def)
      qed
    qed
  next
    case False
    then show ?thesis using assms by (auto simp: handle_payload_upload_def split: option.splits sum.splits)
  qed
  moreover have "i \<in> set parts" if "resolve_part man parts pid = Some i" for man i
    using that by (auto simp: resolve_part_def Let_def find_Some_iff split: list.splits char.splits)
  ultimately show ?thesis using assms by (auto simp: receive_package_part_def receive_package_stream_def split: option.splits)
qed

text \<open>How many parts a session waits for.\<close>

definition missing :: "flash_session option \<Rightarrow> nat" where
  "missing s = (case s of Some (AwaitingPayload m v parts present) \<Rightarrow> length (absent_parts parts present) | _ \<Rightarrow> 0)"

lemma session_with_absent:
  assumes "s = Some (AwaitingPayload m v parts present)" "i \<in> set (absent_parts parts present)" "distinct parts"
  shows "Suc (missing (fst (session_with i s))) = missing s" "fst (session_with i s) \<noteq> s"
    "wf_session e s \<Longrightarrow> wf_session e (fst (session_with i s))"
proof -
  have "absent_parts parts (insert i present) = removeAll i (absent_parts parts present)"
    by (auto simp: absent_parts_def removeAll_filter_not_eq intro: filter_cong)
  moreover have "distinct (absent_parts parts present)" using assms(3) by (simp add: absent_parts_def)
  ultimately have l: "Suc (length (absent_parts parts (insert i present))) = length (absent_parts parts present)"
    using assms(2) by (simp add: distinct_remove1_removeAll [symmetric] length_remove1)
       (metis Suc_pred length_pos_if_in_set)
  show "Suc (missing (fst (session_with i s))) = missing s"
    using l assms(1) by (auto simp: missing_def session_with_def)
  then show "fst (session_with i s) \<noteq> s" by auto
  show "wf_session e (fst (session_with i s))" if "wf_session e s"
    using that assms(1,2) by (auto simp: wf_session_def session_with_def absent_parts_def split: option.splits)
qed

section \<open>Every request\<close>

lemma ensure_session [simp]: "es_session (fst (ensure_flash_can_start e es)) = es_session es"
  by (auto simp: ensure_flash_can_start_def split: option.splits prod.splits sum.splits)

lemma nv_write_session [simp]: "es_session (fst (nv_write e f es)) = es_session es"
  by (simp add: nv_write_def case_prod_beta)

lemma clear_caches_session [simp]: "es_session (clear_caches es) = es_session es"
  by (simp add: clear_caches_def)

lemma owed_session [simp]: "es_session (fst (set_reboot_owed e owed es)) = es_session es"
  by (auto simp: set_reboot_owed_def Let_def case_prod_beta split: sum.splits)

lemma on_ok_session:
  assumes "es_session (fst x) = s" "\<And>es a. es_session es = s \<Longrightarrow> es_session (fst (f es a)) = s"
  shows "es_session (fst (on_ok x f)) = s"
  using assms by (cases x; cases "snd x") (auto simp: on_ok_def)

lemma resolve_session [simp]: "es_session (fst (resolve_node_transaction e es)) = es_session es"
  by (auto simp: resolve_node_transaction_def intro!: on_ok_session)

lemma admin_session [simp]: "es_session (fst (admin_disabled e es)) = es_session es"
  by (auto simp: admin_disabled_def Let_def split: option.splits prod.splits sum.splits dest: in_world_eq)

lemma disable_session [simp]: "es_session (fst (enact_disable_manifest e es)) = es_session es"
  by (auto simp: enact_disable_manifest_def Let_def split: option.splits sum.splits intro!: on_ok_session)

lemma envelope_session [simp]: "es_session (fst (receive_envelope e process len stream es)) = es_session es"
proof -
  have "es_session (fst (open_envelope_upload e len es)) = es_session es"
    by (auto simp: open_envelope_upload_def next_id_def split: sum.splits intro!: on_ok_session)
  moreover have "es_session (fst (close_envelope_upload e v files es')) = es_session es'" for v files es'
    by (auto simp: close_envelope_upload_def next_id_def intro!: on_ok_session)
  ultimately show ?thesis
    by (auto simp: receive_envelope_def split: prod.splits sum.splits intro!: on_ok_session dest!: in_world_eq)
qed

lemma start_session: "es_session (fst (start_flash e es)) \<in> {es_session es, Some AwaitingManifest}"
  unfolding start_flash_def
  by (rule session_on_ok)
    (auto simp: Let_def next_id_def split: sum.splits dest: arg_cong [of "ensure_flash_can_start e es" _ "es_session \<circ> fst"])

lemma keys_session [simp]: "es_session (fst (provision_keys e raw es)) = es_session es"
  by (auto simp: provision_keys_def Let_def split: option.splits prod.splits sum.splits intro!: on_ok_session dest!: in_world_eq)

lemma reconcile_unpushed_session [simp]: "es_session (fst (reconcile_unpushed e dl ad m absent k es)) = es_session es"
  by (auto simp: reconcile_unpushed_def split: sum.splits option.splits)

lemma reconcile_unpushed_eq: "reconcile_unpushed e dl ad m absent k es = (es', r) \<Longrightarrow> es_session es' = es_session es"
  using reconcile_unpushed_session [of e dl ad m absent k es] by simp

lemma sign_eq: "ivd_sign_staged_bank e k es = (es', r) \<Longrightarrow> es_session es' = es_session es"
  using sign_session [of e k es] by simp

lemma activate_session [simp]: "es_session (fst (activate_installed e es)) = es_session es"
  by (auto simp: activate_installed_def split: sum.splits prod.splits dest: in_world_eq)

lemma package_session [simp]: "es_session (fst (process_package e es)) = es_session es"
  by (auto simp: process_package_def install_package_def split: option.splits manifest_type.splits)

text \<open>A session stays as it is or becomes complete.\<close>

definition may_complete :: "flash_session option \<Rightarrow> flash_session option \<Rightarrow> bool" where
  "may_complete s s' \<longleftrightarrow> s' = s \<or> s' = Some SessionComplete"

lemma may_complete_refl [simp]: "may_complete s s" "may_complete s (Some SessionComplete)"
  by (simp_all add: may_complete_def)

lemma complete_session: "may_complete (es_session es) (es_session (fst (complete_bank e dl ad es)))"
proof -
  have r: "may_complete (es_session es) (es_session (fst (on_ok (reconcile_unpushed e dl ad m absent k es) (\<lambda>es1 files.
      on_ok (ivd_sign_staged_bank e k (on_transfer (f files) es1)) (\<lambda>es2 _. (on_transfer g (es2\<lparr>es_session := Some SessionComplete\<rparr>), Ok ()))))))"
    for m absent k f g
    by (rule session_on_ok) (auto simp: on_ok_def split: prod.splits sum.splits dest!: sign_eq reconcile_unpushed_eq)
  show ?thesis
    using r by (auto simp: complete_bank_def Let_def split: option.split flash_session.split sum.split)
qed

lemma finalize_session: "may_complete (es_session es) (es_session (fst (finalize_flash e dl ad es)))"
proof (cases "session_disables (es_session es)")
  case True
  have "may_complete (es_session es) (es_session (fst (on_ok (enact_disable_manifest e es)
      (\<lambda>es1 _. (on_transfer f (es1\<lparr>es_session := Some SessionComplete, es_install_source := False\<rparr>), Ok ())))))" for f
    by (rule session_on_ok) simp_all
  then show ?thesis using True by (simp add: finalize_flash_def)
next
  case False
  have c: "may_complete (es_session es) (es_session es1)" if "complete_bank e dl ad es = (es1, Ok u)" for es1 u
    using complete_session [of es e dl ad] that by simp
  have r: "es_session (fst (on_ok (process_package e es1) (\<lambda>es2 _. on_ok (activate_installed e es2) (\<lambda>es3 _.
      let es4 = on_transfer f es3 in on_ok (if q then set_reboot_owed e True es4 else (es4, Ok ())) (\<lambda>es5 _. (es5\<lparr>es_install_source := False\<rparr>, Ok ()))))))
    = es_session es1" for es1 f q
    by (auto simp: Let_def intro!: on_ok_session)
  show ?thesis
    unfolding finalize_flash_def if_not_P [OF False]
    by (rule session_on_ok) (simp_all only: r complete_session c)
qed

lemma reset_session [simp]: "es_session (fst (ecu_reset e es)) = es_session es"
proof -
  have a: "es_session es0 = es_session es" if "admin_disabled e es = (es0, d)" for es0 d
    using admin_session [of e es] that by simp
  have "es_session (fst (health_before e d es')) = es_session es'" for d es'
    by (auto simp: health_before_def split: option.splits intro!: on_ok_session)
  then show ?thesis
    by (auto simp: ecu_reset_def Let_def split: prod.splits sum.splits option.splits intro!: on_ok_session dest!: a)
qed

lemma state_session [simp]: "es_session (fst (get_activation_state e es)) = es_session es"
proof -
  have "es_session (fst (poll_health e es)) = es_session es"
    by (auto simp: poll_health_def split: option.splits prod.splits sum.splits dest!: in_world_eq)
  then show ?thesis by (auto simp: get_activation_state_def Let_def intro!: on_ok_session)
qed

lemma commit_session [simp]: "es_session (fst (commit_flash e es)) = es_session es"
  by (auto simp: commit_flash_def Let_def split: sum.splits option.splits intro!: on_ok_session)

lemma rollback_session [simp]: "es_session (fst (rollback_flash e es)) = es_session es"
proof -
  have a: "es_session es0 = es_session es'" if "admin_disabled e (clear_caches es') = (es0, d)" for es' es0 d
    using admin_session [of e "clear_caches es'"] that by simp
  show ?thesis
    by (auto simp: rollback_flash_def Let_def split: option.splits prod.splits intro!: on_ok_session dest!: a)
qed

lemma abort_session_session: "es_session (fst (abort_flash e es)) \<in> {es_session es, None}"
  by (auto simp: abort_flash_def abort_session_def clear_flash_session_def Let_def split: sum.splits option.splits)

lemma package_upload_session [simp]: "es_session (fst (receive_package e names data es)) = es_session es"
  by (auto simp: receive_package_def next_id_def split: sum.splits intro!: on_ok_session)

text \<open>What a client can ask of a component, in any order.\<close>

datatype flash_request =
    RqStart
  | RqPackage bytes
  | RqStream string "u64 option" upload
  | RqPart string string "u64 option" upload
  | RqDelete nat
  | RqNote string
  | RqFinalize
  | RqValidate
  | RqInvalidate
  | RqActivate
  | RqReset
  | RqState
  | RqCommit
  | RqRollback
  | RqAbort

record 'w flash_context =
  fx_process :: "'w envelope_stream"
  fx_component :: "validated_firmware \<Rightarrow> string"
  fx_download :: "nat \<Rightarrow> fetch"
  fx_addressable :: "string \<Rightarrow> bool"

fun flash_step :: "'w flash_engine \<Rightarrow> 'w flash_context \<Rightarrow> flash_request \<Rightarrow> 'w engine_state \<Rightarrow> 'w engine_state" where
  "flash_step e x RqStart es = fst (start_flash e es)"
| "flash_step e x (RqPackage data) es = fst (receive_package e (fx_component x) data es)"
| "flash_step e x (RqStream uuid len stream) es = fst (receive_package_stream e (fx_process x) uuid len stream es)"
| "flash_step e x (RqPart uuid pid len stream) es = fst (receive_package_part e (fx_process x) uuid pid len stream es)"
| "flash_step e x (RqDelete pid) es = fst (delete_package pid es)"
| "flash_step e x (RqNote uid) es = fst (note_update_id e uid es)"
| "flash_step e x RqFinalize es = fst (finalize_flash e (fx_download x) (fx_addressable x) es)"
| "flash_step e x RqValidate es = fst (validate es)"
| "flash_step e x RqInvalidate es = fst (invalidate es)"
| "flash_step e x RqActivate es = fst (activate_transfer e es)"
| "flash_step e x RqReset es = fst (ecu_reset e es)"
| "flash_step e x RqState es = fst (get_activation_state e es)"
| "flash_step e x RqCommit es = fst (commit_flash e es)"
| "flash_step e x RqRollback es = fst (rollback_flash e es)"
| "flash_step e x RqAbort es = fst (abort_flash e es)"

lemma wf_distinct: "wf_session e (Some (AwaitingPayload m v parts present)) \<Longrightarrow> distinct parts"
  by (auto simp: wf_session_def manifest_parts_distinct split: option.splits)

lemma part_wf:
  assumes "wf_session e (es_session es)"
  shows "wf_session e (es_session (fst (receive_package_part e process uuid pid len stream es)))"
proof (cases "\<exists>m v parts present. es_session es = Some (AwaitingPayload m v parts present)")
  case True
  then obtain m v parts present where s: "es_session es = Some (AwaitingPayload m v parts present)" by blast
  have "distinct parts" using assms wf_distinct s by simp
  then show ?thesis
    using receive_session [OF s, of e process uuid pid len stream] session_with_absent(3) [OF s] assms by metis
next
  case False
  then show ?thesis
    using assms manifest_wf [OF assms]
    by (auto simp: receive_package_part_def receive_package_stream_def split: option.splits flash_session.splits)
qed

lemma stream_is_part: "receive_package_stream e process uuid len stream es = receive_package_part e process uuid ''manifest'' len stream es"
  by (auto simp: receive_package_part_def split: option.splits flash_session.splits)

lemma step_wf:
  assumes "wf_session e (es_session es)"
  shows "wf_session e (es_session (flash_step e x r es))"
proof -
  have "wf_session e s" if "may_complete (es_session es) s" for s using that assms by (auto simp: may_complete_def)
  then show ?thesis
    using assms start_session [of e es] finalize_session [of es e] abort_session_session [of e es] part_wf [OF assms]
    by (cases r) (auto simp: stream_is_part validate_def invalidate_def activate_transfer_def delete_package_def)
qed

text \<open>C17: The type of a session. Whatever a client asks for, in whatever order and whatever fails: while a session
  waits for payloads its manifest decodes, the parts it counts are the parts of that manifest, each
  once, and one of them is still missing unless the manifest has none.\<close>

theorem session_well_formed:
  assumes "wf_session e (es_session es)"
  shows "wf_session e (es_session (fold (flash_step e x) rs es))"
  using assms
proof (induction rs arbitrary: es)
  case (Cons r rs)
  then show ?case by (simp add: step_wf)
qed simp

section \<open>Progress\<close>

text \<open>The uploads of a list that advance the session.\<close>

fun accepted :: "'w flash_engine \<Rightarrow> 'w flash_context \<Rightarrow> (string \<times> string \<times> u64 option \<times> upload) list \<Rightarrow> 'w engine_state \<Rightarrow> nat" where
  "accepted e x [] es = 0"
| "accepted e x ((uuid, pid, len, stream) # us) es =
     (let es' = flash_step e x (RqPart uuid pid len stream) es
      in (if es_session es' = es_session es then 0 else 1) + accepted e x us es')"

definition upload_parts :: "'w flash_engine \<Rightarrow> 'w flash_context \<Rightarrow> (string \<times> string \<times> u64 option \<times> upload) list \<Rightarrow> 'w engine_state \<Rightarrow> 'w engine_state" where
  "upload_parts e x us = fold (\<lambda>(uuid, pid, len, stream). flash_step e x (RqPart uuid pid len stream)) us"

definition progressing :: "flash_session option \<Rightarrow> bool" where
  "progressing s \<longleftrightarrow> s \<noteq> Some AwaitingManifest \<and> (s = Some SessionComplete \<or> missing s \<noteq> 0)"

lemma part_progress:
  assumes "wf_session e (es_session es)" "progressing (es_session es)"
  shows "let s = es_session es; s' = es_session (flash_step e x (RqPart uuid pid len stream) es)
    in (s' = s \<or> Suc (missing s') = missing s) \<and> progressing s'"
proof (cases "\<exists>m v parts present. es_session es = Some (AwaitingPayload m v parts present)")
  case True
  then obtain m v parts present where s: "es_session es = Some (AwaitingPayload m v parts present)" by blast
  have d: "distinct parts" using assms wf_distinct s by simp
  have "progressing (fst (session_with i (es_session es)))" for i
    by (simp add: s session_with_def progressing_def missing_def)
  then show ?thesis
    using receive_session [OF s, of e "fx_process x" uuid pid len stream] session_with_absent(1) [OF s _ d] assms(2)
    unfolding flash_step.simps Let_def by metis
next
  case False
  then have "es_session es = Some SessionComplete" using assms(2)
    by (auto simp: progressing_def missing_def split: option.splits flash_session.splits)
  then show ?thesis using assms(2) by (simp add: receive_package_part_def receive_package_stream_def)
qed

lemma uploads_count:
  assumes "wf_session e (es_session es)" "progressing (es_session es)"
  shows "accepted e x us es + missing (es_session (upload_parts e x us es)) = missing (es_session es)
    \<and> progressing (es_session (upload_parts e x us es))"
  using assms
proof (induction us arbitrary: es)
  case (Cons u us)
  obtain uuid pid len stream where u: "u = (uuid, pid, len, stream)" by (rule prod_cases4)
  let ?es = "flash_step e x (RqPart uuid pid len stream) es"
  have p: "es_session ?es = es_session es \<or> Suc (missing (es_session ?es)) = missing (es_session es)" "progressing (es_session ?es)"
    using part_progress [OF Cons.prems, of x uuid pid len stream] by (simp_all add: Let_def)
  have "accepted e x us ?es + missing (es_session (upload_parts e x us ?es)) = missing (es_session ?es)
      \<and> progressing (es_session (upload_parts e x us ?es))"
    using Cons.IH [OF step_wf [OF Cons.prems(1)] p(2)] .
  then show ?case using p(1) unfolding u by (auto simp: upload_parts_def Let_def simp del: flash_step.simps)
qed (simp add: upload_parts_def)


section \<open>On a node\<close>

definition package6 :: validated_firmware where
  "package6 = \<lparr>vd_type = Firmware, vd_meta = image6, vd_sha256 = None, vd_size = None, vd_raw_envelope = None, vd_disable_target = None\<rparr>"

definition node_context :: "(unit, nat) bp_world flash_context" where
  "node_context = \<lparr>fx_process = (\<lambda>_ _ _ _ w. (w, Err (BeInternal (DText ''cbor'')))), fx_component = (\<lambda>_. ''os''),
     fx_download = (\<lambda>_. FetchRefused ''offline''), fx_addressable = (\<lambda>_. False)\<rparr>"

theorem session_well_formed_witness:
  "wf_session (node_engine env1) (es_session (fold (flash_step (node_engine env1) node_context)
     [RqStart, RqPart ''u'' ''manifest'' None [Ok [5]], RqPart ''u'' ''firmware'' None [Ok [1, 2]], RqFinalize, RqAbort]
     (node_state blank1 None None Map.empty)))"
  by (rule session_well_formed) (simp add: node_state_def)


end
