(* ===== verification/FinalizeProps.thy ===== *)
theory FinalizeProps
  imports SessionProps
begin

text \<open>
  Finalize and verdict of a flash session: the bank that was sealed is the one the install makes
  active, at the generation its manifest was signed for, so the launch check accepts it; what is left
  when the activation fails; and a finalize whose install was refused.
\<close>

lemma current_package_world [simp]: "current_package (es\<lparr>es_world := w\<rparr>) = current_package es"
  by (auto simp: current_package_def split: option.splits)

section \<open>NV seen by the engine\<close>

text \<open>Writing the update session leaves the rest of the store.\<close>

lemma session_write_view:
  assumes "nv_ok nv" "wf_update_session u"
  obtains nv' where "snd (write_update_session crc nv u) = Ok nv'" "nv_ok nv'" "nv_slot_count nv' = nv_slot_count nv"
    "view_of crc nv' = view_of crc nv"
proof -
  have pos: "0 < UPDATE_SESSION_SECTORS" by (simp add: layout_consts)
  obtain nv' where w: "snd (write_update_session crc nv u) = Ok nv'"
    and fr: "only_region nv nv' UPDATE_SESSION_OFFSET UPDATE_SESSION_SECTORS"
    using update_session_rec.write_record_effect [OF assms(2) session_region_on [OF assms(1)] pos, of crc]
    by (fastforce simp: write_update_session_def store_write_def only_region_def)
  have apart: "UPDATE_SESSION_OFFSET + UPDATE_SESSION_SECTORS * SECTOR_SIZE \<le> fw_meta_offset s k"
    "UPDATE_SESSION_OFFSET + UPDATE_SESSION_SECTORS * SECTOR_SIZE \<le> runtime_offset s k" for s k
    using slot_above_header [of s k] by (simp_all add: layout_consts)
  have "read_boot_state crc nv' = read_boot_state crc nv"
    by (rule only_region_boot [OF fr]) (simp add: layout_consts)
  moreover have "read_fw_meta crc nv' = read_fw_meta crc nv"
    using only_region_read [OF fr, of _ _ crc fw_meta_ops] apart(1)
    by (intro ext) (simp add: read_fw_meta_def only_region_slot [OF fr])
  moreover have "read_runtime crc nv' = read_runtime crc nv"
    using only_region_read [OF fr, of _ _ crc runtime_ops] apart(2)
    by (intro ext) (simp add: read_runtime_def only_region_slot [OF fr])
  moreover have "read_factory crc nv' = read_factory crc nv"
    unfolding read_factory_def by (rule only_region_read [OF fr]) (simp add: layout_consts)
  ultimately have "view_of crc nv' = view_of crc nv" by (simp add: view_of_def)
  then show thesis
    using that w only_region_ok [OF fr assms(1)] fr by (simp add: only_region_def)
qed

text \<open>An engine over the provider of its component, wired as the code does.\<close>

definition ivd_engine :: "('s, 'c) bp_world flash_engine \<Rightarrow> ('s, 'c) bp_cfg \<Rightarrow> bool" where
  "ivd_engine e cfg \<longleftrightarrow> en_ops e = ivd_provider cfg \<and> en_crc e = bp_crc cfg \<and> en_bank_set e = bp_bank_set cfg
     \<and> en_single_bank e = bp_single_bank cfg \<and> en_images_dir e = bp_images_dir cfg \<and> (\<forall>x. length (en_sha e x) = 32)"

abbreviation nv_content :: "('s, 'c) bp_cfg \<Rightarrow> ('s, 'c) bp_world \<Rightarrow> nv_view" where
  "nv_content cfg w \<equiv> view_of (bp_crc cfg) (bw_nv w)"

abbreviation nv_fine :: "('s, 'c) bp_cfg \<Rightarrow> ('s, 'c) bp_world \<Rightarrow> bool" where
  "nv_fine cfg w \<equiv> nv_ok (bw_nv w) \<and> slot_in_range (bw_nv w) (bp_bank_set cfg)"

lemma ivd_engine_simps:
  assumes "ivd_engine e cfg"
  shows "en_ops e = ivd_provider cfg" "en_crc e = bp_crc cfg" "en_bank_set e = bp_bank_set cfg"
    "en_single_bank e = bp_single_bank cfg" "en_images_dir e = bp_images_dir cfg" "length (en_sha e x) = 32"
  using assms by (simp_all add: ivd_engine_def)

lemma bank_of_view:
  assumes "nv_fine cfg w" "nvw_bank (nv_content cfg w) (bp_bank_set cfg) = Some b"
  shows "nv_bank cfg (bw_nv w) = Some b" "ivd_engine e cfg \<Longrightarrow> set_state e w = Ok b"
proof -
  obtain st where st: "read_boot_state (bp_crc cfg) (bw_nv w) = Some st"
    using assms(2) by (auto simp: nvw_bank_def split: option.splits)
  note at = bank_at_read [OF _ _ st, of "bp_bank_set cfg"]
  show "nv_bank cfg (bw_nv w) = Some b" "ivd_engine e cfg \<Longrightarrow> set_state e w = Ok b"
    using at assms st by (auto simp: nv_bank_def set_state_def ivd_engine_def fails_as_def)
qed

lemma gen_of_view:
  assumes "ivd_engine e cfg" "nv_fine cfg w" "nvw_bank (nv_content cfg w) (bp_bank_set cfg) = Some b" "committed b"
  shows "install_gen_for e w = Ok (nvw_gen (nv_content cfg w) (bp_bank_set cfg) (active_bank b) + 1)"
  using bank_of_view(2) [OF assms(2,3,1)] assms(1,4) view_floor_gen(2) [of "bp_crc cfg" "bw_nv w" "bp_bank_set cfg"]
  by (simp add: install_gen_for_def fw_meta_of_def ivd_engine_def)

text \<open>Setting or clearing the reboot-owed mark succeeds and changes nothing else.\<close>

lemma reboot_owed_view:
  assumes e: "ivd_engine e cfg" and fine: "nv_fine cfg (es_world es)"
  obtains nv where "set_reboot_owed e owed es = (es\<lparr>es_world := (es_world es)\<lparr>bw_nv := nv\<rparr>\<rparr>, Ok ())"
    "nv_ok nv" "slot_in_range nv (bp_bank_set cfg)" "view_of (bp_crc cfg) nv = nv_content cfg (es_world es)"
proof -
  let ?nv = "bw_nv (es_world es)"
  let ?s1 = "set_owed (bp_bank_set cfg) owed (stored_session (bp_crc cfg) ?nv)"
  let ?s2 = "if owed then record_armed_boot_id (en_sha e) (current_node_boot_id e es) (fst ?s1) else (fst ?s1, False)"
  have wf1: "wf_update_session (fst ?s1)" by (intro set_owed_wf stored_session_wf)
  have wf: "wf_update_session (fst ?s2)"
    using wf1 ivd_engine_simps(6) [OF e]
    by (auto simp: record_armed_boot_id_def Let_def wf_update_session_def zero_id_def boot_id_digest_def split: option.splits)
  have eq: "set_reboot_owed e owed es = (if snd ?s1 \<or> snd ?s2
      then case snd (write_update_session (bp_crc cfg) ?nv (fst ?s2)) of
             Ok nv' \<Rightarrow> (es\<lparr>es_world := (es_world es)\<lparr>bw_nv := nv'\<rparr>\<rparr>, Ok ()) | Err x \<Rightarrow> (es, Err (BeInternal (DNv x)))
      else (es, Ok ()))"
    unfolding set_reboot_owed_def Let_def case_prod_beta ivd_engine_simps(1-5) [OF e] ivd_provider_sel stored_session_def by simp
  obtain nv' where w: "snd (write_update_session (bp_crc cfg) ?nv (fst ?s2)) = Ok nv'" "nv_ok nv'"
      "nv_slot_count nv' = nv_slot_count ?nv" "view_of (bp_crc cfg) nv' = view_of (bp_crc cfg) ?nv"
    using session_write_view [OF conjunct1 [OF fine] wf] .
  show thesis
  proof (cases "snd ?s1 \<or> snd ?s2")
    case True
    then show thesis using that [of nv'] eq w fine by (simp add: slot_in_range_def)
  next
    case False
    then show thesis using that [of ?nv] eq fine by simp
  qed
qed

section \<open>Activation\<close>

lemma activate_frame:
  "bw_nv (fst (bp_activate cfg k w)) = bw_nv w" "sd_dirs (bw_set (fst (bp_activate cfg k w))) = sd_dirs (bw_set w)"
proof -
  have s: "bw_nv (fst (store_staging_record cfg k None w1)) = bw_nv w1
      \<and> sd_dirs (bw_set (fst (store_staging_record cfg k None w1))) = sd_dirs (bw_set w1)" for w1
    using keeps_store_staging [of _ w1 cfg k None] by (auto simp: keeps_def fun_eq_iff)
  have v: "bw_nv (fst (write_vector cfg ops k w)) = bw_nv w \<and> bw_set (fst (write_vector cfg ops k w)) = bw_set w" for ops
    by (auto simp: write_vector_def fail_as_def on_selector_def split: prod.splits sum.splits)
  have "bw_nv (fst (bp_activate cfg k w)) = bw_nv w \<and> sd_dirs (bw_set (fst (bp_activate cfg k w))) = sd_dirs (bw_set w)"
  proof (cases "bp_selector cfg")
    case None
    then show ?thesis using s by (auto simp: bp_activate_def on_ok_def split: sum.splits option.splits prod.splits)
  next
    case (Some ops)
    obtain w1 r where w1: "write_vector cfg ops k w = (w1, r)" by (rule prod.exhaust)
    then show ?thesis using s [of w1] v [of ops] Some
      by (auto simp: bp_activate_def on_ok_def split: sum.splits option.splits prod.splits)
  qed
  then show "bw_nv (fst (bp_activate cfg k w)) = bw_nv w"
    "sd_dirs (bw_set (fst (bp_activate cfg k w))) = sd_dirs (bw_set w)" by simp_all
qed

section \<open>A sealed bank\<close>

lemma seed_parts_present:
  "(\<And>n. n \<in> set ns \<Longrightarrow> is_ok (part_node (bf_dir b) n)) \<Longrightarrow> seed_parts src ns copied b = (b, Ok copied)"
  by (induction ns arbitrary: copied) (simp_all add: seed_part_def)

text \<open>When every declared part is in the bank, the seed before a seal changes nothing.\<close>

lemma seed_nothing:
  assumes "nv_bank cfg (bw_nv w) = Some b" "active_bank b \<noteq> k" "sd_dirs (bw_set w) k = Some es"
    and "\<And>n. n \<in> set ns \<Longrightarrow> is_ok (part_node (Some es) n)"
  shows "seed_target_from_active cfg k ns w = (w, Ok ())"
proof -
  have "seed_parts src ns [] \<lparr>bf_dir = Some es, bf_faults = fs\<rparr> = (\<lparr>bf_dir = Some es, bf_faults = fs\<rparr>, Ok [])" for src fs
    by (rule seed_parts_present) (simp add: assms(4))
  then have "\<exists>o'. seed_missing_files src ns \<lparr>bf_dir = Some es, bf_faults = fs\<rparr> = (\<lparr>bf_dir = Some es, bf_faults = fs\<rparr>, Ok o')" for src fs
    by (simp add: seed_missing_files_def)
  then obtain o' where "seed_missing_files (sd_dirs (bw_set w) (active_bank b)) ns \<lparr>bf_dir = Some es, bf_faults = sd_faults (bw_set w)\<rparr>
      = (\<lparr>bf_dir = Some es, bf_faults = sd_faults (bw_set w)\<rparr>, Ok o')" by blast
  moreover have "(sd_dirs (bw_set w))(k := Some es) = sd_dirs (bw_set w)" using assms(3) by auto
  ultimately show ?thesis
    using assms(1-3) by (simp add: seed_target_from_active_def on_set_def at_bank_def fail_as_def on_ok_def)
qed

text \<open>What the seal of a provisioned node needs: payload in readable files, and an HSM that answers.\<close>

definition sealable :: "('s, 'c) bp_cfg \<Rightarrow> 'c crypto_ops \<Rightarrow> bank \<Rightarrow> string list \<Rightarrow> ('s, 'c) bp_world \<Rightarrow> bool" where
  "sealable cfg cr k parts w \<longleftrightarrow> bp_images_dir cfg \<and> bp_hsm_crypto cfg = Some cr
     \<and> (\<exists>probe c. bp_hsm cfg = Some probe \<and> probe (bw_hsm w) = (c, Ok True))
     \<and> (\<exists>es. sd_dirs (bw_set w) k = Some es \<and> readable_bank es \<and> \<not> bank_dir_is_payload_empty cfg es
          \<and> (\<forall>n \<in> set parts. is_ok (part_node (Some es) n))
          \<and> (\<forall>n \<in> {IVD_MANIFEST_TMP, IVD_SIGNATURE_TMP}. map_of es n \<notin> insert (Some Special) (range (Some \<circ> Link))))"

lemma seal_verifies:
  assumes ok: "ivd_crypto_ok (bp_ivd cfg) cr" "\<And>x. ie_sha (bp_ivd cfg) x \<noteq> replicate 32 0"
    and s: "sealable cfg cr k parts w" and b: "nv_bank cfg (bw_nv w) = Some b" "active_bank b \<noteq> k"
    and seal: "bp_seal cfg k ident g parts w = (w', Ok ())" and fl: "fl \<le> g"
  shows "\<exists>m. mf_gen m = g \<and> snd (verify_bank_crypto (bp_ivd cfg) cr
      \<lparr>vp_expected_install_gen = Some g, vp_min_committed_gen = Some fl\<rparr> (sd_dirs (bw_set w') k) c'') = Ok m"
proof -
  obtain probe c es where p: "bp_images_dir cfg" "bp_hsm_crypto cfg = Some cr" "bp_hsm cfg = Some probe"
      "probe (bw_hsm w) = (c, Ok True)" "sd_dirs (bw_set w) k = Some es" "readable_bank es" "\<not> bank_dir_is_payload_empty cfg es"
      "\<forall>n \<in> set parts. is_ok (part_node (Some es) n)"
      "\<forall>n \<in> {IVD_MANIFEST_TMP, IVD_SIGNATURE_TMP}. map_of es n \<notin> insert (Some Special) (range (Some \<circ> Link))"
    using s by (auto simp: sealable_def)
  let ?w = "w\<lparr>bw_hsm := c\<rparr>"
  let ?b = "\<lparr>bf_dir = Some es, bf_faults = sd_faults (bw_set w)\<rparr>"
  have st: "sign_target cfg k ident g ?w = (w', Ok ())"
    using seal seed_nothing [OF b p(5), of parts] p by (simp add: bp_seal_def on_ok_def target_bank_dir_def)
  obtain c' b' r where sg: "sign_bank_crypto_at (bp_ivd cfg) cr g (firmware_to_ivd_identity ident) (bp_node_boot_id cfg)
      (staged_update_id cfg ?w k) (c, ?b) = ((c', b'), r)" by (metis prod.exhaust)
  obtain m where m: "r = Ok m"
    using st sg p(2,5) by (cases r) (auto simp: sign_target_def on_bank_signed_def fail_as_def on_ok_def)
  have "plain ?b IVD_MANIFEST_TMP" "plain ?b IVD_SIGNATURE_TMP" using p(9) by (simp_all add: plain_def look_def)
  then have v: "mf_gen m = g \<and> snd (verify_bank_crypto (bp_ivd cfg) cr
      \<lparr>vp_expected_install_gen = Some g, vp_min_committed_gen = Some fl\<rparr> (bf_dir b') c'') = Ok m"
    using signed_bank_verifies [OF ok(1) _ p(6) _ _ ok(2) sg [unfolded m] fl, of c''] by simp
  have "keeps k w1 w'" if "w1 = ?w\<lparr>bw_hsm := c', bw_set := (bw_set w)\<lparr>sd_dirs := (sd_dirs (bw_set w))(k := bf_dir b'), sd_faults := bf_faults b'\<rparr>\<rparr>" for w1
    using st sg m p(2,5) that by (auto simp: sign_target_def on_bank_signed_def fail_as_def on_ok_def)
  then have "sd_dirs (bw_set w') k = bf_dir b'" by (simp add: keeps_def)
  then show ?thesis using v by auto
qed

section \<open>Finalize\<close>

lemma complete_nothing: "es_session es = Some SessionComplete \<Longrightarrow> complete_bank e dl ad es = (es, Ok ())"
  by (simp add: complete_bank_def)

lemma installed:
  assumes e: "ivd_engine e cfg" and v: "Ota.slot_ok (bw_nv (es_world es)) (bp_bank_set cfg)" "\<not> bp_single_bank cfg"
      "nvw_bank (nv_content cfg (es_world es)) (bp_bank_set cfg) = Some b" "committed b"
      "nvw_floor (nv_content cfg (es_world es)) (bp_bank_set cfg) (active_bank b) \<le> im_fw_secver (vd_meta v)"
      "\<And>h. vd_sha256 v = Some h \<Longrightarrow> length h = 32"
  obtains nv h c where "install_package e v es = es\<lparr>es_world := (es_world es)\<lparr>bw_nv := nv\<rparr>, es_admin_cache := cache_clear (es_admin_cache es)\<rparr>"
    "nv_ok nv" "slot_in_range nv (bp_bank_set cfg)"
    "view_of (bp_crc cfg) nv = nvw_install (bp_bank_set cfg) h c (vd_meta v) b (nv_content cfg (es_world es))"
proof -
  let ?nv = "bw_nv (es_world es)" and ?h = "case vd_sha256 v of None \<Rightarrow> replicate 32 0 | Some h \<Rightarrow> h"
  let ?sz = "case vd_size v of None \<Rightarrow> 0 | Some n \<Rightarrow> n"
  obtain nv r where i: "install_precomputed (bp_crc cfg) ?nv (bp_bank_set cfg) ?h ?sz (vd_meta v) False = (nv, r)" by (rule prod.exhaust)
  have "install_spec (bp_crc cfg) ?nv (bp_bank_set cfg) ?h (bp_crc cfg (le_bytes ?sz)) (vd_meta v) False nv r"
    using i v(6) by (intro install_checked_spec [OF v(1)]) (auto simp: install_precomputed_def split: option.splits)
  then have "nv_ok nv" "nv_slot_count nv = nv_slot_count ?nv" "view_of (bp_crc cfg) nv =
      nvw_install (bp_bank_set cfg) ?h (bp_crc cfg (le_bytes ?sz)) (vd_meta v) b (nv_content cfg (es_world es))"
    using v(3,4) leD [OF v(5)] by (simp_all add: install_spec_def Let_def)
  then show thesis
    using that [of nv] i v(2) Ota.slot_okD(2) [OF v(1)]
    by (simp add: install_package_def nv_write_def ivd_engine_simps [OF e] slot_in_range_def)
qed

text \<open>An activation that succeeds leaves NV and the banks; the boot vector and the staging record are its own.\<close>

lemma activated:
  assumes e: "ivd_engine e cfg" and act: "activate_installed e es = (es', Ok ())"
  shows "bw_nv (es_world es') = bw_nv (es_world es)" "sd_dirs (bw_set (es_world es')) = sd_dirs (bw_set (es_world es))"
    "es_transfer es' = es_transfer es" "es_session es' = es_session es"
proof -
  obtain b where b: "set_state e (es_world es) = Ok b" using act by (auto simp: activate_installed_def split: sum.splits)
  obtain w r where w: "bp_activate cfg (active_bank b) (es_world es) = (w, r)" by (rule prod.exhaust)
  have "es' = es\<lparr>es_world := w\<rparr>"
    using act by (simp add: activate_installed_def b in_world_def ivd_engine_simps [OF e] w split: sum.splits)
  then show "bw_nv (es_world es') = bw_nv (es_world es)" "sd_dirs (bw_set (es_world es')) = sd_dirs (bw_set (es_world es))"
    "es_transfer es' = es_transfer es" "es_session es' = es_session es"
    using activate_frame [of cfg "active_bank b" "es_world es"] by (simp_all add: w)
qed

lemma finalize_parts:
  assumes "es_session es = Some SessionComplete" "current_package es = Some v" "vd_type v = Firmware"
    and fin: "finalize_flash e dl ad es = (es', Ok ())"
  obtains es3 where "activate_installed e (install_package e v es) = (es3, Ok ())"
    "fst (on_ok (if bo_reset_kind (en_ops e) = RequiresEcuReset
        then set_reboot_owed e True (on_transfer (\<lambda>t. t\<lparr>ft_state := (if en_single_bank e then Activated else AwaitingReboot)\<rparr>) es3)
        else (on_transfer (\<lambda>t. t\<lparr>ft_state := (if en_single_bank e then Activated else AwaitingReboot)\<rparr>) es3, Ok ()))
      (\<lambda>es5 _. (es5\<lparr>es_install_source := False\<rparr>, Ok ()))) = es'"
proof -
  obtain es3 r where a: "activate_installed e (install_package e v es) = (es3, r)" by (rule prod.exhaust)
  have "r = Ok ()"
    using fin a by (cases r) (simp_all add: finalize_flash_def session_disables_def assms(1-3) complete_nothing process_package_def on_ok_def)
  moreover have "fst (finalize_flash e dl ad es) = es'" using fin by simp
  ultimately show thesis
    using that a by (simp add: finalize_flash_def session_disables_def assms(1-3) complete_nothing process_package_def on_ok_def Let_def)
qed

lemma finalize_installs:
  assumes e: "ivd_engine e cfg" and v: "Ota.slot_ok (bw_nv (es_world es)) (bp_bank_set cfg)" "\<not> bp_single_bank cfg"
      "nvw_bank (nv_content cfg (es_world es)) (bp_bank_set cfg) = Some b" "committed b"
      "nvw_floor (nv_content cfg (es_world es)) (bp_bank_set cfg) (active_bank b) \<le> im_fw_secver (vd_meta v)"
      "\<And>h. vd_sha256 v = Some h \<Longrightarrow> length h = 32"
    and s: "es_session es = Some SessionComplete" "current_package es = Some v" "vd_type v = Firmware"
    and fin: "finalize_flash e dl ad es = (es', Ok ())"
  obtains h c where
    "nv_content cfg (es_world es') = nvw_install (bp_bank_set cfg) h c (vd_meta v) b (nv_content cfg (es_world es))"
    "sd_dirs (bw_set (es_world es')) = sd_dirs (bw_set (es_world es))"
proof -
  obtain nv h c where i: "install_package e v es = es\<lparr>es_world := (es_world es)\<lparr>bw_nv := nv\<rparr>, es_admin_cache := cache_clear (es_admin_cache es)\<rparr>"
      "nv_ok nv" "slot_in_range nv (bp_bank_set cfg)"
      "view_of (bp_crc cfg) nv = nvw_install (bp_bank_set cfg) h c (vd_meta v) b (nv_content cfg (es_world es))"
    using installed [OF e v] .
  obtain es3 where a: "activate_installed e (install_package e v es) = (es3, Ok ())"
    and f: "fst (on_ok (if bo_reset_kind (en_ops e) = RequiresEcuReset
        then set_reboot_owed e True (on_transfer (\<lambda>t. t\<lparr>ft_state := (if en_single_bank e then Activated else AwaitingReboot)\<rparr>) es3)
        else (on_transfer (\<lambda>t. t\<lparr>ft_state := (if en_single_bank e then Activated else AwaitingReboot)\<rparr>) es3, Ok ()))
      (\<lambda>es5 _. (es5\<lparr>es_install_source := False\<rparr>, Ok ()))) = es'"
    using finalize_parts [OF s fin] .
  let ?es4 = "on_transfer (\<lambda>t. t\<lparr>ft_state := (if en_single_bank e then Activated else AwaitingReboot)\<rparr>) es3"
  have w3: "bw_nv (es_world ?es4) = nv" "sd_dirs (bw_set (es_world ?es4)) = sd_dirs (bw_set (es_world es))"
    using activated [OF e a] by (simp_all add: i(1) on_transfer_def)
  obtain nv' where o': "set_reboot_owed e True ?es4 = (?es4\<lparr>es_world := (es_world ?es4)\<lparr>bw_nv := nv'\<rparr>\<rparr>, Ok ())"
      "view_of (bp_crc cfg) nv' = nv_content cfg (es_world ?es4)"
    using reboot_owed_view [OF e, of ?es4 True] w3(1) i(2,3) by auto
  have "nv_content cfg (es_world es') = view_of (bp_crc cfg) nv \<and> sd_dirs (bw_set (es_world es')) = sd_dirs (bw_set (es_world es))"
    using o'(2) w3 unfolding f [symmetric] o'(1) by (auto simp: on_ok_def)
  then show thesis using that i(4) by simp
qed

lemma install_sel:
  "nvw_gen (nvw_install s h fc m b v) s (other (active_bank b)) = nvw_gen v s (active_bank b) + 1"
  "nvw_gen (nvw_install s h fc m b v) s (active_bank b) = nvw_gen v s (active_bank b)"
  "nvw_bank v s \<noteq> None \<Longrightarrow> nvw_bank (nvw_install s h fc m b v) s = Some (b\<lparr>active_bank := other (active_bank b), committed := False, boot_count := 0\<rparr>)"
  by (auto simp: nvw_install_def nvw_gen_def nvw_set_bank_def put_meta_def put_run_def nvw_bank_def split: option.splits if_splits)

text \<open>C12: A bank that was sealed and finalized is the one NV makes active, uncommitted, and the launch check
  accepts it: its manifest names the generation NV now has for it, which is above that of the
  committed bank. The generation counter of the committed bank must not be exhausted.\<close>

theorem flashed_bank_launches:
  fixes cfg :: "('s, 'c) bp_cfg"
  assumes e: "ivd_engine e cfg" and dual: "\<not> bp_single_bank cfg"
    and nv: "Ota.slot_ok (bw_nv (es_world es)) (bp_bank_set cfg)"
      "nvw_bank (nv_content cfg (es_world es)) (bp_bank_set cfg) = Some b" "committed b"
    and gen: "nvw_gen (nv_content cfg (es_world es)) (bp_bank_set cfg) (active_bank b) \<noteq> -1"
    and pkg: "es_session es = Some SessionComplete" "current_package es = Some v" "vd_type v = Firmware"
      "nvw_floor (nv_content cfg (es_world es)) (bp_bank_set cfg) (active_bank b) \<le> im_fw_secver (vd_meta v)"
      "\<And>h. vd_sha256 v = Some h \<Longrightarrow> length h = 32"
    and seal: "sealable cfg cr (other (active_bank b)) (declared_bank_parts es) (es_world es)"
      "ivd_sign_staged_bank e (other (active_bank b)) es = (es1, Ok ())"
    and fin: "finalize_flash e dl ad es1 = (es2, Ok ())"
    and cr: "ivd_crypto_ok (bp_ivd cfg) cr" "\<And>x. ie_sha (bp_ivd cfg) x \<noteq> replicate 32 0"
  shows "let v0 = nv_content cfg (es_world es); v2 = nv_content cfg (es_world es2); s = bp_bank_set cfg; k = other (active_bank b)
    in nvw_bank v2 s = Some (b\<lparr>active_bank := k, committed := False, boot_count := 0\<rparr>)
       \<and> (\<exists>m. mf_gen m = nvw_gen v2 s k \<and> snd (verify_bank_crypto (bp_ivd cfg) cr
            \<lparr>vp_expected_install_gen = Some (nvw_gen v2 s k), vp_min_committed_gen = Some (nvw_gen v2 s (active_bank b))\<rparr>
            (sd_dirs (bw_set (es_world es2)) k) c) = Ok m)"
proof -
  let ?s = "bp_bank_set cfg" and ?k = "other (active_bank b)" and ?v0 = "nv_content cfg (es_world es)"
  let ?g = "nvw_gen ?v0 ?s (active_bank b) + 1"
  have fine: "nv_fine cfg (es_world es)" using nv(1) Ota.slot_okD(1,2) by blast
  obtain w1 where w1: "bp_seal cfg ?k (current_install_identity es) ?g (declared_bank_parts es) (es_world es) = (w1, Ok ())"
      "es1 = es\<lparr>es_world := w1\<rparr>"
    using seal(2) by (auto simp: ivd_sign_staged_bank_def gen_of_view [OF e fine nv(2,3)] err_as_def in_world_def
        ivd_engine_simps [OF e] split: prod.splits sum.splits)
  have fl: "nvw_gen ?v0 ?s (active_bank b) \<le> ?g"
    using gen unatSuc [of "nvw_gen ?v0 ?s (active_bank b)"] by (simp add: word_le_nat_alt add.commute eq_neg_iff_add_eq_0)
  obtain m where m: "mf_gen m = ?g" "snd (verify_bank_crypto (bp_ivd cfg) cr
      \<lparr>vp_expected_install_gen = Some ?g, vp_min_committed_gen = Some (nvw_gen ?v0 ?s (active_bank b))\<rparr> (sd_dirs (bw_set w1) ?k) c) = Ok m"
    using seal_verifies [OF cr seal(1) bank_of_view(1) [OF fine nv(2)] _ w1(1) fl, of c] other_bank_neq [of "active_bank b"] by metis
  have "keeps (active_bank b) (es_world es) w1"
    using keeps_seal other_bank_neq w1(1) by (metis fst_conv)
  then have nv1: "bw_nv (es_world es1) = bw_nv (es_world es)" by (simp add: keeps_def w1(2))
  have s1: "es_session es1 = Some SessionComplete" "current_package es1 = Some v"
    by (simp_all add: pkg(1,2) w1(2))
  obtain h fc where f: "nv_content cfg (es_world es2) = nvw_install ?s h fc (vd_meta v) b ?v0"
      "sd_dirs (bw_set (es_world es2)) = sd_dirs (bw_set w1)"
    using finalize_installs [OF e _ dual _ nv(3) _ pkg(5) s1 pkg(3) fin, unfolded nv1, OF nv(1,2) pkg(4)] by (auto simp: w1(2))
  have "nvw_gen (nv_content cfg (es_world es2)) ?s ?k = ?g"
      "nvw_gen (nv_content cfg (es_world es2)) ?s (active_bank b) = nvw_gen ?v0 ?s (active_bank b)"
    by (simp_all add: f(1) install_sel)
  then show ?thesis using m f(2) nv(2) by (simp add: Let_def f(1) install_sel(3))
qed

text \<open>The node of \<open>FlashProps\<close> with an encoding for the manifest of one generation.\<close>

definition manifest_of :: "u64 \<Rightarrow> ivd_manifest" where
  "manifest_of g = signed_manifest env1 files1 g (firmware_to_ivd_identity (to_firmware_identity image6)) None None"

definition env_of :: "u64 \<Rightarrow> ivd_env" where
  "env_of g = env1\<lparr>ie_encode := \<lambda>m. if m = manifest_of g then Ok [42] else Err ''unsupported'',
     ie_decode := \<lambda>b. if b = [42] then Ok (manifest_of g) else Err ''unsupported''\<rparr>"

definition ready_state :: "nv_store \<Rightarrow> (unit, nat) bp_world engine_state" where
  "ready_state nv = node_state nv (Some SessionComplete)
     (Some \<lparr>ft_transfer_id = 1, ft_package_id = Some 0, ft_state = AwaitingActivation, ft_pre_reset_health = None, ft_image_size = 3,
        ft_streamed_files = files1\<rparr>) [0 \<mapsto> package6]"

lemma env_of_ok: "ivd_crypto_ok (env_of g) cr1" "ie_sha (env_of g) x \<noteq> replicate 32 0"
  by (auto simp: ivd_crypto_ok_def env_of_def env1_def cr1_def Cons_replicate_eq split: if_splits)

lemma env_of_encodes:
  assumes "collect_files (env_of g) True True [] bank1 = Ok fs"
  shows "\<exists>bs. ie_encode (env_of g) (signed_manifest (env_of g) fs g (firmware_to_ivd_identity (to_firmware_identity image6)) None None) = Ok bs"
proof -
  have "collect_files (env_of g) True True [] bank1 = Ok files1" by code_simp
  then show ?thesis
    using assms by (simp add: env_of_def manifest_of_def signed_manifest_def build_manifest_from_files_def)
qed

lemma ready_sealable: "sealable (node_cfg env) cr1 k (declared_bank_parts (ready_state nv)) (es_world (ready_state nv))"
proof -
  have "is_ok (part_node (Some bank1) ''rootfs.img'')" "is_ok (part_node (Some bank1) ''conf/vm.yaml'')"
    "map_of bank1 IVD_MANIFEST_TMP = None" "map_of bank1 IVD_SIGNATURE_TMP = None"
    "\<not> bank_dir_is_payload_empty (node_cfg env) bank1"
    by code_simp+
  then show ?thesis
    using readable_bank1 by (auto simp: sealable_def ready_state_def node_state_def node_world_def node_cfg_def declared_bank_parts_def files1_def)
qed

lemma ready_engine: "ivd_engine (node_engine env) (node_cfg env)"
  by (simp add: ivd_engine_def node_engine_def node_cfg_def)

lemma ready_world: "bw_nv (es_world (ready_state nv)) = nv"
  by (simp add: ready_state_def node_state_def node_world_def)

lemma ready_package: "es_session (ready_state nv) = Some SessionComplete" "current_package (ready_state nv) = Some package6"
  by (simp_all add: ready_state_def node_state_def current_package_def)

lemma ready_seals:
  assumes "Ota.slot_ok nv 0" "nvw_bank (view_of (\<lambda>_. 0) nv) 0 = Some bank_boot_state_default"
    and g: "g = nvw_gen (view_of (\<lambda>_. 0) nv) 0 A + 1"
  shows "\<exists>w. ivd_sign_staged_bank (node_engine (env_of g)) B (ready_state nv) = ((ready_state nv)\<lparr>es_world := w\<rparr>, Ok ())"
proof -
  let ?cfg = "node_cfg (env_of g)" and ?es = "ready_state nv"
  have c: "bp_bank_set ?cfg = 0" "bp_crc ?cfg = (\<lambda>_. 0)" "bp_images_dir ?cfg" "bp_hsm ?cfg = Some (\<lambda>c. (c, Ok True))"
    "bp_hsm_crypto ?cfg = Some cr1" "bp_ivd ?cfg = env_of g" "bp_node_boot_id ?cfg = None" "bp_decode_record ?cfg = (\<lambda>_. None)"
    by (simp_all add: node_cfg_def)
  have fine: "nv_fine ?cfg (es_world ?es)" using Ota.slot_okD(1,2) [OF assms(1)] by (simp add: ready_world c)
  have bk: "nvw_bank (nv_content ?cfg (es_world ?es)) (bp_bank_set ?cfg) = Some bank_boot_state_default"
    using assms(2) by (simp add: ready_world c)
  have d: "committed bank_boot_state_default" "active_bank bank_boot_state_default = A" by (simp_all add: bank_boot_state_default_def)
  have gn: "install_gen_for (node_engine (env_of g)) (es_world ?es) = Ok g"
    using gen_of_view [OF ready_engine fine bk d(1)] by (simp only: d ready_world c g [symmetric])
  have w: "bw_set (es_world ?es) = \<lparr>sd_top = Some [], sd_dirs = (\<lambda>k. Some bank1), sd_staging = (\<lambda>_. None), sd_faults = []\<rparr>"
      "bw_hsm (es_world ?es) = 0"
    by (simp_all add: ready_state_def node_state_def node_world_def)
  have oc: "owned_clear \<lparr>bf_dir = Some bank1, bf_faults = []\<rparr>"
    by (auto simp: owned_clear_def look_def bank1_def ivd_owned_def ivd_names)
  obtain c' b' m where sg: "sign_bank_crypto_at (env_of g) cr1 g (firmware_to_ivd_identity (to_firmware_identity image6)) None None
      (0, \<lparr>bf_dir = Some bank1, bf_faults = []\<rparr>) = ((c', b'), Ok m)"
    using sign_works [OF oc _ readable_bank1 env_of_encodes, of g cr1 0] by (auto simp: cr1_def)
  have st: "read_staging_record ?cfg w1 B = None" for w1
    by (auto simp: read_staging_record_def c split: sum.splits)
  have "is_ok (snd (sign_target ?cfg B (to_firmware_identity image6) g ((es_world ?es)\<lparr>bw_hsm := 0\<rparr>)))"
    using sg by (simp add: sign_target_def c on_bank_signed_def w fail_as_def on_ok_def staged_update_id_def st)
  moreover have "seed_target_from_active ?cfg B (declared_bank_parts ?es) (es_world ?es) = (es_world ?es, Ok ())"
    using ready_sealable [of "env_of g" B nv] by (intro seed_nothing [OF bank_of_view(1) [OF fine bk]]) (auto simp: d sealable_def w)
  moreover have "\<not> bank_dir_is_payload_empty ?cfg bank1" "current_install_identity ?es = to_firmware_identity image6"
    using ready_sealable [of "env_of g" B nv]
    by (simp_all add: sealable_def w current_install_identity_def ready_package package6_def)
  ultimately have "is_ok (snd (bp_seal ?cfg B (current_install_identity ?es) g (declared_bank_parts ?es) (es_world ?es)))"
    by (simp add: bp_seal_def on_ok_def target_bank_dir_def c w)
  then show ?thesis
    by (auto simp: ivd_sign_staged_bank_def gn err_as_def in_world_def ivd_engine_simps [OF ready_engine] split: prod.splits sum.splits)
qed

text \<open>Without a boot vector and an activator a finalize cannot fail.\<close>

lemma finalize_succeeds:
  assumes e: "ivd_engine e cfg" and v: "Ota.slot_ok (bw_nv (es_world es)) (bp_bank_set cfg)" "\<not> bp_single_bank cfg"
      "nvw_bank (nv_content cfg (es_world es)) (bp_bank_set cfg) = Some b" "committed b"
      "nvw_floor (nv_content cfg (es_world es)) (bp_bank_set cfg) (active_bank b) \<le> im_fw_secver (vd_meta v)"
      "\<And>h. vd_sha256 v = Some h \<Longrightarrow> length h = 32"
    and s: "es_session es = Some SessionComplete" "current_package es = Some v" "vd_type v = Firmware"
    and none: "bp_selector cfg = None" "bp_activator cfg = None"
  shows "\<exists>es'. finalize_flash e dl ad es = (es', Ok ())"
proof -
  obtain nv h c where i: "install_package e v es = es\<lparr>es_world := (es_world es)\<lparr>bw_nv := nv\<rparr>, es_admin_cache := cache_clear (es_admin_cache es)\<rparr>"
      "nv_ok nv" "slot_in_range nv (bp_bank_set cfg)"
      "view_of (bp_crc cfg) nv = nvw_install (bp_bank_set cfg) h c (vd_meta v) b (nv_content cfg (es_world es))"
    using installed [OF e v] .
  have "set_state e (es_world (install_package e v es)) = Ok (b\<lparr>active_bank := other (active_bank b), committed := False, boot_count := 0\<rparr>)"
    using v(3) i(2-4) by (intro bank_of_view(2) [OF _ _ e]) (simp_all add: i(1) install_sel(3))
  then show ?thesis
    by (simp add: finalize_flash_def session_disables_def s complete_nothing process_package_def on_ok_def activate_installed_def
        ivd_engine_simps [OF e] in_world_def bp_activate_def none bp_reset_kind_def Let_def)
qed

theorem flashed_bank_launches_witness:
  "\<exists>nv env es1 es2 m. ivd_sign_staged_bank (node_engine env) B (ready_state nv) = (es1, Ok ())
     \<and> finalize_flash (node_engine env) (\<lambda>_. FetchRefused []) (\<lambda>_. False) es1 = (es2, Ok ())
     \<and> snd (verify_bank_crypto env cr1
            \<lparr>vp_expected_install_gen = Some (nvw_gen (view_of (\<lambda>_. 0) (bw_nv (es_world es2))) 0 B),
             vp_min_committed_gen = Some (nvw_gen (view_of (\<lambda>_. 0) (bw_nv (es_world es2))) 0 A)\<rparr>
            (sd_dirs (bw_set (es_world es2)) B) 0) = Ok m"
proof -
  obtain nv where nv: "Ota.slot_ok nv 0" "nvw_bank (view_of (\<lambda>_. 0) nv) 0 = Some bank_boot_state_default"
      "nvw_floor (view_of (\<lambda>_. 0) nv) 0 A = 5" "nvw_gen (view_of (\<lambda>_. 0) nv) 0 A = 0"
    by (rule floor5_store)
  let ?e = "node_engine (env_of 1)" and ?cfg = "node_cfg (env_of 1)" and ?es = "ready_state nv"
  have d: "committed bank_boot_state_default" "active_bank bank_boot_state_default = A" "other A = B"
    by (simp_all add: bank_boot_state_default_def other_def)
  have c: "bp_bank_set ?cfg = 0" "bp_crc ?cfg = (\<lambda>_. 0)" "\<not> bp_single_bank ?cfg" "bp_selector ?cfg = None" "bp_activator ?cfg = None"
      "bp_ivd ?cfg = env_of 1"
    by (simp_all add: node_cfg_def)
  have p: "vd_type package6 = Firmware" "nvw_floor (view_of (\<lambda>_. 0) nv) 0 A \<le> im_fw_secver (vd_meta package6)"
      "vd_sha256 package6 = Some h \<Longrightarrow> length h = 32" for h
    using nv(3) by (simp_all add: package6_def image6_def)
  obtain w where w: "ivd_sign_staged_bank ?e B ?es = (?es\<lparr>es_world := w\<rparr>, Ok ())"
    using ready_seals [OF nv(1,2)] nv(4) by auto
  have "session_keeps ?cfg (es_world ?es) w"
    using ivd.world_sign [of ?e ?cfg B ?es] w bank_of_view(1) [where cfg = ?cfg and w = "es_world ?es"] nv(2) Ota.slot_okD(1,2) [OF nv(1)]
    by (simp add: ivd_engine_simps [OF ready_engine] target_bank_def fallback_target_active_def c ready_world d)
  then have n1: "bw_nv (es_world (?es\<lparr>es_world := w\<rparr>)) = nv" by (simp add: session_keeps_def keeps_def c ready_world)
  have s1: "es_session (?es\<lparr>es_world := w\<rparr>) = Some SessionComplete" "current_package (?es\<lparr>es_world := w\<rparr>) = Some package6"
    by (simp_all add: ready_package)
  obtain es2 where f: "finalize_flash ?e (\<lambda>_. FetchRefused []) (\<lambda>_. False) (?es\<lparr>es_world := w\<rparr>) = (es2, Ok ())"
    using finalize_succeeds [OF ready_engine _ c(3) _ d(1) _ p(3) s1 p(1) c(4,5), unfolded c(1,2) n1, OF nv(1,2)] p(2) d(2) by auto
  obtain m where "snd (verify_bank_crypto (env_of 1) cr1
            \<lparr>vp_expected_install_gen = Some (nvw_gen (view_of (\<lambda>_. 0) (bw_nv (es_world es2))) 0 B),
             vp_min_committed_gen = Some (nvw_gen (view_of (\<lambda>_. 0) (bw_nv (es_world es2))) 0 A)\<rparr>
            (sd_dirs (bw_set (es_world es2)) B) 0) = Ok m"
    using flashed_bank_launches [OF ready_engine c(3) _ _ d(1) _ ready_package p(1) _ p(3) ready_sealable _ f, unfolded c ready_world d,
        OF nv(1,2) _ p(2) _ w env_of_ok, of 0] nv(4)
    by (auto simp: Let_def)
  then show ?thesis using w f by (intro exI conjI)
qed

section \<open>An upload that is never installed\<close>

text \<open>A finalize that finds no package leaves NV as it is and reports success.\<close>

lemma finalize_without_package:
  assumes e: "ivd_engine e cfg" and fine: "nv_fine cfg (es_world es)"
    and s: "\<nexists>m v parts present. es_session es = Some (AwaitingPayload m v parts present)" "current_package es = None"
    and fin: "finalize_flash e dl ad es = (es', Ok ())"
  shows "nv_content cfg (es_world es') = nv_content cfg (es_world es)"
proof -
  have c: "complete_bank e dl ad es = (es, Ok ())" "\<not> session_disables (es_session es)"
    using s(1) by (auto simp: complete_bank_def session_disables_def split: option.splits flash_session.splits)
  obtain es3 r where a: "activate_installed e es = (es3, r)" by (rule prod.exhaust)
  let ?es4 = "on_transfer (\<lambda>t. t\<lparr>ft_state := (if en_single_bank e then Activated else AwaitingReboot)\<rparr>) es3"
  have eq: "finalize_flash e dl ad es = on_ok (activate_installed e es) (\<lambda>es3 _.
      let es4 = on_transfer (\<lambda>t. t\<lparr>ft_state := (if en_single_bank e then Activated else AwaitingReboot)\<rparr>) es3
      in on_ok (if bo_reset_kind (en_ops e) = RequiresEcuReset then set_reboot_owed e True es4 else (es4, Ok ()))
           (\<lambda>es5 _. (es5\<lparr>es_install_source := False\<rparr>, Ok ())))"
    by (simp only: finalize_flash_def c if_False process_package_def s(2) option.case on_ok_def prod.case sum.case)
  have r: "r = Ok ()" using fin by (cases r) (simp_all add: eq a on_ok_def)
  have w: "bw_nv (es_world ?es4) = bw_nv (es_world es)" using activated(1) [OF e a [unfolded r]] by (simp add: on_transfer_def)
  obtain nv where o': "set_reboot_owed e True ?es4 = (?es4\<lparr>es_world := (es_world ?es4)\<lparr>bw_nv := nv\<rparr>\<rparr>, Ok ())"
      "view_of (bp_crc cfg) nv = nv_content cfg (es_world ?es4)"
    using reboot_owed_view [OF e, of ?es4 True] w fine by auto
  have "es' = fst (finalize_flash e dl ad es)" using fin by simp
  then show ?thesis
    unfolding eq a r using w o'(2) by (auto simp: on_ok_def Let_def o'(1))
qed

definition no_package :: "'w engine_state \<Rightarrow> bool" where
  "no_package es \<longleftrightarrow> (case es_transfer es of None \<Rightarrow> True | Some t \<Rightarrow> ft_package_id t = None)"

lemma no_package_current: "no_package es \<Longrightarrow> current_package es = None"
  by (auto simp: no_package_def current_package_def split: option.splits)

lemma on_ok_OkE:
  assumes "on_ok x f = (s', Ok b)" obtains s a where "x = (s, Ok a)" "f s a = (s', Ok b)"
  using assms by (cases x; cases "snd x") (auto simp: on_ok_def)

lemma on_ok_transfer:
  assumes "es_transfer (fst x) = t" "\<And>es a. es_transfer es = t \<Longrightarrow> es_transfer (fst (f es a)) = t"
  shows "es_transfer (fst (on_ok x f)) = t"
  using assms by (cases x; cases "snd x") (auto simp: on_ok_def)

lemma disable_transfer: "es_transfer (fst (enact_disable_manifest e es)) = es_transfer es"
  by (auto simp: enact_disable_manifest_def set_reboot_owed_def nv_write_def err_as_def in_world_def clear_caches_def Let_def case_prod_beta
      split: option.splits sum.splits intro!: on_ok_transfer)

lemma envelope_no_package:
  assumes "receive_envelope e process len stream es = (es1, Ok fid)"
  shows "no_package es1"
proof -
  obtain es' k where o': "open_envelope_upload e len es = (es', Ok k)"
    and c: "(case in_world (process stream (es_anchors es') (running_floor e es) k) es' of
         (es2, Err x) \<Rightarrow> (on_transfer (\<lambda>t. t\<lparr>ft_state := FlashFailed\<rparr>) (es2\<lparr>es_upload_phase := None\<rparr>), Err x)
       | (es2, Ok (v, files)) \<Rightarrow> close_envelope_upload e v files (es2\<lparr>es_upload_phase := None\<rparr>)) = (es1, Ok fid)"
    using assms unfolding receive_envelope_def by (rule on_ok_OkE)
  have p: "no_package es'"
    using o' unfolding open_envelope_upload_def next_id_def
    by (auto simp: no_package_def split: sum.splits elim!: on_ok_OkE)
  have d: "es_transfer es2 = None" if "enact_disable_manifest e (es''\<lparr>es_transfer := None\<rparr>) = (es2, Ok u)" for es'' es2 u
    using disable_transfer [of e "es''\<lparr>es_transfer := None\<rparr>"] that by simp
  show ?thesis
    using c p unfolding close_envelope_upload_def next_id_def in_world_def
    by (auto simp: no_package_def on_transfer_def split: prod.splits sum.splits if_splits option.splits elim!: on_ok_OkE dest!: d)
qed

lemma start_no_package: "no_package es \<Longrightarrow> no_package (fst (start_flash e es))"
  by (auto simp: start_flash_def ensure_flash_can_start_def on_ok_def next_id_def no_package_def Let_def
      split: prod.splits sum.splits option.splits if_splits)


text \<open>A component with one bank and no images directory, such as the HSM keys.\<close>

definition keys_cfg :: "(unit, nat) bp_cfg" where
  "keys_cfg = (node_cfg env1)\<lparr>bp_single_bank := True, bp_images_dir := False\<rparr>"

definition keys_engine :: "(unit, nat) bp_world flash_engine" where
  "keys_engine = (node_engine env1)\<lparr>en_ops := ivd_provider keys_cfg, en_single_bank := True, en_images_dir := False\<rparr>"


section \<open>A seal that fails\<close>

lemma sign_world: "\<exists>w. fst (ivd_sign_staged_bank e k es) = es\<lparr>es_world := w\<rparr>"
proof -
  have "es = es\<lparr>es_world := es_world es\<rparr>" by simp
  then show ?thesis
    by (auto simp: ivd_sign_staged_bank_def err_as_def in_world_def split: sum.split prod.split intro: exI [of _ "es_world es"])
qed

lemma record_world: "\<exists>w. fst (record_staged_part e k f es) = es\<lparr>es_world := w\<rparr>"
proof -
  have "es = es\<lparr>es_world := es_world es\<rparr>" by simp
  then show ?thesis
    by (auto simp: record_staged_part_def err_as_def in_world_def Let_def split: sum.split prod.split intro: exI [of _ "es_world es"])
qed

lemma current_package_transfer:
  "(\<And>t. ft_package_id (f t) = ft_package_id t) \<Longrightarrow> current_package (on_transfer f es) = current_package es"
  by (auto simp: current_package_def on_transfer_def split: option.splits)

lemma current_package_session [simp]: "current_package (es\<lparr>es_session := s\<rparr>) = current_package es"
  by (auto simp: current_package_def split: option.splits)

text \<open>An upload that fails after it advanced the session leaves the session complete and its package in place.\<close>

lemma failed_after_advance:
  assumes t: "part_taken e k i name sz hash es = (es1, Err x)" and s: "es_session es1 \<noteq> es_session es"
  shows "es_session es1 = Some SessionComplete" "current_package es1 = current_package es"
proof -
  let ?f = "\<lparr>vf_relative_path = name, vf_sha256 = hash, vf_size = of_nat sz\<rparr>"
  obtain w where w: "fst (record_staged_part e k ?f es) = es\<lparr>es_world := w\<rparr>" using record_world [of e k ?f es] by blast
  have v: "bo_verify_payload (en_ops e) k name hash (es_world es) = Ok ()"
    using t s by (auto simp: part_taken_def split: sum.splits)
  have r: "record_staged_part e k ?f es = (es\<lparr>es_world := w\<rparr>, Ok ())"
    using t s w by (cases "record_staged_part e k ?f es"; cases "snd (record_staged_part e k ?f es)") (auto simp: part_taken_def v on_ok_def)
  let ?es2 = "on_transfer (\<lambda>t. t\<lparr>ft_streamed_files := ft_streamed_files t @ [?f]\<rparr>) (es\<lparr>es_world := w\<rparr>)"
  let ?es4 = "on_transfer (\<lambda>t. t\<lparr>ft_state := AwaitingActivation, ft_image_size := of_nat sz\<rparr>) (?es2\<lparr>es_session := fst (session_with i (es_session es))\<rparr>)"
  have d: "snd (session_with i (es_session es))"
    using t by (auto simp: part_taken_def v r on_ok_def Let_def case_prod_beta next_id_def split: if_splits)
  obtain w' where w': "fst (ivd_sign_staged_bank e k ?es4) = ?es4\<lparr>es_world := w'\<rparr>" using sign_world [of e k ?es4] by blast
  have "es1 = ?es4\<lparr>es_world := w'\<rparr>"
    using t w' d by (auto simp: part_taken_def v r on_ok_def Let_def case_prod_beta next_id_def split: sum.splits)
  moreover have "fst (session_with i (es_session es)) = Some SessionComplete"
    using d by (auto simp: session_with_def split: option.splits flash_session.splits)
  ultimately show "es_session es1 = Some SessionComplete" "current_package es1 = current_package es"
    by (simp_all add: current_package_transfer)
qed


text \<open>A node whose HSM is not attached, at the last part of a session.\<close>

definition bare_cfg :: "(unit, nat) bp_cfg" where "bare_cfg = (node_cfg env1)\<lparr>bp_hsm := None\<rparr>"

definition bare_engine :: "(unit, nat) bp_world flash_engine" where "bare_engine = (node_engine env1)\<lparr>en_ops := ivd_provider bare_cfg\<rparr>"

definition last_state :: "nv_store \<Rightarrow> (unit, nat) bp_world engine_state" where
  "last_state nv = node_state nv (Some (AwaitingPayload [5] package6 [0] {}))
     (Some \<lparr>ft_transfer_id = 1, ft_package_id = Some 0, ft_state = Transferring, ft_pre_reset_health = None, ft_image_size = 0,
        ft_streamed_files = []\<rparr>) [0 \<mapsto> package6]"

lemma bare_sel:
  "bp_bank_set bare_cfg = 0" "bp_crc bare_cfg = (\<lambda>_. 0)" "\<not> bp_single_bank bare_cfg" "bp_selector bare_cfg = None" "bp_activator bare_cfg = None"
  "bp_images_dir bare_cfg" "bp_hsm bare_cfg = None" "bp_ivd bare_cfg = env1" "bp_encode_record bare_cfg r = Ok [1]" "bp_decode_record bare_cfg bs = None"
  by (simp_all add: bare_cfg_def node_cfg_def)

lemma bare_engine: "ivd_engine bare_engine bare_cfg"
  by (simp add: ivd_engine_def bare_engine_def bare_cfg_def node_engine_def node_cfg_def)

lemma last_sel:
  "es_world (last_state nv) = node_world nv" "current_package (last_state nv) = Some package6"
  "es_session (last_state nv) = Some (AwaitingPayload [5] package6 [0] {})"
  by (simp_all add: last_state_def node_state_def current_package_def)

lemma bare_part: "verify_payload bare_cfg B ''rootfs.img'' [1, 7, 8] (node_world nv) = Ok ()"
  "is_ok (snd (store_staging_record bare_cfg B (Some r) (node_world nv)))" "read_staging_record bare_cfg w B = None"
  "is_ok (part_node (Some bank1) ''rootfs.img'')" "\<not> bank_dir_is_payload_empty bare_cfg bank1"
proof -
  have "read_path (ie_outside env1) (Some bank1) ''rootfs.img'' = Ok [7, 8]" by code_simp
  then show "verify_payload bare_cfg B ''rootfs.img'' [1, 7, 8] (node_world nv) = Ok ()"
    by (simp add: verify_payload_def bare_sel node_world_def hash_blocks_eq) (simp add: env1_def)
  show "is_ok (snd (store_staging_record bare_cfg B (Some r) (node_world nv)))"
    by (simp add: store_staging_record_def bare_sel node_world_def on_set_def at_top_def on_ok_def io_as_def, code_simp)
  show "read_staging_record bare_cfg w B = None"
    by (simp add: read_staging_record_def bare_sel split: sum.splits)
  show "is_ok (part_node (Some bank1) ''rootfs.img'')" "\<not> bank_dir_is_payload_empty bare_cfg bank1" by code_simp+
qed

lemma bare_seal_fails:
  assumes "Ota.slot_ok nv 0" "nvw_bank (view_of (\<lambda>_. 0) nv) 0 = Some bank_boot_state_default"
    and w: "bw_nv (es_world es) = nv" "sd_dirs (bw_set (es_world es)) = (\<lambda>_. Some bank1)" and parts: "declared_bank_parts es = [''rootfs.img'']"
  shows "\<not> is_ok (snd (ivd_sign_staged_bank bare_engine B es))"
proof -
  have fine: "nv_fine bare_cfg (es_world es)" using Ota.slot_okD(1,2) [OF assms(1)] by (simp add: w bare_sel)
  have d: "committed bank_boot_state_default" "active_bank bank_boot_state_default \<noteq> B" by (simp_all add: bank_boot_state_default_def)
  have bk: "nvw_bank (nv_content bare_cfg (es_world es)) (bp_bank_set bare_cfg) = Some bank_boot_state_default"
    using assms(2) by (simp add: w bare_sel)
  have "seed_target_from_active bare_cfg B [''rootfs.img''] (es_world es) = (es_world es, Ok ())"
    using bare_part(4) by (intro seed_nothing [OF bank_of_view(1) [OF fine bk] d(2)]) (simp_all add: w)
  then show ?thesis
    by (simp add: ivd_sign_staged_bank_def gen_of_view [OF bare_engine fine bk d(1)] ivd_engine_simps [OF bare_engine] parts err_as_def in_world_def
        bp_seal_def on_ok_def target_bank_dir_def bare_sel w bare_part(5))
qed

lemma last_part_fails:
  assumes "Ota.slot_ok nv 0" "nvw_bank (view_of (\<lambda>_. 0) nv) 0 = Some bank_boot_state_default"
  shows "\<exists>es1 x. part_taken bare_engine B 0 ''rootfs.img'' 2 [1, 7, 8] (last_state nv) = (es1, Err x) \<and> es_session es1 = Some SessionComplete"
proof -
  let ?f = "\<lparr>vf_relative_path = ''rootfs.img'', vf_sha256 = [1, 7, 8], vf_size = 2 :: u64\<rparr>" and ?es = "last_state nv"
  obtain w r where s: "store_staging_record bare_cfg B (Some ((new_staging_record bare_engine ?es [])\<lparr>sr_update_id := es_update_id ?es,
      sr_parts := [as_staged_part ?f]\<rparr>)) (node_world nv) = (w, r)" by (rule prod.exhaust)
  then have r: "r = Ok ()" using bare_part(2) [of "(new_staging_record bare_engine ?es [])\<lparr>sr_update_id := es_update_id ?es, sr_parts := [as_staged_part ?f]\<rparr>" nv]
    by (cases r) simp_all
  have "keeps k (node_world nv) w" for k using keeps_store_staging s by (metis fst_conv)
  then have w: "bw_nv w = nv" "sd_dirs (bw_set w) = (\<lambda>_. Some bank1)" by (auto simp: keeps_def node_world_def fun_eq_iff)
  have rec: "record_staged_part bare_engine B ?f ?es = (?es\<lparr>es_world := w\<rparr>, Ok ())"
    using s r by (simp add: record_staged_part_def ivd_engine_simps [OF bare_engine] bare_part(3) Let_def err_as_def in_world_def last_sel
        new_staging_record_def)
  let ?es4 = "on_transfer (\<lambda>t. t\<lparr>ft_state := AwaitingActivation, ft_image_size := 2\<rparr>)
      ((on_transfer (\<lambda>t. t\<lparr>ft_streamed_files := ft_streamed_files t @ [?f]\<rparr>) (?es\<lparr>es_world := w\<rparr>))\<lparr>es_session := Some SessionComplete\<rparr>)"
  have "declared_bank_parts ?es4 = [''rootfs.img'']" by (simp add: declared_bank_parts_def on_transfer_def last_state_def node_state_def)
  then have "\<not> is_ok (snd (ivd_sign_staged_bank bare_engine B ?es4))"
    using bare_seal_fails [OF assms, of ?es4] w by (simp add: on_transfer_def)
  then obtain es1 x where g: "ivd_sign_staged_bank bare_engine B ?es4 = (es1, Err x)"
    by (cases "ivd_sign_staged_bank bare_engine B ?es4"; cases "snd (ivd_sign_staged_bank bare_engine B ?es4)") auto
  have "part_taken bare_engine B 0 ''rootfs.img'' 2 [1, 7, 8] ?es = (es1, Err x)"
    using bare_part(1) g rec
    by (simp add: part_taken_def ivd_engine_simps [OF bare_engine] last_sel on_ok_def session_with_def absent_parts_def)
  moreover have "es_session es1 = Some SessionComplete" using sign_eq [OF g] by simp
  ultimately show ?thesis by blast
qed


end
