(* ===== verification/PartitionBank.thy ===== *)
theory PartitionBank
  imports Flash
begin

text \<open>
  Banks on raw partitions (\<^verbatim>\<open>component-mgr/src/partition_bank_provider.rs\<close>): the parts of a bank are block
  devices, written once by the upload; the directory of the bank holds the IVD manifest only. The
  provider composes the one of \<open>BankProvider\<close>, built without an activator, for all bookkeeping, and
  replaces the sink, the seal and the read-back. A device has a fixed size: a write fills it from the
  start and fails at its end. The image record of a platform (\<^verbatim>\<open>machine-contract/src/image_record.rs\<close>)
  is a record of operations over a state \<open>'r\<close>. Devices are named by their path; different paths are
  different devices.
\<close>

section \<open>Data\<close>

record 'r image_record =
  rec_sealed :: "bank \<Rightarrow> u64 \<Rightarrow> bytes \<Rightarrow> 'r \<Rightarrow> 'r \<times> (bank_error + unit)"
  rec_route :: "bank \<Rightarrow> 'r \<Rightarrow> 'r \<times> (bank_error + unit)"

record 'r partition_part =
  pt_file :: string
  pt_partition_a :: string
  pt_partition_b :: string
  pt_record :: "'r image_record option"

definition device :: "'r partition_part \<Rightarrow> bank \<Rightarrow> string" where
  "device p k = (case k of A \<Rightarrow> pt_partition_a p | B \<Rightarrow> pt_partition_b p)"

text \<open>What a path leads to: a device with its content, or a node that cannot be opened.\<close>

datatype block_node = Medium bytes | Broken

record ('s, 'c, 'r) pp_cfg =
  pp_inner :: "('s, 'c) bp_cfg"
  pp_parts :: "'r partition_part list"
  pp_hsm :: "('c \<Rightarrow> 'c \<times> (hsm_error + bool)) option"
  pp_hsm_crypto :: "'c crypto_ops option"

record ('s, 'c, 'r) pp_world =
  pw_inner :: "('s, 'c) bp_world"
  pw_nodes :: "string \<rightharpoonup> block_node"
  pw_faults :: "fault list"
  pw_records :: 'r

definition on_inner ::
    "(('s, 'c) bp_world \<Rightarrow> ('s, 'c) bp_world \<times> 'a) \<Rightarrow> ('s, 'c, 'r) pp_world \<Rightarrow> ('s, 'c, 'r) pp_world \<times> 'a" where
  "on_inner f w = (case f (pw_inner w) of (i, r) \<Rightarrow> (w\<lparr>pw_inner := i\<rparr>, r))"

definition find_part :: "('s, 'c, 'r) pp_cfg \<Rightarrow> string \<Rightarrow> 'r partition_part option" where
  "find_part cfg name = List.find (\<lambda>p. pt_file p = name) (pp_parts cfg)"

section \<open>Devices\<close>

text \<open>A write from the start of a device; the terminal flush syncs it, and a fault can cut either short.\<close>

definition fill :: "bytes \<Rightarrow> bytes \<Rightarrow> bytes" where
  "fill bs content = take (length content) (bs @ drop (length bs) content)"

definition write_device ::
    "string \<Rightarrow> bytes \<Rightarrow> ('s, 'c, 'r) pp_world \<Rightarrow> ('s, 'c, 'r) pp_world \<times> (fs_error + unit)" where
  "write_device path bs w =
     (case pw_nodes w path of
        Some (Medium content) \<Rightarrow>
          (case pw_faults w of
             Fails n # fs \<Rightarrow>
               (w\<lparr>pw_nodes := (pw_nodes w)(path \<mapsto> Medium (fill (take n bs) content)), pw_faults := fs\<rparr>, Err OtherError)
           | PowerCut n # fs \<Rightarrow>
               (w\<lparr>pw_nodes := (pw_nodes w)(path \<mapsto> Medium (fill (take n bs) content))\<rparr>, Err OtherError)
           | fs \<Rightarrow>
               (w\<lparr>pw_nodes := (pw_nodes w)(path \<mapsto> Medium (fill bs content)), pw_faults := tl fs\<rparr>,
                if length bs \<le> length content then Ok () else Err OtherError))
      | _ \<Rightarrow> (w, Err OtherError))"

definition hash_device :: "('s, 'c, 'r) pp_cfg \<Rightarrow> ('s, 'c, 'r) pp_world \<Rightarrow> string \<Rightarrow> bank_error + u64 \<times> bytes" where
  "hash_device cfg w path =
     (case pw_nodes w path of
        Some (Medium content) \<Rightarrow> Ok (of_nat (length content), ie_sha (bp_ivd (pp_inner cfg)) content)
      | _ \<Rightarrow> Err (BankFailed (FailPartition path)))"

section \<open>Image records\<close>

fun route_records :: "'r partition_part list \<Rightarrow> bank \<Rightarrow> 'r \<Rightarrow> 'r \<times> (bank_error + unit)" where
  "route_records [] k r = (r, Ok ())"
| "route_records (p # ps) k r =
     (case pt_record p of
        None \<Rightarrow> route_records ps k r
      | Some rec \<Rightarrow> on_ok (rec_route rec k r) (\<lambda>r1 _. route_records ps k r1))"

definition route ::
    "('s, 'c, 'r) pp_cfg \<Rightarrow> bank \<Rightarrow> ('s, 'c, 'r) pp_world \<Rightarrow> ('s, 'c, 'r) pp_world \<times> (bank_error + unit)" where
  "route cfg k w = (case route_records (pp_parts cfg) k (pw_records w) of (r, x) \<Rightarrow> (w\<lparr>pw_records := r\<rparr>, x))"

definition pp_activate ::
    "('s, 'c, 'r) pp_cfg \<Rightarrow> bank \<Rightarrow> ('s, 'c, 'r) pp_world \<Rightarrow> ('s, 'c, 'r) pp_world \<times> (bank_error + reset_kind)" where
  "pp_activate cfg k w = on_ok (route cfg k w) (\<lambda>w1 _. on_inner (bp_activate (pp_inner cfg) k) w1)"

definition pp_rollback ::
    "('s, 'c, 'r) pp_cfg \<Rightarrow> ('s, 'c, 'r) pp_world \<Rightarrow> ('s, 'c, 'r) pp_world \<times> (bank_error + unit)" where
  "pp_rollback cfg w =
     (case rollback_target (pp_inner cfg) (pw_inner w) of
        Err x \<Rightarrow> (w, Err x)
      | Ok k \<Rightarrow> on_ok (route cfg k w) (\<lambda>w1 _. on_inner (bp_rollback (pp_inner cfg)) w1))"

section \<open>Payloads\<close>

definition pp_open_payload_writer ::
    "('s, 'c, 'r) pp_cfg \<Rightarrow> bank \<Rightarrow> string \<Rightarrow> ('s, 'c, 'r) pp_world \<Rightarrow> ('s, 'c, 'r) pp_world \<times> (bank_error + unit)" where
  "pp_open_payload_writer cfg k name w =
     (case find_part cfg name of
        None \<Rightarrow> (w, Err (UnknownPart name))
      | Some p \<Rightarrow>
          (case pw_nodes w (device p k) of
             Some (Medium content) \<Rightarrow> (w, Ok ())
           | _ \<Rightarrow> (w, Err (BankFailed (FailPartition (device p k))))))"

text \<open>The writer that was handed out for a part.\<close>

definition pp_write_payload ::
    "('s, 'c, 'r) pp_cfg \<Rightarrow> bank \<Rightarrow> string \<Rightarrow> bytes \<Rightarrow> ('s, 'c, 'r) pp_world \<Rightarrow> ('s, 'c, 'r) pp_world \<times> (fs_error + unit)" where
  "pp_write_payload cfg k name bs w =
     (case find_part cfg name of None \<Rightarrow> (w, Err OtherError) | Some p \<Rightarrow> write_device (device p k) bs w)"

definition pp_verify_payload ::
    "('s, 'c, 'r) pp_cfg \<Rightarrow> bank \<Rightarrow> string \<Rightarrow> bytes \<Rightarrow> ('s, 'c, 'r) pp_world \<Rightarrow> bank_error + unit" where
  "pp_verify_payload cfg k name expected w =
     (case find_part cfg name of
        None \<Rightarrow> Err (UnknownPart name)
      | Some p \<Rightarrow>
          and_then (hash_device cfg w (device p k)) (\<lambda>(n, sha). if sha = expected then Ok () else Err (Unverifiable name)))"

section \<open>Seal\<close>

fun first_occurrences :: "string list \<Rightarrow> string list \<Rightarrow> string list" where
  "first_occurrences seen [] = seen"
| "first_occurrences seen (n # ns) = first_occurrences (if n \<in> set seen then seen else seen @ [n]) ns"

text \<open>One declared part: mapped, present, not left behind as a file, hashed back and recorded.\<close>

definition attest_part ::
    "('s, 'c, 'r) pp_cfg \<Rightarrow> bank \<Rightarrow> string \<Rightarrow> ('s, 'c, 'r) pp_world \<Rightarrow> ('s, 'c, 'r) pp_world \<times> (bank_error + ivd_file)" where
  "attest_part cfg k name w =
     (case find_part cfg name of
        None \<Rightarrow> (w, Err (UnknownPart name))
      | Some p \<Rightarrow>
          if pw_nodes w (device p k) = None then (w, Err (BankFailed (FailPartition (device p k))))
          else if (case part_node (sd_dirs (bw_set (pw_inner w)) k) name of Ok nd \<Rightarrow> entry_is_file (pp_inner cfg) nd | Err _ \<Rightarrow> False)
          then (w, Err (BankFailed (FailPartition (device p k))))
          else (case hash_device cfg w (device p k) of
                  Err x \<Rightarrow> (w, Err x)
                | Ok (n, sha) \<Rightarrow>
                    on_ok (case pt_record p of
                             None \<Rightarrow> (w, Ok ())
                           | Some rec \<Rightarrow> (case rec_sealed rec k n sha (pw_records w) of (r, x) \<Rightarrow> (w\<lparr>pw_records := r\<rparr>, x)))
                      (\<lambda>w1 _. (w1, Ok \<lparr>vf_relative_path = name, vf_sha256 = sha, vf_size = n\<rparr>))))"

fun attest_parts ::
    "('s, 'c, 'r) pp_cfg \<Rightarrow> bank \<Rightarrow> ivd_file list \<Rightarrow> string list \<Rightarrow> ('s, 'c, 'r) pp_world
       \<Rightarrow> ('s, 'c, 'r) pp_world \<times> (bank_error + ivd_file list)" where
  "attest_parts cfg k files [] w = (w, Ok files)"
| "attest_parts cfg k files (n # ns) w =
     on_ok (attest_part cfg k n w) (\<lambda>w1 f. attest_parts cfg k (files @ [f]) ns w1)"

definition pp_sign ::
    "('s, 'c, 'r) pp_cfg \<Rightarrow> bank \<Rightarrow> firmware_identity \<Rightarrow> u64 \<Rightarrow> ivd_file list \<Rightarrow> ('s, 'c) bp_world
       \<Rightarrow> ('s, 'c) bp_world \<times> (bank_error + unit)" where
  "pp_sign cfg k ident gn files w =
     (case pp_hsm cfg of
        None \<Rightarrow> (w, Err (BankFailed FailNoHsm))
      | Some probe \<Rightarrow>
          (case probe (bw_hsm w) of
             (c, Err e) \<Rightarrow> (w\<lparr>bw_hsm := c\<rparr>, Err (BankFailed (FailProbe e)))
           | (c, Ok p) \<Rightarrow>
               let w1 = w\<lparr>bw_hsm := c\<rparr>
               in if \<not> p then (w1, Ok ())
                  else (case pp_hsm_crypto cfg of
                          None \<Rightarrow> (w1, Err (BankFailed FailNoCrypto))
                        | Some cr \<Rightarrow>
                            on_ok (fail_as FailSign (on_bank_signed k (sign_bank_with_files_crypto_at (bp_ivd (pp_inner cfg)) cr gn
                                (firmware_to_ivd_identity ident) files (bp_node_boot_id (pp_inner cfg)) (staged_update_id (pp_inner cfg) w1 k)) w1))
                              (\<lambda>w2 _. (seal_staging (pp_inner cfg) k w2, Ok ())))))"

definition pp_seal ::
    "('s, 'c, 'r) pp_cfg \<Rightarrow> bank \<Rightarrow> firmware_identity \<Rightarrow> u64 \<Rightarrow> string list \<Rightarrow> ('s, 'c, 'r) pp_world
       \<Rightarrow> ('s, 'c, 'r) pp_world \<times> (bank_error + unit)" where
  "pp_seal cfg k ident gn required w =
     (let inventory = first_occurrences [] required
      in if inventory = [] then (w, Err (BankFailed (FailPartition ''the install declared no parts'')))
         else if \<not> bp_images_dir (pp_inner cfg) then (w, Err (BankFailed FailNoImagesDir))
         else on_ok (on_inner (\<lambda>i. fail_as FailFs (on_set (\<lambda>s. with_top (at_bank k create_dir_all s)) i)) w) (\<lambda>w1 _.
              on_ok (attest_parts cfg k [] inventory w1) (\<lambda>w2 files.
                on_inner (pp_sign cfg k ident gn files) w2)))"

section \<open>The provider\<close>

text \<open>The staging of a payload whose part is not known yet keeps the default of the trait: it is not supported.\<close>

definition partition_provider :: "('s, 'c, 'r) pp_cfg \<Rightarrow> ('s, 'c, 'r) pp_world bank_ops" where
  "partition_provider cfg =
     (let inner = ivd_provider (pp_inner cfg)
      in \<lparr>bo_nv = bo_nv inner \<circ> pw_inner,
          bo_put_nv = (\<lambda>nv w. w\<lparr>pw_inner := bo_put_nv inner nv (pw_inner w)\<rparr>),
          bo_active_bank = bo_active_bank inner \<circ> pw_inner,
          bo_selected_bank = bo_selected_bank inner \<circ> pw_inner,
          bo_pending_reboot = bo_pending_reboot inner \<circ> pw_inner,
          bo_target_bank = bo_target_bank inner \<circ> pw_inner,
          bo_banks = (\<lambda>w. Some (banks_for (pp_inner cfg) (pw_inner w) RequiresEcuReset)),
          bo_reset_kind = RequiresEcuReset,
          bo_prune_target = (\<lambda>k keep. on_inner (bo_prepare_target inner k)),
          bo_prepare_target = (\<lambda>k. on_inner (bo_prepare_target inner k)),
          bo_open_staging_writer = (\<lambda>k uuid w. (w, Err (Unsupported ''staging a payload before its part is known''))),
          bo_write_staged = (\<lambda>k handle bs w. (w, Err OtherError)),
          bo_commit_staged = (\<lambda>k handle name w. (w, Err (Unsupported ''committing a staged payload''))),
          bo_discard_staged = (\<lambda>k handle w. (w, Ok ())),
          bo_open_payload_writer = pp_open_payload_writer cfg,
          bo_write_payload = pp_write_payload cfg,
          bo_verify_payload = pp_verify_payload cfg,
          bo_copy_forward = (\<lambda>active k name expected. on_inner (bo_copy_forward inner active k name expected)),
          bo_remove_part = (\<lambda>k name w. w\<lparr>pw_inner := bo_remove_part inner k name (pw_inner w)\<rparr>),
          bo_seal = pp_seal cfg,
          bo_staging_record = (\<lambda>w. bo_staging_record inner (pw_inner w)),
          bo_write_staging_record = (\<lambda>k r. on_inner (bo_write_staging_record inner k r)),
          bo_activate = pp_activate cfg,
          bo_commit = on_inner (bo_commit inner),
          bo_rollback = pp_rollback cfg,
          bo_can_persist_disabled_record = on_inner (bo_can_persist_disabled_record inner),
          bo_write_disabled_record = (\<lambda>k gn. on_inner (bo_write_disabled_record inner k gn)),
          bo_disabled_record = (\<lambda>k. on_inner (bo_disabled_record inner k))\<rparr>)"

end
