(* ===== verification/PartitionProps.thy ===== *)
theory PartitionProps
  imports PartitionBank FlashProps
begin

text \<open>
  Banks on raw partitions: the provider meets the contract of \<open>staging_provider\<close>, so an upload leaves the
  partitions of the running bank; what a seal attests; the exact fit of an image; the order of routing
  and switching.
\<close>

section \<open>The running bank\<close>

text \<open>No partition belongs to both banks.\<close>

definition apart :: "'r partition_part list \<Rightarrow> bool" where
  "apart ps \<longleftrightarrow> (\<forall>p \<in> set ps. \<forall>q \<in> set ps. pt_partition_a p \<noteq> pt_partition_b q)"

definition part_keeps :: "('s, 'c, 'r) pp_cfg \<Rightarrow> ('s, 'c, 'r) pp_world \<Rightarrow> ('s, 'c, 'r) pp_world \<Rightarrow> bool" where
  "part_keeps cfg w w' \<longleftrightarrow> (\<not> bp_single_bank (pp_inner cfg) \<longrightarrow>
     (let k = fallback_target_active (pp_inner cfg) (pw_inner w)
      in keeps k (pw_inner w) (pw_inner w')
         \<and> (apart (pp_parts cfg) \<longrightarrow> (\<forall>p \<in> set (pp_parts cfg). pw_nodes w' (device p k) = pw_nodes w (device p k)))))"

lemma device_apart: "apart ps \<Longrightarrow> p \<in> set ps \<Longrightarrow> q \<in> set ps \<Longrightarrow> j \<noteq> k \<Longrightarrow> device p j \<noteq> device q k"
  by (cases j; cases k; force simp: apart_def device_def)

lemma found_part: "find_part cfg name = Some p \<Longrightarrow> p \<in> set (pp_parts cfg) \<and> pt_file p = name"
  by (auto simp: find_part_def find_Some_iff)

lemma part_keeps_refl: "part_keeps cfg w w"
  by (simp add: part_keeps_def Let_def)

lemma part_keeps_trans:
  assumes "part_keeps cfg w w'" "part_keeps cfg w' w''"
  shows "part_keeps cfg w w''"
proof -
  have "fallback_target_active (pp_inner cfg) (pw_inner w') = fallback_target_active (pp_inner cfg) (pw_inner w)"
    if "keeps k (pw_inner w) (pw_inner w')" for k
    using keeps_active [OF that] .
  then show ?thesis using assms by (auto simp: part_keeps_def Let_def intro: keeps_trans)
qed

lemma part_keeps_inner:
  assumes "\<And>k. k = fallback_target_active (pp_inner cfg) (pw_inner w) \<Longrightarrow> \<not> bp_single_bank (pp_inner cfg)
      \<Longrightarrow> keeps k (pw_inner w) (fst (f (pw_inner w)))"
  shows "part_keeps cfg w (fst (on_inner f w))"
  using assms by (auto simp: part_keeps_def on_inner_def case_prod_beta Let_def)

lemma part_keeps_records: "part_keeps cfg w (w'\<lparr>pw_records := r\<rparr>) \<longleftrightarrow> part_keeps cfg w w'"
  by (simp add: part_keeps_def)

lemma part_keeps_on_ok:
  assumes "part_keeps cfg w (fst x)" "\<And>w' a. x = (w', Ok a) \<Longrightarrow> part_keeps cfg w w' \<Longrightarrow> part_keeps cfg w' (fst (f w' a))"
  shows "part_keeps cfg w (fst (on_ok x f))"
  using assms by (cases x; cases "snd x") (auto simp: on_ok_def intro: part_keeps_trans)

lemma part_keeps_write:
  assumes "k = target_bank (pp_inner cfg) (pw_inner w)"
  shows "part_keeps cfg w (fst (pp_write_payload cfg k name bs w))"
proof (cases "find_part cfg name")
  case (Some p)
  have "pw_nodes (fst (write_device (device p k) bs w)) d = pw_nodes w d \<and> pw_inner (fst (write_device (device p k) bs w)) = pw_inner w"
    if "d \<noteq> device p k" for d
    using that by (auto simp: write_device_def Let_def split: option.splits block_node.splits list.splits fault.splits)
  then have 1: "pw_nodes (fst (pp_write_payload cfg k name bs w)) d = pw_nodes w d" if "d \<noteq> device p k" for d
    using that by (simp add: pp_write_payload_def Some)
  have 2: "pw_inner (fst (pp_write_payload cfg k name bs w)) = pw_inner w"
    by (auto simp: pp_write_payload_def Some write_device_def Let_def split: option.splits block_node.splits list.splits fault.splits)
  have 3: "device q (fallback_target_active (pp_inner cfg) (pw_inner w)) \<noteq> device p k"
    if "\<not> bp_single_bank (pp_inner cfg)" "apart (pp_parts cfg)" "q \<in> set (pp_parts cfg)" for q
    using found_part [OF Some] that assms by (intro device_apart) (auto simp: target_bank_def dest: sym)
  show ?thesis using 1 2 3 by (simp add: part_keeps_def Let_def)
qed (simp add: pp_write_payload_def part_keeps_refl)

lemma attest_keeps: "part_keeps cfg w (fst (attest_part cfg k name w))"
  by (auto simp: attest_part_def part_keeps_refl part_keeps_records split: option.splits sum.splits prod.splits intro!: part_keeps_on_ok)

lemma attest_parts_keeps: "part_keeps cfg w (fst (attest_parts cfg k files ns w))"
  by (induction ns arbitrary: files w) (auto simp: part_keeps_refl intro!: part_keeps_on_ok attest_keeps)

lemma sign_keeps: "j \<noteq> k \<Longrightarrow> keeps k w (fst (pp_sign cfg j ident g files w))"
  using keeps_signed [of j k "w\<lparr>bw_hsm := _\<rparr>"]
  by (auto simp: pp_sign_def Let_def split: option.splits prod.splits sum.splits intro!: keeps_on_ok)

lemma seal_keeps:
  assumes "k = target_bank (pp_inner cfg) (pw_inner w)"
  shows "part_keeps cfg w (fst (pp_seal cfg k ident g req w))"
proof -
  have t: "k \<noteq> fallback_target_active (pp_inner cfg) (pw_inner w')" if "part_keeps cfg w w'" "\<not> bp_single_bank (pp_inner cfg)" for w'
    using that assms keeps_active [of _ "pw_inner w" "pw_inner w'"] by (auto simp: part_keeps_def Let_def target_bank_def)
  have c: "part_keeps cfg w (fst (on_inner (\<lambda>i. fail_as FailFs (on_set (\<lambda>s. with_top (at_bank k create_dir_all s)) i)) w))"
    using assms by (intro part_keeps_inner) (auto simp: target_bank_def dest: sym)
  have s: "part_keeps cfg w2 (fst (on_inner (pp_sign cfg k ident g files) w2))" if "part_keeps cfg w w2" for w2 files
    using t [OF that] sign_keeps [of k _ "pw_inner w2" cfg ident g files]
    by (auto simp: part_keeps_def on_inner_def case_prod_beta Let_def)
  show ?thesis
    unfolding pp_seal_def Let_def
    by (auto simp: part_keeps_refl intro!: part_keeps_on_ok c s attest_parts_keeps intro: part_keeps_trans)
qed

lemma provider_sel:
  "bo_target_bank (partition_provider cfg) w = target_bank (pp_inner cfg) (pw_inner w)"
  "bo_prune_target (partition_provider cfg) k keep = on_inner (prepare_target_bank_dir (pp_inner cfg) k)"
  "bo_write_staging_record (partition_provider cfg) k r = on_inner (store_staging_record (pp_inner cfg) k r)"
  "bo_open_payload_writer (partition_provider cfg) = pp_open_payload_writer cfg"
  "bo_write_payload (partition_provider cfg) = pp_write_payload cfg"
  "bo_seal (partition_provider cfg) = pp_seal cfg"
  "fst (bo_open_staging_writer (partition_provider cfg) k uuid w) = w"
  "fst (bo_write_staged (partition_provider cfg) k handle bs w) = w"
  "fst (bo_commit_staged (partition_provider cfg) k handle name w) = w"
  "fst (bo_discard_staged (partition_provider cfg) k handle w) = w"
  by (simp_all add: partition_provider_def Let_def)

lemma open_keeps: "part_keeps cfg w (fst (pp_open_payload_writer cfg k name w))"
  by (auto simp: pp_open_payload_writer_def part_keeps_refl split: option.splits block_node.splits)

lemma prepare_keeps:
  assumes "k = target_bank (pp_inner cfg) (pw_inner w)"
  shows "part_keeps cfg w (fst (on_inner (prepare_target_bank_dir (pp_inner cfg) k) w))"
  using assms by (intro part_keeps_inner) (auto simp: target_bank_def dest: sym)

interpretation part: staging_provider "partition_provider cfg" "part_keeps cfg" for cfg
proof unfold_locales
  fix w w' :: "('a, 'b, 'c) pp_world"
  show "bo_target_bank (partition_provider cfg) w' = bo_target_bank (partition_provider cfg) w" if "part_keeps cfg w w'"
    using that by (auto simp: part_keeps_def Let_def provider_sel target_bank_def keeps_active)
qed (auto simp: provider_sel part_keeps_refl open_keeps part_keeps_write seal_keeps prepare_keeps intro: part_keeps_trans intro!: part_keeps_inner)

text \<open>C18: A component on raw partitions can be updated while it runs: whatever is uploaded in a session and whatever
  fails on the way, the boot state, the boot vector, the directory and every partition of the active
  bank stay as they were.\<close>

theorem partition_upload_leaves_running_bank:
  assumes "en_ops e = partition_provider cfg" "\<not> bp_single_bank (pp_inner cfg)" "apart (pp_parts cfg)"
    and "\<And>t w. part_keeps cfg w (en_ratchet_time_floor e t w)"
  shows "let w = es_world es; w' = es_world (fold (session_step e) ops es); k = fallback_target_active (pp_inner cfg) (pw_inner w)
    in bw_nv (pw_inner w') = bw_nv (pw_inner w) \<and> bw_selector (pw_inner w') = bw_selector (pw_inner w)
       \<and> sd_dirs (bw_set (pw_inner w')) k = sd_dirs (bw_set (pw_inner w)) k
       \<and> (\<forall>p \<in> set (pp_parts cfg). pw_nodes w' (device p k) = pw_nodes w (device p k))"
  using part.session_kept [OF assms(1,4), of es ops] assms(2,3) by (simp add: part_keeps_def keeps_def Let_def)

section \<open>The fit of an image\<close>

lemma fill_eq: "length bs \<le> length content \<Longrightarrow> fill bs content = bs \<longleftrightarrow> length bs = length content"
  by (auto simp: fill_def dest: arg_cong [of _ _ length])

text \<open>A payload that was written passes the read-back exactly when it fills its partition, provided its
  digest is not that of what the partition then holds by accident.\<close>

theorem partition_exact_fit:
  assumes "find_part cfg name = Some p" "pw_nodes w (device p k) = Some (Medium content)"
    and "pp_write_payload cfg k name bs w = (w', Ok ())"
    and "ie_sha (bp_ivd (pp_inner cfg)) (fill bs content) = ie_sha (bp_ivd (pp_inner cfg)) bs \<Longrightarrow> fill bs content = bs"
  shows "pp_verify_payload cfg k name (ie_sha (bp_ivd (pp_inner cfg)) bs) w' = Ok () \<longleftrightarrow> length bs = length content"
proof -
  have "pw_nodes w' (device p k) = Some (Medium (fill bs content))" "length bs \<le> length content"
    using assms(1-3) by (auto simp: pp_write_payload_def write_device_def split: list.splits fault.splits if_splits)
  then show ?thesis
    using assms(1,4) fill_eq [of bs content] by (auto simp: pp_verify_payload_def hash_device_def and_then_def)
qed

section \<open>What a seal attests\<close>

lemma first_occurrences_spec:
  "set (first_occurrences seen ns) = set seen \<union> set ns" "distinct seen \<Longrightarrow> distinct (first_occurrences seen ns)"
  by (induction ns arbitrary: seen) auto

definition attests :: "('s, 'c, 'r) pp_cfg \<Rightarrow> ('s, 'c, 'r) pp_world \<Rightarrow> bank \<Rightarrow> string \<Rightarrow> ivd_file \<Rightarrow> bool" where
  "attests cfg w k name f \<longleftrightarrow> (\<exists>p content. find_part cfg name = Some p \<and> pw_nodes w (device p k) = Some (Medium content)
     \<and> f = \<lparr>vf_relative_path = name, vf_sha256 = ie_sha (bp_ivd (pp_inner cfg)) content, vf_size = of_nat (length content)\<rparr>)"

lemma attest_part_spec:
  "attest_part cfg k name w = (w', Ok f) \<Longrightarrow> pw_nodes w' = pw_nodes w \<and> pw_inner w' = pw_inner w \<and> attests cfg w k name f"
  by (auto simp: attest_part_def attests_def hash_device_def on_ok_def split: option.splits sum.splits prod.splits block_node.splits if_splits)

lemma attest_parts_spec:
  "attest_parts cfg k files ns w = (w', Ok fs) \<Longrightarrow> pw_nodes w' = pw_nodes w \<and> pw_inner w' = pw_inner w
     \<and> (\<exists>gs. fs = files @ gs \<and> list_all2 (attests cfg w k) ns gs)"
proof (induction ns arbitrary: files w)
  case (Cons n ns)
  obtain w1 f where 1: "attest_part cfg k n w = (w1, Ok f)" "attest_parts cfg k (files @ [f]) ns w1 = (w', Ok fs)"
    using Cons.prems by (auto simp: on_ok_def split: prod.splits sum.splits)
  note s = attest_part_spec [OF 1(1)]
  then have a: "attests cfg w1 = attests cfg w" by (auto simp: attests_def fun_eq_iff)
  show ?case using Cons.IH [OF 1(2)] s a by fastforce
qed simp

lemma sign_attests:
  assumes ok: "ivd_crypto_ok (bp_ivd (pp_inner cfg)) cr"
    and hsm: "pp_hsm cfg = Some probe" "probe (bw_hsm w) = (c, Ok True)" "pp_hsm_crypto cfg = Some cr"
    and tmp: "plain \<lparr>bf_dir = sd_dirs (bw_set w) k, bf_faults = sd_faults (bw_set w)\<rparr> IVD_MANIFEST_TMP"
      "plain \<lparr>bf_dir = sd_dirs (bw_set w) k, bf_faults = sd_faults (bw_set w)\<rparr> IVD_SIGNATURE_TMP"
    and sign: "pp_sign cfg k ident g files w = (w', Ok ())"
  shows "\<exists>m. snd (read_manifest_verified (bp_ivd (pp_inner cfg)) cr (sd_dirs (bw_set w') k) c'') = Ok m
    \<and> mf_gen m = g \<and> mset (mf_files m) = mset files"
proof -
  let ?env = "bp_ivd (pp_inner cfg)" and ?i = "pp_inner cfg"
  let ?b = "\<lparr>bf_dir = sd_dirs (bw_set w) k, bf_faults = sd_faults (bw_set w)\<rparr>"
  obtain c' b' r where sg: "sign_bank_with_files_crypto_at ?env cr g (firmware_to_ivd_identity ident) files (bp_node_boot_id ?i)
      (staged_update_id ?i (w\<lparr>bw_hsm := c\<rparr>) k) (c, ?b) = ((c', b'), r)" by (metis prod.exhaust)
  obtain m where m: "r = Ok m"
    using sign sg hsm by (cases r) (auto simp: pp_sign_def Let_def on_bank_signed_def fail_as_def on_ok_def)
  note eff = sign_inner_effect [OF sg [unfolded m sign_bank_with_files_crypto_at_def] tmp]
  have "snd (read_signed_manifest ?env (cr_verify cr) (bf_dir b') c'') = Ok m"
    using eff ok by (auto simp: read_signed_Ok read_owned_name ivd_crypto_ok_def signed_manifest_def build_manifest_from_files_def)
  moreover have "mf_gen m = g \<and> mset (mf_files m) = mset files"
    using eff by (simp add: signed_manifest_def build_manifest_from_files_def)
  moreover have "sd_dirs (bw_set w') k = bf_dir b'"
  proof -
    have "w' = seal_staging ?i k (w\<lparr>bw_hsm := c', bw_set := (bw_set w)\<lparr>sd_dirs := (sd_dirs (bw_set w))(k := bf_dir b'), sd_faults := bf_faults b'\<rparr>\<rparr>)"
      using sign sg hsm m by (auto simp: pp_sign_def Let_def on_bank_signed_def fail_as_def on_ok_def)
    then show ?thesis using keeps_seal_staging [of k _ ?i k] by (auto simp: keeps_def)
  qed
  ultimately show ?thesis by (auto simp: read_manifest_verified_def)
qed

text \<open>C19: The manifest a seal of a provisioned node signs names each part of the install once and no other part, with
  the digest and the size of what is on its partition.\<close>

theorem partition_seal_attests:
  assumes ok: "ivd_crypto_ok (bp_ivd (pp_inner cfg)) cr"
    and hsm: "pp_hsm cfg = Some probe" "\<And>c. probe c = (c, Ok True)" "pp_hsm_crypto cfg = Some cr"
    and tmp: "\<And>n. n \<in> {IVD_MANIFEST_TMP, IVD_SIGNATURE_TMP} \<Longrightarrow>
        plain \<lparr>bf_dir = sd_dirs (bw_set (pw_inner w)) k, bf_faults = sd_faults (bw_set (pw_inner w))\<rparr> n"
    and seal: "pp_seal cfg k ident g parts w = (w', Ok ())"
  shows "\<exists>m. snd (read_manifest_verified (bp_ivd (pp_inner cfg)) cr (sd_dirs (bw_set (pw_inner w')) k) c) = Ok m \<and> mf_gen m = g
    \<and> distinct (map vf_relative_path (mf_files m)) \<and> set (map vf_relative_path (mf_files m)) = set parts
    \<and> (\<forall>f \<in> set (mf_files m). attests cfg w k (vf_relative_path f) f)"
proof -
  let ?b = "\<lambda>i. \<lparr>bf_dir = sd_dirs (bw_set i) k, bf_faults = sd_faults (bw_set i)\<rparr>"
  obtain i1 where i1: "fail_as FailFs (on_set (\<lambda>s. with_top (at_bank k create_dir_all s)) (pw_inner w)) = (i1, Ok ())"
    and s1: "on_ok (attest_parts cfg k [] (first_occurrences [] parts) (w\<lparr>pw_inner := i1\<rparr>)) (\<lambda>w2 files. on_inner (pp_sign cfg k ident g files) w2) = (w', Ok ())"
    using seal unfolding pp_seal_def Let_def on_inner_def [of _ w]
    by (cases "fail_as FailFs (on_set (\<lambda>s. with_top (at_bank k create_dir_all s)) (pw_inner w))";
        cases "snd (fail_as FailFs (on_set (\<lambda>s. with_top (at_bank k create_dir_all s)) (pw_inner w)))")
      (auto simp: on_ok_def split: if_splits)
  obtain b1 r1 where cb: "create_dir_all (?b (pw_inner w)) = (b1, r1)" by (rule prod.exhaust)
  then have "r1 = Ok ()" "?b i1 = b1"
    using i1 by (cases r1; auto simp: fail_as_def on_set_def with_top_def at_bank_def)+
  then have p1: "plain (?b i1) IVD_MANIFEST_TMP" "plain (?b i1) IVD_SIGNATURE_TMP"
    using cb tmp [of IVD_MANIFEST_TMP] tmp [of IVD_SIGNATURE_TMP]
    by (auto simp: create_dir_all_def plain_def look_def split: option.splits list.splits fault.splits)
  obtain w2 fs where w2: "attest_parts cfg k [] (first_occurrences [] parts) (w\<lparr>pw_inner := i1\<rparr>) = (w2, Ok fs)"
    and i2: "pp_sign cfg k ident g fs (pw_inner w2) = (pw_inner w', Ok ())"
    using s1
    by (cases "attest_parts cfg k [] (first_occurrences [] parts) (w\<lparr>pw_inner := i1\<rparr>)";
        cases "snd (attest_parts cfg k [] (first_occurrences [] parts) (w\<lparr>pw_inner := i1\<rparr>))")
      (auto simp: on_ok_def on_inner_def split: prod.splits)
  have at: "pw_inner w2 = i1" "list_all2 (attests cfg w k) (first_occurrences [] parts) fs"
    using attest_parts_spec [OF w2] by (auto simp: attests_def cong: list.rel_cong)
  obtain m where m: "snd (read_manifest_verified (bp_ivd (pp_inner cfg)) cr (sd_dirs (bw_set (pw_inner w')) k) c) = Ok m"
      "mf_gen m = g" "mset (mf_files m) = mset fs"
    using sign_attests [OF ok hsm(1) hsm(2) hsm(3) _ _ i2, of c] p1 at(1) by auto
  have names: "map vf_relative_path fs = first_occurrences [] parts"
    using at(2) by (auto simp: attests_def list_all2_conv_all_nth intro!: nth_equalityI)
  have "mset (map vf_relative_path (mf_files m)) = mset (first_occurrences [] parts)"
    using m(3) names by (metis mset_map)
  then have "distinct (map vf_relative_path (mf_files m))" "set (map vf_relative_path (mf_files m)) = set parts"
    using first_occurrences_spec [of "[]" parts] by (metis distinct.simps(1) mset_eq_imp_distinct_iff, metis mset_eq_setD set_empty2 sup_bot_left)
  moreover have "attests cfg w k (vf_relative_path f) f" if "f \<in> set (mf_files m)" for f
    using that mset_eq_setD [OF m(3)] at(2) by (auto simp: attests_def list_all2_conv_all_nth in_set_conv_nth)
  ultimately show ?thesis using m(1,2) by blast
qed

section \<open>A node with two partitions per bank\<close>

definition two_parts :: "unit partition_part list" where
  "two_parts = [\<lparr>pt_file = ''rootfs.img'', pt_partition_a = ''a0'', pt_partition_b = ''b0'', pt_record = None\<rparr>,
     \<lparr>pt_file = ''conf/vm.yaml'', pt_partition_a = ''a1'', pt_partition_b = ''b1'', pt_record = None\<rparr>]"

definition raw_cfg :: "(unit, nat, unit) pp_cfg" where
  "raw_cfg = \<lparr>pp_inner = (node_cfg env1)\<lparr>bp_node_boot_id := Some ''boot-1''\<rparr>, pp_parts = two_parts, pp_hsm = Some (\<lambda>c. (c, Ok True)),
     pp_hsm_crypto = Some cr1\<rparr>"

definition raw_world :: "nv_store \<Rightarrow> (unit, nat, unit) pp_world" where
  "raw_world nv = \<lparr>pw_inner = (node_world nv)\<lparr>bw_set := \<lparr>sd_top = Some [], sd_dirs = (\<lambda>k. Some []), sd_staging = (\<lambda>_. None), sd_faults = []\<rparr>\<rparr>,
     pw_nodes = [''a0'' \<mapsto> Medium [0, 0], ''b0'' \<mapsto> Medium [7, 8], ''a1'' \<mapsto> Medium [0], ''b1'' \<mapsto> Medium [9]], pw_faults = [], pw_records = ()\<rparr>"

definition identity12 :: firmware_identity where
  "identity12 = \<lparr>fi_name = None, fi_version = Some ''1.2'', fi_ecu_sw_number = None, fi_supplier_sw_number = None, fi_supplier_sw_version = None,
     fi_spare_part_number = None, fi_odx_file_id = None, fi_system_name = None, fi_programming_date = None, fi_tester_serial = None\<rparr>"

definition raw_engine :: "(unit, nat, unit) pp_world flash_engine" where
  "raw_engine = \<lparr>en_ops = partition_provider raw_cfg, en_crc = (\<lambda>_. 0), en_sha = (\<lambda>x. 1 # x), en_bank_set = 0, en_id = ''os'',
     en_single_bank = False, en_supports_rollback = True, en_images_dir = True, en_node_boot_id = Some ''boot-1'', en_declared_parts = None,
     en_decode = (\<lambda>b. None), en_validate_header = (\<lambda>_ _ _. Ok \<lparr>vd_type = Firmware, vd_meta = image6, vd_sha256 = None, vd_size = None,
       vd_raw_envelope = None, vd_disable_target = None\<rparr>),
     en_validate = (\<lambda>_ _ _. Ok \<lparr>vd_type = Firmware, vd_meta = image6, vd_sha256 = None, vd_size = None, vd_raw_envelope = None, vd_disable_target = None\<rparr>),
     en_pipeline = (\<lambda>_ _ b. (b, True)), en_ratchet_time_floor = (\<lambda>_ w. w), en_clock = (\<lambda>_. 0), en_hsm = None, en_hsm_crypto = True,
     en_post_provision_reload = None, en_vm_principal = False, en_vm_service = None, en_deactivator = None\<rparr>"

definition raw_state :: "(unit, nat, unit) pp_world engine_state" where
  "raw_state = \<lparr>es_world = raw_world blank1, es_session = None, es_transfer = None, es_upload_phase = None,
     es_packages = Map.empty, es_uploaded_parts = Map.empty, es_running_bank = A, es_update_id = None, es_install_source = False,
     es_next_id = 1, es_admin_cache = \<lparr>ac_epoch = 0, ac_value = None\<rparr>, es_anchors = None, es_coordinator = None\<rparr>"

lemma apart_two_parts: "apart two_parts"
  by (simp add: apart_def two_parts_def)

theorem partition_upload_leaves_running_bank_witness:
  "let w' = es_world (fold (session_step raw_engine) [StartFlash, UploadManifest [Ok [5]], UploadPayload ''u'' (Some 0) [Ok [1, 2]]] raw_state);
       k = fallback_target_active (pp_inner raw_cfg) (pw_inner (raw_world blank1))
   in bw_nv (pw_inner w') = blank1 \<and> (\<forall>p \<in> set two_parts. pw_nodes w' (device p k) = pw_nodes (raw_world blank1) (device p k))"
  using partition_upload_leaves_running_bank [of raw_engine raw_cfg raw_state
      "[StartFlash, UploadManifest [Ok [5]], UploadPayload ''u'' (Some 0) [Ok [1, 2]]]"] apart_two_parts
  by (simp add: raw_engine_def raw_cfg_def raw_state_def node_cfg_def part_keeps_refl Let_def) (simp add: raw_world_def node_world_def)

theorem partition_exact_fit_witness:
  "let w' = fst (pp_write_payload raw_cfg B ''rootfs.img'' [5] (raw_world blank1)) in pp_verify_payload raw_cfg B ''rootfs.img'' [1, 5] w' \<noteq> Ok ()"
proof -
  let ?w = "raw_world blank1"
  have f: "find_part raw_cfg ''rootfs.img'' = Some (two_parts ! 0)" "pw_nodes ?w (device (two_parts ! 0) B) = Some (Medium [7, 8])"
    by (simp_all add: find_part_def raw_cfg_def two_parts_def device_def raw_world_def)
  then have "pp_write_payload raw_cfg B ''rootfs.img'' [5] ?w = (fst (pp_write_payload raw_cfg B ''rootfs.img'' [5] ?w), Ok ())"
    by (simp add: pp_write_payload_def write_device_def) (simp add: raw_world_def)
  from partition_exact_fit [OF f this] show ?thesis
    by (simp add: raw_cfg_def node_cfg_def env1_def fill_def)
qed

lemma raw_seals: "is_ok (snd (pp_seal raw_cfg B identity12 6 [''rootfs.img'', ''conf/vm.yaml'', ''rootfs.img''] (raw_world nv)))"
  by code_simp

theorem partition_seal_attests_witness:
  "\<forall>nv. \<exists>w' m. pp_seal raw_cfg B identity12 6 [''rootfs.img'', ''conf/vm.yaml'', ''rootfs.img''] (raw_world nv) = (w', Ok ())
     \<and> snd (read_manifest_verified env1 cr1 (sd_dirs (bw_set (pw_inner w')) B) 0) = Ok m
     \<and> set (map vf_relative_path (mf_files m)) = {''rootfs.img'', ''conf/vm.yaml''}"
proof
  fix nv
  obtain w' where s: "pp_seal raw_cfg B identity12 6 [''rootfs.img'', ''conf/vm.yaml'', ''rootfs.img''] (raw_world nv) = (w', Ok ())"
    using raw_seals [of nv]
    by (cases "pp_seal raw_cfg B identity12 6 [''rootfs.img'', ''conf/vm.yaml'', ''rootfs.img''] (raw_world nv)";
        cases "snd (pp_seal raw_cfg B identity12 6 [''rootfs.img'', ''conf/vm.yaml'', ''rootfs.img''] (raw_world nv))") auto
  have c: "bp_ivd (pp_inner raw_cfg) = env1" "pp_hsm raw_cfg = Some (\<lambda>c. (c, Ok True))" "pp_hsm_crypto raw_cfg = Some cr1"
    by (simp_all add: raw_cfg_def node_cfg_def)
  have "plain \<lparr>bf_dir = sd_dirs (bw_set (pw_inner (raw_world nv))) B, bf_faults = sd_faults (bw_set (pw_inner (raw_world nv)))\<rparr> n" for n
    by (auto simp: raw_world_def plain_def look_def)
  from partition_seal_attests [OF _ c(2) _ c(3) this s, unfolded c(1), OF ivd_crypto_ok1 refl, of 0]
  show "\<exists>w' m. pp_seal raw_cfg B identity12 6 [''rootfs.img'', ''conf/vm.yaml'', ''rootfs.img''] (raw_world nv) = (w', Ok ())
     \<and> snd (read_manifest_verified env1 cr1 (sd_dirs (bw_set (pw_inner w')) B) 0) = Ok m
     \<and> set (map vf_relative_path (mf_files m)) = {''rootfs.img'', ''conf/vm.yaml''}"
    using s by fastforce
qed

end
