(* ===== verification/Authz.thy ===== *)
theory Authz
  imports LinkB Bootstrap
begin

text \<open>
  The authorisation of the SOVD surface (\<^verbatim>\<open>crates/component-mgr/src/sovd\<close>): capabilities, tiers and scopes and the
  decision for one request (\<^verbatim>\<open>authz.rs\<close>), the chain of a delegate and the rights in its certificate
  (\<^verbatim>\<open>delegation.rs\<close>, \<^verbatim>\<open>delegated_rights.rs\<close>), the authorizer built from the key store (\<^verbatim>\<open>issuer_keys.rs\<close>,
  \<^verbatim>\<open>identity.rs\<close>, \<^verbatim>\<open>hsm_authorizer.rs\<close>), the safe-time floor (\<^verbatim>\<open>time_floor.rs\<close>) and the host clock that follows it
  (\<^verbatim>\<open>crates/host-clock/src/lib.rs\<close>). The JWT, base64, X.509, PEM and P-256 libraries, the component check of
  \<^verbatim>\<open>sovd_api\<close>, \<^verbatim>\<open>clock_settime\<close> and SHA-256 are parameters. A string is its UTF-8 bytes.
\<close>

section \<open>White space\<close>

text \<open>
  \<^verbatim>\<open>str::split_whitespace\<close> and \<^verbatim>\<open>str::trim\<close>: the UTF-8 encodings of the characters with the Unicode property
  White\_Space. None is a proper prefix or suffix of another, and in well-formed UTF-8 an encoding
  occurs only as a whole character.
\<close>

definition white_space :: "string list" where
  "white_space = map (map char_of)
     ([[9], [10], [11], [12], [13], [32], [194, 133], [194, 160], [225, 154, 128],
       [226, 128, 168], [226, 128, 169], [226, 128, 175], [226, 129, 159], [227, 128, 128]]
      @ map (\<lambda>n. [226, 128, 128 + n]) [0..<11] :: nat list list)"

definition ws_prefix :: "string \<Rightarrow> nat" where
  "ws_prefix s = (case find (\<lambda>w. take (length w) s = w) white_space of None \<Rightarrow> 0 | Some w \<Rightarrow> length w)"

fun split_ws :: "string \<Rightarrow> string \<Rightarrow> string list" where
  "split_ws w [] = (if w = [] then [] else [w])"
| "split_ws w (c # s) =
     (if ws_prefix (c # s) = 0 then split_ws (w @ [c]) s
      else (if w = [] then [] else [w]) @ split_ws [] (drop (ws_prefix (c # s) - 1) s))"

definition split_whitespace :: "string \<Rightarrow> string list" where
  "split_whitespace = split_ws []"

fun trim_start :: "string \<Rightarrow> string" where
  "trim_start [] = []"
| "trim_start (c # s) = (if ws_prefix (c # s) = 0 then c # s else trim_start (drop (ws_prefix (c # s) - 1) s))"

definition ws_suffix :: "string \<Rightarrow> nat" where
  "ws_suffix s = (case find (\<lambda>w. take (length w) (rev s) = rev w) white_space of None \<Rightarrow> 0 | Some w \<Rightarrow> length w)"

function trim_end :: "string \<Rightarrow> string" where
  "trim_end s = (if ws_suffix s = 0 \<or> s = [] then s else trim_end (take (length s - ws_suffix s) s))"
  by pat_completeness auto
termination by (relation "measure length") auto

definition trim :: "string \<Rightarrow> string" where
  "trim s = trim_end (trim_start s)"

section \<open>The host clock and the safe-time floor\<close>

text \<open>
  What the authorizers of a process share: \<^verbatim>\<open>CLOCK_REALTIME\<close> in whole seconds (a \<^verbatim>\<open>time_t\<close>, 64 bits) and the
  atomic cell of the floor. A floor sink works on the clock.
\<close>

record floor_world =
  fw_clock :: int
  fw_floor :: u64

type_synonym floor_sink = "u64 \<Rightarrow> int \<Rightarrow> int"

datatype discipline_outcome = Stepped u64 u64 | AlreadyAhead | NotStepped

definition step_needed :: "u64 \<Rightarrow> u64 \<Rightarrow> u64 option" where
  "step_needed now floor_secs = (if now < floor_secs then Some floor_secs else None)"

definition now_realtime_secs :: "int \<Rightarrow> u64" where
  "now_realtime_secs clock = word_of_int (max clock 0)"

text \<open>\<open>settime t\<close> says whether \<^verbatim>\<open>clock_settime\<close> to \<open>t\<close> seconds succeeds; the cast to \<^verbatim>\<open>time_t\<close> is the signed reading.\<close>

definition discipline_to :: "(int \<Rightarrow> bool) \<Rightarrow> u64 \<Rightarrow> int \<Rightarrow> int \<times> discipline_outcome" where
  "discipline_to settime floor_secs clock =
     (let now = now_realtime_secs clock in
      case step_needed now floor_secs of
        None \<Rightarrow> (clock, AlreadyAhead)
      | Some to_secs \<Rightarrow>
          if settime (sint to_secs) then (sint to_secs, Stepped now to_secs) else (clock, NotStepped))"

definition NoopWallClockFloor :: "u64 \<Rightarrow> int \<Rightarrow> int \<times> discipline_outcome" where
  "NoopWallClockFloor floor_secs clock = (clock, NotStepped)"

definition NoopFloorSink :: floor_sink where
  "NoopFloorSink secs clock = clock"

definition ClockDiscipliningFloorSink :: "(int \<Rightarrow> bool) \<Rightarrow> floor_sink" where
  "ClockDiscipliningFloorSink settime secs clock = fst (discipline_to settime secs clock)"

definition adopt_monotonic :: "u64 \<Rightarrow> u64 \<Rightarrow> u64" where
  "adopt_monotonic local incoming = max local incoming"

definition time_floor_read :: "'c hsm_backend \<Rightarrow> 'c \<Rightarrow> 'c \<times> (hsm_error + u64)" where
  "time_floor_read be c = hp_read_monotonic be c HANDLE_TIME_FLOOR"

definition time_floor_read_or_zero :: "'c hsm_backend \<Rightarrow> 'c \<Rightarrow> 'c \<times> u64" where
  "time_floor_read_or_zero be c =
     (case time_floor_read be c of (c', Ok v) \<Rightarrow> (c', v) | (c', Err _) \<Rightarrow> (c', 0))"

definition time_floor_advance :: "'c hsm_backend \<Rightarrow> 'c \<Rightarrow> u64 \<Rightarrow> 'c \<times> (hsm_error + u64)" where
  "time_floor_advance be c verified_secs = hp_raise_monotonic be c HANDLE_TIME_FLOOR verified_secs"

section \<open>Capabilities, tiers and issuers\<close>

datatype tier = Operational | HighConsequence

fun tier_lt :: "tier \<Rightarrow> tier \<Rightarrow> bool" where
  "tier_lt Operational HighConsequence = True"
| "tier_lt _ _ = False"

datatype capability =
    DataRead | DataWrite | OperationsExecute | ModesSet | UpdateTransfer | UpdateExecute
  | UpdateVerdict | ResetExecute | FactoryReset | ComponentAdmin | Admin | CapRead

fun capability_tier :: "capability \<Rightarrow> tier" where
  "capability_tier FactoryReset = HighConsequence"
| "capability_tier _ = Operational"

fun capability_scope :: "capability \<Rightarrow> string option" where
  "capability_scope DataRead = Some ''data:read''"
| "capability_scope DataWrite = Some ''data:write''"
| "capability_scope OperationsExecute = Some ''operations:execute''"
| "capability_scope ModesSet = Some ''modes:set''"
| "capability_scope UpdateTransfer = Some ''update:transfer''"
| "capability_scope UpdateExecute = Some ''update:execute''"
| "capability_scope UpdateVerdict = Some ''update:verdict''"
| "capability_scope ResetExecute = Some ''reset:execute''"
| "capability_scope FactoryReset = Some ''factory-reset''"
| "capability_scope ComponentAdmin = Some ''component-admin''"
| "capability_scope Admin = Some ''admin''"
| "capability_scope CapRead = None"

record 'k trusted_issuer =
  ti_id :: string
  ti_audience :: string
  ti_key :: 'k
  ti_ceiling :: tier

text \<open>\<open>ta_time_floor\<close> says whether the shared floor cell is attached.\<close>

record 'k tiered_authorizer =
  ta_issuers :: "'k trusted_issuer list"
  ta_expected_boot_id :: "string option"
  ta_expected_epoch :: "u64 option"
  ta_pinned_root_pem :: "bytes option"
  ta_aud :: "string option"
  ta_read_open :: bool
  ta_time_floor :: bool
  ta_floor_sink :: floor_sink

definition tiered_authorizer_new :: "'k trusted_issuer list \<Rightarrow> 'k tiered_authorizer" where
  "tiered_authorizer_new issuers =
     \<lparr>ta_issuers = issuers, ta_expected_boot_id = None, ta_expected_epoch = None, ta_pinned_root_pem = None,
      ta_aud = (case issuers of [] \<Rightarrow> None | i # _ \<Rightarrow> Some (ti_audience i)),
      ta_read_open = False, ta_time_floor = False, ta_floor_sink = NoopFloorSink\<rparr>"

definition with_read_open :: "'k tiered_authorizer \<Rightarrow> 'k tiered_authorizer" where
  "with_read_open a = a\<lparr>ta_read_open := True\<rparr>"

definition with_pinned_root :: "bytes \<Rightarrow> 'k tiered_authorizer \<Rightarrow> 'k tiered_authorizer" where
  "with_pinned_root pem a = a\<lparr>ta_pinned_root_pem := Some pem\<rparr>"

definition with_aud :: "string \<Rightarrow> 'k tiered_authorizer \<Rightarrow> 'k tiered_authorizer" where
  "with_aud aud a = a\<lparr>ta_aud := Some aud\<rparr>"

definition with_boot_id :: "string \<Rightarrow> 'k tiered_authorizer \<Rightarrow> 'k tiered_authorizer" where
  "with_boot_id boot_id a = a\<lparr>ta_expected_boot_id := Some boot_id\<rparr>"

definition with_epoch :: "u64 \<Rightarrow> 'k tiered_authorizer \<Rightarrow> 'k tiered_authorizer" where
  "with_epoch epoch a = a\<lparr>ta_expected_epoch := Some epoch\<rparr>"

definition with_time_floor :: "'k tiered_authorizer \<Rightarrow> 'k tiered_authorizer" where
  "with_time_floor a = a\<lparr>ta_time_floor := True\<rparr>"

definition with_floor_sink :: "floor_sink \<Rightarrow> 'k tiered_authorizer \<Rightarrow> 'k tiered_authorizer" where
  "with_floor_sink sink a = a\<lparr>ta_floor_sink := sink\<rparr>"

definition ratchet_floor :: "'k tiered_authorizer \<Rightarrow> u64 \<Rightarrow> floor_world \<Rightarrow> floor_world" where
  "ratchet_floor a secs w =
     (let w' = (if ta_time_floor a then w\<lparr>fw_floor := max (fw_floor w) secs\<rparr> else w)
      in w'\<lparr>fw_clock := ta_floor_sink a secs (fw_clock w')\<rparr>)"

definition effective_now :: "'k tiered_authorizer \<Rightarrow> floor_world \<Rightarrow> u64" where
  "effective_now a w =
     (let now_secs = word_of_int (max (fw_clock w) 0);
          floor_secs = (if ta_time_floor a then fw_floor w else 0)
      in max now_secs floor_secs)"

section \<open>Requests and tokens\<close>

record access_request =
  rq_bearer :: "string option"
  rq_component :: "string option"
  rq_capability :: capability

record client_context =
  cx_subject :: string
  cx_scopes :: "string list"

record claims =
  jc_sub :: string
  jc_scope :: "string option"
  jc_scopes :: "string list option"
  jc_boot_id :: "string option"
  jc_epoch :: "u64 option"

definition into_scopes :: "claims \<Rightarrow> string list" where
  "into_scopes c =
     (case jc_scopes c of Some arr \<Rightarrow> arr
      | None \<Rightarrow> (case jc_scope c of Some s \<Rightarrow> split_whitespace s | None \<Rightarrow> []))"

datatype chain_reason = ChainLibrary string | ChainExpired u64 u64

datatype delegation_error = NoChain | BadCert string | ChainNotTrusted chain_reason

datatype authz_error =
    MissingBearer
  | InvalidHeader string
  | DelegationNotConfigured
  | MissingKid
  | UntrustedIssuer string
  | TokenVerification string
  | CeilingExceeded string tier tier
  | StaleBoot
  | StaleEpoch
  | MissingEpoch
  | NoComponentScope string
  | LacksCapability string
  | MissingX5c
  | MalformedX5c string
  | ChainRejected delegation_error
  | LeafReparse string
  | LeafSpki string
  | LeafNotP256 string
  | LeafReencode string
  | LeafDecodingKey string
  | NoDeviceAudience
  | CertDoesNotGrant string

definition check_freshness :: "'k tiered_authorizer \<Rightarrow> string option \<Rightarrow> u64 option \<Rightarrow> authz_error + unit" where
  "check_freshness a boot_id epoch =
     and_then (case ta_expected_boot_id a of None \<Rightarrow> Ok ()
               | Some expected \<Rightarrow> if boot_id = Some expected then Ok () else Err StaleBoot) (\<lambda>_.
       (case ta_expected_epoch a of None \<Rightarrow> Ok ()
        | Some expected \<Rightarrow>
            (case epoch of Some e \<Rightarrow> if expected \<le> e then Ok () else Err StaleEpoch
             | None \<Rightarrow> Err MissingEpoch)))"

definition strip_bearer :: "string option \<Rightarrow> authz_error + string" where
  "strip_bearer header =
     (case opt_filter (\<lambda>t. t \<noteq> [])
             (Option.bind header (\<lambda>v. if take 7 v = ''Bearer '' then Some (trim (drop 7 v)) else None)) of
        Some t \<Rightarrow> Ok t
      | None \<Rightarrow> Err MissingBearer)"

section \<open>Libraries the decision calls\<close>

text \<open>
  The fields of a token header and of a certificate the code reads, the validation a token is decoded
  with, and the library functions. \<open>xt_decode\<close> takes the clock: the library reads the wall clock for the time claims.
  An error of a library is its text.
\<close>

record jwt_header =
  jh_kid :: "string option"
  jh_x5c :: "string list option"

datatype jwt_algorithm = ES256

record jwt_validation =
  jv_algorithm :: jwt_algorithm
  jv_audience :: "string list"
  jv_issuer :: "string list option"
  jv_required :: "string list"

record x509_extension =
  xe_extn_id :: string
  xe_critical :: bool
  xe_extn_value :: bytes

record certificate =
  ct_not_before :: u64
  ct_not_after :: u64
  ct_extensions :: "x509_extension list option"
  ct_spki_der :: "string + bytes"

record ('p, 'k) authz_libs =
  xt_decode_header :: "string \<Rightarrow> string + jwt_header"
  xt_decode :: "string \<Rightarrow> 'k \<Rightarrow> jwt_validation \<Rightarrow> int \<Rightarrow> string + claims"
  xt_can_access_component :: "client_context \<Rightarrow> string \<Rightarrow> bool"
  xt_b64_decode :: "string \<Rightarrow> string + bytes"
  xt_pem_certs :: "bytes \<Rightarrow> (string + bytes) list"
  xt_root_add :: "bytes \<Rightarrow> string + unit"
  xt_build_verifier :: "bytes list \<Rightarrow> string + unit"
  xt_verify_client_cert :: "bytes list \<Rightarrow> bytes \<Rightarrow> bytes list \<Rightarrow> u64 \<Rightarrow> string + unit"
  xt_cert_from_der :: "bytes \<Rightarrow> string + certificate"
  xt_cert_to_pem :: "certificate \<Rightarrow> string + bytes"
  xt_utf8_from_der :: "bytes \<Rightarrow> string + string"
  xt_utf8_to_der :: "string \<Rightarrow> string + bytes"
  xt_p256_from_der :: "bytes \<Rightarrow> string + 'p"
  xt_p256_to_pem :: "'p \<Rightarrow> string + string"
  xt_key_from_ec_pem :: "string \<Rightarrow> string + 'k"
  xt_sha256 :: "bytes \<Rightarrow> bytes"

definition map_err :: "('a \<Rightarrow> 'b) \<Rightarrow> 'a + 'c \<Rightarrow> 'b + 'c" where
  "map_err f r = (case r of Err e \<Rightarrow> Err (f e) | Ok v \<Rightarrow> Ok v)"

lemma map_err_eq_Ok [simp]: "map_err f r = Ok v \<longleftrightarrow> r = Ok v"
  by (cases r) (simp_all add: map_err_def)

section \<open>Delegated rights\<close>

definition DELEGATED_RIGHTS_OID :: string where
  "DELEGATED_RIGHTS_OID = ''1.3.6.1.4.1.99999.1.1''"

definition build_extension :: "('p, 'k) authz_libs \<Rightarrow> string \<Rightarrow> string + x509_extension" where
  "build_extension lib scopes =
     and_then (xt_utf8_to_der lib scopes) (\<lambda>value_der.
       Ok \<lparr>xe_extn_id = DELEGATED_RIGHTS_OID, xe_critical = False, xe_extn_value = value_der\<rparr>)"

definition parse_scopes :: "('p, 'k) authz_libs \<Rightarrow> bytes \<Rightarrow> string list option" where
  "parse_scopes lib extn_value_der =
     (case xt_utf8_from_der lib extn_value_der of Ok s \<Rightarrow> Some (split_whitespace s) | Err _ \<Rightarrow> None)"

definition granted_scopes :: "('p, 'k) authz_libs \<Rightarrow> certificate \<Rightarrow> string list option" where
  "granted_scopes lib cert =
     Option.bind (ct_extensions cert) (\<lambda>exts.
     Option.bind (find (\<lambda>e. xe_extn_id e = DELEGATED_RIGHTS_OID) exts) (\<lambda>ext.
       parse_scopes lib (xe_extn_value ext)))"

section \<open>Delegate chains\<close>

record delegate_authority =
  da_leaf_der :: bytes
  da_granted_scopes :: "string list"
  da_not_before_secs :: u64

fun root_store :: "('p, 'k) authz_libs \<Rightarrow> (string + bytes) list \<Rightarrow> bytes list \<Rightarrow> delegation_error + bytes list" where
  "root_store lib [] roots = Ok roots"
| "root_store lib (cert # certs) roots =
     and_then (map_err BadCert cert) (\<lambda>c.
     and_then (map_err BadCert (xt_root_add lib c)) (\<lambda>_.
       root_store lib certs (roots @ [c])))"

definition verify_delegate_chain ::
  "('p, 'k) authz_libs \<Rightarrow> bytes list \<Rightarrow> bytes \<Rightarrow> u64 \<Rightarrow> delegation_error + delegate_authority" where
  "verify_delegate_chain lib x5c pinned_root_pem now_secs =
     (case x5c of [] \<Rightarrow> Err NoChain
      | leaf_der # intermediate_ders \<Rightarrow>
          and_then (root_store lib (xt_pem_certs lib pinned_root_pem) []) (\<lambda>roots.
          and_then (map_err (ChainNotTrusted \<circ> ChainLibrary) (xt_build_verifier lib roots)) (\<lambda>_.
          and_then (map_err BadCert (xt_cert_from_der lib leaf_der)) (\<lambda>leaf.
          and_then (map_err (ChainNotTrusted \<circ> ChainLibrary)
                     (xt_verify_client_cert lib roots leaf_der intermediate_ders (ct_not_before leaf))) (\<lambda>_.
            if ct_not_after leaf < now_secs
            then Err (ChainNotTrusted (ChainExpired (ct_not_after leaf) now_secs))
            else Ok \<lparr>da_leaf_der = leaf_der,
                     da_granted_scopes = (case granted_scopes lib leaf of Some scopes \<Rightarrow> scopes | None \<Rightarrow> []),
                     da_not_before_secs = ct_not_before leaf\<rparr>)))))"

section \<open>The decision\<close>

fun collect_results :: "('e + 'a) list \<Rightarrow> 'e + 'a list" where
  "collect_results [] = Ok []"
| "collect_results (r # rs) = and_then r (\<lambda>x. and_then (collect_results rs) (\<lambda>xs. Ok (x # xs)))"

text \<open>The key a verified leaf carries, from its certificate.\<close>

definition leaf_decoding_key :: "('p, 'k) authz_libs \<Rightarrow> bytes \<Rightarrow> authz_error + 'k" where
  "leaf_decoding_key lib leaf_der =
     and_then (map_err LeafReparse (xt_cert_from_der lib leaf_der)) (\<lambda>leaf.
     and_then (map_err LeafSpki (ct_spki_der leaf)) (\<lambda>spki_der.
     and_then (map_err LeafNotP256 (xt_p256_from_der lib spki_der)) (\<lambda>leaf_pub.
     and_then (map_err LeafReencode (xt_p256_to_pem lib leaf_pub)) (\<lambda>leaf_pem.
       map_err LeafDecodingKey (xt_key_from_ec_pem lib leaf_pem)))))"

definition context_of :: "claims \<Rightarrow> client_context" where
  "context_of c = \<lparr>cx_subject = jc_sub c, cx_scopes = into_scopes c\<rparr>"

definition check_component :: "('p, 'k) authz_libs \<Rightarrow> client_context \<Rightarrow> access_request \<Rightarrow> authz_error + unit" where
  "check_component lib ctx req =
     (case rq_component req of None \<Rightarrow> Ok ()
      | Some component \<Rightarrow> if xt_can_access_component lib ctx component then Ok () else Err (NoComponentScope component))"

definition delegated_validation :: "string \<Rightarrow> jwt_validation" where
  "delegated_validation aud =
     \<lparr>jv_algorithm = ES256, jv_audience = [aud], jv_issuer = None, jv_required = [''exp'', ''aud'', ''sub'']\<rparr>"

definition pinned_validation :: "string \<Rightarrow> string \<Rightarrow> jwt_validation" where
  "pinned_validation aud iss =
     \<lparr>jv_algorithm = ES256, jv_audience = [aud], jv_issuer = Some [iss], jv_required = [''exp'', ''aud'', ''iss'', ''sub'']\<rparr>"

text \<open>Steps (d) to (i): what remains once the chain is accepted and the floor raised.\<close>

definition delegated_token ::
  "('p, 'k) authz_libs \<Rightarrow> 'k tiered_authorizer \<Rightarrow> string \<Rightarrow> delegate_authority \<Rightarrow> access_request \<Rightarrow> int
     \<Rightarrow> authz_error + client_context" where
  "delegated_token lib a token authority req clock =
     and_then (leaf_decoding_key lib (da_leaf_der authority)) (\<lambda>leaf_key.
     and_then (case ta_aud a of None \<Rightarrow> Err NoDeviceAudience | Some aud \<Rightarrow> Ok aud) (\<lambda>device_aud.
     and_then (map_err TokenVerification (xt_decode lib token leaf_key (delegated_validation device_aud) clock)) (\<lambda>claims.
     and_then (check_freshness a (jc_boot_id claims) (jc_epoch claims)) (\<lambda>_.
       let ctx = context_of claims in
       and_then (check_component lib ctx req) (\<lambda>_.
         (case capability_scope (rq_capability req) of
            None \<Rightarrow> Ok ctx
          | Some scope \<Rightarrow>
              if scope \<notin> set (cx_scopes ctx) then Err (LacksCapability scope)
              else if scope \<notin> set (da_granted_scopes authority) then Err (CertDoesNotGrant scope)
              else Ok ctx))))))"

definition authorize_delegated ::
  "('p, 'k) authz_libs \<Rightarrow> 'k tiered_authorizer \<Rightarrow> string \<Rightarrow> jwt_header \<Rightarrow> bytes \<Rightarrow> access_request \<Rightarrow> floor_world
     \<Rightarrow> floor_world \<times> (authz_error + client_context)" where
  "authorize_delegated lib a token header pinned_root req w =
     (case jh_x5c header of None \<Rightarrow> (w, Err MissingX5c)
      | Some x5c \<Rightarrow>
          (case collect_results (map (xt_b64_decode lib) x5c) of Err e \<Rightarrow> (w, Err (MalformedX5c e))
           | Ok chain_ders \<Rightarrow>
               (case verify_delegate_chain lib chain_ders pinned_root (effective_now a w) of
                  Err e \<Rightarrow> (w, Err (ChainRejected e))
                | Ok authority \<Rightarrow>
                    let w' = ratchet_floor a (da_not_before_secs authority) w
                    in (w', delegated_token lib a token authority req (fw_clock w')))))"

text \<open>The path of a token under a pinned issuer.\<close>

definition pinned_token ::
  "('p, 'k) authz_libs \<Rightarrow> 'k tiered_authorizer \<Rightarrow> string \<Rightarrow> jwt_header \<Rightarrow> access_request \<Rightarrow> int
     \<Rightarrow> authz_error + client_context" where
  "pinned_token lib a token header req clock =
     and_then (case jh_kid header of None \<Rightarrow> Err MissingKid | Some kid \<Rightarrow> Ok kid) (\<lambda>kid.
     and_then (case find (\<lambda>i. ti_id i = kid) (ta_issuers a) of None \<Rightarrow> Err (UntrustedIssuer kid) | Some i \<Rightarrow> Ok i) (\<lambda>issuer.
     and_then (map_err TokenVerification
                (xt_decode lib token (ti_key issuer) (pinned_validation (ti_audience issuer) (ti_id issuer)) clock)) (\<lambda>claims.
     let needed = capability_tier (rq_capability req) in
     if tier_lt (ti_ceiling issuer) needed then Err (CeilingExceeded (ti_id issuer) (ti_ceiling issuer) needed)
     else and_then (check_freshness a (jc_boot_id claims) (jc_epoch claims)) (\<lambda>_.
       let ctx = context_of claims in
       and_then (check_component lib ctx req) (\<lambda>_.
         (case capability_scope (rq_capability req) of
            None \<Rightarrow> Ok ctx
          | Some scope \<Rightarrow> if scope \<notin> set (cx_scopes ctx) then Err (LacksCapability scope) else Ok ctx))))))"

definition anonymous_reader :: client_context where
  "anonymous_reader = \<lparr>cx_subject = ''anonymous'', cx_scopes = [''component:*'']\<rparr>"

definition authorize ::
  "('p, 'k) authz_libs \<Rightarrow> 'k tiered_authorizer \<Rightarrow> access_request \<Rightarrow> floor_world
     \<Rightarrow> floor_world \<times> (authz_error + client_context)" where
  "authorize lib a req w =
     (if ta_read_open a \<and> rq_bearer req = None \<and> rq_capability req \<in> {CapRead, DataRead}
      then (w, Ok anonymous_reader)
      else case strip_bearer (rq_bearer req) of Err e \<Rightarrow> (w, Err e)
      | Ok token \<Rightarrow>
          (case xt_decode_header lib token of Err e \<Rightarrow> (w, Err (InvalidHeader e))
           | Ok header \<Rightarrow>
               if jh_x5c header \<noteq> None
               then (case ta_pinned_root_pem a of None \<Rightarrow> (w, Err DelegationNotConfigured)
                     | Some pinned_root \<Rightarrow> authorize_delegated lib a token header pinned_root req w)
               else (w, pinned_token lib a token header req (fw_clock w))))"

section \<open>The authorizer from the key store\<close>

definition role_key_id :: "key_role \<Rightarrow> string" where
  "role_key_id r = sl_key_id (the (slot_for_handle (role_handle r)))"

definition DELEGATION_ROOT_ANCHOR_ID :: string where
  "DELEGATION_ROOT_ANCHOR_ID = ''delegation-root''"

definition ISSUER_ANCHORS :: "(key_role \<times> tier) list" where
  "ISSUER_ANCHORS =
     [(FactoryResetIssuer, HighConsequence), (OperationalIssuer, Operational), (JwtSigning, Operational)]"

datatype build_error =
    IssuerKey string string
  | DelegationRoot string

definition decoding_key_from_spki_der :: "('p, 'k) authz_libs \<Rightarrow> bytes \<Rightarrow> string + 'k" where
  "decoding_key_from_spki_der lib der =
     and_then (xt_p256_from_der lib der) (\<lambda>vk.
     and_then (xt_p256_to_pem lib vk) (\<lambda>pem. xt_key_from_ec_pem lib pem))"

definition cert_der_to_pem :: "('p, 'k) authz_libs \<Rightarrow> bytes \<Rightarrow> string + bytes" where
  "cert_der_to_pem lib der = and_then (xt_cert_from_der lib der) (\<lambda>cert. xt_cert_to_pem lib cert)"

fun pin_issuers ::
  "('p, 'k) authz_libs \<Rightarrow> (string \<Rightarrow> bytes option) \<Rightarrow> string \<Rightarrow> (key_role \<times> tier) list \<Rightarrow> 'k trusted_issuer list
     \<Rightarrow> build_error + 'k trusted_issuer list" where
  "pin_issuers lib get_pubkey_der audience [] issuers = Ok issuers"
| "pin_issuers lib get_pubkey_der audience ((role, tier_cap) # anchors) issuers =
     (case get_pubkey_der (role_key_id role) of None \<Rightarrow> pin_issuers lib get_pubkey_der audience anchors issuers
      | Some der \<Rightarrow>
          and_then (map_err (IssuerKey (role_key_id role)) (decoding_key_from_spki_der lib der)) (\<lambda>key.
            pin_issuers lib get_pubkey_der audience anchors
              (issuers @ [\<lparr>ti_id = role_key_id role, ti_audience = audience, ti_key = key, ti_ceiling = tier_cap\<rparr>])))"

definition authorizer_from_anchors ::
  "('p, 'k) authz_libs \<Rightarrow> (string \<Rightarrow> bytes option) \<Rightarrow> (string \<Rightarrow> bytes option) \<Rightarrow> string
     \<Rightarrow> build_error + 'k tiered_authorizer" where
  "authorizer_from_anchors lib get_pubkey_der get_trust_anchor_der audience =
     and_then (pin_issuers lib get_pubkey_der audience ISSUER_ANCHORS []) (\<lambda>issuers.
       let a = with_aud audience (tiered_authorizer_new issuers) in
       (case get_trust_anchor_der DELEGATION_ROOT_ANCHOR_ID of None \<Rightarrow> Ok a
        | Some der \<Rightarrow>
            and_then (map_err DelegationRoot (cert_der_to_pem lib der)) (\<lambda>pem. Ok (with_pinned_root pem a))))"

definition ecu_id_from_spki_der :: "('p, 'k) authz_libs \<Rightarrow> bytes \<Rightarrow> string" where
  "ecu_id_from_spki_der lib der = hex_lower (xt_sha256 lib der)"

definition ecu_id :: "('p, 'k) authz_libs \<Rightarrow> (string \<Rightarrow> bytes option) \<Rightarrow> string option" where
  "ecu_id lib get_pubkey_der = map_option (ecu_id_from_spki_der lib) (get_pubkey_der (role_key_id DeviceDecryption))"

definition anchor_der ::
  "(string \<Rightarrow> bytes option) \<Rightarrow> (string \<Rightarrow> bytes option) option \<Rightarrow> string \<Rightarrow> bytes option" where
  "anchor_der from_keystore extra key_id =
     (case from_keystore key_id of Some der \<Rightarrow> Some der
      | None \<Rightarrow> (case extra of Some f \<Rightarrow> f key_id | None \<Rightarrow> None))"

text \<open>
  What the HSM answers at one moment (\<^verbatim>\<open>get_public_key_der\<close>, \<^verbatim>\<open>get_trust_anchor_der\<close>), with the manifest file of the
  key store: whether it exists and its modification time, where that can be read.
\<close>

record keystore =
  ks_public_key_der :: "u32 \<Rightarrow> hsm_error + bytes"
  ks_trust_anchor_der :: "string \<Rightarrow> hsm_error + bytes"
  ks_manifest_exists :: bool
  ks_manifest_mtime :: "nat option"

definition ok :: "'e + 'a \<Rightarrow> 'a option" where
  "ok r = (case r of Ok v \<Rightarrow> Some v | Err _ \<Rightarrow> None)"

definition keystore_anchor :: "keystore \<Rightarrow> string \<Rightarrow> bytes option" where
  "keystore_anchor ks key_id = Option.bind (handle_for_key_id key_id) (\<lambda>h. ok (ks_public_key_der ks h))"

definition build_authorizer_now ::
  "('p, 'k) authz_libs \<Rightarrow> keystore \<Rightarrow> string option \<Rightarrow> bool \<Rightarrow> floor_sink \<Rightarrow> (string \<Rightarrow> bytes option) option
     \<Rightarrow> 'k tiered_authorizer" where
  "build_authorizer_now lib ks boot_id read_open sink extra_anchor =
     (let der_for = anchor_der (keystore_anchor ks) extra_anchor;
          anchor_for = (\<lambda>anchor_id. ok (ks_trust_anchor_der ks anchor_id));
          audience = (case ecu_id lib der_for of Some aud \<Rightarrow> aud | None \<Rightarrow> []);
          a0 = (case authorizer_from_anchors lib der_for anchor_for audience of Ok a \<Rightarrow> a | Err _ \<Rightarrow> tiered_authorizer_new []);
          a1 = (case boot_id of Some b \<Rightarrow> with_boot_id b a0 | None \<Rightarrow> a0);
          a2 = (if read_open then with_read_open a1 else a1)
      in with_floor_sink sink (with_time_floor a2))"

definition surface_is_open :: "keystore \<Rightarrow> bool \<Rightarrow> bool \<Rightarrow> bool" where
  "surface_is_open ks bootstrap_open force_open \<longleftrightarrow> force_open \<or> bootstrap_open \<and> \<not> ks_manifest_exists ks"

text \<open>The cached authorizer of one surface: its configuration and its cache cell.\<close>

record surface =
  su_boot_id :: "string option"
  su_read_open :: bool
  su_bootstrap_open :: bool
  su_force_open :: bool
  su_floor_sink :: floor_sink
  su_extra_anchor :: "(string \<Rightarrow> bytes option) option"

type_synonym 'k cache_cell = "(nat option \<times> 'k tiered_authorizer) option"

definition destructive :: "floor_sink \<Rightarrow> (string \<Rightarrow> bytes option) option \<Rightarrow> string \<Rightarrow> surface" where
  "destructive sink extra boot_id =
     \<lparr>su_boot_id = Some boot_id, su_read_open = False, su_bootstrap_open = False, su_force_open = False,
      su_floor_sink = sink, su_extra_anchor = extra\<rparr>"

definition general :: "floor_sink \<Rightarrow> (string \<Rightarrow> bytes option) option \<Rightarrow> bool \<Rightarrow> surface" where
  "general sink extra allow_unauthenticated =
     \<lparr>su_boot_id = None, su_read_open = True, su_bootstrap_open = True, su_force_open = allow_unauthenticated,
      su_floor_sink = sink, su_extra_anchor = extra\<rparr>"

definition is_open :: "surface \<Rightarrow> keystore \<Rightarrow> bool" where
  "is_open su ks = surface_is_open ks (su_bootstrap_open su) (su_force_open su)"

definition surface_authorizer :: "('p, 'k) authz_libs \<Rightarrow> surface \<Rightarrow> keystore \<Rightarrow> 'k tiered_authorizer" where
  "surface_authorizer lib su ks =
     build_authorizer_now lib ks (su_boot_id su) (su_read_open su) (su_floor_sink su) (su_extra_anchor su)"

definition refreshed :: "('p, 'k) authz_libs \<Rightarrow> surface \<Rightarrow> keystore \<Rightarrow> 'k cache_cell \<Rightarrow> nat option \<times> 'k tiered_authorizer" where
  "refreshed lib su ks cache =
     (let mtime = ks_manifest_mtime ks in
      case cache of Some (m, a) \<Rightarrow> if m = mtime then (m, a) else (mtime, surface_authorizer lib su ks)
      | None \<Rightarrow> (mtime, surface_authorizer lib su ks))"

definition cached_authorize ::
  "('p, 'k) authz_libs \<Rightarrow> surface \<Rightarrow> keystore \<Rightarrow> access_request \<Rightarrow> 'k cache_cell \<times> floor_world
     \<Rightarrow> ('k cache_cell \<times> floor_world) \<times> (authz_error + client_context)" where
  "cached_authorize lib su ks req st =
     (let cell = refreshed lib su ks (fst st);
          (w', r) = authorize lib (snd cell) req (snd st)
      in ((Some cell, w'), r))"

end
