(* ===== verification/AuthzProps.thy ===== *)
theory AuthzProps
  imports Authz
begin

text \<open>
  What the authorisation of the SOVD surface promises. The floor sinks satisfy one contract (the clock only goes
  forward), the shared floor never falls, and so a delegate certificate that expired before the floor is
  refused for ever, whatever happens to the clock. A factory reset needs the factory-reset issuer's
  key or a delegate whose certificate grants it. The cached authorizer answers as one built anew for
  every request as long as a modification time stands for one content of the key store. Scopes put in a
  certificate are read back.
\<close>

section \<open>Floor sinks\<close>

definition time_t :: "int \<Rightarrow> bool" where
  "time_t c \<longleftrightarrow> - (2 ^ 63) \<le> c \<and> c < 2 ^ 63"

locale forward_sink =
  fixes advance :: floor_sink
  assumes forward: "time_t c \<Longrightarrow> time_t (advance secs c) \<and> c \<le> advance secs c"
begin

lemma ratchet_forward:
  assumes "time_t (fw_clock w)" "ta_floor_sink a = advance"
  shows "time_t (fw_clock (ratchet_floor a secs w)) \<and> fw_clock w \<le> fw_clock (ratchet_floor a secs w)"
  using forward [OF assms(1), of secs] assms(2) by (simp add: ratchet_floor_def Let_def)

lemma authorize_forward:
  assumes "time_t (fw_clock w)" "ta_floor_sink a = advance"
  shows "time_t (fw_clock (fst (authorize lib a req w))) \<and> fw_clock w \<le> fw_clock (fst (authorize lib a req w))"
  using ratchet_forward [OF assms] assms(1)
  by (auto simp: authorize_def authorize_delegated_def Let_def split: sum.splits option.splits if_splits)

end

interpretation noop: forward_sink NoopFloorSink
  by unfold_locales (simp add: NoopFloorSink_def)

lemma now_realtime_int: "time_t c \<Longrightarrow> uint (now_realtime_secs c) = max c 0"
  by (simp add: time_t_def now_realtime_secs_def unsigned_of_int take_bit_int_eq_self)

lemma sint_u64: "sint (x :: u64) = (if uint x < 2 ^ 63 then uint x else uint x - 2 ^ 64)"
proof -
  have s: "sint x = (uint x + 2 ^ 63) mod 2 ^ 64 - 2 ^ 63"
    by (simp add: sint_uint signed_take_bit_eq_take_bit_shift take_bit_eq_mod)
  show ?thesis
  proof (cases "uint x < 2 ^ 63")
    case True
    then have "(uint x + 2 ^ 63) mod 2 ^ 64 = uint x + 2 ^ 63" by (intro mod_pos_pos_trivial) simp_all
    with True s show ?thesis by simp
  next
    case False
    have "(uint x + 2 ^ 63) mod 2 ^ 64 = (uint x - 2 ^ 63 + 2 ^ 64) mod 2 ^ 64" by (simp add: algebra_simps)
    also have "\<dots> = (uint x - 2 ^ 63) mod 2 ^ 64" by (rule mod_add_self2)
    also have "\<dots> = uint x - 2 ^ 63" using False uint_lt2p [of x] by (intro mod_pos_pos_trivial) simp_all
    finally show ?thesis using False s by simp
  qed
qed

text \<open>POSIX: \<^verbatim>\<open>clock_settime\<close> refuses times before the epoch. \<open>s\<close> is any other condition (privilege, range).\<close>

interpretation host_clock: forward_sink "ClockDiscipliningFloorSink (\<lambda>t. 0 \<le> t \<and> s t)" for s
proof
  fix c :: int and secs :: u64
  assume c: "time_t c"
  have "c \<le> sint secs" if "now_realtime_secs c < secs" "0 \<le> sint secs"
    using that now_realtime_int [OF c] uint_lt2p [of secs] by (simp add: word_less_def sint_u64 split: if_splits)
  moreover have "time_t (sint secs)"
    using uint_lt2p [of secs] order_trans [OF _ uint_ge_0 [of secs], of "- (2 ^ 63)"]
    by (simp add: time_t_def sint_u64)
  ultimately show "time_t (ClockDiscipliningFloorSink (\<lambda>t. 0 \<le> t \<and> s t) secs c)
      \<and> c \<le> ClockDiscipliningFloorSink (\<lambda>t. 0 \<le> t \<and> s t) secs c"
    using c by (auto simp: ClockDiscipliningFloorSink_def discipline_to_def step_needed_def Let_def)
qed

section \<open>The floor never falls\<close>

lemma authorize_floor: "fw_floor w \<le> fw_floor (fst (authorize lib a req w))"
  by (auto simp: authorize_def authorize_delegated_def ratchet_floor_def Let_def split: sum.splits option.splits)

lemma effective_now_floor: "ta_time_floor a \<Longrightarrow> fw_floor w \<le> effective_now a w"
  by (simp add: effective_now_def Let_def)

lemma verify_chain_Ok:
  "verify_delegate_chain lib x5c pem now = Ok authority \<longleftrightarrow>
     (\<exists>leaf_der rest roots leaf. x5c = leaf_der # rest \<and> root_store lib (xt_pem_certs lib pem) [] = Ok roots
        \<and> xt_build_verifier lib roots = Ok () \<and> xt_cert_from_der lib leaf_der = Ok leaf
        \<and> xt_verify_client_cert lib roots leaf_der rest (ct_not_before leaf) = Ok () \<and> now \<le> ct_not_after leaf
        \<and> authority = \<lparr>da_leaf_der = leaf_der, da_granted_scopes = (case granted_scopes lib leaf of Some scopes \<Rightarrow> scopes | None \<Rightarrow> []),
                        da_not_before_secs = ct_not_before leaf\<rparr>)"
  by (auto simp: verify_delegate_chain_def and_then_eq_Ok not_less split: list.splits if_splits)

lemma collect_results_Cons:
  "collect_results (r # rs) = Ok ys \<longleftrightarrow> (\<exists>x xs. r = Ok x \<and> collect_results rs = Ok xs \<and> ys = x # xs)"
  by (auto simp: and_then_eq_Ok)

text \<open>A token of the delegate with this leaf certificate.\<close>

definition delegate_token :: "('p, 'k) authz_libs \<Rightarrow> access_request \<Rightarrow> certificate \<Rightarrow> bool" where
  "delegate_token lib req leaf \<longleftrightarrow>
     (\<exists>token header b64 rest leaf_der. strip_bearer (rq_bearer req) = Ok token \<and> xt_decode_header lib token = Ok header
        \<and> jh_x5c header = Some (b64 # rest) \<and> xt_b64_decode lib b64 = Ok leaf_der \<and> xt_cert_from_der lib leaf_der = Ok leaf)"

lemma bearer_of_token: "strip_bearer bearer = Ok token \<Longrightarrow> bearer \<noteq> None"
  by (cases bearer) (simp_all add: strip_bearer_def)

lemma delegate_token_authorize:
  assumes "delegate_token lib req leaf"
  obtains (refused) e where "authorize lib a req w = (w, Err e)"
  | (ratcheted) r where "authorize lib a req w = (ratchet_floor a (ct_not_before leaf) w, r)"
      "effective_now a w \<le> ct_not_after leaf"
proof -
  obtain token header b64 rest leaf_der where t: "strip_bearer (rq_bearer req) = Ok token"
    "xt_decode_header lib token = Ok header" "jh_x5c header = Some (b64 # rest)"
    "xt_b64_decode lib b64 = Ok leaf_der" "xt_cert_from_der lib leaf_der = Ok leaf"
    using assms by (auto simp: delegate_token_def)
  have b: "rq_bearer req \<noteq> None" using t(1) by (rule bearer_of_token)
  show thesis
  proof (cases "ta_pinned_root_pem a")
    case None
    then show ?thesis using t b that(1) by (simp add: authorize_def)
  next
    case (Some pem)
    then have a: "authorize lib a req w = authorize_delegated lib a token header pem req w"
      using t b by (auto simp: authorize_def)
    show ?thesis
    proof (cases "collect_results (map (xt_b64_decode lib) (b64 # rest))")
      case (Inl e)
      then show ?thesis using a t(3) that(1) by (simp add: authorize_delegated_def)
    next
      case (Inr ders)
      then obtain xs where d: "ders = leaf_der # xs" using t(4) by (auto simp: and_then_eq_Ok)
      show ?thesis
      proof (cases "verify_delegate_chain lib ders pem (effective_now a w)")
        case (Inl e)
        then show ?thesis using a t(3) Inr that(1) by (simp add: authorize_delegated_def)
      next
        case (Inr authority)
        with \<open>collect_results _ = Ok ders\<close> a t(3)
        have "authorize lib a req w = (let w' = ratchet_floor a (da_not_before_secs authority) w
            in (w', delegated_token lib a token authority req (fw_clock w')))"
          by (simp add: authorize_delegated_def)
        then show ?thesis using Inr d t(5) that(2) by (auto simp: verify_chain_Ok Let_def)
      qed
    qed
  qed
qed

lemma expired_delegate_refused:
  assumes "delegate_token lib req leaf" "ta_time_floor a" "ct_not_after leaf < fw_floor w"
  shows "\<exists>e. authorize lib a req w = (w, Err e)"
  using assms(1)
proof (cases rule: delegate_token_authorize [where a = a and w = w])
  case ratcheted
  then show ?thesis using effective_now_floor [OF assms(2), of w] assms(3) by simp
qed simp

lemma accepted_delegate_ratchets:
  assumes "delegate_token lib req leaf" "ta_time_floor a" "authorize lib a req w = (w', Ok ctx)"
  shows "ct_not_before leaf \<le> fw_floor w'"
  using assms(1)
proof (cases rule: delegate_token_authorize [where a = a and w = w])
  case ratcheted
  then show ?thesis using assms(2,3) by (simp add: ratchet_floor_def Let_def)
qed (use assms(3) in simp)

section \<open>A process with several surfaces\<close>

text \<open>
  The surfaces of a process share key store, floor and clock and have a cache each. What happens: a request
  to a surface, a clock set to any time, a new content of the key store.
\<close>

record 'k process =
  pr_keystore :: keystore
  pr_caches :: "nat \<Rightarrow> 'k cache_cell"
  pr_world :: floor_world

datatype process_event = Request nat access_request | ClockSet int | Provisioned keystore

fun process_step ::
  "('p, 'k) authz_libs \<Rightarrow> (nat \<Rightarrow> surface) \<Rightarrow> process_event \<Rightarrow> 'k process \<Rightarrow> 'k process \<times> (authz_error + client_context) option" where
  "process_step lib sur (Request n req) p =
     (let ((cell, w), r) = cached_authorize lib (sur n) (pr_keystore p) req (pr_caches p n, pr_world p)
      in (p\<lparr>pr_caches := (pr_caches p)(n := cell), pr_world := w\<rparr>, Some r))"
| "process_step lib sur (ClockSet t) p = (p\<lparr>pr_world := (pr_world p)\<lparr>fw_clock := t\<rparr>\<rparr>, None)"
| "process_step lib sur (Provisioned ks) p = (p\<lparr>pr_keystore := ks\<rparr>, None)"

fun run_events :: "('e \<Rightarrow> 's \<Rightarrow> 's \<times> 'r option) \<Rightarrow> 'e list \<Rightarrow> 's \<Rightarrow> 's \<times> 'r list" where
  "run_events step [] s = (s, [])"
| "run_events step (ev # evs) s =
     (case step ev s of (s1, r) \<Rightarrow>
      case run_events step evs s1 of (s2, rs) \<Rightarrow> (s2, (case r of Some x \<Rightarrow> x # rs | None \<Rightarrow> rs)))"

abbreviation process_run ::
  "('p, 'k) authz_libs \<Rightarrow> (nat \<Rightarrow> surface) \<Rightarrow> process_event list \<Rightarrow> 'k process \<Rightarrow> 'k process \<times> (authz_error + client_context) list" where
  "process_run lib sur \<equiv> run_events (process_step lib sur)"

lemma run_events_simulation:
  assumes "R s t"
    and "\<And>ev s t. ev \<in> set evs \<Longrightarrow> R s t \<Longrightarrow> R (fst (f ev s)) (fst (g ev t)) \<and> snd (f ev s) = snd (g ev t)"
  shows "R (fst (run_events f evs s)) (fst (run_events g evs t)) \<and> snd (run_events f evs s) = snd (run_events g evs t)"
  using assms
proof (induction evs arbitrary: s t)
  case (Cons ev evs)
  have "R (fst (f ev s)) (fst (g ev t))" "snd (f ev s) = snd (g ev t)"
    using Cons.prems(2) [of ev s t] Cons.prems(1) by simp_all
  then show ?case
    using Cons.IH [of "fst (f ev s)" "fst (g ev t)"] Cons.prems(2) by (auto simp: split_beta split: option.splits)
qed simp

definition process_start :: "keystore \<Rightarrow> floor_world \<Rightarrow> 'k process" where
  "process_start ks w = \<lparr>pr_keystore = ks, pr_caches = (\<lambda>_. None), pr_world = w\<rparr>"

lemma surface_authorizer_floor [simp]: "ta_time_floor (surface_authorizer lib su ks)"
  by (simp add: surface_authorizer_def build_authorizer_now_def Let_def with_floor_sink_def with_time_floor_def)

definition caches_floored :: "'k process \<Rightarrow> bool" where
  "caches_floored p \<longleftrightarrow> (\<forall>n m a. pr_caches p n = Some (m, a) \<longrightarrow> ta_time_floor a)"

lemma refreshed_floored:
  assumes "caches_floored p"
  shows "ta_time_floor (snd (refreshed lib su ks (pr_caches p n)))"
  using assms by (auto simp: caches_floored_def refreshed_def Let_def split: option.splits)

lemma request_step:
  "process_step lib sur (Request n req) p =
     (let cell = refreshed lib (sur n) (pr_keystore p) (pr_caches p n)
      in (p\<lparr>pr_caches := (pr_caches p)(n := Some cell), pr_world := fst (authorize lib (snd cell) req (pr_world p))\<rparr>,
          Some (snd (authorize lib (snd cell) req (pr_world p)))))"
  by (simp add: cached_authorize_def Let_def split_beta)

declare process_step.simps(1) [simp del]

lemma process_step_kept:
  assumes "caches_floored p"
  shows "caches_floored (fst (process_step lib sur ev p))
       \<and> fw_floor (pr_world p) \<le> fw_floor (pr_world (fst (process_step lib sur ev p)))"
proof (cases ev)
  case (Request n req)
  have "caches_floored (fst (process_step lib sur ev p))"
    using assms refreshed_floored [OF assms, of lib "sur n" "pr_keystore p" n] Request
    by (auto simp: caches_floored_def request_step Let_def)
  then show ?thesis using Request authorize_floor by (simp add: request_step Let_def)
qed (use assms in \<open>simp_all add: caches_floored_def\<close>)

lemma process_run_kept:
  assumes "caches_floored p"
  shows "caches_floored (fst (process_run lib sur evs p))
       \<and> fw_floor (pr_world p) \<le> fw_floor (pr_world (fst (process_run lib sur evs p)))"
  using assms
proof (induction evs arbitrary: p)
  case (Cons ev evs)
  have "fw_floor (pr_world p) \<le> fw_floor (pr_world (fst (process_step lib sur ev p)))"
    "caches_floored (fst (process_step lib sur ev p))"
    using process_step_kept [OF Cons.prems, of lib sur ev] by simp_all
  then show ?case using Cons.IH [of "fst (process_step lib sur ev p)"] by (auto simp: split_beta intro: order_trans)
qed simp

lemma start_floored: "caches_floored (process_start ks w)"
  by (simp add: caches_floored_def process_start_def)

text \<open>C22: Once a delegate's token was accepted on any surface of a process, the token of a delegate whose certificate
  ended before the other's began is refused on every surface, after any further requests and key store
  changes, and whatever the clock is set to.\<close>

theorem expired_delegate_stays_refused:
  assumes "delegate_token lib req0 newer" "delegate_token lib req leaf" "ct_not_after leaf < ct_not_before newer"
    and "snd (process_step lib sur (Request m req0) (fst (process_run lib sur evs (process_start ks w)))) = Some (Ok ctx)"
  shows "\<exists>e. snd (process_step lib sur (Request n req)
             (fst (process_run lib sur evs'
               (fst (process_step lib sur (Request m req0) (fst (process_run lib sur evs (process_start ks w)))))))) = Some (Err e)"
proof -
  define p where "p = fst (process_run lib sur evs (process_start ks w))"
  define p1 where "p1 = fst (process_step lib sur (Request m req0) p)"
  define p2 where "p2 = fst (process_run lib sur evs' p1)"
  have f: "caches_floored p" using process_run_kept [OF start_floored] unfolding p_def by blast
  have f1: "caches_floored p1" using process_step_kept [OF f] unfolding p1_def by blast
  let ?a = "snd (refreshed lib (sur m) (pr_keystore p) (pr_caches p m))"
  have "snd (authorize lib ?a req0 (pr_world p)) = Ok ctx" using assms(4) by (simp add: p_def request_step Let_def)
  then have "authorize lib ?a req0 (pr_world p) = (fst (authorize lib ?a req0 (pr_world p)), Ok ctx)"
    by (metis prod.collapse)
  then have "ct_not_before newer \<le> fw_floor (pr_world p1)"
    using accepted_delegate_ratchets [OF assms(1) refreshed_floored [OF f]] by (simp add: p1_def request_step Let_def)
  also have "\<dots> \<le> fw_floor (pr_world p2)" using process_run_kept [OF f1] unfolding p2_def by blast
  finally have "ct_not_after leaf < fw_floor (pr_world p2)" using assms(3) by simp
  moreover have "caches_floored p2" using process_run_kept [OF f1] unfolding p2_def by blast
  ultimately obtain e where
    "authorize lib (snd (refreshed lib (sur n) (pr_keystore p2) (pr_caches p2 n))) req (pr_world p2) = (pr_world p2, Err e)"
    using expired_delegate_refused [OF assms(2) refreshed_floored] by blast
  then show ?thesis
    unfolding p_def [symmetric] p1_def [symmetric] p2_def [symmetric] by (simp add: request_step Let_def)
qed

section \<open>The cache\<close>

text \<open>The reference: an authorizer built from the key store for every request.\<close>

fun fresh_step ::
  "('p, 'k) authz_libs \<Rightarrow> (nat \<Rightarrow> surface) \<Rightarrow> process_event \<Rightarrow> keystore \<times> floor_world
     \<Rightarrow> (keystore \<times> floor_world) \<times> (authz_error + client_context) option" where
  "fresh_step lib sur (Request n req) (ks, w) =
     (let (w', r) = authorize lib (surface_authorizer lib (sur n) ks) req w in ((ks, w'), Some r))"
| "fresh_step lib sur (ClockSet t) (ks, w) = ((ks, w\<lparr>fw_clock := t\<rparr>), None)"
| "fresh_step lib sur (Provisioned ks') (ks, w) = ((ks', w), None)"

definition same_answers :: "keystore \<Rightarrow> keystore \<Rightarrow> bool" where
  "same_answers k1 k2 \<longleftrightarrow> ks_public_key_der k1 = ks_public_key_der k2 \<and> ks_trust_anchor_der k1 = ks_trust_anchor_der k2"

definition stores_of :: "keystore \<Rightarrow> process_event list \<Rightarrow> keystore set" where
  "stores_of ks evs = insert ks {ks'. Provisioned ks' \<in> set evs}"

lemma surface_authorizer_cong:
  "same_answers k1 k2 \<Longrightarrow> surface_authorizer lib su k1 = surface_authorizer lib su k2"
proof -
  assume "same_answers k1 k2"
  then have "keystore_anchor k1 = keystore_anchor k2" "ks_trust_anchor_der k1 = ks_trust_anchor_der k2"
    by (simp_all add: same_answers_def keystore_anchor_def fun_eq_iff)
  then show ?thesis by (simp add: surface_authorizer_def build_authorizer_now_def)
qed

definition cache_sim :: "('p, 'k) authz_libs \<Rightarrow> (nat \<Rightarrow> surface) \<Rightarrow> keystore set \<Rightarrow> 'k process \<Rightarrow> keystore \<times> floor_world \<Rightarrow> bool" where
  "cache_sim lib sur K p s \<longleftrightarrow> s = (pr_keystore p, pr_world p) \<and> pr_keystore p \<in> K
     \<and> (\<forall>n m a. pr_caches p n = Some (m, a) \<longrightarrow> (\<exists>k\<in>K. ks_manifest_mtime k = m \<and> a = surface_authorizer lib (sur n) k))"

lemma refreshed_fresh:
  assumes "cache_sim lib sur K p s"
    and "\<And>k1 k2. k1 \<in> K \<Longrightarrow> k2 \<in> K \<Longrightarrow> ks_manifest_mtime k1 = ks_manifest_mtime k2 \<Longrightarrow> same_answers k1 k2"
  shows "refreshed lib (sur n) (pr_keystore p) (pr_caches p n)
       = (ks_manifest_mtime (pr_keystore p), surface_authorizer lib (sur n) (pr_keystore p))"
proof (cases "pr_caches p n")
  case (Some c)
  obtain m a where c: "c = (m, a)" by (cases c)
  then obtain k where k: "k \<in> K" "ks_manifest_mtime k = m" "a = surface_authorizer lib (sur n) k"
    using assms(1) Some unfolding cache_sim_def by blast
  then have "m = ks_manifest_mtime (pr_keystore p) \<Longrightarrow> a = surface_authorizer lib (sur n) (pr_keystore p)"
    using assms(1) assms(2) [of k "pr_keystore p"] surface_authorizer_cong by (auto simp: cache_sim_def)
  then show ?thesis using Some c by (simp add: refreshed_def Let_def)
qed (simp add: refreshed_def Let_def)

lemma cache_sim_step:
  assumes "cache_sim lib sur K p s" "\<And>ks. ev = Provisioned ks \<Longrightarrow> ks \<in> K"
    and "\<And>k1 k2. k1 \<in> K \<Longrightarrow> k2 \<in> K \<Longrightarrow> ks_manifest_mtime k1 = ks_manifest_mtime k2 \<Longrightarrow> same_answers k1 k2"
  shows "cache_sim lib sur K (fst (process_step lib sur ev p)) (fst (fresh_step lib sur ev s))
       \<and> snd (process_step lib sur ev p) = snd (fresh_step lib sur ev s)"
proof (cases ev)
  case (Request n req)
  then show ?thesis
    using assms(1) by (auto simp: cache_sim_def request_step refreshed_fresh [OF assms(1,3)] Let_def split_beta)
qed (use assms(1,2) in \<open>auto simp: cache_sim_def\<close>)

text \<open>C26: As long as a modification time of the manifest stands for one set of HSM answers, the surfaces with their
  caches answer every sequence of requests as if the authorizer were built anew for each request.\<close>

theorem cached_authorizer_fresh:
  assumes "\<And>k1 k2. k1 \<in> stores_of ks evs \<Longrightarrow> k2 \<in> stores_of ks evs \<Longrightarrow> ks_manifest_mtime k1 = ks_manifest_mtime k2 \<Longrightarrow> same_answers k1 k2"
  shows "snd (process_run lib sur evs (process_start ks w)) = snd (run_events (fresh_step lib sur) evs (ks, w))"
proof -
  let ?R = "cache_sim lib sur (stores_of ks evs)"
  have start: "?R (process_start ks w) (ks, w)"
    by (simp add: cache_sim_def process_start_def stores_of_def)
  show ?thesis
  proof (rule run_events_simulation [where R = ?R, THEN conjunct2], rule start)
    fix ev s and t :: "keystore \<times> floor_world"
    assume "ev \<in> set evs" "?R s t"
    then show "?R (fst (process_step lib sur ev s)) (fst (fresh_step lib sur ev t))
        \<and> snd (process_step lib sur ev s) = snd (fresh_step lib sur ev t)"
      using assms by (intro cache_sim_step) (auto simp: stores_of_def)
  qed
qed

section \<open>Scopes in a certificate\<close>

definition scope_text :: "string \<Rightarrow> bool" where
  "scope_text w \<longleftrightarrow> w \<noteq> [] \<and> list_all (\<lambda>c. 32 < (of_char c :: nat) \<and> (of_char c :: nat) < 127) w"

fun join_scopes :: "string list \<Rightarrow> string" where
  "join_scopes [] = []"
| "join_scopes [w] = w"
| "join_scopes (w # ws) = w @ CHR '' '' # join_scopes ws"

lemma ws_prefix_text: "32 < (of_char c :: nat) \<Longrightarrow> (of_char c :: nat) < 127 \<Longrightarrow> ws_prefix (c # s) = 0"
proof -
  assume c: "32 < (of_char c :: nat)" "(of_char c :: nat) < 127"
  have "hd w \<noteq> c" if "w \<in> set white_space" for w
    using that c by (auto simp: white_space_def)
  moreover have "w \<noteq> []" if "w \<in> set white_space" for w
    using that by (auto simp: white_space_def)
  ultimately have "take (length w) (c # s) \<noteq> w" if "w \<in> set white_space" for w
    using that by (metis list.sel(1) hd_take length_greater_0_conv)
  then have "find (\<lambda>w. take (length w) (c # s) = w) white_space = None"
    by (simp add: find_None_iff)
  then show ?thesis by (simp add: ws_prefix_def)
qed

lemma ws_prefix_space: "ws_prefix (CHR '' '' # s) = 1"
proof -
  have "CHR '' '' = char_of (n :: nat) \<longleftrightarrow> take_bit 8 n = 32" for n
    using char_of_eq_iff [of n "CHR '' ''"] by auto
  then show ?thesis by (simp add: ws_prefix_def white_space_def take_bit_eq_mod)
qed

lemma split_ws_text:
  "list_all (\<lambda>c. 32 < (of_char c :: nat) \<and> (of_char c :: nat) < 127) w \<Longrightarrow> split_ws acc (w @ s) = split_ws (acc @ w) s"
  by (induction w arbitrary: acc) (simp_all add: ws_prefix_text)

lemma split_join_scopes: "list_all scope_text ws \<Longrightarrow> split_whitespace (join_scopes ws) = ws"
proof (induction ws rule: join_scopes.induct)
  case (2 w)
  then show ?case using split_ws_text [of w "[]" "[]"] by (simp add: split_whitespace_def scope_text_def)
next
  case (3 w v ws)
  then show ?case
    using split_ws_text [of w "[]" "CHR '' '' # join_scopes (v # ws)"]
    by (simp add: split_whitespace_def scope_text_def ws_prefix_space)
qed (simp add: split_whitespace_def)

text \<open>C37: The scopes that are written into the rights extension of a delegate's certificate are the scopes read back from the
  certificate, wherever among other extensions it stands.\<close>

theorem granted_scopes_roundtrip:
  assumes der: "\<And>s d. xt_utf8_to_der lib s = Ok d \<Longrightarrow> xt_utf8_from_der lib d = Ok s"
    and "list_all scope_text ws" "build_extension lib (join_scopes ws) = Ok ext"
    and "ct_extensions cert = Some (before @ ext # after)" "list_all (\<lambda>e. xe_extn_id e \<noteq> DELEGATED_RIGHTS_OID) before"
  shows "granted_scopes lib cert = Some ws"
proof -
  obtain d where d: "xt_utf8_to_der lib (join_scopes ws) = Ok d" "ext = \<lparr>xe_extn_id = DELEGATED_RIGHTS_OID, xe_critical = False, xe_extn_value = d\<rparr>"
    using assms(3) by (auto simp: build_extension_def and_then_eq_Ok)
  have "find (\<lambda>e. xe_extn_id e = DELEGATED_RIGHTS_OID) before = None"
    using assms(5) by (auto simp: find_None_iff list_all_iff)
  then have "find (\<lambda>e. xe_extn_id e = DELEGATED_RIGHTS_OID) (before @ ext # after) = Some ext"
    using d(2) by (simp add: find_append)
  then show ?thesis
    using assms(2,4) d der [OF d(1)] split_join_scopes by (simp add: granted_scopes_def parse_scopes_def)
qed

section \<open>Who can authorise what\<close>

abbreviation anchor :: "surface \<Rightarrow> keystore \<Rightarrow> string \<Rightarrow> bytes option" where
  "anchor su ks \<equiv> anchor_der (keystore_anchor ks) (su_extra_anchor su)"

definition surface_audience :: "('p, 'k) authz_libs \<Rightarrow> surface \<Rightarrow> keystore \<Rightarrow> string" where
  "surface_audience lib su ks = (case ecu_id lib (anchor su ks) of Some aud \<Rightarrow> aud | None \<Rightarrow> [])"

text \<open>
  An issuer vouches for a token: the issuer's anchor may grant the capability's tier, and the token is signed with
  its key for this device. A delegate vouches for a token: its chain ends at the delegation root of the key store, its
  certificate grants the scope, and the token is signed with its key for this device.
\<close>

definition issuer_vouches ::
  "('p, 'k) authz_libs \<Rightarrow> surface \<Rightarrow> keystore \<Rightarrow> key_role \<Rightarrow> capability \<Rightarrow> string \<Rightarrow> int \<Rightarrow> claims \<Rightarrow> bool" where
  "issuer_vouches lib su ks role cap token clock claims \<longleftrightarrow>
     (\<exists>max_tier der key. (role, max_tier) \<in> set ISSUER_ANCHORS \<and> \<not> tier_lt max_tier (capability_tier cap)
        \<and> anchor su ks (role_key_id role) = Some der \<and> decoding_key_from_spki_der lib der = Ok key
        \<and> xt_decode lib token key (pinned_validation (surface_audience lib su ks) (role_key_id role)) clock = Ok claims)"

definition delegate_vouches ::
  "('p, 'k) authz_libs \<Rightarrow> surface \<Rightarrow> keystore \<Rightarrow> capability \<Rightarrow> string \<Rightarrow> u64 \<Rightarrow> int \<Rightarrow> claims \<Rightarrow> bool" where
  "delegate_vouches lib su ks cap token now clock claims \<longleftrightarrow>
     (\<exists>root pem chain authority key. ks_trust_anchor_der ks DELEGATION_ROOT_ANCHOR_ID = Ok root \<and> cert_der_to_pem lib root = Ok pem
        \<and> verify_delegate_chain lib chain pem now = Ok authority \<and> set_option (capability_scope cap) \<subseteq> set (da_granted_scopes authority)
        \<and> leaf_decoding_key lib (da_leaf_der authority) = Ok key
        \<and> xt_decode lib token key (delegated_validation (surface_audience lib su ks)) clock = Ok claims)"

text \<open>What the claims themselves must say: this boot, the component, the scope of the capability.\<close>

definition claims_cover :: "('p, 'k) authz_libs \<Rightarrow> surface \<Rightarrow> access_request \<Rightarrow> claims \<Rightarrow> bool" where
  "claims_cover lib su req claims \<longleftrightarrow>
     (su_boot_id su \<noteq> None \<longrightarrow> jc_boot_id claims = su_boot_id su)
     \<and> (\<forall>c. rq_component req = Some c \<longrightarrow> xt_can_access_component lib (context_of claims) c)
     \<and> set_option (capability_scope (rq_capability req)) \<subseteq> set (into_scopes claims)"

lemma pin_issuers_set:
  assumes "pin_issuers lib get aud anchors acc = Ok issuers" "i \<in> set issuers"
  shows "i \<in> set acc \<or> (\<exists>role max_tier der. (role, max_tier) \<in> set anchors \<and> get (role_key_id role) = Some der
     \<and> decoding_key_from_spki_der lib der = Ok (ti_key i) \<and> ti_id i = role_key_id role \<and> ti_audience i = aud \<and> ti_ceiling i = max_tier)"
  using assms by (induction lib get aud anchors acc rule: pin_issuers.induct)
    (fastforce simp: and_then_eq_Ok split: option.splits)+

lemmas builder_defs = with_floor_sink_def with_time_floor_def with_read_open_def with_boot_id_def with_aud_def
  with_pinned_root_def tiered_authorizer_new_def

lemma surface_authorizer_fields:
  fixes lib :: "('p, 'k) authz_libs" and su :: surface and ks :: keystore
  defines "a \<equiv> surface_authorizer lib su ks"
  shows "ta_expected_boot_id a = su_boot_id su" "ta_expected_epoch a = None" "ta_read_open a = su_read_open su"
    "ta_floor_sink a = su_floor_sink su"
    "ta_issuers a = [] \<and> ta_pinned_root_pem a = None \<or> pin_issuers lib (anchor su ks) (surface_audience lib su ks) ISSUER_ANCHORS [] = Ok (ta_issuers a)"
    "ta_pinned_root_pem a = Some pem \<Longrightarrow> ta_aud a = Some (surface_audience lib su ks)
       \<and> (\<exists>root. ks_trust_anchor_der ks DELEGATION_ROOT_ANCHOR_ID = Ok root \<and> cert_der_to_pem lib root = Ok pem)"
  unfolding a_def
  by (auto simp: surface_authorizer_def build_authorizer_now_def authorizer_from_anchors_def surface_audience_def
      builder_defs and_then_def map_err_def ok_def Let_def split: option.splits sum.splits if_splits)

lemma check_freshness_Ok:
  "check_freshness (surface_authorizer lib su ks) boot epoch = Ok () \<longleftrightarrow> (su_boot_id su \<noteq> None \<longrightarrow> boot = su_boot_id su)"
  by (auto simp: check_freshness_def surface_authorizer_fields split: option.splits)

lemma check_component_Ok:
  "check_component lib ctx req = Ok () \<longleftrightarrow> (\<forall>c. rq_component req = Some c \<longrightarrow> xt_can_access_component lib ctx c)"
  by (auto simp: check_component_def split: option.splits)

lemma pinned_token_vouched:
  assumes "pinned_token lib (surface_authorizer lib su ks) token header req clock = Ok ctx"
  shows "\<exists>claims role. ctx = context_of claims \<and> claims_cover lib su req claims
     \<and> issuer_vouches lib su ks role (rq_capability req) token clock claims"
proof -
  let ?a = "surface_authorizer lib su ks"
  obtain i claims where i: "find (\<lambda>i. ti_id i = the (jh_kid header)) (ta_issuers ?a) = Some i"
    "xt_decode lib token (ti_key i) (pinned_validation (ti_audience i) (ti_id i)) clock = Ok claims"
    "\<not> tier_lt (ti_ceiling i) (capability_tier (rq_capability req))" "ctx = context_of claims" "claims_cover lib su req claims"
    using assms by (auto simp: pinned_token_def and_then_eq_Ok claims_cover_def check_freshness_Ok check_component_Ok Let_def
        context_of_def split: option.splits if_splits)
  then have "i \<in> set (ta_issuers ?a)" by (auto simp: find_Some_iff)
  then obtain role der where "(role, ti_ceiling i) \<in> set ISSUER_ANCHORS" "anchor su ks (role_key_id role) = Some der"
    "decoding_key_from_spki_der lib der = Ok (ti_key i)" "ti_id i = role_key_id role" "ti_audience i = surface_audience lib su ks"
    using surface_authorizer_fields(5) [of lib su ks] pin_issuers_set [of lib "anchor su ks" "surface_audience lib su ks" ISSUER_ANCHORS "[]" "ta_issuers ?a" i]
    by auto
  then have "issuer_vouches lib su ks role (rq_capability req) token clock claims"
    using i(2,3) unfolding issuer_vouches_def by auto
  then show ?thesis using i(4,5) by blast
qed

lemma delegated_token_Ok:
  "delegated_token lib a token authority req clock = Ok ctx \<longleftrightarrow>
     (\<exists>key aud claims. leaf_decoding_key lib (da_leaf_der authority) = Ok key \<and> ta_aud a = Some aud
        \<and> xt_decode lib token key (delegated_validation aud) clock = Ok claims
        \<and> check_freshness a (jc_boot_id claims) (jc_epoch claims) = Ok () \<and> check_component lib (context_of claims) req = Ok ()
        \<and> set_option (capability_scope (rq_capability req)) \<subseteq> set (into_scopes claims) \<inter> set (da_granted_scopes authority)
        \<and> ctx = context_of claims)"
  by (cases "capability_scope (rq_capability req)")
    (auto simp: delegated_token_def and_then_eq_Ok Let_def context_of_def split: option.splits if_splits)

lemma delegated_token_vouched:
  assumes "authorize_delegated lib (surface_authorizer lib su ks) token header pem req w = (w', Ok ctx)"
    and "ta_pinned_root_pem (surface_authorizer lib su ks) = Some pem"
  shows "\<exists>claims. ctx = context_of claims \<and> claims_cover lib su req claims
     \<and> delegate_vouches lib su ks (rq_capability req) token (effective_now (surface_authorizer lib su ks) w) (fw_clock w') claims"
proof -
  let ?a = "surface_authorizer lib su ks"
  obtain chain authority where c: "verify_delegate_chain lib chain pem (effective_now ?a w) = Ok authority"
    "delegated_token lib ?a token authority req (fw_clock w') = Ok ctx"
    using assms(1) by (auto simp: authorize_delegated_def Let_def split: option.splits sum.splits)
  moreover obtain key claims where "leaf_decoding_key lib (da_leaf_der authority) = Ok key"
    "xt_decode lib token key (delegated_validation (surface_audience lib su ks)) (fw_clock w') = Ok claims"
    "ctx = context_of claims" "claims_cover lib su req claims"
    "set_option (capability_scope (rq_capability req)) \<subseteq> set (da_granted_scopes authority)"
    using c(2) surface_authorizer_fields(6) [OF assms(2)]
    by (auto simp: delegated_token_Ok claims_cover_def check_freshness_Ok check_component_Ok)
  ultimately show ?thesis using surface_authorizer_fields(6) [OF assms(2)] unfolding delegate_vouches_def by blast
qed

lemma factory_reset_role: "issuer_vouches lib su ks role FactoryReset token clock claims \<Longrightarrow> role = FactoryResetIssuer"
  by (auto simp: issuer_vouches_def ISSUER_ANCHORS_def)

text \<open>C6: A request that is not an open read is accepted only with a token whose claims cover it (this boot, the
  component, the scope) and that is signed for this device by an issuer of the key store whose tier
  suffices, for a factory reset by the factory-reset issuer, or by a delegate under the delegation root whose
  certificate grants the scope.\<close>

theorem accepted_token_vouched:
  assumes "authorize lib (surface_authorizer lib su ks) req w = (w', Ok ctx)"
    and "rq_bearer req \<noteq> None \<or> rq_capability req \<notin> {CapRead, DataRead} \<or> \<not> su_read_open su"
  shows "\<exists>token claims. strip_bearer (rq_bearer req) = Ok token \<and> ctx = context_of claims \<and> claims_cover lib su req claims
     \<and> ((\<exists>role. issuer_vouches lib su ks role (rq_capability req) token (fw_clock w) claims
             \<and> (rq_capability req = FactoryReset \<longrightarrow> role = FactoryResetIssuer))
        \<or> delegate_vouches lib su ks (rq_capability req) token
             (effective_now (surface_authorizer lib su ks) w) (fw_clock w') claims)"
proof -
  let ?a = "surface_authorizer lib su ks"
  have n: "\<not> (ta_read_open ?a \<and> rq_bearer req = None \<and> rq_capability req \<in> {CapRead, DataRead})"
    using assms(2) by (auto simp: surface_authorizer_fields)
  then consider (issuer) token header where "strip_bearer (rq_bearer req) = Ok token"
      "pinned_token lib ?a token header req (fw_clock w) = Ok ctx"
    | (delegate) token header pem where "strip_bearer (rq_bearer req) = Ok token" "ta_pinned_root_pem ?a = Some pem"
      "authorize_delegated lib ?a token header pem req w = (w', Ok ctx)"
    using assms(1) unfolding authorize_def by (simp split: sum.splits if_splits option.splits) metis+
  then show ?thesis
  proof cases
    case issuer
    then show ?thesis using pinned_token_vouched [OF issuer(2)] factory_reset_role by metis
  next
    case delegate
    then show ?thesis using delegated_token_vouched [OF delegate(3,2)] by metis
  qed
qed

lemma no_issuer_refuses:
  assumes "ta_issuers a = []" "ta_pinned_root_pem a = None" "\<not> (ta_read_open a \<and> rq_bearer req = None \<and> rq_capability req \<in> {CapRead, DataRead})"
  shows "\<exists>e. authorize lib a req w = (w, Err e)"
  using assms by (auto simp: authorize_def pinned_token_def and_then_def split: sum.splits option.splits if_splits)

text \<open>With the host clock as floor sink no request sets the clock back, provided that the system refuses times
  before the epoch.\<close>

theorem host_clock_forward:
  assumes "time_t (fw_clock w)" "su_floor_sink su = ClockDiscipliningFloorSink (\<lambda>t. 0 \<le> t \<and> s t)"
  shows "time_t (fw_clock (fst (authorize lib (surface_authorizer lib su ks) req w)))
       \<and> fw_clock w \<le> fw_clock (fst (authorize lib (surface_authorizer lib su ks) req w))"
  using host_clock.authorize_forward [OF assms(1), of "surface_authorizer lib su ks" s lib req] assms(2)
  by (simp add: surface_authorizer_fields)

lemma ws_suffix_text: "s \<noteq> [] \<Longrightarrow> 32 < (of_char (last s) :: nat) \<Longrightarrow> (of_char (last s) :: nat) < 127 \<Longrightarrow> ws_suffix s = 0"
proof -
  assume s: "s \<noteq> []" "32 < (of_char (last s) :: nat)" "(of_char (last s) :: nat) < 127"
  have "w \<noteq> [] \<and> \<not> (32 < (of_char (last w) :: nat) \<and> (of_char (last w) :: nat) < 127)" if "w \<in> set white_space" for w
    using that by (auto simp: white_space_def)
  then have "w \<noteq> [] \<and> last w \<noteq> last s" if "w \<in> set white_space" for w
    using that s(2,3) by metis
  then have "take (length w) (rev s) \<noteq> rev w" if "w \<in> set white_space" for w
    using that s(1) by (metis hd_rev hd_take length_greater_0_conv)
  then have "find (\<lambda>w. take (length w) (rev s) = rev w) white_space = None"
    by (simp add: find_None_iff)
  then show ?thesis by (simp add: ws_suffix_def)
qed

lemma trim_text: "scope_text s \<Longrightarrow> trim s = s"
proof -
  assume s: "scope_text s"
  then have "ws_suffix s = 0" by (auto simp: scope_text_def list_all_iff intro!: ws_suffix_text)
  moreover have "trim_start s = s" using s by (cases s) (simp_all add: scope_text_def ws_prefix_text)
  ultimately show ?thesis by (simp add: trim_def trim_end.simps [of s])
qed

lemma strip_bearer_text: "scope_text t \<Longrightarrow> strip_bearer (Some (''Bearer '' @ t)) = Ok t"
  by (simp add: strip_bearer_def trim_text) (simp add: scope_text_def)

section \<open>A device without the factory-reset issuer\<close>

text \<open>A key store with a delegation root and no factory-reset issuer, and two workshop delegates, one after the other.\<close>

definition rights_extension :: x509_extension where
  "rights_extension = \<lparr>xe_extn_id = DELEGATED_RIGHTS_OID, xe_critical = False, xe_extn_value = str_bytes ''factory-reset''\<rparr>"

definition workshop_leaf :: "u64 \<Rightarrow> u64 \<Rightarrow> certificate" where
  "workshop_leaf from_secs to_secs =
     \<lparr>ct_not_before = from_secs, ct_not_after = to_secs, ct_extensions = Some [rights_extension], ct_spki_der = Ok [7]\<rparr>"

definition sample_libs :: "(bytes, bytes) authz_libs" where
  "sample_libs =
     \<lparr>xt_decode_header = (\<lambda>t. Ok \<lparr>jh_kid = None, jh_x5c = Some [t]\<rparr>),
      xt_decode = (\<lambda>t k v clock. Ok \<lparr>jc_sub = ''tester'', jc_scope = Some ''factory-reset'', jc_scopes = None,
                                     jc_boot_id = Some ''b1'', jc_epoch = None\<rparr>),
      xt_can_access_component = (\<lambda>ctx c. True),
      xt_b64_decode = (\<lambda>s. Ok (str_bytes s)),
      xt_pem_certs = (\<lambda>pem. [Ok pem]), xt_root_add = (\<lambda>c. Ok ()), xt_build_verifier = (\<lambda>roots. Ok ()),
      xt_verify_client_cert = (\<lambda>roots leaf rest at. Ok ()),
      xt_cert_from_der = (\<lambda>d. Ok (if d = str_bytes ''new'' then workshop_leaf 2000 3000 else workshop_leaf 1000 1500)),
      xt_cert_to_pem = (\<lambda>c. Ok [1]),
      xt_utf8_from_der = (\<lambda>d. Ok (map (\<lambda>b. char_of (unat b)) d)), xt_utf8_to_der = (\<lambda>s. Ok (str_bytes s)),
      xt_p256_from_der = Ok, xt_p256_to_pem = (\<lambda>p. Ok ''k''), xt_key_from_ec_pem = (\<lambda>pem. Ok [7]), xt_sha256 = (\<lambda>d. d)\<rparr>"

definition sample_store :: keystore where
  "sample_store =
     \<lparr>ks_public_key_der = (\<lambda>h. Err (KeyNotFound ''k'')), ks_trust_anchor_der = (\<lambda>i. Ok [5]),
      ks_manifest_exists = True, ks_manifest_mtime = Some 1\<rparr>"

definition reset_request :: "string \<Rightarrow> access_request" where
  "reset_request token = \<lparr>rq_bearer = Some (''Bearer '' @ token), rq_component = None, rq_capability = FactoryReset\<rparr>"

abbreviation sample_surface :: surface where
  "sample_surface \<equiv> destructive NoopFloorSink None ''b1''"

definition sample_world :: floor_world where
  "sample_world = \<lparr>fw_clock = 1200, fw_floor = 0\<rparr>"

definition tester :: client_context where
  "tester = \<lparr>cx_subject = ''tester'', cx_scopes = [''factory-reset'']\<rparr>"

lemma sample_anchor: "anchor sample_surface sample_store key_id = None"
  by (simp add: anchor_der_def keystore_anchor_def sample_store_def destructive_def ok_def bind_eq_None_conv)

lemma sample_authorizer:
  "surface_authorizer sample_libs sample_surface sample_store =
     \<lparr>ta_issuers = [], ta_expected_boot_id = Some ''b1'', ta_expected_epoch = None, ta_pinned_root_pem = Some [1], ta_aud = Some [],
      ta_read_open = False, ta_time_floor = True, ta_floor_sink = NoopFloorSink\<rparr>"
  using sample_anchor
  by (simp add: surface_authorizer_def build_authorizer_now_def authorizer_from_anchors_def ISSUER_ANCHORS_def ecu_id_def
      cert_der_to_pem_def builder_defs ok_def map_err_def destructive_def sample_libs_def sample_store_def Let_def)

lemma str_bytes_back: "map (\<lambda>b. char_of (unat b)) (str_bytes s) = s"
  using str_bytes_char [of "str_bytes s"] by simp

lemma sample_evaluated:
  "strip_bearer (Some (''Bearer '' @ ''new'')) = Ok ''new''" "strip_bearer (Some (''Bearer '' @ ''old'')) = Ok ''old''"
  "str_bytes ''old'' \<noteq> str_bytes ''new''" "map (\<lambda>b. char_of (unat b)) (str_bytes ''factory-reset'') = ''factory-reset''"
  "split_whitespace ''factory-reset'' = [''factory-reset'']"
  using strip_bearer_text [of "''new''"] strip_bearer_text [of "''old''"] split_join_scopes [of "[''factory-reset'']"]
  by (simp_all add: scope_text_def str_bytes_back)

lemma sample_accepted:
  "authorize sample_libs (surface_authorizer sample_libs sample_surface sample_store) (reset_request ''new'') sample_world
     = (sample_world\<lparr>fw_floor := 2000\<rparr>, Ok tester)"
  unfolding sample_authorizer authorize_def reset_request_def
  using sample_evaluated
  by (simp add: authorize_delegated_def sample_libs_def verify_delegate_chain_def map_err_def workshop_leaf_def
      effective_now_def sample_world_def granted_scopes_def parse_scopes_def rights_extension_def ratchet_floor_def NoopFloorSink_def
      delegated_token_def leaf_decoding_key_def check_freshness_def check_component_def context_of_def into_scopes_def tester_def)

lemma sample_tokens:
  "delegate_token sample_libs (reset_request ''new'') (workshop_leaf 2000 3000)"
  "delegate_token sample_libs (reset_request ''old'') (workshop_leaf 1000 1500)"
  using sample_evaluated by (simp_all add: delegate_token_def sample_libs_def reset_request_def)

lemma reset_without_issuer:
  "anchor sample_surface sample_store (role_key_id FactoryResetIssuer) = None
   \<and> snd (authorize sample_libs (surface_authorizer sample_libs sample_surface sample_store) (reset_request ''new'') sample_world) = Ok tester"
  by (simp add: sample_anchor sample_accepted)

theorem accepted_token_vouched_witness:
  "\<exists>token claims. strip_bearer (rq_bearer (reset_request ''new'')) = Ok token \<and> tester = context_of claims
     \<and> claims_cover sample_libs sample_surface (reset_request ''new'') claims
     \<and> ((\<exists>role. issuer_vouches sample_libs sample_surface sample_store role FactoryReset token 1200 claims \<and> role = FactoryResetIssuer)
        \<or> delegate_vouches sample_libs sample_surface sample_store FactoryReset token 1200 1200 claims)"
  using accepted_token_vouched [OF sample_accepted]
  by (simp add: reset_request_def sample_world_def sample_authorizer effective_now_def)

lemma sample_step:
  "snd (process_step sample_libs (\<lambda>n. sample_surface) (Request 0 (reset_request ''new'')) (process_start sample_store sample_world)) = Some (Ok tester)"
  by (simp add: request_step refreshed_def process_start_def sample_accepted Let_def)

theorem expired_delegate_stays_refused_witness:
  "\<exists>e. snd (process_step sample_libs (\<lambda>n. sample_surface) (Request 0 (reset_request ''old''))
      (fst (process_run sample_libs (\<lambda>n. sample_surface) [ClockSet 0]
        (fst (process_step sample_libs (\<lambda>n. sample_surface) (Request 0 (reset_request ''new'')) (process_start sample_store sample_world)))))) = Some (Err e)"
  using expired_delegate_stays_refused [OF sample_tokens, of "\<lambda>n. sample_surface" 0 "[]" sample_store sample_world tester 0 "[ClockSet 0]"] sample_step
  by (simp add: workshop_leaf_def)

theorem host_clock_forward_witness:
  "1200 \<le> fw_clock (fst (authorize sample_libs (surface_authorizer sample_libs (destructive (ClockDiscipliningFloorSink (\<lambda>t. 0 \<le> t \<and> True)) None ''b1'') sample_store)
      (reset_request ''new'') sample_world))"
  using host_clock_forward [of sample_world "destructive (ClockDiscipliningFloorSink (\<lambda>t. 0 \<le> t \<and> True)) None ''b1''" "\<lambda>t. True" sample_libs sample_store
      "reset_request ''new''"]
  by (simp add: sample_world_def time_t_def destructive_def)

theorem cached_authorizer_fresh_witness:
  "snd (process_run sample_libs (\<lambda>n. sample_surface) [Request 0 (reset_request ''new''), Provisioned (sample_store\<lparr>ks_trust_anchor_der := (\<lambda>i. Err NotProvisioned), ks_manifest_mtime := Some 2\<rparr>),
        Request 0 (reset_request ''new'')] (process_start sample_store sample_world))
   = snd (run_events (fresh_step sample_libs (\<lambda>n. sample_surface)) [Request 0 (reset_request ''new''),
        Provisioned (sample_store\<lparr>ks_trust_anchor_der := (\<lambda>i. Err NotProvisioned), ks_manifest_mtime := Some 2\<rparr>), Request 0 (reset_request ''new'')] (sample_store, sample_world))"
  by (rule cached_authorizer_fresh) (auto simp: stores_of_def same_answers_def sample_store_def)

theorem granted_scopes_roundtrip_witness:
  "granted_scopes sample_libs (workshop_leaf 1000 1500) = Some [''factory-reset'']"
  by (rule granted_scopes_roundtrip [where before = "[]" and after = "[]" and ext = rights_extension])
    (auto simp: sample_libs_def str_bytes_back scope_text_def build_extension_def rights_extension_def workshop_leaf_def)

end
