(* ===== verification/Spec2Isabelle.thy ===== *)
theory Spec2Isabelle
  imports NvProps NvOps TrialProps StoreFaults NodeProps BootProps BailOut Did ServeProps LogProps LinkBProps IvdProps
    BankProviderProps FinalizeProps PartitionProps AuthzProps
begin

text \<open>
  Verification of the machine manager of a vehicle computer: the durable boot state of its
  components, the update transaction of the node, and the virtual HSM its guests use. File names
  below are relative to \<^verbatim>\<open>src/\<close>.

  \<^bold>\<open>The program.\<close> A node has bank sets (A/B pairs of images), one per component. Which bank each set
  boots is kept twice: per set in the NV store, a raw device of sectors, and for the node as a whole
  in the boot vector, a signed selection with a committed copy (the floor). An update installs
  images into the inactive banks (\<^verbatim>\<open>component-mgr/src/ota.rs\<close>), stages the new selection with the
  system bank manager and seals it, which starts a trial; after the reboot a verdict commits or
  rolls back. Boots of a trial are counted, and a trial that is not committed is given up by the
  boot stage (\<^verbatim>\<open>boot\<close>) or by the node (\<^verbatim>\<open>machine-mgr/src/machine.rs\<close>). The coordinator
  (\<^verbatim>\<open>node_update.rs\<close>) lets one transaction at a time run. Guests reach keys through the vHSM daemon
  (\<^verbatim>\<open>services/vhsm-ssd\<close>, \<^verbatim>\<open>crates/vhsm-server\<close>): they enrol once, authenticate each connection with a
  certificate and a signature over a nonce, and each request passes the policy (\<^verbatim>\<open>policy-eval\<close>), the
  handle table and its permissions before the crypto provider is called, and is audited in a
  rotating log (\<^verbatim>\<open>log-rotate\<close>).

  \<^bold>\<open>Theories and code.\<close> Properties are in the theories named \<open>...Props\<close> unless said otherwise.
  \<^item> \<open>Prelude\<close>: words, bytes, results, little-endian codec, UTF-8.
  \<^item> \<open>NvTypes\<close>, \<open>NvRecords\<close>: \<^verbatim>\<open>crates/nv-store/src/types.rs\<close>, the record types and their layouts.
  \<^item> \<open>NvStore\<close>, \<open>NvProps\<close>, \<open>NvOps\<close>: \<^verbatim>\<open>block.rs\<close> and \<^verbatim>\<open>store.rs\<close>, the sector store: round trips, torn writes,
    every typed read and write. \<open>NvView\<close> is its abstract content.
  \<^item> \<open>Selector\<close>, \<open>BootRecord\<close>: \<^verbatim>\<open>selector.rs\<close> and \<^verbatim>\<open>boot_record.rs\<close>, the boot vector, the store contract and the
    adapters that implement it. \<open>RecordStore\<close> proves the contract (locale \<open>selector_store\<close>) for them,
    \<open>StoreFaults\<close> what failing writes leave.
  \<^item> \<open>SystemBank\<close>, \<open>SystemProps\<close>, \<open>TrialProps\<close>: \<^verbatim>\<open>crates/machine-mgr/src/system_bank_state.rs\<close>; the manager over
    any store of the contract, its restart, seal, verdict and trial properties.
  \<^item> \<open>NodeUpdate\<close>, \<open>NodeProps\<close>: \<^verbatim>\<open>node_update.rs\<close>, phases, the session gate and staging.
  \<^item> \<open>BootMgr\<close>, \<open>BootProps\<close>: \<^verbatim>\<open>crates/boot/src/lib.rs\<close>, the boot stage.
  \<^item> \<open>Machine\<close>, \<open>MachineProps\<close>, \<open>BailOut\<close>: \<^verbatim>\<open>machine.rs\<close>, the registry, the seed of the boot vector from NV
    and the node's own rollback.
  \<^item> \<open>Ota\<close>, \<open>OtaProps\<close>: \<^verbatim>\<open>crates/component-mgr/src/ota.rs\<close>, refinement to operations on the abstract content
    and the anti-rollback floor over any history. \<open>Did\<close>: \<^verbatim>\<open>did.rs\<close>.
  \<^item> \<open>VhsmProto\<close>: \<^verbatim>\<open>crates/vhsm-proto\<close>, codes and framing over a peer that fragments and interrupts.
  \<^item> \<open>PolicyEval\<close>, \<open>Iam\<close>, \<open>IamProps\<close>: \<^verbatim>\<open>crates/policy-eval\<close> and \<^verbatim>\<open>vhsm-server/src/iam.rs\<close>.
  \<^item> \<open>HandleTable\<close>, \<open>VhsmHandler\<close>, \<open>VhsmProps\<close>: \<^verbatim>\<open>handle_table.rs\<close> and \<^verbatim>\<open>handler.rs\<close>.
  \<^item> \<open>Bootstrap\<close>, \<open>Cert\<close>, \<open>VhsmAuth\<close>, \<open>AuthProps\<close>: \<^verbatim>\<open>bootstrap.rs\<close>, \<^verbatim>\<open>cert.rs\<close>, \<^verbatim>\<open>auth.rs\<close>; who is authenticated and
    that an enrolment happens once (locale \<open>enrolment_fact\<close>).
  \<^item> \<open>VhsmClient\<close>, \<open>ClientProps\<close>: \<^verbatim>\<open>crates/vhsm-client/src/auth\<close>, client and daemon together.
  \<^item> \<open>LinkB\<close>, \<open>LinkBProps\<close>: \<^verbatim>\<open>crates/hsm-link-b\<close> and \<^verbatim>\<open>crates/hsm/src/link_b.rs\<close>, the wire to the HSM service, its client and
    its server; a provider over the wire behaves as the provider that serves it.
  \<^item> \<open>Ivd\<close>, \<open>IvdProps\<close>: \<^verbatim>\<open>crates/hsm/src/ivd.rs\<close>, the signed manifest of a bank, and \<^verbatim>\<open>services/sumo-verify\<close>, the launch
    check: what it accepts, signing that is interrupted, the disable record.
  \<^item> \<open>BankSeed\<close>, \<open>BankProvider\<close>, \<open>BankProviderProps\<close>: \<^verbatim>\<open>bank_seed.rs\<close> and \<^verbatim>\<open>bank_provider.rs\<close> of \<^verbatim>\<open>crates/component-mgr\<close>, the
    directories of a bank set with NV and boot vector: staging, sealing, activation and verdict.
  \<^item> \<open>Flash\<close>, \<open>Intake\<close>: \<^verbatim>\<open>crates/component-mgr/src/backend.rs\<close>, the flash session of a component over any bank provider, its
    uploads, reset and verdict. \<open>FlashProps\<close>: what an upload leaves untouched, proved in the locale
    \<open>staging_provider\<close>; \<open>SessionProps\<close>: the type of a session and its end; \<open>FinalizeProps\<close>: a sealed and
    finalized bank launches, and what a failed seal and an upload outside a session lead to.
  \<^item> \<open>PartitionBank\<close>, \<open>PartitionProps\<close>: \<^verbatim>\<open>partition_bank_provider.rs\<close>, banks on raw partitions, the second provider
    that meets \<open>staging_provider\<close>.
  \<^item> \<open>Secstore\<close>: \<^verbatim>\<open>crates/secstore\<close>. \<open>LogRotate\<close>, \<open>LogProps\<close>: \<^verbatim>\<open>crates/log-rotate\<close>. \<open>AuditLog\<close>: \<^verbatim>\<open>audit.rs\<close>.
  \<^item> \<open>VhsmServe\<close>, \<open>ServeProps\<close>: start-up, dispatch and connection loops of the daemon (\<^verbatim>\<open>serve.rs\<close>,
    \<^verbatim>\<open>crossnode.rs\<close>, \<^verbatim>\<open>extension_manifest.rs\<close>, \<^verbatim>\<open>main.rs\<close>).
  \<^item> \<open>Authz\<close>, \<open>AuthzProps\<close>: \<^verbatim>\<open>crates/component-mgr/src/sovd\<close> (\<^verbatim>\<open>authz.rs\<close>, \<^verbatim>\<open>delegation.rs\<close>, \<^verbatim>\<open>delegated_rights.rs\<close>,
    \<^verbatim>\<open>issuer_keys.rs\<close>, \<^verbatim>\<open>identity.rs\<close>, \<^verbatim>\<open>hsm_authorizer.rs\<close>, \<^verbatim>\<open>time_floor.rs\<close>) and \<^verbatim>\<open>crates/host-clock\<close>: which token a
    request is accepted with, the safe-time floor under any clock, the cache against a fresh build, the
    contract of floor sinks (locale \<open>forward_sink\<close>).

  \<^bold>\<open>Conventions.\<close> A struct is a record, an enum a datatype, integers keep their width; a \<open>Result\<close> is a
  sum with \<open>Err\<close> on the left; a panic is an error value where the code can reach it. State is passed
  explicitly. Outcomes of the outside (random bytes, clocks, file system calls, what a peer sends) are
  arguments. Loops are structural recursion over the data or \<open>function\<close> with a measure, so every
  operation is total and no fuel is used.

  \<^bold>\<open>Parameters.\<close> CRC-32, SHA-256, signatures, COSE and CBOR, YAML and JSON, JWT, X.509 and the crypto
  provider are arguments of the definitions that use them; theorems that need more than a function
  state it as a hypothesis (\<open>yaml_laws\<close>, \<open>yaml_doc_law\<close>, \<open>cose_laws\<close>, \<open>key_pair\<close>) and have a witness with a
  concrete instance.

  \<^bold>\<open>Not modelled.\<close> Of the component manager the HTTP routes (\<^verbatim>\<open>sovd/routes.rs\<close>), the streaming pipeline that decrypts and
  decompresses payloads (\<^verbatim>\<open>streaming.rs\<close>, an argument of the flash session), the SUIT decoder and
  validator (arguments too), diagnostic data and faults, and the update catalog; the VM and app
  managers and their devices, the HSM core and its simulation, policy partitions, host services and
  command-line tools: asynchronous I/O over external services and libraries. Logging, metrics and
  display texts are left out except where code parses them. Part names with separators that lead out
  of a bank directory are outside the file model.
\<close>

end
